(* ===== verification/Prelude.thy ===== *)
theory Prelude
  imports Main "HOL-Library.Word" "HOL-Library.Char_ord" "HOL-Library.List_Lexorder"
    "HOL-Library.Product_Lexorder" "HOL-Library.Option_ord"
    "HOL-Library.Multiset" "HOL-Library.Code_Target_Nat"
begin

text \<open>
  Shared vocabulary of the development: machine integers, results, and the operations of the
  Rust standard library on \<open>str\<close> that the modelled code uses.

  A Rust \<open>str\<close> is its UTF-8 byte sequence: a \<open>string\<close>, whose \<open>char\<close> is a byte. The byte order
  of \<open>str\<close>'s \<open>Ord\<close> is the lexicographic order of lists over the order of \<open>char\<close>. Operations that
  look at Unicode scalars (\<open>trim\<close>, \<open>char::is_whitespace\<close>, \<open>char::is_control\<close>) are written over
  the UTF-8 encodings of the scalars they test.

  A Rust \<open>u64\<close> that is printed, parsed or multiplied is a \<open>64 word\<close>; lengths, indices and line
  numbers (\<open>usize\<close>, bounded by the memory that holds the text) are \<open>nat\<close>.
\<close>

section \<open>Rule collections\<close>

named_theorems result_simps "introduction and inversion of results"
named_theorems str_simps "equations on text"

section \<open>Machine integers and results\<close>

type_synonym u32 = "32 word"
type_synonym u64 = "64 word"

type_synonym ('a, 'e) result = "'e + 'a"

text \<open>An operation that can also panic returns \<open>Inl Panic\<close> where the code unwinds.\<close>

datatype 'e fault = Err 'e | Panic

definition u64_max :: nat where
  "u64_max = 2 ^ 64 - 1"

definition saturating_mul64 :: "u64 \<Rightarrow> u64 \<Rightarrow> u64" where
  "saturating_mul64 a b =
     (if unat a * unat b < 2 ^ 64 then a * b else word_of_nat u64_max)"

definition checked_add64 :: "u64 \<Rightarrow> u64 \<Rightarrow> u64 option" where
  "checked_add64 a b = (if unat a + unat b < 2 ^ 64 then Some (a + b) else None)"

fun rbind :: "'e + 'a \<Rightarrow> ('a \<Rightarrow> 'e + 'b) \<Rightarrow> 'e + 'b" where
  "rbind (Inl e) f = Inl e"
| "rbind (Inr x) f = f x"

definition ensure :: "bool \<Rightarrow> 'e \<Rightarrow> 'e + unit" where
  "ensure b e = (if b then Inr () else Inl e)"

fun map_err :: "('e \<Rightarrow> 'f) \<Rightarrow> 'e + 'a \<Rightarrow> 'f + 'a" where
  "map_err f (Inl e) = Inl (f e)"
| "map_err f (Inr x) = Inr x"

definition ok_or :: "'e \<Rightarrow> 'a option \<Rightarrow> 'e + 'a" where
  "ok_or e m = (case m of None \<Rightarrow> Inl e | Some x \<Rightarrow> Inr x)"

text \<open>\<open>iter().map(f).collect::<Result<Vec<_>, _>>()\<close>: the first error wins.\<close>

fun traverse :: "('a \<Rightarrow> 'e + 'b) \<Rightarrow> 'a list \<Rightarrow> 'e + 'b list" where
  "traverse f [] = Inr []"
| "traverse f (x # xs) = rbind (f x) (\<lambda>y. rbind (traverse f xs) (\<lambda>ys. Inr (y # ys)))"

text \<open>\<open>Iterator::find_map\<close>.\<close>

fun find_map :: "('a \<Rightarrow> 'b option) \<Rightarrow> 'a list \<Rightarrow> 'b option" where
  "find_map f [] = None"
| "find_map f (x # xs) = (case f x of None \<Rightarrow> find_map f xs | Some y \<Rightarrow> Some y)"

text \<open>A loop that only checks: the first error ends it.\<close>

fun check_all :: "('a \<Rightarrow> 'e + unit) \<Rightarrow> 'a list \<Rightarrow> 'e + unit" where
  "check_all f [] = Inr ()"
| "check_all f (x # xs) = rbind (f x) (\<lambda>_. check_all f xs)"

definition is_ok :: "'e + 'a \<Rightarrow> bool" where
  "is_ok r = (case r of Inl _ \<Rightarrow> False | Inr _ \<Rightarrow> True)"

lemma rbind_Inr_iff [result_simps]:
  "rbind m f = Inr y \<longleftrightarrow> (\<exists>x. m = Inr x \<and> f x = Inr y)"
  by (cases m) auto

lemma rbind_Inl_iff [result_simps]:
  "rbind m f = Inl e \<longleftrightarrow> m = Inl e \<or> (\<exists>x. m = Inr x \<and> f x = Inl e)"
  by (cases m) auto

lemma ensure_Inr_iff [result_simps]: "ensure b e = Inr u \<longleftrightarrow> b"
  by (simp add: ensure_def)

lemma ensure_Inl_iff [result_simps]: "ensure b e = Inl e' \<longleftrightarrow> \<not> b \<and> e = e'"
  by (auto simp: ensure_def)

lemma map_err_Inr_iff [result_simps]: "map_err f m = Inr x \<longleftrightarrow> m = Inr x"
  by (cases m) auto

lemma ok_or_Inr_iff [result_simps]: "ok_or e m = Inr x \<longleftrightarrow> m = Some x"
  by (auto simp: ok_or_def split: option.splits)

lemma is_ok_value: "is_ok r \<Longrightarrow> r = Inr (case r of Inr x \<Rightarrow> x | Inl _ \<Rightarrow> y)"
  by (cases r) (simp_all add: is_ok_def)

lemma is_ok_iff [result_simps]: "is_ok r \<longleftrightarrow> (\<exists>x. r = Inr x)"
  by (auto simp: is_ok_def split: sum.splits)

lemma traverse_Inr_iff [result_simps]:
  "traverse f xs = Inr ys \<longleftrightarrow> list_all2 (\<lambda>x y. f x = Inr y) xs ys"
  by (induction xs arbitrary: ys) (auto simp: rbind_Inr_iff list_all2_Cons1)

lemma check_all_Inr_iff [result_simps]: "check_all f xs = Inr u \<longleftrightarrow> (\<forall>x\<in>set xs. f x = Inr ())"
  by (induction xs) (auto simp: rbind_Inr_iff)

lemma checked_add64_Some_iff:
  "checked_add64 a b = Some c \<longleftrightarrow> unat c = unat a + unat b"
proof
  assume "checked_add64 a b = Some c"
  then show "unat c = unat a + unat b"
    using unat_add_lem [of a b] by (auto simp: checked_add64_def split: if_splits)
next
  assume *: "unat c = unat a + unat b"
  have "unat c < 2 ^ 64" using unsigned_less [of c] by simp
  then have lt: "unat a + unat b < 2 ^ 64" using * by simp
  have "unat (a + b) = unat c" using lt * unat_add_lem [of a b] by simp
  then have "a + b = c" by (simp add: unsigned_word_eqI)
  with lt show "checked_add64 a b = Some c" by (simp add: checked_add64_def)
qed

section \<open>Bytes and ASCII\<close>

definition byte :: "char \<Rightarrow> nat" where
  "byte c = of_char c"

definition is_digit :: "char \<Rightarrow> bool" where
  "is_digit c \<longleftrightarrow> 48 \<le> byte c \<and> byte c \<le> 57"

definition is_lower :: "char \<Rightarrow> bool" where
  "is_lower c \<longleftrightarrow> 97 \<le> byte c \<and> byte c \<le> 122"

definition ascii_lower :: "char \<Rightarrow> char" where
  "ascii_lower c = (if 65 \<le> byte c \<and> byte c \<le> 90 then char_of (byte c + 32) else c)"

abbreviation nl :: char where "nl \<equiv> CHR 0x0A"
abbreviation cr :: char where "cr \<equiv> CHR 0x0D"
abbreviation tab :: char where "tab \<equiv> CHR 0x09"
abbreviation slash :: char where "slash \<equiv> CHR ''/''"
abbreviation backslash :: char where "backslash \<equiv> CHR 0x5C"
abbreviation backtick :: char where "backtick \<equiv> CHR 0x60"

section \<open>Rust string operations\<close>

definition starts_with :: "string \<Rightarrow> string \<Rightarrow> bool" where
  "starts_with s p \<longleftrightarrow> take (length p) s = p"

definition ends_with :: "string \<Rightarrow> string \<Rightarrow> bool" where
  "ends_with s p \<longleftrightarrow> length p \<le> length s \<and> drop (length s - length p) s = p"

definition strip_prefix :: "string \<Rightarrow> string \<Rightarrow> string option" where
  "strip_prefix s p = (if starts_with s p then Some (drop (length p) s) else None)"

definition strip_suffix :: "string \<Rightarrow> string \<Rightarrow> string option" where
  "strip_suffix s p = (if ends_with s p then Some (take (length s - length p) s) else None)"

text \<open>\<open>str::find\<close> with a string pattern: the byte index of the first occurrence.\<close>

fun find_sub :: "string \<Rightarrow> string \<Rightarrow> nat option" where
  "find_sub p [] = (if p = [] then Some 0 else None)"
| "find_sub p (c # cs) = (if starts_with (c # cs) p then Some 0 else map_option Suc (find_sub p cs))"

definition contains_sub :: "string \<Rightarrow> string \<Rightarrow> bool" where
  "contains_sub s p \<longleftrightarrow> find_sub p s \<noteq> None"

definition split_once :: "string \<Rightarrow> string \<Rightarrow> (string \<times> string) option" where
  "split_once s p = map_option (\<lambda>i. (take i s, drop (i + length p) s)) (find_sub p s)"

text \<open>\<open>str::split\<close> on one ASCII character: one piece more than there are separators.\<close>

fun split_char :: "char \<Rightarrow> string \<Rightarrow> string list" where
  "split_char c [] = [[]]"
| "split_char c (x # xs) =
     (case split_char c xs of
        [] \<Rightarrow> []
      | p # ps \<Rightarrow> if x = c then [] # p # ps else (x # p) # ps)"

fun join :: "string \<Rightarrow> string list \<Rightarrow> string" where
  "join sep [] = []"
| "join sep [x] = x"
| "join sep (x # y # r) = x @ sep @ join sep (y # r)"

text \<open>
  \<open>str::lines\<close>: split after each line feed, dropping it and one carriage return before it. The
  last piece has no line feed: it keeps its carriage return, and is no line when it is empty.
\<close>

definition strip_cr :: "string \<Rightarrow> string" where
  "strip_cr s = (case strip_suffix s [cr] of Some t \<Rightarrow> t | None \<Rightarrow> s)"

fun lines_from :: "string \<Rightarrow> string \<Rightarrow> string list" where
  "lines_from acc [] = (if acc = [] then [] else [rev acc])"
| "lines_from acc (c # cs) =
     (if c = nl then strip_cr (rev acc) # lines_from [] cs else lines_from (c # acc) cs)"

definition str_lines :: "string \<Rightarrow> string list" where
  "str_lines s = lines_from [] s"

text \<open>
  The Unicode \<open>White_Space\<close> scalars in UTF-8: U+0009--U+000D, U+0020, U+0085, U+00A0, U+1680,
  U+2000--U+200A, U+2028, U+2029, U+202F, U+205F, U+3000.
\<close>

definition white_space :: "string list" where
  "white_space =
     [[CHR 0x09], [CHR 0x0A], [CHR 0x0B], [CHR 0x0C], [CHR 0x0D], [CHR 0x20],
      [CHR 0xC2, CHR 0x85], [CHR 0xC2, CHR 0xA0], [CHR 0xE1, CHR 0x9A, CHR 0x80]]
     @ map (\<lambda>b. [CHR 0xE2, CHR 0x80, char_of b])
         ([0x80 ..< 0x8B] @ [0xA8, 0xA9, 0xAF :: nat])
     @ [[CHR 0xE2, CHR 0x81, CHR 0x9F], [CHR 0xE3, CHR 0x80, CHR 0x80]]"

text \<open>
  Trimming, for a pattern given as the list of encodings it matches. The strings are valid
  UTF-8, so an encoding that is a prefix (suffix) of the bytes is the first (last) scalar.
\<close>

function trim_start_of :: "string list \<Rightarrow> string \<Rightarrow> string" where
  "trim_start_of ps s =
     (case find (\<lambda>p. p \<noteq> [] \<and> starts_with s p) ps of
        None \<Rightarrow> s | Some p \<Rightarrow> trim_start_of ps (drop (length p) s))"
  by pat_completeness auto
termination
proof (relation "measure (\<lambda>(ps, s). length s)")
  fix ps :: "string list" and s p
  assume "find (\<lambda>p. p \<noteq> [] \<and> starts_with s p) ps = Some p"
  then have "p \<noteq> []" and "take (length p) s = p"
    by (auto simp: find_Some_iff starts_with_def)
  then have "p \<noteq> [] \<and> s \<noteq> []" by auto
  then show "((ps, drop (length p) s), ps, s) \<in> measure (\<lambda>(ps, s). length s)" by simp
qed simp

declare trim_start_of.simps [simp del]

definition trim_end_of :: "string list \<Rightarrow> string \<Rightarrow> string" where
  "trim_end_of ps s = rev (trim_start_of (map rev ps) (rev s))"

definition trim_of :: "string list \<Rightarrow> string \<Rightarrow> string" where
  "trim_of ps s = trim_end_of ps (trim_start_of ps s)"

definition trim :: "string \<Rightarrow> string" where
  "trim s = trim_of white_space s"

definition has_white_space :: "string \<Rightarrow> bool" where
  "has_white_space s \<longleftrightarrow> list_ex (contains_sub s) white_space"

definition starts_with_white_space :: "string \<Rightarrow> bool" where
  "starts_with_white_space s \<longleftrightarrow> list_ex (starts_with s) white_space"

text \<open>\<open>char::is_control\<close> is U+0000--U+001F and U+007F--U+009F.\<close>

fun has_control :: "string \<Rightarrow> bool" where
  "has_control [] \<longleftrightarrow> False"
| "has_control (c # cs) \<longleftrightarrow>
     byte c < 32 \<or> byte c = 127
     \<or> (byte c = 0xC2 \<and> (case cs of [] \<Rightarrow> False | d # _ \<Rightarrow> 0x80 \<le> byte d \<and> byte d \<le> 0x9F))
     \<or> has_control cs"

text \<open>A value between single quotes, as the messages print it.\<close>

definition quoted :: "string \<Rightarrow> string" where
  "quoted s = CHR 0x27 # s @ [CHR 0x27]"

section \<open>Decimal text\<close>

definition digit_char :: "nat \<Rightarrow> char" where
  "digit_char d = char_of (48 + d)"

definition digit_val :: "char \<Rightarrow> nat" where
  "digit_val c = byte c - 48"

fun show_nat :: "nat \<Rightarrow> string" where
  "show_nat n = (if n < 10 then [digit_char n] else show_nat (n div 10) @ [digit_char (n mod 10)])"

declare show_nat.simps [simp del]

definition show_u64 :: "u64 \<Rightarrow> string" where
  "show_u64 n = show_nat (unat n)"

text \<open>\<open>{:0width$}\<close>: padded on the left with zeros to the width, never cut.\<close>

definition zero_pad :: "nat \<Rightarrow> string \<Rightarrow> string" where
  "zero_pad w s = replicate (w - length s) (CHR ''0'') @ s"

definition digits_val :: "string \<Rightarrow> nat" where
  "digits_val s = foldl (\<lambda>a c. a * 10 + digit_val c) 0 s"

text \<open>\<open>str::parse::<u64>\<close>: an optional plus sign, at least one digit, no overflow.\<close>

definition parse_u64 :: "string \<Rightarrow> u64 option" where
  "parse_u64 s =
     (let body = (case s of [] \<Rightarrow> [] | c # r \<Rightarrow> if c = CHR ''+'' then r else s)
      in if body \<noteq> [] \<and> list_all is_digit body \<and> digits_val body < 2 ^ 64
         then Some (word_of_nat (digits_val body)) else None)"

section \<open>Facts on text\<close>

lemma find_SomeD: "find P xs = Some x \<Longrightarrow> x \<in> set xs \<and> P x"
  by (auto simp: find_Some_iff)

lemma find_None_iff_ex: "find P xs = None \<longleftrightarrow> (\<forall>x \<in> set xs. \<not> P x)"
  by (auto simp: find_None_iff)

lemma starts_with_iff: "starts_with s p \<longleftrightarrow> (\<exists>r. s = p @ r)"
  by (auto simp: starts_with_def) (metis append_take_drop_id)

lemma ends_with_iff: "ends_with s p \<longleftrightarrow> (\<exists>r. s = r @ p)"
  by (auto simp: ends_with_def) (metis append_take_drop_id)

lemma starts_with_append [simp]: "starts_with (p @ r) p"
  by (simp add: starts_with_def)

lemma starts_with_Nil [simp]: "starts_with s []"
  by (simp add: starts_with_def)

lemma starts_with_Cons [simp]:
  "starts_with [] (c # p) = False" "starts_with (d # s) (c # p) \<longleftrightarrow> c = d \<and> starts_with s p"
  by (auto simp: starts_with_def)

lemma strip_prefix_Some_iff [str_simps]: "strip_prefix s p = Some r \<longleftrightarrow> s = p @ r"
  by (auto simp: strip_prefix_def starts_with_iff)

lemma strip_suffix_Some_iff [str_simps]: "strip_suffix s p = Some r \<longleftrightarrow> s = r @ p"
  by (auto simp: strip_suffix_def ends_with_iff)

lemma strip_prefix_append [simp]: "strip_prefix (p @ r) p = Some r"
  by (simp add: strip_prefix_Some_iff)

lemma strip_prefix_simps [simp]:
  "strip_prefix s [] = Some s" "strip_prefix [] (d # p) = None"
  "strip_prefix (c # s) (d # p) = (if c = d then strip_prefix s p else None)"
  by (simp_all add: strip_prefix_def)

lemma strip_suffix_append [simp]: "strip_suffix (r @ p) p = Some r"
  by (simp add: strip_suffix_Some_iff)

lemma split_char_not_Nil [simp]: "split_char c s \<noteq> []"
  by (induction s) (auto split: list.splits)

lemma join_split_char: "join [c] (split_char c s) = s"
proof (induction s)
  case (Cons x s)
  obtain p ps where *: "split_char c s = p # ps"
    by (cases "split_char c s") auto
  with Cons show ?case by (cases ps) auto
qed simp

lemma split_char_no_sep: "p \<in> set (split_char c s) \<Longrightarrow> c \<notin> set p"
proof (induction s arbitrary: p)
  case (Cons x s)
  obtain q qs where *: "split_char c s = q # qs"
    by (cases "split_char c s") auto
  with Cons show ?case by (auto split: if_splits)
qed simp

lemma split_char_id: "c \<notin> set s \<Longrightarrow> split_char c s = [s]"
  by (induction s) auto

lemma split_char_Cons_sep [simp]: "split_char c (c # s) = [] # split_char c s"
  using split_char_not_Nil [of c s] by (auto split: list.splits)

lemma split_char_append_sep:
  "split_char c (s @ c # t) = split_char c s @ split_char c t"
  by (induction s) (auto split: list.splits)

lemma find_sub_None_char: "find_sub [c] s = None \<longleftrightarrow> c \<notin> set s"
  by (induction s) (auto simp: split: if_splits)

lemma contains_char_iff [simp]: "contains_sub s [c] \<longleftrightarrow> c \<in> set s"
  by (simp add: contains_sub_def find_sub_None_char)

lemma find_sub_Some:
  "find_sub p s = Some i \<Longrightarrow> s = take i s @ p @ drop (i + length p) s"
proof (induction s arbitrary: i)
  case (Cons c cs)
  show ?case
  proof (cases "starts_with (c # cs) p")
    case True
    with Cons.prems show ?thesis by (auto simp: starts_with_iff)
  next
    case False
    with Cons.prems obtain j where "find_sub p cs = Some j" and "i = Suc j" by auto
    with Cons.IH [of j] show ?thesis by simp
  qed
qed (auto split: if_splits)

lemma trim_start_keeps:
  "(\<forall>p\<in>set ps. c \<notin> set p) \<Longrightarrow> c \<in> set s \<Longrightarrow> c \<in> set (trim_start_of ps s)"
proof (induction ps s rule: trim_start_of.induct)
  case (1 ps s)
  show ?case
  proof (cases "find (\<lambda>p. p \<noteq> [] \<and> starts_with s p) ps")
    case None with "1.prems" show ?thesis by (simp add: trim_start_of.simps [of ps s])
  next
    case (Some p)
    then have p: "p \<in> set ps" "s = p @ drop (length p) s"
      by (auto simp: find_Some_iff starts_with_def) (metis append_take_drop_id)
    then have "c \<in> set (drop (length p) s)" using "1.prems" by (metis Un_iff set_append)
    from "1.IH" [OF Some "1.prems"(1) this] show ?thesis by (simp add: trim_start_of.simps [of ps s] Some)
  qed
qed

lemma trim_not_Nil:
  assumes "c \<in> set s" "\<forall>p\<in>set white_space. c \<notin> set p"
  shows "trim s \<noteq> []"
proof -
  have "c \<in> set (trim_start_of white_space s)" using assms by (simp add: trim_start_keeps)
  then have "c \<in> set (trim_start_of (map rev white_space) (rev (trim_start_of white_space s)))"
    using assms(2) by (intro trim_start_keeps) auto
  then show ?thesis by (auto simp: trim_def trim_of_def trim_end_of_def)
qed

lemma find_sub_absent: "c \<in> set p \<Longrightarrow> c \<notin> set s \<Longrightarrow> find_sub p s = None"
proof (rule ccontr)
  assume c: "c \<in> set p" "c \<notin> set s" and "find_sub p s \<noteq> None"
  then obtain i where "s = take i s @ p @ drop (i + length p) s" using find_sub_Some by blast
  then have "set p \<subseteq> set s" by (metis Un_iff set_append subsetI)
  then show False using c by blast
qed

lemma split_once_Some: "split_once s p = Some (a, b) \<Longrightarrow> s = a @ p @ b"
  by (auto simp: split_once_def dest: find_sub_Some)

section \<open>Facts on decimal text\<close>

lemma unat_u64_bound: "unat (n :: u64) < 2 ^ 64"
  using unsigned_less [of n] by simp

lemma byte_digit_char: "d < 10 \<Longrightarrow> byte (digit_char d) = 48 + d"
  by (simp add: byte_def digit_char_def)

lemma digit_val_digit_char [simp]: "d < 10 \<Longrightarrow> digit_val (digit_char d) = d"
  by (simp add: digit_val_def byte_digit_char)

lemma is_digit_digit_char [simp]: "d < 10 \<Longrightarrow> is_digit (digit_char d)"
  by (simp add: is_digit_def byte_digit_char)

lemma show_nat_digits: "list_all is_digit (show_nat n)"
proof (induction n rule: show_nat.induct)
  case (1 n)
  then show ?case by (subst show_nat.simps) auto
qed

lemma show_nat_not_Nil [simp]: "show_nat n \<noteq> []"
  by (subst show_nat.simps) simp

lemma digits_val_snoc: "digits_val (s @ [c]) = digits_val s * 10 + digit_val c"
  by (simp add: digits_val_def)

lemma digits_val_show_nat [simp]: "digits_val (show_nat n) = n"
proof (induction n rule: show_nat.induct)
  case (1 n)
  show ?case
  proof (cases "n < 10")
    case True
    then show ?thesis by (subst show_nat.simps) (simp add: digits_val_def)
  next
    case False
    with "1.IH" show ?thesis by (subst show_nat.simps) (simp add: digits_val_snoc)
  qed
qed

lemma digits_val_zeros: "digits_val (replicate k (CHR ''0'') @ s) = digits_val s"
  by (induction k) (auto simp: digits_val_def digit_val_def byte_def)

lemma zero_pad_digits: "list_all is_digit s \<Longrightarrow> list_all is_digit (zero_pad w s)"
  by (auto simp: zero_pad_def is_digit_def byte_def list_all_iff)

lemma digits_val_zero_pad [simp]: "digits_val (zero_pad w s) = digits_val s"
  by (simp add: zero_pad_def digits_val_zeros)

lemma zero_pad_not_Nil [simp]: "s \<noteq> [] \<Longrightarrow> zero_pad w s \<noteq> []"
  by (simp add: zero_pad_def)

lemma is_digit_not_plus: "is_digit c \<Longrightarrow> c \<noteq> CHR ''+''"
  by (auto simp: is_digit_def byte_def)

lemma is_lower_not_digit: "is_lower c \<Longrightarrow> \<not> is_digit c"
  by (auto simp: is_lower_def is_digit_def)

lemma parse_u64_digits:
  assumes "list_all is_digit s" and "s \<noteq> []"
  shows "parse_u64 s =
    (if digits_val s < 2 ^ 64 then Some (word_of_nat (digits_val s)) else None)"
  using assms by (cases s) (auto simp: parse_u64_def is_digit_not_plus)

lemma takeWhile_digits_append:
  "list_all P ds \<Longrightarrow> takeWhile P (ds @ rest) = ds @ takeWhile P rest"
  by (induction ds) auto

section \<open>Slash-separated paths\<close>

text \<open>The component test the repository applies wherever it accepts a relative path.\<close>

text \<open>The components of a path, and \<open>Path::file_name\<close> (empty where there is none).\<close>

definition path_comps :: "string \<Rightarrow> string list" where
  "path_comps p = filter (\<lambda>c. c \<noteq> [] \<and> c \<noteq> ''.'') (split_char slash p)"

definition path_file_name :: "string \<Rightarrow> string" where
  "path_file_name p = (case rev (path_comps p) of [] \<Rightarrow> [] | n # _ \<Rightarrow> if n = ''..'' then [] else n)"

definition bad_component :: "string \<Rightarrow> bool" where
  "bad_component p \<longleftrightarrow> p = [] \<or> p = ''.'' \<or> p = ''..''"

definition has_bad_component :: "string \<Rightarrow> bool" where
  "has_bad_component s \<longleftrightarrow> list_ex bad_component (split_char slash s)"

lemma has_bad_component_dir [simp]: "has_bad_component (s @ [slash])"
  by (simp add: has_bad_component_def split_char_append_sep bad_component_def list_ex_iff)

section \<open>Three-way comparison\<close>

datatype cmp_ordering = Less | Equal | Greater

definition cmp_of :: "'a::linorder \<Rightarrow> 'a \<Rightarrow> cmp_ordering" where
  "cmp_of a b = (if a < b then Less else if a = b then Equal else Greater)"

fun then_with :: "cmp_ordering \<Rightarrow> cmp_ordering \<Rightarrow> cmp_ordering" where
  "then_with Equal c = c"
| "then_with c _ = c"

lemma cmp_of_pair: "cmp_of (a, b) (c, d) = then_with (cmp_of a c) (cmp_of b d)"
  by (auto simp: cmp_of_def less_prod_def less_eq_prod_def)

lemma cmp_of_simps [simp]:
  "cmp_of a b = Equal \<longleftrightarrow> a = b" "cmp_of a b = Less \<longleftrightarrow> a < b"
  "cmp_of a b = Greater \<longleftrightarrow> b < a"
  by (auto simp: cmp_of_def)

section \<open>Sorted lists and maps keyed by a projection\<close>

text \<open>
  \<open>sort_by\<close> of the Rust library is a stable sort, and so is \<open>sort_key\<close>. A \<open>BTreeMap\<close> collected from
  pairs keeps the last value of a key.
\<close>

definition collect_map :: "('a \<times> 'b) list \<Rightarrow> 'a \<Rightarrow> 'b option" where
  "collect_map xs = map_of (rev xs)"

definition sorted_keys :: "('a::linorder \<times> 'b) list \<Rightarrow> 'a list" where
  "sorted_keys xs = sort (remdups (map fst xs))"

lemma dom_collect_map: "collect_map xs k \<noteq> None \<longleftrightarrow> k \<in> fst ` set xs"
  by (auto simp: collect_map_def map_of_eq_None_iff)

lemma collect_map_None_iff: "collect_map xs k = None \<longleftrightarrow> k \<notin> fst ` set xs"
  by (auto simp: collect_map_def map_of_eq_None_iff)

lemma collect_map_Some_in: "collect_map xs k = Some v \<Longrightarrow> (k, v) \<in> set xs"
  by (auto simp: collect_map_def dest: map_of_SomeD)

lemma collect_map_distinct:
  assumes "distinct (map fst xs)" and "(k, v) \<in> set xs"
  shows "collect_map xs k = Some v"
  using assms by (simp add: collect_map_def rev_map [symmetric] distinct_map)

lemma set_sorted_keys [simp]: "set (sorted_keys xs) = fst ` set xs"
  by (simp add: sorted_keys_def)

lemma distinct_sorted_keys [simp]: "distinct (sorted_keys xs)"
  by (simp add: sorted_keys_def)

lemma sorted_sorted_keys [simp]: "sorted (sorted_keys xs)"
  by (simp add: sorted_keys_def)

lemma length_takeWhile_less: "\<exists>x \<in> set xs. \<not> P x \<Longrightarrow> length (takeWhile P xs) < length xs"
  by (induction xs) auto

lemma pair_le_fst: "(p :: 'a::linorder \<times> 'b::linorder) \<le> q \<Longrightarrow> fst p \<le> fst q"
  by (auto simp: less_eq_prod_def)

lemma find_sorted_least:
  assumes "find P (sort_key f xs) = Some x"
  shows "x \<in> set xs \<and> P x \<and> (\<forall>y \<in> set xs. P y \<longrightarrow> f x \<le> f y)"
proof -
  obtain i where i: "i < length xs" "x = sort_key f xs ! i" "P x"
    and first: "\<forall>j<i. \<not> P (sort_key f xs ! j)"
    using assms by (auto simp: find_Some_iff)
  have "f x \<le> f y" if y: "y \<in> set xs" "P y" for y
  proof -
    obtain j where j: "j < length xs" "sort_key f xs ! j = y"
      using y(1) in_set_conv_nth [of y "sort_key f xs"] by auto
    with first y(2) have "i \<le> j" by (meson not_le)
    moreover have "sorted (map f (sort_key f xs))" by simp
    ultimately show ?thesis using i j sorted_nth_mono [of "map f (sort_key f xs)" i j] by simp
  qed
  moreover have "x \<in> set xs" using i by (metis length_sort nth_mem set_sort)
  ultimately show ?thesis using i(3) by blast
qed

end
