(* ===== verification/Utf8.thy ===== *)
theory Utf8
  imports Prelude
begin

text \<open>
  UTF-8 as the Rust standard library reads it: validation (\<open>str::from_utf8\<close>) and the replacement of
  ill-formed sequences (\<open>String::from_utf8_lossy\<close>).
\<close>

text \<open>
  \<open>str::from_utf8\<close>: well-formed UTF-8, without surrogates, overlong forms or scalars above U+10FFFF.
\<close>

definition continuation :: "char \<Rightarrow> bool" where
  "continuation c \<longleftrightarrow> 0x80 \<le> byte c \<and> byte c \<le> 0xBF"

definition utf8_pair :: "char \<Rightarrow> char \<Rightarrow> bool" where
  "utf8_pair a b \<longleftrightarrow>
     (if byte a = 0xE0 then 0xA0 \<le> byte b \<and> byte b \<le> 0xBF
      else if byte a = 0xED then 0x80 \<le> byte b \<and> byte b \<le> 0x9F
      else if byte a = 0xF0 then 0x90 \<le> byte b \<and> byte b \<le> 0xBF
      else if byte a = 0xF4 then 0x80 \<le> byte b \<and> byte b \<le> 0x8F
      else continuation b)"

primrec utf8_rest :: "nat \<Rightarrow> string \<Rightarrow> string option" where
  "utf8_rest 0 s = Some s"
| "utf8_rest (Suc n) s =
     (case s of [] \<Rightarrow> None | c # cs \<Rightarrow> if continuation c then utf8_rest n cs else None)"

primrec utf8_valid_fuel :: "nat \<Rightarrow> string \<Rightarrow> bool" where
  "utf8_valid_fuel 0 s \<longleftrightarrow> s = []"
| "utf8_valid_fuel (Suc n) s \<longleftrightarrow>
     (case s of
        [] \<Rightarrow> True
      | c # cs \<Rightarrow>
        if byte c < 0x80 then utf8_valid_fuel n cs
        else let k = (if 0xC2 \<le> byte c \<and> byte c \<le> 0xDF then 1
                      else if 0xE0 \<le> byte c \<and> byte c \<le> 0xEF then 2
                      else if 0xF0 \<le> byte c \<and> byte c \<le> 0xF4 then 3 else (0 :: nat))
          in k \<noteq> 0 \<and> cs \<noteq> [] \<and> utf8_pair c (hd cs)
             \<and> (case utf8_rest k cs of None \<Rightarrow> False | Some r \<Rightarrow> utf8_valid_fuel n r))"

definition utf8_valid :: "string \<Rightarrow> bool" where
  "utf8_valid s = utf8_valid_fuel (length s) s"

text \<open>
  \<open>from_utf8_lossy\<close>: a well-formed scalar is kept, each maximal ill-formed prefix becomes U+FFFD.
\<close>

definition utf8_tail :: "char \<Rightarrow> nat" where
  "utf8_tail c =
     (if 0xC2 \<le> byte c \<and> byte c \<le> 0xDF then 1
      else if 0xE0 \<le> byte c \<and> byte c \<le> 0xEF then 2
      else if 0xF0 \<le> byte c \<and> byte c \<le> 0xF4 then 3 else 0)"

definition bad_prefix :: "char \<Rightarrow> string \<Rightarrow> nat" where
  "bad_prefix c cs =
     (if utf8_tail c = 0 \<or> cs = [] \<or> \<not> utf8_pair c (hd cs) then 1
      else 2 + length (takeWhile continuation (take (utf8_tail c - 1) (tl cs))))"

definition replacement_char :: string where
  "replacement_char = [CHR 0xEF, CHR 0xBF, CHR 0xBD]"

primrec utf8_lossy_fuel :: "nat \<Rightarrow> string \<Rightarrow> string" where
  "utf8_lossy_fuel 0 s = []"
| "utf8_lossy_fuel (Suc n) s =
     (case s of
        [] \<Rightarrow> []
      | c # cs \<Rightarrow>
        let k = utf8_tail c;
            good = (byte c < 0x80 \<or> (k \<noteq> 0 \<and> cs \<noteq> [] \<and> utf8_pair c (hd cs) \<and> utf8_rest k cs \<noteq> None));
            used = (if byte c < 0x80 then 1 else if good then k + 1 else bad_prefix c cs) in
        (if good then take used s else replacement_char) @ utf8_lossy_fuel n (drop used s))"

definition utf8_lossy :: "string \<Rightarrow> string" where
  "utf8_lossy s = utf8_lossy_fuel (length s) s"

lemma utf8_rest_drop: "utf8_rest k s = Some r \<Longrightarrow> k \<le> length s \<and> r = drop k s"
  by (induction k arbitrary: s) (auto split: list.splits if_splits)

lemma utf8_lossy_fuel_valid:
  "utf8_valid_fuel n s \<Longrightarrow> utf8_lossy_fuel n s = s"
proof (induction n arbitrary: s)
  case (Suc n)
  show ?case
  proof (cases s)
    case (Cons c cs)
    show ?thesis
    proof (cases "byte c < 0x80")
      case True
      then show ?thesis using Suc Cons by simp
    next
      case False
      let ?k = "utf8_tail c"
      from Suc.prems Cons False obtain r where
        k: "?k \<noteq> 0" "cs \<noteq> []" "utf8_pair c (hd cs)" and r: "utf8_rest ?k cs = Some r"
        and v: "utf8_valid_fuel n r"
        by (auto simp: Let_def utf8_tail_def split: option.splits if_splits)
      have "utf8_lossy_fuel (Suc n) s = take (?k + 1) s @ utf8_lossy_fuel n (drop (?k + 1) s)"
        using False k r Cons by (simp add: Let_def)
      also have "drop (?k + 1) s = r" using utf8_rest_drop [OF r] Cons by simp
      also have "utf8_lossy_fuel n r = r" by (rule Suc.IH [OF v])
      finally show ?thesis using utf8_rest_drop [OF r] Cons by simp
    qed
  qed simp
qed simp

lemma utf8_lossy_valid: "utf8_valid s \<Longrightarrow> utf8_lossy s = s"
  by (simp add: utf8_lossy_def utf8_valid_def utf8_lossy_fuel_valid)

end
