(* ===== verification/Prd_Identity.thy ===== *)
theory Prd_Identity
  imports Utf8
begin

text \<open>
  The identity of a PRD, \<open>crates/familiar-ai-core/src/backlog.rs\<close>: the type \<open>PrdId\<close> with its order and
  display form, the backlog profiles, and the grammars that read an identity from a file name
  (\<open>filename_identity\<close>) and from a dependency token (\<open>parse_prd_id\<close>).
\<close>

section \<open>PrdId\<close>

datatype prd_rendering = Canonical_Rendering | NumberedSlug_Rendering nat

record prd_id =
  id_number :: u64
  id_suffix :: "char option"
  id_rendering :: prd_rendering

definition prd_new :: "u64 \<Rightarrow> prd_id" where
  "prd_new n = \<lparr>id_number = n, id_suffix = None, id_rendering = Canonical_Rendering\<rparr>"

definition prd_with_suffix :: "u64 \<Rightarrow> char option \<Rightarrow> prd_id" where
  "prd_with_suffix n s = \<lparr>id_number = n, id_suffix = s, id_rendering = Canonical_Rendering\<rparr>"

definition prd_numbered_slug :: "u64 \<Rightarrow> char option \<Rightarrow> nat \<Rightarrow> prd_id" where
  "prd_numbered_slug n s w =
     \<lparr>id_number = n, id_suffix = s, id_rendering = NumberedSlug_Rendering w\<rparr>"

definition prd_eq :: "prd_id \<Rightarrow> prd_id \<Rightarrow> bool" where
  "prd_eq a b \<longleftrightarrow> id_number a = id_number b \<and> id_suffix a = id_suffix b"

text \<open>A suffixed identity precedes the umbrella identity of the same number.\<close>

fun suffix_cmp :: "char option \<Rightarrow> char option \<Rightarrow> cmp_ordering" where
  "suffix_cmp (Some a) (Some b) = cmp_of a b"
| "suffix_cmp (Some _) None = Less"
| "suffix_cmp None (Some _) = Greater"
| "suffix_cmp None None = Equal"

definition prd_cmp :: "prd_id \<Rightarrow> prd_id \<Rightarrow> cmp_ordering" where
  "prd_cmp a b =
     then_with (cmp_of (id_number a) (id_number b)) (suffix_cmp (id_suffix a) (id_suffix b))"

definition show_prd_id :: "prd_id \<Rightarrow> string" where
  "show_prd_id p =
     (case id_rendering p of
        Canonical_Rendering \<Rightarrow> ''PRD-'' @ show_u64 (id_number p)
      | NumberedSlug_Rendering w \<Rightarrow> ''PRD '' @ zero_pad w (show_u64 (id_number p)))
     @ (case id_suffix p of None \<Rightarrow> [] | Some c \<Rightarrow> [c])"

text \<open>
  The order and the equality read the same key, so lists of identities sort by \<open>sort_key prd_key\<close> and
  maps over identities are maps over keys.
\<close>

definition suffix_rank :: "char option \<Rightarrow> nat" where
  "suffix_rank s = (case s of Some c \<Rightarrow> byte c | None \<Rightarrow> 256)"

definition prd_key :: "prd_id \<Rightarrow> u64 \<times> nat" where
  "prd_key p = (id_number p, suffix_rank (id_suffix p))"

lemma byte_inj [simp]: "byte c = byte d \<longleftrightarrow> c = d"
  by (simp add: byte_def)

lemma byte_less_iff: "byte c < byte d \<longleftrightarrow> c < d"
  by (simp add: byte_def less_char_def)

lemma byte_less_256 [simp]: "byte c < 256"
  by (simp add: byte_def)

lemma suffix_rank_inj: "suffix_rank s = suffix_rank t \<longleftrightarrow> s = t"
  by (auto simp: suffix_rank_def split: option.splits)
    (metis byte_less_256 less_irrefl_nat)+

lemma suffix_cmp_rank: "suffix_cmp s t = cmp_of (suffix_rank s) (suffix_rank t)"
proof -
  have "cmp_of a b = cmp_of (byte a) (byte b)" for a b
    by (auto simp: cmp_of_def byte_less_iff)
  moreover have "byte a < 256" "\<not> 256 < byte a" "byte a \<noteq> 256" "256 \<noteq> byte a" for a
    using byte_less_256 [of a] by linarith+
  ultimately show ?thesis
    by (cases s; cases t) (auto simp: suffix_rank_def cmp_of_def)
qed

lemma prd_cmp_key: "prd_cmp a b = cmp_of (prd_key a) (prd_key b)"
  by (simp add: prd_cmp_def prd_key_def cmp_of_pair suffix_cmp_rank)

lemma prd_eq_key: "prd_eq a b \<longleftrightarrow> prd_key a = prd_key b"
  by (simp add: prd_eq_def prd_key_def suffix_rank_inj)

section \<open>Profiles\<close>

datatype backlog_profile = Canonical | NumberedSlug

definition parse_profile :: "string \<Rightarrow> string + backlog_profile" where
  "parse_profile v =
     (if v = ''canonical'' then Inr Canonical
      else if v = ''numbered-slug'' then Inr NumberedSlug
      else Inl (''unknown backlog profile '' @ quoted v))"

definition show_profile :: "backlog_profile \<Rightarrow> string" where
  "show_profile p = (case p of Canonical \<Rightarrow> ''canonical'' | NumberedSlug \<Rightarrow> ''numbered-slug'')"

section \<open>Reading an identity\<close>

text \<open>The optional single lowercase letter after the digits; \<open>None\<close> for any other text.\<close>

fun letter_suffix :: "string \<Rightarrow> char option option" where
  "letter_suffix [] = Some None"
| "letter_suffix [c] = (if is_lower c then Some (Some c) else None)"
| "letter_suffix _ = None"

definition canonical_filename_identity ::
    "string \<Rightarrow> (string + u64 \<times> char option \<times> nat) option" where
  "canonical_filename_identity name =
     (case strip_prefix name ''PRD-'' of None \<Rightarrow> None | Some rest \<Rightarrow>
     (case strip_suffix rest ''.md'' of None \<Rightarrow> None | Some identity \<Rightarrow>
       let digits = takeWhile is_digit identity in
       if digits = [] then None
       else (case letter_suffix (drop (length digits) identity) of None \<Rightarrow> None | Some suffix \<Rightarrow>
         Some (case parse_u64 digits of
             Some n \<Rightarrow> Inr (n, suffix, 0)
           | None \<Rightarrow> Inl ''filename number overflows u64''))))"

definition numbered_slug_filename_identity ::
    "string \<Rightarrow> (string + u64 \<times> char option \<times> nat) option" where
  "numbered_slug_filename_identity name =
     (case strip_suffix name ''.md'' of None \<Rightarrow> None | Some stem \<Rightarrow>
     (case split_once stem ''-'' of None \<Rightarrow> None | Some (identity, slug) \<Rightarrow>
       if slug = [] then Some (Inl ''slug must not be empty'')
       else let digits = takeWhile is_digit identity in
       if digits = [] \<or> 6 < length digits
       then Some (Inl ''filename identity must contain one to six ASCII digits'')
       else (case letter_suffix (drop (length digits) identity) of
           None \<Rightarrow> Some (Inl ''filename suffix must be one optional ASCII lowercase letter'')
         | Some suffix \<Rightarrow>
             Some (case parse_u64 digits of
                 Some n \<Rightarrow> Inr (n, suffix, length digits)
               | None \<Rightarrow> Inl ''filename number overflows u64''))))"

definition filename_identity ::
    "string \<Rightarrow> backlog_profile \<Rightarrow> (string + u64 \<times> char option \<times> nat) option" where
  "filename_identity name profile =
     (case profile of Canonical \<Rightarrow> canonical_filename_identity name
                    | NumberedSlug \<Rightarrow> numbered_slug_filename_identity name)"

definition parse_prd_id :: "string \<Rightarrow> backlog_profile \<Rightarrow> string + prd_id" where
  "parse_prd_id token profile =
     rbind
       (case strip_prefix token ''PRD-'' of
          Some raw \<Rightarrow> Inr (raw, Canonical_Rendering)
        | None \<Rightarrow>
          (case strip_prefix token ''PRD '' of
             Some raw \<Rightarrow> Inr (raw, NumberedSlug_Rendering (length (takeWhile is_digit raw)))
           | None \<Rightarrow> Inl (''invalid dependency token '' @ quoted token)))
       (\<lambda>(raw, rendering).
         let digits = takeWhile is_digit raw in
         if digits = [] then Inl (''invalid dependency token '' @ quoted token)
         else (case letter_suffix (drop (length digits) raw) of
             None \<Rightarrow> Inl (''ambiguous dependency or range '' @ quoted token)
           | Some suffix \<Rightarrow>
             (case parse_u64 digits of
                None \<Rightarrow> Inl (''dependency '' @ quoted token @ '' overflows u64'')
              | Some n \<Rightarrow> Inr
                  \<lparr>id_number = n, id_suffix = suffix,
                   id_rendering = (case profile of Canonical \<Rightarrow> Canonical_Rendering
                                                 | NumberedSlug \<Rightarrow> rendering)\<rparr>)))"

section \<open>What the grammars accept\<close>

lemma letter_suffix_Some: "letter_suffix t = Some s \<Longrightarrow> (\<forall>c. s = Some c \<longrightarrow> is_lower c)"
  by (cases t rule: letter_suffix.cases) (auto split: if_splits)

text \<open>A suffix as an identity prints it.\<close>

definition show_suffix :: "char option \<Rightarrow> string" where
  "show_suffix s = (case s of None \<Rightarrow> [] | Some c \<Rightarrow> [c])"

definition lower_suffix :: "char option \<Rightarrow> bool" where
  "lower_suffix s \<longleftrightarrow> (case s of None \<Rightarrow> True | Some c \<Rightarrow> is_lower c)"

lemma letter_suffix_show [simp]: "lower_suffix s \<Longrightarrow> letter_suffix (show_suffix s) = Some s"
  by (auto simp: show_suffix_def lower_suffix_def split: option.splits)

lemma takeWhile_digits_suffix:
  assumes "list_all is_digit ds" and "lower_suffix s"
  shows "takeWhile is_digit (ds @ show_suffix s) = ds"
  using assms
  by (auto simp: takeWhile_digits_append show_suffix_def lower_suffix_def is_lower_not_digit
      split: option.splits)

lemma show_u64_facts:
  "list_all is_digit (show_u64 n)" "show_u64 n \<noteq> []" "digits_val (show_u64 n) = unat n"
  by (simp_all add: show_u64_def show_nat_digits)

lemma parse_u64_padded:
  "parse_u64 (zero_pad w (show_u64 n)) = Some n"
  by (subst parse_u64_digits)
    (use unat_u64_bound [of n] in \<open>simp_all add: zero_pad_digits show_u64_facts\<close>)

lemma parse_u64_show [simp]: "parse_u64 (show_u64 n) = Some n"
  using parse_u64_padded [of 0 n] by (simp add: zero_pad_def)

lemma strip_prefix_PRD_space [simp]: "strip_prefix (''PRD '' @ s) ''PRD-'' = None"
  by (simp add: strip_prefix_def)

text \<open>The digit string an identity prints, and the width its rendering keeps.\<close>

definition printed_digits :: "prd_id \<Rightarrow> string" where
  "printed_digits p =
     (case id_rendering p of Canonical_Rendering \<Rightarrow> show_u64 (id_number p)
      | NumberedSlug_Rendering w \<Rightarrow> zero_pad w (show_u64 (id_number p)))"

lemma printed_digits_facts:
  "list_all is_digit (printed_digits p)" "printed_digits p \<noteq> []"
  "parse_u64 (printed_digits p) = Some (id_number p)"
  by (auto simp: printed_digits_def zero_pad_digits show_u64_facts parse_u64_padded
      split: prd_rendering.splits)

lemma show_prd_id_printed:
  "show_prd_id p =
     (case id_rendering p of Canonical_Rendering \<Rightarrow> ''PRD-'' | NumberedSlug_Rendering w \<Rightarrow> ''PRD '')
     @ printed_digits p @ show_suffix (id_suffix p)"
  by (auto simp: show_prd_id_def printed_digits_def show_suffix_def split: prd_rendering.splits)

definition reread_rendering :: "prd_id \<Rightarrow> backlog_profile \<Rightarrow> prd_rendering" where
  "reread_rendering p profile =
     (case profile of Canonical \<Rightarrow> Canonical_Rendering
      | NumberedSlug \<Rightarrow>
        (case id_rendering p of Canonical_Rendering \<Rightarrow> Canonical_Rendering
         | NumberedSlug_Rendering w \<Rightarrow> NumberedSlug_Rendering (length (printed_digits p))))"

lemma parse_show_prd_id:
  assumes "lower_suffix (id_suffix p)"
  shows "parse_prd_id (show_prd_id p) profile = Inr (p\<lparr>id_rendering := reread_rendering p profile\<rparr>)"
  using assms printed_digits_facts [of p] takeWhile_digits_suffix [of "printed_digits p" "id_suffix p"]
  by (cases "id_rendering p"; cases profile)
    (auto simp: parse_prd_id_def show_prd_id_printed reread_rendering_def Let_def)

lemma zero_pad_length: "length (zero_pad w s) = max w (length s)"
  by (simp add: zero_pad_def)

lemma zero_pad_reread: "zero_pad (length (zero_pad w s)) s = zero_pad w s"
  by (simp add: zero_pad_length) (simp add: zero_pad_def max_def)

lemma show_reread:
  assumes "profile = NumberedSlug \<or> id_rendering p = Canonical_Rendering"
  shows "show_prd_id (p\<lparr>id_rendering := reread_rendering p profile\<rparr>) = show_prd_id p"
  using assms
  by (cases "id_rendering p"; cases profile)
    (auto simp: show_prd_id_def reread_rendering_def printed_digits_def zero_pad_reread)

text \<open>What a canonical file name and a numbered slug name look like when they are accepted.\<close>

lemma canonical_filename_accepts:
  assumes "lower_suffix s"
  shows "filename_identity (''PRD-'' @ zero_pad w (show_u64 n) @ show_suffix s @ ''.md'') Canonical
           = Some (Inr (n, s, 0))"
proof -
  let ?ds = "zero_pad w (show_u64 n)"
  have strip: "strip_suffix (?ds @ show_suffix s @ ''.md'') ''.md'' = Some (?ds @ show_suffix s)"
    using strip_suffix_append [of "?ds @ show_suffix s" "''.md''"] by simp
  have "takeWhile is_digit (?ds @ show_suffix s) = ?ds"
    by (rule takeWhile_digits_suffix) (simp_all add: assms zero_pad_digits show_u64_facts)
  then show ?thesis
    using assms strip
    by (simp add: filename_identity_def canonical_filename_identity_def Let_def parse_u64_padded
        show_u64_facts)
qed

lemma filename_identity_suffix:
  "filename_identity name profile = Some (Inr (n, s, w)) \<Longrightarrow> lower_suffix s"
  by (auto simp: filename_identity_def canonical_filename_identity_def
      numbered_slug_filename_identity_def Let_def lower_suffix_def
      split: backlog_profile.splits option.splits if_splits prod.splits sum.splits
      dest: letter_suffix_Some)

lemma filename_identity_md:
  "filename_identity name profile = Some r \<Longrightarrow> ends_with name ''.md''"
  by (auto simp: filename_identity_def canonical_filename_identity_def str_simps ends_with_iff
      numbered_slug_filename_identity_def
      split: backlog_profile.splits option.splits if_splits prod.splits)

section \<open>Properties\<close>

text \<open>
  the order on identities is a strict linear order that agrees with equality and puts a
  suffixed identity before the umbrella identity of its number, whatever the renderings.
\<close>

lemma prd_order_total:
  "(prd_cmp a b = Equal \<longleftrightarrow> prd_eq a b) \<and> (prd_cmp a b = Less \<longleftrightarrow> prd_cmp b a = Greater)
   \<and> (prd_cmp a b = Less \<and> prd_cmp b c = Less \<longrightarrow> prd_cmp a c = Less)
   \<and> (id_number a = id_number b \<and> id_suffix a \<noteq> None \<and> id_suffix b = None \<longrightarrow> prd_cmp a b = Less)"
proof -
  have "id_number a = id_number b \<and> id_suffix a \<noteq> None \<and> id_suffix b = None \<longrightarrow> prd_cmp a b = Less"
    by (auto simp: prd_cmp_def cmp_of_def)
  then show ?thesis by (auto simp: prd_cmp_key prd_eq_key intro: less_trans)
qed

lemma prd_order_total_witness:
  "prd_cmp (prd_with_suffix 9 (Some (CHR ''a''))) (prd_new 9) = Less"
  using prd_order_total [of "prd_with_suffix 9 (Some (CHR ''a''))" "prd_new 9" "prd_new 9"]
  by (simp add: prd_new_def prd_with_suffix_def)

text \<open>
  C38: the text of an identity is read back, under either profile, as an equal identity; the
  numbered-slug profile also keeps the printed form.
\<close>

theorem prd_id_round_trip:
  assumes "lower_suffix (id_suffix p)"
  shows "\<exists>q. parse_prd_id (show_prd_id p) profile = Inr q \<and> prd_eq q p
    \<and> (profile = NumberedSlug \<or> id_rendering p = Canonical_Rendering \<longrightarrow> show_prd_id q = show_prd_id p)"
  using parse_show_prd_id [OF assms] show_reread by (auto simp: prd_eq_def)

lemma prd_id_round_trip_witness:
  "\<exists>q. parse_prd_id (show_prd_id (prd_numbered_slug 7 (Some (CHR ''b'')) 3)) NumberedSlug = Inr q
     \<and> show_prd_id q = ''PRD 007b''"
proof -
  have "lower_suffix (id_suffix (prd_numbered_slug 7 (Some (CHR ''b'')) 3))"
    and "show_prd_id (prd_numbered_slug 7 (Some (CHR ''b'')) 3) = ''PRD 007b''" by code_simp+
  with prd_id_round_trip [of "prd_numbered_slug 7 (Some (CHR ''b'')) 3" NumberedSlug] show ?thesis
    by auto
qed

text \<open>
  the canonical file name of an identity, zero-padded or not, is recognised and gives the number
  and the suffix back; a recognised name ends in \<open>.md\<close> and its suffix is a lowercase letter or absent.
\<close>

lemma filename_identity_round_trip:
  assumes "lower_suffix s"
  shows "filename_identity (''PRD-'' @ zero_pad w (show_u64 n) @ show_suffix s @ ''.md'') Canonical
           = Some (Inr (n, s, 0))
    \<and> (filename_identity name profile = Some (Inr (m, t, w')) \<longrightarrow> lower_suffix t \<and> ends_with name ''.md'')"
  using canonical_filename_accepts [OF assms] filename_identity_suffix filename_identity_md by blast

lemma filename_identity_round_trip_witness:
  "filename_identity ''PRD-042b.md'' Canonical = Some (Inr (42, Some (CHR ''b''), 0))
   \<and> lower_suffix (Some (CHR ''b''))"
proof -
  have eq: "''PRD-'' @ zero_pad 3 (show_u64 42) @ show_suffix (Some (CHR ''b'')) @ ''.md'' = ''PRD-042b.md''"
    and low: "lower_suffix (Some (CHR ''b''))" by code_simp+
  from filename_identity_round_trip [OF low, of 3 42] low show ?thesis unfolding eq by blast
qed

end
