(* ===== verification/Backlog_Types.thy ===== *)
theory Backlog_Types
  imports Prd_Identity
begin

text \<open>
  The data of the backlog, \<open>crates/familiar-ai-core/src/backlog.rs\<close>: layout and policy settings,
  repository paths, statuses and recovery actions, discovered PRDs with their metadata, entries,
  and the two error enums with their display text.
\<close>

section \<open>Settings\<close>

datatype prd_metadata_policy = Incremental | Strict

datatype metadata_check_mode = Check_Strict | Check_Advisory

definition legacy_is_failure :: "metadata_check_mode \<Rightarrow> bool" where
  "legacy_is_failure m \<longleftrightarrow> m = Check_Strict"

definition parse_metadata_policy :: "string \<Rightarrow> string + prd_metadata_policy" where
  "parse_metadata_policy v =
     (if v = ''incremental'' then Inr Incremental
      else if v = ''strict'' then Inr Strict
      else Inl (''unknown PRD metadata policy '' @ quoted v))"

definition show_metadata_policy :: "prd_metadata_policy \<Rightarrow> string" where
  "show_metadata_policy p = (case p of Incremental \<Rightarrow> ''incremental'' | Strict \<Rightarrow> ''strict'')"

record backlog_layout =
  bl_profile :: backlog_profile
  bl_active_dir :: string
  bl_archived_dir :: string
  bl_metadata_policy :: prd_metadata_policy
  bl_risk_vocabulary :: "string list"

definition default_layout :: backlog_layout where
  "default_layout =
     \<lparr>bl_profile = Canonical, bl_active_dir = ''docs/prds'', bl_archived_dir = ''docs/prds/done'',
      bl_metadata_policy = Incremental, bl_risk_vocabulary = []\<rparr>"

section \<open>Statuses and recovery actions\<close>

datatype backlog_status = Pending | InProgress | Completed | Blocked

datatype prd_location = Active | Archived

definition show_status :: "backlog_status \<Rightarrow> string" where
  "show_status s =
     (case s of Pending \<Rightarrow> ''pending'' | InProgress \<Rightarrow> ''in_progress''
              | Completed \<Rightarrow> ''completed'' | Blocked \<Rightarrow> ''blocked'')"

datatype backlog_recovery_action =
  Release | ManualCompleteOverride | RecordedComplete | ApproveAndComplete

definition target_status :: "backlog_recovery_action \<Rightarrow> backlog_status" where
  "target_status a = (case a of Release \<Rightarrow> Pending | ManualCompleteOverride \<Rightarrow> Completed
     | RecordedComplete \<Rightarrow> Completed | ApproveAndComplete \<Rightarrow> Completed)"

definition show_recovery_action :: "backlog_recovery_action \<Rightarrow> string" where
  "show_recovery_action a =
     (case a of Release \<Rightarrow> ''release'' | ManualCompleteOverride \<Rightarrow> ''manual_complete_override''
       | RecordedComplete \<Rightarrow> ''recorded_complete'' | ApproveAndComplete \<Rightarrow> ''approve_and_complete'')"

section \<open>Discovered PRDs and entries\<close>

record prd_metadata =
  md_contract_version :: "u64 option"
  md_status :: "string option"
  md_expected_files :: "string list"
  md_acceptance_criteria :: "string list"
  md_risk_classes :: "string list"
  md_external_gates :: "string list"
  md_resources :: "string list"

definition default_metadata :: prd_metadata where
  "default_metadata =
     \<lparr>md_contract_version = None, md_status = None, md_expected_files = [],
      md_acceptance_criteria = [], md_risk_classes = [], md_external_gates = [], md_resources = []\<rparr>"

record discovered_prd =
  prd_ident :: prd_id
  prd_number :: u64
  prd_path :: string
  prd_location :: prd_location
  prd_title :: string
  prd_dependencies :: "prd_id list"
  prd_meta :: prd_metadata
  prd_content_hash :: string

record backlog_entry =
  entry_prd :: discovered_prd
  entry_status :: backlog_status

record next_prd =
  next_id :: prd_id
  next_path :: string
  next_title :: string
  next_status :: backlog_status
  next_dependencies :: "prd_id list"

datatype ineligibility_reason =
  StatusInProgress | StatusCompleted | StatusBlocked
| DependenciesIncomplete "prd_id list"
| FrontMatterStatus string

section \<open>Errors\<close>

datatype backlog_store_error =
  Storage string
| InvalidStatus string
| Conflict string string string
| EmptyActor
| NotFound string
| InvalidRecoveryActor
| InvalidRecoveryReason
| HumanAuthorityRequired
| RecoveryAuditCorrupt string
| IncompleteDependencies string string

datatype backlog_error =
  Repository_Error string
| Discovery string
| Malformed string string
| DuplicateIdentity prd_id string
| MissingDependency string prd_id
| SelfDependency string prd_id
| Cycle string
| Store backlog_store_error
| EmptyBacklog
| NoEligiblePrd string
| RunPath string
| RunStatus string string
| RunArchived string
| RunDependencies string string

definition show_store_error :: "backlog_store_error \<Rightarrow> string" where
  "show_store_error e =
     (case e of
        Storage m \<Rightarrow> ''storage failure: '' @ m
      | InvalidStatus s \<Rightarrow> ''invalid persisted backlog status '' @ quoted s
      | Conflict path expected actual \<Rightarrow>
          ''status transition conflict for '' @ path @ '': expected '' @ expected @ '', found '' @ actual
      | EmptyActor \<Rightarrow> ''status transition actor must not be empty''
      | NotFound path \<Rightarrow> ''backlog entry not found: '' @ path
      | InvalidRecoveryActor \<Rightarrow>
          ''recovery actor must be non-empty, printable, and at most 256 bytes''
      | InvalidRecoveryReason \<Rightarrow>
          ''recovery reason must be non-empty, printable, and at most 2048 bytes''
      | HumanAuthorityRequired \<Rightarrow>
          ''manual completion override requires --actor human:<identity>''
      | RecoveryAuditCorrupt path \<Rightarrow> ''backlog recovery audit lineage is corrupt for '' @ path
      | IncompleteDependencies path ds \<Rightarrow>
          ''cannot record completion for '' @ path @ '': incomplete dependencies ['' @ ds @ '']'')"

definition show_backlog_error :: "backlog_error \<Rightarrow> string" where
  "show_backlog_error e =
     (case e of
        Repository_Error m \<Rightarrow> ''repository resolution failed: '' @ m
      | Discovery m \<Rightarrow> ''backlog discovery failed: '' @ m
      | Malformed path m \<Rightarrow> ''malformed PRD '' @ path @ '': '' @ m
      | DuplicateIdentity i paths \<Rightarrow> ''duplicate PRD identity '' @ show_prd_id i @ '': '' @ paths
      | MissingDependency path d \<Rightarrow>
          ''dependency target '' @ show_prd_id d @ '' referenced by '' @ path
          @ '' is absent from the active backlog''
      | SelfDependency path i \<Rightarrow> ''PRD '' @ path @ '' depends on itself ('' @ show_prd_id i @ '')''
      | Cycle c \<Rightarrow> ''dependency cycle: '' @ c
      | Store s \<Rightarrow> ''backlog storage failed: '' @ show_store_error s
      | EmptyBacklog \<Rightarrow> ''backlog is empty''
      | NoEligiblePrd r \<Rightarrow> ''no eligible PRD: '' @ r
      | RunPath m \<Rightarrow> ''run path admission failed: '' @ m
      | RunStatus path s \<Rightarrow> ''cannot run '' @ path @ '': backlog status is '' @ s
      | RunArchived path \<Rightarrow> ''cannot run '' @ path @ '': PRD is archived''
      | RunDependencies path ds \<Rightarrow>
          ''cannot run '' @ path @ '': incomplete dependencies ['' @ ds @ '']'')"

definition parse_status :: "string \<Rightarrow> backlog_store_error + backlog_status" where
  "parse_status v =
     (if v = ''pending'' then Inr Pending
      else if v = ''in_progress'' then Inr InProgress
      else if v = ''completed'' then Inr Completed
      else if v = ''blocked'' then Inr Blocked
      else Inl (InvalidStatus v))"

lemma parse_show_status [simp]: "parse_status (show_status s) = Inr s"
  by (cases s) (simp_all add: parse_status_def show_status_def)

lemma parse_status_Inr: "parse_status v = Inr s \<longleftrightarrow> v = show_status s"
  by (cases s) (auto simp: parse_status_def show_status_def)

text \<open>\<open>RepositoryPath::new\<close>: a relative path without empty, dot or dot-dot components.\<close>

definition repository_path_new :: "string \<Rightarrow> backlog_error + string" where
  "repository_path_new path =
     (if path = [] \<or> starts_with path [slash] \<or> has_bad_component path
      then Inl (Discovery (''invalid repository-relative path '' @ quoted path))
      else Inr path)"

section \<open>Recovery attribution\<close>

text \<open>\<open>actor\<close> and \<open>reason\<close> are trimmed; three of the four actions need a human identity.\<close>

definition human_actor :: "string \<Rightarrow> bool" where
  "human_actor actor =
     (case strip_prefix actor ''human:'' of None \<Rightarrow> False | Some identity \<Rightarrow> trim identity \<noteq> [])"

definition validate_recovery_attribution ::
    "backlog_recovery_action \<Rightarrow> string \<Rightarrow> string \<Rightarrow> backlog_store_error + string \<times> string" where
  "validate_recovery_attribution action actor0 reason0 =
     (let actor = trim actor0; reason = trim reason0 in
      if actor = [] \<or> 256 < length actor \<or> has_control actor then Inl InvalidRecoveryActor
      else if reason = [] \<or> 2048 < length reason \<or> has_control reason then Inl InvalidRecoveryReason
      else if action \<in> {ManualCompleteOverride, RecordedComplete, ApproveAndComplete}
              \<and> \<not> human_actor actor
      then Inl HumanAuthorityRequired
      else Inr (actor, reason))"

lemma recovery_attribution_Inr:
  "validate_recovery_attribution a actor reason = Inr (actor', reason') \<longleftrightarrow>
     actor' = trim actor \<and> reason' = trim reason
     \<and> actor' \<noteq> [] \<and> length actor' \<le> 256 \<and> \<not> has_control actor'
     \<and> reason' \<noteq> [] \<and> length reason' \<le> 2048 \<and> \<not> has_control reason'
     \<and> (target_status a = Completed \<longrightarrow> human_actor actor')"
  by (cases a) (auto simp: validate_recovery_attribution_def Let_def target_status_def)

section \<open>Sample values\<close>

text \<open>Small PRDs and entries on which the development evaluates its definitions.\<close>

definition sample_prd :: "u64 \<Rightarrow> u64 list \<Rightarrow> discovered_prd" where
  "sample_prd n ds =
     \<lparr>prd_ident = prd_new n, prd_number = n, prd_path = ''docs/prds/PRD-'' @ show_u64 n @ ''.md'',
      prd_location = Active, prd_title = ''sample'', prd_dependencies = map prd_new ds,
      prd_meta = default_metadata, prd_content_hash = []\<rparr>"

definition sample_entry :: "u64 \<Rightarrow> u64 list \<Rightarrow> backlog_status \<Rightarrow> backlog_entry" where
  "sample_entry n ds s = \<lparr>entry_prd = sample_prd n ds, entry_status = s\<rparr>"

end
