(* ===== verification/Prd_Graph.thy ===== *)
theory Prd_Graph
  imports Backlog_Types
begin

text \<open>
  \<open>validate_graph\<close> of \<open>crates/familiar-ai-core/src/backlog.rs\<close>: every dependency exists, none is a
  self-dependency, and a three-colour depth-first search finds no cycle. The search recurses to
  the depth of the dependency chain, so \<open>visit\<close> takes fuel; \<open>validate_graph\<close> gives one unit per
  discovered PRD, which is always enough.
\<close>

section \<open>The search\<close>

type_synonym prd_index = "u64 \<times> nat \<Rightarrow> discovered_prd option"
type_synonym colours = "u64 \<times> nat \<Rightarrow> nat option"

definition index_pairs :: "discovered_prd list \<Rightarrow> ((u64 \<times> nat) \<times> discovered_prd) list" where
  "index_pairs prds = map (\<lambda>p. (prd_key (prd_ident p), p)) prds"

definition by_id :: "discovered_prd list \<Rightarrow> prd_index" where
  "by_id prds = collect_map (index_pairs prds)"

text \<open>The first pass: self-dependencies and missing targets, in document order.\<close>

fun check_deps :: "prd_index \<Rightarrow> discovered_prd \<Rightarrow> prd_id list \<Rightarrow> backlog_error + unit" where
  "check_deps idx p [] = Inr ()"
| "check_deps idx p (d # ds) =
     (if prd_eq d (prd_ident p) then Inl (SelfDependency (prd_path p) (prd_ident p))
      else if idx (prd_key d) = None then Inl (MissingDependency (prd_path p) d)
      else check_deps idx p ds)"

fun check_references :: "prd_index \<Rightarrow> discovered_prd list \<Rightarrow> backlog_error + unit" where
  "check_references idx [] = Inr ()"
| "check_references idx (p # ps) =
     rbind (check_deps idx p (prd_dependencies p)) (\<lambda>_. check_references idx ps)"

text \<open>
  \<open>visit\<close>: colour 1 is on the stack, colour 2 is finished. \<open>Visit_Panic\<close> is the failing index or
  \<open>unwrap\<close> of the code. The stack is a vector that grows at its end.
\<close>

datatype visit_outcome = Cycle_Found "prd_id list" | Visited colours "prd_id list" | Visit_Panic

definition stack_position :: "prd_id \<Rightarrow> prd_id list \<Rightarrow> nat option" where
  "stack_position d stack =
     (let i = length (takeWhile (\<lambda>v. \<not> prd_eq v d) stack)
      in if i < length stack then Some i else None)"

fun visit_deps ::
    "(prd_id \<Rightarrow> colours \<Rightarrow> prd_id list \<Rightarrow> visit_outcome option)
     \<Rightarrow> prd_id list \<Rightarrow> colours \<Rightarrow> prd_id list \<Rightarrow> visit_outcome option" where
  "visit_deps rec [] state stack = Some (Visited state stack)"
| "visit_deps rec (d # ds) state stack =
     (let colour = (case state (prd_key d) of None \<Rightarrow> 0 | Some c \<Rightarrow> c) in
      if colour = 0 then
        (case rec d state stack of
           Some (Visited state' stack') \<Rightarrow> visit_deps rec ds state' stack'
         | r \<Rightarrow> r)
      else if colour = 1 then
        (case stack_position d stack of
           None \<Rightarrow> Some Visit_Panic
         | Some pos \<Rightarrow> Some (Cycle_Found (drop pos stack @ [d])))
      else visit_deps rec ds state stack)"

primrec visit ::
    "nat \<Rightarrow> prd_index \<Rightarrow> prd_id \<Rightarrow> colours \<Rightarrow> prd_id list \<Rightarrow> visit_outcome option" where
  "visit 0 idx i state stack = None"
| "visit (Suc n) idx i state stack =
     (case idx (prd_key i) of
        None \<Rightarrow> Some Visit_Panic
      | Some p \<Rightarrow>
        (case visit_deps (visit n idx) (prd_dependencies p)
               (state(prd_key i \<mapsto> 1)) (stack @ [i]) of
           Some (Visited state' stack') \<Rightarrow>
             Some (Visited (state'(prd_key i \<mapsto> 2)) (butlast stack'))
         | r \<Rightarrow> r))"

text \<open>The outer loop over the sorted keys; \<open>None\<close> is a search that found no cycle.\<close>

fun scan_roots ::
    "nat \<Rightarrow> prd_index \<Rightarrow> (u64 \<times> nat) list \<Rightarrow> colours \<Rightarrow> prd_id list
     \<Rightarrow> unit fault + prd_id list option" where
  "scan_roots n idx [] state stack = Inr None"
| "scan_roots n idx (k # ks) state stack =
     (if (case state k of None \<Rightarrow> 0 | Some c \<Rightarrow> c) = 0 then
        (case idx k of
           None \<Rightarrow> Inl Panic
         | Some p \<Rightarrow>
           (case visit n idx (prd_ident p) state stack of
              Some (Visited state' stack') \<Rightarrow> scan_roots n idx ks state' stack'
            | Some (Cycle_Found c) \<Rightarrow> Inr (Some c)
            | _ \<Rightarrow> Inl Panic))
      else scan_roots n idx ks state stack)"

text \<open>A cycle is reported from its least member, closed by repeating that member.\<close>

definition min_position :: "prd_id list \<Rightarrow> nat" where
  "min_position ms =
     length (takeWhile (\<lambda>m. prd_key m \<noteq> Min (prd_key ` set ms)) ms)"

definition canonical_cycle :: "prd_id list \<Rightarrow> prd_id list" where
  "canonical_cycle c =
     (let members = butlast c; r = rotate (min_position members) members in r @ [hd r])"

definition validate_graph :: "discovered_prd list \<Rightarrow> backlog_error fault + unit" where
  "validate_graph prds =
     (let idx = by_id prds in
      rbind (map_err Err (check_references idx prds)) (\<lambda>_.
      case scan_roots (length prds) idx (sorted_keys (index_pairs prds)) (\<lambda>_. None) [] of
        Inl _ \<Rightarrow> Inl Panic
      | Inr None \<Rightarrow> Inr ()
      | Inr (Some c) \<Rightarrow>
          Inl (Err (Cycle (join '' -> '' (map show_prd_id (canonical_cycle c)))))))"

section \<open>The dependency relation\<close>

declare split_paired_All [simp del] split_paired_Ex [simp del]

definition dep_edge :: "prd_index \<Rightarrow> u64 \<times> nat \<Rightarrow> u64 \<times> nat \<Rightarrow> bool" where
  "dep_edge idx a b \<longleftrightarrow> (\<exists>p d. idx a = Some p \<and> d \<in> set (prd_dependencies p) \<and> prd_key d = b)"

definition dep_rel :: "prd_index \<Rightarrow> ((u64 \<times> nat) \<times> (u64 \<times> nat)) set" where
  "dep_rel idx = {(b, a). dep_edge idx a b}"

definition dep_path :: "prd_index \<Rightarrow> prd_id list \<Rightarrow> bool" where
  "dep_path idx xs \<longleftrightarrow> successively (\<lambda>a b. dep_edge idx (prd_key a) (prd_key b)) xs"

definition dep_cycle :: "prd_index \<Rightarrow> prd_id list \<Rightarrow> bool" where
  "dep_cycle idx c \<longleftrightarrow> 2 \<le> length c \<and> dep_path idx c \<and> prd_key (hd c) = prd_key (last c)"

definition refs_closed :: "prd_index \<Rightarrow> bool" where
  "refs_closed idx \<longleftrightarrow> (\<forall>a b. dep_edge idx a b \<longrightarrow> idx b \<noteq> None)"

definition white :: "prd_index \<Rightarrow> colours \<Rightarrow> (u64 \<times> nat) set" where
  "white idx state = {k. idx k \<noteq> None \<and> state k = None}"

definition dfs_inv :: "prd_index \<Rightarrow> colours \<Rightarrow> prd_id list \<Rightarrow> bool" where
  "dfs_inv idx state stack \<longleftrightarrow>
     (\<forall>k. state k = Some 2 \<longrightarrow> k \<in> Wellfounded.acc (dep_rel idx))
     \<and> (\<forall>k. state k = Some 1 \<longleftrightarrow> k \<in> prd_key ` set stack)
     \<and> (\<forall>k c. state k = Some c \<longrightarrow> c = 1 \<or> c = 2)
     \<and> dep_path idx stack"

text \<open>What a finished call promises: \<open>ts\<close> are the keys it was asked to finish.\<close>

definition visit_post ::
    "prd_index \<Rightarrow> colours \<Rightarrow> prd_id list \<Rightarrow> (u64 \<times> nat) set \<Rightarrow> visit_outcome \<Rightarrow> bool" where
  "visit_post idx state stack ts r =
     (case r of
        Visited state' stack' \<Rightarrow>
          stack' = stack \<and> dfs_inv idx state' stack
          \<and> (\<forall>k. state k = Some 2 \<longrightarrow> state' k = Some 2) \<and> (\<forall>t \<in> ts. state' t = Some 2)
          \<and> white idx state' \<subseteq> white idx state
      | Cycle_Found c \<Rightarrow> dep_cycle idx c
      | Visit_Panic \<Rightarrow> False)"

lemma dep_path_snoc:
  "dep_path idx (xs @ [i]) \<longleftrightarrow>
     dep_path idx xs \<and> (xs \<noteq> [] \<longrightarrow> dep_edge idx (prd_key (last xs)) (prd_key i))"
  by (auto simp: dep_path_def successively_append_iff)

lemma dep_path_drop: "dep_path idx xs \<Longrightarrow> dep_path idx (drop n xs)"
  using successively_append_iff [of _ "take n xs" "drop n xs"] by (simp add: dep_path_def)

lemma stack_position_Some:
  assumes "prd_key d \<in> prd_key ` set stack"
  obtains pos where "stack_position d stack = Some pos" "pos < length stack"
    "prd_key (stack ! pos) = prd_key d"
proof -
  let ?P = "\<lambda>v. \<not> prd_eq v d"
  have "\<exists>v \<in> set stack. \<not> ?P v" using assms by (auto simp: prd_eq_key)
  then have lt: "length (takeWhile ?P stack) < length stack"
    by (rule length_takeWhile_less)
  then have "prd_eq (stack ! length (takeWhile ?P stack)) d"
    using nth_length_takeWhile by blast
  with lt that show thesis by (simp add: stack_position_def Let_def prd_eq_key)
qed

lemma back_edge_cycle:
  assumes "dep_path idx stack" and "pos < length stack"
    and "prd_key (stack ! pos) = prd_key d"
    and "dep_edge idx (prd_key (last stack)) (prd_key d)"
  shows "dep_cycle idx (drop pos stack @ [d])"
  using assms dep_path_drop [of idx stack pos]
  by (auto simp: dep_cycle_def dep_path_snoc hd_append hd_drop_conv_nth)

lemma dfs_inv_push:
  assumes "dfs_inv idx state stack" and "state (prd_key i) = None"
    and "stack \<noteq> [] \<longrightarrow> dep_edge idx (prd_key (last stack)) (prd_key i)"
  shows "dfs_inv idx (state(prd_key i \<mapsto> 1)) (stack @ [i])"
  using assms by (auto simp: dfs_inv_def dep_path_snoc)

lemma dfs_inv_pop:
  assumes "dfs_inv idx state (stack @ [i])" and "prd_key i \<notin> prd_key ` set stack"
    and "\<And>b. dep_edge idx (prd_key i) b \<Longrightarrow> state b = Some 2"
  shows "dfs_inv idx (state(prd_key i \<mapsto> 2)) stack"
proof -
  have "prd_key i \<in> Wellfounded.acc (dep_rel idx)"
  proof (rule accI)
    fix b assume "(b, prd_key i) \<in> dep_rel idx"
    then have "state b = Some 2" using assms(3) by (simp add: dep_rel_def)
    with assms(1) show "b \<in> Wellfounded.acc (dep_rel idx)" by (simp add: dfs_inv_def)
  qed
  moreover have "dep_path idx stack" using assms(1) by (simp add: dfs_inv_def dep_path_snoc)
  moreover have "state k = Some 1 \<longleftrightarrow> k = prd_key i \<or> k \<in> prd_key ` set stack" for k
    using assms(1) by (simp add: dfs_inv_def)
  ultimately show ?thesis using assms(1,2) by (simp add: dfs_inv_def)
qed

lemma white_push:
  assumes "finite (dom idx)" and "idx (prd_key i) \<noteq> None" and "state (prd_key i) = None"
    and "card (white idx state) \<le> Suc n"
  shows "card (white idx (state(prd_key i \<mapsto> 1))) \<le> n"
proof -
  have fin: "finite (white idx state)"
    by (rule finite_subset [OF _ assms(1)]) (auto simp: white_def)
  have "white idx (state(prd_key i \<mapsto> 1)) = white idx state - {prd_key i}"
    by (auto simp: white_def)
  with fin assms show ?thesis by (auto simp: white_def)
qed

lemma visit_deps_post:
  assumes rec: "\<And>d state. \<lbrakk>dfs_inv idx state stack; state (prd_key d) = None;
      idx (prd_key d) \<noteq> None; dep_edge idx (prd_key (last stack)) (prd_key d);
      card (white idx state) \<le> n\<rbrakk>
      \<Longrightarrow> \<exists>r. rec d state stack = Some r \<and> visit_post idx state stack {prd_key d} r"
    and closed: "refs_closed idx" and fin: "finite (dom idx)"
    and inv: "dfs_inv idx state stack" and ne: "stack \<noteq> []"
    and edges: "\<forall>d \<in> set ds. dep_edge idx (prd_key (last stack)) (prd_key d)"
    and card: "card (white idx state) \<le> n"
  shows "\<exists>r. visit_deps rec ds state stack = Some r
           \<and> visit_post idx state stack (prd_key ` set ds) r"
  using inv edges card
proof (induction ds arbitrary: state)
  case Nil
  then show ?case by (simp add: visit_post_def)
next
  case (Cons d ds)
  from Cons.prems have edge: "dep_edge idx (prd_key (last stack)) (prd_key d)" by simp
  with closed have target: "idx (prd_key d) \<noteq> None" by (auto simp: refs_closed_def)
  have "state (prd_key d) = None \<or> state (prd_key d) = Some 1 \<or> state (prd_key d) = Some 2"
    using Cons.prems(1) by (cases "state (prd_key d)") (auto simp: dfs_inv_def)
  then consider (white) "state (prd_key d) = None" | (grey) "state (prd_key d) = Some 1"
    | (black) "state (prd_key d) = Some 2" by metis
  then show ?case
  proof cases
    case white
    obtain r where r: "rec d state stack = Some r" and post: "visit_post idx state stack {prd_key d} r"
      using rec [OF Cons.prems(1) white target edge Cons.prems(3)] by blast
    show ?thesis
    proof (cases r)
      case (Visited state' stack')
      with post have eq: "stack' = stack" and inv': "dfs_inv idx state' stack"
        and mono: "\<forall>k. state k = Some 2 \<longrightarrow> state' k = Some 2" and finished: "state' (prd_key d) = Some 2"
        and sub: "white idx state' \<subseteq> white idx state"
        by (auto simp: visit_post_def)
      have "finite (white idx state)"
        by (rule finite_subset [OF _ fin]) (auto simp: white_def)
      with sub Cons.prems(3) have "card (white idx state') \<le> n"
        by (meson card_mono le_trans)
      with Cons.IH [OF inv'] Cons.prems(2) obtain r' where
        r': "visit_deps rec ds state' stack = Some r'"
        and post': "visit_post idx state' stack (prd_key ` set ds) r'" by auto
      from post' mono finished sub have "visit_post idx state stack (prd_key ` set (d # ds)) r'"
        by (auto simp: visit_post_def split: visit_outcome.splits)
      with r' r Visited eq white show ?thesis by simp
    qed (use r post white in \<open>auto simp: visit_post_def\<close>)
  next
    case grey
    then have "prd_key d \<in> prd_key ` set stack" using Cons.prems(1) by (auto simp: dfs_inv_def)
    then obtain pos where pos: "stack_position d stack = Some pos" "pos < length stack"
      "prd_key (stack ! pos) = prd_key d" by (rule stack_position_Some)
    have "dep_path idx stack" using Cons.prems(1) by (simp add: dfs_inv_def)
    then have "dep_cycle idx (drop pos stack @ [d])"
      using back_edge_cycle pos edge by blast
    with grey pos(1) show ?thesis by (simp add: visit_post_def)
  next
    case black
    from Cons.IH [OF Cons.prems(1)] Cons.prems obtain r where
      "visit_deps rec ds state stack = Some r" "visit_post idx state stack (prd_key ` set ds) r" by auto
    with black show ?thesis by (auto simp: visit_post_def split: visit_outcome.splits)
  qed
qed

lemma visit_post_holds:
  assumes closed: "refs_closed idx" and fin: "finite (dom idx)"
  shows "\<lbrakk>dfs_inv idx state stack; state (prd_key i) = None; idx (prd_key i) \<noteq> None;
      stack \<noteq> [] \<longrightarrow> dep_edge idx (prd_key (last stack)) (prd_key i);
      card (white idx state) \<le> n\<rbrakk>
    \<Longrightarrow> \<exists>r. visit n idx i state stack = Some r \<and> visit_post idx state stack {prd_key i} r"
proof (induction n arbitrary: i state stack)
  case 0
  then have "prd_key i \<in> white idx state" by (simp add: white_def)
  moreover have "finite (white idx state)"
    by (rule finite_subset [OF _ fin]) (auto simp: white_def)
  ultimately have "card (white idx state) \<noteq> 0" by auto
  with 0 show ?case by simp
next
  case (Suc n)
  let ?k = "prd_key i" let ?s = "state(prd_key i \<mapsto> 1)" let ?st = "stack @ [i]"
  obtain p where p: "idx ?k = Some p" using Suc.prems(3) by auto
  have inv: "dfs_inv idx ?s ?st" using Suc.prems by (intro dfs_inv_push) auto
  have card: "card (white idx ?s) \<le> n"
    using white_push [OF fin Suc.prems(3,2,5)] by simp
  have edges: "\<forall>d \<in> set (prd_dependencies p). dep_edge idx (prd_key (last ?st)) (prd_key d)"
    using p by (auto simp: dep_edge_def)
  have "\<exists>r. visit_deps (visit n idx) (prd_dependencies p) ?s ?st = Some r
     \<and> visit_post idx ?s ?st (prd_key ` set (prd_dependencies p)) r"
    by (rule visit_deps_post [OF _ closed fin inv _ edges card]) (use Suc.IH in auto)
  then obtain r where r: "visit_deps (visit n idx) (prd_dependencies p) ?s ?st = Some r"
    and post: "visit_post idx ?s ?st (prd_key ` set (prd_dependencies p)) r" by blast
  have "state ?k = Some 1 \<longleftrightarrow> ?k \<in> prd_key ` set stack"
    using Suc.prems(1) by (simp add: dfs_inv_def)
  with Suc.prems(2) have fresh: "?k \<notin> prd_key ` set stack" by simp
  show ?case
  proof (cases r)
    case (Visited state' stack')
    with post have eq: "stack' = ?st" and inv': "dfs_inv idx state' ?st"
      and mono: "\<forall>k. ?s k = Some 2 \<longrightarrow> state' k = Some 2"
      and finished: "\<forall>d \<in> set (prd_dependencies p). state' (prd_key d) = Some 2"
      and sub: "white idx state' \<subseteq> white idx ?s"
      by (auto simp: visit_post_def)
    have "dfs_inv idx (state'(?k \<mapsto> 2)) stack"
      using finished p by (intro dfs_inv_pop [OF inv' fresh]) (auto simp: dep_edge_def)
    moreover have "white idx (state'(?k \<mapsto> 2)) \<subseteq> white idx state"
      using sub by (auto simp: white_def split: if_splits)
    moreover have "\<forall>k. state k = Some 2 \<longrightarrow> (state'(?k \<mapsto> 2)) k = Some 2"
      using mono Suc.prems(2) by auto
    ultimately show ?thesis using r Visited eq p by (auto simp: visit_post_def)
  qed (use r post p in \<open>auto simp: visit_post_def\<close>)
qed

section \<open>The outer loop\<close>

lemma scan_roots_result:
  assumes closed: "refs_closed idx" and fin: "finite (dom idx)"
    and keys: "\<And>k p. idx k = Some p \<Longrightarrow> prd_key (prd_ident p) = k"
  shows "\<lbrakk>dfs_inv idx state []; card (white idx state) \<le> n; \<forall>k \<in> set ks. idx k \<noteq> None\<rbrakk>
    \<Longrightarrow> \<exists>r. scan_roots n idx ks state [] = Inr r
          \<and> (case r of None \<Rightarrow> set ks \<subseteq> Wellfounded.acc (dep_rel idx) | Some c \<Rightarrow> dep_cycle idx c)"
proof (induction ks arbitrary: state)
  case (Cons k ks)
  from Cons.prems obtain p where p: "idx k = Some p" by auto
  with keys have key: "prd_key (prd_ident p) = k" by blast
  show ?case
  proof (cases "state k")
    case None
    obtain r where r: "visit n idx (prd_ident p) state [] = Some r"
      and post: "visit_post idx state [] {k} r"
      using visit_post_holds [OF closed fin Cons.prems(1), of "prd_ident p" n] None p key Cons.prems(2)
      by auto
    show ?thesis
    proof (cases r)
      case (Visited state' stack')
      with post have eq: "stack' = []" and inv': "dfs_inv idx state' []"
        and black: "state' k = Some 2" and sub: "white idx state' \<subseteq> white idx state"
        by (auto simp: visit_post_def)
      have "finite (white idx state)" by (rule finite_subset [OF _ fin]) (auto simp: white_def)
      with sub Cons.prems(2) have "card (white idx state') \<le> n" by (meson card_mono le_trans)
      with Cons.IH [OF inv'] Cons.prems(3) obtain q where q: "scan_roots n idx ks state' [] = Inr q"
        and "case q of None \<Rightarrow> set ks \<subseteq> Wellfounded.acc (dep_rel idx) | Some c \<Rightarrow> dep_cycle idx c"
        by auto
      moreover have "k \<in> Wellfounded.acc (dep_rel idx)" using inv' black by (simp add: dfs_inv_def)
      ultimately show ?thesis using None p r Visited eq by (auto split: option.splits)
    qed (use r post None p in \<open>auto simp: visit_post_def\<close>)
  next
    case (Some c)
    with Cons.prems(1) have "c = 2" by (auto simp: dfs_inv_def)
    with Some Cons.prems(1) have "k \<in> Wellfounded.acc (dep_rel idx)" by (simp add: dfs_inv_def)
    with Cons.IH [OF Cons.prems(1,2)] Cons.prems(3) Some \<open>c = 2\<close> show ?thesis
      by (auto split: option.splits)
  qed
qed simp

section \<open>Cycles\<close>

definition closed_walk :: "prd_index \<Rightarrow> prd_id list \<Rightarrow> bool" where
  "closed_walk idx ms \<longleftrightarrow> ms \<noteq> [] \<and> dep_path idx ms \<and> dep_edge idx (prd_key (last ms)) (prd_key (hd ms))"

lemma closed_walk_cycle: "closed_walk idx ms \<Longrightarrow> dep_cycle idx (ms @ [hd ms])"
  using dep_path_snoc [of idx ms "hd ms"]
  by (cases "length ms") (auto simp: closed_walk_def dep_cycle_def)

lemma cycle_closed_walk: "dep_cycle idx c \<Longrightarrow> closed_walk idx (butlast c)"
proof -
  assume c: "dep_cycle idx c"
  then have ne: "butlast c \<noteq> []" and "c \<noteq> []" by (cases c rule: rev_cases; auto simp: dep_cycle_def)+
  then have split: "c = butlast c @ [last c]" by simp
  with c ne have "dep_path idx (butlast c @ [last c])" "prd_key (hd (butlast c)) = prd_key (last c)"
    by (auto simp: dep_cycle_def hd_append) (metis hd_append2 split)
  with ne show ?thesis by (simp add: closed_walk_def dep_path_snoc)
qed

lemma closed_walk_rotate: "closed_walk idx ms \<Longrightarrow> closed_walk idx (rotate n ms)"
proof (induction n)
  case (Suc n)
  obtain x xs where x: "rotate n ms = x # xs" using Suc by (cases "rotate n ms") (auto simp: closed_walk_def)
  with Suc have "closed_walk idx (x # xs)" by simp
  then have "closed_walk idx (xs @ [x])"
    using dep_path_snoc [of idx xs x]
    by (cases "xs = []") (auto simp: closed_walk_def dep_path_def successively_Cons)
  with x show ?case by simp
qed simp

lemma min_position_hd:
  assumes "ms \<noteq> []" and "m \<in> set ms"
  shows "prd_key (hd (rotate (min_position ms) ms)) \<le> prd_key m"
proof -
  let ?K = "prd_key ` set ms" and ?P = "\<lambda>m. prd_key m \<noteq> Min (prd_key ` set ms)"
  have "Min ?K \<in> ?K" using assms by (intro Min_in) auto
  then have "\<exists>x \<in> set ms. \<not> ?P x" by (auto simp: image_iff)
  then have "length (takeWhile ?P ms) < length ms"
    by (rule length_takeWhile_less)
  then have lt: "min_position ms < length ms" by (simp add: min_position_def)
  then have "\<not> ?P (ms ! min_position ms)"
    unfolding min_position_def using nth_length_takeWhile [of ?P ms] by blast
  moreover have "hd (rotate (min_position ms) ms) = ms ! min_position ms"
    using lt assms(1) by (simp add: hd_rotate_conv_nth)
  ultimately show ?thesis using assms by simp
qed

lemma canonical_cycle_facts:
  assumes "dep_cycle idx c"
  shows "dep_cycle idx (canonical_cycle c)"
    and "\<forall>m \<in> set (canonical_cycle c). prd_key (hd (canonical_cycle c)) \<le> prd_key m"
proof -
  let ?ms = "butlast c" let ?r = "rotate (min_position ?ms) ?ms"
  have walk: "closed_walk idx ?ms" using assms by (rule cycle_closed_walk)
  then have ne: "?ms \<noteq> []" by (simp add: closed_walk_def)
  show "dep_cycle idx (canonical_cycle c)"
    using closed_walk_cycle [OF closed_walk_rotate [OF walk]] by (simp add: canonical_cycle_def Let_def)
  show "\<forall>m \<in> set (canonical_cycle c). prd_key (hd (canonical_cycle c)) \<le> prd_key m"
    using min_position_hd [OF ne] ne by (auto simp: canonical_cycle_def Let_def)
qed

lemma dep_path_trancl:
  "\<lbrakk>dep_path idx (x # ys); ys \<noteq> []\<rbrakk> \<Longrightarrow> (prd_key (last ys), prd_key x) \<in> (dep_rel idx)\<^sup>+"
proof (induction ys rule: rev_induct)
  case (snoc y ys)
  then have edge: "(prd_key y, prd_key (last (x # ys))) \<in> dep_rel idx" and "dep_path idx (x # ys)"
    using dep_path_snoc [of idx "x # ys" y] by (auto simp: dep_rel_def)
  with snoc.IH show ?case by (cases "ys = []") (auto intro: trancl_into_trancl2)
qed simp

lemma dep_cycle_not_acyclic: "dep_cycle idx c \<Longrightarrow> \<not> acyclic (dep_rel idx)"
proof -
  assume c: "dep_cycle idx c"
  then obtain x ys where "c = x # ys" "ys \<noteq> []"
    by (cases c; cases "tl c") (auto simp: dep_cycle_def)
  with c dep_path_trancl [of idx x ys] show ?thesis by (auto simp: dep_cycle_def acyclic_def)
qed

section \<open>What validation decides\<close>

lemma by_id_Some_iff:
  "by_id prds k = None \<longleftrightarrow> (\<forall>p \<in> set prds. prd_key (prd_ident p) \<noteq> k)"
  by (auto simp: by_id_def collect_map_None_iff index_pairs_def image_iff)

lemma by_id_SomeD: "by_id prds k = Some p \<Longrightarrow> p \<in> set prds \<and> prd_key (prd_ident p) = k"
  by (auto simp: by_id_def index_pairs_def dest: collect_map_Some_in)

lemma finite_dom_by_id [simp]: "finite (dom (by_id prds))"
proof (rule finite_subset)
  show "dom (by_id prds) \<subseteq> (prd_key \<circ> prd_ident) ` set prds" by (force dest!: by_id_SomeD)
qed simp

lemma card_by_id: "card (white (by_id prds) (\<lambda>_. None)) \<le> length prds"
proof -
  have "white (by_id prds) (\<lambda>_. None) \<subseteq> (prd_key \<circ> prd_ident) ` set prds"
    by (force simp: white_def dest!: by_id_SomeD)
  then have "card (white (by_id prds) (\<lambda>_. None)) \<le> card ((prd_key \<circ> prd_ident) ` set prds)"
    by (intro card_mono) auto
  also have "\<dots> \<le> length prds" using card_image_le card_length le_trans by blast
  finally show ?thesis .
qed

definition references_ok :: "discovered_prd list \<Rightarrow> bool" where
  "references_ok prds \<longleftrightarrow>
     (\<forall>p \<in> set prds. \<forall>d \<in> set (prd_dependencies p).
        \<not> prd_eq d (prd_ident p) \<and> (\<exists>q \<in> set prds. prd_eq (prd_ident q) d))"

lemma check_deps_Inr:
  "check_deps idx p ds = Inr () \<longleftrightarrow>
     (\<forall>d \<in> set ds. \<not> prd_eq d (prd_ident p) \<and> idx (prd_key d) \<noteq> None)"
  by (induction ds) auto

lemma check_references_Inr:
  "check_references (by_id prds) ps = Inr () \<longleftrightarrow>
     (\<forall>p \<in> set ps. \<forall>d \<in> set (prd_dependencies p).
        \<not> prd_eq d (prd_ident p) \<and> (\<exists>q \<in> set prds. prd_eq (prd_ident q) d))"
  by (induction ps) (auto simp: rbind_Inr_iff check_deps_Inr by_id_Some_iff prd_eq_key)

lemma refs_closed_by_id: "references_ok prds \<Longrightarrow> refs_closed (by_id prds)"
  by (fastforce simp: refs_closed_def dep_edge_def references_ok_def by_id_Some_iff prd_eq_key
      dest!: by_id_SomeD)

lemma accessible_by_id:
  assumes "set (sorted_keys (index_pairs prds)) \<subseteq> Wellfounded.acc (dep_rel (by_id prds))"
  shows "acyclic (dep_rel (by_id prds))"
proof (rule wf_acyclic, unfold wf_iff_acc, rule allI)
  fix k
  show "k \<in> Wellfounded.acc (dep_rel (by_id prds))"
  proof (cases "by_id prds k")
    case None
    then show ?thesis by - (rule accI, simp add: dep_rel_def dep_edge_def)
  next
    case (Some p)
    then have "k \<in> fst ` set (index_pairs prds)"
      by (metis by_id_def dom_collect_map option.discI)
    with assms show ?thesis by auto
  qed
qed

lemma scan_by_id:
  assumes "references_ok prds"
  obtains r where
    "scan_roots (length prds) (by_id prds) (sorted_keys (index_pairs prds)) (\<lambda>_. None) [] = Inr r"
    and "case r of None \<Rightarrow> acyclic (dep_rel (by_id prds)) | Some c \<Rightarrow> dep_cycle (by_id prds) c"
proof -
  have "dfs_inv (by_id prds) (\<lambda>_. None) []" by (simp add: dfs_inv_def dep_path_def)
  moreover have "\<forall>k \<in> set (sorted_keys (index_pairs prds)). by_id prds k \<noteq> None"
    unfolding by_id_def dom_collect_map by simp
  ultimately obtain r where r:
    "scan_roots (length prds) (by_id prds) (sorted_keys (index_pairs prds)) (\<lambda>_. None) [] = Inr r"
    and cases: "case r of None \<Rightarrow> set (sorted_keys (index_pairs prds)) \<subseteq> Wellfounded.acc (dep_rel (by_id prds))
      | Some c \<Rightarrow> dep_cycle (by_id prds) c"
    using scan_roots_result [OF refs_closed_by_id [OF assms] finite_dom_by_id _ _ card_by_id]
      by_id_SomeD by blast
  from cases have "case r of None \<Rightarrow> acyclic (dep_rel (by_id prds))
      | Some c \<Rightarrow> dep_cycle (by_id prds) c"
    using accessible_by_id by (auto split: option.splits)
  with r show thesis by (rule that)
qed

lemma validate_graph_cases:
  "validate_graph prds = Inr () \<and> references_ok prds \<and> acyclic (dep_rel (by_id prds))
   \<or> (\<exists>c. validate_graph prds =
           Inl (Err (Cycle (join '' -> '' (map show_prd_id (canonical_cycle c)))))
         \<and> references_ok prds \<and> dep_cycle (by_id prds) c)
   \<or> (\<exists>e. validate_graph prds = Inl (Err e) \<and> check_references (by_id prds) prds = Inl e
         \<and> \<not> references_ok prds)"
proof (cases "check_references (by_id prds) prds")
  case (Inl e)
  moreover from Inl have "\<not> references_ok prds"
    using check_references_Inr [of prds prds] by (auto simp: references_ok_def)
  ultimately show ?thesis by (simp add: validate_graph_def Let_def)
next
  case (Inr u)
  then have refs: "references_ok prds"
    using check_references_Inr [of prds prds] by (simp add: references_ok_def)
  obtain r where
    "scan_roots (length prds) (by_id prds) (sorted_keys (index_pairs prds)) (\<lambda>_. None) [] = Inr r"
    and "case r of None \<Rightarrow> acyclic (dep_rel (by_id prds)) | Some c \<Rightarrow> dep_cycle (by_id prds) c"
    using scan_by_id [OF refs] .
  with Inr refs show ?thesis by (cases r) (auto simp: validate_graph_def Let_def)
qed

lemma check_deps_not_cycle: "check_deps idx p ds \<noteq> Inl (Cycle m)"
  by (induction ds) auto

lemma check_references_not_cycle: "check_references idx ps \<noteq> Inl (Cycle m)"
  by (induction ps) (auto simp: rbind_Inl_iff check_deps_not_cycle)

text \<open>
  C1: validation accepts a backlog exactly when every dependency names another discovered PRD and
  the dependency relation is acyclic.
\<close>

theorem validate_graph_iff:
  "validate_graph prds = Inr () \<longleftrightarrow> references_ok prds \<and> acyclic (dep_rel (by_id prds))"
  using validate_graph_cases [of prds] dep_cycle_not_acyclic by auto

text \<open>
  a reported cycle is the display of a genuine cycle of the backlog, listed from its least
  member and closed by that member.
\<close>

lemma validate_graph_cycle:
  assumes "validate_graph prds = Inl (Err (Cycle m))"
  shows "\<exists>c. m = join '' -> '' (map show_prd_id c) \<and> dep_cycle (by_id prds) c
           \<and> prd_eq (hd c) (last c) \<and> (\<forall>x \<in> set c. prd_key (hd c) \<le> prd_key x)"
proof -
  obtain c where m: "m = join '' -> '' (map show_prd_id (canonical_cycle c))"
    and c: "dep_cycle (by_id prds) c"
    using validate_graph_cases [of prds] assms check_references_not_cycle by auto
  from canonical_cycle_facts [OF c] have "prd_eq (hd (canonical_cycle c)) (last (canonical_cycle c))"
    by (simp add: dep_cycle_def prd_eq_key)
  with m canonical_cycle_facts [OF c] show ?thesis by blast
qed

lemma validate_graph_cycle_witness:
  "validate_graph [sample_prd 2 [1], sample_prd 1 [2]] = Inl (Err (Cycle ''PRD-1 -> PRD-2 -> PRD-1''))
   \<and> (\<exists>c. ''PRD-1 -> PRD-2 -> PRD-1'' = join '' -> '' (map show_prd_id c)
        \<and> dep_cycle (by_id [sample_prd 2 [1], sample_prd 1 [2]]) c \<and> prd_eq (hd c) (last c))"
proof
  show *: "validate_graph [sample_prd 2 [1], sample_prd 1 [2]] =
      Inl (Err (Cycle ''PRD-1 -> PRD-2 -> PRD-1''))" by code_simp
  from validate_graph_cycle [OF *] show "\<exists>c. ''PRD-1 -> PRD-2 -> PRD-1'' = join '' -> '' (map show_prd_id c)
        \<and> dep_cycle (by_id [sample_prd 2 [1], sample_prd 1 [2]]) c \<and> prd_eq (hd c) (last c)" by blast
qed

text \<open>Validation never reaches one of its indexing or \<open>unwrap\<close> panics.\<close>

lemma validate_graph_no_panic: "validate_graph prds \<noteq> Inl Panic"
  using validate_graph_cases [of prds] by auto

end
