(* ===== verification/Prd_Document.thy ===== *)
theory Prd_Document
  imports Prd_Graph
begin

text \<open>
  Reading one PRD document and discovering a backlog, \<open>crates/familiar-ai-core/src/backlog.rs\<close>:
  the YAML subset of the front matter (\<open>parse_front_matter\<close>, \<open>parse_yaml_list_or_scalar\<close>,
  \<open>unquote\<close>), the document grammar (\<open>parse_candidate\<close>, \<open>parse_numbered_slug_content\<close>) and
  \<open>discover_with_layout\<close>. The file system and SHA-256 are parameters.
\<close>

section \<open>Scalars\<close>

definition malformed :: "string \<Rightarrow> string \<Rightarrow> backlog_error" where
  "malformed path message = Malformed path message"

abbreviation fail_at :: "string \<Rightarrow> string \<Rightarrow> backlog_error fault + 'a" where
  "fail_at path message \<equiv> Inl (Err (malformed path message))"

abbreviation dquote :: char where "dquote \<equiv> CHR 0x22"
abbreviation squote :: char where "squote \<equiv> CHR 0x27"

text \<open>A quote that is both the first and the last byte makes the slice \<open>1..0\<close>, which panics.\<close>

definition unquote :: "string \<Rightarrow> string fault + string" where
  "unquote value =
     (if (starts_with value [dquote] \<and> ends_with value [dquote])
         \<or> (starts_with value [squote] \<and> ends_with value [squote])
      then (if length value < 2 then Inl Panic
            else if length value = 2 then Inl (Err ''structured PRD values must not be empty'')
            else Inr (take (length value - 2) (drop 1 value)))
      else if value = [] then Inl (Err ''structured PRD values must not be empty'')
      else Inr value)"

definition parse_yaml_list_or_scalar :: "string \<Rightarrow> backlog_error fault + string list" where
  "parse_yaml_list_or_scalar value =
     (if value = ''[]'' then Inr []
      else case Option.bind (strip_prefix value ''['') (\<lambda>v. strip_suffix v '']'') of
        Some inner \<Rightarrow>
          if trim inner = [] then Inr []
          else traverse (\<lambda>item. map_err (map_fault Discovery) (unquote (trim item)))
                 (split_char (CHR '','') inner)
      | None \<Rightarrow> rbind (map_err (map_fault Discovery) (unquote value)) (\<lambda>v. Inr [v]))"

section \<open>Front matter\<close>

text \<open>
  The opening line, the text between the two \<open>---\<close> lines, and the document after them. \<open>Inr None\<close>
  is a document without front matter.
\<close>

definition split_front_matter :: "string \<Rightarrow> string \<Rightarrow> backlog_error fault + (string \<times> string) option" where
  "split_front_matter content path =
     (if \<not> starts_with content (''---'' @ [nl]) \<and> \<not> starts_with content (''---'' @ [cr, nl])
      then Inr None
      else let rest = tl (dropWhile (\<lambda>c. c \<noteq> nl) content) in
        case find_sub ([nl] @ ''---'' @ [nl]) rest of
          Some i \<Rightarrow> Inr (Some (take i rest, drop (i + 5) rest))
        | None \<Rightarrow>
          (case find_sub ([nl] @ ''---'' @ [cr, nl]) rest of
             Some i \<Rightarrow> Inr (Some (take i rest, drop (i + 6) rest))
           | None \<Rightarrow> fail_at path ''unterminated structured PRD front matter''))"

record fm_state =
  fm_values :: "string \<Rightarrow> string list option"
  fm_current :: "string option"

definition fm_fields :: "string list" where
  "fm_fields =
     [''familiar_ai_prd'', ''id'', ''status'', ''dependencies'', ''expected_files'',
      ''acceptance_criteria'', ''risk_classes'', ''external_gates'', ''resources'']"

definition fm_required :: "string list" where
  "fm_required =
     [''familiar_ai_prd'', ''id'', ''status'', ''dependencies'', ''expected_files'',
      ''acceptance_criteria'', ''risk_classes'']"

definition trim_cr :: "string \<Rightarrow> string" where
  "trim_cr = trim_end_of [[cr]]"

text \<open>One line: a list item of the current field, or a new field with its inline value.\<close>

definition fm_line :: "string \<Rightarrow> nat \<Rightarrow> string \<Rightarrow> fm_state \<Rightarrow> backlog_error fault + fm_state" where
  "fm_line path offset raw st =
     (let line = trim_cr raw in
      if trim line = [] then Inr st
      else case strip_prefix line ''  - '' of
        Some item \<Rightarrow>
          (case fm_current st of
             None \<Rightarrow> fail_at path (''front matter line '' @ show_nat (offset + 2)
                        @ '' has a list item without a field'')
           | Some key \<Rightarrow>
             (case fm_values st key of
                None \<Rightarrow> Inl Panic
              | Some vs \<Rightarrow>
                rbind (map_err (map_fault (malformed path)) (unquote (trim item)))
                  (\<lambda>v. Inr (st\<lparr>fm_values := (fm_values st)(key \<mapsto> vs @ [v])\<rparr>))))
      | None \<Rightarrow>
          if starts_with_white_space line
          then fail_at path (''front matter line '' @ show_nat (offset + 2) @ '' has invalid indentation'')
          else (case split_once line '':'' of
             None \<Rightarrow> fail_at path (''front matter line '' @ show_nat (offset + 2) @ '' must be key: value'')
           | Some (key, raw_value) \<Rightarrow>
             if key \<notin> set fm_fields
             then fail_at path (''unknown structured PRD field '' @ quoted key)
             else if fm_values st key \<noteq> None
             then fail_at path (''duplicate structured PRD field '' @ quoted key)
             else let value = trim raw_value in
               rbind (if value = [] then Inr [] else parse_yaml_list_or_scalar value)
                 (\<lambda>vs. Inr \<lparr>fm_values = (fm_values st)(key \<mapsto> vs), fm_current = Some key\<rparr>)))"

fun fm_lines :: "string \<Rightarrow> nat \<Rightarrow> string list \<Rightarrow> fm_state \<Rightarrow> backlog_error fault + fm_state" where
  "fm_lines path offset [] st = Inr st"
| "fm_lines path offset (l # ls) st =
     rbind (fm_line path offset l st) (\<lambda>st'. fm_lines path (Suc offset) ls st')"

fun fm_check_required ::
    "string \<Rightarrow> (string \<Rightarrow> string list option) \<Rightarrow> string list \<Rightarrow> backlog_error fault + unit" where
  "fm_check_required path values [] = Inr ()"
| "fm_check_required path values (r # rs) =
     (if values r = None then fail_at path (''missing structured PRD field '' @ quoted r)
      else fm_check_required path values rs)"

text \<open>The indexing \<open>values[key]\<close> panics on a missing key.\<close>

definition fm_list :: "(string \<Rightarrow> string list option) \<Rightarrow> string \<Rightarrow> backlog_error fault + string list" where
  "fm_list values key = ok_or Panic (values key)"

definition fm_one ::
    "string \<Rightarrow> (string \<Rightarrow> string list option) \<Rightarrow> string \<Rightarrow> backlog_error fault + string" where
  "fm_one path values key =
     rbind (fm_list values key) (\<lambda>value.
       case value of
         [v] \<Rightarrow> Inr v
       | _ \<Rightarrow> fail_at path (''structured PRD field '' @ quoted key @ '' requires one scalar value''))"

definition fm_version :: "string \<Rightarrow> string \<Rightarrow> backlog_error fault + u64" where
  "fm_version path text =
     (case parse_u64 text of
        None \<Rightarrow> fail_at path ''familiar_ai_prd must be integer version 1''
      | Some v \<Rightarrow>
        if v \<noteq> 1
        then fail_at path (''unsupported familiar_ai_prd version '' @ show_u64 v @ ''; expected 1'')
        else Inr v)"

definition fm_profile :: "string \<Rightarrow> backlog_profile" where
  "fm_profile id_text = (if starts_with id_text ''PRD '' then NumberedSlug else Canonical)"

definition fm_statuses :: "string list" where
  "fm_statuses = [''draft'', ''ready'', ''in_progress'', ''completed'', ''blocked'']"

fun fm_dependencies ::
    "string \<Rightarrow> backlog_profile \<Rightarrow> prd_id \<Rightarrow> string list \<Rightarrow> prd_id list
     \<Rightarrow> backlog_error fault + prd_id list" where
  "fm_dependencies path profile i [] acc = Inr acc"
| "fm_dependencies path profile i (t # ts) acc =
     rbind (map_err (Err \<circ> malformed path) (parse_prd_id t profile)) (\<lambda>dep.
       if prd_eq dep i then fail_at path (''self-dependency '' @ show_prd_id dep)
       else if list_ex (prd_eq dep) acc then fail_at path (''duplicate dependency '' @ show_prd_id dep)
       else fm_dependencies path profile i ts (acc @ [dep]))"

definition resource_char :: "char \<Rightarrow> bool" where
  "resource_char c \<longleftrightarrow> is_lower c \<or> is_digit c \<or> c = CHR ''-'' \<or> c = CHR ''_''"

fun fm_resources :: "string \<Rightarrow> string list \<Rightarrow> string set \<Rightarrow> backlog_error fault + unit" where
  "fm_resources path [] seen = Inr ()"
| "fm_resources path (r # rs) seen =
     (if r = [] \<or> \<not> list_all resource_char r
      then fail_at path (''invalid resource identifier '' @ quoted r
             @ '': lowercase ASCII letters, digits, ''
             @ quoted ''-'' @ '' and '' @ quoted ''_'' @ '' only'')
      else if r \<in> seen then fail_at path (''duplicate resource '' @ quoted r)
      else fm_resources path rs (insert r seen))"

fun fm_check_nonempty ::
    "string \<Rightarrow> (string \<Rightarrow> string list option) \<Rightarrow> string list \<Rightarrow> backlog_error fault + unit" where
  "fm_check_nonempty path values [] = Inr ()"
| "fm_check_nonempty path values (k # ks) =
     rbind (fm_list values k) (\<lambda>vs.
       if vs = [] then fail_at path (''structured PRD field '' @ quoted k @ '' must not be empty'')
       else fm_check_nonempty path values ks)"

type_synonym parsed_front_matter = "prd_id \<times> prd_id list \<times> prd_metadata"

definition or_default :: "(string \<Rightarrow> string list option) \<Rightarrow> string \<Rightarrow> string list" where
  "or_default values key = (case values key of None \<Rightarrow> [] | Some v \<Rightarrow> v)"

text \<open>The checks after the lines are read, in the order of the code.\<close>

definition fm_build ::
    "string \<Rightarrow> (string \<Rightarrow> string list option) \<Rightarrow> backlog_error fault + parsed_front_matter" where
  "fm_build path values =
     rbind (fm_check_required path values fm_required) (\<lambda>_.
     rbind (fm_one path values ''familiar_ai_prd'') (\<lambda>version_text.
     rbind (fm_version path version_text) (\<lambda>version.
     rbind (fm_one path values ''id'') (\<lambda>id_text.
     let profile = fm_profile id_text in
     rbind (map_err (Err \<circ> malformed path) (parse_prd_id id_text profile)) (\<lambda>i.
     rbind (fm_one path values ''status'') (\<lambda>status.
     if status \<notin> set fm_statuses
     then fail_at path (''invalid structured PRD status '' @ quoted status) else
     rbind (fm_list values ''dependencies'') (\<lambda>tokens.
     rbind (fm_dependencies path profile i tokens []) (\<lambda>deps.
     rbind (fm_check_nonempty path values [''expected_files'', ''acceptance_criteria'', ''risk_classes''])
       (\<lambda>_.
     let resources = or_default values ''resources'' in
     rbind (fm_resources path resources {}) (\<lambda>_.
     rbind (fm_list values ''expected_files'') (\<lambda>expected.
     rbind (fm_list values ''acceptance_criteria'') (\<lambda>criteria.
     rbind (fm_list values ''risk_classes'') (\<lambda>risks.
     Inr (i, sort_key prd_key deps,
       \<lparr>md_contract_version = Some version, md_status = Some status, md_expected_files = expected,
        md_acceptance_criteria = criteria, md_risk_classes = risks,
        md_external_gates = or_default values ''external_gates'',
        md_resources = resources\<rparr>))))))))))))))"

definition parse_front_matter ::
    "string \<Rightarrow> string \<Rightarrow> backlog_error fault + parsed_front_matter option \<times> string" where
  "parse_front_matter content path =
     rbind (split_front_matter content path) (\<lambda>parts.
       case parts of
         None \<Rightarrow> Inr (None, content)
       | Some (yaml, document) \<Rightarrow>
         rbind (fm_lines path 0 (str_lines yaml) \<lparr>fm_values = (\<lambda>_. None), fm_current = None\<rparr>)
           (\<lambda>st. rbind (fm_build path (fm_values st)) (\<lambda>parsed. Inr (Some parsed, document))))"

definition structured_prd_metadata :: "string \<Rightarrow> backlog_error fault + prd_metadata option" where
  "structured_prd_metadata content =
     rbind (parse_front_matter content ''<document>'')
       (\<lambda>(parsed, _). Inr (map_option (\<lambda>(_, _, m). m) parsed))"

section \<open>One document\<close>

text \<open>What the file system answers about a candidate.\<close>

datatype io_error = Io_Not_Found string | Io_Other string

fun io_message :: "io_error \<Rightarrow> string" where
  "io_message (Io_Not_Found m) = m"
| "io_message (Io_Other m) = m"

datatype file_kind = Regular_File | Symlink | Other_Kind

datatype dir_item = Item_Error string | Non_Utf8_Name | Named string

record file_system =
  fs_read_dir :: "string \<Rightarrow> (dir_item list, io_error) result"
  fs_inspect :: "string \<Rightarrow> (file_kind, io_error) result"
  fs_read :: "string \<Rightarrow> (string, io_error) result"

definition hex_digit :: "nat \<Rightarrow> char" where
  "hex_digit n = (if n < 10 then char_of (48 + n) else char_of (87 + n))"

definition hex_text :: "string \<Rightarrow> string" where
  "hex_text bytes = concat (map (\<lambda>c. [hex_digit (byte c div 16), hex_digit (byte c mod 16)]) bytes)"

text \<open>Lines of the body that contradict the front matter.\<close>

definition contradicts :: "string \<Rightarrow> bool" where
  "contradicts line \<longleftrightarrow>
     line = ''## Expected Files'' \<or> line = ''## Acceptance Criteria''
     \<or> starts_with line ''**Status:**'' \<or> starts_with line ''**Depends on:**''"

definition blank_line :: "string \<Rightarrow> bool" where
  "blank_line line \<longleftrightarrow> trim_of [[CHR 0x20], [tab], [cr]] line = []"

text \<open>The identity inside a heading: digits and an optional suffix.\<close>

definition heading_identity :: "string \<Rightarrow> (nat \<times> char option) option" where
  "heading_identity text =
     (let n = length (takeWhile is_digit text) in
      map_option (\<lambda>s. (n, s)) (letter_suffix (drop n text)))"

definition canonical_heading ::
    "string \<Rightarrow> u64 \<Rightarrow> char option \<Rightarrow> string \<Rightarrow> backlog_error fault + string" where
  "canonical_heading relative number suffix heading =
     (case strip_prefix heading ''# PRD-'' of
        None \<Rightarrow> fail_at relative ''first nonblank content is not a PRD level-one heading''
      | Some body \<Rightarrow>
     (case split_once body '': '' of
        None \<Rightarrow> fail_at relative (''heading must be '' @ quoted ''# PRD-<digits>: <title>'')
      | Some (digits, title) \<Rightarrow>
     (case heading_identity digits of
        None \<Rightarrow> fail_at relative ''heading has an invalid PRD identity''
      | Some (len, heading_suffix) \<Rightarrow>
        if len = 0 then fail_at relative ''heading has an invalid PRD identity''
        else (case parse_u64 (take len digits) of
          None \<Rightarrow> fail_at relative ''heading number overflows u64''
        | Some heading_number \<Rightarrow>
          if heading_number \<noteq> number \<or> heading_suffix \<noteq> suffix
          then fail_at relative (''heading identity PRD-'' @ show_u64 heading_number
                 @ '' does not match filename PRD-'' @ show_u64 number)
          else if trim title = [] \<or> tab \<in> set title \<or> cr \<in> set title \<or> nl \<in> set title
          then fail_at relative ''title is empty or contains forbidden whitespace''
          else Inr title))))"

text \<open>The bold fields under the heading: the scan stops at the first other line.\<close>

fun depends_field ::
    "string \<Rightarrow> string list \<Rightarrow> string option \<Rightarrow> backlog_error fault + string option" where
  "depends_field relative [] found = Inr found"
| "depends_field relative (raw # ls) found =
     (let line = strip_cr raw in
      if trim_of [[CHR 0x20], [tab]] line = [] then depends_field relative ls found
      else case Option.bind (strip_prefix line ''**'') (\<lambda>rest. split_once rest '':** '') of
        Some (label, value) \<Rightarrow>
          if label = ''Depends on''
          then (if found \<noteq> None then fail_at relative ''repeated Depends on field''
                else depends_field relative ls (Some value))
          else depends_field relative ls found
      | None \<Rightarrow>
          if starts_with line ''**Depends on'' then fail_at relative ''malformed Depends on field''
          else Inr found)"

fun legacy_dependencies ::
    "string \<Rightarrow> backlog_profile \<Rightarrow> u64 \<Rightarrow> string list \<Rightarrow> prd_id list
     \<Rightarrow> backlog_error fault + prd_id list" where
  "legacy_dependencies relative profile number [] acc = Inr acc"
| "legacy_dependencies relative profile number (t # ts) acc =
     (let token = trim_of [[CHR 0x20], [tab]] t in
      if token = [] then fail_at relative ''empty dependency list element''
      else rbind (map_err (Err \<circ> malformed relative) (parse_prd_id token profile)) (\<lambda>dep.
        if id_number dep = number then fail_at relative (''self-dependency '' @ show_prd_id dep)
        else if list_ex (prd_eq dep) acc
        then fail_at relative (''duplicate dependency '' @ show_prd_id dep)
        else legacy_dependencies relative profile number ts (acc @ [dep])))"

definition body_dependencies ::
    "string \<Rightarrow> backlog_profile \<Rightarrow> u64 \<Rightarrow> string option \<Rightarrow> backlog_error fault + prd_id list" where
  "body_dependencies relative profile number field =
     (case field of
        None \<Rightarrow> Inr []
      | Some value \<Rightarrow>
        if value = ''none'' then Inr []
        else rbind (legacy_dependencies relative profile number (split_char (CHR '','') value) [])
               (\<lambda>deps. Inr (sort_key prd_key deps)))"

definition check_front_identity ::
    "string \<Rightarrow> u64 \<Rightarrow> char option \<Rightarrow> parsed_front_matter option \<Rightarrow> backlog_error fault + unit" where
  "check_front_identity relative number suffix structured =
     (case structured of
        None \<Rightarrow> Inr ()
      | Some (front_id, _, _) \<Rightarrow>
        if id_number front_id \<noteq> number \<or> id_suffix front_id \<noteq> suffix
        then fail_at relative (''front matter identity '' @ show_prd_id front_id
               @ '' does not match filename identity'')
        else Inr ())"

definition front_dependencies :: "parsed_front_matter option \<Rightarrow> prd_id list" where
  "front_dependencies structured = (case structured of None \<Rightarrow> [] | Some (_, deps, _) \<Rightarrow> deps)"

definition front_metadata :: "parsed_front_matter option \<Rightarrow> prd_metadata" where
  "front_metadata structured =
     (case structured of None \<Rightarrow> default_metadata | Some (_, _, m) \<Rightarrow> m)"

definition em_dash :: string where
  "em_dash = [CHR 0x20, CHR 0xE2, CHR 0x80, CHR 0x94, CHR 0x20]"

definition slug_separator :: "string \<Rightarrow> (nat \<times> nat) option" where
  "slug_separator body =
     (case find_sub em_dash body of
        Some i \<Rightarrow> Some (i, length em_dash)
      | None \<Rightarrow> map_option (\<lambda>i. (i, 2)) (find_sub '': '' body))"

definition parse_numbered_slug_content ::
    "(string \<Rightarrow> string) \<Rightarrow> string \<Rightarrow> u64 \<Rightarrow> char option \<Rightarrow> nat \<Rightarrow> prd_location \<Rightarrow> string \<Rightarrow> string
     \<Rightarrow> parsed_front_matter option \<Rightarrow> backlog_error fault + discovered_prd" where
  "parse_numbered_slug_content sha256 relative number suffix width location bytes heading structured =
     (case strip_prefix heading ''# PRD '' of
        None \<Rightarrow> fail_at relative
          ''first nonblank content is not a numbered-slug PRD level-one heading''
      | Some body \<Rightarrow>
     (case slug_separator body of
        None \<Rightarrow> fail_at relative ''heading separator must be an em-dash or colon''
      | Some (i, len) \<Rightarrow>
        let ident = take i body; title = drop (i + len) body in
        (case heading_identity ident of
           None \<Rightarrow> fail_at relative ''heading has an invalid PRD identity''
         | Some (digit_len, heading_suffix) \<Rightarrow>
        (case parse_u64 (take digit_len ident) of
           None \<Rightarrow> fail_at relative ''heading has an invalid PRD identity''
         | Some heading_number \<Rightarrow>
           if heading_number \<noteq> number \<or> heading_suffix \<noteq> suffix
           then fail_at relative (''heading identity PRD '' @ ident @ '' does not match filename identity'')
           else if trim title = [] then fail_at relative ''title must not be empty''
           else rbind (check_front_identity relative number suffix structured) (\<lambda>_.
                rbind (map_err Err (repository_path_new relative)) (\<lambda>path.
                Inr \<lparr>prd_ident = prd_numbered_slug number suffix width, prd_number = number,
                     prd_path = path, prd_location = location, prd_title = title,
                     prd_dependencies = front_dependencies structured,
                     prd_meta = front_metadata structured,
                     prd_content_hash = hex_text (sha256 bytes)\<rparr>))))))"

text \<open>The canonical grammar after the heading: dependencies from the body or from the front matter.\<close>

definition parse_canonical_content ::
    "(string \<Rightarrow> string) \<Rightarrow> string \<Rightarrow> u64 \<Rightarrow> char option \<Rightarrow> prd_location \<Rightarrow> string \<Rightarrow> string \<Rightarrow> string list
     \<Rightarrow> parsed_front_matter option \<Rightarrow> backlog_error fault + discovered_prd" where
  "parse_canonical_content sha256 relative number suffix location bytes heading ls structured =
     rbind (canonical_heading relative number suffix heading) (\<lambda>title.
     rbind (depends_field relative ls None) (\<lambda>field.
     if structured \<noteq> None \<and> field \<noteq> None
     then fail_at relative (''contradictory body metadata: Depends on is forbidden when ''
            @ ''structured front matter is present'') else
     rbind (if structured = None then body_dependencies relative Canonical number field
            else Inr (front_dependencies structured)) (\<lambda>deps.
     rbind (check_front_identity relative number suffix structured) (\<lambda>_.
     rbind (map_err Err (repository_path_new relative)) (\<lambda>path.
     Inr \<lparr>prd_ident = prd_with_suffix number suffix, prd_number = number, prd_path = path,
          prd_location = location, prd_title = title, prd_dependencies = deps,
          prd_meta = front_metadata structured, prd_content_hash = hex_text (sha256 bytes)\<rparr>)))))"

definition check_structured ::
    "string \<Rightarrow> prd_metadata_policy \<Rightarrow> string list \<Rightarrow> parsed_front_matter option \<Rightarrow> string
     \<Rightarrow> backlog_error fault + unit" where
  "check_structured relative policy vocabulary structured document =
     (case structured of
        None \<Rightarrow>
          if policy = Strict
          then fail_at relative ''missing structured PRD front matter (policy=strict)'' else Inr ()
      | Some (_, _, m) \<Rightarrow>
        (case find (\<lambda>c. c \<notin> set vocabulary) (md_risk_classes m) of
           Some c \<Rightarrow> fail_at relative (''risk class '' @ quoted c
             @ '' is not in the configured repository risk vocabulary'')
         | None \<Rightarrow>
           (case find contradicts (map trim_cr (str_lines document)) of
              Some line \<Rightarrow> fail_at relative (''contradictory body metadata '' @ quoted line)
            | None \<Rightarrow> Inr ())))"

definition strip_bom :: "string \<Rightarrow> string" where
  "strip_bom s = (case strip_prefix s [CHR 0xEF, CHR 0xBB, CHR 0xBF] of None \<Rightarrow> s | Some r \<Rightarrow> r)"

definition parse_bytes ::
    "(string \<Rightarrow> string) \<Rightarrow> string \<Rightarrow> backlog_layout \<Rightarrow> prd_location \<Rightarrow> u64 \<times> char option \<times> nat
     \<Rightarrow> string \<Rightarrow> backlog_error fault + discovered_prd" where
  "parse_bytes sha256 relative layout location ident bytes =
     (let (number, suffix, width) = ident in
      if \<not> utf8_valid bytes then fail_at relative ''content is not valid UTF-8''
      else rbind (parse_front_matter (strip_bom bytes) relative) (\<lambda>(structured, document).
        rbind (check_structured relative (bl_metadata_policy layout) (bl_risk_vocabulary layout)
                 structured document) (\<lambda>_.
        case dropWhile blank_line (str_lines document) of
          [] \<Rightarrow> fail_at relative ''missing level-one heading''
        | raw # ls \<Rightarrow>
          let heading = strip_cr raw in
          (case bl_profile layout of
             NumberedSlug \<Rightarrow>
               parse_numbered_slug_content sha256 relative number suffix width location bytes
                 heading structured
           | Canonical \<Rightarrow>
               parse_canonical_content sha256 relative number suffix location bytes heading ls
                 structured))))"

definition parse_candidate ::
    "(string \<Rightarrow> string) \<Rightarrow> file_system \<Rightarrow> backlog_layout \<Rightarrow> string \<Rightarrow> string \<Rightarrow> prd_location
     \<Rightarrow> backlog_error fault + discovered_prd" where
  "parse_candidate sha256 fs layout relative name location =
     (case fs_inspect fs relative of
        Inl e \<Rightarrow> fail_at relative (''cannot inspect file: '' @ io_message e)
      | Inr Symlink \<Rightarrow> fail_at relative ''matching symlinks are forbidden''
      | Inr Other_Kind \<Rightarrow> fail_at relative ''matching entry is not a regular file''
      | Inr Regular_File \<Rightarrow>
        (case filename_identity name (bl_profile layout) of
           None \<Rightarrow> Inl Panic
         | Some (Inl message) \<Rightarrow> fail_at relative message
         | Some (Inr ident) \<Rightarrow>
           (case fs_read fs relative of
              Inl e \<Rightarrow> fail_at relative (''cannot read file: '' @ io_message e)
            | Inr bytes \<Rightarrow> parse_bytes sha256 relative layout location ident bytes)))"

section \<open>Discovery\<close>

type_synonym candidate = "string \<times> prd_location"

fun collect_names ::
    "(string \<Rightarrow> backlog_error) \<Rightarrow> backlog_profile \<Rightarrow> dir_item list \<Rightarrow> backlog_error + string list" where
  "collect_names err profile [] = Inr []"
| "collect_names err profile (Item_Error m # items) = Inl (err m)"
| "collect_names err profile (Non_Utf8_Name # items) = collect_names err profile items"
| "collect_names err profile (Named n # items) =
     rbind (collect_names err profile items)
       (\<lambda>ns. Inr (if filename_identity n profile \<noteq> None then n # ns else ns))"

definition active_candidates :: "file_system \<Rightarrow> backlog_layout \<Rightarrow> backlog_error + candidate list" where
  "active_candidates fs layout =
     (case fs_read_dir fs (bl_active_dir layout) of
        Inl e \<Rightarrow> Inl (Discovery (''cannot read '' @ bl_active_dir layout @ '': '' @ io_message e))
      | Inr items \<Rightarrow>
        rbind (collect_names (\<lambda>m. Discovery (''cannot enumerate docs/prds: '' @ m))
                 (bl_profile layout) items)
          (\<lambda>ns. Inr (map (\<lambda>n. (n, Active)) ns)))"

definition archived_candidates :: "file_system \<Rightarrow> backlog_layout \<Rightarrow> backlog_error + candidate list" where
  "archived_candidates fs layout =
     (case fs_read_dir fs (bl_archived_dir layout) of
        Inl (Io_Not_Found _) \<Rightarrow> Inr []
      | Inl (Io_Other m) \<Rightarrow> Inl (Discovery (''cannot read '' @ bl_archived_dir layout @ '': '' @ m))
      | Inr items \<Rightarrow>
        rbind (collect_names (\<lambda>m. Discovery (''cannot enumerate '' @ bl_archived_dir layout @ '': '' @ m))
                 (bl_profile layout) items)
          (\<lambda>ns. Inr (map (\<lambda>n. (n, Archived)) ns)))"

definition relative_path :: "backlog_layout \<Rightarrow> candidate \<Rightarrow> string" where
  "relative_path layout c =
     (case c of (name, Active) \<Rightarrow> bl_active_dir layout @ slash # name
              | (name, Archived) \<Rightarrow> bl_archived_dir layout @ slash # name)"

text \<open>Every candidate is parsed; the errors are collected, the parses kept in candidate order.\<close>

fun parse_all ::
    "(candidate \<Rightarrow> backlog_error fault + discovered_prd) \<Rightarrow> backlog_layout \<Rightarrow> candidate list
     \<Rightarrow> discovered_prd list \<Rightarrow> string list \<Rightarrow> unit fault + discovered_prd list \<times> string list" where
  "parse_all parse layout [] parsed errors = Inr (parsed, errors)"
| "parse_all parse layout (c # cs) parsed errors =
     (case parse c of
        Inr v \<Rightarrow> parse_all parse layout cs (parsed @ [v]) errors
      | Inl Panic \<Rightarrow> Inl Panic
      | Inl (Err e) \<Rightarrow>
        if snd c = Archived \<and> bl_profile layout = NumberedSlug
        then parse_all parse layout cs parsed errors
        else parse_all parse layout cs parsed (errors @ [show_backlog_error e]))"

definition discovery_key :: "discovered_prd \<Rightarrow> (u64 \<times> nat) \<times> string" where
  "discovery_key p = (prd_key (prd_ident p), prd_path p)"

fun check_duplicates :: "discovered_prd list \<Rightarrow> backlog_error + unit" where
  "check_duplicates (a # b # r) =
     (if prd_eq (prd_ident a) (prd_ident b)
      then Inl (DuplicateIdentity (prd_ident a) (prd_path a @ '', '' @ prd_path b))
      else check_duplicates (b # r))"
| "check_duplicates _ = Inr ()"

definition discover_with_layout ::
    "(string \<Rightarrow> string) \<Rightarrow> file_system \<Rightarrow> backlog_layout \<Rightarrow> backlog_error fault + discovered_prd list" where
  "discover_with_layout sha256 fs layout =
     rbind (map_err Err (active_candidates fs layout)) (\<lambda>active.
     rbind (map_err Err (archived_candidates fs layout)) (\<lambda>archived.
     let candidates = sort_key (\<lambda>c. (fst c, snd c = Archived)) (active @ archived);
         parse = (\<lambda>c. parse_candidate sha256 fs layout (relative_path layout c) (fst c) (snd c))
     in case parse_all parse layout candidates [] [] of
          Inl _ \<Rightarrow> Inl Panic
        | Inr (parsed, errors) \<Rightarrow>
          if errors \<noteq> [] then Inl (Err (Discovery (join ''; '' errors)))
          else let sorted_prds = sort_key discovery_key parsed in
            rbind (map_err Err (check_duplicates sorted_prds)) (\<lambda>_. Inr sorted_prds)))"

section \<open>Facts about the front matter\<close>

lemma unquote_not_empty: "unquote v = Inr x \<Longrightarrow> x \<noteq> []"
  by (auto simp: unquote_def split: if_splits)

lemma unquote_single: "unquote [c] = Inl Panic \<longleftrightarrow> c = dquote \<or> c = squote"
proof (cases "c = dquote \<or> c = squote")
  case True
  then show ?thesis by (elim disjE) (simp_all only: unquote_def, simp_all add: ends_with_def)
next
  case False
  have single: "ends_with [c] [d] \<longleftrightarrow> c = d" for d by (simp add: ends_with_def)
  from False have "c \<noteq> dquote" and "c \<noteq> squote" by auto
  then have "\<not> ends_with [c] [dquote]" and "\<not> ends_with [c] [squote]"
    by (simp_all only: single not_False_eq_True simp_thms)
  with False show ?thesis by (simp only: unquote_def) simp
qed

lemma unquote_panic: "unquote v = Inl Panic \<longleftrightarrow> v = [dquote] \<or> v = [squote]"
proof (cases v)
  case (Cons c r)
  show ?thesis
  proof (cases r)
    case Nil
    with Cons show ?thesis using unquote_single [of c] by simp
  next
    case (Cons d t)
    with \<open>v = c # r\<close> show ?thesis by (auto simp: unquote_def)
  qed
qed (simp add: unquote_def)

lemma traverse_not_empty:
  assumes "\<And>x y. f x = Inr y \<Longrightarrow> y \<noteq> []"
  shows "traverse f xs = Inr ys \<Longrightarrow> [] \<notin> set ys"
  using assms by (induction xs arbitrary: ys) (force simp: rbind_Inr_iff)+

lemma yaml_list_not_empty:
  assumes "parse_yaml_list_or_scalar v = Inr xs"
  shows "[] \<notin> set xs"
proof (cases "Option.bind (strip_prefix v ''['') (\<lambda>v. strip_suffix v '']'')")
  case None
  with assms show ?thesis
    by (auto simp: parse_yaml_list_or_scalar_def rbind_Inr_iff map_err_Inr_iff
        dest: unquote_not_empty split: if_splits)
next
  case (Some inner)
  let ?f = "\<lambda>item. map_err (map_fault Discovery) (unquote (trim item))"
  have "?f x = Inr y \<Longrightarrow> y \<noteq> []" for x y by (auto simp: map_err_Inr_iff dest: unquote_not_empty)
  with Some assms show ?thesis
    using traverse_not_empty [of ?f "split_char (CHR '','') inner" xs]
    by (simp add: parse_yaml_list_or_scalar_def split: if_splits)
qed

definition values_nonempty :: "fm_state \<Rightarrow> bool" where
  "values_nonempty st \<longleftrightarrow> (\<forall>k vs. fm_values st k = Some vs \<longrightarrow> [] \<notin> set vs)"

lemma fm_line_values:
  assumes "fm_line path n raw st = Inr st'"
  shows "st' = st
    \<or> (\<exists>key vs v. fm_values st key = Some vs \<and> v \<noteq> [] \<and> fm_values st' = (fm_values st)(key \<mapsto> vs @ [v]))
    \<or> (\<exists>key vs. [] \<notin> set vs \<and> fm_values st' = (fm_values st)(key \<mapsto> vs))"
proof (cases "trim (trim_cr raw) = []")
  case True
  with assms show ?thesis by (simp add: fm_line_def Let_def)
next
  case False
  show ?thesis
  proof (cases "strip_prefix (trim_cr raw) ''  - ''")
    case None
    have "\<exists>key vs. [] \<notin> set vs
        \<and> st' = \<lparr>fm_values = (fm_values st)(key \<mapsto> vs), fm_current = Some key\<rparr>"
    proof (cases "split_once (trim_cr raw) '':''")
      case (Some kv)
      with assms False None obtain vs where
        "(if trim (snd kv) = [] then Inr [] else parse_yaml_list_or_scalar (trim (snd kv))) = Inr vs"
        and st: "st' = \<lparr>fm_values = (fm_values st)(fst kv \<mapsto> vs), fm_current = Some (fst kv)\<rparr>"
        by (cases kv) (auto simp: fm_line_def Let_def rbind_Inr_iff simp del: fun_upd_apply
            split: if_split_asm)
      then have "[] \<notin> set vs" by (auto dest: yaml_list_not_empty split: if_splits)
      with st show ?thesis by blast
    qed (use assms False None in \<open>auto simp: fm_line_def Let_def split: if_splits\<close>)
    then obtain key vs where "[] \<notin> set vs" and "fm_values st' = (fm_values st)(key \<mapsto> vs)"
      by auto
    then show ?thesis by blast
  next
    case (Some item)
    with assms False obtain key vs v where "fm_values st key = Some vs" and "unquote (trim item) = Inr v"
      and "st' = st\<lparr>fm_values := (fm_values st)(key \<mapsto> vs @ [v])\<rparr>"
      by (auto simp: fm_line_def Let_def rbind_Inr_iff map_err_Inr_iff split: option.splits)
    moreover from this have "v \<noteq> []" by (auto dest: unquote_not_empty)
    ultimately show ?thesis by auto
  qed
qed

lemma fm_line_nonempty:
  assumes "fm_line path n raw st = Inr st'" and "values_nonempty st"
  shows "values_nonempty st'"
  using fm_line_values [OF assms(1)] assms(2)
  by (auto simp: values_nonempty_def split: if_splits)

lemma fm_lines_nonempty:
  "\<lbrakk>fm_lines path n ls st = Inr st'; values_nonempty st\<rbrakk> \<Longrightarrow> values_nonempty st'"
  by (induction ls arbitrary: n st) (auto simp: result_simps dest: fm_line_nonempty)

lemma fm_dependencies_facts:
  "\<lbrakk>fm_dependencies path profile i ts acc = Inr deps; distinct (map prd_key acc);
     prd_key i \<notin> prd_key ` set acc\<rbrakk>
   \<Longrightarrow> distinct (map prd_key deps) \<and> prd_key i \<notin> prd_key ` set deps"
proof (induction ts arbitrary: acc)
  case (Cons t ts)
  then obtain dep where rest: "fm_dependencies path profile i ts (acc @ [dep]) = Inr deps"
    and "\<not> prd_eq dep i" and "\<not> list_ex (prd_eq dep) acc"
    by (auto simp: result_simps split: if_splits)
  then have "distinct (map prd_key (acc @ [dep]))" and "prd_key i \<notin> prd_key ` set (acc @ [dep])"
    using Cons.prems(2,3) by (auto simp: prd_eq_key list_ex_iff)
  with Cons.IH [OF rest] show ?case by blast
qed simp

lemma fm_resources_Inr:
  "fm_resources path rs seen = Inr () \<longleftrightarrow>
     distinct rs \<and> set rs \<inter> seen = {} \<and> (\<forall>r \<in> set rs. r \<noteq> [] \<and> list_all resource_char r)"
  by (induction rs arbitrary: seen) auto

lemma fm_check_nonempty_Inr:
  "fm_check_nonempty path values ks = Inr () \<longleftrightarrow>
     (\<forall>k \<in> set ks. \<exists>vs. values k = Some vs \<and> vs \<noteq> [])"
  by (induction ks) (auto simp: result_simps fm_list_def)

lemma fm_version_Inr: "fm_version path t = Inr v \<longleftrightarrow> v = 1 \<and> parse_u64 t = Some 1"
  by (auto simp: fm_version_def split: option.splits)

definition front_matter_ok :: "parsed_front_matter \<Rightarrow> bool" where
  "front_matter_ok parsed \<longleftrightarrow>
     (case parsed of (i, deps, m) \<Rightarrow>
        md_contract_version m = Some 1
        \<and> (\<exists>s \<in> set fm_statuses. md_status m = Some s)
        \<and> sorted (map prd_key deps) \<and> distinct (map prd_key deps) \<and> prd_key i \<notin> prd_key ` set deps
        \<and> md_expected_files m \<noteq> [] \<and> [] \<notin> set (md_expected_files m)
        \<and> md_acceptance_criteria m \<noteq> [] \<and> [] \<notin> set (md_acceptance_criteria m)
        \<and> md_risk_classes m \<noteq> [] \<and> [] \<notin> set (md_risk_classes m)
        \<and> distinct (md_resources m)
        \<and> (\<forall>r \<in> set (md_resources m). r \<noteq> [] \<and> list_all resource_char r))"

lemma fm_build_ok:
  assumes "fm_build path values = Inr parsed" and "\<forall>k vs. values k = Some vs \<longrightarrow> [] \<notin> set vs"
  shows "front_matter_ok parsed"
  using assms
  by (auto simp: fm_build_def Let_def result_simps fm_list_def fm_resources_Inr fm_version_Inr
      fm_check_nonempty_Inr front_matter_ok_def distinct_map inj_on_def split: if_splits
      dest!: fm_dependencies_facts)

lemma parse_front_matter_ok:
  assumes "parse_front_matter content path = Inr (Some parsed, document)"
  shows "front_matter_ok parsed"
proof -
  obtain yaml st where "fm_lines path 0 (str_lines yaml) \<lparr>fm_values = (\<lambda>_. None), fm_current = None\<rparr> = Inr st"
    and build: "fm_build path (fm_values st) = Inr parsed"
    using assms by (auto simp: parse_front_matter_def result_simps split: option.splits)
  then have "values_nonempty st"
    using fm_lines_nonempty by (fastforce simp: values_nonempty_def)
  with build show ?thesis by (intro fm_build_ok) (auto simp: values_nonempty_def)
qed

section \<open>Facts about one document\<close>

definition well_formed_prd :: "discovered_prd \<Rightarrow> bool" where
  "well_formed_prd p \<longleftrightarrow>
     id_number (prd_ident p) = prd_number p
     \<and> lower_suffix (id_suffix (prd_ident p))
     \<and> sorted (map prd_key (prd_dependencies p)) \<and> distinct (map prd_key (prd_dependencies p))
     \<and> prd_key (prd_ident p) \<notin> prd_key ` set (prd_dependencies p)"

lemma legacy_dependencies_facts:
  "\<lbrakk>legacy_dependencies relative profile number ts acc = Inr deps; distinct (map prd_key acc);
     \<forall>d \<in> set acc. id_number d \<noteq> number\<rbrakk>
   \<Longrightarrow> distinct (map prd_key deps) \<and> (\<forall>d \<in> set deps. id_number d \<noteq> number)"
proof (induction ts arbitrary: acc)
  case (Cons t ts)
  then obtain dep where
    rest: "legacy_dependencies relative profile number ts (acc @ [dep]) = Inr deps"
    and "id_number dep \<noteq> number" and "\<not> list_ex (prd_eq dep) acc"
    by (auto simp: result_simps Let_def split: if_splits)
  then have "distinct (map prd_key (acc @ [dep]))" and "\<forall>d \<in> set (acc @ [dep]). id_number d \<noteq> number"
    using Cons.prems(2,3) by (auto simp: prd_eq_key list_ex_iff)
  with Cons.IH [OF rest] show ?case by blast
qed simp

lemma sort_key_facts [simp]:
  "sorted (map prd_key (sort_key prd_key ds))"
  "distinct (map prd_key (sort_key prd_key ds)) \<longleftrightarrow> distinct (map prd_key ds)"
proof -
  show "sorted (map prd_key (sort_key prd_key ds))" by simp
  have "mset (map prd_key (sort_key prd_key ds)) = mset (map prd_key ds)" by simp
  then show "distinct (map prd_key (sort_key prd_key ds)) \<longleftrightarrow> distinct (map prd_key ds)"
    by (rule mset_eq_imp_distinct_iff)
qed

lemma body_dependencies_facts:
  assumes "body_dependencies relative profile number field = Inr deps"
  shows "sorted (map prd_key deps) \<and> distinct (map prd_key deps)
    \<and> (\<forall>d \<in> set deps. id_number d \<noteq> number)"
proof (cases field)
  case (Some listed)
  show ?thesis
  proof (cases "listed = ''none''")
    case False
    with assms Some obtain ds where
      "legacy_dependencies relative profile number (split_char (CHR '','') listed) [] = Inr ds"
      and "deps = sort_key prd_key ds"
      by (auto simp: body_dependencies_def result_simps)
    with legacy_dependencies_facts show ?thesis by fastforce
  qed (use assms Some in \<open>simp add: body_dependencies_def\<close>)
qed (use assms in \<open>simp add: body_dependencies_def\<close>)

lemma repository_path_new_Inr: "repository_path_new path = Inr p \<Longrightarrow> p = path"
  by (simp add: repository_path_new_def split: if_splits)

lemma prd_key_number: "prd_key a = prd_key b \<Longrightarrow> id_number a = id_number b"
  by (simp add: prd_key_def)

lemma front_dependencies_facts:
  assumes "\<forall>parsed. structured = Some parsed \<longrightarrow> front_matter_ok parsed"
    and "check_front_identity relative number suffix structured = Inr u"
    and "prd_key i = (number, suffix_rank suffix)"
  shows "sorted (map prd_key (front_dependencies structured))
    \<and> distinct (map prd_key (front_dependencies structured))
    \<and> prd_key i \<notin> prd_key ` set (front_dependencies structured)"
proof (cases structured)
  case (Some parsed)
  obtain j deps m where parsed: "parsed = (j, deps, m)" by (cases parsed)
  with Some assms(2) have "prd_key j = (number, suffix_rank suffix)"
    by (simp add: check_front_identity_def prd_key_def split: if_splits)
  with assms(1,3) Some parsed show ?thesis
    by (auto simp: front_dependencies_def front_matter_ok_def)
qed (simp add: front_dependencies_def)

lemma numbered_slug_facts:
  assumes "parse_numbered_slug_content sha256 relative number suffix width location bytes heading structured = Inr p"
    and "\<forall>parsed. structured = Some parsed \<longrightarrow> front_matter_ok parsed" and "lower_suffix suffix"
  shows "well_formed_prd p \<and> prd_path p = relative \<and> prd_location p = location
    \<and> prd_number p = number \<and> id_suffix (prd_ident p) = suffix"
proof -
  have "check_front_identity relative number suffix structured = Inr ()
    \<and> (\<exists>path title. repository_path_new relative = Inr path
    \<and> p = \<lparr>prd_ident = prd_numbered_slug number suffix width, prd_number = number,
             prd_path = path, prd_location = location, prd_title = title,
             prd_dependencies = front_dependencies structured,
             prd_meta = front_metadata structured,
             prd_content_hash = hex_text (sha256 bytes)\<rparr>)"
    using assms(1) unfolding parse_numbered_slug_content_def Let_def
    by (simp add: rbind_Inr_iff map_err_Inr_iff split: option.split_asm prod.split_asm if_split_asm)
      blast
  then obtain path title where check: "check_front_identity relative number suffix structured = Inr ()"
    and "path = relative"
    and p: "p = \<lparr>prd_ident = prd_numbered_slug number suffix width, prd_number = number,
             prd_path = path, prd_location = location, prd_title = title,
             prd_dependencies = front_dependencies structured,
             prd_meta = front_metadata structured,
             prd_content_hash = hex_text (sha256 bytes)\<rparr>"
    using repository_path_new_Inr by blast
  have "prd_key (prd_numbered_slug number suffix width) = (number, suffix_rank suffix)"
    by (simp add: prd_numbered_slug_def prd_key_def)
  with front_dependencies_facts [OF assms(2) check] assms(3) \<open>path = relative\<close> show ?thesis
    by (simp add: p well_formed_prd_def) (simp add: prd_numbered_slug_def)
qed

lemma canonical_content_facts:
  assumes "parse_canonical_content sha256 relative number suffix location bytes heading ls structured = Inr p"
    and "\<forall>parsed. structured = Some parsed \<longrightarrow> front_matter_ok parsed" and "lower_suffix suffix"
  shows "well_formed_prd p \<and> prd_path p = relative \<and> prd_location p = location
    \<and> prd_number p = number \<and> id_suffix (prd_ident p) = suffix"
proof -
  obtain field deps path title where
    check: "check_front_identity relative number suffix structured = Inr ()"
    and path: "repository_path_new relative = Inr path"
    and deps: "(if structured = None then body_dependencies relative Canonical number field
            else Inr (front_dependencies structured)) = Inr deps"
    and p: "p = \<lparr>prd_ident = prd_with_suffix number suffix, prd_number = number, prd_path = path,
          prd_location = location, prd_title = title, prd_dependencies = deps,
          prd_meta = front_metadata structured, prd_content_hash = hex_text (sha256 bytes)\<rparr>"
    using assms(1) unfolding parse_canonical_content_def
    by (simp add: rbind_Inr_iff map_err_Inr_iff split: if_split_asm) blast+
  have key: "prd_key (prd_with_suffix number suffix) = (number, suffix_rank suffix)"
    by (simp add: prd_with_suffix_def prd_key_def)
  have "sorted (map prd_key deps) \<and> distinct (map prd_key deps)
      \<and> prd_key (prd_with_suffix number suffix) \<notin> prd_key ` set deps"
  proof (cases "structured = None")
    case True
    with deps have facts: "sorted (map prd_key deps) \<and> distinct (map prd_key deps)
      \<and> (\<forall>d \<in> set deps. id_number d \<noteq> number)" using body_dependencies_facts by simp
    have "id_number (prd_with_suffix number suffix) = number" by (simp add: prd_with_suffix_def)
    with facts show ?thesis by (metis imageE prd_key_number)
  next
    case False
    with deps front_dependencies_facts [OF assms(2) check key] show ?thesis by simp
  qed
  with repository_path_new_Inr [OF path] assms(3) show ?thesis
    by (simp add: p well_formed_prd_def) (simp add: prd_with_suffix_def)
qed

lemma parse_bytes_facts:
  assumes "parse_bytes sha256 relative layout location (number, suffix, width) bytes = Inr p"
    and "lower_suffix suffix"
  shows "well_formed_prd p \<and> prd_path p = relative \<and> prd_location p = location
    \<and> prd_number p = number \<and> id_suffix (prd_ident p) = suffix"
proof -
  obtain structured document where front: "parse_front_matter (strip_bom bytes) relative = Inr (structured, document)"
    and rest: "(case dropWhile blank_line (str_lines document) of
          [] \<Rightarrow> fail_at relative ''missing level-one heading''
        | raw # ls \<Rightarrow>
          let heading = strip_cr raw in
          (case bl_profile layout of
             NumberedSlug \<Rightarrow>
               parse_numbered_slug_content sha256 relative number suffix width location bytes
                 heading structured
           | Canonical \<Rightarrow>
               parse_canonical_content sha256 relative number suffix location bytes heading ls
                 structured)) = Inr p"
    using assms(1) unfolding parse_bytes_def Let_def
    by (auto simp: rbind_Inr_iff simp del: list.case split: if_split_asm)
  from front have "\<forall>parsed. structured = Some parsed \<longrightarrow> front_matter_ok parsed"
    using parse_front_matter_ok by blast
  with rest assms(2) show ?thesis
    by (cases "bl_profile layout")
      (auto simp: Let_def dest: canonical_content_facts numbered_slug_facts split: list.splits)
qed

lemma parse_candidate_facts:
  assumes "parse_candidate sha256 fs layout relative name location = Inr p"
  shows "well_formed_prd p \<and> prd_path p = relative \<and> prd_location p = location
    \<and> (\<exists>width. filename_identity name (bl_profile layout) =
          Some (Inr (prd_number p, id_suffix (prd_ident p), width)))"
proof -
  obtain number suffix width bytes where
    name: "filename_identity name (bl_profile layout) = Some (Inr (number, suffix, width))"
    and "parse_bytes sha256 relative layout location (number, suffix, width) bytes = Inr p"
    using assms by (auto simp: parse_candidate_def split: sum.splits file_kind.splits option.splits)
  with parse_bytes_facts filename_identity_suffix [OF name] show ?thesis by blast
qed

section \<open>Facts about discovery\<close>

lemma collect_names_Inr:
  "collect_names err profile items = Inr ns \<Longrightarrow>
     (\<forall>n. n \<in> set ns \<longleftrightarrow> Named n \<in> set items \<and> filename_identity n profile \<noteq> None)"
  by (induction err profile items arbitrary: ns rule: collect_names.induct)
    (auto simp: rbind_Inr_iff split: if_split_asm)

lemma active_candidates_mem:
  assumes "active_candidates fs layout = Inr cs"
  obtains items where "fs_read_dir fs (bl_active_dir layout) = Inr items"
    and "\<forall>c. c \<in> set cs \<longleftrightarrow> snd c = Active \<and> Named (fst c) \<in> set items
           \<and> filename_identity (fst c) (bl_profile layout) \<noteq> None"
proof -
  obtain items ns where items: "fs_read_dir fs (bl_active_dir layout) = Inr items"
    and ns: "collect_names (\<lambda>m. Discovery (''cannot enumerate docs/prds: '' @ m)) (bl_profile layout) items = Inr ns"
    and cs: "cs = map (\<lambda>n. (n, Active)) ns"
    using assms unfolding active_candidates_def by (auto simp: rbind_Inr_iff split: sum.split_asm)
  from collect_names_Inr [OF ns] cs show thesis by (intro that [OF items]) (auto simp: image_iff)
qed

lemma archived_candidates_mem:
  assumes "archived_candidates fs layout = Inr cs" and "c \<in> set cs"
  shows "snd c = Archived
    \<and> (\<exists>items. fs_read_dir fs (bl_archived_dir layout) = Inr items \<and> Named (fst c) \<in> set items)"
proof -
  obtain items ns where items: "fs_read_dir fs (bl_archived_dir layout) = Inr items"
    and ns: "collect_names (\<lambda>m. Discovery (''cannot enumerate '' @ bl_archived_dir layout @ '': '' @ m))
      (bl_profile layout) items = Inr ns"
    and cs: "cs = map (\<lambda>n. (n, Archived)) ns"
    using assms unfolding archived_candidates_def
    by (auto simp: rbind_Inr_iff split: sum.split_asm io_error.split_asm)
  from collect_names_Inr [OF ns] cs items assms(2) show ?thesis by auto
qed

lemma parse_all_Inr:
  assumes "parse_all parse layout cs parsed errors = Inr (parsed', errors')"
  shows "set parsed' = set parsed \<union> {p. \<exists>c \<in> set cs. parse c = Inr p}"
    and "errors' = [] \<Longrightarrow> \<forall>c \<in> set cs. snd c = Active \<or> bl_profile layout = Canonical \<longrightarrow>
           (\<exists>p. parse c = Inr p)"
    and "errors' = [] \<Longrightarrow> errors = []"
  using assms
proof (induction cs arbitrary: parsed errors)
  case (Cons c cs)
  {
    case 1 then show ?case using Cons.IH(1) by (force split: sum.splits fault.splits if_splits)
  next
    case 2 then show ?case using Cons.IH(2,3)
      by (fastforce split: sum.splits fault.splits if_splits prod.splits backlog_profile.splits)
  next
    case 3 then show ?case using Cons.IH(3) by (fastforce split: sum.splits fault.splits if_splits)
  }
qed simp_all

lemma check_duplicates_sorted:
  "\<lbrakk>check_duplicates ps = Inr (); sorted (map discovery_key ps)\<rbrakk>
   \<Longrightarrow> sorted_wrt (\<lambda>a b. prd_key (prd_ident a) < prd_key (prd_ident b)) ps"
proof (induction ps rule: check_duplicates.induct)
  case (1 a b r)
  then have "discovery_key a \<le> discovery_key b" and "\<not> prd_eq (prd_ident a) (prd_ident b)"
    by (auto split: if_splits)
  then have ab: "prd_key (prd_ident a) < prd_key (prd_ident b)"
    using pair_le_fst [of "discovery_key a" "discovery_key b"]
    by (simp add: prd_eq_key discovery_key_def)
  from 1 have rest: "sorted_wrt (\<lambda>a b. prd_key (prd_ident a) < prd_key (prd_ident b)) (b # r)"
    by (auto split: if_splits)
  with ab show ?case by (auto intro: less_trans)
qed auto

lemma discover_Inr:
  assumes "discover_with_layout sha256 fs layout = Inr prds"
  obtains active archived where
    "active_candidates fs layout = Inr active" and "archived_candidates fs layout = Inr archived"
    and "set prds = {p. \<exists>c \<in> set (active @ archived).
           parse_candidate sha256 fs layout (relative_path layout c) (fst c) (snd c) = Inr p}"
    and "\<forall>c \<in> set (active @ archived). snd c = Active \<or> bl_profile layout = Canonical \<longrightarrow>
           (\<exists>p. parse_candidate sha256 fs layout (relative_path layout c) (fst c) (snd c) = Inr p)"
    and "sorted_wrt (\<lambda>a b. prd_key (prd_ident a) < prd_key (prd_ident b)) prds"
proof -
  let ?parse = "\<lambda>c. parse_candidate sha256 fs layout (relative_path layout c) (fst c) (snd c)"
  obtain active archived where act: "active_candidates fs layout = Inr active"
    and arch: "archived_candidates fs layout = Inr archived"
    and rest: "(case parse_all ?parse layout
            (sort_key (\<lambda>c. (fst c, snd c = Archived)) (active @ archived)) [] [] of
          Inl _ \<Rightarrow> Inl Panic
        | Inr (parsed, errors) \<Rightarrow>
          if errors \<noteq> [] then Inl (Err (Discovery (join ''; '' errors)))
          else let sorted_prds = sort_key discovery_key parsed in
            rbind (map_err Err (check_duplicates sorted_prds)) (\<lambda>_. Inr sorted_prds)) = Inr prds"
    using assms unfolding discover_with_layout_def by (auto simp: rbind_Inr_iff map_err_Inr_iff Let_def)
  from rest obtain parsed errors where all: "parse_all ?parse layout
      (sort_key (\<lambda>c. (fst c, snd c = Archived)) (active @ archived)) [] [] = Inr (parsed, errors)"
    by (auto split: sum.split_asm)
  with rest have "errors = []" and dup: "check_duplicates (sort_key discovery_key parsed) = Inr ()"
    and prds: "prds = sort_key discovery_key parsed"
    by (auto simp: rbind_Inr_iff map_err_Inr_iff Let_def split: if_split_asm)
  with act arch parse_all_Inr [OF all] check_duplicates_sorted [OF dup] show thesis
    by (intro that [of active archived]) auto
qed

section \<open>Sample documents\<close>

definition text_lines :: "string list \<Rightarrow> string" where
  "text_lines ls = concat (map (\<lambda>l. l @ [nl]) ls)"

definition sample_front_matter :: string where
  "sample_front_matter = text_lines
     [''---'', ''familiar_ai_prd: 1'', ''id: PRD-2'', ''status: ready'', ''dependencies: [PRD-1]'',
      ''expected_files:'', ''  - src/lib.rs'', ''acceptance_criteria: [it works]'',
      ''risk_classes: [low]'', ''resources: [gpu]'', ''---'', ''# PRD-2: Beta'']"

definition sample_metadata :: prd_metadata where
  "sample_metadata =
     \<lparr>md_contract_version = Some 1, md_status = Some ''ready'',
      md_expected_files = [''src/lib.rs''], md_acceptance_criteria = [''it works''],
      md_risk_classes = [''low''], md_external_gates = [], md_resources = [''gpu'']\<rparr>"

definition sample_fs :: file_system where
  "sample_fs =
     \<lparr>fs_read_dir = (\<lambda>d. if d = ''docs/prds'' then Inr [Named ''PRD-2.md'', Named ''notes.txt'', Named ''PRD-1.md'']
                          else Inl (Io_Not_Found ''absent'')),
      fs_inspect = (\<lambda>_. Inr Regular_File),
      fs_read = (\<lambda>p. Inr (if p = ''docs/prds/PRD-1.md''
        then text_lines [''# PRD-1: Alpha'', [], ''**Depends on:** none'']
        else text_lines [''# PRD-2: Beta'', [], ''**Depends on:** PRD-1'']))\<rparr>"

definition sample_discovered :: "discovered_prd list" where
  "sample_discovered =
     [\<lparr>prd_ident = prd_new 1, prd_number = 1, prd_path = ''docs/prds/PRD-1.md'', prd_location = Active,
       prd_title = ''Alpha'', prd_dependencies = [], prd_meta = default_metadata,
       prd_content_hash = []\<rparr>,
      \<lparr>prd_ident = prd_new 2, prd_number = 2, prd_path = ''docs/prds/PRD-2.md'', prd_location = Active,
       prd_title = ''Beta'', prd_dependencies = [prd_new 1], prd_meta = default_metadata,
       prd_content_hash = []\<rparr>]"

lemma discover_sample: "discover_with_layout (\<lambda>_. []) sample_fs default_layout = Inr sample_discovered"
  by code_simp

section \<open>Properties\<close>

text \<open>
  accepted front matter is version 1 with a known status, sorted duplicate-free dependencies
  without the document itself, non-empty authority lists without empty entries, and distinct
  well-formed resource names.
\<close>

lemma front_matter_accepted:
  assumes "parse_front_matter content path = Inr (Some (i, deps, m), document)"
  shows "md_contract_version m = Some 1 \<and> (\<exists>s \<in> set fm_statuses. md_status m = Some s)
    \<and> sorted (map prd_key deps) \<and> distinct (map prd_key deps) \<and> prd_key i \<notin> prd_key ` set deps
    \<and> (\<forall>vs \<in> {md_expected_files m, md_acceptance_criteria m, md_risk_classes m}.
          vs \<noteq> [] \<and> [] \<notin> set vs)
    \<and> distinct (md_resources m)
    \<and> (\<forall>r \<in> set (md_resources m). r \<noteq> [] \<and> list_all resource_char r)"
  using parse_front_matter_ok [OF assms] by (simp add: front_matter_ok_def)

lemma front_matter_accepted_witness:
  "parse_front_matter sample_front_matter ''p'' =
     Inr (Some (prd_new 2, [prd_new 1], sample_metadata), text_lines [''# PRD-2: Beta''])
   \<and> distinct (md_resources sample_metadata)"
proof
  show *: "parse_front_matter sample_front_matter ''p'' =
     Inr (Some (prd_new 2, [prd_new 1], sample_metadata), text_lines [''# PRD-2: Beta''])"
    by code_simp
  show "distinct (md_resources sample_metadata)"
    using front_matter_accepted [OF *] by blast
qed

lemma discover_facts:
  assumes "discover_with_layout sha256 fs layout = Inr prds"
  shows "sorted_wrt (\<lambda>a b. prd_cmp (prd_ident a) (prd_ident b) = Less) prds
    \<and> (\<forall>p \<in> set prds. well_formed_prd p \<and>
        (\<exists>name items width.
           fs_read_dir fs (case prd_location p of Active \<Rightarrow> bl_active_dir layout
                                                | Archived \<Rightarrow> bl_archived_dir layout) = Inr items
           \<and> Named name \<in> set items \<and> prd_path p = relative_path layout (name, prd_location p)
           \<and> filename_identity name (bl_profile layout) =
               Some (Inr (prd_number p, id_suffix (prd_ident p), width))))"
proof -
  obtain active archived where act: "active_candidates fs layout = Inr active"
    and arch: "archived_candidates fs layout = Inr archived"
    and prds: "set prds = {p. \<exists>c \<in> set (active @ archived).
           parse_candidate sha256 fs layout (relative_path layout c) (fst c) (snd c) = Inr p}"
    and parsed: "\<forall>c \<in> set (active @ archived). snd c = Active \<or> bl_profile layout = Canonical \<longrightarrow>
           (\<exists>p. parse_candidate sha256 fs layout (relative_path layout c) (fst c) (snd c) = Inr p)"
    and sorted: "sorted_wrt (\<lambda>a b. prd_key (prd_ident a) < prd_key (prd_ident b)) prds"
    by (rule discover_Inr [OF assms])
  have listed: "\<exists>items. fs_read_dir fs (case snd c of Active \<Rightarrow> bl_active_dir layout
      | Archived \<Rightarrow> bl_archived_dir layout) = Inr items \<and> Named (fst c) \<in> set items"
    if "c \<in> set (active @ archived)" for c
  proof (cases "c \<in> set active")
    case True
    with active_candidates_mem [OF act] show ?thesis by (metis prd_location.simps(3))
  next
    case False
    with that archived_candidates_mem [OF arch, of c] show ?thesis by simp
  qed
  show ?thesis
  proof (intro conjI ballI)
    show "sorted_wrt (\<lambda>a b. prd_cmp (prd_ident a) (prd_ident b) = Less) prds"
      using sorted by (simp add: prd_cmp_key)
    fix p assume "p \<in> set prds"
    with prds obtain c where c: "c \<in> set (active @ archived)"
      and "parse_candidate sha256 fs layout (relative_path layout c) (fst c) (snd c) = Inr p" by auto
    note facts = parse_candidate_facts [OF this(2)]
    then show "well_formed_prd p" by simp
    from facts have "prd_location p = snd c" and "prd_path p = relative_path layout (fst c, snd c)"
      by simp_all
    moreover obtain width where "filename_identity (fst c) (bl_profile layout) =
        Some (Inr (prd_number p, id_suffix (prd_ident p), width))"
      using facts by blast
    moreover obtain items where "fs_read_dir fs (case snd c of Active \<Rightarrow> bl_active_dir layout
        | Archived \<Rightarrow> bl_archived_dir layout) = Inr items" and "Named (fst c) \<in> set items"
      using listed [OF c] by blast
    ultimately show "\<exists>name items width.
           fs_read_dir fs (case prd_location p of Active \<Rightarrow> bl_active_dir layout
                                                | Archived \<Rightarrow> bl_archived_dir layout) = Inr items
           \<and> Named name \<in> set items \<and> prd_path p = relative_path layout (name, prd_location p)
           \<and> filename_identity name (bl_profile layout) =
               Some (Inr (prd_number p, id_suffix (prd_ident p), width))" by auto
  qed
qed

text \<open>
  a discovered backlog is strictly ordered by identity, and each PRD is well formed, carries the
  identity of its file name, and comes from an entry of its own directory.
\<close>

lemma discover_sound:
  assumes "discover_with_layout sha256 fs layout = Inr prds"
  shows "sorted_wrt (\<lambda>a b. prd_cmp (prd_ident a) (prd_ident b) = Less) prds
    \<and> (\<forall>p \<in> set prds. well_formed_prd p \<and>
        (\<exists>name items width.
           fs_read_dir fs (case prd_location p of Active \<Rightarrow> bl_active_dir layout
                                                | Archived \<Rightarrow> bl_archived_dir layout) = Inr items
           \<and> Named name \<in> set items \<and> prd_path p = relative_path layout (name, prd_location p)
           \<and> filename_identity name (bl_profile layout) =
               Some (Inr (prd_number p, id_suffix (prd_ident p), width))))"
  using assms by (rule discover_facts)

lemma discover_sound_witness:
  "discover_with_layout (\<lambda>_. []) sample_fs default_layout = Inr sample_discovered
   \<and> well_formed_prd (hd sample_discovered)"
proof
  show *: "discover_with_layout (\<lambda>_. []) sample_fs default_layout = Inr sample_discovered"
    by (rule discover_sample)
  have "hd sample_discovered \<in> set sample_discovered" by (simp add: sample_discovered_def)
  with discover_sound [OF *] show "well_formed_prd (hd sample_discovered)" by blast
qed

text \<open>
  discovery never drops an active PRD silently: when it succeeds, every entry of the active
  directory whose name is a PRD name is in the result.
\<close>

lemma discover_complete:
  assumes "discover_with_layout sha256 fs layout = Inr prds"
    and "fs_read_dir fs (bl_active_dir layout) = Inr items"
    and "Named name \<in> set items" and "filename_identity name (bl_profile layout) \<noteq> None"
  shows "\<exists>p \<in> set prds. prd_path p = relative_path layout (name, Active) \<and> prd_location p = Active"
proof -
  obtain active archived where act: "active_candidates fs layout = Inr active"
    and arch: "archived_candidates fs layout = Inr archived"
    and prds: "set prds = {p. \<exists>c \<in> set (active @ archived).
           parse_candidate sha256 fs layout (relative_path layout c) (fst c) (snd c) = Inr p}"
    and parsed: "\<forall>c \<in> set (active @ archived). snd c = Active \<or> bl_profile layout = Canonical \<longrightarrow>
           (\<exists>p. parse_candidate sha256 fs layout (relative_path layout c) (fst c) (snd c) = Inr p)"
    and sorted: "sorted_wrt (\<lambda>a b. prd_key (prd_ident a) < prd_key (prd_ident b)) prds"
    by (rule discover_Inr [OF assms(1)])
  obtain items' where "fs_read_dir fs (bl_active_dir layout) = Inr items'"
    and "\<forall>c. c \<in> set active \<longleftrightarrow> snd c = Active \<and> Named (fst c) \<in> set items'
           \<and> filename_identity (fst c) (bl_profile layout) \<noteq> None"
    by (rule active_candidates_mem [OF act])
  with assms(2-) have member: "(name, Active) \<in> set active" by simp
  with parsed obtain p where
    p: "parse_candidate sha256 fs layout (relative_path layout (name, Active)) name Active = Inr p"
    by force
  with member prds have "p \<in> set prds" by force
  with parse_candidate_facts [OF p] show ?thesis by blast
qed

lemma discover_complete_witness:
  "discover_with_layout (\<lambda>_. []) sample_fs default_layout = Inr sample_discovered
   \<and> (\<exists>p \<in> set sample_discovered. prd_path p = relative_path default_layout (''PRD-2.md'', Active)
        \<and> prd_location p = Active)"
proof
  show *: "discover_with_layout (\<lambda>_. []) sample_fs default_layout = Inr sample_discovered"
    by (rule discover_sample)
  have "fs_read_dir sample_fs (bl_active_dir default_layout) =
      Inr [Named ''PRD-2.md'', Named ''notes.txt'', Named ''PRD-1.md'']"
    "filename_identity ''PRD-2.md'' (bl_profile default_layout) \<noteq> None"
    by code_simp+
  with discover_complete [OF *] show "\<exists>p \<in> set sample_discovered.
      prd_path p = relative_path default_layout (''PRD-2.md'', Active) \<and> prd_location p = Active"
    by simp
qed

text \<open>
  a value that is one quote character makes \<open>unquote\<close> slice \<open>1..0\<close>: a document with that value
  panics instead of being refused, and no other value does.
\<close>

lemma unquote_panics_iff:
  "(unquote v = Inl Panic \<longleftrightarrow> v = [dquote] \<or> v = [squote])
   \<and> structured_prd_metadata (text_lines [''---'', ''id: '' @ [dquote], ''---'']) = Inl Panic"
proof
  show "structured_prd_metadata (text_lines [''---'', ''id: '' @ [dquote], ''---'']) = Inl Panic"
    by code_simp
qed (rule unquote_panic)

text \<open>
  the body grammar compares numbers where the front matter compares identities: PRD-9 may depend
  on PRD-9b in front matter, while the same dependency in the body is refused as a self-dependency.
\<close>

lemma body_grammar_refuses_sibling:
  "legacy_dependencies path profile 9 [''PRD-9b''] [] =
     fail_at path ''self-dependency PRD-9b''
   \<and> fm_dependencies path profile (prd_new 9) [''PRD-9b''] [] =
       Inr [prd_with_suffix 9 (Some (CHR ''b''))]"
proof
  have token: "parse_prd_id ''PRD-9b'' profile = Inr (prd_with_suffix 9 (Some (CHR ''b'')))"
    for profile by (cases profile; simp; code_simp)
  have "trim_of [[CHR 0x20], [tab]] ''PRD-9b'' = ''PRD-9b''"
    and "show_prd_id (prd_with_suffix 9 (Some (CHR ''b''))) = ''PRD-9b''"
    by code_simp+
  then show "legacy_dependencies path profile 9 [''PRD-9b''] [] =
      fail_at path ''self-dependency PRD-9b''"
    by (cases profile) (simp_all add: token, simp_all add: prd_with_suffix_def)
  show "fm_dependencies path profile (prd_new 9) [''PRD-9b''] [] =
      Inr [prd_with_suffix 9 (Some (CHR ''b''))]"
    by (simp add: token prd_eq_def) (simp add: prd_new_def prd_with_suffix_def)
qed

end
