(* ===== verification/Backlog.thy ===== *)
theory Backlog
  imports Prd_Document
begin

text \<open>
  Selection and admission over a backlog, \<open>crates/familiar-ai-core/src/backlog.rs\<close>: the traits
  \<open>BacklogDiscovery\<close> and \<open>BacklogStatusStore\<close> as the locale \<open>backlog_environment\<close>,
  \<open>BacklogManager::next\<close>, \<open>admit_run_prd\<close>, \<open>front_matter_hold\<close>, \<open>resolve_run_prd\<close> and the deterministic
  quality checks of \<open>admission_quality\<close>.
\<close>

section \<open>Eligibility\<close>

definition front_matter_hold :: "discovered_prd \<Rightarrow> string option" where
  "front_matter_hold p =
     (case md_status (prd_meta p) of
        Some s \<Rightarrow> if s = ''draft'' \<or> s = ''in_progress'' \<or> s = ''blocked'' then Some s else None
      | None \<Rightarrow> None)"

type_synonym status_map = "u64 \<times> nat \<Rightarrow> backlog_status option"

definition status_map :: "backlog_entry list \<Rightarrow> status_map" where
  "status_map entries =
     collect_map (map (\<lambda>e. (prd_key (prd_ident (entry_prd e)), entry_status e)) entries)"

definition incomplete_dependencies :: "status_map \<Rightarrow> discovered_prd \<Rightarrow> prd_id list" where
  "incomplete_dependencies statuses p =
     filter (\<lambda>d. statuses (prd_key d) \<noteq> Some Completed) (prd_dependencies p)"

definition show_ids :: "prd_id list \<Rightarrow> string" where
  "show_ids ids = join '','' (map show_prd_id ids)"

definition reason_text :: "ineligibility_reason \<Rightarrow> string" where
  "reason_text r =
     (case r of
        StatusInProgress \<Rightarrow> ''in_progress''
      | StatusCompleted \<Rightarrow> ''completed''
      | StatusBlocked \<Rightarrow> ''blocked''
      | FrontMatterStatus s \<Rightarrow> ''front matter status '' @ s
      | DependenciesIncomplete ids \<Rightarrow> ''dependencies incomplete ['' @ show_ids ids @ '']'')"

section \<open>Admission of one PRD\<close>

definition admit_run_prd :: "backlog_entry list \<Rightarrow> discovered_prd \<Rightarrow> backlog_error + unit" where
  "admit_run_prd entries target =
     (if prd_location target = Archived then Inl (RunArchived (prd_path target))
      else case front_matter_hold target of
        Some s \<Rightarrow> Inl (RunStatus (prd_path target) s)
      | None \<Rightarrow>
        (case find (\<lambda>e. prd_path (entry_prd e) = prd_path target) entries of
           None \<Rightarrow> Inl (RunPath (prd_path target @ '' is not active''))
         | Some e \<Rightarrow>
           if entry_status e \<noteq> Pending
           then Inl (RunStatus (prd_path target) (show_status (entry_status e)))
           else let incomplete = incomplete_dependencies (status_map entries) target in
             if incomplete \<noteq> [] then Inl (RunDependencies (prd_path target) (show_ids incomplete))
             else Inr ()))"

section \<open>BacklogManager::next\<close>

definition to_next :: "backlog_entry \<Rightarrow> next_prd" where
  "to_next e =
     \<lparr>next_id = prd_ident (entry_prd e), next_path = prd_path (entry_prd e),
      next_title = prd_title (entry_prd e), next_status = entry_status e,
      next_dependencies = prd_dependencies (entry_prd e)\<rparr>"

text \<open>Why an active entry is passed over; \<open>None\<close> is an eligible entry.\<close>

definition ineligibility :: "status_map \<Rightarrow> backlog_entry \<Rightarrow> ineligibility_reason option" where
  "ineligibility statuses e =
     (case front_matter_hold (entry_prd e) of
        Some s \<Rightarrow> Some (FrontMatterStatus s)
      | None \<Rightarrow>
        let incomplete = incomplete_dependencies statuses (entry_prd e) in
        (case entry_status e of
           Pending \<Rightarrow> if incomplete = [] then None else Some (DependenciesIncomplete incomplete)
         | InProgress \<Rightarrow> Some StatusInProgress
         | Completed \<Rightarrow> Some StatusCompleted
         | Blocked \<Rightarrow> Some StatusBlocked))"

fun select_next :: "status_map \<Rightarrow> backlog_entry list \<Rightarrow> string list \<Rightarrow> backlog_error + next_prd" where
  "select_next statuses [] reasons = Inl (NoEligiblePrd (join '', '' reasons))"
| "select_next statuses (e # es) reasons =
     (if prd_location (entry_prd e) = Archived then select_next statuses es reasons
      else case ineligibility statuses e of
        None \<Rightarrow> Inr (to_next e)
      | Some r \<Rightarrow>
          select_next statuses es
            (reasons @ [show_prd_id (prd_ident (entry_prd e)) @ ''='' @ reason_text r]))"

definition entry_key :: "backlog_entry \<Rightarrow> (u64 \<times> nat) \<times> string" where
  "entry_key e = discovery_key (entry_prd e)"

definition choose_next :: "backlog_entry list \<Rightarrow> backlog_error + next_prd" where
  "choose_next entries = select_next (status_map entries) (sort_key entry_key entries) []"

text \<open>
  \<open>next\<close> resolves the repository, discovers its PRDs, validates the graph, reconciles the store and
  selects. The store is only changed by a successful reconciliation.
\<close>

definition backlog_next ::
    "('p \<Rightarrow> backlog_error + 'r) \<Rightarrow> ('r \<Rightarrow> backlog_error fault + discovered_prd list)
     \<Rightarrow> ('s \<Rightarrow> 'r \<Rightarrow> discovered_prd list \<Rightarrow> backlog_store_error + backlog_entry list \<times> 's)
     \<Rightarrow> 's \<Rightarrow> 'p \<Rightarrow> (backlog_error fault + next_prd) \<times> 's" where
  "backlog_next resolve discover snapshot store path =
     (case rbind (map_err Err (resolve path)) (\<lambda>repo.
           rbind (discover repo) (\<lambda>prds.
           if prds = [] then Inl (Err EmptyBacklog)
           else rbind (validate_graph prds) (\<lambda>_.
             map_err (Err \<circ> Store) (snapshot store repo prds)))) of
        Inl e \<Rightarrow> (Inl e, store)
      | Inr (entries, store') \<Rightarrow> (map_err Err (choose_next entries), store'))"

section \<open>Facts about selection\<close>

definition eligible :: "status_map \<Rightarrow> backlog_entry \<Rightarrow> bool" where
  "eligible statuses e \<longleftrightarrow>
     prd_location (entry_prd e) = Active \<and> front_matter_hold (entry_prd e) = None
     \<and> entry_status e = Pending
     \<and> (\<forall>d \<in> set (prd_dependencies (entry_prd e)). statuses (prd_key d) = Some Completed)"

lemma incomplete_empty_iff:
  "incomplete_dependencies statuses p = [] \<longleftrightarrow>
     (\<forall>d \<in> set (prd_dependencies p). statuses (prd_key d) = Some Completed)"
  by (auto simp: incomplete_dependencies_def filter_empty_conv)

lemma eligible_iff:
  "eligible statuses e \<longleftrightarrow> prd_location (entry_prd e) \<noteq> Archived \<and> ineligibility statuses e = None"
  by (cases "prd_location (entry_prd e)")
    (auto simp: eligible_def ineligibility_def Let_def incomplete_empty_iff
      split: option.splits backlog_status.splits)

lemma select_next_find:
  "select_next statuses es reasons = Inr n \<longleftrightarrow>
     (\<exists>e. find (eligible statuses) es = Some e \<and> n = to_next e)"
  by (induction es arbitrary: reasons) (auto simp: eligible_iff split: option.splits)

lemma select_next_not_found:
  "(\<exists>m. select_next statuses es reasons = Inl (NoEligiblePrd m)) \<longleftrightarrow>
     (\<forall>e \<in> set es. \<not> eligible statuses e)"
  by (induction es arbitrary: reasons) (auto simp: eligible_iff split: option.splits)

lemma admit_run_prd_iff:
  "admit_run_prd entries t = Inr () \<longleftrightarrow>
     prd_location t = Active \<and> front_matter_hold t = None
     \<and> (\<exists>e. find (\<lambda>e. prd_path (entry_prd e) = prd_path t) entries = Some e \<and> entry_status e = Pending)
     \<and> (\<forall>d \<in> set (prd_dependencies t). status_map entries (prd_key d) = Some Completed)"
  by (cases "prd_location t")
    (auto simp: admit_run_prd_def Let_def incomplete_empty_iff split: option.splits)

lemma find_unique_path:
  "\<lbrakk>distinct (map (\<lambda>e. prd_path (entry_prd e)) es); e \<in> set es\<rbrakk>
   \<Longrightarrow> find (\<lambda>x. prd_path (entry_prd x) = prd_path (entry_prd e)) es = Some e"
  by (induction es) (auto simp: image_iff)

lemma admit_entry_iff:
  assumes "distinct (map (\<lambda>e. prd_path (entry_prd e)) es)" and "e \<in> set es"
  shows "admit_run_prd es (entry_prd e) = Inr () \<longleftrightarrow> eligible (status_map es) e"
  using find_unique_path [OF assms] by (auto simp: admit_run_prd_iff eligible_def)

lemma choose_next_Inr:
  assumes "choose_next es = Inr n"
  obtains e where "e \<in> set es" and "n = to_next e" and "eligible (status_map es) e"
    and "\<forall>e' \<in> set es. eligible (status_map es) e' \<longrightarrow> entry_key e \<le> entry_key e'"
  using assms find_sorted_least [of "eligible (status_map es)" entry_key es]
  by (auto simp: choose_next_def select_next_find)

section \<open>The interfaces of the manager\<close>

text \<open>\<open>BacklogDiscovery\<close>: discovered PRDs are strictly ordered by identity.\<close>

locale backlog_source =
  fixes resolve :: "'p \<Rightarrow> backlog_error + 'r"
    and discover :: "'r \<Rightarrow> backlog_error fault + discovered_prd list"
  assumes discover_ordered:
    "discover r = Inr prds \<Longrightarrow> sorted_wrt (\<lambda>a b. prd_key (prd_ident a) < prd_key (prd_ident b)) prds"

text \<open>
  \<open>BacklogStatusStore\<close>: \<open>status_of\<close> is the recorded status of a path. A snapshot has one entry per
  discovered PRD, in order, with the recorded status; an archived PRD is completed; a transition
  changes the one path it names, from the expected status.
\<close>

locale backlog_status_store =
  fixes snapshot :: "'s \<Rightarrow> 'r \<Rightarrow> discovered_prd list \<Rightarrow> backlog_store_error + backlog_entry list \<times> 's"
    and transition :: "'s \<Rightarrow> 'r \<Rightarrow> string \<Rightarrow> backlog_status \<Rightarrow> backlog_status \<Rightarrow> string
                       \<Rightarrow> backlog_store_error + backlog_entry \<times> 's"
    and status_of :: "'s \<Rightarrow> 'r \<Rightarrow> string \<Rightarrow> backlog_status option"
  assumes snapshot_entries: "snapshot s r prds = Inr (es, s') \<Longrightarrow> map entry_prd es = prds"
    and snapshot_status: "\<lbrakk>snapshot s r prds = Inr (es, s'); e \<in> set es\<rbrakk>
          \<Longrightarrow> status_of s' r (prd_path (entry_prd e)) = Some (entry_status e)"
    and snapshot_archived: "\<lbrakk>snapshot s r prds = Inr (es, s'); e \<in> set es;
          distinct (map prd_path prds); prd_location (entry_prd e) = Archived\<rbrakk>
          \<Longrightarrow> entry_status e = Completed"
    and snapshot_keeps: "\<lbrakk>snapshot s r prds = Inr (es, s'); status_of s r path = Some st;
          \<forall>p \<in> set prds. prd_path p = path \<longrightarrow> prd_location p = Active\<rbrakk>
          \<Longrightarrow> status_of s' r path = Some st"
    and transition_status: "transition s r path a b actor = Inr (e, s')
          \<Longrightarrow> status_of s r path = Some a \<and> status_of s' r = (status_of s r)(path \<mapsto> b)
              \<and> entry_status e = b"
begin

text \<open>What a transition recorded is what the next snapshot of an active PRD reports.\<close>

lemma transition_then_snapshot:
  assumes "transition s r path a b actor = Inr (e, s')" and "snapshot s' r prds = Inr (es, s'')"
    and "x \<in> set es" and "prd_path (entry_prd x) = path"
    and "\<forall>p \<in> set prds. prd_path p = path \<longrightarrow> prd_location p = Active"
  shows "entry_status x = b"
proof -
  have "status_of s' r path = Some b" using transition_status [OF assms(1)] by simp
  then have "status_of s'' r path = Some b" by (rule snapshot_keeps [OF assms(2) _ assms(5)])
  with snapshot_status [OF assms(2,3)] assms(4) show ?thesis by simp
qed

text \<open>A second snapshot of the same PRDs reports the same statuses.\<close>

lemma snapshot_stable:
  assumes "snapshot s r prds = Inr (es, s')" and "snapshot s' r prds = Inr (es', s'')"
    and "distinct (map prd_path prds)" and "e \<in> set es" and "e' \<in> set es'"
    and same: "entry_prd e = entry_prd e'"
  shows "entry_status e = entry_status e'"
proof (cases "prd_location (entry_prd e)")
  case Archived
  then show ?thesis
    using snapshot_archived [OF assms(1,4,3)] snapshot_archived [OF assms(2,5,3)] same by simp
next
  case Active
  let ?path = "prd_path (entry_prd e)"
  have "entry_prd e \<in> set prds" using snapshot_entries [OF assms(1)] assms(4) by force
  with Active assms(3) have "\<forall>p \<in> set prds. prd_path p = ?path \<longrightarrow> prd_location p = Active"
    by (auto simp: distinct_map inj_on_def)
  with snapshot_keeps [OF assms(2) snapshot_status [OF assms(1,4)]]
  have "status_of s'' r ?path = Some (entry_status e)" by blast
  with snapshot_status [OF assms(2,5)] same show ?thesis by simp
qed

end

text \<open>Discovery in the file system is a source; \<open>fs_of\<close> is the file system of a repository.\<close>

lemma discovered_ordered:
  assumes "discover_with_layout sha256 fs layout = Inr prds"
  shows "sorted_wrt (\<lambda>a b. prd_key (prd_ident a) < prd_key (prd_ident b)) prds"
  using discover_facts [OF assms] by (simp add: prd_cmp_key)

interpretation filesystem_source: backlog_source
  resolve "\<lambda>r. discover_with_layout sha256 (fs_of r) layout"
  for resolve sha256 fs_of layout
  by unfold_locales (rule discovered_ordered)

text \<open>File names hold no slash, so discovered paths are distinct.\<close>

definition names_ok :: "file_system \<Rightarrow> bool" where
  "names_ok fs \<longleftrightarrow> (\<forall>d items n. fs_read_dir fs d = Inr items \<and> Named n \<in> set items \<longrightarrow> slash \<notin> set n)"

lemma last_component_unique:
  assumes "a @ slash # m = b @ slash # n" and "slash \<notin> set m" and "slash \<notin> set n"
  shows "m = n"
proof -
  have "takeWhile (\<lambda>c. c \<noteq> slash) (rev (x @ slash # k)) = rev k" if "slash \<notin> set k" for x k
    using that by (simp, subst takeWhile_append2) auto
  then have "rev m = rev n" using assms by metis
  then show ?thesis by simp
qed

lemma strictly_sorted_distinct:
  "sorted_wrt (\<lambda>a b. (f a :: 'b::linorder) < f b) xs \<Longrightarrow> distinct (map f xs)"
  by (induction xs) auto

lemma discovered_paths_distinct:
  assumes disc: "discover_with_layout sha256 fs layout = Inr prds" and names: "names_ok fs"
  shows "distinct (map prd_path prds)"
proof -
  have "prd_key (prd_ident p) = prd_key (prd_ident q)"
    if pq: "p \<in> set prds" "q \<in> set prds" "prd_path p = prd_path q" for p q
  proof -
    note facts = discover_facts [OF disc, THEN conjunct2, rule_format]
    have named: "\<exists>d name. prd_path x = d @ slash # name \<and> slash \<notin> set name
        \<and> (\<exists>w. filename_identity name (bl_profile layout)
              = Some (Inr (id_number (prd_ident x), id_suffix (prd_ident x), w)))"
      if "x \<in> set prds" for x
      using facts [OF that] names
      by (cases "prd_location x") (force simp: well_formed_prd_def names_ok_def relative_path_def)+
    obtain d m w where p: "prd_path p = d @ slash # m" "slash \<notin> set m"
      "filename_identity m (bl_profile layout) = Some (Inr (id_number (prd_ident p), id_suffix (prd_ident p), w))"
      using named [OF pq(1)] by blast
    obtain d' n w' where q: "prd_path q = d' @ slash # n" "slash \<notin> set n"
      "filename_identity n (bl_profile layout) = Some (Inr (id_number (prd_ident q), id_suffix (prd_ident q), w'))"
      using named [OF pq(2)] by blast
    have "m = n" using last_component_unique [of d m d' n] p(1,2) q(1,2) pq(3) by simp
    with p(3) q(3) show ?thesis by (simp add: prd_key_def)
  qed
  moreover have "distinct (map (\<lambda>p. prd_key (prd_ident p)) prds)"
    by (rule strictly_sorted_distinct [OF discovered_ordered [OF disc]])
  ultimately show ?thesis unfolding distinct_map inj_on_def by blast
qed

text \<open>The manager over a source and a store.\<close>

locale backlog_manager = backlog_source resolve discover
  + backlog_status_store snapshot transition status_of
  for resolve :: "'p \<Rightarrow> backlog_error + 'r"
    and discover :: "'r \<Rightarrow> backlog_error fault + discovered_prd list"
    and snapshot :: "'s \<Rightarrow> 'r \<Rightarrow> discovered_prd list \<Rightarrow> backlog_store_error + backlog_entry list \<times> 's"
    and transition :: "'s \<Rightarrow> 'r \<Rightarrow> string \<Rightarrow> backlog_status \<Rightarrow> backlog_status \<Rightarrow> string
                       \<Rightarrow> backlog_store_error + backlog_entry \<times> 's"
    and status_of :: "'s \<Rightarrow> 'r \<Rightarrow> string \<Rightarrow> backlog_status option"
begin

lemma next_selects:
  assumes "backlog_next resolve discover snapshot s path = (Inr n, s')"
  obtains repo prds es e where "resolve path = Inr repo" and "discover repo = Inr prds"
    and "snapshot s repo prds = Inr (es, s')" and "e \<in> set es" and "n = to_next e"
    and "eligible (status_map es) e"
    and "\<forall>e' \<in> set es. eligible (status_map es) e' \<longrightarrow>
           prd_key (next_id n) \<le> prd_key (prd_ident (entry_prd e'))"
    and "references_ok prds" and "acyclic (dep_rel (by_id prds))"
proof -
  obtain repo prds es where 1: "resolve path = Inr repo" "discover repo = Inr prds"
    and graph: "validate_graph prds = Inr ()" and snap: "snapshot s repo prds = Inr (es, s')"
    and choose: "choose_next es = Inr n"
    using assms unfolding backlog_next_def
    by (auto simp: rbind_Inr_iff map_err_Inr_iff split: sum.split_asm if_split_asm)
  from choose obtain e where e: "e \<in> set es" "n = to_next e" "eligible (status_map es) e"
    and least: "\<forall>e' \<in> set es. eligible (status_map es) e' \<longrightarrow> entry_key e \<le> entry_key e'"
    by (rule choose_next_Inr)
  have "prd_key (next_id n) \<le> prd_key (prd_ident (entry_prd e'))"
    if "e' \<in> set es" "eligible (status_map es) e'" for e'
    using pair_le_fst [of "entry_key e" "entry_key e'"] least that e(2)
    by (simp add: entry_key_def discovery_key_def to_next_def)
  with 1 snap e graph show thesis
    using validate_graph_cases [of prds] by (intro that) auto
qed

end

section \<open>Resolving a run path\<close>

text \<open>The operating system's answers about the supplied path; the digest is a parameter too.\<close>

record run_environment =
  re_current_dir :: "(string, io_error) result"
  re_inspect :: "string \<Rightarrow> (file_kind, io_error) result"
  re_canonicalize :: "string \<Rightarrow> (string, io_error) result"
  re_read :: "string \<Rightarrow> (string, io_error) result"

text \<open>\<open>Path::strip_prefix\<close> on canonical absolute paths, component by component.\<close>

definition path_strip_prefix :: "string \<Rightarrow> string \<Rightarrow> string option" where
  "path_strip_prefix path base =
     (if path = base then Some [] else strip_prefix path (if base = [slash] then base else base @ [slash]))"

definition run_candidate :: "run_environment \<Rightarrow> string \<Rightarrow> backlog_error + string" where
  "run_candidate env supplied =
     (if starts_with supplied [slash] then Inr supplied
      else case re_current_dir env of
        Inl e \<Rightarrow> Inl (RunPath (''cannot resolve current directory: '' @ io_message e))
      | Inr cwd \<Rightarrow> Inr (cwd @ slash # supplied))"

definition resolve_canonical ::
    "(string \<Rightarrow> string) \<Rightarrow> run_environment \<Rightarrow> string \<Rightarrow> discovered_prd list \<Rightarrow> string \<Rightarrow> string
     \<Rightarrow> backlog_error + discovered_prd" where
  "resolve_canonical sha256 env worktree discovered supplied canonical =
     (case path_strip_prefix canonical worktree of
       None \<Rightarrow> Inl (RunPath (supplied @ '' is outside the repository''))
     | Some rel \<Rightarrow>
       if \<not> utf8_valid rel then Inl (RunPath ''run path is not UTF-8'') else
       let relative = map (\<lambda>c. if c = backslash then slash else c) rel in
       (case find (\<lambda>p. prd_path p = relative) discovered of
          None \<Rightarrow> Inl (RunPath (supplied @ '' is not an active backlog entry''))
        | Some p \<Rightarrow>
          if prd_location p = Archived then Inl (RunArchived (prd_path p))
          else (case re_read env canonical of
            Inl e \<Rightarrow> Inl (RunPath (supplied @ '': '' @ io_message e))
          | Inr bytes \<Rightarrow>
            if hex_text (sha256 bytes) \<noteq> prd_content_hash p
            then Inl (RunPath (supplied @ '' changed after backlog discovery''))
            else Inr p)))"

definition resolve_run_prd ::
    "(string \<Rightarrow> string) \<Rightarrow> run_environment \<Rightarrow> string \<Rightarrow> discovered_prd list \<Rightarrow> string
     \<Rightarrow> backlog_error + discovered_prd" where
  "resolve_run_prd sha256 env worktree discovered supplied =
     rbind (run_candidate env supplied) (\<lambda>candidate.
     case re_inspect env candidate of
       Inl e \<Rightarrow> Inl (RunPath (supplied @ '': '' @ io_message e))
     | Inr Symlink \<Rightarrow> Inl (RunPath (supplied @ '' is symlinked''))
     | Inr Other_Kind \<Rightarrow> Inl (RunPath (supplied @ '' is not a regular file''))
     | Inr Regular_File \<Rightarrow>
     (case re_canonicalize env candidate of
       Inl e \<Rightarrow> Inl (RunPath (supplied @ '': '' @ io_message e))
     | Inr canonical \<Rightarrow> resolve_canonical sha256 env worktree discovered supplied canonical))"

lemma resolve_canonical_Inr:
  assumes "resolve_canonical sha256 env worktree discovered supplied canonical = Inr p"
  shows "p \<in> set discovered \<and> prd_location p = Active \<and> path_strip_prefix canonical worktree \<noteq> None
    \<and> (\<exists>bytes. re_read env canonical = Inr bytes \<and> hex_text (sha256 bytes) = prd_content_hash p)"
proof -
  obtain rel where rel: "path_strip_prefix canonical worktree = Some rel"
    using assms by (cases "path_strip_prefix canonical worktree") (auto simp: resolve_canonical_def)
  let ?relative = "map (\<lambda>c. if c = backslash then slash else c) rel"
  obtain q where q: "find (\<lambda>p. prd_path p = ?relative) discovered = Some q"
    using assms rel
    by (cases "find (\<lambda>p. prd_path p = ?relative) discovered")
      (auto simp: resolve_canonical_def Let_def split: if_split_asm)
  obtain bytes where bytes: "re_read env canonical = Inr bytes"
    using assms rel q
    by (cases "re_read env canonical") (auto simp: resolve_canonical_def Let_def split: if_split_asm)
  from assms rel q bytes have "p = q" and "prd_location q \<noteq> Archived"
    and "hex_text (sha256 bytes) = prd_content_hash q"
    by (auto simp: resolve_canonical_def Let_def split: if_split_asm)
  with find_SomeD [OF q] rel bytes show ?thesis by (cases "prd_location q") auto
qed

section \<open>Admission quality\<close>

record quality_check =
  qc_check :: string
  qc_field :: string
  qc_passed :: bool
  qc_detail :: string

record quality_report =
  qr_prd_id :: prd_id
  qr_prd_path :: string
  qr_checks :: "quality_check list"

definition report_passed :: "quality_report \<Rightarrow> bool" where
  "report_passed r \<longleftrightarrow> list_all qc_passed (qr_checks r)"

definition report_refusal :: "quality_report \<Rightarrow> string option" where
  "report_refusal r =
     (let failures = map (\<lambda>c. qc_check c @ '' '' @ qc_field c @ '': '' @ qc_detail c)
                       (filter (\<lambda>c. \<not> qc_passed c) (qr_checks r))
      in if failures = [] then None else Some (join ''; '' failures))"

definition activity_prefixes :: "string list" where
  "activity_prefixes =
     [''add '', ''build '', ''create '', ''implement '', ''investigate '', ''refactor '', ''update '']"

definition observable_words :: "string list" where
  "observable_words =
     ['' before '', '' after '', '' disabled'', '' error'', '' fail'', '' never '', '' only '', '' pass'',
      '' print'', '' query'', '' record'', '' report'', '' return'', '' select'', '' status'',
      '' visible'', '' rejects'', '' refuses'', '' pinned by'', '' exactly '']"

definition imperative_activity :: "string \<Rightarrow> bool" where
  "imperative_activity criterion \<longleftrightarrow>
     list_ex (starts_with (map ascii_lower criterion)) activity_prefixes"

definition observable_check :: "nat \<Rightarrow> string \<Rightarrow> quality_check" where
  "observable_check index criterion =
     (let observable = list_ex (contains_sub (map ascii_lower criterion)) observable_words;
          passed = \<not> imperative_activity criterion
      in \<lparr>qc_check = ''acceptance.observable'',
          qc_field = ''acceptance_criteria['' @ show_nat index @ '']'',
          qc_passed = passed,
          qc_detail =
            (if observable then ''criterion names an observable outcome''
             else if passed
             then ''criterion is not an imperative activity; observable cue is advisory''
             else ''criterion is an activity or has no observable outcome: '' @ criterion)\<rparr>)"

text \<open>The tokens between backticks: every second piece, starting from the second.\<close>

fun every_second :: "'a list \<Rightarrow> 'a list" where
  "every_second (_ # x # xs) = x # every_second xs"
| "every_second _ = []"

definition quoted_tokens :: "string \<Rightarrow> string list" where
  "quoted_tokens criterion = map trim (every_second (split_char backtick criterion))"

definition path_suffixes :: "string list" where
  "path_suffixes = [''.rs'', ''.toml'', ''.sql'', ''.md'', ''.json'', ''.yaml'', ''.yml'']"

definition path_like :: "string \<Rightarrow> bool" where
  "path_like token \<longleftrightarrow>
     \<not> has_white_space token \<and> \<not> starts_with token ''-'' \<and> \<not> ends_with token ''/''
     \<and> list_ex (ends_with token) path_suffixes"

definition dir_prefix :: "string \<Rightarrow> string" where
  "dir_prefix path = trim_end_of [[slash]] path @ [slash]"

definition surface_covered :: "string list \<Rightarrow> string \<Rightarrow> bool" where
  "surface_covered expected_files token \<longleftrightarrow>
     list_ex (\<lambda>e. e = token \<or> starts_with token (dir_prefix e) \<or> starts_with e (dir_prefix token))
       expected_files"

definition scope_check :: "string list \<Rightarrow> nat \<Rightarrow> string \<Rightarrow> quality_check" where
  "scope_check expected_files index token =
     (let covered = surface_covered expected_files token in
      \<lparr>qc_check = ''criterion.scope'',
       qc_field = ''acceptance_criteria['' @ show_nat index @ ''] <-> expected_files'',
       qc_passed = covered,
       qc_detail =
         (if covered then ''named surface '' @ quoted token @ '' is declared''
          else ''criterion names undeclared surface '' @ quoted token)\<rparr>)"

definition criterion_checks :: "string list \<Rightarrow> nat \<times> string \<Rightarrow> quality_check list" where
  "criterion_checks expected_files ic =
     observable_check (fst ic) (snd ic)
     # map (scope_check expected_files (fst ic)) (filter path_like (quoted_tokens (snd ic)))"

text \<open>What the file system says of an expected path under the worktree.\<close>

record layout_probe =
  lp_exists :: "string \<Rightarrow> bool"
  lp_is_dir :: "string \<Rightarrow> bool"
  lp_parent_is_dir :: "string \<Rightarrow> bool"

text \<open>
  \<open>Path::components\<close> drops empty and dot components, except a leading dot: a relative path is
  normal when no component is dot-dot and it does not start with a dot component.
\<close>

definition normal_relative :: "string \<Rightarrow> bool" where
  "normal_relative path \<longleftrightarrow>
     path \<noteq> [] \<and> \<not> starts_with path [slash]
     \<and> ''..'' \<notin> set (split_char slash path) \<and> hd (split_char slash path) \<noteq> ''.''"

definition plausible_check :: "layout_probe \<Rightarrow> nat \<Rightarrow> string \<Rightarrow> quality_check" where
  "plausible_check probe index expected =
     (let plausible = normal_relative expected \<and> (lp_exists probe expected \<or> lp_parent_is_dir probe expected)
      in \<lparr>qc_check = ''expected_files.plausible'',
          qc_field = ''expected_files['' @ show_nat index @ '']'',
          qc_passed = plausible,
          qc_detail =
            (if plausible then quoted expected @ '' is plausible under the repository layout''
             else quoted expected @ '' is not a plausible repository path'')\<rparr>)"

definition directory_claim :: "layout_probe \<Rightarrow> string \<Rightarrow> bool" where
  "directory_claim probe expected \<longleftrightarrow> ends_with expected ''/'' \<or> lp_is_dir probe expected"

definition directory_conflicts :: "discovered_prd list \<Rightarrow> discovered_prd \<Rightarrow> string \<Rightarrow> string list" where
  "directory_conflicts discovered p expected =
     map (\<lambda>o'. show_prd_id (prd_ident o'))
       (filter (\<lambda>o'. \<not> prd_eq (prd_ident o') (prd_ident p)
            \<and> list_ex (\<lambda>path. path = expected \<or> starts_with path (dir_prefix expected))
                (md_expected_files (prd_meta o')))
          discovered)"

definition directory_check ::
    "layout_probe \<Rightarrow> discovered_prd list \<Rightarrow> discovered_prd \<Rightarrow> nat \<Rightarrow> string \<Rightarrow> quality_check" where
  "directory_check probe discovered p index expected =
     (let claim = directory_claim probe expected in
      \<lparr>qc_check = ''expected_files.directory'',
       qc_field = ''expected_files['' @ show_nat index @ '']'',
       qc_passed = (\<not> claim),
       qc_detail =
         (if claim
          then ''directory claim '' @ quoted expected @ '' is refused; conflicts with queued PRDs [''
                 @ join '','' (directory_conflicts discovered p expected) @ '']''
          else ''entry is a file claim'')\<rparr>)"

definition graph_check :: "backlog_error fault + unit \<Rightarrow> quality_check" where
  "graph_check graph =
     \<lparr>qc_check = ''dependencies.graph'', qc_field = ''dependencies'', qc_passed = is_ok graph,
      qc_detail =
        (case graph of
           Inl (Err e) \<Rightarrow> show_backlog_error e
         | _ \<Rightarrow> ''every dependency exists and the graph is acyclic'')\<rparr>"

definition vocabulary_checks :: "quality_check list" where
  "vocabulary_checks =
     [\<lparr>qc_check = ''risk_classes.vocabulary'', qc_field = ''risk_classes'', qc_passed = True,
       qc_detail = ''risk classes passed the configured closed vocabulary during discovery''\<rparr>,
      \<lparr>qc_check = ''status.vocabulary'', qc_field = ''status'', qc_passed = True,
       qc_detail = ''status passed the structured PRD vocabulary during discovery''\<rparr>]"

definition admission_quality ::
    "layout_probe \<Rightarrow> discovered_prd list \<Rightarrow> discovered_prd \<Rightarrow> quality_report" where
  "admission_quality probe discovered p =
     (let m = prd_meta p in
      \<lparr>qr_prd_id = prd_ident p, qr_prd_path = prd_path p,
       qr_checks =
         graph_check (validate_graph discovered) # vocabulary_checks
         @ concat (map (criterion_checks (md_expected_files m))
                     (enumerate 0 (md_acceptance_criteria m)))
         @ concat (map (\<lambda>(i, e). [plausible_check probe i e, directory_check probe discovered p i e])
                     (enumerate 0 (md_expected_files m)))\<rparr>)"

section \<open>Facts about the quality report\<close>

lemma list_all_concat_map: "list_all P (concat (map f xs)) \<longleftrightarrow> (\<forall>x \<in> set xs. list_all P (f x))"
  by (induction xs) auto

lemma enumerate_ball: "(\<forall>ie \<in> set (enumerate n xs). P (snd ie)) \<longleftrightarrow> (\<forall>x \<in> set xs. P x)"
proof -
  have "snd ` set (enumerate n xs) = set xs" using map_snd_enumerate by (metis set_map)
  then show ?thesis by (metis image_iff)
qed

lemma criterion_checks_passed:
  "list_all qc_passed (criterion_checks files ic) \<longleftrightarrow>
     \<not> imperative_activity (snd ic)
     \<and> (\<forall>t \<in> set (quoted_tokens (snd ic)). path_like t \<longrightarrow> surface_covered files t)"
  by (auto simp: criterion_checks_def observable_check_def scope_check_def Let_def list_all_iff)

lemma report_passed_iff:
  "report_passed (admission_quality probe discovered p) \<longleftrightarrow>
     validate_graph discovered = Inr ()
     \<and> (\<forall>c \<in> set (md_acceptance_criteria (prd_meta p)). \<not> imperative_activity c
          \<and> (\<forall>t \<in> set (quoted_tokens c). path_like t
                 \<longrightarrow> surface_covered (md_expected_files (prd_meta p)) t))
     \<and> (\<forall>e \<in> set (md_expected_files (prd_meta p)). normal_relative e
          \<and> (lp_exists probe e \<or> lp_parent_is_dir probe e) \<and> \<not> directory_claim probe e)"
proof -
  let ?m = "prd_meta p"
  have "list_all qc_passed (concat (map (criterion_checks (md_expected_files ?m))
          (enumerate 0 (md_acceptance_criteria ?m)))) \<longleftrightarrow>
      (\<forall>c \<in> set (md_acceptance_criteria ?m). \<not> imperative_activity c
          \<and> (\<forall>t \<in> set (quoted_tokens c). path_like t \<longrightarrow> surface_covered (md_expected_files ?m) t))"
    (is "?lhs \<longleftrightarrow> ?rhs")
  proof -
    have "?lhs \<longleftrightarrow> (\<forall>ic \<in> set (enumerate 0 (md_acceptance_criteria ?m)).
        list_all qc_passed (criterion_checks (md_expected_files ?m) ic))"
      by (simp add: list_all_concat_map case_prod_beta)
    also have "\<dots> \<longleftrightarrow> ?rhs" unfolding criterion_checks_passed by (rule enumerate_ball)
    finally show ?thesis .
  qed
  moreover have "list_all qc_passed (concat (map (\<lambda>(i, e). [plausible_check probe i e,
          directory_check probe discovered p i e]) (enumerate 0 (md_expected_files ?m)))) \<longleftrightarrow>
      (\<forall>e \<in> set (md_expected_files ?m). normal_relative e
          \<and> (lp_exists probe e \<or> lp_parent_is_dir probe e) \<and> \<not> directory_claim probe e)"
    (is "?lhs \<longleftrightarrow> _")
  proof -
    have "?lhs \<longleftrightarrow> (\<forall>ie \<in> set (enumerate 0 (md_expected_files ?m)).
        qc_passed (plausible_check probe (fst ie) (snd ie))
        \<and> qc_passed (directory_check probe discovered p (fst ie) (snd ie)))"
      by (simp add: list_all_concat_map case_prod_beta)
    also have "\<dots> \<longleftrightarrow> (\<forall>ie \<in> set (enumerate 0 (md_expected_files ?m)). normal_relative (snd ie)
        \<and> (lp_exists probe (snd ie) \<or> lp_parent_is_dir probe (snd ie))
        \<and> \<not> directory_claim probe (snd ie))"
      by (simp add: plausible_check_def directory_check_def Let_def)
    also have "\<dots> \<longleftrightarrow> (\<forall>e \<in> set (md_expected_files ?m). normal_relative e
        \<and> (lp_exists probe e \<or> lp_parent_is_dir probe e) \<and> \<not> directory_claim probe e)"
      by (rule enumerate_ball)
    finally show ?thesis .
  qed
  moreover have "qc_passed (graph_check (validate_graph discovered)) \<longleftrightarrow> validate_graph discovered = Inr ()"
    by (auto simp: graph_check_def is_ok_iff)
  moreover have "list_all qc_passed vocabulary_checks" by (simp add: vocabulary_checks_def)
  ultimately show ?thesis
    by (simp add: report_passed_def admission_quality_def Let_def)
qed

section \<open>Properties\<close>

text \<open>
  a run is admitted exactly when the PRD is active, its front matter does not hold it, its entry is
  pending, and every dependency has a completed entry.
\<close>

lemma admit_run_prd_exact:
  "admit_run_prd entries t = Inr () \<longleftrightarrow>
     prd_location t = Active \<and> front_matter_hold t = None
     \<and> (\<exists>e. find (\<lambda>e. prd_path (entry_prd e) = prd_path t) entries = Some e \<and> entry_status e = Pending)
     \<and> (\<forall>d \<in> set (prd_dependencies t). status_map entries (prd_key d) = Some Completed)"
  by (rule admit_run_prd_iff)

lemma admit_run_prd_exact_witness:
  "admit_run_prd [sample_entry 1 [] Completed, sample_entry 2 [1] Pending] (sample_prd 2 [1]) = Inr ()
   \<and> admit_run_prd [sample_entry 1 [] Pending, sample_entry 2 [1] Pending] (sample_prd 2 [1]) \<noteq> Inr ()"
proof
  have "\<not> (\<forall>d \<in> set (prd_dependencies (sample_prd 2 [1])).
      status_map [sample_entry 1 [] Pending, sample_entry 2 [1] Pending] (prd_key d) = Some Completed)"
    by code_simp
  then show "admit_run_prd [sample_entry 1 [] Pending, sample_entry 2 [1] Pending] (sample_prd 2 [1]) \<noteq> Inr ()"
    using admit_run_prd_exact by blast
  show "admit_run_prd [sample_entry 1 [] Completed, sample_entry 2 [1] Pending] (sample_prd 2 [1]) = Inr ()"
    by code_simp
qed

text \<open>
  selection returns an eligible entry with the least identity, and reports that there is none
  exactly when no entry is eligible.
\<close>

lemma choose_next_exact:
  "(choose_next es = Inr n \<longrightarrow>
     (\<exists>e \<in> set es. n = to_next e \<and> eligible (status_map es) e
        \<and> (\<forall>e' \<in> set es. eligible (status_map es) e' \<longrightarrow> entry_key e \<le> entry_key e')))
   \<and> ((\<exists>m. choose_next es = Inl (NoEligiblePrd m)) \<longleftrightarrow> (\<forall>e \<in> set es. \<not> eligible (status_map es) e))
   \<and> (\<forall>m. choose_next es = Inl m \<longrightarrow> (\<exists>r. m = NoEligiblePrd r))"
proof (intro conjI impI allI)
  show "choose_next es = Inr n \<Longrightarrow> \<exists>e \<in> set es. n = to_next e \<and> eligible (status_map es) e
        \<and> (\<forall>e' \<in> set es. eligible (status_map es) e' \<longrightarrow> entry_key e \<le> entry_key e')"
    by (erule choose_next_Inr) blast
  show none: "(\<exists>m. choose_next es = Inl (NoEligiblePrd m)) \<longleftrightarrow> (\<forall>e \<in> set es. \<not> eligible (status_map es) e)"
    by (simp add: choose_next_def select_next_not_found)
  show "\<exists>r. m = NoEligiblePrd r" if "choose_next es = Inl m" for m
  proof (cases "find (eligible (status_map es)) (sort_key entry_key es)")
    case None
    then have "\<forall>e \<in> set es. \<not> eligible (status_map es) e" by (simp add: find_None_iff_ex)
    with none that show ?thesis by auto
  next
    case (Some e)
    then have "choose_next es = Inr (to_next e)" by (simp add: choose_next_def select_next_find)
    with that show ?thesis by simp
  qed
qed

lemma choose_next_exact_witness:
  "(\<exists>e \<in> set [sample_entry 3 [] Pending, sample_entry 1 [] Completed, sample_entry 2 [1] Pending].
      to_next (sample_entry 2 [1] Pending) = to_next e)
   \<and> choose_next [sample_entry 3 [] Pending, sample_entry 1 [] Completed, sample_entry 2 [1] Pending]
       = Inr (to_next (sample_entry 2 [1] Pending))"
proof
  show *: "choose_next [sample_entry 3 [] Pending, sample_entry 1 [] Completed, sample_entry 2 [1] Pending]
       = Inr (to_next (sample_entry 2 [1] Pending))" by code_simp
  show "\<exists>e \<in> set [sample_entry 3 [] Pending, sample_entry 1 [] Completed, sample_entry 2 [1] Pending].
      to_next (sample_entry 2 [1] Pending) = to_next e"
    using choose_next_exact [of "[sample_entry 3 [] Pending, sample_entry 1 [] Completed,
        sample_entry 2 [1] Pending]" "to_next (sample_entry 2 [1] Pending)"] * by blast
qed

text \<open>
  a resolved run path is an active discovered PRD, read through a regular file inside the
  worktree, whose current bytes have the content hash recorded at discovery.
\<close>

lemma resolve_run_prd_exact_bytes:
  assumes "resolve_run_prd sha256 env worktree discovered supplied = Inr p"
  shows "p \<in> set discovered \<and> prd_location p = Active
    \<and> (\<exists>candidate canonical bytes. re_inspect env candidate = Inr Regular_File
        \<and> re_canonicalize env candidate = Inr canonical \<and> path_strip_prefix canonical worktree \<noteq> None
        \<and> re_read env canonical = Inr bytes \<and> hex_text (sha256 bytes) = prd_content_hash p)"
proof -
  obtain candidate where rest: "(case re_inspect env candidate of
       Inl e \<Rightarrow> Inl (RunPath (supplied @ '': '' @ io_message e))
     | Inr Symlink \<Rightarrow> Inl (RunPath (supplied @ '' is symlinked''))
     | Inr Other_Kind \<Rightarrow> Inl (RunPath (supplied @ '' is not a regular file''))
     | Inr Regular_File \<Rightarrow> (case re_canonicalize env candidate of
       Inl e \<Rightarrow> Inl (RunPath (supplied @ '': '' @ io_message e))
     | Inr canonical \<Rightarrow> resolve_canonical sha256 env worktree discovered supplied canonical)) = Inr p"
    using assms unfolding resolve_run_prd_def by (auto simp: rbind_Inr_iff)
  then obtain canonical where "re_inspect env candidate = Inr Regular_File"
    and "re_canonicalize env candidate = Inr canonical"
    and "resolve_canonical sha256 env worktree discovered supplied canonical = Inr p"
    by (auto split: sum.split_asm file_kind.split_asm)
  with resolve_canonical_Inr show ?thesis by blast
qed

lemma resolve_run_prd_exact_bytes_witness:
  "resolve_run_prd (\<lambda>_. [])
     \<lparr>re_current_dir = Inr ''/repo'', re_inspect = (\<lambda>_. Inr Regular_File),
      re_canonicalize = Inr, re_read = (\<lambda>_. Inr ''x'')\<rparr> ''/repo'' sample_discovered ''docs/prds/PRD-2.md''
     = Inr (sample_discovered ! 1)
   \<and> sample_discovered ! 1 \<in> set sample_discovered"
proof
  show *: "resolve_run_prd (\<lambda>_. [])
     \<lparr>re_current_dir = Inr ''/repo'', re_inspect = (\<lambda>_. Inr Regular_File),
      re_canonicalize = Inr, re_read = (\<lambda>_. Inr ''x'')\<rparr> ''/repo'' sample_discovered ''docs/prds/PRD-2.md''
     = Inr (sample_discovered ! 1)" by code_simp
  show "sample_discovered ! 1 \<in> set sample_discovered"
    using resolve_run_prd_exact_bytes [OF *] by blast
qed

text \<open>
  the quality report passes exactly when the graph is valid, no criterion is an imperative
  activity, each path-like token of a criterion is covered by the expected files, and each expected
  file is a plausible relative path that claims no directory; it gives a refusal otherwise.
\<close>

lemma admission_quality_exact:
  "(report_passed (admission_quality probe discovered p) \<longleftrightarrow>
     references_ok discovered \<and> acyclic (dep_rel (by_id discovered))
     \<and> (\<forall>c \<in> set (md_acceptance_criteria (prd_meta p)). \<not> imperative_activity c
          \<and> (\<forall>t \<in> set (quoted_tokens c). path_like t
                 \<longrightarrow> surface_covered (md_expected_files (prd_meta p)) t))
     \<and> (\<forall>e \<in> set (md_expected_files (prd_meta p)). normal_relative e
          \<and> (lp_exists probe e \<or> lp_parent_is_dir probe e) \<and> \<not> directory_claim probe e))
   \<and> (report_refusal r = None \<longleftrightarrow> report_passed r)"
proof
  show "report_refusal r = None \<longleftrightarrow> report_passed r"
    by (auto simp: report_refusal_def report_passed_def Let_def filter_empty_conv list_all_iff)
qed (use validate_graph_cases [of discovered] dep_cycle_not_acyclic in \<open>auto simp: report_passed_iff\<close>)

definition sample_probe :: layout_probe where
  "sample_probe = \<lparr>lp_exists = (\<lambda>_. True), lp_is_dir = (\<lambda>_. False), lp_parent_is_dir = (\<lambda>_. True)\<rparr>"

definition sample_structured :: discovered_prd where
  "sample_structured = (sample_prd 2 [1])\<lparr>prd_meta := sample_metadata\<lparr>
     md_acceptance_criteria := [''The parser in '' @ [backtick] @ ''src/lib.rs'' @ [backtick] @ '' rejects it'']\<rparr>\<rparr>"

lemma admission_quality_exact_witness:
  "report_passed (admission_quality sample_probe [sample_prd 1 [], sample_structured] sample_structured)
   \<and> acyclic (dep_rel (by_id [sample_prd 1 [], sample_structured]))"
proof
  have "validate_graph [sample_prd 1 [], sample_structured] = Inr ()" by code_simp
  moreover have "list_all (\<lambda>c. \<not> imperative_activity c
        \<and> list_all (\<lambda>t. \<not> path_like t \<or> surface_covered (md_expected_files (prd_meta sample_structured)) t)
            (quoted_tokens c)) (md_acceptance_criteria (prd_meta sample_structured))"
    by code_simp
  moreover have "list_all (\<lambda>e. normal_relative e \<and> lp_exists sample_probe e
      \<and> \<not> directory_claim sample_probe e) (md_expected_files (prd_meta sample_structured))"
    by code_simp
  ultimately show *: "report_passed (admission_quality sample_probe [sample_prd 1 [], sample_structured] sample_structured)"
    unfolding report_passed_iff list_all_iff by blast
  then show "acyclic (dep_rel (by_id [sample_prd 1 [], sample_structured]))"
    using admission_quality_exact by blast
qed

text \<open>
  a criterion that is an imperative activity fails its check even when it names an observable
  outcome, and the detail of that failing check then states the opposite of a failure.
\<close>

lemma observable_detail_contradicts:
  "imperative_activity criterion \<and> list_ex (contains_sub (map ascii_lower criterion)) observable_words
   \<longrightarrow> \<not> qc_passed (observable_check i criterion)
     \<and> qc_detail (observable_check i criterion) = ''criterion names an observable outcome''"
  by (simp add: observable_check_def Let_def)

lemma observable_detail_contradicts_witness:
  "qc_detail (observable_check 0 ''Add tests that fail'') = ''criterion names an observable outcome''
   \<and> \<not> qc_passed (observable_check 0 ''Add tests that fail'')"
proof -
  have "imperative_activity ''Add tests that fail''
    \<and> list_ex (contains_sub (map ascii_lower ''Add tests that fail'')) observable_words" by code_simp
  then show ?thesis using observable_detail_contradicts [of "''Add tests that fail''" 0] by blast
qed

end
