(* ===== verification/Backlog_Store.thy ===== *)
theory Backlog_Store
  imports Backlog
begin

text \<open>
  The durable backlog, \<open>crates/familiar-ai-storage/src/repos/backlog.rs\<close>: the tables
  \<open>backlog_prds\<close>, \<open>backlog_status_events\<close> and \<open>backlog_recovery_events\<close> (migrations 007 and 012)
  with the part of \<open>execution_checkpoints\<close> that completion writes, and the operations
  \<open>reconcile_and_snapshot\<close>, \<open>transition\<close>, \<open>claim_run\<close>, \<open>recover\<close>, \<open>record_complete\<close> and
  \<open>approve_and_complete\<close>.

  Every operation runs in one SQLite transaction: it returns an error and leaves the tables alone,
  or a result and the tables it commits. Failures of SQLite itself roll back and are not modelled.
  A status column is one of the four statuses by its CHECK constraint, so it is the enum here. The
  clock (\<open>now\<close>) is an argument, and a PRD number is below \<open>2 ^ 63\<close>, the range of a SQLite integer.
\<close>

section \<open>Tables\<close>

record backlog_row =
  row_number :: u64
  row_suffix :: "char option"
  row_hash :: string
  row_status :: backlog_status
  row_discovered_at :: string
  row_last_seen_at :: string
  row_missing_since :: "string option"
  row_created_at :: string
  row_updated_at :: string

type_synonym row_key = "string \<times> string"

record status_event =
  ev_key :: row_key
  ev_old :: backlog_status
  ev_new :: backlog_status
  ev_actor :: string
  ev_changed_at :: string
  ev_recovery :: "(backlog_recovery_action \<times> string) option"

record checkpoint_row =
  cp_id :: string
  cp_phase :: string
  cp_diff_hash :: string
  cp_invalid_reason :: "string option"
  cp_approved_hash :: "string option"
  cp_approved_commit :: "string option"
  cp_updated_at :: string

record checkpoint_event =
  ce_id :: string
  ce_checkpoint :: string
  ce_sequence :: nat
  ce_type :: string
  ce_prior :: "string option"
  ce_resulting :: string
  ce_detail :: string
  ce_recorded_at :: string

record backlog_db =
  db_rows :: "row_key \<Rightarrow> backlog_row option"
  db_events :: "status_event list"
  db_checkpoints :: "row_key \<Rightarrow> checkpoint_row option"
  db_checkpoint_events :: "checkpoint_event list"

definition empty_db :: backlog_db where
  "empty_db =
     \<lparr>db_rows = (\<lambda>_. None), db_events = [], db_checkpoints = (\<lambda>_. None), db_checkpoint_events = []\<rparr>"

definition insert_event ::
    "row_key \<Rightarrow> backlog_status \<Rightarrow> backlog_status \<Rightarrow> string \<Rightarrow> string
     \<Rightarrow> (backlog_recovery_action \<times> string) option \<Rightarrow> backlog_db \<Rightarrow> backlog_db" where
  "insert_event key old new actor now recovery db =
     db\<lparr>db_events := db_events db @
       [\<lparr>ev_key = key, ev_old = old, ev_new = new, ev_actor = actor, ev_changed_at = now,
         ev_recovery = recovery\<rparr>]\<rparr>"

text \<open>\<open>ORDER BY event_id DESC LIMIT 1\<close>: event ids grow with the insertions.\<close>

definition latest_event :: "backlog_db \<Rightarrow> row_key \<Rightarrow> status_event option" where
  "latest_event db key =
     (let es = filter (\<lambda>e. ev_key e = key) (db_events db) in if es = [] then None else Some (last es))"

text \<open>
  A guarded \<open>UPDATE\<close> of the status of one row; \<open>None\<close> is a count of changed rows other than one.
\<close>

definition update_status ::
    "row_key \<Rightarrow> (backlog_row \<Rightarrow> bool) \<Rightarrow> backlog_status \<Rightarrow> string \<Rightarrow> backlog_db \<Rightarrow> backlog_db option" where
  "update_status key guard new now db =
     (case db_rows db key of
        None \<Rightarrow> None
      | Some r \<Rightarrow>
        if guard r
        then Some (db\<lparr>db_rows := (db_rows db)(key \<mapsto> r\<lparr>row_status := new, row_updated_at := now\<rparr>)\<rparr>)
        else None)"

section \<open>Reconciliation\<close>

definition mark_missing :: "string \<Rightarrow> backlog_row \<Rightarrow> backlog_row" where
  "mark_missing now r =
     (case row_missing_since r of
        None \<Rightarrow> r\<lparr>row_missing_since := Some now, row_updated_at := now\<rparr>
      | Some _ \<Rightarrow> r)"

definition mark_all_missing :: "string \<Rightarrow> string \<Rightarrow> backlog_db \<Rightarrow> backlog_db" where
  "mark_all_missing repo now db =
     db\<lparr>db_rows := (\<lambda>k. if fst k = repo then map_option (mark_missing now) (db_rows db k)
                         else db_rows db k)\<rparr>"

text \<open>\<open>INSERT .. ON CONFLICT DO UPDATE\<close>: an existing row keeps its status.\<close>

definition upsert_row :: "string \<Rightarrow> discovered_prd \<Rightarrow> backlog_row option \<Rightarrow> backlog_row" where
  "upsert_row now p old =
     (case old of
        None \<Rightarrow>
          \<lparr>row_number = prd_number p, row_suffix = id_suffix (prd_ident p), row_hash = prd_content_hash p,
           row_status = (if prd_location p = Archived then Completed else Pending),
           row_discovered_at = now, row_last_seen_at = now, row_missing_since = None,
           row_created_at = now, row_updated_at = now\<rparr>
      | Some r \<Rightarrow>
          r\<lparr>row_number := prd_number p, row_suffix := id_suffix (prd_ident p),
            row_hash := prd_content_hash p, row_last_seen_at := now, row_missing_since := None\<rparr>)"

definition archived_actor :: string where
  "archived_actor = ''system:archived-prd-location''"

definition reconcile_prd :: "string \<Rightarrow> string \<Rightarrow> discovered_prd \<Rightarrow> backlog_db \<Rightarrow> backlog_db" where
  "reconcile_prd repo now p db =
     (let key = (repo, prd_path p);
          row = upsert_row now p (db_rows db key);
          db' = db\<lparr>db_rows := (db_rows db)(key \<mapsto> row)\<rparr>
      in if prd_location p = Archived \<and> row_status row \<noteq> Completed
         then insert_event key (row_status row) Completed archived_actor now None
                (db'\<lparr>db_rows := (db_rows db')(key \<mapsto> row\<lparr>row_status := Completed, row_updated_at := now\<rparr>)\<rparr>)
         else db')"

definition reconcile :: "string \<Rightarrow> discovered_prd list \<Rightarrow> string \<Rightarrow> backlog_db \<Rightarrow> backlog_db" where
  "reconcile repo discovered now db =
     fold (reconcile_prd repo now) discovered (mark_all_missing repo now db)"

definition read_entry :: "backlog_db \<Rightarrow> string \<Rightarrow> discovered_prd \<Rightarrow> backlog_store_error + backlog_entry" where
  "read_entry db repo p =
     (case db_rows db (repo, prd_path p) of
        Some r \<Rightarrow>
          if row_missing_since r = None then Inr \<lparr>entry_prd = p, entry_status = row_status r\<rparr>
          else Inl (Storage ''Query returned no rows'')
      | None \<Rightarrow> Inl (Storage ''Query returned no rows''))"

definition reconcile_and_snapshot ::
    "string \<Rightarrow> backlog_db \<Rightarrow> string \<Rightarrow> discovered_prd list
     \<Rightarrow> backlog_store_error + backlog_entry list \<times> backlog_db" where
  "reconcile_and_snapshot now db repo discovered =
     (let db' = reconcile repo discovered now db in
      rbind (traverse (read_entry db' repo) discovered) (\<lambda>entries. Inr (entries, db')))"

section \<open>Transitions\<close>

definition transition ::
    "string \<Rightarrow> backlog_db \<Rightarrow> string \<Rightarrow> string \<Rightarrow> backlog_status \<Rightarrow> backlog_status \<Rightarrow> string
     \<Rightarrow> backlog_store_error + backlog_entry \<times> backlog_db" where
  "transition now db repo path expected new_status actor =
     (if trim actor = [] then Inl EmptyActor
      else case db_rows db (repo, path) of
        None \<Rightarrow> Inl (NotFound path)
      | Some r \<Rightarrow>
        if row_status r \<noteq> expected
        then Inl (Conflict path (show_status expected) (show_status (row_status r)))
        else
          let entry = \<lparr>entry_prd =
                 \<lparr>prd_ident = prd_with_suffix (row_number r) (row_suffix r), prd_number = row_number r,
                  prd_path = path, prd_location = Active, prd_title = [], prd_dependencies = [],
                  prd_meta = default_metadata, prd_content_hash = row_hash r\<rparr>,
               entry_status = new_status\<rparr>
          in if row_status r = new_status then Inr (entry, db)
             else (case update_status (repo, path) (\<lambda>r. row_status r = expected) new_status now db of
                None \<Rightarrow> Inl (Conflict path (show_status expected) (show_status (row_status r)))
              | Some db' \<Rightarrow>
                  Inr (entry, insert_event (repo, path) (row_status r) new_status actor now None db')))"

text \<open>\<open>system:familiar-ai-run:\<close> and three digit groups of 20, 10 and 6 digits.\<close>

definition run_actor_ok :: "string \<Rightarrow> bool" where
  "run_actor_ok actor =
     (case strip_prefix actor ''system:familiar-ai-run:'' of
        None \<Rightarrow> False
      | Some i \<Rightarrow>
        let parts = split_char (CHR ''-'') i in
        map length parts = [20, 10, 6] \<and> list_all (list_all is_digit) parts)"

definition validate_run_actor :: "string \<Rightarrow> backlog_store_error + unit" where
  "validate_run_actor actor = ensure (run_actor_ok actor) (Storage ''invalid run actor'')"

definition claimable :: "discovered_prd \<Rightarrow> backlog_row \<Rightarrow> bool" where
  "claimable target r \<longleftrightarrow>
     row_status r = Pending \<and> row_hash r = prd_content_hash target \<and> row_missing_since r = None"

definition claim_run ::
    "string \<Rightarrow> backlog_db \<Rightarrow> string \<Rightarrow> discovered_prd list \<Rightarrow> discovered_prd \<Rightarrow> string
     \<Rightarrow> backlog_store_error + backlog_entry \<times> backlog_db" where
  "claim_run now db repo discovered target actor =
     rbind (validate_run_actor actor) (\<lambda>_.
     let key = (repo, prd_path target) in
     if (case db_rows db key of None \<Rightarrow> True | Some r \<Rightarrow> \<not> claimable target r)
     then Inl (Storage ''claim discovery or expected-status conflict'')
     else let db' = reconcile repo discovered now db in
       rbind (traverse (read_entry db' repo) discovered) (\<lambda>entries.
       rbind (map_err (Storage \<circ> show_backlog_error) (admit_run_prd entries target)) (\<lambda>_.
       case update_status key (claimable target) InProgress now db' of
         None \<Rightarrow> Inl (Conflict (prd_path target) ''pending'' ''conflict'')
       | Some db'' \<Rightarrow>
           Inr (\<lparr>entry_prd = target, entry_status = InProgress\<rparr>,
                insert_event key Pending InProgress actor now None db''))))"

section \<open>Recovery\<close>

text \<open>The row is the record of exactly this discovered PRD, present and in the given status.\<close>

definition row_matches :: "discovered_prd \<Rightarrow> backlog_status \<Rightarrow> backlog_row \<Rightarrow> bool" where
  "row_matches target s r \<longleftrightarrow>
     row_status r = s \<and> row_number r = prd_number target \<and> row_suffix r = id_suffix (prd_ident target)
     \<and> row_hash r = prd_content_hash target \<and> row_missing_since r = None"

definition claimed_by_run :: "status_event option \<Rightarrow> bool" where
  "claimed_by_run e =
     (case e of None \<Rightarrow> False
      | Some e \<Rightarrow> ev_old e = Pending \<and> ev_new e = InProgress \<and> run_actor_ok (ev_actor e))"

definition recover ::
    "string \<Rightarrow> backlog_db \<Rightarrow> string \<Rightarrow> discovered_prd \<Rightarrow> backlog_recovery_action \<Rightarrow> string \<Rightarrow> string
     \<Rightarrow> backlog_store_error + backlog_entry \<times> backlog_db" where
  "recover now db repo target action actor0 reason0 =
     rbind (validate_recovery_attribution action actor0 reason0) (\<lambda>(actor, reason).
     let key = (repo, prd_path target) in
     case db_rows db key of
       None \<Rightarrow> Inl (NotFound (prd_path target))
     | Some r \<Rightarrow>
       if \<not> row_matches target InProgress r
       then Inl (Conflict (prd_path target) ''in_progress'' (show_status (row_status r)))
       else if \<not> claimed_by_run (latest_event db key)
       then Inl (RecoveryAuditCorrupt (prd_path target))
       else (case update_status key (row_matches target InProgress) (target_status action) now db of
           None \<Rightarrow> Inl (Conflict (prd_path target) ''in_progress'' ''conflict'')
         | Some db' \<Rightarrow>
             Inr (\<lparr>entry_prd = target, entry_status = target_status action\<rparr>,
                  insert_event key InProgress (target_status action) actor now (Some (action, reason)) db')))"

definition record_complete ::
    "string \<Rightarrow> backlog_db \<Rightarrow> string \<Rightarrow> discovered_prd list \<Rightarrow> discovered_prd \<Rightarrow> string \<Rightarrow> string
     \<Rightarrow> backlog_store_error + backlog_entry \<times> backlog_db" where
  "record_complete now db repo discovered target actor0 reason0 =
     rbind (validate_recovery_attribution RecordedComplete actor0 reason0) (\<lambda>(actor, reason).
     let key = (repo, prd_path target) in
     case db_rows db key of
       None \<Rightarrow> Inl (NotFound (prd_path target))
     | Some r \<Rightarrow>
       if \<not> row_matches target Pending r
       then Inl (Conflict (prd_path target) ''pending'' (show_status (row_status r)))
       else let db' = reconcile repo discovered now db in
         rbind (traverse (read_entry db' repo) discovered) (\<lambda>entries.
         let incomplete = incomplete_dependencies (status_map entries) target in
         if incomplete \<noteq> [] then Inl (IncompleteDependencies (prd_path target) (show_ids incomplete))
         else (case update_status key (row_matches target Pending) Completed now db' of
             None \<Rightarrow> Inl (Conflict (prd_path target) ''pending'' ''conflict'')
           | Some db'' \<Rightarrow>
               Inr (\<lparr>entry_prd = target, entry_status = Completed\<rparr>,
                    insert_event key Pending Completed actor now (Some (RecordedComplete, reason)) db''))))"

section \<open>Completion of a checkpoint\<close>

definition next_checkpoint_event_id :: "backlog_db \<Rightarrow> string \<Rightarrow> string \<times> nat" where
  "next_checkpoint_event_id db checkpoint_id =
     (let sequences = map ce_sequence (filter (\<lambda>e. ce_checkpoint e = checkpoint_id) (db_checkpoint_events db));
          sequence = (if sequences = [] then 0 else Suc (fold max sequences 0))
      in (checkpoint_id @ '':'' @ show_nat sequence, sequence))"

definition complete_checkpoint ::
    "row_key \<Rightarrow> checkpoint_row \<Rightarrow> string \<Rightarrow> string \<Rightarrow> string \<Rightarrow> string \<Rightarrow> backlog_db \<Rightarrow> backlog_db" where
  "complete_checkpoint key cp approved_hash commit actor now db =
     (let (event_id, sequence) = next_checkpoint_event_id db (cp_id cp) in
      db\<lparr>db_checkpoints := (db_checkpoints db)(key \<mapsto>
           cp\<lparr>cp_phase := ''completed'', cp_invalid_reason := None,
              cp_approved_hash := Some approved_hash, cp_approved_commit := Some commit,
              cp_updated_at := now\<rparr>),
         db_checkpoint_events := db_checkpoint_events db @
           [\<lparr>ce_id = event_id, ce_checkpoint = cp_id cp, ce_sequence = sequence,
             ce_type = ''phase_transition'', ce_prior = Some (cp_phase cp), ce_resulting = ''completed'',
             ce_detail = ''approve_and_complete actor='' @ actor @ '' approved_hash='' @ approved_hash
               @ '' commit='' @ commit,
             ce_recorded_at = now\<rparr>]\<rparr>)"

definition approvable :: "discovered_prd \<Rightarrow> backlog_row \<Rightarrow> bool" where
  "approvable target r \<longleftrightarrow>
     (row_status r = Pending \<or> row_status r = InProgress) \<and> row_hash r = prd_content_hash target
     \<and> row_missing_since r = None"

definition approve_and_complete ::
    "string \<Rightarrow> backlog_db \<Rightarrow> string \<Rightarrow> discovered_prd \<Rightarrow> string \<Rightarrow> string \<Rightarrow> string \<Rightarrow> string
     \<Rightarrow> backlog_store_error + backlog_entry \<times> backlog_db" where
  "approve_and_complete now db repo target actor0 reason0 approved_hash commit0 =
     rbind (validate_recovery_attribution ApproveAndComplete actor0 reason0) (\<lambda>(actor, reason).
     let commit = trim commit0; key = (repo, prd_path target);
         cp_key = (repo, show_prd_id (prd_ident target)) in
     if commit = [] then Inl (Storage ''approve-and-complete requires the resulting commit'')
     else case db_rows db key of
       None \<Rightarrow> Inl (NotFound (prd_path target))
     | Some r \<Rightarrow>
       if \<not> approvable target r
       then Inl (Conflict (prd_path target) ''pending or in_progress'' (show_status (row_status r)))
       else (case db_checkpoints db cp_key of
           None \<Rightarrow> Inl (Storage (''no durable checkpoint exists for '' @ show_prd_id (prd_ident target)
             @ ''; approve-and-complete acts only on reviewed checkpoints''))
         | Some cp \<Rightarrow>
           if cp_phase cp = ''completed''
           then Inl (Storage (''checkpoint '' @ cp_id cp @ '' is already completed''))
           else if cp_diff_hash cp \<noteq> approved_hash
           then Inl (Storage (''approved candidate hash does not match checkpoint '' @ cp_id cp
             @ '': expected '' @ cp_diff_hash cp @ '', got '' @ approved_hash))
           else (case update_status key
                   (\<lambda>r'. row_status r' = row_status r \<and> row_hash r' = prd_content_hash target
                         \<and> row_missing_since r' = None) Completed now db of
               None \<Rightarrow> Inl (Conflict (prd_path target) ''pending or in_progress'' ''conflict'')
             | Some db' \<Rightarrow>
                 Inr (\<lparr>entry_prd = target, entry_status = Completed\<rparr>,
                      complete_checkpoint cp_key cp approved_hash commit actor now
                        (insert_event key (row_status r) Completed actor now
                          (Some (ApproveAndComplete, reason)) db')))))"

text \<open>
  \<open>archived_twin_completed\<close>: a present completed row with the same number. The set of paths is
  finite in the table; here the candidate paths are listed.
\<close>

definition archived_twin_completed :: "string list \<Rightarrow> backlog_db \<Rightarrow> string \<Rightarrow> u64 \<Rightarrow> bool" where
  "archived_twin_completed paths db repo number \<longleftrightarrow>
     list_ex (\<lambda>path. case db_rows db (repo, path) of
        None \<Rightarrow> False
      | Some r \<Rightarrow> row_number r = number \<and> row_status r = Completed \<and> row_missing_since r = None) paths"

section \<open>Facts about reconciliation\<close>

definition present_status :: "backlog_db \<Rightarrow> string \<Rightarrow> string \<Rightarrow> backlog_status option" where
  "present_status db repo path = map_option row_status (db_rows db (repo, path))"

lemma mark_missing_fields [simp]:
  "row_status (mark_missing now r) = row_status r" "row_missing_since (mark_missing now r) \<noteq> None"
  by (auto simp: mark_missing_def split: option.splits)

lemma reconcile_prd_other: "k \<noteq> (repo, prd_path p) \<Longrightarrow> db_rows (reconcile_prd repo now p db) k = db_rows db k"
  by (simp add: reconcile_prd_def Let_def insert_event_def)

text \<open>The row a reconciled PRD ends with, from the row it had.\<close>

definition reconciled_row :: "string \<Rightarrow> discovered_prd \<Rightarrow> backlog_row option \<Rightarrow> backlog_row" where
  "reconciled_row now p old =
     (let row = upsert_row now p old in
      if prd_location p = Archived \<and> row_status row \<noteq> Completed
      then row\<lparr>row_status := Completed, row_updated_at := now\<rparr> else row)"

lemma reconcile_prd_same:
  "db_rows (reconcile_prd repo now p db) (repo, prd_path p) =
     Some (reconciled_row now p (db_rows db (repo, prd_path p)))"
  by (simp add: reconcile_prd_def reconciled_row_def Let_def insert_event_def)

lemma reconciled_row_fields [simp]:
  "row_hash (reconciled_row now p old) = prd_content_hash p"
  "row_number (reconciled_row now p old) = prd_number p"
  "row_suffix (reconciled_row now p old) = id_suffix (prd_ident p)"
  "row_missing_since (reconciled_row now p old) = None"
  by (auto simp: reconciled_row_def upsert_row_def Let_def split: option.splits)

lemma reconciled_row_status:
  "row_status (reconciled_row now p old) =
     (if prd_location p = Archived then Completed
      else case old of None \<Rightarrow> Pending | Some r \<Rightarrow> row_status r)"
  by (cases "prd_location p") (auto simp: reconciled_row_def upsert_row_def Let_def split: option.splits)

lemma fold_reconcile_other:
  "k \<notin> (\<lambda>p. (repo, prd_path p)) ` set ps \<Longrightarrow>
     db_rows (fold (reconcile_prd repo now) ps db) k = db_rows db k"
  by (induction ps arbitrary: db) (auto simp: reconcile_prd_other)

lemma fold_reconcile_status:
  assumes "\<forall>p \<in> set ps. prd_path p = path \<longrightarrow> prd_location p = Active"
    and "present_status db repo path = Some st"
  shows "present_status (fold (reconcile_prd repo now) ps db) repo path = Some st"
  using assms
proof (induction ps arbitrary: db)
  case (Cons p ps)
  have "present_status (reconcile_prd repo now p db) repo path = Some st"
  proof (cases "prd_path p = path")
    case True
    with Cons.prems show ?thesis
      using reconcile_prd_same [of repo now p db]
      by (auto simp: present_status_def reconciled_row_status)
  next
    case False
    with Cons.prems(2) show ?thesis by (simp add: present_status_def reconcile_prd_other)
  qed
  with Cons show ?case by simp
qed simp

lemma reconcile_row:
  assumes "distinct (map prd_path ps)" and "p \<in> set ps"
  shows "db_rows (reconcile repo ps now db) (repo, prd_path p) =
    Some (reconciled_row now p (map_option (mark_missing now) (db_rows db (repo, prd_path p))))"
proof -
  obtain xs ys where ps: "ps = xs @ p # ys" using assms(2) split_list by metis
  with assms(1) have "(repo, prd_path p) \<notin> (\<lambda>p. (repo, prd_path p)) ` set xs"
    and "(repo, prd_path p) \<notin> (\<lambda>p. (repo, prd_path p)) ` set ys" by auto
  then show ?thesis
    by (simp add: reconcile_def ps fold_reconcile_other reconcile_prd_same)
      (simp add: mark_all_missing_def)
qed

lemma reconcile_absent:
  assumes "fst k = repo \<longrightarrow> snd k \<notin> prd_path ` set ps"
  shows "db_rows (reconcile repo ps now db) k =
    (if fst k = repo then map_option (mark_missing now) (db_rows db k) else db_rows db k)"
proof -
  have "k \<notin> (\<lambda>p. (repo, prd_path p)) ` set ps" using assms by auto
  then show ?thesis by (simp add: reconcile_def fold_reconcile_other mark_all_missing_def)
qed

lemma read_entry_Inr:
  "read_entry db repo p = Inr e \<longleftrightarrow>
     (\<exists>r. db_rows db (repo, prd_path p) = Some r \<and> row_missing_since r = None
        \<and> e = \<lparr>entry_prd = p, entry_status = row_status r\<rparr>)"
  by (auto simp: read_entry_def split: option.splits if_splits)

lemma read_entries_Inr:
  assumes "traverse (read_entry db repo) ps = Inr es"
  shows "map entry_prd es = ps"
    and "e \<in> set es \<Longrightarrow> entry_prd e \<in> set ps
          \<and> (\<exists>r. db_rows db (repo, prd_path (entry_prd e)) = Some r \<and> row_missing_since r = None
                 \<and> entry_status e = row_status r)"
proof -
  have all: "list_all2 (\<lambda>p e. read_entry db repo p = Inr e) ps es"
    using assms by (simp add: traverse_Inr_iff)
  then show "map entry_prd es = ps"
    by (induction rule: list_all2_induct) (auto simp: read_entry_Inr)
  show "e \<in> set es \<Longrightarrow> entry_prd e \<in> set ps
          \<and> (\<exists>r. db_rows db (repo, prd_path (entry_prd e)) = Some r \<and> row_missing_since r = None
                 \<and> entry_status e = row_status r)"
    using all by (induction rule: list_all2_induct) (auto simp: read_entry_Inr)
qed

lemma snapshot_Inr:
  "reconcile_and_snapshot now db repo ps = Inr (es, db') \<longleftrightarrow>
     db' = reconcile repo ps now db \<and> traverse (read_entry db' repo) ps = Inr es"
  by (auto simp: reconcile_and_snapshot_def Let_def rbind_Inr_iff)

text \<open>With distinct paths a snapshot always succeeds.\<close>

lemma read_entries_total:
  assumes "\<forall>p \<in> set ps. \<exists>r. db_rows db (repo, prd_path p) = Some r \<and> row_missing_since r = None"
  shows "\<exists>es. traverse (read_entry db repo) ps = Inr es"
  using assms
proof (induction ps)
  case (Cons p ps)
  then obtain es where "traverse (read_entry db repo) ps = Inr es" by auto
  moreover from Cons.prems obtain e where "read_entry db repo p = Inr e"
    by (auto simp: read_entry_Inr)
  ultimately show ?case by simp
qed simp

lemma snapshot_total:
  "distinct (map prd_path ps) \<Longrightarrow> \<exists>es. traverse (read_entry (reconcile repo ps now db) repo) ps = Inr es"
  by (rule read_entries_total) (simp add: reconcile_row)

lemma update_status_Some:
  "update_status key guard new now db = Some db' \<longleftrightarrow>
     (\<exists>r. db_rows db key = Some r \<and> guard r
        \<and> db' = db\<lparr>db_rows := (db_rows db)(key \<mapsto> r\<lparr>row_status := new, row_updated_at := now\<rparr>)\<rparr>)"
  by (auto simp: update_status_def split: option.splits)

lemma transition_Inr:
  assumes "transition now db repo path a b actor = Inr (e, db')"
  shows "present_status db repo path = Some a
    \<and> present_status db' repo = (present_status db repo)(path \<mapsto> b) \<and> entry_status e = b"
proof -
  obtain r where r: "db_rows db (repo, path) = Some r" and "row_status r = a"
    using assms by (auto simp: transition_def split: if_splits option.splits)
  with assms show ?thesis
    by (auto simp: transition_def Let_def present_status_def fun_eq_iff update_status_def
        insert_event_def split: if_splits)
qed

interpretation sqlite_store: backlog_status_store
  "reconcile_and_snapshot now" "transition now'" present_status
  for now now'
proof
  fix s r prds es s' e path st
  show "reconcile_and_snapshot now s r prds = Inr (es, s') \<Longrightarrow> map entry_prd es = prds"
    by (auto simp: snapshot_Inr read_entries_Inr)
  show "reconcile_and_snapshot now s r prds = Inr (es, s') \<Longrightarrow> e \<in> set es \<Longrightarrow>
      present_status s' r (prd_path (entry_prd e)) = Some (entry_status e)"
    by (auto simp: snapshot_Inr present_status_def dest: read_entries_Inr(2))
  show "entry_status e = Completed"
    if "reconcile_and_snapshot now s r prds = Inr (es, s')" "e \<in> set es"
      "distinct (map prd_path prds)" "prd_location (entry_prd e) = Archived"
    using that reconcile_row [of prds "entry_prd e" r now s]
    by (auto simp: snapshot_Inr reconciled_row_status dest!: read_entries_Inr(2))
  show "present_status s' r path = Some st"
    if "reconcile_and_snapshot now s r prds = Inr (es, s')" "present_status s r path = Some st"
      "\<forall>p \<in> set prds. prd_path p = path \<longrightarrow> prd_location p = Active"
  proof -
    have "present_status (mark_all_missing r now s) r path = Some st"
      using that(2) by (auto simp: present_status_def mark_all_missing_def)
    with fold_reconcile_status [OF that(3)] that(1) show ?thesis
      by (simp add: snapshot_Inr reconcile_def)
  qed
next
  fix s r path a b actor e s'
  show "transition now' s r path a b actor = Inr (e, s') \<Longrightarrow>
      present_status s r path = Some a \<and> present_status s' r = (present_status s r)(path \<mapsto> b)
      \<and> entry_status e = b"
    by (rule transition_Inr)
qed

interpretation sqlite_manager: backlog_manager
  resolve "\<lambda>r. discover_with_layout sha256 (fs_of r) layout"
  "reconcile_and_snapshot now" "transition now'" present_status
  for resolve sha256 fs_of layout now now'
  by unfold_locales

section \<open>Facts about claims\<close>

lemma latest_event_insert [simp]:
  "latest_event (insert_event key old new actor now recovery db) key =
     Some \<lparr>ev_key = key, ev_old = old, ev_new = new, ev_actor = actor, ev_changed_at = now,
           ev_recovery = recovery\<rparr>"
  by (simp add: latest_event_def insert_event_def Let_def)

lemma insert_event_rows [simp]:
  "db_rows (insert_event key old new actor now recovery db) = db_rows db"
  by (simp add: insert_event_def)

lemma claim_run_Inr:
  assumes "claim_run now db repo ps t actor = Inr (e, db')"
  obtains r r' es where "run_actor_ok actor" and "db_rows db (repo, prd_path t) = Some r"
    and "claimable t r" and "traverse (read_entry (reconcile repo ps now db) repo) ps = Inr es"
    and "admit_run_prd es t = Inr ()"
    and "db_rows (reconcile repo ps now db) (repo, prd_path t) = Some r'" and "claimable t r'"
    and "e = \<lparr>entry_prd = t, entry_status = InProgress\<rparr>"
    and "db_rows db' = (db_rows (reconcile repo ps now db))
           ((repo, prd_path t) \<mapsto> r'\<lparr>row_status := InProgress, row_updated_at := now\<rparr>)"
    and "latest_event db' (repo, prd_path t) =
           Some \<lparr>ev_key = (repo, prd_path t), ev_old = Pending, ev_new = InProgress,
                 ev_actor = actor, ev_changed_at = now, ev_recovery = None\<rparr>"
proof -
  let ?db = "reconcile repo ps now db"
  obtain r where r: "run_actor_ok actor" "db_rows db (repo, prd_path t) = Some r" "claimable t r"
    using assms
    by (auto simp: claim_run_def validate_run_actor_def Let_def rbind_Inr_iff ensure_Inr_iff
        split: option.split_asm if_split_asm)
  from assms r obtain es db'' where es: "traverse (read_entry ?db repo) ps = Inr es"
    and admit: "admit_run_prd es t = Inr ()"
    and upd: "update_status (repo, prd_path t) (claimable t) InProgress now ?db = Some db''"
    and e: "e = \<lparr>entry_prd = t, entry_status = InProgress\<rparr>"
    and db': "db' = insert_event (repo, prd_path t) Pending InProgress actor now None db''"
    by (auto simp: claim_run_def Let_def rbind_Inr_iff map_err_Inr_iff split: option.split_asm)
  from upd obtain r' where "db_rows ?db (repo, prd_path t) = Some r'" and "claimable t r'"
    and "db'' = ?db\<lparr>db_rows := (db_rows ?db)((repo, prd_path t) \<mapsto>
      r'\<lparr>row_status := InProgress, row_updated_at := now\<rparr>)\<rparr>"
    by (auto simp: update_status_Some)
  with r es admit e db' show thesis by (intro that) simp_all
qed

lemma claim_run_succeeds:
  assumes "run_actor_ok actor" and "db_rows db (repo, prd_path t) = Some r" and "claimable t r"
    and "traverse (read_entry (reconcile repo ps now db) repo) ps = Inr es"
    and "admit_run_prd es t = Inr ()"
    and "db_rows (reconcile repo ps now db) (repo, prd_path t) = Some r'" and "claimable t r'"
  shows "\<exists>db'. claim_run now db repo ps t actor = Inr (\<lparr>entry_prd = t, entry_status = InProgress\<rparr>, db')"
  using assms
  by (simp add: claim_run_def validate_run_actor_def Let_def ensure_def update_status_def)

lemma claim_run_not_pending:
  assumes "db_rows db (repo, prd_path t) = Some r" and "row_status r \<noteq> Pending"
  shows "\<exists>err. claim_run now db repo ps t actor = Inl err"
  using assms
  by (cases "run_actor_ok actor")
    (simp_all add: claim_run_def validate_run_actor_def Let_def ensure_def claimable_def)

text \<open>A claimed PRD is recovered to the status of the action.\<close>

lemma recover_after_claim:
  assumes claim: "claim_run now db repo ps t actor = Inr (e, db')"
    and ps: "distinct (map prd_path ps)" "t \<in> set ps"
    and attribution: "validate_recovery_attribution action a reason = Inr ar"
  obtains db'' where "recover now' db' repo t action a reason =
      Inr (\<lparr>entry_prd = t, entry_status = target_status action\<rparr>, db'')"
    and "present_status db'' repo (prd_path t) = Some (target_status action)"
proof -
  obtain r' where actor: "run_actor_ok actor"
    and row: "db_rows (reconcile repo ps now db) (repo, prd_path t) = Some r'"
    and rows: "db_rows db' = (db_rows (reconcile repo ps now db))
           ((repo, prd_path t) \<mapsto> r'\<lparr>row_status := InProgress, row_updated_at := now\<rparr>)"
    and event: "latest_event db' (repo, prd_path t) =
           Some \<lparr>ev_key = (repo, prd_path t), ev_old = Pending, ev_new = InProgress,
                 ev_actor = actor, ev_changed_at = now, ev_recovery = None\<rparr>"
    using claim by (rule claim_run_Inr)
  let ?key = "(repo, prd_path t)" and ?r = "r'\<lparr>row_status := InProgress, row_updated_at := now\<rparr>"
  let ?new = "target_status action"
  have matches: "row_matches t InProgress ?r"
    using row reconcile_row [OF ps, of repo now db] by (auto simp: row_matches_def)
  moreover have owned: "claimed_by_run (latest_event db' ?key)"
    using event actor by (simp add: claimed_by_run_def)
  moreover have stored: "db_rows db' ?key = Some ?r" using rows by simp
  moreover obtain a' reason' where ar: "ar = (a', reason')" by (cases ar)
  moreover obtain db2 where upd: "update_status ?key (row_matches t InProgress) ?new now' db' = Some db2"
    and "db_rows db2 ?key = Some (?r\<lparr>row_status := ?new, row_updated_at := now'\<rparr>)"
    using matches stored by (simp add: update_status_def)
  ultimately show thesis
    using attribution
    by (intro that [of "insert_event ?key InProgress ?new a' now' (Some (action, reason')) db2"])
      (simp_all add: recover_def present_status_def)
qed

lemma to_next_path [simp]: "next_path (to_next e) = prd_path (entry_prd e)" "next_id (to_next e) = prd_ident (entry_prd e)"
  by (simp_all add: to_next_def)

lemma entries_eqI:
  fixes es es' :: "backlog_entry list"
  shows "\<lbrakk>map entry_prd es = map entry_prd es'; map entry_status es = map entry_status es'\<rbrakk> \<Longrightarrow> es = es'"
proof (induction es arbitrary: es')
  case (Cons e es)
  then obtain f fs where "es' = f # fs" by (cases es') auto
  with Cons show ?case by (cases e; cases f) simp
qed simp

text \<open>
  Two snapshots at different times: the statuses agree entry by entry. The locale's
  \<open>snapshot_stable\<close> is for one clock value, so the law of the second snapshot is used here.
\<close>

lemma snapshot_same_status:
  assumes one: "reconcile_and_snapshot now db repo ps = Inr (es, db')"
    and two: "reconcile_and_snapshot now' db' repo ps = Inr (es', db'')"
    and "distinct (map prd_path ps)" and "e \<in> set es" and "e' \<in> set es'"
    and same: "entry_prd e = entry_prd e'"
  shows "entry_status e = entry_status e'"
proof -
  let ?path = "prd_path (entry_prd e)"
  have mem: "entry_prd e \<in> set ps" using sqlite_store.snapshot_entries [OF one] assms(4) by force
  have "db'' = reconcile repo ps now' db'" using two by (simp add: snapshot_Inr)
  then have "present_status db'' repo ?path =
      Some (if prd_location (entry_prd e) = Archived then Completed
            else case db_rows db' (repo, ?path) of None \<Rightarrow> Pending | Some r \<Rightarrow> row_status r)"
    using reconcile_row [OF assms(3) mem, of repo now' db']
    by (auto simp: present_status_def reconciled_row_status split: option.splits)
  moreover have "present_status db' repo ?path = Some (entry_status e)"
    by (rule sqlite_store.snapshot_status [OF one assms(4)])
  moreover have "present_status db'' repo ?path = Some (entry_status e')"
    using sqlite_store.snapshot_status [OF two assms(5)] same by simp
  ultimately show ?thesis
    using sqlite_store.snapshot_archived [OF one assms(4,3)]
    by (auto simp: present_status_def split: if_splits)
qed

lemma snapshot_again:
  assumes "reconcile_and_snapshot now db repo ps = Inr (es, db')" and "distinct (map prd_path ps)"
  shows "reconcile_and_snapshot now' db' repo ps = Inr (es, reconcile repo ps now' db')"
proof -
  obtain es' where "traverse (read_entry (reconcile repo ps now' db') repo) ps = Inr es'"
    using snapshot_total [OF assms(2)] by blast
  then have again: "reconcile_and_snapshot now' db' repo ps = Inr (es', reconcile repo ps now' db')"
    by (simp add: snapshot_Inr)
  have prds: "map entry_prd es = ps" "map entry_prd es' = ps"
    using sqlite_store.snapshot_entries assms(1) again by blast+
  then have len: "length es = length es'" by (metis length_map)
  have "entry_status (es ! i) = entry_status (es' ! i)" if i: "i < length es" for i
  proof -
    have "entry_prd (es ! i) = entry_prd (es' ! i)" using prds i len by (metis nth_map)
    moreover have "es ! i \<in> set es" and "es' ! i \<in> set es'" using i len by simp_all
    ultimately show ?thesis using snapshot_same_status [OF assms(1) again assms(2)] by blast
  qed
  then have "map entry_status es = map entry_status es'" using len by (simp add: list_eq_iff_nth_eq)
  with prds again show ?thesis using entries_eqI [of es es'] by simp
qed

lemma next_then_claim_helper:
  assumes snap: "reconcile_and_snapshot now db repo prds = Inr (es, db')"
    and distinct: "distinct (map prd_path prds)" and e: "e \<in> set es"
    and eligible: "eligible (status_map es) e" and actor: "run_actor_ok actor"
  shows "\<exists>db''. claim_run now' db' repo prds (entry_prd e) actor =
    Inr (\<lparr>entry_prd = entry_prd e, entry_status = InProgress\<rparr>, db'')"
proof -
  let ?t = "entry_prd e" and ?key = "(repo, prd_path (entry_prd e))"
  have prds: "map entry_prd es = prds" by (rule sqlite_store.snapshot_entries [OF snap])
  with e have mem: "?t \<in> set prds" by force
  have db': "db' = reconcile repo prds now db" using snap by (simp add: snapshot_Inr)
  obtain r where r: "db_rows db' ?key = Some r" and fields: "row_hash r = prd_content_hash ?t"
    "row_missing_since r = None"
    using reconcile_row [OF distinct mem, of repo now db] db' by auto
  have "row_status r = Pending"
    using sqlite_store.snapshot_status [OF snap e] r eligible by (simp add: present_status_def eligible_def)
  with fields have claim: "claimable ?t r" by (simp add: claimable_def)
  let ?r' = "reconciled_row now' ?t (Some (mark_missing now' r))"
  have again: "db_rows (reconcile repo prds now' db') ?key = Some ?r'"
    using reconcile_row [OF distinct mem, of repo now' db'] r by simp
  have claim': "claimable ?t ?r'"
    using \<open>row_status r = Pending\<close> eligible
    by (simp add: claimable_def reconciled_row_status eligible_def)
  have read: "traverse (read_entry (reconcile repo prds now' db') repo) prds = Inr es"
    using snapshot_again [OF snap distinct] by (simp add: snapshot_Inr)
  have "distinct (map (\<lambda>e. prd_path (entry_prd e)) es)"
    using distinct prds by (metis (no_types, lifting) comp_def list.map_comp map_cong)
  with admit_entry_iff e eligible have "admit_run_prd es ?t = Inr ()" by blast
  with claim_run_succeeds [OF actor r claim read _ again claim'] show ?thesis by blast
qed

section \<open>The audit log\<close>

text \<open>The events of a path form a chain of statuses from where its row began to where it is.\<close>

fun linked :: "backlog_status \<Rightarrow> status_event list \<Rightarrow> backlog_status \<Rightarrow> bool" where
  "linked s [] t \<longleftrightarrow> s = t"
| "linked s (e # es) t \<longleftrightarrow> ev_old e = s \<and> linked (ev_new e) es t"

definition events_of :: "backlog_db \<Rightarrow> row_key \<Rightarrow> status_event list" where
  "events_of db key = filter (\<lambda>e. ev_key e = key) (db_events db)"

definition audit_row :: "backlog_row option \<Rightarrow> status_event list \<Rightarrow> bool" where
  "audit_row row es \<longleftrightarrow>
     (case row of None \<Rightarrow> es = []
      | Some r \<Rightarrow> linked Pending es (row_status r) \<or> linked Completed es (row_status r))"

definition audit_ok :: "backlog_db \<Rightarrow> bool" where
  "audit_ok db \<longleftrightarrow> (\<forall>key. audit_row (db_rows db key) (events_of db key))"

lemma linked_snoc: "linked s (es @ [e]) t \<longleftrightarrow> linked s es (ev_old e) \<and> ev_new e = t"
  by (induction es arbitrary: s) auto

lemma events_of_insert:
  "events_of (insert_event key old new actor now recovery db) k =
     events_of db k @ (if k = key then [\<lparr>ev_key = key, ev_old = old, ev_new = new, ev_actor = actor,
       ev_changed_at = now, ev_recovery = recovery\<rparr>] else [])"
  by (auto simp: events_of_def insert_event_def)

lemma events_of_rows [simp]: "events_of (db\<lparr>db_rows := rows\<rparr>) k = events_of db k"
  by (simp add: events_of_def)

lemma audit_okD: "audit_ok db \<Longrightarrow> audit_row (db_rows db key) (events_of db key)"
  unfolding audit_ok_def by (rule spec)

text \<open>A status change with its event keeps the chain.\<close>

lemma audit_status_change:
  assumes "audit_ok db" and "db_rows db key = Some r" and "update_status key guard new now db = Some db'"
  shows "audit_ok (insert_event key (row_status r) new actor now recovery db')"
proof -
  let ?db = "insert_event key (row_status r) new actor now recovery db'"
  have db': "db' = db\<lparr>db_rows := (db_rows db)(key \<mapsto> r\<lparr>row_status := new, row_updated_at := now\<rparr>)\<rparr>"
    using assms(2,3) by (auto simp: update_status_Some)
  have "audit_row (db_rows ?db k) (events_of ?db k)" for k
    using audit_okD [OF assms(1), of k] assms(2)
    by (cases "k = key") (auto simp: db' events_of_insert audit_row_def linked_snoc)
  then show ?thesis by (simp add: audit_ok_def)
qed

lemma audit_reconcile_prd:
  assumes "audit_ok db"
  shows "audit_ok (reconcile_prd repo now p db)"
proof -
  let ?key = "(repo, prd_path p)"
  let ?row = "upsert_row now p (db_rows db ?key)"
  have row: "audit_row (Some ?row) (events_of db ?key)"
    using audit_okD [OF assms, of ?key]
    by (auto simp: audit_row_def upsert_row_def split: option.splits)
  have "audit_row (db_rows (reconcile_prd repo now p db) k) (events_of (reconcile_prd repo now p db) k)" for k
  proof (cases "k = ?key")
    case True
    with row show ?thesis
      by (auto simp: reconcile_prd_def Let_def events_of_insert audit_row_def linked_snoc)
  next
    case False
    with audit_okD [OF assms, of k] show ?thesis
      by (simp add: reconcile_prd_other) (simp add: reconcile_prd_def Let_def events_of_insert)
  qed
  then show ?thesis by (simp add: audit_ok_def)
qed

lemma audit_reconcile: "audit_ok db \<Longrightarrow> audit_ok (reconcile repo ps now db)"
proof -
  assume "audit_ok db"
  then have "audit_row (db_rows (mark_all_missing repo now db) k) (events_of (mark_all_missing repo now db) k)"
    for k using audit_okD [of db k]
    by (cases "db_rows db k") (auto simp: mark_all_missing_def audit_row_def)
  then have "audit_ok (mark_all_missing repo now db)" by (simp add: audit_ok_def)
  moreover have "audit_ok d \<Longrightarrow> audit_ok (fold (reconcile_prd repo now) ps d)" for d
    by (induction ps arbitrary: d) (simp_all add: audit_reconcile_prd)
  ultimately show ?thesis by (simp add: reconcile_def)
qed

lemma audit_checkpoint: "audit_ok db \<Longrightarrow> audit_ok (complete_checkpoint key cp h c actor now db)"
  by (simp add: audit_ok_def complete_checkpoint_def events_of_def split: prod.splits)

section \<open>Committed operations as steps\<close>

inductive db_step :: "backlog_db \<Rightarrow> backlog_db \<Rightarrow> bool" where
  snapshot: "reconcile_and_snapshot now db repo ps = Inr (es, db') \<Longrightarrow> db_step db db'"
| transition: "transition now db repo path a b actor = Inr (e, db') \<Longrightarrow> db_step db db'"
| claim: "claim_run now db repo ps t actor = Inr (e, db') \<Longrightarrow> db_step db db'"
| recover: "recover now db repo t action actor reason = Inr (e, db') \<Longrightarrow> db_step db db'"
| record_complete: "record_complete now db repo ps t actor reason = Inr (e, db') \<Longrightarrow> db_step db db'"
| approve: "approve_and_complete now db repo t actor reason h c = Inr (e, db') \<Longrightarrow> db_step db db'"

lemma recover_Inr:
  assumes "recover now db repo t action actor0 reason0 = Inr (e, db')"
  obtains actor reason r db1 where
    "validate_recovery_attribution action actor0 reason0 = Inr (actor, reason)"
    and "db_rows db (repo, prd_path t) = Some r" and "row_matches t InProgress r"
    and "claimed_by_run (latest_event db (repo, prd_path t))"
    and "update_status (repo, prd_path t) (row_matches t InProgress) (target_status action) now db = Some db1"
    and "db' = insert_event (repo, prd_path t) InProgress (target_status action) actor now
                 (Some (action, reason)) db1"
    and "e = \<lparr>entry_prd = t, entry_status = target_status action\<rparr>"
  using assms
  by (auto simp: recover_def Let_def rbind_Inr_iff split: option.split_asm if_split_asm)

lemma record_complete_Inr:
  assumes "record_complete now db repo ps t actor0 reason0 = Inr (e, db')"
  obtains actor reason r r' es db1 where
    "validate_recovery_attribution RecordedComplete actor0 reason0 = Inr (actor, reason)"
    and "db_rows db (repo, prd_path t) = Some r" and "row_matches t Pending r"
    and "traverse (read_entry (reconcile repo ps now db) repo) ps = Inr es"
    and "incomplete_dependencies (status_map es) t = []"
    and "db_rows (reconcile repo ps now db) (repo, prd_path t) = Some r'" and "row_matches t Pending r'"
    and "update_status (repo, prd_path t) (row_matches t Pending) Completed now
           (reconcile repo ps now db) = Some db1"
    and "db' = insert_event (repo, prd_path t) Pending Completed actor now
                 (Some (RecordedComplete, reason)) db1"
  using assms
  by (auto simp: record_complete_def Let_def rbind_Inr_iff update_status_Some
      split: option.split_asm if_split_asm)

lemma approve_Inr:
  assumes "approve_and_complete now db repo t actor0 reason0 h commit0 = Inr (e, db')"
  obtains actor reason r cp db1 where
    "validate_recovery_attribution ApproveAndComplete actor0 reason0 = Inr (actor, reason)"
    and "trim commit0 \<noteq> []" and "db_rows db (repo, prd_path t) = Some r" and "approvable t r"
    and "db_checkpoints db (repo, show_prd_id (prd_ident t)) = Some cp"
    and "cp_phase cp \<noteq> ''completed''" and "cp_diff_hash cp = h"
    and "update_status (repo, prd_path t) (\<lambda>r'. row_status r' = row_status r
           \<and> row_hash r' = prd_content_hash t \<and> row_missing_since r' = None) Completed now db = Some db1"
    and "db' = complete_checkpoint (repo, show_prd_id (prd_ident t)) cp h (trim commit0) actor now
           (insert_event (repo, prd_path t) (row_status r) Completed actor now
              (Some (ApproveAndComplete, reason)) db1)"
  using assms
  by (auto simp: approve_and_complete_def Let_def rbind_Inr_iff split: option.split_asm if_split_asm)

lemma audit_transition:
  assumes "transition now db repo path a b actor = Inr (e, db')" and "audit_ok db"
  shows "audit_ok db'"
proof -
  obtain r where r: "db_rows db (repo, path) = Some r"
    using assms(1) by (auto simp: transition_def split: if_splits option.splits)
  show ?thesis
  proof (cases "db' = db")
    case False
    with assms(1) r obtain db1 where
      "update_status (repo, path) (\<lambda>r. row_status r = a) b now db = Some db1"
      and "db' = insert_event (repo, path) (row_status r) b actor now None db1"
      by (auto simp: transition_def Let_def split: if_split_asm option.split_asm)
    with audit_status_change [OF assms(2) r] show ?thesis by simp
  qed (simp add: assms(2))
qed

lemma audit_step:
  assumes "db_step db db'" and "audit_ok db"
  shows "audit_ok db'"
  using assms
proof cases
  case (snapshot now repo ps es)
  with assms(2) show ?thesis by (simp add: snapshot_Inr audit_reconcile)
next
  case (transition now repo path a b actor e)
  with assms(2) show ?thesis by (blast intro: audit_transition)
next
  case (claim now repo ps t actor e)
  then obtain r' es where row: "db_rows (reconcile repo ps now db) (repo, prd_path t) = Some r'"
    and "claimable t r'" and "admit_run_prd es t = Inr ()"
    and "traverse (read_entry (reconcile repo ps now db) repo) ps = Inr es"
    and "run_actor_ok actor"
    and "(case db_rows db (repo, prd_path t) of None \<Rightarrow> False | Some r \<Rightarrow> claimable t r)"
    by (elim claim_run_Inr) auto
  with claim obtain db1 where
    upd: "update_status (repo, prd_path t) (claimable t) InProgress now (reconcile repo ps now db) = Some db1"
    and "db' = insert_event (repo, prd_path t) Pending InProgress actor now None db1"
    by (auto simp: claim_run_def Let_def validate_run_actor_def ensure_def split: option.splits)
  with audit_status_change [OF audit_reconcile [OF assms(2)] row upd, of actor None] \<open>claimable t r'\<close>
  show ?thesis by (simp add: claimable_def)
next
  case (recover now repo t action actor reason e)
  from recover(1) show ?thesis
    by (rule recover_Inr)
      (use audit_status_change [OF assms(2)] in \<open>fastforce simp: row_matches_def\<close>)
next
  case (record_complete now repo ps t actor reason e)
  from record_complete(1) show ?thesis
    by (rule record_complete_Inr)
      (use audit_status_change [OF audit_reconcile [OF assms(2)]] in \<open>fastforce simp: row_matches_def\<close>)
next
  case (approve now repo t actor reason h c e)
  from approve(1) show ?thesis
    by (rule approve_Inr) (use audit_status_change [OF assms(2)] audit_checkpoint in blast)
qed

section \<open>Properties\<close>

text \<open>
  C2: what \<open>next\<close> selects over the file system and the database can be claimed: a run with a valid
  actor that claims it on the tables \<open>next\<close> left behind succeeds.
\<close>

theorem next_then_claim:
  assumes "backlog_next resolve (\<lambda>r. discover_with_layout sha256 (fs_of r) layout)
             (reconcile_and_snapshot now) db path = (Inr n, db')"
    and "\<forall>r. names_ok (fs_of r)" and "run_actor_ok actor"
  shows "\<exists>repo prds t db''. resolve path = Inr repo
    \<and> discover_with_layout sha256 (fs_of repo) layout = Inr prds \<and> t \<in> set prds
    \<and> prd_path t = next_path n
    \<and> claim_run now' db' repo prds t actor = Inr (\<lparr>entry_prd = t, entry_status = InProgress\<rparr>, db'')"
proof -
  obtain repo prds es e where src: "resolve path = Inr repo"
    "discover_with_layout sha256 (fs_of repo) layout = Inr prds"
    and snap: "reconcile_and_snapshot now db repo prds = Inr (es, db')" and e: "e \<in> set es"
    and n: "n = to_next e" and eligible: "eligible (status_map es) e"
    by (rule sqlite_manager.next_selects [OF assms(1)])
  have "distinct (map prd_path prds)" using discovered_paths_distinct [OF src(2)] assms(2) by blast
  from next_then_claim_helper [OF snap this e eligible assms(3)] obtain db'' where
    "claim_run now' db' repo prds (entry_prd e) actor =
       Inr (\<lparr>entry_prd = entry_prd e, entry_status = InProgress\<rparr>, db'')" by blast
  moreover have "entry_prd e \<in> set prds" using sqlite_store.snapshot_entries [OF snap] e by force
  ultimately show ?thesis using src n by auto
qed

definition sample_db :: backlog_db where
  "sample_db = reconcile ''repo'' sample_discovered ''t1'' empty_db"

lemma sample_snapshot:
  "reconcile_and_snapshot ''t1'' empty_db ''repo'' sample_discovered
     = Inr (map (\<lambda>p. \<lparr>entry_prd = p, entry_status = Pending\<rparr>) sample_discovered, sample_db)"
  by (simp add: reconcile_and_snapshot_def sample_db_def Let_def reconcile_def sample_discovered_def
      reconcile_prd_def upsert_row_def mark_all_missing_def empty_db_def read_entry_def)

lemma sample_paths: "distinct (map prd_path sample_discovered)"
  by code_simp

definition sample_actor :: string where
  "sample_actor = ''system:familiar-ai-run:00000000000000000001-0000000001-000001''"

lemma next_then_claim_witness:
  "\<exists>t db''. claim_run ''t2''
     (snd (backlog_next Inr (\<lambda>r. discover_with_layout (\<lambda>_. []) sample_fs default_layout)
             (reconcile_and_snapshot ''t1'') empty_db ''repo''))
     ''repo'' sample_discovered t sample_actor = Inr (\<lparr>entry_prd = t, entry_status = InProgress\<rparr>, db'')"
proof -
  let ?next = "backlog_next Inr (\<lambda>r. discover_with_layout (\<lambda>_. []) sample_fs default_layout)
             (reconcile_and_snapshot ''t1'') empty_db ''repo''"
  have discovered: "discover_with_layout (\<lambda>_. []) sample_fs default_layout = Inr sample_discovered"
    by (rule discover_sample)
  have "validate_graph sample_discovered = Inr ()" by code_simp
  moreover note sample_snapshot
  moreover have "choose_next (map (\<lambda>p. \<lparr>entry_prd = p, entry_status = Pending\<rparr>) sample_discovered)
      = Inr (to_next \<lparr>entry_prd = hd sample_discovered, entry_status = Pending\<rparr>)" by code_simp
  moreover have "sample_discovered \<noteq> []" by (simp add: sample_discovered_def)
  ultimately obtain n where n: "?next = (Inr n, snd ?next)"
    using discovered by (simp add: backlog_next_def)
  have "\<forall>r. names_ok sample_fs" by (auto simp: names_ok_def sample_fs_def split: if_splits)
  moreover have "run_actor_ok sample_actor" by code_simp
  ultimately show ?thesis
    using next_then_claim [OF n, of sample_actor "''t2''"] discovered by auto
qed

text \<open>
  a claim needs a well-formed run actor, a pending present row of the exact content and an
  admission over the reconciled statuses; it records the actor as the latest event, changes no other
  row than reconciliation does, and every later claim of the same PRD is refused until its status
  changes.
\<close>

lemma claim_run_exclusive:
  assumes "claim_run now db repo ps t actor = Inr (e, db')"
  shows "run_actor_ok actor \<and> (\<exists>r. db_rows db (repo, prd_path t) = Some r \<and> row_status r = Pending
        \<and> row_hash r = prd_content_hash t \<and> row_missing_since r = None)
    \<and> (\<exists>es. traverse (read_entry (reconcile repo ps now db) repo) ps = Inr es \<and> admit_run_prd es t = Inr ())
    \<and> present_status db' repo (prd_path t) = Some InProgress
    \<and> claimed_by_run (latest_event db' (repo, prd_path t))
    \<and> (\<forall>k. k \<noteq> (repo, prd_path t) \<longrightarrow> db_rows db' k = db_rows (reconcile repo ps now db) k)
    \<and> (\<forall>now' ps' actor'. \<exists>err. claim_run now' db' repo ps' t actor' = Inl err)"
proof -
  obtain r r' es where 1: "run_actor_ok actor" "db_rows db (repo, prd_path t) = Some r" "claimable t r"
    "traverse (read_entry (reconcile repo ps now db) repo) ps = Inr es" "admit_run_prd es t = Inr ()"
    and rows: "db_rows db' = (db_rows (reconcile repo ps now db))
           ((repo, prd_path t) \<mapsto> r'\<lparr>row_status := InProgress, row_updated_at := now\<rparr>)"
    and event: "latest_event db' (repo, prd_path t) =
           Some \<lparr>ev_key = (repo, prd_path t), ev_old = Pending, ev_new = InProgress,
                 ev_actor = actor, ev_changed_at = now, ev_recovery = None\<rparr>"
    using assms by (rule claim_run_Inr)
  have stored: "db_rows db' (repo, prd_path t) = Some (r'\<lparr>row_status := InProgress, row_updated_at := now\<rparr>)"
    using rows by simp
  then have "\<exists>err. claim_run now' db' repo ps' t actor' = Inl err" for now' ps' actor'
    using claim_run_not_pending by fastforce
  with 1 rows event stored show ?thesis
    by (auto simp: present_status_def claimed_by_run_def claimable_def)
qed

definition claimed_db :: backlog_db where
  "claimed_db = (case claim_run ''t2'' sample_db ''repo''
     sample_discovered (hd sample_discovered) sample_actor of Inl _ \<Rightarrow> empty_db | Inr (_, db) \<Rightarrow> db)"

lemma claimed_db_claim:
  "claim_run ''t2'' sample_db ''repo'' sample_discovered
     (hd sample_discovered) sample_actor
   = Inr (\<lparr>entry_prd = hd sample_discovered, entry_status = InProgress\<rparr>, claimed_db)"
proof -
  let ?es = "map (\<lambda>p. \<lparr>entry_prd = p, entry_status = Pending\<rparr>) sample_discovered"
  let ?e = "\<lparr>entry_prd = hd sample_discovered, entry_status = Pending\<rparr>"
  have mem: "?e \<in> set ?es" by (simp add: sample_discovered_def)
  have eligible: "eligible (status_map ?es) ?e" by code_simp
  have actor: "run_actor_ok sample_actor" by code_simp
  obtain db' where "claim_run ''t2'' sample_db ''repo'' sample_discovered (entry_prd ?e) sample_actor
      = Inr (\<lparr>entry_prd = entry_prd ?e, entry_status = InProgress\<rparr>, db')"
    using next_then_claim_helper [OF sample_snapshot sample_paths mem eligible actor] by blast
  then show ?thesis by (simp add: claimed_db_def)
qed

lemma claim_run_exclusive_witness:
  "present_status claimed_db ''repo'' ''docs/prds/PRD-1.md'' = Some InProgress"
  using claim_run_exclusive [OF claimed_db_claim] by (simp add: sample_discovered_def)

text \<open>
  a recovery acts only on the claimed, unchanged and present row of the PRD whose latest event is
  a run's claim; it sets the status of the action and appends one event with the action and the
  reason, by a human when the PRD becomes completed.
\<close>

lemma recover_exact:
  assumes "recover now db repo t action actor0 reason0 = Inr (e, db')"
  shows "(\<exists>r. db_rows db (repo, prd_path t) = Some r \<and> row_matches t InProgress r)
    \<and> claimed_by_run (latest_event db (repo, prd_path t))
    \<and> present_status db' repo (prd_path t) = Some (target_status action)
    \<and> (\<forall>k. k \<noteq> (repo, prd_path t) \<longrightarrow> db_rows db' k = db_rows db k)
    \<and> (\<exists>ev. db_events db' = db_events db @ [ev] \<and> ev_key ev = (repo, prd_path t)
          \<and> ev_old ev = InProgress \<and> ev_new ev = target_status action
          \<and> ev_actor ev = trim actor0 \<and> ev_recovery ev = Some (action, trim reason0))
    \<and> (action \<noteq> Release \<longrightarrow> human_actor (trim actor0))"
  using assms
proof (rule recover_Inr)
  fix actor reason r db1
  assume "validate_recovery_attribution action actor0 reason0 = Inr (actor, reason)"
    and r: "db_rows db (repo, prd_path t) = Some r" "row_matches t InProgress r"
    and "claimed_by_run (latest_event db (repo, prd_path t))"
    and upd: "update_status (repo, prd_path t) (row_matches t InProgress) (target_status action) now db = Some db1"
    and "db' = insert_event (repo, prd_path t) InProgress (target_status action) actor now
                 (Some (action, reason)) db1"
  moreover have "action \<noteq> Release \<longrightarrow> target_status action = Completed"
    by (cases action) (simp_all add: target_status_def)
  moreover have "db1 = db\<lparr>db_rows := (db_rows db)((repo, prd_path t) \<mapsto>
      r\<lparr>row_status := target_status action, row_updated_at := now\<rparr>)\<rparr>"
    using upd r by (simp add: update_status_def)
  ultimately show ?thesis
    by (auto simp: recovery_attribution_Inr present_status_def insert_event_def)
qed

lemma recover_exact_witness:
  "\<exists>db'. recover ''t3'' claimed_db ''repo'' (hd sample_discovered) Release ''ops:queue'' ''retry'' =
      Inr (\<lparr>entry_prd = hd sample_discovered, entry_status = Pending\<rparr>, db')
    \<and> present_status db' ''repo'' ''docs/prds/PRD-1.md'' = Some Pending"
proof -
  have "distinct (map prd_path sample_discovered)" "hd sample_discovered \<in> set sample_discovered"
    "validate_recovery_attribution Release ''ops:queue'' ''retry'' = Inr (''ops:queue'', ''retry'')"
    by code_simp+
  then obtain db' where *: "recover ''t3'' claimed_db ''repo'' (hd sample_discovered) Release ''ops:queue'' ''retry''
      = Inr (\<lparr>entry_prd = hd sample_discovered, entry_status = target_status Release\<rparr>, db')"
    by (rule recover_after_claim [OF claimed_db_claim])
  with recover_exact [OF *] show ?thesis
    by (auto simp: target_status_def sample_discovered_def)
qed

text \<open>
  a claim can always be undone: recovering a claimed PRD with valid attribution succeeds and
  leaves it in the status of the action.
\<close>

lemma claim_then_recover:
  assumes "claim_run now db repo ps t actor = Inr (e, db')"
    and "distinct (map prd_path ps)" and "t \<in> set ps"
    and "validate_recovery_attribution action a reason = Inr ar"
  shows "\<exists>db''. recover now' db' repo t action a reason =
      Inr (\<lparr>entry_prd = t, entry_status = target_status action\<rparr>, db'')
    \<and> present_status db'' repo (prd_path t) = Some (target_status action)"
  using recover_after_claim [OF assms] by metis

lemma claim_then_recover_witness:
  "\<exists>db'. recover ''t3'' claimed_db ''repo'' (hd sample_discovered) ManualCompleteOverride ''human:ada'' ''landed''
    = Inr (\<lparr>entry_prd = hd sample_discovered, entry_status = Completed\<rparr>, db')"
proof -
  have "distinct (map prd_path sample_discovered)" "hd sample_discovered \<in> set sample_discovered"
    "validate_recovery_attribution ManualCompleteOverride ''human:ada'' ''landed'' = Inr (''human:ada'', ''landed'')"
    by code_simp+
  from claim_then_recover [OF claimed_db_claim this] show ?thesis by (auto simp: target_status_def)
qed

text \<open>
  recording a completion needs a human, a pending matching row and every dependency completed in
  the reconciled snapshot; it leaves the PRD completed.
\<close>

lemma record_complete_exact:
  assumes "record_complete now db repo ps t actor0 reason0 = Inr (e, db')"
  shows "human_actor (trim actor0)
    \<and> (\<exists>r. db_rows db (repo, prd_path t) = Some r \<and> row_matches t Pending r)
    \<and> (\<exists>es. traverse (read_entry (reconcile repo ps now db) repo) ps = Inr es
          \<and> (\<forall>d \<in> set (prd_dependencies t). status_map es (prd_key d) = Some Completed))
    \<and> present_status db' repo (prd_path t) = Some Completed
    \<and> (\<forall>k. k \<noteq> (repo, prd_path t) \<longrightarrow> db_rows db' k = db_rows (reconcile repo ps now db) k)"
  using assms
  by (rule record_complete_Inr)
    (auto simp: recovery_attribution_Inr target_status_def incomplete_empty_iff update_status_Some
      present_status_def)

lemma record_complete_exact_witness:
  "\<exists>db'. record_complete ''t2'' sample_db ''repo'' sample_discovered
      (hd sample_discovered) ''human:ada'' ''done by hand'' =
      Inr (\<lparr>entry_prd = hd sample_discovered, entry_status = Completed\<rparr>, db')
    \<and> present_status db' ''repo'' ''docs/prds/PRD-1.md'' = Some Completed"
proof -
  let ?p = "hd sample_discovered"
  have mem: "?p \<in> set sample_discovered" and active: "prd_location ?p = Active"
    and nodeps: "prd_dependencies ?p = []" by (simp_all add: sample_discovered_def)
  have attr: "validate_recovery_attribution RecordedComplete ''human:ada'' ''done by hand'' = Inr (''human:ada'', ''done by hand'')"
    by code_simp
  obtain r where row: "db_rows sample_db (''repo'', prd_path ?p) = Some r" "row_matches ?p Pending r"
    using reconcile_row [OF sample_paths mem, of "''repo''" "''t1''" empty_db] active
    by (simp add: sample_db_def row_matches_def reconciled_row_status) (simp add: empty_db_def)
  obtain r' where row': "db_rows (reconcile ''repo'' sample_discovered ''t2'' sample_db) (''repo'', prd_path ?p) = Some r'"
    "row_matches ?p Pending r'"
    using reconcile_row [OF sample_paths mem, of "''repo''" "''t2''" sample_db] active row
    by (simp add: row_matches_def reconciled_row_status)
  have "traverse (read_entry (reconcile ''repo'' sample_discovered ''t2'' sample_db) ''repo'') sample_discovered
      = Inr (map (\<lambda>p. \<lparr>entry_prd = p, entry_status = Pending\<rparr>) sample_discovered)"
    using snapshot_again [OF sample_snapshot sample_paths] by (simp add: snapshot_Inr)
  with row row' attr nodeps obtain db' where *: "record_complete ''t2'' sample_db ''repo''
      sample_discovered ?p ''human:ada'' ''done by hand'' =
      Inr (\<lparr>entry_prd = ?p, entry_status = Completed\<rparr>, db')"
    by (simp add: record_complete_def Let_def incomplete_dependencies_def update_status_def)
  with record_complete_exact [OF *] show ?thesis by (auto simp: sample_discovered_def)
qed

text \<open>
  reconciliation records each discovered PRD as present with its own hash, a known active one with
  the status it had, a new one as pending and an archived one as completed; it keeps the row of an
  absent PRD with its status and only marks it missing, and touches no other repository.
\<close>

lemma reconcile_exact:
  assumes "distinct (map prd_path ps)"
  shows "(\<forall>p \<in> set ps. \<exists>r. db_rows (reconcile repo ps now db) (repo, prd_path p) = Some r
        \<and> row_missing_since r = None \<and> row_hash r = prd_content_hash p
        \<and> row_status r = (if prd_location p = Archived then Completed
             else case present_status db repo (prd_path p) of None \<Rightarrow> Pending | Some s \<Rightarrow> s))
    \<and> (\<forall>path. path \<notin> prd_path ` set ps \<longrightarrow>
         db_rows (reconcile repo ps now db) (repo, path) =
           map_option (mark_missing now) (db_rows db (repo, path)))
    \<and> (\<forall>repo' path. repo' \<noteq> repo \<longrightarrow>
         db_rows (reconcile repo ps now db) (repo', path) = db_rows db (repo', path))"
proof (intro conjI ballI allI impI)
  fix p assume "p \<in> set ps"
  from reconcile_row [OF assms this, of repo now db]
  show "\<exists>r. db_rows (reconcile repo ps now db) (repo, prd_path p) = Some r
        \<and> row_missing_since r = None \<and> row_hash r = prd_content_hash p
        \<and> row_status r = (if prd_location p = Archived then Completed
             else case present_status db repo (prd_path p) of None \<Rightarrow> Pending | Some s \<Rightarrow> s)"
    by (auto simp: reconciled_row_status present_status_def split: option.splits)
qed (use reconcile_absent [of _ repo ps now db] in auto)

lemma reconcile_exact_witness:
  "\<exists>r. db_rows (reconcile ''repo'' sample_discovered ''t3'' claimed_db) (''repo'', ''docs/prds/PRD-1.md'') = Some r
     \<and> row_status r = InProgress"
proof -
  have "hd sample_discovered \<in> set sample_discovered" "prd_location (hd sample_discovered) = Active"
    "prd_path (hd sample_discovered) = ''docs/prds/PRD-1.md''" by (simp_all add: sample_discovered_def)
  with reconcile_exact [OF sample_paths, of "''repo''" "''t3''" claimed_db] claimed_db_claim
  show ?thesis
    by (elim conjE claim_run_Inr) (drule bspec, assumption, auto simp: present_status_def)
qed

text \<open>
  The twin that lets a missing claim complete is found by number alone: any completed row of the number
  will do, whatever its suffix.
\<close>

lemma archived_twin_ignores_suffix:
  assumes "db_rows db (repo, path) = Some r" and "row_number r = n"
    and "row_status r = Completed" and "row_missing_since r = None"
  shows "archived_twin_completed [path] (db\<lparr>db_rows := (db_rows db)((repo, path) \<mapsto> r\<lparr>row_suffix := s\<rparr>)\<rparr>) repo n"
  using assms by (simp add: archived_twin_completed_def)

definition unreviewed_db :: backlog_db where
  "unreviewed_db = sample_db\<lparr>db_checkpoints := [(''repo'', ''PRD-1'') \<mapsto>
     \<lparr>cp_id = ''c1'', cp_phase = ''claimed'', cp_diff_hash = ''h'', cp_invalid_reason = None,
      cp_approved_hash = None, cp_approved_commit = None, cp_updated_at = ''t1''\<rparr>]\<rparr>"

text \<open>
  approval completes the PRD and its checkpoint together, under a human actor, for the approved hash
  and a named commit; the only checkpoint phase it refuses is \<open>completed\<close>.
\<close>

lemma approve_and_complete_exact:
  assumes "approve_and_complete now db repo t actor0 reason0 h commit0 = Inr (e, db')"
  shows "human_actor (trim actor0) \<and> trim commit0 \<noteq> []
    \<and> (\<exists>r. db_rows db (repo, prd_path t) = Some r \<and> approvable t r)
    \<and> present_status db' repo (prd_path t) = Some Completed
    \<and> (\<exists>cp cp'. db_checkpoints db (repo, show_prd_id (prd_ident t)) = Some cp
          \<and> cp_phase cp \<noteq> ''completed'' \<and> cp_diff_hash cp = h
          \<and> db_checkpoints db' (repo, show_prd_id (prd_ident t)) = Some cp'
          \<and> cp_phase cp' = ''completed'' \<and> cp_approved_hash cp' = Some h
          \<and> cp_approved_commit cp' = Some (trim commit0))"
  using assms
  by (elim approve_Inr; simp add: recovery_attribution_Inr target_status_def;
      auto simp: update_status_Some present_status_def complete_checkpoint_def split: prod.splits)

lemma approve_and_complete_exact_witness:
  "\<exists>e db2. approve_and_complete ''t2'' unreviewed_db ''repo'' (hd sample_discovered) ''human:ada'' ''ok'' ''h'' ''c0ffee''
        = Inr (e, db2)
     \<and> present_status db2 ''repo'' (prd_path (hd sample_discovered)) = Some Completed"
proof -
  let ?p = "hd sample_discovered"
  have mem: "?p \<in> set sample_discovered" and active: "prd_location ?p = Active"
    and name: "show_prd_id (prd_ident ?p) = ''PRD-1''"
    by (simp_all add: sample_discovered_def) code_simp
  have attr: "validate_recovery_attribution ApproveAndComplete ''human:ada'' ''ok'' = Inr (''human:ada'', ''ok'')"
    and commit: "trim ''c0ffee'' = ''c0ffee''" by code_simp+
  obtain r where "db_rows unreviewed_db (''repo'', prd_path ?p) = Some r" "approvable ?p r"
    using reconcile_row [OF sample_paths mem, of "''repo''" "''t1''" empty_db] active
    by (simp add: sample_db_def unreviewed_db_def approvable_def reconciled_row_status)
      (simp add: empty_db_def)
  then obtain e db2 where "approve_and_complete ''t2'' unreviewed_db ''repo'' ?p ''human:ada'' ''ok'' ''h'' ''c0ffee''
        = Inr (e, db2)"
    by (simp add: approve_and_complete_def Let_def attr commit name update_status_def approvable_def)
      (simp add: unreviewed_db_def update_status_def)
  with approve_and_complete_exact [OF this] show ?thesis by blast
qed

text \<open>The example's checkpoint was only claimed, never reviewed, and is completed all the same.\<close>

lemma unreviewed_checkpoint_phase:
  "map_option cp_phase (db_checkpoints unreviewed_db (''repo'', ''PRD-1'')) = Some ''claimed''"
  by (simp add: unreviewed_db_def)

end
