(* ===== verification/Bootstrap_Store.thy ===== *)
theory Bootstrap_Store
  imports Backlog_Store
begin

text \<open>
  The bootstrap of a backlog that has a history: a manifest lists PRDs that were completed before the backlog was
  kept. \<open>crates/familiar-ai-core/src/bootstrap.rs\<close> reads it, \<open>crates/familiar-ai-storage/src/repos/bootstrap.rs\<close>
  applies it and rolls it back over the tables of migration 008 and those of \<open>Backlog_Store\<close>. Reading TOML and
  SHA-256 are parameters; the names of runs and the clock are arguments. A panic is the value \<open>None\<close>.
\<close>

section \<open>Types\<close>

record bootstrap_item =
  bi_path :: string
  bi_number :: u64
  bi_suffix :: "char option"
  bi_declared :: string
  bi_observed :: string

record bootstrap_manifest =
  bm_version :: u32
  bm_canonical :: string
  bm_raw :: string
  bm_items :: "bootstrap_item list"

datatype bootstrap_result = Bootstrap_Absent | Already_Applied | Applied_Run string nat string

record bootstrap_status =
  bs_state :: string
  bs_repository :: string
  bs_run :: "string option"
  bs_canonical :: "string option"
  bs_count :: nat

datatype bootstrap_error =
  Manifest_Invalid string | Manifest_Stale string | Bootstrap_Ineligible string | Bootstrap_Conflict string
| Audit_Corrupt string | Rollback_Ineligible string | Bootstrap_Storage string

definition bootstrap_manifest_path :: string where
  "bootstrap_manifest_path = ''.familiar/backlog-bootstrap.toml''"

definition bootstrap_actor :: string where
  "bootstrap_actor = ''system:historical-backlog-bootstrap''"

text \<open>
  \<open>be_toml\<close> reads the version and the pairs of path and hash from the text of a manifest; \<open>be_sha256\<close> gives the digest
  in hexadecimal; \<open>be_null_column\<close> is the message of SQLite for a NULL where a number is read.
\<close>

record bootstrap_env =
  be_toml :: "string \<Rightarrow> string + u32 \<times> (string \<times> string) list"
  be_sha256 :: "string \<Rightarrow> string"
  be_null_column :: string

datatype manifest_file =
  Manifest_Absent | Inspection_Failed string | Irregular_File | Reading_Failed string | Manifest_Bytes string

section \<open>Reading the manifest\<close>

definition canonical_item_path :: "string \<Rightarrow> bool" where
  "canonical_item_path path \<longleftrightarrow>
     (case Option.bind (strip_prefix path ''docs/prds/PRD-'') (\<lambda>r. strip_suffix r ''.md'') of
        None \<Rightarrow> False | Some d \<Rightarrow> d \<noteq> [] \<and> list_all is_digit d)
     \<and> backslash \<notin> set path"

definition lowercase_sha :: "string \<Rightarrow> bool" where
  "lowercase_sha h \<longleftrightarrow> length h = 64 \<and> list_all (\<lambda>c. is_digit c \<or> CHR ''a'' \<le> c \<and> c \<le> CHR ''f'') h"

type_synonym manifest_reading = "string set \<times> (u64 \<times> nat) set \<times> bootstrap_item list \<times> string list"

definition check_item :: "(string \<Rightarrow> discovered_prd option) \<Rightarrow> string \<times> string \<Rightarrow> manifest_reading \<Rightarrow> manifest_reading" where
  "check_item by_path = (\<lambda>(path, sha) (paths, ids, items, errors).
     let paths' = insert path paths in
     if \<not> canonical_item_path path
     then (paths, ids, items, errors @ [path @ '': invalid or noncanonical active PRD path''])
     else if path \<in> paths then (paths, ids, items, errors @ [path @ '': duplicate path''])
     else if \<not> lowercase_sha sha
     then (paths', ids, items, errors @ [path @ '': sha256 must be 64 lowercase hexadecimal characters''])
     else case by_path path of
       None \<Rightarrow> (paths', ids, items, errors @ [path @ '': path is not an active discovered PRD''])
     | Some p \<Rightarrow>
       if prd_key (prd_ident p) \<in> ids
       then (paths', ids, items, errors @ [path @ '': duplicate normalized PRD identity '' @ show_prd_id (prd_ident p)])
       else if prd_content_hash p \<noteq> sha
       then (paths', insert (prd_key (prd_ident p)) ids, items, errors @ [path @ '': content hash mismatch''])
       else (paths', insert (prd_key (prd_ident p)) ids,
         items @ [\<lparr>bi_path = prd_path p, bi_number = prd_number p, bi_suffix = id_suffix (prd_ident p),
                   bi_declared = sha, bi_observed = prd_content_hash p\<rparr>], errors))"

definition be_bytes :: "nat \<Rightarrow> string" where
  "be_bytes n = map (\<lambda>i. char_of (n div 256 ^ i mod 256)) [3, 2, 1, 0]"

definition hex_val :: "char \<Rightarrow> nat" where
  "hex_val c = (if is_digit c then digit_val c else byte c - 87)"

fun decode_hash :: "string \<Rightarrow> string" where
  "decode_hash (a # b # r) = char_of (16 * hex_val a + hex_val b) # decode_hash r"
| "decode_hash _ = []"

definition canonical_bytes :: "u32 \<Rightarrow> bootstrap_item list \<Rightarrow> string" where
  "canonical_bytes version items =
     be_bytes (unat version)
     @ concat (map (\<lambda>i. be_bytes (length (bi_path i) mod 2 ^ 32) @ bi_path i @ decode_hash (bi_declared i)) items)"

definition load_manifest ::
    "bootstrap_env \<Rightarrow> manifest_file \<Rightarrow> discovered_prd list \<Rightarrow> bootstrap_error + bootstrap_manifest option" where
  "load_manifest env file discovered =
     (case file of
        Manifest_Absent \<Rightarrow> Inr None
      | Inspection_Failed e \<Rightarrow> Inl (Manifest_Invalid (''cannot inspect manifest: '' @ e))
      | Irregular_File \<Rightarrow> Inl (Manifest_Invalid ''manifest must be a regular non-symlink file'')
      | Reading_Failed e \<Rightarrow> Inl (Manifest_Invalid (''cannot read manifest: '' @ e))
      | Manifest_Bytes bytes \<Rightarrow>
        if \<not> utf8_valid bytes then Inl (Manifest_Invalid ''manifest is not valid UTF-8'')
        else rbind (map_err Manifest_Invalid (be_toml env bytes)) (\<lambda>(version, completed).
          if version \<noteq> 1 then Inl (Manifest_Invalid (''unsupported version '' @ show_nat (unat version)))
          else if completed = [] then Inl (Manifest_Invalid ''completed must not be empty'')
          else
            let by_path = collect_map (map (\<lambda>p. (prd_path p, p)) discovered);
                (_, _, items, errors) = fold (check_item by_path) completed ({}, {}, [], [])
            in if errors \<noteq> []
               then Inl ((if list_ex (\<lambda>e. ends_with e ''content hash mismatch'') errors then Manifest_Stale
                          else Manifest_Invalid) (join ''; '' (sort errors)))
               else let sorted = sort_key (\<lambda>i. (bi_number i, bi_path i)) items in
                 Inr (Some \<lparr>bm_version = version, bm_canonical = be_sha256 env (canonical_bytes version sorted),
                   bm_raw = be_sha256 env bytes, bm_items = sorted\<rparr>)))"

text \<open>The index \<open>by_id[..]\<close> panics for a PRD that was not discovered.\<close>

definition validate_dependency_closure ::
    "bootstrap_manifest \<Rightarrow> discovered_prd list \<Rightarrow> status_map \<Rightarrow> (u64 \<times> nat) set \<Rightarrow> (bootstrap_error + unit) option" where
  "validate_dependency_closure manifest discovered statuses evidenced =
     (let listed = (\<lambda>i. prd_key (prd_new (bi_number i))) ` set (bm_items manifest);
          by_id = collect_map (map (\<lambda>p. (prd_key (prd_ident p), p)) discovered);
          satisfied = (\<lambda>d. prd_key d \<in> listed
             \<or> statuses (prd_key d) = Some Completed \<and> prd_key d \<in> evidenced) in
      if list_ex (\<lambda>i. by_id (prd_key (prd_new (bi_number i))) = None) (bm_items manifest) then None
      else
        let errors = concat (map (\<lambda>i. case by_id (prd_key (prd_new (bi_number i))) of
              None \<Rightarrow> []
            | Some p \<Rightarrow> map (\<lambda>d. bi_path i @ '' requires incomplete unlisted dependency '' @ show_prd_id d)
                (filter (\<lambda>d. \<not> satisfied d) (prd_dependencies p))) (bm_items manifest))
        in Some (if errors = [] then Inr () else Inl (Bootstrap_Ineligible (join ''; '' errors))))"

section \<open>Tables\<close>

datatype boot_state = Run_Applied | Run_Rolled_Back | Run_Applying | Run_Failed | Run_Interrupted

definition run_state_text :: "boot_state \<Rightarrow> string" where
  "run_state_text s = (case s of Run_Applied \<Rightarrow> ''applied'' | Run_Rolled_Back \<Rightarrow> ''rolled_back''
     | Run_Applying \<Rightarrow> ''applying'' | Run_Failed \<Rightarrow> ''failed'' | Run_Interrupted \<Rightarrow> ''interrupted'')"

record run_row =
  br_id :: string
  br_repository :: string
  br_canonical :: string
  br_raw :: string
  br_manifest_path :: string
  br_version :: u32
  br_state :: boot_state
  br_count :: nat
  br_applied_at :: "string option"
  br_rolled_back_at :: "string option"
  br_rollback :: "string option"
  br_reapplies :: "string option"
  br_created_at :: string
  br_updated_at :: string

record run_item_row =
  bj_run :: string
  bj_ordinal :: nat
  bj_repository :: string
  bj_path :: string
  bj_number :: u64
  bj_suffix :: "char option"
  bj_declared :: string
  bj_observed :: string
  bj_event :: nat

record rollback_row =
  bk_id :: string
  bk_run :: string
  bk_repository :: string
  bk_actor :: string
  bk_reason :: string
  bk_count :: nat
  bk_created_at :: string

record rollback_item_row =
  bl_rollback :: string
  bl_ordinal :: nat
  bl_path :: string
  bl_event :: nat

record bootstrap_db =
  bt_backlog :: backlog_db
  bt_runs :: "run_row list"
  bt_items :: "run_item_row list"
  bt_rollbacks :: "rollback_row list"
  bt_rollback_items :: "rollback_item_row list"

definition empty_bootstrap :: bootstrap_db where
  "empty_bootstrap = \<lparr>bt_backlog = empty_db, bt_runs = [], bt_items = [], bt_rollbacks = [], bt_rollback_items = []\<rparr>"

text \<open>Event identifiers count the insertions from 1: no event is ever deleted.\<close>

definition event_at :: "backlog_db \<Rightarrow> nat \<Rightarrow> status_event option" where
  "event_at db n = (if 1 \<le> n \<and> n \<le> length (db_events db) then Some (db_events db ! (n - 1)) else None)"

definition latest_event_id :: "backlog_db \<Rightarrow> row_key \<Rightarrow> nat option" where
  "latest_event_id db key =
     (case filter (\<lambda>n. ev_key (db_events db ! n) = key) (rev [0..<length (db_events db)]) of
        [] \<Rightarrow> None | n # _ \<Rightarrow> Some (Suc n))"

definition event_count :: "backlog_db \<Rightarrow> row_key \<Rightarrow> nat" where
  "event_count db key = length (filter (\<lambda>e. ev_key e = key) (db_events db))"

definition items_of_run :: "bootstrap_db \<Rightarrow> string \<Rightarrow> run_item_row list" where
  "items_of_run db run = filter (\<lambda>j. bj_run j = run) (bt_items db)"

definition item_linked :: "backlog_db \<Rightarrow> run_item_row \<Rightarrow> bool" where
  "item_linked db j \<longleftrightarrow>
     (case event_at db (bj_event j) of
        None \<Rightarrow> False
      | Some e \<Rightarrow> ev_key e = (bj_repository j, bj_path j) \<and> ev_old e = Pending \<and> ev_new e = Completed
          \<and> ev_actor e = bootstrap_actor)"

definition run_linked :: "bootstrap_db \<Rightarrow> run_row \<Rightarrow> bool" where
  "run_linked db r \<longleftrightarrow> length (items_of_run db (br_id r)) = br_count r
     \<and> list_all (item_linked (bt_backlog db)) (items_of_run db (br_id r))"

definition validate_all_runs :: "bootstrap_db \<Rightarrow> string \<Rightarrow> bootstrap_error + unit" where
  "validate_all_runs db repo =
     ensure (list_all (\<lambda>r. br_repository r = repo \<longrightarrow> run_linked db r) (bt_runs db))
       (Audit_Corrupt ''bootstrap run/item/event linkage is inconsistent'')"

definition runs_of :: "bootstrap_db \<Rightarrow> string \<Rightarrow> run_row list" where
  "runs_of db repo = sort_key (\<lambda>r. (br_created_at r, br_id r)) (filter (\<lambda>r. br_repository r = repo) (bt_runs db))"

definition check_sql :: "bool \<Rightarrow> string \<Rightarrow> bootstrap_error + unit" where
  "check_sql ok clause = ensure ok (Bootstrap_Storage (''CHECK constraint failed: '' @ clause))"

definition unique_sql :: "bool \<Rightarrow> string \<Rightarrow> bootstrap_error + unit" where
  "unique_sql ok columns = ensure ok (Bootstrap_Storage (''UNIQUE constraint failed: '' @ columns))"

section \<open>Applying\<close>

fun inspect_prds ::
    "backlog_db \<Rightarrow> string \<Rightarrow> bootstrap_manifest \<Rightarrow> bool \<Rightarrow> discovered_prd list \<Rightarrow> status_map \<times> (u64 \<times> nat) set
     \<Rightarrow> bootstrap_error + status_map \<times> (u64 \<times> nat) set" where
  "inspect_prds db repo manifest reapply [] acc = Inr acc"
| "inspect_prds db repo manifest reapply (p # ps) (statuses, evidenced) =
     (case db_rows db (repo, prd_path p) of
        None \<Rightarrow> Inl (Bootstrap_Conflict (''missing target row '' @ prd_path p))
      | Some r \<Rightarrow>
        let events = event_count db (repo, prd_path p);
            acc = (statuses(prd_key (prd_ident p) \<mapsto> row_status r),
                   if row_status r = Completed \<and> 0 < events then insert (prd_key (prd_ident p)) evidenced else evidenced)
        in if \<not> list_ex (\<lambda>i. bi_path i = prd_path p) (bm_items manifest)
           then inspect_prds db repo manifest reapply ps acc
           else if row_missing_since r \<noteq> None
           then Inl (Bootstrap_Ineligible (prd_path p @ '' is marked missing''))
           else if row_status r \<noteq> Pending
           then Inl (Bootstrap_Ineligible (prd_path p @ '' has status '' @ show_status (row_status r)))
           else if events \<noteq> 0 \<and> \<not> reapply
           then Inl (Bootstrap_Ineligible (prd_path p @ '' has prior status events''))
           else if reapply \<and> events \<noteq> 2
           then Inl (Bootstrap_Ineligible (prd_path p @ '' has later or incomplete rollback events''))
           else inspect_prds db repo manifest reapply ps acc)"

definition apply_item ::
    "string \<Rightarrow> string \<Rightarrow> string \<Rightarrow> nat \<Rightarrow> bootstrap_item \<Rightarrow> bootstrap_db \<Rightarrow> bootstrap_error + bootstrap_db" where
  "apply_item now run repo ordinal i db =
     (let key = (repo, bi_path i) in
      case update_status key (\<lambda>r. row_status r = Pending \<and> row_missing_since r = None \<and> row_hash r = bi_observed i)
             Completed now (bt_backlog db) of
        None \<Rightarrow> Inl (Bootstrap_Conflict (''optimistic status write failed for '' @ bi_path i))
      | Some b \<Rightarrow>
        let b' = insert_event key Pending Completed bootstrap_actor now None b in
        rbind (check_sql (length (bi_declared i) = 64) ''length(declared_content_hash) = 64'') (\<lambda>_.
        rbind (check_sql (length (bi_observed i) = 64) ''length(observed_content_hash) = 64'') (\<lambda>_.
        Inr (db\<lparr>bt_backlog := b', bt_items := bt_items db @ [\<lparr>bj_run = run, bj_ordinal = ordinal,
          bj_repository = repo, bj_path = bi_path i, bj_number = bi_number i, bj_suffix = bi_suffix i,
          bj_declared = bi_declared i, bj_observed = bi_observed i, bj_event = length (db_events b')\<rparr>]\<rparr>))))"

fun apply_items ::
    "string \<Rightarrow> string \<Rightarrow> string \<Rightarrow> nat \<Rightarrow> bootstrap_item list \<Rightarrow> bootstrap_db \<Rightarrow> bootstrap_error + bootstrap_db" where
  "apply_items now run repo ordinal [] db = Inr db"
| "apply_items now run repo ordinal (i # is) db =
     rbind (apply_item now run repo ordinal i db) (apply_items now run repo (Suc ordinal) is)"

definition insert_run ::
    "string \<Rightarrow> string \<Rightarrow> string \<Rightarrow> bootstrap_manifest \<Rightarrow> string option \<Rightarrow> bootstrap_db \<Rightarrow> bootstrap_error + bootstrap_db" where
  "insert_run now run repo manifest reapplies db =
     rbind (check_sql (length (bm_canonical manifest) = 64) ''length(canonical_manifest_hash) = 64'') (\<lambda>_.
     rbind (check_sql (length (bm_raw manifest) = 64) ''length(raw_manifest_hash) = 64'') (\<lambda>_.
     rbind (check_sql (bm_version manifest = 1) ''manifest_version = 1'') (\<lambda>_.
     rbind (check_sql (bm_items manifest \<noteq> []) ''item_count > 0'') (\<lambda>_.
     rbind (unique_sql (\<not> list_ex (\<lambda>r. br_id r = run) (bt_runs db)) ''backlog_bootstrap_runs.run_id'') (\<lambda>_.
     Inr (db\<lparr>bt_runs := bt_runs db @ [\<lparr>br_id = run, br_repository = repo, br_canonical = bm_canonical manifest,
       br_raw = bm_raw manifest, br_manifest_path = bootstrap_manifest_path, br_version = bm_version manifest,
       br_state = Run_Applied, br_count = length (bm_items manifest), br_applied_at = Some now,
       br_rolled_back_at = None, br_rollback = None, br_reapplies = reapplies, br_created_at = now,
       br_updated_at = now\<rparr>]\<rparr>))))))"

text \<open>What the runs of the repository allow: nothing to do, a first application, or one more after a rollback.\<close>

datatype lineage = Lineage_Applied | Lineage_Fresh | Lineage_Reapply string

definition lineage_of :: "run_row list \<Rightarrow> bootstrap_manifest \<Rightarrow> bootstrap_error + lineage" where
  "lineage_of runs manifest =
     (case find (\<lambda>r. br_state r = Run_Applied) runs of
        Some r \<Rightarrow>
          if br_canonical r = bm_canonical manifest then Inr Lineage_Applied
          else Inl (Bootstrap_Conflict
            ''BootstrapManifestChanged: an applied lineage has a different canonical manifest hash'')
      | None \<Rightarrow>
        (case runs of
           [] \<Rightarrow> Inr Lineage_Fresh
         | r # rest \<Rightarrow>
           if rest = [] \<and> br_state r = Run_Rolled_Back \<and> br_canonical r = bm_canonical manifest \<and> br_rollback r \<noteq> None
           then Inr (Lineage_Reapply (br_id r))
           else Inl (Bootstrap_Conflict ''a prior bootstrap lineage disallows application'')))"

definition apply_manifest ::
    "string \<Rightarrow> string \<Rightarrow> bootstrap_db \<Rightarrow> string \<Rightarrow> discovered_prd list \<Rightarrow> bootstrap_manifest \<Rightarrow> string option
     \<Rightarrow> (bootstrap_error + bootstrap_result \<times> bootstrap_db) option" where
  "apply_manifest now run db repo discovered manifest reapply =
     (case inspect_prds (bt_backlog db) repo manifest (reapply \<noteq> None) discovered (\<lambda>_. None, {}) of
        Inl e \<Rightarrow> Some (Inl e)
      | Inr (statuses, evidenced) \<Rightarrow>
        (case validate_dependency_closure manifest discovered statuses evidenced of
           None \<Rightarrow> None
         | Some closure \<Rightarrow> Some (
             rbind closure (\<lambda>_.
             rbind (insert_run now run repo manifest reapply db) (\<lambda>db1.
             rbind (apply_items now run repo 1 (bm_items manifest) db1) (\<lambda>db2.
             Inr (Applied_Run run (length (bm_items manifest)) (bm_canonical manifest), db2)))))))"

definition bootstrap_apply ::
    "string \<Rightarrow> string \<Rightarrow> bootstrap_db \<Rightarrow> string \<Rightarrow> discovered_prd list \<Rightarrow> bootstrap_manifest option
     \<Rightarrow> (bootstrap_error + bootstrap_result \<times> bootstrap_db) option" where
  "bootstrap_apply now run db repo discovered manifest =
     (case validate_all_runs db repo of
        Inl e \<Rightarrow> Some (Inl e)
      | Inr () \<Rightarrow>
        (case manifest of
           None \<Rightarrow> Some (Inr (Bootstrap_Absent, db))
         | Some m \<Rightarrow>
           (case lineage_of (runs_of db repo) m of
              Inl e \<Rightarrow> Some (Inl e)
            | Inr Lineage_Applied \<Rightarrow> Some (Inr (Already_Applied, db))
            | Inr Lineage_Fresh \<Rightarrow> apply_manifest now run db repo discovered m None
            | Inr (Lineage_Reapply prior) \<Rightarrow> apply_manifest now run db repo discovered m (Some prior))))"

definition bootstrap_status_of ::
    "bootstrap_db \<Rightarrow> string \<Rightarrow> bootstrap_manifest option \<Rightarrow> bootstrap_error + bootstrap_status" where
  "bootstrap_status_of db repo manifest =
     rbind (validate_all_runs db repo) (\<lambda>_.
     Inr (case rev (runs_of db repo) of
       r # _ \<Rightarrow> \<lparr>bs_state = run_state_text (br_state r), bs_repository = repo, bs_run = Some (br_id r),
          bs_canonical = Some (br_canonical r), bs_count = br_count r\<rparr>
     | [] \<Rightarrow> \<lparr>bs_state = (if manifest \<noteq> None then ''eligible'' else ''absent''), bs_repository = repo, bs_run = None,
          bs_canonical = map_option bm_canonical manifest,
          bs_count = (case manifest of None \<Rightarrow> 0 | Some m \<Rightarrow> length (bm_items m))\<rparr>))"

section \<open>Rolling back\<close>

text \<open>
  \<open>depends_on_target\<close>: the depth-first search over dependencies with one set of visited PRDs, its recursion unrolled
  into the stack of identities that are still to be followed.
\<close>

function reaches_target ::
    "discovered_prd list \<Rightarrow> string set \<Rightarrow> prd_id list \<Rightarrow> (u64 \<times> nat) set \<Rightarrow> bool" where
  "reaches_target discovered targets [] visiting = False"
| "reaches_target discovered targets (d # ds) visiting =
     (case find (\<lambda>p. prd_eq (prd_ident p) d) discovered of
        None \<Rightarrow> reaches_target discovered targets ds visiting
      | Some p \<Rightarrow>
        if prd_path p \<in> targets then True
        else if prd_key (prd_ident p) \<in> visiting then reaches_target discovered targets ds visiting
        else reaches_target discovered targets (prd_dependencies p @ ds) (insert (prd_key (prd_ident p)) visiting))"
  by pat_completeness auto

termination
proof (relation "measures [\<lambda>(discovered, targets, ds, visiting). card ((\<lambda>p. prd_key (prd_ident p)) ` set discovered - visiting),
    \<lambda>(discovered, targets, ds, visiting). length ds]", goal_cases)
  case (4 discovered targets d ds visiting p)
  then have "prd_key (prd_ident p) \<in> (\<lambda>p. prd_key (prd_ident p)) ` set discovered - visiting"
    by (auto dest: find_SomeD)
  then have "card ((\<lambda>p. prd_key (prd_ident p)) ` set discovered - insert (prd_key (prd_ident p)) visiting)
      < card ((\<lambda>p. prd_key (prd_ident p)) ` set discovered - visiting)"
    by (intro psubset_card_mono) auto
  then show ?case by simp
qed simp_all

definition depends_on_target :: "discovered_prd list \<Rightarrow> string set \<Rightarrow> discovered_prd \<Rightarrow> bool" where
  "depends_on_target discovered targets p =
     reaches_target discovered targets (prd_dependencies p) {prd_key (prd_ident p)}"

fun item_blockers ::
    "bootstrap_env \<Rightarrow> backlog_db \<Rightarrow> string \<Rightarrow> (string \<Rightarrow> discovered_prd option) \<Rightarrow> run_item_row list
     \<Rightarrow> bootstrap_error + string list" where
  "item_blockers env db repo by_path [] = Inr []"
| "item_blockers env db repo by_path (j # js) =
     (case by_path (bj_path j) of
        None \<Rightarrow> rbind (item_blockers env db repo by_path js) (\<lambda>bs. Inr ((bj_path j @ '': PRD missing'') # bs))
      | Some p \<Rightarrow>
        (case db_rows db (repo, bj_path j) of
           None \<Rightarrow> Inl (Bootstrap_Storage ''Query returned no rows'')
         | Some r \<Rightarrow>
           (case latest_event_id db (repo, bj_path j) of
              None \<Rightarrow> Inl (Bootstrap_Storage (be_null_column env))
            | Some latest \<Rightarrow>
              rbind (item_blockers env db repo by_path js) (\<lambda>bs.
              Inr ((if prd_content_hash p \<noteq> bj_observed j then [bj_path j @ '': content changed''] else [])
                @ (if row_status r \<noteq> Completed \<or> latest \<noteq> bj_event j
                   then [bj_path j @ '': status or latest event changed''] else []) @ bs)))))"

fun dependent_blockers ::
    "backlog_db \<Rightarrow> string \<Rightarrow> discovered_prd list \<Rightarrow> string set \<Rightarrow> discovered_prd list \<Rightarrow> bootstrap_error + string list" where
  "dependent_blockers db repo discovered targets [] = Inr []"
| "dependent_blockers db repo discovered targets (p # ps) =
     (if prd_path p \<in> targets then dependent_blockers db repo discovered targets ps
      else case db_rows db (repo, prd_path p) of
        None \<Rightarrow> Inl (Bootstrap_Storage ''Query returned no rows'')
      | Some r \<Rightarrow>
        rbind (dependent_blockers db repo discovered targets ps) (\<lambda>bs.
        Inr ((if row_status r \<in> {InProgress, Completed} \<and> depends_on_target discovered targets p
              then [prd_path p @ '': dependent is '' @ show_status (row_status r)] else []) @ bs)))"

definition rollback_item ::
    "string \<Rightarrow> string \<Rightarrow> string \<Rightarrow> string \<Rightarrow> nat \<Rightarrow> string \<Rightarrow> bootstrap_db \<Rightarrow> bootstrap_error + bootstrap_db" where
  "rollback_item now rollback repo actor ordinal path db =
     (let key = (repo, path) in
      case update_status key (\<lambda>r. row_status r = Completed) Pending now (bt_backlog db) of
        None \<Rightarrow> Inl (Bootstrap_Conflict (''rollback write conflict for '' @ path))
      | Some b \<Rightarrow>
        let b' = insert_event key Completed Pending actor now None b in
        Inr (db\<lparr>bt_backlog := b', bt_rollback_items := bt_rollback_items db @ [\<lparr>bl_rollback = rollback,
          bl_ordinal = ordinal, bl_path = path, bl_event = length (db_events b')\<rparr>]\<rparr>))"

fun rollback_items ::
    "string \<Rightarrow> string \<Rightarrow> string \<Rightarrow> string \<Rightarrow> nat \<Rightarrow> string list \<Rightarrow> bootstrap_db \<Rightarrow> bootstrap_error + bootstrap_db" where
  "rollback_items now rollback repo actor ordinal [] db = Inr db"
| "rollback_items now rollback repo actor ordinal (path # paths) db =
     rbind (rollback_item now rollback repo actor ordinal path db)
       (rollback_items now rollback repo actor (Suc ordinal) paths)"

definition rollback_target :: "bootstrap_db \<Rightarrow> string \<Rightarrow> string \<Rightarrow> bootstrap_error + run_row" where
  "rollback_target db repo target =
     (case find (\<lambda>r. br_id r = target) (bt_runs db) of
        None \<Rightarrow> Inl (Rollback_Ineligible ''bootstrap run not found'')
      | Some r \<Rightarrow>
        if br_repository r \<noteq> repo then Inl (Rollback_Ineligible ''bootstrap run belongs to another repository'')
        else if br_state r \<noteq> Run_Applied \<or> br_rollback r \<noteq> None
        then Inl (Rollback_Ineligible ''bootstrap run is not an unrolled-back applied run'')
        else Inr r)"

definition rollback_blockers ::
    "bootstrap_env \<Rightarrow> backlog_db \<Rightarrow> string \<Rightarrow> discovered_prd list \<Rightarrow> run_item_row list \<Rightarrow> bootstrap_error + unit" where
  "rollback_blockers env db repo discovered items =
     rbind (item_blockers env db repo (collect_map (map (\<lambda>p. (prd_path p, p)) discovered)) items) (\<lambda>bs.
     rbind (dependent_blockers db repo discovered (bj_path ` set items) discovered) (\<lambda>ds.
     ensure (bs @ ds = []) (Rollback_Ineligible (join ''; '' (sort (bs @ ds))))))"

definition insert_rollback ::
    "string \<Rightarrow> string \<Rightarrow> string \<Rightarrow> string \<Rightarrow> string \<Rightarrow> string \<Rightarrow> nat \<Rightarrow> bootstrap_db \<Rightarrow> bootstrap_error + bootstrap_db" where
  "insert_rollback now rollback target repo actor reason item_count db =
     rbind (unique_sql (\<not> list_ex (\<lambda>k. bk_id k = rollback) (bt_rollbacks db))
       ''backlog_bootstrap_rollbacks.rollback_run_id'') (\<lambda>_.
     rbind (unique_sql (\<not> list_ex (\<lambda>k. bk_run k = target) (bt_rollbacks db))
       ''backlog_bootstrap_rollbacks.bootstrap_run_id'') (\<lambda>_.
     Inr (db\<lparr>bt_rollbacks := bt_rollbacks db @ [\<lparr>bk_id = rollback, bk_run = target, bk_repository = repo,
       bk_actor = actor, bk_reason = reason, bk_count = item_count, bk_created_at = now\<rparr>]\<rparr>)))"

definition mark_rolled_back :: "string \<Rightarrow> string \<Rightarrow> string \<Rightarrow> bootstrap_db \<Rightarrow> bootstrap_error + bootstrap_db" where
  "mark_rolled_back now rollback target db =
     rbind (unique_sql (\<not> list_ex (\<lambda>r. br_id r \<noteq> target \<and> br_rollback r = Some rollback) (bt_runs db))
       ''backlog_bootstrap_runs.rollback_run_id'') (\<lambda>_.
     Inr (db\<lparr>bt_runs := map (\<lambda>r. if br_id r = target
       then r\<lparr>br_state := Run_Rolled_Back, br_rolled_back_at := Some now, br_rollback := Some rollback,
              br_updated_at := now\<rparr> else r) (bt_runs db)\<rparr>))"

definition bootstrap_rollback ::
    "bootstrap_env \<Rightarrow> string \<Rightarrow> string \<Rightarrow> bootstrap_db \<Rightarrow> string \<Rightarrow> discovered_prd list \<Rightarrow> string \<Rightarrow> string \<Rightarrow> string
     \<Rightarrow> bootstrap_error + (string \<times> nat) \<times> bootstrap_db" where
  "bootstrap_rollback env now rollback db repo discovered target actor reason =
     rbind (ensure (trim actor \<noteq> [] \<and> trim reason \<noteq> [])
       (Rollback_Ineligible ''actor and reason must be non-empty'')) (\<lambda>_.
     rbind (validate_all_runs db repo) (\<lambda>_.
     rbind (rollback_target db repo target) (\<lambda>r.
     let items = sort_key bj_ordinal (items_of_run db target) in
     rbind (ensure (length items = br_count r) (Audit_Corrupt ''run item count mismatch'')) (\<lambda>_.
     rbind (rollback_blockers env (bt_backlog db) repo discovered items) (\<lambda>_.
     rbind (insert_rollback now rollback target repo actor reason (br_count r) db) (\<lambda>db1.
     rbind (rollback_items now rollback repo actor 1 (rev (map bj_path items)) db1) (\<lambda>db2.
     rbind (mark_rolled_back now rollback target db2) (\<lambda>db3.
     Inr ((rollback, br_count r), db3)))))))))"

end
