(* ===== verification/Review_Types.thy ===== *)
theory Review_Types
  imports Prelude
begin

text \<open>
  The data of the review crate, \<open>crates/familiar-ai-review/src/types.rs\<close> and
  \<open>expected_files.rs\<close>: git changes, scope classes, decisions, policies and findings, review
  findings and results. The enums that the code orders (\<open>derive(Ord)\<close>) are instances of \<open>linorder\<close>
  through their position in the declaration.
\<close>

section \<open>Changes and scope vocabulary\<close>

datatype git_change_kind = Added | Modified | Deleted | Renamed | Copied | TypeChanged | Unmerged

datatype scope_file_class =
  OrdinarySource | DependencyManifest | DependencyLockfile | Migration | Configuration | Test
| GeneratedArtifact | Ambiguous

datatype scope_decision =
  AllowedChange | JustifiedExpectedFileChange | ProhibitedChange | UndeclaredScopeExpansion
| AmbiguousHumanReview

datatype scope_rule_source = BuiltIn | From_Configuration | From_ExpectedFiles | EvidenceValidation

datatype scope_disposition = Contained | Broadened | Scope_HumanReviewRequired

datatype scope_declaration_mode = ExpectedOrConfigured | ExpectedRequired

datatype scope_class_policy = Deny | HumanReview | AllowWhenExpected | AllowWhenConfigured | Allow

datatype match_kind = ExactFile | Directory

definition kind_rank :: "git_change_kind \<Rightarrow> nat" where
  "kind_rank k = (case k of Added \<Rightarrow> 0 | Modified \<Rightarrow> 1 | Deleted \<Rightarrow> 2 | Renamed \<Rightarrow> 3 | Copied \<Rightarrow> 4
     | TypeChanged \<Rightarrow> 5 | Unmerged \<Rightarrow> 6)"

definition class_rank :: "scope_file_class \<Rightarrow> nat" where
  "class_rank c = (case c of OrdinarySource \<Rightarrow> 0 | DependencyManifest \<Rightarrow> 1 | DependencyLockfile \<Rightarrow> 2
     | Migration \<Rightarrow> 3 | Configuration \<Rightarrow> 4 | Test \<Rightarrow> 5 | GeneratedArtifact \<Rightarrow> 6 | Ambiguous \<Rightarrow> 7)"

lemma kind_rank_inj: "kind_rank a = kind_rank b \<Longrightarrow> a = b"
  by (cases a; cases b) (simp_all add: kind_rank_def)

lemma class_rank_inj: "class_rank a = class_rank b \<Longrightarrow> a = b"
  by (cases a; cases b) (simp_all add: class_rank_def)

instantiation git_change_kind :: linorder
begin

definition less_eq_git_change_kind :: "git_change_kind \<Rightarrow> git_change_kind \<Rightarrow> bool" where
  "less_eq_git_change_kind a b \<longleftrightarrow> kind_rank a \<le> kind_rank b"

definition less_git_change_kind :: "git_change_kind \<Rightarrow> git_change_kind \<Rightarrow> bool" where
  "less_git_change_kind a b \<longleftrightarrow> kind_rank a < kind_rank b"

instance
  by standard (auto simp: less_eq_git_change_kind_def less_git_change_kind_def intro: kind_rank_inj)

end

instantiation scope_file_class :: linorder
begin

definition less_eq_scope_file_class :: "scope_file_class \<Rightarrow> scope_file_class \<Rightarrow> bool" where
  "less_eq_scope_file_class a b \<longleftrightarrow> class_rank a \<le> class_rank b"

definition less_scope_file_class :: "scope_file_class \<Rightarrow> scope_file_class \<Rightarrow> bool" where
  "less_scope_file_class a b \<longleftrightarrow> class_rank a < class_rank b"

instance
  by standard (auto simp: less_eq_scope_file_class_def less_scope_file_class_def intro: class_rank_inj)

end

record line_range =
  lr_start :: nat
  lr_end :: nat

record changed_file =
  cf_path :: string
  cf_kind :: git_change_kind
  cf_old_path :: "string option"
  cf_line_summary :: "line_range list"

section \<open>Scope policy and evaluation\<close>

record expected_file_entry =
  ef_source_line :: nat
  ef_bullet_text :: string
  ef_normalized :: string
  ef_match_kind :: match_kind

record scope_path_entry =
  sp_normalized :: string
  sp_match_kind :: match_kind

record expected_file_match =
  em_normalized :: string
  em_source_line :: nat
  em_match_kind :: match_kind

record file_class_policies =
  fp_dependency_manifest :: scope_class_policy
  fp_dependency_lockfile :: scope_class_policy
  fp_migration :: scope_class_policy
  fp_configuration :: scope_class_policy
  fp_test :: scope_class_policy
  fp_generated_artifact :: scope_class_policy

definition default_file_class_policies :: file_class_policies where
  "default_file_class_policies =
     \<lparr>fp_dependency_manifest = HumanReview, fp_dependency_lockfile = HumanReview,
      fp_migration = HumanReview, fp_configuration = HumanReview, fp_test = AllowWhenExpected,
      fp_generated_artifact = HumanReview\<rparr>"

datatype prohibited_rule_kind = Path_Rule scope_path_entry | FileClass_Rule scope_file_class

record prohibited_rule =
  pr_rule_id :: string
  pr_rule :: prohibited_rule_kind
  pr_change_kinds :: "git_change_kind list"
  pr_description :: "string option"

record classification_rule =
  cr_rule_id :: string
  cr_class :: scope_file_class
  cr_entry :: scope_path_entry
  cr_source :: scope_rule_source
  cr_precedence :: "nat option"

record scope_snapshot =
  ss_schema_version :: string
  ss_prd_path :: string
  ss_prd_content_hash :: string
  ss_contract :: "expected_file_entry list"
  ss_allowed_paths :: "scope_path_entry list"
  ss_allow_expansion :: bool
  ss_declaration_mode :: scope_declaration_mode
  ss_prohibited_rules :: "prohibited_rule list"
  ss_class_policies :: file_class_policies
  ss_classification_rules :: "classification_rule list"
  ss_builtin_rules_version :: string
  ss_baseline_revision :: string
  ss_config_provenance :: string
  ss_snapshot_hash :: string

record scope_finding =
  sf_finding_id :: string
  sf_change_id :: string
  sf_path :: string
  sf_old_path :: "string option"
  sf_change_kind :: git_change_kind
  sf_file_class :: scope_file_class
  sf_decision :: scope_decision
  sf_rule_id :: string
  sf_rule_source :: scope_rule_source
  sf_rule_detail :: string
  sf_expected_match :: "expected_file_match option"
  sf_allowed_match :: "string option"
  sf_prohibited_match :: "string option"
  sf_snapshot_hash :: string

record scope_evaluation =
  se_findings :: "scope_finding list"
  se_disposition :: scope_disposition

record scope_check_result =
  sc_added :: "string list"
  sc_modified :: "string list"
  sc_deleted :: "string list"
  sc_renamed :: "(string \<times> string) list"
  sc_disposition :: scope_disposition
  sc_findings :: "scope_finding list"
  sc_snapshot_hash :: string
  sc_phase :: string

section \<open>Review findings and results\<close>

datatype finding_category =
  CorrectnessDefect | InvariantViolation | ArchitecturalDrift | SecurityIssue | TestGap
| MaintainabilityIssue | ScopeViolation | UnverifiableClaim

text \<open>The declaration is most severe first, so a severity at or above a floor is \<open>\<le>\<close> it.\<close>

datatype finding_severity = Critical | High | Medium | Low | Informational

definition severity_rank :: "finding_severity \<Rightarrow> nat" where
  "severity_rank s =
     (case s of Critical \<Rightarrow> 0 | High \<Rightarrow> 1 | Medium \<Rightarrow> 2 | Low \<Rightarrow> 3 | Informational \<Rightarrow> 4)"

lemma severity_rank_inj: "severity_rank a = severity_rank b \<Longrightarrow> a = b"
  by (cases a; cases b) (simp_all add: severity_rank_def)

instantiation finding_severity :: linorder
begin

definition less_eq_finding_severity :: "finding_severity \<Rightarrow> finding_severity \<Rightarrow> bool" where
  "less_eq_finding_severity a b \<longleftrightarrow> severity_rank a \<le> severity_rank b"

definition less_finding_severity :: "finding_severity \<Rightarrow> finding_severity \<Rightarrow> bool" where
  "less_finding_severity a b \<longleftrightarrow> severity_rank a < severity_rank b"

instance
  by standard (auto simp: less_eq_finding_severity_def less_finding_severity_def intro: severity_rank_inj)

end

datatype finding_status = Open | Resolved | Superseded | AcceptedRisk | Invalid

datatype verification_status =
  Passed | Failed | EnvironmentDenied | TimedOut | Signaled | Unavailable | Inconclusive | Skipped

datatype review_disposition =
  Review_Pending | RemediationRequired | ReadyForHumanApproval | Review_HumanReviewRequired | Rejected

record evidence_ref =
  er_content_hash :: string
  er_media_type :: string
  er_byte_size :: u64
  er_repository :: string
  er_revision :: string
  er_storage_ref :: string
  er_truncated :: bool
  er_omitted_bytes :: u64

datatype finding_evidence =
  FileRange string line_range
| DiffHunk string string
| Verification string evidence_ref
| Invariant string string string
| Contract string string string
| Artifact evidence_ref string

record review_finding =
  rf_finding_id :: string
  rf_category :: finding_category
  rf_severity :: finding_severity
  rf_blocking :: bool
  rf_title :: string
  rf_claim :: string
  rf_evidence :: "finding_evidence list"
  rf_remediation :: string
  rf_status :: finding_status
  rf_supersedes :: "string option"
  rf_acceptance_criterion_id :: "string option"

section \<open>Agents and their usage\<close>

text \<open>A \<open>BTreeMap\<close> of strings is the list of its pairs in key order.\<close>

type_synonym string_map = "(string \<times> string) list"

definition btree_of :: "(string \<times> string) list \<Rightarrow> string_map" where
  "btree_of ps = map (\<lambda>k. (k, case collect_map ps k of Some v \<Rightarrow> v | None \<Rightarrow> [])) (sorted_keys ps)"

datatype agent_role = Role_Implementation | Role_Review | Role_Remediation

record agent_assignment =
  aa_adapter_id :: string
  aa_agent_id :: string
  aa_provider :: "string option"
  aa_requested_model :: "string option"
  aa_role :: agent_role
  aa_session_id :: "string option"

record agent_observation =
  ao_assignment :: agent_assignment
  ao_agent_version :: "string option"
  ao_reported_model :: "string option"
  ao_unavailable_fields :: string_map

record execution_usage =
  us_input_tokens :: "u64 option"
  us_output_tokens :: "u64 option"
  us_cached_tokens :: "u64 option"
  us_total_tokens :: "u64 option"
  us_estimated_cost_microusd :: "u64 option"
  us_pricing_provenance :: "string option"
  us_unavailable_fields :: string_map

text \<open>An amount that is unknown on one side is unknown in the sum; an overflow is the outer \<open>None\<close>.\<close>

definition add_known :: "u64 option \<Rightarrow> u64 option \<Rightarrow> u64 option option" where
  "add_known a b =
     (case a of None \<Rightarrow> Some None
      | Some x \<Rightarrow> (case b of None \<Rightarrow> Some None | Some y \<Rightarrow> map_option Some (checked_add64 x y)))"

definition usage_checked_add :: "execution_usage \<Rightarrow> execution_usage \<Rightarrow> execution_usage option" where
  "usage_checked_add a b =
     (case (add_known (us_input_tokens a) (us_input_tokens b),
            add_known (us_output_tokens a) (us_output_tokens b),
            add_known (us_cached_tokens a) (us_cached_tokens b),
            add_known (us_total_tokens a) (us_total_tokens b),
            add_known (us_estimated_cost_microusd a) (us_estimated_cost_microusd b)) of
        (Some inp, Some outp, Some cached, Some tot, Some cost) \<Rightarrow>
          Some \<lparr>us_input_tokens = inp, us_output_tokens = outp, us_cached_tokens = cached,
            us_total_tokens = tot, us_estimated_cost_microusd = cost,
            us_pricing_provenance =
              (if us_pricing_provenance a = us_pricing_provenance b then us_pricing_provenance a else None),
            us_unavailable_fields = btree_of (us_unavailable_fields a @ us_unavailable_fields b)\<rparr>
      | _ \<Rightarrow> None)"

record isolation_evidence =
  ie_adapter_id :: string
  ie_fresh_process :: bool
  ie_detail :: string

datatype independence_kind = IndependentProviderOrModel | IsolatedSameModelFallback

record reviewer_independence =
  ri_kind :: independence_kind
  ri_evidence :: "string list"

section \<open>Requests and results\<close>

record review_task =
  tk_task_id :: string
  tk_objective :: string
  tk_acceptance_criteria :: "string list"
  tk_base_revision :: string
  tk_allowed_paths :: "string list"
  tk_prohibited_changes :: "string list"
  tk_verification_plan_id :: string

record bounded_document =
  bd_source :: string
  bd_content :: string
  bd_content_hash :: string
  bd_selection_reason :: string
  bd_estimated_tokens :: u64

record bounded_invariant =
  bi_source :: string
  bi_section :: string
  bi_content :: string
  bi_content_hash :: string
  bi_selection_reason :: string
  bi_estimated_tokens :: u64

record verification_evidence =
  ve_check_id :: string
  ve_argv :: "string list"
  ve_working_directory :: string
  ve_environment_identity :: string_map
  ve_tool_identity :: "string option"
  ve_tested_identity :: string
  ve_started_at :: string
  ve_ended_at :: string
  ve_duration_ms :: u64
  ve_exit_code :: "int option"
  ve_signal :: "int option"
  ve_status :: verification_status
  ve_required :: bool
  ve_summary :: string
  ve_stdout :: "evidence_ref option"
  ve_stderr :: "evidence_ref option"
  ve_truncated :: bool

record finding_reference =
  fr_finding_id :: string
  fr_status :: finding_status
  fr_claim :: string
  fr_category :: finding_category
  fr_evidence :: "finding_evidence list"

record package_budget =
  pb_max_bytes :: u64
  pb_max_estimated_tokens :: u64

record package_omission =
  po_source :: string
  po_content_hash :: string
  po_byte_size :: u64
  po_reason :: string
  po_retained_ref :: "evidence_ref option"

record package_manifest =
  pm_manifest_hash :: string
  pm_diff_hash :: string
  pm_included_sources :: "string list"
  pm_omissions :: "package_omission list"
  pm_total_bytes :: u64
  pm_estimated_tokens :: u64

record review_request =
  rq_review_id :: string
  rq_task :: review_task
  rq_implementation :: agent_assignment
  rq_reviewer :: agent_assignment
  rq_base_revision :: string
  rq_candidate_revision :: "string option"
  rq_changed_files :: "changed_file list"
  rq_diff :: evidence_ref
  rq_disclosed_diff :: string
  rq_contracts :: "bounded_document list"
  rq_invariants :: "bounded_invariant list"
  rq_verification :: "verification_evidence list"
  rq_prior_findings :: "finding_reference list"
  rq_budget :: package_budget
  rq_manifest :: package_manifest

record review_result =
  rr_review_id :: string
  rr_reviewer :: agent_observation
  rr_started_at :: string
  rr_ended_at :: string
  rr_duration_ms :: u64
  rr_findings :: "review_finding list"
  rr_reviewed_manifest_hash :: string
  rr_usage :: execution_usage
  rr_disposition :: review_disposition
  rr_unavailable_fields :: string_map

record remediation_check =
  rc_check_id :: string
  rc_description :: string

record remediation_budget =
  rb_max_tokens :: "u64 option"
  rb_max_cost_microusd :: "u64 option"
  rb_max_duration_ms :: u64

record scope_rule_summary =
  rs_policy_snapshot_hash :: string
  rs_authorized_paths :: "scope_path_entry list"
  rs_expected_files :: "expected_file_entry list"
  rs_prohibited_rules :: "prohibited_rule list"
  rs_class_policies :: file_class_policies
  rs_blocking_findings :: "scope_finding list"

record remediation_request =
  rm_remediation_id :: string
  rm_cycle_id :: string
  rm_task :: review_task
  rm_implementation :: agent_assignment
  rm_base_revision :: string
  rm_allowed_paths :: "string list"
  rm_prohibited_paths :: "string list"
  rm_blocking_findings :: "review_finding list"
  rm_relevant_diff :: evidence_ref
  rm_relevant_contracts :: "bounded_document list"
  rm_relevant_invariants :: "bounded_invariant list"
  rm_verification_failures :: "verification_evidence list"
  rm_acceptance_checks :: "remediation_check list"
  rm_budget :: remediation_budget
  rm_scope_rules :: "scope_rule_summary option"

record execution_observation =
  eo_exit_code :: "int option"
  eo_signal :: "int option"
  eo_outcome :: string

record finding_resolution =
  fn_finding_id :: string
  fn_claimed_outcome :: string
  fn_evidence :: "finding_evidence list"
  fn_reviewer_status :: "finding_status option"

record remediation_result =
  rx_remediation_id :: string
  rx_implementation :: agent_observation
  rx_started_at :: string
  rx_ended_at :: string
  rx_duration_ms :: u64
  rx_execution :: execution_observation
  rx_addressed_findings :: "finding_resolution list"
  rx_changed_files :: "changed_file list"
  rx_resulting_diff :: evidence_ref
  rx_scope_check :: scope_check_result
  rx_usage :: execution_usage
  rx_unavailable_fields :: string_map

section \<open>Facts on usage\<close>

lemma add_known_Some:
  "add_known a b = Some c \<Longrightarrow>
     (case c of None \<Rightarrow> a = None \<or> b = None
      | Some n \<Rightarrow> \<exists>x y. a = Some x \<and> b = Some y \<and> unat n = unat x + unat y)"
  by (auto simp: add_known_def checked_add64_Some_iff split: option.splits)

end
