(* ===== verification/Expected_Files.thy ===== *)
theory Expected_Files
  imports Review_Types
begin

text \<open>
  The Expected Files contract of a PRD, \<open>crates/familiar-ai-review/src/expected_files.rs\<close>: the
  closed path grammar (\<open>normalize_scope_path\<close>), the section parser (\<open>parse_expected_files\<close>) and the
  match of an entry with a path, whose contract is the locale \<open>path_entry\<close>.
\<close>

section \<open>Paths\<close>

datatype scope_path_rule =
  Empty | AbsolutePath | Backslash | Whitespace | HomeExpansion | VariableExpansion | UriForm
| UnsupportedGlob | InvalidComponent

definition glob_chars :: "char set" where
  "glob_chars = {CHR ''*'', CHR ''?'', CHR 0x7B, CHR 0x7D, CHR ''['', CHR '']''}"

definition split_kind :: "string \<Rightarrow> string \<times> match_kind" where
  "split_kind expression =
     (case strip_suffix expression ''/**'' of
        Some prefix \<Rightarrow> (prefix, Directory)
      | None \<Rightarrow>
        (case strip_suffix expression ''/'' of
           Some prefix \<Rightarrow> (prefix, Directory)
         | None \<Rightarrow> (expression, ExactFile)))"

definition normalize_scope_path :: "string \<Rightarrow> scope_path_rule + string \<times> match_kind" where
  "normalize_scope_path expression =
     (if expression = [] then Inl Empty
      else if starts_with expression [slash] then Inl AbsolutePath
      else if backslash \<in> set expression then Inl Backslash
      else if has_white_space expression then Inl Whitespace
      else if starts_with expression ''~'' then Inl HomeExpansion
      else if CHR ''$'' \<in> set expression then Inl VariableExpansion
      else if CHR '':'' \<in> set expression then Inl UriForm
      else let (body, kind) = split_kind expression in
        if body = [] then Inl InvalidComponent
        else if set body \<inter> glob_chars \<noteq> {} then Inl UnsupportedGlob
        else if has_bad_component body then Inl InvalidComponent
        else Inr (case kind of ExactFile \<Rightarrow> body | Directory \<Rightarrow> body @ [slash], kind))"

section \<open>The normal form\<close>

definition normal_path :: "string \<Rightarrow> match_kind \<Rightarrow> bool" where
  "normal_path n k \<longleftrightarrow>
     (\<exists>body. n = (case k of ExactFile \<Rightarrow> body | Directory \<Rightarrow> body @ [slash])
        \<and> body \<noteq> [] \<and> \<not> has_bad_component body \<and> set body \<inter> glob_chars = {})
     \<and> \<not> starts_with n [slash] \<and> \<not> starts_with n ''~'' \<and> \<not> has_white_space n
     \<and> set n \<inter> {backslash, CHR ''$'', CHR '':''} = {}"

lemma contains_sub_prefix: "contains_sub p x \<Longrightarrow> contains_sub (p @ r) x"
  unfolding contains_sub_def
proof (induction p)
  case Nil
  then show ?case by (cases r) (auto split: if_splits)
next
  case (Cons c cs)
  show ?case
  proof (cases "starts_with (c # cs) x")
    case True
    then have "starts_with ((c # cs) @ r) x" by (auto simp: starts_with_iff) (metis Cons_eq_appendI append.assoc)
    then show ?thesis by simp
  next
    case False
    with Cons show ?thesis by auto
  qed
qed

lemma has_white_space_prefix: "has_white_space p \<Longrightarrow> has_white_space (p @ r)"
  unfolding has_white_space_def list_ex_iff using contains_sub_prefix by blast

lemma split_kind_cases:
  assumes "split_kind e = (body, k)"
  obtains (star) "e = body @ ''/**''" and "k = Directory"
  | (dir) "e = body @ [slash]" and "k = Directory"
  | (exact) "e = body" and "k = ExactFile"
proof (cases "strip_suffix e ''/**''")
  case (Some a)
  then show ?thesis using assms star by (auto simp: split_kind_def str_simps)
next
  case None
  note n1 = this
  show ?thesis
  proof (cases "strip_suffix e ''/''")
    case (Some a)
    then show ?thesis using assms n1 dir by (auto simp: split_kind_def str_simps)
  next
    case None
    then show ?thesis using assms n1 exact by (auto simp: split_kind_def)
  qed
qed

lemma split_kind_directory: "split_kind (body @ [slash]) = (body, Directory)"
proof -
  have "strip_suffix (body @ [slash]) ''/**'' = None"
    by (auto simp: strip_suffix_def ends_with_iff dest: arg_cong [of _ _ last])
  then show ?thesis by (simp add: split_kind_def)
qed

lemma normalize_scope_path_Inr:
  assumes "normalize_scope_path e = Inr (n, k)"
  shows "(\<exists>r. e = n @ r) \<and> normal_path n k"
proof -
  obtain body k' where sk: "split_kind e = (body, k')" by fastforce
  from assms sk have k': "k' = k" and n: "n = (case k of ExactFile \<Rightarrow> body | Directory \<Rightarrow> body @ [slash])"
    and b: "body \<noteq> []" "set body \<inter> glob_chars = {}" "\<not> has_bad_component body"
    and e: "\<not> starts_with e [slash]" "\<not> starts_with e ''~''" "\<not> has_white_space e"
      "set e \<inter> {backslash, CHR ''$'', CHR '':''} = {}"
    by (auto simp: normalize_scope_path_def split: if_splits)
  from sk n k' have pre: "\<exists>r. e = n @ r"
    by (cases rule: split_kind_cases) auto
  then obtain r where r: "e = n @ r" by blast
  have "\<not> starts_with n [slash]" "\<not> starts_with n ''~''"
    using e(1,2) unfolding r by (auto simp: starts_with_iff)
  moreover have "\<not> has_white_space n" using e(3) has_white_space_prefix unfolding r by blast
  moreover have "set n \<inter> {backslash, CHR ''$'', CHR '':''} = {}" using e(4) unfolding r by auto
  ultimately show ?thesis using pre n b unfolding normal_path_def by blast
qed

lemma normal_path_fixed:
  assumes "normal_path n k"
  shows "normalize_scope_path n = Inr (n, k) \<or> (k = ExactFile \<and> ends_with n [slash])"
proof -
  obtain body where n: "n = (case k of ExactFile \<Rightarrow> body | Directory \<Rightarrow> body @ [slash])"
    and b: "body \<noteq> []" "\<not> has_bad_component body" "set body \<inter> glob_chars = {}"
    and f: "\<not> starts_with n [slash]" "\<not> starts_with n ''~''" "\<not> has_white_space n"
      "set n \<inter> {backslash, CHR ''$'', CHR '':''} = {}"
    using assms unfolding normal_path_def by blast
  show ?thesis
  proof (cases k)
    case Directory
    with n b f show ?thesis by (simp add: normalize_scope_path_def split_kind_directory)
  next
    case ExactFile
    have "split_kind body = (body, ExactFile)" if "\<not> ends_with body [slash]"
    proof -
      have "strip_suffix body ''/**'' = None"
        using b(3) by (auto simp: strip_suffix_def ends_with_iff glob_chars_def)
      then show ?thesis using that by (simp add: split_kind_def strip_suffix_def)
    qed
    with ExactFile n b f show ?thesis by (auto simp: normalize_scope_path_def)
  qed
qed

lemma has_bad_component_trailing: "ends_with s [slash] \<Longrightarrow> has_bad_component s"
  by (auto simp: ends_with_iff)

lemma normal_path_kind: "normal_path n k \<Longrightarrow> k = Directory \<longleftrightarrow> ends_with n [slash]"
  unfolding normal_path_def using has_bad_component_trailing
  by (cases k) (auto simp: ends_with_iff)

lemma normal_path_iff: "normal_path n k \<longleftrightarrow> normalize_scope_path n = Inr (n, k)"
  using normal_path_fixed [of n k] normal_path_kind [of n k] normalize_scope_path_Inr [of n n k]
  by (cases k) auto

lemma normalize_idem:
  "normalize_scope_path e = Inr (n, k) \<Longrightarrow> normalize_scope_path n = Inr (n, k)"
  using normalize_scope_path_Inr normal_path_iff by blast

lemma normalize_kind:
  "normalize_scope_path e = Inr (n, k) \<Longrightarrow> k = Directory \<longleftrightarrow> ends_with n [slash]"
  using normalize_scope_path_Inr normal_path_kind by blast

section \<open>Matching\<close>

text \<open>The code has the same \<open>matches\<close> on two entry types; both interpret this contract.\<close>

locale path_entry =
  fixes norm :: "'e \<Rightarrow> string" and kind :: "'e \<Rightarrow> match_kind" and matches :: "'e \<Rightarrow> string \<Rightarrow> bool"
  assumes matches_exact: "kind e = ExactFile \<Longrightarrow> matches e p \<longleftrightarrow> p = norm e"
    and matches_directory: "kind e = Directory \<Longrightarrow> matches e p \<longleftrightarrow> (\<exists>r. r \<noteq> [] \<and> p = norm e @ r)"
begin

lemma matches_prefix: "matches e p \<Longrightarrow> starts_with p (norm e)"
  by (cases "kind e") (auto simp: matches_exact matches_directory starts_with_iff)

lemma directory_irreflexive: "kind e = Directory \<Longrightarrow> \<not> matches e (norm e)"
  by (simp add: matches_directory)

lemma matches_trans:
  "\<lbrakk>kind e = Directory; matches e (norm f); matches f p\<rbrakk> \<Longrightarrow> matches e p"
  by (cases "kind f") (auto simp: matches_exact matches_directory)

text \<open>Two entries that match one path are equal or one lies inside the other.\<close>

lemma overlap_nested:
  assumes "matches e p" and "matches f p" and "norm e \<noteq> norm f"
  shows "(kind e = Directory \<and> matches e (norm f)) \<or> (kind f = Directory \<and> matches f (norm e))"
proof -
  obtain r s where p: "p = norm e @ r" "p = norm f @ s"
    using assms(1,2) matches_prefix by (meson starts_with_iff)
  then obtain us where us: "norm e = norm f @ us \<or> norm f = norm e @ us"
    by (metis append_eq_append_conv2)
  with assms(3) have ne: "us \<noteq> []" by auto
  from us show ?thesis
  proof
    assume e: "norm e = norm f @ us"
    then have "kind f = Directory"
      using ne assms(1,2) p by (cases "kind f") (auto simp: matches_exact)
    with e ne show ?thesis by (auto simp: matches_directory)
  next
    assume f: "norm f = norm e @ us"
    then have "kind e = Directory"
      using ne assms(1,2) p by (cases "kind e") (auto simp: matches_exact)
    with f ne show ?thesis by (auto simp: matches_directory)
  qed
qed

text \<open>A list without duplicates and without an entry inside another matches a path at most once.\<close>

lemma at_most_one_match:
  assumes "distinct (map norm es)"
    and "\<forall>e \<in> set es. \<forall>f \<in> set es. kind e = Directory \<longrightarrow> \<not> matches e (norm f)"
    and "e \<in> set es" "f \<in> set es" "matches e p" "matches f p"
  shows "e = f"
proof (rule ccontr)
  assume "e \<noteq> f"
  with assms(1,3,4) have "norm e \<noteq> norm f" by (auto simp: distinct_map inj_on_def)
  from overlap_nested [OF assms(5,6) this] assms(2-4) show False by blast
qed

end

definition entry_matches :: "expected_file_entry \<Rightarrow> string \<Rightarrow> bool" where
  "entry_matches e path =
     (case ef_match_kind e of
        ExactFile \<Rightarrow> path = ef_normalized e
      | Directory \<Rightarrow> starts_with path (ef_normalized e) \<and> length (ef_normalized e) < length path)"

definition path_matches :: "scope_path_entry \<Rightarrow> string \<Rightarrow> bool" where
  "path_matches e path =
     (case sp_match_kind e of
        ExactFile \<Rightarrow> path = sp_normalized e
      | Directory \<Rightarrow> starts_with path (sp_normalized e) \<and> length (sp_normalized e) < length path)"

interpretation expected_entry: path_entry ef_normalized ef_match_kind entry_matches
  by unfold_locales (auto simp: entry_matches_def starts_with_iff)

interpretation configured_entry: path_entry sp_normalized sp_match_kind path_matches
  by unfold_locales (auto simp: path_matches_def starts_with_iff)

section \<open>The section parser\<close>

datatype expected_files_error =
  MissingHeading
| DuplicateHeading nat
| MissingBulletList
| NoPathExpression nat
| UnclosedCodeSpan nat
| EmptyExpression nat
| UnsupportedExpression nat string scope_path_rule
| DuplicateExpression nat string

definition is_heading :: "string \<Rightarrow> bool" where
  "is_heading line =
     (case strip_prefix line ''## '' of None \<Rightarrow> False | Some t \<Rightarrow> trim t = ''Expected Files'')"

fun find_heading :: "nat \<Rightarrow> string list \<Rightarrow> nat option \<Rightarrow> expected_files_error + nat option" where
  "find_heading i [] found = Inr found"
| "find_heading i (l # ls) found =
     (if is_heading l
      then (if found \<noteq> None then Inl (DuplicateHeading (i + 1)) else find_heading (Suc i) ls (Some i))
      else find_heading (Suc i) ls found)"

definition section_end :: "string \<Rightarrow> bool" where
  "section_end line \<longleftrightarrow> (starts_with line ''# '' \<or> starts_with line ''## '') \<and> \<not> starts_with line ''###''"

definition is_bullet :: "string \<Rightarrow> bool" where
  "is_bullet line \<longleftrightarrow> starts_with line ''- ''"

definition continues_block :: "string \<Rightarrow> bool" where
  "continues_block line \<longleftrightarrow> \<not> is_bullet line \<and> trim line \<noteq> []"

datatype span_error = No_Span | Unclosed_Span

definition first_code_span :: "string \<Rightarrow> span_error + string" where
  "first_code_span block =
     (case find_sub [backtick] block of
        None \<Rightarrow> Inl No_Span
      | Some i \<Rightarrow>
        let rest = drop (i + 1) block in
        (case find_sub [backtick] rest of
           None \<Rightarrow> Inl Unclosed_Span
         | Some j \<Rightarrow> Inr (take j rest)))"

definition span_error_at :: "nat \<Rightarrow> span_error \<Rightarrow> expected_files_error" where
  "span_error_at n e = (case e of No_Span \<Rightarrow> NoPathExpression n | Unclosed_Span \<Rightarrow> UnclosedCodeSpan n)"

definition path_rule_at :: "nat \<Rightarrow> string \<Rightarrow> scope_path_rule \<Rightarrow> expected_files_error" where
  "path_rule_at n expression rule =
     (case rule of Empty \<Rightarrow> EmptyExpression n | _ \<Rightarrow> UnsupportedExpression n expression rule)"

text \<open>One bullet: its line number, its first line and its block.\<close>

definition parse_bullet ::
    "nat \<Rightarrow> string \<Rightarrow> string \<Rightarrow> expected_file_entry list \<Rightarrow> expected_files_error + expected_file_entry" where
  "parse_bullet n line block entries =
     rbind (map_err (span_error_at n) (first_code_span block)) (\<lambda>expression.
     if expression = [] then Inl (EmptyExpression n)
     else rbind (map_err (path_rule_at n expression) (normalize_scope_path expression))
       (\<lambda>(normalized, kind).
         if list_ex (\<lambda>e. ef_normalized e = normalized) entries
         then Inl (DuplicateExpression n normalized)
         else Inr \<lparr>ef_source_line = n, ef_bullet_text = line, ef_normalized = normalized,
                   ef_match_kind = kind\<rparr>))"

function parse_bullets ::
    "nat \<Rightarrow> string list \<Rightarrow> expected_file_entry list \<Rightarrow> expected_files_error + expected_file_entry list" where
  "parse_bullets i [] entries = Inr entries"
| "parse_bullets i (l # ls) entries =
     (if \<not> is_bullet l then parse_bullets (Suc i) ls entries
      else let more = takeWhile continues_block ls in
        rbind (parse_bullet (i + 1) l (join [nl] (l # more)) entries)
          (\<lambda>e. parse_bullets (Suc i + length more) (drop (length more) ls) (entries @ [e])))"
  by pat_completeness auto
termination by (relation "measure (\<lambda>(i, ls, entries). length ls)") auto

definition parse_expected_files :: "string \<Rightarrow> expected_files_error + expected_file_entry list" where
  "parse_expected_files content =
     (let ls = str_lines content in
      rbind (find_heading 0 ls None) (\<lambda>heading.
      rbind (ok_or MissingHeading heading) (\<lambda>start.
      rbind (parse_bullets (start + 1)
               (takeWhile (\<lambda>l. \<not> section_end l) (drop (start + 1) ls)) []) (\<lambda>entries.
      if entries = [] then Inl MissingBulletList else Inr entries))))"

section \<open>What the parser returns\<close>

lemma find_heading_found:
  "find_heading i ls (Some h) = Inr r \<longleftrightarrow> r = Some h \<and> (\<forall>l \<in> set ls. \<not> is_heading l)"
  by (induction ls arbitrary: i) auto

lemma find_heading_unique:
  assumes "find_heading i ls None = Inr (Some h)"
  shows "i \<le> h \<and> h < i + length ls \<and> (\<forall>j < length ls. is_heading (ls ! j) \<longleftrightarrow> i + j = h)"
  using assms
proof (induction ls arbitrary: i)
  case (Cons l ls)
  show ?case
  proof (cases "is_heading l")
    case True
    with Cons.prems have h: "h = i" and no: "\<forall>l \<in> set ls. \<not> is_heading l"
      by (simp_all add: find_heading_found)
    then show ?thesis using True by (auto simp: nth_Cons' )
  next
    case False
    with Cons.prems Cons.IH [of "Suc i"] have
      "Suc i \<le> h" "h < Suc i + length ls"
      and all: "\<forall>j < length ls. is_heading (ls ! j) \<longleftrightarrow> Suc i + j = h" by simp_all
    moreover have "is_heading ((l # ls) ! j) \<longleftrightarrow> i + j = h" if "j < length (l # ls)" for j
      using that False \<open>Suc i \<le> h\<close> all by (cases j) auto
    ultimately show ?thesis by simp
  qed
qed simp

lemma parse_bullet_Inr:
  assumes "parse_bullet n line block entries = Inr e"
  shows "(ef_source_line e, ef_bullet_text e) = (n, line)
       \<and> ef_normalized e \<notin> ef_normalized ` set entries
       \<and> normalize_scope_path (ef_normalized e) = Inr (ef_normalized e, ef_match_kind e)"
proof -
  from assms obtain expression nk where
    x: "normalize_scope_path expression = Inr nk"
    and e: "e = \<lparr>ef_source_line = n, ef_bullet_text = line, ef_normalized = fst nk, ef_match_kind = snd nk\<rparr>"
    and new: "\<not> list_ex (\<lambda>e. ef_normalized e = fst nk) entries"
    by (auto simp: parse_bullet_def result_simps split: if_splits prod.splits)
  from new e have "ef_normalized e \<notin> ef_normalized ` set entries" by (auto simp: list_ex_iff)
  moreover have "normalize_scope_path (fst nk) = Inr (fst nk, snd nk)"
    by (rule normalize_idem [of expression]) (simp add: x)
  ultimately show ?thesis using e by simp
qed

definition bullets_of :: "nat \<Rightarrow> string list \<Rightarrow> (nat \<times> string) list" where
  "bullets_of n ls = filter (\<lambda>(i, l). is_bullet l) (enumerate n ls)"

lemma bullets_of_simps [simp]:
  "bullets_of n [] = []"
  "bullets_of n (l # ls) = (if is_bullet l then (n, l) # bullets_of (Suc n) ls else bullets_of (Suc n) ls)"
  by (simp_all add: bullets_of_def)

lemma bullets_of_skip:
  "bullets_of n ls =
     bullets_of (n + length (takeWhile continues_block ls)) (drop (length (takeWhile continues_block ls)) ls)"
  by (induction ls arbitrary: n) (auto simp: continues_block_def)

definition entries_wf :: "expected_file_entry list \<Rightarrow> bool" where
  "entries_wf es \<longleftrightarrow> distinct (map ef_normalized es)
     \<and> list_all (\<lambda>e. normalize_scope_path (ef_normalized e) = Inr (ef_normalized e, ef_match_kind e)) es"

lemma parse_bullets_Inr:
  assumes "parse_bullets i ls entries = Inr es" and "entries_wf entries"
  shows "entries_wf es \<and> map (\<lambda>e. (ef_source_line e, ef_bullet_text e)) es
       = map (\<lambda>e. (ef_source_line e, ef_bullet_text e)) entries @ bullets_of (i + 1) ls"
  using assms
proof (induction i ls entries arbitrary: es rule: parse_bullets.induct)
  case (2 i l ls entries)
  show ?case
  proof (cases "is_bullet l")
    case False
    with 2 show ?thesis by simp
  next
    case True
    let ?more = "takeWhile continues_block ls"
    from "2.prems"(1) True obtain e where
      e: "parse_bullet (i + 1) l (join [nl] (l # ?more)) entries = Inr e"
      and rest: "parse_bullets (Suc i + length ?more) (drop (length ?more) ls) (entries @ [e]) = Inr es"
      by (auto simp: Let_def result_simps)
    note facts = parse_bullet_Inr [OF e]
    have wf: "entries_wf (entries @ [e])"
      using facts "2.prems"(2) by (auto simp: entries_wf_def)
    have "Suc i + length ?more + 1 = Suc (Suc i) + length ?more" by simp
    then have sk: "bullets_of (Suc i + length ?more + 1) (drop (length ?more) ls) = bullets_of (Suc (Suc i)) ls"
      using bullets_of_skip [of "Suc (Suc i)" ls] by simp
    show ?thesis
      using "2.IH"(2) [OF _ refl rest wf] True facts sk by simp
  qed
qed simp

lemma parse_expected_files_Inr:
  assumes "parse_expected_files content = Inr es"
  shows "\<exists>h < length (str_lines content).
       (\<forall>j < length (str_lines content). is_heading (str_lines content ! j) \<longleftrightarrow> j = h)
       \<and> map (\<lambda>e. (ef_source_line e, ef_bullet_text e)) es
         = bullets_of (h + 2) (takeWhile (\<lambda>l. \<not> section_end l) (drop (h + 1) (str_lines content)))
       \<and> es \<noteq> [] \<and> entries_wf es"
proof -
  let ?ls = "str_lines content"
  from assms obtain h where h: "find_heading 0 ?ls None = Inr (Some h)"
    and b: "parse_bullets (h + 1) (takeWhile (\<lambda>l. \<not> section_end l) (drop (h + 1) ?ls)) [] = Inr es"
    and ne: "es \<noteq> []"
    by (auto simp: parse_expected_files_def Let_def result_simps split: if_splits)
  show ?thesis
    using find_heading_unique [OF h] parse_bullets_Inr [OF b] ne by (auto simp: entries_wf_def)
qed

section \<open>Properties\<close>

text \<open>C40: The path grammar produces a normal form: it is a fixed point of the normalisation, it is
  relative, free of white space, shell and glob characters and of empty, \<open>.\<close> and \<open>..\<close> components, and
  it ends in a slash exactly when it stands for a directory.\<close>

theorem normalize_scope_path_normal:
  assumes "normalize_scope_path e = Inr (n, k)"
  shows "normalize_scope_path n = Inr (n, k)
       \<and> n \<noteq> [] \<and> \<not> starts_with n [slash] \<and> \<not> has_white_space n
       \<and> set n \<inter> (glob_chars \<union> {backslash, CHR ''$'', CHR '':''}) = {}
       \<and> \<not> has_bad_component (if k = Directory then butlast n else n)
       \<and> (k = Directory \<longleftrightarrow> ends_with n [slash])"
proof -
  have np: "normal_path n k" using assms normalize_scope_path_Inr by blast
  then obtain body where n: "n = (case k of ExactFile \<Rightarrow> body | Directory \<Rightarrow> body @ [slash])"
    and b: "body \<noteq> []" "\<not> has_bad_component body" "set body \<inter> glob_chars = {}"
    and f: "\<not> starts_with n [slash]" "\<not> has_white_space n" "set n \<inter> {backslash, CHR ''$'', CHR '':''} = {}"
    unfolding normal_path_def by blast
  have "set n \<inter> glob_chars = {}"
    using b(3) n by (auto simp: glob_chars_def split: match_kind.splits)
  then have "set n \<inter> (glob_chars \<union> {backslash, CHR ''$'', CHR '':''}) = {}" using f(3) by blast
  moreover have "n \<noteq> []" using n b(1) by (cases k) auto
  moreover have "\<not> has_bad_component (if k = Directory then butlast n else n)"
    using n b(2) by (cases k) auto
  ultimately show ?thesis
    using normalize_idem [OF assms] normalize_kind [OF assms] f(1,2) by blast
qed

theorem normalize_scope_path_normal_witness:
  "normalize_scope_path ''crates/review/**'' = Inr (''crates/review/'', Directory)
   \<and> normalize_scope_path ''crates/review/'' = Inr (''crates/review/'', Directory)"
proof -
  have e: "normalize_scope_path ''crates/review/**'' = Inr (''crates/review/'', Directory)" by code_simp
  from normalize_scope_path_normal [OF e] e show ?thesis by simp
qed

text \<open>A parsed Expected Files contract comes from the one heading of the document: its entries are,
  in order, all the top-level bullets of that section and no others, each with its line number and
  text; their paths are in normal form and none is listed twice.\<close>

lemma parse_expected_files_exact:
  assumes "parse_expected_files content = Inr es"
  shows "\<exists>h < length (str_lines content).
       (\<forall>j < length (str_lines content). is_heading (str_lines content ! j) \<longleftrightarrow> j = h)
       \<and> map (\<lambda>e. (ef_source_line e, ef_bullet_text e)) es
         = bullets_of (h + 2) (takeWhile (\<lambda>l. \<not> section_end l) (drop (h + 1) (str_lines content)))
       \<and> es \<noteq> [] \<and> entries_wf es"
  using assms by (rule parse_expected_files_Inr)

definition sample_scope :: string where
  "sample_scope = join [nl] [''# PRD'', [], ''## Expected Files'', [], ''- '' @ [backtick] @ ''src/a.rs'' @ [backtick],
     ''- '' @ [backtick] @ ''crates/x/**'' @ [backtick] @ '' all'', ''## Done'', ''- no path'']"

definition sample_contract :: "expected_file_entry list" where
  "sample_contract =
     [\<lparr>ef_source_line = 5, ef_bullet_text = ''- '' @ [backtick] @ ''src/a.rs'' @ [backtick],
       ef_normalized = ''src/a.rs'', ef_match_kind = ExactFile\<rparr>,
      \<lparr>ef_source_line = 6, ef_bullet_text = ''- '' @ [backtick] @ ''crates/x/**'' @ [backtick] @ '' all'',
       ef_normalized = ''crates/x/'', ef_match_kind = Directory\<rparr>]"

lemma parse_expected_files_exact_witness:
  "parse_expected_files sample_scope = Inr sample_contract \<and> entries_wf sample_contract"
proof -
  have p: "parse_expected_files sample_scope = Inr sample_contract" by code_simp
  from parse_expected_files_exact [OF p] p show ?thesis by blast
qed

end
