(* ===== verification/Scope_Policy.thy ===== *)
theory Scope_Policy
  imports Expected_Files
begin

text \<open>
  The scope policy of a review, the first part of \<open>crates/familiar-ai-review/src/policy.rs\<close>: compiling
  a policy snapshot (\<open>compile_scope_policy\<close>), classifying a path (\<open>classify\<close>) and deciding on every
  changed file (\<open>evaluate_subject\<close>, \<open>evaluate_scope\<close>). Serialisation (\<open>serde_json\<close>) and SHA-256
  (\<open>ring\<close>) are parameters.
\<close>

section \<open>Compiling a policy\<close>

definition hex_digit :: "nat \<Rightarrow> char" where
  "hex_digit d = (if d < 10 then char_of (48 + d) else char_of (87 + d))"

definition content_hash :: "(string \<Rightarrow> string) \<Rightarrow> string \<Rightarrow> string" where
  "content_hash sha256 bytes =
     ''sha256:'' @ concat (map (\<lambda>b. [hex_digit (byte b div 16), hex_digit (byte b mod 16)]) (sha256 bytes))"

record scope_input =
  si_prd_path :: string
  si_prd_content_hash :: string
  si_contract :: "expected_file_entry list"
  si_allowed_paths :: "string list"
  si_allow_expansion :: bool
  si_declaration_mode :: scope_declaration_mode
  si_prohibited_rules :: "prohibited_rule list"
  si_class_policies :: file_class_policies
  si_classification_rules :: "classification_rule list"
  si_baseline_revision :: string
  si_config_provenance :: string

datatype scope_policy_error =
  NoAuthoritySource
| InvalidAllowedPath string scope_path_rule
| DuplicateAllowedPath string
| ShadowedAllowedPath string string
| DuplicateRuleId string
| DuplicateProhibitedRule string string
| ConflictingClassificationRules string string string
| Serialization string

fun compile_allowed ::
    "string list \<Rightarrow> scope_path_entry list \<Rightarrow> scope_policy_error + scope_path_entry list" where
  "compile_allowed [] allowed = Inr allowed"
| "compile_allowed (v # vs) allowed =
     rbind (map_err (InvalidAllowedPath v) (normalize_scope_path v)) (\<lambda>(n, k).
       if list_ex (\<lambda>e. sp_normalized e = n) allowed then Inl (DuplicateAllowedPath n)
       else compile_allowed vs (allowed @ [\<lparr>sp_normalized = n, sp_match_kind = k\<rparr>]))"

fun find_shadowed ::
    "scope_path_entry list \<Rightarrow> scope_path_entry list \<Rightarrow> (scope_path_entry \<times> scope_path_entry) option" where
  "find_shadowed all [] = None"
| "find_shadowed all (outer # rest) =
     (if sp_match_kind outer \<noteq> Directory then find_shadowed all rest
      else (case find (\<lambda>inner. sp_normalized inner \<noteq> sp_normalized outer
                         \<and> path_matches outer (sp_normalized inner)) all of
              Some inner \<Rightarrow> Some (outer, inner)
            | None \<Rightarrow> find_shadowed all rest))"

fun first_repeated :: "string list \<Rightarrow> string list \<Rightarrow> string option" where
  "first_repeated seen [] = None"
| "first_repeated seen (x # xs) =
     (if x \<in> set seen then Some x else first_repeated (x # seen) xs)"

text \<open>The first pair of a list, in its order, that a clash relates.\<close>

fun first_clash :: "('a \<Rightarrow> 'a \<Rightarrow> bool) \<Rightarrow> 'a list \<Rightarrow> ('a \<times> 'a) option" where
  "first_clash clash [] = None"
| "first_clash clash (x # xs) =
     (case find (clash x) xs of Some y \<Rightarrow> Some (x, y) | None \<Rightarrow> first_clash clash xs)"

definition same_prohibition :: "prohibited_rule \<Rightarrow> prohibited_rule \<Rightarrow> bool" where
  "same_prohibition a b \<longleftrightarrow> pr_rule b = pr_rule a \<and> pr_change_kinds b = pr_change_kinds a"

definition conflicting_class :: "classification_rule \<Rightarrow> classification_rule \<Rightarrow> bool" where
  "conflicting_class a b \<longleftrightarrow>
     cr_entry b = cr_entry a \<and> cr_class b \<noteq> cr_class a \<and> cr_precedence b = cr_precedence a"

definition no_error :: "('a \<Rightarrow> 'e) \<Rightarrow> 'a option \<Rightarrow> 'e + unit" where
  "no_error err found = (case found of None \<Rightarrow> Inr () | Some x \<Rightarrow> Inl (err x))"

definition scope_policy_schema_version :: string where
  "scope_policy_schema_version = ''scope-policy/1''"

definition builtin_scope_rules_version :: string where
  "builtin_scope_rules_version = ''builtin-scope-rules/1''"

definition unhashed_snapshot ::
    "scope_input \<Rightarrow> scope_path_entry list \<Rightarrow> prohibited_rule list \<Rightarrow> classification_rule list \<Rightarrow> scope_snapshot" where
  "unhashed_snapshot inp allowed prohibited classification =
     \<lparr>ss_schema_version = scope_policy_schema_version, ss_prd_path = si_prd_path inp,
      ss_prd_content_hash = si_prd_content_hash inp, ss_contract = si_contract inp,
      ss_allowed_paths = allowed, ss_allow_expansion = si_allow_expansion inp,
      ss_declaration_mode = si_declaration_mode inp, ss_prohibited_rules = prohibited,
      ss_class_policies = si_class_policies inp, ss_classification_rules = classification,
      ss_builtin_rules_version = builtin_scope_rules_version,
      ss_baseline_revision = si_baseline_revision inp,
      ss_config_provenance = si_config_provenance inp, ss_snapshot_hash = []\<rparr>"

definition compile_scope_policy ::
    "(scope_snapshot \<Rightarrow> string + string) \<Rightarrow> (string \<Rightarrow> string) \<Rightarrow> scope_input
     \<Rightarrow> scope_policy_error + scope_snapshot" where
  "compile_scope_policy to_vec sha256 inp =
     rbind (compile_allowed (si_allowed_paths inp) []) (\<lambda>unsorted.
     let allowed = sort_key sp_normalized unsorted in
     rbind (no_error (\<lambda>(outer, inner). ShadowedAllowedPath (sp_normalized outer) (sp_normalized inner))
              (find_shadowed allowed allowed)) (\<lambda>_.
     rbind (ensure (\<not> (allowed = [] \<and> (\<not> si_allow_expansion inp \<or> si_contract inp = []))) NoAuthoritySource) (\<lambda>_.
     rbind (no_error DuplicateRuleId
              (first_repeated [] (map pr_rule_id (si_prohibited_rules inp)
                                  @ map cr_rule_id (si_classification_rules inp)))) (\<lambda>_.
     let prohibited = sort_key pr_rule_id (si_prohibited_rules inp) in
     rbind (no_error (\<lambda>(a, b). DuplicateProhibitedRule (pr_rule_id a) (pr_rule_id b))
              (first_clash same_prohibition prohibited)) (\<lambda>_.
     let classification = sort_key cr_rule_id (si_classification_rules inp) in
     rbind (no_error (\<lambda>(a, b). ConflictingClassificationRules (cr_rule_id a) (cr_rule_id b)
                                 (sp_normalized (cr_entry a)))
              (first_clash conflicting_class classification)) (\<lambda>_.
     let snapshot = unhashed_snapshot inp allowed prohibited classification in
     rbind (map_err Serialization (to_vec snapshot)) (\<lambda>bytes.
     Inr (snapshot\<lparr>ss_snapshot_hash := content_hash sha256 bytes\<rparr>))))))))"

section \<open>Classifying a path\<close>

record scope_evidence =
  ev_symlink_paths :: "string set"
  ev_new_external_crates :: "string set"

record classified =
  cl_class :: scope_file_class
  cl_rule_id :: string
  cl_source :: scope_rule_source
  cl_detail :: string

definition builtin_dependency_manifests :: "string list" where
  "builtin_dependency_manifests =
     [''Cargo.toml'', ''package.json'', ''go.mod'', ''requirements.txt'', ''pyproject.toml'']"

definition builtin_dependency_lockfiles :: "string list" where
  "builtin_dependency_lockfiles =
     [''Cargo.lock'', ''package-lock.json'', ''pnpm-lock.yaml'', ''yarn.lock'', ''go.sum'', ''poetry.lock'']"

text \<open>The derived \<open>Debug\<close> names, as the details print them.\<close>

definition class_debug :: "scope_file_class \<Rightarrow> string" where
  "class_debug c = (case c of
       OrdinarySource \<Rightarrow> ''OrdinarySource'' | DependencyManifest \<Rightarrow> ''DependencyManifest''
     | DependencyLockfile \<Rightarrow> ''DependencyLockfile'' | Migration \<Rightarrow> ''Migration''
     | Configuration \<Rightarrow> ''Configuration'' | Test \<Rightarrow> ''Test''
     | GeneratedArtifact \<Rightarrow> ''GeneratedArtifact'' | Ambiguous \<Rightarrow> ''Ambiguous'')"

text \<open>\<open>max_by_key\<close> returns the last of several greatest elements.\<close>

fun max_by_key :: "('a \<Rightarrow> nat) \<Rightarrow> 'a list \<Rightarrow> 'a option" where
  "max_by_key key [] = None"
| "max_by_key key (x # xs) =
     (case max_by_key key xs of None \<Rightarrow> Some x | Some y \<Rightarrow> if key x \<le> key y then Some y else Some x)"

definition rule_precedence :: "classification_rule \<Rightarrow> nat" where
  "rule_precedence r = (case cr_precedence r of None \<Rightarrow> 0 | Some p \<Rightarrow> p)"

definition classify_configured :: "classification_rule list \<Rightarrow> classified option" where
  "classify_configured configured =
     (case configured of
        [] \<Rightarrow> None
      | rule # _ \<Rightarrow>
        if length (remdups (map cr_class configured)) = 1
        then Some \<lparr>cl_class = cr_class rule, cl_rule_id = cr_rule_id rule, cl_source = From_Configuration,
                   cl_detail = ''configured classification rule matched ''
                     @ quoted (sp_normalized (cr_entry rule))\<rparr>
        else (case max_by_key rule_precedence configured of
            None \<Rightarrow> None
          | Some best \<Rightarrow>
            let top = rule_precedence best;
                top_classes = remdups (map cr_class (filter (\<lambda>r. rule_precedence r = top) configured)) in
            if length top_classes = 1
            then Some \<lparr>cl_class = cr_class best, cl_rule_id = cr_rule_id best,
                       cl_source = From_Configuration,
                       cl_detail = ''configured precedence '' @ show_nat top
                         @ '' resolved conflicting classification for ''
                         @ quoted (sp_normalized (cr_entry best))\<rparr>
            else Some \<lparr>cl_class = Ambiguous, cl_rule_id = ''classification:conflict'',
                       cl_source = From_Configuration,
                       cl_detail = ''conflicting configured classes {''
                         @ join '', '' (map class_debug (sort top_classes))
                         @ ''} match without unique precedence''\<rparr>))"

definition basename :: "string \<Rightarrow> string" where
  "basename path = last (split_char slash path)"

definition in_tests_directory :: "string \<Rightarrow> bool" where
  "in_tests_directory path \<longleftrightarrow> list_ex (\<lambda>part. part = ''tests'') (butlast (split_char slash path))"

definition builtin_matches :: "string \<Rightarrow> (scope_file_class \<times> string) list" where
  "builtin_matches path =
     (if basename path \<in> set builtin_dependency_manifests
      then [(DependencyManifest, ''builtin:dependency_manifest:'' @ basename path)] else [])
     @ (if basename path \<in> set builtin_dependency_lockfiles
        then [(DependencyLockfile, ''builtin:dependency_lockfile:'' @ basename path)] else [])
     @ (if in_tests_directory path then [(Test, ''builtin:test_directory'')] else [])"

definition classify_builtin :: "string \<Rightarrow> classified" where
  "classify_builtin path =
     (case builtin_matches path of
        [] \<Rightarrow> \<lparr>cl_class = OrdinarySource, cl_rule_id = ''classification:ordinary_source'',
               cl_source = BuiltIn, cl_detail = ''no special-class rule matched''\<rparr>
      | [(c, rule_id)] \<Rightarrow> \<lparr>cl_class = c, cl_rule_id = rule_id, cl_source = BuiltIn,
               cl_detail = ''built-in exact rule matched basename '' @ quoted (basename path)\<rparr>
      | ms \<Rightarrow> \<lparr>cl_class = Ambiguous, cl_rule_id = ''classification:conflict'', cl_source = BuiltIn,
               cl_detail = ''conflicting built-in classes ['' @ join '', '' (map (class_debug \<circ> fst) ms)
                 @ ''] match''\<rparr>)"

definition classify :: "scope_snapshot \<Rightarrow> string \<Rightarrow> classified" where
  "classify snapshot path =
     (case classify_configured
             (filter (\<lambda>r. path_matches (cr_entry r) path) (ss_classification_rules snapshot)) of
        Some c \<Rightarrow> c
      | None \<Rightarrow> classify_builtin path)"

section \<open>Deciding on one side of a change\<close>

datatype subject_side = New_Side | Old_Side

record subject =
  sj_change_id :: string
  sj_side :: subject_side
  sj_path :: string
  sj_old_path :: "string option"
  sj_kind :: git_change_kind

definition declared_test_surface :: "string \<Rightarrow> expected_file_entry list \<Rightarrow> string option" where
  "declared_test_surface path contract =
     (case strip_prefix path ''crates/'' of
        None \<Rightarrow> None
      | Some rest \<Rightarrow>
        (case split_char slash rest of
           crate_name # second # _ \<Rightarrow>
             if second \<noteq> ''tests'' then None
             else map_option ef_normalized
                    (find (\<lambda>e. starts_with (ef_normalized e) (''crates/'' @ crate_name @ [slash])) contract)
         | _ \<Rightarrow> None))"

definition file_class_label :: "scope_file_class \<Rightarrow> string" where
  "file_class_label c = (case c of
       OrdinarySource \<Rightarrow> ''ordinary_source'' | DependencyManifest \<Rightarrow> ''dependency_manifest''
     | DependencyLockfile \<Rightarrow> ''dependency_lockfile'' | Migration \<Rightarrow> ''migration''
     | Configuration \<Rightarrow> ''configuration'' | Test \<Rightarrow> ''test''
     | GeneratedArtifact \<Rightarrow> ''generated_artifact'' | Ambiguous \<Rightarrow> ''ambiguous'')"

definition change_kind_label :: "git_change_kind \<Rightarrow> string" where
  "change_kind_label k = (case k of
       Added \<Rightarrow> ''added'' | Modified \<Rightarrow> ''modified'' | Deleted \<Rightarrow> ''deleted'' | Renamed \<Rightarrow> ''renamed''
     | Copied \<Rightarrow> ''copied'' | TypeChanged \<Rightarrow> ''type_changed'' | Unmerged \<Rightarrow> ''unmerged'')"

definition valid_repository_path :: "string \<Rightarrow> bool" where
  "valid_repository_path path \<longleftrightarrow>
     path \<noteq> [] \<and> \<not> starts_with path [slash] \<and> backslash \<notin> set path \<and> \<not> has_bad_component path"

text \<open>The fields of a finding that the decision sets; the others describe the subject.\<close>

record verdict =
  vd_decision :: scope_decision
  vd_rule_id :: string
  vd_source :: scope_rule_source
  vd_detail :: string
  vd_prohibited :: "string option"

definition verdict_of ::
    "scope_decision \<Rightarrow> string \<Rightarrow> scope_rule_source \<Rightarrow> string \<Rightarrow> verdict" where
  "verdict_of d rule_id source detail =
     \<lparr>vd_decision = d, vd_rule_id = rule_id, vd_source = source, vd_detail = detail, vd_prohibited = None\<rparr>"

text \<open>Step 1: evidence that is unsafe, incomplete or ambiguous.\<close>

definition evidence_verdict :: "scope_evidence \<Rightarrow> subject \<Rightarrow> classified \<Rightarrow> verdict option" where
  "evidence_verdict evidence s c =
     (if \<not> valid_repository_path (sj_path s) then
        Some (verdict_of AmbiguousHumanReview ''evidence:unsafe_path'' EvidenceValidation
          ''path is not a safe repository-relative path'')
      else if sj_kind s \<in> {Renamed, Copied} \<and> sj_old_path s = None then
        Some (verdict_of AmbiguousHumanReview ''evidence:missing_old_path'' EvidenceValidation
          ''rename or copy without a recorded source path'')
      else if sj_kind s = TypeChanged then
        Some (verdict_of AmbiguousHumanReview ''evidence:type_changed'' EvidenceValidation
          ''file type changes require human review'')
      else if sj_kind s = Unmerged then
        Some (verdict_of AmbiguousHumanReview ''evidence:unmerged'' EvidenceValidation
          ''unmerged paths require human review'')
      else if sj_path s \<in> ev_symlink_paths evidence then
        Some (verdict_of AmbiguousHumanReview ''evidence:symlink'' EvidenceValidation
          ''symlinks are never authorized by path declarations'')
      else if cl_class c = Ambiguous then
        Some (verdict_of AmbiguousHumanReview (cl_rule_id c) (cl_source c) (cl_detail c))
      else None)"

text \<open>Step 2: the first prohibited rule that applies.\<close>

definition rule_applies :: "git_change_kind \<Rightarrow> string \<Rightarrow> scope_file_class \<Rightarrow> prohibited_rule \<Rightarrow> bool" where
  "rule_applies kind path c r \<longleftrightarrow>
     (pr_change_kinds r = [] \<or> kind \<in> set (pr_change_kinds r))
     \<and> (case pr_rule r of Path_Rule e \<Rightarrow> path_matches e path | FileClass_Rule d \<Rightarrow> d = c)"

definition prohibition_verdict :: "scope_snapshot \<Rightarrow> subject \<Rightarrow> classified \<Rightarrow> verdict option" where
  "prohibition_verdict snapshot s c =
     map_option (\<lambda>r. \<lparr>vd_decision = ProhibitedChange, vd_rule_id = ''prohibited:'' @ pr_rule_id r,
         vd_source = From_Configuration,
         vd_detail = (case pr_description r of Some d \<Rightarrow> d | None \<Rightarrow> ''explicitly prohibited change''),
         vd_prohibited = Some (pr_rule_id r)\<rparr>)
       (find (rule_applies (sj_kind s) (sj_path s) (cl_class c)) (ss_prohibited_rules snapshot))"

text \<open>
  Step 3: the policy of a special class. Ordinary sources have none; the ambiguous class, an
  \<open>unreachable!\<close> arm of the source, never gets here (\<open>evidence_verdict\<close>).
\<close>

definition class_policy :: "file_class_policies \<Rightarrow> scope_file_class \<Rightarrow> scope_class_policy option" where
  "class_policy p c = (case c of
       DependencyManifest \<Rightarrow> Some (fp_dependency_manifest p)
     | DependencyLockfile \<Rightarrow> Some (fp_dependency_lockfile p)
     | Migration \<Rightarrow> Some (fp_migration p)
     | Configuration \<Rightarrow> Some (fp_configuration p)
     | Test \<Rightarrow> Some (fp_test p)
     | GeneratedArtifact \<Rightarrow> Some (fp_generated_artifact p)
     | OrdinarySource \<Rightarrow> None | Ambiguous \<Rightarrow> None)"

definition human_review_verdict ::
    "scope_evidence \<Rightarrow> scope_file_class \<Rightarrow> expected_file_match option \<Rightarrow> verdict" where
  "human_review_verdict evidence c expected =
     (let label = file_class_label c; dependency = (c = DependencyManifest \<or> c = DependencyLockfile) in
      if (case expected of None \<Rightarrow> False | Some m \<Rightarrow> em_match_kind m = ExactFile) then
        verdict_of JustifiedExpectedFileChange (''file_class:'' @ label @ '':declared_expected_file'')
          From_ExpectedFiles
          (label @ '' file is exactly declared in Expected Files; the plan''
             @ CHR 0x27 # ''s standing batch approval covers declared manifests'')
      else if dependency \<and> ev_new_external_crates evidence = {} then
        verdict_of AllowedChange (''file_class:'' @ label @ '':no_new_external_crate'') BuiltIn
          (label @ '' change introduces no new external crate into Cargo.lock'')
      else if dependency then
        verdict_of AmbiguousHumanReview (''file_class:'' @ label @ '':new_external_crate'') From_Configuration
          (label @ '' change introduces new external crate(s): ''
             @ join '', '' (sorted_list_of_set (ev_new_external_crates evidence)))
      else
        verdict_of AmbiguousHumanReview (''file_class:'' @ label @ '':human_review'') From_Configuration
          (''class policy requires human review for '' @ label @ '' files''))"

definition class_verdict ::
    "scope_snapshot \<Rightarrow> scope_evidence \<Rightarrow> subject \<Rightarrow> scope_file_class
     \<Rightarrow> expected_file_match option \<Rightarrow> string option \<Rightarrow> verdict option" where
  "class_verdict snapshot evidence s c expected allowed =
     (let label = file_class_label c in
      case class_policy (ss_class_policies snapshot) c of
        None \<Rightarrow> None
      | Some Deny \<Rightarrow>
          Some (verdict_of ProhibitedChange (''file_class:'' @ label @ '':deny'') From_Configuration
            (''class policy denies changes to '' @ label @ '' files''))
      | Some HumanReview \<Rightarrow> Some (human_review_verdict evidence c expected)
      | Some AllowWhenExpected \<Rightarrow>
          if expected \<noteq> None then None
          else (case (if c = Test then declared_test_surface (sj_path s) (ss_contract snapshot) else None) of
              Some surface \<Rightarrow>
                Some (verdict_of JustifiedExpectedFileChange ''file_class:test:declared_surface_coverage''
                  From_ExpectedFiles
                  (''test exercises the declared surface '' @ quoted surface
                     @ ''; required coverage is within scope authority''))
            | None \<Rightarrow>
                Some (verdict_of UndeclaredScopeExpansion (''file_class:'' @ label @ '':allow_when_expected'')
                  From_Configuration
                  (''class policy permits '' @ label @ '' files only when declared in Expected Files'')))
      | Some AllowWhenConfigured \<Rightarrow>
          if allowed \<noteq> None then None
          else Some (verdict_of UndeclaredScopeExpansion (''file_class:'' @ label @ '':allow_when_configured'')
                 From_Configuration
                 (''class policy permits '' @ label @ '' files only within configured allowed paths''))
      | Some Allow \<Rightarrow> None)"

text \<open>Steps 4 to 7: the static ceiling, the declaration, the configured path, no match.\<close>

definition path_verdict ::
    "scope_snapshot \<Rightarrow> expected_file_match option \<Rightarrow> string option \<Rightarrow> verdict" where
  "path_verdict snapshot expected allowed =
     (case (allowed, expected) of
        (Some a, Some _) \<Rightarrow>
          verdict_of AllowedChange ''expected_file_declaration'' From_ExpectedFiles
            (''declared in Expected Files within allowed path '' @ quoted a)
      | (Some a, None) \<Rightarrow>
          (case ss_declaration_mode snapshot of
             ExpectedOrConfigured \<Rightarrow>
               verdict_of AllowedChange ''configured_allowed_path'' From_Configuration
                 (''within configured allowed path '' @ quoted a)
           | ExpectedRequired \<Rightarrow>
               verdict_of UndeclaredScopeExpansion ''expected_file_declaration_required'' From_Configuration
                 ''declaration mode requires an Expected Files match'')
      | (None, Some m) \<Rightarrow>
          if ss_allow_expansion snapshot
          then verdict_of JustifiedExpectedFileChange ''prd_expected_file_expansion'' From_ExpectedFiles
                 (''outside static allowed paths but declared at Expected Files line ''
                    @ show_nat (em_source_line m))
          else verdict_of UndeclaredScopeExpansion ''static_allowed_path_ceiling'' From_Configuration
                 (''declared at Expected Files line '' @ show_nat (em_source_line m)
                    @ '' but PRD expansion is disabled'')
      | (None, None) \<Rightarrow>
          verdict_of UndeclaredScopeExpansion ''undeclared_change'' From_Configuration
            ''matches no Expected Files entry and no configured allowed path'')"

definition expected_match :: "scope_snapshot \<Rightarrow> string \<Rightarrow> expected_file_match option" where
  "expected_match snapshot path =
     map_option (\<lambda>e. \<lparr>em_normalized = ef_normalized e, em_source_line = ef_source_line e,
                       em_match_kind = ef_match_kind e\<rparr>)
       (find (\<lambda>e. entry_matches e path) (ss_contract snapshot))"

definition allowed_match :: "scope_snapshot \<Rightarrow> string \<Rightarrow> string option" where
  "allowed_match snapshot path =
     map_option sp_normalized (find (\<lambda>e. path_matches e path) (ss_allowed_paths snapshot))"

definition subject_verdict :: "scope_snapshot \<Rightarrow> scope_evidence \<Rightarrow> subject \<Rightarrow> verdict" where
  "subject_verdict snapshot evidence s =
     (let c = classify snapshot (sj_path s);
          expected = expected_match snapshot (sj_path s);
          allowed = allowed_match snapshot (sj_path s) in
      case evidence_verdict evidence s c of
        Some v \<Rightarrow> v
      | None \<Rightarrow>
      (case prohibition_verdict snapshot s c of
         Some v \<Rightarrow> v
       | None \<Rightarrow>
         if sj_kind s = Copied \<and> sj_side s = Old_Side
         then verdict_of AllowedChange ''copy_source_read'' BuiltIn
                ''copy source is read-only and not prohibited''
         else (case class_verdict snapshot evidence s (cl_class c) expected allowed of
             Some v \<Rightarrow> v
           | None \<Rightarrow> path_verdict snapshot expected allowed)))"

definition side_label :: "subject_side \<Rightarrow> string" where
  "side_label side = (case side of New_Side \<Rightarrow> ''new'' | Old_Side \<Rightarrow> ''old'')"

definition evaluate_subject :: "scope_snapshot \<Rightarrow> scope_evidence \<Rightarrow> subject \<Rightarrow> scope_finding" where
  "evaluate_subject snapshot evidence s =
     (let v = subject_verdict snapshot evidence s in
      \<lparr>sf_finding_id = sj_change_id s @ ''#'' @ side_label (sj_side s),
       sf_change_id = sj_change_id s, sf_path = sj_path s, sf_old_path = sj_old_path s,
       sf_change_kind = sj_kind s, sf_file_class = cl_class (classify snapshot (sj_path s)),
       sf_decision = vd_decision v, sf_rule_id = vd_rule_id v, sf_rule_source = vd_source v,
       sf_rule_detail = vd_detail v, sf_expected_match = expected_match snapshot (sj_path s),
       sf_allowed_match = allowed_match snapshot (sj_path s), sf_prohibited_match = vd_prohibited v,
       sf_snapshot_hash = ss_snapshot_hash snapshot\<rparr>)"

section \<open>Deciding on a change set\<close>

definition precedence_step :: "scope_decision \<Rightarrow> string \<Rightarrow> nat" where
  "precedence_step decision rule_id =
     (if starts_with rule_id ''evidence:'' \<or> starts_with rule_id ''classification:conflict'' then 1
      else if starts_with rule_id ''prohibited:'' then 2
      else if starts_with rule_id ''file_class:'' then 3
      else if rule_id = ''static_allowed_path_ceiling'' then 4
      else (case decision of AllowedChange \<Rightarrow> 5 | JustifiedExpectedFileChange \<Rightarrow> 5 | _ \<Rightarrow> 7))"

definition change_id_of :: "changed_file \<Rightarrow> string" where
  "change_id_of f =
     change_kind_label (cf_kind f) @ '':''
     @ (case cf_old_path f of Some p \<Rightarrow> p | None \<Rightarrow> ''-'') @ '':'' @ cf_path f"

definition subjects_of :: "changed_file \<Rightarrow> subject list" where
  "subjects_of f =
     \<lparr>sj_change_id = change_id_of f, sj_side = New_Side, sj_path = cf_path f,
      sj_old_path = cf_old_path f, sj_kind = cf_kind f\<rparr>
     # (case cf_old_path f of
          Some old \<Rightarrow>
            if cf_kind f \<in> {Renamed, Copied}
            then [\<lparr>sj_change_id = change_id_of f, sj_side = Old_Side, sj_path = old,
                   sj_old_path = cf_old_path f, sj_kind = cf_kind f\<rparr>] else []
        | None \<Rightarrow> [])"

definition finding_key ::
    "scope_finding \<Rightarrow> string \<times> string option \<times> git_change_kind \<times> nat \<times> string \<times> string" where
  "finding_key f =
     (sf_path f, sf_old_path f, sf_change_kind f, precedence_step (sf_decision f) (sf_rule_id f),
      sf_rule_id f, sf_finding_id f)"

definition disposition_of :: "scope_finding list \<Rightarrow> scope_disposition" where
  "disposition_of findings =
     (if list_ex (\<lambda>f. sf_decision f \<in> {ProhibitedChange, UndeclaredScopeExpansion}) findings then Broadened
      else if list_ex (\<lambda>f. sf_decision f = AmbiguousHumanReview) findings then Scope_HumanReviewRequired
      else Contained)"

definition evaluate_scope ::
    "scope_snapshot \<Rightarrow> changed_file list \<Rightarrow> scope_evidence \<Rightarrow> scope_evaluation" where
  "evaluate_scope snapshot files evidence =
     (let findings = sort_key finding_key
            (map (evaluate_subject snapshot evidence) (concat (map subjects_of files))) in
      \<lparr>se_findings = findings, se_disposition = disposition_of findings\<rparr>)"

fun record_change :: "scope_check_result \<Rightarrow> changed_file \<Rightarrow> scope_check_result" where
  "record_change r f =
     (case cf_kind f of
        Added \<Rightarrow> r\<lparr>sc_added := sc_added r @ [cf_path f]\<rparr>
      | Deleted \<Rightarrow> r\<lparr>sc_deleted := sc_deleted r @ [cf_path f]\<rparr>
      | Renamed \<Rightarrow> r\<lparr>sc_renamed := sc_renamed r
            @ [(case cf_old_path f of Some p \<Rightarrow> p | None \<Rightarrow> [], cf_path f)]\<rparr>
      | _ \<Rightarrow> r\<lparr>sc_modified := sc_modified r @ [cf_path f]\<rparr>)"

definition scope_check_result_of ::
    "changed_file list \<Rightarrow> scope_evaluation \<Rightarrow> scope_snapshot \<Rightarrow> string \<Rightarrow> scope_check_result" where
  "scope_check_result_of files evaluation snapshot phase =
     foldl record_change
       \<lparr>sc_added = [], sc_modified = [], sc_deleted = [], sc_renamed = [],
        sc_disposition = se_disposition evaluation, sc_findings = se_findings evaluation,
        sc_snapshot_hash = ss_snapshot_hash snapshot, sc_phase = phase\<rparr> files"

definition scope_rule_summary_of :: "scope_snapshot \<Rightarrow> scope_finding list \<Rightarrow> scope_rule_summary" where
  "scope_rule_summary_of snapshot blocking =
     \<lparr>rs_policy_snapshot_hash = ss_snapshot_hash snapshot,
      rs_authorized_paths = ss_allowed_paths snapshot, rs_expected_files = ss_contract snapshot,
      rs_prohibited_rules = ss_prohibited_rules snapshot,
      rs_class_policies = ss_class_policies snapshot, rs_blocking_findings = blocking\<rparr>"

section \<open>The compiled policy\<close>

definition entry_of :: "string \<Rightarrow> scope_path_entry" where
  "entry_of v = (case normalize_scope_path v of
     Inr (n, k) \<Rightarrow> \<lparr>sp_normalized = n, sp_match_kind = k\<rparr>
   | Inl _ \<Rightarrow> \<lparr>sp_normalized = v, sp_match_kind = ExactFile\<rparr>)"

lemma compile_allowed_Inr_iff:
  "compile_allowed vs acc = Inr es \<longleftrightarrow>
     (\<forall>v \<in> set vs. is_ok (normalize_scope_path v)) \<and> es = acc @ map entry_of vs
     \<and> distinct (map (sp_normalized \<circ> entry_of) vs)
     \<and> sp_normalized ` set acc \<inter> sp_normalized ` entry_of ` set vs = {}"
proof (induction vs arbitrary: acc)
  case (Cons v vs)
  show ?case
  proof (cases "normalize_scope_path v")
    case (Inr nk)
    obtain n k where nk: "nk = (n, k)" by (cases nk)
    with Inr have e: "entry_of v = \<lparr>sp_normalized = n, sp_match_kind = k\<rparr>" by (simp add: entry_of_def)
    have ok: "is_ok (normalize_scope_path v)" using Inr by (simp add: is_ok_def)
    show ?thesis
      using Cons.IH [of "acc @ [entry_of v]"] Inr nk e ok
      by (cases "list_ex (\<lambda>e. sp_normalized e = n) acc") (auto simp: list_ex_iff)
  qed (auto simp: is_ok_def)
qed auto

lemma case_find_None_iff:
  "(case m of None \<Rightarrow> a | Some x \<Rightarrow> Some (f x)) = None \<longleftrightarrow> m = None \<and> a = None"
  by (cases m) auto

lemma find_shadowed_None_iff:
  "find_shadowed all es = None \<longleftrightarrow>
     (\<forall>outer \<in> set es. sp_match_kind outer = Directory \<longrightarrow>
        (\<forall>inner \<in> set all. sp_normalized inner \<noteq> sp_normalized outer
           \<longrightarrow> \<not> path_matches outer (sp_normalized inner)))"
  by (induction es) (auto simp: case_find_None_iff find_None_iff_ex)

lemma first_repeated_None_iff: "first_repeated seen xs = None \<longleftrightarrow> distinct xs \<and> set xs \<inter> set seen = {}"
  by (induction xs arbitrary: seen) auto

lemma first_clash_None_iff: "first_clash P xs = None \<longleftrightarrow> sorted_wrt (\<lambda>x y. \<not> P x y) xs"
  by (induction xs) (auto simp: case_find_None_iff find_None_iff_ex)

lemma no_error_Inr_iff [result_simps]: "no_error err found = Inr u \<longleftrightarrow> found = None"
  by (auto simp: no_error_def split: option.splits)

definition sorted_entries :: "string list \<Rightarrow> scope_path_entry list" where
  "sorted_entries vs = sort_key sp_normalized (map entry_of vs)"

lemma compile_scope_policy_Inr_iff:
  "compile_scope_policy to_vec sha256 inp = Inr snap \<longleftrightarrow>
     (let allowed = sorted_entries (si_allowed_paths inp);
          prohibited = sort_key pr_rule_id (si_prohibited_rules inp);
          classification = sort_key cr_rule_id (si_classification_rules inp);
          base = unhashed_snapshot inp allowed prohibited classification in
      (\<forall>v \<in> set (si_allowed_paths inp). is_ok (normalize_scope_path v))
      \<and> distinct (map (sp_normalized \<circ> entry_of) (si_allowed_paths inp))
      \<and> find_shadowed allowed allowed = None
      \<and> (allowed \<noteq> [] \<or> si_allow_expansion inp \<and> si_contract inp \<noteq> [])
      \<and> distinct (map pr_rule_id (si_prohibited_rules inp) @ map cr_rule_id (si_classification_rules inp))
      \<and> first_clash same_prohibition prohibited = None
      \<and> first_clash conflicting_class classification = None
      \<and> (\<exists>bytes. to_vec base = Inr bytes \<and> snap = base\<lparr>ss_snapshot_hash := content_hash sha256 bytes\<rparr>))"
proof -
  have compiled: "compile_allowed vs [] = Inr es \<longleftrightarrow>
      (\<forall>v \<in> set vs. is_ok (normalize_scope_path v)) \<and> es = map entry_of vs
      \<and> distinct (map (sp_normalized \<circ> entry_of) vs)" for vs es
    by (simp add: compile_allowed_Inr_iff)
  show ?thesis
    unfolding compile_scope_policy_def Let_def
    by (simp only: result_simps compiled sorted_entries_def first_repeated_None_iff
        set_append list.set Int_empty_right simp_thms)
      blast
qed

lemma mset_sort_key_eq:
  assumes "mset xs = mset ys" and "inj_on f (set xs)"
  shows "sort_key f xs = sort_key f ys"
proof (rule sort_key_inj_key_eq)
  show "mset xs = mset (sort_key f ys)" using assms(1) by simp
  show "inj_on f (set xs)" by (fact assms(2))
  show "sorted (map f (sort_key f ys))" by simp
qed

lemma entry_of_ok:
  assumes "is_ok (normalize_scope_path v)"
  shows "normalize_scope_path (sp_normalized (entry_of v))
       = Inr (sp_normalized (entry_of v), sp_match_kind (entry_of v))"
proof -
  from assms obtain n k where v: "normalize_scope_path v = Inr (n, k)" by (auto simp: is_ok_iff)
  from normalize_idem [OF v] v show ?thesis by (simp add: entry_of_def)
qed

lemma filter_at_most_one:
  assumes "distinct xs" and "\<And>x y. \<lbrakk>x \<in> set xs; y \<in> set xs; P x; P y\<rbrakk> \<Longrightarrow> x = y"
  shows "length (filter P xs) \<le> 1"
  using assms
proof (induction xs)
  case (Cons x xs)
  have IH: "length (filter P xs) \<le> 1" using Cons by simp
  show ?case
  proof (cases "P x")
    case True
    then have "\<not> P y" if "y \<in> set xs" for y
      using Cons.prems(1) Cons.prems(2) [of x y] that by auto
    with True show ?thesis by (simp add: filter_empty_conv)
  qed (use IH in simp)
qed simp

lemma sorted_entries_facts:
  assumes "distinct (map (sp_normalized \<circ> entry_of) vs)"
    and "find_shadowed (sorted_entries vs) (sorted_entries vs) = None"
  shows "distinct (map sp_normalized (sorted_entries vs))
       \<and> length (filter (\<lambda>e. path_matches e p) (sorted_entries vs)) \<le> 1"
proof -
  let ?es = "sorted_entries vs"
  have "mset (map sp_normalized ?es) = mset (map (sp_normalized \<circ> entry_of) vs)"
    by (simp add: sorted_entries_def multiset.map_comp)
  then have d: "distinct (map sp_normalized ?es)"
    using assms(1) mset_eq_imp_distinct_iff by blast
  have unnested: "\<forall>e \<in> set ?es. \<forall>f \<in> set ?es. sp_match_kind e = Directory
      \<longrightarrow> \<not> path_matches e (sp_normalized f)"
    using assms(2) configured_entry.directory_irreflexive
    by (metis find_shadowed_None_iff)
  have "length (filter (\<lambda>e. path_matches e p) ?es) \<le> 1"
    by (rule filter_at_most_one)
      (use d configured_entry.at_most_one_match [OF d unnested] in \<open>auto simp: distinct_map\<close>)
  with d show ?thesis by blast
qed

lemma sorted_entries_permute:
  assumes "mset vs = mset ws" and "distinct (map (sp_normalized \<circ> entry_of) vs)"
  shows "sorted_entries vs = sorted_entries ws"
  unfolding sorted_entries_def
  by (rule mset_sort_key_eq) (use assms in \<open>auto simp: distinct_map inj_on_def\<close>)

text \<open>A compiled policy is well formed: its allowed paths are sorted, in normal form and so
  disjoint that at most one of them matches any path; there is an authority source; rule identifiers
  are unique; and the recorded hash is that of the snapshot with an empty hash field.\<close>

lemma compile_scope_policy_wellformed:
  assumes "compile_scope_policy to_vec sha256 inp = Inr s"
  shows "sorted (map sp_normalized (ss_allowed_paths s))
       \<and> length (filter (\<lambda>e. path_matches e p) (ss_allowed_paths s)) \<le> 1
       \<and> list_all (\<lambda>e. normalize_scope_path (sp_normalized e) = Inr (sp_normalized e, sp_match_kind e))
           (ss_allowed_paths s)
       \<and> (ss_allowed_paths s \<noteq> [] \<or> ss_allow_expansion s \<and> ss_contract s \<noteq> [])
       \<and> distinct (map pr_rule_id (ss_prohibited_rules s) @ map cr_rule_id (ss_classification_rules s))
       \<and> (\<exists>bytes. to_vec (s\<lparr>ss_snapshot_hash := []\<rparr>) = Inr bytes
              \<and> ss_snapshot_hash s = content_hash sha256 bytes)"
proof -
  let ?al = "sorted_entries (si_allowed_paths inp)"
  let ?pr = "sort_key pr_rule_id (si_prohibited_rules inp)"
  let ?cl = "sort_key cr_rule_id (si_classification_rules inp)"
  let ?base = "unhashed_snapshot inp ?al ?pr ?cl"
  obtain bytes where ok: "\<forall>v \<in> set (si_allowed_paths inp). is_ok (normalize_scope_path v)"
    and dist: "distinct (map (sp_normalized \<circ> entry_of) (si_allowed_paths inp))"
    and unsh: "find_shadowed ?al ?al = None"
    and auth: "?al \<noteq> [] \<or> si_allow_expansion inp \<and> si_contract inp \<noteq> []"
    and ids: "distinct (map pr_rule_id (si_prohibited_rules inp) @ map cr_rule_id (si_classification_rules inp))"
    and bytes: "to_vec ?base = Inr bytes"
    and s: "s = ?base\<lparr>ss_snapshot_hash := content_hash sha256 bytes\<rparr>"
    using assms by (auto simp: compile_scope_policy_Inr_iff Let_def)
  have fields: "ss_allowed_paths s = ?al" "ss_allow_expansion s = si_allow_expansion inp"
    "ss_contract s = si_contract inp" "ss_prohibited_rules s = ?pr" "ss_classification_rules s = ?cl"
    "s\<lparr>ss_snapshot_hash := []\<rparr> = ?base" "ss_snapshot_hash s = content_hash sha256 bytes"
    by (simp_all add: s unhashed_snapshot_def)
  have "mset (map pr_rule_id ?pr @ map cr_rule_id ?cl)
      = mset (map pr_rule_id (si_prohibited_rules inp) @ map cr_rule_id (si_classification_rules inp))"
    by simp
  then have ids': "distinct (map pr_rule_id ?pr @ map cr_rule_id ?cl)"
    using ids mset_eq_imp_distinct_iff by blast
  have norm: "list_all (\<lambda>e. normalize_scope_path (sp_normalized e) = Inr (sp_normalized e, sp_match_kind e)) ?al"
    using ok entry_of_ok by (auto simp: list_all_iff sorted_entries_def)
  have "sorted (map sp_normalized ?al)" by (simp add: sorted_entries_def)
  then show ?thesis
    unfolding fields using sorted_entries_facts [OF dist unsh] norm auth ids' bytes by blast
qed

definition sample_input :: scope_input where
  "sample_input =
     \<lparr>si_prd_path = ''docs/prds/PRD-007.md'', si_prd_content_hash = ''h'', si_contract = sample_contract,
      si_allowed_paths = [''src/'', ''docs/**''], si_allow_expansion = False,
      si_declaration_mode = ExpectedOrConfigured,
      si_prohibited_rules = [\<lparr>pr_rule_id = ''no-ci'',
        pr_rule = Path_Rule \<lparr>sp_normalized = ''.github/'', sp_match_kind = Directory\<rparr>,
        pr_change_kinds = [], pr_description = None\<rparr>],
      si_class_policies = default_file_class_policies, si_classification_rules = [],
      si_baseline_revision = ''base'', si_config_provenance = ''config''\<rparr>"

definition sample_to_vec :: "scope_snapshot \<Rightarrow> string + string" where
  "sample_to_vec s = Inr (concat (map sp_normalized (ss_allowed_paths s)) @ ss_snapshot_hash s)"

definition sample_snapshot :: scope_snapshot where
  "sample_snapshot =
     (unhashed_snapshot sample_input
        [\<lparr>sp_normalized = ''docs/'', sp_match_kind = Directory\<rparr>,
         \<lparr>sp_normalized = ''src/'', sp_match_kind = Directory\<rparr>]
        (si_prohibited_rules sample_input) [])
       \<lparr>ss_snapshot_hash := ''sha256:646f63732f7372632f''\<rparr>"

lemma sample_compiles: "compile_scope_policy sample_to_vec id sample_input = Inr sample_snapshot"
  by code_simp

lemma compile_scope_policy_wellformed_witness:
  "compile_scope_policy sample_to_vec id sample_input = Inr sample_snapshot
   \<and> length (filter (\<lambda>e. path_matches e ''src/a.rs'') (ss_allowed_paths sample_snapshot)) \<le> 1"
  using compile_scope_policy_wellformed [OF sample_compiles, of "''src/a.rs''"] sample_compiles by blast

text \<open>The compiled policy, and so its hash, does not depend on the order in which the configuration
  lists allowed paths, prohibited rules and classification rules.\<close>

lemma compile_scope_policy_permute:
  assumes "compile_scope_policy to_vec sha256 inp = Inr s"
    and "mset ps = mset (si_allowed_paths inp)"
    and "mset rs = mset (si_prohibited_rules inp)"
    and "mset cs = mset (si_classification_rules inp)"
  shows "compile_scope_policy to_vec sha256
           (inp\<lparr>si_allowed_paths := ps, si_prohibited_rules := rs, si_classification_rules := cs\<rparr>) = Inr s"
proof -
  let ?inp = "inp\<lparr>si_allowed_paths := ps, si_prohibited_rules := rs, si_classification_rules := cs\<rparr>"
  note c = assms(1) [unfolded compile_scope_policy_Inr_iff Let_def]
  have dist: "distinct (map (sp_normalized \<circ> entry_of) (si_allowed_paths inp))" using c by blast
  have ids: "distinct (map pr_rule_id (si_prohibited_rules inp) @ map cr_rule_id (si_classification_rules inp))"
    using c by blast
  have al: "sorted_entries ps = sorted_entries (si_allowed_paths inp)"
    using sorted_entries_permute [OF assms(2) [symmetric] dist] by simp
  have pr: "sort_key pr_rule_id rs = sort_key pr_rule_id (si_prohibited_rules inp)"
    using mset_sort_key_eq [OF assms(3) [symmetric], of pr_rule_id] ids by (simp add: distinct_map)
  have cl: "sort_key cr_rule_id cs = sort_key cr_rule_id (si_classification_rules inp)"
    using mset_sort_key_eq [OF assms(4) [symmetric], of cr_rule_id] ids by (simp add: distinct_map)
  have "mset (map (sp_normalized \<circ> entry_of) ps) = mset (map (sp_normalized \<circ> entry_of) (si_allowed_paths inp))"
    using assms(2) by simp
  then have d': "distinct (map (sp_normalized \<circ> entry_of) ps)"
    using dist mset_eq_imp_distinct_iff by blast
  have "mset (map pr_rule_id rs @ map cr_rule_id cs)
      = mset (map pr_rule_id (si_prohibited_rules inp) @ map cr_rule_id (si_classification_rules inp))"
    using assms(3,4) by simp
  then have ids': "distinct (map pr_rule_id rs @ map cr_rule_id cs)"
    using ids mset_eq_imp_distinct_iff by blast
  have sets: "set ps = set (si_allowed_paths inp)" using assms(2) by (metis set_mset_mset)
  have base: "unhashed_snapshot ?inp as bs ds = unhashed_snapshot inp as bs ds" for as bs ds
    by (simp add: unhashed_snapshot_def)
  show ?thesis
    unfolding compile_scope_policy_Inr_iff Let_def base
    using c d' ids' sets by (simp add: al pr cl)
qed

theorem compile_scope_policy_permute_witness:
  "compile_scope_policy sample_to_vec id
     (sample_input\<lparr>si_allowed_paths := [''docs/**'', ''src/''],
        si_prohibited_rules := si_prohibited_rules sample_input,
        si_classification_rules := []\<rparr>) = Inr sample_snapshot"
  by (rule compile_scope_policy_permute [OF sample_compiles])
    (simp_all add: sample_input_def)

section \<open>Deciding on a change set: facts\<close>

lemma evaluate_subject_key_inj:
  assumes "finding_key (evaluate_subject snapshot ev s) = finding_key (evaluate_subject snapshot ev t)"
  shows "evaluate_subject snapshot ev s = evaluate_subject snapshot ev t"
proof -
  have eqs: "sj_path s = sj_path t" "sj_old_path s = sj_old_path t" "sj_kind s = sj_kind t"
    and "sj_change_id s @ ''#'' @ side_label (sj_side s) = sj_change_id t @ ''#'' @ side_label (sj_side t)"
    using assms by (simp_all add: finding_key_def evaluate_subject_def Let_def)
  then have "sj_change_id s = sj_change_id t \<and> sj_side s = sj_side t"
    by (cases "sj_side s"; cases "sj_side t") (auto simp: side_label_def)
  with eqs have "s = t" by (simp add: subject.equality)
  then show ?thesis by simp
qed

lemma mset_concat_map:
  assumes "mset xs = mset ys"
  shows "mset (concat (map f xs)) = mset (concat (map f ys))"
proof -
  have "mset (concat (map f zs)) = \<Sum>\<^sub># (image_mset (\<lambda>x. mset (f x)) (mset zs))" for zs
    by (induction zs) auto
  with assms show ?thesis by simp
qed

text \<open>The evaluation is deterministic: it does not depend on the order in which git reports the
  changed files.\<close>

lemma evaluate_scope_order_independent:
  assumes "mset files = mset files'"
  shows "evaluate_scope snapshot files ev = evaluate_scope snapshot files' ev"
proof -
  let ?f = "\<lambda>files. map (evaluate_subject snapshot ev) (concat (map subjects_of files))"
  have "mset (?f files) = mset (?f files')"
    using mset_concat_map [OF assms, of subjects_of] by simp
  moreover have "inj_on finding_key (set (?f files))"
    using evaluate_subject_key_inj by (auto simp: inj_on_def)
  ultimately have "sort_key finding_key (?f files) = sort_key finding_key (?f files')"
    by (rule mset_sort_key_eq)
  then show ?thesis by (simp add: evaluate_scope_def)
qed

lemma evaluate_scope_order_independent_witness:
  "evaluate_scope sample_snapshot
     [\<lparr>cf_path = ''b'', cf_kind = Added, cf_old_path = None, cf_line_summary = []\<rparr>,
      \<lparr>cf_path = ''a'', cf_kind = Deleted, cf_old_path = None, cf_line_summary = []\<rparr>]
     \<lparr>ev_symlink_paths = {}, ev_new_external_crates = {}\<rparr>
   = evaluate_scope sample_snapshot
     [\<lparr>cf_path = ''a'', cf_kind = Deleted, cf_old_path = None, cf_line_summary = []\<rparr>,
      \<lparr>cf_path = ''b'', cf_kind = Added, cf_old_path = None, cf_line_summary = []\<rparr>]
     \<lparr>ev_symlink_paths = {}, ev_new_external_crates = {}\<rparr>"
  by (rule evaluate_scope_order_independent) simp

text \<open>
  The specification: what evidence is usable, what is prohibited, and which authority a change
  needs. An \<open>authorised\<close> side of a change needs all three.
\<close>

definition usable_evidence :: "scope_snapshot \<Rightarrow> scope_evidence \<Rightarrow> subject \<Rightarrow> bool" where
  "usable_evidence snapshot ev s \<longleftrightarrow>
     valid_repository_path (sj_path s) \<and> sj_kind s \<notin> {TypeChanged, Unmerged}
     \<and> (sj_kind s \<in> {Renamed, Copied} \<longrightarrow> sj_old_path s \<noteq> None)
     \<and> sj_path s \<notin> ev_symlink_paths ev \<and> cl_class (classify snapshot (sj_path s)) \<noteq> Ambiguous"

definition prohibited :: "scope_snapshot \<Rightarrow> subject \<Rightarrow> bool" where
  "prohibited snapshot s \<longleftrightarrow>
     list_ex (rule_applies (sj_kind s) (sj_path s) (cl_class (classify snapshot (sj_path s))))
       (ss_prohibited_rules snapshot)"

definition declared :: "scope_snapshot \<Rightarrow> string \<Rightarrow> bool" where
  "declared snapshot path \<longleftrightarrow> list_ex (\<lambda>e. entry_matches e path) (ss_contract snapshot)"

definition configured :: "scope_snapshot \<Rightarrow> string \<Rightarrow> bool" where
  "configured snapshot path \<longleftrightarrow> list_ex (\<lambda>e. path_matches e path) (ss_allowed_paths snapshot)"

definition declared_exactly :: "scope_snapshot \<Rightarrow> string \<Rightarrow> bool" where
  "declared_exactly snapshot path \<longleftrightarrow>
     (case find (\<lambda>e. entry_matches e path) (ss_contract snapshot) of
        None \<Rightarrow> False | Some e \<Rightarrow> ef_match_kind e = ExactFile)"

definition path_authority :: "scope_snapshot \<Rightarrow> string \<Rightarrow> bool" where
  "path_authority snapshot path \<longleftrightarrow>
     (if configured snapshot path
      then declared snapshot path \<or> ss_declaration_mode snapshot = ExpectedOrConfigured
      else declared snapshot path \<and> ss_allow_expansion snapshot)"

definition class_authority :: "scope_snapshot \<Rightarrow> scope_evidence \<Rightarrow> string \<Rightarrow> scope_file_class \<Rightarrow> bool" where
  "class_authority snapshot ev path c \<longleftrightarrow>
     (case class_policy (ss_class_policies snapshot) c of
        None \<Rightarrow> path_authority snapshot path
      | Some Deny \<Rightarrow> False
      | Some HumanReview \<Rightarrow> declared_exactly snapshot path
          \<or> c \<in> {DependencyManifest, DependencyLockfile} \<and> ev_new_external_crates ev = {}
      | Some AllowWhenExpected \<Rightarrow>
          if declared snapshot path then path_authority snapshot path
          else c = Test \<and> declared_test_surface path (ss_contract snapshot) \<noteq> None
      | Some AllowWhenConfigured \<Rightarrow> configured snapshot path \<and> path_authority snapshot path
      | Some Allow \<Rightarrow> path_authority snapshot path)"

definition authorised :: "scope_snapshot \<Rightarrow> scope_evidence \<Rightarrow> subject \<Rightarrow> bool" where
  "authorised snapshot ev s \<longleftrightarrow>
     usable_evidence snapshot ev s \<and> \<not> prohibited snapshot s
     \<and> (sj_kind s = Copied \<and> sj_side s = Old_Side
        \<or> class_authority snapshot ev (sj_path s) (cl_class (classify snapshot (sj_path s))))"

definition permits :: "scope_decision \<Rightarrow> bool" where
  "permits d \<longleftrightarrow> d = AllowedChange \<or> d = JustifiedExpectedFileChange"

lemma permits_simps [simp]:
  "permits AllowedChange" "permits JustifiedExpectedFileChange" "\<not> permits ProhibitedChange"
  "\<not> permits UndeclaredScopeExpansion" "\<not> permits AmbiguousHumanReview"
  by (simp_all add: permits_def)

lemma permits_iff:
  "permits d \<longleftrightarrow> d \<notin> {ProhibitedChange, UndeclaredScopeExpansion} \<and> d \<noteq> AmbiguousHumanReview"
  by (cases d) simp_all

lemma contained_if_iff:
  "(if a then Broadened else if b then Scope_HumanReviewRequired else Contained) = Contained
     \<longleftrightarrow> \<not> a \<and> \<not> b"
  by simp

lemma verdict_of_simps [simp]:
  "vd_decision (verdict_of d r src det) = d" "vd_rule_id (verdict_of d r src det) = r"
  by (simp_all add: verdict_of_def)

lemma evidence_verdict_None_iff:
  "evidence_verdict ev s (classify snapshot (sj_path s)) = None \<longleftrightarrow> usable_evidence snapshot ev s"
  by (auto simp: evidence_verdict_def usable_evidence_def)

lemma evidence_verdict_Some: "evidence_verdict ev s c = Some v \<Longrightarrow> vd_decision v = AmbiguousHumanReview"
  by (auto simp: evidence_verdict_def split: if_splits)

lemma prohibition_verdict_None_iff:
  "prohibition_verdict snapshot s (classify snapshot (sj_path s)) = None \<longleftrightarrow> \<not> prohibited snapshot s"
  by (simp add: prohibition_verdict_def prohibited_def find_None_iff_ex list_ex_iff)

lemma prohibition_verdict_Some: "prohibition_verdict snapshot s c = Some v \<Longrightarrow> vd_decision v = ProhibitedChange"
  by (auto simp: prohibition_verdict_def)

lemma expected_match_None_iff: "expected_match snapshot path = None \<longleftrightarrow> \<not> declared snapshot path"
  by (simp add: expected_match_def declared_def find_None_iff_ex list_ex_iff)

lemma allowed_match_None_iff: "allowed_match snapshot path = None \<longleftrightarrow> \<not> configured snapshot path"
  by (simp add: allowed_match_def configured_def find_None_iff_ex list_ex_iff)

lemma declared_exactly_expected:
  "declared_exactly snapshot path \<longleftrightarrow>
     (case expected_match snapshot path of None \<Rightarrow> False | Some m \<Rightarrow> em_match_kind m = ExactFile)"
  by (simp add: declared_exactly_def expected_match_def split: option.split)

lemma path_verdict_permits:
  "permits (vd_decision (path_verdict snapshot (expected_match snapshot path) (allowed_match snapshot path)))
     \<longleftrightarrow> path_authority snapshot path"
  using expected_match_None_iff [of snapshot path] allowed_match_None_iff [of snapshot path]
  by (cases "expected_match snapshot path"; cases "allowed_match snapshot path";
      cases "ss_declaration_mode snapshot") (auto simp: path_verdict_def path_authority_def permits_def)

lemma human_review_permits:
  "permits (vd_decision (human_review_verdict ev c (expected_match snapshot path))) \<longleftrightarrow>
     declared_exactly snapshot path
     \<or> c \<in> {DependencyManifest, DependencyLockfile} \<and> ev_new_external_crates ev = {}"
  by (simp add: human_review_verdict_def Let_def declared_exactly_expected permits_def)

lemma class_verdict_permits:
  "permits (vd_decision
     (case class_verdict snapshot ev s c (expected_match snapshot (sj_path s))
             (allowed_match snapshot (sj_path s)) of
        Some v \<Rightarrow> v
      | None \<Rightarrow> path_verdict snapshot (expected_match snapshot (sj_path s)) (allowed_match snapshot (sj_path s))))
   \<longleftrightarrow> class_authority snapshot ev (sj_path s) c"
proof (cases "class_policy (ss_class_policies snapshot) c")
  case None
  then show ?thesis by (simp add: class_verdict_def class_authority_def path_verdict_permits)
next
  case (Some policy)
  show ?thesis
  proof (cases policy)
    case AllowWhenExpected
    with Some show ?thesis
      by (cases "declared_test_surface (sj_path s) (ss_contract snapshot)")
        (auto simp: class_verdict_def class_authority_def path_verdict_permits expected_match_None_iff
           Let_def)
  qed (use Some in \<open>auto simp: class_verdict_def class_authority_def path_verdict_permits
         human_review_permits allowed_match_None_iff Let_def\<close>)
qed

lemma subject_verdict_permits:
  "permits (vd_decision (subject_verdict snapshot ev s)) \<longleftrightarrow> authorised snapshot ev s"
proof (cases "evidence_verdict ev s (classify snapshot (sj_path s))")
  case (Some v)
  then have "\<not> usable_evidence snapshot ev s" using evidence_verdict_None_iff by force
  then show ?thesis
    using Some evidence_verdict_Some [OF Some] by (simp add: subject_verdict_def authorised_def permits_def)
next
  case None
  then have ev: "usable_evidence snapshot ev s" using evidence_verdict_None_iff by blast
  show ?thesis
  proof (cases "prohibition_verdict snapshot s (classify snapshot (sj_path s))")
    case (Some v)
    then have "prohibited snapshot s" using prohibition_verdict_None_iff by force
    then show ?thesis
      using None Some prohibition_verdict_Some [OF Some]
      by (simp add: subject_verdict_def authorised_def permits_def)
  next
    case None
    then have "\<not> prohibited snapshot s" using prohibition_verdict_None_iff by blast
    with ev None show ?thesis
      using \<open>evidence_verdict ev s (classify snapshot (sj_path s)) = None\<close>
        class_verdict_permits [where snapshot = snapshot and ev = ev and s = s
          and c = "cl_class (classify snapshot (sj_path s))"]
      by (auto simp: subject_verdict_def authorised_def Let_def)
  qed
qed

definition all_subjects :: "changed_file list \<Rightarrow> subject list" where
  "all_subjects files = concat (map subjects_of files)"

lemma evaluate_scope_disposition_subjects:
  "se_disposition (evaluate_scope snapshot files ev) =
     (let ds = map (vd_decision \<circ> subject_verdict snapshot ev) (all_subjects files) in
      if list_ex (\<lambda>d. d \<in> {ProhibitedChange, UndeclaredScopeExpansion}) ds then Broadened
      else if list_ex (\<lambda>d. d = AmbiguousHumanReview) ds then Scope_HumanReviewRequired else Contained)"
proof -
  have set: "set (se_findings (evaluate_scope snapshot files ev))
      = evaluate_subject snapshot ev ` set (all_subjects files)"
    by (simp add: evaluate_scope_def all_subjects_def Let_def)
  have disp: "se_disposition (evaluate_scope snapshot files ev)
      = disposition_of (se_findings (evaluate_scope snapshot files ev))"
    by (simp add: evaluate_scope_def Let_def)
  have ex: "list_ex (\<lambda>f. P (sf_decision f)) (se_findings (evaluate_scope snapshot files ev))
      \<longleftrightarrow> list_ex P (map (vd_decision \<circ> subject_verdict snapshot ev) (all_subjects files))" for P
    by (auto simp: list_ex_iff set evaluate_subject_def Let_def)
  show ?thesis
    unfolding disp disposition_of_def Let_def
    by (simp only: ex [of "\<lambda>d. d \<in> {ProhibitedChange, UndeclaredScopeExpansion}"]
        ex [of "\<lambda>d. d = AmbiguousHumanReview"])
qed

text \<open>C39: A change set is contained exactly when every side of every change is authorised: its evidence
  is usable, no prohibited rule applies to it, and its class and path policies grant it.\<close>

theorem evaluate_scope_contained_iff:
  "se_disposition (evaluate_scope snapshot files ev) = Contained
     \<longleftrightarrow> list_all (\<lambda>f. list_all (authorised snapshot ev) (subjects_of f)) files"
proof -
  let ?ds = "map (vd_decision \<circ> subject_verdict snapshot ev) (all_subjects files)"
  have "se_disposition (evaluate_scope snapshot files ev) = Contained \<longleftrightarrow>
      \<not> list_ex (\<lambda>d. d \<in> {ProhibitedChange, UndeclaredScopeExpansion}) ?ds
      \<and> \<not> list_ex (\<lambda>d. d = AmbiguousHumanReview) ?ds"
    unfolding evaluate_scope_disposition_subjects Let_def
    by (rule contained_if_iff)
  also have "\<dots> \<longleftrightarrow> (\<forall>d \<in> set ?ds. permits d)"
    unfolding list_ex_iff permits_iff by blast
  also have "\<dots> \<longleftrightarrow> (\<forall>s \<in> set (all_subjects files). authorised snapshot ev s)"
    by (simp add: subject_verdict_permits)
  finally show ?thesis by (auto simp: all_subjects_def list_all_iff)
qed

text \<open>A prohibition cannot be overridden: when a prohibited rule applies to a side of a change with
  usable evidence, the change set is broadened, whatever else it holds and whatever the contract and
  the allowed paths say; even without usable evidence it is never contained.\<close>

lemma prohibition_wins:
  assumes "f \<in> set files" and "s \<in> set (subjects_of f)" and "r \<in> set (ss_prohibited_rules snapshot)"
    and "rule_applies (sj_kind s) (sj_path s) (cl_class (classify snapshot (sj_path s))) r"
  shows "(usable_evidence snapshot ev s \<longrightarrow> se_disposition (evaluate_scope snapshot files ev) = Broadened)
     \<and> se_disposition (evaluate_scope snapshot files ev) \<noteq> Contained"
proof -
  let ?d = "vd_decision (subject_verdict snapshot ev s)"
  have s: "s \<in> set (all_subjects files)" using assms(1,2) by (auto simp: all_subjects_def)
  have pro: "prohibited snapshot s" using assms(3,4) by (auto simp: prohibited_def list_ex_iff)
  have "se_disposition (evaluate_scope snapshot files ev) = Broadened" if u: "usable_evidence snapshot ev s"
  proof -
    obtain v where v: "prohibition_verdict snapshot s (classify snapshot (sj_path s)) = Some v"
      using pro prohibition_verdict_None_iff by blast
    have e: "evidence_verdict ev s (classify snapshot (sj_path s)) = None"
      using u evidence_verdict_None_iff by blast
    have "?d = ProhibitedChange"
      using v e prohibition_verdict_Some [OF v] by (simp add: subject_verdict_def)
    then show ?thesis
      using s unfolding evaluate_scope_disposition_subjects Let_def by (auto simp: list_ex_iff)
  qed
  moreover have "se_disposition (evaluate_scope snapshot files ev) \<noteq> Contained"
  proof
    assume c: "se_disposition (evaluate_scope snapshot files ev) = Contained"
    have "\<not> permits ?d" using pro subject_verdict_permits [of snapshot ev s] by (simp add: authorised_def)
    then have "?d \<in> {ProhibitedChange, UndeclaredScopeExpansion, AmbiguousHumanReview}"
      by (cases ?d) (auto simp: permits_def)
    with c s show False
      unfolding evaluate_scope_disposition_subjects Let_def
      by (auto simp: list_ex_iff image_iff split: if_splits)
  qed
  ultimately show ?thesis by simp
qed

text \<open>Concrete evaluations for the witnesses.\<close>

definition no_evidence :: scope_evidence where
  "no_evidence = \<lparr>ev_symlink_paths = {}, ev_new_external_crates = {}\<rparr>"

definition sample_change :: "string \<Rightarrow> changed_file" where
  "sample_change path = \<lparr>cf_path = path, cf_kind = Modified, cf_old_path = None, cf_line_summary = []\<rparr>"

definition sample_subject :: "string \<Rightarrow> subject" where
  "sample_subject path = hd (subjects_of (sample_change path))"

lemma prohibition_wins_witness:
  "se_disposition (evaluate_scope sample_snapshot
     [sample_change ''src/a.rs'', sample_change ''.github/ci.yml''] no_evidence) = Broadened"
proof -
  let ?s = "sample_subject ''.github/ci.yml''"
  let ?r = "hd (si_prohibited_rules sample_input)"
  let ?files = "[sample_change ''src/a.rs'', sample_change ''.github/ci.yml'']"
  have f: "sample_change ''.github/ci.yml'' \<in> set ?files" by simp
  have s: "?s \<in> set (subjects_of (sample_change ''.github/ci.yml''))"
    by (simp add: sample_subject_def subjects_of_def sample_change_def)
  have r: "?r \<in> set (ss_prohibited_rules sample_snapshot)"
    by (simp add: sample_snapshot_def unhashed_snapshot_def sample_input_def)
  have a: "rule_applies (sj_kind ?s) (sj_path ?s) (cl_class (classify sample_snapshot (sj_path ?s))) ?r"
    by code_simp
  have u: "usable_evidence sample_snapshot no_evidence ?s" by code_simp
  from prohibition_wins [OF f s r a, of no_evidence] u show ?thesis by simp
qed

text \<open>An undeclared, unconfigured dependency manifest or lockfile is allowed under the default class
  policy as long as \<open>Cargo.lock\<close> gains no crate, whatever the ecosystem of the manifest: the evidence
  of new third-party code that the gate reads exists for Cargo only.\<close>

lemma undeclared_manifest_allowed:
  assumes "cl_class (classify snapshot (sj_path s)) \<in> {DependencyManifest, DependencyLockfile}"
    and "class_policy (ss_class_policies snapshot) (cl_class (classify snapshot (sj_path s))) = Some HumanReview"
    and "usable_evidence snapshot ev s" and "\<not> prohibited snapshot s"
    and "\<not> declared snapshot (sj_path s)" and "\<not> configured snapshot (sj_path s)"
    and "ev_new_external_crates ev = {}" and "sj_side s = New_Side"
  shows "vd_decision (subject_verdict snapshot ev s) = AllowedChange
       \<and> \<not> path_authority snapshot (sj_path s)"
proof -
  let ?c = "classify snapshot (sj_path s)"
  have "evidence_verdict ev s ?c = None" using assms(3) evidence_verdict_None_iff by blast
  moreover have "prohibition_verdict snapshot s ?c = None" using assms(4) prohibition_verdict_None_iff by blast
  moreover have "expected_match snapshot (sj_path s) = None" using assms(5) expected_match_None_iff by blast
  ultimately have "vd_decision (subject_verdict snapshot ev s) = AllowedChange"
    using assms(1,2,7,8) by (auto simp: subject_verdict_def class_verdict_def human_review_verdict_def Let_def)
  with assms(5,6) show ?thesis by (simp add: path_authority_def)
qed

lemma undeclared_manifest_allowed_witness:
  "vd_decision (subject_verdict sample_snapshot no_evidence (sample_subject ''web/package.json'')) = AllowedChange
   \<and> \<not> path_authority sample_snapshot (sj_path (sample_subject ''web/package.json''))"
proof (rule undeclared_manifest_allowed)
  let ?s = "sample_subject ''web/package.json''"
  show "cl_class (classify sample_snapshot (sj_path ?s)) \<in> {DependencyManifest, DependencyLockfile}"
    by code_simp
  show "class_policy (ss_class_policies sample_snapshot) (cl_class (classify sample_snapshot (sj_path ?s)))
      = Some HumanReview" by code_simp
  show "usable_evidence sample_snapshot no_evidence ?s" by code_simp
  show "\<not> prohibited sample_snapshot ?s" by code_simp
  show "\<not> declared sample_snapshot (sj_path ?s)" by code_simp
  show "\<not> configured sample_snapshot (sj_path ?s)" by code_simp
  show "ev_new_external_crates no_evidence = {}" by (simp add: no_evidence_def)
  show "sj_side ?s = New_Side" by code_simp
qed

text \<open>The legacy path summary of a check lists every changed file once, in order, under its kind.\<close>

lemma scope_check_result_exact:
  "scope_check_result_of files evaluation snapshot phase =
     \<lparr>sc_added = map cf_path (filter (\<lambda>f. cf_kind f = Added) files),
      sc_modified = map cf_path (filter (\<lambda>f. cf_kind f \<notin> {Added, Deleted, Renamed}) files),
      sc_deleted = map cf_path (filter (\<lambda>f. cf_kind f = Deleted) files),
      sc_renamed = map (\<lambda>f. (case cf_old_path f of Some p \<Rightarrow> p | None \<Rightarrow> [], cf_path f))
        (filter (\<lambda>f. cf_kind f = Renamed) files),
      sc_disposition = se_disposition evaluation, sc_findings = se_findings evaluation,
      sc_snapshot_hash = ss_snapshot_hash snapshot, sc_phase = phase\<rparr>"
proof -
  let ?old = "\<lambda>f. (case cf_old_path f of Some p \<Rightarrow> p | None \<Rightarrow> [], cf_path f)"
  have "foldl record_change r files =
      r\<lparr>sc_added := sc_added r @ map cf_path (filter (\<lambda>f. cf_kind f = Added) files),
        sc_modified := sc_modified r @ map cf_path (filter (\<lambda>f. cf_kind f \<notin> {Added, Deleted, Renamed}) files),
        sc_deleted := sc_deleted r @ map cf_path (filter (\<lambda>f. cf_kind f = Deleted) files),
        sc_renamed := sc_renamed r @ map ?old (filter (\<lambda>f. cf_kind f = Renamed) files)\<rparr>" for r
  proof (induction files arbitrary: r)
    case (Cons f files)
    then show ?case by (cases "cf_kind f") simp_all
  qed simp
  then show ?thesis by (simp add: scope_check_result_of_def)
qed

end
