(* ===== verification/Review_Policy.thy ===== *)
theory Review_Policy
  imports Review_Types
begin

text \<open>
  The validation of a review result, the second part of \<open>crates/familiar-ai-review/src/policy.rs\<close>: the
  blocking policy, the evidence a finding must carry, \<open>apply_and_validate\<close>, which turns what an agent
  reports into the durable disposition, and the independence of a reviewer (\<open>check_independence\<close>).
\<close>

section \<open>Blocking policy\<close>

record blocking_policy =
  bp_severities :: "finding_severity set"
  bp_categories :: "finding_category set"
  bp_category_floor :: finding_severity

definition default_blocking_policy :: blocking_policy where
  "default_blocking_policy =
     \<lparr>bp_severities = {Critical, High},
      bp_categories = {InvariantViolation, ArchitecturalDrift, SecurityIssue, ScopeViolation},
      bp_category_floor = Medium\<rparr>"

definition is_blocking :: "blocking_policy \<Rightarrow> finding_category \<Rightarrow> finding_severity \<Rightarrow> bool" where
  "is_blocking policy category severity \<longleftrightarrow>
     (category \<in> bp_categories policy \<and> severity \<le> bp_category_floor policy)
     \<or> severity \<in> bp_severities policy"

section \<open>Evidence\<close>

datatype review_validation_error =
  ReviewIdMismatch
| ManifestMismatch
| StaleVerification
| DuplicateFindingId
| UnsupportedFinding string
| InvalidEvidence
| AgentAcceptedRisk
| PriorFindingNotDisposed
| CategoryEvidenceMismatch string
| NarrationContradiction string

definition valid_path :: "string \<Rightarrow> bool" where
  "valid_path path \<longleftrightarrow>
     path \<noteq> [] \<and> \<not> starts_with path [slash] \<and> backslash \<notin> set path \<and> \<not> has_bad_component path"

definition evidence_resolves :: "string set \<Rightarrow> string set \<Rightarrow> finding_evidence \<Rightarrow> bool" where
  "evidence_resolves paths checks e =
     (case e of
        FileRange path lines \<Rightarrow>
          valid_path path \<and> path \<in> paths \<and> 0 < lr_start lines \<and> lr_start lines \<le> lr_end lines
      | DiffHunk path hunk \<Rightarrow> valid_path path \<and> path \<in> paths \<and> starts_with hunk ''@@''
      | Verification check_id output \<Rightarrow> check_id \<in> checks \<and> er_content_hash output \<noteq> []
      | Invariant source sec source_hash \<Rightarrow> valid_path source \<and> trim sec \<noteq> [] \<and> source_hash \<noteq> []
      | Contract source sec source_hash \<Rightarrow> valid_path source \<and> trim sec \<noteq> [] \<and> source_hash \<noteq> []
      | Artifact art field \<Rightarrow> er_content_hash art \<noteq> [] \<and> trim field \<noteq> [])"

definition validate_evidence ::
    "finding_evidence \<Rightarrow> string set \<Rightarrow> string set \<Rightarrow> review_validation_error + unit" where
  "validate_evidence e paths checks = ensure (evidence_resolves paths checks e) InvalidEvidence"

definition has_file :: "review_finding \<Rightarrow> bool" where
  "has_file f \<longleftrightarrow> list_ex (\<lambda>e. case e of FileRange _ _ \<Rightarrow> True | DiffHunk _ _ \<Rightarrow> True | _ \<Rightarrow> False) (rf_evidence f)"

definition has_check :: "review_finding \<Rightarrow> bool" where
  "has_check f \<longleftrightarrow> list_ex (\<lambda>e. case e of Verification _ _ \<Rightarrow> True | _ \<Rightarrow> False) (rf_evidence f)"

definition has_authority :: "review_finding \<Rightarrow> bool" where
  "has_authority f \<longleftrightarrow>
     list_ex (\<lambda>e. case e of Invariant _ _ _ \<Rightarrow> True | Contract _ _ _ \<Rightarrow> True | _ \<Rightarrow> False) (rf_evidence f)"

definition has_artifact :: "review_finding \<Rightarrow> bool" where
  "has_artifact f \<longleftrightarrow> list_ex (\<lambda>e. case e of Artifact _ _ \<Rightarrow> True | _ \<Rightarrow> False) (rf_evidence f)"

definition category_supported :: "review_finding \<Rightarrow> bool" where
  "category_supported f =
     (case rf_category f of
        CorrectnessDefect \<Rightarrow> has_file f \<and> has_check f
      | InvariantViolation \<Rightarrow> has_authority f \<and> (has_file f \<or> has_check f)
      | ArchitecturalDrift \<Rightarrow> has_authority f \<and> (has_file f \<or> has_check f)
      | SecurityIssue \<Rightarrow> has_file f \<or> has_artifact f
      | TestGap \<Rightarrow> has_file f \<or> has_check f
      | MaintainabilityIssue \<Rightarrow> has_file f \<and> (has_authority f \<or> has_check f)
      | ScopeViolation \<Rightarrow> has_file f
      | UnverifiableClaim \<Rightarrow> has_check f \<or> has_artifact f)"

definition validate_category_evidence :: "review_finding \<Rightarrow> review_validation_error + unit" where
  "validate_category_evidence f =
     ensure (category_supported f) (CategoryEvidenceMismatch (rf_finding_id f))"

section \<open>Validating a result\<close>

definition lacks_substance :: "review_finding \<Rightarrow> bool" where
  "lacks_substance f \<longleftrightarrow>
     trim (rf_title f) = [] \<or> trim (rf_claim f) = [] \<or> trim (rf_remediation f) = [] \<or> rf_evidence f = []"

definition set_blocking :: "blocking_policy \<Rightarrow> review_finding \<Rightarrow> review_finding" where
  "set_blocking policy f =
     f\<lparr>rf_blocking := (rf_status f = Open \<and> is_blocking policy (rf_category f) (rf_severity f))\<rparr>"

text \<open>The loop over the findings; \<open>ids\<close> holds the identifiers already seen.\<close>

fun validate_findings ::
    "blocking_policy \<Rightarrow> string set \<Rightarrow> string set \<Rightarrow> string set \<Rightarrow> review_finding list
     \<Rightarrow> review_validation_error + review_finding list" where
  "validate_findings policy paths checks ids [] = Inr []"
| "validate_findings policy paths checks ids (f # fs) =
     rbind (ensure (rf_finding_id f \<noteq> [] \<and> rf_finding_id f \<notin> ids) DuplicateFindingId) (\<lambda>_.
     rbind (ensure (\<not> lacks_substance f) (UnsupportedFinding (rf_finding_id f))) (\<lambda>_.
     rbind (traverse (\<lambda>e. validate_evidence e paths checks) (rf_evidence f)) (\<lambda>_.
     rbind (validate_category_evidence f) (\<lambda>_.
     rbind (ensure (rf_status f \<noteq> AcceptedRisk) AgentAcceptedRisk) (\<lambda>_.
     rbind (validate_findings policy paths checks (insert (rf_finding_id f) ids) fs) (\<lambda>rest.
     Inr (set_blocking policy f # rest)))))))"

definition prior_disposed :: "review_finding list \<Rightarrow> finding_reference \<Rightarrow> bool" where
  "prior_disposed findings prior =
     (case find (\<lambda>f. rf_finding_id f = fr_finding_id prior) findings of
        None \<Rightarrow> False
      | Some f \<Rightarrow> rf_status f \<in> {Open, Resolved, Superseded, Invalid}
                  \<and> \<not> (rf_status f = Superseded \<and> rf_supersedes f = None))"

definition failed_required_check :: "review_request \<Rightarrow> verification_evidence option" where
  "failed_required_check request =
     find (\<lambda>e. ve_required e \<and> ve_status e \<noteq> Passed) (rq_verification request)"

definition stops_landing :: "review_finding \<Rightarrow> bool" where
  "stops_landing f \<longleftrightarrow> rf_status f = Open \<and> (rf_blocking f \<or> rf_acceptance_criterion_id f \<noteq> None)"

definition durable_disposition :: "review_request \<Rightarrow> review_finding list \<Rightarrow> review_disposition" where
  "durable_disposition request findings =
     (if failed_required_check request \<noteq> None \<or> list_ex stops_landing findings
      then RemediationRequired else ReadyForHumanApproval)"

definition apply_and_validate ::
    "blocking_policy \<Rightarrow> review_request \<Rightarrow> review_result \<Rightarrow> review_validation_error + review_result" where
  "apply_and_validate policy request result =
     rbind (ensure (rr_review_id result = rq_review_id request) ReviewIdMismatch) (\<lambda>_.
     rbind (ensure (rr_reviewed_manifest_hash result = pm_manifest_hash (rq_manifest request)) ManifestMismatch) (\<lambda>_.
     rbind (ensure (\<not> list_ex (\<lambda>e. ve_tested_identity e \<noteq> er_content_hash (rq_diff request)) (rq_verification request))
              StaleVerification) (\<lambda>_.
     let paths = set (map cf_path (rq_changed_files request));
         checks = set (map ve_check_id (rq_verification request)) in
     rbind (validate_findings policy paths checks {} (rr_findings result)) (\<lambda>findings.
     rbind (ensure (list_all (prior_disposed findings) (rq_prior_findings request))
              PriorFindingNotDisposed) (\<lambda>_.
     let durable = durable_disposition request findings in
     if rr_disposition result \<noteq> Review_Pending \<and> rr_disposition result \<noteq> durable
     then Inl (NarrationContradiction
            (case failed_required_check request of None \<Rightarrow> ''review findings'' | Some e \<Rightarrow> ve_check_id e))
     else Inr (result\<lparr>rr_findings := findings, rr_disposition := durable\<rparr>))))))"

section \<open>Independence of the reviewer\<close>

definition check_independence ::
    "agent_assignment \<Rightarrow> agent_assignment \<Rightarrow> bool \<Rightarrow> isolation_evidence option \<Rightarrow> reviewer_independence option" where
  "check_independence impl reviewer allow_same isolation =
     (if aa_adapter_id impl = aa_adapter_id reviewer \<and> aa_session_id impl \<noteq> None
         \<and> aa_session_id impl = aa_session_id reviewer
      then None
      else if aa_provider impl \<noteq> aa_provider reviewer \<or> aa_requested_model impl \<noteq> aa_requested_model reviewer
      then Some \<lparr>ri_kind = IndependentProviderOrModel,
                 ri_evidence = [''configured provider or model differs'']\<rparr>
      else (case isolation of
          None \<Rightarrow> None
        | Some e \<Rightarrow>
          if allow_same \<and> ie_fresh_process e \<and> ie_adapter_id e = aa_adapter_id reviewer
          then Some \<lparr>ri_kind = IsolatedSameModelFallback, ri_evidence = [ie_detail e]\<rparr>
          else None))"

section \<open>What validation accepts\<close>

text \<open>The specification of one acceptable finding.\<close>

definition finding_ok :: "string set \<Rightarrow> string set \<Rightarrow> review_finding \<Rightarrow> bool" where
  "finding_ok paths checks f \<longleftrightarrow>
     rf_finding_id f \<noteq> [] \<and> \<not> lacks_substance f \<and> list_all (evidence_resolves paths checks) (rf_evidence f)
     \<and> category_supported f \<and> rf_status f \<noteq> AcceptedRisk"

lemma traverse_unit_Inr_iff:
  "(\<exists>us. traverse (\<lambda>e. ensure (P e) err) xs = Inr us) \<longleftrightarrow> list_all P xs"
  by (induction xs) (auto simp: result_simps)

lemma validate_findings_Inr_iff:
  "validate_findings policy paths checks ids fs = Inr gs \<longleftrightarrow>
     list_all (finding_ok paths checks) fs \<and> distinct (map rf_finding_id fs)
     \<and> set (map rf_finding_id fs) \<inter> ids = {} \<and> gs = map (set_blocking policy) fs"
proof (induction fs arbitrary: ids gs)
  case (Cons f fs)
  have ev: "(\<exists>us. traverse (\<lambda>e. validate_evidence e paths checks) (rf_evidence f) = Inr us)
      \<longleftrightarrow> list_all (evidence_resolves paths checks) (rf_evidence f)"
    unfolding validate_evidence_def by (rule traverse_unit_Inr_iff)
  have "validate_findings policy paths checks ids (f # fs) = Inr gs \<longleftrightarrow>
      rf_finding_id f \<noteq> [] \<and> rf_finding_id f \<notin> ids \<and> \<not> lacks_substance f
      \<and> (\<exists>us. traverse (\<lambda>e. validate_evidence e paths checks) (rf_evidence f) = Inr us)
      \<and> category_supported f \<and> rf_status f \<noteq> AcceptedRisk
      \<and> (\<exists>rest. validate_findings policy paths checks (insert (rf_finding_id f) ids) fs = Inr rest
               \<and> gs = set_blocking policy f # rest)"
    by (auto simp: rbind_Inr_iff ensure_Inr_iff validate_category_evidence_def)
  also have "\<dots> \<longleftrightarrow> finding_ok paths checks f \<and> rf_finding_id f \<notin> ids
      \<and> (\<exists>rest. list_all (finding_ok paths checks) fs \<and> distinct (map rf_finding_id fs)
               \<and> set (map rf_finding_id fs) \<inter> insert (rf_finding_id f) ids = {}
               \<and> rest = map (set_blocking policy) fs \<and> gs = set_blocking policy f # rest)"
    unfolding ev Cons.IH by (auto simp: finding_ok_def)
  also have "\<dots> \<longleftrightarrow> list_all (finding_ok paths checks) (f # fs) \<and> distinct (map rf_finding_id (f # fs))
     \<and> set (map rf_finding_id (f # fs)) \<inter> ids = {} \<and> gs = map (set_blocking policy) (f # fs)"
    by auto
  finally show ?case .
qed auto

definition request_bound :: "review_request \<Rightarrow> review_result \<Rightarrow> bool" where
  "request_bound request result \<longleftrightarrow>
     rr_review_id result = rq_review_id request
     \<and> rr_reviewed_manifest_hash result = pm_manifest_hash (rq_manifest request)
     \<and> list_all (\<lambda>e. ve_tested_identity e = er_content_hash (rq_diff request)) (rq_verification request)"

definition findings_acceptable :: "review_request \<Rightarrow> review_finding list \<Rightarrow> bool" where
  "findings_acceptable request fs \<longleftrightarrow>
     distinct (map rf_finding_id fs)
     \<and> list_all (finding_ok (set (map cf_path (rq_changed_files request)))
                   (set (map ve_check_id (rq_verification request)))) fs"

lemma apply_and_validate_Inr_iff:
  "apply_and_validate policy request result = Inr out \<longleftrightarrow>
     (let findings = map (set_blocking policy) (rr_findings result);
          durable = durable_disposition request findings in
      request_bound request result \<and> findings_acceptable request (rr_findings result)
      \<and> list_all (prior_disposed findings) (rq_prior_findings request)
      \<and> rr_disposition result \<in> {Review_Pending, durable}
      \<and> out = result\<lparr>rr_findings := findings, rr_disposition := durable\<rparr>)"
proof -
  have stale: "\<not> list_ex (\<lambda>e. ve_tested_identity e \<noteq> er_content_hash (rq_diff request)) vs
      \<longleftrightarrow> list_all (\<lambda>e. ve_tested_identity e = er_content_hash (rq_diff request)) vs" for vs
    by (auto simp: list_ex_iff list_all_iff)
  show ?thesis
    unfolding apply_and_validate_def Let_def stale
    by (auto simp: rbind_Inr_iff ensure_Inr_iff validate_findings_Inr_iff request_bound_def
        findings_acceptable_def)
qed

lemma set_blocking_fields [simp]:
  "rf_finding_id (set_blocking policy f) = rf_finding_id f" "rf_status (set_blocking policy f) = rf_status f"
  "rf_category (set_blocking policy f) = rf_category f" "rf_severity (set_blocking policy f) = rf_severity f"
  "rf_evidence (set_blocking policy f) = rf_evidence f"
  "rf_acceptance_criterion_id (set_blocking policy f) = rf_acceptance_criterion_id f"
  "lacks_substance (set_blocking policy f) = lacks_substance f"
  "set_blocking policy (set_blocking policy f) = set_blocking policy f"
  by (simp_all add: set_blocking_def lacks_substance_def)

lemma set_blocking_evidence [simp]:
  "has_file (set_blocking policy f) = has_file f" "has_check (set_blocking policy f) = has_check f"
  "has_authority (set_blocking policy f) = has_authority f" "has_artifact (set_blocking policy f) = has_artifact f"
  by (simp_all add: has_file_def has_check_def has_authority_def has_artifact_def)

lemma category_supported_set_blocking [simp]:
  "category_supported (set_blocking policy f) = category_supported f"
  by (cases "rf_category f") (simp_all add: category_supported_def)

lemma finding_ok_set_blocking [simp]: "finding_ok paths checks (set_blocking policy f) = finding_ok paths checks f"
  by (simp add: finding_ok_def)

text \<open>The specification of an objection: an open finding that the policy blocks or that an acceptance
  criterion rests on.\<close>

definition objection :: "blocking_policy \<Rightarrow> review_finding \<Rightarrow> bool" where
  "objection policy f \<longleftrightarrow>
     rf_status f = Open
     \<and> (is_blocking policy (rf_category f) (rf_severity f) \<or> rf_acceptance_criterion_id f \<noteq> None)"

lemma stops_landing_set_blocking: "stops_landing (set_blocking policy f) = objection policy f"
  by (auto simp: stops_landing_def objection_def) (simp_all add: set_blocking_def)

text \<open>A review result is accepted exactly when it answers this request on this manifest and diff, all
  its findings are distinct, substantiated by evidence that resolves in the review package and fit for
  their category, no agent accepts a risk, every prior finding is disposed of, and its narration does
  not contradict the durable disposition; what is stored is the result with the blocking flags and the
  disposition recomputed.\<close>

lemma apply_and_validate_exact:
  "apply_and_validate policy request result = Inr out \<longleftrightarrow>
     request_bound request result \<and> findings_acceptable request (rr_findings result)
     \<and> list_all (prior_disposed (map (set_blocking policy) (rr_findings result))) (rq_prior_findings request)
     \<and> rr_disposition result \<in>
         {Review_Pending, durable_disposition request (map (set_blocking policy) (rr_findings result))}
     \<and> out = result\<lparr>rr_findings := map (set_blocking policy) (rr_findings result),
                     rr_disposition := durable_disposition request (map (set_blocking policy) (rr_findings result))\<rparr>"
  unfolding apply_and_validate_Inr_iff Let_def by (rule refl)

text \<open>Readiness for human approval is earned: whatever flags and narration the agent sends, an
  accepted result is ready only if every required check passed and no finding of the agent is an
  objection under the policy, and it needs remediation otherwise.\<close>

lemma ready_is_earned:
  assumes "apply_and_validate policy request result = Inr out"
  shows "rr_disposition out =
     (if list_all (\<lambda>e. ve_required e \<longrightarrow> ve_status e = Passed) (rq_verification request)
         \<and> \<not> list_ex (objection policy) (rr_findings result)
      then ReadyForHumanApproval else RemediationRequired)"
proof -
  have "failed_required_check request = None \<longleftrightarrow>
      list_all (\<lambda>e. ve_required e \<longrightarrow> ve_status e = Passed) (rq_verification request)"
    by (auto simp: failed_required_check_def find_None_iff_ex list_all_iff)
  moreover have "list_ex stops_landing (map (set_blocking policy) (rr_findings result))
      \<longleftrightarrow> list_ex (objection policy) (rr_findings result)"
    by (simp add: list_ex_iff stops_landing_set_blocking)
  ultimately show ?thesis
    using assms unfolding apply_and_validate_Inr_iff Let_def durable_disposition_def by auto
qed

text \<open>Validation is idempotent: a stored result validates again against the same request and policy,
  to itself.\<close>

lemma apply_and_validate_idempotent:
  assumes "apply_and_validate policy request result = Inr out"
  shows "apply_and_validate policy request out = Inr out"
proof -
  have "map (set_blocking policy) (map (set_blocking policy) fs) = map (set_blocking policy) fs" for fs
    by simp
  then show ?thesis
    using assms unfolding apply_and_validate_Inr_iff Let_def
    by (auto simp: request_bound_def findings_acceptable_def list_all_iff comp_def)
qed

text \<open>Who passes as an independent reviewer.\<close>

lemma check_independence_safe:
  assumes "check_independence impl reviewer allow_same isolation = Some i"
  shows "\<not> (aa_adapter_id impl = aa_adapter_id reviewer \<and> aa_session_id reviewer \<noteq> None
            \<and> aa_session_id impl = aa_session_id reviewer)
       \<and> (ri_kind i = IndependentProviderOrModel \<longleftrightarrow>
            (aa_provider impl, aa_requested_model impl) \<noteq> (aa_provider reviewer, aa_requested_model reviewer))
       \<and> (ri_kind i = IsolatedSameModelFallback \<longrightarrow> allow_same
            \<and> (\<exists>e. isolation = Some e \<and> ie_fresh_process e \<and> ie_adapter_id e = aa_adapter_id reviewer))"
  using assms by (auto simp: check_independence_def split: if_splits option.splits)

section \<open>Witnesses\<close>

definition sample_evidence_ref :: evidence_ref where
  "sample_evidence_ref =
     \<lparr>er_content_hash = ''h1'', er_media_type = ''text/plain'', er_byte_size = 10, er_repository = ''r'',
      er_revision = ''v'', er_storage_ref = ''s'', er_truncated = False, er_omitted_bytes = 0\<rparr>"

definition sample_assignment :: "string \<Rightarrow> agent_role \<Rightarrow> agent_assignment" where
  "sample_assignment model role =
     \<lparr>aa_adapter_id = ''claude'', aa_agent_id = ''agent'', aa_provider = Some ''anthropic'',
      aa_requested_model = Some model, aa_role = role, aa_session_id = None\<rparr>"

definition sample_observation :: "string \<Rightarrow> agent_role \<Rightarrow> agent_observation" where
  "sample_observation model role =
     \<lparr>ao_assignment = sample_assignment model role, ao_agent_version = None, ao_reported_model = None,
      ao_unavailable_fields = []\<rparr>"

definition sample_usage :: "u64 \<Rightarrow> execution_usage" where
  "sample_usage n =
     \<lparr>us_input_tokens = None, us_output_tokens = None, us_cached_tokens = None, us_total_tokens = Some n,
      us_estimated_cost_microusd = None, us_pricing_provenance = None, us_unavailable_fields = []\<rparr>"

definition sample_task :: review_task where
  "sample_task =
     \<lparr>tk_task_id = ''task'', tk_objective = ''objective'', tk_acceptance_criteria = [],
      tk_base_revision = ''base'', tk_allowed_paths = [], tk_prohibited_changes = [],
      tk_verification_plan_id = ''plan''\<rparr>"

definition sample_check_evidence :: "string \<Rightarrow> verification_status \<Rightarrow> verification_evidence" where
  "sample_check_evidence tested status =
     \<lparr>ve_check_id = ''test'', ve_argv = [''cargo'', ''test''], ve_working_directory = ''.'',
      ve_environment_identity = [], ve_tool_identity = None, ve_tested_identity = tested,
      ve_started_at = [], ve_ended_at = [], ve_duration_ms = 5, ve_exit_code = Some 0, ve_signal = None,
      ve_status = status, ve_required = True, ve_summary = [], ve_stdout = Some sample_evidence_ref,
      ve_stderr = None, ve_truncated = False\<rparr>"

definition sample_request :: review_request where
  "sample_request =
     \<lparr>rq_review_id = ''review-1'', rq_task = sample_task,
      rq_implementation = sample_assignment ''m1'' Role_Implementation,
      rq_reviewer = sample_assignment ''m2'' Role_Review, rq_base_revision = ''base'',
      rq_candidate_revision = None,
      rq_changed_files = [\<lparr>cf_path = ''src/a.rs'', cf_kind = Modified, cf_old_path = None, cf_line_summary = []\<rparr>],
      rq_diff = sample_evidence_ref, rq_disclosed_diff = [], rq_contracts = [], rq_invariants = [],
      rq_verification = [sample_check_evidence ''h1'' Passed], rq_prior_findings = [],
      rq_budget = \<lparr>pb_max_bytes = 100, pb_max_estimated_tokens = 100\<rparr>,
      rq_manifest = \<lparr>pm_manifest_hash = ''m'', pm_diff_hash = ''h1'', pm_included_sources = [],
        pm_omissions = [], pm_total_bytes = 0, pm_estimated_tokens = 0\<rparr>\<rparr>"

definition sample_finding :: review_finding where
  "sample_finding =
     \<lparr>rf_finding_id = ''F1'', rf_category = CorrectnessDefect, rf_severity = High, rf_blocking = False,
      rf_title = ''off by one'', rf_claim = ''the loop misses the last line'',
      rf_evidence = [FileRange ''src/a.rs'' \<lparr>lr_start = 3, lr_end = 5\<rparr>, Verification ''test'' sample_evidence_ref],
      rf_remediation = ''use <='', rf_status = Open, rf_supersedes = None, rf_acceptance_criterion_id = None\<rparr>"

definition sample_result :: review_result where
  "sample_result =
     \<lparr>rr_review_id = ''review-1'', rr_reviewer = sample_observation ''m2'' Role_Review, rr_started_at = [],
      rr_ended_at = [], rr_duration_ms = 7, rr_findings = [sample_finding], rr_reviewed_manifest_hash = ''m'',
      rr_usage = sample_usage 3, rr_disposition = Review_Pending, rr_unavailable_fields = []\<rparr>"

definition sample_out :: review_result where
  "sample_out =
     sample_result\<lparr>rr_findings := [sample_finding\<lparr>rf_blocking := True\<rparr>], rr_disposition := RemediationRequired\<rparr>"

lemma sample_validates: "apply_and_validate default_blocking_policy sample_request sample_result = Inr sample_out"
  by code_simp

lemma ready_is_earned_witness: "rr_disposition sample_out = RemediationRequired"
proof -
  have "objection default_blocking_policy sample_finding" by code_simp
  then have "list_ex (objection default_blocking_policy) (rr_findings sample_result)"
    by (simp add: sample_result_def)
  with ready_is_earned [OF sample_validates] show ?thesis by simp
qed

lemma apply_and_validate_idempotent_witness:
  "apply_and_validate default_blocking_policy sample_request sample_out = Inr sample_out"
  by (rule apply_and_validate_idempotent [OF sample_validates])

end
