(* ===== verification/Review_Tier.thy ===== *)
theory Review_Tier
  imports Scope_Policy Review_Policy
begin

text \<open>
  Which reviewer and which depth of review, \<open>crates/familiar-ai-review/src/tier.rs\<close>: the capability a
  worker must prove (\<open>validate_review_capability\<close>), the first capable worker
  (\<open>select_capability_proven_reviewer\<close>) and the tier of a change (\<open>select_review_tier\<close>).
\<close>

section \<open>Capability\<close>

datatype review_tier = ChecksOnly | Standard | Batch | Full

record capability_probe =
  cp_structured_output :: bool
  cp_native_tool_calling :: bool
  cp_protocol :: string
  cp_runtime_version :: string
  cp_provenance :: string
  cp_probed_at :: string

datatype capability_reason =
  StructuredOutputUnsupported
| ToolCallingUnsupported
| ProtocolIncompatible string string
| RuntimeTooOld string string string
| ProbeFailed string

definition structured_review_protocol :: string where
  "structured_review_protocol = ''familiar-ai-review-v1''"

definition minimum_ollama_review_version :: string where
  "minimum_ollama_review_version = ''0.12.4''"

text \<open>\<open>str::split\<close> on the characters of a class.\<close>

fun split_when :: "(char \<Rightarrow> bool) \<Rightarrow> string \<Rightarrow> string list" where
  "split_when P [] = [[]]"
| "split_when P (c # cs) =
     (case split_when P cs of
        [] \<Rightarrow> []
      | p # ps \<Rightarrow> if P c then [] # p # ps else (c # p) # ps)"

definition version_numbers :: "string \<Rightarrow> u64 list" where
  "version_numbers v =
     map (\<lambda>p. case parse_u64 p of Some n \<Rightarrow> n | None \<Rightarrow> 0)
       (take 3 (filter (\<lambda>p. p \<noteq> []) (split_when (\<lambda>c. \<not> is_digit c) v)))"

definition resize3 :: "u64 list \<Rightarrow> u64 list" where
  "resize3 xs = take 3 xs @ replicate (3 - length xs) 0"

definition version_less_than :: "string \<Rightarrow> string \<Rightarrow> bool" where
  "version_less_than observed minimum \<longleftrightarrow>
     resize3 (version_numbers observed) < resize3 (version_numbers minimum)"

definition validate_review_capability :: "string \<Rightarrow> capability_probe \<Rightarrow> capability_reason + unit" where
  "validate_review_capability runtime probe =
     rbind (ensure (cp_structured_output probe) StructuredOutputUnsupported) (\<lambda>_.
     rbind (ensure (cp_native_tool_calling probe) ToolCallingUnsupported) (\<lambda>_.
     rbind (ensure (cp_protocol probe = structured_review_protocol)
              (ProtocolIncompatible structured_review_protocol (cp_protocol probe))) (\<lambda>_.
     ensure (\<not> (runtime = ''ollama''
                \<and> version_less_than (cp_runtime_version probe) minimum_ollama_review_version))
       (RuntimeTooOld runtime minimum_ollama_review_version (cp_runtime_version probe)))))"

text \<open>The candidates in routing order; the outage maps a quarantined worker to its last reason.\<close>

fun select_reviewer ::
    "(string \<times> string \<times> capability_probe) list \<Rightarrow> (string \<rightharpoonup> capability_reason)
     \<Rightarrow> (string \<rightharpoonup> capability_reason) + string" where
  "select_reviewer [] quarantined = Inl quarantined"
| "select_reviewer ((worker, runtime, probe) # rest) quarantined =
     (case validate_review_capability runtime probe of
        Inr _ \<Rightarrow> Inr worker
      | Inl reason \<Rightarrow> select_reviewer rest (quarantined(worker \<mapsto> reason)))"

definition select_capability_proven_reviewer ::
    "(string \<times> string \<times> capability_probe) list \<Rightarrow> (string \<rightharpoonup> capability_reason) + string" where
  "select_capability_proven_reviewer candidates = select_reviewer candidates Map.empty"

section \<open>The tier of a change\<close>

record tier_rule =
  tr_id :: string
  tr_tier :: review_tier
  tr_path_prefixes :: "string list"
  tr_max_changed_files :: "u64 option"
  tr_max_changed_bytes :: "u64 option"
  tr_change_kinds :: "git_change_kind list"
  tr_scope_classes :: "scope_file_class list"

record tier_policy =
  tp_full_review_risk_classes :: "string list"
  tp_batch_risk_classes :: "string list"
  tp_rules :: "tier_rule list"

record review_footprint =
  fo_changed_files :: u64
  fo_changed_bytes :: u64
  fo_files :: "string list"
  fo_change_kinds :: "git_change_kind list"
  fo_scope_classes :: "scope_file_class list"

record tier_selection =
  ts_tier :: review_tier
  ts_selecting_rule :: "string option"
  ts_reason :: string
  ts_footprint :: review_footprint

definition footprint_of :: "changed_file list \<Rightarrow> u64 \<Rightarrow> scope_check_result \<Rightarrow> review_footprint" where
  "footprint_of files changed_bytes scope =
     \<lparr>fo_changed_files =
        (if length files < 2 ^ 64 then word_of_nat (length files) else word_of_nat u64_max),
      fo_changed_bytes = changed_bytes, fo_files = map cf_path files,
      fo_change_kinds = remdups_adj (sort (map cf_kind files)),
      fo_scope_classes = remdups_adj (sort (map sf_file_class (sc_findings scope)))\<rparr>"

definition risky_class :: "scope_file_class \<Rightarrow> bool" where
  "risky_class c = (case c of
       Ambiguous \<Rightarrow> True | DependencyManifest \<Rightarrow> True | DependencyLockfile \<Rightarrow> True | Migration \<Rightarrow> True
     | Configuration \<Rightarrow> True | GeneratedArtifact \<Rightarrow> True | OrdinarySource \<Rightarrow> False | Test \<Rightarrow> False)"

definition unknown_or_risky :: "changed_file list \<Rightarrow> scope_check_result \<Rightarrow> bool" where
  "unknown_or_risky files scope \<longleftrightarrow>
     files = [] \<or> length (sc_findings scope) \<noteq> length files
     \<or> list_ex (\<lambda>f. risky_class (sf_file_class f)
          \<or> \<not> (case sf_decision f of AllowedChange \<Rightarrow> True | JustifiedExpectedFileChange \<Rightarrow> True | _ \<Rightarrow> False))
         (sc_findings scope)"

definition tier_rule_matches :: "review_footprint \<Rightarrow> changed_file list \<Rightarrow> tier_rule \<Rightarrow> bool" where
  "tier_rule_matches footprint files r \<longleftrightarrow>
     (case tr_max_changed_files r of None \<Rightarrow> True | Some m \<Rightarrow> fo_changed_files footprint \<le> m)
     \<and> (case tr_max_changed_bytes r of None \<Rightarrow> True | Some m \<Rightarrow> fo_changed_bytes footprint \<le> m)
     \<and> (tr_path_prefixes r = [] \<or> list_all (\<lambda>f. list_ex (\<lambda>prefix. cf_path f = prefix
            \<or> (ends_with prefix [slash] \<and> starts_with (cf_path f) prefix)) (tr_path_prefixes r)) files)
     \<and> (tr_change_kinds r = [] \<or> list_all (\<lambda>f. cf_kind f \<in> set (tr_change_kinds r)) files)
     \<and> (tr_scope_classes r = [] \<or> list_all (\<lambda>c. c \<in> set (tr_scope_classes r)) (fo_scope_classes footprint))"

definition select_review_tier ::
    "tier_policy \<Rightarrow> string list \<Rightarrow> changed_file list \<Rightarrow> u64 \<Rightarrow> scope_check_result \<Rightarrow> tier_selection" where
  "select_review_tier policy declared_risk files changed_bytes scope =
     (let footprint = footprint_of files changed_bytes scope;
          selection = (\<lambda>tier rule reason. \<lparr>ts_tier = tier, ts_selecting_rule = rule, ts_reason = reason,
                                            ts_footprint = footprint\<rparr>) in
      case find (\<lambda>c. c \<in> set (tp_full_review_risk_classes policy)) declared_risk of
        Some c \<Rightarrow> selection Full None (''declared risk class '' @ quoted c @ '' requires full review'')
      | None \<Rightarrow>
      if unknown_or_risky files scope
      then selection Full None ''unknown, ambiguous, or high-risk footprint''
      else (case find (\<lambda>c. c \<in> set (tp_batch_risk_classes policy)) declared_risk of
          Some c \<Rightarrow> selection Batch None
            (''declared risk class '' @ quoted c @ '' is configured for batch review'')
        | None \<Rightarrow>
          (case find (tier_rule_matches footprint files) (tp_rules policy) of
             Some r \<Rightarrow> selection (tr_tier r) (Some (tr_id r)) ''first matching operator-authored rule''
           | None \<Rightarrow> selection Full None ''unconfigured or unmatched footprint'')))"

section \<open>Facts on versions\<close>

lemma split_when_not_Nil [simp]: "split_when P s \<noteq> []"
  by (induction s) (auto split: list.splits)

lemma split_when_none: "list_all (\<lambda>c. \<not> P c) s \<Longrightarrow> split_when P s = [s]"
  by (induction s) auto

lemma split_when_append:
  "list_all (\<lambda>c. \<not> P c) s \<Longrightarrow> P c \<Longrightarrow> split_when P (s @ c # t) = s # split_when P t"
proof (induction s)
  case Nil
  then show ?case by (cases "split_when P t") auto
qed auto

lemma parse_show_u64: "parse_u64 (show_u64 n) = Some n"
  using unat_u64_bound [of n] by (simp add: show_u64_def parse_u64_digits show_nat_digits)

definition version_text :: "u64 \<Rightarrow> u64 \<Rightarrow> u64 \<Rightarrow> string" where
  "version_text a b c = show_u64 a @ ''.'' @ show_u64 b @ ''.'' @ show_u64 c"

lemma version_numbers_text: "version_numbers (version_text a b c) = [a, b, c]"
proof -
  have d: "list_all (\<lambda>c. \<not> \<not> is_digit c) (show_u64 n)" for n
    using show_nat_digits by (simp add: show_u64_def)
  have ne: "show_u64 n \<noteq> []" for n by (simp add: show_u64_def)
  have dot: "\<not> is_digit (CHR ''.'')" by code_simp
  have "split_when (\<lambda>c. \<not> is_digit c) (version_text a b c) = [show_u64 a, show_u64 b, show_u64 c]"
    unfolding version_text_def using dot d
    by (simp add: split_when_append split_when_none)
  then show ?thesis by (simp add: version_numbers_def ne parse_show_u64)
qed

lemma select_reviewer_exact:
  "select_reviewer cs q =
     (case find (\<lambda>(w, r, p). is_ok (validate_review_capability r p)) cs of
        Some (w, _, _) \<Rightarrow> Inr w
      | None \<Rightarrow> Inl (q ++ map_of (rev (map (\<lambda>(w, r, p). (w, projl (validate_review_capability r p))) cs))))"
proof (induction cs arbitrary: q)
  case (Cons c cs)
  obtain w r p where c: "c = (w, r, p)" by (cases c)
  show ?case
    by (cases "validate_review_capability r p")
      (auto simp: c Cons.IH is_ok_def map_add_def fun_eq_iff split: option.splits)
qed simp

section \<open>Properties\<close>

text \<open>On version texts the comparison is the lexicographic order of the three numbers, at their 64
  bits; anything that follows the third number, a pre-release tag included, does not count.\<close>

lemma version_less_than_exact:
  "version_less_than (version_text a b c) (version_text x y z)
     \<longleftrightarrow> a < x \<or> (a = x \<and> (b < y \<or> (b = y \<and> c < z)))"
  by (simp add: version_less_than_def version_numbers_text resize3_def)

text \<open>The first capable worker in routing order is selected; there is an outage exactly when no
  candidate is capable, and it names for every candidate the reason of its last probe.\<close>

lemma select_capability_proven_reviewer_exact:
  "select_capability_proven_reviewer cs =
     (case find (\<lambda>(w, r, p). is_ok (validate_review_capability r p)) cs of
        Some (w, _, _) \<Rightarrow> Inr w
      | None \<Rightarrow> Inl (map_of (rev (map (\<lambda>(w, r, p). (w, projl (validate_review_capability r p))) cs))))"
  unfolding select_capability_proven_reviewer_def select_reviewer_exact empty_map_add by (rule refl)

lemma not_unknown_or_risky:
  "\<not> unknown_or_risky files scope \<longleftrightarrow> files \<noteq> [] \<and> length (sc_findings scope) = length files
     \<and> (\<forall>f \<in> set (sc_findings scope). \<not> risky_class (sf_file_class f) \<and> permits (sf_decision f))"
proof -
  have "(case d of AllowedChange \<Rightarrow> True | JustifiedExpectedFileChange \<Rightarrow> True | _ \<Rightarrow> False) = permits d" for d
    by (cases d) simp_all
  then show ?thesis by (auto simp: unknown_or_risky_def list_ex_iff)
qed

lemma select_review_tier_not_full:
  assumes "ts_tier (select_review_tier policy declared_risk files changed_bytes scope) \<noteq> Full"
  shows "\<not> unknown_or_risky files scope
       \<and> set declared_risk \<inter> set (tp_full_review_risk_classes policy) = {}"
proof (cases "find (\<lambda>c. c \<in> set (tp_full_review_risk_classes policy)) declared_risk")
  case None
  with assms show ?thesis
    by (auto simp: select_review_tier_def Let_def find_None_iff_ex split: if_splits)
next
  case (Some c)
  with assms show ?thesis by (simp add: select_review_tier_def Let_def)
qed

lemma subjects_of_hd: "\<exists>r. subjects_of f =
   \<lparr>sj_change_id = change_id_of f, sj_side = New_Side, sj_path = cf_path f,
      sj_old_path = cf_old_path f, sj_kind = cf_kind f\<rparr> # r"
  by (simp add: subjects_of_def)

lemma length_all_subjects: "length files \<le> length (all_subjects files)"
proof (induction files)
  case (Cons f files)
  obtain s r where "subjects_of f = s # r" using subjects_of_hd by blast
  with Cons show ?case by (simp add: all_subjects_def)
qed (simp add: all_subjects_def)

lemma length_all_subjects_eq:
  "length (all_subjects files) = length files \<Longrightarrow> f \<in> set files \<Longrightarrow> length (subjects_of f) = 1"
proof (induction files)
  case (Cons g files)
  obtain s r where g: "subjects_of g = s # r" using subjects_of_hd by blast
  have "length (all_subjects (g # files)) = length (subjects_of g) + length (all_subjects files)"
    by (simp add: all_subjects_def)
  then have "length (subjects_of g) = 1 \<and> length (all_subjects files) = length files"
    using Cons.prems(1) length_all_subjects [of files] g by simp
  with Cons show ?case by auto
qed simp

text \<open>A change that skips full review is contained: its PRD declares no full-review risk class, every
  changed file is authorised by the scope policy, is ordinary source or a test, and none is a rename or
  a copy.\<close>

lemma light_review_contained:
  assumes "ts_tier (select_review_tier policy declared_risk files changed_bytes
      (scope_check_result_of files (evaluate_scope snapshot files ev) snapshot phase)) \<noteq> Full"
  shows "se_disposition (evaluate_scope snapshot files ev) = Contained \<and> files \<noteq> []
       \<and> set declared_risk \<inter> set (tp_full_review_risk_classes policy) = {}
       \<and> (\<forall>f \<in> set files. cl_class (classify snapshot (cf_path f)) \<in> {OrdinarySource, Test}
            \<and> \<not> (cf_kind f \<in> {Renamed, Copied}))"
proof -
  let ?e = "evaluate_scope snapshot files ev"
  let ?scope = "scope_check_result_of files ?e snapshot phase"
  have sc: "sc_findings ?scope = se_findings ?e"
  proof -
    have "sc_findings (foldl record_change r fs) = sc_findings r" for r fs
    proof (induction fs arbitrary: r)
      case (Cons f fs)
      then show ?case by (cases "cf_kind f") simp_all
    qed simp
    then show ?thesis by (simp add: scope_check_result_of_def)
  qed
  note nf = select_review_tier_not_full [OF assms]
  have fset: "set (se_findings ?e) = evaluate_subject snapshot ev ` set (all_subjects files)"
    and flen: "length (se_findings ?e) = length (all_subjects files)"
    by (simp_all add: evaluate_scope_def all_subjects_def Let_def)
  from nf have ne: "files \<noteq> []" and len: "length (all_subjects files) = length files"
    and each: "\<forall>s \<in> set (all_subjects files). \<not> risky_class (cl_class (classify snapshot (sj_path s)))
        \<and> permits (vd_decision (subject_verdict snapshot ev s))"
    unfolding not_unknown_or_risky sc fset flen by (auto simp: evaluate_subject_def Let_def)
  have auth: "authorised snapshot ev s" if "s \<in> set (all_subjects files)" for s
    using each that subject_verdict_permits by blast
  have "se_disposition ?e = Contained"
    using auth unfolding evaluate_scope_contained_iff by (auto simp: list_all_iff all_subjects_def)
  moreover have "cl_class (classify snapshot (cf_path f)) \<in> {OrdinarySource, Test}
      \<and> \<not> (cf_kind f \<in> {Renamed, Copied})" if f: "f \<in> set files" for f
  proof -
    let ?s = "\<lparr>sj_change_id = change_id_of f, sj_side = New_Side, sj_path = cf_path f,
      sj_old_path = cf_old_path f, sj_kind = cf_kind f\<rparr>"
    have s: "?s \<in> set (all_subjects files)" using f by (auto simp: all_subjects_def subjects_of_def)
    have one: "length (subjects_of f) = 1" by (rule length_all_subjects_eq [OF len f])
    have "usable_evidence snapshot ev ?s" using auth [OF s] by (simp add: authorised_def)
    then have "\<not> (cf_kind f \<in> {Renamed, Copied})"
      using one by (auto simp: usable_evidence_def subjects_of_def)
    moreover have "\<not> risky_class (cl_class (classify snapshot (cf_path f)))" using each s by force
    then have "cl_class (classify snapshot (cf_path f)) \<in> {OrdinarySource, Test}"
      by (cases "cl_class (classify snapshot (cf_path f))") (simp_all add: risky_class_def)
    ultimately show ?thesis by blast
  qed
  ultimately show ?thesis using ne nf by blast
qed

definition sample_tier_policy :: tier_policy where
  "sample_tier_policy =
     \<lparr>tp_full_review_risk_classes = [''security''], tp_batch_risk_classes = [],
      tp_rules = [\<lparr>tr_id = ''docs'', tr_tier = ChecksOnly, tr_path_prefixes = [''docs/''],
        tr_max_changed_files = Some 3, tr_max_changed_bytes = None, tr_change_kinds = [Modified],
        tr_scope_classes = []\<rparr>]\<rparr>"

lemma light_review_contained_witness:
  "se_disposition (evaluate_scope sample_snapshot [sample_change ''docs/a.md''] no_evidence) = Contained"
proof -
  have "ts_tier (select_review_tier sample_tier_policy [''ui''] [sample_change ''docs/a.md''] 10
      (scope_check_result_of [sample_change ''docs/a.md'']
        (evaluate_scope sample_snapshot [sample_change ''docs/a.md''] no_evidence) sample_snapshot ''final'')) = ChecksOnly"
    by code_simp
  then show ?thesis
    using light_review_contained [of sample_tier_policy "[''ui'']" "[sample_change ''docs/a.md'']" 10
        sample_snapshot no_evidence "''final''"] by simp
qed

end
