(* ===== verification/Effects.thy ===== *)
theory Effects
  imports Prelude
begin

text \<open>
  Fallible code that acts on a state: a step has its result and the next state, also when it fails (what
  \<open>&mut self\<close> or the world had become by then). \<open>io_bind\<close> is \<open>?\<close>, \<open>io_attempt\<close> is a \<open>match\<close> on a result.
  \<open>io_wp\<close> is the weakest precondition for a postcondition on success and one on failure; its
  equations evaluate a program step by step.

  Also the error type of the workspace, \<open>crates/familiar-ai-core/src/error.rs\<close>.
\<close>

section \<open>Errors of the workspace\<close>

datatype familiar_error =
  Config_Error string | Io_Error string | Already_Running | Shutdown_Error string
| Database_Error string | Watcher_Error string | Mcp_Error string | Llm_Error string

definition show_familiar_error :: "familiar_error \<Rightarrow> string" where
  "show_familiar_error e = (case e of
       Config_Error m \<Rightarrow> ''configuration error: '' @ m
     | Io_Error m \<Rightarrow> ''I/O error: '' @ m
     | Already_Running \<Rightarrow> ''daemon is already running''
     | Shutdown_Error m \<Rightarrow> ''shutdown error: '' @ m
     | Database_Error m \<Rightarrow> ''database error: '' @ m
     | Watcher_Error m \<Rightarrow> ''watcher error: '' @ m
     | Mcp_Error m \<Rightarrow> ''MCP error: '' @ m
     | Llm_Error m \<Rightarrow> ''LLM error: '' @ m)"

text \<open>What the \<open>rusqlite\<close> driver reports about a violated constraint and a missing row.\<close>

definition unique_failed :: "string \<Rightarrow> familiar_error" where
  "unique_failed column = Database_Error (''UNIQUE constraint failed: '' @ column)"

definition foreign_key_failed :: familiar_error where
  "foreign_key_failed = Database_Error ''FOREIGN KEY constraint failed''"

definition no_rows :: familiar_error where
  "no_rows = Database_Error ''Query returned no rows''"

section \<open>Programs\<close>

type_synonym ('w, 'e, 'a) io = "'w \<Rightarrow> ('e + 'a) \<times> 'w"

definition io_lift :: "'e + 'a \<Rightarrow> ('w, 'e, 'a) io" where
  "io_lift r w = (r, w)"

definition io_bind :: "('w, 'e, 'a) io \<Rightarrow> ('a \<Rightarrow> ('w, 'e, 'b) io) \<Rightarrow> ('w, 'e, 'b) io" where
  "io_bind m f w = (case m w of (Inl e, w') \<Rightarrow> (Inl e, w') | (Inr a, w') \<Rightarrow> f a w')"

fun io_traverse :: "('a \<Rightarrow> ('w, 'e, 'b) io) \<Rightarrow> 'a list \<Rightarrow> ('w, 'e, 'b list) io" where
  "io_traverse f [] = io_lift (Inr [])"
| "io_traverse f (x # xs) = io_bind (f x) (\<lambda>y. io_bind (io_traverse f xs) (\<lambda>ys. io_lift (Inr (y # ys))))"

definition io_return :: "'a \<Rightarrow> ('w, 'e, 'a) io" where
  "io_return a = io_lift (Inr a)"

definition io_fail :: "'e \<Rightarrow> ('w, 'e, 'a) io" where
  "io_fail e = io_lift (Inl e)"

definition io_then :: "('w, 'e, unit) io \<Rightarrow> ('w, 'e, 'b) io \<Rightarrow> ('w, 'e, 'b) io" where
  "io_then m k = io_bind m (\<lambda>_. k)"

definition io_get :: "('w, 'e, 'w) io" where
  "io_get w = (Inr w, w)"

definition io_modify :: "('w \<Rightarrow> 'w) \<Rightarrow> ('w, 'e, unit) io" where
  "io_modify f w = (Inr (), f w)"

text \<open>The result as a value; nothing escapes.\<close>

definition io_attempt :: "('w, 'e, 'a) io \<Rightarrow> ('w, 'f, 'e + 'a) io" where
  "io_attempt m w = (case m w of (r, w') \<Rightarrow> (Inr r, w'))"

definition io_map_err :: "('e \<Rightarrow> 'f) \<Rightarrow> ('w, 'e, 'a) io \<Rightarrow> ('w, 'f, 'a) io" where
  "io_map_err f m w = (case m w of (r, w') \<Rightarrow> (map_err f r, w'))"

definition io_when :: "bool \<Rightarrow> ('w, 'e, unit) io \<Rightarrow> ('w, 'e, unit) io" where
  "io_when b m = (if b then m else io_return ())"

text \<open>\<open>for x in xs { .. }\<close>\<close>

fun io_each :: "('a \<Rightarrow> ('w, 'e, unit) io) \<Rightarrow> 'a list \<Rightarrow> ('w, 'e, unit) io" where
  "io_each f [] = io_return ()"
| "io_each f (x # xs) = io_then (f x) (io_each f xs)"

lemma io_bind_Inr_iff [result_simps]:
  "io_bind m f w = (Inr y, w') \<longleftrightarrow> (\<exists>x u. m w = (Inr x, u) \<and> f x u = (Inr y, w'))"
  by (auto simp: io_bind_def split: prod.splits sum.splits)

lemma io_lift_iff [simp]: "io_lift r w = (r', w') \<longleftrightarrow> r = r' \<and> w' = w"
  by (auto simp: io_lift_def)

lemma io_traverse_keeps:
  assumes "io_traverse f xs w = (Inr ys, w')"
    and "\<And>x y u u'. f x u = (Inr y, u') \<Longrightarrow> g y = h x"
  shows "map g ys = map h xs"
  using assms by (induction xs arbitrary: ys w w') (auto simp: io_bind_Inr_iff)

section \<open>Weakest preconditions\<close>

definition io_wp :: "('w, 'e, 'a) io \<Rightarrow> ('a \<Rightarrow> 'w \<Rightarrow> bool) \<Rightarrow> ('e \<Rightarrow> 'w \<Rightarrow> bool) \<Rightarrow> 'w \<Rightarrow> bool" where
  "io_wp m Q E w = (case m w of (Inl e, w') \<Rightarrow> E e w' | (Inr a, w') \<Rightarrow> Q a w')"

named_theorems io_wp_simps "weakest preconditions of the basic programs"

lemma io_wp_return [io_wp_simps]: "io_wp (io_return a) Q E w \<longleftrightarrow> Q a w"
  by (simp add: io_wp_def io_return_def io_lift_def)

lemma io_wp_fail [io_wp_simps]: "io_wp (io_fail e) Q E w \<longleftrightarrow> E e w"
  by (simp add: io_wp_def io_fail_def io_lift_def)

lemma io_wp_get [io_wp_simps]: "io_wp io_get Q E w \<longleftrightarrow> Q w w"
  by (simp add: io_wp_def io_get_def)

lemma io_wp_modify [io_wp_simps]: "io_wp (io_modify f) Q E w \<longleftrightarrow> Q () (f w)"
  by (simp add: io_wp_def io_modify_def)

lemma io_wp_bind [io_wp_simps]: "io_wp (io_bind m f) Q E w \<longleftrightarrow> io_wp m (\<lambda>a. io_wp (f a) Q E) E w"
  by (auto simp: io_wp_def io_bind_def split: prod.splits sum.splits)

lemma io_wp_then [io_wp_simps]: "io_wp (io_then m k) Q E w \<longleftrightarrow> io_wp m (\<lambda>_. io_wp k Q E) E w"
  by (simp add: io_then_def io_wp_bind)

lemma io_wp_attempt [io_wp_simps]:
  "io_wp (io_attempt m) Q E w \<longleftrightarrow> io_wp m (\<lambda>a. Q (Inr a)) (\<lambda>e. Q (Inl e)) w"
  by (auto simp: io_wp_def io_attempt_def split: prod.splits sum.splits)

lemma io_wp_map_err [io_wp_simps]: "io_wp (io_map_err f m) Q E w \<longleftrightarrow> io_wp m Q (\<lambda>e. E (f e)) w"
  by (auto simp: io_wp_def io_map_err_def split: prod.splits sum.splits)

lemma io_wp_when [io_wp_simps]: "io_wp (io_when b m) Q E w \<longleftrightarrow> (if b then io_wp m Q E w else Q () w)"
  by (simp add: io_when_def io_wp_return)

lemma io_wp_mono:
  "io_wp m Q E w \<Longrightarrow> (\<And>a w'. Q a w' \<Longrightarrow> Q' a w') \<Longrightarrow> (\<And>e w'. E e w' \<Longrightarrow> E' e w') \<Longrightarrow> io_wp m Q' E' w"
  by (auto simp: io_wp_def split: prod.splits sum.splits)

lemma io_wp_each:
  assumes "I w" and "\<And>x u. x \<in> set xs \<Longrightarrow> I u \<Longrightarrow> io_wp (f x) (\<lambda>_. I) E u"
  shows "io_wp (io_each f xs) (\<lambda>_. I) E w"
  using assms
proof (induction xs arbitrary: w)
  case Nil then show ?case by (simp add: io_wp_simps)
next
  case (Cons x xs)
  have "io_wp (f x) (\<lambda>_. I) E w" using Cons.prems by simp
  then show ?case
    unfolding io_each.simps io_wp_then by (rule io_wp_mono) (use Cons in auto)
qed

lemma io_wpD: "io_wp m Q E w \<Longrightarrow> m w = (Inr a, w') \<Longrightarrow> Q a w'"
  by (simp add: io_wp_def)

lemma io_wpD_error: "io_wp m Q E w \<Longrightarrow> m w = (Inl e, w') \<Longrightarrow> E e w'"
  by (simp add: io_wp_def)

section \<open>Introduction rules\<close>

named_theorems io_rules "introduction rules for weakest preconditions"

lemma io_rules_basic [io_rules]:
  "io_wp m (\<lambda>a. io_wp (f a) Q E) E w \<Longrightarrow> io_wp (io_bind m f) Q E w"
  "io_wp n (\<lambda>_. io_wp k Q E) E w \<Longrightarrow> io_wp (io_then n k) Q E w"
  by (simp_all add: io_wp_simps)

lemma io_rules_attempt [io_rules]:
  "io_wp m (\<lambda>a. Q (Inr a)) (\<lambda>e. Q (Inl e)) w \<Longrightarrow> io_wp (io_attempt m) Q E w"
  by (simp add: io_wp_simps)

lemma io_rules_map_err [io_rules]: "io_wp m Q (\<lambda>e. E (f e)) w \<Longrightarrow> io_wp (io_map_err f m) Q E w"
  by (simp add: io_wp_simps)

lemma io_rules_return [io_rules]: "Q a w \<Longrightarrow> io_wp (io_return a) Q E w"
  by (simp add: io_wp_simps)

lemma io_rules_fail [io_rules]: "E e w \<Longrightarrow> io_wp (io_fail e) Q E w"
  by (simp add: io_wp_simps)

lemma io_rules_get [io_rules]: "Q w w \<Longrightarrow> io_wp io_get Q E w"
  by (simp add: io_wp_simps)

lemma io_rules_modify [io_rules]: "Q () (f w) \<Longrightarrow> io_wp (io_modify f) Q E w"
  by (simp add: io_wp_simps)

lemma io_rules_when [io_rules]:
  "(b \<Longrightarrow> io_wp m Q E w) \<Longrightarrow> (\<not> b \<Longrightarrow> Q () w) \<Longrightarrow> io_wp (io_when b m) Q E w"
  by (simp add: io_wp_simps)

lemma io_rules_if [io_rules]:
  "(b \<Longrightarrow> io_wp m Q E w) \<Longrightarrow> (\<not> b \<Longrightarrow> io_wp k Q E w) \<Longrightarrow> io_wp (if b then m else k) Q E w"
  by simp

lemma io_rules_sum [io_rules]:
  "(\<And>e. r = Inl e \<Longrightarrow> io_wp (f e) Q E w) \<Longrightarrow> (\<And>a. r = Inr a \<Longrightarrow> io_wp (g a) Q E w)
     \<Longrightarrow> io_wp (case r of Inl e \<Rightarrow> f e | Inr a \<Rightarrow> g a) Q E w"
  by (cases r) auto

lemma io_rules_option [io_rules]:
  "(r = None \<Longrightarrow> io_wp m Q E w) \<Longrightarrow> (\<And>a. r = Some a \<Longrightarrow> io_wp (g a) Q E w)
     \<Longrightarrow> io_wp (case r of None \<Rightarrow> m | Some a \<Rightarrow> g a) Q E w"
  by (cases r) auto

end
