(* ===== verification/Review_Evidence.thy ===== *)
theory Review_Evidence
  imports Scope_Policy Review_Policy Utf8 Effects
begin

text \<open>
  The evidence a review works on, \<open>crates/familiar-ai-review/src/evidence.rs\<close>: reading what git reports
  (\<open>parse_name_status\<close>, \<open>changed_ranges\<close>), the secret scan (\<open>contains_secret\<close>), the crates a lock file
  gains (\<open>lockfile_additions\<close>), the evidence of the scope policy (\<open>collect_scope_evidence\<close>) and the
  substance by which approvals and waivers match. Running git, the file metadata, JSON and SHA-256 are
  parameters.
\<close>

record captured_diff =
  cd_base_revision :: string
  cd_resulting_tree :: string
  cd_changed_files :: "changed_file list"
  cd_diff :: evidence_ref
  cd_bytes :: string

datatype evidence_error =
  Git_Failed string
| MalformedGit
| Evidence_Overflow
| DiffTooLarge u64 u64
| SecretDetected
| Evidence_Io string

section \<open>Reading git\<close>

text \<open>\<open>str::split_whitespace\<close>.\<close>

function ws_pieces :: "string \<Rightarrow> string list" where
  "ws_pieces s =
     (case find (\<lambda>p. p \<noteq> [] \<and> starts_with s p) white_space of
        Some p \<Rightarrow> [] # ws_pieces (drop (length p) s)
      | None \<Rightarrow>
        (case s of
           [] \<Rightarrow> [[]]
         | c # cs \<Rightarrow> (case ws_pieces cs of [] \<Rightarrow> [[c]] | w # ws \<Rightarrow> (c # w) # ws)))"
  by pat_completeness auto
termination
proof (relation "measure length")
  fix s p
  assume "find (\<lambda>p. p \<noteq> [] \<and> starts_with s p) white_space = Some p"
  then have "p \<noteq> []" and "take (length p) s = p"
    by (auto simp: find_Some_iff starts_with_def)
  then have "p \<noteq> [] \<and> s \<noteq> []" by auto
  then show "(drop (length p) s, s) \<in> measure length" by simp
qed auto

declare ws_pieces.simps [simp del]

definition split_whitespace :: "string \<Rightarrow> string list" where
  "split_whitespace s = filter (\<lambda>w. w \<noteq> []) (ws_pieces s)"

definition git_u64 :: "string \<Rightarrow> evidence_error + u64" where
  "git_u64 s = ok_or MalformedGit (parse_u64 s)"

definition parse_range :: "string \<Rightarrow> char \<Rightarrow> evidence_error + u64 \<times> u64" where
  "parse_range value_text prefix =
     rbind (ok_or MalformedGit (strip_prefix value_text [prefix])) (\<lambda>v.
     let (start, count) = (case split_once v '','' of Some ab \<Rightarrow> ab | None \<Rightarrow> (v, ''1'')) in
     rbind (git_u64 start) (\<lambda>a. rbind (git_u64 count) (\<lambda>b. Inr (a, b))))"

definition hunk_range :: "string \<Rightarrow> evidence_error + line_range option" where
  "hunk_range line =
     (let flds = drop 1 (split_whitespace line) in
      rbind (ok_or MalformedGit (case flds of [] \<Rightarrow> None | old # _ \<Rightarrow> Some old)) (\<lambda>old.
      rbind (ok_or MalformedGit (case drop 1 flds of [] \<Rightarrow> None | new # _ \<Rightarrow> Some new)) (\<lambda>new.
      rbind (parse_range new (CHR ''+'')) (\<lambda>(new_start, new_count).
      rbind (if new_count = 0 then parse_range old (CHR ''-'') else Inr (new_start, new_count))
        (\<lambda>(start, count).
         if count = 0 then Inr None
         else rbind (ok_or Evidence_Overflow (checked_add64 start (count - 1)))
                (\<lambda>e. Inr (Some \<lparr>lr_start = unat start, lr_end = unat e\<rparr>)))))))"

definition changed_ranges :: "string \<Rightarrow> evidence_error + line_range list" where
  "changed_ranges bytes =
     rbind (ensure (utf8_valid bytes) MalformedGit) (\<lambda>_.
     rbind (traverse hunk_range (filter (\<lambda>l. starts_with l ''@@ '') (str_lines bytes))) (\<lambda>rs.
     Inr (concat (map (\<lambda>r. case r of None \<Rightarrow> [] | Some x \<Rightarrow> [x]) rs))))"

definition git_path :: "string \<Rightarrow> evidence_error + string" where
  "git_path v =
     (if \<not> utf8_valid v then Inl MalformedGit
      else if v = [] \<or> starts_with v [slash] \<or> backslash \<in> set v
           \<or> list_ex (\<lambda>x. x = ''.'' \<or> x = ''..'') (split_char slash v)
      then Inl MalformedGit else Inr v)"

definition take_field :: "string list \<Rightarrow> evidence_error + string \<times> string list" where
  "take_field flds = (case flds of [] \<Rightarrow> Inl MalformedGit | f # r \<Rightarrow> rbind (git_path f) (\<lambda>p. Inr (p, r)))"

definition simple_kind :: "char \<Rightarrow> git_change_kind option" where
  "simple_kind code =
     (if code = CHR ''A'' then Some Added else if code = CHR ''M'' then Some Modified
      else if code = CHR ''D'' then Some Deleted else if code = CHR ''T'' then Some TypeChanged
      else if code = CHR ''U'' then Some Unmerged else None)"

definition parse_change :: "string \<Rightarrow> string list \<Rightarrow> evidence_error + changed_file \<times> string list" where
  "parse_change status flds =
     rbind (ensure (utf8_valid status) MalformedGit) (\<lambda>_.
     case status of
       [] \<Rightarrow> Inl MalformedGit
     | code # _ \<Rightarrow>
       rbind (case simple_kind code of
           Some k \<Rightarrow> Inr (k, None, flds)
         | None \<Rightarrow>
           if code = CHR ''R'' \<or> code = CHR ''C''
           then rbind (take_field flds) (\<lambda>(old, rest).
                  Inr (if code = CHR ''R'' then Renamed else Copied, Some old, rest))
           else Inl MalformedGit)
         (\<lambda>(k, old, rest). rbind (take_field rest) (\<lambda>(current, rest').
            Inr (\<lparr>cf_path = current, cf_kind = k, cf_old_path = old, cf_line_summary = []\<rparr>, rest'))))"

lemma take_field_shorter: "take_field flds = Inr (p, r) \<Longrightarrow> length r < length flds"
  by (auto simp: take_field_def rbind_Inr_iff split: list.splits)

lemma parse_change_shorter: "parse_change status flds = Inr (f, r) \<Longrightarrow> length r < length flds"
  by (auto simp: parse_change_def rbind_Inr_iff split: list.splits option.splits if_splits prod.splits
      dest!: take_field_shorter)

function parse_changes :: "string list \<Rightarrow> evidence_error + changed_file list" where
  "parse_changes [] = Inr []"
| "parse_changes (status # flds) =
     (case parse_change status flds of
        Inl e \<Rightarrow> Inl e
      | Inr (f, rest) \<Rightarrow> rbind (parse_changes rest) (\<lambda>fs. Inr (f # fs)))"
  by pat_completeness auto
termination
  by (relation "measure length") (auto dest!: parse_change_shorter)

definition parse_name_status :: "string \<Rightarrow> evidence_error + changed_file list" where
  "parse_name_status bytes =
     rbind (parse_changes (filter (\<lambda>f. f \<noteq> []) (split_char (CHR 0x00) bytes)))
       (\<lambda>fs. Inr (sort_key cf_path fs))"

section \<open>Secrets\<close>

definition is_alnum :: "char \<Rightarrow> bool" where
  "is_alnum c \<longleftrightarrow> is_digit c \<or> is_lower c \<or> (65 \<le> byte c \<and> byte c \<le> 90)"

definition token_byte :: "char \<Rightarrow> bool" where
  "token_byte c \<longleftrightarrow> is_alnum c \<or> c \<in> set ''-_.+/''"

definition value_separator :: "char \<Rightarrow> bool" where
  "value_separator c \<longleftrightarrow>
     c \<in> {CHR '' '', tab, nl, CHR 0x0C, cr, CHR 0x22, CHR 0x27, CHR ''='', CHR '':''}"

definition token_length :: "string \<Rightarrow> nat" where
  "token_length after = length (takeWhile token_byte (dropWhile value_separator after))"

text \<open>The loop advances past a marker at each turn, so the length of the text is enough fuel.\<close>

primrec marker_scan :: "nat \<Rightarrow> string \<Rightarrow> string \<Rightarrow> bool" where
  "marker_scan 0 haystack marker = False"
| "marker_scan (Suc n) haystack marker =
     (case find_sub marker haystack of
        None \<Rightarrow> False
      | Some i \<Rightarrow>
        let after = drop (i + length marker) haystack in
        16 \<le> token_length after \<or> marker_scan n after marker)"

definition marker_has_value :: "string \<Rightarrow> string \<Rightarrow> bool" where
  "marker_has_value haystack marker = marker_scan (Suc (length haystack)) haystack marker"

definition secret_markers :: "string list" where
  "secret_markers =
     [''-----begin private key-----'', ''-----begin rsa private key-----'', ''aws_secret_access_key'',
      ''authorization: bearer '', ''github_pat_'', ''sk-proj-'']"

definition contains_secret :: "string \<Rightarrow> bool" where
  "contains_secret bytes =
     list_ex (marker_has_value (map ascii_lower (utf8_lossy bytes))) secret_markers"

section \<open>Scope evidence\<close>

definition trim_quotes :: "string \<Rightarrow> string" where
  "trim_quotes s = trim_of [[CHR 0x22]] s"

text \<open>The state of the scan: inside \<open>Cargo.lock\<close>, names added, names removed.\<close>

definition lockfile_line ::
    "bool \<times> string set \<times> string set \<Rightarrow> string \<Rightarrow> bool \<times> string set \<times> string set" where
  "lockfile_line st line =
     (let (in_lockfile, added, removed) = st in
      if starts_with line ''diff --git '' then
        (ends_with line ''Cargo.lock'' \<or> contains_sub line ''/Cargo.lock '', added, removed)
      else if \<not> in_lockfile then st
      else (case line of
          [] \<Rightarrow> st
        | c # rest \<Rightarrow>
          let name = (case strip_prefix (trim rest) ''name = '' of None \<Rightarrow> None
                      | Some v \<Rightarrow> Some (trim_quotes (trim v))) in
          if c = CHR ''+'' \<and> \<not> starts_with line ''+++'' then
            (case name of None \<Rightarrow> st | Some n \<Rightarrow> (in_lockfile, insert n added, removed))
          else if c = CHR ''-'' \<and> \<not> starts_with line ''---'' then
            (case name of None \<Rightarrow> st | Some n \<Rightarrow> (in_lockfile, added, insert n removed))
          else st))"

definition lockfile_additions :: "string \<Rightarrow> string set" where
  "lockfile_additions diff =
     (let (_, added, removed) = foldl lockfile_line (False, {}, {}) (str_lines (utf8_lossy diff)) in
      added - removed)"

text \<open>What \<open>symlink_metadata\<close> answers for a path of the repository.\<close>

datatype metadata = Is_Symlink | Not_Symlink | Not_Found | Io_Failure string

fun collect_symlinks ::
    "(string \<Rightarrow> metadata) \<Rightarrow> changed_file list \<Rightarrow> string set \<Rightarrow> evidence_error + string set" where
  "collect_symlinks meta [] links = Inr links"
| "collect_symlinks meta (f # fs) links =
     (if cf_kind f = Deleted then collect_symlinks meta fs links
      else (case meta (cf_path f) of
          Is_Symlink \<Rightarrow> collect_symlinks meta fs (insert (cf_path f) links)
        | Not_Symlink \<Rightarrow> collect_symlinks meta fs links
        | Not_Found \<Rightarrow> collect_symlinks meta fs links
        | Io_Failure e \<Rightarrow> Inl (Evidence_Io e)))"

definition collect_scope_evidence ::
    "(string \<Rightarrow> metadata) \<Rightarrow> changed_file list \<Rightarrow> string \<Rightarrow> evidence_error + scope_evidence" where
  "collect_scope_evidence meta files diff =
     rbind (collect_symlinks meta files {}) (\<lambda>links.
     Inr \<lparr>ev_symlink_paths = links, ev_new_external_crates = lockfile_additions diff\<rparr>)"

section \<open>Capturing a candidate\<close>

text \<open>
  The repository: \<open>gc_git\<close> runs git and yields its standard output, \<open>gc_index_git\<close> does so with the
  scratch index, \<open>gc_remove_index\<close> deletes that index (an absent one is no error).
\<close>

record 'w git_collector =
  gc_artifact_directory :: string
  gc_max_diff_bytes :: u64
  gc_repository :: string
  gc_sha256 :: "string \<Rightarrow> string"
  gc_create_dir :: "('w, evidence_error, unit) io"
  gc_git :: "string list \<Rightarrow> ('w, evidence_error, string) io"
  gc_index_git :: "string list \<Rightarrow> ('w, evidence_error, string) io"
  gc_remove_index :: "('w, evidence_error, unit) io"
  gc_write :: "string \<Rightarrow> string \<Rightarrow> ('w, evidence_error, unit) io"

definition path_join :: "string \<Rightarrow> string \<Rightarrow> string" where
  "path_join dir name = (if dir = [] \<or> ends_with dir [slash] then dir @ name else dir @ [slash] @ name)"

definition snapshot_tree :: "'w git_collector \<Rightarrow> string \<Rightarrow> ('w, evidence_error, string) io" where
  "snapshot_tree gc base w =
     (let (result, w1) =
        io_bind (gc_index_git gc [''read-tree'', base]) (\<lambda>_.
        io_bind (gc_index_git gc [''add'', ''-A'']) (\<lambda>_.
        io_bind (gc_index_git gc [''write-tree'']) (\<lambda>v.
        io_lift (if utf8_valid v then Inr (trim v) else Inl MalformedGit)))) w;
        (removed, w2) = gc_remove_index gc w1 in
      (case removed of Inl e \<Rightarrow> Inl e | Inr _ \<Rightarrow> result, w2))"

definition file_ranges ::
    "'w git_collector \<Rightarrow> string \<Rightarrow> string \<Rightarrow> changed_file \<Rightarrow> ('w, evidence_error, changed_file) io" where
  "file_ranges gc base tree f =
     io_bind (gc_git gc [''diff'', ''--unified=0'', ''--no-color'', base, tree, ''--'', cf_path f]) (\<lambda>bytes.
     io_bind (io_lift (changed_ranges bytes)) (\<lambda>rs. io_lift (Inr (f\<lparr>cf_line_summary := rs\<rparr>))))"

definition retain_diff :: "'w git_collector \<Rightarrow> string \<Rightarrow> string \<Rightarrow> ('w, evidence_error, evidence_ref) io" where
  "retain_diff gc base diff =
     (let hash = content_hash (gc_sha256 gc) diff; path = path_join (gc_artifact_directory gc) hash in
      io_bind (io_lift (ensure (\<not> contains_secret diff) SecretDetected)) (\<lambda>_.
      io_bind (gc_write gc path diff) (\<lambda>_.
      io_bind (io_lift (if length diff < 2 ^ 64 then Inr (word_of_nat (length diff)) else Inl Evidence_Overflow))
        (\<lambda>size.
      io_lift (if gc_max_diff_bytes gc < size then Inl (DiffTooLarge size (gc_max_diff_bytes gc))
               else Inr \<lparr>er_content_hash = hash, er_media_type = ''text/x-diff'', er_byte_size = size,
                 er_repository = map (\<lambda>c. if c = backslash then slash else c) (gc_repository gc),
                 er_revision = ''baseline:'' @ base @ '';diff:'' @ hash, er_storage_ref = path,
                 er_truncated = False, er_omitted_bytes = 0\<rparr>)))))"

definition capture :: "'w git_collector \<Rightarrow> string \<Rightarrow> ('w, evidence_error, captured_diff) io" where
  "capture gc base =
     io_bind (gc_create_dir gc) (\<lambda>_.
     io_bind (snapshot_tree gc base) (\<lambda>tree.
     io_bind (gc_git gc [''diff'', ''--binary'', ''--no-ext-diff'', ''--find-renames'', base, tree, ''--''])
       (\<lambda>diff.
     io_bind (gc_git gc [''diff'', ''--name-status'', ''-z'', ''--find-renames'', base, tree, ''--'']) (\<lambda>names.
     io_bind (io_lift (parse_name_status names)) (\<lambda>files.
     io_bind (io_traverse (file_ranges gc base tree) files) (\<lambda>files'.
     io_bind (retain_diff gc base diff) (\<lambda>r.
     io_lift (Inr \<lparr>cd_base_revision = base, cd_resulting_tree = tree, cd_changed_files = files',
                   cd_diff = r, cd_bytes = diff\<rparr>))))))))"

section \<open>Substance of findings\<close>

definition scope_finding_substance_hash ::
    "(scope_finding \<Rightarrow> string + string) \<Rightarrow> (string \<Rightarrow> string) \<Rightarrow> scope_finding \<Rightarrow> string" where
  "scope_finding_substance_hash to_string sha256 f =
     content_hash sha256
       (case to_string (f\<lparr>sf_snapshot_hash := []\<rparr>) of Inl _ \<Rightarrow> [] | Inr s \<Rightarrow> s)"

definition category_label :: "finding_category \<Rightarrow> string" where
  "category_label c = (case c of
       CorrectnessDefect \<Rightarrow> ''correctness_defect'' | InvariantViolation \<Rightarrow> ''invariant_violation''
     | ArchitecturalDrift \<Rightarrow> ''architectural_drift'' | SecurityIssue \<Rightarrow> ''security_issue''
     | TestGap \<Rightarrow> ''test_gap'' | MaintainabilityIssue \<Rightarrow> ''maintainability_issue''
     | ScopeViolation \<Rightarrow> ''scope_violation'' | UnverifiableClaim \<Rightarrow> ''unverifiable_claim'')"

definition citation :: "finding_evidence \<Rightarrow> string option" where
  "citation e =
     (case e of
        FileRange path _ \<Rightarrow> Some (''path:'' @ path)
      | DiffHunk path _ \<Rightarrow> Some (''path:'' @ path)
      | Verification check_id _ \<Rightarrow> Some (''check:'' @ check_id)
      | Invariant source sec _ \<Rightarrow> Some (''invariant:'' @ source @ ''#'' @ sec)
      | Contract _ _ _ \<Rightarrow> None
      | Artifact _ _ \<Rightarrow> None)"

definition filter_some :: "('a \<Rightarrow> 'b option) \<Rightarrow> 'a list \<Rightarrow> 'b list" where
  "filter_some f xs = concat (map (\<lambda>x. case f x of None \<Rightarrow> [] | Some y \<Rightarrow> [y]) xs)"

definition review_finding_substance :: "review_finding \<Rightarrow> string \<times> string list" where
  "review_finding_substance f =
     (category_label (rf_category f), remdups_adj (sort (filter_some citation (rf_evidence f))))"

text \<open>
  A stored waiver is JSON; \<open>read_waiver\<close> is the JSON reader: no value for a text that is not JSON,
  otherwise the string under \<open>category\<close> and the strings of the array under \<open>cited\<close>, where present.
\<close>

definition waiver_covers ::
    "(string \<Rightarrow> (string option \<times> string list option) option) \<Rightarrow> string \<Rightarrow> review_finding \<Rightarrow> bool" where
  "waiver_covers read_waiver waived f =
     (case read_waiver waived of
        None \<Rightarrow> False
      | Some (waived_category, waived_cited) \<Rightarrow>
        let (category, cited) = review_finding_substance f in
        if waived_category \<noteq> Some category then False
        else (case waived_cited of
            None \<Rightarrow> False
          | Some ws \<Rightarrow> cited \<noteq> [] \<and> list_all (\<lambda>c. c \<in> set ws) cited))"

section \<open>Facts\<close>

text \<open>How \<open>git diff --name-status -z\<close> writes a change.\<close>

definition status_text :: "git_change_kind \<Rightarrow> string" where
  "status_text k = (case k of
       Added \<Rightarrow> ''A'' | Modified \<Rightarrow> ''M'' | Deleted \<Rightarrow> ''D'' | Renamed \<Rightarrow> ''R100'' | Copied \<Rightarrow> ''C75''
     | TypeChanged \<Rightarrow> ''T'' | Unmerged \<Rightarrow> ''U'')"

definition change_fields :: "changed_file \<Rightarrow> string list" where
  "change_fields f =
     status_text (cf_kind f) # (case cf_old_path f of None \<Rightarrow> [] | Some old \<Rightarrow> [old]) @ [cf_path f]"

definition git_output :: "changed_file list \<Rightarrow> string" where
  "git_output fs = concat (map (\<lambda>x. x @ [CHR 0x00]) (concat (map change_fields fs)))"

definition reportable :: "changed_file \<Rightarrow> bool" where
  "reportable f \<longleftrightarrow>
     list_all (\<lambda>p. git_path p = Inr p \<and> CHR 0x00 \<notin> set p) (drop 1 (change_fields f))
     \<and> (cf_old_path f \<noteq> None \<longleftrightarrow> cf_kind f \<in> {Renamed, Copied}) \<and> cf_line_summary f = []"

lemma split_char_terminated:
  "list_all (\<lambda>x. c \<notin> set x) xs \<Longrightarrow> split_char c (concat (map (\<lambda>x. x @ [c]) xs)) = xs @ [[]]"
  by (induction xs) (auto simp: split_char_append_sep split_char_id)

lemma git_path_not_Nil: "git_path p = Inr p \<Longrightarrow> p \<noteq> []"
  by (auto simp: git_path_def split: if_splits)

lemma parse_change_encoded:
  assumes "reportable f"
  shows "parse_change (status_text (cf_kind f)) (drop 1 (change_fields f) @ rest) = Inr (f, rest)"
proof -
  have f: "f = \<lparr>cf_path = cf_path f, cf_kind = cf_kind f, cf_old_path = cf_old_path f, cf_line_summary = []\<rparr>"
    using assms by (simp add: reportable_def)
  have p: "git_path (cf_path f) = Inr (cf_path f)"
    using assms by (simp add: reportable_def change_fields_def)
  have o: "cf_old_path f = Some q \<Longrightarrow> git_path q = Inr q" for q
    using assms by (auto simp: reportable_def change_fields_def)
  have v: "utf8_valid (status_text k)" for k
    by (cases k) (simp_all add: status_text_def, code_simp+)
  show ?thesis
  proof (cases "cf_old_path f")
    case None
    then have "cf_kind f \<notin> {Renamed, Copied}" using assms by (simp add: reportable_def)
    then show ?thesis
      using None p v [of "cf_kind f"] f
      by (cases "cf_kind f") (simp_all add: parse_change_def change_fields_def status_text_def
          simple_kind_def take_field_def ensure_def)
  next
    case (Some q)
    then have "cf_kind f \<in> {Renamed, Copied}" using assms by (simp add: reportable_def)
    then show ?thesis
      using Some p o [OF Some] v [of "cf_kind f"] f
      by (cases "cf_kind f") (simp_all add: parse_change_def change_fields_def status_text_def
          simple_kind_def take_field_def ensure_def)
  qed
qed

lemma parse_changes_encoded:
  "list_all reportable fs \<Longrightarrow> parse_changes (concat (map change_fields fs)) = Inr fs"
proof (induction fs)
  case (Cons f fs)
  have "change_fields f = status_text (cf_kind f) # drop 1 (change_fields f)"
    by (simp add: change_fields_def)
  then show ?case
    using Cons parse_change_encoded [of f "concat (map change_fields fs)"]
    by (metis (no_types, lifting) append_Cons case_prod_conv concat.simps(2) list.pred_inject(2)
        list.simps(9) parse_changes.simps(2) rbind.simps(2) sum.case(2))
qed simp

lemma reportable_fields:
  assumes "list_all reportable fs"
  shows "list_all (\<lambda>x. CHR 0x00 \<notin> set x \<and> x \<noteq> []) (concat (map change_fields fs))"
proof -
  have st: "CHR 0x00 \<notin> set (status_text k) \<and> status_text k \<noteq> []" for k
    by (cases k) (simp_all add: status_text_def)
  have "list_all (\<lambda>x. CHR 0x00 \<notin> set x \<and> x \<noteq> []) (change_fields f)" if "reportable f" for f
  proof -
    have "list_all (\<lambda>x. CHR 0x00 \<notin> set x \<and> x \<noteq> []) (drop 1 (change_fields f))"
      using that git_path_not_Nil by (auto simp: reportable_def list_all_iff)
    then show ?thesis using st by (simp add: change_fields_def)
  qed
  with assms show ?thesis by (auto simp: list_all_iff)
qed

text \<open>The change list is read back from what git writes: parsing the NUL-separated status output of
  any list of changes with acceptable paths gives these changes, sorted by path.\<close>

lemma parse_name_status_round_trip:
  assumes "list_all reportable fs"
  shows "parse_name_status (git_output fs) = Inr (sort_key cf_path fs)"
proof -
  let ?flds = "concat (map change_fields fs)"
  note rf = reportable_fields [OF assms]
  have "split_char (CHR 0x00) (git_output fs) = ?flds @ [[]]"
    unfolding git_output_def using rf by (intro split_char_terminated) (auto simp: list_all_iff)
  moreover have "filter (\<lambda>f. f \<noteq> []) ?flds = ?flds"
    using rf by (auto simp: list_all_iff filter_id_conv)
  ultimately show ?thesis
    using parse_changes_encoded [OF assms] by (simp add: parse_name_status_def)
qed

definition sample_changes :: "changed_file list" where
  "sample_changes =
     [\<lparr>cf_path = ''src/b.rs'', cf_kind = Renamed, cf_old_path = Some ''src/a.rs'', cf_line_summary = []\<rparr>,
      \<lparr>cf_path = ''doc.md'', cf_kind = Added, cf_old_path = None, cf_line_summary = []\<rparr>]"

lemma parse_name_status_round_trip_witness:
  "parse_name_status (git_output sample_changes) = Inr (sort_key cf_path sample_changes)"
  by (rule parse_name_status_round_trip) code_simp

lemma set_review_finding_cited:
  "set (snd (review_finding_substance f)) = set (filter_some citation (rf_evidence f))"
  by (simp add: review_finding_substance_def)

text \<open>A waiver recorded for one finding covers another exactly when the category is the same, the other
  cites something, and everything it cites was cited by the waived one; so a waiver never covers a
  finding with a new citation, and one that rests on contracts or artifacts alone is never covered.\<close>

lemma waiver_covers_exact:
  assumes "read_waiver stored = Some (Some (fst (review_finding_substance f)),
                                      Some (snd (review_finding_substance f)))"
  shows "waiver_covers read_waiver stored g \<longleftrightarrow>
      rf_category g = rf_category f \<and> filter_some citation (rf_evidence g) \<noteq> []
      \<and> set (filter_some citation (rf_evidence g)) \<subseteq> set (filter_some citation (rf_evidence f))"
proof -
  have "category_label a = category_label b \<longleftrightarrow> a = b" for a b
    by (cases a; cases b) (simp_all add: category_label_def)
  moreover have "remdups_adj (sort xs) = [] \<longleftrightarrow> xs = []" for xs :: "string list"
    by (metis remdups_adj_set set_empty set_sort)
  ultimately show ?thesis
    using assms by (auto simp: waiver_covers_def review_finding_substance_def list_all_iff)
qed

lemma waiver_covers_exact_witness:
  "waiver_covers (\<lambda>_. Some (Some ''correctness_defect'', Some [''check:test'', ''path:src/a.rs''])) ''{}''
     sample_finding"
proof -
  let ?read = "\<lambda>_. Some (Some ''correctness_defect'', Some [''check:test'', ''path:src/a.rs''])"
  have "?read ''{}'' = Some (Some (fst (review_finding_substance sample_finding)),
                            Some (snd (review_finding_substance sample_finding)))" by code_simp
  from waiver_covers_exact [of ?read "''{}''" sample_finding sample_finding, OF this]
  have "waiver_covers ?read ''{}'' sample_finding
      \<longleftrightarrow> filter_some citation (rf_evidence sample_finding) \<noteq> []" by simp
  moreover have "filter_some citation (rf_evidence sample_finding) \<noteq> []" by code_simp
  ultimately show ?thesis by simp
qed

section \<open>What is captured\<close>

lemma file_ranges_keeps: "file_ranges gc base tree f u = (Inr y, u') \<Longrightarrow> y\<lparr>cf_line_summary := []\<rparr> = f\<lparr>cf_line_summary := []\<rparr>"
  by (auto simp: file_ranges_def io_bind_Inr_iff)

text \<open>A captured diff is safe to hand on: it carries no secret and no more bytes than the limit, is
  named by the hash of its bytes, belongs to the requested base, and its change list is the one git
  reported, with only the line ranges filled in.\<close>

lemma captured_diff_safe:
  assumes "capture gc base w = (Inr captured, w')"
  shows "\<not> contains_secret (cd_bytes captured)
     \<and> length (cd_bytes captured) \<le> unat (gc_max_diff_bytes gc)
     \<and> unat (er_byte_size (cd_diff captured)) = length (cd_bytes captured)
     \<and> er_content_hash (cd_diff captured) = content_hash (gc_sha256 gc) (cd_bytes captured)
     \<and> \<not> er_truncated (cd_diff captured) \<and> cd_base_revision captured = base
     \<and> (\<exists>names files u u'.
          gc_git gc [''diff'', ''--name-status'', ''-z'', ''--find-renames'', base, cd_resulting_tree captured, ''--''] u
            = (Inr names, u')
          \<and> parse_name_status names = Inr files
          \<and> map (\<lambda>f. f\<lparr>cf_line_summary := []\<rparr>) (cd_changed_files captured)
             = map (\<lambda>f. f\<lparr>cf_line_summary := []\<rparr>) files)"
proof -
  from assms obtain tree diff names files files' r u1 u2 u3 u4 u5 u6 where
    names: "gc_git gc [''diff'', ''--name-status'', ''-z'', ''--find-renames'', base, tree, ''--''] u1 = (Inr names, u2)"
    and files: "parse_name_status names = Inr files"
    and ranges: "io_traverse (file_ranges gc base tree) files u3 = (Inr files', u4)"
    and diff: "retain_diff gc base diff u5 = (Inr r, u6)"
    and captured: "captured = \<lparr>cd_base_revision = base, cd_resulting_tree = tree, cd_changed_files = files',
                   cd_diff = r, cd_bytes = diff\<rparr>"
    unfolding capture_def io_bind_Inr_iff io_lift_iff
    by (elim exE conjE) (rule that, assumption, assumption, assumption, assumption, simp)
  have same: "map (\<lambda>f. f\<lparr>cf_line_summary := []\<rparr>) files' = map (\<lambda>f. f\<lparr>cf_line_summary := []\<rparr>) files"
    by (rule io_traverse_keeps [OF ranges file_ranges_keeps])
  from diff have "\<not> contains_secret diff" "length diff < 2 ^ 64"
    "\<not> gc_max_diff_bytes gc < word_of_nat (length diff)"
    "er_byte_size r = word_of_nat (length diff)" "er_content_hash r = content_hash (gc_sha256 gc) diff"
    "\<not> er_truncated r"
    by (auto simp: retain_diff_def Let_def io_bind_Inr_iff result_simps split: if_splits)
  moreover from this have "unat (word_of_nat (length diff) :: u64) = length diff"
    by (simp add: unsigned_of_nat take_bit_nat_eq_self)
  ultimately show ?thesis
    using names files same by (auto simp: captured word_less_nat_alt)
qed

definition sample_collector :: "unit git_collector" where
  "sample_collector =
     \<lparr>gc_artifact_directory = ''a'', gc_max_diff_bytes = 10, gc_repository = ''r'', gc_sha256 = id,
      gc_create_dir = io_lift (Inr ()),
      gc_git = (\<lambda>args. io_lift (Inr (if ''--name-status'' \<in> set args then [CHR ''M'', CHR 0x00, CHR ''f''] else []))),
      gc_index_git = (\<lambda>_. io_lift (Inr ''t'')), gc_remove_index = io_lift (Inr ()),
      gc_write = (\<lambda>_ _. io_lift (Inr ()))\<rparr>"

lemma captured_diff_safe_witness:
  "\<exists>captured. capture sample_collector ''base'' () = (Inr captured, ())
     \<and> map cf_path (cd_changed_files captured) = [''f''] \<and> length (cd_bytes captured) \<le> 10"
proof -
  have "(case capture sample_collector ''base'' () of
      (Inr c, _) \<Rightarrow> map cf_path (cd_changed_files c) = [''f''] | _ \<Rightarrow> False)" by code_simp
  then obtain c where c: "capture sample_collector ''base'' () = (Inr c, ())"
    "map cf_path (cd_changed_files c) = [''f'']"
    by (auto split: prod.splits sum.splits)
  from captured_diff_safe [OF c(1)] c show ?thesis by (auto simp: sample_collector_def)
qed

end
