(* ===== verification/Review_Package.thy ===== *)
theory Review_Package
  imports Review_Evidence
begin

text \<open>
  The package a reviewer sees, \<open>crates/familiar-ai-review/src/package.rs\<close>: cutting a diff into whole
  hunks (\<open>whole_hunks\<close>) and choosing the hunks that fit a budget (\<open>build_review_request\<close>). JSON, SHA-256
  and the fixed instruction text are fields of \<open>package_codec\<close>. The inner loop that settles the size
  recorded in the manifest may run for ever for an arbitrary codec: the result is an option, and
  \<open>settle_terminates\<close> states when it is \<open>Some\<close>.
\<close>

record package_input =
  pi_review_id :: string
  pi_task :: review_task
  pi_implementation :: agent_assignment
  pi_reviewer :: agent_assignment
  pi_candidate_revision :: "string option"
  pi_captured :: captured_diff
  pi_contracts :: "bounded_document list"
  pi_invariants :: "bounded_invariant list"
  pi_verification :: "verification_evidence list"
  pi_prior_findings :: "finding_reference list"
  pi_budget :: package_budget

datatype package_error =
  RequiredEvidenceOverBudget
| BaseRevisionMismatch string string
| Package_Overflow
| Package_Serialize string
| UnsafeSecret
| NonUtf8Diff

type_synonym package_substance =
  "review_task \<times> bounded_document list \<times> bounded_invariant list \<times> verification_evidence list
   \<times> finding_reference list"

type_synonym package_identity =
  "string \<times> string \<times> string list \<times> package_omission list \<times> u64 \<times> u64 \<times> string"

record package_codec =
  pk_instructions :: string
  pk_request_json :: "review_request \<Rightarrow> string + string"
  pk_substance_json :: "package_substance \<Rightarrow> string + string"
  pk_identity_json :: "package_identity \<Rightarrow> string + string"
  pk_sha256 :: "string \<Rightarrow> string"

definition render_review_prompt :: "package_codec \<Rightarrow> review_request \<Rightarrow> package_error + string" where
  "render_review_prompt codec request =
     rbind (map_err Package_Serialize (pk_request_json codec request))
       (\<lambda>json. Inr (pk_instructions codec @ json))"

definition len64 :: "string \<Rightarrow> package_error + u64" where
  "len64 s = (if length s < 2 ^ 64 then Inr (word_of_nat (length s)) else Inl Package_Overflow)"

definition estimate_tokens :: "u64 \<Rightarrow> package_error + u64" where
  "estimate_tokens bytes =
     rbind (ok_or Package_Overflow (checked_add64 bytes 3)) (\<lambda>v. Inr (v div 4))"

definition fits :: "package_budget \<Rightarrow> string \<Rightarrow> package_error + bool" where
  "fits budget s =
     rbind (len64 s) (\<lambda>bytes.
     if bytes \<le> pb_max_bytes budget
     then rbind (estimate_tokens bytes) (\<lambda>t. Inr (t \<le> pb_max_estimated_tokens budget))
     else Inr False)"

definition reject_secrets :: "string \<Rightarrow> package_error + unit" where
  "reject_secrets bytes = ensure (\<not> contains_secret bytes) UnsafeSecret"

section \<open>Hunks\<close>

text \<open>\<open>split_inclusive\<close> on the line feed.\<close>

fun inclusive_lines :: "string \<Rightarrow> string list" where
  "inclusive_lines [] = []"
| "inclusive_lines (c # cs) =
     (if c = nl then [c] # inclusive_lines cs
      else (case inclusive_lines cs of [] \<Rightarrow> [[c]] | l # ls \<Rightarrow> (c # l) # ls))"

fun file_sections :: "string list \<Rightarrow> string \<Rightarrow> string list" where
  "file_sections [] current = (if current = [] then [] else [current])"
| "file_sections (l # ls) current =
     (if starts_with l ''diff --git '' \<and> current \<noteq> []
      then current # file_sections ls l else file_sections ls (current @ l))"

text \<open>\<open>match_indices\<close> of a pattern that cannot overlap itself is every position where it starts.\<close>

definition hunk_starts :: "string \<Rightarrow> nat list" where
  "hunk_starts section_text =
     filter (\<lambda>i. starts_with (drop i section_text) ''@@ '' \<and> (i = 0 \<or> section_text ! (i - 1) = nl))
       [0 ..< length section_text]"

fun slices :: "string \<Rightarrow> nat list \<Rightarrow> string list" where
  "slices s [] = []"
| "slices s [a] = [drop a s]"
| "slices s (a # b # r) = take (b - a) (drop a s) # slices s (b # r)"

definition section_chunks :: "string \<Rightarrow> string list" where
  "section_chunks section_text =
     (case hunk_starts section_text of
        [] \<Rightarrow> [section_text]
      | p # ps \<Rightarrow> map (\<lambda>h. take p section_text @ h) (slices section_text (p # ps)))"

definition whole_hunks :: "string \<Rightarrow> package_error + string list" where
  "whole_hunks diff =
     (if \<not> utf8_valid diff then Inl NonUtf8Diff
      else if diff = [] then Inr []
      else Inr (concat (map section_chunks (file_sections (inclusive_lines diff) []))))"

section \<open>The request\<close>

definition sort_input :: "package_input \<Rightarrow> package_input" where
  "sort_input inp =
     inp\<lparr>pi_contracts := sort_key bd_source (pi_contracts inp),
         pi_invariants := sort_key (\<lambda>i. (bi_source i, bi_section i)) (pi_invariants inp),
         pi_verification := sort_key ve_check_id (pi_verification inp),
         pi_prior_findings := sort_key fr_finding_id (pi_prior_findings inp)\<rparr>"

definition included_sources_of :: "package_input \<Rightarrow> string list" where
  "included_sources_of inp =
     [''task'', ''changed_files'', ''diff''] @ map bd_source (pi_contracts inp)
     @ map (\<lambda>i. bi_source i @ ''#'' @ bi_section i) (pi_invariants inp)
     @ map (\<lambda>v. ''check:'' @ ve_check_id v) (pi_verification inp)"

definition request_with_manifest ::
    "package_input \<Rightarrow> string list \<Rightarrow> string \<Rightarrow> package_omission list \<Rightarrow> u64 \<Rightarrow> u64 \<Rightarrow> string
     \<Rightarrow> package_error + review_request" where
  "request_with_manifest inp sources disclosed omissions total_bytes tokens manifest_hash =
     rbind (ensure (utf8_valid disclosed) NonUtf8Diff) (\<lambda>_.
     Inr \<lparr>rq_review_id = pi_review_id inp, rq_task = pi_task inp,
       rq_implementation = pi_implementation inp, rq_reviewer = pi_reviewer inp,
       rq_base_revision = tk_base_revision (pi_task inp),
       rq_candidate_revision = pi_candidate_revision inp,
       rq_changed_files = cd_changed_files (pi_captured inp), rq_diff = cd_diff (pi_captured inp),
       rq_disclosed_diff = disclosed, rq_contracts = pi_contracts inp,
       rq_invariants = pi_invariants inp, rq_verification = pi_verification inp,
       rq_prior_findings = pi_prior_findings inp, rq_budget = pi_budget inp,
       rq_manifest = \<lparr>pm_manifest_hash = manifest_hash,
         pm_diff_hash = er_content_hash (cd_diff (pi_captured inp)), pm_included_sources = sources,
         pm_omissions = omissions, pm_total_bytes = total_bytes, pm_estimated_tokens = tokens\<rparr>\<rparr>)"

definition required_paths :: "package_input \<Rightarrow> string set" where
  "required_paths inp =
     set (filter_some (\<lambda>e. case e of FileRange p _ \<Rightarrow> Some p | DiffHunk p _ \<Rightarrow> Some p | _ \<Rightarrow> None)
            (concat (map fr_evidence (pi_prior_findings inp))))"

definition hunk_is_required :: "package_input \<Rightarrow> string \<Rightarrow> bool" where
  "hunk_is_required inp hunk \<longleftrightarrow>
     (\<exists>p \<in> required_paths inp.
        contains_sub (utf8_lossy hunk) ('' a/'' @ p @ '' b/'' @ p)
        \<or> contains_sub (utf8_lossy hunk) (''+++ b/'' @ p))"

definition hunk_source :: "nat \<Rightarrow> string" where
  "hunk_source index = ''diff:hunk:'' @ show_nat index"

definition omission_for ::
    "package_codec \<Rightarrow> package_input \<Rightarrow> nat \<Rightarrow> string \<Rightarrow> package_error + package_omission" where
  "omission_for codec inp index hunk =
     rbind (len64 hunk) (\<lambda>n.
     Inr \<lparr>po_source = hunk_source index, po_content_hash = content_hash (pk_sha256 codec) hunk,
       po_byte_size = n, po_reason = ''whole_hunk_exceeds_review_package_budget'',
       po_retained_ref = Some (cd_diff (pi_captured inp))\<rparr>)"

definition flatten_hunks :: "(nat \<times> string) list \<Rightarrow> string" where
  "flatten_hunks hs = concat (map snd hs)"

text \<open>One turn of the disclosure pass.\<close>

definition disclose_one ::
    "package_codec \<Rightarrow> package_input \<Rightarrow> string list \<Rightarrow> (nat \<times> string) list \<Rightarrow> package_omission list
     \<Rightarrow> nat \<Rightarrow> string \<Rightarrow> package_error + (nat \<times> string) list \<times> package_omission list" where
  "disclose_one codec inp sources disclosed omissions index hunk =
     (let candidate = sort_key fst (disclosed @ [(index, hunk)]) in
      rbind (request_with_manifest inp sources (flatten_hunks candidate) omissions 0 0 []) (\<lambda>provisional.
      rbind (render_review_prompt codec provisional) (\<lambda>bytes.
      rbind (fits (pi_budget inp) bytes) (\<lambda>ok.
      if ok then Inr (candidate, omissions)
      else if hunk_is_required inp hunk then Inl RequiredEvidenceOverBudget
      else rbind (omission_for codec inp index hunk) (\<lambda>om. Inr (disclosed, omissions @ [om]))))))"

fun disclose ::
    "package_codec \<Rightarrow> package_input \<Rightarrow> string list \<Rightarrow> (nat \<times> string) list \<Rightarrow> (nat \<times> string) list
     \<Rightarrow> package_omission list \<Rightarrow> package_error + (nat \<times> string) list \<times> package_omission list" where
  "disclose codec inp sources [] disclosed omissions = Inr (disclosed, omissions)"
| "disclose codec inp sources ((index, hunk) # rest) disclosed omissions =
     rbind (disclose_one codec inp sources disclosed omissions index hunk)
       (\<lambda>(disclosed', omissions'). disclose codec inp sources rest disclosed' omissions')"

definition smallest_first :: "string list \<Rightarrow> (nat \<times> string) list" where
  "smallest_first hunks = sort_key (\<lambda>(i, h). (length h, i)) (enumerate 0 hunks)"

text \<open>The manifest records the size of the prompt that contains it: iterate until it agrees.\<close>

definition candidate_request ::
    "package_codec \<Rightarrow> package_input \<Rightarrow> string list \<Rightarrow> string \<Rightarrow> package_omission list \<Rightarrow> u64
     \<Rightarrow> package_error + review_request \<times> u64" where
  "candidate_request codec inp sources disclosed omissions total_bytes =
     rbind (estimate_tokens total_bytes) (\<lambda>tokens.
     rbind (map_err Package_Serialize (pk_identity_json codec
         (er_content_hash (cd_diff (pi_captured inp)), cd_resulting_tree (pi_captured inp), sources,
          omissions, total_bytes, tokens, content_hash (pk_sha256 codec) disclosed))) (\<lambda>identity.
     rbind (request_with_manifest inp sources disclosed omissions total_bytes tokens
              (content_hash (pk_sha256 codec) identity)) (\<lambda>candidate.
     rbind (render_review_prompt codec candidate) (\<lambda>bytes.
     rbind (len64 bytes) (\<lambda>actual. Inr (candidate, actual))))))"

partial_function (option) settle ::
    "(u64 \<Rightarrow> package_error + review_request \<times> u64) \<Rightarrow> u64 \<Rightarrow> (package_error + review_request) option" where
  "settle step recorded =
     (case step recorded of
        Inl e \<Rightarrow> Some (Inl e)
      | Inr (candidate, actual) \<Rightarrow>
        if actual = recorded then Some (Inr candidate) else settle step actual)"

declare settle.simps [code]

definition largest_hunk :: "(nat \<times> string) list \<Rightarrow> nat option" where
  "largest_hunk disclosed =
     map_option fst (max_by_key (\<lambda>(_, (_, hunk)). length hunk) (enumerate 0 disclosed))"

definition remove_nth :: "nat \<Rightarrow> 'a list \<Rightarrow> 'a list" where
  "remove_nth i xs = take i xs @ drop (Suc i) xs"

lemma max_by_key_in: "max_by_key key xs = Some x \<Longrightarrow> x \<in> set xs"
  by (induction xs arbitrary: x) (auto split: option.splits if_splits)

lemma max_by_key_None [simp]: "max_by_key key xs = None \<longleftrightarrow> xs = []"
  by (cases xs) (auto split: option.splits)

lemma largest_hunk_less: "largest_hunk disclosed = Some i \<Longrightarrow> i < length disclosed"
  by (auto simp: largest_hunk_def in_set_enumerate_eq dest!: max_by_key_in)

lemma length_remove_nth: "i < length xs \<Longrightarrow> length (remove_nth i xs) < length xs"
  by (simp add: remove_nth_def)

function finish_package ::
    "package_codec \<Rightarrow> package_input \<Rightarrow> string list \<Rightarrow> (nat \<times> string) list \<Rightarrow> package_omission list
     \<Rightarrow> (package_error + review_request) option" where
  "finish_package codec inp sources disclosed omissions =
     (if cd_bytes (pi_captured inp) \<noteq> [] \<and> flatten_hunks disclosed = []
      then Some (Inl RequiredEvidenceOverBudget)
      else
      (case settle (candidate_request codec inp sources (flatten_hunks disclosed) omissions) 0 of
         None \<Rightarrow> None
       | Some (Inl e) \<Rightarrow> Some (Inl e)
       | Some (Inr request) \<Rightarrow>
         (case rbind (render_review_prompt codec request) (fits (pi_budget inp)) of
            Inl e \<Rightarrow> Some (Inl e)
          | Inr True \<Rightarrow> Some (Inr request)
          | Inr False \<Rightarrow>
            (case largest_hunk disclosed of
               None \<Rightarrow> Some (Inl RequiredEvidenceOverBudget)
             | Some pos \<Rightarrow>
               let (index, hunk) = disclosed ! pos in
               if hunk_is_required inp hunk then Some (Inl RequiredEvidenceOverBudget)
               else (case omission_for codec inp index hunk of
                   Inl e \<Rightarrow> Some (Inl e)
                 | Inr om \<Rightarrow>
                   finish_package codec inp sources (remove_nth pos disclosed)
                     (sort_key po_source (omissions @ [om])))))))"
  by pat_completeness auto
termination
  by (relation "measure (\<lambda>(codec, inp, sources, disclosed, omissions). length disclosed)")
    (auto dest: largest_hunk_less length_remove_nth)

declare finish_package.simps [simp del]

definition package_checks :: "package_codec \<Rightarrow> package_input \<Rightarrow> package_error + unit" where
  "package_checks codec inp =
     rbind (ensure (\<not> er_truncated (cd_diff (pi_captured inp))) RequiredEvidenceOverBudget) (\<lambda>_.
     rbind (ensure (cd_base_revision (pi_captured inp) = tk_base_revision (pi_task inp))
              (BaseRevisionMismatch (tk_base_revision (pi_task inp)) (cd_base_revision (pi_captured inp)))) (\<lambda>_.
     rbind (map_err Package_Serialize (pk_substance_json codec
              (pi_task inp, pi_contracts inp, pi_invariants inp, pi_verification inp, pi_prior_findings inp)))
       (\<lambda>json.
     rbind (reject_secrets json) (\<lambda>_.
     reject_secrets (cd_bytes (pi_captured inp))))))"

definition build_review_request ::
    "package_codec \<Rightarrow> package_input \<Rightarrow> (package_error + review_request) option" where
  "build_review_request codec raw =
     (let inp = sort_input raw; sources = included_sources_of inp in
      case rbind (package_checks codec inp) (\<lambda>_.
           rbind (whole_hunks (cd_bytes (pi_captured inp))) (\<lambda>hunks.
           disclose codec inp sources (smallest_first hunks) [] [])) of
        Inl e \<Rightarrow> Some (Inl e)
      | Inr (disclosed, omissions) \<Rightarrow>
        finish_package codec inp sources disclosed (sort_key po_source omissions))"

section \<open>Every hunk is shown or listed\<close>

lemma hunk_source_inj: "hunk_source a = hunk_source b \<longleftrightarrow> a = b"
  by (auto simp: hunk_source_def) (metis digits_val_show_nat)

text \<open>
  The partition kept by both passes: what is disclosed, in document order; what is omitted, once each
  and never required; what is still \<open>todo\<close>.
\<close>

definition hunk_partition ::
    "package_input \<Rightarrow> string list \<Rightarrow> (nat \<times> string) list \<Rightarrow> package_omission list \<Rightarrow> nat set \<Rightarrow> bool" where
  "hunk_partition inp hunks disclosed omissions todo \<longleftrightarrow>
     sorted_wrt (<) (map fst disclosed)
     \<and> (\<forall>(i, h) \<in> set disclosed. i < length hunks \<and> h = hunks ! i)
     \<and> fst ` set disclosed \<inter> todo = {} \<and> todo \<subseteq> {..<length hunks}
     \<and> distinct (map po_source omissions)
     \<and> po_source ` set omissions = hunk_source ` ({..<length hunks} - fst ` set disclosed - todo)
     \<and> (\<forall>i < length hunks. i \<notin> fst ` set disclosed \<longrightarrow> i \<notin> todo \<longrightarrow> \<not> hunk_is_required inp (hunks ! i))"

lemma omission_for_source: "omission_for codec inp i h = Inr om \<Longrightarrow> po_source om = hunk_source i"
  by (auto simp: omission_for_def rbind_Inr_iff)

lemma sort_by_index:
  assumes "distinct (map fst ps)"
  shows "sorted_wrt (<) (map fst (sort_key fst ps :: (nat \<times> 'a) list))"
proof -
  have "sorted (map fst (sort_key fst ps))" by simp
  moreover have "distinct (map fst (sort_key fst ps))"
    using assms by (metis distinct_map distinct_sort set_sort)
  ultimately show ?thesis by (simp add: strict_sorted_iff)
qed

lemma partition_disclose:
  assumes "hunk_partition inp hunks disclosed omissions (insert i todo)" and "i \<notin> todo" and "h = hunks ! i"
  shows "hunk_partition inp hunks (sort_key fst (disclosed @ [(i, h)])) omissions todo"
proof -
  note p = assms(1) [unfolded hunk_partition_def]
  have "sorted_wrt (<) (map fst (sort_key fst (disclosed @ [(i, h)])))"
    using p by (intro sort_by_index) (auto simp: strict_sorted_iff)
  moreover have "{..<length hunks} - fst ` set (sort_key fst (disclosed @ [(i, h)])) - todo
      = {..<length hunks} - fst ` set disclosed - insert i todo"
    using assms(2) by auto
  moreover have "\<forall>(j, g) \<in> set (sort_key fst (disclosed @ [(i, h)])). j < length hunks \<and> g = hunks ! j"
    using p assms(3) by auto
  moreover have "fst ` set (sort_key fst (disclosed @ [(i, h)])) \<inter> todo = {}" using p assms(2) by auto
  ultimately show ?thesis using p unfolding hunk_partition_def by auto
qed

lemma partition_omit:
  assumes "hunk_partition inp hunks disclosed omissions (insert i todo)" and "i \<notin> todo"
    and "\<not> hunk_is_required inp (hunks ! i)" and "po_source om = hunk_source i"
    and "mset omissions' = mset (omissions @ [om])"
  shows "hunk_partition inp hunks disclosed omissions' todo"
proof -
  note p = assms(1) [unfolded hunk_partition_def]
  have i: "i < length hunks" "i \<notin> fst ` set disclosed" using p by auto
  have sets: "set omissions' = insert om (set omissions)"
    using assms(5) by (metis Un_insert_right list.simps(15) mset_eq_setD set_append sup_bot.right_neutral
        append.right_neutral list.set(1))
  have "po_source om \<notin> po_source ` set omissions"
    using p assms(4) by (auto simp: hunk_source_inj)
  then have "distinct (map po_source (omissions @ [om]))" using p by simp
  moreover have "mset (map po_source omissions') = mset (map po_source (omissions @ [om]))"
    using assms(5) by (metis mset_map)
  ultimately have d: "distinct (map po_source omissions')" using mset_eq_imp_distinct_iff by blast
  have "{..<length hunks} - fst ` set disclosed - todo
      = insert i ({..<length hunks} - fst ` set disclosed - insert i todo)" using i assms(2) by auto
  then have "po_source ` set omissions' = hunk_source ` ({..<length hunks} - fst ` set disclosed - todo)"
    using p sets assms(4) by auto
  with p d assms(3) show ?thesis unfolding hunk_partition_def by auto
qed

lemma disclose_one_partition:
  assumes "disclose_one codec inp sources disclosed omissions i h = Inr (disclosed', omissions')"
    and "hunk_partition inp hunks disclosed omissions (insert i todo)" and "i \<notin> todo" and "h = hunks ! i"
  shows "hunk_partition inp hunks disclosed' omissions' todo"
proof -
  consider (kept) "disclosed' = sort_key fst (disclosed @ [(i, h)])" "omissions' = omissions"
    | (omitted) om where "disclosed' = disclosed" "omissions' = omissions @ [om]"
        "\<not> hunk_is_required inp h" "omission_for codec inp i h = Inr om"
    using assms(1) by (auto simp: disclose_one_def Let_def rbind_Inr_iff split: if_splits)
  then show ?thesis
  proof cases
    case kept
    then show ?thesis using partition_disclose [OF assms(2-4)] by simp
  next
    case omitted
    then show ?thesis
      using partition_omit [OF assms(2,3)] omission_for_source assms(4) by metis
  qed
qed

lemma disclose_partition:
  assumes "disclose codec inp sources order disclosed omissions = Inr (disclosed', omissions')"
    and "hunk_partition inp hunks disclosed omissions (fst ` set order)" and "distinct (map fst order)"
    and "\<forall>(i, h) \<in> set order. h = hunks ! i"
  shows "hunk_partition inp hunks disclosed' omissions' {}"
  using assms
proof (induction order arbitrary: disclosed omissions)
  case (Cons ih order)
  obtain i h where ih: "ih = (i, h)" by (cases ih)
  from Cons.prems(1) ih obtain d om where
    one: "disclose_one codec inp sources disclosed omissions i h = Inr (d, om)"
    and rest: "disclose codec inp sources order d om = Inr (disclosed', omissions')"
    by (auto simp: rbind_Inr_iff)
  have "hunk_partition inp hunks d om (fst ` set order)"
    using disclose_one_partition [OF one] Cons.prems(2-4) ih by auto
  with rest Cons show ?case by simp
qed simp

lemma partition_start:
  "hunk_partition inp hunks [] [] (fst ` set (smallest_first hunks))
   \<and> distinct (map fst (smallest_first hunks)) \<and> (\<forall>(i, h) \<in> set (smallest_first hunks). h = hunks ! i)"
proof -
  have set: "set (smallest_first hunks) = set (enumerate 0 hunks)" by (simp add: smallest_first_def)
  have img: "fst ` set (enumerate 0 hunks) = {..<length hunks}"
    by (metis atLeast0LessThan add_0 list.set_map map_fst_enumerate set_upt)
  have "mset (map fst (smallest_first hunks)) = mset (map fst (enumerate 0 hunks))"
    unfolding smallest_first_def mset_map mset_sort by (rule refl)
  then have "distinct (map fst (smallest_first hunks))"
    using mset_eq_imp_distinct_iff distinct_upt by (metis map_fst_enumerate)
  then show ?thesis
    by (auto simp: hunk_partition_def set img in_set_enumerate_eq)
qed

lemma partition_evict:
  assumes "hunk_partition inp hunks disclosed omissions {}" and "pos < length disclosed"
    and "disclosed ! pos = (i, h)" and "\<not> hunk_is_required inp h" and "po_source om = hunk_source i"
  shows "hunk_partition inp hunks (remove_nth pos disclosed) (sort_key po_source (omissions @ [om])) {}"
proof -
  note p = assms(1) [unfolded hunk_partition_def]
  obtain a b where split: "disclosed = a @ (i, h) # b" and rest: "remove_nth pos disclosed = a @ b"
  proof
    show "disclosed = take pos disclosed @ (i, h) # drop (Suc pos) disclosed"
      using id_take_nth_drop [OF assms(2)] assms(3) by simp
    show "remove_nth pos disclosed = take pos disclosed @ drop (Suc pos) disclosed"
      by (simp add: remove_nth_def)
  qed
  have d: "distinct (map fst (a @ (i, h) # b))" using p split by (simp add: strict_sorted_iff)
  then have img: "fst ` set (a @ b) = fst ` set disclosed - {i}" unfolding split by auto
  have h: "i < length hunks \<and> h = hunks ! i" using p split by auto
  have "sorted_wrt (<) (map fst (a @ b))" using p split by (auto simp: sorted_wrt_append)
  moreover have "\<forall>(j, g) \<in> set (a @ b). j < length hunks \<and> g = hunks ! j" using p split by auto
  moreover have "{..<length hunks} - fst ` set (a @ b) - {i} = {..<length hunks} - fst ` set disclosed - {}"
    unfolding img split by auto
  moreover have "\<forall>j < length hunks. j \<notin> fst ` set (a @ b) \<longrightarrow> j \<notin> {i} \<longrightarrow> \<not> hunk_is_required inp (hunks ! j)"
    using p unfolding img by blast
  moreover have "fst ` set (a @ b) \<inter> {i} = {}" unfolding img by blast
  ultimately have "hunk_partition inp hunks (a @ b) omissions (insert i {})"
    using p h unfolding hunk_partition_def by (metis (no_types, lifting) empty_subsetI insert_subset lessThan_iff)
  then show ?thesis unfolding rest
    by (rule partition_omit) (use assms(4,5) h in simp_all)
qed

lemma settle_sound:
  assumes a: "settle step recorded = Some r"
  shows "\<forall>rq. r = Inr rq \<longrightarrow> (\<exists>n. step n = Inr (rq, n))"
proof (rule settle.raw_induct [OF _ a, where P = "\<lambda>step _ r. \<forall>rq. r = Inr rq \<longrightarrow> (\<exists>n. step n = Inr (rq, n))"])
  fix settle' and step :: "u64 \<Rightarrow> package_error + review_request \<times> u64" and recorded r
  assume IH: "\<And>step recorded r. settle' step recorded = Some r
      \<Longrightarrow> \<forall>rq. r = Inr rq \<longrightarrow> (\<exists>n. step n = Inr (rq, n))"
    and eq: "(case step recorded of Inl e \<Rightarrow> Some (Inl e)
      | Inr (candidate, actual) \<Rightarrow>
          if actual = recorded then Some (Inr candidate) else settle' step actual) = Some r"
  show "\<forall>rq. r = Inr rq \<longrightarrow> (\<exists>n. step n = Inr (rq, n))"
  proof (cases "step recorded")
    case (Inr ca)
    obtain candidate actual where ca: "ca = (candidate, actual)" by (cases ca)
    show ?thesis
    proof (cases "actual = recorded")
      case True
      with eq Inr ca show ?thesis by auto
    next
      case False
      with eq Inr ca have "settle' step actual = Some r" by simp
      then show ?thesis by (rule IH)
    qed
  qed (use eq in auto)
qed

lemma settle_Inr:
  "settle step recorded = Some (Inr rq) \<Longrightarrow> \<exists>n. step n = Inr (rq, n)"
  using settle_sound by blast

lemma finish_package_facts:
  assumes "finish_package codec inp sources disclosed omissions = Some (Inr rq)"
    and "hunk_partition inp hunks disclosed omissions {}"
  shows "\<exists>kept om recorded. hunk_partition inp hunks kept om {}
       \<and> candidate_request codec inp sources (flatten_hunks kept) om recorded = Inr (rq, recorded)
       \<and> rbind (render_review_prompt codec rq) (fits (pi_budget inp)) = Inr True"
  using assms
proof (induction codec inp sources disclosed omissions rule: finish_package.induct)
  case (1 codec inp sources disclosed omissions)
  let ?step = "candidate_request codec inp sources (flatten_hunks disclosed) omissions"
  from "1.prems"(1) have nonempty: "\<not> (cd_bytes (pi_captured inp) \<noteq> [] \<and> flatten_hunks disclosed = [])"
    by (subst (asm) finish_package.simps) (auto split: if_splits)
  from "1.prems"(1) nonempty obtain request ok where
    st: "settle ?step 0 = Some (Inr request)"
    and fit: "rbind (render_review_prompt codec request) (fits (pi_budget inp)) = Inr ok"
    by (subst (asm) finish_package.simps) (auto split: option.splits sum.splits if_splits)
  show ?case
  proof (cases ok)
    case True
    with "1.prems"(1) nonempty st fit have "rq = request"
      by (subst (asm) finish_package.simps) simp
    moreover obtain n where "?step n = Inr (request, n)" using settle_Inr [OF st] by blast
    moreover have "rbind (render_review_prompt codec request) (fits (pi_budget inp)) = Inr True"
      using fit True by simp
    ultimately show ?thesis using "1.prems"(2) by blast
  next
    case False
    with "1.prems"(1) nonempty st fit obtain pos i h om where
      pos: "largest_hunk disclosed = Some pos" and ih: "disclosed ! pos = (i, h)"
      and req: "\<not> hunk_is_required inp h" and om: "omission_for codec inp i h = Inr om"
      and rec: "finish_package codec inp sources (remove_nth pos disclosed)
          (sort_key po_source (omissions @ [om])) = Some (Inr rq)"
      by (subst (asm) finish_package.simps) (auto split: option.splits sum.splits if_splits prod.splits)
    have next_part: "hunk_partition inp hunks (remove_nth pos disclosed) (sort_key po_source (omissions @ [om])) {}"
      by (rule partition_evict [OF "1.prems"(2) largest_hunk_less [OF pos] ih req omission_for_source [OF om]])
    show ?thesis
      by (rule "1.IH" [OF nonempty st refl fit _ pos refl ih [symmetric] req om rec next_part]) (use False in simp)
  qed
qed

section \<open>Properties\<close>

lemma build_review_request_facts:
  assumes "build_review_request codec raw = Some (Inr rq)"
  shows "\<exists>hunks kept om recorded. package_checks codec (sort_input raw) = Inr ()
       \<and> whole_hunks (cd_bytes (pi_captured raw)) = Inr hunks
       \<and> hunk_partition (sort_input raw) hunks kept om {}
       \<and> candidate_request codec (sort_input raw) (included_sources_of (sort_input raw))
           (flatten_hunks kept) om recorded = Inr (rq, recorded)
       \<and> rbind (render_review_prompt codec rq) (fits (pi_budget raw)) = Inr True"
proof -
  let ?inp = "sort_input raw"
  have same: "pi_captured ?inp = pi_captured raw" "pi_budget ?inp = pi_budget raw"
    by (simp_all add: sort_input_def)
  from assms same obtain hunks disclosed omissions where
    checks: "package_checks codec ?inp = Inr ()"
    and hunks: "whole_hunks (cd_bytes (pi_captured raw)) = Inr hunks"
    and dis: "disclose codec ?inp (included_sources_of ?inp) (smallest_first hunks) [] [] = Inr (disclosed, omissions)"
    and fin: "finish_package codec ?inp (included_sources_of ?inp) disclosed (sort_key po_source omissions) = Some (Inr rq)"
    by (auto simp: build_review_request_def Let_def rbind_Inr_iff split: sum.splits)
  have "hunk_partition ?inp hunks disclosed omissions {}"
    using disclose_partition [OF dis] partition_start by blast
  then have "hunk_partition ?inp hunks disclosed (sort_key po_source omissions) {}"
    unfolding hunk_partition_def
    by (metis (no_types, lifting) distinct_map distinct_sort image_set inj_on_cong set_sort distinct_conv_nth
        mset_eq_imp_distinct_iff mset_map mset_sort)
  from finish_package_facts [OF fin this] checks hunks same show ?thesis by auto
qed

lemma unat_word_of_nat64: "k < 2 ^ 64 \<Longrightarrow> unat (word_of_nat k :: u64) = k"
  by (simp add: unsigned_of_nat take_bit_nat_eq_self)

lemma len64_Inr: "len64 s = Inr n \<longleftrightarrow> length s = unat n"
proof
  assume "length s = unat n"
  then show "len64 s = Inr n"
    using unat_u64_bound [of n] by (simp add: len64_def)
qed (auto simp: len64_def unat_word_of_nat64 split: if_splits)

lemma estimate_tokens_Inr: "estimate_tokens n = Inr t \<Longrightarrow> unat t = (unat n + 3) div 4"
  by (auto simp: estimate_tokens_def rbind_Inr_iff ok_or_Inr_iff checked_add64_Some_iff unat_div_distrib)

lemma fits_True:
  "fits budget s = Inr True \<Longrightarrow>
     length s \<le> unat (pb_max_bytes budget) \<and> (length s + 3) div 4 \<le> unat (pb_max_estimated_tokens budget)"
  by (auto simp: fits_def rbind_Inr_iff len64_Inr word_le_nat_alt dest: estimate_tokens_Inr split: if_splits)

lemma candidate_request_Inr:
  assumes "candidate_request codec inp sources disclosed omissions n = Inr (rq, a)"
  shows "rq_disclosed_diff rq = disclosed \<and> pm_omissions (rq_manifest rq) = omissions
       \<and> pm_total_bytes (rq_manifest rq) = n
       \<and> (\<exists>prompt. render_review_prompt codec rq = Inr prompt \<and> length prompt = unat a)"
  using assms by (auto simp: candidate_request_def request_with_manifest_def rbind_Inr_iff len64_Inr)

lemma required_paths_sort [simp]: "required_paths (sort_input raw) = required_paths raw"
  by (simp add: required_paths_def sort_input_def filter_some_def)

lemma hunk_is_required_sort [simp]: "hunk_is_required (sort_input raw) h = hunk_is_required raw h"
  by (simp add: hunk_is_required_def)

text \<open>C36: A review package accounts for the whole diff: the disclosed text is a selection of whole hunks in
  document order, every other hunk is listed once among the omissions, and a hunk of a file that a
  prior finding cites is never omitted.\<close>

theorem package_accounts_for_diff:
  assumes "build_review_request codec raw = Some (Inr rq)"
  shows "\<exists>hunks kept. whole_hunks (cd_bytes (pi_captured raw)) = Inr hunks
       \<and> sorted_wrt (<) kept \<and> set kept \<subseteq> {..<length hunks}
       \<and> rq_disclosed_diff rq = concat (map ((!) hunks) kept)
       \<and> distinct (map po_source (pm_omissions (rq_manifest rq)))
       \<and> set (map po_source (pm_omissions (rq_manifest rq))) = hunk_source ` ({..<length hunks} - set kept)
       \<and> (\<forall>i \<in> {..<length hunks} - set kept. \<not> hunk_is_required raw (hunks ! i))"
proof -
  from build_review_request_facts [OF assms] obtain hunks kept om n where
    hunks: "whole_hunks (cd_bytes (pi_captured raw)) = Inr hunks"
    and part: "hunk_partition (sort_input raw) hunks kept om {}"
    and cand: "candidate_request codec (sort_input raw) (included_sources_of (sort_input raw))
        (flatten_hunks kept) om n = Inr (rq, n)"
    by blast
  note p = part [unfolded hunk_partition_def]
  have "map snd kept = map (\<lambda>x. hunks ! fst x) kept" using p by (intro map_cong) auto
  then have "map snd kept = map ((!) hunks) (map fst kept)" by (simp only: map_map comp_def)
  then have "flatten_hunks kept = concat (map ((!) hunks) (map fst kept))" by (simp only: flatten_hunks_def)
  moreover have "set (map fst kept) \<subseteq> {..<length hunks}" using p by auto
  moreover have "rq_disclosed_diff rq = flatten_hunks kept" "pm_omissions (rq_manifest rq) = om"
    using candidate_request_Inr [OF cand] by auto
  moreover have "\<forall>i \<in> {..<length hunks} - set (map fst kept). \<not> hunk_is_required raw (hunks ! i)"
    using p by auto
  moreover have "set (map po_source om) = hunk_source ` ({..<length hunks} - set (map fst kept))"
    using p by simp
  ultimately show ?thesis using hunks p by (intro exI [of _ hunks] exI [of _ "map fst kept"]) simp
qed

text \<open>A review package fits its budget as it is rendered, its manifest records the size of that very
  prompt, and nothing is packaged from a truncated diff, from another base revision, or with a secret in
  the diff.\<close>

lemma package_within_budget:
  assumes "build_review_request codec raw = Some (Inr rq)"
  shows "\<exists>prompt. render_review_prompt codec rq = Inr prompt
       \<and> unat (pm_total_bytes (rq_manifest rq)) = length prompt
       \<and> length prompt \<le> unat (pb_max_bytes (pi_budget raw))
       \<and> (length prompt + 3) div 4 \<le> unat (pb_max_estimated_tokens (pi_budget raw))
       \<and> \<not> er_truncated (cd_diff (pi_captured raw))
       \<and> cd_base_revision (pi_captured raw) = tk_base_revision (pi_task raw)
       \<and> \<not> contains_secret (cd_bytes (pi_captured raw))"
proof -
  from build_review_request_facts [OF assms] obtain kept om n where
    checks: "package_checks codec (sort_input raw) = Inr ()"
    and cand: "candidate_request codec (sort_input raw) (included_sources_of (sort_input raw))
        (flatten_hunks kept) om n = Inr (rq, n)"
    and fit: "rbind (render_review_prompt codec rq) (fits (pi_budget raw)) = Inr True"
    by blast
  obtain prompt where prompt: "render_review_prompt codec rq = Inr prompt" "length prompt = unat n"
    using candidate_request_Inr [OF cand] by blast
  have "\<not> er_truncated (cd_diff (pi_captured raw)) \<and> \<not> contains_secret (cd_bytes (pi_captured raw))
      \<and> cd_base_revision (pi_captured raw) = tk_base_revision (pi_task raw)"
    using checks by (auto simp: package_checks_def reject_secrets_def rbind_Inr_iff ensure_Inr_iff sort_input_def)
  then show ?thesis
    using prompt fit candidate_request_Inr [OF cand] fits_True [of "pi_budget raw" prompt] by simp
qed

section \<open>Termination\<close>

lemma settle_terminates:
  assumes mono: "\<And>m n c a c' a'. \<lbrakk>m \<le> n; step m = Inr (c, a); step n = Inr (c', a')\<rbrakk> \<Longrightarrow> a \<le> a'"
    and start: "\<And>c a. step n = Inr (c, a) \<Longrightarrow> n \<le> a"
  shows "settle step n \<noteq> None"
  using start
proof (induction "2 ^ 64 - unat n" arbitrary: n rule: less_induct)
  case less
  show ?case
  proof (cases "step n")
    case (Inr ca)
    obtain c a where ca: "ca = (c, a)" by (cases ca)
    show ?thesis
    proof (cases "a = n")
      case False
      with less.prems Inr ca have lt: "n < a" by force
      then have "unat n < unat a" by (simp add: word_less_nat_alt)
      then have "2 ^ 64 - unat a < 2 ^ 64 - unat n" using unat_u64_bound [of n] by simp
      moreover have "a \<le> a'" if "step a = Inr (c', a')" for c' a'
        using mono [of n a c a c' a'] lt Inr ca that by simp
      ultimately have "settle step a \<noteq> None" using less.hyps by blast
      with Inr ca False show ?thesis by (subst settle.simps) simp
    qed (use Inr ca in \<open>simp add: settle.simps\<close>)
  qed (simp add: settle.simps)
qed

text \<open>
  What the loop relies on: JSON writes numbers in decimal and the text of a digest as it is, since none of its
  characters is escaped, so a larger size never makes a shorter prompt; and a digest has a fixed length.
\<close>

definition digest_text :: "string \<Rightarrow> bool" where
  "digest_text h \<longleftrightarrow> length h = 71 \<and> list_all (\<lambda>c. c \<in> set ''sha256:0123456789abcdef'') h"

definition manifest_update :: "string \<Rightarrow> u64 \<Rightarrow> u64 \<Rightarrow> review_request \<Rightarrow> review_request" where
  "manifest_update h n t rq =
     rq\<lparr>rq_manifest := rq_manifest rq\<lparr>pm_manifest_hash := h, pm_total_bytes := n, pm_estimated_tokens := t\<rparr>\<rparr>"

definition grows_with_manifest :: "package_codec \<Rightarrow> bool" where
  "grows_with_manifest codec \<longleftrightarrow>
     (\<forall>rq h h' n n' t t' j j'. digest_text h \<longrightarrow> digest_text h' \<longrightarrow> n \<le> n' \<longrightarrow> t \<le> t'
        \<longrightarrow> pk_request_json codec (manifest_update h n t rq) = Inr j
        \<longrightarrow> pk_request_json codec (manifest_update h' n' t' rq) = Inr j' \<longrightarrow> length j \<le> length j')"

definition fixed_digest :: "package_codec \<Rightarrow> bool" where
  "fixed_digest codec \<longleftrightarrow> (\<forall>b. length (pk_sha256 codec b) = 32)"

lemma content_hash_length:
  "fixed_digest codec \<Longrightarrow> length (content_hash (pk_sha256 codec) b) = 71"
  by (simp add: content_hash_def fixed_digest_def length_concat comp_def sum_list_triv)

lemma hex_digit_text: "hex_digit n \<in> set ''sha256:0123456789abcdef''" if "n < 16"
proof -
  have "list_all (\<lambda>n. hex_digit n \<in> set ''sha256:0123456789abcdef'') [0..<16]" by code_simp
  with that show ?thesis by (auto simp: list_all_iff)
qed

lemma content_hash_digest:
  assumes "fixed_digest codec" shows "digest_text (content_hash (pk_sha256 codec) b)"
proof -
  define S where "S = set ''sha256:0123456789abcdef''"
  have byte: "byte c < 256" for c by (simp add: byte_def)
  have hex: "hex_digit (byte c div 16) \<in> S" "hex_digit (byte c mod 16) \<in> S" for c
    unfolding S_def by (rule hex_digit_text, use byte [of c] in linarith)+
  have pre: "set ''sha256:'' \<subseteq> S" by (auto simp: S_def)
  have "set (content_hash (pk_sha256 codec) b) \<subseteq> S"
    unfolding content_hash_def set_append using pre hex by (intro Un_least) auto
  then show ?thesis
    using content_hash_length [OF assms, of b] unfolding digest_text_def list_all_iff S_def by blast
qed

lemma candidate_request_parts:
  assumes "fixed_digest codec" and "candidate_request codec inp sources dis om n = Inr (c, a)"
  shows "\<exists>t h p. unat t = (unat n + 3) div 4 \<and> digest_text h
       \<and> request_with_manifest inp sources dis om n t h = Inr c
       \<and> render_review_prompt codec c = Inr p \<and> length p = unat a"
proof -
  obtain t identity p where "estimate_tokens n = Inr t"
    and "request_with_manifest inp sources dis om n t (content_hash (pk_sha256 codec) identity) = Inr c"
    and "render_review_prompt codec c = Inr p" and "len64 p = Inr a"
    using assms(2) by (auto simp: candidate_request_def rbind_Inr_iff)
  then show ?thesis
    using content_hash_digest [OF assms(1), of identity] estimate_tokens_Inr len64_Inr by blast
qed

lemma candidate_request_mono:
  assumes "grows_with_manifest codec" and "fixed_digest codec" and "m \<le> n"
    and "candidate_request codec inp sources dis om m = Inr (c, a)"
    and "candidate_request codec inp sources dis om n = Inr (c', a')"
  shows "a \<le> a'"
proof -
  obtain t h p where t: "unat t = (unat m + 3) div 4" and h: "digest_text h"
    and c: "request_with_manifest inp sources dis om m t h = Inr c"
    and p: "render_review_prompt codec c = Inr p" "length p = unat a"
    using candidate_request_parts [OF assms(2,4)] by blast
  obtain t' h' p' where t': "unat t' = (unat n + 3) div 4" and h': "digest_text h'"
    and c': "request_with_manifest inp sources dis om n t' h' = Inr c'"
    and p': "render_review_prompt codec c' = Inr p'" "length p' = unat a'"
    using candidate_request_parts [OF assms(2,5)] by blast
  have "t \<le> t'" using assms(3) t t' by (simp add: word_le_nat_alt div_le_mono)
  moreover have "c = manifest_update h m t c" "c' = manifest_update h' n t' c"
    using c c' by (auto simp: request_with_manifest_def manifest_update_def rbind_Inr_iff)
  ultimately have "length p \<le> length p'"
    using assms(1,3) h h' p(1) p'(1)
    by (auto simp: grows_with_manifest_def render_review_prompt_def rbind_Inr_iff map_err_Inr_iff) metis
  then show ?thesis using p(2) p'(2) by (simp add: word_le_nat_alt)
qed

lemma finish_package_terminates:
  assumes "grows_with_manifest codec" and "fixed_digest codec"
  shows "finish_package codec inp sources disclosed omissions \<noteq> None"
  using assms
proof (induction codec inp sources disclosed omissions rule: finish_package.induct)
  case (1 codec inp sources disclosed omissions)
  have "settle (candidate_request codec inp sources (flatten_hunks disclosed) omissions) 0 \<noteq> None"
    by (rule settle_terminates) (use candidate_request_mono [OF "1.prems"] in \<open>auto\<close>)
  then show ?case
    using 1 by (subst finish_package.simps) (auto split: option.splits sum.splits bool.splits prod.splits)
qed

text \<open>The loop that settles the recorded size climbs to a fixed point, and each eviction removes a hunk.\<close>

lemma build_review_request_total:
  assumes "grows_with_manifest codec" and "fixed_digest codec"
  shows "build_review_request codec raw \<noteq> None"
  using finish_package_terminates [OF assms]
  by (auto simp: build_review_request_def Let_def split: sum.splits)

section \<open>Witnesses\<close>

definition sample_json :: "review_request \<Rightarrow> string + string" where
  "sample_json rq =
     Inr (show_u64 (pm_total_bytes (rq_manifest rq)) @ '' ''
        @ show_u64 (pm_estimated_tokens (rq_manifest rq)) @ '' '' @ rq_disclosed_diff rq)"

definition sample_codec :: package_codec where
  "sample_codec =
     \<lparr>pk_instructions = ''REVIEW '', pk_request_json = sample_json,
      pk_substance_json = (\<lambda>_. Inr []), pk_identity_json = (\<lambda>_. Inr []),
      pk_sha256 = (\<lambda>_. replicate 32 (CHR ''x''))\<rparr>"

definition sample_diff :: string where
  "sample_diff = join [nl] [''@@ 1'', ''+y'', ''@@ 2'', ''+zz'', []]"

definition sample_captured :: captured_diff where
  "sample_captured =
     \<lparr>cd_base_revision = ''base'', cd_resulting_tree = ''tree'', cd_changed_files = [sample_change ''a''],
      cd_diff = sample_evidence_ref, cd_bytes = sample_diff\<rparr>"

definition sample_package_input :: package_input where
  "sample_package_input =
     \<lparr>pi_review_id = ''review-1'', pi_task = sample_task,
      pi_implementation = sample_assignment ''m1'' Role_Implementation,
      pi_reviewer = sample_assignment ''m2'' Role_Review, pi_candidate_revision = Some ''tree'',
      pi_captured = sample_captured, pi_contracts = [], pi_invariants = [],
      pi_verification = [sample_check_evidence ''h1'' Passed], pi_prior_findings = [],
      pi_budget = \<lparr>pb_max_bytes = 24, pb_max_estimated_tokens = 100\<rparr>\<rparr>"

definition sample_package :: review_request where
  "sample_package =
     (case build_review_request sample_codec sample_package_input of
        Some (Inr rq) \<Rightarrow> rq | _ \<Rightarrow> sample_request)"

lemma sample_package_built:
  "build_review_request sample_codec sample_package_input = Some (Inr sample_package)"
proof -
  have "(case build_review_request sample_codec sample_package_input of
      Some (Inr _) \<Rightarrow> True | _ \<Rightarrow> False)" by code_simp
  then show ?thesis by (auto simp: sample_package_def split: option.splits sum.splits)
qed

theorem package_accounts_for_diff_witness:
  "\<exists>hunks kept. whole_hunks sample_diff = Inr hunks \<and> sorted_wrt (<) kept
     \<and> rq_disclosed_diff sample_package = concat (map ((!) hunks) kept)"
  using package_accounts_for_diff [OF sample_package_built]
  by (auto simp: sample_package_input_def sample_captured_def)

lemma package_within_budget_witness:
  "\<exists>prompt. render_review_prompt sample_codec sample_package = Inr prompt \<and> length prompt \<le> 60"
  using package_within_budget [OF sample_package_built] by (auto simp: sample_package_input_def)

lemma length_show_nat_mono: "m \<le> n \<Longrightarrow> length (show_nat m) \<le> length (show_nat n)"
proof (induction n arbitrary: m rule: show_nat.induct)
  case (1 n)
  show ?case
  proof (cases "n < 10")
    case True
    with "1.prems" show ?thesis by (simp add: show_nat.simps [of n] show_nat.simps [of m])
  next
    case False
    have one: "1 \<le> length (show_nat (n div 10))" by (simp add: Suc_leI)
    have "length (show_nat (m div 10)) \<le> length (show_nat (n div 10))"
      using 1 False by (simp add: div_le_mono)
    with False one show ?thesis by (simp add: show_nat.simps [of n] show_nat.simps [of m])
  qed
qed

text \<open>A codec that prints the manifest as serde_json does: strings are quoted and escaped.\<close>

definition json_char :: "char \<Rightarrow> string" where
  "json_char c =
     (if c = CHR 0x22 \<or> c = CHR 0x5C then [CHR 0x5C, c]
      else if byte c = 8 then [CHR 0x5C, CHR ''b''] else if byte c = 9 then [CHR 0x5C, CHR ''t'']
      else if byte c = 10 then [CHR 0x5C, CHR ''n''] else if byte c = 12 then [CHR 0x5C, CHR ''f'']
      else if byte c = 13 then [CHR 0x5C, CHR ''r'']
      else if byte c < 32 then CHR 0x5C # ''u00'' @ [hex_digit (byte c div 16), hex_digit (byte c mod 16)]
      else [c])"

definition json_text :: "string \<Rightarrow> string" where
  "json_text s = CHR 0x22 # concat (map json_char s) @ [CHR 0x22]"

definition manifest_json :: "review_request \<Rightarrow> string + string" where
  "manifest_json rq =
     Inr (json_text ''manifest_hash'' @ '':'' @ json_text (pm_manifest_hash (rq_manifest rq))
        @ '','' @ json_text ''total_bytes'' @ '':'' @ show_u64 (pm_total_bytes (rq_manifest rq))
        @ '','' @ json_text ''estimated_tokens'' @ '':'' @ show_u64 (pm_estimated_tokens (rq_manifest rq))
        @ '','' @ json_text ''disclosed_diff'' @ '':'' @ json_text (rq_disclosed_diff rq))"

definition manifest_codec :: package_codec where
  "manifest_codec = sample_codec\<lparr>pk_request_json := manifest_json\<rparr>"

lemma json_text_digest: "digest_text h \<Longrightarrow> length (json_text h) = 73"
proof -
  have "list_all (\<lambda>c. json_char c = [c]) ''sha256:0123456789abcdef''" by code_simp
  then have c: "json_char c = [c]" if "c \<in> set ''sha256:0123456789abcdef''" for c
    using that by (simp only: list_all_iff)
  assume h: "digest_text h"
  then have "map json_char h = map (\<lambda>c. [c]) h"
    by (intro map_cong refl) (simp only: digest_text_def list_all_iff c)
  then have "length (concat (map json_char h)) = length h" by (simp only:) (simp add: length_concat comp_def sum_list_triv)
  with h show ?thesis by (simp add: json_text_def digest_text_def)
qed

lemma manifest_codec_laws: "grows_with_manifest manifest_codec" "fixed_digest manifest_codec"
proof -
  show "grows_with_manifest manifest_codec"
    by (auto simp: grows_with_manifest_def manifest_codec_def manifest_json_def manifest_update_def json_text_digest
        show_u64_def word_le_nat_alt intro!: add_mono length_show_nat_mono)
  show "fixed_digest manifest_codec" by (simp add: fixed_digest_def manifest_codec_def sample_codec_def)
qed

end
