(* ===== verification/Review_Verification.thy ===== *)
theory Review_Verification
  imports Review_Evidence
begin

text \<open>
  Running a verification check, \<open>crates/familiar-ai-review/src/verification.rs\<close>: what is recorded of a
  finished process (\<open>CommandVerificationRunner::run\<close>, \<open>artifact\<close>) and which checks a remediation must
  pass again (\<open>relevant_checks\<close>). The process itself, the clock and the file writes are the fields of
  \<open>process_run\<close>.
\<close>

record verification_check =
  vc_check_id :: string
  vc_argv :: "string list"
  vc_working_directory :: string
  vc_environment :: string_map
  vc_timeout_ms :: u64
  vc_required :: bool
  vc_path_prefixes :: "string list"

record verification_plan =
  vp_plan_id :: string
  vp_checks :: "verification_check list"
  vp_full_after_remediation :: bool

datatype verification_error =
  EmptyArgv | MissingPipe | ReaderPanicked | Verification_Io string | Verification_Overflow

text \<open>\<open>spawn\<close> fails because the environment denies it or otherwise, the run fails on the way, or it ends.\<close>

datatype run_failure = Spawn_Denied string | Run_Failed verification_error

record process_exit =
  px_success :: bool
  px_code :: "int option"
  px_signal :: "int option"
  px_timed_out :: bool
  px_stdout :: string
  px_stderr :: string

record process_run =
  pr_outcome :: "run_failure + process_exit"
  pr_started_at :: string
  pr_ended_at :: string
  pr_elapsed_ms :: nat
  pr_write_error :: "string \<Rightarrow> string option"

record runner_config =
  rn_artifact_directory :: string
  rn_max_log_bytes :: nat

definition denied_markers :: "string list" where
  "denied_markers =
     [''operation not permitted'', ''permission denied'', ''network is unreachable'',
      ''cannot assign requested address'', ''read-only file system'']"

definition output_environment_denied :: "string \<Rightarrow> string \<Rightarrow> bool" where
  "output_environment_denied out err =
     (let output = map ascii_lower (utf8_lossy out) @ map ascii_lower (utf8_lossy err) in
      list_ex (contains_sub output) denied_markers)"

definition redaction :: string where
  "redaction = ''[REDACTED: deterministic secret marker]'' @ [nl]"

definition nat64 :: "nat \<Rightarrow> verification_error + u64" where
  "nat64 n = (if n < 2 ^ 64 then Inr (word_of_nat n) else Inl Verification_Overflow)"

definition log_artifact ::
    "(string \<Rightarrow> string) \<Rightarrow> runner_config \<Rightarrow> process_run \<Rightarrow> string \<Rightarrow> string \<Rightarrow> string \<Rightarrow> string
     \<Rightarrow> verification_error + evidence_ref \<times> bool" where
  "log_artifact sha256 config run label bytes repository tested =
     (let redacted = contains_secret bytes;
          retained = (if redacted then redaction else bytes);
          hash = content_hash sha256 retained;
          path = path_join (rn_artifact_directory config)
            (map (\<lambda>c. if c = CHR '':'' then CHR ''-'' else c) hash @ ''-'' @ label) in
      case pr_write_error run path of
        Some e \<Rightarrow> Inl (Verification_Io e)
      | None \<Rightarrow>
        rbind (nat64 (length retained)) (\<lambda>size.
        rbind (nat64 (if redacted then length bytes else length bytes - rn_max_log_bytes config)) (\<lambda>omitted.
        Inr (\<lparr>er_content_hash = hash, er_media_type = ''text/plain'', er_byte_size = size,
              er_repository = repository, er_revision = tested, er_storage_ref = path,
              er_truncated = (rn_max_log_bytes config < length retained \<or> redacted),
              er_omitted_bytes = omitted\<rparr>, redacted))))"

definition run_status :: "process_exit \<Rightarrow> bool \<Rightarrow> verification_status" where
  "run_status e redacted =
     (if redacted then Inconclusive
      else if output_environment_denied (px_stdout e) (px_stderr e) then EnvironmentDenied
      else if px_timed_out e then TimedOut
      else if px_success e then Passed
      else if px_signal e \<noteq> None then Signaled else Failed)"

definition status_debug :: "verification_status \<Rightarrow> string" where
  "status_debug s = (case s of
       Passed \<Rightarrow> ''Passed'' | Failed \<Rightarrow> ''Failed'' | EnvironmentDenied \<Rightarrow> ''EnvironmentDenied''
     | TimedOut \<Rightarrow> ''TimedOut'' | Signaled \<Rightarrow> ''Signaled'' | Unavailable \<Rightarrow> ''Unavailable''
     | Inconclusive \<Rightarrow> ''Inconclusive'' | Skipped \<Rightarrow> ''Skipped'')"

definition local_identity :: "(string \<Rightarrow> string) \<Rightarrow> string \<Rightarrow> string_map" where
  "local_identity sha256 repository =
     [(''executor'', ''local-process''), (''repository'', content_hash sha256 repository)]"

definition denied_evidence ::
    "(string \<Rightarrow> string) \<Rightarrow> verification_check \<Rightarrow> process_run \<Rightarrow> string \<Rightarrow> string \<Rightarrow> string
     \<Rightarrow> verification_evidence" where
  "denied_evidence sha256 check run repository tested message =
     \<lparr>ve_check_id = vc_check_id check, ve_argv = vc_argv check,
      ve_working_directory = vc_working_directory check,
      ve_environment_identity = local_identity sha256 repository, ve_tool_identity = None,
      ve_tested_identity = tested, ve_started_at = pr_started_at run, ve_ended_at = pr_ended_at run,
      ve_duration_ms = (if pr_elapsed_ms run < 2 ^ 64 then word_of_nat (pr_elapsed_ms run)
                        else word_of_nat u64_max),
      ve_exit_code = None, ve_signal = None, ve_status = EnvironmentDenied,
      ve_required = vc_required check,
      ve_summary = ''environment denied check '' @ vc_check_id check @ '': '' @ message,
      ve_stdout = None, ve_stderr = None, ve_truncated = False\<rparr>"

definition exit_summary :: "verification_check \<Rightarrow> verification_status \<Rightarrow> bool \<Rightarrow> string" where
  "exit_summary check status redacted =
     (if redacted then ''Inconclusive: deterministic secret marker redacted from verification output''
      else if status = EnvironmentDenied then ''environment denied check '' @ vc_check_id check
      else status_debug status)"

definition exit_evidence ::
    "(string \<Rightarrow> string) \<Rightarrow> runner_config \<Rightarrow> verification_check \<Rightarrow> process_run \<Rightarrow> string \<Rightarrow> string
     \<Rightarrow> process_exit \<Rightarrow> verification_error + verification_evidence" where
  "exit_evidence sha256 config check run repository tested e =
     rbind (log_artifact sha256 config run ''stdout'' (px_stdout e) repository tested) (\<lambda>(out, out_redacted).
     rbind (log_artifact sha256 config run ''stderr'' (px_stderr e) repository tested) (\<lambda>(err, err_redacted).
     let redacted = (out_redacted \<or> err_redacted); status = run_status e redacted in
     rbind (nat64 (pr_elapsed_ms run)) (\<lambda>elapsed.
     Inr \<lparr>ve_check_id = vc_check_id check, ve_argv = vc_argv check,
       ve_working_directory = vc_working_directory check,
       ve_environment_identity =
         btree_of (map (\<lambda>(k, v). (k, content_hash sha256 v)) (vc_environment check)
                   @ local_identity sha256 repository),
       ve_tool_identity = None, ve_tested_identity = tested, ve_started_at = pr_started_at run,
       ve_ended_at = pr_ended_at run, ve_duration_ms = elapsed, ve_exit_code = px_code e,
       ve_signal = px_signal e, ve_status = status, ve_required = vc_required check,
       ve_summary = exit_summary check status redacted, ve_stdout = Some out, ve_stderr = Some err,
       ve_truncated = (rn_max_log_bytes config < length (px_stdout e)
                       \<or> rn_max_log_bytes config < length (px_stderr e) \<or> redacted)\<rparr>)))"

definition run_check ::
    "(string \<Rightarrow> string) \<Rightarrow> runner_config \<Rightarrow> verification_check \<Rightarrow> process_run \<Rightarrow> string \<Rightarrow> string
     \<Rightarrow> verification_error + verification_evidence" where
  "run_check sha256 config check run repository tested =
     (if vc_argv check = [] then Inl EmptyArgv
      else (case pr_outcome run of
          Inl (Spawn_Denied message) \<Rightarrow> Inr (denied_evidence sha256 check run repository tested message)
        | Inl (Run_Failed e) \<Rightarrow> Inl e
        | Inr e \<Rightarrow> exit_evidence sha256 config check run repository tested e))"

definition relevant_checks ::
    "verification_plan \<Rightarrow> string list \<Rightarrow> string list \<Rightarrow> string list \<Rightarrow> verification_check list" where
  "relevant_checks plan changed cited unsuccessful =
     filter (\<lambda>c. vp_full_after_remediation plan \<or> vc_required c \<or> vc_check_id c \<in> set cited
                 \<or> vc_check_id c \<in> set unsuccessful
                 \<or> list_ex (\<lambda>p. list_ex (\<lambda>f. starts_with f p) changed) (vc_path_prefixes c))
       (vp_checks plan)"

text \<open>\<open>CommandVerificationRunner\<close> as the coordinator sees it: starting a process changes the world.\<close>

definition command_verifier ::
    "(string \<Rightarrow> string) \<Rightarrow> runner_config \<Rightarrow> string \<Rightarrow> (verification_check \<Rightarrow> 'w \<Rightarrow> process_run \<times> 'w)
     \<Rightarrow> verification_check \<Rightarrow> string \<Rightarrow> 'w \<Rightarrow> (verification_error + verification_evidence) \<times> 'w" where
  "command_verifier sha256 config repository start check tested w =
     (let (outcome, w') = start check w in (run_check sha256 config check outcome repository tested, w'))"

section \<open>The trait \<open>VerificationRunner\<close>\<close>

text \<open>What the coordinator relies on: evidence names its check, its obligation and what it tested.\<close>

locale verification_runner =
  fixes verify :: "verification_check \<Rightarrow> string \<Rightarrow> 'w \<Rightarrow> (verification_error + verification_evidence) \<times> 'w"
  assumes reports_check: "verify check tested w = (Inr e, w') \<Longrightarrow> ve_check_id e = vc_check_id check"
    and reports_required: "verify check tested w = (Inr e, w') \<Longrightarrow> ve_required e = vc_required check"
    and reports_tested: "verify check tested w = (Inr e, w') \<Longrightarrow> ve_tested_identity e = tested"
begin

lemma required_passed:
  assumes "verify check tested w = (Inr e, w')" and "vc_required check"
    and "\<not> (ve_required e \<and> ve_status e \<noteq> Passed)"
  shows "ve_check_id e = vc_check_id check \<and> ve_tested_identity e = tested \<and> ve_status e = Passed"
  using assms reports_check reports_required reports_tested by blast

end

lemma run_check_names:
  "run_check sha256 config check run repository tested = Inr ev
     \<Longrightarrow> ve_check_id ev = vc_check_id check \<and> ve_required ev = vc_required check \<and> ve_tested_identity ev = tested"
  by (auto simp: run_check_def exit_evidence_def denied_evidence_def Let_def rbind_Inr_iff
      split: if_splits sum.splits run_failure.splits)

interpretation command_runner: verification_runner "command_verifier sha256 config repository start"
  for sha256 config repository start
  by unfold_locales (auto simp: command_verifier_def dest!: run_check_names split: prod.splits)

section \<open>Facts\<close>

lemma relevant_checks_required:
  "c \<in> set (vp_checks plan) \<Longrightarrow> vc_required c \<Longrightarrow> c \<in> set (relevant_checks plan changed cited unsuccessful)"
  by (simp add: relevant_checks_def)

lemma log_artifact_redacted:
  "log_artifact sha256 config run label bytes repository tested = Inr (r, redacted)
     \<Longrightarrow> redacted = contains_secret bytes
       \<and> er_content_hash r = content_hash sha256 (if redacted then redaction else bytes)"
  by (auto simp: log_artifact_def Let_def rbind_Inr_iff split: option.splits)

text \<open>A check is recorded as passed only when its process ended successfully and in time, with no sign
  of a denied environment and no secret in its output; a secret is never retained; and the evidence
  names the check, its obligation and the identity it tested.\<close>

lemma run_check_passed:
  assumes "run_check sha256 config check run repository tested = Inr ev"
  shows "ve_check_id ev = vc_check_id check \<and> ve_required ev = vc_required check
       \<and> ve_tested_identity ev = tested
       \<and> (ve_status ev = Passed \<longleftrightarrow> (\<exists>e. pr_outcome run = Inr e \<and> px_success e \<and> \<not> px_timed_out e
            \<and> \<not> contains_secret (px_stdout e) \<and> \<not> contains_secret (px_stderr e)
            \<and> \<not> output_environment_denied (px_stdout e) (px_stderr e)))
       \<and> (\<forall>e r. pr_outcome run = Inr e \<longrightarrow> ve_stdout ev = Some r \<longrightarrow> contains_secret (px_stdout e)
            \<longrightarrow> er_content_hash r = content_hash sha256 redaction)"
proof (cases "pr_outcome run")
  case (Inl failure)
  then show ?thesis
    using assms by (cases failure) (auto simp: run_check_def denied_evidence_def split: if_splits)
next
  case (Inr e)
  with assms obtain out ro err re elapsed where
    out: "log_artifact sha256 config run ''stdout'' (px_stdout e) repository tested = Inr (out, ro)"
    and err: "log_artifact sha256 config run ''stderr'' (px_stderr e) repository tested = Inr (err, re)"
    and ev: "ve_check_id ev = vc_check_id check" "ve_required ev = vc_required check"
      "ve_tested_identity ev = tested" "ve_status ev = run_status e (ro \<or> re)" "ve_stdout ev = Some out"
    by (auto simp: run_check_def exit_evidence_def Let_def rbind_Inr_iff split: if_splits)
  note o = log_artifact_redacted [OF out] and r = log_artifact_redacted [OF err]
  have "run_status e (ro \<or> re) = Passed \<longleftrightarrow> px_success e \<and> \<not> px_timed_out e \<and> \<not> ro \<and> \<not> re
      \<and> \<not> output_environment_denied (px_stdout e) (px_stderr e)"
    by (auto simp: run_status_def)
  then show ?thesis using Inr ev o r by auto
qed

definition sample_check :: verification_check where
  "sample_check =
     \<lparr>vc_check_id = ''test'', vc_argv = [''cargo'', ''test''], vc_working_directory = ''.'',
      vc_environment = [], vc_timeout_ms = 1000, vc_required = True, vc_path_prefixes = []\<rparr>"

definition sample_run :: "string \<Rightarrow> process_run" where
  "sample_run out =
     \<lparr>pr_outcome = Inr \<lparr>px_success = True, px_code = Some 0, px_signal = None, px_timed_out = False,
        px_stdout = out, px_stderr = []\<rparr>,
      pr_started_at = [], pr_ended_at = [], pr_elapsed_ms = 5, pr_write_error = (\<lambda>_. None)\<rparr>"

lemma run_check_passed_witness:
  "\<exists>ev. run_check id \<lparr>rn_artifact_directory = ''logs'', rn_max_log_bytes = 100\<rparr> sample_check
      (sample_run ''ok'') ''/repo'' ''h'' = Inr ev \<and> ve_status ev = Passed"
proof -
  let ?run = "run_check id \<lparr>rn_artifact_directory = ''logs'', rn_max_log_bytes = 100\<rparr> sample_check
      (sample_run ''ok'') ''/repo'' ''h''"
  have "is_ok ?run" by code_simp
  then obtain ev where ev: "?run = Inr ev" by (auto simp: is_ok_iff)
  have "\<not> contains_secret ''ok''" "\<not> contains_secret []" "\<not> output_environment_denied ''ok'' []"
    by code_simp+
  with run_check_passed [OF ev] ev show ?thesis by (auto simp: sample_run_def)
qed

end
