(* ===== verification/Review_Cycle.thy ===== *)
theory Review_Cycle
  imports Review_Tier Review_Package Review_Verification
begin

text \<open>
  The state of a review cycle and the bookkeeping of its coordinator: the cycle record and its stop
  reasons (\<open>types.rs\<close>), the limits, reservations and ledgers, the recording of a stop, and the findings
  the coordinator synthesises, compares and deduplicates (\<open>crates/familiar-ai-review/src/coordinator.rs\<close>).

  The coordinator mutates one \<open>cycle\<close> and returns early with \<open>return self.stop(..)\<close> or \<open>?\<close>. A \<open>proc\<close> is
  such a piece of code: it maps the cycle and the outside world to the next ones and a value
  (\<open>Next\<close>), to the result of the whole run (\<open>Finished\<close>), or to no result where the package loop does
  not end (\<open>Diverges\<close>). The traits the coordinator calls are the fields of \<open>review_env\<close>, functions on
  an arbitrary world \<open>'w\<close>: what git, a check, an agent, the store or the clock answers may depend on
  everything that happened before.
\<close>

section \<open>The cycle\<close>

datatype stage_kind = Stage_Implementation | Stage_Verification | Stage_Review | Stage_Remediation

datatype review_cycle_state =
  CollectingEvidence | Verifying | AwaitingReview | Reviewed | Remediating | Reverifying | Completed
| Cycle_HumanReviewRequired | Interrupted

datatype stop_reason =
  RetryLimitExhausted | TokenLimitExhausted | CostLimitExhausted | DurationLimitExhausted
| ConflictingFindings | ScopeBroadened | ScopeAmbiguous | ArchitecturalApprovalRequired
| VerificationUnsuccessful | Stop_EnvironmentDenied | Stop_NarrationContradiction | OpenFindingUnwaived
| NoIndependentReviewer | Stop_MalformedReview | AgentFailure | EvidenceFailure | Stop_Interrupted
| CleanReview

record review_waiver =
  rw_waiver_id :: string
  rw_cycle_id :: string
  rw_finding_id :: string
  rw_actor :: string
  rw_reason :: string
  rw_created_at :: string

record stage_execution =
  sx_stage_id :: string
  sx_kind :: stage_kind
  sx_started_at :: string
  sx_ended_at :: string
  sx_duration_ms :: u64
  sx_outcome :: string
  sx_usage :: execution_usage
  sx_unavailable_fields :: string_map
  sx_request_artifact :: "evidence_ref option"
  sx_response_artifact :: "evidence_ref option"

record review_cycle =
  cy_cycle_id :: string
  cy_task_id :: string
  cy_repository_key :: string
  cy_attempt :: nat
  cy_state :: review_cycle_state
  cy_implementation :: agent_observation
  cy_implementation_execution :: "stage_execution option"
  cy_reviewer :: "agent_observation option"
  cy_independence :: "reviewer_independence option"
  cy_review_request :: "evidence_ref option"
  cy_review_result :: "review_result option"
  cy_remediation_request :: "evidence_ref option"
  cy_remediation_result :: "remediation_result option"
  cy_before :: "verification_evidence list"
  cy_after :: "verification_evidence list"
  cy_history :: "verification_evidence list"
  cy_waivers :: "review_waiver list"
  cy_scope_snapshot :: "evidence_ref option"
  cy_scope_evaluations :: "scope_check_result list"
  cy_tier :: "tier_selection option"
  cy_batch_pending :: bool
  cy_usage :: execution_usage
  cy_duration_ms :: u64
  cy_started_at :: string
  cy_ended_at :: "string option"
  cy_disposition :: review_disposition
  cy_stop_reasons :: "stop_reason list"
  cy_stop_detail :: "string option"
  cy_review_attempts :: "stage_execution list"
  cy_remediation_attempts :: "stage_execution list"

section \<open>What the coordinator is given\<close>

text \<open>Attempt counters are \<open>u32\<close> in the code and grow only below their limit: \<open>nat\<close> here.\<close>

record workflow_limits =
  wl_max_review_attempts :: nat
  wl_max_remediation_attempts :: nat
  wl_max_total_tokens :: "u64 option"
  wl_max_total_cost :: "u64 option"
  wl_max_total_duration_ms :: "u64 option"
  wl_review_reservation_tokens :: "u64 option"
  wl_remediation_reservation_tokens :: "u64 option"
  wl_action_reservation_cost :: "u64 option"
  wl_action_reservation_duration_ms :: u64

record coordination_request =
  cr_cycle_id :: string
  cr_repository_key :: string
  cr_task :: review_task
  cr_implementation :: agent_observation
  cr_reviewer :: agent_assignment
  cr_standard_reviewer :: "agent_assignment option"
  cr_tier_policy :: tier_policy
  cr_declared_risk_classes :: "string list"
  cr_contracts :: "bounded_document list"
  cr_invariants :: "bounded_invariant list"
  cr_verification_plan :: verification_plan
  cr_package_budget :: package_budget
  cr_limits :: workflow_limits
  cr_allow_same_model_fallback :: bool
  cr_implementation_usage :: execution_usage
  cr_implementation_duration_ms :: u64
  cr_scope_policy :: scope_snapshot
  cr_approved_scope_findings :: "string set"

datatype review_execution_error =
  Review_Agent_Failed string | CapabilityIncompatible string capability_reason | Parked string

datatype coordinator_error =
  InvalidLimits
| Coordinator_Evidence evidence_error
| Coordinator_Verification verification_error
| Coordinator_Package package_error
| Review_Failed review_execution_error
| Remediation_Failed string
| Coordinator_MalformedReview review_validation_error
| Persistence string
| ReviewCapabilityOutage string
| AccountingOverflow
| UnknownUsage
| UnknownCost
| Limit stop_reason

record 'w review_agent =
  ra_isolation :: "isolation_evidence option"
  ra_review :: "review_request \<Rightarrow> 'w \<Rightarrow> (review_execution_error + review_result) \<times> 'w"

text \<open>
  The collaborators. \<open>ev_metadata\<close> is \<open>symlink_metadata\<close>, \<open>ev_instant\<close> a monotonic clock in nanoseconds;
  the \<open>json\<close> fields are \<open>serde_json\<close>, which may fail; \<open>ev_reason_text\<close> prints a capability reason.
\<close>

record 'w review_env =
  env_capture :: "string \<Rightarrow> 'w \<Rightarrow> (evidence_error + captured_diff) \<times> 'w"
  env_metadata :: "'w \<Rightarrow> string \<Rightarrow> metadata"
  env_verify :: "verification_check \<Rightarrow> string \<Rightarrow> 'w \<Rightarrow> (verification_error + verification_evidence) \<times> 'w"
  env_reviewer :: "'w review_agent"
  env_batch_reviewer :: "'w review_agent option"
  env_remediate :: "remediation_request \<Rightarrow> 'w \<Rightarrow> (string + remediation_result) \<times> 'w"
  env_save_cycle :: "review_cycle \<Rightarrow> 'w \<Rightarrow> (string + unit) \<times> 'w"
  env_save_artifact :: "string \<Rightarrow> string \<Rightarrow> 'w \<Rightarrow> (string + evidence_ref) \<times> 'w"
  env_load_cycle :: "string \<Rightarrow> 'w \<Rightarrow> (string + review_cycle option) \<times> 'w"
  env_now :: "'w \<Rightarrow> string \<times> 'w"
  env_instant :: "'w \<Rightarrow> nat \<times> 'w"
  env_policy :: blocking_policy
  env_codec :: package_codec
  env_snapshot_json :: "scope_snapshot \<Rightarrow> string + string"
  env_remediation_json :: "remediation_request \<Rightarrow> string + string"
  env_remediation_result_json :: "remediation_result \<Rightarrow> string + string"
  env_result_json :: "review_result \<Rightarrow> string + string"
  env_scope_finding_json :: "scope_finding \<Rightarrow> string + string"
  env_identity_json :: "finding_category \<times> finding_evidence list \<Rightarrow> string + string"
  env_sha256 :: "string \<Rightarrow> string"
  env_reason_text :: "capability_reason \<Rightarrow> string"

section \<open>Pieces of the coordinator\<close>

record 'w run_state =
  st_world :: 'w
  st_cycle :: review_cycle

type_synonym run_result = "coordinator_error + review_cycle"

datatype ('w, 'a) outcome = Next 'a "'w run_state" | Finished run_result 'w | Diverges

type_synonym ('w, 'a) proc = "'w run_state \<Rightarrow> ('w, 'a) outcome"

definition give :: "'a \<Rightarrow> ('w, 'a) proc" where
  "give a s = Next a s"

definition bind :: "('w, 'a) proc \<Rightarrow> ('a \<Rightarrow> ('w, 'b) proc) \<Rightarrow> ('w, 'b) proc" where
  "bind m f s = (case m s of Next a t \<Rightarrow> f a t | Finished r w \<Rightarrow> Finished r w | Diverges \<Rightarrow> Diverges)"

definition andthen :: "('w, unit) proc \<Rightarrow> ('w, 'b) proc \<Rightarrow> ('w, 'b) proc" where
  "andthen m k = bind m (\<lambda>_. k)"

definition effect :: "('w \<Rightarrow> 'a \<times> 'w) \<Rightarrow> ('w, 'a) proc" where
  "effect f s = (let (a, w) = f (st_world s) in Next a (s\<lparr>st_world := w\<rparr>))"

definition the_cycle :: "('w, review_cycle) proc" where
  "the_cycle s = Next (st_cycle s) s"

definition update :: "(review_cycle \<Rightarrow> review_cycle) \<Rightarrow> ('w, unit) proc" where
  "update f s = Next () (s\<lparr>st_cycle := f (st_cycle s)\<rparr>)"

definition raise :: "coordinator_error \<Rightarrow> ('w, 'a) proc" where
  "raise e s = Finished (Inl e) (st_world s)"

definition return_cycle :: "('w, 'a) proc" where
  "return_cycle s = Finished (Inr (st_cycle s)) (st_world s)"

text \<open>\<open>map_err(f)?\<close>\<close>

definition unwrap :: "('e \<Rightarrow> coordinator_error) \<Rightarrow> 'e + 'a \<Rightarrow> ('w, 'a) proc" where
  "unwrap f r = (case r of Inl e \<Rightarrow> raise (f e) | Inr a \<Rightarrow> give a)"

definition attempt :: "('e \<Rightarrow> coordinator_error) \<Rightarrow> ('w \<Rightarrow> ('e + 'a) \<times> 'w) \<Rightarrow> ('w, 'a) proc" where
  "attempt f g = bind (effect g) (unwrap f)"

definition save_cycle :: "'w review_env \<Rightarrow> ('w, unit) proc" where
  "save_cycle env = bind the_cycle (\<lambda>c. attempt Persistence (env_save_cycle env c))"

definition save_artifact :: "'w review_env \<Rightarrow> string \<Rightarrow> string \<Rightarrow> ('w, evidence_ref) proc" where
  "save_artifact env kind bytes = attempt Persistence (env_save_artifact env kind bytes)"

definition now :: "'w review_env \<Rightarrow> ('w, string) proc" where
  "now env = effect (env_now env)"

definition instant :: "'w review_env \<Rightarrow> ('w, nat) proc" where
  "instant env = effect (env_instant env)"

section \<open>Stopping\<close>

definition record_stop :: "stop_reason \<Rightarrow> string \<Rightarrow> review_cycle \<Rightarrow> review_cycle" where
  "record_stop reason at c =
     c\<lparr>cy_state := if reason = CleanReview then Completed else Cycle_HumanReviewRequired,
       cy_disposition := if reason \<noteq> CleanReview then Review_HumanReviewRequired else cy_disposition c,
       cy_stop_reasons := cy_stop_reasons c @ [reason], cy_ended_at := Some at\<rparr>"

definition stop :: "'w review_env \<Rightarrow> stop_reason \<Rightarrow> ('w, 'a) proc" where
  "stop env reason =
     bind (now env) (\<lambda>at. andthen (update (record_stop reason at)) (andthen (save_cycle env) return_cycle))"

definition stop_with_detail :: "'w review_env \<Rightarrow> stop_reason \<Rightarrow> string \<Rightarrow> ('w, 'a) proc" where
  "stop_with_detail env reason detail =
     andthen (update (\<lambda>c. if trim detail \<noteq> [] then c\<lparr>cy_stop_detail := Some detail\<rparr> else c))
       (stop env reason)"

text \<open>A result whose error stops the cycle for \<open>reason\<close>.\<close>

definition or_stop :: "'w review_env \<Rightarrow> stop_reason \<Rightarrow> 'e + 'a \<Rightarrow> ('w, 'a) proc" where
  "or_stop env reason r = (case r of Inl _ \<Rightarrow> stop env reason | Inr a \<Rightarrow> give a)"

definition stop_for :: "'w review_env \<Rightarrow> stop_reason option \<Rightarrow> ('w, unit) proc" where
  "stop_for env r = (case r of None \<Rightarrow> give () | Some reason \<Rightarrow> stop env reason)"

section \<open>Limits and ledgers\<close>

datatype action = Review_Action | Remediation_Action | Verification_Action

definition validate_limits :: "workflow_limits \<Rightarrow> coordinator_error + unit" where
  "validate_limits l =
     (if wl_max_review_attempts l = 0 \<or> wl_max_remediation_attempts l = 0 then Inl InvalidLimits
      else if wl_max_total_tokens l = None \<and> wl_max_total_cost l = None \<and> wl_max_total_duration_ms l = None
      then Inl InvalidLimits else Inr ())"

definition reserve_amount ::
    "coordinator_error \<Rightarrow> stop_reason \<Rightarrow> u64 option \<Rightarrow> u64 option \<Rightarrow> u64 option \<Rightarrow> coordinator_error + unit" where
  "reserve_amount unknown reason maximum used amount =
     (case maximum of None \<Rightarrow> Inr ()
      | Some m \<Rightarrow>
        rbind (ok_or unknown used) (\<lambda>u.
        rbind (ok_or unknown amount) (\<lambda>a.
        rbind (ok_or AccountingOverflow (checked_add64 u a)) (\<lambda>t.
        if m < t then Inl (Limit reason) else Inr ()))))"

definition reserve :: "review_cycle \<Rightarrow> workflow_limits \<Rightarrow> action \<Rightarrow> coordinator_error + unit" where
  "reserve c l act =
     (let token = (case act of Review_Action \<Rightarrow> wl_review_reservation_tokens l
                   | Remediation_Action \<Rightarrow> wl_remediation_reservation_tokens l
                   | Verification_Action \<Rightarrow> Some 0) in
      rbind (reserve_amount UnknownUsage TokenLimitExhausted (wl_max_total_tokens l)
               (us_total_tokens (cy_usage c)) token) (\<lambda>_.
      rbind (reserve_amount UnknownCost CostLimitExhausted (wl_max_total_cost l)
               (us_estimated_cost_microusd (cy_usage c)) (wl_action_reservation_cost l)) (\<lambda>_.
      reserve_amount AccountingOverflow DurationLimitExhausted (wl_max_total_duration_ms l)
        (Some (cy_duration_ms c)) (Some (wl_action_reservation_duration_ms l)))))"

definition limit_reason :: "coordinator_error \<Rightarrow> stop_reason" where
  "limit_reason e =
     (case e of
        Limit reason \<Rightarrow> reason
      | UnknownUsage \<Rightarrow> TokenLimitExhausted
      | UnknownCost \<Rightarrow> CostLimitExhausted
      | AccountingOverflow \<Rightarrow> DurationLimitExhausted
      | _ \<Rightarrow> EvidenceFailure)"

definition exceeds :: "u64 option \<Rightarrow> u64 option \<Rightarrow> bool" where
  "exceeds maximum used =
     (case maximum of None \<Rightarrow> False
      | Some m \<Rightarrow> (case used of None \<Rightarrow> True | Some v \<Rightarrow> \<not> v \<le> m))"

definition budget_violation :: "review_cycle \<Rightarrow> workflow_limits \<Rightarrow> stop_reason option" where
  "budget_violation c l =
     (if exceeds (wl_max_total_tokens l) (us_total_tokens (cy_usage c)) then Some TokenLimitExhausted
      else if exceeds (wl_max_total_cost l) (us_estimated_cost_microusd (cy_usage c))
      then Some CostLimitExhausted
      else if exceeds (wl_max_total_duration_ms l) (Some (cy_duration_ms c))
      then Some DurationLimitExhausted
      else None)"

definition add_usage :: "execution_usage \<Rightarrow> review_cycle \<Rightarrow> review_cycle option" where
  "add_usage u c = map_option (\<lambda>t. c\<lparr>cy_usage := t\<rparr>) (usage_checked_add (cy_usage c) u)"

definition add_duration :: "u64 \<Rightarrow> review_cycle \<Rightarrow> review_cycle option" where
  "add_duration d c = map_option (\<lambda>t. c\<lparr>cy_duration_ms := t\<rparr>) (checked_add64 (cy_duration_ms c) d)"

text \<open>The guards in front of and behind every paid action.\<close>

definition update_or_stop ::
    "'w review_env \<Rightarrow> stop_reason \<Rightarrow> (review_cycle \<Rightarrow> review_cycle option) \<Rightarrow> ('w, unit) proc" where
  "update_or_stop env reason f =
     bind the_cycle (\<lambda>c. case f c of None \<Rightarrow> stop env reason | Some c' \<Rightarrow> update (\<lambda>_. c'))"

definition charge_usage :: "'w review_env \<Rightarrow> execution_usage \<Rightarrow> ('w, unit) proc" where
  "charge_usage env u = update_or_stop env TokenLimitExhausted (add_usage u)"

definition charge_duration :: "'w review_env \<Rightarrow> u64 \<Rightarrow> ('w, unit) proc" where
  "charge_duration env d = update_or_stop env DurationLimitExhausted (add_duration d)"

definition check_budget :: "'w review_env \<Rightarrow> workflow_limits \<Rightarrow> ('w, unit) proc" where
  "check_budget env l = bind the_cycle (\<lambda>c. stop_for env (budget_violation c l))"

definition reserve_or_stop :: "'w review_env \<Rightarrow> workflow_limits \<Rightarrow> action \<Rightarrow> ('w, unit) proc" where
  "reserve_or_stop env l act =
     bind the_cycle (\<lambda>c. case reserve c l act of Inl e \<Rightarrow> stop env (limit_reason e) | Inr _ \<Rightarrow> give ())"

section \<open>Findings\<close>

definition required_failed :: "verification_evidence list \<Rightarrow> bool" where
  "required_failed v = list_ex (\<lambda>e. ve_required e \<and> ve_status e \<noteq> Passed) v"

definition failing_checks :: "verification_evidence list \<Rightarrow> verification_evidence list" where
  "failing_checks v = filter (\<lambda>e. ve_required e \<and> ve_status e \<noteq> Passed) v"

definition environment_denied :: "verification_evidence list \<Rightarrow> bool" where
  "environment_denied v = list_ex (\<lambda>e. ve_required e \<and> ve_status e = EnvironmentDenied) v"

definition show_int :: "int \<Rightarrow> string" where
  "show_int i = (if i < 0 then ''-'' @ show_nat (nat (- i)) else show_nat (nat i))"

definition synthesize_check_failure_finding :: "string \<Rightarrow> nat \<Rightarrow> verification_evidence \<Rightarrow> review_finding" where
  "synthesize_check_failure_finding cycle_id number e =
     \<lparr>rf_finding_id = cycle_id @ ''-check-'' @ ve_check_id e @ ''-'' @ show_nat number,
      rf_category = CorrectnessDefect, rf_severity = Critical, rf_blocking = True,
      rf_title = ''Required check '' @ quoted (ve_check_id e) @ '' failed'',
      rf_claim = ''Required verification check '' @ quoted (ve_check_id e) @ '' did not pass (status ''
        @ status_debug (ve_status e) @ '', exit_code ''
        @ (case ve_exit_code e of None \<Rightarrow> ''None'' | Some i \<Rightarrow> ''Some('' @ show_int i @ '')'')
        @ ''). '' @ trim (ve_summary e),
      rf_evidence = map (Verification (ve_check_id e)) (filter_some id [ve_stdout e, ve_stderr e]),
      rf_remediation = ''Fix the failure in required check '' @ quoted (ve_check_id e)
        @ ''; see the captured output for details.'',
      rf_status = Open, rf_supersedes = None, rf_acceptance_criterion_id = None\<rparr>"

definition evidence_identity ::
    "(finding_category \<times> finding_evidence list \<Rightarrow> string + string) \<Rightarrow> review_finding \<Rightarrow> string" where
  "evidence_identity json f =
     (case json (rf_category f, rf_evidence f) of Inl _ \<Rightarrow> [] | Inr s \<Rightarrow> s)"

definition conflicting ::
    "(finding_category \<times> finding_evidence list \<Rightarrow> string + string) \<Rightarrow> review_finding \<Rightarrow> review_finding \<Rightarrow> bool" where
  "conflicting json l r \<longleftrightarrow>
     evidence_identity json l = evidence_identity json r \<and> rf_remediation l \<noteq> rf_remediation r
     \<and> rf_status l = Open \<and> rf_status r = Open"

fun findings_conflict ::
    "(finding_category \<times> finding_evidence list \<Rightarrow> string + string) \<Rightarrow> review_finding list \<Rightarrow> bool" where
  "findings_conflict json [] = False"
| "findings_conflict json (f # fs) = (list_ex (conflicting json f) fs \<or> findings_conflict json fs)"

fun dedup_from ::
    "(review_finding \<Rightarrow> 'k) \<Rightarrow> 'k set \<Rightarrow> review_finding list \<Rightarrow> review_finding list" where
  "dedup_from key seen [] = []"
| "dedup_from key seen (f # fs) =
     (if key f \<in> seen then dedup_from key seen fs else f # dedup_from key (insert (key f) seen) fs)"

definition deduplicate_findings ::
    "(finding_category \<times> finding_evidence list \<Rightarrow> string + string) \<Rightarrow> review_finding list
     \<Rightarrow> review_finding list" where
  "deduplicate_findings json fs =
     dedup_from (\<lambda>f. (rf_category f, evidence_identity json f, rf_claim f)) {} fs"

definition human_review_absorbed ::
    "(scope_finding \<Rightarrow> string) \<Rightarrow> scope_evaluation \<Rightarrow> string set \<Rightarrow> bool" where
  "human_review_absorbed substance evaluation approved \<longleftrightarrow>
     approved \<noteq> {} \<and>
     list_all (\<lambda>f. case sf_decision f of
         ProhibitedChange \<Rightarrow> False
       | AmbiguousHumanReview \<Rightarrow> substance f \<in> approved
       | UndeclaredScopeExpansion \<Rightarrow> substance f \<in> approved
       | AllowedChange \<Rightarrow> True
       | JustifiedExpectedFileChange \<Rightarrow> True) (se_findings evaluation)"

section \<open>Failed stages\<close>

definition unavailable_fields :: "string \<Rightarrow> string_map" where
  "unavailable_fields outcome_text =
     btree_of (map (\<lambda>f. (f, outcome_text))
       [''input_tokens'', ''output_tokens'', ''cached_tokens'', ''total_tokens'', ''estimated_cost_microusd''])"

definition unknown_usage :: "string \<Rightarrow> execution_usage" where
  "unknown_usage outcome_text =
     \<lparr>us_input_tokens = None, us_output_tokens = None, us_cached_tokens = None, us_total_tokens = None,
      us_estimated_cost_microusd = None, us_pricing_provenance = None,
      us_unavailable_fields = unavailable_fields outcome_text\<rparr>"

definition failed_stage ::
    "'w review_env \<Rightarrow> string \<Rightarrow> stage_kind \<Rightarrow> string \<Rightarrow> nat \<Rightarrow> string \<Rightarrow> ('w, stage_execution) proc" where
  "failed_stage env stage_id kind started timer outcome_text =
     bind (now env) (\<lambda>ended. bind (instant env) (\<lambda>t.
     let ms = (t - timer) div 1000000 in
     give \<lparr>sx_stage_id = stage_id, sx_kind = kind, sx_started_at = started, sx_ended_at = ended,
       sx_duration_ms = (if ms < 2 ^ 64 then word_of_nat ms else word_of_nat u64_max),
       sx_outcome = outcome_text, sx_usage = unknown_usage outcome_text,
       sx_unavailable_fields = unavailable_fields outcome_text, sx_request_artifact = None,
       sx_response_artifact = None\<rparr>))"

text \<open>The ledger of a failed attempt: its usage and duration are charged before it is recorded.\<close>

definition charge_failed_stage :: "'w review_env \<Rightarrow> stage_execution \<Rightarrow> ('w, unit) proc" where
  "charge_failed_stage env stage =
     andthen (charge_usage env (sx_usage stage)) (charge_duration env (sx_duration_ms stage))"

end
