(* ===== verification/Review_Store.thy ===== *)
theory Review_Store
  imports Review_Cycle Review_Evidence Backlog
begin

text \<open>
  The durable reviews, \<open>crates/familiar-ai-storage/src/repos/review.rs\<close> over the tables of the migrations 006, 019,
  032, 056, 061 and 068: tasks, cycles, findings with their history and outcomes, waivers, verification
  evidence, artifacts, lessons and admission quality.

  A table is the list of its rows in insertion order. A JSON column holds the value it was printed from; what
  serde refuses is not modelled. A statement checks the keys and foreign keys that it could violate, and an
  error rolls the transaction back. The clock is the argument \<open>stamp\<close>, as RFC 3339 text.
\<close>

section \<open>Tables\<close>

record task_row =
  tr_task :: review_task
  tr_policy :: blocking_policy
  tr_created_at :: string

record artifact_row =
  ar_hash :: string
  ar_kind :: string
  ar_media_type :: string
  ar_byte_size :: nat
  ar_content :: string
  ar_created_at :: string

text \<open>The id of a cycle row is that of its JSON; the other columns are kept beside it.\<close>

record cycle_row =
  cw_id :: string
  cw_task :: string
  cw_attempt :: nat
  cw_state :: review_cycle_state
  cw_disposition :: review_disposition
  cw_cycle :: review_cycle
  cw_started_at :: string
  cw_ended_at :: "string option"

datatype stage_observation = Stage_Observed stage_execution | Check_Observed verification_evidence

record stage_row =
  st_cycle :: string
  st_stage :: string
  st_kind :: stage_kind
  st_observation :: stage_observation

record finding_row =
  fw_id :: string
  fw_cycle :: string
  fw_category :: finding_category
  fw_severity :: finding_severity
  fw_blocking :: bool
  fw_status :: finding_status
  fw_finding :: review_finding
  fw_acceptance :: "string option"

record finding_event_row =
  fe_cycle :: string
  fe_finding :: string
  fe_attempt :: nat
  fe_status :: finding_status
  fe_json :: review_finding

datatype finding_outcome = Outcome_Unresolved | Outcome_Confirmed | Outcome_Waived | Outcome_Invalid

record outcome_row =
  oc_cycle :: string
  oc_finding :: string
  oc_reviewer :: string
  oc_outcome :: finding_outcome
  oc_actor :: "string option"
  oc_reason :: "string option"
  oc_revision :: "string option"
  oc_raised_at :: string
  oc_resolved_at :: "string option"

record waiver_row =
  wv_id :: string
  wv_cycle :: string
  wv_finding :: string
  wv_substance :: string
  wv_actor :: string
  wv_reason :: string
  wv_created_at :: string

record evidence_row =
  ew_cycle :: string
  ew_check :: string
  ew_phase :: string
  ew_evidence :: verification_evidence
  ew_repository :: string

record tier_row =
  tw_cycle :: string
  tw_selection :: tier_selection

datatype lesson_classification =
  ProjectInvariant | ProjectSpecificHeuristic | GeneralEngineeringHeuristic | OneOffFinding

datatype lesson_status = Lesson_Proposed | Lesson_Approved | Lesson_Rejected | Lesson_Superseded

record lesson_applicability =
  la_project :: string
  la_paths :: "string list"
  la_categories :: "finding_category list"
  la_exclusions :: "string list"
  la_max_future_tokens :: u64

record human_approval =
  ha_human :: string
  ha_approved_at :: string
  ha_source_revision :: string
  ha_exact_statement :: string

record lesson_provenance =
  lp_finding :: string
  lp_cycle :: string
  lp_remediation :: string
  lp_evidence :: "evidence_ref list"
  lp_source_revision :: string

record lesson_proposal =
  ln_id :: string
  ln_project :: string
  ln_classification :: lesson_classification
  ln_statement :: string
  ln_rationale :: string
  ln_applicability :: lesson_applicability
  ln_provenance :: lesson_provenance
  ln_status :: lesson_status
  ln_proposed_at :: string
  ln_reviewed_by :: "human_approval option"

record lesson_event =
  le_lesson :: string
  le_sequence :: nat
  le_status :: lesson_status
  le_actor :: "human_approval option"
  le_occurred_at :: string

record tolerance_row =
  to_invariant :: string
  to_table :: string
  to_row :: string
  to_detail :: string
  to_recorded_at :: string

record quality_row =
  qw_repository :: string
  qw_prd :: string
  qw_path :: string
  qw_hash :: string
  qw_check :: string
  qw_field :: string
  qw_passed :: bool
  qw_detail :: string
  qw_measured_at :: string

record review_db =
  vd_tasks :: "task_row list"
  vd_artifacts :: "artifact_row list"
  vd_cycles :: "cycle_row list"
  vd_stages :: "stage_row list"
  vd_findings :: "finding_row list"
  vd_finding_events :: "finding_event_row list"
  vd_outcomes :: "outcome_row list"
  vd_waivers :: "waiver_row list"
  vd_evidence :: "evidence_row list"
  vd_tiers :: "tier_row list"
  vd_lessons :: "lesson_proposal list"
  vd_lesson_events :: "lesson_event list"
  vd_tolerances :: "tolerance_row list"
  vd_quality :: "quality_row list"

definition empty_reviews :: review_db where
  "empty_reviews = \<lparr>vd_tasks = [], vd_artifacts = [], vd_cycles = [], vd_stages = [], vd_findings = [],
     vd_finding_events = [], vd_outcomes = [], vd_waivers = [], vd_evidence = [], vd_tiers = [],
     vd_lessons = [], vd_lesson_events = [], vd_tolerances = [], vd_quality = []\<rparr>"

text \<open>\<open>INSERT OR REPLACE\<close> deletes the rows with the key and appends; \<open>INSERT OR IGNORE\<close> appends if there is none.\<close>

definition replace_row :: "('a \<Rightarrow> 'k) \<Rightarrow> 'a \<Rightarrow> 'a list \<Rightarrow> 'a list" where
  "replace_row key x xs = filter (\<lambda>y. key y \<noteq> key x) xs @ [x]"

definition insert_or_ignore :: "('a \<Rightarrow> 'k) \<Rightarrow> 'a \<Rightarrow> 'a list \<Rightarrow> 'a list" where
  "insert_or_ignore key x xs = (if list_ex (\<lambda>y. key y = key x) xs then xs else xs @ [x])"

text \<open>\<open>ON CONFLICT(..) DO UPDATE\<close>: the row with the key is changed in its place.\<close>

definition upsert_into :: "('a \<Rightarrow> 'k) \<Rightarrow> ('a \<Rightarrow> 'a) \<Rightarrow> 'a \<Rightarrow> 'a list \<Rightarrow> 'a list" where
  "upsert_into key f x xs =
     (if list_ex (\<lambda>y. key y = key x) xs then map (\<lambda>y. if key y = key x then f y else y) xs else xs @ [x])"

section \<open>Tasks, artifacts and cycles\<close>

definition insert_task :: "string \<Rightarrow> review_task \<Rightarrow> blocking_policy \<Rightarrow> review_db \<Rightarrow> review_db" where
  "insert_task stamp task policy db =
     db\<lparr>vd_tasks := insert_or_ignore (\<lambda>r. tk_task_id (tr_task r))
       \<lparr>tr_task = task, tr_policy = policy, tr_created_at = stamp\<rparr> (vd_tasks db)\<rparr>"

definition find_cycle :: "string \<Rightarrow> review_db \<Rightarrow> cycle_row option" where
  "find_cycle i db = find (\<lambda>r. cw_id r = i) (vd_cycles db)"

definition get_cycle :: "review_db \<Rightarrow> string \<Rightarrow> review_cycle option" where
  "get_cycle db i = map_option cw_cycle (find_cycle i db)"

definition save_artifact :: "(string \<Rightarrow> string) \<Rightarrow> string \<Rightarrow> string \<Rightarrow> string \<Rightarrow> review_db \<Rightarrow> evidence_ref \<times> review_db" where
  "save_artifact hash stamp kind content db =
     (\<lparr>er_content_hash = hash content, er_media_type = ''application/json'',
       er_byte_size = word_of_nat (length content), er_repository = [], er_revision = [],
       er_storage_ref = ''sqlite:review_artifacts/'' @ hash content, er_truncated = False, er_omitted_bytes = 0\<rparr>,
      db\<lparr>vd_artifacts := insert_or_ignore ar_hash
        \<lparr>ar_hash = hash content, ar_kind = kind, ar_media_type = ''application/json'', ar_byte_size = length content,
         ar_content = content, ar_created_at = stamp\<rparr> (vd_artifacts db)\<rparr>)"

definition cycle_columns :: "review_cycle \<Rightarrow> cycle_row" where
  "cycle_columns c = \<lparr>cw_id = cy_cycle_id c, cw_task = cy_task_id c, cw_attempt = cy_attempt c, cw_state = cy_state c,
     cw_disposition = cy_disposition c, cw_cycle = c, cw_started_at = cy_started_at c, cw_ended_at = cy_ended_at c\<rparr>"

definition resave_columns :: "review_cycle \<Rightarrow> cycle_row \<Rightarrow> cycle_row" where
  "resave_columns c r = r\<lparr>cw_attempt := cy_attempt c, cw_state := cy_state c, cw_disposition := cy_disposition c,
     cw_cycle := c, cw_ended_at := cy_ended_at c\<rparr>"

definition finding_columns :: "string \<Rightarrow> review_finding \<Rightarrow> finding_row" where
  "finding_columns cycle f = \<lparr>fw_id = rf_finding_id f, fw_cycle = cycle, fw_category = rf_category f,
     fw_severity = rf_severity f, fw_blocking = rf_blocking f, fw_status = rf_status f, fw_finding = f,
     fw_acceptance = rf_acceptance_criterion_id f\<rparr>"

text \<open>One finding of a result: its row, its history and its outcome, raised when the review ended.\<close>

definition save_finding ::
    "(agent_assignment \<Rightarrow> string) \<Rightarrow> review_cycle \<Rightarrow> review_result \<Rightarrow> review_finding \<Rightarrow> review_db \<Rightarrow> review_db" where
  "save_finding assignment_json c result f db =
     db\<lparr>vd_findings := replace_row fw_id (finding_columns (cy_cycle_id c) f) (vd_findings db),
        vd_finding_events := insert_or_ignore (\<lambda>e. (fe_cycle e, fe_finding e, fe_attempt e, fe_status e))
          \<lparr>fe_cycle = cy_cycle_id c, fe_finding = rf_finding_id f, fe_attempt = cy_attempt c, fe_status = rf_status f,
           fe_json = f\<rparr> (vd_finding_events db),
        vd_outcomes := insert_or_ignore (\<lambda>o'. (oc_cycle o', oc_finding o'))
          \<lparr>oc_cycle = cy_cycle_id c, oc_finding = rf_finding_id f,
           oc_reviewer = assignment_json (ao_assignment (rr_reviewer result)), oc_outcome = Outcome_Unresolved,
           oc_actor = None, oc_reason = None, oc_revision = None, oc_raised_at = rr_ended_at result,
           oc_resolved_at = None\<rparr> (vd_outcomes db)\<rparr>"

text \<open>
  The findings of a cycle are replaced; a lesson that refers to a finding that is deleted and not in
  the result again forbids the statement that deletes it.
\<close>

definition save_result ::
    "(agent_assignment \<Rightarrow> string) \<Rightarrow> review_cycle \<Rightarrow> review_db \<Rightarrow> string + review_db" where
  "save_result assignment_json c db =
     (case cy_review_result c of
        None \<Rightarrow> Inr db
      | Some result \<Rightarrow>
        let deleted = filter (\<lambda>r. fw_cycle r = cy_cycle_id c) (vd_findings db) in
        if list_ex (\<lambda>l. lp_finding (ln_provenance l) \<in> fw_id ` set deleted) (vd_lessons db)
        then Inl ''FOREIGN KEY constraint failed''
        else Inr (fold (save_finding assignment_json c result) (rr_findings result)
          (db\<lparr>vd_findings := filter (\<lambda>r. fw_cycle r \<noteq> cy_cycle_id c) (vd_findings db)\<rparr>)))"

definition stage_key :: "stage_row \<Rightarrow> string \<times> string" where
  "stage_key r = (st_cycle r, st_stage r)"

definition save_stages :: "review_cycle \<Rightarrow> review_db \<Rightarrow> review_db" where
  "save_stages c db =
     db\<lparr>vd_stages := fold (\<lambda>s. replace_row stage_key
       \<lparr>st_cycle = cy_cycle_id c, st_stage = sx_stage_id s, st_kind = sx_kind s, st_observation = Stage_Observed s\<rparr>)
       ((case cy_implementation_execution c of None \<Rightarrow> [] | Some s \<Rightarrow> [s]) @ cy_review_attempts c @ cy_remediation_attempts c)
       (vd_stages db)\<rparr>"

definition phase_name :: "nat \<Rightarrow> string" where
  "phase_name n = ''attempt-'' @ show_nat n"

definition evidence_key :: "evidence_row \<Rightarrow> string \<times> string \<times> string" where
  "evidence_key r = (ew_cycle r, ew_check r, ew_phase r)"

definition save_evidence :: "review_cycle \<Rightarrow> nat \<times> verification_evidence \<Rightarrow> review_db \<Rightarrow> review_db" where
  "save_evidence c = (\<lambda>(n, e) db.
     db\<lparr>vd_stages := replace_row stage_key
          \<lparr>st_cycle = cy_cycle_id c, st_stage = phase_name n @ ''-'' @ ve_check_id e, st_kind = Stage_Verification,
           st_observation = Check_Observed e\<rparr> (vd_stages db),
        vd_evidence := replace_row evidence_key
          \<lparr>ew_cycle = cy_cycle_id c, ew_check = ve_check_id e, ew_phase = phase_name n, ew_evidence = e,
           ew_repository = cy_repository_key c\<rparr> (vd_evidence db)\<rparr>)"

definition save_history :: "review_cycle \<Rightarrow> review_db \<Rightarrow> string + review_db" where
  "save_history c db =
     (if cy_history c \<noteq> [] \<and> cy_repository_key c = []
      then Inl ''verification evidence requires repository identity''
      else Inr (fold (save_evidence c) (enumerate 0 (cy_history c))
        (db\<lparr>vd_evidence := filter (\<lambda>r. ew_cycle r \<noteq> cy_cycle_id c) (vd_evidence db)\<rparr>)))"

definition save_tier :: "review_cycle \<Rightarrow> review_db \<Rightarrow> review_db" where
  "save_tier c db =
     (case cy_tier c of None \<Rightarrow> db
      | Some s \<Rightarrow> db\<lparr>vd_tiers := upsert_into tw_cycle (\<lambda>r. r\<lparr>tw_selection := s\<rparr>)
          \<lparr>tw_cycle = cy_cycle_id c, tw_selection = s\<rparr> (vd_tiers db)\<rparr>)"

definition save_cycle_row :: "(agent_assignment \<Rightarrow> string) \<Rightarrow> review_cycle \<Rightarrow> review_db \<Rightarrow> string + review_db" where
  "save_cycle_row assignment_json c db =
     (if \<not> list_ex (\<lambda>r. cw_id r = cy_cycle_id c) (vd_cycles db)
         \<and> \<not> list_ex (\<lambda>r. tk_task_id (tr_task r) = cy_task_id c) (vd_tasks db)
      then Inl ''FOREIGN KEY constraint failed''
      else rbind (save_result assignment_json c (save_tier c
        (db\<lparr>vd_cycles := upsert_into cw_id (resave_columns c) (cycle_columns c) (vd_cycles db)\<rparr>))) (\<lambda>db1.
      save_history c (save_stages c db1)))"

section \<open>Waivers and outcomes\<close>

definition waivable :: "string \<Rightarrow> string \<Rightarrow> finding_row \<Rightarrow> bool" where
  "waivable cycle finding r \<longleftrightarrow> fw_cycle r = cycle \<and> fw_id r = finding \<and> fw_status r = Open
     \<and> (fw_blocking r \<or> fw_acceptance r \<noteq> None)"

definition waiving_human :: "string \<Rightarrow> bool" where
  "waiving_human actor \<longleftrightarrow> starts_with actor ''human:'' \<and> trim actor \<noteq> ''human:''"

text \<open>\<open>substance_json\<close> prints the substance of a finding.\<close>

definition waive_finding ::
    "(review_finding \<Rightarrow> string) \<Rightarrow> string \<Rightarrow> review_db \<Rightarrow> string \<Rightarrow> string \<Rightarrow> string \<Rightarrow> string
     \<Rightarrow> familiar_error + review_waiver \<times> review_db" where
  "waive_finding substance_json stamp db cycle finding actor reason =
     (if \<not> waiving_human actor \<or> trim reason = [] then Inl (Database_Error ''waiver requires actor and reason'')
      else case find_cycle cycle db of
        None \<Rightarrow> Inl (Database_Error (''review cycle '' @ cycle @ '' not found''))
      | Some row \<Rightarrow>
        if \<not> list_ex (waivable cycle finding) (vd_findings db)
        then Inl (Database_Error (''finding '' @ finding @ '' is not an open blocking or acceptance-criterion finding''))
        else
          let substance = (case find (\<lambda>r. fw_cycle r = cycle \<and> fw_id r = finding) (vd_findings db) of
                 None \<Rightarrow> [] | Some r \<Rightarrow> substance_json (fw_finding r));
              w = \<lparr>rw_waiver_id = cycle @ '':'' @ finding, rw_cycle_id = cycle, rw_finding_id = finding,
                   rw_actor = actor, rw_reason = reason, rw_created_at = stamp\<rparr>;
              c = cw_cycle row;
              c' = c\<lparr>cy_waivers := filter (\<lambda>v. rw_finding_id v \<noteq> finding) (cy_waivers c) @ [w]\<rparr>;
              wr = \<lparr>wv_id = rw_waiver_id w, wv_cycle = cycle, wv_finding = finding, wv_substance = substance,
                    wv_actor = actor, wv_reason = reason, wv_created_at = stamp\<rparr> in
          if list_ex (\<lambda>r. wv_id r = wv_id wr \<and> (wv_cycle r, wv_finding r) \<noteq> (cycle, finding)) (vd_waivers db)
          then Inl (unique_failed ''review_finding_waivers.waiver_id'')
          else Inr (w, db\<lparr>
            vd_waivers := upsert_into (\<lambda>r. (wv_cycle r, wv_finding r)) (\<lambda>_. wr) wr (vd_waivers db),
            vd_outcomes := map (\<lambda>r. if oc_cycle r = cycle \<and> oc_finding r = finding \<and> oc_outcome r = Outcome_Unresolved
              then r\<lparr>oc_outcome := Outcome_Waived, oc_actor := Some actor, oc_reason := Some reason, oc_resolved_at := Some stamp\<rparr>
              else r) (vd_outcomes db),
            vd_cycles := map (\<lambda>r. if cw_id r = cycle then r\<lparr>cw_cycle := c'\<rparr> else r) (vd_cycles db)\<rparr>))"

text \<open>The outcomes a caller can ask for: \<open>Outcome_Unresolved\<close> is not one of the enum of the code.\<close>

definition outcome_revision ::
    "finding_outcome \<Rightarrow> string \<Rightarrow> string \<Rightarrow> string option \<Rightarrow> familiar_error + string option" where
  "outcome_revision outcome actor reason landed =
     (case outcome of
        Outcome_Confirmed \<Rightarrow>
          (case landed of
             Some r \<Rightarrow> if trim r \<noteq> [] then Inr (Some r)
               else Inl (Database_Error ''confirmed finding requires landed revision'')
           | None \<Rightarrow> Inl (Database_Error ''confirmed finding requires landed revision''))
      | Outcome_Invalid \<Rightarrow>
          if trim reason = [] then Inl (Database_Error ''invalid finding requires reason'') else Inr None
      | _ \<Rightarrow>
          if \<not> starts_with actor ''human:'' \<or> trim reason = []
          then Inl (Database_Error ''waived finding requires human authority and reason'') else Inr None)"

definition resolve_finding ::
    "string \<Rightarrow> review_db \<Rightarrow> string \<Rightarrow> string \<Rightarrow> finding_outcome \<Rightarrow> string \<Rightarrow> string \<Rightarrow> string option
     \<Rightarrow> familiar_error + review_db" where
  "resolve_finding stamp db cycle finding outcome actor reason landed =
     (if trim actor = [] then Inl (Database_Error ''finding outcome requires actor'')
      else rbind (outcome_revision outcome actor reason landed) (\<lambda>revision.
        if \<not> list_ex (\<lambda>r. oc_cycle r = cycle \<and> oc_finding r = finding \<and> oc_outcome r = Outcome_Unresolved) (vd_outcomes db)
        then Inl (Database_Error (''finding '' @ finding @ '' is absent or already resolved''))
        else Inr (db\<lparr>vd_outcomes := map (\<lambda>r.
          if oc_cycle r = cycle \<and> oc_finding r = finding \<and> oc_outcome r = Outcome_Unresolved
          then r\<lparr>oc_outcome := outcome, oc_actor := Some actor, oc_reason := Some reason, oc_revision := revision,
            oc_resolved_at := Some stamp\<rparr> else r) (vd_outcomes db)\<rparr>)))"

text \<open>The measure of a reviewer over its last findings: how many were raised, and how many of each outcome.\<close>

record reviewer_calibration =
  rc_identity :: string
  rc_window :: nat
  rc_raised :: nat
  rc_confirmed :: nat
  rc_waived :: nat
  rc_invalid :: nat
  rc_unresolved :: nat

definition reviewer_calibration_of :: "review_db \<Rightarrow> string \<Rightarrow> nat \<Rightarrow> familiar_error + reviewer_calibration" where
  "reviewer_calibration_of db reviewer window =
     (if window = 0 then Inl (Database_Error ''calibration window must be positive'')
      else let rows = take (min window (2 ^ 63 - 1)) (rev (sort_key (\<lambda>r. (oc_raised_at r, oc_cycle r, oc_finding r))
                   (filter (\<lambda>r. oc_reviewer r = reviewer) (vd_outcomes db))));
               count = (\<lambda>o'. length (filter (\<lambda>r. oc_outcome r = o') rows)) in
        Inr \<lparr>rc_identity = reviewer, rc_window = window, rc_raised = length rows, rc_confirmed = count Outcome_Confirmed,
          rc_waived = count Outcome_Waived, rc_invalid = count Outcome_Invalid, rc_unresolved = count Outcome_Unresolved\<rparr>)"

section \<open>Recovery\<close>

definition cycle_in_progress :: "review_cycle_state \<Rightarrow> bool" where
  "cycle_in_progress s \<longleftrightarrow> s \<notin> {review_cycle_state.Completed, Cycle_HumanReviewRequired, Interrupted}"

definition interrupt_cycle :: "string \<Rightarrow> cycle_row \<Rightarrow> cycle_row" where
  "interrupt_cycle stamp r =
     (let c = cw_cycle r in
      r\<lparr>cw_state := Interrupted, cw_disposition := Review_HumanReviewRequired,
        cw_cycle := c\<lparr>cy_state := Interrupted, cy_disposition := Review_HumanReviewRequired,
          cy_stop_reasons := cy_stop_reasons c @ [Stop_Interrupted], cy_ended_at := Some stamp\<rparr>,
        cw_ended_at := Some stamp\<rparr>)"

definition recover_reviews :: "string \<Rightarrow> review_db \<Rightarrow> nat \<times> review_db" where
  "recover_reviews stamp db =
     (let open = filter (\<lambda>r. cycle_in_progress (cw_state r)) (vd_cycles db) in
      (length open,
       db\<lparr>vd_cycles := map (\<lambda>r. if cycle_in_progress (cw_state r) then interrupt_cycle stamp r else r) (vd_cycles db),
          vd_tolerances := vd_tolerances db @ map (\<lambda>r.
            \<lparr>to_invariant = ''review-recovery-schema-tolerance'', to_table = ''review_cycles'', to_row = cw_id r,
             to_detail = ''recovered cycle predates repository_key; interrupted in place rather than refused or rewritten through save_cycle'',
             to_recorded_at = stamp\<rparr>) (filter (\<lambda>r. cy_repository_key (cw_cycle r) = []) open)\<rparr>))"

section \<open>Lessons\<close>

definition insert_lesson :: "review_db \<Rightarrow> lesson_proposal \<Rightarrow> familiar_error + review_db" where
  "insert_lesson db l =
     (if map_option fw_status (find (\<lambda>r. fw_id r = lp_finding (ln_provenance l)) (vd_findings db)) \<noteq> Some Resolved
      then Inl (Database_Error ''lesson requires a canonical resolved finding'')
      else if ln_status l \<noteq> Lesson_Proposed \<or> ln_reviewed_by l \<noteq> None
      then Inl (Database_Error ''new lesson must be an unreviewed proposal'')
      else if list_ex (\<lambda>x. ln_id x = ln_id l) (vd_lessons db) then Inl (unique_failed ''lesson_proposals.lesson_id'')
      else Inr (db\<lparr>vd_lessons := vd_lessons db @ [l],
        vd_lesson_events := vd_lesson_events db @ [\<lparr>le_lesson = ln_id l, le_sequence = 1, le_status = Lesson_Proposed,
          le_actor = None, le_occurred_at = ln_proposed_at l\<rparr>]\<rparr>))"

definition get_lesson :: "review_db \<Rightarrow> string \<Rightarrow> lesson_proposal option" where
  "get_lesson db i = find (\<lambda>l. ln_id l = i) (vd_lessons db)"

definition transition_lesson ::
    "string \<Rightarrow> review_db \<Rightarrow> string \<Rightarrow> lesson_status \<Rightarrow> human_approval \<Rightarrow> familiar_error + review_db" where
  "transition_lesson stamp db i status approval =
     (case get_lesson db i of
        None \<Rightarrow> Inl (Database_Error (''lesson '' @ i @ '' not found''))
      | Some l \<Rightarrow>
        if ln_status l \<noteq> Lesson_Proposed \<and> status \<noteq> Lesson_Superseded
        then Inl (Database_Error ''lesson transition requires proposed state'')
        else if ln_classification l = OneOffFinding \<and> status = Lesson_Approved
        then Inl (Database_Error ''one-off findings cannot become approved guidance'')
        else if ln_classification l = ProjectInvariant \<and> status = Lesson_Approved
            \<and> (ha_exact_statement approval \<noteq> ln_statement l \<or> ha_source_revision approval \<noteq> lp_source_revision (ln_provenance l))
        then Inl (Database_Error ''project invariant approval must identify the exact statement and source revision'')
        else Inr (db\<lparr>
          vd_lessons := map (\<lambda>x. if ln_id x = i then l\<lparr>ln_status := status, ln_reviewed_by := Some approval\<rparr> else x) (vd_lessons db),
          vd_lesson_events := vd_lesson_events db @ [\<lparr>le_lesson = i,
            le_sequence = Suc (fold max (map le_sequence (filter (\<lambda>e. le_lesson e = i) (vd_lesson_events db))) 0),
            le_status = status, le_actor = Some approval, le_occurred_at = stamp\<rparr>]\<rparr>))"

definition approve_lesson :: "string \<Rightarrow> review_db \<Rightarrow> string \<Rightarrow> human_approval \<Rightarrow> familiar_error + review_db" where
  "approve_lesson stamp db i approval = transition_lesson stamp db i Lesson_Approved approval"

definition reject_lesson :: "string \<Rightarrow> review_db \<Rightarrow> string \<Rightarrow> human_approval \<Rightarrow> familiar_error + review_db" where
  "reject_lesson stamp db i approval = transition_lesson stamp db i Lesson_Rejected approval"

definition supersede_lesson :: "string \<Rightarrow> review_db \<Rightarrow> string \<Rightarrow> human_approval \<Rightarrow> familiar_error + review_db" where
  "supersede_lesson stamp db i approval = transition_lesson stamp db i Lesson_Superseded approval"

section \<open>Admission quality\<close>

definition record_admission_quality :: "string \<Rightarrow> review_db \<Rightarrow> string \<Rightarrow> string \<Rightarrow> quality_report \<Rightarrow> review_db" where
  "record_admission_quality stamp db repo hash report =
     db\<lparr>vd_quality := fold (\<lambda>c. replace_row (\<lambda>r. (qw_repository r, qw_hash r, qw_check r, qw_field r))
       \<lparr>qw_repository = repo, qw_prd = show_prd_id (qr_prd_id report), qw_path = qr_prd_path report, qw_hash = hash,
        qw_check = qc_check c, qw_field = qc_field c, qw_passed = qc_passed c, qw_detail = qc_detail c, qw_measured_at = stamp\<rparr>)
       (qr_checks report) (vd_quality db)\<rparr>"

definition stored_quality :: "review_db \<Rightarrow> string \<Rightarrow> string \<Rightarrow> (string \<times> string \<times> bool \<times> string) list" where
  "stored_quality db repo prd =
     (let rows = filter (\<lambda>r. qw_repository r = repo \<and> qw_prd r = prd) (vd_quality db) in
      case rev (sort_key qw_measured_at rows) of
        [] \<Rightarrow> []
      | newest # _ \<Rightarrow> map (\<lambda>r. (qw_check r, qw_field r, qw_passed r, qw_detail r))
          (sort_key (\<lambda>r. (qw_check r, qw_field r)) (filter (\<lambda>r. qw_hash r = qw_hash newest) rows)))"

end
