(* ===== verification/Backlog_Completion.thy ===== *)
theory Backlog_Completion
  imports Backlog_Store Review_Store
begin

text \<open>
  The completion of a reviewed run, \<open>complete_run_with\<close> of
  \<open>crates/familiar-ai-storage/src/repos/backlog.rs\<close> with its four validations: the only way by which a claimed
  PRD becomes completed without a human. It reads the tables of \<open>Review_Store\<close> and writes those of
  \<open>Backlog_Store\<close>, in one transaction with what the caller adds.
\<close>

section \<open>The terminal cycle\<close>

text \<open>
  \<open>cm_paths\<close> are the paths of the backlog table; \<open>cm_request_of\<close> reads a review request from its JSON,
  \<open>cm_read_waiver\<close> the JSON of a substance, \<open>cm_hash\<close> is the SHA-256 of the content.
\<close>

record completion_env =
  cm_paths :: "string list"
  cm_request_of :: "string \<Rightarrow> string + review_request"
  cm_read_waiver :: "string \<Rightarrow> (string option \<times> string list option) option"
  cm_hash :: "string \<Rightarrow> string"

definition current_evidence :: "review_cycle \<Rightarrow> verification_evidence list" where
  "current_evidence c = (if cy_after c = [] then cy_before c else cy_after c)"

definition clean_terminal :: "review_cycle \<Rightarrow> string \<Rightarrow> bool" where
  "clean_terminal c execution \<longleftrightarrow> cy_task_id c = execution \<and> cy_cycle_id c = execution @ ''-cycle''
     \<and> cy_state c = review_cycle_state.Completed \<and> cy_disposition c = ReadyForHumanApproval
     \<and> cy_stop_reasons c = [CleanReview]"

definition needs_waiver :: "review_finding \<Rightarrow> bool" where
  "needs_waiver f \<longleftrightarrow> rf_status f = Open \<and> (rf_blocking f \<or> rf_acceptance_criterion_id f \<noteq> None)"

definition waiver_of_row :: "waiver_row \<Rightarrow> review_waiver" where
  "waiver_of_row r = \<lparr>rw_waiver_id = wv_id r, rw_cycle_id = wv_cycle r, rw_finding_id = wv_finding r,
     rw_actor = wv_actor r, rw_reason = wv_reason r, rw_created_at = wv_created_at r\<rparr>"

definition covering_waiver :: "completion_env \<Rightarrow> review_db \<Rightarrow> string \<Rightarrow> review_finding \<Rightarrow> waiver_row option" where
  "covering_waiver env vdb cycle f =
     find (\<lambda>r. wv_finding r = rf_finding_id f \<or> wv_substance r \<noteq> [] \<and> waiver_covers (cm_read_waiver env) (wv_substance r) f)
       (filter (\<lambda>r. wv_cycle r = cycle) (vd_waivers vdb))"

definition durably_waived :: "completion_env \<Rightarrow> review_db \<Rightarrow> review_cycle \<Rightarrow> review_finding \<Rightarrow> bool" where
  "durably_waived env vdb c f =
     (case covering_waiver env vdb (cy_cycle_id c) f of
        None \<Rightarrow> False
      | Some r \<Rightarrow> waiving_human (wv_actor r) \<and> trim (wv_reason r) \<noteq> [] \<and> waiver_of_row r \<in> set (cy_waivers c))"

definition passed_check :: "string \<Rightarrow> verification_evidence \<Rightarrow> bool" where
  "passed_check check e \<longleftrightarrow> ve_check_id e = check \<and> ve_required e \<and> ve_status e = Passed"

fun check_required ::
    "verification_evidence list \<Rightarrow> string option \<Rightarrow> string list \<Rightarrow> backlog_store_error + unit" where
  "check_required current accepted [] = Inr ()"
| "check_required current accepted (check # checks) =
     (case find (passed_check check) current of
        None \<Rightarrow> Inl (Storage (''required verification check '' @ check @ '' is not passed''))
      | Some e \<Rightarrow>
        if accepted \<noteq> None \<and> accepted \<noteq> Some (ve_tested_identity e)
        then Inl (Storage ''required verification candidate identities differ'')
        else if ve_tested_identity e = []
        then Inl (Storage (''required verification check '' @ check @ '' has no candidate identity''))
        else check_required current (Some (ve_tested_identity e)) checks)"

definition validate_completion_cycle ::
    "completion_env \<Rightarrow> review_db \<Rightarrow> review_cycle \<Rightarrow> string \<Rightarrow> string list \<Rightarrow> backlog_store_error + unit" where
  "validate_completion_cycle env vdb c execution required =
     rbind (ensure (clean_terminal c execution) (Storage ''review cycle is not a clean terminal result'')) (\<lambda>_.
     rbind (ok_or (Storage ''terminal review result is missing'') (cy_review_result c)) (\<lambda>result.
     rbind (check_all (\<lambda>f. ensure (durably_waived env vdb c f)
         (Storage (''terminal review retains open finding '' @ rf_finding_id f @ '' without a durable human waiver'')))
       (filter needs_waiver (rr_findings result))) (\<lambda>_.
     check_required (current_evidence c) None required)))"

section \<open>What is persisted of it\<close>

definition valid_request_reference :: "evidence_ref \<Rightarrow> bool" where
  "valid_request_reference r \<longleftrightarrow> er_media_type r = ''application/json''
     \<and> er_storage_ref r = ''sqlite:review_artifacts/'' @ er_content_hash r
     \<and> \<not> er_truncated r \<and> er_omitted_bytes r = 0"

definition intact_artifact :: "completion_env \<Rightarrow> evidence_ref \<Rightarrow> artifact_row \<Rightarrow> bool" where
  "intact_artifact env r a \<longleftrightarrow> ar_kind a = ''review_request'' \<and> ar_media_type a = er_media_type r
     \<and> ar_byte_size a = unat (er_byte_size r) \<and> ar_byte_size a = length (ar_content a)
     \<and> cm_hash env (ar_content a) = er_content_hash r"

definition request_matches :: "review_cycle \<Rightarrow> review_request \<Rightarrow> review_result \<Rightarrow> bool" where
  "request_matches c q result \<longleftrightarrow> tk_task_id (rq_task q) = cy_task_id c \<and> rr_review_id result = rq_review_id q
     \<and> rr_reviewed_manifest_hash result = pm_manifest_hash (rq_manifest q)
     \<and> rq_verification q = current_evidence c
     \<and> list_all (\<lambda>e. ve_tested_identity e = er_content_hash (rq_diff q)) (rq_verification q)"

definition validate_persisted_review_request ::
    "completion_env \<Rightarrow> review_db \<Rightarrow> review_cycle \<Rightarrow> backlog_store_error + unit" where
  "validate_persisted_review_request env vdb c =
     rbind (ok_or (Storage ''terminal review request evidence is missing'') (cy_review_request c)) (\<lambda>r.
     rbind (ensure (valid_request_reference r) (Storage ''terminal review request reference is invalid'')) (\<lambda>_.
     rbind (ok_or (Storage ''Query returned no rows'') (find (\<lambda>a. ar_hash a = er_content_hash r) (vd_artifacts vdb))) (\<lambda>a.
     rbind (ensure (intact_artifact env r a) (Storage ''persisted terminal review request is corrupt'')) (\<lambda>_.
     rbind (map_err (\<lambda>e. Storage (''invalid persisted terminal review request: '' @ e)) (cm_request_of env (ar_content a))) (\<lambda>q.
     rbind (ok_or (Storage ''terminal review result is missing'') (cy_review_result c)) (\<lambda>result.
     ensure (request_matches c q result) (Storage ''terminal review request does not match accepted evidence'')))))))"

definition validate_persisted_evidence :: "review_db \<Rightarrow> review_cycle \<Rightarrow> backlog_store_error + unit" where
  "validate_persisted_evidence vdb c =
     (let rows = filter (\<lambda>r. ew_cycle r = cy_cycle_id c \<and> ew_repository r = cy_repository_key c) (vd_evidence vdb) in
      rbind (ensure (length rows = length (cy_history c)) (Storage ''persisted verification evidence is incomplete'')) (\<lambda>_.
      check_all (\<lambda>(n, e).
        rbind (ok_or (Storage ''persisted verification evidence is incomplete'')
          (find (\<lambda>r. ew_check r = ve_check_id e \<and> ew_phase r = phase_name n) rows)) (\<lambda>r.
        ensure (ew_evidence r = e) (Storage ''persisted verification evidence conflicts with terminal cycle'')))
        (enumerate 0 (cy_history c))))"

definition validate_persisted_findings :: "review_db \<Rightarrow> review_cycle \<Rightarrow> backlog_store_error + unit" where
  "validate_persisted_findings vdb c =
     (let expected = (case cy_review_result c of None \<Rightarrow> [] | Some result \<Rightarrow> rr_findings result);
          rows = filter (\<lambda>r. fw_cycle r = cy_cycle_id c) (vd_findings vdb) in
      rbind (ensure (length rows = length expected) (Storage ''persisted review findings are incomplete'')) (\<lambda>_.
      rbind (check_all (\<lambda>f.
        rbind (ok_or (Storage ''persisted review findings are incomplete'') (find (\<lambda>r. fw_id r = rf_finding_id f) rows)) (\<lambda>r.
        ensure (fw_finding r = f \<and> fw_blocking r = rf_blocking f \<and> fw_status r = rf_status f)
          (Storage ''persisted review finding conflicts with terminal cycle''))) expected) (\<lambda>_.
      ensure (\<not> list_ex (\<lambda>r. fw_blocking r \<and> fw_status r = Open) rows)
        (Storage ''terminal review has open blocking findings''))))"

section \<open>Completion\<close>

text \<open>The conflict names the predicate that failed.\<close>

definition completion_conflict ::
    "completion_env \<Rightarrow> backlog_db \<Rightarrow> string \<Rightarrow> discovered_prd \<Rightarrow> backlog_row \<Rightarrow> string option" where
  "completion_conflict env bdb repo target r =
     (if row_status r \<noteq> InProgress then Some (show_status (row_status r))
      else if row_hash r \<noteq> prd_content_hash target then Some ''in_progress with a different content hash''
      else if row_missing_since r \<noteq> None \<and> \<not> archived_twin_completed (cm_paths env) bdb repo (prd_number target)
      then Some ''in_progress but marked missing''
      else None)"

definition owns_claim :: "backlog_db \<Rightarrow> row_key \<Rightarrow> string \<Rightarrow> backlog_store_error + unit" where
  "owns_claim bdb key actor =
     rbind (ok_or (Storage ''Query returned no rows'') (latest_event bdb key)) (\<lambda>e.
     ensure (ev_old e = Pending \<and> ev_new e = InProgress \<and> ev_actor e = actor)
       (Storage ''completion claim actor does not own latest event''))"

definition review_task_of :: "review_db \<Rightarrow> string \<Rightarrow> backlog_store_error + unit" where
  "review_task_of vdb execution =
     rbind (ok_or (Storage ''Query returned no rows'')
       (find (\<lambda>r. tk_task_id (tr_task r) = execution) (vd_tasks vdb))) (\<lambda>r.
     ensure (tk_verification_plan_id (tr_task r) = execution @ ''-verification'') (Storage ''review task execution mismatch''))"

text \<open>The cycle of the task with the greatest attempt; the index is read backwards, so the newest of equal ones.\<close>

definition terminal_cycle :: "review_db \<Rightarrow> string \<Rightarrow> backlog_store_error + review_cycle" where
  "terminal_cycle vdb execution =
     (case rev (sort_key cw_attempt (filter (\<lambda>r. cw_task r = execution) (vd_cycles vdb))) of
        [] \<Rightarrow> Inl (Storage ''Query returned no rows'')
      | r # _ \<Rightarrow>
        if cw_state r = review_cycle_state.Completed \<and> cw_disposition r = ReadyForHumanApproval then Inr (cw_cycle r)
        else Inl (Storage ''persisted review cycle columns are inconsistent''))"

definition validate_completion ::
    "completion_env \<Rightarrow> review_db \<Rightarrow> string \<Rightarrow> string list \<Rightarrow> backlog_store_error + review_cycle" where
  "validate_completion env vdb execution required =
     rbind (review_task_of vdb execution) (\<lambda>_.
     rbind (terminal_cycle vdb execution) (\<lambda>c.
     rbind (validate_completion_cycle env vdb c execution required) (\<lambda>_.
     rbind (validate_persisted_review_request env vdb c) (\<lambda>_.
     rbind (validate_persisted_evidence vdb c) (\<lambda>_.
     rbind (validate_persisted_findings vdb c) (\<lambda>_. Inr c))))))"

definition complete_run_with ::
    "completion_env \<Rightarrow> string \<Rightarrow> ('r \<Rightarrow> backlog_store_error + 'r) \<Rightarrow> backlog_db \<Rightarrow> review_db \<Rightarrow> 'r \<Rightarrow> string
     \<Rightarrow> discovered_prd \<Rightarrow> string \<Rightarrow> string \<Rightarrow> string list \<Rightarrow> backlog_store_error + backlog_entry \<times> backlog_db \<times> 'r" where
  "complete_run_with env now' finalize bdb vdb other repo target execution actor required =
     rbind (validate_run_actor actor) (\<lambda>_.
     let key = (repo, prd_path target) in
     case db_rows bdb key of
       None \<Rightarrow> Inl (NotFound (prd_path target))
     | Some r \<Rightarrow>
       (case completion_conflict env bdb repo target r of
          Some actual \<Rightarrow> Inl (Conflict (prd_path target) ''in_progress'' actual)
        | None \<Rightarrow>
          rbind (owns_claim bdb key actor) (\<lambda>_.
          rbind (validate_completion env vdb execution required) (\<lambda>_.
          case update_status key (\<lambda>r. row_status r = InProgress) backlog_status.Completed now' bdb of
            None \<Rightarrow> Inl (Conflict (prd_path target) ''in_progress'' ''conflict'')
          | Some bdb' \<Rightarrow>
            rbind (finalize other) (\<lambda>other'.
            Inr (\<lparr>entry_prd = target, entry_status = backlog_status.Completed\<rparr>,
              insert_event key InProgress backlog_status.Completed actor now' None bdb', other'))))))"

definition complete_run ::
    "completion_env \<Rightarrow> string \<Rightarrow> backlog_db \<Rightarrow> review_db \<Rightarrow> string \<Rightarrow> discovered_prd \<Rightarrow> string \<Rightarrow> string \<Rightarrow> string list
     \<Rightarrow> backlog_store_error + backlog_entry \<times> backlog_db" where
  "complete_run env now' bdb vdb repo target execution actor required =
     rbind (complete_run_with env now' Inr bdb vdb () repo target execution actor required) (\<lambda>(entry, bdb', _).
     Inr (entry, bdb'))"

text \<open>Completing a run alone is completing it with nothing to finalize.\<close>

lemma complete_run_Inr:
  assumes "complete_run env stamp b vdb repo target execution actor required = Inr (e, b')"
  shows "complete_run_with env stamp Inr b vdb () repo target execution actor required = Inr (e, b', ())"
  using assms by (auto simp: complete_run_def result_simps split: prod.splits)

end
