(* ===== verification/Driver_Store.thy ===== *)
theory Driver_Store
  imports Effects
begin

text \<open>
  The records of unattended sessions, \<open>crates/familiar-ai-storage/src/repos/driver.rs\<close>, over the tables of
  the migrations 010, 014 to 018, 025 to 027, 031 and 070 to 072: sessions, attempts, and the decisions of
  the scheduler.

  A table is the list of its rows in insertion order. A statement checks the keys, the \<open>CHECK\<close> clauses
  and the foreign keys that it could violate. The clock is the argument \<open>now\<close>, as RFC 3339 text, whose
  order is that of the text. A cost or duration is stored as the signed integer of its bits.
\<close>

section \<open>Tables\<close>

record driver_session_row =
  ds_id :: string
  ds_repository :: string
  ds_started_at :: string
  ds_ended_at :: "string option"
  ds_reason :: "string option"
  ds_detail :: "string option"
  ds_warrant :: string
  ds_worker :: "string option"
  ds_heartbeat_at :: "string option"
  ds_base_revision :: "string option"
  ds_integration :: "string option"

datatype attempt_outcome = Attempt_Completed | Attempt_Retained

record driver_attempt_row =
  da_session :: string
  da_sequence :: nat
  da_prd :: string
  da_prd_path :: string
  da_execution :: "string option"
  da_started_at :: string
  da_ended_at :: "string option"
  da_outcome :: "attempt_outcome option"
  da_reason :: "string option"
  da_detail :: "string option"
  da_cost :: "int option"
  da_duration :: "int option"
  da_adapter :: "string option"
  da_model :: "string option"
  da_exit_code :: "int option"
  da_signal :: "int option"
  da_phase :: "string option"
  da_review_source :: string
  da_context_source :: string
  da_component :: "string option"
  da_worktree :: "string option"
  da_branch :: "string option"
  da_escalated_from :: "nat option"
  da_escalation_reason :: "string option"
  da_candidate :: "string option"
  da_integrated_at :: "string option"

record selection_row =
  sl_session :: string
  sl_prd :: string
  sl_decision :: string
  sl_detail :: string
  sl_recorded_at :: string

record driver_db =
  dd_sessions :: "driver_session_row list"
  dd_attempts :: "driver_attempt_row list"
  dd_decisions :: "selection_row list"

definition empty_driver :: driver_db where
  "empty_driver = \<lparr>dd_sessions = [], dd_attempts = [], dd_decisions = []\<rparr>"

definition selection_decision_names :: "string list" where
  "selection_decision_names =
     [''ready_selected'', ''deferred_scope_overlap'', ''deferred_scope_held'', ''deferred_resource'', ''deferred_width'',
      ''deferred_dependency_undelivered'', ''dependency_not_integrated'', ''deferred_scope_unavailable'',
      ''excluded_allowlist'', ''front_matter_hold'', ''claimed_elsewhere'', ''archived_upstream'']"

definition check_failed :: "string \<Rightarrow> familiar_error" where
  "check_failed clause = Database_Error (''CHECK constraint failed: '' @ clause)"

definition find_session :: "driver_db \<Rightarrow> string \<Rightarrow> driver_session_row option" where
  "find_session db i = find (\<lambda>s. ds_id s = i) (dd_sessions db)"

text \<open>An \<open>UPDATE\<close> of the rows that satisfy a condition, with the number of rows it changed.\<close>

definition update_sessions ::
    "(driver_session_row \<Rightarrow> bool) \<Rightarrow> (driver_session_row \<Rightarrow> driver_session_row) \<Rightarrow> driver_db \<Rightarrow> nat \<times> driver_db" where
  "update_sessions p f db = (length (filter p (dd_sessions db)),
     db\<lparr>dd_sessions := map (\<lambda>s. if p s then f s else s) (dd_sessions db)\<rparr>)"

definition update_attempts ::
    "(driver_attempt_row \<Rightarrow> bool) \<Rightarrow> (driver_attempt_row \<Rightarrow> driver_attempt_row) \<Rightarrow> driver_db \<Rightarrow> nat \<times> driver_db" where
  "update_attempts p f db = (length (filter p (dd_attempts db)),
     db\<lparr>dd_attempts := map (\<lambda>a. if p a then f a else a) (dd_attempts db)\<rparr>)"

definition one_changed :: "string \<Rightarrow> nat \<times> driver_db \<Rightarrow> familiar_error + driver_db" where
  "one_changed message r = (if fst r = 1 then Inr (snd r) else Inl (Database_Error message))"

definition some_changed :: "string \<Rightarrow> nat \<times> driver_db \<Rightarrow> familiar_error + driver_db" where
  "some_changed message r = (if fst r = 0 then Inl (Database_Error message) else Inr (snd r))"

definition is_attempt :: "string \<Rightarrow> nat \<Rightarrow> driver_attempt_row \<Rightarrow> bool" where
  "is_attempt i n a \<longleftrightarrow> da_session a = i \<and> da_sequence a = n"

definition attempt_name :: "string \<Rightarrow> nat \<Rightarrow> string" where
  "attempt_name i n = ''driver attempt '' @ i @ ''/'' @ show_nat n @ '' not found''"

section \<open>Sessions\<close>

definition open_session :: "string \<Rightarrow> driver_db \<Rightarrow> string \<Rightarrow> string \<Rightarrow> string \<Rightarrow> familiar_error + driver_db" where
  "open_session now db i repo warrant =
     (if find_session db i \<noteq> None then Inl (unique_failed ''driver_sessions.session_id'')
      else Inr (db\<lparr>dd_sessions := dd_sessions db @ [\<lparr>ds_id = i, ds_repository = repo, ds_started_at = now,
        ds_ended_at = None, ds_reason = None, ds_detail = None, ds_warrant = warrant, ds_worker = None,
        ds_heartbeat_at = None, ds_base_revision = None, ds_integration = None\<rparr>]\<rparr>))"

definition heartbeat :: "string \<Rightarrow> driver_db \<Rightarrow> string \<Rightarrow> string \<Rightarrow> familiar_error + driver_db" where
  "heartbeat now db i worker =
     one_changed (''open driver session '' @ i @ '' not found'')
       (update_sessions (\<lambda>s. ds_id s = i \<and> ds_ended_at s = None)
         (\<lambda>s. s\<lparr>ds_heartbeat_at := Some now,
                ds_worker := (case ds_worker s of None \<Rightarrow> Some worker | Some w \<Rightarrow> Some w)\<rparr>) db)"

definition finish_session :: "string \<Rightarrow> driver_db \<Rightarrow> string \<Rightarrow> string \<Rightarrow> familiar_error + driver_db" where
  "finish_session now db i reason =
     some_changed (''driver session '' @ i @ '' not found'')
       (update_sessions (\<lambda>s. ds_id s = i) (\<lambda>s. s\<lparr>ds_ended_at := Some now, ds_reason := Some reason\<rparr>) db)"

text \<open>\<open>redact\<close> removes the secrets of the environment.\<close>

definition record_session_detail ::
    "(string \<Rightarrow> string) \<Rightarrow> driver_db \<Rightarrow> string \<Rightarrow> string \<Rightarrow> familiar_error + driver_db" where
  "record_session_detail redact db i detail =
     one_changed (''open driver session '' @ i @ '' not found'')
       (update_sessions (\<lambda>s. ds_id s = i \<and> ds_ended_at s = None) (\<lambda>s. s\<lparr>ds_detail := Some (redact detail)\<rparr>) db)"

text \<open>\<open>String::replace\<close>, and the removal of the values of the variables whose name marks a secret.\<close>

function replace_sub :: "string \<Rightarrow> string \<Rightarrow> string \<Rightarrow> string" where
  "replace_sub p r s =
     (if p = [] then s
      else case find_sub p s of
        None \<Rightarrow> s
      | Some k \<Rightarrow> take k s @ r @ replace_sub p r (drop (k + length p) s))"
  by pat_completeness auto

termination
proof (relation "measure (\<lambda>(p, r, s). length s)", goal_cases)
  case 1 show ?case by simp
next
  case (2 p r s k)
  from find_sub_Some[OF 2(2)] 2(1) show ?case by (cases s) auto
qed

definition secret_markers_of_names :: "string list" where
  "secret_markers_of_names = [''SECRET'', ''TOKEN'', ''PASSWORD'', ''API_KEY'', ''CANARY'']"

definition ascii_upper :: "char \<Rightarrow> char" where
  "ascii_upper c = (if is_lower c then char_of (byte c - 32) else c)"

definition redact_sensitive :: "(string \<times> string) list \<Rightarrow> string \<Rightarrow> string" where
  "redact_sensitive vars value =
     fold (\<lambda>(name, secret) v.
       if 4 \<le> length secret \<and> list_ex (contains_sub (map ascii_upper name)) secret_markers_of_names
       then replace_sub secret ''[REDACTED]'' v else v) vars value"

text \<open>\<open>recover_incomplete\<close> closes what a crash left open: every open attempt and every open session.\<close>

definition interrupted :: string where
  "interrupted = ''interrupted''"

definition recover_incomplete :: "string \<Rightarrow> driver_db \<Rightarrow> nat \<times> driver_db" where
  "recover_incomplete now db =
     (let (n, db1) = update_attempts (\<lambda>a. da_ended_at a = None)
            (\<lambda>a. a\<lparr>da_ended_at := Some now,
                   da_outcome := (case da_outcome a of None \<Rightarrow> Some Attempt_Retained | o' \<Rightarrow> o'),
                   da_reason := (case da_reason a of None \<Rightarrow> Some interrupted | r \<Rightarrow> r)\<rparr>) db
      in (n, snd (update_sessions (\<lambda>s. ds_ended_at s = None)
            (\<lambda>s. s\<lparr>ds_ended_at := Some now,
                   ds_reason := (case ds_reason s of None \<Rightarrow> Some interrupted | r \<Rightarrow> r)\<rparr>) db1)))"

section \<open>Attempts\<close>

record attempt_start =
  as_session :: string
  as_prd :: string
  as_prd_path :: string
  as_execution :: "string option"
  as_review_source :: string
  as_context_source :: string
  as_component :: "string option"
  as_worktree :: "string option"
  as_branch :: "string option"
  as_escalated_from :: "nat option"
  as_escalation_reason :: "string option"

definition next_sequence :: "driver_db \<Rightarrow> string \<Rightarrow> nat" where
  "next_sequence db i = Suc (fold max (map da_sequence (filter (\<lambda>a. da_session a = i) (dd_attempts db))) 0)"

definition configuration_source :: "string \<Rightarrow> bool" where
  "configuration_source s \<longleftrightarrow> s = ''global'' \<or> s = ''repository''"

definition started_row :: "string \<Rightarrow> attempt_start \<Rightarrow> nat \<Rightarrow> driver_attempt_row" where
  "started_row now a n = \<lparr>da_session = as_session a, da_sequence = n,
        da_prd = as_prd a, da_prd_path = as_prd_path a, da_execution = as_execution a, da_started_at = now,
        da_ended_at = None, da_outcome = None, da_reason = None, da_detail = None, da_cost = None,
        da_duration = None, da_adapter = None, da_model = None, da_exit_code = None, da_signal = None,
        da_phase = None, da_review_source = as_review_source a, da_context_source = as_context_source a,
        da_component = as_component a, da_worktree = as_worktree a, da_branch = as_branch a,
        da_escalated_from = as_escalated_from a, da_escalation_reason = as_escalation_reason a,
        da_candidate = None, da_integrated_at = None\<rparr>"

definition record_escalated_attempt_started :: "string \<Rightarrow> driver_db \<Rightarrow> attempt_start \<Rightarrow> familiar_error + nat \<times> driver_db" where
  "record_escalated_attempt_started now db a =
     (let n = next_sequence db (as_session a) in
      if \<not> configuration_source (as_review_source a) then Inl (check_failed ''review_configuration_source'')
      else if \<not> configuration_source (as_context_source a) then Inl (check_failed ''execution_context_configuration_source'')
      else if list_ex (is_attempt (as_session a) n) (dd_attempts db)
      then Inl (unique_failed ''driver_attempts.session_id, driver_attempts.sequence'')
      else if as_escalated_from a \<noteq> None
        \<and> list_ex (\<lambda>r. da_session r = as_session a \<and> da_escalated_from r = as_escalated_from a) (dd_attempts db)
      then Inl (unique_failed ''driver_attempts.session_id, driver_attempts.escalated_from_sequence'')
      else if find_session db (as_session a) = None then Inl foreign_key_failed
      else Inr (n, db\<lparr>dd_attempts := dd_attempts db @ [started_row now a n]\<rparr>))"

definition record_component_attempt_started ::
    "string \<Rightarrow> driver_db \<Rightarrow> attempt_start \<Rightarrow> familiar_error + nat \<times> driver_db" where
  "record_component_attempt_started now db a =
     record_escalated_attempt_started now db (a\<lparr>as_escalated_from := None, as_escalation_reason := None\<rparr>)"

definition record_attempt_started_with_sources ::
    "string \<Rightarrow> driver_db \<Rightarrow> attempt_start \<Rightarrow> familiar_error + nat \<times> driver_db" where
  "record_attempt_started_with_sources now db a =
     record_component_attempt_started now db (a\<lparr>as_component := None, as_worktree := None, as_branch := None\<rparr>)"

definition record_attempt_started :: "string \<Rightarrow> driver_db \<Rightarrow> attempt_start \<Rightarrow> familiar_error + nat \<times> driver_db" where
  "record_attempt_started now db a =
     record_attempt_started_with_sources now db (a\<lparr>as_review_source := ''global'', as_context_source := ''global''\<rparr>)"

definition or_keep :: "'a option \<Rightarrow> 'a option \<Rightarrow> 'a option" where
  "or_keep new old = (case new of None \<Rightarrow> old | Some x \<Rightarrow> Some x)"

definition record_attempt_diagnostics ::
    "driver_db \<Rightarrow> string \<Rightarrow> nat \<Rightarrow> string option \<Rightarrow> string option \<Rightarrow> string option \<Rightarrow> int option \<Rightarrow> int option \<Rightarrow> string
     \<Rightarrow> familiar_error + driver_db" where
  "record_attempt_diagnostics db i n execution adapter model exit_code signal phase =
     one_changed (attempt_name i n) (update_attempts (is_attempt i n)
       (\<lambda>a. a\<lparr>da_execution := or_keep execution (da_execution a), da_adapter := or_keep adapter (da_adapter a),
              da_model := or_keep model (da_model a), da_exit_code := or_keep exit_code (da_exit_code a),
              da_signal := or_keep signal (da_signal a), da_phase := Some phase\<rparr>) db)"

definition record_attempt_workspace ::
    "driver_db \<Rightarrow> string \<Rightarrow> nat \<Rightarrow> string \<Rightarrow> string \<Rightarrow> string \<Rightarrow> familiar_error + driver_db" where
  "record_attempt_workspace db i n component worktree branch =
     one_changed (attempt_name i n) (update_attempts (is_attempt i n)
       (\<lambda>a. a\<lparr>da_component := Some component, da_worktree := Some worktree, da_branch := Some branch\<rparr>) db)"

definition parse_outcome :: "string \<Rightarrow> attempt_outcome option" where
  "parse_outcome s =
     (if s = ''completed'' then Some Attempt_Completed else if s = ''retained'' then Some Attempt_Retained else None)"

definition record_attempt_finished_with_detail ::
    "string \<Rightarrow> driver_db \<Rightarrow> string \<Rightarrow> nat \<Rightarrow> string \<Rightarrow> string option \<Rightarrow> string option \<Rightarrow> u64 option \<Rightarrow> u64 option
     \<Rightarrow> familiar_error + driver_db" where
  "record_attempt_finished_with_detail now db i n outcome reason detail cost duration =
     (case parse_outcome outcome of
        None \<Rightarrow> if list_ex (is_attempt i n) (dd_attempts db) then Inl (check_failed ''outcome'')
                else Inl (Database_Error (attempt_name i n))
      | Some o' \<Rightarrow> some_changed (attempt_name i n) (update_attempts (is_attempt i n)
          (\<lambda>a. a\<lparr>da_ended_at := Some now, da_outcome := Some o', da_reason := reason,
                 da_cost := map_option sint cost, da_duration := map_option sint duration, da_detail := detail\<rparr>) db))"

definition record_attempt_finished ::
    "string \<Rightarrow> driver_db \<Rightarrow> string \<Rightarrow> nat \<Rightarrow> string \<Rightarrow> string option \<Rightarrow> u64 option \<Rightarrow> u64 option
     \<Rightarrow> familiar_error + driver_db" where
  "record_attempt_finished now db i n outcome reason cost duration =
     record_attempt_finished_with_detail now db i n outcome reason None cost duration"

text \<open>An attempt of a session of a repository; the last by start and sequence.\<close>

definition attempt_of :: "driver_db \<Rightarrow> string \<Rightarrow> string \<Rightarrow> driver_attempt_row \<Rightarrow> bool" where
  "attempt_of db repo prd a \<longleftrightarrow> da_prd a = prd
     \<and> (case find_session db (da_session a) of Some s \<Rightarrow> ds_repository s = repo | None \<Rightarrow> False)"

definition latest_where :: "(driver_attempt_row \<Rightarrow> bool) \<Rightarrow> driver_db \<Rightarrow> driver_attempt_row option" where
  "latest_where p db =
     (case rev (sort_key (\<lambda>a. (da_started_at a, da_sequence a)) (filter p (dd_attempts db))) of
        [] \<Rightarrow> None | a # _ \<Rightarrow> Some a)"

definition latest_attempt_for_prd :: "driver_db \<Rightarrow> string \<Rightarrow> string \<Rightarrow> driver_attempt_row option" where
  "latest_attempt_for_prd db repo prd = latest_where (attempt_of db repo prd) db"

definition mark_integrated :: "string \<Rightarrow> string \<Rightarrow> driver_attempt_row \<Rightarrow> driver_attempt_row" where
  "mark_integrated now candidate a =
     a\<lparr>da_candidate := Some candidate, da_integrated_at := Some now, da_phase := Some ''integrated''\<rparr>"

definition mark_latest_attempt_integrated ::
    "string \<Rightarrow> driver_db \<Rightarrow> string \<Rightarrow> string \<Rightarrow> string \<Rightarrow> (string \<times> nat) option \<times> driver_db" where
  "mark_latest_attempt_integrated now db repo prd candidate =
     (case latest_where (\<lambda>a. attempt_of db repo prd a \<and> da_integrated_at a = None) db of
        None \<Rightarrow> (None, db)
      | Some a \<Rightarrow>
        let (n, db') = update_attempts
              (\<lambda>r. is_attempt (da_session a) (da_sequence a) r \<and> da_integrated_at r = None) (mark_integrated now candidate) db
        in (if n = 1 then Some (da_session a, da_sequence a) else None, db'))"

section \<open>Reading\<close>

definition record_selection_decision ::
    "string \<Rightarrow> driver_db \<Rightarrow> string \<Rightarrow> string \<Rightarrow> string \<Rightarrow> string \<Rightarrow> familiar_error + driver_db" where
  "record_selection_decision now db i prd decision detail =
     (if decision \<notin> set selection_decision_names then Inl (check_failed ''decision'')
      else if find_session db i = None then Inl foreign_key_failed
      else Inr (db\<lparr>dd_decisions := dd_decisions db @ [\<lparr>sl_session = i, sl_prd = prd, sl_decision = decision,
        sl_detail = detail, sl_recorded_at = now\<rparr>]\<rparr>))"

definition selection_decisions :: "driver_db \<Rightarrow> string \<Rightarrow> (string \<times> string \<times> string) list" where
  "selection_decisions db i = map (\<lambda>d. (sl_prd d, sl_decision d, sl_detail d))
     (filter (\<lambda>d. sl_session d = i) (dd_decisions db))"

definition session_order :: "driver_session_row \<Rightarrow> string \<times> string" where
  "session_order s = (ds_started_at s, ds_id s)"

definition newest_sessions :: "(driver_session_row \<Rightarrow> bool) \<Rightarrow> driver_db \<Rightarrow> driver_session_row list" where
  "newest_sessions p db = rev (sort_key session_order (filter p (dd_sessions db)))"

definition latest_session :: "driver_db \<Rightarrow> driver_session_row option" where
  "latest_session db = (case newest_sessions (\<lambda>_. True) db of [] \<Rightarrow> None | s # _ \<Rightarrow> Some s)"

definition first_boundary :: "string \<times> string" where
  "first_boundary = (replicate 40 (CHR ''~''), replicate 64 (CHR ''~''))"

definition list_sessions_by_repository ::
    "driver_db \<Rightarrow> string \<Rightarrow> string option \<Rightarrow> nat \<Rightarrow> driver_session_row list" where
  "list_sessions_by_repository db repo after limit =
     (case (case after of
              None \<Rightarrow> Some first_boundary
            | Some i \<Rightarrow> map_option (\<lambda>s. (ds_started_at s, i)) (find_session db i)) of
        None \<Rightarrow> []
      | Some b \<Rightarrow> take limit (newest_sessions (\<lambda>s. ds_repository s = repo \<and> session_order s < b) db))"

definition session_attempts :: "driver_db \<Rightarrow> string \<Rightarrow> driver_attempt_row list" where
  "session_attempts db i = sort_key da_sequence (filter (\<lambda>a. da_session a = i) (dd_attempts db))"

definition attempts_page :: "driver_db \<Rightarrow> string \<Rightarrow> nat option \<Rightarrow> nat \<Rightarrow> driver_attempt_row list" where
  "attempts_page db i after limit =
     take limit (filter (\<lambda>a. case_option 0 id after < da_sequence a) (session_attempts db i))"

definition count_sessions :: "driver_db \<Rightarrow> string \<Rightarrow> nat" where
  "count_sessions db repo = length (filter (\<lambda>s. ds_repository s = repo) (dd_sessions db))"

definition rounds :: "driver_db \<Rightarrow> string \<Rightarrow> nat \<Rightarrow> driver_attempt_row list" where
  "rounds db repo limit =
     List.maps (\<lambda>s. session_attempts db (ds_id s)) (rev (take limit (newest_sessions (\<lambda>s. ds_repository s = repo) db)))"

end
