(* ===== verification/Checkpoint_Store.thy ===== *)
theory Checkpoint_Store
  imports Backlog_Store Driver_Store
begin

text \<open>
  The durable state of recovery and landing: \<open>crates/familiar-ai-storage/src/repos/checkpoint.rs\<close> (the
  checkpoint of a PRD and its log) and \<open>orchestration.rs\<close> of the same directory (the integration revision
  of a session, reserved migration versions, decisions on scope, finished PRDs), over the tables of the
  migrations 010, 017, 026, 031 and 061.

  A table is the list of its rows in insertion order. A statement checks the keys, the \<open>CHECK\<close> clauses
  and the foreign keys that it could violate; an error rolls the transaction back. The clock is the
  argument \<open>now\<close>, as RFC 3339 text. JSON and SHA-256 are parameters.
\<close>

section \<open>Tables\<close>

record execution_checkpoint =
  xc_id :: string
  xc_repository :: string
  xc_prd :: string
  xc_prd_path :: string
  xc_execution :: "string option"
  xc_phase :: string
  xc_base_revision :: string
  xc_worktree :: string
  xc_branch :: "string option"
  xc_diff_hash :: string
  xc_changed_files :: string
  xc_agent :: string
  xc_usage :: string
  xc_test_evidence :: string
  xc_invalid_reason :: "string option"

record stored_checkpoint = execution_checkpoint +
  xc_approved_hash :: "string option"
  xc_approved_commit :: "string option"
  xc_created_at :: string
  xc_updated_at :: string

datatype scope_verdict = Scope_Approved | Scope_Rejected

record scope_row =
  sw_finding_hash :: string
  sw_repository :: string
  sw_checkpoint :: string
  sw_prd :: string
  sw_candidate :: string
  sw_finding_json :: string
  sw_decision :: "scope_verdict option"
  sw_actor :: "string option"
  sw_reason :: "string option"
  sw_created_at :: string
  sw_decided_at :: "string option"

datatype migration_state = Migration_Reserved | Migration_Consumed | Migration_Released

record migration_row =
  mr_repository :: string
  mr_version :: int
  mr_session :: string
  mr_prd :: string
  mr_state :: migration_state
  mr_reserved_at :: string
  mr_resolved_at :: "string option"

record recovery_db =
  rd_checkpoints :: "stored_checkpoint list"
  rd_events :: "checkpoint_event list"
  rd_scopes :: "scope_row list"
  rd_migrations :: "migration_row list"
  rd_driver :: driver_db

definition empty_recovery :: recovery_db where
  "empty_recovery = \<lparr>rd_checkpoints = [], rd_events = [], rd_scopes = [], rd_migrations = [],
     rd_driver = empty_driver\<rparr>"

text \<open>The \<open>CHECK\<close> on the phases of a checkpoint.\<close>

definition checkpoint_phases :: "string list" where
  "checkpoint_phases =
     [''claimed'', ''implemented'', ''implemented_pending_review'', ''verified'', ''reviewed'', ''approved'',
      ''integrated'', ''completed'', ''blocked'', ''invalid_checkpoint'']"

definition check_phase :: "string \<Rightarrow> familiar_error + unit" where
  "check_phase phase = ensure (phase \<in> set checkpoint_phases) (check_failed ''phase'')"

type_synonym 'a rtx = "familiar_error + 'a \<times> recovery_db"

definition find_checkpoint :: "recovery_db \<Rightarrow> string \<Rightarrow> stored_checkpoint option" where
  "find_checkpoint db i = find (\<lambda>c. xc_id c = i) (rd_checkpoints db)"

definition checkpoint_of :: "recovery_db \<Rightarrow> string \<Rightarrow> string \<Rightarrow> stored_checkpoint option" where
  "checkpoint_of db repo prd = find (\<lambda>c. xc_repository c = repo \<and> xc_prd c = prd) (rd_checkpoints db)"

definition update_checkpoint ::
    "string \<Rightarrow> (stored_checkpoint \<Rightarrow> stored_checkpoint) \<Rightarrow> recovery_db \<Rightarrow> recovery_db" where
  "update_checkpoint i f db =
     db\<lparr>rd_checkpoints := map (\<lambda>c. if xc_id c = i then f c else c) (rd_checkpoints db)\<rparr>"

section \<open>Checkpoints and their log\<close>

text \<open>\<open>next_checkpoint_event_id\<close>: one more than the greatest sequence of the checkpoint.\<close>

definition events_for :: "recovery_db \<Rightarrow> string \<Rightarrow> checkpoint_event list" where
  "events_for db i = filter (\<lambda>e. ce_checkpoint e = i) (rd_events db)"

definition allocate_event :: "recovery_db \<Rightarrow> string \<Rightarrow> string \<times> nat" where
  "allocate_event db i =
     (let sequences = map ce_sequence (events_for db i);
          sequence = (if sequences = [] then 0 else Suc (fold max sequences 0))
      in (i @ '':'' @ show_nat sequence, sequence))"

definition insert_checkpoint_event ::
    "string \<Rightarrow> string \<Rightarrow> string \<Rightarrow> string option \<Rightarrow> string \<Rightarrow> string \<Rightarrow> recovery_db \<Rightarrow> familiar_error + recovery_db" where
  "insert_checkpoint_event now i kind prior resulting detail db =
     (let (event_id, sequence) = allocate_event db i in
      if list_ex (\<lambda>e. ce_id e = event_id) (rd_events db)
      then Inl (unique_failed ''execution_checkpoint_events.event_id'')
      else if list_ex (\<lambda>e. ce_checkpoint e = i \<and> ce_sequence e = sequence) (rd_events db)
      then Inl (unique_failed ''execution_checkpoint_events.checkpoint_id, execution_checkpoint_events.sequence'')
      else if find_checkpoint db i = None then Inl foreign_key_failed
      else Inr (db\<lparr>rd_events := rd_events db @
        [\<lparr>ce_id = event_id, ce_checkpoint = i, ce_sequence = sequence, ce_type = kind, ce_prior = prior,
          ce_resulting = resulting, ce_detail = detail, ce_recorded_at = now\<rparr>]\<rparr>))"

text \<open>
  \<open>INSERT .. ON CONFLICT(repository_key, prd_id) DO UPDATE\<close>: the identity, the path, the approval and the
  time of creation of an existing row stay.
\<close>

definition refreeze :: "string \<Rightarrow> execution_checkpoint \<Rightarrow> stored_checkpoint \<Rightarrow> stored_checkpoint" where
  "refreeze now v c = c\<lparr>xc_execution := xc_execution v, xc_phase := xc_phase v,
     xc_base_revision := xc_base_revision v, xc_worktree := xc_worktree v, xc_branch := xc_branch v,
     xc_diff_hash := xc_diff_hash v, xc_changed_files := xc_changed_files v, xc_agent := xc_agent v,
     xc_usage := xc_usage v, xc_test_evidence := xc_test_evidence v,
     xc_invalid_reason := xc_invalid_reason v, xc_updated_at := now\<rparr>"

definition stored :: "string \<Rightarrow> execution_checkpoint \<Rightarrow> stored_checkpoint" where
  "stored now v = execution_checkpoint.extend v
     \<lparr>xc_approved_hash = None, xc_approved_commit = None, xc_created_at = now, xc_updated_at = now\<rparr>"

definition outdated_scope :: "execution_checkpoint \<Rightarrow> scope_row \<Rightarrow> bool" where
  "outdated_scope v s \<longleftrightarrow> sw_repository s = xc_repository v \<and> sw_prd s = xc_prd v
     \<and> sw_decision s = None \<and> sw_candidate s \<noteq> xc_diff_hash v"

definition put_checkpoint :: "string \<Rightarrow> recovery_db \<Rightarrow> execution_checkpoint \<Rightarrow> familiar_error + recovery_db" where
  "put_checkpoint now db v =
     rbind (check_phase (xc_phase v)) (\<lambda>_.
     case checkpoint_of db (xc_repository v) (xc_prd v) of
       Some c \<Rightarrow>
         Inr ((update_checkpoint (xc_id c) (refreeze now v) db)
                \<lparr>rd_scopes := filter (\<lambda>s. \<not> outdated_scope v s) (rd_scopes db)\<rparr>)
     | None \<Rightarrow>
         if find_checkpoint db (xc_id v) \<noteq> None
         then Inl (unique_failed ''execution_checkpoints.checkpoint_id'')
         else insert_checkpoint_event now (xc_id v) ''checkpoint_created'' None (xc_phase v)
                ''implementation_checkpoint'' (db\<lparr>rd_checkpoints := rd_checkpoints db @ [stored now v]\<rparr>))"

definition get_checkpoint :: "recovery_db \<Rightarrow> string \<Rightarrow> string \<Rightarrow> execution_checkpoint option" where
  "get_checkpoint db repo prd = map_option execution_checkpoint.truncate (checkpoint_of db repo prd)"

definition checkpoints_where :: "(stored_checkpoint \<Rightarrow> bool) \<Rightarrow> recovery_db \<Rightarrow> string \<Rightarrow> execution_checkpoint list" where
  "checkpoints_where p db repo = map execution_checkpoint.truncate
     (sort_key (\<lambda>c. (xc_prd c, xc_id c)) (filter (\<lambda>c. xc_repository c = repo \<and> p c) (rd_checkpoints db)))"

definition resumable_checkpoints :: "recovery_db \<Rightarrow> string \<Rightarrow> execution_checkpoint list" where
  "resumable_checkpoints = checkpoints_where (\<lambda>c. xc_phase c \<notin> {''completed'', ''integrated''})"

definition all_checkpoints :: "recovery_db \<Rightarrow> string \<Rightarrow> execution_checkpoint list" where
  "all_checkpoints = checkpoints_where (\<lambda>_. True)"

definition page_checkpoints :: "recovery_db \<Rightarrow> string \<Rightarrow> string option \<Rightarrow> nat \<Rightarrow> execution_checkpoint list" where
  "page_checkpoints db repo after limit =
     take limit (checkpoints_where (\<lambda>c. case_option [] id after < xc_prd c) db repo)"

definition transition_checkpoint :: "string \<Rightarrow> recovery_db \<Rightarrow> string \<Rightarrow> string \<Rightarrow> string \<Rightarrow> familiar_error + recovery_db" where
  "transition_checkpoint now db i phase detail =
     (case find_checkpoint db i of
        None \<Rightarrow> Inl (Database_Error (''checkpoint '' @ i @ '' not found''))
      | Some c \<Rightarrow>
        if xc_phase c = phase then Inr db
        else rbind (check_phase phase) (\<lambda>_.
          insert_checkpoint_event now i ''phase_transition'' (Some (xc_phase c)) phase detail
            (update_checkpoint i (\<lambda>c. c\<lparr>xc_phase := phase, xc_invalid_reason := None, xc_updated_at := now\<rparr>) db)))"

definition set_phase :: "string \<Rightarrow> recovery_db \<Rightarrow> string \<Rightarrow> string \<Rightarrow> familiar_error + recovery_db" where
  "set_phase now db i phase = transition_checkpoint now db i phase ''phase_completed''"

definition rebind_candidate ::
    "string \<Rightarrow> recovery_db \<Rightarrow> string \<Rightarrow> string \<Rightarrow> string \<Rightarrow> string \<Rightarrow> familiar_error + recovery_db" where
  "rebind_candidate now db i old_hash new_hash commit =
     (case find_checkpoint db i of
        Some c \<Rightarrow>
          if xc_diff_hash c = old_hash
          then Inr (update_checkpoint i (\<lambda>c. c\<lparr>xc_diff_hash := new_hash,
            xc_approved_hash := (if xc_approved_hash c = Some old_hash then Some new_hash else xc_approved_hash c),
            xc_approved_commit := Some commit, xc_base_revision := commit, xc_updated_at := now\<rparr>) db)
          else Inl (Database_Error (''candidate binding for '' @ i @ '' changed''))
      | None \<Rightarrow> Inl (Database_Error (''candidate binding for '' @ i @ '' changed'')))"

text \<open>\<open>rebind_json\<close> prints the two hashes, the actor and the reason.\<close>

definition record_rebind ::
    "(string \<Rightarrow> string \<Rightarrow> string \<Rightarrow> string \<Rightarrow> string) \<Rightarrow> string \<Rightarrow> recovery_db \<Rightarrow> string \<Rightarrow> string \<Rightarrow> string
     \<Rightarrow> string \<Rightarrow> string \<Rightarrow> familiar_error + recovery_db" where
  "record_rebind rebind_json now db i old_hash new_hash actor reason =
     (case find_checkpoint db i of
        None \<Rightarrow> Inl no_rows
      | Some c \<Rightarrow> insert_checkpoint_event now i ''candidate_rebound'' (Some (xc_phase c)) (xc_phase c)
          (rebind_json old_hash new_hash actor reason) db)"

definition checkpoint_events :: "recovery_db \<Rightarrow> string \<Rightarrow> (string \<times> string) list" where
  "checkpoint_events db i =
     map (\<lambda>e. (ce_resulting e, ce_detail e)) (sort_key (\<lambda>e. (ce_recorded_at e, ce_sequence e)) (events_for db i))"

section \<open>The integration revision of a session\<close>

definition coalesce :: "'a option \<Rightarrow> 'a \<Rightarrow> 'a option" where
  "coalesce x y = (case x of None \<Rightarrow> Some y | Some _ \<Rightarrow> x)"

definition initialize_integration :: "recovery_db \<Rightarrow> string \<Rightarrow> string \<Rightarrow> familiar_error + recovery_db" where
  "initialize_integration db i revision =
     rbind (one_changed (''driver session '' @ i @ '' not found'')
       (update_sessions (\<lambda>s. ds_id s = i)
         (\<lambda>s. s\<lparr>ds_base_revision := coalesce (ds_base_revision s) revision,
                ds_integration := coalesce (ds_integration s) revision\<rparr>) (rd_driver db)))
       (\<lambda>d. Inr (db\<lparr>rd_driver := d\<rparr>))"

definition integration_revision :: "recovery_db \<Rightarrow> string \<Rightarrow> familiar_error + string" where
  "integration_revision db i =
     ok_or (Database_Error (''session '' @ i @ '' has no integration revision''))
       (Option.bind (find_session (rd_driver db) i) ds_integration)"

definition advance_integration ::
    "string \<Rightarrow> recovery_db \<Rightarrow> string \<Rightarrow> string \<Rightarrow> string \<Rightarrow> nat \<Rightarrow> familiar_error + recovery_db" where
  "advance_integration now db i expected candidate sequence =
     rbind (one_changed ''integration revision changed during landing''
       (update_sessions (\<lambda>s. ds_id s = i \<and> ds_integration s = Some expected \<and> ds_ended_at s = None)
         (\<lambda>s. s\<lparr>ds_integration := Some candidate\<rparr>) (rd_driver db))) (\<lambda>d.
     rbind (one_changed ''attempt was already integrated or is missing''
       (update_attempts (\<lambda>a. is_attempt i sequence a \<and> da_integrated_at a = None) (mark_integrated now candidate) d))
       (\<lambda>d'. Inr (db\<lparr>rd_driver := d'\<rparr>)))"

section \<open>Reserved migration versions\<close>

definition migration_name :: "migration_state \<Rightarrow> string" where
  "migration_name s =
     (case s of Migration_Reserved \<Rightarrow> ''reserved'' | Migration_Consumed \<Rightarrow> ''consumed'' | Migration_Released \<Rightarrow> ''released'')"

record migration_reservation =
  mv_repository :: string
  mv_version :: u64
  mv_session :: string
  mv_prd :: string
  mv_state :: string

definition map_reservation :: "migration_row \<Rightarrow> migration_reservation" where
  "map_reservation r = \<lparr>mv_repository = mr_repository r, mv_version = word_of_int (mr_version r),
     mv_session = mr_session r, mv_prd = mr_prd r, mv_state = migration_name (mr_state r)\<rparr>"

definition reservation_row :: "recovery_db \<Rightarrow> string \<Rightarrow> string \<Rightarrow> migration_row option" where
  "reservation_row db session prd = find (\<lambda>r. mr_session r = session \<and> mr_prd r = prd) (rd_migrations db)"

definition reservation_of :: "recovery_db \<Rightarrow> string \<Rightarrow> string \<Rightarrow> migration_reservation option" where
  "reservation_of db session prd = map_option map_reservation (reservation_row db session prd)"

definition set_migration ::
    "string \<Rightarrow> string \<Rightarrow> migration_state \<Rightarrow> string option \<Rightarrow> (migration_row \<Rightarrow> migration_row) \<Rightarrow> recovery_db \<Rightarrow> recovery_db" where
  "set_migration session prd state resolved f db =
     db\<lparr>rd_migrations := map (\<lambda>r. if mr_session r = session \<and> mr_prd r = prd
       then f (r\<lparr>mr_state := state, mr_resolved_at := resolved\<rparr>) else r) (rd_migrations db)\<rparr>"

text \<open>\<open>COALESCE(MAX(version), 0)\<close> of a repository, and the version that comes after it.\<close>

definition highest_version :: "recovery_db \<Rightarrow> string \<Rightarrow> int" where
  "highest_version db repo =
     (case map mr_version (filter (\<lambda>r. mr_repository r = repo) (rd_migrations db)) of
        [] \<Rightarrow> 0 | v # vs \<Rightarrow> fold max vs v)"

definition saturating_succ64 :: "u64 \<Rightarrow> u64" where
  "saturating_succ64 n = (if n = - 1 then n else n + 1)"

definition next_version :: "recovery_db \<Rightarrow> string \<Rightarrow> u64 \<Rightarrow> u64" where
  "next_version db repo first = max first (saturating_succ64 (word_of_int (highest_version db repo)))"

definition reserve_migration ::
    "string \<Rightarrow> recovery_db \<Rightarrow> string \<Rightarrow> string \<Rightarrow> string \<Rightarrow> u64 \<Rightarrow> migration_reservation rtx" where
  "reserve_migration now db repo session prd first =
     (case reservation_row db session prd of
        Some r \<Rightarrow>
          (case mr_state r of
             Migration_Reserved \<Rightarrow> Inr (map_reservation r, db)
           | Migration_Released \<Rightarrow>
               Inr ((map_reservation r)\<lparr>mv_state := ''reserved''\<rparr>,
                 set_migration session prd Migration_Reserved None (\<lambda>r. r\<lparr>mr_reserved_at := now\<rparr>) db)
           | Migration_Consumed \<Rightarrow>
               Inl (Database_Error (''migration reservation for '' @ prd @ '' was already consumed'')))
      | None \<Rightarrow>
          let version = next_version db repo first in
          if sint version \<le> 0 then Inl (check_failed ''version > 0'')
          else if list_ex (\<lambda>r. mr_repository r = repo \<and> mr_version r = sint version) (rd_migrations db)
          then Inl (unique_failed ''migration_version_reservations.repository_key, migration_version_reservations.version'')
          else if find_session (rd_driver db) session = None then Inl foreign_key_failed
          else Inr (\<lparr>mv_repository = repo, mv_version = version, mv_session = session, mv_prd = prd, mv_state = ''reserved''\<rparr>,
            db\<lparr>rd_migrations := rd_migrations db @ [\<lparr>mr_repository = repo, mr_version = sint version,
              mr_session = session, mr_prd = prd, mr_state = Migration_Reserved, mr_reserved_at = now,
              mr_resolved_at = None\<rparr>]\<rparr>))"

definition resolve_migration :: "string \<Rightarrow> recovery_db \<Rightarrow> string \<Rightarrow> string \<Rightarrow> bool \<Rightarrow> familiar_error + recovery_db" where
  "resolve_migration now db session prd consume =
     rbind (ensure (case reservation_row db session prd of Some r \<Rightarrow> mr_state r = Migration_Reserved | None \<Rightarrow> False)
             (Database_Error (''migration reservation for '' @ prd @ '' is missing or already resolved''))) (\<lambda>_.
     Inr (set_migration session prd (if consume then Migration_Consumed else Migration_Released) (Some now) id db))"

section \<open>Decisions on scope\<close>

definition find_scope :: "recovery_db \<Rightarrow> string \<Rightarrow> scope_row option" where
  "find_scope db hash = find (\<lambda>s. sw_finding_hash s = hash) (rd_scopes db)"

record scope_question =
  sq_finding_hash :: string
  sq_checkpoint :: string
  sq_prd :: string
  sq_candidate :: string
  sq_finding_json :: string

definition pending_scope_decisions :: "recovery_db \<Rightarrow> string \<Rightarrow> scope_question list" where
  "pending_scope_decisions db repo =
     map (\<lambda>s. \<lparr>sq_finding_hash = sw_finding_hash s, sq_checkpoint = sw_checkpoint s, sq_prd = sw_prd s,
                sq_candidate = sw_candidate s, sq_finding_json = sw_finding_json s\<rparr>)
       (sort_key (\<lambda>s. (sw_prd s, sw_finding_hash s))
         (filter (\<lambda>s. sw_repository s = repo \<and> sw_decision s = None) (rd_scopes db)))"

text \<open>\<open>INSERT OR IGNORE\<close>: a finding hash that is in the table already changes nothing.\<close>

definition record_scope_finding ::
    "string \<Rightarrow> recovery_db \<Rightarrow> string \<Rightarrow> string \<Rightarrow> string \<Rightarrow> string \<Rightarrow> string \<Rightarrow> string \<Rightarrow> familiar_error + recovery_db" where
  "record_scope_finding now db repo checkpoint prd candidate hash json =
     (if find_scope db hash \<noteq> None then Inr db
      else if find_checkpoint db checkpoint = None then Inl foreign_key_failed
      else Inr (db\<lparr>rd_scopes := rd_scopes db @ [\<lparr>sw_finding_hash = hash, sw_repository = repo,
        sw_checkpoint = checkpoint, sw_prd = prd, sw_candidate = candidate, sw_finding_json = json,
        sw_decision = None, sw_actor = None, sw_reason = None, sw_created_at = now, sw_decided_at = None\<rparr>]\<rparr>))"

definition same_candidate :: "string \<Rightarrow> string \<Rightarrow> scope_row \<Rightarrow> bool" where
  "same_candidate checkpoint candidate s \<longleftrightarrow> sw_checkpoint s = checkpoint \<and> sw_candidate s = candidate"

definition record_decision ::
    "string \<Rightarrow> string \<Rightarrow> scope_verdict \<Rightarrow> string \<Rightarrow> string \<Rightarrow> recovery_db \<Rightarrow> recovery_db" where
  "record_decision now hash verdict actor reason db =
     db\<lparr>rd_scopes := map (\<lambda>s. if sw_finding_hash s = hash \<and> sw_decision s = None
       then s\<lparr>sw_decision := Some verdict, sw_actor := Some actor, sw_reason := Some reason, sw_decided_at := Some now\<rparr>
       else s) (rd_scopes db)\<rparr>"

text \<open>The phase that the checkpoint takes when a decision settles the questions of a candidate.\<close>

definition settled_phase :: "bool \<Rightarrow> recovery_db \<Rightarrow> string \<Rightarrow> string \<Rightarrow> string option" where
  "settled_phase approve db checkpoint candidate =
     (let pending = list_ex (\<lambda>s. same_candidate checkpoint candidate s \<and> sw_decision s = None) (rd_scopes db);
          rejected = list_ex (\<lambda>s. same_candidate checkpoint candidate s \<and> sw_decision s = Some Scope_Rejected) (rd_scopes db)
      in if \<not> approve \<or> \<not> pending
         then Some (if approve \<and> \<not> rejected then ''implemented'' else ''blocked'') else None)"

definition set_scope_phase :: "string \<Rightarrow> string \<Rightarrow> string option \<Rightarrow> recovery_db \<Rightarrow> recovery_db" where
  "set_scope_phase now checkpoint phase db =
     (case phase of None \<Rightarrow> db
      | Some p \<Rightarrow> update_checkpoint checkpoint (\<lambda>c. c\<lparr>xc_phase := p, xc_updated_at := now\<rparr>) db)"

definition decide_scope ::
    "string \<Rightarrow> recovery_db \<Rightarrow> string \<Rightarrow> string \<Rightarrow> string \<Rightarrow> bool \<Rightarrow> string \<Rightarrow> string \<Rightarrow> string rtx" where
  "decide_scope now db repo hash candidate approve actor reason =
     (case find (\<lambda>s. sw_repository s = repo \<and> sw_finding_hash s = hash \<and> sw_candidate s = candidate
                   \<and> sw_decision s = None) (rd_scopes db) of
        None \<Rightarrow> Inl (Database_Error ''pending scope finding/candidate binding not found'')
      | Some s \<Rightarrow>
        let db1 = record_decision now hash (if approve then Scope_Approved else Scope_Rejected) actor reason db in
        Inr (sw_checkpoint s, set_scope_phase now (sw_checkpoint s)
          (settled_phase approve db1 (sw_checkpoint s) candidate) db1))"

text \<open>\<open>substance\<close> reads a finding and hashes it without its policy snapshot; \<open>None\<close> if it cannot be read.\<close>

definition approved_scope_findings :: "(string \<Rightarrow> string option) \<Rightarrow> recovery_db \<Rightarrow> string \<Rightarrow> string set" where
  "approved_scope_findings substance db repo =
     set (List.map_filter substance (map sw_finding_json
       (filter (\<lambda>s. sw_repository s = repo \<and> sw_decision s = Some Scope_Approved) (rd_scopes db))))"

section \<open>Finished PRDs\<close>

text \<open>\<open>Path::file_stem\<close>: the file name without what follows its last dot, unless that dot comes first.\<close>

definition stem_of_name :: "string \<Rightarrow> string" where
  "stem_of_name n =
     (let stem = rev (drop 1 (dropWhile (\<lambda>c. c \<noteq> CHR ''.'') (rev n)))
      in if CHR ''.'' \<notin> set n \<or> stem = [] \<or> n = ''..'' then n else stem)"

definition file_stem :: "string \<Rightarrow> string option" where
  "file_stem path = (let name = path_file_name path in if name = [] then None else Some (stem_of_name name))"

definition terminal_ids :: "string \<Rightarrow> string list" where
  "terminal_ids path =
     (case file_stem path of
        None \<Rightarrow> []
      | Some stem \<Rightarrow> stem #
          (case strip_prefix stem ''PRD-'' of
             None \<Rightarrow> []
           | Some rest \<Rightarrow>
             (case parse_u64 (takeWhile is_digit rest) of
                None \<Rightarrow> []
              | Some n \<Rightarrow> [''PRD-'' @ show_u64 n @ dropWhile is_digit rest])))"

text \<open>A completed row no other row of the same number of which is in progress. \<open>paths\<close> are the paths of the table.\<close>

definition landed_row :: "string list \<Rightarrow> backlog_db \<Rightarrow> string \<Rightarrow> string \<Rightarrow> bool" where
  "landed_row paths db repo path \<longleftrightarrow>
     (case db_rows db (repo, path) of
        None \<Rightarrow> False
      | Some r \<Rightarrow> row_status r = Completed
          \<and> \<not> list_ex (\<lambda>p. case db_rows db (repo, p) of
                None \<Rightarrow> False | Some o' \<Rightarrow> row_number o' = row_number r \<and> row_status o' = InProgress) paths)"

definition integrated_attempt :: "recovery_db \<Rightarrow> string \<Rightarrow> driver_attempt_row \<Rightarrow> bool" where
  "integrated_attempt db repo a \<longleftrightarrow> da_integrated_at a \<noteq> None
     \<and> (case find_session (rd_driver db) (da_session a) of Some s \<Rightarrow> ds_repository s = repo | None \<Rightarrow> False)"

definition terminal_prds :: "string list \<Rightarrow> backlog_db \<Rightarrow> recovery_db \<Rightarrow> string \<Rightarrow> string set" where
  "terminal_prds paths bdb db repo =
     set (List.maps terminal_ids (filter (landed_row paths bdb repo) paths))
     \<union> set (map da_prd (filter (integrated_attempt db repo) (dd_attempts (rd_driver db))))"

end
