(* ===== verification/Landing_Store.thy ===== *)
theory Landing_Store
  imports Checkpoint_Store
begin

text \<open>
  What other components write into the tables of \<open>Checkpoint_Store\<close> directly, with statements of their own: the
  two landings of \<open>crates/familiar-ai-daemon/src/drive.rs\<close>, which \<open>complete_run_with\<close> runs inside its transaction,
  and the approval of a checkpoint by \<open>approve_and_complete\<close> of \<open>crates/familiar-ai-storage/src/repos/backlog.rs\<close>.
\<close>

section \<open>Changed rows\<close>

definition one_row :: "string \<Rightarrow> nat \<times> driver_db \<Rightarrow> backlog_store_error + driver_db" where
  "one_row message r = (if fst r = 1 then Inr (snd r) else Inl (Storage message))"

definition storage_error :: "familiar_error + 'a \<Rightarrow> backlog_store_error + 'a" where
  "storage_error r = map_err (\<lambda>e. Storage (show_familiar_error e)) r"

definition advance_session ::
    "string \<Rightarrow> bool \<Rightarrow> string \<Rightarrow> string \<Rightarrow> string \<Rightarrow> driver_db \<Rightarrow> backlog_store_error + driver_db" where
  "advance_session message running session prior merged d =
     one_row message (update_sessions
       (\<lambda>s. ds_id s = session \<and> ds_integration s = Some prior \<and> (running \<longrightarrow> ds_ended_at s = None))
       (\<lambda>s. s\<lparr>ds_integration := Some merged\<rparr>) d)"

definition integrate_attempt ::
    "string \<Rightarrow> string \<Rightarrow> string \<Rightarrow> nat \<Rightarrow> string \<Rightarrow> driver_db \<Rightarrow> backlog_store_error + driver_db" where
  "integrate_attempt message now session sequence merged d =
     one_row message (update_attempts (\<lambda>a. is_attempt session sequence a \<and> da_integrated_at a = None)
       (mark_integrated now merged) d)"

section \<open>The landing of an attempt\<close>

text \<open>\<open>INSERT OR IGNORE\<close> under the fixed name \<open>..:completed\<close>, with the next number of the log.\<close>

definition log_completion ::
    "string \<Rightarrow> string \<Rightarrow> string \<Rightarrow> string \<Rightarrow> recovery_db \<Rightarrow> familiar_error + recovery_db" where
  "log_completion now i prior detail db =
     (let event_id = i @ '':completed''; sequence = snd (allocate_event db i) in
      if list_ex (\<lambda>e. ce_id e = event_id \<or> ce_checkpoint e = i \<and> ce_sequence e = sequence) (rd_events db) then Inr db
      else if find_checkpoint db i = None then Inl foreign_key_failed
      else Inr (db\<lparr>rd_events := rd_events db @
        [\<lparr>ce_id = event_id, ce_checkpoint = i, ce_sequence = sequence, ce_type = ''phase_transition'',
          ce_prior = Some prior, ce_resulting = ''completed'', ce_detail = detail, ce_recorded_at = now\<rparr>]\<rparr>))"

text \<open>The checkpoint was read before the transaction; \<open>reserved\<close> says whether the attempt has a migration version.\<close>

definition complete_checkpoint_row ::
    "string \<Rightarrow> execution_checkpoint option \<Rightarrow> string \<Rightarrow> string \<Rightarrow> recovery_db \<Rightarrow> familiar_error + recovery_db" where
  "complete_checkpoint_row now checkpoint candidate merged db =
     (case checkpoint of
        None \<Rightarrow> Inr db
      | Some c \<Rightarrow> log_completion now (xc_id c) (xc_phase c) (''candidate='' @ candidate @ '' integration='' @ merged)
          (update_checkpoint (xc_id c)
             (\<lambda>r. r\<lparr>xc_phase := ''completed'', xc_invalid_reason := None, xc_updated_at := now\<rparr>) db))"

definition consume_migration :: "string \<Rightarrow> string \<Rightarrow> string \<Rightarrow> bool \<Rightarrow> recovery_db \<Rightarrow> backlog_store_error + recovery_db" where
  "consume_migration now session prd reserved db =
     (let mine = (\<lambda>r. mr_session r = session \<and> mr_prd r = prd \<and> mr_state r = Migration_Reserved) in
      if reserved \<and> length (filter mine (rd_migrations db)) \<noteq> 1
      then Inl (Storage ''active migration reservation is missing'')
      else Inr (db\<lparr>rd_migrations := map (\<lambda>r. if mine r
        then r\<lparr>mr_state := Migration_Consumed, mr_resolved_at := Some now\<rparr> else r) (rd_migrations db)\<rparr>))"

definition land_attempt ::
    "string \<Rightarrow> string \<Rightarrow> nat \<Rightarrow> string \<Rightarrow> string \<Rightarrow> string \<Rightarrow> execution_checkpoint option \<Rightarrow> string \<Rightarrow> bool
     \<Rightarrow> recovery_db \<Rightarrow> backlog_store_error + recovery_db" where
  "land_attempt now session sequence prior candidate merged checkpoint prd reserved db =
     rbind (advance_session ''integration revision changed during landing'' True session prior merged (rd_driver db)) (\<lambda>d.
     rbind (integrate_attempt ''attempt was already integrated or is missing'' now session sequence merged d) (\<lambda>d'.
     rbind (storage_error (complete_checkpoint_row now checkpoint candidate merged (db\<lparr>rd_driver := d'\<rparr>))) (\<lambda>db1.
     consume_migration now session prd reserved db1)))"

section \<open>The landing of a candidate with an approved scope\<close>

text \<open>The checkpoint is bound to what was merged, and so is every question about it, answered or not.\<close>

definition rebind_scopes :: "string \<Rightarrow> string \<Rightarrow> recovery_db \<Rightarrow> recovery_db" where
  "rebind_scopes i hash db =
     db\<lparr>rd_scopes := map (\<lambda>s. if sw_checkpoint s = i then s\<lparr>sw_candidate := hash\<rparr> else s) (rd_scopes db)\<rparr>"

definition complete_bound_checkpoint ::
    "string \<Rightarrow> string \<Rightarrow> string \<Rightarrow> string \<Rightarrow> string \<Rightarrow> recovery_db \<Rightarrow> backlog_store_error + recovery_db" where
  "complete_bound_checkpoint now i old_hash new_hash merged db =
     (if (case find_checkpoint db i of Some c \<Rightarrow> xc_diff_hash c = old_hash | None \<Rightarrow> False)
      then Inr (update_checkpoint i (\<lambda>c. c\<lparr>xc_phase := ''completed'', xc_diff_hash := new_hash,
          xc_approved_hash := (if xc_approved_hash c = Some old_hash then Some new_hash else xc_approved_hash c),
          xc_approved_commit := Some merged, xc_base_revision := merged, xc_invalid_reason := None,
          xc_updated_at := now\<rparr>) db)
      else Inl (Storage ''scope-decision candidate binding changed during landing''))"

definition land_approved_scope ::
    "string \<Rightarrow> string \<Rightarrow> nat \<Rightarrow> string \<Rightarrow> string \<Rightarrow> string \<Rightarrow> string \<Rightarrow> string
     \<Rightarrow> recovery_db \<Rightarrow> backlog_store_error + recovery_db" where
  "land_approved_scope now session sequence prior merged i old_hash new_hash db =
     rbind (advance_session ''integration revision changed during scope-decision landing'' False session prior merged
       (rd_driver db)) (\<lambda>d.
     rbind (integrate_attempt ''scope-decision attempt is missing or already integrated'' now session sequence merged d) (\<lambda>d'.
     rbind (complete_bound_checkpoint now i old_hash new_hash merged (db\<lparr>rd_driver := d'\<rparr>)) (\<lambda>db1.
     Inr (rebind_scopes i new_hash db1))))"

section \<open>The approval of a checkpoint\<close>

definition approve_checkpoint ::
    "string \<Rightarrow> string \<Rightarrow> string \<Rightarrow> string \<Rightarrow> string \<Rightarrow> string \<Rightarrow> recovery_db \<Rightarrow> backlog_store_error + recovery_db" where
  "approve_checkpoint now i phase actor approved_hash commit db =
     (if (case find_checkpoint db i of Some c \<Rightarrow> xc_phase c = phase | None \<Rightarrow> False)
      then storage_error (insert_checkpoint_event now i ''phase_transition'' (Some phase) ''completed''
          (''approve_and_complete actor='' @ actor @ '' approved_hash='' @ approved_hash @ '' commit='' @ commit)
          (update_checkpoint i (\<lambda>c. c\<lparr>xc_phase := ''completed'', xc_invalid_reason := None,
             xc_approved_hash := Some approved_hash, xc_approved_commit := Some commit, xc_updated_at := now\<rparr>) db))
      else Inl (Storage (''checkpoint '' @ i @ '' changed during approve-and-complete'')))"

section \<open>Frames\<close>

lemma storage_error_Inr [result_simps]: "storage_error r = Inr a \<longleftrightarrow> r = Inr a"
  by (simp add: storage_error_def map_err_Inr_iff)

lemma one_row_Inr [result_simps]: "one_row m r = Inr d \<longleftrightarrow> fst r = 1 \<and> d = snd r"
  by (auto simp: one_row_def)

end
