(* ===== verification/Backlog_Audit.thy ===== *)
theory Backlog_Audit
  imports Bootstrap_Store Backlog_Completion Landing_Store
begin

text \<open>
  The audit log of the backlog under all its writers: the operations of \<open>Backlog_Store\<close>, the two completions of a
  run (\<open>Backlog_Completion\<close>; \<open>complete_run_with\<close> finalizes the tables of recovery in the same transaction) and
  the bootstrap. Checkpoints are written by others at any time.
\<close>

section \<open>All writers of a backlog\<close>

inductive backlog_step :: "bootstrap_db \<Rightarrow> bootstrap_db \<Rightarrow> bool" where
  by_operation: "db_step (bt_backlog db) b \<Longrightarrow> backlog_step db (db\<lparr>bt_backlog := b\<rparr>)"
| by_completion: "complete_run env stamp (bt_backlog db) vdb repo target execution actor required = Inr (e, b)
    \<Longrightarrow> backlog_step db (db\<lparr>bt_backlog := b\<rparr>)"
| by_landing: "complete_run_with env stamp finalize (bt_backlog db) vdb (other :: recovery_db) repo target execution actor required
    = Inr (e, b, other') \<Longrightarrow> backlog_step db (db\<lparr>bt_backlog := b\<rparr>)"
| by_bootstrap: "bootstrap_apply stamp run db repo discovered manifest = Some (Inr (result, db')) \<Longrightarrow> backlog_step db db'"
| by_rollback: "bootstrap_rollback benv stamp rollback db repo discovered run actor reason = Inr (answer, db') \<Longrightarrow> backlog_step db db'"
| checkpoints: "backlog_step db (db\<lparr>bt_backlog := (bt_backlog db)\<lparr>db_checkpoints := cs, db_checkpoint_events := es\<rparr>\<rparr>)"

section \<open>Chains of statuses\<close>

lemma complete_run_with_Inr:
  assumes "complete_run_with env stamp finalize b vdb other repo target execution actor required = Inr (e, b', other')"
  obtains r b1 where "db_rows b (repo, prd_path target) = Some r" "row_status r = InProgress"
    "update_status (repo, prd_path target) (\<lambda>r. row_status r = InProgress) backlog_status.Completed stamp b = Some b1"
    "b' = insert_event (repo, prd_path target) (row_status r) backlog_status.Completed actor stamp None b1"
  using assms
  by (auto simp: complete_run_with_def Let_def result_simps update_status_Some split: option.splits)

lemma apply_item_Inr:
  assumes "apply_item stamp run repo ordinal i db = Inr db'"
  obtains r b1 where "db_rows (bt_backlog db) (repo, bi_path i) = Some r" "row_status r = Pending"
    "update_status (repo, bi_path i) (\<lambda>r. row_status r = Pending \<and> row_missing_since r = None \<and> row_hash r = bi_observed i)
       backlog_status.Completed stamp (bt_backlog db) = Some b1"
    "db' = db\<lparr>bt_backlog := insert_event (repo, bi_path i) (row_status r) backlog_status.Completed bootstrap_actor stamp None b1,
       bt_items := bt_items db @ [\<lparr>bj_run = run, bj_ordinal = ordinal, bj_repository = repo, bj_path = bi_path i,
         bj_number = bi_number i, bj_suffix = bi_suffix i, bj_declared = bi_declared i, bj_observed = bi_observed i,
         bj_event = Suc (length (db_events (bt_backlog db)))\<rparr>]\<rparr>"
  using assms
  by (auto simp: apply_item_def Let_def result_simps update_status_Some insert_event_def split: option.splits)

lemma rollback_item_Inr:
  assumes "rollback_item stamp rollback repo actor ordinal path db = Inr db'"
  obtains r b1 new where "db_rows (bt_backlog db) (repo, path) = Some r"
    "update_status (repo, path) (\<lambda>r. row_status r = backlog_status.Completed) Pending stamp (bt_backlog db) = Some b1"
    "db' = db\<lparr>bt_backlog := insert_event (repo, path) (row_status r) Pending actor stamp None b1,
       bt_rollback_items := bt_rollback_items db @ [new]\<rparr>"
  using assms by (auto simp: rollback_item_def Let_def update_status_Some split: option.splits)

text \<open>A status that changes with its event: the chain is kept, the event appended, and nothing else is logged.\<close>

definition grown :: "backlog_db \<Rightarrow> backlog_db \<Rightarrow> bool" where
  "grown b b' \<longleftrightarrow> (\<exists>es. db_events b' = db_events b @ es)"

lemma grown_refl [simp]: "grown b b" by (simp add: grown_def)

lemma grown_trans: "grown a b \<Longrightarrow> grown b c \<Longrightarrow> grown a c"
  by (auto simp: grown_def)

lemma status_event_grown:
  assumes "update_status key guard new stamp b = Some b1"
  shows "grown b (insert_event key old new' actor stamp' recovery b1)"
  using assms by (auto simp: grown_def update_status_Some insert_event_def)

lemma reconcile_grown: "grown b (reconcile repo ps stamp b)"
proof -
  have "grown b (fold (reconcile_prd repo stamp) ps b)" for b
  proof (induction ps arbitrary: b)
    case (Cons p ps)
    have "grown b (reconcile_prd repo stamp p b)" by (auto simp: grown_def reconcile_prd_def Let_def insert_event_def)
    then show ?case using Cons[of "reconcile_prd repo stamp p b"] grown_trans by simp
  qed simp
  from this[of "mark_all_missing repo stamp b"] show ?thesis by (simp add: reconcile_def grown_def mark_all_missing_def)
qed

lemma db_step_grown:
  assumes "db_step b b'"
  shows "grown b b'"
  using assms
proof cases
  case (snapshot stamp repo ps es)
  then show ?thesis using reconcile_grown by (simp add: snapshot_Inr)
next
  case (transition stamp repo path a c actor e)
  then show ?thesis
    by (auto simp: transition_def Let_def intro: status_event_grown split: if_splits option.splits)
next
  case (claim stamp repo ps t actor e)
  then obtain key old new recovery b1 guard where "update_status key guard InProgress stamp (reconcile repo ps stamp b) = Some b1"
      "b' = insert_event key old new actor stamp recovery b1"
    by (auto simp: claim_run_def Let_def result_simps split: option.splits if_splits)
  then show ?thesis using status_event_grown reconcile_grown grown_trans by metis
next
  case (recover stamp repo t action actor reason e)
  from recover(1) show ?thesis by (rule recover_Inr) (simp add: status_event_grown)
next
  case (record_complete stamp repo ps t actor reason e)
  from record_complete(1) show ?thesis
    by (rule record_complete_Inr) (use status_event_grown reconcile_grown grown_trans in metis)
next
  case (approve stamp repo t actor reason h c e)
  from approve(1) show ?thesis
    by (rule approve_Inr) (use status_event_grown in \<open>force simp: grown_def complete_checkpoint_def split: prod.splits\<close>)
qed

lemma item_linked_grown:
  assumes "grown b b'" "item_linked b j"
  shows "item_linked b' j"
proof -
  obtain es where "db_events b' = db_events b @ es" using assms(1) by (auto simp: grown_def)
  moreover obtain e where "event_at b (bj_event j) = Some e" using assms(2) by (auto simp: item_linked_def split: option.splits)
  ultimately have "event_at b' (bj_event j) = event_at b (bj_event j)"
    by (auto simp: event_at_def nth_append split: if_splits)
  then show ?thesis using assms(2) by (simp add: item_linked_def)
qed

text \<open>What the loops of the bootstrap do to the log and to their own tables.\<close>

lemma apply_items_effect:
  assumes "apply_items stamp run repo n is db = Inr db'"
  shows "(audit_ok (bt_backlog db) \<longrightarrow> audit_ok (bt_backlog db')) \<and> grown (bt_backlog db) (bt_backlog db')
    \<and> bt_runs db' = bt_runs db
    \<and> (\<exists>new. bt_items db' = bt_items db @ new \<and> length new = length is
         \<and> (\<forall>j\<in>set new. bj_run j = run \<and> item_linked (bt_backlog db') j))"
  using assms
proof (induction "is" arbitrary: n db)
  case (Cons i "is")
  obtain mid where mid: "apply_item stamp run repo n i db = Inr mid" "apply_items stamp run repo (Suc n) is mid = Inr db'"
    using Cons.prems by (auto simp: result_simps)
  obtain r b1 j where r: "db_rows (bt_backlog db) (repo, bi_path i) = Some r" "row_status r = Pending"
    and upd: "update_status (repo, bi_path i) (\<lambda>r. row_status r = Pending \<and> row_missing_since r = None \<and> row_hash r = bi_observed i)
       backlog_status.Completed stamp (bt_backlog db) = Some b1"
    and m: "mid = db\<lparr>bt_backlog := insert_event (repo, bi_path i) (row_status r) backlog_status.Completed bootstrap_actor stamp None b1,
       bt_items := bt_items db @ [j]\<rparr>"
    and j: "bj_run j = run" "bj_repository j = repo" "bj_path j = bi_path i" "bj_event j = Suc (length (db_events (bt_backlog db)))"
    by (rule apply_item_Inr [OF mid(1)]) simp
  have b1: "db_events b1 = db_events (bt_backlog db)" using upd by (auto simp: update_status_Some)
  have "item_linked (bt_backlog mid) j"
    by (simp add: item_linked_def event_at_def m j b1 insert_event_def r(2))
  moreover have "audit_ok (bt_backlog db) \<longrightarrow> audit_ok (bt_backlog mid)"
    using audit_status_change [OF _ r(1) upd] by (simp add: m)
  moreover have "grown (bt_backlog db) (bt_backlog mid)" using status_event_grown [OF upd] by (simp add: m)
  moreover note IH = Cons.IH [OF mid(2)]
  then obtain new where new: "bt_items db' = bt_items mid @ new" "length new = length is"
      "\<forall>j\<in>set new. bj_run j = run \<and> item_linked (bt_backlog db') j" by blast
  ultimately show ?case
    using IH item_linked_grown [of "bt_backlog mid" "bt_backlog db'" j] j(1) grown_trans
    by (intro conjI exI [of _ "j # new"]) (auto simp: m)
qed simp

lemma rollback_items_effect:
  assumes "rollback_items stamp rollback repo actor n paths db = Inr db'"
  shows "(audit_ok (bt_backlog db) \<longrightarrow> audit_ok (bt_backlog db')) \<and> grown (bt_backlog db) (bt_backlog db')
    \<and> bt_runs db' = bt_runs db \<and> bt_items db' = bt_items db"
  using assms
proof (induction paths arbitrary: n db)
  case (Cons path paths)
  obtain mid where mid: "rollback_item stamp rollback repo actor n path db = Inr mid"
      "rollback_items stamp rollback repo actor (Suc n) paths mid = Inr db'"
    using Cons.prems by (auto simp: result_simps)
  obtain r b1 new where r: "db_rows (bt_backlog db) (repo, path) = Some r"
    and upd: "update_status (repo, path) (\<lambda>r. row_status r = backlog_status.Completed) Pending stamp (bt_backlog db) = Some b1"
    and m: "mid = db\<lparr>bt_backlog := insert_event (repo, path) (row_status r) Pending actor stamp None b1,
       bt_rollback_items := bt_rollback_items db @ [new]\<rparr>"
    by (rule rollback_item_Inr [OF mid(1)])
  have "audit_ok (bt_backlog db) \<longrightarrow> audit_ok (bt_backlog mid)"
    using audit_status_change [OF _ r upd] by (simp add: m)
  moreover have "grown (bt_backlog db) (bt_backlog mid)" using status_event_grown [OF upd] by (simp add: m)
  ultimately show ?case using Cons.IH [OF mid(2)] grown_trans by (auto simp: m)
qed simp

section \<open>Runs of the bootstrap\<close>

definition runs_intact :: "bootstrap_db \<Rightarrow> bool" where
  "runs_intact db \<longleftrightarrow> bj_run ` set (bt_items db) \<subseteq> br_id ` set (bt_runs db) \<and> list_all (run_linked db) (bt_runs db)"

lemma runs_intact_grown:
  assumes "runs_intact db" "grown (bt_backlog db) b"
  shows "runs_intact (db\<lparr>bt_backlog := b\<rparr>)"
  using assms item_linked_grown by (fastforce simp: runs_intact_def run_linked_def items_of_run_def list_all_iff)

lemma bootstrap_apply_cases:
  assumes "bootstrap_apply stamp run db repo discovered manifest = Some (Inr (result, db'))"
  obtains (unchanged) "db' = db"
  | (applied) m :: bootstrap_manifest and row :: run_row and db1 where "db1 = db\<lparr>bt_runs := bt_runs db @ [row]\<rparr>" "br_id row = run" "br_count row = length (bm_items m)"
      "run \<notin> br_id ` set (bt_runs db)" "apply_items stamp run repo 1 (bm_items m) db1 = Inr db'"
proof -
  have step: thesis if a: "apply_manifest stamp run db repo discovered m reapply = Some (Inr (result, db'))" for m reapply
  proof -
    obtain db1 where i: "insert_run stamp run repo m reapply db = Inr db1"
        "apply_items stamp run repo 1 (bm_items m) db1 = Inr db'"
      using a by (auto simp: apply_manifest_def result_simps split: sum.splits option.splits)
    define row where "row = \<lparr>br_id = run, br_repository = repo, br_canonical = bm_canonical m,
       br_raw = bm_raw m, br_manifest_path = bootstrap_manifest_path, br_version = bm_version m,
       br_state = Run_Applied, br_count = length (bm_items m), br_applied_at = Some stamp,
       br_rolled_back_at = None, br_rollback = None, br_reapplies = reapply, br_created_at = stamp,
       br_updated_at = stamp\<rparr>"
    have row: "db1 = db\<lparr>bt_runs := bt_runs db @ [row]\<rparr>" "br_id row = run" "br_count row = length (bm_items m)"
        "run \<notin> br_id ` set (bt_runs db)"
      using i(1) by (auto simp: insert_run_def result_simps unique_sql_def list_ex_iff row_def)
    show thesis by (rule applied [OF row i(2)])
  qed
  have "db' = db \<or> (\<exists>m reapply. apply_manifest stamp run db repo discovered m reapply = Some (Inr (result, db')))"
    using assms unfolding bootstrap_apply_def by (auto split: sum.splits option.splits lineage.splits unit.splits)
  then show thesis using step unchanged by blast
qed

lemma bootstrap_rollback_Inr:
  assumes "bootstrap_rollback benv stamp rollback db repo discovered run actor reason = Inr (answer, db')"
  obtains paths db1 db2 where "bt_backlog db1 = bt_backlog db" "bt_runs db1 = bt_runs db" "bt_items db1 = bt_items db"
    "rollback_items stamp rollback repo actor 1 paths db1 = Inr db2"
    "mark_rolled_back stamp rollback run db2 = Inr db'"
proof -
  obtain n db1 db2 where i: "insert_rollback stamp rollback run repo actor reason n db = Inr db1"
      "rollback_items stamp rollback repo actor 1 (rev (map bj_path (sort_key bj_ordinal (items_of_run db run)))) db1 = Inr db2"
      "mark_rolled_back stamp rollback run db2 = Inr db'"
    using assms by (auto simp: bootstrap_rollback_def Let_def result_simps)
  have "bt_backlog db1 = bt_backlog db" "bt_runs db1 = bt_runs db" "bt_items db1 = bt_items db"
    using i(1) by (auto simp: insert_rollback_def result_simps)
  then show thesis using that i(2,3) by blast
qed

lemma runs_intact_apply:
  assumes "apply_items stamp run repo n (bm_items m) db1 = Inr db'" "db1 = db\<lparr>bt_runs := bt_runs db @ [row]\<rparr>"
    "br_id row = run" "br_count row = length (bm_items m)" "run \<notin> br_id ` set (bt_runs db)" "runs_intact db"
  shows "runs_intact db'"
proof -
  obtain new where new: "bt_items db' = bt_items db @ new" "length new = length (bm_items m)"
      "\<forall>j\<in>set new. bj_run j = run \<and> item_linked (bt_backlog db') j" "bt_runs db' = bt_runs db @ [row]"
      "grown (bt_backlog db) (bt_backlog db')"
    using apply_items_effect [OF assms(1)] by (auto simp: assms(2))
  have old: "bj_run j \<noteq> run" if "j \<in> set (bt_items db)" for j
    using that assms(5,6) unfolding runs_intact_def by blast
  have mine: "items_of_run db' run = new"
    using new(3) old by (simp add: items_of_run_def new(1) filter_empty_conv filter_id_conv)
  have "items_of_run db' (br_id r) = items_of_run db (br_id r)" if "r \<in> set (bt_runs db)" for r
  proof -
    have "br_id r \<noteq> run" using that assms(5) by blast
    then show ?thesis using new(3) by (auto simp: items_of_run_def new(1) filter_empty_conv)
  qed
  then have "run_linked db' r" if "r \<in> set (bt_runs db)" for r
    using that assms(6) item_linked_grown [OF new(5)] by (simp add: runs_intact_def run_linked_def list_all_iff)
  moreover have "run_linked db' row"
    using mine new(2,3) by (simp add: run_linked_def assms(3,4) list_all_iff)
  ultimately show ?thesis
    using assms(3,6) new(3) unfolding runs_intact_def new(1,4) by (auto simp: list_all_iff)
qed

lemma runs_intact_rollback:
  assumes "mark_rolled_back stamp rollback run db = Inr db'" "runs_intact db"
  shows "runs_intact db'"
proof -
  define f :: "run_row \<Rightarrow> run_row" where "f = (\<lambda>r. if br_id r = run
    then r\<lparr>br_state := Run_Rolled_Back, br_rolled_back_at := Some stamp, br_rollback := Some rollback, br_updated_at := stamp\<rparr>
    else r)"
  have db': "db' = db\<lparr>bt_runs := map f (bt_runs db)\<rparr>"
    using assms(1) by (auto simp: mark_rolled_back_def result_simps f_def)
  have f: "br_id (f r) = br_id r" "br_count (f r) = br_count r" for r by (simp_all add: f_def)
  then have "run_linked db' (f r) = run_linked db r" for r by (simp add: db' run_linked_def items_of_run_def)
  then show ?thesis using assms(2) by (simp add: runs_intact_def db' list_all_iff image_image f)
qed

section \<open>Every step\<close>

lemma completion_keeps:
  assumes "complete_run_with env stamp finalize (bt_backlog db) vdb other repo target execution actor required = Inr (e, b, other')"
    "audit_ok (bt_backlog db)" "runs_intact db"
  shows "audit_ok b \<and> runs_intact (db\<lparr>bt_backlog := b\<rparr>)"
proof (rule complete_run_with_Inr [OF assms(1)])
  fix r b1
  assume "db_rows (bt_backlog db) (repo, prd_path target) = Some r"
    and upd: "update_status (repo, prd_path target) (\<lambda>r. row_status r = InProgress) backlog_status.Completed stamp (bt_backlog db) = Some b1"
    and b: "b = insert_event (repo, prd_path target) (row_status r) backlog_status.Completed actor stamp None b1"
  then show ?thesis
    using audit_status_change [OF assms(2) _ upd] runs_intact_grown [OF assms(3) status_event_grown [OF upd]] by simp
qed

lemma backlog_step_keeps:
  assumes "backlog_step db db'" "audit_ok (bt_backlog db)" "runs_intact db"
  shows "audit_ok (bt_backlog db') \<and> runs_intact db'"
  using assms(1)
proof cases
  case (by_operation b)
  then show ?thesis using assms audit_step db_step_grown runs_intact_grown by auto
next
  case (by_completion env stamp vdb repo target execution actor required e b)
  from completion_keeps [OF complete_run_Inr [OF by_completion(2)] assms(2,3)] show ?thesis by (simp add: by_completion(1))
next
  case (by_landing env stamp finalize vdb other repo target execution actor required e b other')
  from completion_keeps [OF by_landing(2) assms(2,3)] show ?thesis by (simp add: by_landing(1))
next
  case (by_bootstrap stamp run repo discovered manifest result)
  then show ?thesis
  proof (rule bootstrap_apply_cases)
    assume "db' = db" then show ?thesis using assms by simp
  next
    fix m row db1
    assume a: "db1 = db\<lparr>bt_runs := bt_runs db @ [row]\<rparr>" "br_id row = run" "br_count row = length (bm_items m)"
      "run \<notin> br_id ` set (bt_runs db)" "apply_items stamp run repo 1 (bm_items m) db1 = Inr db'"
    show ?thesis
      using runs_intact_apply [OF a(5,1-4) assms(3)] apply_items_effect [OF a(5)] assms(2) by (simp add: a(1))
  qed
next
  case (by_rollback benv stamp rollback repo discovered run actor reason answer)
  then show ?thesis
  proof (rule bootstrap_rollback_Inr)
    fix paths db1 db2
    assume a: "bt_backlog db1 = bt_backlog db" "bt_runs db1 = bt_runs db" "bt_items db1 = bt_items db"
      "rollback_items stamp rollback repo actor 1 paths db1 = Inr db2" "mark_rolled_back stamp rollback run db2 = Inr db'"
    note loop = rollback_items_effect [OF a(4)]
    have "runs_intact (db2\<lparr>bt_backlog := bt_backlog db2\<rparr>)"
      using assms(3) loop a(1-3) item_linked_grown
      by (fastforce simp: runs_intact_def run_linked_def items_of_run_def list_all_iff)
    then have "runs_intact db'" using runs_intact_rollback [OF a(5)] by simp
    moreover have "bt_backlog db' = bt_backlog db2" using a(5) by (auto simp: mark_rolled_back_def result_simps)
    ultimately show ?thesis using loop assms(2) a(1) by simp
  qed
next
  case (checkpoints cs es)
  then show ?thesis
    using assms(2) runs_intact_grown [OF assms(3), of "bt_backlog db'"] by (simp add: audit_ok_def events_of_def grown_def)
qed

lemma backlog_reachable:
  assumes "backlog_step\<^sup>*\<^sup>* empty_bootstrap db"
  shows "audit_ok (bt_backlog db) \<and> runs_intact db"
  using assms
proof (induction rule: rtranclp_induct)
  case base
  show ?case
    by (simp add: empty_bootstrap_def audit_ok_def empty_db_def events_of_def audit_row_def runs_intact_def)
next
  case (step y z) then show ?case using backlog_step_keeps by blast
qed

section \<open>The audit log is complete\<close>

text \<open>
  C37: in every database that the operations of the backlog, the completions of runs and the bootstrap reach
  together, the events of each path are a chain from its initial status to its current one: no status changes without
  its event. And every run of the bootstrap has as many items as it says, each with the event of its own completion,
  so the check that guards the bootstrap never finds the log corrupt.
\<close>

theorem audit_log_complete:
  assumes "backlog_step\<^sup>*\<^sup>* empty_bootstrap db"
  shows "audit_ok (bt_backlog db) \<and> (\<forall>repo. validate_all_runs db repo = Inr ())"
proof -
  have "audit_ok (bt_backlog db)" "runs_intact db" using backlog_reachable [OF assms] by blast+
  then show ?thesis by (auto simp: validate_all_runs_def runs_intact_def list_all_iff result_simps)
qed

text \<open>Of two PRDs one is bootstrapped, the other claimed, and the bootstrap is rolled back.\<close>

definition boot_discovered :: "discovered_prd list" where
  "boot_discovered = map (\<lambda>p. p\<lparr>prd_content_hash := replicate 64 (CHR ''a''), prd_dependencies := []\<rparr>) sample_discovered"

definition boot_manifest :: bootstrap_manifest where
  "boot_manifest = \<lparr>bm_version = 1, bm_canonical = replicate 64 (CHR ''b''), bm_raw = replicate 64 (CHR ''c''),
     bm_items = [\<lparr>bi_path = ''docs/prds/PRD-1.md'', bi_number = 1, bi_suffix = None,
       bi_declared = replicate 64 (CHR ''a''), bi_observed = replicate 64 (CHR ''a'')\<rparr>]\<rparr>"

definition boot_env :: bootstrap_env where
  "boot_env = \<lparr>be_toml = (\<lambda>_. Inl ''no reader''), be_sha256 = id, be_null_column = ''null''\<rparr>"

definition result_db :: "'e + 'a \<times> 'd \<Rightarrow> 'd \<Rightarrow> 'd" where
  "result_db r d = (case r of Inr (_, db) \<Rightarrow> db | Inl _ \<Rightarrow> d)"

definition boot_seen :: bootstrap_db where
  "boot_seen = empty_bootstrap\<lparr>bt_backlog := result_db (reconcile_and_snapshot ''t1'' empty_db ''repo'' boot_discovered) empty_db\<rparr>"

definition boot_applied :: bootstrap_db where
  "boot_applied = result_db (the (bootstrap_apply ''t2'' ''bootstrap-1'' boot_seen ''repo'' boot_discovered (Some boot_manifest)))
     empty_bootstrap"

definition boot_claimed :: bootstrap_db where
  "boot_claimed = boot_applied\<lparr>bt_backlog := result_db (claim_run ''t3'' (bt_backlog boot_applied) ''repo''
     boot_discovered (boot_discovered ! 1) sample_actor) empty_db\<rparr>"

definition boot_rolled_back :: bootstrap_db where
  "boot_rolled_back = result_db (bootstrap_rollback boot_env ''t4'' ''rollback-1'' boot_claimed ''repo'' boot_discovered
     ''bootstrap-1'' ''human:a'' ''wrong'') empty_bootstrap"

lemma result_db_ok: "is_ok r \<Longrightarrow> \<exists>a. r = Inr (a, result_db r d)"
  by (auto simp: is_ok_def result_db_def split: sum.splits)

lemma boot_steps: "backlog_step\<^sup>*\<^sup>* empty_bootstrap boot_rolled_back"
proof -
  have "is_ok (reconcile_and_snapshot ''t1'' empty_db ''repo'' boot_discovered)" by code_simp
  then obtain es where "reconcile_and_snapshot ''t1'' (bt_backlog empty_bootstrap) ''repo'' boot_discovered = Inr (es, bt_backlog boot_seen)"
    using result_db_ok [of "reconcile_and_snapshot ''t1'' empty_db ''repo'' boot_discovered" empty_db]
    by (auto simp: boot_seen_def empty_bootstrap_def)
  from by_operation [OF db_step.snapshot [OF this]] have 1: "backlog_step empty_bootstrap boot_seen"
    by (simp add: boot_seen_def)
  have "case bootstrap_apply ''t2'' ''bootstrap-1'' boot_seen ''repo'' boot_discovered (Some boot_manifest) of
      Some r \<Rightarrow> is_ok r | None \<Rightarrow> False" by code_simp
  then obtain r where "bootstrap_apply ''t2'' ''bootstrap-1'' boot_seen ''repo'' boot_discovered (Some boot_manifest) = Some r" "is_ok r"
    by (auto split: option.splits)
  then obtain a where "bootstrap_apply ''t2'' ''bootstrap-1'' boot_seen ''repo'' boot_discovered (Some boot_manifest)
      = Some (Inr (a, boot_applied))"
    using result_db_ok [of r empty_bootstrap] by (auto simp: boot_applied_def)
  then have 2: "backlog_step boot_seen boot_applied" by (rule by_bootstrap)
  have "is_ok (claim_run ''t3'' (bt_backlog boot_applied) ''repo'' boot_discovered (boot_discovered ! 1) sample_actor)"
    by code_simp
  then obtain e where "claim_run ''t3'' (bt_backlog boot_applied) ''repo'' boot_discovered (boot_discovered ! 1) sample_actor
      = Inr (e, bt_backlog boot_claimed)"
    using result_db_ok [of "claim_run ''t3'' (bt_backlog boot_applied) ''repo'' boot_discovered (boot_discovered ! 1) sample_actor" empty_db]
    by (auto simp: boot_claimed_def)
  from by_operation [OF db_step.claim [OF this]] have 3: "backlog_step boot_applied boot_claimed"
    by (simp add: boot_claimed_def)
  have "is_ok (bootstrap_rollback boot_env ''t4'' ''rollback-1'' boot_claimed ''repo'' boot_discovered
     ''bootstrap-1'' ''human:a'' ''wrong'')" by code_simp
  then have 4: "backlog_step boot_claimed boot_rolled_back"
    using result_db_ok by_rollback unfolding boot_rolled_back_def by metis
  from 1 2 3 4 show ?thesis by (meson rtranclp.rtrancl_into_rtrancl rtranclp.rtrancl_refl)
qed

theorem audit_log_complete_witness:
  "map (\<lambda>e. (snd (ev_key e), ev_old e, ev_new e)) (db_events (bt_backlog boot_rolled_back))
     = [(''docs/prds/PRD-1.md'', Pending, backlog_status.Completed), (''docs/prds/PRD-2.md'', Pending, InProgress),
        (''docs/prds/PRD-1.md'', backlog_status.Completed, Pending)]
   \<and> audit_ok (bt_backlog boot_rolled_back) \<and> validate_all_runs boot_rolled_back ''repo'' = Inr ()"
proof -
  have "map (\<lambda>e. (snd (ev_key e), ev_old e, ev_new e)) (db_events (bt_backlog boot_rolled_back))
     = [(''docs/prds/PRD-1.md'', Pending, backlog_status.Completed), (''docs/prds/PRD-2.md'', Pending, InProgress),
        (''docs/prds/PRD-1.md'', backlog_status.Completed, Pending)]" by code_simp
  then show ?thesis using audit_log_complete [OF boot_steps] by simp
qed

end
