(* ===== verification/Review_Coordinator.thy ===== *)
theory Review_Coordinator
  imports Review_Cycle
begin

text \<open>
  \<open>ReviewCoordinator::run\<close> of \<open>crates/familiar-ai-review/src/coordinator.rs\<close>: capture a diff, hold it
  against the scope policy, run the checks, let the implementer repair failing required checks, then
  review, remediate and verify again until the review is clean or a limit stops the cycle.

  The source's loops count attempts up to a limit; here each loop recurses on the number of attempts
  that are left, so the guard \<open>count >= max\<close> is the case \<open>0\<close>. The variables that a loop carries
  (\<open>captured\<close>, \<open>remediation_count\<close>, \<open>failing\<close>, \<open>prior\<close>, the reviewer) are its arguments. Progress lines
  written to \<open>output\<close> and to standard error are not modelled.
\<close>

section \<open>Starting a cycle\<close>

definition initial_cycle :: "coordination_request \<Rightarrow> string \<Rightarrow> review_waiver list \<Rightarrow> review_cycle" where
  "initial_cycle req started waivers =
     \<lparr>cy_cycle_id = cr_cycle_id req, cy_task_id = tk_task_id (cr_task req),
      cy_repository_key = cr_repository_key req, cy_attempt = 0, cy_state = CollectingEvidence,
      cy_implementation = cr_implementation req,
      cy_implementation_execution = Some
        \<lparr>sx_stage_id = cr_cycle_id req @ ''-implementation'', sx_kind = Stage_Implementation,
         sx_started_at = started, sx_ended_at = started,
         sx_duration_ms = cr_implementation_duration_ms req, sx_outcome = ''completed'',
         sx_usage = cr_implementation_usage req,
         sx_unavailable_fields = us_unavailable_fields (cr_implementation_usage req),
         sx_request_artifact = None, sx_response_artifact = None\<rparr>,
      cy_reviewer = None, cy_independence = None, cy_review_request = None, cy_review_result = None,
      cy_remediation_request = None, cy_remediation_result = None, cy_before = [], cy_after = [],
      cy_history = [], cy_waivers = waivers, cy_scope_snapshot = None, cy_scope_evaluations = [],
      cy_tier = None, cy_batch_pending = False, cy_usage = cr_implementation_usage req,
      cy_duration_ms = cr_implementation_duration_ms req, cy_started_at = started, cy_ended_at = None,
      cy_disposition = Review_Pending, cy_stop_reasons = [], cy_stop_detail = None,
      cy_review_attempts = [], cy_remediation_attempts = []\<rparr>"

definition carried_waivers :: "string + review_cycle option \<Rightarrow> review_waiver list" where
  "carried_waivers loaded =
     (case loaded of Inl _ \<Rightarrow> [] | Inr None \<Rightarrow> [] | Inr (Some prior) \<Rightarrow> cy_waivers prior)"

definition record_snapshot :: "'w review_env \<Rightarrow> coordination_request \<Rightarrow> ('w, unit) proc" where
  "record_snapshot env req =
     bind (unwrap Persistence (env_snapshot_json env (cr_scope_policy req))) (\<lambda>bytes.
     bind (save_artifact env ''scope_policy_snapshot'' bytes) (\<lambda>r.
     andthen (update (\<lambda>c. c\<lparr>cy_scope_snapshot := Some r\<rparr>)) (save_cycle env)))"

section \<open>The candidate and its scope\<close>

definition capture_or_stop :: "'w review_env \<Rightarrow> coordination_request \<Rightarrow> ('w, captured_diff) proc" where
  "capture_or_stop env req =
     bind (effect (env_capture env (tk_base_revision (cr_task req)))) (or_stop env EvidenceFailure)"

definition scope_evidence_or_stop :: "'w review_env \<Rightarrow> captured_diff \<Rightarrow> ('w, scope_evidence) proc" where
  "scope_evidence_or_stop env captured =
     bind (effect (\<lambda>w. (collect_scope_evidence (env_metadata env w) (cd_changed_files captured)
                         (cd_bytes captured), w)))
       (or_stop env EvidenceFailure)"

definition scope_of ::
    "coordination_request \<Rightarrow> captured_diff \<Rightarrow> scope_evidence \<Rightarrow> string \<Rightarrow> scope_evaluation \<times> scope_check_result" where
  "scope_of req captured evidence phase =
     (let evaluation = evaluate_scope (cr_scope_policy req) (cd_changed_files captured) evidence in
      (evaluation, scope_check_result_of (cd_changed_files captured) evaluation (cr_scope_policy req) phase))"

definition tier_of ::
    "coordination_request \<Rightarrow> captured_diff \<Rightarrow> scope_check_result \<Rightarrow> tier_selection" where
  "tier_of req captured scope =
     select_review_tier (cr_tier_policy req) (cr_declared_risk_classes req) (cd_changed_files captured)
       (er_byte_size (cd_diff captured)) scope"

definition record_scope :: "scope_check_result \<Rightarrow> tier_selection \<Rightarrow> review_cycle \<Rightarrow> review_cycle" where
  "record_scope scope tier c =
     c\<lparr>cy_scope_evaluations := cy_scope_evaluations c @ [scope], cy_tier := Some tier\<rparr>"

text \<open>Capture the candidate, judge its scope and select its tier.\<close>

definition examine ::
    "'w review_env \<Rightarrow> coordination_request \<Rightarrow> string
     \<Rightarrow> ('w, captured_diff \<times> scope_evaluation \<times> scope_check_result) proc" where
  "examine env req phase =
     bind (capture_or_stop env req) (\<lambda>captured.
     bind (scope_evidence_or_stop env captured) (\<lambda>evidence.
     let (evaluation, scope) = scope_of req captured evidence phase in
     andthen (update (record_scope scope (tier_of req captured scope)))
       (give (captured, evaluation, scope))))"

definition scope_substance :: "'w review_env \<Rightarrow> scope_finding \<Rightarrow> string" where
  "scope_substance env = scope_finding_substance_hash (env_scope_finding_json env) (env_sha256 env)"

definition scope_stop_reason :: "scope_disposition \<Rightarrow> bool \<Rightarrow> stop_reason option" where
  "scope_stop_reason d absorbed =
     (case d of
        Broadened \<Rightarrow> if absorbed then None else Some ScopeBroadened
      | Scope_HumanReviewRequired \<Rightarrow> if absorbed then None else Some ScopeAmbiguous
      | Contained \<Rightarrow> None)"

definition scope_gate ::
    "'w review_env \<Rightarrow> coordination_request \<Rightarrow> scope_evaluation \<Rightarrow> ('w, unit) proc" where
  "scope_gate env req evaluation =
     stop_for env (scope_stop_reason (se_disposition evaluation)
       (human_review_absorbed (scope_substance env) evaluation (cr_approved_scope_findings req)))"

definition collect_candidate :: "'w review_env \<Rightarrow> coordination_request \<Rightarrow> ('w, captured_diff) proc" where
  "collect_candidate env req =
     bind (examine env req ''initial'') (\<lambda>(captured, evaluation, scope).
     andthen (save_cycle env)
       (andthen (scope_gate env req evaluation) (give captured)))"

section \<open>Verification\<close>

definition verification_error_text :: "verification_error \<Rightarrow> string" where
  "verification_error_text e = (case e of
       EmptyArgv \<Rightarrow> ''verification argv is empty''
     | MissingPipe \<Rightarrow> ''verification process pipe unavailable''
     | ReaderPanicked \<Rightarrow> ''verification output reader panicked''
     | Verification_Io m \<Rightarrow> ''verification I/O failed: '' @ m
     | Verification_Overflow \<Rightarrow> ''verification arithmetic overflow'')"

definition record_before :: "verification_evidence \<Rightarrow> review_cycle \<Rightarrow> review_cycle" where
  "record_before e c = c\<lparr>cy_before := cy_before c @ [e], cy_history := cy_history c @ [e]\<rparr>"

definition record_after :: "verification_evidence \<Rightarrow> review_cycle \<Rightarrow> review_cycle" where
  "record_after e c = c\<lparr>cy_after := cy_after c @ [e], cy_history := cy_history c @ [e]\<rparr>"

definition verify_one ::
    "'w review_env \<Rightarrow> coordination_request \<Rightarrow> captured_diff
     \<Rightarrow> (verification_evidence \<Rightarrow> review_cycle \<Rightarrow> review_cycle) \<Rightarrow> verification_check \<Rightarrow> ('w, unit) proc" where
  "verify_one env req captured record_evidence check =
     andthen (reserve_or_stop env (cr_limits req) Verification_Action)
       (bind (effect (env_verify env check (er_content_hash (cd_diff captured)))) (\<lambda>r.
        case r of
          Inl e \<Rightarrow> stop_with_detail env VerificationUnsuccessful
            (''verification '' @ quoted (vc_check_id check) @ '' could not run: '' @ verification_error_text e)
        | Inr ev \<Rightarrow>
          andthen (update (record_evidence ev))
            (andthen (charge_duration env (ve_duration_ms ev)) (check_budget env (cr_limits req)))))"

primrec verify_all ::
    "'w review_env \<Rightarrow> coordination_request \<Rightarrow> captured_diff
     \<Rightarrow> (verification_evidence \<Rightarrow> review_cycle \<Rightarrow> review_cycle) \<Rightarrow> verification_check list
     \<Rightarrow> ('w, unit) proc" where
  "verify_all env req captured record_evidence [] = give ()"
| "verify_all env req captured record_evidence (check # checks) =
     andthen (verify_one env req captured record_evidence check)
       (verify_all env req captured record_evidence checks)"

definition verify_before :: "'w review_env \<Rightarrow> coordination_request \<Rightarrow> captured_diff \<Rightarrow> ('w, unit) proc" where
  "verify_before env req captured =
     andthen (update (\<lambda>c. c\<lparr>cy_state := Verifying\<rparr>))
       (andthen (save_cycle env)
         (verify_all env req captured record_before (vp_checks (cr_verification_plan req))))"

definition verify_after ::
    "'w review_env \<Rightarrow> coordination_request \<Rightarrow> captured_diff \<Rightarrow> string list \<Rightarrow> string list \<Rightarrow> ('w, unit) proc" where
  "verify_after env req captured cited unsuccessful =
     andthen (update (\<lambda>c. c\<lparr>cy_state := Reverifying, cy_after := []\<rparr>))
       (verify_all env req captured record_after
         (relevant_checks (cr_verification_plan req) (map cf_path (cd_changed_files captured))
            cited unsuccessful))"

section \<open>Remediation\<close>

text \<open>\<open>{:?}\<close> of a string: quoted, with the escapes of \<open>char::escape_debug\<close> for ASCII.\<close>

definition hex_digit :: "nat \<Rightarrow> char" where
  "hex_digit n = (if n < 10 then digit_char n else char_of (87 + n))"

definition escape_char :: "char \<Rightarrow> string" where
  "escape_char c =
     (if c = CHR 0x22 then [backslash, CHR 0x22]
      else if c = backslash then [backslash, backslash]
      else if c = nl then [backslash, CHR ''n'']
      else if c = cr then [backslash, CHR ''r'']
      else if c = tab then [backslash, CHR ''t'']
      else if c = CHR 0x00 then [backslash, CHR ''0'']
      else if byte c < 16 then backslash # ''u{'' @ [hex_digit (byte c)] @ ''}''
      else if byte c < 32 \<or> byte c = 127
      then backslash # ''u{'' @ [hex_digit (byte c div 16), hex_digit (byte c mod 16)] @ ''}''
      else [c])"

definition debug_string :: "string \<Rightarrow> string" where
  "debug_string s = CHR 0x22 # concat (map escape_char s) @ [CHR 0x22]"

definition debug_strings :: "string list \<Rightarrow> string" where
  "debug_strings xs = ''['' @ join '', '' (map debug_string xs) @ '']''"

definition open_scope_findings :: "review_cycle \<Rightarrow> scope_finding list" where
  "open_scope_findings c =
     (if cy_scope_evaluations c = [] then []
      else filter (\<lambda>f. sf_decision f \<noteq> AllowedChange \<and> sf_decision f \<noteq> JustifiedExpectedFileChange)
             (sc_findings (last (cy_scope_evaluations c))))"

definition remediation_id :: "review_cycle \<Rightarrow> nat \<Rightarrow> string" where
  "remediation_id c count_now = cy_cycle_id c @ ''-remediation-'' @ show_nat count_now"

definition remediation_request_for ::
    "coordination_request \<Rightarrow> review_cycle \<Rightarrow> captured_diff \<Rightarrow> nat \<Rightarrow> review_finding list
     \<Rightarrow> verification_evidence list \<Rightarrow> remediation_request" where
  "remediation_request_for req c captured count_now blocking failures =
     \<lparr>rm_remediation_id = remediation_id c count_now, rm_cycle_id = cy_cycle_id c, rm_task = cr_task req,
      rm_implementation = ao_assignment (cr_implementation req),
      rm_base_revision = tk_base_revision (cr_task req),
      rm_allowed_paths = map sp_normalized (ss_allowed_paths (cr_scope_policy req)),
      rm_prohibited_paths = map pr_rule_id (ss_prohibited_rules (cr_scope_policy req)),
      rm_blocking_findings = blocking, rm_relevant_diff = cd_diff captured,
      rm_relevant_contracts = cr_contracts req, rm_relevant_invariants = cr_invariants req,
      rm_verification_failures = failures,
      rm_acceptance_checks =
        map (\<lambda>k. \<lparr>rc_check_id = vc_check_id k,
                   rc_description = ''run exact configured command: '' @ debug_strings (vc_argv k)\<rparr>)
          (vp_checks (cr_verification_plan req)),
      rm_budget = \<lparr>rb_max_tokens = wl_remediation_reservation_tokens (cr_limits req),
        rb_max_cost_microusd = wl_action_reservation_cost (cr_limits req),
        rb_max_duration_ms = wl_action_reservation_duration_ms (cr_limits req)\<rparr>,
      rm_scope_rules = Some (scope_rule_summary_of (cr_scope_policy req) (open_scope_findings c))\<rparr>"

definition completed_remediation ::
    "string \<Rightarrow> remediation_result \<Rightarrow> evidence_ref \<Rightarrow> review_cycle \<Rightarrow> review_cycle" where
  "completed_remediation stage_id result response c =
     c\<lparr>cy_remediation_attempts := cy_remediation_attempts c @
        [\<lparr>sx_stage_id = stage_id, sx_kind = Stage_Remediation, sx_started_at = rx_started_at result,
          sx_ended_at = rx_ended_at result, sx_duration_ms = rx_duration_ms result,
          sx_outcome = eo_outcome (rx_execution result), sx_usage = rx_usage result,
          sx_unavailable_fields = rx_unavailable_fields result,
          sx_request_artifact = cy_remediation_request c, sx_response_artifact = Some response\<rparr>]\<rparr>"

text \<open>What the coordinator records of the implementer's answer. No result means: try again.\<close>

definition remediation_answer ::
    "'w review_env \<Rightarrow> coordination_request \<Rightarrow> nat \<Rightarrow> string \<Rightarrow> string \<Rightarrow> nat
     \<Rightarrow> string + remediation_result \<Rightarrow> ('w, remediation_result option) proc" where
  "remediation_answer env req count_now stage_id started timer answer =
     (case answer of
        Inr result \<Rightarrow>
          bind (unwrap Remediation_Failed (env_remediation_result_json env result)) (\<lambda>bytes.
          bind (attempt Remediation_Failed (env_save_artifact env ''remediation_result'' bytes)) (\<lambda>response.
          andthen (update (completed_remediation stage_id result response)) (give (Some result))))
      | Inl _ \<Rightarrow>
          bind (failed_stage env stage_id Stage_Remediation started timer ''agent_failure'') (\<lambda>stage.
          andthen (charge_failed_stage env stage)
            (andthen (update (\<lambda>c. c\<lparr>cy_remediation_attempts := cy_remediation_attempts c
                                 @ [stage\<lparr>sx_request_artifact := cy_remediation_request c\<rparr>]\<rparr>))
              (andthen (save_cycle env)
                (if wl_max_remediation_attempts (cr_limits req) \<le> count_now then stop env AgentFailure
                 else give None)))))"

text \<open>One attempt, numbered \<open>count_now\<close>: the findings are computed from the cycle.\<close>

definition remediation_attempt ::
    "'w review_env \<Rightarrow> coordination_request \<Rightarrow> captured_diff \<Rightarrow> nat \<Rightarrow> (review_cycle \<Rightarrow> review_finding list)
     \<Rightarrow> verification_evidence list \<Rightarrow> ('w, remediation_result option) proc" where
  "remediation_attempt env req captured count_now blocking_of failures =
     andthen (reserve_or_stop env (cr_limits req) Remediation_Action)
       (andthen (update (\<lambda>c. c\<lparr>cy_state := Remediating\<rparr>))
         (bind the_cycle (\<lambda>c.
          let request = remediation_request_for req c captured count_now (blocking_of c) failures in
          bind (unwrap Persistence (env_remediation_json env request)) (\<lambda>bytes.
          bind (save_artifact env ''remediation_request'' bytes) (\<lambda>r.
          andthen (update (\<lambda>c. c\<lparr>cy_remediation_request := Some r\<rparr>))
            (andthen (save_cycle env)
              (bind (now env) (\<lambda>started. bind (instant env) (\<lambda>timer.
               bind (effect (env_remediate env request))
                 (remediation_answer env req count_now (remediation_id c count_now) started timer))))))))))"

text \<open>A remediation that ran is paid for, and the candidate it left is captured and judged anew.\<close>

definition charge_remediation ::
    "'w review_env \<Rightarrow> coordination_request \<Rightarrow> remediation_result \<Rightarrow> ('w, unit) proc" where
  "charge_remediation env req result =
     andthen (charge_usage env (rx_usage result))
       (andthen (charge_duration env (rx_duration_ms result)) (check_budget env (cr_limits req)))"

definition record_remediation ::
    "remediation_result \<Rightarrow> captured_diff \<Rightarrow> scope_check_result \<Rightarrow> review_cycle \<Rightarrow> review_cycle" where
  "record_remediation result captured scope c =
     c\<lparr>cy_remediation_result := Some (result\<lparr>rx_changed_files := cd_changed_files captured,
        rx_resulting_diff := cd_diff captured, rx_scope_check := scope\<rparr>)\<rparr>"

definition remediation_phase :: "nat \<Rightarrow> string" where
  "remediation_phase count_now = ''remediation-'' @ show_nat count_now"

section \<open>Repairing failing required checks\<close>

definition missing_checks :: "verification_evidence list \<Rightarrow> verification_evidence list \<Rightarrow> string list" where
  "missing_checks failing rerun =
     map ve_check_id (filter (\<lambda>e. \<not> list_ex (\<lambda>a. ve_check_id a = ve_check_id e) rerun) failing)"

definition recheck ::
    "'w review_env \<Rightarrow> coordination_request \<Rightarrow> nat \<Rightarrow> remediation_result \<Rightarrow> verification_evidence list
     \<Rightarrow> ('w, captured_diff) proc" where
  "recheck env req count_now result failing =
     andthen (charge_remediation env req result)
       (bind (examine env req (remediation_phase count_now)) (\<lambda>(captured, evaluation, scope).
        andthen (update (record_remediation result captured scope))
          (andthen (save_cycle env)
            (andthen (scope_gate env req evaluation)
              (andthen (verify_after env req captured (map ve_check_id failing) (map ve_check_id failing))
                (bind the_cycle (\<lambda>c.
                 if environment_denied (cy_after c) then stop env Stop_EnvironmentDenied
                 else if missing_checks failing (cy_after c) \<noteq> []
                 then stop_with_detail env VerificationUnsuccessful
                   (''re-verification produced no evidence for required check(s): ''
                    @ join '', '' (missing_checks failing (cy_after c)))
                 else give captured)))))))"

primrec check_rounds ::
    "'w review_env \<Rightarrow> coordination_request \<Rightarrow> nat \<Rightarrow> captured_diff \<Rightarrow> nat \<Rightarrow> verification_evidence list
     \<Rightarrow> ('w, captured_diff \<times> nat) proc" where
  "check_rounds env req 0 captured attempts failing = stop env RetryLimitExhausted"
| "check_rounds env req (Suc n) captured attempts failing =
     bind (remediation_attempt env req captured (Suc attempts)
             (\<lambda>c. map (synthesize_check_failure_finding (cy_cycle_id c) (Suc attempts)) failing) failing)
       (\<lambda>answer. case answer of
          None \<Rightarrow> check_rounds env req n captured (Suc attempts) failing
        | Some result \<Rightarrow>
          bind (recheck env req (Suc attempts) result failing) (\<lambda>captured'.
          bind the_cycle (\<lambda>c.
            if \<not> required_failed (cy_after c) then give (captured', Suc attempts)
            else check_rounds env req n captured' (Suc attempts) (failing_checks (cy_after c)))))"

definition repair_checks ::
    "'w review_env \<Rightarrow> coordination_request \<Rightarrow> captured_diff \<Rightarrow> ('w, captured_diff \<times> nat) proc" where
  "repair_checks env req captured =
     bind the_cycle (\<lambda>c.
     if \<not> required_failed (cy_before c) then give (captured, 0)
     else if environment_denied (cy_before c) then stop env Stop_EnvironmentDenied
     else check_rounds env req (wl_max_remediation_attempts (cr_limits req)) captured 0
            (failing_checks (cy_before c)))"

section \<open>Reviewing\<close>

definition uses_batch :: "review_cycle \<Rightarrow> bool" where
  "uses_batch c \<longleftrightarrow> (case cy_tier c of None \<Rightarrow> False | Some t \<Rightarrow> ts_tier t = Batch)"

definition active_reviewer :: "'w review_env \<Rightarrow> review_cycle \<Rightarrow> 'w review_agent" where
  "active_reviewer env c =
     (if uses_batch c
      then (case env_batch_reviewer env of None \<Rightarrow> env_reviewer env | Some b \<Rightarrow> b)
      else env_reviewer env)"

definition reviewer_for :: "coordination_request \<Rightarrow> tier_selection option \<Rightarrow> agent_assignment" where
  "reviewer_for req tier =
     (if map_option ts_tier tier = Some Standard
      then (case cr_standard_reviewer req of None \<Rightarrow> cr_reviewer req | Some r \<Rightarrow> r)
      else cr_reviewer req)"

definition independence_of ::
    "coordination_request \<Rightarrow> agent_assignment \<Rightarrow> isolation_evidence option \<Rightarrow> reviewer_independence option" where
  "independence_of req reviewer isolation =
     check_independence (ao_assignment (cr_implementation req)) reviewer
       (cr_allow_same_model_fallback req) isolation"

text \<open>The reviewer of the first review, or the end of a cycle that needs none.\<close>

definition choose_reviewer :: "'w review_env \<Rightarrow> coordination_request \<Rightarrow> ('w, agent_assignment) proc" where
  "choose_reviewer env req =
     bind the_cycle (\<lambda>c.
     if map_option ts_tier (cy_tier c) = Some ChecksOnly
     then andthen (update (\<lambda>c. c\<lparr>cy_disposition := ReadyForHumanApproval\<rparr>)) (stop env CleanReview)
     else
       let reviewer = reviewer_for req (cy_tier c) in
       case independence_of req reviewer (ra_isolation (active_reviewer env c)) of
         None \<Rightarrow> stop env NoIndependentReviewer
       | Some i \<Rightarrow> andthen (update (\<lambda>c. c\<lparr>cy_independence := Some i\<rparr>)) (give reviewer))"

definition review_id_of :: "review_cycle \<Rightarrow> string" where
  "review_id_of c = cy_cycle_id c @ ''-review-'' @ show_nat (cy_attempt c)"

definition package_input_of ::
    "coordination_request \<Rightarrow> review_cycle \<Rightarrow> captured_diff \<Rightarrow> nat \<Rightarrow> agent_assignment
     \<Rightarrow> finding_reference list \<Rightarrow> package_input" where
  "package_input_of req c captured attempts reviewer prior =
     \<lparr>pi_review_id = review_id_of c, pi_task = cr_task req,
      pi_implementation = ao_assignment (cr_implementation req), pi_reviewer = reviewer,
      pi_candidate_revision = Some (cd_resulting_tree captured), pi_captured = captured,
      pi_contracts = cr_contracts req, pi_invariants = cr_invariants req,
      pi_verification = (if attempts = 0 then cy_before c else cy_after c), pi_prior_findings = prior,
      pi_budget = cr_package_budget req\<rparr>"

definition package_or_stop ::
    "'w review_env \<Rightarrow> (package_error + review_request) option \<Rightarrow> ('w, review_request) proc" where
  "package_or_stop env r = (case r of None \<Rightarrow> (\<lambda>_. Diverges) | Some p \<Rightarrow> or_stop env EvidenceFailure p)"

definition prepare_review ::
    "'w review_env \<Rightarrow> coordination_request \<Rightarrow> captured_diff \<Rightarrow> nat \<Rightarrow> agent_assignment
     \<Rightarrow> finding_reference list \<Rightarrow> ('w, review_request) proc" where
  "prepare_review env req captured attempts reviewer prior =
     andthen (reserve_or_stop env (cr_limits req) Review_Action)
       (andthen (update (\<lambda>c. c\<lparr>cy_attempt := Suc (cy_attempt c), cy_state := AwaitingReview\<rparr>))
         (bind the_cycle (\<lambda>c.
          bind (package_or_stop env
                 (build_review_request (env_codec env) (package_input_of req c captured attempts reviewer prior)))
            (\<lambda>package.
          bind (unwrap Persistence (pk_request_json (env_codec env) package)) (\<lambda>bytes.
          bind (save_artifact env ''review_request'' bytes) (\<lambda>r.
          andthen (update (\<lambda>c. c\<lparr>cy_review_request := Some r\<rparr>))
            (andthen (save_cycle env) (give package))))))))"

text \<open>A failed attempt is charged and recorded; the last one stops the cycle.\<close>

definition retry_or_stop ::
    "'w review_env \<Rightarrow> coordination_request \<Rightarrow> stage_execution \<Rightarrow> stop_reason
     \<Rightarrow> ('w, review_result option) proc" where
  "retry_or_stop env req stage reason =
     andthen (charge_failed_stage env stage)
       (andthen (update (\<lambda>c. c\<lparr>cy_review_attempts := cy_review_attempts c
                            @ [stage\<lparr>sx_request_artifact := cy_review_request c\<rparr>]\<rparr>))
         (andthen (save_cycle env)
           (bind the_cycle (\<lambda>c.
            if cy_attempt c < wl_max_review_attempts (cr_limits req) then give None else stop env reason))))"

definition capability_error_text :: "'w review_env \<Rightarrow> string \<Rightarrow> capability_reason \<Rightarrow> string" where
  "capability_error_text env worker reason =
     ''review capability incompatible for worker '' @ worker @ '': '' @ env_reason_text env reason"

definition park :: "'w review_env \<Rightarrow> ('w, 'a) proc" where
  "park env = andthen (update (\<lambda>c. c\<lparr>cy_batch_pending := True\<rparr>)) (andthen (save_cycle env) return_cycle)"

definition review_answer ::
    "'w review_env \<Rightarrow> coordination_request \<Rightarrow> review_request \<Rightarrow> string \<Rightarrow> nat
     \<Rightarrow> review_execution_error + review_result \<Rightarrow> ('w, review_result option) proc" where
  "review_answer env req package started timer answer =
     bind the_cycle (\<lambda>c.
     case answer of
       Inl (CapabilityIncompatible worker reason) \<Rightarrow>
         raise (ReviewCapabilityOutage (capability_error_text env worker reason))
     | Inl (Parked _) \<Rightarrow> park env
     | Inl (Review_Agent_Failed _) \<Rightarrow>
         bind (failed_stage env (review_id_of c) Stage_Review started timer ''agent_failure'')
           (\<lambda>stage. retry_or_stop env req stage AgentFailure)
     | Inr reported \<Rightarrow>
         (case apply_and_validate (env_policy env) package reported of
            Inl _ \<Rightarrow>
              bind (failed_stage env (review_id_of c) Stage_Review started timer ''malformed_review'')
                (\<lambda>stage. retry_or_stop env req (stage\<lparr>sx_usage := rr_usage reported\<rparr>) Stop_MalformedReview)
          | Inr result \<Rightarrow> give (Some result)))"

definition ask_reviewer ::
    "'w review_env \<Rightarrow> coordination_request \<Rightarrow> review_request \<Rightarrow> ('w, review_result option) proc" where
  "ask_reviewer env req package =
     bind (now env) (\<lambda>started. bind (instant env) (\<lambda>timer. bind the_cycle (\<lambda>c.
     bind (effect (ra_review (active_reviewer env c) package)) (review_answer env req package started timer))))"

definition completed_review :: "review_result \<Rightarrow> evidence_ref \<Rightarrow> review_cycle \<Rightarrow> review_cycle" where
  "completed_review result response c =
     c\<lparr>cy_review_attempts := cy_review_attempts c @
        [\<lparr>sx_stage_id = review_id_of c, sx_kind = Stage_Review, sx_started_at = rr_started_at result,
          sx_ended_at = rr_ended_at result, sx_duration_ms = rr_duration_ms result,
          sx_outcome = ''completed'', sx_usage = rr_usage result,
          sx_unavailable_fields = rr_unavailable_fields result,
          sx_request_artifact = cy_review_request c, sx_response_artifact = Some response\<rparr>]\<rparr>"

definition accept_review ::
    "'w review_env \<Rightarrow> coordination_request \<Rightarrow> review_result \<Rightarrow> ('w, unit) proc" where
  "accept_review env req result =
     bind (unwrap Persistence (env_result_json env result)) (\<lambda>bytes.
     bind (save_artifact env ''review_result'' bytes) (\<lambda>response.
     andthen (update (completed_review result response))
       (andthen (charge_usage env (rr_usage result))
         (andthen (charge_duration env (rr_duration_ms result))
           (andthen (check_budget env (cr_limits req))
             (andthen (update (\<lambda>c. c\<lparr>cy_reviewer := Some (rr_reviewer result), cy_state := Reviewed,
                                      cy_review_result := Some result\<rparr>))
               (save_cycle env)))))))"

section \<open>Judging a review\<close>

definition adjudicated :: "(scope_finding \<Rightarrow> string) \<Rightarrow> string set \<Rightarrow> scope_finding \<Rightarrow> bool" where
  "adjudicated substance approved f \<longleftrightarrow>
     (case sf_decision f of
        AllowedChange \<Rightarrow> True
      | JustifiedExpectedFileChange \<Rightarrow> True
      | AmbiguousHumanReview \<Rightarrow> substance f \<in> approved
      | UndeclaredScopeExpansion \<Rightarrow> substance f \<in> approved
      | ProhibitedChange \<Rightarrow> False)"

definition adjudicated_paths ::
    "(scope_finding \<Rightarrow> string) \<Rightarrow> string set \<Rightarrow> review_cycle \<Rightarrow> string set" where
  "adjudicated_paths substance approved c =
     set (map sf_path (filter (adjudicated substance approved) (concat (map sc_findings (cy_scope_evaluations c)))))"

definition cited_paths :: "review_finding \<Rightarrow> string list" where
  "cited_paths f =
     filter_some (\<lambda>e. case e of FileRange p _ \<Rightarrow> Some p | DiffHunk p _ \<Rightarrow> Some p | _ \<Rightarrow> None) (rf_evidence f)"

definition scope_claim_adjudicated :: "string set \<Rightarrow> review_finding \<Rightarrow> bool" where
  "scope_claim_adjudicated paths f \<longleftrightarrow>
     rf_category f = ScopeViolation \<and> cited_paths f \<noteq> [] \<and> list_all (\<lambda>p. p \<in> paths) (cited_paths f)"

definition carry_forward :: "review_finding list \<Rightarrow> finding_reference list" where
  "carry_forward fs =
     map (\<lambda>f. \<lparr>fr_finding_id = rf_finding_id f, fr_status = rf_status f, fr_claim = rf_claim f,
                fr_category = rf_category f, fr_evidence = rf_evidence f\<rparr>)
       (filter (\<lambda>f. rf_status f = Open) fs)"

definition blocking_findings :: "'w review_env \<Rightarrow> coordination_request \<Rightarrow> review_cycle \<Rightarrow> review_finding list
    \<Rightarrow> review_finding list" where
  "blocking_findings env req c fs =
     (let paths = adjudicated_paths (scope_substance env) (cr_approved_scope_findings req) c in
      deduplicate_findings (env_identity_json env)
        (filter (\<lambda>f. rf_status f = Open \<and> (rf_blocking f \<or> rf_acceptance_criterion_id f \<noteq> None)
                      \<and> \<not> scope_claim_adjudicated paths f) fs))"

definition needs_architect :: "review_finding list \<Rightarrow> bool" where
  "needs_architect fs = list_ex (\<lambda>f. rf_category f = ArchitecturalDrift \<or> rf_category f = InvariantViolation) fs"

text \<open>What remains to be remedied after a review, or the end of the cycle.\<close>

definition judge ::
    "'w review_env \<Rightarrow> coordination_request \<Rightarrow> review_result \<Rightarrow> ('w, review_finding list) proc" where
  "judge env req result =
     bind the_cycle (\<lambda>c.
     if findings_conflict (env_identity_json env) (rr_findings result) then stop env ConflictingFindings
     else
       let blocking = blocking_findings env req c (rr_findings result) in
       if blocking = []
       then andthen (update (\<lambda>c. c\<lparr>cy_disposition := ReadyForHumanApproval\<rparr>)) (stop env CleanReview)
       else if needs_architect blocking then stop env ArchitecturalApprovalRequired
       else give blocking)"

section \<open>Remediating a review\<close>

primrec remediation_rounds ::
    "'w review_env \<Rightarrow> coordination_request \<Rightarrow> nat \<Rightarrow> captured_diff \<Rightarrow> nat \<Rightarrow> review_finding list
     \<Rightarrow> ('w, remediation_result \<times> nat) proc" where
  "remediation_rounds env req 0 captured attempts blocking = stop env RetryLimitExhausted"
| "remediation_rounds env req (Suc n) captured attempts blocking =
     bind (remediation_attempt env req captured (Suc attempts) (\<lambda>_. blocking) []) (\<lambda>answer.
     case answer of
       Some result \<Rightarrow> give (result, Suc attempts)
     | None \<Rightarrow> remediation_rounds env req n captured (Suc attempts) blocking)"

definition cited_checks :: "review_finding list \<Rightarrow> string list" where
  "cited_checks blocking =
     filter_some (\<lambda>e. case e of Verification check_id _ \<Rightarrow> Some check_id | _ \<Rightarrow> None)
       (concat (map rf_evidence blocking))"

definition unsuccessful_checks :: "review_cycle \<Rightarrow> string list" where
  "unsuccessful_checks c = map ve_check_id (filter (\<lambda>e. ve_status e \<noteq> Passed) (cy_before c))"

definition failure_text :: "verification_evidence list \<Rightarrow> string" where
  "failure_text v =
     join ''; '' (map (\<lambda>e. ve_check_id e @ '' ('' @ status_debug (ve_status e) @ ''): '' @ ve_summary e)
                   (failing_checks v))"

text \<open>
  The candidate a remediation left: its scope, its tier and with it the next reviewer, whose
  independence is judged with the isolation of the interactive reviewer.
\<close>

definition reexamine ::
    "'w review_env \<Rightarrow> coordination_request \<Rightarrow> nat \<Rightarrow> remediation_result
     \<Rightarrow> ('w, captured_diff \<times> agent_assignment) proc" where
  "reexamine env req count_now result =
     andthen (charge_remediation env req result)
       (bind (examine env req (remediation_phase count_now)) (\<lambda>(captured, evaluation, scope).
        let reviewer = reviewer_for req (Some (tier_of req captured scope));
            independence = independence_of req reviewer (ra_isolation (env_reviewer env)) in
        andthen (update (\<lambda>c. c\<lparr>cy_independence := independence\<rparr>))
          (if independence = None then stop env NoIndependentReviewer
           else andthen (update (record_remediation result captured scope))
             (andthen (save_cycle env)
               (andthen (scope_gate env req evaluation) (give (captured, reviewer)))))))"

definition reverify ::
    "'w review_env \<Rightarrow> coordination_request \<Rightarrow> captured_diff \<Rightarrow> review_finding list \<Rightarrow> ('w, unit) proc" where
  "reverify env req captured blocking =
     bind the_cycle (\<lambda>c0.
     andthen (verify_after env req captured (cited_checks blocking) (unsuccessful_checks c0))
       (bind the_cycle (\<lambda>c.
        if required_failed (cy_after c)
        then stop_with_detail env VerificationUnsuccessful
          (''required check(s) ran and did not pass: '' @ failure_text (cy_after c))
        else give ())))"

text \<open>One turn of the review loop: a review, and the remediation of what it found.\<close>

definition review_once ::
    "'w review_env \<Rightarrow> coordination_request \<Rightarrow> captured_diff \<Rightarrow> nat \<Rightarrow> agent_assignment
     \<Rightarrow> finding_reference list \<Rightarrow> ('w, (review_result \<times> review_finding list) option) proc" where
  "review_once env req captured attempts reviewer prior =
     bind (prepare_review env req captured attempts reviewer prior) (\<lambda>package.
     bind (ask_reviewer env req package) (\<lambda>answer.
     case answer of
       None \<Rightarrow> give None
     | Some result \<Rightarrow>
       andthen (accept_review env req result)
         (bind (judge env req result) (\<lambda>blocking. give (Some (result, blocking))))))"

definition remedy ::
    "'w review_env \<Rightarrow> coordination_request \<Rightarrow> captured_diff \<Rightarrow> nat \<Rightarrow> review_finding list
     \<Rightarrow> ('w, captured_diff \<times> nat \<times> agent_assignment) proc" where
  "remedy env req captured attempts blocking =
     bind (remediation_rounds env req (wl_max_remediation_attempts (cr_limits req) - attempts)
             captured attempts blocking) (\<lambda>(remediation, attempts').
     bind (reexamine env req attempts' remediation) (\<lambda>(captured', reviewer').
     andthen (reverify env req captured' blocking) (give (captured', attempts', reviewer'))))"

primrec review_rounds ::
    "'w review_env \<Rightarrow> coordination_request \<Rightarrow> nat \<Rightarrow> captured_diff \<Rightarrow> nat \<Rightarrow> agent_assignment
     \<Rightarrow> finding_reference list \<Rightarrow> ('w, unit) proc" where
  "review_rounds env req 0 captured attempts reviewer prior = stop env RetryLimitExhausted"
| "review_rounds env req (Suc n) captured attempts reviewer prior =
     bind (review_once env req captured attempts reviewer prior) (\<lambda>answer.
     case answer of
       None \<Rightarrow> review_rounds env req n captured attempts reviewer prior
     | Some (result, blocking) \<Rightarrow>
       bind (remedy env req captured attempts blocking) (\<lambda>(captured', attempts', reviewer').
       review_rounds env req n captured' attempts' reviewer' (carry_forward (rr_findings result))))"

section \<open>The run\<close>

definition run_cycle :: "'w review_env \<Rightarrow> coordination_request \<Rightarrow> ('w, unit) proc" where
  "run_cycle env req =
     andthen (record_snapshot env req)
       (bind (collect_candidate env req) (\<lambda>captured.
        andthen (verify_before env req captured)
          (bind (repair_checks env req captured) (\<lambda>(captured', attempts).
           bind (choose_reviewer env req) (\<lambda>reviewer.
           review_rounds env req (wl_max_review_attempts (cr_limits req)) captured' attempts reviewer [])))))"

text \<open>\<open>ReviewCoordinator::run\<close>: its result and the world it leaves; no result where it diverges.\<close>

definition run ::
    "'w review_env \<Rightarrow> coordination_request \<Rightarrow> 'w \<Rightarrow> (run_result \<times> 'w) option" where
  "run env req w =
     (case validate_limits (cr_limits req) of
        Inl e \<Rightarrow> Some (Inl e, w)
      | Inr _ \<Rightarrow>
        let (started, w1) = env_now env w;
            (loaded, w2) = env_load_cycle env (cr_cycle_id req) w1 in
        case run_cycle env req \<lparr>st_world = w2, st_cycle = initial_cycle req started (carried_waivers loaded)\<rparr> of
          Next _ t \<Rightarrow> Some (Inr (st_cycle t), st_world t)
        | Finished r w' \<Rightarrow> Some (r, w')
        | Diverges \<Rightarrow> None)"

end
