(* ===== verification/Review_Safety.thy ===== *)
theory Review_Safety
  imports Review_Coordinator
begin

text \<open>
  What a run of the review coordinator guarantees. \<open>wp m Q R c\<close> says that \<open>m\<close>, started on the cycle
  \<open>c\<close> in any world, goes on with a value and a cycle in \<open>Q\<close>, ends the run with a cycle in \<open>R\<close>, raises
  an error or diverges; its rules (\<open>wp_rules\<close>) follow the construction of the code. \<open>steady\<close> is the
  invariant of a running cycle, \<open>settled\<close> what holds of every cycle that a run returns.
\<close>

section \<open>Weakest preconditions\<close>

definition wp ::
    "('w, 'a) proc \<Rightarrow> ('a \<Rightarrow> review_cycle \<Rightarrow> bool) \<Rightarrow> (review_cycle \<Rightarrow> bool) \<Rightarrow> review_cycle \<Rightarrow> bool" where
  "wp m Q R c \<longleftrightarrow>
     (\<forall>w. case m \<lparr>st_world = w, st_cycle = c\<rparr> of
            Next a t \<Rightarrow> Q a (st_cycle t)
          | Finished r w' \<Rightarrow> (case r of Inl _ \<Rightarrow> True | Inr c' \<Rightarrow> R c')
          | Diverges \<Rightarrow> True)"

named_theorems wp_rules "weakest preconditions of the pieces of the coordinator"

lemma wp_bind [wp_rules]:
  fixes m :: "('w, 'a) proc"
  assumes "wp m (\<lambda>a. wp (f a) Q R) R c"
  shows "wp (bind m f) Q R c"
  unfolding wp_def
proof
  fix w :: 'w
  let ?s = "\<lparr>st_world = w, st_cycle = c\<rparr>"
  have *: "case m ?s of Next a t \<Rightarrow> wp (f a) Q R (st_cycle t)
      | Finished r w' \<Rightarrow> (case r of Inl _ \<Rightarrow> True | Inr c' \<Rightarrow> R c') | Diverges \<Rightarrow> True"
    using assms unfolding wp_def [of m] by (rule spec)
  show "case bind m f ?s of Next a t \<Rightarrow> Q a (st_cycle t)
      | Finished r w' \<Rightarrow> (case r of Inl _ \<Rightarrow> True | Inr c' \<Rightarrow> R c') | Diverges \<Rightarrow> True"
  proof (cases "m ?s")
    case (Next a t)
    obtain w2 c2 where t: "t = \<lparr>st_world = w2, st_cycle = c2\<rparr>" by (cases t)
    from * have "wp (f a) Q R c2" by (simp add: Next t)
    then show ?thesis by (simp add: bind_def Next t wp_def)
  qed (use * in \<open>simp_all add: bind_def\<close>)
qed

lemma wp_andthen [wp_rules]: "wp m (\<lambda>_. wp k Q R) R c \<Longrightarrow> wp (andthen m k) Q R c"
  by (simp add: andthen_def wp_bind)

lemma wp_give [wp_rules]: "Q a c \<Longrightarrow> wp (give a) Q R c"
  by (simp add: wp_def give_def)

lemma wp_the_cycle [wp_rules]: "Q c c \<Longrightarrow> wp the_cycle Q R c"
  by (simp add: wp_def the_cycle_def)

lemma wp_update [wp_rules]: "Q () (f c) \<Longrightarrow> wp (update f) Q R c"
  by (simp add: wp_def update_def)

lemma wp_raise [wp_rules]: "wp (raise e) Q R c"
  by (simp add: wp_def raise_def)

lemma wp_return_cycle [wp_rules]: "R c \<Longrightarrow> wp return_cycle Q R c"
  by (simp add: wp_def return_cycle_def)

lemma wp_effect [wp_rules]: "(\<And>a w w'. f w = (a, w') \<Longrightarrow> Q a c) \<Longrightarrow> wp (effect f) Q R c"
  by (simp add: wp_def effect_def split: prod.split)

lemma wp_Diverges [wp_rules]: "wp (\<lambda>_. Diverges) Q R c"
  by (simp add: wp_def)

lemma wp_if [wp_rules]:
  "(b \<Longrightarrow> wp m Q R c) \<Longrightarrow> (\<not> b \<Longrightarrow> wp k Q R c) \<Longrightarrow> wp (if b then m else k) Q R c"
  by simp

lemma wp_sum [wp_rules]:
  "(\<And>e. r = Inl e \<Longrightarrow> wp (f e) Q R c) \<Longrightarrow> (\<And>a. r = Inr a \<Longrightarrow> wp (g a) Q R c)
     \<Longrightarrow> wp (case r of Inl e \<Rightarrow> f e | Inr a \<Rightarrow> g a) Q R c"
  by (cases r) auto

lemma wp_option [wp_rules]:
  "(r = None \<Longrightarrow> wp m Q R c) \<Longrightarrow> (\<And>a. r = Some a \<Longrightarrow> wp (g a) Q R c)
     \<Longrightarrow> wp (case r of None \<Rightarrow> m | Some a \<Rightarrow> g a) Q R c"
  by (cases r) auto

lemma wp_prod [wp_rules]:
  "(\<And>a b. p = (a, b) \<Longrightarrow> wp (f a b) Q R c) \<Longrightarrow> wp (case p of (a, b) \<Rightarrow> f a b) Q R c"
  by (cases p) auto

lemma wp_mono: "wp m Q R c \<Longrightarrow> (\<And>a c'. Q a c' \<Longrightarrow> Q' a c') \<Longrightarrow> wp m Q' R c"
  unfolding wp_def by (fastforce split: outcome.splits)

lemma wp_unwrap [wp_rules]: "(\<And>a. r = Inr a \<Longrightarrow> Q a c) \<Longrightarrow> wp (unwrap f r) Q R c"
  unfolding unwrap_def by (intro wp_rules)

lemma wp_attempt [wp_rules]: "(\<And>a. Q a c) \<Longrightarrow> wp (attempt f g) Q R c"
  unfolding attempt_def by (intro wp_rules)

lemma wp_save_cycle [wp_rules]: "Q () c \<Longrightarrow> wp (save_cycle env) Q R c"
  unfolding save_cycle_def by (intro wp_rules) simp

lemma wp_save_artifact [wp_rules]: "(\<And>a. Q a c) \<Longrightarrow> wp (save_artifact env kind bytes) Q R c"
  unfolding save_artifact_def by (intro wp_rules)

lemma wp_now [wp_rules]: "(\<And>a. Q a c) \<Longrightarrow> wp (now env) Q R c"
  unfolding now_def by (intro wp_rules)

lemma wp_instant [wp_rules]: "(\<And>a. Q a c) \<Longrightarrow> wp (instant env) Q R c"
  unfolding instant_def by (intro wp_rules)

lemma wp_stop_any: "(\<And>at. R (record_stop reason at c)) \<Longrightarrow> wp (stop env reason) Q R c"
  unfolding stop_def by (intro wp_rules)

section \<open>A running and a returned cycle\<close>

definition steady :: "coordination_request \<Rightarrow> review_cycle \<Rightarrow> bool" where
  "steady req c \<longleftrightarrow>
     cy_stop_reasons c = [] \<and> \<not> cy_batch_pending c \<and> cy_disposition c = Review_Pending
     \<and> cy_ended_at c = None \<and> cy_attempt c \<le> wl_max_review_attempts (cr_limits req)
     \<and> length (cy_review_attempts c) \<le> cy_attempt c
     \<and> length (cy_remediation_attempts c) \<le> wl_max_remediation_attempts (cr_limits req)"

lemma steady_updates [simp]:
  "steady req (c\<lparr>cy_usage := u\<rparr>) = steady req c"
  "steady req (c\<lparr>cy_duration_ms := d\<rparr>) = steady req c"
  "steady req (c\<lparr>cy_state := st\<rparr>) = steady req c"
  "steady req (c\<lparr>cy_scope_snapshot := r\<rparr>) = steady req c"
  "steady req (c\<lparr>cy_scope_evaluations := es\<rparr>) = steady req c"
  "steady req (c\<lparr>cy_tier := t\<rparr>) = steady req c"
  "steady req (c\<lparr>cy_before := v\<rparr>) = steady req c"
  "steady req (c\<lparr>cy_after := v\<rparr>) = steady req c"
  "steady req (c\<lparr>cy_history := v\<rparr>) = steady req c"
  "steady req (c\<lparr>cy_independence := i\<rparr>) = steady req c"
  "steady req (c\<lparr>cy_review_request := r\<rparr>) = steady req c"
  "steady req (c\<lparr>cy_remediation_request := r\<rparr>) = steady req c"
  "steady req (c\<lparr>cy_remediation_result := x\<rparr>) = steady req c"
  "steady req (c\<lparr>cy_review_result := rr\<rparr>) = steady req c"
  "steady req (c\<lparr>cy_reviewer := ro\<rparr>) = steady req c"
  "steady req (c\<lparr>cy_stop_detail := sd\<rparr>) = steady req c"
  by (simp_all add: steady_def)

text \<open>What a check answered, and which checks a list of evidence answers.\<close>

definition answers ::
    "'w review_env \<Rightarrow> captured_diff \<Rightarrow> verification_check \<Rightarrow> verification_evidence \<Rightarrow> bool" where
  "answers env captured k e \<longleftrightarrow>
     (\<exists>w w'. env_verify env k (er_content_hash (cd_diff captured)) w = (Inr e, w'))"

definition verified ::
    "'w review_env \<Rightarrow> coordination_request \<Rightarrow> captured_diff \<Rightarrow> verification_evidence list \<Rightarrow> bool" where
  "verified env req captured v \<longleftrightarrow>
     (\<forall>k \<in> set (vp_checks (cr_verification_plan req)).
        vc_required k \<longrightarrow> (\<exists>e \<in> set v. answers env captured k e))"

text \<open>A candidate that git reported, with the scope evidence found for it.\<close>

definition was_captured ::
    "'w review_env \<Rightarrow> coordination_request \<Rightarrow> captured_diff \<Rightarrow> scope_evidence \<Rightarrow> bool" where
  "was_captured env req captured evidence \<longleftrightarrow>
     (\<exists>w w'. env_capture env (tk_base_revision (cr_task req)) w = (Inr captured, w'))
     \<and> (\<exists>w. collect_scope_evidence (env_metadata env w) (cd_changed_files captured) (cd_bytes captured)
              = Inr evidence)"

lemma was_capturedI:
  "env_capture env (tk_base_revision (cr_task req)) w = (Inr captured, w')
     \<Longrightarrow> collect_scope_evidence (env_metadata env v) (cd_changed_files captured) (cd_bytes captured) = Inr evidence
     \<Longrightarrow> was_captured env req captured evidence"
  unfolding was_captured_def by blast

text \<open>The last scope evaluation is that of the candidate, and it was let through.\<close>

definition scope_accepted ::
    "'w review_env \<Rightarrow> coordination_request \<Rightarrow> captured_diff \<Rightarrow> review_cycle \<Rightarrow> bool" where
  "scope_accepted env req captured c \<longleftrightarrow>
     (\<exists>evidence phase evaluation scope.
        was_captured env req captured evidence
        \<and> scope_of req captured evidence phase = (evaluation, scope)
        \<and> cy_scope_evaluations c \<noteq> [] \<and> last (cy_scope_evaluations c) = scope
        \<and> cy_tier c = Some (tier_of req captured scope)
        \<and> scope_stop_reason (se_disposition evaluation)
            (human_review_absorbed (scope_substance env) evaluation (cr_approved_scope_findings req)) = None)"

definition candidate_ready ::
    "'w review_env \<Rightarrow> coordination_request \<Rightarrow> captured_diff \<Rightarrow> verification_evidence list \<Rightarrow> review_cycle \<Rightarrow> bool" where
  "candidate_ready env req captured v c \<longleftrightarrow>
     scope_accepted env req captured c \<and> verified env req captured v \<and> \<not> required_failed v
     \<and> set v \<subseteq> set (cy_history c)"

definition objections_settled ::
    "'w review_env \<Rightarrow> coordination_request \<Rightarrow> review_result \<Rightarrow> review_cycle \<Rightarrow> bool" where
  "objections_settled env req result c \<longleftrightarrow>
     \<not> findings_conflict (env_identity_json env) (rr_findings result)
     \<and> (\<forall>f \<in> set (rr_findings result). stops_landing f
          \<longrightarrow> scope_claim_adjudicated
                (adjudicated_paths (scope_substance env) (cr_approved_scope_findings req) c) f)"

definition reviewed ::
    "'w review_env \<Rightarrow> coordination_request \<Rightarrow> captured_diff \<Rightarrow> verification_evidence list \<Rightarrow> review_cycle \<Rightarrow> bool" where
  "reviewed env req captured v c \<longleftrightarrow>
     (\<exists>package reported result.
        rq_diff package = cd_diff captured
        \<and> apply_and_validate (env_policy env) package reported = Inr result
        \<and> cy_review_result c = Some result \<and> objections_settled env req result c
        \<and> cy_independence c \<noteq> None \<and> budget_violation c (cr_limits req) = None)"

definition clean :: "'w review_env \<Rightarrow> coordination_request \<Rightarrow> review_cycle \<Rightarrow> bool" where
  "clean env req c \<longleftrightarrow>
     (\<exists>captured v. candidate_ready env req captured v c
        \<and> (map_option ts_tier (cy_tier c) = Some ChecksOnly \<or> reviewed env req captured v c))"

definition bounded :: "coordination_request \<Rightarrow> review_cycle \<Rightarrow> bool" where
  "bounded req c \<longleftrightarrow>
     cy_attempt c \<le> wl_max_review_attempts (cr_limits req)
     \<and> length (cy_review_attempts c) \<le> cy_attempt c
     \<and> length (cy_remediation_attempts c) \<le> wl_max_remediation_attempts (cr_limits req)"

definition stopped_for :: "stop_reason \<Rightarrow> review_cycle \<Rightarrow> bool" where
  "stopped_for r c \<longleftrightarrow>
     cy_stop_reasons c = [r] \<and> \<not> cy_batch_pending c \<and> cy_ended_at c \<noteq> None
     \<and> cy_state c = (if r = CleanReview then Completed else Cycle_HumanReviewRequired)
     \<and> cy_disposition c = (if r = CleanReview then ReadyForHumanApproval else Review_HumanReviewRequired)"

definition parked :: "review_cycle \<Rightarrow> bool" where
  "parked c \<longleftrightarrow>
     cy_batch_pending c \<and> cy_stop_reasons c = [] \<and> cy_ended_at c = None \<and> cy_state c = AwaitingReview
     \<and> cy_disposition c = Review_Pending"

definition settled :: "'w review_env \<Rightarrow> coordination_request \<Rightarrow> review_cycle \<Rightarrow> bool" where
  "settled env req c \<longleftrightarrow>
     bounded req c
     \<and> (parked c \<and> 0 < cy_attempt c \<or> (\<exists>r. stopped_for r c \<and> (r = CleanReview \<longrightarrow> clean env req c)))"

lemma settled_stop:
  "steady req c \<Longrightarrow> reason \<noteq> CleanReview \<Longrightarrow> settled env req (record_stop reason at c)"
  by (auto simp: settled_def steady_def bounded_def stopped_for_def record_stop_def)

lemma settled_clean:
  assumes "steady req c" and "candidate_ready env req captured v c"
    and "map_option ts_tier (cy_tier c) = Some ChecksOnly \<or> reviewed env req captured v c"
  shows "settled env req (record_stop CleanReview at (c\<lparr>cy_disposition := ReadyForHumanApproval\<rparr>))"
proof -
  let ?d = "record_stop CleanReview at (c\<lparr>cy_disposition := ReadyForHumanApproval\<rparr>)"
  have "candidate_ready env req captured v ?d"
    using assms(2) by (simp add: candidate_ready_def scope_accepted_def record_stop_def)
  moreover have "reviewed env req captured v ?d = reviewed env req captured v c"
    by (simp add: reviewed_def record_stop_def objections_settled_def adjudicated_paths_def
        budget_violation_def)
  moreover have "cy_tier ?d = cy_tier c" by (simp add: record_stop_def)
  ultimately have "clean env req ?d" using assms(3) unfolding clean_def by metis
  then show ?thesis
    using assms(1) by (auto simp: settled_def steady_def bounded_def stopped_for_def record_stop_def)
qed

abbreviation ends :: "'w review_env \<Rightarrow> coordination_request \<Rightarrow> ('w, 'a) proc
    \<Rightarrow> ('a \<Rightarrow> review_cycle \<Rightarrow> bool) \<Rightarrow> review_cycle \<Rightarrow> bool" where
  "ends env req m Q c \<equiv> wp m Q (settled env req) c"

lemma wp_stop [wp_rules]:
  "steady req c \<Longrightarrow> reason \<noteq> CleanReview \<Longrightarrow> ends env req (stop env' reason) Q c"
  by (intro wp_stop_any settled_stop)

lemma wp_stop_with_detail [wp_rules]:
  "steady req c \<Longrightarrow> reason \<noteq> CleanReview \<Longrightarrow> ends env req (stop_with_detail env' reason detail) Q c"
  unfolding stop_with_detail_def by (intro wp_rules) simp_all

lemma wp_or_stop [wp_rules]:
  "steady req c \<Longrightarrow> reason \<noteq> CleanReview \<Longrightarrow> (\<And>a. r = Inr a \<Longrightarrow> Q a c)
     \<Longrightarrow> ends env req (or_stop env' reason r) Q c"
  unfolding or_stop_def by (intro wp_rules)

lemma wp_stop_for [wp_rules]:
  "steady req c \<Longrightarrow> (\<And>reason. r = Some reason \<Longrightarrow> reason \<noteq> CleanReview) \<Longrightarrow> (r = None \<Longrightarrow> Q () c)
     \<Longrightarrow> ends env req (stop_for env' r) Q c"
  unfolding stop_for_def by (intro wp_rules) auto

section \<open>Ledgers\<close>

lemma reserve_amount_Inl:
  "reserve_amount unknown reason maximum used amount = Inl e
     \<Longrightarrow> e = unknown \<or> e = AccountingOverflow \<or> e = Limit reason"
  by (auto simp: reserve_amount_def rbind_Inl_iff ok_or_def split: option.splits if_splits)

lemma limit_reason_not_clean: "reserve c l act = Inl e \<Longrightarrow> limit_reason e \<noteq> CleanReview"
  by (auto simp: reserve_def Let_def rbind_Inl_iff limit_reason_def dest!: reserve_amount_Inl)

lemma budget_violation_not_clean: "budget_violation c l \<noteq> Some CleanReview"
  by (simp add: budget_violation_def)

lemma wp_reserve_or_stop [wp_rules]:
  "steady req c \<Longrightarrow> Q () c \<Longrightarrow> ends env req (reserve_or_stop env' l act) Q c"
  unfolding reserve_or_stop_def by (intro wp_rules) (auto dest: limit_reason_not_clean)

lemma wp_check_budget [wp_rules]:
  "steady req c \<Longrightarrow> (budget_violation c l = None \<Longrightarrow> Q () c) \<Longrightarrow> ends env req (check_budget env' l) Q c"
  unfolding check_budget_def by (intro wp_rules) (use budget_violation_not_clean in metis)+

lemma wp_charge_usage [wp_rules]:
  "steady req c \<Longrightarrow> (\<And>u. Q () (c\<lparr>cy_usage := u\<rparr>)) \<Longrightarrow> ends env req (charge_usage env' v) Q c"
  unfolding charge_usage_def update_or_stop_def by (intro wp_rules) (auto simp: add_usage_def)

lemma wp_charge_duration [wp_rules]:
  "steady req c \<Longrightarrow> (\<And>d. Q () (c\<lparr>cy_duration_ms := d\<rparr>)) \<Longrightarrow> ends env req (charge_duration env' v) Q c"
  unfolding charge_duration_def update_or_stop_def by (intro wp_rules) (auto simp: add_duration_def)

lemma wp_failed_stage [wp_rules]:
  "(\<And>stage. Q stage c) \<Longrightarrow> wp (failed_stage env sid kind started timer out) Q R c"
  unfolding failed_stage_def Let_def by (intro wp_rules)

lemma wp_charge_failed_stage [wp_rules]:
  "steady req c \<Longrightarrow> (\<And>u d. Q () (c\<lparr>cy_usage := u, cy_duration_ms := d\<rparr>))
     \<Longrightarrow> ends env req (charge_failed_stage env' stage) Q c"
  unfolding charge_failed_stage_def by (intro wp_rules) simp_all

section \<open>Candidates and checks\<close>

lemma wp_examine [wp_rules]:
  assumes "steady req c"
    and "\<And>captured evidence evaluation scope.
        was_captured env req captured evidence
        \<Longrightarrow> scope_of req captured evidence phase = (evaluation, scope)
        \<Longrightarrow> Q (captured, evaluation, scope) (record_scope scope (tier_of req captured scope) c)"
  shows "ends env req (examine env req phase) Q c"
  unfolding examine_def capture_or_stop_def scope_evidence_or_stop_def Let_def
  by (intro wp_rules) (use assms(1) in \<open>auto intro!: assms(2) intro: was_capturedI\<close>)

lemma wp_scope_gate [wp_rules]:
  "steady req c
     \<Longrightarrow> (scope_stop_reason (se_disposition evaluation) (human_review_absorbed (scope_substance env') evaluation
            (cr_approved_scope_findings req)) = None \<Longrightarrow> Q () c)
     \<Longrightarrow> ends env req (scope_gate env' req evaluation) Q c"
  unfolding scope_gate_def
  by (intro wp_rules) (auto simp: scope_stop_reason_def split: scope_disposition.splits if_splits)

lemma wp_verify_one:
  assumes "steady req c" and "\<And>ev. steady req (rec ev c)"
    and "\<And>ev d. answers env captured check ev \<Longrightarrow> Q () ((rec ev c)\<lparr>cy_duration_ms := d\<rparr>)"
  shows "ends env req (verify_one env req captured rec check) Q c"
  unfolding verify_one_def
proof (intro wp_rules, goal_cases)
  case (6 r w w' ev d)
  then have "answers env captured check ev" unfolding answers_def by blast
  then show ?case by (rule assms(3))
qed (simp_all add: assms)

text \<open>An invariant of the evidence so far and the cycle is kept by a list of checks.\<close>

lemma wp_verify_all:
  assumes step: "\<And>vs c ev d check. K vs c \<Longrightarrow> answers env captured check ev
      \<Longrightarrow> K (vs @ [ev]) ((rec ev c)\<lparr>cy_duration_ms := d\<rparr>)"
    and steady: "\<And>vs c. K vs c \<Longrightarrow> steady req c" "\<And>ev vs c. K vs c \<Longrightarrow> steady req (rec ev c)"
  shows "K vs c \<Longrightarrow> list_all2 (answers env captured) done_checks vs \<Longrightarrow>
     ends env req (verify_all env req captured rec checks)
       (\<lambda>_ c'. \<exists>vs'. K vs' c' \<and> list_all2 (answers env captured) (done_checks @ checks) vs') c"
proof (induction checks arbitrary: vs c done_checks)
  case Nil
  then show ?case by (auto intro!: wp_rules)
next
  case (Cons check checks)
  show ?case
    unfolding verify_all.simps
  proof (intro wp_andthen wp_verify_one)
    fix ev d
    assume a: "answers env captured check ev"
    have "list_all2 (answers env captured) (done_checks @ [check]) (vs @ [ev])"
      using Cons.prems(2) a by (intro list_all2_appendI) auto
    from Cons.IH [OF step [OF Cons.prems(1) a] this]
    show "ends env req (verify_all env req captured rec checks)
        (\<lambda>_ c'. \<exists>vs'. K vs' c' \<and> list_all2 (answers env captured) (done_checks @ check # checks) vs')
        ((rec ev c)\<lparr>cy_duration_ms := d\<rparr>)"
      by simp
  qed (use steady Cons.prems(1) in auto)
qed

lemma list_all2_left: "list_all2 P xs ys \<Longrightarrow> x \<in> set xs \<Longrightarrow> \<exists>y \<in> set ys. P x y"
  by (induction rule: list_all2_induct) auto

lemma verified_if:
  assumes "list_all2 (answers env captured) checks v"
    and "\<And>k. k \<in> set (vp_checks (cr_verification_plan req)) \<Longrightarrow> vc_required k \<Longrightarrow> k \<in> set checks"
  shows "verified env req captured v"
  unfolding verified_def using assms by (blast dest: list_all2_left)

text \<open>What a stage that only runs checks leaves as it was.\<close>

definition same_course :: "review_cycle \<Rightarrow> review_cycle \<Rightarrow> bool" where
  "same_course c c' \<longleftrightarrow>
     cy_scope_evaluations c' = cy_scope_evaluations c \<and> cy_tier c' = cy_tier c
     \<and> cy_independence c' = cy_independence c \<and> cy_attempt c' = cy_attempt c
     \<and> cy_remediation_attempts c' = cy_remediation_attempts c"

lemma same_course_scope: "same_course c c' \<Longrightarrow> scope_accepted env req captured c' = scope_accepted env req captured c"
  by (simp add: same_course_def scope_accepted_def)

lemma scope_accepted_keep:
  "scope_accepted env req captured c \<Longrightarrow> cy_scope_evaluations c' = cy_scope_evaluations c
     \<Longrightarrow> cy_tier c' = cy_tier c \<Longrightarrow> scope_accepted env req captured c'"
  by (simp add: scope_accepted_def)

lemma wp_verify_before [wp_rules]:
  assumes "steady req c" and "cy_before c = []"
    and "\<And>c'. steady req c' \<Longrightarrow> same_course c c' \<Longrightarrow> verified env req captured (cy_before c')
        \<Longrightarrow> set (cy_before c') \<subseteq> set (cy_history c') \<Longrightarrow> Q () c'"
  shows "ends env req (verify_before env req captured) Q c"
  unfolding verify_before_def
proof (intro wp_andthen wp_update wp_save_cycle)
  let ?K = "\<lambda>vs c'. steady req c' \<and> same_course c c' \<and> cy_before c' = vs \<and> set vs \<subseteq> set (cy_history c')"
  have "ends env req (verify_all env req captured record_before (vp_checks (cr_verification_plan req)))
      (\<lambda>_ c'. \<exists>vs'. ?K vs' c' \<and> list_all2 (answers env captured) ([] @ vp_checks (cr_verification_plan req)) vs')
      (c\<lparr>cy_state := Verifying\<rparr>)"
    by (rule wp_verify_all [where vs="[]"]) (use assms in \<open>auto simp: record_before_def same_course_def\<close>)
  then show "ends env req (verify_all env req captured record_before (vp_checks (cr_verification_plan req))) Q
      (c\<lparr>cy_state := Verifying\<rparr>)"
    by (rule wp_mono) (auto intro!: assms verified_if)
qed

lemma wp_verify_after [wp_rules]:
  assumes "steady req c"
    and "\<And>c'. steady req c' \<Longrightarrow> same_course c c' \<Longrightarrow> verified env req captured (cy_after c')
        \<Longrightarrow> set (cy_after c') \<subseteq> set (cy_history c') \<Longrightarrow> Q () c'"
  shows "ends env req (verify_after env req captured cited unsuccessful) Q c"
  unfolding verify_after_def
proof (intro wp_andthen wp_update)
  let ?K = "\<lambda>vs c'. steady req c' \<and> same_course c c' \<and> cy_after c' = vs \<and> set vs \<subseteq> set (cy_history c')"
  let ?checks = "relevant_checks (cr_verification_plan req) (map cf_path (cd_changed_files captured)) cited unsuccessful"
  have "ends env req (verify_all env req captured record_after ?checks)
      (\<lambda>_ c'. \<exists>vs'. ?K vs' c' \<and> list_all2 (answers env captured) ([] @ ?checks) vs')
      (c\<lparr>cy_state := Reverifying, cy_after := []\<rparr>)"
    by (rule wp_verify_all [where vs="[]"]) (use assms in \<open>auto simp: record_after_def same_course_def\<close>)
  then show "ends env req (verify_all env req captured record_after ?checks) Q
      (c\<lparr>cy_state := Reverifying, cy_after := []\<rparr>)"
    by (rule wp_mono) (auto intro!: assms verified_if intro: relevant_checks_required)
qed

section \<open>Remediation\<close>

text \<open>A remediation attempt is recorded once, and leaves scope, tier and independence as they are.\<close>

lemma wp_remediation_attempt:
  assumes "steady req c" and "length (cy_remediation_attempts c) < wl_max_remediation_attempts (cr_limits req)"
    and "\<And>answer c'. steady req c' \<Longrightarrow> same_course (c\<lparr>cy_remediation_attempts := cy_remediation_attempts c'\<rparr>) c'
        \<Longrightarrow> length (cy_remediation_attempts c') = Suc (length (cy_remediation_attempts c)) \<Longrightarrow> Q answer c'"
  shows "ends env req (remediation_attempt env req captured count_now blocking_of failures) Q c"
  unfolding remediation_attempt_def remediation_answer_def Let_def
  by (intro wp_rules) (use assms in \<open>auto simp: completed_remediation_def steady_def same_course_def\<close>)

text \<open>What a stage that replaces the candidate leaves as it was.\<close>

definition same_attempts :: "review_cycle \<Rightarrow> review_cycle \<Rightarrow> bool" where
  "same_attempts c c' \<longleftrightarrow>
     cy_attempt c' = cy_attempt c \<and> cy_remediation_attempts c' = cy_remediation_attempts c"

lemma same_attempts_trans: "same_attempts a b \<Longrightarrow> same_attempts b c \<Longrightarrow> same_attempts a c"
  by (simp add: same_attempts_def)

lemma same_course_attempts: "same_course c c' \<Longrightarrow> same_attempts c c'"
  by (simp add: same_course_def same_attempts_def)

lemma wp_charge_remediation [wp_rules]:
  "steady req c \<Longrightarrow> (\<And>u d. Q () (c\<lparr>cy_usage := u, cy_duration_ms := d\<rparr>))
     \<Longrightarrow> ends env req (charge_remediation env' req result) Q c"
  unfolding charge_remediation_def by (intro wp_rules) simp_all

lemma scope_acceptedI:
  assumes "was_captured env req captured evidence"
    and "scope_of req captured evidence phase = (evaluation, scope)"
    and "scope_stop_reason (se_disposition evaluation) (human_review_absorbed (scope_substance env) evaluation
           (cr_approved_scope_findings req)) = None"
    and "cy_scope_evaluations c = xs @ [scope]" and "cy_tier c = Some (tier_of req captured scope)"
  shows "scope_accepted env req captured c"
  unfolding scope_accepted_def
  by (intro exI [where x=evidence] exI [where x=phase] exI [where x=evaluation] exI [where x=scope])
    (use assms in simp)

lemma wp_recheck [wp_rules]:
  assumes "steady req c"
    and "\<And>captured c'. steady req c' \<Longrightarrow> same_attempts c c' \<Longrightarrow> scope_accepted env req captured c'
        \<Longrightarrow> verified env req captured (cy_after c') \<Longrightarrow> set (cy_after c') \<subseteq> set (cy_history c')
        \<Longrightarrow> Q captured c'"
  shows "ends env req (recheck env req count_now result failing) Q c"
  unfolding recheck_def
  by (intro wp_rules; simp add: record_scope_def record_remediation_def assms(1))
    (auto intro!: assms(2) intro: scope_acceptedI simp: same_course_def same_attempts_def)

text \<open>The evidence that counts after a number of remediations, and the states that lead to a review.\<close>

definition evidence_at :: "nat \<Rightarrow> review_cycle \<Rightarrow> verification_evidence list" where
  "evidence_at attempts c = (if attempts = 0 then cy_before c else cy_after c)"

definition reviewable ::
    "'w review_env \<Rightarrow> coordination_request \<Rightarrow> captured_diff \<Rightarrow> nat \<Rightarrow> review_cycle \<Rightarrow> bool" where
  "reviewable env req captured attempts c \<longleftrightarrow>
     steady req c \<and> length (cy_remediation_attempts c) \<le> attempts
     \<and> attempts \<le> wl_max_remediation_attempts (cr_limits req)
     \<and> candidate_ready env req captured (evidence_at attempts c) c"

lemma reviewableI:
  assumes "steady req c" and "length (cy_remediation_attempts c) \<le> attempts"
    and "attempts \<le> wl_max_remediation_attempts (cr_limits req)"
    and "scope_accepted env req captured c" and "verified env req captured (evidence_at attempts c)"
    and "\<not> required_failed (evidence_at attempts c)" and "set (evidence_at attempts c) \<subseteq> set (cy_history c)"
  shows "reviewable env req captured attempts c"
  using assms by (simp add: reviewable_def candidate_ready_def)

lemma wp_check_rounds:
  assumes "steady req c" and "length (cy_remediation_attempts c) \<le> attempts"
    and "attempts + n = wl_max_remediation_attempts (cr_limits req)"
    and "\<And>captured' attempts' c'. reviewable env req captured' attempts' c' \<Longrightarrow> cy_attempt c' = cy_attempt c
        \<Longrightarrow> Q (captured', attempts') c'"
  shows "ends env req (check_rounds env req n captured attempts failing) Q c"
  using assms
proof (induction n arbitrary: c captured attempts failing)
  case 0
  then show ?case by (auto intro!: wp_rules)
next
  case (Suc n)
  have again: "ends env req (check_rounds env req n captured (Suc attempts) failing) Q c'"
    if "steady req c'" "cy_attempt c' = cy_attempt c" "length (cy_remediation_attempts c') \<le> Suc attempts"
    for c' captured failing
    using Suc.IH [OF that(1,3)] Suc.prems(3,4) that(2) by simp
  show ?case
    unfolding check_rounds.simps
    by (intro wp_bind wp_remediation_attempt wp_option wp_recheck wp_the_cycle wp_if wp_give)
      (use Suc.prems in \<open>auto intro!: again Suc.prems(4) reviewableI
          simp: same_course_def same_attempts_def evidence_at_def\<close>)
qed

lemma wp_repair_checks:
  assumes "steady req c" and "cy_remediation_attempts c = []" and "scope_accepted env req captured c"
    and "verified env req captured (cy_before c)" and "set (cy_before c) \<subseteq> set (cy_history c)"
    and "\<And>captured' attempts' c'. reviewable env req captured' attempts' c' \<Longrightarrow> cy_attempt c' = cy_attempt c
        \<Longrightarrow> Q (captured', attempts') c'"
  shows "ends env req (repair_checks env req captured) Q c"
  unfolding repair_checks_def
  by (intro wp_rules wp_check_rounds)
    (use assms in \<open>auto intro!: assms(6) reviewableI simp: evidence_at_def\<close>)

section \<open>Review\<close>

text \<open>Being reviewable looks only at the candidate's scope, evidence and remediations.\<close>

lemma reviewable_keep:
  assumes "reviewable env req captured attempts c" and "steady req c'"
    and "cy_scope_evaluations c' = cy_scope_evaluations c" "cy_tier c' = cy_tier c"
    and "cy_before c' = cy_before c" "cy_after c' = cy_after c" "cy_history c' = cy_history c"
    and "cy_remediation_attempts c' = cy_remediation_attempts c"
  shows "reviewable env req captured attempts c'"
proof -
  have "evidence_at attempts c' = evidence_at attempts c" using assms by (simp add: evidence_at_def)
  with assms show ?thesis by (simp add: reviewable_def candidate_ready_def scope_accepted_def)
qed

lemma reviewable_steady: "reviewable env req captured attempts c \<Longrightarrow> steady req c"
  by (simp add: reviewable_def)

lemma wp_choose_reviewer:
  assumes "reviewable env req captured attempts c"
    and "\<And>reviewer c'. reviewable env req captured attempts c' \<Longrightarrow> cy_attempt c' = cy_attempt c
        \<Longrightarrow> cy_independence c' \<noteq> None \<Longrightarrow> Q reviewer c'"
  shows "ends env req (choose_reviewer env req) Q c"
  unfolding choose_reviewer_def Let_def
proof (intro wp_bind wp_the_cycle wp_if wp_andthen wp_update wp_option wp_give wp_stop_any)
  fix at
  assume "map_option ts_tier (cy_tier c) = Some ChecksOnly"
  then show "settled env req (record_stop CleanReview at (c\<lparr>cy_disposition := ReadyForHumanApproval\<rparr>))"
    using assms(1) by (intro settled_clean) (auto simp: reviewable_def)
next
  fix i
  show "Q (reviewer_for req (cy_tier c)) (c\<lparr>cy_independence := Some i\<rparr>)"
    by (intro assms(2) reviewable_keep [OF assms(1)]) (simp_all add: reviewable_steady [OF assms(1)])
qed (use reviewable_steady [OF assms(1)] in \<open>auto intro: settled_stop\<close>)

lemma build_review_request_diff:
  "build_review_request codec raw = Some (Inr rq) \<Longrightarrow> rq_diff rq = cd_diff (pi_captured raw)"
  by (drule build_review_request_facts)
    (auto simp: candidate_request_def request_with_manifest_def rbind_Inr_iff sort_input_def)

lemma wp_prepare_review:
  assumes c: "reviewable env req captured attempts c"
    and less: "cy_attempt c < wl_max_review_attempts (cr_limits req)"
    and Q: "\<And>package c'. reviewable env req captured attempts c' \<Longrightarrow> cy_attempt c' = Suc (cy_attempt c)
        \<Longrightarrow> length (cy_review_attempts c') < cy_attempt c' \<Longrightarrow> cy_state c' = AwaitingReview
        \<Longrightarrow> cy_independence c' = cy_independence c \<Longrightarrow> rq_diff package = cd_diff captured \<Longrightarrow> Q package c'"
  shows "ends env req (prepare_review env req captured attempts reviewer prior) Q c"
proof -
  have st: "steady req c" by (rule reviewable_steady [OF c])
  have next_st: "steady req (c\<lparr>cy_attempt := Suc (cy_attempt c), cy_state := AwaitingReview\<rparr>)"
    and len: "length (cy_review_attempts c) \<le> cy_attempt c"
    using st less by (auto simp: steady_def)
  show ?thesis
    unfolding prepare_review_def package_or_stop_def
    by (intro wp_rules)
      (use st next_st len in \<open>auto intro!: Q reviewable_keep [OF c] dest!: build_review_request_diff
          simp: package_input_of_def\<close>)
qed

lemma wp_retry_or_stop:
  assumes c: "reviewable env req captured attempts c"
    and len: "length (cy_review_attempts c) < cy_attempt c" and reason: "reason \<noteq> CleanReview"
    and Q: "\<And>c'. reviewable env req captured attempts c' \<Longrightarrow> cy_attempt c' = cy_attempt c
        \<Longrightarrow> cy_independence c' = cy_independence c
        \<Longrightarrow> cy_attempt c' < wl_max_review_attempts (cr_limits req) \<Longrightarrow> Q None c'"
  shows "ends env req (retry_or_stop env req stage reason) Q c"
proof -
  have st: "steady req c" by (rule reviewable_steady [OF c])
  have st': "steady req (c\<lparr>cy_usage := u, cy_duration_ms := d,
      cy_review_attempts := cy_review_attempts c @ [s]\<rparr>)" for u d s
    using st len by (auto simp: steady_def)
  show ?thesis
    unfolding retry_or_stop_def
    by (intro wp_rules) (use st st' reason in \<open>auto intro!: Q reviewable_keep [OF c]\<close>)
qed

lemma settled_park:
  "steady req c \<Longrightarrow> cy_state c = AwaitingReview \<Longrightarrow> 0 < cy_attempt c
     \<Longrightarrow> settled env req (c\<lparr>cy_batch_pending := True\<rparr>)"
  by (auto simp: settled_def steady_def bounded_def parked_def)

lemma wp_ask_reviewer:
  assumes c: "reviewable env req captured attempts c"
    and state: "cy_state c = AwaitingReview" and len: "length (cy_review_attempts c) < cy_attempt c"
    and again: "\<And>c'. reviewable env req captured attempts c' \<Longrightarrow> cy_attempt c' = cy_attempt c
        \<Longrightarrow> cy_independence c' = cy_independence c
        \<Longrightarrow> cy_attempt c' < wl_max_review_attempts (cr_limits req) \<Longrightarrow> Q None c'"
    and answer: "\<And>reported result. apply_and_validate (env_policy env) package reported = Inr result
        \<Longrightarrow> Q (Some result) c"
  shows "ends env req (ask_reviewer env req package) Q c"
proof -
  have st: "steady req c" by (rule reviewable_steady [OF c])
  have park: "ends env req (park env) Q c"
    unfolding park_def
    by (intro wp_rules) (use st state len in \<open>auto intro: settled_park\<close>)
  have answered: "ends env req (review_answer env req package started timer r) Q c" for started timer r
  proof (cases r)
    case (Inl e)
    then show ?thesis
      by (cases e; simp add: review_answer_def)
        (intro wp_rules wp_retry_or_stop [OF c len] park; auto intro: again)+
  next
    case (Inr reported)
    then show ?thesis
      by (simp add: review_answer_def)
        (intro wp_rules wp_retry_or_stop [OF c len]; auto intro: again answer)
  qed
  show ?thesis
    unfolding ask_reviewer_def by (intro wp_rules answered)
qed

lemma budget_violation_updates [simp]:
  "budget_violation (c\<lparr>cy_reviewer := ro\<rparr>) l = budget_violation c l"
  "budget_violation (c\<lparr>cy_state := cs\<rparr>) l = budget_violation c l"
  "budget_violation (c\<lparr>cy_review_result := rr\<rparr>) l = budget_violation c l"
  by (simp_all add: budget_violation_def)

lemma wp_accept_review:
  assumes c: "reviewable env req captured attempts c" and len: "length (cy_review_attempts c) < cy_attempt c"
    and Q: "\<And>c'. reviewable env req captured attempts c' \<Longrightarrow> cy_attempt c' = cy_attempt c
        \<Longrightarrow> cy_independence c' = cy_independence c \<Longrightarrow> cy_review_result c' = Some result
        \<Longrightarrow> budget_violation c' (cr_limits req) = None \<Longrightarrow> Q () c'"
  shows "ends env req (accept_review env req result) Q c"
proof -
  have st: "steady req c" by (rule reviewable_steady [OF c])
  have st': "steady req (completed_review result response c)" for response
    using st len by (auto simp: steady_def completed_review_def)
  have keep: "reviewable env req captured attempts c'"
    if "steady req c'" "cy_scope_evaluations c' = cy_scope_evaluations (completed_review result response c)"
      "cy_tier c' = cy_tier (completed_review result response c)"
      "cy_before c' = cy_before (completed_review result response c)"
      "cy_after c' = cy_after (completed_review result response c)"
      "cy_history c' = cy_history (completed_review result response c)"
      "cy_remediation_attempts c' = cy_remediation_attempts (completed_review result response c)"
    for c' response
    by (rule reviewable_keep [OF c]) (use that in \<open>simp_all add: completed_review_def\<close>)
  show ?thesis
    unfolding accept_review_def
    by (intro wp_rules; (intro Q keep)?; simp add: st') (simp_all add: completed_review_def)
qed

lemma dedup_from_Nil: "dedup_from key seen fs = [] \<longleftrightarrow> key ` set fs \<subseteq> seen"
  by (induction fs arbitrary: seen) auto

lemma blocking_findings_Nil:
  "blocking_findings env req c fs = [] \<longleftrightarrow>
     (\<forall>f \<in> set fs. stops_landing f \<longrightarrow> scope_claim_adjudicated
        (adjudicated_paths (scope_substance env) (cr_approved_scope_findings req) c) f)"
  by (auto simp: blocking_findings_def deduplicate_findings_def dedup_from_Nil stops_landing_def Let_def)

lemma wp_judge:
  assumes c: "reviewable env req captured attempts c"
    and result: "rq_diff package = cd_diff captured"
      "apply_and_validate (env_policy env) package reported = Inr result" "cy_review_result c = Some result"
      "cy_independence c \<noteq> None" "budget_violation c (cr_limits req) = None"
    and Q: "\<And>blocking. Q blocking c"
  shows "ends env req (judge env req result) Q c"
  unfolding judge_def Let_def
proof (intro wp_bind wp_the_cycle wp_if wp_andthen wp_update wp_give wp_stop_any Q)
  fix at
  assume "\<not> findings_conflict (env_identity_json env) (rr_findings result)"
    and "blocking_findings env req c (rr_findings result) = []"
  then have "objections_settled env req result c"
    by (simp add: objections_settled_def blocking_findings_Nil)
  then have "reviewed env req captured (evidence_at attempts c) c"
    using result unfolding reviewed_def by blast
  then show "settled env req (record_stop CleanReview at (c\<lparr>cy_disposition := ReadyForHumanApproval\<rparr>))"
    using c by (intro settled_clean) (auto simp: reviewable_def)
qed (use reviewable_steady [OF c] in \<open>auto intro: settled_stop\<close>)

lemma wp_remediation_rounds:
  assumes "steady req c" and "length (cy_remediation_attempts c) \<le> attempts"
    and "attempts + n = wl_max_remediation_attempts (cr_limits req)"
    and "\<And>result attempts' c'. steady req c' \<Longrightarrow> cy_attempt c' = cy_attempt c \<Longrightarrow> 0 < attempts'
        \<Longrightarrow> length (cy_remediation_attempts c') \<le> attempts'
        \<Longrightarrow> attempts' \<le> wl_max_remediation_attempts (cr_limits req) \<Longrightarrow> Q (result, attempts') c'"
  shows "ends env req (remediation_rounds env req n captured attempts blocking) Q c"
  using assms
proof (induction n arbitrary: c attempts)
  case 0
  then show ?case by (auto intro!: wp_rules)
next
  case (Suc n)
  have again: "ends env req (remediation_rounds env req n captured (Suc attempts) blocking) Q c'"
    if "steady req c'" "cy_attempt c' = cy_attempt c" "length (cy_remediation_attempts c') \<le> Suc attempts" for c'
    using Suc.IH [OF that(1,3)] Suc.prems(3,4) that(2) by simp
  show ?case
    unfolding remediation_rounds.simps
    by (intro wp_bind wp_remediation_attempt wp_option wp_give)
      (use Suc.prems in \<open>auto intro!: again Suc.prems(4) simp: same_course_def\<close>)
qed

lemma wp_reexamine [wp_rules]:
  assumes "steady req c"
    and "\<And>captured reviewer c'. steady req c' \<Longrightarrow> same_attempts c c' \<Longrightarrow> scope_accepted env req captured c'
        \<Longrightarrow> cy_independence c' \<noteq> None \<Longrightarrow> Q (captured, reviewer) c'"
  shows "ends env req (reexamine env req count_now result) Q c"
  unfolding reexamine_def Let_def
  by (intro wp_rules; simp add: record_scope_def record_remediation_def assms(1))
    (auto intro!: assms(2) intro: scope_acceptedI simp: same_attempts_def assms(1))

lemma wp_reverify [wp_rules]:
  assumes "steady req c"
    and "\<And>c'. steady req c' \<Longrightarrow> same_course c c' \<Longrightarrow> verified env req captured (cy_after c')
        \<Longrightarrow> \<not> required_failed (cy_after c') \<Longrightarrow> set (cy_after c') \<subseteq> set (cy_history c') \<Longrightarrow> Q () c'"
  shows "ends env req (reverify env req captured blocking) Q c"
  unfolding reverify_def by (intro wp_rules) (use assms in auto)

text \<open>The state between two turns of the review loop.\<close>

definition review_ready ::
    "'w review_env \<Rightarrow> coordination_request \<Rightarrow> captured_diff \<Rightarrow> nat \<Rightarrow> nat \<Rightarrow> review_cycle \<Rightarrow> bool" where
  "review_ready env req captured attempts reviews c \<longleftrightarrow>
     reviewable env req captured attempts c \<and> cy_attempt c = reviews \<and> cy_independence c \<noteq> None"

lemma wp_review_once:
  assumes c: "review_ready env req captured attempts reviews c"
    and less: "reviews < wl_max_review_attempts (cr_limits req)"
    and Q: "\<And>answer c'. review_ready env req captured attempts (Suc reviews) c' \<Longrightarrow> Q answer c'"
  shows "ends env req (review_once env req captured attempts reviewer prior) Q c"
  unfolding review_once_def
proof (intro wp_bind wp_prepare_review)
  show "reviewable env req captured attempts c" "cy_attempt c < wl_max_review_attempts (cr_limits req)"
    using c less by (simp_all add: review_ready_def)
next
  fix package :: review_request and c1
  assume c1: "reviewable env req captured attempts c1" "cy_attempt c1 = Suc (cy_attempt c)"
    "length (cy_review_attempts c1) < cy_attempt c1" "cy_state c1 = AwaitingReview"
    "cy_independence c1 = cy_independence c" "rq_diff package = cd_diff captured"
  have turn: "Q answer c2" if "reviewable env req captured attempts c2" "cy_attempt c2 = cy_attempt c1"
      "cy_independence c2 = cy_independence c1" for answer c2
    using that c c1 by (intro Q) (simp add: review_ready_def)
  show "ends env req (ask_reviewer env req package)
      (\<lambda>answer. ends env req (case answer of None \<Rightarrow> give None
        | Some result \<Rightarrow> andthen (accept_review env req result)
            (bind (judge env req result) (\<lambda>blocking. give (Some (result, blocking))))) Q) c1"
  proof (rule wp_ask_reviewer [OF c1(1,4,3)])
    fix reported result
    assume valid: "apply_and_validate (env_policy env) package reported = Inr result"
    have "ends env req (andthen (accept_review env req result)
        (bind (judge env req result) (\<lambda>blocking. give (Some (result, blocking))))) Q c1"
    proof (intro wp_andthen wp_accept_review [OF c1(1,3)] wp_bind)
      fix c2
      assume c2: "reviewable env req captured attempts c2" "cy_attempt c2 = cy_attempt c1"
        "cy_independence c2 = cy_independence c1" "cy_review_result c2 = Some result"
        "budget_violation c2 (cr_limits req) = None"
      then have "cy_independence c2 \<noteq> None" using c c1 by (simp add: review_ready_def)
      then show "ends env req (judge env req result) (\<lambda>blocking. ends env req (give (Some (result, blocking))) Q) c2"
        by (intro wp_judge [OF c2(1) c1(6) valid c2(4) _ c2(5)] wp_give turn c2(1-3))
    qed
    then show "ends env req (case Some result of None \<Rightarrow> give None
        | Some result \<Rightarrow> andthen (accept_review env req result)
            (bind (judge env req result) (\<lambda>blocking. give (Some (result, blocking))))) Q c1"
      by simp
  qed (auto intro!: wp_give turn)
qed

lemma review_ready_again:
  assumes "steady req c'" and "same_course c1 c'" and "same_attempts c0 c1"
    and "scope_accepted env req captured c1" and "cy_independence c1 \<noteq> None"
    and "verified env req captured (cy_after c')" and "\<not> required_failed (cy_after c')"
    and "set (cy_after c') \<subseteq> set (cy_history c')"
    and "cy_attempt c0 = reviews" and "0 < attempts" and "length (cy_remediation_attempts c0) \<le> attempts"
    and "attempts \<le> wl_max_remediation_attempts (cr_limits req)"
  shows "review_ready env req captured attempts reviews c'"
  unfolding review_ready_def
proof (intro conjI reviewableI)
  show "scope_accepted env req captured c'" using assms(2,4) by (simp add: same_course_scope)
qed (use assms in \<open>auto simp: same_course_def same_attempts_def evidence_at_def\<close>)

lemma wp_remedy:
  assumes c: "review_ready env req captured attempts reviews c"
    and Q: "\<And>captured' attempts' reviewer' c'. review_ready env req captured' attempts' reviews c'
        \<Longrightarrow> Q (captured', attempts', reviewer') c'"
  shows "ends env req (remedy env req captured attempts blocking) Q c"
  unfolding remedy_def
proof (intro wp_bind wp_remediation_rounds wp_prod wp_reexamine wp_andthen wp_reverify wp_give)
  show "steady req c" "length (cy_remediation_attempts c) \<le> attempts"
    "attempts + (wl_max_remediation_attempts (cr_limits req) - attempts)
       = wl_max_remediation_attempts (cr_limits req)"
    using c by (auto simp: review_ready_def reviewable_def)
qed (use c in \<open>auto intro!: Q intro: review_ready_again simp: review_ready_def [of env req captured attempts reviews c]\<close>)

lemma wp_review_rounds:
  assumes "review_ready env req captured attempts reviews c"
    and "reviews + n = wl_max_review_attempts (cr_limits req)"
  shows "ends env req (review_rounds env req n captured attempts reviewer prior) (\<lambda>_ _. False) c"
  using assms
proof (induction n arbitrary: c captured attempts reviewer prior reviews)
  case 0
  then show ?case by (auto intro!: wp_rules simp: review_ready_def dest: reviewable_steady)
next
  case (Suc n)
  show ?case
    unfolding review_rounds.simps
    by (intro wp_bind wp_review_once [OF Suc.prems(1)] wp_option wp_prod wp_remedy Suc.IH)
      (use Suc.prems in auto)
qed

section \<open>The run\<close>

lemma wp_record_snapshot [wp_rules]:
  "(\<And>r. Q () (c\<lparr>cy_scope_snapshot := r\<rparr>)) \<Longrightarrow> wp (record_snapshot env req) Q R c"
  unfolding record_snapshot_def by (intro wp_rules)

lemma wp_collect_candidate [wp_rules]:
  assumes "steady req c"
    and "\<And>captured c'. steady req c' \<Longrightarrow> same_attempts c c' \<Longrightarrow> scope_accepted env req captured c'
        \<Longrightarrow> cy_before c' = cy_before c \<Longrightarrow> Q captured c'"
  shows "ends env req (collect_candidate env req) Q c"
  unfolding collect_candidate_def
  by (intro wp_rules; simp add: record_scope_def assms(1))
    (auto intro!: assms(2) intro: scope_acceptedI simp: same_attempts_def assms(1))

lemma steady_initial: "steady req (initial_cycle req started waivers)"
  by (simp add: steady_def initial_cycle_def)

lemma wp_run_cycle:
  "ends env req (run_cycle env req) (\<lambda>_ _. False) (initial_cycle req started waivers)"
proof -
  let ?c = "initial_cycle req started waivers"
  have init: "cy_before ?c = []" "cy_remediation_attempts ?c = []" "cy_attempt ?c = 0"
    by (simp_all add: initial_cycle_def)
  show ?thesis
    unfolding run_cycle_def
    by (intro wp_bind wp_andthen wp_prod wp_record_snapshot wp_collect_candidate wp_verify_before
        wp_repair_checks wp_choose_reviewer wp_review_rounds)
      (use init in \<open>auto simp: steady_initial same_attempts_def same_course_def review_ready_def
          intro: scope_accepted_keep\<close>)
qed

lemma run_settled:
  assumes "run env req w = Some (Inr c, w')"
  shows "settled env req c"
proof -
  obtain started w1 loaded w2 where now: "env_now env w = (started, w1)"
    and loaded: "env_load_cycle env (cr_cycle_id req) w1 = (loaded, w2)" by fastforce
  let ?s = "\<lparr>st_world = w2, st_cycle = initial_cycle req started (carried_waivers loaded)\<rparr>"
  have "case run_cycle env req ?s of Next a t \<Rightarrow> False
      | Finished r w' \<Rightarrow> (case r of Inl _ \<Rightarrow> True | Inr c' \<Rightarrow> settled env req c') | Diverges \<Rightarrow> True"
    using wp_run_cycle unfolding wp_def by (rule spec)
  then show ?thesis
    using assms now loaded by (auto simp: run_def split: sum.splits outcome.splits)
qed

section \<open>How a run ends\<close>

text \<open>\<open>closes d E m\<close>: when \<open>m\<close> ends the run its result is in \<open>E\<close>; it diverges only if \<open>d\<close>.\<close>

definition closes :: "bool \<Rightarrow> (run_result \<Rightarrow> 'w \<Rightarrow> bool) \<Rightarrow> ('w, 'a) proc \<Rightarrow> bool" where
  "closes d E m \<longleftrightarrow> (\<forall>s. case m s of Next _ _ \<Rightarrow> True | Finished r w \<Rightarrow> E r w | Diverges \<Rightarrow> d)"

text \<open>A returned cycle is the last one saved.\<close>

definition saved_last :: "'w review_env \<Rightarrow> run_result \<Rightarrow> 'w \<Rightarrow> bool" where
  "saved_last env r w \<longleftrightarrow> (case r of Inl _ \<Rightarrow> True | Inr c \<Rightarrow> \<exists>w0. env_save_cycle env c w0 = (Inr (), w))"

named_theorems closes_rules "how the pieces of the coordinator end a run"

lemma closes_bind [closes_rules]:
  assumes "closes d E m" and "\<And>a. closes d E (f a)"
  shows "closes d E (bind m f)"
  unfolding closes_def
proof
  fix s
  have m: "case m s of Next _ _ \<Rightarrow> True | Finished r w \<Rightarrow> E r w | Diverges \<Rightarrow> d"
    using assms(1) unfolding closes_def by (rule spec)
  show "case bind m f s of Next _ _ \<Rightarrow> True | Finished r w \<Rightarrow> E r w | Diverges \<Rightarrow> d"
  proof (cases "m s")
    case (Next a t)
    have "case f a t of Next _ _ \<Rightarrow> True | Finished r w \<Rightarrow> E r w | Diverges \<Rightarrow> d"
      using assms(2) unfolding closes_def by (rule spec)
    then show ?thesis by (simp add: bind_def Next)
  qed (use m in \<open>simp_all add: bind_def\<close>)
qed

lemma closes_andthen [closes_rules]: "closes d E m \<Longrightarrow> closes d E k \<Longrightarrow> closes d E (andthen m k)"
  by (simp add: andthen_def closes_bind)

lemma closes_simple [closes_rules]:
  "closes d E (give a)" "closes d E the_cycle" "closes d E (update f)" "closes d E (effect g)"
  "closes d (saved_last env) (raise e)"
  by (auto simp: closes_def give_def the_cycle_def update_def effect_def raise_def saved_last_def
      split: prod.splits)

lemma closes_if [closes_rules]: "closes d E m \<Longrightarrow> closes d E k \<Longrightarrow> closes d E (if b then m else k)"
  by simp

lemma closes_sum [closes_rules]:
  "(\<And>e. closes d E (f e)) \<Longrightarrow> (\<And>a. closes d E (g a))
     \<Longrightarrow> closes d E (case r of Inl e \<Rightarrow> f e | Inr a \<Rightarrow> g a)"
  by (cases r) auto

lemma closes_option [closes_rules]:
  "closes d E m \<Longrightarrow> (\<And>a. closes d E (g a)) \<Longrightarrow> closes d E (case r of None \<Rightarrow> m | Some a \<Rightarrow> g a)"
  by (cases r) auto

lemma closes_review_error [closes_rules]:
  "(\<And>m. closes d E (f m)) \<Longrightarrow> (\<And>worker reason. closes d E (g worker reason)) \<Longrightarrow> (\<And>b. closes d E (h b))
     \<Longrightarrow> closes d E (case e of Review_Agent_Failed m \<Rightarrow> f m
           | CapabilityIncompatible worker reason \<Rightarrow> g worker reason | Parked b \<Rightarrow> h b)"
  by (cases e) auto

lemma closes_prod [closes_rules]: "(\<And>a b. closes d E (f a b)) \<Longrightarrow> closes d E (case p of (a, b) \<Rightarrow> f a b)"
  by (cases p) auto

lemma closes_unwrap [closes_rules]: "closes d (saved_last env) (unwrap f r)"
  unfolding unwrap_def by (intro closes_rules)

lemma closes_attempt [closes_rules]: "closes d (saved_last env) (attempt f g)"
  unfolding attempt_def by (intro closes_rules)

lemma closes_save [closes_rules]:
  "closes d (saved_last env) (save_cycle env')" "closes d (saved_last env) (save_artifact env' kind bytes)"
  "closes d (saved_last env) (now env')" "closes d (saved_last env) (instant env')"
  unfolding save_cycle_def save_artifact_def now_def instant_def by (intro closes_rules)+

lemma closes_save_return: "closes d (saved_last env) (andthen (save_cycle env) return_cycle)"
  by (auto simp: closes_def andthen_def bind_def save_cycle_def the_cycle_def attempt_def effect_def
      unwrap_def raise_def give_def return_cycle_def saved_last_def split: prod.splits sum.splits)

lemma closes_stop [closes_rules]: "closes d (saved_last env) (stop env reason)"
  unfolding stop_def by (intro closes_bind closes_andthen closes_rules closes_save_return)

lemma closes_stopping [closes_rules]:
  "closes d (saved_last env) (stop_with_detail env reason detail)"
  "closes d (saved_last env) (or_stop env reason r)" "closes d (saved_last env) (stop_for env why)"
  "closes d (saved_last env) (update_or_stop env reason u)"
  unfolding stop_with_detail_def or_stop_def stop_for_def update_or_stop_def by (intro closes_rules)+

lemma closes_park [closes_rules]: "closes d (saved_last env) (park env)"
  unfolding park_def by (intro closes_andthen closes_rules closes_save_return)

lemma closes_ledger [closes_rules]:
  "closes d (saved_last env) (charge_usage env u)" "closes d (saved_last env) (charge_duration env t)"
  "closes d (saved_last env) (check_budget env l)" "closes d (saved_last env) (reserve_or_stop env l act)"
  "closes d (saved_last env) (failed_stage env sid kind started timer out)"
  unfolding charge_usage_def charge_duration_def check_budget_def reserve_or_stop_def failed_stage_def Let_def
  by (intro closes_rules)+

lemma closes_verify_all [closes_rules]: "closes d (saved_last env) (verify_all env req captured rec checks)"
  by (induction checks) (simp_all add: verify_one_def, (intro closes_rules; assumption)+)

definition packages_end :: "'w review_env \<Rightarrow> bool" where
  "packages_end env \<longleftrightarrow> (\<forall>inp. build_review_request (env_codec env) inp \<noteq> None)"

lemma closes_package_or_stop:
  "d \<or> r \<noteq> None \<Longrightarrow> closes d (saved_last env) (package_or_stop env r)"
  by (cases r) (simp_all add: package_or_stop_def closes_stopping, simp add: closes_def)

lemma closes_candidate [closes_rules]:
  "closes d (saved_last env) (examine env req phase)" "closes d (saved_last env) (scope_gate env req evaluation)"
  unfolding examine_def capture_or_stop_def scope_evidence_or_stop_def scope_gate_def Let_def
  by (intro closes_rules)+

lemma closes_verify [closes_rules]:
  "closes d (saved_last env) (verify_before env req captured)"
  "closes d (saved_last env) (verify_after env req captured cited unsuccessful)"
  unfolding verify_before_def verify_after_def by (intro closes_rules)+

lemma closes_remediation_attempt [closes_rules]:
  "closes d (saved_last env) (remediation_attempt env req captured n blocking_of failures)"
  unfolding remediation_attempt_def remediation_answer_def charge_failed_stage_def Let_def
  by (intro closes_rules)

lemma closes_rechecks [closes_rules]:
  "closes d (saved_last env) (charge_remediation env req result)"
  "closes d (saved_last env) (recheck env req n result failing)"
  "closes d (saved_last env) (reexamine env req n result)"
  "closes d (saved_last env) (reverify env req captured blocking)"
  unfolding recheck_def reexamine_def reverify_def charge_remediation_def Let_def
  by (intro closes_rules)+

lemma closes_check_rounds [closes_rules]:
  "closes d (saved_last env) (check_rounds env req n captured attempts failing)"
  by (induction n arbitrary: captured attempts failing)
    (simp add: closes_rules, simp only: check_rounds.simps, intro closes_rules)

lemma closes_remediation_rounds [closes_rules]:
  "closes d (saved_last env) (remediation_rounds env req n captured attempts blocking)"
  by (induction n arbitrary: attempts)
    (simp add: closes_rules, simp only: remediation_rounds.simps, intro closes_rules)

lemma closes_review_once [closes_rules]:
  assumes "d \<or> packages_end env"
  shows "closes d (saved_last env) (review_once env req captured attempts reviewer prior)"
proof -
  have package: "closes d (saved_last env) (package_or_stop env (build_review_request (env_codec env) inp))" for inp
    using assms by (intro closes_package_or_stop) (auto simp: packages_end_def)
  show ?thesis
    unfolding review_once_def prepare_review_def ask_reviewer_def review_answer_def retry_or_stop_def
      charge_failed_stage_def accept_review_def judge_def Let_def
    by (intro closes_rules package)
qed

lemma closes_run_cycle:
  assumes "d \<or> packages_end env"
  shows "closes d (saved_last env) (run_cycle env req)"
proof -
  have rounds: "closes d (saved_last env) (review_rounds env req n captured attempts reviewer prior)"
    for n captured attempts reviewer prior
  proof (induction n arbitrary: captured attempts reviewer prior)
    case (Suc n)
    show ?case
      unfolding review_rounds.simps remedy_def
      by (intro closes_rules closes_review_once [OF assms] Suc.IH)
  qed (simp add: closes_rules)
  show ?thesis
    unfolding run_cycle_def record_snapshot_def collect_candidate_def repair_checks_def choose_reviewer_def
      Let_def
    by (intro closes_rules rounds)
qed

lemma run_cycle_ends:
  "run_cycle env req \<lparr>st_world = w, st_cycle = initial_cycle req started waivers\<rparr> \<noteq> Next a t"
proof
  assume goes_on: "run_cycle env req \<lparr>st_world = w, st_cycle = initial_cycle req started waivers\<rparr> = Next a t"
  have "case run_cycle env req \<lparr>st_world = w, st_cycle = initial_cycle req started waivers\<rparr> of
      Next a t \<Rightarrow> False
    | Finished r w' \<Rightarrow> (case r of Inl _ \<Rightarrow> True | Inr c' \<Rightarrow> settled env req c') | Diverges \<Rightarrow> True"
    using wp_run_cycle unfolding wp_def by (rule spec)
  with goes_on show False by simp
qed

lemma run_saved:
  assumes "run env req w = Some (Inr c, w')"
  shows "\<exists>w0. env_save_cycle env c w0 = (Inr (), w')"
proof -
  obtain s where "run_cycle env req s = Finished (Inr c) w'"
    using assms run_cycle_ends by (fastforce simp: run_def split: sum.splits prod.splits outcome.splits)
  then have "saved_last env (Inr c) w'"
    using closes_run_cycle [of True env req] by (auto simp: closes_def split: outcome.splits)
  then show ?thesis by (simp add: saved_last_def)
qed

lemma run_total:
  assumes "grows_with_manifest (env_codec env)" and "fixed_digest (env_codec env)"
  shows "\<exists>r w'. run env req w = Some (r, w')"
proof -
  have "packages_end env"
    unfolding packages_end_def using build_review_request_total [OF assms] by blast
  then have "run_cycle env req s \<noteq> Diverges" for s
    using closes_run_cycle [of False env req] by (force simp: closes_def split: outcome.splits)
  then show ?thesis
    by (auto simp: run_def Let_def split: sum.splits prod.splits outcome.splits)
qed

end
