(* ===== verification/Review_Guarantees.thy ===== *)
theory Review_Guarantees
  imports Review_Safety
begin

text \<open>
  The properties of \<open>ReviewCoordinator::run\<close>, read off \<open>Review_Safety\<close>, and a concrete run that shows
  their hypotheses can hold: one modified source file, one required check that passes, and an
  independent reviewer that reports no finding.
\<close>

section \<open>What a clean review means\<close>

context verification_runner
begin

text \<open>Among evidence without a failed required check, the answer to a required check has passed.\<close>

lemma answered_passed:
  assumes "verify check tested w = (Inr e, w')" and "vc_required check" and "e \<in> set v" and "\<not> required_failed v"
  shows "ve_check_id e = vc_check_id check \<and> ve_tested_identity e = tested \<and> ve_status e = Passed"
  using assms by (intro required_passed) (auto simp: required_failed_def list_ex_iff)

end

lemma clean_facts:
  assumes "run env req w = Some (Inr c, w')" and "CleanReview \<in> set (cy_stop_reasons c)"
  shows "clean env req c"
  using run_settled [OF assms(1)] assms(2) by (auto simp: settled_def parked_def stopped_for_def)

lemma scope_stop_reason_None:
  "scope_stop_reason d absorbed = None \<longleftrightarrow> d = Contained \<or> absorbed"
  by (cases d) (simp_all add: scope_stop_reason_def)

text \<open>C3: A run that ends with a clean review has earned it. Its last scope evaluation is that of a diff
  that was captured, and is contained or covered by durable approvals; every required check of the plan
  passed on exactly that diff; and unless the tier asks for checks only, an independent reviewer
  returned a result that validates against a package of that diff, the ledger is within every limit,
  and the only objections left are scope claims that the scope policy had already decided.\<close>

theorem clean_review_sound:
  assumes "run env req w = Some (Inr c, w')" and "CleanReview \<in> set (cy_stop_reasons c)"
    and "verification_runner (env_verify env)"
  shows "\<exists>captured evidence phase evaluation.
       was_captured env req captured evidence
     \<and> scope_of req captured evidence phase = (evaluation, last (cy_scope_evaluations c))
     \<and> (se_disposition evaluation = Contained
        \<or> human_review_absorbed (scope_substance env) evaluation (cr_approved_scope_findings req))
     \<and> (\<forall>k \<in> set (vp_checks (cr_verification_plan req)). vc_required k
          \<longrightarrow> (\<exists>e \<in> set (cy_history c). ve_check_id e = vc_check_id k \<and> ve_status e = Passed
                \<and> ve_tested_identity e = er_content_hash (cd_diff captured)))
     \<and> (map_option ts_tier (cy_tier c) = Some ChecksOnly
        \<or> (\<exists>package reported result.
             rq_diff package = cd_diff captured
             \<and> apply_and_validate (env_policy env) package reported = Inr result
             \<and> cy_review_result c = Some result \<and> objections_settled env req result c
             \<and> cy_independence c \<noteq> None \<and> budget_violation c (cr_limits req) = None))"
proof -
  from clean_facts [OF assms(1,2)] obtain captured v where ready: "candidate_ready env req captured v c"
    and review: "map_option ts_tier (cy_tier c) = Some ChecksOnly \<or> reviewed env req captured v c"
    unfolding clean_def by blast
  from ready obtain evidence phase evaluation where
    cap: "was_captured env req captured evidence"
    and scope: "scope_of req captured evidence phase = (evaluation, last (cy_scope_evaluations c))"
    and allowed: "se_disposition evaluation = Contained
      \<or> human_review_absorbed (scope_substance env) evaluation (cr_approved_scope_findings req)"
    by (auto simp: candidate_ready_def scope_accepted_def scope_stop_reason_None)
  have checks: "\<forall>k \<in> set (vp_checks (cr_verification_plan req)). vc_required k
      \<longrightarrow> (\<exists>e \<in> set (cy_history c). ve_check_id e = vc_check_id k \<and> ve_status e = Passed
            \<and> ve_tested_identity e = er_content_hash (cd_diff captured))"
  proof (intro ballI impI)
    fix k
    assume k: "k \<in> set (vp_checks (cr_verification_plan req))" "vc_required k"
    from ready k obtain e u u' where "e \<in> set v" "e \<in> set (cy_history c)"
      and "env_verify env k (er_content_hash (cd_diff captured)) u = (Inr e, u')"
      and "\<not> required_failed v"
      by (fastforce simp: candidate_ready_def verified_def answers_def)
    with verification_runner.answered_passed [OF assms(3)] k
    show "\<exists>e \<in> set (cy_history c). ve_check_id e = vc_check_id k \<and> ve_status e = Passed
        \<and> ve_tested_identity e = er_content_hash (cd_diff captured)" by blast
  qed
  have outcome:  "map_option ts_tier (cy_tier c) = Some ChecksOnly
      \<or> (\<exists>package reported result.
             rq_diff package = cd_diff captured
             \<and> apply_and_validate (env_policy env) package reported = Inr result
             \<and> cy_review_result c = Some result \<and> objections_settled env req result c
             \<and> cy_independence c \<noteq> None \<and> budget_violation c (cr_limits req) = None)"
    using review unfolding reviewed_def .
  show ?thesis
    using cap scope allowed checks outcome by (intro exI conjI) assumption+
qed

section \<open>How a run ends\<close>

text \<open>C5: A run stays within its attempts, and the cycle it returns either is parked for a batch, undecided and
  with at least one attempt counted, or stopped for exactly one reason: completed and ready for human
  approval after a clean review, and left to a human with no approval after any other.\<close>

theorem review_run_disciplined:
  assumes "run env req w = Some (Inr c, w')"
  shows "cy_attempt c \<le> wl_max_review_attempts (cr_limits req)
     \<and> length (cy_review_attempts c) \<le> cy_attempt c
     \<and> length (cy_remediation_attempts c) \<le> wl_max_remediation_attempts (cr_limits req)
     \<and> (cy_batch_pending c \<and> cy_stop_reasons c = [] \<and> cy_ended_at c = None \<and> cy_state c = AwaitingReview
          \<and> cy_disposition c = Review_Pending \<and> 0 < cy_attempt c
        \<or> (\<exists>r. cy_stop_reasons c = [r] \<and> \<not> cy_batch_pending c \<and> cy_ended_at c \<noteq> None
            \<and> cy_state c = (if r = CleanReview then Completed else Cycle_HumanReviewRequired)
            \<and> cy_disposition c = (if r = CleanReview then ReadyForHumanApproval else Review_HumanReviewRequired)))"
  using run_settled [OF assms] unfolding settled_def bounded_def parked_def stopped_for_def by blast

text \<open>The cycle a run returns is durable: saving exactly that cycle is the last thing the run did.\<close>

lemma returned_cycle_is_saved:
  assumes "run env req w = Some (Inr c, w')"
  shows "\<exists>w0. env_save_cycle env c w0 = (Inr (), w')"
  using assms by (rule run_saved)

text \<open>C6: A run terminates: whatever git, the checks, the agents, the store and the clock answer, it returns a
  cycle or an error, provided that digests have 32 bytes and that the JSON of a request with the text of
  another digest and larger numbers in its manifest is not shorter.\<close>

theorem review_run_terminates:
  assumes "grows_with_manifest (env_codec env)" and "fixed_digest (env_codec env)"
  shows "\<exists>r w'. run env req w = Some (r, w')"
  using assms by (rule run_total)

section \<open>A concrete run\<close>

definition quiet_capture :: "string \<Rightarrow> nat \<Rightarrow> (evidence_error + captured_diff) \<times> nat" where
  "quiet_capture base w = (Inr (sample_captured\<lparr>cd_changed_files := [sample_change ''src/a.rs''], cd_bytes := ''@@ 1''\<rparr>), w)"

definition passing_process :: "verification_check \<Rightarrow> nat \<Rightarrow> process_run \<times> nat" where
  "passing_process check w = (sample_run ''ok'', Suc w)"

definition sample_verifier ::
    "verification_check \<Rightarrow> string \<Rightarrow> nat \<Rightarrow> (verification_error + verification_evidence) \<times> nat" where
  "sample_verifier =
     command_verifier id \<lparr>rn_artifact_directory = ''logs'', rn_max_log_bytes = 100\<rparr> ''/repo'' passing_process"

definition content_review :: "review_request \<Rightarrow> nat \<Rightarrow> (review_execution_error + review_result) \<times> nat" where
  "content_review package w =
     (Inr (sample_result\<lparr>rr_review_id := rq_review_id package,
        rr_reviewed_manifest_hash := pm_manifest_hash (rq_manifest package), rr_findings := []\<rparr>), Suc w)"

definition not_symlink :: "nat \<Rightarrow> string \<Rightarrow> metadata" where
  "not_symlink w path = Not_Symlink"

definition save_ok :: "review_cycle \<Rightarrow> nat \<Rightarrow> (string + unit) \<times> nat" where
  "save_ok c w = (Inr (), Suc w)"

definition artifact_ok :: "string \<Rightarrow> string \<Rightarrow> nat \<Rightarrow> (string + evidence_ref) \<times> nat" where
  "artifact_ok kind bytes w = (Inr sample_evidence_ref, Suc w)"

definition no_cycle :: "string \<Rightarrow> nat \<Rightarrow> (string + review_cycle option) \<times> nat" where
  "no_cycle cycle_id w = (Inr None, w)"

definition no_remediation :: "remediation_request \<Rightarrow> nat \<Rightarrow> (string + remediation_result) \<times> nat" where
  "no_remediation request w = (Inl ''none'', w)"

definition empty_text :: "'a \<Rightarrow> string + string" where
  "empty_text x = Inr []"

definition clock_text :: "nat \<Rightarrow> string \<times> nat" where
  "clock_text w = (''now'', w)"

definition clock_ticks :: "nat \<Rightarrow> nat \<times> nat" where
  "clock_ticks w = (w, w)"

definition no_reason :: "capability_reason \<Rightarrow> string" where
  "no_reason r = []"

definition sample_env :: "nat review_env" where
  "sample_env =
     \<lparr>env_capture = quiet_capture, env_metadata = not_symlink, env_verify = sample_verifier,
      env_reviewer = \<lparr>ra_isolation = None, ra_review = content_review\<rparr>, env_batch_reviewer = None,
      env_remediate = no_remediation, env_save_cycle = save_ok, env_save_artifact = artifact_ok,
      env_load_cycle = no_cycle, env_now = clock_text, env_instant = clock_ticks,
      env_policy = default_blocking_policy, env_codec = sample_codec, env_snapshot_json = empty_text,
      env_remediation_json = empty_text, env_remediation_result_json = empty_text,
      env_result_json = empty_text, env_scope_finding_json = empty_text, env_identity_json = empty_text,
      env_sha256 = id, env_reason_text = no_reason\<rparr>"

definition sample_limits :: workflow_limits where
  "sample_limits =
     \<lparr>wl_max_review_attempts = 2, wl_max_remediation_attempts = 1, wl_max_total_tokens = Some 100,
      wl_max_total_cost = None, wl_max_total_duration_ms = None, wl_review_reservation_tokens = Some 10,
      wl_remediation_reservation_tokens = Some 10, wl_action_reservation_cost = None,
      wl_action_reservation_duration_ms = 0\<rparr>"

definition sample_coordination :: coordination_request where
  "sample_coordination =
     \<lparr>cr_cycle_id = ''c1'', cr_repository_key = ''repo'', cr_task = sample_task,
      cr_implementation = sample_observation ''m1'' Role_Implementation,
      cr_reviewer = sample_assignment ''m2'' Role_Review, cr_standard_reviewer = None,
      cr_tier_policy = sample_tier_policy, cr_declared_risk_classes = [''security''], cr_contracts = [],
      cr_invariants = [],
      cr_verification_plan = \<lparr>vp_plan_id = ''plan'', vp_checks = [sample_check],
        vp_full_after_remediation = True\<rparr>,
      cr_package_budget = \<lparr>pb_max_bytes = 1000, pb_max_estimated_tokens = 1000\<rparr>,
      cr_limits = sample_limits, cr_allow_same_model_fallback = False,
      cr_implementation_usage = sample_usage 5, cr_implementation_duration_ms = 9,
      cr_scope_policy = sample_snapshot, cr_approved_scope_findings = {}\<rparr>"

definition sample_cycle :: review_cycle where
  "sample_cycle =
     (case run sample_env sample_coordination 0 of
        Some (Inr c, _) \<Rightarrow> c | _ \<Rightarrow> initial_cycle sample_coordination [] [])"

lemma sample_run_is_clean:
  "\<exists>w'. run sample_env sample_coordination 0 = Some (Inr sample_cycle, w')
     \<and> cy_stop_reasons sample_cycle = [CleanReview] \<and> cy_review_result sample_cycle \<noteq> None"
proof -
  have "(case run sample_env sample_coordination 0 of
      Some (Inr c, _) \<Rightarrow> cy_stop_reasons c = [CleanReview] \<and> cy_review_result c \<noteq> None
    | _ \<Rightarrow> False)"
    by code_simp
  then show ?thesis
    by (auto simp: sample_cycle_def split: option.splits prod.splits sum.splits)
qed

lemma sample_env_verifier: "verification_runner (env_verify sample_env)"
  unfolding sample_env_def sample_verifier_def
  by (simp add: command_runner.verification_runner_axioms)

theorem clean_review_sound_witness:
  "\<exists>e \<in> set (cy_history sample_cycle). ve_check_id e = ''test'' \<and> ve_status e = Passed
     \<and> ve_tested_identity e \<noteq> []"
proof -
  obtain w' where run: "run sample_env sample_coordination 0 = Some (Inr sample_cycle, w')"
    and stop: "cy_stop_reasons sample_cycle = [CleanReview]"
    using sample_run_is_clean by blast
  have k: "sample_check \<in> set (vp_checks (cr_verification_plan sample_coordination))" "vc_required sample_check"
    "vc_check_id sample_check = ''test''"
    by (simp_all add: sample_coordination_def sample_check_def)
  have captured: "er_content_hash (cd_diff captured) \<noteq> []"
    if "was_captured sample_env sample_coordination captured evidence" for captured evidence
    using that by (auto simp: was_captured_def sample_env_def quiet_capture_def sample_captured_def sample_evidence_ref_def)
  have clean: "CleanReview \<in> set (cy_stop_reasons sample_cycle)" using stop by simp
  from clean_review_sound [OF run clean sample_env_verifier] k captured show ?thesis by metis
qed

theorem review_run_disciplined_witness:
  "cy_attempt sample_cycle \<le> 2 \<and> length (cy_remediation_attempts sample_cycle) \<le> 1"
proof -
  obtain w' where "run sample_env sample_coordination 0 = Some (Inr sample_cycle, w')"
    using sample_run_is_clean by blast
  from review_run_disciplined [OF this] show ?thesis by (simp add: sample_coordination_def sample_limits_def)
qed

lemma returned_cycle_is_saved_witness:
  "\<exists>w0 w'. run sample_env sample_coordination 0 = Some (Inr sample_cycle, w')
     \<and> env_save_cycle sample_env sample_cycle w0 = (Inr (), w')"
  using sample_run_is_clean returned_cycle_is_saved [of sample_env sample_coordination 0 sample_cycle] by blast

theorem review_run_terminates_witness:
  "\<exists>r w'. run (sample_env\<lparr>env_codec := manifest_codec\<rparr>) sample_coordination 3 = Some (r, w')"
  by (rule review_run_terminates) (simp_all add: manifest_codec_laws)

end
