(* ===== verification/Reservation.thy ===== *)
theory Reservation
  imports Effects
begin

text \<open>
  Typed resource reservations, \<open>crates/familiar-ai-storage/src/repos/reservation.rs\<close> over the types of
  \<open>crates/familiar-ai-core/src/reservation.rs\<close> and the tables of migration 042. A reservation holds
  amounts of several pools until it is settled, released, expired or recovered.

  The tables are maps and lists of rows; the constraints of the schema (keys, \<open>available >= 0\<close>,
  \<open>available <= capacity\<close>) are checked where a statement could violate them, and a violation is an
  error that rolls the transaction back. A pool is keyed by its identifier and the text of its resource
  type, as in the table. Amounts are \<open>u64\<close> in the code and only compared, minimised and subtracted
  with saturation: \<open>nat\<close> here, with the conversion to the 63 bits of a durable integer written out.
  Random identifiers and the clock are arguments.
\<close>

section \<open>Types\<close>

datatype resource_type =
  NanousdBudget | UncachedTokens | TotalTokens | AcceleratorMemory | SystemMemory | InferenceSlots
| ModelLoadingSlots | ExclusiveRuntime | Custom string

definition builtin_types :: "(string \<times> resource_type) list" where
  "builtin_types =
     [(''nanousd-budget'', NanousdBudget), (''uncached-tokens'', UncachedTokens),
      (''total-tokens'', TotalTokens), (''accelerator-memory'', AcceleratorMemory),
      (''system-memory'', SystemMemory), (''inference-slots'', InferenceSlots),
      (''model-loading-slots'', ModelLoadingSlots), (''exclusive-runtime'', ExclusiveRuntime)]"

definition type_text :: "resource_type \<Rightarrow> string" where
  "type_text t = (case t of
       NanousdBudget \<Rightarrow> ''nanousd-budget'' | UncachedTokens \<Rightarrow> ''uncached-tokens''
     | TotalTokens \<Rightarrow> ''total-tokens'' | AcceleratorMemory \<Rightarrow> ''accelerator-memory''
     | SystemMemory \<Rightarrow> ''system-memory'' | InferenceSlots \<Rightarrow> ''inference-slots''
     | ModelLoadingSlots \<Rightarrow> ''model-loading-slots'' | ExclusiveRuntime \<Rightarrow> ''exclusive-runtime''
     | Custom v \<Rightarrow> v)"

definition parse_type :: "string \<Rightarrow> resource_type" where
  "parse_type s = (case map_of builtin_types s of Some t \<Rightarrow> t | None \<Rightarrow> Custom s)"

type_synonym pool_key = "string \<times> string"

record resource_request =
  rs_pool_id :: string
  rs_type :: resource_type
  rs_amount :: nat

record reservation_owner =
  ow_instance_id :: string
  ow_installation_id :: "string option"
  ow_nonce :: string
  ow_kind :: string
  ow_project_id :: string
  ow_execution_id :: string
  ow_component_id :: string

datatype grant_mode = AllOrNothing | Partial

datatype settlement = Known "resource_request list" | Unknown_Hold | Unknown_Settle

datatype owner_liveness = Live | ProvablyDead | Owner_Ambiguous

record liveness_evidence =
  lv_owner :: string
  lv_nonce :: string
  lv_resolution :: owner_liveness
  lv_provenance :: string
  lv_observed_at :: string

section \<open>Tables\<close>

datatype reservation_state = Held | Committed | Released | Expired | Recovered

record pool_row =
  po_capacity :: nat
  po_available :: nat
  po_renewable :: bool

record reservation_row =
  rv_id :: string
  rv_owner :: reservation_owner
  rv_state :: reservation_state
  rv_sequence :: nat
  rv_acquired_at :: string
  rv_expires_at :: "string option"
  rv_resolved_at :: "string option"
  rv_unknown :: bool
  rv_overrun :: bool

record item_row =
  it_reservation :: string
  it_key :: pool_key
  it_requested :: nat
  it_granted :: nat
  it_observed :: "nat option"
  it_overrun :: nat

record reservation_event =
  re_reservation :: string
  re_type :: string
  re_actor :: string
  re_detail :: string
  re_at :: string

record reservation_db =
  rd_pools :: "pool_key \<Rightarrow> pool_row option"
  rd_reservations :: "reservation_row list"
  rd_items :: "item_row list"
  rd_evidence :: "(string \<times> liveness_evidence \<times> string) list"
  rd_events :: "reservation_event list"

record grant_item =
  gi_pool_id :: string
  gi_type :: resource_type
  gi_requested :: nat
  gi_granted :: nat

record reservation_grant =
  rg_id :: string
  rg_sequence :: nat
  rg_items :: "grant_item list"

datatype acquire_outcome = Granted reservation_grant | Refused "resource_request list"

record settlement_result =
  sr_state :: string
  sr_unknown :: bool
  sr_overrun :: bool

section \<open>Helpers\<close>

definition validate_owner :: "reservation_owner \<Rightarrow> familiar_error + unit" where
  "validate_owner o' =
     ensure (ow_instance_id o' \<noteq> [] \<and> ow_nonce o' \<noteq> [] \<and> ow_kind o' \<noteq> [] \<and> ow_project_id o' \<noteq> []
             \<and> ow_execution_id o' \<noteq> [] \<and> ow_component_id o' \<noteq> [])
       (Config_Error ''reservation owner identity and attribution must be non-empty'')"

fun requests_valid :: "(string \<times> resource_type) set \<Rightarrow> resource_request list \<Rightarrow> bool" where
  "requests_valid seen [] = True"
| "requests_valid seen (r # rs) =
     (rs_amount r \<noteq> 0 \<and> (rs_pool_id r, rs_type r) \<notin> seen
      \<and> requests_valid (insert (rs_pool_id r, rs_type r) seen) rs)"

definition validate_requests :: "resource_request list \<Rightarrow> familiar_error + unit" where
  "validate_requests rs =
     ensure (rs \<noteq> [] \<and> requests_valid {} rs)
       (Config_Error ''reservation requests must be non-empty, positive, and unique by pool/resource'')"

definition sql_amount :: "nat \<Rightarrow> familiar_error + nat" where
  "sql_amount n =
     (if n < 2 ^ 63 then Inr n else Inl (Config_Error ''resource amount exceeds durable integer range''))"

definition find_reservation :: "reservation_db \<Rightarrow> string \<Rightarrow> reservation_row option" where
  "find_reservation db rid = find (\<lambda>r. rv_id r = rid) (rd_reservations db)"

definition require_held :: "reservation_db \<Rightarrow> string \<Rightarrow> familiar_error + unit" where
  "require_held db rid =
     (case find_reservation db rid of
        None \<Rightarrow> Inl (Database_Error ''reservation does not exist'')
      | Some r \<Rightarrow> ensure (rv_state r = Held) (Database_Error ''reservation is already terminal''))"

definition reservation_items :: "reservation_db \<Rightarrow> string \<Rightarrow> item_row list" where
  "reservation_items db rid = sort_key it_key (filter (\<lambda>i. it_reservation i = rid) (rd_items db))"

definition log_event :: "string \<Rightarrow> string \<Rightarrow> string \<Rightarrow> string \<Rightarrow> string \<Rightarrow> reservation_db \<Rightarrow> reservation_db" where
  "log_event rid kind actor detail at db =
     db\<lparr>rd_events := rd_events db @ [\<lparr>re_reservation = rid, re_type = kind, re_actor = actor,
        re_detail = detail, re_at = at\<rparr>]\<rparr>"

text \<open>\<open>UPDATE resource_reservations ... WHERE reservation_id = ?\<close>\<close>

definition update_reservation ::
    "string \<Rightarrow> (reservation_row \<Rightarrow> reservation_row) \<Rightarrow> reservation_db \<Rightarrow> reservation_db" where
  "update_reservation rid f db =
     db\<lparr>rd_reservations := map (\<lambda>r. if rv_id r = rid then f r else r) (rd_reservations db)\<rparr>"

text \<open>\<open>UPDATE resource_pools SET available = available + ?\<close>, under \<open>CHECK (available <= capacity)\<close>.\<close>

definition give_back :: "pool_key \<Rightarrow> nat \<Rightarrow> reservation_db \<Rightarrow> familiar_error + reservation_db" where
  "give_back key amount db =
     rbind (sql_amount amount) (\<lambda>_.
     case rd_pools db key of
       None \<Rightarrow> Inr db
     | Some p \<Rightarrow>
       if po_available p + amount \<le> po_capacity p
       then Inr (db\<lparr>rd_pools := (rd_pools db)(key \<mapsto> p\<lparr>po_available := po_available p + amount\<rparr>)\<rparr>)
       else Inl (Database_Error ''CHECK constraint failed: available <= capacity''))"

section \<open>Operations\<close>

definition pool_is_defined :: "reservation_db \<Rightarrow> string \<Rightarrow> resource_type \<Rightarrow> bool" where
  "pool_is_defined db pool t \<longleftrightarrow> rd_pools db (pool, type_text t) \<noteq> None"

definition define_pool ::
    "reservation_db \<Rightarrow> string \<Rightarrow> resource_type \<Rightarrow> nat \<Rightarrow> bool \<Rightarrow> familiar_error + reservation_db" where
  "define_pool db pool t capacity renewable =
     (let key = (pool, type_text t) in
      rbind (sql_amount capacity) (\<lambda>c.
      case rd_pools db key of
        None \<Rightarrow> Inr (db\<lparr>rd_pools := (rd_pools db)(key \<mapsto>
          \<lparr>po_capacity = c, po_available = c, po_renewable = renewable\<rparr>)\<rparr>)
      | Some p \<Rightarrow>
        if po_capacity p \<le> po_available p + c
        then Inr (db\<lparr>rd_pools := (rd_pools db)(key \<mapsto>
          \<lparr>po_capacity = c, po_available = po_available p + c - po_capacity p, po_renewable = renewable\<rparr>)\<rparr>)
        else Inr db))"

definition available_of :: "reservation_db \<Rightarrow> resource_request \<Rightarrow> nat" where
  "available_of db r =
     (case rd_pools db (rs_pool_id r, type_text (rs_type r)) of None \<Rightarrow> 0 | Some p \<Rightarrow> po_available p)"

definition granted_amount :: "grant_mode \<Rightarrow> reservation_db \<Rightarrow> resource_request \<Rightarrow> nat" where
  "granted_amount mode db r =
     (case mode of AllOrNothing \<Rightarrow> rs_amount r | Partial \<Rightarrow> min (rs_amount r) (available_of db r))"

definition grants_of :: "grant_mode \<Rightarrow> reservation_db \<Rightarrow> resource_request list \<Rightarrow> grant_item list" where
  "grants_of mode db rs =
     map (\<lambda>r. \<lparr>gi_pool_id = rs_pool_id r, gi_type = rs_type r, gi_requested = rs_amount r,
                gi_granted = granted_amount mode db r\<rparr>)
       (filter (\<lambda>r. 0 < granted_amount mode db r) rs)"

definition grant_key :: "grant_item \<Rightarrow> pool_key" where
  "grant_key g = (gi_pool_id g, type_text (gi_type g))"

fun insert_grants :: "string \<Rightarrow> grant_item list \<Rightarrow> reservation_db \<Rightarrow> familiar_error + reservation_db" where
  "insert_grants rid [] db = Inr db"
| "insert_grants rid (g # gs) db =
     rbind (sql_amount (gi_granted g)) (\<lambda>granted.
     case rd_pools db (grant_key g) of
       None \<Rightarrow> Inl (Database_Error ''resource capacity changed during atomic acquisition'')
     | Some p \<Rightarrow>
       if po_available p < granted
       then Inl (Database_Error ''resource capacity changed during atomic acquisition'')
       else rbind (sql_amount (gi_requested g)) (\<lambda>requested.
         if list_ex (\<lambda>i. it_reservation i = rid \<and> it_key i = grant_key g) (rd_items db)
         then Inl (Database_Error ''UNIQUE constraint failed: resource_reservation_items'')
         else insert_grants rid gs
           (db\<lparr>rd_pools := (rd_pools db)(grant_key g \<mapsto> p\<lparr>po_available := po_available p - granted\<rparr>),
               rd_items := rd_items db @ [\<lparr>it_reservation = rid, it_key = grant_key g,
                 it_requested = requested, it_granted = granted, it_observed = None, it_overrun = 0\<rparr>]\<rparr>)))"

definition next_sequence :: "reservation_db \<Rightarrow> nat" where
  "next_sequence db = Suc (fold max (map rv_sequence (rd_reservations db)) 0)"

definition insert_reservation :: "reservation_row \<Rightarrow> reservation_db \<Rightarrow> familiar_error + reservation_db" where
  "insert_reservation row db =
     (if list_ex (\<lambda>r. rv_id r = rv_id row \<or> ow_instance_id (rv_owner r) = ow_instance_id (rv_owner row))
           (rd_reservations db)
      then Inl (Database_Error ''UNIQUE constraint failed: resource_reservations'')
      else Inr (db\<lparr>rd_reservations := rd_reservations db @ [row]\<rparr>))"

definition acquire ::
    "string \<Rightarrow> string \<Rightarrow> reservation_db \<Rightarrow> reservation_owner \<Rightarrow> resource_request list \<Rightarrow> grant_mode
     \<Rightarrow> string option \<Rightarrow> familiar_error + acquire_outcome \<times> reservation_db" where
  "acquire hex now db owner requests mode expires_at =
     rbind (validate_owner owner) (\<lambda>_. rbind (validate_requests requests) (\<lambda>_.
     let unavailable = filter (\<lambda>r. available_of db r < rs_amount r) requests;
         grants = grants_of mode db requests in
     if unavailable \<noteq> [] \<and> mode = AllOrNothing \<or> grants = [] then Inr (Refused unavailable, db)
     else
       let rid = ''res_'' @ hex; seqn = next_sequence db in
       rbind (insert_reservation \<lparr>rv_id = rid, rv_owner = owner, rv_state = Held, rv_sequence = seqn,
           rv_acquired_at = now, rv_expires_at = expires_at, rv_resolved_at = None, rv_unknown = False,
           rv_overrun = False\<rparr> db) (\<lambda>db1.
       rbind (insert_grants rid grants db1) (\<lambda>db2.
       Inr (Granted \<lparr>rg_id = rid, rg_sequence = seqn, rg_items = grants\<rparr>,
            log_event rid ''acquired'' (ow_instance_id owner)
              (case mode of AllOrNothing \<Rightarrow> ''all-or-nothing'' | Partial \<Rightarrow> ''partial'') now db2)))))"

definition observed_amount :: "settlement \<Rightarrow> item_row \<Rightarrow> nat" where
  "observed_amount obs i =
     (case obs of
        Known vs \<Rightarrow>
          (case find (\<lambda>v. rs_pool_id v = fst (it_key i) \<and> rs_type v = parse_type (snd (it_key i))) vs of
             Some v \<Rightarrow> rs_amount v | None \<Rightarrow> it_granted i)
      | _ \<Rightarrow> it_granted i)"

definition settle_item :: "string \<Rightarrow> settlement \<Rightarrow> item_row \<Rightarrow> reservation_db \<Rightarrow> familiar_error + reservation_db" where
  "settle_item rid obs i db =
     (let observed = observed_amount obs i in
      rbind (give_back (it_key i) (it_granted i - observed) db) (\<lambda>db1.
      rbind (sql_amount observed) (\<lambda>n.
      rbind (sql_amount (observed - it_granted i)) (\<lambda>over.
      Inr (db1\<lparr>rd_items := map (\<lambda>j. if it_reservation j = rid \<and> it_key j = it_key i
                then j\<lparr>it_observed := Some n, it_overrun := over\<rparr> else j) (rd_items db1)\<rparr>)))))"

fun settle_items ::
    "string \<Rightarrow> settlement \<Rightarrow> item_row list \<Rightarrow> reservation_db \<Rightarrow> familiar_error + reservation_db" where
  "settle_items rid obs [] db = Inr db"
| "settle_items rid obs (i # is) db = rbind (settle_item rid obs i db) (settle_items rid obs is)"

definition settle_reservation ::
    "string \<Rightarrow> reservation_db \<Rightarrow> string \<Rightarrow> settlement \<Rightarrow> string
     \<Rightarrow> familiar_error + settlement_result \<times> reservation_db" where
  "settle_reservation now db rid obs actor =
     rbind (require_held db rid) (\<lambda>_.
     if obs = Unknown_Hold
     then Inr (\<lparr>sr_state = ''held'', sr_unknown = True, sr_overrun = False\<rparr>,
       log_event rid ''unknown-consumption-held'' actor ''reservation retained conservatively'' now
         (update_reservation rid (\<lambda>r. r\<lparr>rv_unknown := True\<rparr>) db))
     else
       let items = reservation_items db rid;
           unknown = (obs = Unknown_Settle);
           overrun = list_ex (\<lambda>i. 0 < observed_amount obs i - it_granted i) items in
       rbind (settle_items rid obs items db) (\<lambda>db1.
       Inr (\<lparr>sr_state = ''committed'', sr_unknown = unknown, sr_overrun = overrun\<rparr>,
         log_event rid ''committed'' actor
           (if overrun then ''observed consumption overran reservation''
            else if unknown then ''unknown consumption settled at reserved amount''
            else ''observed consumption settled'') now
           (update_reservation rid (\<lambda>r. r\<lparr>rv_state := Committed, rv_resolved_at := Some now,
              rv_unknown := unknown, rv_overrun := overrun\<rparr>) db1))))"

definition commit_reservation ::
    "string \<Rightarrow> reservation_db \<Rightarrow> string \<Rightarrow> resource_request list \<Rightarrow> string
     \<Rightarrow> familiar_error + settlement_result \<times> reservation_db" where
  "commit_reservation now db rid observed actor = settle_reservation now db rid (Known observed) actor"

fun return_items :: "item_row list \<Rightarrow> reservation_db \<Rightarrow> familiar_error + reservation_db" where
  "return_items [] db = Inr db"
| "return_items (i # is) db = rbind (give_back (it_key i) (it_granted i) db) (return_items is)"

definition state_text :: "reservation_state \<Rightarrow> string" where
  "state_text s = (case s of Held \<Rightarrow> ''held'' | Committed \<Rightarrow> ''committed'' | Released \<Rightarrow> ''released''
     | Expired \<Rightarrow> ''expired'' | Recovered \<Rightarrow> ''recovered'')"

definition resolve_returning ::
    "string \<Rightarrow> reservation_db \<Rightarrow> string \<Rightarrow> reservation_state \<Rightarrow> string \<Rightarrow> string
     \<Rightarrow> familiar_error + reservation_db" where
  "resolve_returning now db rid st actor detail =
     rbind (require_held db rid) (\<lambda>_.
     rbind (return_items (reservation_items db rid) db) (\<lambda>db1.
     Inr (log_event rid (state_text st) actor detail now
       (update_reservation rid (\<lambda>r. r\<lparr>rv_state := st, rv_resolved_at := Some now\<rparr>) db1))))"

definition release :: "string \<Rightarrow> reservation_db \<Rightarrow> string \<Rightarrow> string \<Rightarrow> familiar_error + reservation_db" where
  "release now db rid actor = resolve_returning now db rid Released actor ''explicit release''"

definition due :: "string \<Rightarrow> reservation_db \<Rightarrow> string list" where
  "due now db =
     map rv_id (sort_key (\<lambda>r. (case rv_expires_at r of Some t \<Rightarrow> t | None \<Rightarrow> [], rv_sequence r,
                              ow_instance_id (rv_owner r)))
       (filter (\<lambda>r. rv_state r = Held \<and> (case rv_expires_at r of Some t \<Rightarrow> t \<le> now | None \<Rightarrow> False))
          (rd_reservations db)))"

text \<open>Each expiry is a transaction of its own: what was expired before an error stays expired.\<close>

fun expire_all :: "string \<Rightarrow> string list \<Rightarrow> reservation_db \<Rightarrow> (familiar_error + unit) \<times> reservation_db" where
  "expire_all clock [] db = (Inr (), db)"
| "expire_all clock (rid # ids) db =
     (case resolve_returning clock db rid Expired ''expiry'' ''deadline passed'' of
        Inl e \<Rightarrow> (Inl e, db)
      | Inr db' \<Rightarrow> expire_all clock ids db')"

definition expire_due ::
    "string \<Rightarrow> reservation_db \<Rightarrow> string \<Rightarrow> (familiar_error + string list) \<times> reservation_db" where
  "expire_due clock db now =
     (let ids = due now db; (r, db') = expire_all clock ids db in
      (case r of Inl e \<Rightarrow> Inl e | Inr _ \<Rightarrow> Inr ids, db'))"

definition nonrenewable_items :: "reservation_db \<Rightarrow> string \<Rightarrow> item_row list" where
  "nonrenewable_items db rid =
     filter (\<lambda>i. it_reservation i = rid
               \<and> (case rd_pools db (it_key i) of Some p \<Rightarrow> \<not> po_renewable p | None \<Rightarrow> False)) (rd_items db)"

definition renew ::
    "string \<Rightarrow> reservation_db \<Rightarrow> string \<Rightarrow> string \<Rightarrow> string \<Rightarrow> string \<Rightarrow> familiar_error + reservation_db" where
  "renew now db rid new_expiry actor justification =
     rbind (require_held db rid) (\<lambda>_.
     if nonrenewable_items db rid \<noteq> [] \<or> trim justification = []
     then Inl (Config_Error ''renewal requires renewable resources and an explicit justification'')
     else Inr (log_event rid ''renewed'' actor justification now
       (update_reservation rid (\<lambda>r. case rv_expires_at r of
            None \<Rightarrow> r\<lparr>rv_expires_at := Some new_expiry\<rparr>
          | Some t \<Rightarrow> if t < new_expiry then r\<lparr>rv_expires_at := Some new_expiry\<rparr> else r) db)))"

definition liveness_text :: "owner_liveness \<Rightarrow> string" where
  "liveness_text l = (case l of Live \<Rightarrow> ''live'' | ProvablyDead \<Rightarrow> ''provably-dead'' | Owner_Ambiguous \<Rightarrow> ''ambiguous'')"

text \<open>The evidence is committed before the reservation is resolved.\<close>

definition recover_reservation ::
    "string \<Rightarrow> reservation_db \<Rightarrow> string \<Rightarrow> liveness_evidence \<Rightarrow> (familiar_error + bool) \<times> reservation_db" where
  "recover_reservation now db rid ev =
     (case find_reservation db rid of
        None \<Rightarrow> (Inl (Database_Error ''Query returned no rows''), db)
      | Some r \<Rightarrow>
        if ow_instance_id (rv_owner r) \<noteq> lv_owner ev \<or> ow_nonce (rv_owner r) \<noteq> lv_nonce ev
        then (Inl (Config_Error ''liveness evidence does not identify the exact reservation owner instance''), db)
        else
          let db1 = log_event rid ''liveness-observed'' (lv_provenance ev) (liveness_text (lv_resolution ev)) now
                (db\<lparr>rd_evidence := rd_evidence db @ [(rid, ev, now)]\<rparr>) in
          if lv_resolution ev = ProvablyDead
          then (case resolve_returning now db1 rid Recovered (lv_provenance ev) ''exact owner instance provably dead'' of
                  Inl e \<Rightarrow> (Inl e, db1)
                | Inr db2 \<Rightarrow> (Inr True, db2))
          else (Inr False, db1))"

end
