(* ===== verification/Reservation_Ledger.thy ===== *)
theory Reservation_Ledger
  imports Reservation
begin

text \<open>
  The ledger behind the reservations: for every pool, what is available plus what the held
  reservations hold plus what the committed ones used of their grants is the capacity. Every operation
  of the repository preserves it, so a held reservation can always be given back in full, and an
  acquisition refines the abstract operation that takes the requested amounts or nothing. The control plane
  writes the rows of its slot pools itself (\<open>Shared_Ledger\<close>); so the equation is stated with a set \<open>K\<close> of pools
  that it leaves out, and every operation preserves it for every \<open>K\<close>.
\<close>

section \<open>The abstract ledger\<close>

text \<open>What one item of a reservation in state \<open>st\<close> takes out of its pool.\<close>

definition item_charge :: "reservation_state \<Rightarrow> item_row \<Rightarrow> nat" where
  "item_charge st i =
     (case st of
        Held \<Rightarrow> it_granted i
      | Committed \<Rightarrow> (case it_observed i of None \<Rightarrow> it_granted i | Some n \<Rightarrow> min n (it_granted i))
      | _ \<Rightarrow> 0)"

definition charge :: "reservation_db \<Rightarrow> item_row \<Rightarrow> nat" where
  "charge db i =
     (case find_reservation db (it_reservation i) of None \<Rightarrow> 0 | Some r \<Rightarrow> item_charge (rv_state r) i)"

definition amount_on :: "(item_row \<Rightarrow> nat) \<Rightarrow> item_row list \<Rightarrow> pool_key \<Rightarrow> nat" where
  "amount_on f is k = sum_list (map f (filter (\<lambda>i. it_key i = k) is))"

definition outstanding :: "reservation_db \<Rightarrow> pool_key \<Rightarrow> nat" where
  "outstanding db = amount_on (charge db) (rd_items db)"

text \<open>What one reservation holds of a pool.\<close>

definition held_amount :: "reservation_db \<Rightarrow> string \<Rightarrow> pool_key \<Rightarrow> nat" where
  "held_amount db rid = amount_on it_granted (reservation_items db rid)"

definition pools_bounded :: "(pool_key \<Rightarrow> pool_row option) \<Rightarrow> bool" where
  "pools_bounded P \<longleftrightarrow> (\<forall>k p. P k = Some p \<longrightarrow> po_available p \<le> po_capacity p \<and> po_capacity p < 2 ^ 63)"

definition ledger_ok_except :: "pool_key set \<Rightarrow> reservation_db \<Rightarrow> bool" where
  "ledger_ok_except K db \<longleftrightarrow>
     distinct (map rv_id (rd_reservations db))
     \<and> distinct (map (\<lambda>i. (it_reservation i, it_key i)) (rd_items db))
     \<and> (\<forall>i\<in>set (rd_items db). find_reservation db (it_reservation i) \<noteq> None
          \<and> rd_pools db (it_key i) \<noteq> None \<and> it_granted i < 2 ^ 63)
     \<and> pools_bounded (rd_pools db)
     \<and> (\<forall>k p. k \<notin> K \<longrightarrow> rd_pools db k = Some p \<longrightarrow> po_available p + outstanding db k = po_capacity p)"

definition ledger_ok :: "reservation_db \<Rightarrow> bool" where
  "ledger_ok = ledger_ok_except {}"

definition no_reservations :: reservation_db where
  "no_reservations = \<lparr>rd_pools = (\<lambda>_. None), rd_reservations = [], rd_items = [], rd_evidence = [], rd_events = []\<rparr>"

inductive reservation_step :: "reservation_db \<Rightarrow> reservation_db \<Rightarrow> bool" where
  step_define: "define_pool db pool t c renewable = Inr db' \<Longrightarrow> reservation_step db db'"
| step_acquire: "acquire hex now db owner rs mode ex = Inr (out, db') \<Longrightarrow> reservation_step db db'"
| step_settle: "settle_reservation now db rid obs actor = Inr (out, db') \<Longrightarrow> reservation_step db db'"
| step_release: "release now db rid actor = Inr db' \<Longrightarrow> reservation_step db db'"
| step_expire: "expire_due clock db now = (out, db') \<Longrightarrow> reservation_step db db'"
| step_renew: "renew now db rid ex actor why = Inr db' \<Longrightarrow> reservation_step db db'"
| step_recover: "recover_reservation now db rid ev = (out, db') \<Longrightarrow> reservation_step db db'"

inductive reservation_reachable :: "reservation_db \<Rightarrow> bool" where
  start: "reservation_reachable no_reservations"
| step: "reservation_reachable db \<Longrightarrow> reservation_step db db' \<Longrightarrow> reservation_reachable db'"

section \<open>Amounts\<close>

named_theorems ledger "equations of the ledger"

lemma amount_on_simps [ledger]:
  "amount_on f [] k = 0"
  "amount_on f (i # is) k = (if it_key i = k then f i else 0) + amount_on f is k"
  "amount_on f (xs @ ys) k = amount_on f xs k + amount_on f ys k"
  by (simp_all add: amount_on_def)

lemma amount_on_cong:
  "(\<And>i. i \<in> set is \<Longrightarrow> it_key i = k \<Longrightarrow> f i = g i) \<Longrightarrow> amount_on f is k = amount_on g is k"
  by (induction "is") (auto simp: ledger)

lemma amount_on_split:
  "amount_on f is k = amount_on f (filter P is) k + amount_on f (filter (\<lambda>i. \<not> P i) is) k"
  by (induction "is") (auto simp: ledger)

lemma amount_on_add:
  "amount_on (\<lambda>i. f i + g i) is k = amount_on f is k + amount_on g is k"
  by (induction "is") (auto simp: ledger)

lemma amount_on_zero: "(\<And>i. i \<in> set is \<Longrightarrow> f i = 0) \<Longrightarrow> amount_on f is k = 0"
  by (induction "is") (auto simp: ledger)

lemma amount_on_map: "(\<And>i. it_key (h i) = it_key i) \<Longrightarrow> amount_on f (map h is) k = amount_on (f \<circ> h) is k"
  by (induction "is") (auto simp: ledger)

lemma amount_on_sort: "amount_on f (sort_key it_key is) k = amount_on f is k"
proof -
  have "mset (map f (filter (\<lambda>i. it_key i = k) (sort_key it_key is)))
      = mset (map f (filter (\<lambda>i. it_key i = k) is))" by simp
  then show ?thesis unfolding amount_on_def by (metis sum_mset_sum_list)
qed

lemma held_amount_alt: "held_amount db rid k = amount_on it_granted (filter (\<lambda>i. it_reservation i = rid) (rd_items db)) k"
  by (simp add: held_amount_def reservation_items_def amount_on_sort)

lemma set_reservation_items: "set (reservation_items db rid) = {i \<in> set (rd_items db). it_reservation i = rid}"
  by (auto simp: reservation_items_def)

section \<open>Giving amounts back\<close>

text \<open>Every pool credited with \<open>g\<close>.\<close>

definition credit :: "(pool_key \<Rightarrow> nat) \<Rightarrow> (pool_key \<Rightarrow> pool_row option) \<Rightarrow> pool_key \<Rightarrow> pool_row option" where
  "credit g pools k = map_option (\<lambda>p. p\<lparr>po_available := po_available p + g k\<rparr>) (pools k)"

definition can_credit :: "(pool_key \<Rightarrow> nat) \<Rightarrow> (pool_key \<Rightarrow> pool_row option) \<Rightarrow> bool" where
  "can_credit g pools \<longleftrightarrow>
     (\<forall>k p. pools k = Some p \<longrightarrow> po_available p + g k \<le> po_capacity p \<and> po_capacity p < 2 ^ 63)"

lemma credit_zero [ledger]: "credit (\<lambda>_. 0) pools = pools"
  by (rule ext) (simp add: credit_def option.map_ident_strong)

lemma credit_credit [ledger]: "credit g (credit h pools) = credit (\<lambda>k. h k + g k) pools"
  by (rule ext) (simp add: credit_def option.map_comp comp_def add.assoc)

lemma can_creditD:
  "can_credit g pools \<Longrightarrow> pools k = Some p \<Longrightarrow> po_available p + g k \<le> po_capacity p \<and> g k < 2 ^ 63"
proof -
  assume "can_credit g pools" "pools k = Some p"
  then have "po_available p + g k \<le> po_capacity p" "po_capacity p < 2 ^ 63"
    unfolding can_credit_def by blast+
  then show ?thesis by linarith
qed

lemma credit_None [ledger, simp]: "credit g pools k = None \<longleftrightarrow> pools k = None"
  by (simp add: credit_def)

lemma can_credit_credit: "can_credit (\<lambda>k. h k + g k) pools \<Longrightarrow> can_credit g (credit h pools)"
  by (auto simp: can_credit_def credit_def add.assoc)

lemma can_credit_mono: "can_credit g pools \<Longrightarrow> (\<And>k. h k \<le> g k) \<Longrightarrow> can_credit h pools"
  unfolding can_credit_def by (meson add_left_mono le_trans)

lemma give_back_credit:
  assumes "rd_pools db key \<noteq> None" and "can_credit (\<lambda>k. if key = k then n else 0) (rd_pools db)"
  shows "give_back key n db = Inr (db\<lparr>rd_pools := credit (\<lambda>k. if key = k then n else 0) (rd_pools db)\<rparr>)"
proof -
  obtain p where p: "rd_pools db key = Some p" using assms(1) by auto
  have "po_available p + n \<le> po_capacity p" "n < 2 ^ 63" using can_creditD [OF assms(2) p] by auto
  moreover have "(rd_pools db)(key \<mapsto> p\<lparr>po_available := po_available p + n\<rparr>)
      = credit (\<lambda>k. if key = k then n else 0) (rd_pools db)"
    using p by (auto simp: credit_def fun_eq_iff option.map_ident_strong)
  ultimately show ?thesis using p by (simp add: give_back_def sql_amount_def)
qed

text \<open>Whatever the pools hold, an amount that is accepted has been credited.\<close>

lemma give_back_Inr:
  assumes "give_back key n db = Inr db'"
  shows "db' = db\<lparr>rd_pools := credit (\<lambda>k. if key = k then n else 0) (rd_pools db)\<rparr>"
    "pools_bounded (rd_pools db) \<Longrightarrow> pools_bounded (rd_pools db')"
proof -
  have upd: "(rd_pools db)(key \<mapsto> p\<lparr>po_available := po_available p + n\<rparr>)
      = credit (\<lambda>k. if key = k then n else 0) (rd_pools db)" if "rd_pools db key = Some p" for p
    using that by (auto simp: credit_def fun_eq_iff option.map_ident_strong)
  have "rd_pools db = credit (\<lambda>k. if key = k then n else 0) (rd_pools db)" if "rd_pools db key = None"
    using that by (auto simp: credit_def fun_eq_iff option.map_ident_strong)
  then show eq: "db' = db\<lparr>rd_pools := credit (\<lambda>k. if key = k then n else 0) (rd_pools db)\<rparr>"
    using assms upd by (auto simp: give_back_def result_simps split: option.splits if_splits)
  show "pools_bounded (rd_pools db')" if "pools_bounded (rd_pools db)"
    using assms that by (auto simp: give_back_def result_simps pools_bounded_def split: option.splits if_splits)
qed

lemma return_items_Inr:
  assumes "return_items is db = Inr db'"
  shows "db' = db\<lparr>rd_pools := credit (amount_on it_granted is) (rd_pools db)\<rparr>
    \<and> (pools_bounded (rd_pools db) \<longrightarrow> pools_bounded (rd_pools db'))"
  using assms
proof (induction "is" arbitrary: db)
  case Nil then show ?case by (simp add: amount_on_def ledger)
next
  case (Cons i "is")
  obtain mid where mid: "give_back (it_key i) (it_granted i) db = Inr mid" "return_items is mid = Inr db'"
    using Cons.prems by (auto simp: result_simps)
  have eq: "amount_on it_granted (i # is) = (\<lambda>k. (if it_key i = k then it_granted i else 0) + amount_on it_granted is k)"
    by (rule ext) (simp add: ledger)
  note IH = Cons.IH [OF mid(2)] and one = give_back_Inr [OF mid(1)]
  have "db' = db\<lparr>rd_pools := credit (amount_on it_granted (i # is)) (rd_pools db)\<rparr>"
    using conjunct1 [OF IH] unfolding eq one(1) by (simp add: ledger)
  then show ?case using conjunct2 [OF IH] one(2) by blast
qed

lemma return_items_credit:
  assumes "\<forall>i\<in>set is. rd_pools db (it_key i) \<noteq> None" and "can_credit (amount_on it_granted is) (rd_pools db)"
  shows "return_items is db = Inr (db\<lparr>rd_pools := credit (amount_on it_granted is) (rd_pools db)\<rparr>)"
  using assms
proof (induction "is" arbitrary: db)
  case Nil then show ?case by (simp add: amount_on_def ledger)
next
  case (Cons i "is")
  let ?h = "\<lambda>k. if it_key i = k then it_granted i else 0"
  let ?db = "db\<lparr>rd_pools := credit ?h (rd_pools db)\<rparr>"
  have eq: "amount_on it_granted (i # is) = (\<lambda>k. ?h k + amount_on it_granted is k)"
    by (rule ext) (simp add: ledger)
  have "can_credit ?h (rd_pools db)" using Cons.prems(2) by (rule can_credit_mono) (simp add: ledger)
  then have 1: "give_back (it_key i) (it_granted i) db = Inr ?db"
    using give_back_credit Cons.prems(1) by simp
  have "return_items is ?db = Inr (?db\<lparr>rd_pools := credit (amount_on it_granted is) (rd_pools ?db)\<rparr>)"
    using Cons.prems unfolding eq by (intro Cons.IH) (simp_all add: can_credit_credit)
  with 1 show ?case by (simp add: eq ledger)
qed


section \<open>Settling\<close>

definition settled_item :: "settlement \<Rightarrow> item_row \<Rightarrow> item_row" where
  "settled_item obs i =
     i\<lparr>it_observed := Some (observed_amount obs i), it_overrun := observed_amount obs i - it_granted i\<rparr>"

definition returned :: "settlement \<Rightarrow> item_row \<Rightarrow> nat" where
  "returned obs i = it_granted i - observed_amount obs i"

lemma observed_amount_cong:
  "it_key i = it_key j \<Longrightarrow> it_granted i = it_granted j \<Longrightarrow> observed_amount obs i = observed_amount obs j"
  by (simp add: observed_amount_def split: settlement.split option.split)

lemma settled_item_sel [simp]:
  "it_key (settled_item obs i) = it_key i" "it_granted (settled_item obs i) = it_granted i"
  "it_reservation (settled_item obs i) = it_reservation i"
  "it_observed (settled_item obs i) = Some (observed_amount obs i)"
  by (simp_all add: settled_item_def)

lemma observed_settled_item [simp]: "observed_amount obs (settled_item obs i) = observed_amount obs i"
  by (rule observed_amount_cong) simp_all

lemma settled_settled_item [simp]: "settled_item obs (settled_item obs i) = settled_item obs i"
  unfolding settled_item_def [of obs "settled_item obs i"] observed_settled_item by (simp add: settled_item_def)

definition settle_rows :: "string \<Rightarrow> settlement \<Rightarrow> pool_key set \<Rightarrow> item_row list \<Rightarrow> item_row list" where
  "settle_rows rid obs ks =
     map (\<lambda>j. if it_reservation j = rid \<and> it_key j \<in> ks then settled_item obs j else j)"

lemma settle_rows_settle_rows: "settle_rows rid obs ks (settle_rows rid obs ls js) = settle_rows rid obs (ks \<union> ls) js"
  by (auto simp: settle_rows_def)

lemma settle_rows_rows:
  "j \<in> set (settle_rows rid obs ks js) \<Longrightarrow>
    \<exists>j'\<in>set js. it_reservation j' = it_reservation j \<and> it_key j' = it_key j \<and> it_granted j' = it_granted j"
  by (auto simp: settle_rows_def)

lemma settle_item_Inr:
  assumes "settle_item rid obs i db = Inr db'"
    and same: "\<forall>j\<in>set (rd_items db). it_reservation j = rid \<and> it_key j = it_key i \<longrightarrow> it_granted j = it_granted i"
  shows "db' = db\<lparr>rd_pools := credit (\<lambda>k. if it_key i = k then returned obs i else 0) (rd_pools db),
            rd_items := settle_rows rid obs {it_key i} (rd_items db)\<rparr>"
    "pools_bounded (rd_pools db) \<Longrightarrow> pools_bounded (rd_pools db')"
proof -
  have obs: "observed_amount obs j = observed_amount obs i \<and> it_granted j = it_granted i"
    if "j \<in> set (rd_items db)" "it_reservation j = rid" "it_key j = it_key i" for j
    using that same observed_amount_cong [of j i obs] by auto
  have rows: "map (\<lambda>j. if it_reservation j = rid \<and> it_key j = it_key i
          then j\<lparr>it_observed := Some (observed_amount obs i), it_overrun := observed_amount obs i - it_granted i\<rparr>
          else j) (rd_items db) = settle_rows rid obs {it_key i} (rd_items db)"
    unfolding settle_rows_def
    by (rule map_cong [OF refl]) (use obs in \<open>simp add: settled_item_def\<close>)
  obtain mid where mid: "give_back (it_key i) (returned obs i) db = Inr mid"
    and db': "db' = mid\<lparr>rd_items := map (\<lambda>j. if it_reservation j = rid \<and> it_key j = it_key i
          then j\<lparr>it_observed := Some (observed_amount obs i), it_overrun := observed_amount obs i - it_granted i\<rparr>
          else j) (rd_items mid)\<rparr>"
    using assms(1) by (auto simp: settle_item_def returned_def sql_amount_def Let_def result_simps split: if_splits)
  show "db' = db\<lparr>rd_pools := credit (\<lambda>k. if it_key i = k then returned obs i else 0) (rd_pools db),
            rd_items := settle_rows rid obs {it_key i} (rd_items db)\<rparr>"
    using rows by (simp add: db' give_back_Inr(1) [OF mid])
  show "pools_bounded (rd_pools db')" if "pools_bounded (rd_pools db)"
    using give_back_Inr(2) [OF mid that] by (simp add: db')
qed

lemma settle_items_Inr:
  assumes "settle_items rid obs is db = Inr db'"
    and "\<forall>i\<in>set is. \<forall>j\<in>set (rd_items db).
           it_reservation j = rid \<and> it_key j = it_key i \<longrightarrow> it_granted j = it_granted i"
  shows "db' = db\<lparr>rd_pools := credit (amount_on (returned obs) is) (rd_pools db),
            rd_items := settle_rows rid obs (it_key ` set is) (rd_items db)\<rparr>
    \<and> (pools_bounded (rd_pools db) \<longrightarrow> pools_bounded (rd_pools db'))"
  using assms
proof (induction "is" arbitrary: db)
  case Nil then show ?case by (simp add: amount_on_def ledger settle_rows_def)
next
  case (Cons i "is")
  let ?h = "\<lambda>k. if it_key i = k then returned obs i else 0"
  have eq: "amount_on (returned obs) (i # is) = (\<lambda>k. ?h k + amount_on (returned obs) is k)"
    by (rule ext) (simp add: ledger)
  obtain mid where mid: "settle_item rid obs i db = Inr mid" "settle_items rid obs is mid = Inr db'"
    using Cons.prems(1) by (auto simp: result_simps)
  note one = settle_item_Inr [OF mid(1)]
  have mid': "mid = db\<lparr>rd_pools := credit ?h (rd_pools db), rd_items := settle_rows rid obs {it_key i} (rd_items db)\<rparr>"
    by (rule one(1)) (use Cons.prems(2) in auto)
  have "\<forall>i\<in>set is. \<forall>j\<in>set (rd_items mid). it_reservation j = rid \<and> it_key j = it_key i \<longrightarrow> it_granted j = it_granted i"
  proof (intro ballI impI)
    fix i' j assume "i' \<in> set is" "j \<in> set (rd_items mid)" "it_reservation j = rid \<and> it_key j = it_key i'"
    moreover from this(2) have "j \<in> set (settle_rows rid obs {it_key i} (rd_items db))" by (simp add: mid')
    from settle_rows_rows [OF this] obtain j' where "j' \<in> set (rd_items db)" "it_reservation j' = it_reservation j"
        "it_key j' = it_key j" "it_granted j' = it_granted j" by auto
    ultimately show "it_granted j = it_granted i'" using Cons.prems(2) by (metis list.set_intros(2))
  qed
  note IH = Cons.IH [OF mid(2) this]
  have eqn: "db' = db\<lparr>rd_pools := credit (amount_on (returned obs) (i # is)) (rd_pools db),
            rd_items := settle_rows rid obs (it_key ` set is \<union> {it_key i}) (rd_items db)\<rparr>"
    using conjunct1 [OF IH] unfolding eq mid' by (simp add: credit_credit settle_rows_settle_rows)
  have keys: "it_key ` set (i # is) = it_key ` set is \<union> {it_key i}" by auto
  have bound: "pools_bounded (rd_pools db) \<Longrightarrow> pools_bounded (rd_pools mid)"
    by (rule one(2)) (use Cons.prems(2) in auto)
  show ?case unfolding keys by (rule conjI [OF eqn]) (use bound conjunct2 [OF IH] in blast)
qed

section \<open>Taking amounts\<close>

definition new_item :: "string \<Rightarrow> grant_item \<Rightarrow> item_row" where
  "new_item rid g = \<lparr>it_reservation = rid, it_key = grant_key g, it_requested = gi_requested g,
     it_granted = gi_granted g, it_observed = None, it_overrun = 0\<rparr>"

lemma new_item_sel [simp]:
  "it_reservation (new_item rid g) = rid" "it_key (new_item rid g) = grant_key g"
  "it_granted (new_item rid g) = gi_granted g"
  by (simp_all add: new_item_def)

lemma insert_grants_credit:
  assumes "insert_grants rid gs db = Inr db'"
  shows "db' = db\<lparr>rd_pools := rd_pools db', rd_items := rd_items db @ map (new_item rid) gs\<rparr>
    \<and> rd_pools db = credit (amount_on it_granted (map (new_item rid) gs)) (rd_pools db')
    \<and> (\<forall>g\<in>set gs. rd_pools db (grant_key g) \<noteq> None \<and> gi_granted g < 2 ^ 63
         \<and> (rid, grant_key g) \<notin> (\<lambda>i. (it_reservation i, it_key i)) ` set (rd_items db))
    \<and> distinct (map grant_key gs)"
  using assms
proof (induction gs arbitrary: db)
  case Nil then show ?case by (simp add: amount_on_def ledger)
next
  case (Cons g gs)
  from Cons.prems obtain p where p: "rd_pools db (grant_key g) = Some p" "gi_granted g \<le> po_available p"
      "gi_granted g < 2 ^ 63"
    and fresh: "\<not> list_ex (\<lambda>i. it_reservation i = rid \<and> it_key i = grant_key g) (rd_items db)"
    and rec: "insert_grants rid gs (db\<lparr>rd_pools := (rd_pools db)(grant_key g \<mapsto> p\<lparr>po_available := po_available p - gi_granted g\<rparr>),
       rd_items := rd_items db @ [new_item rid g]\<rparr>) = Inr db'"
    by (auto simp: result_simps sql_amount_def new_item_def split: if_splits option.splits)
  define P where "P = (rd_pools db)(grant_key g \<mapsto> p\<lparr>po_available := po_available p - gi_granted g\<rparr>)"
  let ?h = "\<lambda>k. if grant_key g = k then gi_granted g else 0"
  have eq: "amount_on it_granted (map (new_item rid) (g # gs))
      = (\<lambda>k. amount_on it_granted (map (new_item rid) gs) k + ?h k)"
    by (rule ext) (simp add: ledger)
  have 1: "rd_pools db = credit ?h P"
    using p by (auto simp: P_def credit_def fun_eq_iff option.map_ident_strong)
  have dom: "P k \<noteq> None \<longleftrightarrow> rd_pools db k \<noteq> None" for k using p by (simp add: P_def)
  note IH = Cons.IH [OF rec, folded P_def]
  have Pc: "P = credit (amount_on it_granted (map (new_item rid) gs)) (rd_pools db')"
    using conjunct1 [OF conjunct2 [OF IH]] by simp
  have c1: "rd_pools db = credit (amount_on it_granted (map (new_item rid) (g # gs))) (rd_pools db')"
    unfolding eq using 1 Pc by (simp only: credit_credit)
  have c2: "db' = db\<lparr>rd_pools := rd_pools db', rd_items := rd_items db @ map (new_item rid) (g # gs)\<rparr>"
    using IH by simp
  have c3: "\<forall>g'\<in>set gs. grant_key g' \<noteq> grant_key g \<and> rd_pools db (grant_key g') \<noteq> None
      \<and> gi_granted g' < 2 ^ 63
      \<and> (rid, grant_key g') \<notin> (\<lambda>i. (it_reservation i, it_key i)) ` set (rd_items db)" (is "\<forall>g'\<in>_. ?Q g'")
  proof
    fix g' assume g': "g' \<in> set gs"
    then have "P (grant_key g') \<noteq> None \<and> gi_granted g' < 2 ^ 63
        \<and> (rid, grant_key g') \<notin> insert (rid, grant_key g) ((\<lambda>i. (it_reservation i, it_key i)) ` set (rd_items db))"
      using bspec [OF conjunct1 [OF conjunct2 [OF conjunct2 [OF IH]]] g'] by simp
    then show "?Q g'" by (simp only: dom) simp
  qed
  have c4: "rd_pools db (grant_key g) \<noteq> None \<and> gi_granted g < 2 ^ 63
      \<and> (rid, grant_key g) \<notin> (\<lambda>i. (it_reservation i, it_key i)) ` set (rd_items db)"
    using p fresh by (auto simp: list_ex_iff)
  have "\<forall>g'\<in>set (g # gs). rd_pools db (grant_key g') \<noteq> None \<and> gi_granted g' < 2 ^ 63
      \<and> (rid, grant_key g') \<notin> (\<lambda>i. (it_reservation i, it_key i)) ` set (rd_items db)" (is "\<forall>g'\<in>_. ?Q g'")
  proof
    fix g' assume "g' \<in> set (g # gs)"
    then consider "g' = g" | "g' \<in> set gs" by auto
    then show "?Q g'" by cases (use c3 c4 in blast)+
  qed
  moreover have "distinct (map grant_key (g # gs))" using c3 conjunct2 [OF conjunct2 [OF conjunct2 [OF IH]]] by auto
  ultimately show ?case using c1 c2 by (intro conjI)
qed

section \<open>Rows and events\<close>

lemma find_update_reservation:
  "(\<And>r. rv_id (f r) = rv_id r) \<Longrightarrow>
   find_reservation (update_reservation rid f db) x = map_option (\<lambda>r. if x = rid then f r else r) (find_reservation db x)"
proof -
  assume keep: "\<And>r. rv_id (f r) = rv_id r"
  have "find (\<lambda>r. rv_id r = x) (map (\<lambda>r. if rv_id r = rid then f r else r) rs)
      = map_option (\<lambda>r. if x = rid then f r else r) (find (\<lambda>r. rv_id r = x) rs)" for rs
    by (induction rs) (auto simp: keep)
  then show ?thesis by (simp add: find_reservation_def update_reservation_def)
qed

lemma row_frames [ledger, simp]:
  "rd_pools (update_reservation rid f db) = rd_pools db" "rd_items (update_reservation rid f db) = rd_items db"
  "rd_pools (log_event a b c d e db) = rd_pools db" "rd_items (log_event a b c d e db) = rd_items db"
  "rd_reservations (log_event a b c d e db) = rd_reservations db"
  "find_reservation (log_event a b c d e db) x = find_reservation db x"
  "find_reservation (db\<lparr>rd_pools := P\<rparr>) x = find_reservation db x"
  "find_reservation (db\<lparr>rd_items := I\<rparr>) x = find_reservation db x"
  "find_reservation (db\<lparr>rd_evidence := E\<rparr>) x = find_reservation db x"
  by (simp_all add: update_reservation_def log_event_def find_reservation_def)

lemma charge_cong [ledger, simp]:
  "charge (log_event a b c d e db) = charge db" "charge (db\<lparr>rd_pools := P\<rparr>) = charge db"
  "charge (db\<lparr>rd_items := I\<rparr>) = charge db"
  by (rule ext, simp add: charge_def)+

lemma ids_update [simp]:
  "(\<And>r. rv_id (f r) = rv_id r) \<Longrightarrow>
   map rv_id (rd_reservations (update_reservation rid f db)) = map rv_id (rd_reservations db)"
  by (simp add: update_reservation_def)

lemma charge_update:
  assumes "\<And>r. rv_id (f r) = rv_id r" "find_reservation db rid = Some r"
  shows "charge (update_reservation rid f db) i
       = (if it_reservation i = rid then item_charge (rv_state (f r)) i else charge db i)"
  using assms(2) by (auto simp: charge_def find_update_reservation [of f, OF assms(1)] split: option.splits)

lemma ledger_exceptD:
  assumes "ledger_ok_except K db"
  shows "distinct (map rv_id (rd_reservations db))"
    and "distinct (map (\<lambda>i. (it_reservation i, it_key i)) (rd_items db))"
    and "i \<in> set (rd_items db) \<Longrightarrow> find_reservation db (it_reservation i) \<noteq> None"
    and "i \<in> set (rd_items db) \<Longrightarrow> rd_pools db (it_key i) \<noteq> None"
    and "i \<in> set (rd_items db) \<Longrightarrow> it_granted i < 2 ^ 63"
    and "k \<notin> K \<Longrightarrow> rd_pools db k = Some p \<Longrightarrow> po_available p + outstanding db k = po_capacity p"
    and "rd_pools db k = Some p \<Longrightarrow> po_available p \<le> po_capacity p \<and> po_capacity p < 2 ^ 63"
    and "pools_bounded (rd_pools db)"
  using assms [unfolded ledger_ok_except_def pools_bounded_def] by (simp_all only: conj_assoc pools_bounded_def) blast+

lemma ledger_okD:
  assumes "ledger_ok db"
  shows "distinct (map rv_id (rd_reservations db))"
    and "distinct (map (\<lambda>i. (it_reservation i, it_key i)) (rd_items db))"
    and "i \<in> set (rd_items db) \<Longrightarrow> find_reservation db (it_reservation i) \<noteq> None"
    and "i \<in> set (rd_items db) \<Longrightarrow> rd_pools db (it_key i) \<noteq> None"
    and "i \<in> set (rd_items db) \<Longrightarrow> it_granted i < 2 ^ 63"
    and "rd_pools db k = Some p \<Longrightarrow> po_available p + outstanding db k = po_capacity p"
    and "rd_pools db k = Some p \<Longrightarrow> po_capacity p < 2 ^ 63"
  using ledger_exceptD [OF assms [unfolded ledger_ok_def]] by simp_all

lemma held_le_outstanding:
  assumes "find_reservation db rid = Some r" "rv_state r = Held"
  shows "outstanding db k = held_amount db rid k
       + amount_on (charge db) (filter (\<lambda>i. it_reservation i \<noteq> rid) (rd_items db)) k"
proof -
  have "amount_on (charge db) (filter (\<lambda>i. it_reservation i = rid) (rd_items db)) k = held_amount db rid k"
    unfolding held_amount_alt by (rule amount_on_cong) (auto simp: charge_def item_charge_def assms)
  then show ?thesis
    unfolding outstanding_def using amount_on_split [of "charge db" "rd_items db" k "\<lambda>i. it_reservation i = rid"] by simp
qed

lemma can_credit_held:
  assumes ok: "ledger_ok db" and r: "find_reservation db rid = Some r" "rv_state r = Held"
  shows "can_credit (held_amount db rid) (rd_pools db)"
  unfolding can_credit_def
proof (intro allI impI)
  fix k p assume p: "rd_pools db k = Some p"
  have "held_amount db rid k \<le> outstanding db k" using held_le_outstanding [OF r] by simp
  then show "po_available p + held_amount db rid k \<le> po_capacity p \<and> po_capacity p < 2 ^ 63"
    using ledger_okD(6) [OF ok p] ledger_okD(7) [OF ok p] by linarith
qed

text \<open>The common shape of the operations that resolve a held reservation: its items keep their keys, the
  pools are credited with what it no longer uses.\<close>

lemma ledger_ok_resolved:
  assumes ok: "ledger_ok_except K db" and r: "find_reservation db rid = Some r" "rv_state r = Held"
    and f: "\<And>r. rv_id (f r) = rv_id r"
    and P: "\<And>k. k \<notin> K \<Longrightarrow> P k = credit g (rd_pools db) k" "\<And>k. P k = None \<longleftrightarrow> rd_pools db k = None" "pools_bounded P"
    and g: "\<And>k. g k = amount_on b (filter (\<lambda>i. it_reservation i = rid) (rd_items db)) k"
    and h: "\<And>i. it_reservation (h i) = it_reservation i" "\<And>i. it_key (h i) = it_key i"
      "\<And>i. it_granted (h i) = it_granted i"
      "\<And>i. it_reservation i \<noteq> rid \<Longrightarrow> h i = i"
    and b: "\<And>i. i \<in> set (rd_items db) \<Longrightarrow> it_reservation i = rid \<Longrightarrow>
      item_charge (rv_state (f r)) (h i) + b i = it_granted i"
  shows "ledger_ok_except K (log_event x kind actor detail now (update_reservation rid f
           (db\<lparr>rd_pools := P, rd_items := map h (rd_items db)\<rparr>)))" (is "ledger_ok_except K ?db")
proof -
  let ?mid = "db\<lparr>rd_pools := P, rd_items := map h (rd_items db)\<rparr>"
  let ?mine = "filter (\<lambda>i. it_reservation i = rid) (rd_items db)"
  let ?rest = "filter (\<lambda>i. it_reservation i \<noteq> rid) (rd_items db)"
  have ch: "charge ?db (h i) = (if it_reservation i = rid then item_charge (rv_state (f r)) (h i) else charge db i)" for i
  proof -
    have "charge ?db (h i) = charge (update_reservation rid f ?mid) (h i)" by (simp only: charge_cong(1))
    also have "\<dots> = (if it_reservation (h i) = rid then item_charge (rv_state (f r)) (h i) else charge ?mid (h i))"
      by (rule charge_update [OF f]) (simp add: r)
    also have "charge ?mid = charge db" by (simp only: charge_cong)
    finally show ?thesis using h(4) [of i] by (simp only: h(1)) auto
  qed
  have out: "outstanding ?db k + g k = outstanding db k" for k
  proof -
    have "outstanding ?db k = amount_on (charge ?db \<circ> h) (rd_items db) k"
      by (simp add: outstanding_def amount_on_map [OF h(2)])
    also have "\<dots> = amount_on (charge ?db \<circ> h) ?mine k + amount_on (charge ?db \<circ> h) ?rest k"
      by (rule amount_on_split)
    also have "amount_on (charge ?db \<circ> h) ?rest k = amount_on (charge db) ?rest k"
      by (rule amount_on_cong) (simp add: ch del: charge_cong)
    also have "amount_on (charge ?db \<circ> h) ?mine k = amount_on (\<lambda>i. item_charge (rv_state (f r)) (h i)) ?mine k"
      by (rule amount_on_cong) (simp add: ch del: charge_cong)
    finally have "outstanding ?db k + g k
        = amount_on (\<lambda>i. item_charge (rv_state (f r)) (h i) + b i) ?mine k + amount_on (charge db) ?rest k"
      by (simp add: g [of k] amount_on_add)
    also have "amount_on (\<lambda>i. item_charge (rv_state (f r)) (h i) + b i) ?mine k = held_amount db rid k"
      unfolding held_amount_alt by (rule amount_on_cong) (simp add: b)
    finally show ?thesis by (simp add: held_le_outstanding [OF r])
  qed
  have "(\<lambda>i. (it_reservation i, it_key i)) \<circ> h = (\<lambda>i. (it_reservation i, it_key i))"
    by (simp add: fun_eq_iff h)
  then have d: "distinct (map (\<lambda>i. (it_reservation i, it_key i)) (rd_items ?db))"
    using ledger_exceptD(2) [OF ok] by simp
  show ?thesis
    unfolding ledger_ok_except_def
  proof (intro conjI d ballI allI impI)
    show "distinct (map rv_id (rd_reservations ?db))"
      using ledger_exceptD(1) [OF ok] f by (simp add: update_reservation_def comp_def if_distrib cong: if_cong)
  next
    fix i assume "i \<in> set (rd_items ?db)"
    then obtain j where j: "j \<in> set (rd_items db)" "i = h j" by auto
    show "find_reservation ?db (it_reservation i) \<noteq> None"
      using ledger_exceptD(3) [OF ok j(1)] by (simp add: j(2) h find_update_reservation [of f, OF f])
    show "rd_pools ?db (it_key i) \<noteq> None"
      using ledger_exceptD(4) [OF ok j(1)] by (simp add: j(2) h P(2))
    show "it_granted i < 2 ^ 63" using ledger_exceptD(5) [OF ok j(1)] by (simp add: j(2) h)
  next
    show "pools_bounded (rd_pools ?db)" using P(3) by simp
  next
    fix k p assume "k \<notin> K" "rd_pools ?db k = Some p"
    then obtain q where q: "rd_pools db k = Some q" "p = q\<lparr>po_available := po_available q + g k\<rparr>"
      using P(1) [of k] by (auto simp: credit_def)
    show "po_available p + outstanding ?db k = po_capacity p"
      using out [of k] ledger_exceptD(6) [OF ok \<open>k \<notin> K\<close> q(1)] by (simp add: q(2))
  qed
qed

section \<open>Operations preserve the ledger\<close>

lemma require_held_Inr:
  "require_held db rid = Inr u \<longleftrightarrow> (\<exists>r. find_reservation db rid = Some r \<and> rv_state r = Held)"
  by (auto simp: require_held_def result_simps split: option.splits)

lemma held_amount_items: "amount_on it_granted (reservation_items db rid) = held_amount db rid"
  by (rule ext) (simp add: held_amount_def)

lemma amount_on_mono: "(\<And>i. f i \<le> g i) \<Longrightarrow> amount_on f is k \<le> amount_on g is k"
  by (induction "is") (auto simp: ledger add_mono)

lemma resolve_returning_credit:
  assumes ok: "ledger_ok db" and r: "find_reservation db rid = Some r" "rv_state r = Held"
  shows "resolve_returning now db rid st actor detail = Inr (log_event rid (state_text st) actor detail now
    (update_reservation rid (\<lambda>r. r\<lparr>rv_state := st, rv_resolved_at := Some now\<rparr>)
      (db\<lparr>rd_pools := credit (held_amount db rid) (rd_pools db)\<rparr>)))"
proof -
  have "require_held db rid = Inr ()" using r by (simp add: require_held_Inr)
  moreover have "return_items (reservation_items db rid) db
      = Inr (db\<lparr>rd_pools := credit (held_amount db rid) (rd_pools db)\<rparr>)"
    using return_items_credit [of "reservation_items db rid" db] can_credit_held [OF ok r] ledger_okD(4) [OF ok]
    by (simp add: held_amount_items set_reservation_items)
  ultimately show ?thesis by (simp add: resolve_returning_def)
qed

lemma resolve_returning_ledger:
  assumes ok: "ledger_ok_except K db" and st: "st \<in> {Released, Expired, Recovered}"
    and res: "resolve_returning now db rid st actor detail = Inr db'"
  shows "ledger_ok_except K db'"
proof -
  obtain r d where r: "find_reservation db rid = Some r" "rv_state r = Held"
    and d: "return_items (reservation_items db rid) db = Inr d"
    and db': "db' = log_event rid (state_text st) actor detail now
      (update_reservation rid (\<lambda>r. r\<lparr>rv_state := st, rv_resolved_at := Some now\<rparr>) d)"
    using res by (auto simp: resolve_returning_def result_simps require_held_Inr)
  have d': "d = db\<lparr>rd_pools := credit (held_amount db rid) (rd_pools db), rd_items := map (\<lambda>i. i) (rd_items db)\<rparr>"
    "pools_bounded (rd_pools d)"
    using return_items_Inr [OF d] ledger_exceptD(8) [OF ok] by (auto simp: held_amount_items)
  show ?thesis unfolding db' d'(1)
    by (rule ledger_ok_resolved [OF ok r, where b = it_granted and g = "held_amount db rid"])
      (use st d'(2) in \<open>auto simp: held_amount_alt item_charge_def d'(1)\<close>)
qed

lemma settle_ledger:
  assumes ok: "ledger_ok_except K db" and res: "settle_reservation now db rid obs actor = Inr (out, db')"
  shows "ledger_ok_except K db'"
proof -
  obtain r where r: "find_reservation db rid = Some r" "rv_state r = Held"
    using res by (auto simp: settle_reservation_def result_simps require_held_Inr)
  show ?thesis
  proof (cases "obs = Unknown_Hold")
    case True
    then have "db' = log_event rid ''unknown-consumption-held'' actor ''reservation retained conservatively'' now
         (update_reservation rid (\<lambda>r. r\<lparr>rv_unknown := True\<rparr>) db)"
      using res by (auto simp: settle_reservation_def result_simps)
    moreover have "ledger_ok_except K (log_event rid ''unknown-consumption-held'' actor ''reservation retained conservatively'' now
         (update_reservation rid (\<lambda>r. r\<lparr>rv_unknown := True\<rparr>)
            (db\<lparr>rd_pools := rd_pools db, rd_items := map (\<lambda>i. i) (rd_items db)\<rparr>)))"
      by (rule ledger_ok_resolved [OF ok r, where b = "\<lambda>_. 0" and g = "\<lambda>_. 0"])
        (auto simp: item_charge_def amount_on_zero r ledger ledger_exceptD(8) [OF ok])
    ultimately show ?thesis by simp
  next
    case False
    let ?items = "reservation_items db rid"
    let ?h = "\<lambda>j. if it_reservation j = rid \<and> it_key j \<in> it_key ` set ?items then settled_item obs j else j"
    from res False obtain d f x det where d: "settle_items rid obs ?items db = Inr d"
      and db': "db' = log_event rid ''committed'' actor det now (update_reservation rid f d)"
      and f: "f = (\<lambda>r. r\<lparr>rv_state := Committed, rv_resolved_at := Some now, rv_unknown := (obs = Unknown_Settle), rv_overrun := x\<rparr>)"
      by (auto simp: settle_reservation_def result_simps Let_def)
    have same: "\<forall>i\<in>set ?items. \<forall>j\<in>set (rd_items db).
        it_reservation j = rid \<and> it_key j = it_key i \<longrightarrow> it_granted j = it_granted i"
      using ledger_exceptD(2) [OF ok] by (auto simp: set_reservation_items distinct_map dest: inj_onD)
    have d': "d = db\<lparr>rd_pools := credit (amount_on (returned obs) ?items) (rd_pools db), rd_items := map ?h (rd_items db)\<rparr>"
      "pools_bounded (rd_pools d)"
      using settle_items_Inr [OF d same] ledger_exceptD(8) [OF ok] by (auto simp: settle_rows_def)
    show ?thesis unfolding db' d'(1)
      by (rule ledger_ok_resolved [OF ok r, where b = "returned obs" and g = "amount_on (returned obs) ?items"])
         (use d'(2) in \<open>auto simp: f reservation_items_def amount_on_sort item_charge_def returned_def d'(1)\<close>)
  qed
qed

lemma define_pool_ledger:
  assumes ok: "ledger_ok_except K db" and res: "define_pool db pool t c renewable = Inr db'"
  shows "ledger_ok_except K db'"
proof -
  let ?k = "(pool, type_text t)"
  have c: "c < 2 ^ 63" using res by (auto simp: define_pool_def sql_amount_def split: if_splits)
  consider "db' = db"
    | a where "db' = db\<lparr>rd_pools := (rd_pools db)(?k \<mapsto> \<lparr>po_capacity = c, po_available = a, po_renewable = renewable\<rparr>)\<rparr>"
        "a \<le> c" "?k \<notin> K \<Longrightarrow> a + outstanding db ?k = c"
  proof (cases "rd_pools db ?k")
    case None
    have "it_key i \<noteq> ?k" if "i \<in> set (rd_items db)" for i using ledger_exceptD(4) [OF ok that] None by metis
    then have "outstanding db ?k = 0" by (auto simp: outstanding_def amount_on_def filter_empty_conv)
    with None res that(2) [of c] show thesis by (auto simp: define_pool_def sql_amount_def Let_def split: if_splits)
  next
    case (Some p)
    show thesis
    proof (cases "po_capacity p \<le> po_available p + c")
      case True
      have "po_available p + c - po_capacity p \<le> c" using ledger_exceptD(7) [OF ok Some] by linarith
      moreover have "po_available p + c - po_capacity p + outstanding db ?k = c" if "?k \<notin> K"
        using ledger_exceptD(6) [OF ok that Some] True by linarith
      ultimately show thesis using Some True res that(2)
        by (auto simp: define_pool_def sql_amount_def Let_def split: if_splits)
    next
      case False
      with Some res that(1) show thesis
        by (auto simp: define_pool_def sql_amount_def Let_def split: if_splits)
    qed
  qed
  then show ?thesis
  proof cases
    case 1 with ok show ?thesis by simp
  next
    case (2 a)
    have out: "outstanding db' = outstanding db" unfolding outstanding_def 2 by simp
    have pools: "rd_pools db' k = (if k = ?k then Some \<lparr>po_capacity = c, po_available = a, po_renewable = renewable\<rparr> else rd_pools db k)" for k
      by (simp add: 2)
    show ?thesis
      unfolding ledger_ok_except_def out
    proof (intro conjI ballI allI impI)
      fix i assume "i \<in> set (rd_items db')"
      then have i: "i \<in> set (rd_items db)" by (simp add: 2)
      show "find_reservation db' (it_reservation i) \<noteq> None" using ledger_exceptD(3) [OF ok i] by (simp add: 2)
      show "rd_pools db' (it_key i) \<noteq> None" using ledger_exceptD(4) [OF ok i] by (simp add: pools)
      show "it_granted i < 2 ^ 63" by (rule ledger_exceptD(5) [OF ok i])
    next
      show "pools_bounded (rd_pools db')"
        using ledger_exceptD(8) [OF ok] 2(2) c by (simp add: pools_bounded_def pools)
    next
      fix k p assume "k \<notin> K" "rd_pools db' k = Some p"
      then show "po_available p + outstanding db k = po_capacity p"
        using ledger_exceptD(6) [OF ok, of k p] 2(3) by (auto simp: pools split: if_splits)
    qed (use ledger_exceptD(1,2) [OF ok] in \<open>simp_all add: 2\<close>)
  qed
qed

lemma outstanding_same_items:
  "rd_items db' = rd_items db \<Longrightarrow> charge db' = charge db \<Longrightarrow> outstanding db' = outstanding db"
  by (simp add: outstanding_def)

lemma charge_same_states:
  assumes "\<And>r. rv_id (f r) = rv_id r" "\<And>r. rv_state (f r) = rv_state r"
  shows "charge (update_reservation rid f db) = charge db"
proof
  fix i show "charge (update_reservation rid f db) i = charge db i"
    unfolding charge_def find_update_reservation [of f, OF assms(1)] by (auto simp: assms(2) split: option.splits)
qed

lemma renew_ledger:
  assumes ok: "ledger_ok_except K db" and res: "renew now db rid ex actor why = Inr db'"
  shows "ledger_ok_except K db'"
proof -
  let ?f = "\<lambda>r. case rv_expires_at r of None \<Rightarrow> r\<lparr>rv_expires_at := Some ex\<rparr>
    | Some t \<Rightarrow> if t < ex then r\<lparr>rv_expires_at := Some ex\<rparr> else r"
  have f: "rv_id (?f r) = rv_id r" "rv_state (?f r) = rv_state r" for r by (auto split: option.splits)
  have db': "db' = log_event rid ''renewed'' actor why now (update_reservation rid ?f db)"
    using res by (auto simp: renew_def result_simps split: if_splits)
  have ch: "charge db' = charge db" unfolding db' charge_cong(1) by (rule charge_same_states) (rule f)+
  have out: "outstanding db' = outstanding db" by (rule outstanding_same_items) (simp_all only: ch, simp add: db')
  have ids: "map rv_id (rd_reservations db') = map rv_id (rd_reservations db)"
    unfolding db' row_frames by (rule ids_update) (rule f)
  have fd: "find_reservation db' x = None \<longleftrightarrow> find_reservation db x = None" for x
    unfolding db' row_frames by (simp add: find_update_reservation [of ?f, OF f(1)])
  have "rd_pools db' = rd_pools db" "rd_items db' = rd_items db" by (simp_all add: db')
  then show ?thesis using ok unfolding ledger_ok_except_def out ids fd by simp
qed

lemma ledger_ok_logged [simp]: "ledger_ok_except K (log_event a b c d e db) \<longleftrightarrow> ledger_ok_except K db"
  by (simp add: ledger_ok_except_def outstanding_def)

lemma ledger_ok_evidence [simp]: "ledger_ok_except K (db\<lparr>rd_evidence := E\<rparr>) \<longleftrightarrow> ledger_ok_except K db"
proof -
  have "charge (db\<lparr>rd_evidence := E\<rparr>) = charge db" by (rule ext) (simp add: charge_def)
  then show ?thesis by (simp add: ledger_ok_except_def outstanding_def)
qed

lemma recover_ledger:
  assumes ok: "ledger_ok_except K db" and res: "recover_reservation now db rid ev = (out, db')"
  shows "ledger_ok_except K db'"
proof -
  define mid where "mid = log_event rid ''liveness-observed'' (lv_provenance ev) (liveness_text (lv_resolution ev)) now
    (db\<lparr>rd_evidence := rd_evidence db @ [(rid, ev, now)]\<rparr>)"
  have mid: "ledger_ok_except K mid" using ok by (simp add: mid_def)
  from res have "db' = db \<or> db' = mid \<or> resolve_returning now mid rid Recovered (lv_provenance ev)
      ''exact owner instance provably dead'' = Inr db'"
    unfolding recover_reservation_def mid_def [symmetric] Let_def
    by (auto split: option.splits if_splits sum.splits)
  then show ?thesis using ok mid resolve_returning_ledger [OF mid] by blast
qed

lemma expire_all_ledger: "ledger_ok_except K db \<Longrightarrow> expire_all clock ids db = (out, db') \<Longrightarrow> ledger_ok_except K db'"
  by (induction ids arbitrary: db) (auto split: sum.splits intro: resolve_returning_ledger)

lemma expire_due_ledger: "ledger_ok_except K db \<Longrightarrow> expire_due clock db now = (out, db') \<Longrightarrow> ledger_ok_except K db'"
  by (auto simp: expire_due_def Let_def split: prod.splits intro: expire_all_ledger)

lemma find_insert_reservation:
  "insert_reservation row db = Inr db' \<Longrightarrow>
   find_reservation db (rv_id row) = None \<and> rd_pools db' = rd_pools db \<and> rd_items db' = rd_items db
   \<and> rd_reservations db' = rd_reservations db @ [row]
   \<and> find_reservation db' x = (if x = rv_id row then Some row else find_reservation db x)"
proof -
  assume ins: "insert_reservation row db = Inr db'"
  then have fresh: "rv_id row \<notin> rv_id ` set (rd_reservations db)"
    by (auto simp: insert_reservation_def list_ex_iff split: if_splits)
  have "find (\<lambda>r. rv_id r = x) (rs @ [row]) = (if x = rv_id row then Some row else find (\<lambda>r. rv_id r = x) rs)"
    if "rv_id row \<notin> rv_id ` set rs" for rs using that by (induction rs) auto
  from this [OF fresh] ins fresh show ?thesis
    by (auto simp: insert_reservation_def find_reservation_def find_None_iff image_iff split: if_splits)
qed

text \<open>What a granted acquisition did: the reservation and its items are new, and the pools held the grants.\<close>

definition acquired_row :: "string \<Rightarrow> string \<Rightarrow> reservation_db \<Rightarrow> reservation_owner \<Rightarrow> string option \<Rightarrow> reservation_row" where
  "acquired_row hex now db owner ex =
     \<lparr>rv_id = ''res_'' @ hex, rv_owner = owner, rv_state = Held, rv_sequence = next_sequence db,
      rv_acquired_at = now, rv_expires_at = ex, rv_resolved_at = None, rv_unknown = False, rv_overrun = False\<rparr>"

lemma acquired_row_sel [simp]:
  "rv_id (acquired_row hex now db owner ex) = ''res_'' @ hex"
  "rv_state (acquired_row hex now db owner ex) = Held"
  by (simp_all add: acquired_row_def)

lemma acquire_Granted_iff:
  "acquire hex now db owner rs mode ex = Inr (Granted g, db') \<longleftrightarrow>
     validate_owner owner = Inr () \<and> validate_requests rs = Inr ()
     \<and> (mode = AllOrNothing \<longrightarrow> (\<forall>r\<in>set rs. rs_amount r \<le> available_of db r))
     \<and> grants_of mode db rs \<noteq> []
     \<and> g = \<lparr>rg_id = ''res_'' @ hex, rg_sequence = next_sequence db, rg_items = grants_of mode db rs\<rparr>
     \<and> (\<exists>mid db2. insert_reservation (acquired_row hex now db owner ex) db = Inr mid
          \<and> insert_grants (''res_'' @ hex) (grants_of mode db rs) mid = Inr db2
          \<and> db' = log_event (''res_'' @ hex) ''acquired'' (ow_instance_id owner)
              (case mode of AllOrNothing \<Rightarrow> ''all-or-nothing'' | Partial \<Rightarrow> ''partial'') now db2)"
  unfolding acquire_def acquired_row_def [symmetric] Let_def
  by (auto simp: result_simps filter_empty_conv not_less split: if_splits)

lemma acquire_refused: "acquire hex now db owner rs mode ex = Inr (Refused u, db') \<Longrightarrow> db' = db"
  by (auto simp: acquire_def result_simps Let_def split: if_splits)

lemma granted_ledger:
  assumes ok: "ledger_ok_except K db" and st: "rv_state row = Held" and ins: "insert_reservation row db = Inr mid"
    and gr: "insert_grants (rv_id row) gs mid = Inr db2"
  shows "ledger_ok_except K db2 \<and> rd_pools db = credit (amount_on it_granted (map (new_item (rv_id row)) gs)) (rd_pools db2)
    \<and> rd_items db2 = rd_items db @ map (new_item (rv_id row)) gs
    \<and> (\<forall>x. find_reservation db2 x = (if x = rv_id row then Some row else find_reservation db x))"
proof -
  let ?new = "map (new_item (rv_id row)) gs"
  note i = find_insert_reservation [OF ins]
  note c = insert_grants_credit [OF gr]
  have fresh: "rv_id row \<notin> rv_id ` set (rd_reservations db)"
    using conjunct1 [OF i] by (auto simp: find_reservation_def find_None_iff)
  have frame: "db2 = mid\<lparr>rd_pools := rd_pools db2, rd_items := rd_items mid @ ?new\<rparr>" using c by blast
  have items: "rd_items db2 = rd_items db @ ?new" and resv: "rd_reservations db2 = rd_reservations db @ [row]"
    by (subst frame, simp add: i)+
  have fnd: "find_reservation db2 x = (if x = rv_id row then Some row else find_reservation db x)" for x
    by (subst frame) (simp add: i)
  have pools: "rd_pools db = credit (amount_on it_granted ?new) (rd_pools db2)" using c i by metis
  have old: "it_reservation j \<noteq> rv_id row" if "j \<in> set (rd_items db)" for j
    using ledger_exceptD(3) [OF ok that] i by metis
  have ch_old: "charge db2 j = charge db j" if "j \<in> set (rd_items db)" for j
    using old [OF that] by (simp add: charge_def fnd)
  have ch_new: "charge db2 (new_item (rv_id row) g) = gi_granted g" for g
    by (simp add: charge_def fnd item_charge_def st)
  have out: "outstanding db2 k = outstanding db k + amount_on it_granted ?new k" for k
  proof -
    have "amount_on (charge db2) (rd_items db) k = outstanding db k"
      unfolding outstanding_def by (rule amount_on_cong) (rule ch_old)
    moreover have "amount_on (charge db2) ?new k = amount_on it_granted ?new k"
      by (rule amount_on_cong) (auto simp: ch_new)
    ultimately show ?thesis by (simp add: outstanding_def items ledger)
  qed
  have dom: "rd_pools db2 k = None \<longleftrightarrow> rd_pools db k = None" for k by (simp add: pools)
  have "ledger_ok_except K db2"
    unfolding ledger_ok_except_def
  proof (intro conjI ballI allI impI)
    show "distinct (map rv_id (rd_reservations db2))"
      using ledger_exceptD(1) [OF ok] fresh by (simp add: resv)
    show "distinct (map (\<lambda>i. (it_reservation i, it_key i)) (rd_items db2))"
      using ledger_exceptD(2) [OF ok] c old by (auto simp: items distinct_map inj_on_def i)
  next
    fix j assume j: "j \<in> set (rd_items db2)"
    then consider "j \<in> set (rd_items db)" | g where "g \<in> set gs" "j = new_item (rv_id row) g" by (auto simp: items)
    then have "find_reservation db2 (it_reservation j) \<noteq> None \<and> rd_pools db2 (it_key j) \<noteq> None \<and> it_granted j < 2 ^ 63"
    proof cases
      case 1 with ledger_exceptD(3-5) [OF ok 1] show ?thesis by (simp add: fnd dom)
    next
      case (2 g)
      then have "rd_pools mid (grant_key g) \<noteq> None \<and> gi_granted g < 2 ^ 63" using c by blast
      with 2(2) i show ?thesis by (simp add: fnd dom)
    qed
    then show "find_reservation db2 (it_reservation j) \<noteq> None" "rd_pools db2 (it_key j) \<noteq> None" "it_granted j < 2 ^ 63"
      by blast+
  next
    show "pools_bounded (rd_pools db2)"
      unfolding pools_bounded_def
    proof (intro allI impI)
      fix k p assume "rd_pools db2 k = Some p"
      then have "rd_pools db k = Some (p\<lparr>po_available := po_available p + amount_on it_granted ?new k\<rparr>)"
        by (simp add: pools credit_def)
      from ledger_exceptD(7) [OF ok this] show "po_available p \<le> po_capacity p \<and> po_capacity p < 2 ^ 63" by simp
    qed
  next
    fix k p assume k: "k \<notin> K" and p: "rd_pools db2 k = Some p"
    then have "rd_pools db k = Some (p\<lparr>po_available := po_available p + amount_on it_granted ?new k\<rparr>)"
      by (simp add: pools credit_def)
    from ledger_exceptD(6) [OF ok k this] show "po_available p + outstanding db2 k = po_capacity p"
      by (simp add: out)
  qed
  then show ?thesis using pools items fnd by blast
qed

lemma acquire_ledger:
  assumes ok: "ledger_ok_except K db" and res: "acquire hex now db owner rs mode ex = Inr (out, db')"
  shows "ledger_ok_except K db'"
proof (cases out)
  case (Refused u) with ok res show ?thesis by (auto dest: acquire_refused)
next
  case (Granted g)
  from res [unfolded Granted acquire_Granted_iff] obtain mid db2
    where ins: "insert_reservation (acquired_row hex now db owner ex) db = Inr mid"
      and gr: "insert_grants (''res_'' @ hex) (grants_of mode db rs) mid = Inr db2"
      and db': "db' = log_event (''res_'' @ hex) ''acquired'' (ow_instance_id owner)
              (case mode of AllOrNothing \<Rightarrow> ''all-or-nothing'' | Partial \<Rightarrow> ''partial'') now db2"
    by blast
  have "ledger_ok_except K db2"
    using granted_ledger [OF ok acquired_row_sel(2) ins] gr unfolding acquired_row_sel by blast
  then show ?thesis unfolding db' ledger_ok_logged .
qed

lemma step_ledger: "reservation_step db db' \<Longrightarrow> ledger_ok_except K db \<Longrightarrow> ledger_ok_except K db'"
  by (induction rule: reservation_step.induct)
     (auto simp: release_def intro: define_pool_ledger acquire_ledger settle_ledger resolve_returning_ledger
        expire_due_ledger renew_ledger recover_ledger)

lemma reachable_ledger: "reservation_reachable db \<Longrightarrow> ledger_ok db"
proof (induction rule: reservation_reachable.induct)
  case start show ?case by (simp add: ledger_ok_def ledger_ok_except_def pools_bounded_def no_reservations_def)
next
  case (step db db') then show ?case unfolding ledger_ok_def by (blast intro: step_ledger)
qed

section \<open>The abstract ledger of held amounts\<close>

record abstract_ledger =
  al_free :: "pool_key \<Rightarrow> nat option"
  al_held :: "string \<Rightarrow> (pool_key \<Rightarrow> nat) option"

definition ledger_view :: "reservation_db \<Rightarrow> abstract_ledger" where
  "ledger_view db =
     \<lparr>al_free = (\<lambda>k. map_option po_available (rd_pools db k)),
      al_held = (\<lambda>rid. case find_reservation db rid of
        Some r \<Rightarrow> if rv_state r = Held then Some (held_amount db rid) else None | None \<Rightarrow> None)\<rparr>"

definition take_amounts :: "string \<Rightarrow> (pool_key \<Rightarrow> nat) \<Rightarrow> abstract_ledger \<Rightarrow> abstract_ledger" where
  "take_amounts rid a L =
     L\<lparr>al_free := (\<lambda>k. map_option (\<lambda>n. n - a k) (al_free L k)), al_held := (al_held L)(rid \<mapsto> a)\<rparr>"

definition give_amounts :: "string \<Rightarrow> abstract_ledger \<Rightarrow> abstract_ledger" where
  "give_amounts rid L =
     (case al_held L rid of
        None \<Rightarrow> L
      | Some a \<Rightarrow> L\<lparr>al_free := (\<lambda>k. map_option (\<lambda>n. n + a k) (al_free L k)), al_held := (al_held L)(rid := None)\<rparr>)"

definition request_key :: "resource_request \<Rightarrow> pool_key" where
  "request_key r = (rs_pool_id r, type_text (rs_type r))"

definition requested_on :: "resource_request list \<Rightarrow> pool_key \<Rightarrow> nat" where
  "requested_on rs k = sum_list (map rs_amount (filter (\<lambda>r. request_key r = k) rs))"

lemma validate_requests_positive: "validate_requests rs = Inr u \<Longrightarrow> r \<in> set rs \<Longrightarrow> 0 < rs_amount r"
proof -
  have "requests_valid seen rs \<Longrightarrow> r \<in> set rs \<Longrightarrow> 0 < rs_amount r" for seen
    by (induction rs arbitrary: seen) auto
  then show "validate_requests rs = Inr u \<Longrightarrow> r \<in> set rs \<Longrightarrow> 0 < rs_amount r"
    by (auto simp: validate_requests_def result_simps)
qed

lemma amount_on_grants:
  assumes "\<forall>r\<in>set rs. 0 < rs_amount r"
  shows "amount_on it_granted (map (new_item rid) (grants_of AllOrNothing db rs)) k = requested_on rs k"
proof -
  have "filter (\<lambda>r. 0 < granted_amount AllOrNothing db r) rs = rs" using assms by (simp add: granted_amount_def)
  then have "amount_on it_granted (map (new_item rid) (grants_of AllOrNothing db rs)) k
      = amount_on it_granted (map (\<lambda>r. new_item rid \<lparr>gi_pool_id = rs_pool_id r, gi_type = rs_type r,
          gi_requested = rs_amount r, gi_granted = rs_amount r\<rparr>) rs) k"
    by (simp add: grants_of_def granted_amount_def comp_def)
  also have "\<dots> = requested_on rs k"
    unfolding requested_on_def
    by (induction rs) (auto simp: ledger grant_key_def request_key_def)
  finally show ?thesis .
qed

lemma held_amount_append:
  assumes "\<And>i. i \<in> set (rd_items db) \<Longrightarrow> it_reservation i \<noteq> rid" "rd_items db' = rd_items db @ map (new_item rid) gs"
  shows "held_amount db' x k = (if x = rid then amount_on it_granted (map (new_item rid) gs) k else held_amount db x k)"
proof -
  have "filter (\<lambda>i. it_reservation i = rid) (rd_items db) = []" using assms(1) by (auto simp: filter_empty_conv)
  then show ?thesis by (auto simp: held_amount_alt assms(2) ledger filter_map comp_def)
qed

lemma granted_view:
  assumes ok: "ledger_ok db" and res: "acquire hex now db owner rs AllOrNothing ex = Inr (Granted g, db')"
  shows "ledger_view db' = take_amounts (rg_id g) (requested_on rs) (ledger_view db)"
proof -
  let ?rid = "''res_'' @ hex"
  let ?new = "map (new_item ?rid) (grants_of AllOrNothing db rs)"
  from res [unfolded acquire_Granted_iff] obtain mid db2
    where ins: "insert_reservation (acquired_row hex now db owner ex) db = Inr mid"
      and gr: "insert_grants ?rid (grants_of AllOrNothing db rs) mid = Inr db2"
      and db': "db' = log_event ?rid ''acquired'' (ow_instance_id owner) ''all-or-nothing'' now db2"
      and pos: "validate_requests rs = Inr ()" and rid: "rg_id g = ?rid"
    by auto
  have g: "rd_pools db = credit (amount_on it_granted ?new) (rd_pools db2)"
    "rd_items db2 = rd_items db @ ?new"
    "\<And>x. find_reservation db2 x = (if x = ?rid then Some (acquired_row hex now db owner ex) else find_reservation db x)"
    using granted_ledger [OF ok [unfolded ledger_ok_def] acquired_row_sel(2) ins] gr unfolding acquired_row_sel by blast+
  have old: "it_reservation i \<noteq> ?rid" if "i \<in> set (rd_items db)" for i
    using ledger_okD(3) [OF ok that] find_insert_reservation [OF ins] unfolding acquired_row_sel by metis
  have amt: "amount_on it_granted ?new = requested_on rs"
    by (rule ext, rule amount_on_grants) (use validate_requests_positive [OF pos] in blast)
  have held: "held_amount db2 x = (if x = ?rid then requested_on rs else held_amount db x)" for x
    using held_amount_append [OF old g(2)] amt by (auto simp: fun_eq_iff)
  have same: "held_amount db' = held_amount db2" by (rule ext)+ (simp add: db' held_amount_alt)
  have free: "map_option po_available (rd_pools db2 k) = map_option (\<lambda>n. n - requested_on rs k) (map_option po_available (rd_pools db k))" for k
    unfolding g(1) amt by (simp add: credit_def option.map_comp comp_def)
  show ?thesis
    unfolding ledger_view_def take_amounts_def rid db' same [unfolded db'] row_frames
    by (auto simp: free held g(3) fun_eq_iff split: option.splits)
qed

lemma available_of_view: "rs_amount r \<le> available_of db r \<longleftrightarrow>
    rs_amount r \<le> (case al_free (ledger_view db) (request_key r) of None \<Rightarrow> 0 | Some n \<Rightarrow> n)"
  by (simp add: available_of_def ledger_view_def request_key_def split: option.splits)

lemma refused_AllOrNothing:
  assumes "acquire hex now db owner rs AllOrNothing ex = Inr (Refused u, db')"
  shows "u \<noteq> [] \<and> u = filter (\<lambda>r. available_of db r < rs_amount r) rs"
proof -
  from assms have v: "validate_requests rs = Inr ()" by (auto simp: acquire_def result_simps)
  then have "rs \<noteq> []" by (auto simp: validate_requests_def result_simps)
  moreover have "filter (\<lambda>r. 0 < granted_amount AllOrNothing db r) rs = rs"
    using validate_requests_positive [OF v] by (auto simp: granted_amount_def)
  ultimately have "grants_of AllOrNothing db rs \<noteq> []" by (simp add: grants_of_def)
  with assms show ?thesis by (auto simp: acquire_def result_simps Let_def split: if_splits)
qed

lemma find_resolved:
  assumes "ledger_ok db" "find_reservation db rid = Some r" "rv_state r = Held"
    "resolve_returning now db rid st actor detail = Inr db'"
  shows "find_reservation db' x
    = (if x = rid then Some (r\<lparr>rv_state := st, rv_resolved_at := Some now\<rparr>) else find_reservation db x)"
  using assms(4) [unfolded resolve_returning_credit [OF assms(1-3)]] assms(2)
  by (auto simp: find_update_reservation option.map_ident)

lemma resolved_view:
  assumes ok: "ledger_ok db" and r: "find_reservation db rid = Some r" "rv_state r = Held" and st: "st \<noteq> Held"
    and res: "resolve_returning now db rid st actor detail = Inr db'"
  shows "ledger_view db' = give_amounts rid (ledger_view db)"
proof -
  have "held_amount db' = held_amount db"
    using res [unfolded resolve_returning_credit [OF ok r]] by (intro ext) (auto simp: held_amount_alt)
  moreover have "rd_pools db' = credit (held_amount db rid) (rd_pools db)"
    using res [unfolded resolve_returning_credit [OF ok r]] by auto
  ultimately show ?thesis
    using r st by (auto simp: ledger_view_def give_amounts_def find_resolved [OF ok r res] credit_def
      option.map_comp comp_def fun_eq_iff split: option.splits)
qed

section \<open>Expiry\<close>

lemma set_due:
  "rid \<in> set (due now db) \<longleftrightarrow> (\<exists>r\<in>set (rd_reservations db). rv_id r = rid \<and> rv_state r = Held
     \<and> (case rv_expires_at r of Some t \<Rightarrow> t \<le> now | None \<Rightarrow> False))"
  by (auto simp: due_def)

lemma find_in_rows:
  "distinct (map rv_id (rd_reservations db)) \<Longrightarrow> r \<in> set (rd_reservations db) \<Longrightarrow> find_reservation db (rv_id r) = Some r"
  unfolding find_reservation_def
proof (induction "rd_reservations db" arbitrary: db)
  case (Cons a rs)
  from Cons.hyps(1) [of "db\<lparr>rd_reservations := rs\<rparr>"] Cons.prems show ?case
    unfolding Cons.hyps(2) [symmetric] by (auto simp: image_iff)
qed simp

definition expire_rows :: "string \<Rightarrow> string set \<Rightarrow> reservation_row list \<Rightarrow> reservation_row list" where
  "expire_rows clock ids = map (\<lambda>r. if rv_id r \<in> ids then r\<lparr>rv_state := Expired, rv_resolved_at := Some clock\<rparr> else r)"

lemma expire_all_runs:
  "ledger_ok db \<Longrightarrow> distinct ids \<Longrightarrow> \<forall>x\<in>set ids. \<exists>r. find_reservation db x = Some r \<and> rv_state r = Held \<Longrightarrow>
   \<exists>db'. expire_all clock ids db = (Inr (), db')
     \<and> rd_reservations db' = expire_rows clock (set ids) (rd_reservations db)
     \<and> ledger_view db' = fold give_amounts ids (ledger_view db)"
proof (induction ids arbitrary: db)
  case Nil then show ?case by (simp add: expire_rows_def)
next
  case (Cons x ids)
  from Cons.prems(3) obtain r where r: "find_reservation db x = Some r" "rv_state r = Held" by auto
  obtain db1 where db1: "resolve_returning clock db x Expired ''expiry'' ''deadline passed'' = Inr db1"
    and rows: "rd_reservations db1 = expire_rows clock {x} (rd_reservations db)"
    using resolve_returning_credit [OF Cons.prems(1) r] by (simp add: expire_rows_def update_reservation_def)
  have ok: "ledger_ok db1" using resolve_returning_ledger [OF Cons.prems(1) [unfolded ledger_ok_def] _ db1] by (simp add: ledger_ok_def)
  have fnd: "\<forall>y\<in>set ids. \<exists>r. find_reservation db1 y = Some r \<and> rv_state r = Held"
    using Cons.prems(2,3) find_resolved [OF Cons.prems(1) r db1] by auto
  from Cons.IH [OF ok _ fnd] Cons.prems(2) obtain db' where
    db': "expire_all clock ids db1 = (Inr (), db')"
      "rd_reservations db' = expire_rows clock (set ids) (rd_reservations db1)"
      "ledger_view db' = fold give_amounts ids (ledger_view db1)" by auto
  have "expire_rows clock (set ids) (expire_rows clock {x} rs) = expire_rows clock (set (x # ids)) rs" for rs
    by (auto simp: expire_rows_def)
  with db1 db' rows show ?case by (simp add: resolved_view [OF Cons.prems(1) r _ db1])
qed

section \<open>Properties\<close>

definition sample_owner :: reservation_owner where
  "sample_owner = \<lparr>ow_instance_id = ''o'', ow_installation_id = None, ow_nonce = ''n'', ow_kind = ''k'',
     ow_project_id = ''p'', ow_execution_id = ''e'', ow_component_id = ''c''\<rparr>"

definition sample_requests :: "resource_request list" where
  "sample_requests = [\<lparr>rs_pool_id = ''s'', rs_type = UncachedTokens, rs_amount = 4\<rparr>]"

definition sample_pool :: reservation_db where
  "sample_pool = (case define_pool no_reservations ''s'' UncachedTokens 10 True of Inr d \<Rightarrow> d | Inl _ \<Rightarrow> no_reservations)"

definition sample_held :: reservation_db where
  "sample_held = (case acquire ''0'' ''t'' sample_pool sample_owner sample_requests AllOrNothing (Some ''1'') of
     Inr (_, d) \<Rightarrow> d | Inl _ \<Rightarrow> no_reservations)"

lemma sample_pool_ok: "define_pool no_reservations ''s'' UncachedTokens 10 True = Inr sample_pool"
  by (simp add: sample_pool_def define_pool_def sql_amount_def no_reservations_def Let_def)

lemma sample_held_ok:
  "acquire ''0'' ''t'' sample_pool sample_owner sample_requests AllOrNothing (Some ''1'')
   = Inr (Granted \<lparr>rg_id = ''res_0'', rg_sequence = 1, rg_items =
       [\<lparr>gi_pool_id = ''s'', gi_type = UncachedTokens, gi_requested = 4, gi_granted = 4\<rparr>]\<rparr>, sample_held)" (is "?run = Inr (Granted ?g, _)")
proof -
  have "case ?run of Inr (Granted g, _) \<Rightarrow> g = ?g | _ \<Rightarrow> False" by code_simp
  then show ?thesis by (auto simp: sample_held_def split: sum.splits prod.splits acquire_outcome.splits)
qed

lemma sample_reachable: "reservation_reachable sample_pool" "reservation_reachable sample_held"
  using reservation_reachable.intros step_define [OF sample_pool_ok] step_acquire [OF sample_held_ok] by blast+

text \<open>C8: An all-or-nothing acquisition refines the abstract operation on the ledger of free and held
  amounts: it is granted exactly when every requested amount is free, and then it takes exactly the
  requested amounts under the new reservation; a refusal names the requests that do not fit and changes
  nothing.\<close>

theorem acquire_refines_take:
  assumes "reservation_reachable db" "acquire hex now db owner rs AllOrNothing ex = Inr (out, db')"
  shows "case out of
      Granted g \<Rightarrow> (\<forall>r\<in>set rs. rs_amount r \<le> (case al_free (ledger_view db) (request_key r) of None \<Rightarrow> 0 | Some n \<Rightarrow> n))
        \<and> al_held (ledger_view db) (rg_id g) = None
        \<and> ledger_view db' = take_amounts (rg_id g) (requested_on rs) (ledger_view db)
    | Refused u \<Rightarrow> u \<noteq> [] \<and> db' = db
        \<and> u = filter (\<lambda>r. (case al_free (ledger_view db) (request_key r) of None \<Rightarrow> 0 | Some n \<Rightarrow> n) < rs_amount r) rs"
proof (cases out)
  case (Granted g)
  note res = assms(2) [unfolded Granted]
  from res [unfolded acquire_Granted_iff] obtain mid where
    fits: "\<forall>r\<in>set rs. rs_amount r \<le> available_of db r" and id: "rg_id g = ''res_'' @ hex"
    and ins: "insert_reservation (acquired_row hex now db owner ex) db = Inr mid" by auto
  have "al_held (ledger_view db) (rg_id g) = None"
    using find_insert_reservation [OF ins] unfolding acquired_row_sel by (simp add: ledger_view_def id)
  then show ?thesis
    using fits granted_view [OF reachable_ledger [OF assms(1)] res] Granted by (simp add: available_of_view)
next
  case (Refused u)
  have eq: "(case al_free (ledger_view db) (request_key r) of None \<Rightarrow> 0 | Some n \<Rightarrow> n) = available_of db r" for r
    by (simp add: available_of_def ledger_view_def request_key_def split: option.splits)
  show ?thesis
    unfolding Refused acquire_outcome.case eq
    using refused_AllOrNothing [OF assms(2) [unfolded Refused]] acquire_refused [OF assms(2) [unfolded Refused]]
    by blast
qed

theorem acquire_refines_take_witness:
  "ledger_view sample_held = take_amounts ''res_0'' (requested_on sample_requests) (ledger_view sample_pool)"
  using acquire_refines_take [OF sample_reachable(1) sample_held_ok] by simp

text \<open>Whatever happened before, a reservation that is held can be released: no constraint of the
  schema stops it, the whole amount it holds becomes free again, no other reservation changes, and the
  reservation is terminal afterwards.\<close>

lemma held_reservation_can_be_released:
  assumes "reservation_reachable db" "find_reservation db rid = Some r" "rv_state r = Held"
  shows "\<exists>db'. release now db rid actor = Inr db'
    \<and> ledger_view db' = give_amounts rid (ledger_view db)
    \<and> al_held (ledger_view db') rid = None
    \<and> find_reservation db' rid = Some (r\<lparr>rv_state := Released, rv_resolved_at := Some now\<rparr>)"
proof -
  note ok = reachable_ledger [OF assms(1)]
  obtain db' where db': "resolve_returning now db rid Released actor ''explicit release'' = Inr db'"
    using resolve_returning_credit [OF ok assms(2,3)] by blast
  show ?thesis
    using db' resolved_view [OF ok assms(2,3) _ db'] find_resolved [OF ok assms(2,3) db', of rid]
    by (auto simp: release_def give_amounts_def split: option.splits)
qed

lemma held_reservation_can_be_released_witness:
  "\<exists>db'. release ''u'' sample_held ''res_0'' ''a'' = Inr db'
     \<and> ledger_view db' = give_amounts ''res_0'' (ledger_view sample_held)"
proof -
  have "find_reservation sample_held ''res_0''
      = Some (acquired_row ''0'' ''t'' sample_pool sample_owner (Some ''1''))" by code_simp
  from held_reservation_can_be_released [OF sample_reachable(2) this] show ?thesis by auto
qed

text \<open>C9: Expiry always makes progress: it succeeds in every reachable state, returns the held
  reservations whose deadline passed, gives all they held back, leaves no held reservation with a passed
  deadline, and touches no other reservation.\<close>

theorem expiry_completes:
  assumes "reservation_reachable db"
  shows "\<exists>db'. expire_due clock db now = (Inr (due now db), db')
    \<and> ledger_view db' = fold give_amounts (due now db) (ledger_view db)
    \<and> due now db' = []
    \<and> rd_reservations db' = expire_rows clock (set (due now db)) (rd_reservations db)"
proof -
  note ok = reachable_ledger [OF assms]
  let ?rows = "filter (\<lambda>r. rv_state r = Held \<and> (case rv_expires_at r of Some t \<Rightarrow> t \<le> now | None \<Rightarrow> False)) (rd_reservations db)"
  have "mset (due now db) = mset (map rv_id ?rows)" by (simp add: due_def)
  moreover have "distinct (map rv_id ?rows)" using ledger_okD(1) [OF ok] by (simp add: distinct_map_filter)
  ultimately have dist: "distinct (due now db)" by (metis mset_eq_imp_distinct_iff)
  have held: "\<forall>x\<in>set (due now db). \<exists>r. find_reservation db x = Some r \<and> rv_state r = Held"
    using find_in_rows [OF ledger_okD(1) [OF ok]] by (auto simp: set_due)
  from expire_all_runs [OF ok dist held] obtain db' where
    db': "expire_all clock (due now db) db = (Inr (), db')"
      "rd_reservations db' = expire_rows clock (set (due now db)) (rd_reservations db)"
      "ledger_view db' = fold give_amounts (due now db) (ledger_view db)" by blast
  have "due now db' = []"
  proof -
    have "rid \<notin> set (due now db')" for rid
      unfolding set_due db'(2) expire_rows_def by (auto simp: set_due)
    then show ?thesis by (cases "due now db'") auto
  qed
  with db' show ?thesis by (simp add: expire_due_def)
qed

theorem expiry_completes_witness:
  "\<exists>db'. expire_due ''u'' sample_held ''1'' = (Inr [''res_0''], db') \<and> due ''1'' db' = []"
proof -
  have "due ''1'' sample_held = [''res_0'']" by code_simp
  with expiry_completes [OF sample_reachable(2), of "''u''" "''1''"] show ?thesis by auto
qed

end
