(* ===== verification/Control_Plane.thy ===== *)
theory Control_Plane
  imports Reservation
begin

text \<open>
  The durable state of the control plane: the types of \<open>crates/familiar-ai-core/src/control_plane.rs\<close>,
  the tables of the migrations 049 and 062, and the operations of
  \<open>crates/familiar-ai-storage/src/repos/control_plane.rs\<close>, which queue, claim, finish and recover
  executions and keep the leases of repositories.

  A table is the list of its rows in insertion order; a statement checks the keys, the \<open>CHECK\<close> clauses
  and the foreign keys it could violate, and a violation is an error that rolls the transaction back.
  The columns with a \<open>CHECK\<close> on a list of names hold the constructor of the name. The clock is the
  argument \<open>now\<close>, in milliseconds; \<open>datetime('now')\<close> is its second, and all statements of one operation
  read the same clock. The list of authorities of a session is stored as such, and JSON text is only
  tested and printed, through the functions of \<open>control_env\<close>.
\<close>

section \<open>Types\<close>

datatype execution_mode = Detached | Attached | ForegroundOnly

definition mode_text :: "execution_mode \<Rightarrow> string" where
  "mode_text m = (case m of Detached \<Rightarrow> ''detached'' | Attached \<Rightarrow> ''attached'' | ForegroundOnly \<Rightarrow> ''foreground_only'')"

datatype project_state = Project_Active | Project_Paused | Project_Archived

datatype execution_state =
  Queued | Running | Paused | Completed | Failed | Cancelled | ForegroundEnded | AmbiguousLiveOrphan

record submission =
  sb_execution_id :: string
  sb_project_id :: string
  sb_idempotency_key :: string
  sb_mode :: execution_mode
  sb_priority :: int
  sb_command_json :: string

record execution_record =
  xr_execution_id :: string
  xr_project_id :: string
  xr_mode :: execution_mode
  xr_state :: execution_state
  xr_attempt :: nat
  xr_worker :: "string option"
  xr_command_json :: string

record submission_ack =
  ak_execution_id :: string
  ak_duplicate :: bool
  ak_cursor :: nat

datatype client_class = Operator | Observer | Mcp | Worker | Internal

datatype authority =
  Observe | Control | ReadWarrant | ReadAccountingLabels | ReportProgress | SubmitEvidence | RequestEscalation

record capability_scope =
  cs_client_class :: client_class
  cs_project_id :: "string option"
  cs_execution_id :: "string option"
  cs_attempt :: "nat option"
  cs_worker_id :: "string option"
  cs_authorities :: "authority list"

record scheduling_policy =
  sp_global_ceiling :: nat
  sp_default_project_ceiling :: nat

definition default_policy :: scheduling_policy where
  "default_policy = \<lparr>sp_global_ceiling = 1, sp_default_project_ceiling = 1\<rparr>"

subsection \<open>Names\<close>

definition parse_mode :: "string \<Rightarrow> execution_mode" where
  "parse_mode s = (if s = ''attached'' then Attached else if s = ''foreground_only'' then ForegroundOnly else Detached)"

definition state_name :: "execution_state \<Rightarrow> string" where
  "state_name s = (case s of Queued \<Rightarrow> ''queued'' | Running \<Rightarrow> ''running'' | Paused \<Rightarrow> ''paused''
     | Completed \<Rightarrow> ''completed'' | Failed \<Rightarrow> ''failed'' | Cancelled \<Rightarrow> ''cancelled''
     | ForegroundEnded \<Rightarrow> ''foreground_ended'' | AmbiguousLiveOrphan \<Rightarrow> ''ambiguous_live_orphan'')"

definition parse_state :: "string \<Rightarrow> execution_state" where
  "parse_state s =
     (if s = ''running'' then Running else if s = ''paused'' then Paused
      else if s = ''completed'' then Completed else if s = ''failed'' then Failed
      else if s = ''cancelled'' then Cancelled else if s = ''foreground_ended'' then ForegroundEnded
      else if s = ''ambiguous_live_orphan'' then AmbiguousLiveOrphan else Queued)"

definition client_class_name :: "client_class \<Rightarrow> string" where
  "client_class_name c = (case c of Operator \<Rightarrow> ''operator'' | Observer \<Rightarrow> ''observer'' | Mcp \<Rightarrow> ''mcp''
     | Worker \<Rightarrow> ''worker'' | Internal \<Rightarrow> ''internal'')"

definition parse_client :: "string \<Rightarrow> client_class" where
  "parse_client s = (if s = ''operator'' then Operator else if s = ''observer'' then Observer
     else if s = ''mcp'' then Mcp else if s = ''worker'' then Worker else Internal)"

definition project_state_name :: "project_state \<Rightarrow> string" where
  "project_state_name s = (case s of Project_Active \<Rightarrow> ''active'' | Project_Paused \<Rightarrow> ''paused''
     | Project_Archived \<Rightarrow> ''archived'')"

definition parse_project_state :: "string \<Rightarrow> project_state option" where
  "parse_project_state s = (if s = ''active'' then Some Project_Active
     else if s = ''paused'' then Some Project_Paused
     else if s = ''archived'' then Some Project_Archived else None)"

lemma parse_state_name [simp]: "parse_state (state_name s) = s"
  by (cases s) (simp_all add: parse_state_def state_name_def)

lemma parse_mode_text [simp]: "parse_mode (mode_text m) = m"
  by (cases m) (simp_all add: parse_mode_def mode_text_def)

lemma parse_client_name [simp]: "parse_client (client_class_name c) = c"
  by (cases c) (simp_all add: parse_client_def client_class_name_def)

lemma parse_project_state_name [simp]: "parse_project_state (project_state_name s) = Some s"
  by (cases s) (simp_all add: parse_project_state_def project_state_name_def)

section \<open>Tables\<close>

record project_row =
  pj_id :: string
  pj_root :: string
  pj_priority :: int
  pj_ceiling :: nat
  pj_state :: project_state
  pj_last_claim :: nat
  pj_created :: nat
  pj_updated :: nat

record execution_entry =
  ex_id :: string
  ex_project :: string
  ex_key :: string
  ex_mode :: execution_mode
  ex_priority :: int
  ex_state :: execution_state
  ex_attempt :: nat
  ex_generation :: "nat option"
  ex_worker :: "string option"
  ex_command :: string
  ex_created :: nat
  ex_updated :: nat
  ex_completed :: "nat option"

text \<open>Also the type \<open>ControlEvent\<close>, which has the first five columns.\<close>

record control_event =
  cv_cursor :: nat
  cv_id :: string
  cv_execution :: string
  cv_kind :: string
  cv_payload :: string
  cv_created :: nat

record session_row =
  cn_hash :: string
  cn_scope :: capability_scope
  cn_expires :: nat
  cn_revoked :: "nat option"

datatype worker_state = Worker_Launching | Worker_Running | Worker_Adopted | Worker_Exited | Worker_Ambiguous

record worker_row =
  wk_identity :: string
  wk_execution :: string
  wk_attempt :: nat
  wk_pid :: nat
  wk_start :: string
  wk_token_hash :: string
  wk_generation :: nat
  wk_state :: worker_state
  wk_exit_reason :: "string option"
  wk_started :: nat
  wk_ended :: "nat option"

record gate_row =
  gt_id :: string
  gt_project :: string
  gt_execution :: string
  gt_session :: string
  gt_request :: string
  gt_created :: nat

record divergence_row =
  dv_id :: string
  dv_project :: string
  dv_execution :: "string option"
  dv_kind :: string
  dv_detail :: string
  dv_recorded :: nat

record lease_record =
  le_repository :: string
  le_host :: string
  le_process :: string
  le_token :: string
  le_acquired :: nat
  le_renewed :: nat
  le_expires :: nat
  le_generation :: int

record lease_event =
  lx_repository :: string
  lx_kind :: string
  lx_prior_host :: "string option"
  lx_prior_process :: "string option"
  lx_new_host :: "string option"
  lx_new_process :: "string option"
  lx_recorded :: nat

text \<open>The columns of the accounting tables that the control plane writes.\<close>

record history_row =
  hs_execution :: string
  hs_started :: nat
  hs_ended :: "nat option"
  hs_duration_ms :: "nat option"
  hs_agent :: string
  hs_outcome :: string
  hs_repository :: string
  hs_worktree :: string

record evidence_row =
  av_id :: string
  av_execution :: string
  av_terminal :: string
  av_source_hash :: string
  av_observed :: nat

record observation_row =
  ob_id :: string
  ob_evidence :: string
  ob_project :: string
  ob_execution :: string
  ob_attempt :: string
  ob_worker :: string
  ob_period_start :: nat
  ob_period_end :: nat

record control_db =
  cd_ledger :: reservation_db
  cd_installation :: "string option"
  cd_projects :: "project_row list"
  cd_executions :: "execution_entry list"
  cd_events :: "control_event list"
  cd_cursor :: nat
  cd_sessions :: "session_row list"
  cd_workers :: "worker_row list"
  cd_gates :: "gate_row list"
  cd_divergences :: "divergence_row list"
  cd_leases :: "string \<Rightarrow> lease_record option"
  cd_lease_events :: "lease_event list"
  cd_history :: "history_row list"
  cd_evidence :: "evidence_row list"
  cd_observations :: "observation_row list"

record control_env =
  cx_json_ok :: "string \<Rightarrow> bool"
  cx_reason_json :: "string \<Rightarrow> string"
  cx_reason_of :: "string \<Rightarrow> string option"
  cx_datetime :: "nat \<Rightarrow> string"

type_synonym 'a tx = "familiar_error + 'a \<times> control_db"

definition secs :: "nat \<Rightarrow> nat" where
  "secs now = now div 1000"

definition double_quoted :: "string \<Rightarrow> string" where
  "double_quoted s = CHR 0x22 # s @ [CHR 0x22]"

definition find_project :: "control_db \<Rightarrow> string \<Rightarrow> project_row option" where
  "find_project db p = find (\<lambda>r. pj_id r = p) (cd_projects db)"

definition find_execution :: "control_db \<Rightarrow> string \<Rightarrow> execution_entry option" where
  "find_execution db x = find (\<lambda>r. ex_id r = x) (cd_executions db)"

text \<open>\<open>UPDATE control_plane_executions ... WHERE execution_id = ?\<close>, and the same for projects.\<close>

definition update_execution ::
    "string \<Rightarrow> (execution_entry \<Rightarrow> execution_entry) \<Rightarrow> control_db \<Rightarrow> control_db" where
  "update_execution x f db =
     db\<lparr>cd_executions := map (\<lambda>r. if ex_id r = x then f r else r) (cd_executions db)\<rparr>"

definition update_project :: "string \<Rightarrow> (project_row \<Rightarrow> project_row) \<Rightarrow> control_db \<Rightarrow> control_db" where
  "update_project p f db = db\<lparr>cd_projects := map (\<lambda>r. if pj_id r = p then f r else r) (cd_projects db)\<rparr>"

text \<open>\<open>INSERT INTO control_plane_events\<close>: the cursor is an autoincremented key.\<close>

definition insert_event :: "nat \<Rightarrow> string \<Rightarrow> string \<Rightarrow> string \<Rightarrow> string \<Rightarrow> control_db \<Rightarrow> nat tx" where
  "insert_event now eid x kind payload db =
     (if list_ex (\<lambda>e. cv_id e = eid) (cd_events db) then Inl (unique_failed ''control_plane_events.event_id'')
      else if find_execution db x = None then Inl foreign_key_failed
      else Inr (Suc (cd_cursor db),
        db\<lparr>cd_cursor := Suc (cd_cursor db),
           cd_events := cd_events db @ [\<lparr>cv_cursor = Suc (cd_cursor db), cv_id = eid, cv_execution = x,
             cv_kind = kind, cv_payload = payload, cv_created = secs now\<rparr>]\<rparr>))"

section \<open>Projects and submissions\<close>

definition register_project ::
    "nat \<Rightarrow> control_db \<Rightarrow> string \<Rightarrow> string \<Rightarrow> int \<Rightarrow> nat \<Rightarrow> familiar_error + control_db" where
  "register_project now db p root priority ceiling =
     (if ceiling = 0 \<or> 2 ^ 63 \<le> ceiling
      then Inl (Database_Error ''CHECK constraint failed: concurrency_ceiling > 0'')
      else case find_project db p of
        None \<Rightarrow> Inr (db\<lparr>cd_projects := cd_projects db @ [\<lparr>pj_id = p, pj_root = root, pj_priority = priority,
            pj_ceiling = ceiling, pj_state = Project_Active, pj_last_claim = 0, pj_created = secs now,
            pj_updated = secs now\<rparr>]\<rparr>)
      | Some _ \<Rightarrow> Inr (update_project p (\<lambda>r. r\<lparr>pj_root := root, pj_priority := priority,
            pj_ceiling := ceiling, pj_updated := secs now\<rparr>) db))"

definition find_submission :: "control_db \<Rightarrow> string \<Rightarrow> (string \<times> nat) option" where
  "find_submission db key =
     (case filter (\<lambda>e. cv_kind e = ''submitted'' \<and>
             (case find_execution db (cv_execution e) of Some x \<Rightarrow> ex_key x = key | None \<Rightarrow> False)) (cd_events db) of
        [] \<Rightarrow> None
      | e # _ \<Rightarrow> Some (cv_execution e, cv_cursor e))"

definition insert_execution :: "nat \<Rightarrow> submission \<Rightarrow> control_db \<Rightarrow> familiar_error + control_db" where
  "insert_execution now s db =
     (if (case find_project db (sb_project_id s) of Some p \<Rightarrow> pj_state p = Project_Archived | None \<Rightarrow> True)
      then Inl (Database_Error ''project is unknown or archived; submission refused'')
      else if find_execution db (sb_execution_id s) \<noteq> None
      then Inl (unique_failed ''control_plane_executions.execution_id'')
      else if list_ex (\<lambda>x. ex_key x = sb_idempotency_key s) (cd_executions db)
      then Inl (unique_failed ''control_plane_executions.idempotency_key'')
      else Inr (db\<lparr>cd_executions := cd_executions db @ [\<lparr>ex_id = sb_execution_id s,
        ex_project = sb_project_id s, ex_key = sb_idempotency_key s, ex_mode = sb_mode s,
        ex_priority = sb_priority s, ex_state = Queued, ex_attempt = 0, ex_generation = None,
        ex_worker = None, ex_command = sb_command_json s, ex_created = secs now, ex_updated = secs now,
        ex_completed = None\<rparr>]\<rparr>))"

definition submit :: "nat \<Rightarrow> control_db \<Rightarrow> submission \<Rightarrow> submission_ack tx" where
  "submit now db s =
     (case find_submission db (sb_idempotency_key s) of
        Some (x, c) \<Rightarrow> Inr (\<lparr>ak_execution_id = x, ak_duplicate = True, ak_cursor = c\<rparr>, db)
      | None \<Rightarrow>
        rbind (insert_execution now s db) (\<lambda>db1.
        rbind (insert_event now (sb_execution_id s @ '':submitted'') (sb_execution_id s) ''submitted'' ''{}'' db1)
          (\<lambda>(c, db2). Inr (\<lparr>ak_execution_id = sb_execution_id s, ak_duplicate = False, ak_cursor = c\<rparr>, db2))))"

definition execution :: "control_db \<Rightarrow> string \<Rightarrow> execution_record option" where
  "execution db x =
     map_option (\<lambda>r. \<lparr>xr_execution_id = ex_id r, xr_project_id = ex_project r,
         xr_mode = parse_mode (mode_text (ex_mode r)), xr_state = parse_state (state_name (ex_state r)),
         xr_attempt = ex_attempt r, xr_worker = ex_worker r, xr_command_json = ex_command r\<rparr>)
       (find_execution db x)"

definition project_root :: "control_db \<Rightarrow> string \<Rightarrow> string option" where
  "project_root db p = map_option pj_root (find_project db p)"

definition project_state_of :: "control_db \<Rightarrow> string \<Rightarrow> string option" where
  "project_state_of db p = map_option (\<lambda>r. project_state_name (pj_state r)) (find_project db p)"

definition project_locations :: "control_db \<Rightarrow> (string \<times> string) list" where
  "project_locations db = map (\<lambda>r. (pj_id r, pj_root r)) (sort_key pj_id (cd_projects db))"

definition set_project_state :: "nat \<Rightarrow> control_db \<Rightarrow> string \<Rightarrow> string \<Rightarrow> bool tx" where
  "set_project_state now db p s =
     (case parse_project_state s of
        None \<Rightarrow> Inl (Database_Error ''invalid project state'')
      | Some st \<Rightarrow> Inr (find_project db p \<noteq> None,
          update_project p (\<lambda>r. r\<lparr>pj_state := st, pj_updated := secs now\<rparr>) db))"

section \<open>Workers, sessions and gates\<close>

definition worker_live :: "worker_row \<Rightarrow> bool" where
  "worker_live w \<longleftrightarrow> wk_state w \<in> {Worker_Launching, Worker_Running, Worker_Adopted}"

definition worker_candidates :: "control_db \<Rightarrow> (string \<times> nat \<times> string) list" where
  "worker_candidates db = map (\<lambda>w. (wk_identity w, wk_pid w, wk_start w)) (filter worker_live (cd_workers db))"

definition worker_pid :: "control_db \<Rightarrow> string \<Rightarrow> nat option" where
  "worker_pid db x =
     (case find_execution db x of
        None \<Rightarrow> None
      | Some r \<Rightarrow> map_option wk_pid (find (\<lambda>w. ex_worker r = Some (wk_identity w) \<and> worker_live w) (cd_workers db)))"

definition bind_worker ::
    "nat \<Rightarrow> control_db \<Rightarrow> string \<Rightarrow> string \<Rightarrow> nat \<Rightarrow> string \<Rightarrow> string \<Rightarrow> nat \<Rightarrow> familiar_error + control_db" where
  "bind_worker now db x identity pid start token_hash generation =
     (case find_execution db x of
        None \<Rightarrow> Inl no_rows
      | Some r \<Rightarrow>
        if ex_state r \<noteq> Running then Inl no_rows
        else if list_ex (\<lambda>w. wk_identity w = identity) (cd_workers db)
        then Inl (unique_failed ''control_plane_workers.worker_identity'')
        else Inr (update_execution x (\<lambda>r. r\<lparr>ex_worker := Some identity\<rparr>)
          (db\<lparr>cd_workers := cd_workers db @ [\<lparr>wk_identity = identity, wk_execution = x,
             wk_attempt = ex_attempt r, wk_pid = pid, wk_start = start, wk_token_hash = token_hash,
             wk_generation = generation, wk_state = Worker_Running, wk_exit_reason = None,
             wk_started = secs now, wk_ended = None\<rparr>]\<rparr>)))"

definition store_session ::
    "control_db \<Rightarrow> string \<Rightarrow> capability_scope \<Rightarrow> nat \<Rightarrow> familiar_error + control_db" where
  "store_session db hash scope expires =
     (if list_ex (\<lambda>n. cn_hash n = hash) (cd_sessions db)
      then Inl (unique_failed ''control_plane_capability_sessions.session_hash'')
      else if (case cs_project_id scope of Some p \<Rightarrow> find_project db p = None | None \<Rightarrow> False)
        \<or> (case cs_execution_id scope of Some x \<Rightarrow> find_execution db x = None | None \<Rightarrow> False)
      then Inl foreign_key_failed
      else Inr (db\<lparr>cd_sessions := cd_sessions db @
        [\<lparr>cn_hash = hash, cn_scope = scope, cn_expires = expires, cn_revoked = None\<rparr>]\<rparr>))"

definition session :: "nat \<Rightarrow> control_db \<Rightarrow> string \<Rightarrow> capability_scope option" where
  "session now db hash =
     map_option (\<lambda>n. (cn_scope n)\<lparr>cs_client_class := parse_client (client_class_name (cs_client_class (cn_scope n)))\<rparr>)
       (find (\<lambda>n. cn_hash n = hash \<and> cn_revoked n = None \<and> secs now < cn_expires n) (cd_sessions db))"

definition revoke_session :: "nat \<Rightarrow> control_db \<Rightarrow> string \<Rightarrow> bool \<times> control_db" where
  "revoke_session now db hash =
     (list_ex (\<lambda>n. cn_hash n = hash \<and> cn_revoked n = None) (cd_sessions db),
      db\<lparr>cd_sessions := map (\<lambda>n. if cn_hash n = hash \<and> cn_revoked n = None
            then n\<lparr>cn_revoked := Some (secs now)\<rparr> else n) (cd_sessions db)\<rparr>)"

definition pending_gate :: "nat \<Rightarrow> control_db \<Rightarrow> string \<Rightarrow> capability_scope \<Rightarrow> string \<Rightarrow> string tx" where
  "pending_gate now db hash scope request =
     rbind (ok_or (Database_Error ''capability is not project scoped'') (cs_project_id scope)) (\<lambda>p.
     rbind (ok_or (Database_Error ''capability is not execution scoped'') (cs_execution_id scope)) (\<lambda>x.
     let gid = ''gate-'' @ x @ ''-''
           @ show_nat (length (filter (\<lambda>g. gt_execution g = x) (cd_gates db)) + 1) in
     if list_ex (\<lambda>g. gt_id g = gid) (cd_gates db)
     then Inl (unique_failed ''control_plane_pending_gates.gate_id'')
     else if find_project db p = None \<or> find_execution db x = None
       \<or> \<not> list_ex (\<lambda>n. cn_hash n = hash) (cd_sessions db)
     then Inl foreign_key_failed
     else Inr (gid, db\<lparr>cd_gates := cd_gates db @ [\<lparr>gt_id = gid, gt_project = p, gt_execution = x,
        gt_session = hash, gt_request = request, gt_created = secs now\<rparr>]\<rparr>)))"

section \<open>Events and divergences\<close>

definition append_agent_event ::
    "control_env \<Rightarrow> nat \<Rightarrow> control_db \<Rightarrow> string \<Rightarrow> string \<Rightarrow> string \<Rightarrow> nat tx" where
  "append_agent_event cx now db x kind payload =
     (if kind \<noteq> ''agent_progress'' \<and> kind \<noteq> ''agent_evidence''
      then Inl (Database_Error ''agent event kind is not permitted'')
      else if \<not> cx_json_ok cx payload
      then Inl (Database_Error ''agent event payload must be valid JSON'')
      else let n = length (filter (\<lambda>e. cv_execution e = x \<and> cv_kind e = kind) (cd_events db)) + 1 in
        insert_event now (x @ '':'' @ kind @ '':'' @ show_nat n) x kind payload db)"

definition events_after :: "control_db \<Rightarrow> string \<Rightarrow> int \<Rightarrow> nat \<Rightarrow> control_event list" where
  "events_after db x after limit =
     take limit (sort_key cv_cursor
       (filter (\<lambda>e. cv_execution e = x \<and> after < int (cv_cursor e)) (cd_events db)))"

definition record_divergence ::
    "nat \<Rightarrow> control_db \<Rightarrow> string \<Rightarrow> string option \<Rightarrow> string \<Rightarrow> string \<Rightarrow> bool tx" where
  "record_divergence now db p x kind detail =
     (let did = p @ '':'' @ (case x of Some e \<Rightarrow> e | None \<Rightarrow> ''project'') @ '':'' @ kind in
      case find (\<lambda>d. dv_id d = did) (cd_divergences db) of
        None \<Rightarrow>
        if find_project db p = None \<or> (case x of Some e \<Rightarrow> find_execution db e = None | None \<Rightarrow> False)
        then Inl foreign_key_failed
        else Inr (True, db\<lparr>cd_divergences := cd_divergences db @ [\<lparr>dv_id = did, dv_project = p,
            dv_execution = x, dv_kind = kind, dv_detail = detail, dv_recorded = secs now\<rparr>]\<rparr>)
      | Some d \<Rightarrow>
        if dv_detail d = detail then Inr (False, db)
        else Inr (True, db\<lparr>cd_divergences := map (\<lambda>d. if dv_id d = did
            then d\<lparr>dv_detail := detail, dv_recorded := secs now\<rparr> else d) (cd_divergences db)\<rparr>))"

section \<open>Slots\<close>

definition slot_key :: "string \<Rightarrow> pool_key" where
  "slot_key pool = (pool, ''inference-slots'')"

abbreviation global_pool :: string where "global_pool \<equiv> ''control-plane:global''"

definition project_pool :: "string \<Rightarrow> string" where
  "project_pool p = ''control-plane:project:'' @ p"

definition update_ledger :: "(reservation_db \<Rightarrow> reservation_db) \<Rightarrow> control_db \<Rightarrow> control_db" where
  "update_ledger f db = db\<lparr>cd_ledger := f (cd_ledger db)\<rparr>"

definition set_pool :: "string \<Rightarrow> pool_row \<Rightarrow> control_db \<Rightarrow> control_db" where
  "set_pool pool row = update_ledger (\<lambda>l. l\<lparr>rd_pools := (rd_pools l)(slot_key pool \<mapsto> row)\<rparr>)"

definition ensure_slot_pool :: "string \<Rightarrow> nat \<Rightarrow> nat \<Rightarrow> control_db \<Rightarrow> familiar_error + control_db" where
  "ensure_slot_pool pool capacity occupied db =
     (if 2 ^ 63 \<le> capacity then Inl (Database_Error ''concurrency ceiling exceeds SQLite range'')
      else Inr (set_pool pool \<lparr>po_capacity = capacity, po_available = capacity - occupied,
                               po_renewable = True\<rparr> db))"

definition take_slot :: "string \<Rightarrow> control_db \<Rightarrow> familiar_error + control_db" where
  "take_slot pool db =
     (case rd_pools (cd_ledger db) (slot_key pool) of
        Some p \<Rightarrow>
        if 1 \<le> po_available p then Inr (set_pool pool (p\<lparr>po_available := po_available p - 1\<rparr>) db)
        else Inl (Database_Error (''atomic concurrency reservation unavailable for '' @ pool))
      | None \<Rightarrow> Inl (Database_Error (''atomic concurrency reservation unavailable for '' @ pool)))"

definition insert_slot_item :: "string \<Rightarrow> string \<Rightarrow> control_db \<Rightarrow> familiar_error + control_db" where
  "insert_slot_item rid pool db =
     (if list_ex (\<lambda>i. it_reservation i = rid \<and> it_key i = slot_key pool) (rd_items (cd_ledger db))
      then Inl (unique_failed ''resource_reservation_items'')
      else Inr (update_ledger (\<lambda>l. l\<lparr>rd_items := rd_items l @ [\<lparr>it_reservation = rid, it_key = slot_key pool,
        it_requested = 1, it_granted = 1, it_observed = None, it_overrun = 0\<rparr>]\<rparr>) db))"

definition control_owner :: "control_db \<Rightarrow> string \<Rightarrow> string \<Rightarrow> nat \<Rightarrow> nat \<Rightarrow> reservation_owner" where
  "control_owner db x p attempt generation =
     \<lparr>ow_instance_id = x @ '':'' @ show_nat attempt, ow_installation_id = cd_installation db,
      ow_nonce = show_nat generation, ow_kind = ''control-plane-worker'', ow_project_id = p,
      ow_execution_id = x, ow_component_id = ''attempt-'' @ show_nat attempt\<rparr>"

definition start_history :: "nat \<Rightarrow> string \<Rightarrow> string \<Rightarrow> control_db \<Rightarrow> control_db" where
  "start_history now x p db =
     (case find_project db p of
        None \<Rightarrow> db
      | Some r \<Rightarrow>
        if list_ex (\<lambda>h. hs_execution h = x) (cd_history db) then db
        else db\<lparr>cd_history := cd_history db @ [\<lparr>hs_execution = x, hs_started = secs now, hs_ended = None,
          hs_duration_ms = None, hs_agent = ''control-worker'', hs_outcome = ''running'',
          hs_repository = pj_id r, hs_worktree = pj_root r\<rparr>]\<rparr>)"

definition acquire_control_plane_reservation ::
    "control_env \<Rightarrow> nat \<Rightarrow> string \<Rightarrow> string \<Rightarrow> nat \<Rightarrow> nat \<Rightarrow> string \<Rightarrow> control_db \<Rightarrow> familiar_error + control_db" where
  "acquire_control_plane_reservation cx now x p attempt generation pool db =
     rbind (take_slot global_pool db) (\<lambda>db1. rbind (take_slot pool db1) (\<lambda>db2.
     let rid = ''control-plane:'' @ x @ '':'' @ show_nat attempt; at = cx_datetime cx (secs now) in
     rbind (insert_reservation \<lparr>rv_id = rid, rv_owner = control_owner db2 x p attempt generation,
         rv_state = Held, rv_sequence = next_sequence (cd_ledger db2), rv_acquired_at = at,
         rv_expires_at = None, rv_resolved_at = None, rv_unknown = False, rv_overrun = False\<rparr>
         (cd_ledger db2)) (\<lambda>l.
     rbind (insert_slot_item rid global_pool (db2\<lparr>cd_ledger := l\<rparr>)) (\<lambda>db3.
     rbind (insert_slot_item rid pool db3) (\<lambda>db4.
     Inr (start_history now x p
       (update_ledger (log_event rid ''acquired'' ''control-plane'' ''atomic execution claim'' at) db4)))))))"

definition held_control_reservations :: "control_db \<Rightarrow> string \<Rightarrow> reservation_row list" where
  "held_control_reservations db x =
     filter (\<lambda>r. ow_execution_id (rv_owner r) = x \<and> ow_kind (rv_owner r) = ''control-plane-worker''
               \<and> rv_state r = Held) (rd_reservations (cd_ledger db))"

text \<open>The last in the order of arrival.\<close>

definition latest_reservation :: "reservation_row list \<Rightarrow> reservation_row option" where
  "latest_reservation rs = (case rev (sort_key rv_sequence rs) of [] \<Rightarrow> None | r # _ \<Rightarrow> Some r)"

definition return_slot :: "item_row \<Rightarrow> control_db \<Rightarrow> control_db" where
  "return_slot i = update_ledger (\<lambda>l. case rd_pools l (it_key i) of
       None \<Rightarrow> l
     | Some p \<Rightarrow> l\<lparr>rd_pools := (rd_pools l)(it_key i \<mapsto>
         p\<lparr>po_available := min (po_capacity p) (po_available p + it_granted i)\<rparr>)\<rparr>)"

definition release_control_plane_reservation ::
    "control_env \<Rightarrow> nat \<Rightarrow> string \<Rightarrow> string \<Rightarrow> control_db \<Rightarrow> control_db" where
  "release_control_plane_reservation cx now x reason db =
     (case latest_reservation (held_control_reservations db x) of
        None \<Rightarrow> db
      | Some r \<Rightarrow>
        let rid = rv_id r; at = cx_datetime cx (secs now);
            db1 = fold return_slot (filter (\<lambda>i. it_reservation i = rid) (rd_items (cd_ledger db))) db in
        update_ledger (\<lambda>l. log_event rid ''released'' ''control-plane'' reason at
          (update_reservation rid (\<lambda>r. if rv_state r = Held
             then r\<lparr>rv_state := Released, rv_resolved_at := Some at\<rparr> else r) l)) db1)"

section \<open>Claiming\<close>

definition occupies :: "execution_entry \<Rightarrow> bool" where
  "occupies x \<longleftrightarrow> ex_state x \<in> {Running, AmbiguousLiveOrphan}"

definition occupied :: "control_db \<Rightarrow> nat" where
  "occupied db = length (filter occupies (cd_executions db))"

definition project_occupied :: "control_db \<Rightarrow> string \<Rightarrow> nat" where
  "project_occupied db p = length (filter (\<lambda>x. occupies x \<and> ex_project x = p) (cd_executions db))"

definition candidates :: "control_db \<Rightarrow> (execution_entry \<times> project_row) list" where
  "candidates db =
     concat (map (\<lambda>x. if ex_state x \<noteq> Queued then [] else
       (case find_project db (ex_project x) of
          Some p \<Rightarrow> if pj_state p = Project_Active \<and> project_occupied db (ex_project x) < pj_ceiling p
                    then [(x, p)] else []
        | None \<Rightarrow> [])) (cd_executions db))"

text \<open>\<open>ORDER BY p.priority DESC, p.last_claim_sequence, e.priority DESC, e.created_at, e.execution_id\<close>\<close>

definition claim_order :: "execution_entry \<times> project_row \<Rightarrow> int \<times> nat \<times> int \<times> nat \<times> string" where
  "claim_order c = (case c of (x, p) \<Rightarrow>
     (- pj_priority p, pj_last_claim p, - ex_priority x, ex_created x, ex_id x))"

definition select_candidate :: "control_db \<Rightarrow> (execution_entry \<times> project_row) option" where
  "select_candidate db = (case sort_key claim_order (candidates db) of [] \<Rightarrow> None | c # _ \<Rightarrow> Some c)"

definition next_claim_sequence :: "control_db \<Rightarrow> nat" where
  "next_claim_sequence db = Suc (fold max (map pj_last_claim (cd_projects db)) 0)"

definition claim_selected ::
    "control_env \<Rightarrow> nat \<Rightarrow> nat \<Rightarrow> execution_entry \<Rightarrow> project_row \<Rightarrow> control_db \<Rightarrow> familiar_error + control_db" where
  "claim_selected cx now generation x p db =
     (let attempt = ex_attempt x + 1; pool = project_pool (ex_project x) in
      rbind (ensure_slot_pool pool (pj_ceiling p) (project_occupied db (ex_project x)) db) (\<lambda>db1.
      rbind (acquire_control_plane_reservation cx now (ex_id x) (ex_project x) attempt generation pool db1) (\<lambda>db2.
      rbind (insert_event now
          (ex_id x @ '':claimed:'' @ show_nat generation @ '':'' @ show_nat attempt) (ex_id x) ''claimed'' ''{}''
          (update_execution (ex_id x) (\<lambda>r. if ex_state r = Queued
             then r\<lparr>ex_state := Running, ex_attempt := ex_attempt r + 1,
                    ex_generation := Some generation, ex_updated := secs now\<rparr> else r) db2)) (\<lambda>(_, db3).
      Inr (update_project (ex_project x) (\<lambda>r. r\<lparr>pj_last_claim := next_claim_sequence db3\<rparr>) db3)))))"

definition claim_next :: "control_env \<Rightarrow> nat \<Rightarrow> control_db \<Rightarrow> nat \<Rightarrow> nat \<Rightarrow> string option tx" where
  "claim_next cx now db global_ceiling generation =
     rbind (ensure_slot_pool global_pool global_ceiling (occupied db) db) (\<lambda>db1.
     if global_ceiling \<le> occupied db then Inr (None, db1)
     else case select_candidate db1 of
       None \<Rightarrow> Inr (None, db1)
     | Some (x, p) \<Rightarrow>
       rbind (claim_selected cx now generation x p db1) (\<lambda>db2. Inr (Some (ex_id x), db2)))"

section \<open>Ending and recovering\<close>

text \<open>The duration is the exact difference; SQLite computes it in floating point and truncates.\<close>

definition end_history :: "nat \<Rightarrow> string \<Rightarrow> execution_state \<Rightarrow> control_db \<Rightarrow> control_db" where
  "end_history now x st db =
     db\<lparr>cd_history := map (\<lambda>h. if hs_execution h = x \<and> hs_outcome h = ''running''
        then h\<lparr>hs_ended := Some (secs now), hs_duration_ms := Some (now - 1000 * hs_started h),
               hs_outcome := (if st = Completed then ''succeeded'' else ''failed'')\<rparr>
        else h) (cd_history db)\<rparr>"

definition insert_evidence :: "nat \<Rightarrow> string \<Rightarrow> string \<Rightarrow> control_db \<Rightarrow> control_db" where
  "insert_evidence now x outcome db =
     (let eid = x @ '':usage-evidence''; hash = ''control-plane:'' @ x @ '':usage-finalized'' in
      if \<not> list_ex (\<lambda>h. hs_execution h = x) (cd_history db)
        \<or> list_ex (\<lambda>a. av_id a = eid \<or> av_source_hash a = hash) (cd_evidence db)
      then db
      else db\<lparr>cd_evidence := cd_evidence db @ [\<lparr>av_id = eid, av_execution = x, av_terminal = outcome,
        av_source_hash = hash, av_observed = secs now\<rparr>]\<rparr>)"

definition insert_observation :: "nat \<Rightarrow> string \<Rightarrow> control_db \<Rightarrow> control_db" where
  "insert_observation now x db =
     (let oid = x @ '':usage-observation''; eid = x @ '':usage-evidence'' in
      case (find_execution db x, find (\<lambda>h. hs_execution h = x) (cd_history db),
            find (\<lambda>a. av_id a = eid) (cd_evidence db)) of
        (Some e, Some h, Some a) \<Rightarrow>
          if list_ex (\<lambda>b. ob_id b = oid) (cd_observations db) \<or> secs now < hs_started h then db
          else db\<lparr>cd_observations := cd_observations db @ [\<lparr>ob_id = oid, ob_evidence = eid,
            ob_project = ex_project e, ob_execution = x, ob_attempt = show_nat (ex_attempt e),
            ob_worker = (case ex_worker e of Some w \<Rightarrow> w | None \<Rightarrow> ''unbound''),
            ob_period_start = hs_started h, ob_period_end = secs now\<rparr>]\<rparr>
      | _ \<Rightarrow> db)"

definition terminal_state :: "execution_state \<Rightarrow> bool" where
  "terminal_state st \<longleftrightarrow> st \<in> {Completed, Failed, Cancelled, ForegroundEnded}"

definition finish_execution ::
    "control_env \<Rightarrow> nat \<Rightarrow> control_db \<Rightarrow> string \<Rightarrow> execution_state \<Rightarrow> string \<Rightarrow> bool tx" where
  "finish_execution cx now db x st reason =
     (if \<not> terminal_state st then Inl (Database_Error ''invalid terminal execution state'')
      else case find_execution db x of
        None \<Rightarrow> Inr (False, db)
      | Some r \<Rightarrow>
        if ex_state r \<noteq> Running \<and> ex_state r \<noteq> Queued then Inr (False, db)
        else
          let db1 = update_execution x (\<lambda>r. r\<lparr>ex_state := st, ex_completed := Some (secs now),
                      ex_updated := secs now\<rparr>) db in
          rbind (insert_event now (x @ '':'' @ state_name st) x (state_name st) (cx_reason_json cx reason) db1)
            (\<lambda>(_, db2).
          rbind (insert_event now (x @ '':usage_finalized'') x ''usage_finalized''
                  (''{'' @ double_quoted ''known'' @ '':false}'') db2) (\<lambda>(_, db3).
          Inr (True, release_control_plane_reservation cx now x ''execution_terminal''
            (insert_observation now x (insert_evidence now x (state_name st) (end_history now x st db3)))))))"

definition recover_one ::
    "control_env \<Rightarrow> nat \<Rightarrow> string list \<Rightarrow> string \<times> string option \<Rightarrow> control_db \<Rightarrow> nat tx" where
  "recover_one cx now live row db =
     (case row of (x, worker) \<Rightarrow>
      let orphan = (case worker of Some w \<Rightarrow> w \<in> set live | None \<Rightarrow> False);
          kind = (if orphan then ''ambiguous_live_orphan'' else ''runner_interrupted'');
          changed = length (filter (\<lambda>r. ex_id r = x \<and> ex_state r = Running) (cd_executions db));
          db1 = update_execution x (\<lambda>r. if ex_state r = Running
                  then r\<lparr>ex_state := (if orphan then AmbiguousLiveOrphan else Queued), ex_updated := secs now\<rparr>
                  else r) db;
          db2 = (case worker of None \<Rightarrow> db1 | Some w \<Rightarrow>
                  db1\<lparr>cd_workers := map (\<lambda>k. if wk_identity k = w
                    then k\<lparr>wk_state := (if orphan then Worker_Ambiguous else Worker_Exited),
                           wk_exit_reason := Some kind,
                           wk_ended := (if orphan then wk_ended k else Some (secs now))\<rparr>
                    else k) (cd_workers db1)\<rparr>);
          db3 = (if orphan then db2 else release_control_plane_reservation cx now x ''runner_interrupted'' db2) in
      rbind (insert_event now (x @ '':recovery:'' @ kind) x kind ''{}'' db3) (\<lambda>(_, db4). Inr (changed, db4)))"

fun recover_rows ::
    "control_env \<Rightarrow> nat \<Rightarrow> string list \<Rightarrow> (string \<times> string option) list \<Rightarrow> control_db \<Rightarrow> nat tx" where
  "recover_rows cx now live [] db = Inr (0, db)"
| "recover_rows cx now live (row # rows) db =
     rbind (recover_one cx now live row db) (\<lambda>(n, db1).
     rbind (recover_rows cx now live rows db1) (\<lambda>(m, db2). Inr (n + m, db2)))"

definition recover_running :: "control_env \<Rightarrow> nat \<Rightarrow> control_db \<Rightarrow> string list \<Rightarrow> nat tx" where
  "recover_running cx now db live =
     recover_rows cx now live
       (map (\<lambda>r. (ex_id r, ex_worker r)) (filter (\<lambda>r. ex_state r = Running) (cd_executions db))) db"

text \<open>\<open>INSERT OR IGNORE\<close>: an event of the same name is kept.\<close>

definition record_late_outcome ::
    "control_env \<Rightarrow> nat \<Rightarrow> control_db \<Rightarrow> string \<Rightarrow> string \<Rightarrow> string \<Rightarrow> bool tx" where
  "record_late_outcome cx now db x worker payload =
     (if \<not> cx_json_ok cx payload then Inl (Database_Error ''late worker outcome must be valid JSON'')
      else case find_execution db x of
        None \<Rightarrow> Inr (False, db)
      | Some r \<Rightarrow>
        if ex_state r \<noteq> AmbiguousLiveOrphan \<or> ex_worker r \<noteq> Some worker then Inr (False, db)
        else let eid = x @ '':late:'' @ worker @ '':'' @ show_nat (ex_attempt r) in
          if list_ex (\<lambda>e. cv_id e = eid) (cd_events db) then Inr (True, db)
          else rbind (insert_event now eid x ''late_worker_outcome'' payload db) (\<lambda>(_, db1). Inr (True, db1)))"

section \<open>Leases\<close>

datatype lease_acquire_outcome = Lease_Acquired lease_record | Lease_Refused string string int

datatype lease_renew_outcome = Lease_Renewed lease_record | Lease_Lost "(string \<times> string) option"

text \<open>
  \<open>datetime('now', '+n seconds')\<close>. A negative number gives a modifier that SQLite cannot read, and a
  date after the year 9999 is out of range: the result is then \<open>NULL\<close>, which the column refuses.
\<close>

definition max_second :: nat where
  "max_second = 253402300799"

definition expiry :: "nat \<Rightarrow> int \<Rightarrow> familiar_error + nat" where
  "expiry now ttl =
     (if ttl < 0 \<or> int max_second < int (secs now) + ttl
      then Inl (Database_Error ''NOT NULL constraint failed: control_plane_leases.expires_at'')
      else Inr (secs now + nat ttl))"

definition remaining_ms :: "nat \<Rightarrow> lease_record \<Rightarrow> int" where
  "remaining_ms now r = 1000 * int (le_expires r) - int now"

definition insert_lease_row ::
    "nat \<Rightarrow> control_db \<Rightarrow> string \<Rightarrow> string \<Rightarrow> string \<Rightarrow> string \<Rightarrow> int \<Rightarrow> int \<Rightarrow> lease_record tx" where
  "insert_lease_row now db repo host process token ttl generation =
     rbind (expiry now ttl) (\<lambda>e.
     let r = \<lparr>le_repository = repo, le_host = host, le_process = process, le_token = token,
              le_acquired = secs now, le_renewed = secs now, le_expires = e, le_generation = generation\<rparr> in
     Inr (r, db\<lparr>cd_leases := (cd_leases db)(repo \<mapsto> r)\<rparr>))"

definition insert_lease_event ::
    "nat \<Rightarrow> string \<Rightarrow> string \<Rightarrow> (string \<times> string) option \<Rightarrow> (string \<times> string) option \<Rightarrow> control_db \<Rightarrow> control_db" where
  "insert_lease_event now repo kind prior new db =
     db\<lparr>cd_lease_events := cd_lease_events db @ [\<lparr>lx_repository = repo, lx_kind = kind,
        lx_prior_host = map_option fst prior, lx_prior_process = map_option snd prior,
        lx_new_host = map_option fst new, lx_new_process = map_option snd new, lx_recorded = secs now\<rparr>]\<rparr>"

definition acquire_lease ::
    "nat \<Rightarrow> control_db \<Rightarrow> string \<Rightarrow> string \<Rightarrow> string \<Rightarrow> string \<Rightarrow> int \<Rightarrow> lease_acquire_outcome tx" where
  "acquire_lease now db repo host process token ttl =
     (case cd_leases db repo of
        None \<Rightarrow>
          rbind (insert_lease_row now db repo host process token ttl 1) (\<lambda>(r, db1).
          Inr (Lease_Acquired r, insert_lease_event now repo ''acquired'' None (Some (host, process)) db1))
      | Some old \<Rightarrow>
        if 0 < remaining_ms now old
        then Inr (Lease_Refused (le_host old) (le_process old) (remaining_ms now old), db)
        else
          rbind (insert_lease_row now db repo host process token ttl (le_generation old + 1)) (\<lambda>(r, db1).
          Inr (Lease_Acquired r, insert_lease_event now repo ''takeover'' (Some (le_host old, le_process old))
                 (Some (host, process)) db1)))"

definition renew_lease ::
    "nat \<Rightarrow> control_db \<Rightarrow> string \<Rightarrow> string \<Rightarrow> string \<Rightarrow> string \<Rightarrow> int \<Rightarrow> lease_renew_outcome tx" where
  "renew_lease now db repo host process token ttl =
     (case cd_leases db repo of
        Some r \<Rightarrow>
        if le_token r = token \<and> 0 < remaining_ms now r
        then rbind (expiry now ttl) (\<lambda>e.
          let r' = r\<lparr>le_renewed := secs now, le_expires := e, le_generation := le_generation r + 1\<rparr> in
          Inr (Lease_Renewed r', db\<lparr>cd_leases := (cd_leases db)(repo \<mapsto> r')\<rparr>))
        else
          let holder = (if le_token r = token then None else Some (le_host r, le_process r)) in
          Inr (Lease_Lost holder, insert_lease_event now repo ''lost'' (Some (host, process)) holder db)
      | None \<Rightarrow>
        Inr (Lease_Lost None, insert_lease_event now repo ''lost'' (Some (host, process)) None db))"

definition release_lease :: "nat \<Rightarrow> control_db \<Rightarrow> string \<Rightarrow> string \<Rightarrow> bool \<times> control_db" where
  "release_lease now db repo token =
     (case cd_leases db repo of
        Some r \<Rightarrow>
        if le_token r = token
        then (True, insert_lease_event now repo ''released'' (Some (le_host r, le_process r)) None
                (db\<lparr>cd_leases := (cd_leases db)(repo := None)\<rparr>))
        else (False, db)
      | None \<Rightarrow> (False, db))"

definition inspect_lease :: "control_db \<Rightarrow> string \<Rightarrow> lease_record option" where
  "inspect_lease db repo = cd_leases db repo"

section \<open>Reading\<close>

record execution_view =
  ew_execution_id :: string
  ew_project_id :: string
  ew_state :: string
  ew_mode :: string
  ew_command_json :: string
  ew_worker :: "string option"
  ew_created :: nat
  ew_updated :: nat
  ew_failure_reason :: "string option"

definition newest_first :: "execution_entry list \<Rightarrow> execution_entry list" where
  "newest_first xs = rev (sort_key (\<lambda>x. (ex_created x, ex_id x)) xs)"

definition failure_reason :: "control_env \<Rightarrow> control_db \<Rightarrow> string \<Rightarrow> string option" where
  "failure_reason cx db x =
     (case rev (sort_key (\<lambda>e. (cv_created e, cv_id e))
             (filter (\<lambda>e. cv_execution e = x \<and> cv_kind e = ''failed'') (cd_events db))) of
        [] \<Rightarrow> None
      | e # _ \<Rightarrow> cx_reason_of cx (cv_payload e))"

definition list_executions :: "control_env \<Rightarrow> control_db \<Rightarrow> string \<Rightarrow> nat \<Rightarrow> execution_view list" where
  "list_executions cx db p limit =
     map (\<lambda>x. \<lparr>ew_execution_id = ex_id x, ew_project_id = ex_project x, ew_state = state_name (ex_state x),
         ew_mode = mode_text (ex_mode x), ew_command_json = ex_command x, ew_worker = ex_worker x,
         ew_created = ex_created x, ew_updated = ex_updated x, ew_failure_reason = failure_reason cx db (ex_id x)\<rparr>)
       (take limit (newest_first (filter (\<lambda>x. ex_project x = p) (cd_executions db))))"

text \<open>
  SQLite's \<open>LIKE\<close>: \<open>%\<close> matches any text, \<open>_\<close> one character (a lead byte and its continuation bytes),
  and ASCII letters match regardless of case.
\<close>

definition continuation_byte :: "char \<Rightarrow> bool" where
  "continuation_byte c \<longleftrightarrow> 128 \<le> byte c \<and> byte c < 192"

fun sql_like :: "string \<Rightarrow> string \<Rightarrow> bool" where
  "sql_like [] s \<longleftrightarrow> s = []"
| "sql_like (p # ps) [] \<longleftrightarrow> p = CHR ''%'' \<and> sql_like ps []"
| "sql_like (p # ps) (c # cs) \<longleftrightarrow>
     (if p = CHR ''%'' then sql_like ps (c # cs) \<or> sql_like (p # ps) cs
      else if p = CHR ''_'' then sql_like ps (dropWhile continuation_byte cs)
      else ascii_lower p = ascii_lower c \<and> sql_like ps cs)"

definition latest_execution_for_prd ::
    "control_env \<Rightarrow> control_db \<Rightarrow> string \<Rightarrow> string list \<Rightarrow> (string \<times> string \<times> string option) option" where
  "latest_execution_for_prd cx db p needles =
     (case newest_first (filter (\<lambda>x. ex_project x = p
             \<and> list_ex (\<lambda>n. sql_like (''%'' @ double_quoted n @ ''%'') (ex_command x)) needles) (cd_executions db)) of
        [] \<Rightarrow> None
      | x # _ \<Rightarrow> Some (ex_id x, state_name (ex_state x), failure_reason cx db (ex_id x)))"

record reservation_line =
  rl_reservation_id :: string
  rl_state :: string
  rl_pool_id :: string
  rl_resource_type :: string
  rl_remaining :: int

text \<open>The rows of \<open>reservation_view\<close>, which are then printed as JSON.\<close>

definition reservation_view :: "control_db \<Rightarrow> string \<Rightarrow> reservation_line list option" where
  "reservation_view db x =
     (let held = filter (\<lambda>r. ow_execution_id (rv_owner r) = x \<and> rv_state r = Held) (rd_reservations (cd_ledger db));
          rows = concat (map (\<lambda>r. map (\<lambda>i. \<lparr>rl_reservation_id = rv_id r, rl_state = state_text (rv_state r),
              rl_pool_id = fst (it_key i), rl_resource_type = snd (it_key i),
              rl_remaining = int (it_granted i) - int (case it_observed i of Some n \<Rightarrow> n | None \<Rightarrow> 0)\<rparr>)
            (reservation_items (cd_ledger db) (rv_id r))) (sort_key rv_id held)) in
      if rows = [] then None else Some rows)"

end
