(* ===== verification/Control_Safety.thy ===== *)
theory Control_Safety
  imports Control_Plane
begin

text \<open>
  What the operations of \<open>Control_Plane\<close> keep in every reachable database: each execution that occupies
  a slot holds exactly one reservation of it, the global ceiling is respected, the event stream is
  ordered, and a submission is remembered. The steps are the operations that succeed: an error leaves
  the database as it was.
\<close>

section \<open>Steps\<close>

text \<open>\<open>g\<close> bounds the global ceiling of the claims.\<close>

inductive control_step :: "control_env \<Rightarrow> nat \<Rightarrow> control_db \<Rightarrow> control_db \<Rightarrow> bool" for cx g where
  step_register: "register_project now db p root priority ceiling = Inr db' \<Longrightarrow> control_step cx g db db'"
| step_submit: "submit now db s = Inr (a, db') \<Longrightarrow> control_step cx g db db'"
| step_project_state: "set_project_state now db p s = Inr (b, db') \<Longrightarrow> control_step cx g db db'"
| step_bind: "bind_worker now db x w pid start token generation = Inr db' \<Longrightarrow> control_step cx g db db'"
| step_session: "store_session db hash scope expires = Inr db' \<Longrightarrow> control_step cx g db db'"
| step_revoke: "revoke_session now db hash = (b, db') \<Longrightarrow> control_step cx g db db'"
| step_gate: "pending_gate now db hash scope request = Inr (gid, db') \<Longrightarrow> control_step cx g db db'"
| step_agent: "append_agent_event cx now db x kind payload = Inr (c, db') \<Longrightarrow> control_step cx g db db'"
| step_divergence: "record_divergence now db p xo kind detail = Inr (b, db') \<Longrightarrow> control_step cx g db db'"
| step_claim: "claim_next cx now db ceiling generation = Inr (xo, db') \<Longrightarrow> ceiling \<le> g \<Longrightarrow> control_step cx g db db'"
| step_finish: "finish_execution cx now db x st reason = Inr (b, db') \<Longrightarrow> control_step cx g db db'"
| step_recover: "recover_running cx now db live = Inr (n, db') \<Longrightarrow> control_step cx g db db'"
| step_late: "record_late_outcome cx now db x w payload = Inr (b, db') \<Longrightarrow> control_step cx g db db'"
| step_acquire: "acquire_lease now db repo host process token ttl = Inr (ao, db') \<Longrightarrow> control_step cx g db db'"
| step_renew: "renew_lease now db repo host process token ttl = Inr (ro, db') \<Longrightarrow> control_step cx g db db'"
| step_release: "release_lease now db repo token = (b, db') \<Longrightarrow> control_step cx g db db'"

definition empty_control_db :: control_db where
  "empty_control_db = \<lparr>cd_ledger = \<lparr>rd_pools = Map.empty, rd_reservations = [], rd_items = [], rd_evidence = [],
       rd_events = []\<rparr>, cd_installation = None, cd_projects = [], cd_executions = [], cd_events = [],
     cd_cursor = 0, cd_sessions = [], cd_workers = [], cd_gates = [], cd_divergences = [],
     cd_leases = Map.empty, cd_lease_events = [], cd_history = [], cd_evidence = [], cd_observations = []\<rparr>"

inductive control_reachable :: "control_env \<Rightarrow> nat \<Rightarrow> control_db \<Rightarrow> bool" for cx g where
  start_empty: "control_reachable cx g empty_control_db"
| after_step: "control_reachable cx g db \<Longrightarrow> control_step cx g db db' \<Longrightarrow> control_reachable cx g db'"

lemma control_invariant:
  assumes "control_reachable cx g db" and "P empty_control_db"
    and "\<And>db db'. P db \<Longrightarrow> control_step cx g db db' \<Longrightarrow> P db'"
  shows "P db"
  using assms(1) by induction (auto intro: assms)

section \<open>What the operations change\<close>

named_theorems control_defs "the operations of the control plane"
named_theorems control_frame "what an operation leaves alone"

lemma update_frame [simp]:
  "cd_ledger (update_execution x f db) = cd_ledger db" "cd_events (update_execution x f db) = cd_events db"
  "cd_cursor (update_execution x f db) = cd_cursor db" "cd_projects (update_execution x f db) = cd_projects db"
  "cd_ledger (update_project p h db) = cd_ledger db" "cd_events (update_project p h db) = cd_events db"
  "cd_cursor (update_project p h db) = cd_cursor db" "cd_executions (update_project p h db) = cd_executions db"
  "cd_ledger (update_ledger k db) = k (cd_ledger db)" "cd_events (update_ledger k db) = cd_events db"
  "cd_cursor (update_ledger k db) = cd_cursor db" "cd_executions (update_ledger k db) = cd_executions db"
  "cd_projects (update_ledger k db) = cd_projects db" "cd_installation (update_ledger k db) = cd_installation db"
  by (simp_all add: update_execution_def update_project_def update_ledger_def)

lemma start_history_frame [simp]:
  "cd_ledger (start_history now x p db) = cd_ledger db"
  "cd_executions (start_history now x p db) = cd_executions db"
  "cd_events (start_history now x p db) = cd_events db"
  "cd_cursor (start_history now x p db) = cd_cursor db"
  "cd_projects (start_history now x p db) = cd_projects db"
  by (simp_all add: start_history_def split: option.split)

lemma end_frame [simp]:
  "cd_ledger (end_history now x st db) = cd_ledger db" "cd_executions (end_history now x st db) = cd_executions db"
  "cd_events (end_history now x st db) = cd_events db" "cd_cursor (end_history now x st db) = cd_cursor db"
  "cd_ledger (insert_evidence now x s db) = cd_ledger db"
  "cd_executions (insert_evidence now x s db) = cd_executions db"
  "cd_events (insert_evidence now x s db) = cd_events db" "cd_cursor (insert_evidence now x s db) = cd_cursor db"
  "cd_ledger (insert_observation now x db) = cd_ledger db"
  "cd_executions (insert_observation now x db) = cd_executions db"
  "cd_events (insert_observation now x db) = cd_events db"
  "cd_cursor (insert_observation now x db) = cd_cursor db"
  by (simp_all add: end_history_def insert_evidence_def insert_observation_def Let_def
        split: option.split prod.split)

lemma return_slot_frame [simp]:
  "cd_executions (return_slot i db) = cd_executions db" "cd_events (return_slot i db) = cd_events db"
  "cd_cursor (return_slot i db) = cd_cursor db"
  "rd_reservations (cd_ledger (return_slot i db)) = rd_reservations (cd_ledger db)"
  "rd_items (cd_ledger (return_slot i db)) = rd_items (cd_ledger db)"
  by (simp_all add: return_slot_def split: option.split)

lemma return_slots_frame [simp]:
  "cd_executions (fold return_slot is db) = cd_executions db"
  "cd_events (fold return_slot is db) = cd_events db"
  "cd_cursor (fold return_slot is db) = cd_cursor db"
  "rd_reservations (cd_ledger (fold return_slot is db)) = rd_reservations (cd_ledger db)"
  "rd_items (cd_ledger (fold return_slot is db)) = rd_items (cd_ledger db)"
  by (induction "is" arbitrary: db) simp_all

lemma log_update_frame [simp]:
  "rd_items (log_event rid k a d t l) = rd_items l"
  "rd_reservations (log_event rid k a d t l) = rd_reservations l"
  "rd_items (update_reservation rid f l) = rd_items l"
  by (simp_all add: log_event_def update_reservation_def)

lemma release_control_frame [simp]:
  "cd_executions (release_control_plane_reservation cx now x reason db) = cd_executions db"
  "cd_events (release_control_plane_reservation cx now x reason db) = cd_events db"
  "cd_cursor (release_control_plane_reservation cx now x reason db) = cd_cursor db"
  by (simp_all add: release_control_plane_reservation_def Let_def split: option.split)

lemma find_execution_cong:
  "cd_executions db = cd_executions db' \<Longrightarrow> find_execution db x = find_execution db' x"
  by (simp add: find_execution_def)

lemma find_execution_update:
  assumes "\<And>r. ex_id (f r) = ex_id r"
  shows "find_execution (update_execution x f db) y
    = map_option (\<lambda>r. if ex_id r = x then f r else r) (find_execution db y)"
proof -
  have "find (\<lambda>r. ex_id r = y) (map (\<lambda>r. if ex_id r = x then f r else r) rs)
      = map_option (\<lambda>r. if ex_id r = x then f r else r) (find (\<lambda>r. ex_id r = y) rs)" for rs
    by (induction rs) (auto simp: assms)
  then show ?thesis by (simp add: find_execution_def update_execution_def)
qed

lemma insert_eventD:
  assumes "insert_event now eid x kind payload db = Inr (c, db')"
  shows "db' = db\<lparr>cd_cursor := Suc (cd_cursor db), cd_events := cd_events db @
           [\<lparr>cv_cursor = Suc (cd_cursor db), cv_id = eid, cv_execution = x, cv_kind = kind,
             cv_payload = payload, cv_created = secs now\<rparr>]\<rparr>"
    and "c = Suc (cd_cursor db)" and "find_execution db x \<noteq> None"
    and "\<forall>e\<in>set (cd_events db). cv_id e \<noteq> eid"
  using assms by (auto simp: insert_event_def list_ex_iff split: if_splits)

section \<open>One slot for every execution that runs\<close>

definition slot_of :: "execution_entry \<Rightarrow> string" where
  "slot_of x = ''control-plane:'' @ ex_id x @ '':'' @ show_nat (ex_attempt x)"

definition control_held :: "reservation_row \<Rightarrow> bool" where
  "control_held r \<longleftrightarrow> ow_kind (rv_owner r) = ''control-plane-worker'' \<and> rv_state r = Held"

definition slot_items :: "reservation_db \<Rightarrow> string \<Rightarrow> (pool_key \<times> nat) list" where
  "slot_items l rid = map (\<lambda>i. (it_key i, it_granted i)) (filter (\<lambda>i. it_reservation i = rid) (rd_items l))"

definition held_of :: "reservation_db \<Rightarrow> string \<Rightarrow> reservation_row list" where
  "held_of l x = filter (\<lambda>r. ow_execution_id (rv_owner r) = x \<and> control_held r) (rd_reservations l)"

definition slots_ok :: "reservation_db \<Rightarrow> execution_entry list \<Rightarrow> bool" where
  "slots_ok l xs \<longleftrightarrow>
     distinct (map ex_id xs) \<and> distinct (map rv_id (rd_reservations l))
     \<and> (\<forall>i\<in>set (rd_items l). it_reservation i \<in> rv_id ` set (rd_reservations l))
     \<and> (\<forall>r\<in>set (rd_reservations l). control_held r \<longrightarrow>
          (\<exists>x\<in>set xs. occupies x \<and> ex_id x = ow_execution_id (rv_owner r)))
     \<and> (\<forall>x\<in>set xs. occupies x \<longrightarrow> map rv_id (held_of l (ex_id x)) = [slot_of x]
          \<and> slot_items l (slot_of x) = [(slot_key global_pool, 1), (slot_key (project_pool (ex_project x)), 1)])"

lemma slots_okI:
  assumes "distinct (map ex_id xs)" and "distinct (map rv_id (rd_reservations l))"
    and "\<And>i. i \<in> set (rd_items l) \<Longrightarrow> it_reservation i \<in> rv_id ` set (rd_reservations l)"
    and "\<And>r. r \<in> set (rd_reservations l) \<Longrightarrow> control_held r
           \<Longrightarrow> \<exists>x\<in>set xs. occupies x \<and> ex_id x = ow_execution_id (rv_owner r)"
    and "\<And>x. x \<in> set xs \<Longrightarrow> occupies x \<Longrightarrow> map rv_id (held_of l (ex_id x)) = [slot_of x]
           \<and> slot_items l (slot_of x) = [(slot_key global_pool, 1), (slot_key (project_pool (ex_project x)), 1)]"
  shows "slots_ok l xs"
  using assms by (simp add: slots_ok_def)

lemma slots_okE:
  assumes "slots_ok l xs"
  shows "distinct (map ex_id xs)" "distinct (map rv_id (rd_reservations l))"
    "\<And>i. i \<in> set (rd_items l) \<Longrightarrow> it_reservation i \<in> rv_id ` set (rd_reservations l)"
    "\<And>x. x \<in> set xs \<Longrightarrow> occupies x \<Longrightarrow> map rv_id (held_of l (ex_id x)) = [slot_of x]
           \<and> slot_items l (slot_of x) = [(slot_key global_pool, 1), (slot_key (project_pool (ex_project x)), 1)]"
  using assms by (simp_all add: slots_ok_def)

abbreviation slots_agree :: "control_db \<Rightarrow> bool" where
  "slots_agree db \<equiv> slots_ok (cd_ledger db) (cd_executions db)"

lemma held_control_is_held_of: "held_control_reservations db x = held_of (cd_ledger db) x"
  by (simp add: held_control_reservations_def held_of_def control_held_def conj_assoc)

text \<open>Only the identity, the project, the attempt and the occupation of an execution count.\<close>

lemma slots_ok_map:
  assumes "slots_ok l xs"
    and "\<And>x. x \<in> set xs \<Longrightarrow> ex_id (f x) = ex_id x \<and> ex_project (f x) = ex_project x \<and> ex_attempt (f x) = ex_attempt x
           \<and> occupies (f x) = occupies x"
  shows "slots_ok l (map f xs)"
proof -
  have "distinct (map (ex_id \<circ> f) xs)" using assms by (simp add: slots_ok_def distinct_map inj_on_def)
  moreover have "slot_of (f x) = slot_of x" if "x \<in> set xs" for x
    using assms(2)[OF that] by (simp add: slot_of_def)
  ultimately show ?thesis using assms by (simp add: slots_ok_def)
qed

lemma slots_ok_pools:
  assumes "slots_ok l xs" and "rd_reservations l' = rd_reservations l" and "rd_items l' = rd_items l"
  shows "slots_ok l' xs"
  using assms by (simp add: slots_ok_def held_of_def slot_items_def)

lemma slots_ok_new:
  assumes "slots_ok l xs" and "ex_id x \<notin> ex_id ` set xs" and "\<not> occupies x"
  shows "slots_ok l (xs @ [x])"
  using assms by (auto simp: slots_ok_def)

lemma slots_ok_holder:
  "slots_ok l xs \<Longrightarrow> r \<in> set (rd_reservations l) \<Longrightarrow> control_held r
     \<Longrightarrow> \<exists>x\<in>set xs. occupies x \<and> ex_id x = ow_execution_id (rv_owner r)"
  by (simp add: slots_ok_def)

lemma slots_okD:
  assumes "slots_ok l xs" and "x \<in> set xs"
  shows "map rv_id (held_of l (ex_id x)) = (if occupies x then [slot_of x] else [])"
proof (cases "occupies x")
  case True
  then show ?thesis using assms by (simp add: slots_ok_def)
next
  case False
  have "held_of l (ex_id x) = []"
  proof (rule ccontr)
    assume "held_of l (ex_id x) \<noteq> []"
    then obtain r where "r \<in> set (rd_reservations l)" "control_held r" "ow_execution_id (rv_owner r) = ex_id x"
      by (auto simp: held_of_def filter_empty_conv)
    then obtain y where "y \<in> set xs" "occupies y" "ex_id y = ex_id x"
      using slots_ok_holder[OF assms(1)] by metis
    then have "y = x" using assms by (auto simp: slots_ok_def distinct_map inj_on_def)
    then show False using \<open>occupies y\<close> False by simp
  qed
  then show ?thesis using False by simp
qed

subsection \<open>Leaving a slot\<close>

definition released_at :: "string \<Rightarrow> string \<Rightarrow> reservation_row \<Rightarrow> reservation_row" where
  "released_at rid at r = (if rv_id r = rid \<and> rv_state r = Held
     then r\<lparr>rv_state := Released, rv_resolved_at := Some at\<rparr> else r)"

lemma released_at_simps [simp]:
  "rv_id (released_at rid at r) = rv_id r" "rv_owner (released_at rid at r) = rv_owner r"
  "control_held (released_at rid at r) \<longleftrightarrow> control_held r \<and> rv_id r \<noteq> rid"
  by (auto simp: released_at_def control_held_def)

lemma released_at_other: "control_held (released_at rid at r) \<Longrightarrow> released_at rid at r = r"
  by (auto simp: released_at_def control_held_def)

lemma held_of_released:
  assumes "rd_reservations l' = map (released_at rid at) (rd_reservations l)"
  shows "held_of l' y = filter (\<lambda>r. rv_id r \<noteq> rid) (held_of l y)"
proof -
  have "filter (\<lambda>r. ow_execution_id (rv_owner r) = y \<and> control_held r) (map (released_at rid at) rs)
      = filter (\<lambda>r. rv_id r \<noteq> rid) (filter (\<lambda>r. ow_execution_id (rv_owner r) = y \<and> control_held r) rs)" for rs
    by (induction rs) (auto dest: released_at_other, metis released_at_other released_at_simps(3))
  then show ?thesis by (simp add: held_of_def assms)
qed

lemma held_of_member: "r \<in> set (held_of l x) \<longleftrightarrow>
    r \<in> set (rd_reservations l) \<and> control_held r \<and> ow_execution_id (rv_owner r) = x"
  by (auto simp: held_of_def)

lemma slots_ok_released:
  assumes ok: "slots_ok l xs" and held: "held_of l x = [r0]"
    and res: "rd_reservations l' = map (released_at (rv_id r0) at) (rd_reservations l)"
    and items: "rd_items l' = rd_items l"
    and f: "\<And>r. ex_id (f r) = ex_id r \<and> \<not> occupies (f r)"
  shows "slots_ok l' (map (\<lambda>r. if ex_id r = x then f r else r) xs)"
proof -
  have r0: "r0 \<in> set (rd_reservations l)" "ow_execution_id (rv_owner r0) = x"
    using held held_of_member[of r0 l x] by simp_all
  have only: "r = r0" if "r \<in> set (rd_reservations l)" "control_held r" "ow_execution_id (rv_owner r) = x" for r
    using that held held_of_member[of r l x] by simp
  have same: "r = r0" if "r \<in> set (rd_reservations l)" "rv_id r = rv_id r0" for r
    using ok r0(1) that by (auto simp: slots_ok_def distinct_map inj_on_def)
  have ids: "map rv_id (rd_reservations l') = map rv_id (rd_reservations l)" by (simp add: res)
  have "distinct (map (\<lambda>r. ex_id (if ex_id r = x then f r else r)) xs)"
    using ok f by (simp add: slots_ok_def cong: if_cong) (simp add: if_distrib cong: if_cong)
  moreover have "\<forall>i\<in>set (rd_items l'). it_reservation i \<in> rv_id ` set (rd_reservations l')"
    using ok arg_cong[OF ids, of set] by (simp add: slots_ok_def items)
  moreover have "\<exists>y\<in>set (map (\<lambda>r. if ex_id r = x then f r else r) xs). occupies y \<and> ex_id y = ow_execution_id (rv_owner r)"
    if r: "r \<in> set (rd_reservations l')" "control_held r" for r
  proof -
    obtain r' where r': "r' \<in> set (rd_reservations l)" "r = released_at (rv_id r0) at r'" using r(1) res by auto
    then have held': "control_held r'" "rv_id r' \<noteq> rv_id r0" using r(2) by simp_all
    then obtain y where y: "y \<in> set xs" "occupies y" "ex_id y = ow_execution_id (rv_owner r')"
      using slots_ok_holder[OF ok] r'(1) by metis
    then have "ex_id y \<noteq> x" using only[OF r'(1) held'(1)] held'(2) by auto
    then show ?thesis using y r'(2) by (auto intro!: bexI[of _ y] image_eqI[of _ _ y])
  qed
  moreover have "map rv_id (held_of l' (ex_id y)) = [slot_of y]
      \<and> slot_items l' (slot_of y) = [(slot_key global_pool, 1), (slot_key (project_pool (ex_project y)), 1)]"
    if y: "y \<in> set (map (\<lambda>r. if ex_id r = x then f r else r) xs)" "occupies y" for y
  proof -
    have y': "y \<in> set xs" "ex_id y \<noteq> x" using y f by (auto split: if_splits)
    have held_y: "map rv_id (held_of l (ex_id y)) = [slot_of y]" and
      items_y: "slot_items l (slot_of y) = [(slot_key global_pool, 1), (slot_key (project_pool (ex_project y)), 1)]"
      using ok y'(1) y(2) by (simp_all add: slots_ok_def)
    then obtain r where r: "held_of l (ex_id y) = [r]" by (cases "held_of l (ex_id y)") auto
    have "rv_id r \<noteq> rv_id r0"
      using same[of r] held_of_member[of r l "ex_id y"] r r0(2) y'(2) by auto
    then have "held_of l' (ex_id y) = held_of l (ex_id y)" by (simp add: held_of_released[OF res] r)
    then show ?thesis using held_y items_y by (simp add: slot_items_def items)
  qed
  moreover have "distinct (map rv_id (rd_reservations l'))" using ok by (simp add: slots_ok_def ids)
  ultimately show ?thesis unfolding slots_ok_def by (simp add: comp_def)
qed

lemma release_control_ledger:
  assumes "held_control_reservations db x = [r0]"
  obtains at where "rd_reservations (cd_ledger (release_control_plane_reservation cx now x reason db))
      = map (released_at (rv_id r0) at) (rd_reservations (cd_ledger db))"
    and "rd_items (cd_ledger (release_control_plane_reservation cx now x reason db)) = rd_items (cd_ledger db)"
proof -
  let ?at = "cx_datetime cx (secs now)"
  have eq: "(\<lambda>r. if rv_id r = rv_id r0 then if rv_state r = Held
             then r\<lparr>rv_state := Released, rv_resolved_at := Some ?at\<rparr> else r else r) = released_at (rv_id r0) ?at"
    by (auto simp: released_at_def)
  show thesis
    by (rule that[of ?at])
       (simp_all add: release_control_plane_reservation_def latest_reservation_def assms Let_def
         log_event_def update_reservation_def eq)
qed

text \<open>An execution stops occupying and its reservation, if it has one, is released.\<close>

lemma slots_ok_vacate:
  assumes ok: "slots_ok (cd_ledger db) xs"
    and f: "\<And>r. ex_id (f r) = ex_id r \<and> \<not> occupies (f r)"
  shows "slots_ok (cd_ledger (release_control_plane_reservation cx now x reason db))
           (map (\<lambda>r. if ex_id r = x then f r else r) xs)"
proof (cases "held_of (cd_ledger db) x")
  case Nil
  then have none: "\<not> occupies r" if "r \<in> set xs" "ex_id r = x" for r
    using slots_okD[OF ok that(1)] that(2) by (auto split: if_splits)
  have "release_control_plane_reservation cx now x reason db = db"
    by (simp add: release_control_plane_reservation_def held_control_is_held_of Nil latest_reservation_def)
  moreover have "slots_ok (cd_ledger db) (map (\<lambda>r. if ex_id r = x then f r else r) xs)"
  proof -
    let ?g = "\<lambda>r. if ex_id r = x then f r else r"
    have ids: "ex_id (?g r) = ex_id r" for r using f by simp
    have inside: "y \<in> set xs" if "y \<in> set (map ?g xs)" "occupies y" for y using that f by auto
    have holder: "\<exists>y\<in>set (map ?g xs). occupies y \<and> ex_id y = ow_execution_id (rv_owner r)"
      if r: "r \<in> set (rd_reservations (cd_ledger db))" "control_held r" for r
    proof -
      obtain y where "y \<in> set xs" "occupies y" "ex_id y = ow_execution_id (rv_owner r)"
        using slots_ok_holder[OF ok r] by metis
      moreover from this have "?g y = y" using none by auto
      ultimately show ?thesis by (auto intro!: bexI[of _ y] image_eqI[of _ _ y])
    qed
    have "distinct (map ex_id (map ?g xs))"
      using ok ids by (simp add: slots_ok_def comp_def del: if_split)
    then show ?thesis
      by (rule slots_okI) (fact slots_okE(2)[OF ok], fact slots_okE(3)[OF ok], fact holder,
        rule slots_okE(4)[OF ok inside])
  qed
  ultimately show ?thesis by simp
next
  case (Cons r0 rest)
  then obtain y where y: "y \<in> set xs" "ex_id y = x"
    using slots_ok_holder[OF ok, of r0] held_of_member[of r0 "cd_ledger db" x] by auto
  have "rest = []" using slots_okD[OF ok y(1)] y(2) Cons by (auto split: if_splits)
  then have one: "held_of (cd_ledger db) x = [r0]" using Cons by simp
  then have "held_control_reservations db x = [r0]" by (simp add: held_control_is_held_of)
  then obtain at where
    "rd_reservations (cd_ledger (release_control_plane_reservation cx now x reason db))
       = map (released_at (rv_id r0) at) (rd_reservations (cd_ledger db))"
    "rd_items (cd_ledger (release_control_plane_reservation cx now x reason db)) = rd_items (cd_ledger db)"
    by (rule release_control_ledger)
  then show ?thesis by (rule slots_ok_released[OF ok one _ _ f])
qed

subsection \<open>Taking a slot\<close>

lemma slots_ok_occupy:
  assumes ok: "slots_ok l xs" and x: "x \<in> set xs" "\<not> occupies x"
    and res: "rd_reservations l' = rd_reservations l @ [row]"
    and items: "rd_items l' = rd_items l @ [i1, i2]"
    and row: "rv_id row \<notin> rv_id ` set (rd_reservations l)" "control_held row"
      "ow_execution_id (rv_owner row) = ex_id x"
    and i1: "it_reservation i1 = rv_id row" "it_key i1 = slot_key global_pool" "it_granted i1 = 1"
    and i2: "it_reservation i2 = rv_id row" "it_key i2 = slot_key (project_pool (ex_project x))" "it_granted i2 = 1"
    and f: "ex_id (f x) = ex_id x" "ex_project (f x) = ex_project x" "occupies (f x)" "slot_of (f x) = rv_id row"
  shows "slots_ok l' (map (\<lambda>r. if ex_id r = ex_id x then f r else r) xs)"
proof -
  let ?g = "\<lambda>r. if ex_id r = ex_id x then f r else r"
  have inj: "r = x" if "r \<in> set xs" "ex_id r = ex_id x" for r
    using ok x(1) that by (auto simp: slots_ok_def distinct_map inj_on_def)
  have g: "ex_id (?g r) = ex_id r" if "r \<in> set xs" for r using inj[OF that] f(1) by auto
  then have "map ex_id (map ?g xs) = map ex_id xs" by simp
  then have "distinct (map ex_id (map ?g xs))" using ok unfolding slots_ok_def by (metis (no_types, lifting))
  moreover have "distinct (map rv_id (rd_reservations l'))" using ok row(1) by (simp add: slots_ok_def res)
  moreover have "\<forall>i\<in>set (rd_items l'). it_reservation i \<in> rv_id ` set (rd_reservations l')"
    using ok i1(1) i2(1) by (auto simp: slots_ok_def res items)
  moreover have "\<exists>y\<in>set (map ?g xs). occupies y \<and> ex_id y = ow_execution_id (rv_owner r)"
    if r: "r \<in> set (rd_reservations l')" "control_held r" for r
  proof (cases "r = row")
    case True
    have "f x \<in> set (map ?g xs)" using x(1) by (auto intro!: image_eqI[of _ _ x])
    then show ?thesis using True row(3) f(1,3) by (intro bexI[of _ "f x"]) simp_all
  next
    case False
    then obtain y where y: "y \<in> set xs" "occupies y" "ex_id y = ow_execution_id (rv_owner r)"
      using slots_ok_holder[OF ok, of r] r by (auto simp: res)
    then have "ex_id y \<noteq> ex_id x" using inj[OF y(1)] x(2) by auto
    then show ?thesis using y by (auto intro!: bexI[of _ y])
  qed
  moreover have "map rv_id (held_of l' (ex_id y)) = [slot_of y]
      \<and> slot_items l' (slot_of y) = [(slot_key global_pool, 1), (slot_key (project_pool (ex_project y)), 1)]"
    if y: "y \<in> set (map ?g xs)" "occupies y" for y
  proof (cases "ex_id y = ex_id x")
    case True
    then have "y = f x" using y(1) inj f(1) by auto
    moreover have "held_of l (ex_id x) = []" using slots_okD[OF ok x(1)] x(2) by simp
    moreover have "slot_items l (rv_id row) = []"
    proof -
      have "it_reservation i \<noteq> rv_id row" if "i \<in> set (rd_items l)" for i
        using slots_okE(3)[OF ok that] row(1) by auto
      then show ?thesis by (simp add: slot_items_def filter_empty_conv)
    qed
    ultimately show ?thesis
      using row(2,3) f i1 i2 by (simp add: held_of_def slot_items_def res items)
  next
    case False
    then have y': "y \<in> set xs" using y(1) f(1) inj by auto
    then have held: "map rv_id (held_of l (ex_id y)) = [slot_of y]"
      and it: "slot_items l (slot_of y) = [(slot_key global_pool, 1), (slot_key (project_pool (ex_project y)), 1)]"
      using ok y(2) by (simp_all add: slots_ok_def)
    obtain r where "held_of l (ex_id y) = [r]" "rv_id r = slot_of y"
      using held by (cases "held_of l (ex_id y)") auto
    then have "slot_of y \<in> rv_id ` set (rd_reservations l)"
      using held_of_member[of r l "ex_id y"] by (metis imageI list.set_intros(1))
    then have "rv_id row \<noteq> slot_of y" using row(1) by auto
    then show ?thesis
      using held it i1(1) i2(1) row(3) False by (simp add: held_of_def slot_items_def res items)
  qed
  ultimately show ?thesis unfolding slots_ok_def by blast
qed

lemma take_slotD:
  assumes "take_slot pool db = Inr db'"
  shows "cd_executions db' = cd_executions db" "cd_events db' = cd_events db" "cd_cursor db' = cd_cursor db"
    "cd_projects db' = cd_projects db"
    "rd_reservations (cd_ledger db') = rd_reservations (cd_ledger db)"
    "rd_items (cd_ledger db') = rd_items (cd_ledger db)"
  using assms by (auto simp: take_slot_def set_pool_def split: option.splits if_splits)

lemma ensure_slot_poolD:
  assumes "ensure_slot_pool pool capacity n db = Inr db'"
  shows "cd_executions db' = cd_executions db" "cd_events db' = cd_events db" "cd_cursor db' = cd_cursor db"
    "cd_projects db' = cd_projects db"
    "rd_reservations (cd_ledger db') = rd_reservations (cd_ledger db)"
    "rd_items (cd_ledger db') = rd_items (cd_ledger db)"
  using assms by (auto simp: ensure_slot_pool_def set_pool_def split: if_splits)

lemma insert_slot_itemD:
  assumes "insert_slot_item rid pool db = Inr db'"
  shows "cd_executions db' = cd_executions db" "cd_events db' = cd_events db" "cd_cursor db' = cd_cursor db"
    "cd_projects db' = cd_projects db"
    "rd_reservations (cd_ledger db') = rd_reservations (cd_ledger db)"
    "rd_items (cd_ledger db') = rd_items (cd_ledger db) @ [\<lparr>it_reservation = rid, it_key = slot_key pool,
        it_requested = 1, it_granted = 1, it_observed = None, it_overrun = 0\<rparr>]"
  using assms by (auto simp: insert_slot_item_def split: if_splits)

lemma insert_reservationD:
  assumes "insert_reservation row l = Inr l'"
  shows "rd_reservations l' = rd_reservations l @ [row]" "rd_items l' = rd_items l"
    "rv_id row \<notin> rv_id ` set (rd_reservations l)"
  using assms by (auto simp: insert_reservation_def list_ex_iff split: if_splits)

lemma acquire_controlD:
  assumes "acquire_control_plane_reservation cx now x p n generation pool db = Inr db'"
  obtains row where
    "cd_executions db' = cd_executions db" "cd_events db' = cd_events db" "cd_cursor db' = cd_cursor db"
    "cd_projects db' = cd_projects db"
    "rd_reservations (cd_ledger db') = rd_reservations (cd_ledger db) @ [row]"
    "rd_items (cd_ledger db') = rd_items (cd_ledger db) @
       [\<lparr>it_reservation = rv_id row, it_key = slot_key global_pool, it_requested = 1, it_granted = 1,
          it_observed = None, it_overrun = 0\<rparr>,
        \<lparr>it_reservation = rv_id row, it_key = slot_key pool, it_requested = 1, it_granted = 1,
          it_observed = None, it_overrun = 0\<rparr>]"
    "rv_id row = ''control-plane:'' @ x @ '':'' @ show_nat n" "control_held row"
    "ow_execution_id (rv_owner row) = x"
    "rv_id row \<notin> rv_id ` set (rd_reservations (cd_ledger db))"
proof -
  let ?rid = "''control-plane:'' @ x @ '':'' @ show_nat n" and ?at = "cx_datetime cx (secs now)"
  obtain db1 db2 l db3 db4 where
    steps: "take_slot global_pool db = Inr db1" "take_slot pool db1 = Inr db2"
    "insert_reservation \<lparr>rv_id = ?rid, rv_owner = control_owner db2 x p n generation,
         rv_state = Held, rv_sequence = next_sequence (cd_ledger db2), rv_acquired_at = ?at,
         rv_expires_at = None, rv_resolved_at = None, rv_unknown = False, rv_overrun = False\<rparr>
         (cd_ledger db2) = Inr l"
    "insert_slot_item ?rid global_pool (db2\<lparr>cd_ledger := l\<rparr>) = Inr db3"
    "insert_slot_item ?rid pool db3 = Inr db4"
    "db' = start_history now x p
       (update_ledger (log_event ?rid ''acquired'' ''control-plane'' ''atomic execution claim'' ?at) db4)"
    using assms unfolding acquire_control_plane_reservation_def Let_def rbind_Inr_iff by blast
  note facts = take_slotD[OF steps(1)] take_slotD[OF steps(2)] insert_reservationD[OF steps(3)]
    insert_slot_itemD[OF steps(4)] insert_slot_itemD[OF steps(5)]
  show thesis
    by (rule that[of "\<lparr>rv_id = ?rid, rv_owner = control_owner db2 x p n generation,
         rv_state = Held, rv_sequence = next_sequence (cd_ledger db2), rv_acquired_at = ?at,
         rv_expires_at = None, rv_resolved_at = None, rv_unknown = False, rv_overrun = False\<rparr>"])
      (use facts in \<open>simp_all add: steps(6) control_held_def control_owner_def\<close>)
qed

subsection \<open>Every operation keeps the slots\<close>

lemma slots_agree_same:
  assumes "slots_agree db" and "cd_ledger db' = cd_ledger db" and "cd_executions db' = cd_executions db"
  shows "slots_agree db'"
  using assms by simp

lemma submit_slots:
  assumes "submit now db s = Inr (a, db')" and "slots_agree db"
  shows "slots_agree db'"
proof -
  have new: "slots_agree db1" if i: "insert_execution now s db = Inr db1" for db1
  proof -
    have "find_execution db (sb_execution_id s) = None" using i by (auto simp: insert_execution_def split: if_splits)
    then have "sb_execution_id s \<notin> ex_id ` set (cd_executions db)"
      by (auto simp: find_execution_def find_None_iff)
    then show ?thesis
      using i slots_ok_new[OF assms(2)] by (auto simp: insert_execution_def occupies_def split: if_splits)
  qed
  show ?thesis
    using assms new by (auto simp: submit_def rbind_Inr_iff dest!: insert_eventD(1) split: option.splits prod.splits)
qed

lemma bind_slots:
  assumes "bind_worker now db x w pid start token generation = Inr db'" and "slots_agree db"
  shows "slots_agree db'"
proof -
  have "cd_ledger db' = cd_ledger db" and
    "cd_executions db' = map (\<lambda>r. if ex_id r = x then r\<lparr>ex_worker := Some w\<rparr> else r) (cd_executions db)"
    using assms(1) by (auto simp: bind_worker_def update_execution_def split: option.splits if_splits)
  then show ?thesis using slots_ok_map[OF assms(2)] by (simp add: occupies_def)
qed

lemma finish_executionD:
  assumes "finish_execution cx now db x st reason = Inr (b, db')" and b
  obtains db1 e1 e2 where "cd_ledger db1 = cd_ledger db"
    "cd_executions db1 = map (\<lambda>r. if ex_id r = x then r\<lparr>ex_state := st, ex_completed := Some (secs now),
       ex_updated := secs now\<rparr> else r) (cd_executions db)"
    "cd_events db1 = cd_events db @ [e1, e2]" "cd_cursor db1 = cd_cursor db + 2"
    "map cv_cursor [e1, e2] = [cd_cursor db + 1, cd_cursor db + 2]"
    "map cv_execution [e1, e2] = [x, x]" "map cv_kind [e1, e2] = [state_name st, ''usage_finalized'']"
    "db' = release_control_plane_reservation cx now x ''execution_terminal'' db1" "terminal_state st"
    "find_execution db x \<noteq> None"
proof -
  let ?db0 = "update_execution x (\<lambda>r. r\<lparr>ex_state := st, ex_completed := Some (secs now),
                      ex_updated := secs now\<rparr>) db"
  obtain c1 db2 c2 db3 where
    i1: "insert_event now (x @ '':'' @ state_name st) x (state_name st) (cx_reason_json cx reason) ?db0
      = Inr (c1, db2)" and
    i2: "insert_event now (x @ '':usage_finalized'') x ''usage_finalized''
      (''{'' @ double_quoted ''known'' @ '':false}'') db2 = Inr (c2, db3)" and
    db': "db' = release_control_plane_reservation cx now x ''execution_terminal''
      (insert_observation now x (insert_evidence now x (state_name st) (end_history now x st db3)))"
    and st: "terminal_state st" "find_execution db x \<noteq> None"
    using assms by (auto simp: finish_execution_def Let_def rbind_Inr_iff split: option.splits if_splits prod.splits)
  show thesis
    by (rule that[OF _ _ _ _ _ _ _ db' st])
      (simp_all add: insert_eventD(1)[OF i2] insert_eventD(1)[OF i1] update_execution_def, simp_all)
qed

lemma finish_slots:
  assumes "finish_execution cx now db x st reason = Inr (b, db')" and "slots_agree db"
  shows "slots_agree db'"
proof (cases b)
  case False
  then have "db' = db" using assms(1)
    by (auto simp: finish_execution_def Let_def rbind_Inr_iff split: option.splits if_splits prod.splits)
  then show ?thesis using assms(2) by simp
next
  case True
  let ?f = "\<lambda>r. r\<lparr>ex_state := st, ex_completed := Some (secs now), ex_updated := secs now\<rparr>"
  show ?thesis
  proof (rule finish_executionD[OF assms(1) True])
    fix db1
    assume ledger: "cd_ledger db1 = cd_ledger db"
      and xs: "cd_executions db1 = map (\<lambda>r. if ex_id r = x then ?f r else r) (cd_executions db)"
      and db': "db' = release_control_plane_reservation cx now x ''execution_terminal'' db1"
      and st: "terminal_state st"
    have ok: "slots_ok (cd_ledger db1) (cd_executions db)" using assms(2) ledger by simp
    have "ex_id (?f r) = ex_id r \<and> \<not> occupies (?f r)" for r
      using st by (cases st) (simp_all add: occupies_def terminal_state_def)
    from slots_ok_vacate[OF ok this] show ?thesis by (simp add: db' xs)
  qed
qed


lemma rbind_dropD: "rbind m (\<lambda>(_, d). Inr (n', d)) = Inr (n, d') \<Longrightarrow> \<exists>c. m = Inr (c, d')"
  by (auto simp: rbind_Inr_iff)

text \<open>What one row of \<open>recover_running\<close> does.\<close>

lemma recover_oneD:
  assumes "recover_one cx now live (x, worker) db = Inr (n, db')"
  obtains orphan f db1 e where
    "\<And>r. ex_id (f r) = ex_id r \<and> ex_project (f r) = ex_project r \<and> ex_attempt (f r) = ex_attempt r
       \<and> ex_key (f r) = ex_key r
       \<and> (ex_state r = Running \<longrightarrow> ex_state (f r) = (if orphan then AmbiguousLiveOrphan else Queued))
       \<and> (ex_state r \<noteq> Running \<longrightarrow> f r = r)"
    "cd_ledger db1 = cd_ledger db" "cd_events db1 = cd_events db" "cd_cursor db1 = cd_cursor db"
    "cd_executions db1 = map (\<lambda>r. if ex_id r = x then f r else r) (cd_executions db)"
    "cd_ledger db' = cd_ledger (if orphan then db1
       else release_control_plane_reservation cx now x ''runner_interrupted'' db1)"
    "cd_executions db' = cd_executions db1" "cd_events db' = cd_events db @ [e]"
    "cd_cursor db' = Suc (cd_cursor db)" "cv_cursor e = Suc (cd_cursor db)" "cv_execution e = x"
    "cv_kind e \<noteq> ''submitted''" "find_execution db1 x \<noteq> None"
proof -
  define orphan where "orphan = (case worker of Some w \<Rightarrow> w \<in> set live | None \<Rightarrow> False)"
  define kind where "kind = (if orphan then ''ambiguous_live_orphan'' else ''runner_interrupted'')"
  define f :: "execution_entry \<Rightarrow> execution_entry" where "f = (\<lambda>r. if ex_state r = Running
       then r\<lparr>ex_state := (if orphan then AmbiguousLiveOrphan else Queued), ex_updated := secs now\<rparr> else r)"
  define db1 where "db1 = (case worker of None \<Rightarrow> update_execution x f db | Some w \<Rightarrow>
      (update_execution x f db)\<lparr>cd_workers := map (\<lambda>k. if wk_identity k = w
         then k\<lparr>wk_state := (if orphan then Worker_Ambiguous else Worker_Exited), wk_exit_reason := Some kind,
                wk_ended := (if orphan then wk_ended k else Some (secs now))\<rparr>
         else k) (cd_workers (update_execution x f db))\<rparr>)"
  define db2 where "db2 = (if orphan then db1 else release_control_plane_reservation cx now x ''runner_interrupted'' db1)"
  obtain c where ev: "insert_event now (x @ '':recovery:'' @ kind) x kind ''{}'' db2 = Inr (c, db')"
    using rbind_dropD[OF assms[unfolded recover_one_def Let_def prod.case, folded orphan_def, folded kind_def,
        folded f_def, folded db1_def, folded db2_def]] by (elim exE)
  have frame: "cd_ledger db1 = cd_ledger db" "cd_events db1 = cd_events db" "cd_cursor db1 = cd_cursor db"
    "cd_executions db1 = map (\<lambda>r. if ex_id r = x then f r else r) (cd_executions db)"
    by (simp_all add: db1_def update_execution_def split: option.split)
  have frame2: "cd_executions db2 = cd_executions db1" "cd_events db2 = cd_events db1" "cd_cursor db2 = cd_cursor db1"
    by (simp_all add: db2_def)
  have found: "find_execution db1 x \<noteq> None"
    using insert_eventD(3)[OF ev] find_execution_cong[OF frame2(1)] by simp
  have kind: "kind \<noteq> ''submitted''" by (simp add: kind_def)
  have f: "ex_id (f r) = ex_id r \<and> ex_project (f r) = ex_project r \<and> ex_attempt (f r) = ex_attempt r
       \<and> ex_key (f r) = ex_key r
       \<and> (ex_state r = Running \<longrightarrow> ex_state (f r) = (if orphan then AmbiguousLiveOrphan else Queued))
       \<and> (ex_state r \<noteq> Running \<longrightarrow> f r = r)" for r by (simp add: f_def)
  show thesis
    by (rule that[OF f frame _ _ _ _ _ _ _ found])
      (simp_all add: insert_eventD(1)[OF ev] frame2 frame(2,3) kind, simp_all add: db2_def kind)
qed

lemma recover_one_slots:
  assumes "recover_one cx now live (x, worker) db = Inr (n, db')" and "slots_agree db"
    and running: "\<And>r. r \<in> set (cd_executions db) \<Longrightarrow> ex_id r = x \<Longrightarrow> ex_state r = Running"
  shows "slots_agree db'"
proof (rule recover_oneD[OF assms(1)])
  fix orphan f db1
  assume f: "\<And>r. ex_id (f r) = ex_id r \<and> ex_project (f r) = ex_project r \<and> ex_attempt (f r) = ex_attempt r
       \<and> ex_key (f r) = ex_key r
       \<and> (ex_state r = Running \<longrightarrow> ex_state (f r) = (if orphan then AmbiguousLiveOrphan else Queued))
       \<and> (ex_state r \<noteq> Running \<longrightarrow> f r = r)"
    and db1: "cd_ledger db1 = cd_ledger db"
      "cd_executions db1 = map (\<lambda>r. if ex_id r = x then f r else r) (cd_executions db)"
    and db': "cd_ledger db' = cd_ledger (if orphan then db1
        else release_control_plane_reservation cx now x ''runner_interrupted'' db1)"
      "cd_executions db' = cd_executions db1"
  show ?thesis
  proof (cases orphan)
    case True
    have "occupies (f r) = occupies r" for r
      using f[of r] True by (cases "ex_state r = Running") (auto simp: occupies_def)
    then show ?thesis using slots_ok_map[OF assms(2)] f True by (simp add: db' db1)
  next
    case False
    let ?h = "\<lambda>r. (f r)\<lparr>ex_state := Queued\<rparr>"
    have "?h r = f r" if "r \<in> set (cd_executions db)" "ex_id r = x" for r
      using f[of r] running[OF that] False by simp
    then have xs: "cd_executions db1 = map (\<lambda>r. if ex_id r = x then ?h r else r) (cd_executions db)"
      by (simp add: db1)
    have "ex_id (?h r) = ex_id r \<and> \<not> occupies (?h r)" for r using f[of r] by (simp add: occupies_def)
    moreover have "slots_ok (cd_ledger db1) (cd_executions db)" using assms(2) by (simp add: db1)
    ultimately show ?thesis using slots_ok_vacate False by (simp add: db' xs)
  qed
qed

text \<open>A row touches its own execution only.\<close>

lemma recover_one_others:
  assumes "recover_one cx now live (x, worker) db = Inr (n, db')" and "r \<in> set (cd_executions db')" and "ex_id r \<noteq> x"
  shows "r \<in> set (cd_executions db)"
proof (rule recover_oneD[OF assms(1)])
  fix f :: "execution_entry \<Rightarrow> execution_entry" and orphan db1
  assume f: "\<And>r. ex_id (f r) = ex_id r \<and> ex_project (f r) = ex_project r \<and> ex_attempt (f r) = ex_attempt r
       \<and> ex_key (f r) = ex_key r
       \<and> (ex_state r = Running \<longrightarrow> ex_state (f r) = (if orphan then AmbiguousLiveOrphan else Queued))
       \<and> (ex_state r \<noteq> Running \<longrightarrow> f r = r)"
    and "cd_executions db1 = map (\<lambda>r. if ex_id r = x then f r else r) (cd_executions db)"
    and "cd_executions db' = cd_executions db1"
  then show ?thesis using assms(2,3) f by auto
qed

lemma recover_rows_slots:
  assumes "recover_rows cx now live rows db = Inr (n, db')" and "slots_agree db"
    and "\<And>x r. x \<in> fst ` set rows \<Longrightarrow> r \<in> set (cd_executions db) \<Longrightarrow> ex_id r = x \<Longrightarrow> ex_state r = Running"
    and "distinct (map fst rows)"
  shows "slots_agree db'"
  using assms
proof (induction rows arbitrary: db n)
  case Nil
  then show ?case by simp
next
  case (Cons row rows)
  obtain x worker where row: "row = (x, worker)" by (cases row)
  obtain k m db1 where one: "recover_one cx now live (x, worker) db = Inr (k, db1)"
    and rest: "recover_rows cx now live rows db1 = Inr (m, db')"
    using Cons.prems(1) by (auto simp: rbind_Inr_iff row split: prod.splits)
  have "slots_agree db1"
    by (rule recover_one_slots[OF one Cons.prems(2)]) (use Cons.prems(3) row in auto)
  moreover have "ex_state r = Running" if "y \<in> fst ` set rows" "r \<in> set (cd_executions db1)" "ex_id r = y" for y r
    using recover_one_others[OF one that(2)] Cons.prems(3)[of y r] Cons.prems(4) that row by auto
  ultimately show ?case using Cons.IH[OF rest] Cons.prems(4) by simp
qed

lemma recover_slots:
  assumes "recover_running cx now db live = Inr (n, db')" and "slots_agree db"
  shows "slots_agree db'"
proof (rule recover_rows_slots[OF assms(1)[unfolded recover_running_def] assms(2)])
  have d: "distinct (map ex_id (cd_executions db))" using assms(2) by (simp add: slots_ok_def)
  then show "distinct (map fst (map (\<lambda>r. (ex_id r, ex_worker r)) (filter (\<lambda>r. ex_state r = Running) (cd_executions db))))"
    by (simp add: comp_def distinct_map_filter)
  show "ex_state r = Running" if "x \<in> fst ` set (map (\<lambda>r. (ex_id r, ex_worker r))
      (filter (\<lambda>r. ex_state r = Running) (cd_executions db)))" "r \<in> set (cd_executions db)" "ex_id r = x" for x r
    using d that by (auto simp: distinct_map inj_on_def)
qed

subsection \<open>Claiming\<close>

lemma candidates_iff:
  "(x, p) \<in> set (candidates db) \<longleftrightarrow> x \<in> set (cd_executions db) \<and> ex_state x = Queued
     \<and> find_project db (ex_project x) = Some p \<and> pj_state p = Project_Active
     \<and> project_occupied db (ex_project x) < pj_ceiling p"
  by (auto simp: candidates_def split: option.splits if_splits)

lemma candidates_cong:
  assumes "cd_executions db' = cd_executions db" and "cd_projects db' = cd_projects db"
  shows "candidates db' = candidates db"
proof -
  have "project_occupied db' = project_occupied db" "find_project db' = find_project db"
    using assms by (simp_all add: project_occupied_def find_project_def fun_eq_iff)
  then show ?thesis using assms(1) by (simp only: candidates_def)
qed

lemma sort_key_head:
  assumes "sort_key f xs = y # ys"
  shows "y \<in> set xs \<and> (\<forall>x\<in>set xs. f y \<le> f x)"
proof -
  have "sorted (map f (y # ys))" using assms sorted_sort_key[of f xs] by simp
  moreover have "set xs = set (y # ys)" using assms set_sort[of f xs] by simp
  ultimately show ?thesis by auto
qed

lemma select_candidate_Some:
  assumes "select_candidate db = Some c"
  shows "c \<in> set (candidates db) \<and> (\<forall>d\<in>set (candidates db). claim_order c \<le> claim_order d)"
  using assms sort_key_head by (force simp: select_candidate_def split: list.splits)

lemma select_candidate_None: "select_candidate db = None \<longleftrightarrow> candidates db = []"
  by (simp add: select_candidate_def split: list.split) (metis length_0_conv length_sort list.discI)

lemma claim_selectedD:
  assumes "claim_selected cx now generation x p db = Inr db'"
  obtains row e where
    "rd_reservations (cd_ledger db') = rd_reservations (cd_ledger db) @ [row]"
    "rd_items (cd_ledger db') = rd_items (cd_ledger db) @
       [\<lparr>it_reservation = rv_id row, it_key = slot_key global_pool, it_requested = 1, it_granted = 1,
          it_observed = None, it_overrun = 0\<rparr>,
        \<lparr>it_reservation = rv_id row, it_key = slot_key (project_pool (ex_project x)), it_requested = 1,
          it_granted = 1, it_observed = None, it_overrun = 0\<rparr>]"
    "rv_id row = ''control-plane:'' @ ex_id x @ '':'' @ show_nat (ex_attempt x + 1)" "control_held row"
    "ow_execution_id (rv_owner row) = ex_id x"
    "rv_id row \<notin> rv_id ` set (rd_reservations (cd_ledger db))"
    "cd_executions db' = map (\<lambda>r. if ex_id r = ex_id x then if ex_state r = Queued
             then r\<lparr>ex_state := Running, ex_attempt := ex_attempt r + 1,
                    ex_generation := Some generation, ex_updated := secs now\<rparr> else r else r) (cd_executions db)"
    "cd_projects db' = map (\<lambda>r. if pj_id r = ex_project x
             then r\<lparr>pj_last_claim := next_claim_sequence db\<rparr> else r) (cd_projects db)"
    "cd_events db' = cd_events db @ [e]" "cd_cursor db' = Suc (cd_cursor db)"
    "cv_cursor e = Suc (cd_cursor db)" "cv_execution e = ex_id x" "cv_kind e = ''claimed''"
    "find_execution db (ex_id x) \<noteq> None"
proof -
  define f :: "execution_entry \<Rightarrow> execution_entry" where "f = (\<lambda>r. if ex_state r = Queued
             then r\<lparr>ex_state := Running, ex_attempt := ex_attempt r + 1,
                    ex_generation := Some generation, ex_updated := secs now\<rparr> else r)"
  obtain db1 db2 z where
    steps: "ensure_slot_pool (project_pool (ex_project x)) (pj_ceiling p) (project_occupied db (ex_project x)) db
        = Inr db1"
      "acquire_control_plane_reservation cx now (ex_id x) (ex_project x) (ex_attempt x + 1) generation
        (project_pool (ex_project x)) db1 = Inr db2"
      "insert_event now (ex_id x @ '':claimed:'' @ show_nat generation @ '':'' @ show_nat (ex_attempt x + 1))
        (ex_id x) ''claimed'' ''{}'' (update_execution (ex_id x) f db2) = Inr z"
      "update_project (ex_project x) (\<lambda>r. r\<lparr>pj_last_claim := next_claim_sequence (snd z)\<rparr>) (snd z) = db'"
    using assms unfolding claim_selected_def Let_def rbind_Inr_iff case_prod_beta sum.inject f_def
    by (elim exE conjE)
  obtain c db3 where z: "z = (c, db3)" by (cases z)
  have db': "db' = update_project (ex_project x) (\<lambda>r. r\<lparr>pj_last_claim := next_claim_sequence db3\<rparr>) db3"
    using steps(4) by (simp add: z)
  note e = ensure_slot_poolD[OF steps(1)] and i = insert_eventD[OF steps(3)[unfolded z]]
  show thesis
  proof (rule acquire_controlD[OF steps(2)])
    fix row
    assume a: "cd_executions db2 = cd_executions db1" "cd_events db2 = cd_events db1" "cd_cursor db2 = cd_cursor db1"
      "cd_projects db2 = cd_projects db1"
      and r: "rd_reservations (cd_ledger db2) = rd_reservations (cd_ledger db1) @ [row]"
      "rd_items (cd_ledger db2) = rd_items (cd_ledger db1) @
         [\<lparr>it_reservation = rv_id row, it_key = slot_key global_pool, it_requested = 1, it_granted = 1,
            it_observed = None, it_overrun = 0\<rparr>,
          \<lparr>it_reservation = rv_id row, it_key = slot_key (project_pool (ex_project x)), it_requested = 1,
            it_granted = 1, it_observed = None, it_overrun = 0\<rparr>]"
      and row: "rv_id row = ''control-plane:'' @ ex_id x @ '':'' @ show_nat (ex_attempt x + 1)" "control_held row"
      "ow_execution_id (rv_owner row) = ex_id x" "rv_id row \<notin> rv_id ` set (rd_reservations (cd_ledger db1))"
    have ids: "ex_id (f r) = ex_id r" for r by (simp add: f_def)
    have found: "find_execution db (ex_id x) \<noteq> None"
      using i(3) find_execution_update[of f "ex_id x" db2 "ex_id x"] ids find_execution_cong[of db2 db] a(1) e(1) by auto
    have seq: "next_claim_sequence db3 = next_claim_sequence db" by (simp add: next_claim_sequence_def i(1) a e)
    show thesis
      by (rule that[OF _ _ row(1-3) _ _ _ _ _ _ _ _ found])
        (use row(4) in \<open>simp_all add: db' i(1) r e a seq\<close>,
         simp_all add: update_execution_def update_project_def a e f_def i(1) next_claim_sequence_def)
  qed
qed

lemma claim_nextD:
  assumes "claim_next cx now db ceiling generation = Inr (xo, db')"
  obtains db1 where "ensure_slot_pool global_pool ceiling (occupied db) db = Inr db1"
    and "(xo = None \<and> db' = db1 \<and> (ceiling \<le> occupied db \<or> candidates db = []))
      \<or> (\<exists>x p. xo = Some (ex_id x) \<and> occupied db < ceiling \<and> (x, p) \<in> set (candidates db)
           \<and> (\<forall>d\<in>set (candidates db). claim_order (x, p) \<le> claim_order d)
           \<and> claim_selected cx now generation x p db1 = Inr db')"
proof -
  obtain db1 where db1: "ensure_slot_pool global_pool ceiling (occupied db) db = Inr db1"
    and rest: "(if ceiling \<le> occupied db then Inr (None, db1)
     else case select_candidate db1 of
       None \<Rightarrow> Inr (None, db1)
     | Some (x, p) \<Rightarrow>
       rbind (claim_selected cx now generation x p db1) (\<lambda>db2. Inr (Some (ex_id x), db2))) = Inr (xo, db')"
    using assms by (auto simp only: claim_next_def rbind_Inr_iff)
  have same: "candidates db1 = candidates db" using ensure_slot_poolD[OF db1] by (intro candidates_cong) simp_all
  show thesis
  proof (cases "ceiling \<le> occupied db")
    case True
    then show thesis using rest by (intro that[OF db1]) simp
  next
    case room: False
    show thesis
    proof (cases "select_candidate db1")
      case None
      then have "xo = None \<and> db' = db1" using rest room by simp
      moreover have "candidates db = []" using None same by (simp add: select_candidate_None)
      ultimately show thesis by (intro that[OF db1]) simp
    next
      case (Some c)
      obtain x p where c: "c = (x, p)" by (cases c)
      have "claim_selected cx now generation x p db1 = Inr db'" "xo = Some (ex_id x)"
        using rest room Some c by (auto simp: rbind_Inr_iff)
      then show thesis
        using select_candidate_Some[OF Some] room same c by (intro that[OF db1]) auto
    qed
  qed
qed

lemma claim_slots:
  assumes "claim_next cx now db ceiling generation = Inr (xo, db')" and ok: "slots_agree db"
  shows "slots_agree db'"
proof (rule claim_nextD[OF assms(1)])
  fix db1
  assume db1: "ensure_slot_pool global_pool ceiling (occupied db) db = Inr db1"
    and cases: "(xo = None \<and> db' = db1 \<and> (ceiling \<le> occupied db \<or> candidates db = []))
      \<or> (\<exists>x p. xo = Some (ex_id x) \<and> occupied db < ceiling \<and> (x, p) \<in> set (candidates db)
           \<and> (\<forall>d\<in>set (candidates db). claim_order (x, p) \<le> claim_order d)
           \<and> claim_selected cx now generation x p db1 = Inr db')"
  note e = ensure_slot_poolD[OF db1]
  have ok1: "slots_agree db1" using slots_ok_pools[OF ok e(5,6)] e(1) by simp
  show ?thesis
  proof (cases xo)
    case None
    then show ?thesis using cases ok1 by auto
  next
    case (Some i)
    then obtain x p where x: "(x, p) \<in> set (candidates db)"
      and sel: "claim_selected cx now generation x p db1 = Inr db'" using cases by auto
    let ?f = "\<lambda>r. if ex_state r = Queued then r\<lparr>ex_state := Running, ex_attempt := ex_attempt r + 1,
                    ex_generation := Some generation, ex_updated := secs now\<rparr> else r"
    have q: "x \<in> set (cd_executions db1)" "ex_state x = Queued" using x e(1) by (simp_all add: candidates_iff)
    show ?thesis
    proof (rule claim_selectedD[OF sel])
      fix row
      assume r: "rd_reservations (cd_ledger db') = rd_reservations (cd_ledger db1) @ [row]"
        "rd_items (cd_ledger db') = rd_items (cd_ledger db1) @
         [\<lparr>it_reservation = rv_id row, it_key = slot_key global_pool, it_requested = 1, it_granted = 1,
            it_observed = None, it_overrun = 0\<rparr>,
          \<lparr>it_reservation = rv_id row, it_key = slot_key (project_pool (ex_project x)), it_requested = 1,
            it_granted = 1, it_observed = None, it_overrun = 0\<rparr>]"
        and row: "rv_id row = ''control-plane:'' @ ex_id x @ '':'' @ show_nat (ex_attempt x + 1)" "control_held row"
        "ow_execution_id (rv_owner row) = ex_id x" "rv_id row \<notin> rv_id ` set (rd_reservations (cd_ledger db1))"
        and xs: "cd_executions db' = map (\<lambda>r. if ex_id r = ex_id x then ?f r else r) (cd_executions db1)"
      show ?thesis
        unfolding xs
        by (rule slots_ok_occupy[OF ok1 q(1) _ r row(4,2,3)])
          (use q(2) in \<open>simp_all add: occupies_def slot_of_def row(1)\<close>)
    qed
  qed
qed

subsection \<open>The operations that leave executions and reservations alone\<close>

lemma quiet_operations [control_frame]:
  "register_project now db p root priority ceiling = Inr db' \<Longrightarrow>
     cd_ledger db' = cd_ledger db \<and> cd_executions db' = cd_executions db \<and> cd_events db' = cd_events db
     \<and> cd_cursor db' = cd_cursor db"
  "set_project_state now db p s = Inr (b, db') \<Longrightarrow>
     cd_ledger db' = cd_ledger db \<and> cd_executions db' = cd_executions db \<and> cd_events db' = cd_events db
     \<and> cd_cursor db' = cd_cursor db"
  "store_session db hash scope expires = Inr db' \<Longrightarrow>
     cd_ledger db' = cd_ledger db \<and> cd_executions db' = cd_executions db \<and> cd_events db' = cd_events db
     \<and> cd_cursor db' = cd_cursor db"
  "revoke_session now db hash = (b, db') \<Longrightarrow>
     cd_ledger db' = cd_ledger db \<and> cd_executions db' = cd_executions db \<and> cd_events db' = cd_events db
     \<and> cd_cursor db' = cd_cursor db"
  "pending_gate now db hash scope request = Inr (gid, db') \<Longrightarrow>
     cd_ledger db' = cd_ledger db \<and> cd_executions db' = cd_executions db \<and> cd_events db' = cd_events db
     \<and> cd_cursor db' = cd_cursor db"
  "record_divergence now db p xo kind detail = Inr (b, db') \<Longrightarrow>
     cd_ledger db' = cd_ledger db \<and> cd_executions db' = cd_executions db \<and> cd_events db' = cd_events db
     \<and> cd_cursor db' = cd_cursor db"
  "acquire_lease now db repo host process token ttl = Inr (ao, db') \<Longrightarrow>
     cd_ledger db' = cd_ledger db \<and> cd_executions db' = cd_executions db \<and> cd_events db' = cd_events db
     \<and> cd_cursor db' = cd_cursor db"
  "renew_lease now db repo host process token ttl = Inr (ro, db') \<Longrightarrow>
     cd_ledger db' = cd_ledger db \<and> cd_executions db' = cd_executions db \<and> cd_events db' = cd_events db
     \<and> cd_cursor db' = cd_cursor db"
  "release_lease now db repo token = (b, db') \<Longrightarrow>
     cd_ledger db' = cd_ledger db \<and> cd_executions db' = cd_executions db \<and> cd_events db' = cd_events db
     \<and> cd_cursor db' = cd_cursor db"
  subgoal by (auto simp: register_project_def split: if_splits option.splits)
  subgoal by (auto simp: set_project_state_def split: option.splits)
  subgoal by (auto simp: store_session_def split: if_splits)
  subgoal by (auto simp: revoke_session_def)
  subgoal by (auto simp: pending_gate_def Let_def rbind_Inr_iff split: if_splits)
  subgoal by (auto simp: record_divergence_def Let_def split: if_splits option.splits)
  subgoal by (auto simp: acquire_lease_def insert_lease_row_def insert_lease_event_def Let_def rbind_Inr_iff
        split: if_splits option.splits)
  subgoal by (auto simp: renew_lease_def insert_lease_event_def Let_def rbind_Inr_iff split: if_splits option.splits)
  subgoal by (auto simp: release_lease_def insert_lease_event_def split: if_splits option.splits)
  done

text \<open>Reports of agents and of late workers append one event, or none.\<close>

lemma append_agent_eventD:
  assumes "append_agent_event cx now db x kind payload = Inr (c, db')"
  obtains eid where "insert_event now eid x kind payload db = Inr (c, db')" "kind \<noteq> ''submitted''"
  using assms by (auto simp: append_agent_event_def Let_def split: if_splits)

lemma record_late_outcomeD:
  assumes "record_late_outcome cx now db x w payload = Inr (b, db')"
  obtains "db' = db" | eid c where "insert_event now eid x ''late_worker_outcome'' payload db = Inr (c, db')"
  using assms by (auto simp: record_late_outcome_def Let_def rbind_Inr_iff split: if_splits option.splits prod.splits)

lemma step_slots:
  assumes "control_step cx g db db'" and "slots_agree db"
  shows "slots_agree db'"
  using assms
proof cases
  case step_submit
  then show ?thesis using submit_slots assms(2) by metis
next
  case step_bind
  then show ?thesis using bind_slots assms(2) by metis
next
  case step_claim
  then show ?thesis using claim_slots assms(2) by metis
next
  case step_finish
  then show ?thesis using finish_slots assms(2) by metis
next
  case step_recover
  then show ?thesis using recover_slots assms(2) by metis
next
  case (step_agent now x kind payload c)
  from this(1) show ?thesis using assms(2) by (auto elim!: append_agent_eventD dest!: insert_eventD(1))
next
  case (step_late now x w payload b)
  from this(1) show ?thesis using assms(2) by (auto elim!: record_late_outcomeD dest!: insert_eventD(1))
qed (use assms(2) control_frame in metis)+

lemma reachable_slots: "control_reachable cx g db \<Longrightarrow> slots_agree db"
  by (erule control_invariant) (auto simp: slots_ok_def empty_control_db_def dest: step_slots)

text \<open>
  C11: in every database the control plane can reach, the executions that occupy a slot (those running,
  and those whose worker may be alive after a restart) each hold exactly one reservation, named after the
  execution and its attempt, of one slot of the global pool and one of the pool of their project; every
  other execution holds none, and no held reservation of a control-plane worker is without an execution.
\<close>

theorem running_executions_hold_their_slots:
  assumes "control_reachable cx g db"
  shows "(\<forall>x\<in>set (cd_executions db).
            map rv_id (held_control_reservations db (ex_id x)) = (if occupies x then [slot_of x] else [])
            \<and> (occupies x \<longrightarrow> slot_items (cd_ledger db) (slot_of x)
                 = [(slot_key global_pool, 1), (slot_key (project_pool (ex_project x)), 1)]))
       \<and> (\<forall>r\<in>set (rd_reservations (cd_ledger db)). control_held r \<longrightarrow>
            (\<exists>x\<in>set (cd_executions db). occupies x \<and> ex_id x = ow_execution_id (rv_owner r)))"
proof -
  have ok: "slots_agree db" by (rule reachable_slots[OF assms])
  show ?thesis
    using slots_okD[OF ok] slots_okE(4)[OF ok] slots_ok_holder[OF ok] by (auto simp: held_control_is_held_of)
qed

end
