(* ===== verification/Control_Service.thy ===== *)
theory Control_Service
  imports Control_Plane
begin

text \<open>
  The application boundary of the control plane, \<open>ControlPlaneService\<close> of
  \<open>crates/familiar-ai-daemon/src/control_plane.rs\<close>: who may do what, over the operations of
  \<open>Control_Plane\<close>. The world is the database and the signals sent to process groups. SHA-256, the
  random source, the file system and the warrants of the driver tables are fields of \<open>service_env\<close>. The
  clock is \<open>now\<close>. A poisoned lock, which needs a panic of another thread, is not modelled.
\<close>

record service_env =
  se_control :: control_env
  se_now :: nat
  se_sha256 :: "string \<Rightarrow> nat list"
  se_random :: "nat list option"
  se_exists :: "string \<Rightarrow> bool"
  se_warrant :: "string \<Rightarrow> string option"

record control_service =
  sv_policy :: scheduling_policy
  sv_generation :: nat

record control_world =
  cw_db :: control_db
  cw_signals :: "int list"

record capability_grant =
  cg_credential :: string
  cg_scope :: capability_scope
  cg_expires :: nat

record agent_view =
  ag_project_id :: string
  ag_execution_id :: string
  ag_attempt :: nat
  ag_worker_id :: string
  ag_state :: execution_state
  ag_warrant :: "string option"
  ag_reservations :: "reservation_line list option"

type_synonym 'a service = "(control_world, familiar_error, 'a) io"

text \<open>A transaction, and a read, of the database behind the lock.\<close>

definition transact :: "(control_db \<Rightarrow> 'a tx) \<Rightarrow> 'a service" where
  "transact f w = (case f (cw_db w) of Inl e \<Rightarrow> (Inl e, w) | Inr (a, db) \<Rightarrow> (Inr a, w\<lparr>cw_db := db\<rparr>))"

definition transact_unit :: "(control_db \<Rightarrow> familiar_error + control_db) \<Rightarrow> unit service" where
  "transact_unit f = transact (\<lambda>db. rbind (f db) (\<lambda>db'. Inr ((), db')))"

definition query :: "(control_db \<Rightarrow> 'a) \<Rightarrow> 'a service" where
  "query f w = (Inr (f (cw_db w)), w)"

section \<open>Authority\<close>

definition authority_debug :: "authority \<Rightarrow> string" where
  "authority_debug a = (case a of Observe \<Rightarrow> ''Observe'' | Control \<Rightarrow> ''Control'' | ReadWarrant \<Rightarrow> ''ReadWarrant''
     | ReadAccountingLabels \<Rightarrow> ''ReadAccountingLabels'' | ReportProgress \<Rightarrow> ''ReportProgress''
     | SubmitEvidence \<Rightarrow> ''SubmitEvidence'' | RequestEscalation \<Rightarrow> ''RequestEscalation'')"

definition denied :: "string \<Rightarrow> familiar_error" where
  "denied why = Config_Error (''authority denied: '' @ why)"

definition has_authority :: "capability_scope \<Rightarrow> authority \<Rightarrow> familiar_error + unit" where
  "has_authority scope a = ensure (a \<in> set (cs_authorities scope)) (denied (authority_debug a))"

definition require ::
    "capability_scope \<Rightarrow> authority \<Rightarrow> string \<Rightarrow> string option \<Rightarrow> familiar_error + unit" where
  "require scope a p x =
     rbind (has_authority scope a) (\<lambda>_.
     rbind (ensure (case cs_project_id scope of Some q \<Rightarrow> q = p | None \<Rightarrow> True) (denied ''unrelated project'')) (\<lambda>_.
     case x of
       None \<Rightarrow> Inr ()
     | Some e \<Rightarrow> ensure (case cs_execution_id scope of Some f \<Rightarrow> f = e | None \<Rightarrow> True)
                  (denied ''unrelated execution'')))"

definition hex_pair :: "nat \<Rightarrow> string" where
  "hex_pair n = [''0123456789abcdef'' ! (n div 16 mod 16), ''0123456789abcdef'' ! (n mod 16)]"

definition credential_hash :: "service_env \<Rightarrow> string \<Rightarrow> string" where
  "credential_hash se raw = concat (map hex_pair (se_sha256 se raw))"

section \<open>Projects and executions\<close>

definition service_register_project ::
    "service_env \<Rightarrow> control_service \<Rightarrow> string \<Rightarrow> string \<Rightarrow> int \<Rightarrow> nat option \<Rightarrow> unit service" where
  "service_register_project se sv p root priority ceiling =
     transact_unit (\<lambda>db. register_project (se_now se) db p root priority
       (case ceiling of Some c \<Rightarrow> c | None \<Rightarrow> sp_default_project_ceiling (sv_policy sv)))"

definition service_set_project_state ::
    "service_env \<Rightarrow> capability_scope \<Rightarrow> string \<Rightarrow> string \<Rightarrow> bool service" where
  "service_set_project_state se scope p s =
     io_bind (io_lift (require scope Control p None)) (\<lambda>_.
     transact (\<lambda>db. set_project_state (se_now se) db p s))"

definition service_submit :: "service_env \<Rightarrow> capability_scope \<Rightarrow> submission \<Rightarrow> submission_ack service" where
  "service_submit se scope s =
     io_bind (io_lift (require scope Control (sb_project_id s) None)) (\<lambda>_.
     transact (\<lambda>db. submit (se_now se) db s))"

definition service_observe ::
    "capability_scope \<Rightarrow> string \<Rightarrow> string \<Rightarrow> int \<Rightarrow> nat \<Rightarrow> control_event list service" where
  "service_observe scope x p after limit =
     io_bind (io_lift (require scope Observe p (Some x))) (\<lambda>_.
     query (\<lambda>db. events_after db x after (min limit 1000)))"

definition service_executions ::
    "service_env \<Rightarrow> capability_scope \<Rightarrow> string \<Rightarrow> nat \<Rightarrow> execution_view list service" where
  "service_executions se scope p limit =
     io_bind (io_lift (require scope Observe p None)) (\<lambda>_.
     query (\<lambda>db. list_executions (se_control se) db p (min limit 200)))"

definition service_project_state :: "capability_scope \<Rightarrow> string \<Rightarrow> string option service" where
  "service_project_state scope p =
     io_bind (io_lift (require scope Observe p None)) (\<lambda>_. query (\<lambda>db. project_state_of db p))"

definition service_claim_next :: "service_env \<Rightarrow> control_service \<Rightarrow> string option service" where
  "service_claim_next se sv =
     transact (\<lambda>db. claim_next (se_control se) (se_now se) db (sp_global_ceiling (sv_policy sv)) (sv_generation sv))"

definition service_recover :: "service_env \<Rightarrow> string list \<Rightarrow> nat service" where
  "service_recover se live = transact (\<lambda>db. recover_running (se_control se) (se_now se) db live)"

fun reconcile_locations :: "service_env \<Rightarrow> (string \<times> string) list \<Rightarrow> nat service" where
  "reconcile_locations se [] = io_return 0"
| "reconcile_locations se ((p, root) # rest) =
     (if se_exists se root then reconcile_locations se rest
      else
        io_bind (transact (\<lambda>db. record_divergence (se_now se) db p None ''missing_project_root''
            (''control-plane root is unavailable: '' @ root))) (\<lambda>changed.
        io_bind (reconcile_locations se rest) (\<lambda>n. io_return ((if changed then 1 else 0) + n))))"

definition reconcile_filesystem :: "service_env \<Rightarrow> nat service" where
  "reconcile_filesystem se = io_bind (query project_locations) (reconcile_locations se)"

definition service_execution :: "capability_scope \<Rightarrow> string \<Rightarrow> string \<Rightarrow> execution_record option service" where
  "service_execution scope x p =
     io_bind (io_lift (require scope Observe p (Some x))) (\<lambda>_.
     io_bind (query (\<lambda>db. execution db x)) (\<lambda>r.
     io_lift (if (case r of Some e \<Rightarrow> xr_project_id e \<noteq> p | None \<Rightarrow> False)
              then Inl (denied ''unrelated project'') else Inr r)))"

definition service_finish ::
    "service_env \<Rightarrow> string \<Rightarrow> execution_state \<Rightarrow> string \<Rightarrow> bool service" where
  "service_finish se x st reason =
     transact (\<lambda>db. finish_execution (se_control se) (se_now se) db x st reason)"

definition service_bind_worker ::
    "service_env \<Rightarrow> control_service \<Rightarrow> string \<Rightarrow> string \<Rightarrow> nat \<Rightarrow> string \<Rightarrow> string \<Rightarrow> unit service" where
  "service_bind_worker se sv x identity pid start token_hash =
     transact_unit (\<lambda>db. bind_worker (se_now se) db x identity pid start token_hash (sv_generation sv))"

definition signal_group :: "nat option \<Rightarrow> unit service" where
  "signal_group pid =
     (case pid of
        Some n \<Rightarrow> io_when (n \<le> 2147483647) (io_modify (\<lambda>w. w\<lparr>cw_signals := cw_signals w @ [- int n]\<rparr>))
      | None \<Rightarrow> io_return ())"

definition cancel :: "service_env \<Rightarrow> capability_scope \<Rightarrow> string \<Rightarrow> string \<Rightarrow> bool service" where
  "cancel se scope x p =
     io_bind (io_lift (require scope Control p (Some x))) (\<lambda>_.
     io_bind (query (\<lambda>db. worker_pid db x)) (\<lambda>pid.
     io_bind (signal_group pid) (\<lambda>_.
     service_finish se x Cancelled ''operator_cancelled'')))"

definition end_foreground :: "service_env \<Rightarrow> string \<Rightarrow> bool service" where
  "end_foreground se x =
     io_bind (query (\<lambda>db. execution db x)) (\<lambda>r.
     if (case r of Some e \<Rightarrow> xr_mode e \<noteq> ForegroundOnly | None \<Rightarrow> True) then io_return False
     else
       io_bind (query (\<lambda>db. worker_pid db x)) (\<lambda>pid.
       io_bind (signal_group pid) (\<lambda>_.
       service_finish se x ForegroundEnded ''foreground_session_ended'')))"

section \<open>Sessions\<close>

definition mint_session ::
    "service_env \<Rightarrow> capability_scope \<Rightarrow> capability_scope \<Rightarrow> int \<Rightarrow> capability_grant service" where
  "mint_session se issuer scope ttl =
     (if cs_client_class issuer \<noteq> Internal \<and> Control \<notin> set (cs_authorities issuer)
      then io_fail (denied ''session minting requires host control authority'')
      else if (case (cs_project_id issuer, cs_project_id scope) of (Some a, Some b) \<Rightarrow> a \<noteq> b | _ \<Rightarrow> False)
      then io_fail (denied ''cannot mint an unrelated-project session'')
      else case se_random se of
        None \<Rightarrow> io_fail (Config_Error ''secure session credential generation failed'')
      | Some raw \<Rightarrow>
        let credential = concat (map hex_pair raw); expires = secs (se_now se) + nat (max ttl 1) in
        io_bind (transact_unit (\<lambda>db. store_session db (credential_hash se credential) scope expires)) (\<lambda>_.
        io_return \<lparr>cg_credential = credential, cg_scope = scope, cg_expires = expires\<rparr>))"

definition internal_scope :: capability_scope where
  "internal_scope = \<lparr>cs_client_class = Internal, cs_project_id = None, cs_execution_id = None,
     cs_attempt = None, cs_worker_id = None, cs_authorities = [Control]\<rparr>"

definition worker_scope :: "execution_record \<Rightarrow> string \<Rightarrow> capability_scope" where
  "worker_scope r worker = \<lparr>cs_client_class = Mcp, cs_project_id = Some (xr_project_id r),
     cs_execution_id = Some (xr_execution_id r), cs_attempt = Some (xr_attempt r),
     cs_worker_id = Some worker,
     cs_authorities = [Observe, ReadWarrant, ReadAccountingLabels, ReportProgress, SubmitEvidence,
       RequestEscalation]\<rparr>"

definition mint_worker_session :: "service_env \<Rightarrow> string \<Rightarrow> string \<Rightarrow> capability_grant service" where
  "mint_worker_session se x worker =
     io_bind (query (\<lambda>db. execution db x)) (\<lambda>r.
     case r of
       None \<Rightarrow> io_fail (Config_Error ''cannot mint a session for an unknown execution'')
     | Some e \<Rightarrow> mint_session se internal_scope (worker_scope e worker) (24 * 60 * 60))"

definition authenticate :: "service_env \<Rightarrow> string \<Rightarrow> capability_scope service" where
  "authenticate se credential =
     io_bind (query (\<lambda>db. session (se_now se) db (credential_hash se credential))) (\<lambda>r.
     io_lift (ok_or (denied ''a valid minted session is required'') r))"

definition service_revoke_session :: "service_env \<Rightarrow> string \<Rightarrow> bool service" where
  "service_revoke_session se credential =
     transact (\<lambda>db. Inr (revoke_session (se_now se) db (credential_hash se credential)))"

section \<open>What an agent may ask\<close>

definition request_escalation :: "service_env \<Rightarrow> string \<Rightarrow> string \<Rightarrow> string service" where
  "request_escalation se credential request =
     io_bind (authenticate se credential) (\<lambda>scope.
     io_bind (io_lift (require scope RequestEscalation
         (case cs_project_id scope of Some p \<Rightarrow> p | None \<Rightarrow> []) (cs_execution_id scope))) (\<lambda>_.
     transact (\<lambda>db. pending_gate (se_now se) db (credential_hash se credential) scope request)))"

definition view_of_agent ::
    "service_env \<Rightarrow> string \<Rightarrow> agent_view service" where
  "view_of_agent se credential =
     io_bind (authenticate se credential) (\<lambda>scope.
     io_bind (io_lift (has_authority scope Observe)) (\<lambda>_.
     io_bind (io_lift (has_authority scope ReadWarrant)) (\<lambda>_.
     io_bind (io_lift (ok_or (Config_Error ''agent session is not project scoped'') (cs_project_id scope))) (\<lambda>p.
     io_bind (io_lift (ok_or (Config_Error ''agent session is not execution scoped'') (cs_execution_id scope))) (\<lambda>x.
     io_bind (io_lift (ok_or (Config_Error ''agent session is not attempt scoped'') (cs_attempt scope))) (\<lambda>n.
     io_bind (io_lift (ok_or (Config_Error ''agent session is not worker scoped'') (cs_worker_id scope))) (\<lambda>w.
     io_bind (query (\<lambda>db. execution db x)) (\<lambda>found.
     io_bind (io_lift (ok_or (Config_Error ''scoped execution no longer exists'') found)) (\<lambda>r.
     if xr_project_id r \<noteq> p \<or> xr_attempt r \<noteq> n \<or> xr_worker r \<noteq> Some w
     then io_fail (Config_Error ''agent session assignment no longer matches its execution attempt and worker'')
     else
       io_bind (query (\<lambda>db. reservation_view db x)) (\<lambda>held.
       io_return \<lparr>ag_project_id = p, ag_execution_id = x, ag_attempt = n, ag_worker_id = w,
         ag_state = xr_state r, ag_warrant = se_warrant se x, ag_reservations = held\<rparr>))))))))))"

definition report_agent_event ::
    "service_env \<Rightarrow> string \<Rightarrow> authority \<Rightarrow> string \<Rightarrow> string \<Rightarrow> nat service" where
  "report_agent_event se credential a kind payload =
     io_bind (authenticate se credential) (\<lambda>scope.
     io_bind (io_lift (has_authority scope a)) (\<lambda>_.
     io_bind (io_lift (ok_or (Config_Error ''agent session is not execution scoped'') (cs_execution_id scope))) (\<lambda>x.
     transact (\<lambda>db. append_agent_event (se_control se) (se_now se) db x kind payload))))"

section \<open>Repository leases\<close>

definition acquire_repository_lease ::
    "service_env \<Rightarrow> string \<Rightarrow> string \<Rightarrow> string \<Rightarrow> string \<Rightarrow> int \<Rightarrow> lease_acquire_outcome service" where
  "acquire_repository_lease se repo host process token ttl =
     transact (\<lambda>db. acquire_lease (se_now se) db repo host process token ttl)"

definition renew_repository_lease ::
    "service_env \<Rightarrow> string \<Rightarrow> string \<Rightarrow> string \<Rightarrow> string \<Rightarrow> int \<Rightarrow> lease_renew_outcome service" where
  "renew_repository_lease se repo host process token ttl =
     transact (\<lambda>db. renew_lease (se_now se) db repo host process token ttl)"

definition release_repository_lease :: "service_env \<Rightarrow> string \<Rightarrow> string \<Rightarrow> bool service" where
  "release_repository_lease se repo token = transact (\<lambda>db. Inr (release_lease (se_now se) db repo token))"

definition inspect_repository_lease :: "string \<Rightarrow> lease_record option service" where
  "inspect_repository_lease repo = query (\<lambda>db. inspect_lease db repo)"

definition record_late_worker_outcome :: "service_env \<Rightarrow> string \<Rightarrow> string \<Rightarrow> string \<Rightarrow> bool service" where
  "record_late_worker_outcome se x worker payload =
     transact (\<lambda>db. record_late_outcome (se_control se) (se_now se) db x worker payload)"

end
