(* ===== verification/Control_Guarantees.thy ===== *)
theory Control_Guarantees
  imports Control_Safety Control_Service
begin

text \<open>
  What a client of the control plane may rely on: a remembered submission, an event stream read page by
  page, claims within the ceilings and in a fair order, a recovery that can be blocked, leases that
  exclude each other, and sessions confined to their execution.
\<close>

section \<open>The database only grows\<close>

definition extends :: "control_db \<Rightarrow> control_db \<Rightarrow> bool" where
  "extends db db' \<longleftrightarrow>
     (\<exists>es. cd_events db' = cd_events db @ es
        \<and> map cv_cursor es = [Suc (cd_cursor db)..<Suc (cd_cursor db')]
        \<and> (\<forall>e\<in>set es. find_execution db' (cv_execution e) \<noteq> None))
     \<and> cd_cursor db \<le> cd_cursor db'
     \<and> (\<forall>x r. find_execution db x = Some r \<longrightarrow>
          (\<exists>r'. find_execution db' x = Some r' \<and> ex_key r' = ex_key r \<and> ex_project r' = ex_project r))"

lemma extends_refl [simp]: "extends db db"
  by (auto simp: extends_def)

lemma extends_trans:
  assumes "extends a b" and "extends b c"
  shows "extends a c"
proof -
  obtain es fs where es: "cd_events b = cd_events a @ es" "map cv_cursor es = [Suc (cd_cursor a)..<Suc (cd_cursor b)]"
      "\<forall>e\<in>set es. find_execution b (cv_execution e) \<noteq> None"
    and fs: "cd_events c = cd_events b @ fs" "map cv_cursor fs = [Suc (cd_cursor b)..<Suc (cd_cursor c)]"
      "\<forall>e\<in>set fs. find_execution c (cv_execution e) \<noteq> None"
    using assms unfolding extends_def by metis
  have le: "cd_cursor a \<le> cd_cursor b" "cd_cursor b \<le> cd_cursor c" using assms by (simp_all add: extends_def)
  have keep: "\<exists>r'. find_execution c x = Some r' \<and> ex_key r' = ex_key r \<and> ex_project r' = ex_project r"
    if "find_execution a x = Some r" for x r
    using that assms unfolding extends_def by metis
  have "map cv_cursor (es @ fs) = [Suc (cd_cursor a)..<Suc (cd_cursor c)]"
  proof -
    obtain k where k: "Suc (cd_cursor c) = Suc (cd_cursor b) + k" using le(2) by (metis Suc_le_mono le_Suc_ex)
    have "Suc (cd_cursor a) \<le> Suc (cd_cursor b)" using le(1) by simp
    from upt_add_eq_append[OF this, of k] show ?thesis by (simp only: map_append es(2) fs(2) k)
  qed
  moreover have "\<forall>e\<in>set es. find_execution c (cv_execution e) \<noteq> None"
    using es(3) assms(2) unfolding extends_def by fastforce
  ultimately show ?thesis using es(1) fs(1,3) le keep unfolding extends_def by fastforce
qed

lemma extends_same:
  assumes "cd_executions db' = cd_executions db" "cd_events db' = cd_events db" "cd_cursor db' = cd_cursor db"
  shows "extends db db'"
  using assms find_execution_cong[OF assms(1)] by (auto simp: extends_def)

lemma extends_event:
  assumes "insert_event now eid x kind payload db = Inr (c, db')"
  shows "extends db db'"
proof -
  note i = insert_eventD[OF assms]
  have "find_execution db' = find_execution db" by (simp add: i(1) find_execution_def fun_eq_iff)
  then show ?thesis using i(1,3) by (auto simp: extends_def)
qed

lemma find_map:
  assumes "\<And>r. ex_id (f r) = ex_id r"
  shows "find (\<lambda>r. ex_id r = y) (map f rs) = map_option f (find (\<lambda>r. ex_id r = y) rs)"
  by (induction rs) (auto simp: assms)

lemma extends_map:
  assumes "cd_executions db' = map f (cd_executions db)" "cd_events db' = cd_events db" "cd_cursor db' = cd_cursor db"
    and "\<And>r. ex_id (f r) = ex_id r \<and> ex_key (f r) = ex_key r \<and> ex_project (f r) = ex_project r"
  shows "extends db db'"
  using assms find_map[of f] by (auto simp: extends_def find_execution_def)

lemma find_append_one: "find P (xs @ [r]) = (case find P xs of Some a \<Rightarrow> Some a | None \<Rightarrow> if P r then Some r else None)"
  by (induction xs) auto

lemma submit_extends:
  assumes "submit now db s = Inr (a, db')"
  shows "extends db db'"
proof (cases "find_submission db (sb_idempotency_key s)")
  case (Some v)
  then show ?thesis using assms by (simp add: submit_def split: prod.splits)
next
  case None
  then obtain db1 c where i: "insert_execution now s db = Inr db1"
    and e: "insert_event now (sb_execution_id s @ '':submitted'') (sb_execution_id s) ''submitted'' ''{}'' db1
      = Inr (c, db')"
    using assms by (auto simp: submit_def rbind_Inr_iff)
  obtain r where "cd_executions db1 = cd_executions db @ [r]" "cd_events db1 = cd_events db"
    "cd_cursor db1 = cd_cursor db"
    using i by (auto simp: insert_execution_def split: if_splits)
  then have "extends db db1" by (auto simp: extends_def find_execution_def find_append_one split: option.splits)
  then show ?thesis using extends_event[OF e] extends_trans by blast
qed

lemma recover_one_extends:
  assumes "recover_one cx now live row db = Inr (n, db')"
  shows "extends db db'"
proof -
  obtain x worker where row: "row = (x, worker)" by (cases row)
  show ?thesis
  proof (rule recover_oneD[OF assms[unfolded row]])
    fix f :: "execution_entry \<Rightarrow> execution_entry" and orphan db1 e
    assume f: "\<And>r. ex_id (f r) = ex_id r \<and> ex_project (f r) = ex_project r \<and> ex_attempt (f r) = ex_attempt r
       \<and> ex_key (f r) = ex_key r
       \<and> (ex_state r = Running \<longrightarrow> ex_state (f r) = (if orphan then AmbiguousLiveOrphan else Queued))
       \<and> (ex_state r \<noteq> Running \<longrightarrow> f r = r)"
      and db1: "cd_events db1 = cd_events db" "cd_cursor db1 = cd_cursor db"
        "cd_executions db1 = map (\<lambda>r. if ex_id r = x then f r else r) (cd_executions db)"
      and db': "cd_executions db' = cd_executions db1" "cd_events db' = cd_events db @ [e]"
        "cd_cursor db' = Suc (cd_cursor db)" "cv_cursor e = Suc (cd_cursor db)" "cv_execution e = x"
        "find_execution db1 x \<noteq> None"
    have one: "extends db db1" by (rule extends_map[OF db1(3,1,2)]) (use f in auto)
    have "find_execution db' = find_execution db1" using find_execution_cong[OF db'(1)] by blast
    then have "extends db1 db'" using db' db1(1,2) by (auto simp: extends_def)
    then show ?thesis using one extends_trans by blast
  qed
qed

lemma recover_rows_extends:
  "recover_rows cx now live rows db = Inr (n, db') \<Longrightarrow> extends db db'"
  by (induction rows arbitrary: db n)
    (auto simp: rbind_Inr_iff split: prod.splits intro: extends_trans recover_one_extends)

lemma finish_extends:
  assumes "finish_execution cx now db x st reason = Inr (b, db')"
  shows "extends db db'"
proof (cases b)
  case False
  then have "db' = db" using assms
    by (auto simp: finish_execution_def Let_def rbind_Inr_iff split: option.splits if_splits prod.splits)
  then show ?thesis by simp
next
  case True
  show ?thesis
  proof (rule finish_executionD[OF assms True])
    fix db1 e1 e2
    let ?f = "\<lambda>r. if ex_id r = x then r\<lparr>ex_state := st, ex_completed := Some (secs now), ex_updated := secs now\<rparr> else r"
    assume d: "cd_executions db1 = map ?f (cd_executions db)" "cd_events db1 = cd_events db @ [e1, e2]"
        "cd_cursor db1 = cd_cursor db + 2" "map cv_cursor [e1, e2] = [cd_cursor db + 1, cd_cursor db + 2]"
        "map cv_execution [e1, e2] = [x, x]"
      and db': "db' = release_control_plane_reservation cx now x ''execution_terminal'' db1"
      and found: "find_execution db x \<noteq> None"
    have "find_execution db1 y = map_option ?f (find_execution db y)" for y
      unfolding find_execution_def d(1) by (rule find_map) simp
    then have "extends db db1" using d found by (auto simp: extends_def)
    then show ?thesis using extends_same[of db' db1] extends_trans by (simp add: db')
  qed
qed

lemma claim_extends:
  assumes "claim_next cx now db ceiling generation = Inr (xo, db')"
  shows "extends db db'"
proof (rule claim_nextD[OF assms])
  fix db1
  assume e: "ensure_slot_pool global_pool ceiling (occupied db) db = Inr db1"
    and cases: "(xo = None \<and> db' = db1 \<and> (ceiling \<le> occupied db \<or> candidates db = []))
      \<or> (\<exists>x p. xo = Some (ex_id x) \<and> occupied db < ceiling \<and> (x, p) \<in> set (candidates db)
           \<and> (\<forall>d\<in>set (candidates db). claim_order (x, p) \<le> claim_order d)
           \<and> claim_selected cx now generation x p db1 = Inr db')"
  have one: "extends db db1" using ensure_slot_poolD[OF e] by (intro extends_same)
  have "extends db1 db'" if sel: "claim_selected cx now generation x p db1 = Inr db'" for x p
  proof (rule claim_selectedD[OF sel])
    let ?f = "\<lambda>r. if ex_id r = ex_id x then if ex_state r = Queued then r\<lparr>ex_state := Running,
        ex_attempt := ex_attempt r + 1, ex_generation := Some generation, ex_updated := secs now\<rparr> else r else r"
    fix e'
    assume d: "cd_executions db' = map ?f (cd_executions db1)" "cd_events db' = cd_events db1 @ [e']"
      "cd_cursor db' = Suc (cd_cursor db1)" "cv_cursor e' = Suc (cd_cursor db1)" "cv_execution e' = ex_id x"
      "find_execution db1 (ex_id x) \<noteq> None"
    have "find_execution db' y = map_option ?f (find_execution db1 y)" for y
      unfolding find_execution_def d(1) by (rule find_map) simp
    then show ?thesis using d by (auto simp: extends_def)
  qed
  then show ?thesis using cases one extends_trans by blast
qed

lemma step_extends:
  assumes "control_step cx g db db'"
  shows "extends db db'"
  using assms
proof cases
  case step_submit
  then show ?thesis by (rule submit_extends)
next
  case (step_bind now x w pid start token generation)
  then show ?thesis
    by (intro extends_map[of _ "\<lambda>r. if ex_id r = x then r\<lparr>ex_worker := Some w\<rparr> else r"])
      (auto simp: bind_worker_def update_execution_def split: option.splits if_splits)
next
  case step_claim
  from this(1) show ?thesis by (rule claim_extends)
next
  case step_finish
  then show ?thesis by (rule finish_extends)
next
  case step_recover
  then show ?thesis by (simp add: recover_running_def recover_rows_extends)
next
  case (step_agent now x kind payload c)
  from this(1) show ?thesis by (auto elim!: append_agent_eventD dest!: extends_event)
next
  case (step_late now x w payload b)
  from this(1) show ?thesis by (auto elim!: record_late_outcomeD dest!: extends_event)
qed (use control_frame extends_same in metis)+

definition events_ok :: "control_db \<Rightarrow> bool" where
  "events_ok db \<longleftrightarrow> sorted_wrt (<) (map cv_cursor (cd_events db))
     \<and> (\<forall>e\<in>set (cd_events db). cv_cursor e \<le> cd_cursor db \<and> find_execution db (cv_execution e) \<noteq> None)"

lemma events_ok_extends:
  assumes ok: "events_ok db" and e: "extends db db'"
  shows "events_ok db'"
proof -
  obtain es where es: "cd_events db' = cd_events db @ es" "map cv_cursor es = [Suc (cd_cursor db)..<Suc (cd_cursor db')]"
      "\<forall>e\<in>set es. find_execution db' (cv_execution e) \<noteq> None"
    using e unfolding extends_def by metis
  have new: "cd_cursor db < cv_cursor f \<and> cv_cursor f \<le> cd_cursor db'" if "f \<in> set es" for f
  proof -
    have "cv_cursor f \<in> set (map cv_cursor es)" using that by simp
    then show ?thesis unfolding es(2) by auto
  qed
  have "sorted_wrt (<) (map cv_cursor es)" by (simp add: es(2) del: upt_Suc)
  moreover have "cv_cursor a < cv_cursor b" if "a \<in> set (cd_events db)" "b \<in> set es" for a b
    using ok that new[of b] by (force simp: events_ok_def)
  moreover have "find_execution db' (cv_execution a) \<noteq> None" if "a \<in> set (cd_events db)" for a
    using ok e that unfolding events_ok_def extends_def by fastforce
  moreover have "cd_cursor db \<le> cd_cursor db'" using e by (simp add: extends_def)
  ultimately show ?thesis using ok new es(1,3) by (fastforce simp: events_ok_def sorted_wrt_append)
qed

lemma reachable_events:
  assumes "control_reachable cx g db"
  shows "events_ok db"
proof (rule control_invariant[OF assms])
  show "events_ok empty_control_db" by (simp add: events_ok_def empty_control_db_def)
qed (rule events_ok_extends, assumption, rule step_extends)

section \<open>Submissions are remembered\<close>

inductive control_steps :: "control_env \<Rightarrow> nat \<Rightarrow> control_db \<Rightarrow> control_db \<Rightarrow> bool" for cx g where
  steps_none: "control_steps cx g db db"
| steps_more: "control_steps cx g db db1 \<Longrightarrow> control_step cx g db1 db2 \<Longrightarrow> control_steps cx g db db2"

lemma steps_extend: "control_steps cx g db db' \<Longrightarrow> extends db db'"
  by (induction rule: control_steps.induct) (auto intro: extends_trans step_extends)

abbreviation submitted_as :: "control_db \<Rightarrow> string \<Rightarrow> control_event \<Rightarrow> bool" where
  "submitted_as db key e \<equiv> cv_kind e = ''submitted''
     \<and> (case find_execution db (cv_execution e) of Some x \<Rightarrow> ex_key x = key | None \<Rightarrow> False)"

lemma submitted_as_extends:
  assumes "events_ok db" and "extends db db'" and "e \<in> set (cd_events db)"
  shows "submitted_as db' key e \<longleftrightarrow> submitted_as db key e"
proof -
  obtain r where r: "find_execution db (cv_execution e) = Some r" using assms(1,3) by (auto simp: events_ok_def)
  then obtain r' where "find_execution db' (cv_execution e) = Some r'" "ex_key r' = ex_key r"
    using assms(2) unfolding extends_def by metis
  then show ?thesis using r by simp
qed

lemma find_submission_extends:
  assumes "events_ok db" and "extends db db'" and "find_submission db key = Some v"
  shows "find_submission db' key = Some v"
proof -
  obtain es where es: "cd_events db' = cd_events db @ es" using assms(2) unfolding extends_def by metis
  have "filter (submitted_as db' key) (cd_events db) = filter (submitted_as db key) (cd_events db)"
    using submitted_as_extends[OF assms(1,2)] by (intro filter_cong) simp_all
  then show ?thesis using assms(3) by (auto simp: find_submission_def es split: list.splits)
qed

lemma submit_then_found:
  assumes "submit now db s = Inr (a, db')" and ok: "events_ok db"
  shows "find_submission db' (sb_idempotency_key s) = Some (ak_execution_id a, ak_cursor a)"
proof (cases "find_submission db (sb_idempotency_key s)")
  case (Some v)
  then show ?thesis using assms(1) by (cases v) (auto simp: submit_def)
next
  case None
  let ?k = "sb_idempotency_key s" and ?x = "sb_execution_id s"
  obtain db1 c where i: "insert_execution now s db = Inr db1"
    and e: "insert_event now (?x @ '':submitted'') ?x ''submitted'' ''{}'' db1 = Inr (c, db')"
    and a: "a = \<lparr>ak_execution_id = ?x, ak_duplicate = False, ak_cursor = c\<rparr>"
    using assms(1) None by (auto simp: submit_def rbind_Inr_iff)
  obtain r where r: "cd_executions db1 = cd_executions db @ [r]" "ex_key r = ?k" "ex_id r = ?x"
      "find_execution db ?x = None" "cd_events db1 = cd_events db"
    using i by (auto simp: insert_execution_def split: if_splits)
  note ev = insert_eventD[OF e]
  have fx: "find_execution db' ?x = Some r" using r(1,3,4) by (simp add: ev(1) find_execution_def find_append_one)
  have "filter (submitted_as db' ?k) (cd_events db) = filter (submitted_as db ?k) (cd_events db)"
    using submitted_as_extends[OF ok submit_extends[OF assms(1)]] by (intro filter_cong) simp_all
  also have "\<dots> = []" using None by (auto simp: find_submission_def split: list.splits)
  finally show ?thesis using fx r(2,5) by (simp add: find_submission_def ev a)
qed

text \<open>
  a submission is remembered: after it was acknowledged and whatever the control plane did since
  (claims, failures, recoveries, archived projects included), submitting again under the same idempotency
  key changes nothing and returns the same execution and the same place in the event stream, marked as a
  duplicate.
\<close>

lemma submission_is_idempotent:
  assumes "control_reachable cx g db" and "submit now db s = Inr (a, db1)" and "control_steps cx g db1 db2"
    and "sb_idempotency_key s' = sb_idempotency_key s"
  shows "submit later db2 s' = Inr (a\<lparr>ak_duplicate := True\<rparr>, db2)"
proof -
  have ok: "events_ok db" by (rule reachable_events[OF assms(1)])
  have "events_ok db1" by (rule events_ok_extends[OF ok submit_extends[OF assms(2)]])
  then have "find_submission db2 (sb_idempotency_key s') = Some (ak_execution_id a, ak_cursor a)"
    using find_submission_extends[OF _ steps_extend[OF assms(3)]] submit_then_found[OF assms(2) ok] assms(4) by simp
  then show ?thesis by (simp add: submit_def)
qed

section \<open>Reading events page by page\<close>

definition page_end :: "int \<Rightarrow> control_event list \<Rightarrow> int" where
  "page_end after page = (if page = [] then after else int (cv_cursor (last page)))"

lemma drop_sorted_filter:
  fixes M :: "control_event list"
  assumes "sorted_wrt (<) (map cv_cursor M)" and "0 < n" and "M \<noteq> []"
  shows "filter (\<lambda>e. cv_cursor (last (take n M)) < cv_cursor e) M = drop n M"
proof -
  let ?l = "last (take n M)"
  have split: "M = take n M @ drop n M" by simp
  then have s: "sorted_wrt (<) (map cv_cursor (take n M) @ map cv_cursor (drop n M))"
    using assms(1) by (metis map_append)
  have ne: "take n M \<noteq> []" using assms by simp
  then have "\<forall>e\<in>set (drop n M). cv_cursor ?l < cv_cursor e" using s by (auto simp: sorted_wrt_append)
  moreover have "\<forall>e\<in>set (take n M). cv_cursor e \<le> cv_cursor ?l"
  proof -
    have b: "take n M = butlast (take n M) @ [?l]" using ne by simp
    have "sorted_wrt (<) (map cv_cursor (butlast (take n M) @ [?l]))"
      using s b by (simp add: sorted_wrt_append)
    then have "\<forall>e\<in>set (butlast (take n M) @ [?l]). cv_cursor e \<le> cv_cursor ?l" by (auto simp: sorted_wrt_append)
    then show ?thesis using b by metis
  qed
  ultimately have "filter (\<lambda>e. cv_cursor ?l < cv_cursor e) (take n M) = []"
    "filter (\<lambda>e. cv_cursor ?l < cv_cursor e) (drop n M) = drop n M"
    by (auto simp: filter_empty_conv filter_id_conv)
  then show ?thesis by (subst (2) split) (simp only: filter_append, simp)
qed

lemma events_after_filter:
  assumes "events_ok db"
  shows "events_after db x after limit
    = take limit (filter (\<lambda>e. cv_execution e = x \<and> after < int (cv_cursor e)) (cd_events db))"
proof -
  have "sorted (map cv_cursor (filter P (cd_events db)))" for P
    using assms by (auto simp: events_ok_def sorted_wrt_map intro!: sorted_wrt_mono_rel[of _ "\<lambda>a b. cv_cursor a < cv_cursor b"]
        sorted_wrt_filter)
  then show ?thesis by (simp add: events_after_def sorted_sort_id sort_key_id_if_sorted)
qed

text \<open>
  A client that reads the events of an execution in pages, asking each time for those after the last
  one it got, gets every event once and in order: two pages in a row are the page of both lengths.
\<close>

lemma event_pages_join:
  assumes "control_reachable cx g db"
  shows "events_after db x after (n + m)
    = events_after db x after n @ events_after db x (page_end after (events_after db x after n)) m"
proof -
  have ok: "events_ok db" by (rule reachable_events[OF assms])
  define M where "M = filter (\<lambda>e. cv_execution e = x \<and> after < int (cv_cursor e)) (cd_events db)"
  have sorted: "sorted_wrt (<) (map cv_cursor M)"
    using ok by (simp add: M_def events_ok_def sorted_wrt_map sorted_wrt_filter)
  have rest: "filter (\<lambda>e. cv_execution e = x \<and> page_end after (take n M) < int (cv_cursor e)) (cd_events db) = drop n M"
  proof (cases "take n M = []")
    case True
    then have "drop n M = M" by (cases n) auto
    then show ?thesis using True by (simp add: page_end_def M_def)
  next
    case False
    then have "last (take n M) \<in> set M" using last_in_set in_set_takeD by metis
    then have "after < int (cv_cursor (last (take n M)))" by (simp add: M_def)
    then have "filter (\<lambda>e. cv_execution e = x \<and> int (cv_cursor (last (take n M))) < int (cv_cursor e)) (cd_events db)
        = filter (\<lambda>e. cv_cursor (last (take n M)) < cv_cursor e) M"
      unfolding M_def filter_filter by (intro filter_cong) (auto simp: M_def)
    then show ?thesis using drop_sorted_filter[OF sorted, of n] False by (simp add: page_end_def)
  qed
  show ?thesis by (simp add: events_after_filter[OF ok] rest flip: M_def) (simp add: take_add)
qed

section \<open>Ceilings\<close>

lemma occupied_map_le:
  assumes "cd_executions db' = map f (cd_executions db)" and "\<And>x. occupies (f x) \<Longrightarrow> occupies x"
  shows "occupied db' \<le> occupied db"
proof -
  have "length (filter occupies (map f xs)) \<le> length (filter occupies xs)" for xs
    by (induction xs) (auto dest: assms(2))
  then show ?thesis by (simp add: occupied_def assms(1))
qed

lemma occupied_same: "cd_executions db' = cd_executions db \<Longrightarrow> occupied db' = occupied db"
  by (simp add: occupied_def)

lemma submit_occupied: "submit now db s = Inr (a, db') \<Longrightarrow> occupied db' = occupied db"
  by (auto simp: submit_def insert_execution_def rbind_Inr_iff occupied_def occupies_def
      dest!: insert_eventD(1) split: option.splits if_splits prod.splits)

lemma bind_occupied:
  assumes "bind_worker now db x w pid start token generation = Inr db'"
  shows "occupied db' \<le> occupied db"
  by (rule occupied_map_le[of _ "\<lambda>r. if ex_id r = x then r\<lparr>ex_worker := Some w\<rparr> else r"])
    (use assms in \<open>auto simp: bind_worker_def update_execution_def occupies_def split: option.splits if_splits\<close>)

lemma finish_occupied:
  assumes "finish_execution cx now db x st reason = Inr (b, db')"
  shows "occupied db' \<le> occupied db"
proof (cases b)
  case False
  then have "db' = db" using assms
    by (auto simp: finish_execution_def Let_def rbind_Inr_iff split: option.splits if_splits prod.splits)
  then show ?thesis by simp
next
  case True
  let ?f = "\<lambda>r. if ex_id r = x then r\<lparr>ex_state := st, ex_completed := Some (secs now), ex_updated := secs now\<rparr> else r"
  show ?thesis
  proof (rule finish_executionD[OF assms True])
    fix db1
    assume d: "cd_executions db1 = map ?f (cd_executions db)"
      and db': "db' = release_control_plane_reservation cx now x ''execution_terminal'' db1"
      and st: "terminal_state st"
    have "cd_executions db' = map ?f (cd_executions db)" by (simp add: db' d)
    then show ?thesis
      by (rule occupied_map_le) (use st in \<open>auto simp: occupies_def terminal_state_def split: if_splits\<close>)
  qed
qed

lemma recover_one_occupied:
  assumes "recover_one cx now live row db = Inr (n, db')"
  shows "occupied db' \<le> occupied db"
proof -
  obtain x worker where row: "row = (x, worker)" by (cases row)
  show ?thesis
  proof (rule recover_oneD[OF assms[unfolded row]])
    fix f :: "execution_entry \<Rightarrow> execution_entry" and orphan db1
    assume f: "\<And>r. ex_id (f r) = ex_id r \<and> ex_project (f r) = ex_project r \<and> ex_attempt (f r) = ex_attempt r
       \<and> ex_key (f r) = ex_key r
       \<and> (ex_state r = Running \<longrightarrow> ex_state (f r) = (if orphan then AmbiguousLiveOrphan else Queued))
       \<and> (ex_state r \<noteq> Running \<longrightarrow> f r = r)"
      and "cd_executions db1 = map (\<lambda>r. if ex_id r = x then f r else r) (cd_executions db)"
        "cd_executions db' = cd_executions db1"
    then have "cd_executions db' = map (\<lambda>r. if ex_id r = x then f r else r) (cd_executions db)" by simp
    then show ?thesis
    proof (rule occupied_map_le)
      fix r
      assume "occupies (if ex_id r = x then f r else r)"
      then show "occupies r" using f[of r] by (cases "ex_state r = Running") (auto simp: occupies_def split: if_splits)
    qed
  qed
qed

lemma recover_rows_occupied:
  "recover_rows cx now live rows db = Inr (n, db') \<Longrightarrow> occupied db' \<le> occupied db"
  by (induction rows arbitrary: db n)
    (fastforce simp: rbind_Inr_iff dest: recover_one_occupied split: prod.splits)+

lemma filter_count_one:
  assumes "distinct xs" and "x \<in> set xs" and "P (f x)" and "\<not> P x" and "\<And>y. y \<in> set xs \<Longrightarrow> y \<noteq> x \<Longrightarrow> f y = y"
  shows "length (filter P (map f xs)) = Suc (length (filter P xs))"
  using assms
proof (induction xs)
  case (Cons a xs)
  show ?case
  proof (cases "a = x")
    case True
    then have "map f xs = xs" using Cons.prems(1,5) by (intro map_idI) auto
    then show ?thesis using True Cons.prems(3,4) by simp
  next
    case False
    then show ?thesis using Cons by auto
  qed
qed simp

text \<open>What a claim changes: the chosen execution, its attempt, and the turn of its project.\<close>

lemma claim_effect:
  assumes ok: "slots_agree db" and c: "claim_next cx now db ceiling generation = Inr (Some i, db')"
  obtains x p where "(x, p) \<in> set (candidates db)" "ex_id x = i" "occupied db < ceiling"
    "\<forall>d\<in>set (candidates db). claim_order (x, p) \<le> claim_order d"
    "find_execution db i = Some x"
    "cd_executions db' = map (\<lambda>r. if ex_id r = i then r\<lparr>ex_state := Running, ex_attempt := ex_attempt r + 1,
       ex_generation := Some generation, ex_updated := secs now\<rparr> else r) (cd_executions db)"
    "cd_projects db' = map (\<lambda>r. if pj_id r = ex_project x
       then r\<lparr>pj_last_claim := next_claim_sequence db\<rparr> else r) (cd_projects db)"
    "occupied db' = Suc (occupied db)" "project_occupied db' (ex_project x) = Suc (project_occupied db (ex_project x))"
proof (rule claim_nextD[OF c])
  fix db1
  assume e: "ensure_slot_pool global_pool ceiling (occupied db) db = Inr db1"
    and cases: "(Some i = None \<and> db' = db1 \<and> (ceiling \<le> occupied db \<or> candidates db = []))
      \<or> (\<exists>x p. Some i = Some (ex_id x) \<and> occupied db < ceiling \<and> (x, p) \<in> set (candidates db)
           \<and> (\<forall>d\<in>set (candidates db). claim_order (x, p) \<le> claim_order d)
           \<and> claim_selected cx now generation x p db1 = Inr db')"
  then obtain x p where x: "ex_id x = i" "occupied db < ceiling" "(x, p) \<in> set (candidates db)"
      "\<forall>d\<in>set (candidates db). claim_order (x, p) \<le> claim_order d"
      "claim_selected cx now generation x p db1 = Inr db'" by auto
  note e' = ensure_slot_poolD[OF e]
  have d: "distinct (map ex_id (cd_executions db))" by (rule slots_okE(1)[OF ok])
  have q: "x \<in> set (cd_executions db)" "ex_state x = Queued" using x(3) by (simp_all add: candidates_iff)
  have only: "r = x" if "r \<in> set (cd_executions db)" "ex_id r = i" for r
    using d q(1) x(1) that by (auto simp: distinct_map inj_on_def)
  have found: "find_execution db i = Some x"
  proof (cases "find_execution db i")
    case None
    then show ?thesis using q(1) x(1) by (auto simp: find_execution_def find_None_iff)
  next
    case (Some r)
    then have "r \<in> set (cd_executions db)" "ex_id r = i"
      by (auto simp: find_execution_def find_Some_iff)
    then show ?thesis using Some only by simp
  qed
  let ?g = "\<lambda>r. if ex_id r = i then r\<lparr>ex_state := Running, ex_attempt := ex_attempt r + 1,
       ex_generation := Some generation, ex_updated := secs now\<rparr> else r"
  show thesis
  proof (rule claim_selectedD[OF x(5)])
    assume xs: "cd_executions db' = map (\<lambda>r. if ex_id r = ex_id x then if ex_state r = Queued
             then r\<lparr>ex_state := Running, ex_attempt := ex_attempt r + 1,
                    ex_generation := Some generation, ex_updated := secs now\<rparr> else r else r) (cd_executions db1)"
      and ps: "cd_projects db' = map (\<lambda>r. if pj_id r = ex_project x
             then r\<lparr>pj_last_claim := next_claim_sequence db1\<rparr> else r) (cd_projects db1)"
    have xs': "cd_executions db' = map ?g (cd_executions db)"
      unfolding xs e'(1) using only q(2) x(1) by (intro map_cong) auto
    have ps': "cd_projects db' = map (\<lambda>r. if pj_id r = ex_project x
       then r\<lparr>pj_last_claim := next_claim_sequence db\<rparr> else r) (cd_projects db)"
      using ps e'(4) by (simp add: next_claim_sequence_def)
    have occ: "occupies (?g x)" "\<not> occupies x" using x(1) q(2) by (simp_all add: occupies_def)
    have others: "?g y = y" if "y \<in> set (cd_executions db)" "y \<noteq> x" for y using only that by auto
    have dx: "distinct (cd_executions db)" using d by (simp add: distinct_map)
    have "occupied db' = Suc (occupied db)"
      unfolding occupied_def xs' by (rule filter_count_one[OF dx q(1) occ others])
    moreover have "project_occupied db' (ex_project x) = Suc (project_occupied db (ex_project x))"
      unfolding project_occupied_def xs'
      by (rule filter_count_one[OF dx q(1) _ _ others]) (use occ in \<open>simp_all add: x(1)\<close>)
    ultimately show thesis by (intro that[OF x(3,1,2,4) found xs' ps'])
  qed
qed

lemma claim_occupied:
  assumes "slots_agree db" and "claim_next cx now db ceiling generation = Inr (xo, db')" and "occupied db \<le> g"
    and "ceiling \<le> g"
  shows "occupied db' \<le> g"
proof (cases xo)
  case None
  show ?thesis
  proof (rule claim_nextD[OF assms(2)])
    fix db1
    assume e: "ensure_slot_pool global_pool ceiling (occupied db) db = Inr db1"
      and "(xo = None \<and> db' = db1 \<and> (ceiling \<le> occupied db \<or> candidates db = []))
      \<or> (\<exists>x p. xo = Some (ex_id x) \<and> occupied db < ceiling \<and> (x, p) \<in> set (candidates db)
           \<and> (\<forall>d\<in>set (candidates db). claim_order (x, p) \<le> claim_order d)
           \<and> claim_selected cx now generation x p db1 = Inr db')"
    then show ?thesis using None occupied_same[OF ensure_slot_poolD(1)[OF e]] assms(3) by simp
  qed
next
  case (Some i)
  show ?thesis
    by (rule claim_effect[OF assms(1) assms(2)[unfolded Some]]) (use assms(4) in simp)
qed

lemma step_occupied:
  assumes "control_step cx g db db'" and "slots_agree db" and "occupied db \<le> g"
  shows "occupied db' \<le> g"
  using assms(1)
proof cases
  case (step_claim now ceiling generation xo)
  then show ?thesis using claim_occupied assms(2,3) by metis
next
  case step_submit
  then show ?thesis using submit_occupied assms(3) by metis
next
  case step_bind
  then show ?thesis using bind_occupied assms(3) by (metis le_trans)
next
  case step_finish
  then show ?thesis using finish_occupied assms(3) by (metis le_trans)
next
  case step_recover
  then show ?thesis using recover_rows_occupied assms(3) by (metis recover_running_def le_trans)
next
  case (step_agent now x kind payload c)
  from this(1) show ?thesis using assms(3) by (auto simp: occupied_def elim!: append_agent_eventD dest!: insert_eventD(1))
next
  case (step_late now x w payload b)
  from this(1) show ?thesis using assms(3) by (auto simp: occupied_def elim!: record_late_outcomeD dest!: insert_eventD(1))
qed (use assms(3) control_frame occupied_same in metis)+

text \<open>
  as long as every claim uses a global ceiling of at most g, there are never more than g
  executions that run or may be running, over all submissions, ends, restarts and changes of projects.
\<close>

lemma running_within_global_ceiling:
  assumes "control_reachable cx g db"
  shows "occupied db \<le> g"
  using assms
proof induction
  case start_empty
  then show ?case by (simp add: occupied_def empty_control_db_def)
next
  case (after_step db db')
  then show ?case using step_occupied reachable_slots by metis
qed

section \<open>Claims\<close>

lemma find_execution_map_id:
  assumes "cd_executions db' = map (\<lambda>r. if ex_id r = i then f r else r) (cd_executions db)"
    and "\<And>r. ex_id (f r) = ex_id r"
  shows "find_execution db' j = map_option (\<lambda>r. if ex_id r = i then f r else r) (find_execution db j)"
  unfolding find_execution_def assms(1) by (rule find_map) (simp add: assms(2))

lemma find_execution_id: "find_execution db i = Some r \<Longrightarrow> ex_id r = i"
  by (auto simp: find_execution_def find_Some_iff)

text \<open>
  C12: a claim starts the best queued execution and only when there is room: the project is active, no
  candidate is before it in the order of project priority, least recent claim, priority and age, the
  global and the project ceiling still hold with it, its attempt is the next one, and no other execution
  changes.
\<close>

theorem claim_starts_the_best_candidate:
  assumes "control_reachable cx g db" and "claim_next cx now db ceiling generation = Inr (Some i, db')"
  shows "\<exists>x p. find_execution db i = Some x \<and> ex_state x = Queued
    \<and> find_project db (ex_project x) = Some p \<and> pj_state p = Project_Active
    \<and> (\<forall>c\<in>set (candidates db). claim_order (x, p) \<le> claim_order c)
    \<and> occupied db' = Suc (occupied db) \<and> occupied db' \<le> ceiling
    \<and> project_occupied db' (ex_project x) \<le> pj_ceiling p
    \<and> find_execution db' i = Some (x\<lparr>ex_state := Running, ex_attempt := ex_attempt x + 1,
         ex_generation := Some generation, ex_updated := secs now\<rparr>)
    \<and> (\<forall>j. j \<noteq> i \<longrightarrow> find_execution db' j = find_execution db j)"
proof (rule claim_effect[OF reachable_slots[OF assms(1)] assms(2)])
  fix x p
  assume c: "(x, p) \<in> set (candidates db)" "ex_id x = i" "occupied db < ceiling"
      "\<forall>d\<in>set (candidates db). claim_order (x, p) \<le> claim_order d" "find_execution db i = Some x"
    and xs: "cd_executions db' = map (\<lambda>r. if ex_id r = i then r\<lparr>ex_state := Running, ex_attempt := ex_attempt r + 1,
       ex_generation := Some generation, ex_updated := secs now\<rparr> else r) (cd_executions db)"
    and n: "occupied db' = Suc (occupied db)"
      "project_occupied db' (ex_project x) = Suc (project_occupied db (ex_project x))"
  have find': "find_execution db' j = map_option (\<lambda>r. if ex_id r = i then r\<lparr>ex_state := Running,
       ex_attempt := ex_attempt r + 1, ex_generation := Some generation, ex_updated := secs now\<rparr> else r)
       (find_execution db j)" for j by (rule find_execution_map_id[OF xs]) simp
  have other: "find_execution db' j = find_execution db j" if "j \<noteq> i" for j
    using that find_execution_id[of db j] by (cases "find_execution db j") (auto simp: find')
  have room: "project_occupied db (ex_project x) < pj_ceiling p" "ex_state x = Queued"
    "find_project db (ex_project x) = Some p" "pj_state p = Project_Active"
    using c(1) by (simp_all add: candidates_iff)
  show ?thesis
    by (rule exI[of _ x], rule exI[of _ p]) (use c room n other in \<open>auto simp: find'\<close>)
qed

text \<open>
  projects take turns: when a project has just been served and another one of at least its priority
  has a candidate, the next claim does not go to the first project again.
\<close>

lemma claims_take_turns:
  assumes "control_reachable cx g db"
    and "claim_next cx now db ceiling generation = Inr (Some i, db1)"
    and "find_execution db i = Some x" and "find_project db (ex_project x) = Some p"
    and "(y, q) \<in> set (candidates db1)" and "ex_project y \<noteq> ex_project x" and "pj_priority p \<le> pj_priority q"
    and "claim_next cx later db1 ceiling' generation' = Inr (Some j, db2)"
    and "find_execution db1 j = Some z"
  shows "ex_project z \<noteq> ex_project x"
proof
  assume same: "ex_project z = ex_project x"
  have ok: "slots_agree db" by (rule reachable_slots[OF assms(1)])
  have ok1: "slots_agree db1" by (rule claim_slots[OF assms(2) ok])
  show False
  proof (rule claim_effect[OF ok assms(2)])
    fix x' p'
    assume x': "find_execution db i = Some x'"
      and ps: "cd_projects db1 = map (\<lambda>r. if pj_id r = ex_project x'
         then r\<lparr>pj_last_claim := next_claim_sequence db\<rparr> else r) (cd_projects db)"
    have "x' = x" using x' assms(3) by simp
    let ?f = "\<lambda>r. if pj_id r = ex_project x then r\<lparr>pj_last_claim := next_claim_sequence db\<rparr> else r"
    have find1: "find_project db1 k = map_option ?f (find_project db k)" for k
    proof -
      have "find (\<lambda>r. pj_id r = k) (map ?f rs) = map_option ?f (find (\<lambda>r. pj_id r = k) rs)" for rs
        by (induction rs) auto
      then show ?thesis using ps \<open>x' = x\<close> by (simp add: find_project_def)
    qed
    have pid: "pj_id r = k" if "find_project db k = Some r" for r k
      using that by (auto simp: find_project_def find_Some_iff)
    have p1: "find_project db1 (ex_project x) = Some (p\<lparr>pj_last_claim := next_claim_sequence db\<rparr>)"
      using pid[OF assms(4)] by (simp add: find1 assms(4))
    have q: "find_project db (ex_project y) = Some q"
      using assms(5,6) pid[of "ex_project y"] by (cases "find_project db (ex_project y)") (auto simp: candidates_iff find1)
    then have "q \<in> set (cd_projects db)" by (auto simp: find_project_def find_Some_iff)
    then have q_old: "pj_last_claim q < next_claim_sequence db"
    proof -
      have "pj_last_claim q \<in> set (0 # map pj_last_claim (cd_projects db))"
        using \<open>q \<in> set (cd_projects db)\<close> by simp
      then have "pj_last_claim q \<le> Max (set (0 # map pj_last_claim (cd_projects db)))" by (intro Max_ge) simp_all
      then show ?thesis unfolding next_claim_sequence_def Max.set_eq_fold by simp
    qed
    show False
    proof (rule claim_effect[OF ok1 assms(8)])
      fix z' r
      assume z': "(z', r) \<in> set (candidates db1)" "find_execution db1 j = Some z'"
        and best: "\<forall>d\<in>set (candidates db1). claim_order (z', r) \<le> claim_order d"
      have "z' = z" using z'(2) assms(9) by simp
      then have "r = p\<lparr>pj_last_claim := next_claim_sequence db\<rparr>" using z'(1) p1 same by (simp add: candidates_iff)
      moreover have "claim_order (z', r) \<le> claim_order (y, q)" using best assms(5) by simp
      ultimately show False using q_old assms(7) by (auto simp: claim_order_def less_eq_prod_def)
    qed
  qed
qed

section \<open>A second interruption\<close>

lemma recover_one_blocked:
  assumes "e \<in> set (cd_events db)" and "cv_id e = x @ '':recovery:runner_interrupted''"
    and "case worker of Some w \<Rightarrow> w \<notin> set live | None \<Rightarrow> True"
  shows "recover_one cx now live (x, worker) db = Inl (unique_failed ''control_plane_events.event_id'')"
proof -
  have "list_ex (\<lambda>f. cv_id f = x @ '':recovery:runner_interrupted'') (cd_events db)"
    using assms(1,2) by (auto simp: list_ex_iff)
  then show ?thesis using assms(3) by (auto simp: recover_one_def Let_def insert_event_def split: option.splits)
qed

lemma recover_rows_blocked:
  assumes "e \<in> set (cd_events db)" and "cv_id e = x @ '':recovery:runner_interrupted''"
    and "(x, worker) \<in> set rows" and "case worker of Some w \<Rightarrow> w \<notin> set live | None \<Rightarrow> True"
  shows "\<exists>err. recover_rows cx now live rows db = Inl err"
  using assms(1,3)
proof (induction rows arbitrary: db)
  case (Cons row rows)
  show ?case
  proof (cases "recover_one cx now live row db")
    case (Inl err)
    then show ?thesis by simp
  next
    case (Inr v)
    obtain n db1 where v: "v = (n, db1)" by (cases v)
    have "row \<noteq> (x, worker)" using recover_one_blocked[OF Cons.prems(1) assms(2,4)] Inr by auto
    moreover have "e \<in> set (cd_events db1)"
      using recover_one_extends[OF Inr[unfolded v]] Cons.prems(1) unfolding extends_def by auto
    ultimately show ?thesis using Cons by (auto simp: Inr v rbind_Inl_iff)
  qed
qed simp

lemma recover_rows_records:
  assumes "recover_rows cx now live rows db = Inr (n, db')" and "(x, worker) \<in> set rows"
    and "case worker of Some w \<Rightarrow> w \<notin> set live | None \<Rightarrow> True"
  shows "\<exists>e\<in>set (cd_events db'). cv_id e = x @ '':recovery:runner_interrupted''"
  using assms(1,2)
proof (induction rows arbitrary: db n)
  case (Cons row rows)
  obtain k m db1 where one: "recover_one cx now live row db = Inr (k, db1)"
    and rest: "recover_rows cx now live rows db1 = Inr (m, db')"
    using Cons.prems(1) by (auto simp: rbind_Inr_iff split: prod.splits)
  show ?case
  proof (cases "row = (x, worker)")
    case True
    have "\<exists>e\<in>set (cd_events db1). cv_id e = x @ '':recovery:runner_interrupted''"
      using one[unfolded True] assms(3)
      by (auto simp: recover_one_def Let_def rbind_Inr_iff dest!: insert_eventD(1) split: option.splits)
    then show ?thesis using recover_rows_extends[OF rest] unfolding extends_def by auto
  next
    case False
    then show ?thesis using Cons.IH[OF rest] Cons.prems(2) by auto
  qed
qed simp

definition interrupted :: "string list \<Rightarrow> control_db \<Rightarrow> string \<Rightarrow> bool" where
  "interrupted live db x \<longleftrightarrow> (\<exists>r\<in>set (cd_executions db). ex_id r = x \<and> ex_state r = Running
     \<and> (case ex_worker r of Some w \<Rightarrow> w \<notin> set live | None \<Rightarrow> True))"

text \<open>
  an execution can be recovered from an interruption once. When the same execution is again running
  without a live worker at a later start, recovery fails as a whole, because the event that records the
  interruption has the name of the first one: nothing is recovered then, at this start and at every later
  one.
\<close>

lemma second_interruption_blocks_recovery:
  assumes "recover_running cx now db live = Inr (n, db1)" and "interrupted live db x"
    and "control_steps cx g db1 db2" and "interrupted live' db2 x"
  shows "\<exists>err. recover_running cx later db2 live' = Inl err"
proof -
  obtain r where r: "r \<in> set (cd_executions db)" "ex_id r = x" "ex_state r = Running"
      "case ex_worker r of Some w \<Rightarrow> w \<notin> set live | None \<Rightarrow> True"
    using assms(2) by (auto simp: interrupted_def)
  obtain r' where r': "r' \<in> set (cd_executions db2)" "ex_id r' = x" "ex_state r' = Running"
      "case ex_worker r' of Some w \<Rightarrow> w \<notin> set live' | None \<Rightarrow> True"
    using assms(4) by (auto simp: interrupted_def)
  have row: "(x, ex_worker s) \<in> set (map (\<lambda>r. (ex_id r, ex_worker r)) (filter (\<lambda>r. ex_state r = Running) (cd_executions d)))"
    if "s \<in> set (cd_executions d)" "ex_id s = x" "ex_state s = Running" for s d
    using that by (auto intro!: image_eqI[of _ _ s])
  obtain e where e: "e \<in> set (cd_events db1)" "cv_id e = x @ '':recovery:runner_interrupted''"
    using recover_rows_records[OF assms(1)[unfolded recover_running_def] row[OF r(1-3)] r(4)] by auto
  then have "e \<in> set (cd_events db2)" using steps_extend[OF assms(3)] unfolding extends_def by auto
  then show ?thesis
    using recover_rows_blocked[OF _ e(2) row[OF r'(1-3)] r'(4)] by (simp add: recover_running_def)
qed

section \<open>A run\<close>

text \<open>One project, one submission, a claim, a restart, and the claim again.\<close>

definition db_of :: "'a tx \<Rightarrow> control_db" where
  "db_of r = (case r of Inl _ \<Rightarrow> empty_control_db | Inr (_, db) \<Rightarrow> db)"

definition demo_cx :: control_env where
  "demo_cx = \<lparr>cx_json_ok = (\<lambda>_. True), cx_reason_json = (\<lambda>s. s), cx_reason_of = Some, cx_datetime = show_nat\<rparr>"

definition demo_submission :: submission where
  "demo_submission = \<lparr>sb_execution_id = ''x'', sb_project_id = ''p'', sb_idempotency_key = ''k'',
     sb_mode = Detached, sb_priority = 0, sb_command_json = ''[]''\<rparr>"

definition demo_registered :: control_db where
  "demo_registered = (case register_project 0 empty_control_db ''p'' ''/p'' 0 1 of
     Inl _ \<Rightarrow> empty_control_db | Inr db \<Rightarrow> db)"

definition demo_submitted :: control_db where
  "demo_submitted = db_of (submit 1000 demo_registered demo_submission)"

definition demo_claimed :: control_db where
  "demo_claimed = db_of (claim_next demo_cx 2000 demo_submitted 1 1)"

definition demo_recovered :: control_db where
  "demo_recovered = db_of (recover_running demo_cx 3000 demo_claimed [])"

definition demo_again :: control_db where
  "demo_again = db_of (claim_next demo_cx 4000 demo_recovered 1 2)"

lemma db_ofI: "is_ok r \<Longrightarrow> \<exists>a. r = Inr (a, db_of r)"
  by (auto simp: is_ok_def db_of_def split: sum.splits)

lemma demo_register_ok: "register_project 0 empty_control_db ''p'' ''/p'' 0 1 = Inr demo_registered"
  by (simp add: demo_registered_def register_project_def empty_control_db_def find_project_def)

lemma demo_submit_ok: "submit 1000 demo_registered demo_submission
    = Inr (\<lparr>ak_execution_id = ''x'', ak_duplicate = False, ak_cursor = 1\<rparr>, demo_submitted)"
proof -
  have "map_sum id fst (submit 1000 demo_registered demo_submission)
      = Inr \<lparr>ak_execution_id = ''x'', ak_duplicate = False, ak_cursor = 1\<rparr>" by code_simp
  then show ?thesis by (auto simp: demo_submitted_def db_of_def map_sum_def split: sum.splits)
qed

lemma demo_claim_ok: "claim_next demo_cx 2000 demo_submitted 1 1 = Inr (Some ''x'', demo_claimed)"
proof -
  have "map_sum id fst (claim_next demo_cx 2000 demo_submitted 1 1) = Inr (Some ''x'')" by code_simp
  then show ?thesis by (auto simp: demo_claimed_def db_of_def map_sum_def split: sum.splits)
qed

lemma demo_recover_ok: "recover_running demo_cx 3000 demo_claimed [] = Inr (1, demo_recovered)"
proof -
  have "map_sum id fst (recover_running demo_cx 3000 demo_claimed []) = Inr 1" by code_simp
  then show ?thesis by (auto simp: demo_recovered_def db_of_def map_sum_def split: sum.splits)
qed

lemma demo_again_ok: "claim_next demo_cx 4000 demo_recovered 1 2 = Inr (Some ''x'', demo_again)"
proof -
  have "map_sum id fst (claim_next demo_cx 4000 demo_recovered 1 2) = Inr (Some ''x'')" by code_simp
  then show ?thesis by (auto simp: demo_again_def db_of_def map_sum_def split: sum.splits)
qed

lemma demo_reachable: "control_reachable demo_cx 1 demo_submitted" "control_reachable demo_cx 1 demo_claimed"
  "control_reachable demo_cx 1 demo_again"
proof -
  show s: "control_reachable demo_cx 1 demo_submitted"
    using start_empty step_register[OF demo_register_ok] step_submit[OF demo_submit_ok] by (blast intro: after_step)
  show c: "control_reachable demo_cx 1 demo_claimed"
    using s step_claim[OF demo_claim_ok] by (blast intro: after_step)
  show "control_reachable demo_cx 1 demo_again"
    using c step_recover[OF demo_recover_ok] step_claim[OF demo_again_ok] by (blast intro: after_step)
qed

lemma submission_is_idempotent_witness:
  "submit 9000 demo_claimed demo_submission
    = Inr (\<lparr>ak_execution_id = ''x'', ak_duplicate = True, ak_cursor = 1\<rparr>, demo_claimed)"
proof -
  have "control_reachable demo_cx 1 demo_registered"
    using start_empty step_register[OF demo_register_ok] by (blast intro: after_step)
  moreover have "control_steps demo_cx 1 demo_submitted demo_claimed"
    using step_claim[OF demo_claim_ok] by (blast intro: steps_none steps_more)
  ultimately show ?thesis using submission_is_idempotent[OF _ demo_submit_ok _ refl] by simp
qed

lemma event_pages_join_witness:
  "events_after demo_claimed ''x'' 0 (1 + 1) = events_after demo_claimed ''x'' 0 1
     @ events_after demo_claimed ''x'' (page_end 0 (events_after demo_claimed ''x'' 0 1)) 1"
  by (rule event_pages_join[OF demo_reachable(2)])

lemma running_within_global_ceiling_witness: "occupied demo_claimed \<le> 1"
  by (rule running_within_global_ceiling[OF demo_reachable(2)])

theorem claim_starts_the_best_candidate_witness:
  "\<exists>x. find_execution demo_submitted ''x'' = Some x \<and> ex_state x = Queued \<and> occupied demo_claimed \<le> 1"
  using claim_starts_the_best_candidate[OF demo_reachable(1) demo_claim_ok] by auto

lemma second_interruption_blocks_recovery_witness:
  "\<exists>err. recover_running demo_cx 5000 demo_again [] = Inl err"
proof -
  have "interrupted [] demo_claimed ''x''" "interrupted [] demo_again ''x''" by code_simp+
  moreover have "control_steps demo_cx 1 demo_recovered demo_again"
    using step_claim[OF demo_again_ok] by (blast intro: steps_none steps_more)
  ultimately show ?thesis using second_interruption_blocks_recovery[OF demo_recover_ok] by metis
qed

theorem running_executions_hold_their_slots_witness:
  "\<exists>x\<in>set (cd_executions demo_claimed). occupies x
     \<and> map rv_id (held_control_reservations demo_claimed (ex_id x)) = [slot_of x]"
proof -
  have "\<exists>x\<in>set (cd_executions demo_claimed). occupies x" by code_simp
  then show ?thesis using running_executions_hold_their_slots[OF demo_reachable(2)] by auto
qed

subsection \<open>Two projects\<close>

definition pair_submission :: "string \<Rightarrow> string \<Rightarrow> submission" where
  "pair_submission x p = \<lparr>sb_execution_id = x, sb_project_id = p, sb_idempotency_key = x,
     sb_mode = Detached, sb_priority = 0, sb_command_json = ''[]''\<rparr>"

definition pair_db :: control_db where
  "pair_db = db_of (submit 3 (db_of (submit 2 (db_of (submit 1
     (case rbind (register_project 0 empty_control_db ''p'' ''/p'' 0 2) (\<lambda>db. register_project 0 db ''q'' ''/q'' 0 2) of
        Inl _ \<Rightarrow> empty_control_db | Inr db \<Rightarrow> db)
     (pair_submission ''a'' ''p''))) (pair_submission ''b'' ''p''))) (pair_submission ''c'' ''q''))"

definition pair_claimed :: control_db where
  "pair_claimed = db_of (claim_next demo_cx 10 pair_db 5 1)"

definition pair_claimed_twice :: control_db where
  "pair_claimed_twice = db_of (claim_next demo_cx 20 pair_claimed 5 1)"

lemma map_sum_db_of: "map_sum id fst r = Inr a \<Longrightarrow> r = Inr (a, db_of r)"
  by (cases r) (auto simp: db_of_def split: prod.splits)

lemma pair_reachable: "control_reachable demo_cx 5 pair_db"
proof -
  define d1 where "d1 = (case register_project 0 empty_control_db ''p'' ''/p'' 0 2 of Inl _ \<Rightarrow> empty_control_db | Inr db \<Rightarrow> db)"
  define d2 where "d2 = (case register_project 0 d1 ''q'' ''/q'' 0 2 of Inl _ \<Rightarrow> empty_control_db | Inr db \<Rightarrow> db)"
  have r1: "register_project 0 empty_control_db ''p'' ''/p'' 0 2 = Inr d1"
    by (simp add: d1_def register_project_def empty_control_db_def find_project_def)
  have r2: "register_project 0 d1 ''q'' ''/q'' 0 2 = Inr d2"
    by (simp add: d2_def register_project_def split: option.split)
  have eq: "pair_db = db_of (submit 3 (db_of (submit 2 (db_of (submit 1 d2
      (pair_submission ''a'' ''p''))) (pair_submission ''b'' ''p''))) (pair_submission ''c'' ''q''))"
    by (simp add: pair_db_def r1 r2)
  have step: "control_reachable demo_cx 5 (db_of (submit n d s))" if "control_reachable demo_cx 5 d" for n d s
  proof (cases "submit n d s")
    case (Inl e)
    then show ?thesis by (simp add: db_of_def start_empty)
  next
    case (Inr v)
    then show ?thesis using that step_submit after_step by (cases v) (auto simp: db_of_def)
  qed
  have "control_reachable demo_cx 5 d2"
    using start_empty step_register[OF r1] step_register[OF r2] by (blast intro: after_step)
  then show ?thesis unfolding eq by (intro step)
qed

lemma claims_take_turns_witness:
  "\<exists>z. find_execution pair_claimed ''c'' = Some z \<and> ex_project z \<noteq> ''p''"
proof -
  have c1: "claim_next demo_cx 10 pair_db 5 1 = Inr (Some ''a'', pair_claimed)"
    unfolding pair_claimed_def by (rule map_sum_db_of) code_simp
  have c2: "claim_next demo_cx 20 pair_claimed 5 1 = Inr (Some ''c'', pair_claimed_twice)"
    unfolding pair_claimed_twice_def by (rule map_sum_db_of) code_simp
  have "case find_execution pair_db ''a'' of None \<Rightarrow> False | Some x \<Rightarrow> ex_project x = ''p''
      \<and> (case find_project pair_db ''p'' of None \<Rightarrow> False | Some p \<Rightarrow>
           list_ex (\<lambda>(y, q). ex_project y \<noteq> ''p'' \<and> pj_priority p \<le> pj_priority q) (candidates pair_claimed))"
    by code_simp
  then obtain x p y q where "find_execution pair_db ''a'' = Some x" "ex_project x = ''p''"
      "find_project pair_db ''p'' = Some p" "(y, q) \<in> set (candidates pair_claimed)" "ex_project y \<noteq> ''p''"
      "pj_priority p \<le> pj_priority q"
    by (fastforce simp: list_ex_iff split: option.splits)
  moreover have "find_execution pair_claimed ''c'' \<noteq> None" by code_simp
  ultimately show ?thesis using claims_take_turns[OF pair_reachable c1 _ _ _ _ _ c2] by force
qed

end
