(* ===== verification/Shared_Ledger.thy ===== *)
theory Shared_Ledger
  imports Reservation_Ledger Control_Guarantees
begin

text \<open>
  The pools under all their writers. The control plane keeps its slots in the same tables as every other
  reservation, with statements of its own (\<open>crates/familiar-ai-storage/src/repos/control_plane.rs\<close>): a claim sets
  the capacity of a slot pool to the ceiling of the day, takes a slot and writes a reservation; the end of an
  execution gives back what its reservation holds, but never beyond the capacity. Here the steps of the control
  plane and of the reservation repository interleave on one database.
\<close>

section \<open>One database\<close>

text \<open>The pools that the control plane sizes anew with every claim.\<close>

definition slot_pool :: "pool_key \<Rightarrow> bool" where
  "slot_pool k \<longleftrightarrow> snd k = ''inference-slots''
     \<and> (fst k = global_pool \<or> starts_with (fst k) ''control-plane:project:'')"

inductive shared_step :: "control_env \<Rightarrow> control_db \<Rightarrow> control_db \<Rightarrow> bool" for cx where
  by_control: "control_step cx g db db' \<Longrightarrow> shared_step cx db db'"
| by_reservation: "reservation_step (cd_ledger db) l \<Longrightarrow> shared_step cx db (db\<lparr>cd_ledger := l\<rparr>)"

inductive shared_reachable :: "control_env \<Rightarrow> control_db \<Rightarrow> bool" for cx where
  shared_start: "shared_reachable cx empty_control_db"
| shared_next: "shared_reachable cx db \<Longrightarrow> shared_step cx db db' \<Longrightarrow> shared_reachable cx db'"

abbreviation kept :: "control_db \<Rightarrow> bool" where
  "kept db \<equiv> ledger_ok_except (Collect slot_pool) (cd_ledger db)"

lemma slot_pool_key [simp]: "slot_pool (slot_key global_pool)" "slot_pool (slot_key (project_pool p))"
  by (simp_all add: slot_pool_def slot_key_def project_pool_def)

section \<open>What the control plane writes\<close>

lemma ledger_pools:
  assumes "ledger_ok_except K l" "\<And>k. k \<notin> K \<Longrightarrow> P k = rd_pools l k" "\<And>k. rd_pools l k \<noteq> None \<Longrightarrow> P k \<noteq> None"
    "pools_bounded P"
  shows "ledger_ok_except K (l\<lparr>rd_pools := P\<rparr>)"
proof -
  have "outstanding (l\<lparr>rd_pools := P\<rparr>) = outstanding l" by (simp add: outstanding_def)
  then show ?thesis using assms unfolding ledger_ok_except_def by simp
qed

lemma set_pool_kept:
  assumes "kept db" "slot_pool (slot_key pool)" "po_available row \<le> po_capacity row" "po_capacity row < 2 ^ 63"
  shows "kept (set_pool pool row db)"
proof -
  have "pools_bounded ((rd_pools (cd_ledger db))(slot_key pool \<mapsto> row))"
    using ledger_exceptD(8) [OF assms(1)] assms(3,4) by (simp add: pools_bounded_def)
  moreover have "((rd_pools (cd_ledger db))(slot_key pool \<mapsto> row)) k = rd_pools (cd_ledger db) k" if "\<not> slot_pool k" for k
    using that assms(2) by (cases "k = slot_key pool") simp_all
  ultimately show ?thesis using ledger_pools [OF assms(1)] by (simp add: set_pool_def)
qed

lemma ensure_slot_pool_kept:
  assumes "ensure_slot_pool pool capacity n db = Inr db'" "kept db" "slot_pool (slot_key pool)"
  shows "kept db'"
  using assms by (auto simp: ensure_slot_pool_def intro!: set_pool_kept split: if_splits)

lemma take_slot_kept:
  assumes "take_slot pool db = Inr db'" "kept db" "slot_pool (slot_key pool)"
  shows "kept db' \<and> rd_pools (cd_ledger db') (slot_key pool) \<noteq> None
    \<and> (\<forall>k. rd_pools (cd_ledger db) k \<noteq> None \<longrightarrow> rd_pools (cd_ledger db') k \<noteq> None)"
proof -
  obtain p where p: "rd_pools (cd_ledger db) (slot_key pool) = Some p"
    and db': "db' = set_pool pool (p\<lparr>po_available := po_available p - 1\<rparr>) db"
    using assms(1) by (auto simp: take_slot_def split: option.splits if_splits)
  have "kept db'" unfolding db'
    using ledger_exceptD(7) [OF assms(2) p] by (intro set_pool_kept [OF assms(2,3)]) auto
  then show ?thesis by (simp add: db' set_pool_def)
qed

lemma insert_reservation_ledger:
  assumes "insert_reservation row l = Inr l'" "ledger_ok_except K l"
  shows "ledger_ok_except K l' \<and> find_reservation l' (rv_id row) = Some row \<and> rd_pools l' = rd_pools l"
proof -
  note ins = find_insert_reservation [OF assms(1)]
  have fresh: "rv_id row \<notin> rv_id ` set (rd_reservations l)"
    using conjunct1 [OF ins] by (auto simp: find_reservation_def find_None_iff)
  have same: "find_reservation l' (it_reservation i) = find_reservation l (it_reservation i)" if "i \<in> set (rd_items l)" for i
    using ins ledger_exceptD(3) [OF assms(2) that] by (cases "it_reservation i = rv_id row") auto
  have "outstanding l' k = outstanding l k" for k
  proof -
    have "amount_on (charge l') (rd_items l) k = amount_on (charge l) (rd_items l) k"
      by (rule amount_on_cong) (simp add: charge_def same)
    then show ?thesis using ins by (simp add: outstanding_def)
  qed
  then show ?thesis
    using assms(2) ins fresh same unfolding ledger_ok_except_def by auto
qed

lemma insert_slot_item_kept:
  assumes "insert_slot_item rid pool db = Inr db'" "kept db" "slot_pool (slot_key pool)"
    "find_reservation (cd_ledger db) rid \<noteq> None" "rd_pools (cd_ledger db) (slot_key pool) \<noteq> None"
  shows "kept db' \<and> find_reservation (cd_ledger db') = find_reservation (cd_ledger db)
    \<and> rd_pools (cd_ledger db') = rd_pools (cd_ledger db)"
proof -
  define i where "i = \<lparr>it_reservation = rid, it_key = slot_key pool, it_requested = 1, it_granted = 1,
    it_observed = None, it_overrun = 0\<rparr>"
  have fresh: "(rid, slot_key pool) \<notin> (\<lambda>i. (it_reservation i, it_key i)) ` set (rd_items (cd_ledger db))"
    and l: "cd_ledger db' = (cd_ledger db)\<lparr>rd_items := rd_items (cd_ledger db) @ [i]\<rparr>"
    using assms(1) by (auto simp: insert_slot_item_def list_ex_iff i_def split: if_splits)
  have "outstanding (cd_ledger db') k = outstanding (cd_ledger db) k" if "k \<notin> Collect slot_pool" for k
    using that assms(3) unfolding outstanding_def l by (auto simp: ledger i_def)
  then show ?thesis
    using assms(2-5) fresh unfolding ledger_ok_except_def l by (auto simp: i_def fun_eq_iff)
qed

lemma acquire_control_kept:
  assumes "acquire_control_plane_reservation cx now x p n generation pool db = Inr db'" "kept db" "slot_pool (slot_key pool)"
  shows "kept db'"
proof -
  let ?rid = "''control-plane:'' @ x @ '':'' @ show_nat n" and ?at = "cx_datetime cx (secs now)"
  obtain db1 db2 l row db3 db4 where steps: "take_slot global_pool db = Inr db1" "take_slot pool db1 = Inr db2"
      "insert_reservation row (cd_ledger db2) = Inr l" "rv_id row = ?rid"
      "insert_slot_item ?rid global_pool (db2\<lparr>cd_ledger := l\<rparr>) = Inr db3" "insert_slot_item ?rid pool db3 = Inr db4"
    and db': "db' = start_history now x p
       (update_ledger (log_event ?rid ''acquired'' ''control-plane'' ''atomic execution claim'' ?at) db4)"
    using assms(1) unfolding acquire_control_plane_reservation_def Let_def rbind_Inr_iff by fastforce
  note t1 = take_slot_kept [OF steps(1) assms(2) slot_pool_key(1)] and t2 = take_slot_kept [OF steps(2) _ assms(3)]
  have two: "kept db2" "rd_pools (cd_ledger db2) (slot_key global_pool) \<noteq> None" "rd_pools (cd_ledger db2) (slot_key pool) \<noteq> None"
    using t1 t2 by blast+
  note row = insert_reservation_ledger [OF steps(3) two(1), unfolded steps(4)]
  note i1 = insert_slot_item_kept [OF steps(5)]
  have three: "kept db3" "find_reservation (cd_ledger db3) ?rid \<noteq> None" "rd_pools (cd_ledger db3) (slot_key pool) \<noteq> None"
    using i1 row two by auto
  have "kept db4" using insert_slot_item_kept [OF steps(6) three(1) assms(3) three(2,3)] by blast
  then show ?thesis by (simp add: db')
qed

text \<open>Giving slots back stops at the capacity; where the equation holds that changes nothing.\<close>

lemma return_slots_pools:
  "cd_ledger (fold return_slot is db) = (cd_ledger db)\<lparr>rd_pools := rd_pools (cd_ledger (fold return_slot is db))\<rparr>
   \<and> (pools_bounded (rd_pools (cd_ledger db)) \<longrightarrow> pools_bounded (rd_pools (cd_ledger (fold return_slot is db))))
   \<and> (\<forall>k. (case rd_pools (cd_ledger db) k of
         None \<Rightarrow> rd_pools (cd_ledger (fold return_slot is db)) k = None
       | Some p \<Rightarrow> rd_pools (cd_ledger (fold return_slot is db)) k \<noteq> None
           \<and> (po_available p + amount_on it_granted is k \<le> po_capacity p \<longrightarrow>
              rd_pools (cd_ledger (fold return_slot is db)) k
                = Some (p\<lparr>po_available := po_available p + amount_on it_granted is k\<rparr>))))"
proof (induction "is" arbitrary: db)
  case Nil then show ?case by (auto simp: ledger split: option.split)
next
  case (Cons i "is")
  note IH = Cons.IH [of "return_slot i db"]
  show ?case
  proof (cases "rd_pools (cd_ledger db) (it_key i)")
    case None
    then have "return_slot i db = db" by (simp add: return_slot_def update_ledger_def)
    then show ?thesis using IH None by (fastforce simp: ledger split: option.splits)
  next
    case (Some q)
    let ?q = "q\<lparr>po_available := min (po_capacity q) (po_available q + it_granted i)\<rparr>"
    have l: "cd_ledger (return_slot i db) = (cd_ledger db)\<lparr>rd_pools := (rd_pools (cd_ledger db))(it_key i \<mapsto> ?q)\<rparr>"
      using Some by (simp add: return_slot_def)
    have bound: "pools_bounded (rd_pools (cd_ledger db)) \<Longrightarrow> pools_bounded (rd_pools (cd_ledger (return_slot i db)))"
    proof -
      assume b: "pools_bounded (rd_pools (cd_ledger db))"
      then have "po_capacity q < 2 ^ 63" using Some unfolding pools_bounded_def by blast
      with b show ?thesis unfolding pools_bounded_def l by simp
    qed
    have "(case rd_pools (cd_ledger db) k of
         None \<Rightarrow> rd_pools (cd_ledger (fold return_slot (i # is) db)) k = None
       | Some p \<Rightarrow> rd_pools (cd_ledger (fold return_slot (i # is) db)) k \<noteq> None
           \<and> (po_available p + amount_on it_granted (i # is) k \<le> po_capacity p \<longrightarrow>
              rd_pools (cd_ledger (fold return_slot (i # is) db)) k
                = Some (p\<lparr>po_available := po_available p + amount_on it_granted (i # is) k\<rparr>)))" for k
      using conjunct2 [OF conjunct2 [OF IH], rule_format, of k] Some
      by (auto simp: l ledger add.assoc split: option.splits if_splits)
    moreover have "cd_ledger (fold return_slot (i # is) db) = (cd_ledger db)\<lparr>rd_pools := rd_pools (cd_ledger (fold return_slot (i # is) db))\<rparr>"
    proof -
      have "cd_ledger (fold return_slot (i # is) db)
          = (cd_ledger (return_slot i db))\<lparr>rd_pools := rd_pools (cd_ledger (fold return_slot (i # is) db))\<rparr>"
        using conjunct1 [OF IH] by simp
      then show ?thesis unfolding l by simp
    qed
    ultimately show ?thesis using bound conjunct1 [OF conjunct2 [OF IH]] by simp
  qed
qed

lemma release_control_kept:
  assumes ok: "kept db"
  shows "kept (release_control_plane_reservation cx now x reason db)"
proof (cases "latest_reservation (held_control_reservations db x)")
  case None then show ?thesis using ok by (simp add: release_control_plane_reservation_def)
next
  case (Some r)
  let ?K = "Collect slot_pool" and ?l = "cd_ledger db" and ?rid = "rv_id r" and ?at = "cx_datetime cx (secs now)"
  let ?mine = "filter (\<lambda>i. it_reservation i = ?rid) (rd_items ?l)"
  let ?f = "\<lambda>r. if rv_state r = Held then r\<lparr>rv_state := Released, rv_resolved_at := Some ?at\<rparr> else r"
  define P where "P = rd_pools (cd_ledger (fold return_slot ?mine db))"
  obtain rs where "rev (sort_key rv_sequence (held_control_reservations db x)) = r # rs"
    using Some unfolding latest_reservation_def by (simp split: list.splits)
  then have "r \<in> set (rev (sort_key rv_sequence (held_control_reservations db x)))" by (metis list.set_intros(1))
  then have r: "r \<in> set (rd_reservations ?l)" "rv_state r = Held" by (auto simp: held_control_reservations_def)
  then have found: "find_reservation ?l ?rid = Some r" using find_in_rows ledger_exceptD(1) [OF ok] by blast
  note ret = return_slots_pools [of ?mine db, folded P_def]
  have l': "cd_ledger (release_control_plane_reservation cx now x reason db)
      = log_event ?rid ''released'' ''control-plane'' reason ?at
          (update_reservation ?rid ?f (?l\<lparr>rd_pools := P, rd_items := map (\<lambda>i. i) (rd_items ?l)\<rparr>))"
    using conjunct1 [OF ret] by (simp add: release_control_plane_reservation_def Some Let_def)
  have P: "P k = credit (held_amount ?l ?rid) (rd_pools ?l) k" if "k \<notin> ?K" for k
  proof (cases "rd_pools ?l k")
    case None then show ?thesis using conjunct2 [OF conjunct2 [OF ret], rule_format, of k] by (simp add: credit_def)
  next
    case (Some p)
    have "po_available p + held_amount ?l ?rid k \<le> po_capacity p"
      using ledger_exceptD(6) [OF ok that Some] held_le_outstanding [OF found r(2), of k] by linarith
    then show ?thesis
      using conjunct2 [OF conjunct2 [OF ret], rule_format, of k] Some by (simp add: credit_def held_amount_alt)
  qed
  show ?thesis unfolding l'
  proof (rule ledger_ok_resolved [OF ok found r(2), where b = it_granted and g = "held_amount ?l ?rid"])
    show "P k = None \<longleftrightarrow> rd_pools ?l k = None" for k
      using conjunct2 [OF conjunct2 [OF ret], rule_format, of k] by (auto split: option.splits)
    show "pools_bounded P" using conjunct1 [OF conjunct2 [OF ret]] ledger_exceptD(8) [OF ok] by blast
  qed (use P r(2) in \<open>simp_all add: held_amount_alt item_charge_def\<close>)
qed

section \<open>Every step\<close>

lemma claim_next_kept:
  assumes "claim_next cx now db ceiling generation = Inr (xo, db')" "kept db"
  shows "kept db'"
proof -
  obtain db1 where e: "ensure_slot_pool global_pool ceiling (occupied db) db = Inr db1"
    and rest: "db' = db1 \<or> (\<exists>x p. claim_selected cx now generation x p db1 = Inr db')"
    using assms(1) by (auto simp: claim_next_def rbind_Inr_iff split: if_splits option.splits prod.splits)
  have one: "kept db1" by (rule ensure_slot_pool_kept [OF e assms(2)]) simp
  have "kept db'" if c: "claim_selected cx now generation x p db1 = Inr db'" for x p
  proof -
    obtain db2 db3 eid y kind payload f n db4 q h where
      s: "ensure_slot_pool (project_pool (ex_project x)) (pj_ceiling p) (project_occupied db1 (ex_project x)) db1 = Inr db2"
      "acquire_control_plane_reservation cx now (ex_id x) (ex_project x) (ex_attempt x + 1) generation
         (project_pool (ex_project x)) db2 = Inr db3"
      "insert_event now eid y kind payload (update_execution y f db3) = Inr (n, db4)"
      "db' = update_project q h db4"
      using c by (auto simp: claim_selected_def Let_def rbind_Inr_iff split: prod.splits)
    have "kept db2" by (rule ensure_slot_pool_kept [OF s(1) one]) simp
    then have "kept db3" by (rule acquire_control_kept [OF s(2)]) simp
    then show ?thesis by (simp add: s(4) insert_eventD(1) [OF s(3)])
  qed
  then show ?thesis using rest one by blast
qed

lemma finish_kept:
  assumes "finish_execution cx now db x st reason = Inr (b, db')" "kept db"
  shows "kept db'"
proof (cases b)
  case False
  then have "db' = db" using assms(1)
    by (auto simp: finish_execution_def Let_def rbind_Inr_iff split: option.splits if_splits prod.splits)
  then show ?thesis using assms(2) by simp
next
  case True
  show ?thesis
    by (rule finish_executionD [OF assms(1) True]) (use assms(2) in \<open>simp add: release_control_kept\<close>)
qed

lemma recover_one_kept:
  assumes "recover_one cx now live (x, worker) db = Inr (n, db')" "kept db"
  shows "kept db'"
  by (rule recover_oneD [OF assms(1)]) (use assms(2) release_control_kept in \<open>simp split: if_splits\<close>)

lemma recover_rows_kept:
  "recover_rows cx now live rows db = Inr (n, db') \<Longrightarrow> kept db \<Longrightarrow> kept db'"
proof (induction rows arbitrary: db n)
  case (Cons row rows)
  obtain x worker where row: "row = (x, worker)" by (cases row)
  obtain k m db1 where "recover_one cx now live (x, worker) db = Inr (k, db1)" "recover_rows cx now live rows db1 = Inr (m, db')"
    using Cons.prems(1) by (auto simp: rbind_Inr_iff row split: prod.splits)
  then show ?case using Cons recover_one_kept by blast
qed simp

lemma control_step_kept:
  assumes "control_step cx g db db'" "kept db"
  shows "kept db'"
  using assms
proof cases
  case step_submit
  then show ?thesis using assms(2)
    by (auto simp: submit_def insert_execution_def rbind_Inr_iff dest!: insert_eventD(1) split: option.splits prod.splits if_splits)
next
  case step_bind
  then show ?thesis using assms(2) by (auto simp: bind_worker_def split: option.splits if_splits)
next
  case step_claim then show ?thesis using claim_next_kept assms(2) by metis
next
  case step_finish then show ?thesis using finish_kept assms(2) by metis
next
  case step_recover then show ?thesis using recover_rows_kept assms(2) unfolding recover_running_def by metis
next
  case (step_agent now x kind payload c)
  from this(1) show ?thesis using assms(2) by (auto elim!: append_agent_eventD dest!: insert_eventD(1))
next
  case (step_late now x w payload b)
  from this(1) show ?thesis using assms(2) by (auto elim!: record_late_outcomeD dest!: insert_eventD(1))
qed (use assms(2) control_frame in metis)+

lemma reachable_kept: "shared_reachable cx db \<Longrightarrow> kept db"
proof (induction rule: shared_reachable.induct)
  case shared_start
  show ?case by (simp add: ledger_ok_except_def pools_bounded_def empty_control_db_def)
next
  case (shared_next db db')
  from shared_next.hyps(2) shared_next.IH show ?case
    by cases (auto intro: control_step_kept step_ledger)
qed

section \<open>Conservation\<close>

text \<open>
  C7: In every database that the control plane and the reservation repository reach together, no pool has more
  available than its capacity; and of every pool but the slot pools of the control plane, what is available, plus
  what the held reservations hold, plus what the committed reservations used of their grants, is the capacity: no
  amount is granted twice and none is lost, whatever the control plane claims, ends and recovers in between. The slot
  pools are left out because a claim writes their capacity and what is available of it anew.
\<close>

theorem pool_amounts_conserved:
  assumes "shared_reachable cx db" "rd_pools (cd_ledger db) k = Some p"
  shows "po_available p \<le> po_capacity p
    \<and> (\<not> slot_pool k \<longrightarrow> po_available p + outstanding (cd_ledger db) k = po_capacity p)"
  using ledger_exceptD(6,7) [OF reachable_kept [OF assms(1)], of k p] assms(2) by simp

text \<open>
  Two executions run under a ceiling of two, beside a reservation of tokens, when the ceiling is lowered to one.
  The tokens add up. The global slot pool then says that none of its one slot is available while two are held.
\<close>

definition shared_submission :: "string \<Rightarrow> submission" where
  "shared_submission x = \<lparr>sb_execution_id = x, sb_project_id = ''p'', sb_idempotency_key = x,
     sb_mode = Detached, sb_priority = 0, sb_command_json = ''[]''\<rparr>"

definition shared_holding :: control_db where
  "shared_holding = empty_control_db\<lparr>cd_ledger := sample_held\<rparr>"

definition shared_registered :: control_db where
  "shared_registered = (case register_project 0 shared_holding ''p'' ''/p'' 0 2 of Inr db \<Rightarrow> db | Inl _ \<Rightarrow> empty_control_db)"

definition shared_submitted :: control_db where
  "shared_submitted = db_of (submit 1000 shared_registered (shared_submission ''x''))"

definition shared_submitted2 :: control_db where
  "shared_submitted2 = db_of (submit 1000 shared_submitted (shared_submission ''y''))"

definition shared_claimed :: control_db where
  "shared_claimed = db_of (claim_next demo_cx 2000 shared_submitted2 2 1)"

definition shared_claimed2 :: control_db where
  "shared_claimed2 = db_of (claim_next demo_cx 2000 shared_claimed 2 1)"

definition shared_lowered :: control_db where
  "shared_lowered = db_of (claim_next demo_cx 2000 shared_claimed2 1 1)"

lemma shared_lowered_reachable: "shared_reachable demo_cx shared_lowered"
proof -
  have ledger: "cd_ledger empty_control_db = no_reservations"
    by (simp add: empty_control_db_def no_reservations_def)
  have "reservation_step no_reservations sample_pool" "reservation_step sample_pool sample_held"
    using reservation_step.intros(1) [OF sample_pool_ok] reservation_step.intros(2) [OF sample_held_ok] by blast+
  then have "shared_reachable demo_cx (empty_control_db\<lparr>cd_ledger := sample_pool\<rparr>)"
    using shared_start by_reservation shared_next unfolding ledger [symmetric] by blast
  then have h: "shared_reachable demo_cx shared_holding"
    using by_reservation [of "empty_control_db\<lparr>cd_ledger := sample_pool\<rparr>" sample_held demo_cx]
      \<open>reservation_step sample_pool sample_held\<close> by (auto simp: shared_holding_def intro: shared_next)
  have "register_project 0 shared_holding ''p'' ''/p'' 0 2 = Inr shared_registered"
    unfolding shared_registered_def by (rule is_ok_value) code_simp
  then have r: "shared_reachable demo_cx shared_registered"
    using h control_step.intros(1) by_control shared_next by metis
  have "is_ok (submit 1000 shared_registered (shared_submission ''x''))"
    "is_ok (submit 1000 shared_submitted (shared_submission ''y''))" by code_simp+
  then have s: "shared_reachable demo_cx shared_submitted2"
    using r control_step.intros(2) by_control shared_next db_ofI unfolding shared_submitted2_def shared_submitted_def by metis
  have "is_ok (claim_next demo_cx 2000 shared_submitted2 2 1)" "is_ok (claim_next demo_cx 2000 shared_claimed 2 1)"
    "is_ok (claim_next demo_cx 2000 shared_claimed2 1 1)" by code_simp+
  then show ?thesis
    using s control_step.intros(10) [OF _ order_refl] by_control shared_next db_ofI
    unfolding shared_lowered_def shared_claimed2_def shared_claimed_def by metis
qed

theorem pool_amounts_conserved_witness:
  "map_option (\<lambda>p. (po_capacity p, po_available p + outstanding (cd_ledger shared_lowered) (''s'', ''uncached-tokens'')))
     (rd_pools (cd_ledger shared_lowered) (''s'', ''uncached-tokens'')) = Some (10, 10)"
proof -
  have "map_option po_capacity (rd_pools (cd_ledger shared_lowered) (''s'', ''uncached-tokens'')) = Some 10" by code_simp
  then obtain p where p: "rd_pools (cd_ledger shared_lowered) (''s'', ''uncached-tokens'') = Some p" "po_capacity p = 10"
    by auto
  from pool_amounts_conserved [OF shared_lowered_reachable p(1)] p show ?thesis by (simp add: slot_pool_def)
qed

lemma lowered_ceiling_breaks_the_equation:
  "map_option (\<lambda>p. (po_capacity p, po_available p)) (rd_pools (cd_ledger shared_lowered) (slot_key global_pool)) = Some (1, 0)
   \<and> outstanding (cd_ledger shared_lowered) (slot_key global_pool) = 2"
  by code_simp

end
