(* ===== verification/Model_Residency.thy ===== *)
theory Model_Residency
  imports Effects "HOL-Library.AList"
begin

text \<open>
  Warm model residency: the manager of \<open>crates/familiar-ai-daemon/src/model_residency.rs\<close> over the event
  log of \<open>crates/familiar-ai-storage/src/repos/model_residency.rs\<close> and the configuration of
  \<open>crates/familiar-ai-core/src/config/registry_workers.rs\<close>.

  The launcher, the artifact registry, the insertion of an event and the passing of time act on an
  arbitrary world and may fail. \<open>BTreeMap\<close>s are association lists with distinct keys, iterated in key
  order, or functions. Amounts of memory (\<open>u64\<close>), use counters and attempts are \<open>nat\<close>: their sums stay far
  below the width. \<open>sleep(50ms)\<close> advances the clock by at least 50 milliseconds.
\<close>

section \<open>Configuration\<close>

record resident_config =
  rc_enabled :: bool
  rc_worker :: string
  rc_launch :: "string list"
  rc_memory_mb :: "nat option"
  rc_ready_timeout_secs :: nat

record residency_config =
  mc_enabled :: bool
  mc_max_residents :: nat
  mc_memory_ceiling_mb :: "nat option"
  mc_max_restarts :: nat
  mc_residents :: "string \<Rightarrow> resident_config option"

datatype local_runtime_kind = Ollama | Unsloth

record local_profile =
  lp_runtime_kind :: local_runtime_kind
  lp_base_url :: string

record worker_config =
  wk_local :: "local_profile option"
  wk_model_artifact :: "string option"

type_synonym worker_registry = "string \<Rightarrow> worker_config option"

datatype residency_ceiling = Count_Ceiling | Memory_Ceiling

definition ceiling_text :: "residency_ceiling \<Rightarrow> string" where
  "ceiling_text c = (case c of Count_Ceiling \<Rightarrow> ''count-ceiling'' | Memory_Ceiling \<Rightarrow> ''memory-ceiling'')"

definition is_active :: "residency_config \<Rightarrow> string \<Rightarrow> bool" where
  "is_active cfg key \<longleftrightarrow> mc_enabled cfg \<and> (case mc_residents cfg key of Some e \<Rightarrow> rc_enabled e | None \<Rightarrow> False)"

section \<open>State\<close>

record launch_spec =
  ls_key :: string
  ls_worker :: string
  ls_artifact :: string
  ls_runtime :: string
  ls_base_url :: string
  ls_launch :: "string list"
  ls_memory_mb :: "nat option"
  ls_ready_timeout_secs :: nat

datatype residency_event = Ev_Loaded | Ev_Stopped | Ev_Evicted | Ev_Restarted | Ev_Failed | Ev_Health_Failed

record residency_event_row =
  ve_key :: string
  ve_worker :: string
  ve_artifact :: string
  ve_runtime :: string
  ve_server :: string
  ve_event :: residency_event
  ve_reason :: "string option"
  ve_restart_attempt :: "nat option"
  ve_memory_mb :: "nat option"

datatype residency_outcome =
  Warm string string
| Cold string string
| Not_Resident string

record resident =
  rt_spec :: launch_spec
  rt_server :: string
  rt_last_used :: nat

record 'w residency_env =
  re_launch :: "launch_spec \<Rightarrow> string \<Rightarrow> ('w, string, unit) io"
  re_stop :: "string \<Rightarrow> ('w, string, unit) io"
  re_probe :: "string \<Rightarrow> string \<Rightarrow> ('w, string, unit) io"
  re_registered :: "string \<Rightarrow> ('w, familiar_error, bool) io"
  re_insert :: "residency_event_row \<Rightarrow> ('w, familiar_error, unit) io"
  re_passed_ms :: "'w \<Rightarrow> nat \<times> 'w"

record 'w residency =
  rm_config :: residency_config
  rm_residents :: "(string \<times> resident) list"
  rm_failed :: "string \<Rightarrow> string option"
  rm_attempts :: "string \<Rightarrow> nat option"
  rm_uses :: nat
  rm_counter :: nat
  rm_world :: 'w

definition new_manager :: "residency_config \<Rightarrow> 'w \<Rightarrow> 'w residency" where
  "new_manager cfg w =
     \<lparr>rm_config = cfg, rm_residents = [], rm_failed = (\<lambda>_. None), rm_attempts = (\<lambda>_. None),
      rm_uses = 0, rm_counter = 0, rm_world = w\<rparr>"

definition set_config :: "residency_config \<Rightarrow> 'w residency \<Rightarrow> 'w residency" where
  "set_config cfg m = m\<lparr>rm_config := cfg\<rparr>"

definition on_world :: "('w, 'e, 'a) io \<Rightarrow> ('w residency, 'e, 'a) io" where
  "on_world f m = (case f (rm_world m) of (r, w) \<Rightarrow> (r, m\<lparr>rm_world := w\<rparr>))"

definition residency_state_warm :: "residency_outcome \<Rightarrow> bool" where
  "residency_state_warm out = (case out of Warm _ _ \<Rightarrow> True | _ \<Rightarrow> False)"

definition outcome_server :: "residency_outcome \<Rightarrow> string option" where
  "outcome_server out = (case out of Warm s _ \<Rightarrow> Some s | Cold s _ \<Rightarrow> Some s | Not_Resident _ \<Rightarrow> None)"

definition resident_keys :: "'w residency \<Rightarrow> string list" where
  "resident_keys m = sort (map fst (rm_residents m))"

text \<open>The routing view: worker identity to server and address, later keys overwriting earlier ones.\<close>

definition directory :: "'w residency \<Rightarrow> string \<Rightarrow> (string \<times> string) option" where
  "directory m =
     fold (\<lambda>k d. case map_of (rm_residents m) k of
         None \<Rightarrow> d
       | Some r \<Rightarrow> d(ls_worker (rt_spec r) \<mapsto> (rt_server r, ls_base_url (rt_spec r)))) (resident_keys m) (\<lambda>_. None)"

definition failure_reason :: "'w residency \<Rightarrow> string \<Rightarrow> string option" where
  "failure_reason m key = rm_failed m key"

definition clear_failure :: "string \<Rightarrow> 'w residency \<Rightarrow> bool \<times> 'w residency" where
  "clear_failure key m =
     (rm_failed m key \<noteq> None,
      m\<lparr>rm_attempts := (rm_attempts m)(key := None), rm_failed := (rm_failed m)(key := None)\<rparr>)"

section \<open>Recording\<close>

definition event_text :: "residency_event \<Rightarrow> string" where
  "event_text e = (case e of Ev_Loaded \<Rightarrow> ''loaded'' | Ev_Stopped \<Rightarrow> ''stopped'' | Ev_Evicted \<Rightarrow> ''evicted''
     | Ev_Restarted \<Rightarrow> ''restarted'' | Ev_Failed \<Rightarrow> ''failed'' | Ev_Health_Failed \<Rightarrow> ''health-failed'')"

definition requires_reason :: "residency_event \<Rightarrow> bool" where
  "requires_reason e \<longleftrightarrow> e \<in> {Ev_Stopped, Ev_Evicted, Ev_Restarted, Ev_Failed, Ev_Health_Failed}"

definition record_row :: "'w residency_env \<Rightarrow> residency_event_row \<Rightarrow> ('w, familiar_error, unit) io" where
  "record_row env row =
     (if requires_reason (ve_event row)
         \<and> \<not> (case ve_reason row of Some reason \<Rightarrow> trim reason \<noteq> [] | None \<Rightarrow> False)
      then io_fail (Database_Error (''residency event '' @ quoted (event_text (ve_event row)) @ '' requires a named reason''))
      else if (ve_event row = Ev_Restarted) \<noteq> (ve_restart_attempt row \<noteq> None)
      then io_fail (Database_Error (''restart_attempt belongs to a '' @ quoted ''restarted'' @ '' event and to no other''))
      else re_insert env row)"

definition record_event ::
    "'w residency_env \<Rightarrow> launch_spec \<Rightarrow> string \<Rightarrow> residency_event \<Rightarrow> string option \<Rightarrow> nat option
     \<Rightarrow> ('w residency, familiar_error, unit) io" where
  "record_event env spec server ev reason restart =
     on_world (record_row env
       \<lparr>ve_key = ls_key spec, ve_worker = ls_worker spec, ve_artifact = ls_artifact spec,
        ve_runtime = ls_runtime spec, ve_server = server, ve_event = ev, ve_reason = reason,
        ve_restart_attempt = restart, ve_memory_mb = ls_memory_mb spec\<rparr>)"

text \<open>\<open>let _ = self.launcher.stop(..)\<close>\<close>

definition stop_server :: "'w residency_env \<Rightarrow> string \<Rightarrow> ('w residency, 'e, unit) io" where
  "stop_server env server = io_bind (io_attempt (on_world (re_stop env server))) (\<lambda>_. io_return ())"

definition next_server_identity :: "string \<Rightarrow> ('w residency, 'e, string) io" where
  "next_server_identity key m =
     (let n = Suc (rm_counter m) in (Inr (key @ ''#'' @ show_nat n), m\<lparr>rm_counter := n\<rparr>))"

definition launch_spec_of ::
    "string \<Rightarrow> resident_config \<Rightarrow> worker_registry option \<Rightarrow> string + launch_spec" where
  "launch_spec_of key entry registry =
     (case Option.bind registry (\<lambda>r. r (rc_worker entry)) of
        None \<Rightarrow> Inl (''worker-not-configured:'' @ rc_worker entry)
      | Some worker \<Rightarrow>
        (case wk_local worker of
           None \<Rightarrow> Inl (''worker-not-configured:'' @ rc_worker entry)
         | Some profile \<Rightarrow>
           (case wk_model_artifact worker of
              None \<Rightarrow> Inl (''artifact-not-registered:'' @ rc_worker entry)
            | Some artifact \<Rightarrow>
              if trim artifact = [] then Inl (''artifact-not-registered:'' @ rc_worker entry)
              else Inr \<lparr>ls_key = key, ls_worker = rc_worker entry, ls_artifact = artifact,
                ls_runtime = (case lp_runtime_kind profile of Ollama \<Rightarrow> ''ollama'' | Unsloth \<Rightarrow> ''unsloth''),
                ls_base_url = lp_base_url profile, ls_launch = rc_launch entry,
                ls_memory_mb = rc_memory_mb entry, ls_ready_timeout_secs = rc_ready_timeout_secs entry\<rparr>)))"

section \<open>Starting a server\<close>

text \<open>The loop of \<open>start\<close>: \<open>elapsed\<close> counts the milliseconds since the launch.\<close>

function await_ready ::
    "'w residency_env \<Rightarrow> launch_spec \<Rightarrow> string \<Rightarrow> nat \<Rightarrow> 'w \<Rightarrow> (string + unit) \<times> 'w" where
  "await_ready env spec server elapsed w =
     (case re_probe env server (ls_base_url spec) w of
        (Inr _, w1) \<Rightarrow> (Inr (), w1)
      | (Inl e, w1) \<Rightarrow>
        (case re_passed_ms env w1 of (d, w2) \<Rightarrow>
           if elapsed + d \<ge> 1000 * ls_ready_timeout_secs spec
           then (case re_stop env server w2 of (_, w3) \<Rightarrow> (Inl (''ready-timeout:'' @ e), w3))
           else await_ready env spec server (elapsed + d + 50) w2))"
  by pat_completeness auto
termination
  by (relation "measure (\<lambda>(env, spec, server, elapsed, w). 1000 * ls_ready_timeout_secs spec - elapsed)") auto

declare await_ready.simps [simp del]

definition start :: "'w residency_env \<Rightarrow> launch_spec \<Rightarrow> string \<Rightarrow> ('w residency, string, unit) io" where
  "start env spec server =
     io_then (io_map_err (\<lambda>e. ''launch-failed:'' @ e) (on_world (re_launch env spec server)))
    (io_then (on_world (await_ready env spec server 0))
    (io_map_err show_familiar_error (record_event env spec server Ev_Loaded None None)))"

section \<open>Making room\<close>

definition held_memory :: "'w residency \<Rightarrow> nat" where
  "held_memory m = sum_list (map (\<lambda>(_, r). case ls_memory_mb (rt_spec r) of Some n \<Rightarrow> n | None \<Rightarrow> 0) (rm_residents m))"

definition breached_ceiling :: "'w residency \<Rightarrow> launch_spec \<Rightarrow> residency_ceiling option" where
  "breached_ceiling m candidate =
     (if length (rm_residents m) + 1 > mc_max_residents (rm_config m) then Some Count_Ceiling
      else case mc_memory_ceiling_mb (rm_config m) of
        None \<Rightarrow> None
      | Some c \<Rightarrow>
        if held_memory m + (case ls_memory_mb candidate of Some n \<Rightarrow> n | None \<Rightarrow> 0) > c
        then Some Memory_Ceiling else None)"

definition least_recently_used :: "'w residency \<Rightarrow> string option" where
  "least_recently_used m =
     find (\<lambda>k. case map_of (rm_residents m) k of
         None \<Rightarrow> False
       | Some r \<Rightarrow> list_all (\<lambda>(_, r'). rt_last_used r \<le> rt_last_used r') (rm_residents m)) (resident_keys m)"

definition drop_resident :: "string \<Rightarrow> 'w residency \<Rightarrow> 'w residency" where
  "drop_resident key m = m\<lparr>rm_residents := AList.delete key (rm_residents m)\<rparr>"

definition evict :: "'w residency_env \<Rightarrow> string \<Rightarrow> string \<Rightarrow> ('w residency, familiar_error, unit) io" where
  "evict env key reason m =
     (case map_of (rm_residents m) key of
        None \<Rightarrow> (Inr (), m)
      | Some r \<Rightarrow>
        io_then (stop_server env (rt_server r))
          (record_event env (rt_spec r) (rt_server r) Ev_Evicted (Some reason) None) (drop_resident key m))"

definition stop_resident :: "'w residency_env \<Rightarrow> string \<Rightarrow> string \<Rightarrow> ('w residency, familiar_error, bool) io" where
  "stop_resident env key reason m =
     (case map_of (rm_residents m) key of
        None \<Rightarrow> (Inr False, m)
      | Some r \<Rightarrow>
        io_then (stop_server env (rt_server r))
       (io_then (record_event env (rt_spec r) (rt_server r) Ev_Stopped (Some reason) None)
        (io_return True)) (drop_resident key m))"

definition count_stopped :: "'w residency_env \<Rightarrow> string \<Rightarrow> string list \<Rightarrow> ('w residency, familiar_error, nat) io" where
  "count_stopped env reason keys =
     io_bind (io_traverse (\<lambda>k. stop_resident env k reason) keys) (\<lambda>bs. io_return (length (filter (\<lambda>b. b) bs)))"

definition stop_all :: "'w residency_env \<Rightarrow> string \<Rightarrow> ('w residency, familiar_error, nat) io" where
  "stop_all env reason = io_bind io_get (\<lambda>m. count_stopped env reason (resident_keys m))"

definition reconcile_residents :: "'w residency_env \<Rightarrow> ('w residency, familiar_error, nat) io" where
  "reconcile_residents env =
     io_bind io_get (\<lambda>m. count_stopped env ''disabled-by-configuration''
       (filter (\<lambda>k. \<not> is_active (rm_config m) k) (resident_keys m)))"

text \<open>What a statement does to the residents; the loop below terminates because an eviction removes one.\<close>

lemma rm_residents_on_world: "on_world f m = (r, m') \<Longrightarrow> rm_residents m' = rm_residents m"
  by (auto simp: on_world_def split: prod.splits)

lemma rm_residents_stop_server: "stop_server env server m = (r, m') \<Longrightarrow> rm_residents m' = rm_residents m"
  by (auto simp: stop_server_def io_bind_def io_attempt_def io_return_def
      dest: rm_residents_on_world split: prod.splits sum.splits)

lemma evict_shrinks:
  assumes "evict env key reason m = (Inr u, m')" and "key \<in> fst ` set (rm_residents m)"
  shows "length (rm_residents m') < length (rm_residents m)"
proof -
  obtain r where r: "map_of (rm_residents m) key = Some r" using assms(2) by (metis weak_map_of_SomeI imageE prod.collapse not_None_eq map_of_eq_None_iff)
  have "rm_residents m' = AList.delete key (rm_residents m)"
    using assms(1) r
    by (auto simp: evict_def io_then_def io_bind_def record_event_def drop_resident_def
        dest!: rm_residents_on_world rm_residents_stop_server split: prod.splits sum.splits)
  moreover have "length (AList.delete key al) < length al" if "key \<in> fst ` set al" for al :: "(string \<times> resident) list"
    using that by (auto simp: AList.delete_eq intro!: length_filter_less)
  ultimately show ?thesis using assms(2) by simp
qed

lemma least_recently_used_in: "least_recently_used m = Some k \<Longrightarrow> k \<in> fst ` set (rm_residents m)"
  by (auto simp: least_recently_used_def find_Some_iff resident_keys_def dest!: map_of_SomeD split: option.splits)
     (metis fst_conv image_eqI)

function make_room_loop ::
    "'w residency_env \<Rightarrow> launch_spec \<Rightarrow> 'w residency \<Rightarrow> (familiar_error + string option) \<times> 'w residency" where
  "make_room_loop env candidate m =
     (case breached_ceiling m candidate of
        None \<Rightarrow> (Inr None, m)
      | Some c \<Rightarrow>
        (case least_recently_used m of
           None \<Rightarrow> (Inr (Some (''resident-exceeds-memory-ceiling:'' @ ceiling_text c)), m)
         | Some victim \<Rightarrow>
           (case evict env victim (ceiling_text c) m of
              (Inl e, m') \<Rightarrow> (Inl e, m')
            | (Inr _, m') \<Rightarrow> make_room_loop env candidate m')))"
  by pat_completeness auto
termination
  by (relation "measure (\<lambda>(env, candidate, m). length (rm_residents m))")
     (auto intro: evict_shrinks least_recently_used_in)

declare make_room_loop.simps [simp del]

definition make_room_for ::
    "'w residency_env \<Rightarrow> launch_spec \<Rightarrow> ('w residency, familiar_error, string option) io" where
  "make_room_for env candidate m =
     (case (mc_memory_ceiling_mb (rm_config m), ls_memory_mb candidate) of
        (Some c, Some memory) \<Rightarrow>
          if memory > c
          then (Inr (Some (''resident-exceeds-memory-ceiling:'' @ show_nat memory @ ''mb>'' @ show_nat c @ ''mb'')), m)
          else make_room_loop env candidate m
      | _ \<Rightarrow> make_room_loop env candidate m)"

section \<open>Routing one execution\<close>

definition attempts_of :: "'w residency \<Rightarrow> string \<Rightarrow> nat" where
  "attempts_of m key = (case rm_attempts m key of Some n \<Rightarrow> n | None \<Rightarrow> 0)"

definition hold :: "string \<Rightarrow> launch_spec \<Rightarrow> string \<Rightarrow> 'w residency \<Rightarrow> 'w residency" where
  "hold key spec server m =
     m\<lparr>rm_uses := Suc (rm_uses m), rm_attempts := (rm_attempts m)(key := None),
       rm_residents := AList.update key \<lparr>rt_spec = spec, rt_server = server, rt_last_used = Suc (rm_uses m)\<rparr>
         (rm_residents m)\<rparr>"

definition mark_failed :: "string \<Rightarrow> string \<Rightarrow> 'w residency \<Rightarrow> 'w residency" where
  "mark_failed key reason m = m\<lparr>rm_failed := (rm_failed m)(key \<mapsto> reason)\<rparr>"

definition load_failed ::
    "'w residency_env \<Rightarrow> string \<Rightarrow> launch_spec \<Rightarrow> string \<Rightarrow> string
     \<Rightarrow> ('w residency, familiar_error, residency_outcome) io" where
  "load_failed env key spec server reason m =
     (let n = Suc (attempts_of m key); exhausted = n > mc_max_restarts (rm_config m) in
      io_then (record_event env spec server Ev_Health_Failed (Some reason) None)
     (io_then (io_when exhausted
        (io_then (record_event env spec server Ev_Failed (Some ''health-restart-exhausted'') None)
          (io_modify (mark_failed key (''health-restart-exhausted:'' @ reason)))))
      (io_return (Not_Resident reason))) (m\<lparr>rm_attempts := (rm_attempts m)(key \<mapsto> n)\<rparr>))"

definition load_resident ::
    "'w residency_env \<Rightarrow> string \<Rightarrow> launch_spec \<Rightarrow> ('w residency, familiar_error, residency_outcome) io" where
  "load_resident env key spec =
     io_bind (next_server_identity key) (\<lambda>server.
     io_bind (io_attempt (start env spec server)) (\<lambda>r.
     case r of
       Inr _ \<Rightarrow> io_then (io_modify (hold key spec server)) (io_return (Cold server (ls_base_url spec)))
     | Inl reason \<Rightarrow> load_failed env key spec server reason))"

definition admit_resident ::
    "'w residency_env \<Rightarrow> string \<Rightarrow> launch_spec \<Rightarrow> ('w residency, familiar_error, residency_outcome) io" where
  "admit_resident env key spec =
     io_bind (on_world (re_registered env (ls_artifact spec))) (\<lambda>known.
     if \<not> known then io_return (Not_Resident (''artifact-not-registered:'' @ ls_artifact spec))
     else io_bind (make_room_for env spec) (\<lambda>refusal.
       case refusal of
         Some reason \<Rightarrow> io_return (Not_Resident reason)
       | None \<Rightarrow> load_resident env key spec))"

definition ensure_resident ::
    "'w residency_env \<Rightarrow> worker_registry option \<Rightarrow> string \<Rightarrow> ('w residency, familiar_error, residency_outcome) io" where
  "ensure_resident env registry key m =
     (if \<not> mc_enabled (rm_config m) then (Inr (Not_Resident ''residency-disabled''), m)
      else case mc_residents (rm_config m) key of
        None \<Rightarrow> (Inr (Not_Resident (''resident-not-configured:'' @ key)), m)
      | Some entry \<Rightarrow>
        if \<not> rc_enabled entry then (Inr (Not_Resident ''residency-disabled''), m)
        else case rm_failed m key of
          Some reason \<Rightarrow> (Inr (Not_Resident reason), m)
        | None \<Rightarrow>
          (case map_of (rm_residents m) key of
             Some r \<Rightarrow>
               (Inr (Warm (rt_server r) (ls_base_url (rt_spec r))),
                m\<lparr>rm_uses := Suc (rm_uses m),
                  rm_residents := AList.update key (r\<lparr>rt_last_used := Suc (rm_uses m)\<rparr>) (rm_residents m)\<rparr>)
           | None \<Rightarrow>
             (case launch_spec_of key entry registry of
                Inl reason \<Rightarrow> (Inr (Not_Resident reason), m)
              | Inr spec \<Rightarrow> admit_resident env key spec m)))"

section \<open>Health\<close>

definition give_up ::
    "'w residency_env \<Rightarrow> string \<Rightarrow> launch_spec \<Rightarrow> string \<Rightarrow> ('w residency, familiar_error, unit) io" where
  "give_up env key spec server =
     io_then (io_modify (drop_resident key))
    (io_then (record_event env spec server Ev_Failed (Some ''health-restart-exhausted'') None)
    (io_modify (mark_failed key (''health-restart-exhausted:'' @ key))))"

definition replaced :: "string \<Rightarrow> string \<Rightarrow> 'w residency \<Rightarrow> 'w residency" where
  "replaced key server m =
     m\<lparr>rm_uses := Suc (rm_uses m),
       rm_residents := (case map_of (rm_residents m) key of
           None \<Rightarrow> rm_residents m
         | Some r \<Rightarrow> AList.update key (r\<lparr>rt_server := server, rt_last_used := Suc (rm_uses m)\<rparr>) (rm_residents m))\<rparr>"

definition restart ::
    "'w residency_env \<Rightarrow> string \<Rightarrow> launch_spec \<Rightarrow> string \<Rightarrow> nat \<Rightarrow> ('w residency, familiar_error, unit) io" where
  "restart env key spec server attempt =
     io_then (io_modify (\<lambda>m. m\<lparr>rm_attempts := (rm_attempts m)(key \<mapsto> attempt)\<rparr>))
    (io_then (stop_server env server)
    (io_bind (next_server_identity key) (\<lambda>replacement.
     io_bind (io_attempt (start env spec replacement)) (\<lambda>r.
     case r of
       Inr _ \<Rightarrow>
         io_then (io_modify (replaced key replacement))
           (record_event env spec replacement Ev_Restarted (Some ''health-probe-failed'') (Some attempt))
     | Inl e \<Rightarrow>
         io_then (record_event env spec replacement Ev_Health_Failed (Some (''restart-launch-failed:'' @ e)) None)
        (io_bind io_get (\<lambda>m. io_when (attempt \<ge> mc_max_restarts (rm_config m)) (give_up env key spec replacement)))))))"

definition restart_or_fail ::
    "'w residency_env \<Rightarrow> string \<Rightarrow> launch_spec \<Rightarrow> string \<Rightarrow> ('w residency, familiar_error, unit) io" where
  "restart_or_fail env key spec server m =
     (let attempts = attempts_of m key in
      if attempts \<ge> mc_max_restarts (rm_config m)
      then io_then (stop_server env server) (give_up env key spec server) m
      else restart env key spec server (Suc attempts) m)"

definition check_health :: "'w residency_env \<Rightarrow> string \<Rightarrow> ('w residency, familiar_error, unit) io" where
  "check_health env key m =
     (case map_of (rm_residents m) key of
        None \<Rightarrow> (Inr (), m)
      | Some r \<Rightarrow>
        io_bind (io_attempt (on_world (re_probe env (rt_server r) (ls_base_url (rt_spec r))))) (\<lambda>probe.
        case probe of
          Inr _ \<Rightarrow> io_return ()
        | Inl e \<Rightarrow>
          io_then (record_event env (rt_spec r) (rt_server r) Ev_Health_Failed
              (Some (''health-probe-failed:'' @ e)) None)
            (restart_or_fail env key (rt_spec r) (rt_server r))) m)"

definition health_tick :: "'w residency_env \<Rightarrow> ('w residency, familiar_error, unit) io" where
  "health_tick env =
     io_bind (reconcile_residents env) (\<lambda>_. io_bind io_get (\<lambda>m. io_each (check_health env) (resident_keys m)))"

end
