(* ===== verification/Residency_Safety.thy ===== *)
theory Residency_Safety
  imports Model_Residency
begin

text \<open>
  What the residency manager guarantees for every launcher, registry and database: the ceilings hold when
  a model is loaded, a failed resident is never held, a loaded model is reused without another load, and a
  resident whose server stopped answering leaves within the restart budget.
\<close>

section \<open>Steps that change only the world\<close>

lemma on_world_wp [io_rules]:
  "(\<And>a w. Q a (m\<lparr>rm_world := w\<rparr>)) \<Longrightarrow> (\<And>e w. E e (m\<lparr>rm_world := w\<rparr>)) \<Longrightarrow> io_wp (on_world f) Q E m"
  by (simp add: io_wp_def on_world_def split: prod.splits sum.splits)

lemma record_event_wp [io_rules]:
  "(\<And>w. Q () (m\<lparr>rm_world := w\<rparr>)) \<Longrightarrow> (\<And>e w. E e (m\<lparr>rm_world := w\<rparr>))
     \<Longrightarrow> io_wp (record_event env spec server ev reason again) Q E m"
  unfolding record_event_def by (intro io_rules) simp_all

lemma stop_server_wp [io_rules]: "(\<And>w. Q () (m\<lparr>rm_world := w\<rparr>)) \<Longrightarrow> io_wp (stop_server env server) Q E m"
  unfolding stop_server_def by (intro io_rules)

lemma start_wp [io_rules]:
  "(\<And>w. Q () (m\<lparr>rm_world := w\<rparr>)) \<Longrightarrow> (\<And>e w. E e (m\<lparr>rm_world := w\<rparr>)) \<Longrightarrow> io_wp (start env spec server) Q E m"
  unfolding start_def by (intro io_rules) simp_all

lemma next_server_identity_wp [io_rules]:
  "(\<And>server. Q server (m\<lparr>rm_counter := Suc (rm_counter m)\<rparr>)) \<Longrightarrow> io_wp (next_server_identity key) Q E m"
  by (simp add: io_wp_def next_server_identity_def Let_def)

section \<open>The invariant\<close>

definition residency_ok :: "'w residency \<Rightarrow> bool" where
  "residency_ok m \<longleftrightarrow>
     distinct (map fst (rm_residents m))
     \<and> (\<forall>(k, r)\<in>set (rm_residents m). rm_failed m k = None \<and> rt_last_used r \<le> rm_uses m)
     \<and> distinct (map (rt_last_used \<circ> snd) (rm_residents m))"

lemma residency_ok_frames [simp]:
  "residency_ok (m\<lparr>rm_world := w\<rparr>) = residency_ok m"
  "residency_ok (m\<lparr>rm_attempts := a\<rparr>) = residency_ok m"
  "residency_ok (m\<lparr>rm_counter := n\<rparr>) = residency_ok m"
  "residency_ok (m\<lparr>rm_config := c\<rparr>) = residency_ok m"
  by (simp_all add: residency_ok_def)

lemma residency_ok_drop: "residency_ok m \<Longrightarrow> residency_ok (drop_resident key m)"
  by (auto simp: residency_ok_def drop_resident_def AList.delete_eq intro: distinct_map_filter)

lemma drop_resident_frames [simp]:
  "rm_config (drop_resident key m) = rm_config m" "rm_failed (drop_resident key m) = rm_failed m"
  "rm_attempts (drop_resident key m) = rm_attempts m" "rm_uses (drop_resident key m) = rm_uses m"
  "rm_residents (drop_resident key m) = AList.delete key (rm_residents m)"
  by (simp_all add: drop_resident_def)

lemma set_update_distinct:
  "distinct (map fst al) \<Longrightarrow> set (AList.update k v al) = insert (k, v) {p \<in> set al. fst p \<noteq> k}"
  by (induction al) (auto simp: image_iff)

lemma residency_ok_touch:
  assumes ok: "residency_ok m" and n: "n = Suc (rm_uses m)" and f: "rm_failed m key = None" and r: "rt_last_used r = n"
  shows "residency_ok (m\<lparr>rm_uses := n, rm_residents := AList.update key r (rm_residents m)\<rparr>)"
proof -
  have d: "distinct (map fst (rm_residents m))" using ok by (simp add: residency_ok_def)
  have "distinct (map (rt_last_used \<circ> snd) (AList.update key r al))"
    if "distinct (map fst al)" "distinct (map (rt_last_used \<circ> snd) al)" "\<forall>p\<in>set al. rt_last_used (snd p) < n" for al
    using that
  proof (induction al)
    case (Cons p al)
    obtain k v where p: "p = (k, v)" by (cases p)
    show ?case
    proof (cases "k = key")
      case True with Cons.prems r show ?thesis by (auto simp: p)
    next
      case False
      with Cons r show ?thesis by (auto simp: p set_update_distinct image_iff)
    qed
  qed simp
  then show ?thesis
    using ok f n r d by (fastforce simp: residency_ok_def set_update_distinct le_Suc_eq less_Suc_eq_le distinct_update)
qed

text \<open>A state reached from another by giving up residents only.\<close>

definition shrunk :: "'w residency \<Rightarrow> 'w residency \<Rightarrow> bool" where
  "shrunk m m' \<longleftrightarrow>
     residency_ok m' \<and> rm_config m' = rm_config m \<and> rm_failed m' = rm_failed m
     \<and> set (rm_residents m') \<subseteq> set (rm_residents m)"

lemma shrunk_refl: "residency_ok m \<Longrightarrow> shrunk m m"
  by (simp add: shrunk_def)

lemma shrunk_trans: "shrunk m m' \<Longrightarrow> shrunk m' m'' \<Longrightarrow> shrunk m m''"
  by (auto simp: shrunk_def)

lemma shrunk_drop: "residency_ok m \<Longrightarrow> shrunk m (drop_resident key m)"
  by (auto simp: shrunk_def residency_ok_drop AList.delete_eq)

lemma shrunk_world [simp]: "shrunk m (m'\<lparr>rm_world := w\<rparr>) = shrunk m m'"
  by (simp add: shrunk_def)

lemma evict_wp: "residency_ok m \<Longrightarrow> io_wp (evict env key reason) (\<lambda>_. shrunk m) (\<lambda>_. shrunk m) m"
proof -
  assume ok: "residency_ok m"
  show ?thesis
  proof (cases "map_of (rm_residents m) key")
    case None with ok show ?thesis by (simp add: io_wp_def evict_def shrunk_refl)
  next
    case (Some r)
    have "io_wp (io_then (stop_server env (rt_server r))
        (record_event env (rt_spec r) (rt_server r) Ev_Evicted (Some reason) None))
        (\<lambda>_. shrunk m) (\<lambda>_. shrunk m) (drop_resident key m)"
      by (intro io_rules) (simp_all add: shrunk_drop [OF ok])
    with Some show ?thesis by (simp add: io_wp_def evict_def)
  qed
qed

lemma stop_resident_wp:
  "residency_ok m \<Longrightarrow> io_wp (stop_resident env key reason)
     (\<lambda>_ m'. shrunk m m' \<and> key \<notin> fst ` set (rm_residents m')) (\<lambda>_. shrunk m) m"
proof -
  assume ok: "residency_ok m"
  show ?thesis
  proof (cases "map_of (rm_residents m) key")
    case None
    then have "key \<notin> fst ` set (rm_residents m)" by (simp add: map_of_eq_None_iff)
    with None ok show ?thesis by (simp add: io_wp_def stop_resident_def shrunk_refl)
  next
    case (Some r)
    have "io_wp (io_then (stop_server env (rt_server r))
       (io_then (record_event env (rt_spec r) (rt_server r) Ev_Stopped (Some reason) None) (io_return True)))
        (\<lambda>_ m'. shrunk m m' \<and> key \<notin> fst ` set (rm_residents m')) (\<lambda>_. shrunk m) (drop_resident key m)"
      by (intro io_rules) (auto simp: shrunk_drop [OF ok] AList.delete_eq)
    with Some show ?thesis by (simp add: io_wp_def stop_resident_def)
  qed
qed

lemma stop_residents_wp:
  "residency_ok m \<Longrightarrow> io_wp (io_traverse (\<lambda>k. stop_resident env k reason) keys)
     (\<lambda>_ m'. shrunk m m' \<and> fst ` set (rm_residents m') \<inter> set keys = {}) (\<lambda>_. shrunk m) m"
proof (induction keys arbitrary: m)
  case Nil then show ?case by (simp add: io_wp_def io_lift_def shrunk_refl)
next
  case (Cons k keys)
  have step: "io_wp (io_traverse (\<lambda>k. stop_resident env k reason) keys)
      (\<lambda>_ m''. shrunk m m'' \<and> fst ` set (rm_residents m'') \<inter> set (k # keys) = {}) (\<lambda>_. shrunk m) m'"
    if "shrunk m m' \<and> k \<notin> fst ` set (rm_residents m')" for m'
  proof -
    have "residency_ok m'" using that by (simp add: shrunk_def)
    from Cons.IH [OF this] show ?thesis by (rule io_wp_mono) (use that in \<open>auto simp: shrunk_def\<close>)
  qed
  have "io_wp (io_traverse (\<lambda>k. stop_resident env k reason) (k # keys))
      (\<lambda>_ m''. shrunk m m'' \<and> fst ` set (rm_residents m'') \<inter> set (k # keys) = {}) (\<lambda>_. shrunk m) m"
    unfolding io_traverse.simps io_return_def [symmetric]
    by (intro io_rules, rule io_wp_mono [OF stop_resident_wp [OF Cons.prems]], intro io_rules,
        erule io_wp_mono [OF step]) (auto intro: io_rules)
  then show ?case .
qed

lemma count_stopped_wp:
  "residency_ok m \<Longrightarrow> io_wp (count_stopped env reason keys)
     (\<lambda>_ m'. shrunk m m' \<and> fst ` set (rm_residents m') \<inter> set keys = {}) (\<lambda>_. shrunk m) m"
  unfolding count_stopped_def by (intro io_rules, rule io_wp_mono [OF stop_residents_wp]) (auto intro: io_rules)

lemma make_room_loop_wp:
  "residency_ok m \<Longrightarrow> io_wp (make_room_loop env candidate)
     (\<lambda>r m'. shrunk m m' \<and> (r = None \<longrightarrow> breached_ceiling m' candidate = None)) (\<lambda>_. shrunk m) m"
proof (induction env candidate m rule: make_room_loop.induct)
  case (1 env candidate m)
  show ?case
  proof (cases "breached_ceiling m candidate")
    case None with "1.prems" show ?thesis by (simp add: io_wp_def make_room_loop.simps shrunk_refl)
  next
    case (Some c)
    note breached = Some
    show ?thesis
    proof (cases "least_recently_used m")
      case None with breached "1.prems" show ?thesis by (simp add: io_wp_def make_room_loop.simps shrunk_refl)
    next
      case (Some victim)
      obtain res m' where ev: "evict env victim (ceiling_text c) m = (res, m')" by (cases "evict env victim (ceiling_text c) m")
      have sh: "shrunk m m'"
        using evict_wp [OF "1.prems", of env victim "ceiling_text c"] ev by (cases res) (auto simp: io_wp_def)
      show ?thesis
      proof (cases res)
        case (Inl e) with ev breached Some sh show ?thesis by (simp add: io_wp_def make_room_loop.simps)
      next
        case (Inr u)
        have "io_wp (make_room_loop env candidate)
            (\<lambda>r m''. shrunk m' m'' \<and> (r = None \<longrightarrow> breached_ceiling m'' candidate = None)) (\<lambda>_. shrunk m') m'"
          by (rule "1.IH" [OF breached Some ev [symmetric] Inr]) (use sh in \<open>simp add: shrunk_def\<close>)
        then have "io_wp (make_room_loop env candidate)
            (\<lambda>r m''. shrunk m m'' \<and> (r = None \<longrightarrow> breached_ceiling m'' candidate = None)) (\<lambda>_. shrunk m) m'"
          by (rule io_wp_mono) (auto intro: shrunk_trans [OF sh])
        with ev breached Some Inr show ?thesis by (simp add: io_wp_def make_room_loop.simps)
      qed
    qed
  qed
qed

lemma make_room_for_wp:
  "residency_ok m \<Longrightarrow> io_wp (make_room_for env candidate)
     (\<lambda>r m'. shrunk m m' \<and> (r = None \<longrightarrow> breached_ceiling m' candidate = None)) (\<lambda>_. shrunk m) m"
  using make_room_loop_wp [of m env candidate]
  by (auto simp: io_wp_def make_room_for_def shrunk_refl split: option.splits)

section \<open>Loading\<close>

definition within_ceilings :: "'w residency \<Rightarrow> bool" where
  "within_ceilings m \<longleftrightarrow>
     length (rm_residents m) \<le> mc_max_residents (rm_config m)
     \<and> (case mc_memory_ceiling_mb (rm_config m) of None \<Rightarrow> True | Some c \<Rightarrow> held_memory m \<le> c)"

definition serves :: "'w residency \<Rightarrow> string \<Rightarrow> string \<Rightarrow> string \<Rightarrow> bool" where
  "serves m key server url \<longleftrightarrow>
     (\<exists>r. map_of (rm_residents m) key = Some r \<and> rt_server r = server \<and> ls_base_url (rt_spec r) = url)"

lemma residency_frames [simp]:
  "within_ceilings (m\<lparr>rm_world := w\<rparr>) = within_ceilings m" "serves (m\<lparr>rm_world := w\<rparr>) = serves m"
  "held_memory (m\<lparr>rm_world := w\<rparr>) = held_memory m" "held_memory (m\<lparr>rm_counter := n\<rparr>) = held_memory m"
  by (simp_all add: within_ceilings_def held_memory_def serves_def fun_eq_iff split: option.split)

lemma update_new: "key \<notin> fst ` set al \<Longrightarrow> AList.update key v al = al @ [(key, v)]"
  by (induction al) auto

lemma residency_ok_hold:
  "residency_ok m \<Longrightarrow> rm_failed m key = None \<Longrightarrow> residency_ok (hold key spec server m)"
proof -
  assume ok: "residency_ok m" and f: "rm_failed m key = None"
  have "hold key spec server m = m\<lparr>rm_uses := Suc (rm_uses m),
       rm_residents := AList.update key \<lparr>rt_spec = spec, rt_server = server, rt_last_used = Suc (rm_uses m)\<rparr>
         (rm_residents m)\<rparr>\<lparr>rm_attempts := (rm_attempts m)(key := None)\<rparr>"
    by (simp add: hold_def)
  then show ?thesis using residency_ok_touch [OF ok refl f] by (metis residency_ok_frames(2) resident.select_convs(3))
qed

lemma within_ceilings_hold:
  assumes "breached_ceiling m spec = None" "key \<notin> fst ` set (rm_residents m)"
  shows "within_ceilings (hold key spec server m)"
  using assms
  by (auto simp: within_ceilings_def breached_ceiling_def held_memory_def hold_def update_new
      split: if_splits option.splits)

lemma residency_ok_mark_failed:
  "residency_ok m \<Longrightarrow> key \<notin> fst ` set (rm_residents m) \<Longrightarrow> residency_ok (mark_failed key reason m)"
  by (force simp: residency_ok_def mark_failed_def)

lemma load_failed_wp:
  assumes "residency_ok m" "key \<notin> fst ` set (rm_residents m)"
  shows "io_wp (load_failed env key spec server reason)
    (\<lambda>out m'. residency_ok m' \<and> (\<exists>t. out = Not_Resident t)) (\<lambda>_. residency_ok) m"
proof -
  let ?n = "Suc (attempts_of m key)"
  have "io_wp (io_then (record_event env spec server Ev_Health_Failed (Some reason) None)
     (io_then (io_when (?n > mc_max_restarts (rm_config m))
        (io_then (record_event env spec server Ev_Failed (Some ''health-restart-exhausted'') None)
          (io_modify (mark_failed key (''health-restart-exhausted:'' @ reason)))))
      (io_return (Not_Resident reason))))
    (\<lambda>out m'. residency_ok m' \<and> (\<exists>t. out = Not_Resident t)) (\<lambda>_. residency_ok)
    (m\<lparr>rm_attempts := (rm_attempts m)(key \<mapsto> ?n)\<rparr>)"
    by (intro io_rules) (use assms in \<open>auto intro!: residency_ok_mark_failed\<close>)
  then show ?thesis by (simp add: io_wp_def load_failed_def Let_def)
qed

lemma load_resident_wp:
  assumes "residency_ok m" "key \<notin> fst ` set (rm_residents m)" "rm_failed m key = None"
    "breached_ceiling m spec = None"
  shows "io_wp (load_resident env key spec)
    (\<lambda>out m'. residency_ok m' \<and> (\<forall>server url. out = Cold server url \<longrightarrow>
        within_ceilings m' \<and> serves m' key server url \<and> rm_config m' = rm_config m \<and> rm_failed m' = rm_failed m)
      \<and> (\<forall>server url. out \<noteq> Warm server url)) (\<lambda>_. residency_ok) m"
  unfolding load_resident_def
proof (intro io_rules)
  fix server e w
  let ?m = "m\<lparr>rm_counter := Suc (rm_counter m)\<rparr>\<lparr>rm_world := w\<rparr>"
  show "io_wp (load_failed env key spec server e) (\<lambda>out m'. residency_ok m' \<and> (\<forall>server url. out = Cold server url \<longrightarrow>
        within_ceilings m' \<and> serves m' key server url \<and> rm_config m' = rm_config m \<and> rm_failed m' = rm_failed m)
      \<and> (\<forall>server url. out \<noteq> Warm server url)) (\<lambda>_. residency_ok) ?m" if "Inl e' = Inl e" for e'
    using that by (intro io_wp_mono [OF load_failed_wp]) (use assms in auto)
next
  fix server w
  let ?m = "m\<lparr>rm_counter := Suc (rm_counter m)\<rparr>\<lparr>rm_world := w\<rparr>"
  have "breached_ceiling ?m spec = None" using assms(4)
    by (simp add: breached_ceiling_def split: option.splits if_splits)
  then show "residency_ok (hold key spec server ?m) \<and>
    (\<forall>server' url. Cold server (ls_base_url spec) = Cold server' url \<longrightarrow>
        within_ceilings (hold key spec server ?m) \<and> serves (hold key spec server ?m) key server' url \<and>
        rm_config (hold key spec server ?m) = rm_config m \<and> rm_failed (hold key spec server ?m) = rm_failed m)
      \<and> (\<forall>server' url. Cold server (ls_base_url spec) \<noteq> Warm server' url)"
    using assms by (auto intro!: residency_ok_hold within_ceilings_hold simp: serves_def)
      (simp_all add: hold_def AList.update_conv)
qed (use assms in auto)

lemma ensure_resident_wp:
  assumes ok: "residency_ok m"
  shows "io_wp (ensure_resident env registry key)
    (\<lambda>out m'. residency_ok m' \<and> (\<forall>server url. out = Cold server url \<longrightarrow>
        within_ceilings m' \<and> serves m' key server url \<and> rm_config m' = rm_config m \<and> rm_failed m' = rm_failed m
        \<and> is_active (rm_config m) key \<and> rm_failed m key = None)) (\<lambda>_. residency_ok) m"
    (is "io_wp _ ?Q _ _")
proof -
  consider
      (stay) t where "ensure_resident env registry key m = (Inr (Not_Resident t), m)"
    | (warm) r where "rm_failed m key = None" "ensure_resident env registry key m =
        (Inr (Warm (rt_server r) (ls_base_url (rt_spec r))),
          m\<lparr>rm_uses := Suc (rm_uses m),
            rm_residents := AList.update key (r\<lparr>rt_last_used := Suc (rm_uses m)\<rparr>) (rm_residents m)\<rparr>)"
    | (load) spec where "is_active (rm_config m) key" "rm_failed m key = None" "map_of (rm_residents m) key = None"
        "ensure_resident env registry key m = admit_resident env key spec m"
  proof (cases "is_active (rm_config m) key \<and> rm_failed m key = None")
    case False
    then have "\<exists>t. ensure_resident env registry key m = (Inr (Not_Resident t), m)"
      by (cases "mc_residents (rm_config m) key") (auto simp: ensure_resident_def is_active_def)
    then show thesis using stay by blast
  next
    case True
    then obtain entry where entry: "mc_enabled (rm_config m)" "mc_residents (rm_config m) key = Some entry"
        "rc_enabled entry" "rm_failed m key = None"
      by (auto simp: is_active_def split: option.splits)
    show thesis
    proof (cases "map_of (rm_residents m) key")
      case (Some r) with entry show thesis by (intro warm [of r]) (simp_all add: ensure_resident_def)
    next
      case None
      show thesis
      proof (cases "launch_spec_of key entry registry")
        case (Inl t) with None entry show thesis by (intro stay [of t]) (simp add: ensure_resident_def)
      next
        case (Inr spec) with None entry True show thesis by (intro load [of spec]) (simp_all add: ensure_resident_def)
      qed
    qed
  qed
  then show ?thesis
  proof cases
    case stay with ok show ?thesis by (simp add: io_wp_def)
  next
    case warm then show ?thesis by (simp add: io_wp_def residency_ok_touch [OF ok refl])
  next
    case load
    have "io_wp (admit_resident env key spec) ?Q (\<lambda>_. residency_ok) m"
      unfolding admit_resident_def
    proof (intro io_rules)
      fix known w
      let ?m = "m\<lparr>rm_world := w\<rparr>"
      have "residency_ok ?m" using ok by simp
      then show "io_wp (make_room_for env spec) (\<lambda>a. io_wp (case a of None \<Rightarrow> load_resident env key spec
          | Some reason \<Rightarrow> io_return (Not_Resident reason)) ?Q (\<lambda>_. residency_ok)) (\<lambda>_. residency_ok) ?m"
      proof (rule io_wp_mono [OF make_room_for_wp])
        fix refusal :: "string option" and m'
        assume m': "shrunk ?m m' \<and> (refusal = None \<longrightarrow> breached_ceiling m' spec = None)"
        show "io_wp (case refusal of None \<Rightarrow> load_resident env key spec
            | Some reason \<Rightarrow> io_return (Not_Resident reason)) ?Q (\<lambda>_. residency_ok) m'"
        proof (cases refusal)
          case (Some t) with m' show ?thesis by (auto simp: shrunk_def io_wp_simps)
        next
          case None
          have "key \<notin> fst ` set (rm_residents m')"
            using m' load(3) by (auto simp: shrunk_def map_of_eq_None_iff)
          with None m' load show ?thesis
            by (auto simp: shrunk_def intro!: io_wp_mono [OF load_resident_wp])
        qed
      qed (simp add: shrunk_def)
    qed (use ok in auto)
    with load(4) show ?thesis by (simp add: io_wp_def)
  qed
qed

section \<open>Health\<close>

lemma residency_ok_replaced:
  "residency_ok m \<Longrightarrow> residency_ok (replaced key server m)"
proof (cases "map_of (rm_residents m) key")
  case None
  then show "residency_ok m \<Longrightarrow> residency_ok (replaced key server m)"
    by (auto simp: replaced_def residency_ok_def intro: le_SucI)
next
  case (Some r)
  assume ok: "residency_ok m"
  then have "rm_failed m key = None" using map_of_SomeD [OF Some] by (auto simp: residency_ok_def)
  with Some show ?thesis using residency_ok_touch [OF ok refl] by (simp add: replaced_def)
qed

lemma give_up_wp:
  "residency_ok m \<Longrightarrow> io_wp (give_up env key spec server) (\<lambda>_. residency_ok) (\<lambda>_. residency_ok) m"
  unfolding give_up_def
  by (intro io_rules residency_ok_mark_failed) (auto simp: residency_ok_drop AList.delete_eq)

lemma restart_wp:
  "residency_ok m \<Longrightarrow> io_wp (restart env key spec server n) (\<lambda>_. residency_ok) (\<lambda>_. residency_ok) m"
  unfolding restart_def by (intro io_rules give_up_wp) (auto simp: residency_ok_replaced)

lemma check_health_wp:
  "residency_ok m \<Longrightarrow> io_wp (check_health env key) (\<lambda>_. residency_ok) (\<lambda>_. residency_ok) m"
proof (cases "map_of (rm_residents m) key")
  case None then show "residency_ok m \<Longrightarrow> ?thesis" by (simp add: io_wp_def check_health_def)
next
  case (Some r)
  assume ok: "residency_ok m"
  have fail: "io_wp (restart_or_fail env key (rt_spec r) (rt_server r)) (\<lambda>_. residency_ok) (\<lambda>_. residency_ok) m'"
    if "residency_ok m'" for m'
  proof (cases "attempts_of m' key \<ge> mc_max_restarts (rm_config m')")
    case True
    have "io_wp (io_then (stop_server env (rt_server r)) (give_up env key (rt_spec r) (rt_server r)))
        (\<lambda>_. residency_ok) (\<lambda>_. residency_ok) m'"
      by (intro io_rules give_up_wp) (use that in simp)
    with True show ?thesis by (simp add: io_wp_def restart_or_fail_def)
  next
    case False with restart_wp [OF that] show ?thesis by (simp add: io_wp_def restart_or_fail_def Let_def)
  qed
  have "io_wp (io_bind (io_attempt (on_world (re_probe env (rt_server r) (ls_base_url (rt_spec r))))) (\<lambda>probe.
        case probe of
          Inr _ \<Rightarrow> io_return ()
        | Inl e \<Rightarrow>
          io_then (record_event env (rt_spec r) (rt_server r) Ev_Health_Failed
              (Some (''health-probe-failed:'' @ e)) None)
            (restart_or_fail env key (rt_spec r) (rt_server r)))) (\<lambda>_. residency_ok) (\<lambda>_. residency_ok) m"
    by (intro io_rules fail) (use ok in auto)
  then show ?thesis unfolding io_wp_def check_health_def Some option.case .
qed

lemma health_tick_wp:
  "residency_ok m \<Longrightarrow> io_wp (health_tick env) (\<lambda>_. residency_ok) (\<lambda>_. residency_ok) m"
  unfolding health_tick_def reconcile_residents_def
  by (intro io_rules, rule io_wp_mono [OF count_stopped_wp])
     (auto simp: shrunk_def intro!: io_rules io_wp_each check_health_wp)

section \<open>Reachable managers\<close>

inductive residency_step :: "'w residency_env \<Rightarrow> 'w residency \<Rightarrow> 'w residency \<Rightarrow> bool" for env where
  step_ensure: "ensure_resident env registry key m = (out, m') \<Longrightarrow> residency_step env m m'"
| step_tick: "health_tick env m = (res, m') \<Longrightarrow> residency_step env m m'"
| step_stop: "stop_resident env key reason m = (b, m') \<Longrightarrow> residency_step env m m'"
| step_stop_all: "stop_all env reason m = (n, m') \<Longrightarrow> residency_step env m m'"
| step_reconcile: "reconcile_residents env m = (n, m') \<Longrightarrow> residency_step env m m'"
| step_clear: "clear_failure key m = (b, m') \<Longrightarrow> residency_step env m m'"
| step_config: "residency_step env m (set_config cfg m)"

inductive residency_reachable :: "'w residency_env \<Rightarrow> 'w residency \<Rightarrow> bool" for env where
  fresh: "residency_reachable env (new_manager cfg w)"
| next_step: "residency_reachable env m \<Longrightarrow> residency_step env m m' \<Longrightarrow> residency_reachable env m'"

lemma io_wp_invariant: "io_wp p (\<lambda>_. I) (\<lambda>_. I) m \<Longrightarrow> p m = (r, m') \<Longrightarrow> I m'"
  by (cases r) (auto simp: io_wp_def)

lemma stop_resident_ok:
  "residency_ok m \<Longrightarrow> io_wp (stop_resident env key reason) (\<lambda>_. residency_ok) (\<lambda>_. residency_ok) m"
  by (rule io_wp_mono [OF stop_resident_wp]) (simp_all add: shrunk_def)

lemma count_stopped_ok:
  "residency_ok m \<Longrightarrow> io_wp (count_stopped env reason keys) (\<lambda>_. residency_ok) (\<lambda>_. residency_ok) m"
  by (rule io_wp_mono [OF count_stopped_wp]) (simp_all add: shrunk_def)

lemma stop_all_ok:
  "residency_ok m \<Longrightarrow> io_wp (stop_all env reason) (\<lambda>_. residency_ok) (\<lambda>_. residency_ok) m"
  unfolding stop_all_def by (intro io_rules count_stopped_ok)

lemma reconcile_residents_ok:
  "residency_ok m \<Longrightarrow> io_wp (reconcile_residents env) (\<lambda>_. residency_ok) (\<lambda>_. residency_ok) m"
  unfolding reconcile_residents_def by (intro io_rules count_stopped_ok)

lemma residency_step_ok: "residency_step env m m' \<Longrightarrow> residency_ok m \<Longrightarrow> residency_ok m'"
proof (induction rule: residency_step.induct)
  case (step_ensure registry key m out m')
  have "io_wp (ensure_resident env registry key) (\<lambda>_. residency_ok) (\<lambda>_. residency_ok) m"
    by (rule io_wp_mono [OF ensure_resident_wp [OF step_ensure(2)]]) auto
  then show ?case using step_ensure(1) by (rule io_wp_invariant)
next
  case (step_clear key m b m')
  then show ?case by (auto simp: clear_failure_def residency_ok_def)
qed (auto simp: set_config_def intro: io_wp_invariant health_tick_wp stop_resident_ok stop_all_ok reconcile_residents_ok)

lemma residency_reachable_ok: "residency_reachable env m \<Longrightarrow> residency_ok m"
proof (induction rule: residency_reachable.induct)
  case (fresh cfg w) show ?case by (simp add: new_manager_def residency_ok_def)
next
  case (next_step m m') then show ?case by (blast intro: residency_step_ok)
qed

section \<open>A server that no longer answers\<close>

definition records_kept :: "'w residency_env \<Rightarrow> bool" where
  "records_kept env \<longleftrightarrow> (\<forall>row w. \<exists>w'. re_insert env row w = (Inr (), w'))"

definition unreachable :: "'w residency_env \<Rightarrow> string \<Rightarrow> bool" where
  "unreachable env url \<longleftrightarrow> (\<forall>server w. \<exists>e w'. re_probe env server url w = (Inl e, w'))"

lemma reasons_not_blank:
  "trim (''health-probe-failed:'' @ e) \<noteq> []" "trim (''restart-launch-failed:'' @ e) \<noteq> []"
  "trim ''health-restart-exhausted'' \<noteq> []" "trim ''health-probe-failed'' \<noteq> []"
  "trim ''disabled-by-configuration'' \<noteq> []"
proof -
  have e: "\<forall>p\<in>set white_space. CHR ''e'' \<notin> set p" by code_simp
  show "trim (''health-probe-failed:'' @ e) \<noteq> []" "trim (''restart-launch-failed:'' @ e) \<noteq> []"
    "trim ''health-restart-exhausted'' \<noteq> []" "trim ''health-probe-failed'' \<noteq> []"
    "trim ''disabled-by-configuration'' \<noteq> []" for e
    by (rule trim_not_Nil [OF _ e]; simp)+
qed

lemma record_event_kept:
  assumes "records_kept env" "\<And>w. Q () (m\<lparr>rm_world := w\<rparr>)"
    and "\<exists>r. reason = Some r \<and> trim r \<noteq> []" "(ev = Ev_Restarted) = (again \<noteq> None)"
  shows "io_wp (record_event env spec server ev reason again) Q (\<lambda>_ _. False) m"
proof -
  obtain r where r: "reason = Some r" "trim r \<noteq> []" using assms(3) by auto
  obtain w' where "re_insert env \<lparr>ve_key = ls_key spec, ve_worker = ls_worker spec, ve_artifact = ls_artifact spec,
        ve_runtime = ls_runtime spec, ve_server = server, ve_event = ev, ve_reason = Some r,
        ve_restart_attempt = again, ve_memory_mb = ls_memory_mb spec\<rparr> (rm_world m) = (Inr (), w')"
    using assms(1) unfolding records_kept_def by blast
  then show ?thesis
    using assms(2,4) r by (simp add: io_wp_def record_event_def on_world_def record_row_def)
qed

lemma await_ready_unreachable:
  "unreachable env (ls_base_url spec) \<Longrightarrow> \<exists>e w'. await_ready env spec server t w = (Inl e, w')"
proof (induction env spec server t w rule: await_ready.induct)
  case (1 env spec server t w)
  obtain e w1 where p: "re_probe env server (ls_base_url spec) w = (Inl e, w1)"
    using "1.prems" unfolding unreachable_def by blast
  obtain d w2 where d: "re_passed_ms env w1 = (d, w2)" by (cases "re_passed_ms env w1")
  show ?case
  proof (cases "t + d \<ge> 1000 * ls_ready_timeout_secs spec")
    case True then show ?thesis by (simp add: await_ready.simps [of env spec] p d split: prod.split)
  next
    case False
    from "1.IH" [OF p [symmetric] refl d [symmetric] False "1.prems"]
    show ?thesis using False by (simp add: await_ready.simps [of env spec server t] p d)
  qed
qed

lemma start_unreachable:
  assumes "unreachable env (ls_base_url spec)" "\<And>e w. E e (m\<lparr>rm_world := w\<rparr>)"
  shows "io_wp (start env spec server) Q E m"
proof -
  have await: "io_wp (on_world (await_ready env spec server 0)) R E (m\<lparr>rm_world := w\<rparr>)" for R w
    using await_ready_unreachable [OF assms(1), of server 0 w] assms(2) by (auto simp: io_wp_def on_world_def)
  show ?thesis
    unfolding start_def by (intro io_rules_basic io_rules_map_err, rule on_world_wp) (simp_all add: io_wp_then await assms(2))
qed

section \<open>What health checks do to one resident\<close>

definition key_view :: "string \<Rightarrow> 'w residency \<Rightarrow> resident option \<times> string option \<times> nat \<times> residency_config" where
  "key_view key m = (map_of (rm_residents m) key, rm_failed m key, attempts_of m key, rm_config m)"

lemma key_view_frames [simp]:
  "key_view key (m\<lparr>rm_world := w\<rparr>) = key_view key m"
  "key_view key (m\<lparr>rm_counter := n\<rparr>) = key_view key m"
  "k \<noteq> key \<Longrightarrow> key_view key (m\<lparr>rm_attempts := (rm_attempts m)(k \<mapsto> n)\<rparr>) = key_view key m"
  "k \<noteq> key \<Longrightarrow> key_view key (drop_resident k m) = key_view key m"
  "k \<noteq> key \<Longrightarrow> key_view key (mark_failed k reason m) = key_view key m"
  "k \<noteq> key \<Longrightarrow> key_view key (replaced k server m) = key_view key m"
  by (simp_all add: key_view_def attempts_of_def drop_resident_def mark_failed_def replaced_def
      AList.delete_conv' AList.update_conv split: option.split)

text \<open>Steps on another resident that cannot fail.\<close>

lemma give_up_other:
  assumes "records_kept env" "k \<noteq> key"
  shows "io_wp (give_up env k spec server) (\<lambda>_ m'. key_view key m' = key_view key m) (\<lambda>_ _. False) m"
  unfolding give_up_def
  by (intro io_rules record_event_kept) (use assms reasons_not_blank in auto)

lemma restart_other:
  assumes "records_kept env" "k \<noteq> key"
  shows "io_wp (restart env k spec server n) (\<lambda>_ m'. key_view key m' = key_view key m) (\<lambda>_ _. False) m"
  unfolding restart_def
  by (intro io_rules record_event_kept io_wp_mono [OF give_up_other [OF assms]])
     (use assms reasons_not_blank in auto)

lemma restart_or_fail_other:
  assumes "records_kept env" "k \<noteq> key"
  shows "io_wp (restart_or_fail env k spec server) (\<lambda>_ m'. key_view key m' = key_view key m) (\<lambda>_ _. False) m"
proof (cases "attempts_of m k \<ge> mc_max_restarts (rm_config m)")
  case True
  have "io_wp (io_then (stop_server env server) (give_up env k spec server))
      (\<lambda>_ m'. key_view key m' = key_view key m) (\<lambda>_ _. False) m"
    by (intro io_rules io_wp_mono [OF give_up_other [OF assms]]) auto
  with True show ?thesis by (simp add: io_wp_def restart_or_fail_def)
next
  case False with restart_other [OF assms] show ?thesis by (simp add: io_wp_def restart_or_fail_def Let_def)
qed

lemma check_health_other:
  assumes "records_kept env" "k \<noteq> key"
  shows "io_wp (check_health env k) (\<lambda>_ m'. key_view key m' = key_view key m) (\<lambda>_ _. False) m"
proof (cases "map_of (rm_residents m) k")
  case None then show ?thesis by (simp add: io_wp_def check_health_def)
next
  case (Some r)
  have "io_wp (io_bind (io_attempt (on_world (re_probe env (rt_server r) (ls_base_url (rt_spec r))))) (\<lambda>probe.
        case probe of
          Inr _ \<Rightarrow> io_return ()
        | Inl e \<Rightarrow>
          io_then (record_event env (rt_spec r) (rt_server r) Ev_Health_Failed
              (Some (''health-probe-failed:'' @ e)) None)
            (restart_or_fail env k (rt_spec r) (rt_server r))))
      (\<lambda>_ m'. key_view key m' = key_view key m) (\<lambda>_ _. False) m"
    by (intro io_rules record_event_kept io_wp_mono [OF restart_or_fail_other [OF assms]])
       (use assms reasons_not_blank in auto)
  then show ?thesis unfolding io_wp_def check_health_def Some option.case .
qed

lemma stop_resident_other:
  assumes "records_kept env" "k \<noteq> key" "trim reason \<noteq> []"
  shows "io_wp (stop_resident env k reason) (\<lambda>_ m'. key_view key m' = key_view key m) (\<lambda>_ _. False) m"
proof (cases "map_of (rm_residents m) k")
  case None then show ?thesis by (simp add: io_wp_def stop_resident_def)
next
  case (Some r)
  have "io_wp (io_then (stop_server env (rt_server r))
       (io_then (record_event env (rt_spec r) (rt_server r) Ev_Stopped (Some reason) None) (io_return True)))
      (\<lambda>_ m'. key_view key m' = key_view key m) (\<lambda>_ _. False) (drop_resident k m)"
    by (intro io_rules record_event_kept) (use assms in auto)
  with Some show ?thesis by (simp add: io_wp_def stop_resident_def)
qed

lemma stop_residents_other:
  assumes "records_kept env" "key \<notin> set ks" "trim reason \<noteq> []"
  shows "io_wp (io_traverse (\<lambda>k. stop_resident env k reason) ks) (\<lambda>_ m'. key_view key m' = key_view key m) (\<lambda>_ _. False) m"
  using assms(2)
proof (induction ks arbitrary: m)
  case Nil then show ?case by (simp add: io_wp_def io_lift_def)
next
  case (Cons k ks)
  have k: "k \<noteq> key" "key \<notin> set ks" using Cons.prems by auto
  show ?case
    unfolding io_traverse.simps io_return_def [symmetric]
    by (intro io_rules, rule io_wp_mono [OF stop_resident_other [OF assms(1) k(1) assms(3)]], intro io_rules,
        rule io_wp_mono [OF Cons.IH [OF k(2)]]) (auto intro: io_rules)
qed

text \<open>The outcome of one check of a resident whose server does not answer.\<close>

definition declined :: "string \<Rightarrow> 'w residency \<Rightarrow> 'w residency \<Rightarrow> bool" where
  "declined key m m' \<longleftrightarrow>
     rm_config m' = rm_config m
     \<and> (map_of (rm_residents m') key = None \<and> rm_failed m' key \<noteq> None
        \<or> map_of (rm_residents m') key = map_of (rm_residents m) key
          \<and> attempts_of m' key = Suc (attempts_of m key) \<and> attempts_of m' key < mc_max_restarts (rm_config m))"

lemma give_up_declined:
  assumes "records_kept env" "rm_config m = rm_config m0"
  shows "io_wp (give_up env key spec server) (\<lambda>_. declined key m0) (\<lambda>_ _. False) m"
  unfolding give_up_def
  by (intro io_rules record_event_kept)
     (use assms reasons_not_blank in \<open>auto simp: declined_def mark_failed_def drop_resident_def AList.delete_conv'\<close>)

lemma check_health_dead:
  assumes kept: "records_kept env" and r: "map_of (rm_residents m) key = Some r"
    and dead: "unreachable env (ls_base_url (rt_spec r))"
  shows "io_wp (check_health env key) (\<lambda>_. declined key m) (\<lambda>_ _. False) m"
proof -
  let ?n = "Suc (attempts_of m key)"
  have restart: "io_wp (restart env key (rt_spec r) (rt_server r) ?n) (\<lambda>_. declined key m) (\<lambda>_ _. False) (m\<lparr>rm_world := w\<rparr>)" for w
    unfolding restart_def
  proof (intro io_rules_basic io_rules_modify stop_server_wp next_server_identity_wp io_rules_attempt start_unreachable [OF dead])
    fix w1 server e w2
    let ?m = "m\<lparr>rm_world := w\<rparr>\<lparr>rm_attempts := (rm_attempts (m\<lparr>rm_world := w\<rparr>))(key \<mapsto> ?n)\<rparr>\<lparr>rm_world := w1\<rparr>"
    have "io_wp (io_then (record_event env (rt_spec r) server Ev_Health_Failed (Some (''restart-launch-failed:'' @ e)) None)
        (io_bind io_get (\<lambda>m. io_when (mc_max_restarts (rm_config m) \<le> ?n) (give_up env key (rt_spec r) server))))
        (\<lambda>_. declined key m) (\<lambda>_ _. False) (?m\<lparr>rm_counter := Suc (rm_counter ?m)\<rparr>\<lparr>rm_world := w2\<rparr>)"
      by (intro io_rules record_event_kept give_up_declined)
         (use kept reasons_not_blank in \<open>auto simp: declined_def attempts_of_def\<close>)
    then show "io_wp (case Inl e of
         Inl e \<Rightarrow> io_then (record_event env (rt_spec r) server Ev_Health_Failed (Some (''restart-launch-failed:'' @ e)) None)
            (io_bind io_get (\<lambda>m. io_when (mc_max_restarts (rm_config m) \<le> ?n) (give_up env key (rt_spec r) server)))
       | Inr _ \<Rightarrow> io_then (io_modify (replaced key server))
            (record_event env (rt_spec r) server Ev_Restarted (Some ''health-probe-failed'') (Some ?n)))
        (\<lambda>_. declined key m) (\<lambda>_ _. False) (?m\<lparr>rm_counter := Suc (rm_counter ?m)\<rparr>\<lparr>rm_world := w2\<rparr>)"
      by simp
  qed
  have fail: "io_wp (restart_or_fail env key (rt_spec r) (rt_server r)) (\<lambda>_. declined key m) (\<lambda>_ _. False) (m\<lparr>rm_world := w\<rparr>)" for w
  proof (cases "attempts_of m key \<ge> mc_max_restarts (rm_config m)")
    case True
    have "io_wp (io_then (stop_server env (rt_server r)) (give_up env key (rt_spec r) (rt_server r)))
        (\<lambda>_. declined key m) (\<lambda>_ _. False) (m\<lparr>rm_world := w\<rparr>)"
      by (intro io_rules give_up_declined) (use kept in auto)
    with True show ?thesis by (simp add: io_wp_def restart_or_fail_def attempts_of_def)
  next
    case False with restart [of w] show ?thesis by (simp add: io_wp_def restart_or_fail_def Let_def attempts_of_def)
  qed
  obtain e w where probe: "re_probe env (rt_server r) (ls_base_url (rt_spec r)) (rm_world m) = (Inl e, w)"
    using dead unfolding unreachable_def by blast
  have "io_wp (io_then (record_event env (rt_spec r) (rt_server r) Ev_Health_Failed (Some (''health-probe-failed:'' @ e)) None)
      (restart_or_fail env key (rt_spec r) (rt_server r))) (\<lambda>_. declined key m) (\<lambda>_ _. False) (m\<lparr>rm_world := w\<rparr>)"
    using fail by (intro io_rules record_event_kept) (use kept reasons_not_blank in auto)
  then show ?thesis
    by (simp add: io_wp_def check_health_def r io_bind_def io_attempt_def on_world_def probe)
qed

lemma checks_other:
  assumes "records_kept env" "key \<notin> set ks"
  shows "io_wp (io_each (check_health env) ks) (\<lambda>_ m'. key_view key m' = key_view key m) (\<lambda>_ _. False) m"
proof (rule io_wp_each)
  fix k and u :: "'a residency"
  assume "k \<in> set ks" "key_view key u = key_view key m"
  moreover from this assms(2) have "k \<noteq> key" by auto
  ultimately show "io_wp (check_health env k) (\<lambda>_ m'. key_view key m' = key_view key m) (\<lambda>_ _. False) u"
    by (intro io_wp_mono [OF check_health_other [OF assms(1)]]) auto
qed simp

lemma declined_view:
  "key_view key m1 = key_view key m \<Longrightarrow> declined key m1 m2 \<Longrightarrow> key_view key m' = key_view key m2 \<Longrightarrow> declined key m m'"
  by (auto simp: declined_def key_view_def)

lemma checks_dead:
  assumes kept: "records_kept env" and r: "map_of (rm_residents m) key = Some r"
    and dead: "unreachable env (ls_base_url (rt_spec r))" and ks: "key \<in> set ks" "distinct ks"
  shows "io_wp (io_each (check_health env) ks) (\<lambda>_. declined key m) (\<lambda>_ _. False) m"
  using r ks
proof (induction ks arbitrary: m)
  case (Cons k ks)
  show ?case
  proof (cases "k = key")
    case True
    then have rest: "key \<notin> set ks" using Cons.prems by simp
    show ?thesis
      unfolding io_each.simps True
    proof (intro io_rules, rule io_wp_mono [OF check_health_dead [OF kept Cons.prems(1) dead]])
      fix m' assume "declined key m m'"
      then show "io_wp (io_each (check_health env) ks) (\<lambda>_. declined key m) (\<lambda>_ _. False) m'"
        by (intro io_wp_mono [OF checks_other [OF kept rest]]) (auto intro: declined_view [OF refl])
    qed simp
  next
    case False
    then have key: "key \<in> set ks" "distinct ks" using Cons.prems by auto
    show ?thesis
      unfolding io_each.simps
    proof (intro io_rules, rule io_wp_mono [OF check_health_other [OF kept False]])
      fix m' :: "'a residency" assume same: "key_view key m' = key_view key m"
      then have "map_of (rm_residents m') key = Some r" using Cons.prems(1) by (simp add: key_view_def)
      from Cons.IH [OF this key] show "io_wp (io_each (check_health env) ks) (\<lambda>_. declined key m) (\<lambda>_ _. False) m'"
        by (rule io_wp_mono) (auto intro: declined_view [OF same _ refl])
    qed simp
  qed
qed simp

lemma distinct_resident_keys: "residency_ok m \<Longrightarrow> distinct (resident_keys m)"
  by (simp add: resident_keys_def residency_ok_def)

lemma reconcile_other:
  assumes "records_kept env" "is_active (rm_config m) key \<or> map_of (rm_residents m) key = None"
  shows "io_wp (reconcile_residents env) (\<lambda>_ m'. key_view key m' = key_view key m) (\<lambda>_ _. False) m"
proof -
  have "key \<notin> set (filter (\<lambda>k. \<not> is_active (rm_config m) k) (resident_keys m))"
    using assms(2) by (auto simp: resident_keys_def map_of_eq_None_iff image_iff)
  then show ?thesis
    unfolding reconcile_residents_def count_stopped_def
    by (intro io_rules, rule io_wp_mono [OF stop_residents_other [OF assms(1)]])
       (auto intro: io_rules simp: reasons_not_blank)
qed

lemma io_wp_conj:
  "io_wp p Q E m \<Longrightarrow> io_wp p Q' E' m \<Longrightarrow> io_wp p (\<lambda>a m'. Q a m' \<and> Q' a m') (\<lambda>e m'. E e m' \<and> E' e m') m"
  by (auto simp: io_wp_def split: prod.splits sum.splits)

lemma tick_gone:
  assumes kept: "records_kept env" and ok: "residency_ok m" and gone: "map_of (rm_residents m) key = None"
  shows "io_wp (health_tick env) (\<lambda>_ m'. key_view key m' = key_view key m \<and> residency_ok m') (\<lambda>_ _. False) m"
proof -
  have "io_wp (health_tick env) (\<lambda>_ m'. key_view key m' = key_view key m) (\<lambda>_ _. False) m"
    unfolding health_tick_def
  proof (intro io_rules, rule io_wp_mono [OF reconcile_other [OF kept disjI2 [OF gone]]])
    fix m' :: "'a residency" assume same: "key_view key m' = key_view key m"
    then have "key \<notin> set (resident_keys m')"
      using gone by (auto simp: key_view_def resident_keys_def map_of_eq_None_iff)
    from checks_other [OF kept this, of m'] show "io_wp (io_bind io_get (\<lambda>a. io_each (check_health env) (resident_keys a)))
        (\<lambda>_ m'. key_view key m' = key_view key m) (\<lambda>_ _. False) m'"
      using same by (intro io_rules) simp
  qed simp
  from io_wp_conj [OF this health_tick_wp [OF ok]] show ?thesis by (rule io_wp_mono) auto
qed

lemma tick_dead:
  assumes kept: "records_kept env" and ok: "residency_ok m" and r: "map_of (rm_residents m) key = Some r"
    and dead: "unreachable env (ls_base_url (rt_spec r))" and act: "is_active (rm_config m) key"
  shows "io_wp (health_tick env) (\<lambda>_ m'. declined key m m' \<and> residency_ok m') (\<lambda>_ _. False) m"
proof -
  have "io_wp (health_tick env) (\<lambda>_. declined key m) (\<lambda>_ _. False) m"
    unfolding health_tick_def
  proof (intro io_rules, rule io_wp_mono [OF io_wp_conj [OF reconcile_other [OF kept disjI1 [OF act]] reconcile_residents_ok [OF ok]]])
    fix m' :: "'a residency" assume m': "key_view key m' = key_view key m \<and> residency_ok m'"
    then have r': "map_of (rm_residents m') key = Some r" using r by (simp add: key_view_def)
    then have "key \<in> set (resident_keys m')" by (force simp: resident_keys_def dest: map_of_SomeD)
    from checks_dead [OF kept r' dead this distinct_resident_keys [OF conjunct2 [OF m']]]
    have "io_wp (io_each (check_health env) (resident_keys m')) (\<lambda>_. declined key m') (\<lambda>_ _. False) m'" .
    then show "io_wp (io_bind io_get (\<lambda>a. io_each (check_health env) (resident_keys a)))
        (\<lambda>_. declined key m) (\<lambda>_ _. False) m'"
      using m' by (intro io_rules, elim io_wp_mono) (auto intro: declined_view [OF _ _ refl])
  qed simp
  from io_wp_conj [OF this health_tick_wp [OF ok]] show ?thesis by (rule io_wp_mono) auto
qed

fun health_ticks :: "'w residency_env \<Rightarrow> nat \<Rightarrow> ('w residency, familiar_error, unit) io" where
  "health_ticks env 0 = io_return ()"
| "health_ticks env (Suc n) = io_then (health_tick env) (health_ticks env n)"

lemma ticks_gone:
  "records_kept env \<Longrightarrow> residency_ok m \<Longrightarrow> map_of (rm_residents m) key = None \<Longrightarrow>
   io_wp (health_ticks env n) (\<lambda>_ m'. key_view key m' = key_view key m) (\<lambda>_ _. False) m"
proof (induction n arbitrary: m)
  case 0 show ?case by (simp add: io_wp_simps)
next
  case (Suc n)
  show ?case
    unfolding health_ticks.simps
    by (intro io_rules, rule io_wp_mono [OF tick_gone [OF Suc.prems]], rule io_wp_mono [OF Suc.IH])
       (use Suc.prems in \<open>auto simp: key_view_def\<close>)
qed

lemma ticks_dead:
  assumes "records_kept env" "residency_ok m" "map_of (rm_residents m) key = Some r"
    "unreachable env (ls_base_url (rt_spec r))" "is_active (rm_config m) key"
    "0 < n" "mc_max_restarts (rm_config m) \<le> attempts_of m key + n"
  shows "io_wp (health_ticks env n) (\<lambda>_ m'. rm_config m' = rm_config m \<and> map_of (rm_residents m') key = None
      \<and> rm_failed m' key \<noteq> None) (\<lambda>_ _. False) m"
  using assms
proof (induction n arbitrary: m)
  case (Suc n)
  let ?Q = "\<lambda>_ m'. rm_config m' = rm_config m \<and> map_of (rm_residents m') key = None \<and> rm_failed m' key \<noteq> None"
  show ?case
    unfolding health_ticks.simps
  proof (intro io_rules, rule io_wp_mono [OF tick_dead [OF Suc.prems(1-5)]])
    fix m' assume m': "declined key m m' \<and> residency_ok m'"
    show "io_wp (health_ticks env n) ?Q (\<lambda>_ _. False) m'"
    proof (cases "map_of (rm_residents m') key")
      case None
      then have "rm_failed m' key \<noteq> None" "rm_config m' = rm_config m"
        using m' Suc.prems(3) by (auto simp: declined_def)
      with None ticks_gone [OF Suc.prems(1) conjunct2 [OF m'] None, of n] show ?thesis
        by (elim io_wp_mono) (auto simp: key_view_def)
    next
      case (Some r')
      with m' Suc.prems(3,5,7) have "map_of (rm_residents m') key = Some r" "rm_config m' = rm_config m"
        "attempts_of m' key = Suc (attempts_of m key)" "attempts_of m' key < mc_max_restarts (rm_config m)"
        by (auto simp: declined_def)
      with Suc.IH [of m'] Suc.prems m' show ?thesis by simp
    qed
  qed simp
qed simp

section \<open>Properties\<close>

text \<open>A model is loaded only within the ceilings: after a load the number of residents and their
  declared memory respect the configuration, whatever was resident before, and the reported server is the
  one that is now held for the key.\<close>

lemma load_within_ceilings:
  assumes "residency_reachable env m" "ensure_resident env registry key m = (Inr (Cold server url), m')"
  shows "length (rm_residents m') \<le> mc_max_residents (rm_config m')
    \<and> (\<forall>c. mc_memory_ceiling_mb (rm_config m') = Some c \<longrightarrow> held_memory m' \<le> c)
    \<and> serves m' key server url"
  using io_wpD [OF ensure_resident_wp [OF residency_reachable_ok [OF assms(1)]] assms(2)]
  by (auto simp: within_ceilings_def)

text \<open>In every reachable manager a key that failed terminally is not resident, no key is resident
  twice, and no two residents were used at the same moment, so the least recently used one is unique.\<close>

lemma failed_keys_not_resident:
  assumes "residency_reachable env m"
  shows "(\<forall>key reason. rm_failed m key = Some reason \<longrightarrow> map_of (rm_residents m) key = None)
    \<and> distinct (map fst (rm_residents m))
    \<and> (\<forall>k r k' r'. map_of (rm_residents m) k = Some r \<longrightarrow> map_of (rm_residents m) k' = Some r'
         \<longrightarrow> rt_last_used r = rt_last_used r' \<longrightarrow> k = k')"
proof -
  have ok: "residency_ok m" using assms by (rule residency_reachable_ok)
  have "k = k'" if "map_of (rm_residents m) k = Some r" "map_of (rm_residents m) k' = Some r'"
    "rt_last_used r = rt_last_used r'" for k r k' r'
  proof -
    have "inj_on (rt_last_used \<circ> snd) (set (rm_residents m))" using ok by (simp add: residency_ok_def distinct_map)
    from inj_onD [OF this, of "(k, r)" "(k', r')"] that show ?thesis by (auto dest: map_of_SomeD)
  qed
  moreover have "map_of (rm_residents m) key = None" if "rm_failed m key = Some reason" for key reason
    using ok that by (auto simp: residency_ok_def map_of_eq_None_iff)
  ultimately show ?thesis using ok by (auto simp: residency_ok_def)
qed

text \<open>A loaded model is reused: the call after a load answers warm with the same server and address
  and does nothing to the world: no launch, no probe, no record.\<close>

lemma second_call_loads_nothing:
  assumes "residency_reachable env m" "ensure_resident env registry key m = (Inr (Cold server url), m')"
  shows "\<exists>m''. ensure_resident env registry' key m' = (Inr (Warm server url), m'') \<and> rm_world m'' = rm_world m'
    \<and> serves m'' key server url"
proof -
  have post: "serves m' key server url" "is_active (rm_config m') key" "rm_failed m' key = None"
    using io_wpD [OF ensure_resident_wp [OF residency_reachable_ok [OF assms(1)]] assms(2)] by auto
  then show ?thesis
    by (auto simp: serves_def ensure_resident_def is_active_def AList.update_conv split: option.splits)
qed

text \<open>C10: A resident whose server stopped answering does not stay. Whatever the environment \<open>env0\<close> did up
  to now, if from now on probes of its address fail and events are still recorded, then after as many health intervals as
  restarts are allowed (at least one) it is no longer resident, its failure is recorded with a reason, and
  every later call for it is refused with that reason instead of loading per call.\<close>

theorem dead_resident_fails_loudly:
  assumes "residency_reachable env0 m" "records_kept env"
    and "map_of (rm_residents m) key = Some r" "unreachable env (ls_base_url (rt_spec r))"
    and "is_active (rm_config m) key"
  shows "\<exists>m' reason. health_ticks env (max 1 (mc_max_restarts (rm_config m))) m = (Inr (), m')
    \<and> map_of (rm_residents m') key = None \<and> rm_failed m' key = Some reason
    \<and> ensure_resident env registry key m' = (Inr (Not_Resident reason), m')"
proof -
  let ?n = "max 1 (mc_max_restarts (rm_config m))"
  have wp: "io_wp (health_ticks env ?n) (\<lambda>_ m'. rm_config m' = rm_config m \<and> map_of (rm_residents m') key = None
      \<and> rm_failed m' key \<noteq> None) (\<lambda>_ _. False) m"
    by (rule ticks_dead [OF assms(2) residency_reachable_ok [OF assms(1)] assms(3-5)]) auto
  obtain res m' where run: "health_ticks env ?n m = (res, m')" by (cases "health_ticks env ?n m")
  with wp obtain u where res: "res = Inr u" and post: "rm_config m' = rm_config m"
      "map_of (rm_residents m') key = None" "rm_failed m' key \<noteq> None"
    by (cases res) (auto simp: io_wp_def)
  then obtain reason where "rm_failed m' key = Some reason" by auto
  moreover from this post(1) assms(5) have "ensure_resident env registry key m' = (Inr (Not_Resident reason), m')"
    by (auto simp: ensure_resident_def is_active_def split: option.splits)
  ultimately show ?thesis using run res post by auto
qed

section \<open>A sample environment\<close>

text \<open>The world tells whether servers answer.\<close>

definition sample_residency_env :: "bool \<Rightarrow> unit residency_env" where
  "sample_residency_env alive =
     \<lparr>re_launch = (\<lambda>_ _ w. (Inr (), w)), re_stop = (\<lambda>_ w. (Inr (), w)),
      re_probe = (\<lambda>_ _ w. (if alive then Inr () else Inl ''no answer'', w)),
      re_registered = (\<lambda>_ w. (Inr True, w)), re_insert = (\<lambda>_ w. (Inr (), w)),
      re_passed_ms = (\<lambda>w. (1000, w))\<rparr>"

definition sample_residency_config :: residency_config where
  "sample_residency_config =
     \<lparr>mc_enabled = True, mc_max_residents = 1, mc_memory_ceiling_mb = Some 8, mc_max_restarts = 2,
      mc_residents = (\<lambda>k. if k = ''a''
        then Some \<lparr>rc_enabled = True, rc_worker = ''w'', rc_launch = [''serve''], rc_memory_mb = Some 4,
          rc_ready_timeout_secs = 1\<rparr> else None)\<rparr>"

definition sample_registry :: worker_registry where
  "sample_registry = (\<lambda>k. if k = ''w''
     then Some \<lparr>wk_local = Some \<lparr>lp_runtime_kind = Ollama, lp_base_url = ''u''\<rparr>, wk_model_artifact = Some ''m''\<rparr> else None)"

definition sample_loaded :: "unit residency" where
  "sample_loaded = snd (ensure_resident (sample_residency_env True) (Some sample_registry) ''a''
     (new_manager sample_residency_config ()))"

lemma sample_load:
  "ensure_resident (sample_residency_env True) (Some sample_registry) ''a'' (new_manager sample_residency_config ())
   = (Inr (Cold ''a#1'' ''u''), sample_loaded)"
proof -
  have "fst (ensure_resident (sample_residency_env True) (Some sample_registry) ''a''
      (new_manager sample_residency_config ())) = Inr (Cold ''a#1'' ''u'')" by code_simp
  then show ?thesis by (simp add: sample_loaded_def prod_eq_iff)
qed

lemma sample_loaded_reachable: "residency_reachable (sample_residency_env True) sample_loaded"
  by (rule next_step [OF fresh step_ensure [OF sample_load]])

lemma load_within_ceilings_witness: "length (rm_residents sample_loaded) \<le> 1 \<and> held_memory sample_loaded \<le> 8"
proof -
  have "rm_config sample_loaded = sample_residency_config"
    using io_wpD [OF ensure_resident_wp [OF residency_reachable_ok [OF fresh]] sample_load] by (simp add: new_manager_def)
  with load_within_ceilings [OF fresh sample_load] show ?thesis by (simp add: sample_residency_config_def)
qed

lemma second_call_loads_nothing_witness:
  "\<exists>m. ensure_resident (sample_residency_env True) None ''a'' sample_loaded = (Inr (Warm ''a#1'' ''u''), m)"
  using second_call_loads_nothing [OF fresh sample_load, of None] by blast

theorem dead_resident_fails_loudly_witness:
  "\<exists>m' reason. health_ticks (sample_residency_env False) 2 sample_loaded = (Inr (), m')
     \<and> map_of (rm_residents m') ''a'' = None \<and> rm_failed m' ''a'' = Some reason"
proof -
  have kept: "records_kept (sample_residency_env False)" "unreachable (sample_residency_env False) url" for url
    by (simp_all add: records_kept_def unreachable_def sample_residency_env_def)
  have cfg: "rm_config sample_loaded = sample_residency_config" "serves sample_loaded ''a'' ''a#1'' ''u''"
    using io_wpD [OF ensure_resident_wp [OF residency_reachable_ok [OF fresh]] sample_load] by (simp_all add: new_manager_def)
  then obtain r where "map_of (rm_residents sample_loaded) ''a'' = Some r" by (auto simp: serves_def)
  moreover have "is_active (rm_config sample_loaded) ''a''" "max 1 (mc_max_restarts (rm_config sample_loaded)) = 2"
    by (simp_all add: cfg is_active_def sample_residency_config_def)
  ultimately show ?thesis
    using dead_resident_fails_loudly [OF sample_loaded_reachable kept(1) _ kept(2)] by metis
qed

end
