(* ===== verification/Control_Access.thy ===== *)
theory Control_Access
  imports Control_Safety Control_Service
begin

text \<open>
  Who may act: the leases by which at most one host drives a repository, and the sessions by which an
  agent reaches the control plane.
\<close>

section \<open>Leases exclude each other\<close>

text \<open>
  A holder believes that it has the repository until the expiry it was told last, unless it has been told
  otherwise or has released. \<open>lease_run db now held\<close>: the store, its clock and what the holders, named
  by their tokens, believe, after any sequence of calls.
\<close>

type_synonym belief = "string \<times> string \<times> nat"

definition forget :: "string \<Rightarrow> string \<Rightarrow> belief set \<Rightarrow> belief set" where
  "forget repo token held = {b \<in> held. fst b \<noteq> repo \<or> fst (snd b) \<noteq> token}"

inductive lease_run :: "control_db \<Rightarrow> nat \<Rightarrow> belief set \<Rightarrow> bool" where
  run_start: "cd_leases db = Map.empty \<Longrightarrow> lease_run db now {}"
| run_clock: "lease_run db now held \<Longrightarrow> now \<le> later \<Longrightarrow> lease_run db later held"
| run_elsewhere: "lease_run db now held \<Longrightarrow> cd_leases db' = cd_leases db \<Longrightarrow> lease_run db' now held"
| run_acquired: "lease_run db now held
    \<Longrightarrow> acquire_lease now db repo host process token ttl = Inr (Lease_Acquired r, db')
    \<Longrightarrow> lease_run db' now (insert (repo, token, le_expires r) (forget repo token held))"
| run_refused: "lease_run db now held
    \<Longrightarrow> acquire_lease now db repo host process token ttl = Inr (Lease_Refused h p ms, db')
    \<Longrightarrow> lease_run db' now held"
| run_renewed: "lease_run db now held
    \<Longrightarrow> renew_lease now db repo host process token ttl = Inr (Lease_Renewed r, db')
    \<Longrightarrow> lease_run db' now (insert (repo, token, le_expires r) (forget repo token held))"
| run_lost: "lease_run db now held
    \<Longrightarrow> renew_lease now db repo host process token ttl = Inr (Lease_Lost holder, db')
    \<Longrightarrow> lease_run db' now (forget repo token held)"
| run_released: "lease_run db now held \<Longrightarrow> release_lease now db repo token = (b, db')
    \<Longrightarrow> lease_run db' now (forget repo token held)"

definition beliefs_ok :: "control_db \<Rightarrow> nat \<Rightarrow> belief set \<Rightarrow> bool" where
  "beliefs_ok db now held \<longleftrightarrow>
     (\<forall>repo token e. (repo, token, e) \<in> held \<longrightarrow> now < 1000 * e \<longrightarrow>
        (\<exists>r. cd_leases db repo = Some r \<and> le_token r = token \<and> le_expires r = e))"

lemma forget_iff: "(repo, token, e) \<in> forget repo' token' held \<longleftrightarrow>
    (repo, token, e) \<in> held \<and> (repo \<noteq> repo' \<or> token \<noteq> token')"
  by (auto simp: forget_def)

lemma acquire_leaseD:
  assumes "acquire_lease now db repo host process token ttl = Inr (Lease_Acquired r, db')"
  shows "cd_leases db' = (cd_leases db)(repo \<mapsto> r)" "le_token r = token"
    "case cd_leases db repo of None \<Rightarrow> True | Some old \<Rightarrow> 1000 * le_expires old \<le> now"
  using assms
  by (auto simp: acquire_lease_def insert_lease_row_def insert_lease_event_def Let_def rbind_Inr_iff remaining_ms_def
      split: option.splits if_splits)

lemma acquire_refusedD:
  assumes "acquire_lease now db repo host process token ttl = Inr (Lease_Refused h p ms, db')"
  shows "db' = db"
  using assms
  by (auto simp: acquire_lease_def Let_def rbind_Inr_iff split: option.splits if_splits)

lemma renew_leaseD:
  assumes "renew_lease now db repo host process token ttl = Inr (Lease_Renewed r, db')"
  shows "\<exists>old. cd_leases db repo = Some old \<and> le_token old = token \<and> now < 1000 * le_expires old
    \<and> cd_leases db' = (cd_leases db)(repo \<mapsto> r) \<and> le_token r = token"
  using assms by (auto simp: renew_lease_def Let_def rbind_Inr_iff remaining_ms_def split: option.splits if_splits)

lemma renew_lostD:
  assumes "renew_lease now db repo host process token ttl = Inr (Lease_Lost h, db')"
  shows "cd_leases db' = cd_leases db"
  using assms by (auto simp: renew_lease_def insert_lease_event_def Let_def rbind_Inr_iff split: option.splits if_splits)

lemma release_leaseD:
  assumes "release_lease now db repo token = (b, db')"
  shows "cd_leases db' = cd_leases db \<or>
    (\<exists>r. cd_leases db repo = Some r \<and> le_token r = token \<and> cd_leases db' = (cd_leases db)(repo := None))"
  using assms by (auto simp: release_lease_def insert_lease_event_def split: option.splits if_splits)

lemma lease_run_beliefs: "lease_run db now held \<Longrightarrow> beliefs_ok db now held"
proof (induction rule: lease_run.induct)
  case (run_acquired db now held repo host process token ttl r db')
  note a = acquire_leaseD[OF run_acquired.hyps(2)]
  have "\<not> now < 1000 * e" if "(repo, t, e) \<in> held" for t e
    using run_acquired.IH a(3) that unfolding beliefs_ok_def by fastforce
  then show ?case using run_acquired.IH a(1,2) by (auto simp: beliefs_ok_def forget_iff)
next
  case (run_refused db now held repo host process token ttl h p ms db')
  then show ?case using acquire_refusedD by blast
next
  case (run_renewed db now held repo host process token ttl r db')
  obtain old where o: "cd_leases db repo = Some old" "le_token old = token"
      "cd_leases db' = (cd_leases db)(repo \<mapsto> r)" "le_token r = token"
    using renew_leaseD[OF run_renewed.hyps(2)] by blast
  have "t = token" if "(repo, t, e) \<in> held" "now < 1000 * e" for t e
    using run_renewed.IH o(1,2) that unfolding beliefs_ok_def by fastforce
  then show ?case using run_renewed.IH o(3,4) by (auto simp: beliefs_ok_def forget_iff)
next
  case (run_lost db now held repo host process token ttl h db')
  then show ?case using renew_lostD[OF run_lost.hyps(2)] by (auto simp: beliefs_ok_def forget_iff)
next
  case (run_released db now held repo token b db')
  from release_leaseD[OF run_released.hyps(2)] show ?case
  proof (elim disjE exE conjE)
    assume "cd_leases db' = cd_leases db"
    then show ?thesis using run_released.IH by (auto simp: beliefs_ok_def forget_iff)
  next
    fix r
    assume r: "cd_leases db repo = Some r" "le_token r = token" "cd_leases db' = (cd_leases db)(repo := None)"
    have "t = token" if "(repo, t, e) \<in> held" "now < 1000 * e" for t e
      using run_released.IH r(1,2) that unfolding beliefs_ok_def by fastforce
    then show ?thesis using run_released.IH r(3) by (auto simp: beliefs_ok_def forget_iff)
  qed
qed (auto simp: beliefs_ok_def)

text \<open>
  C13: at no time do two holders believe that they have a live lease of the same repository: whatever
  the sequence of acquisitions, renewals, releases and losses, two beliefs that have not expired by the
  clock of the store are the same holder's, with the same expiry.
\<close>

theorem leases_exclude_each_other:
  assumes "lease_run db now held"
    and "(repo, token, e) \<in> held" and "now < 1000 * e"
    and "(repo, token', e') \<in> held" and "now < 1000 * e'"
  shows "token' = token \<and> e' = e"
  using lease_run_beliefs[OF assms(1)] assms(2-5) unfolding beliefs_ok_def by (metis option.inject)

definition lease_example :: "lease_record \<times> control_db" where
  "lease_example = (case acquire_lease 500 empty_control_db ''repo'' ''host'' ''p'' ''t1'' 30 of
     Inr (Lease_Acquired r, db) \<Rightarrow> (r, db))"

lemma lease_example_run: "lease_run (snd lease_example) 500 {(''repo'', ''t1'', 30)}"
proof -
  have "lease_run empty_control_db 500 {}" by (rule run_start) (simp add: empty_control_db_def)
  moreover have "acquire_lease 500 empty_control_db ''repo'' ''host'' ''p'' ''t1'' 30
      = Inr (Lease_Acquired (fst lease_example), snd lease_example)"
    by (simp add: lease_example_def acquire_lease_def empty_control_db_def insert_lease_row_def expiry_def
        secs_def max_second_def Let_def)
  ultimately have "lease_run (snd lease_example) 500
      (insert (''repo'', ''t1'', le_expires (fst lease_example)) (forget ''repo'' ''t1'' {}))" by (rule run_acquired)
  moreover have "le_expires (fst lease_example) = 30"
    by (simp add: lease_example_def acquire_lease_def empty_control_db_def insert_lease_row_def expiry_def
        secs_def max_second_def Let_def)
  ultimately show ?thesis by (simp add: forget_def)
qed

theorem leases_exclude_each_other_witness:
  "\<exists>token' e'. (''repo'', token', e') \<in> {(''repo'', ''t1'', 30)} \<and> token' = ''t1'' \<and> e' = (30::nat)"
  using leases_exclude_each_other[OF lease_example_run, of "''repo''" "''t1''" 30 "''t1''" 30] by simp

section \<open>Sessions\<close>


lemma require_ok_iff:
  "require scope a p x = Inr () \<longleftrightarrow> a \<in> set (cs_authorities scope)
     \<and> (case cs_project_id scope of None \<Rightarrow> True | Some q \<Rightarrow> q = p)
     \<and> (case x of None \<Rightarrow> True | Some e \<Rightarrow> (case cs_execution_id scope of None \<Rightarrow> True | Some f \<Rightarrow> f = e))"
  by (auto simp: require_def has_authority_def ensure_def split: option.splits)

lemma service_run:
  "io_bind (io_lift (Inl e)) f w = (Inl e, w)" "io_bind (io_lift (Inr a)) f w = f a w"
  "io_bind (query q) f w = f (q (cw_db w)) w"
  by (simp_all add: io_bind_def io_lift_def query_def)

lemma authenticate_eq:
  "authenticate se credential w = (ok_or (denied ''a valid minted session is required'')
     (session (se_now se) (cw_db w) (credential_hash se credential)), w)"
  by (simp add: authenticate_def service_run io_lift_def)

lemma find_not_here: "\<not> list_ex P xs \<Longrightarrow> find (\<lambda>x. P x \<and> Q x) (xs @ [y]) = (if P y \<and> Q y then Some y else None)"
  by (induction xs) auto

lemma mint_sessionD:
  assumes "mint_session se issuer scope ttl w = (Inr g, w1)"
  shows "cg_scope g = scope" "cg_expires g = secs (se_now se) + nat (max ttl 1)"
    "cd_sessions (cw_db w1) = cd_sessions (cw_db w) @ [\<lparr>cn_hash = credential_hash se (cg_credential g),
       cn_scope = scope, cn_expires = cg_expires g, cn_revoked = None\<rparr>]"
    "\<not> list_ex (\<lambda>n. cn_hash n = credential_hash se (cg_credential g)) (cd_sessions (cw_db w))"
  using assms
  by (auto simp: mint_session_def io_fail_def io_bind_def io_return_def transact_unit_def transact_def store_session_def
      Let_def rbind_Inr_iff rbind_Inl_iff split: if_splits option.splits sum.splits prod.splits)

text \<open>
  A minted credential stands for exactly the scope it was minted with, until it expires or is revoked:
  before its expiry it authenticates to that scope, afterwards and once revoked it is refused, and
  authenticating changes nothing.
\<close>

lemma minted_session_authenticates:
  assumes "mint_session se issuer scope ttl w = (Inr g, w1)" and "se_sha256 se' = se_sha256 se"
    and "service_revoke_session se'' (cg_credential g) w1 = (Inr b, w2)" and "se_sha256 se'' = se_sha256 se"
  shows "authenticate se' (cg_credential g) w1 =
      (if secs (se_now se') < cg_expires g then Inr scope
       else Inl (denied ''a valid minted session is required''), w1)
    \<and> b \<and> authenticate se' (cg_credential g) w2 = (Inl (denied ''a valid minted session is required''), w2)"
proof -
  note m = mint_sessionD[OF assms(1)]
  let ?h = "credential_hash se (cg_credential g)"
  let ?n = "\<lparr>cn_hash = ?h, cn_scope = scope, cn_expires = cg_expires g, cn_revoked = None\<rparr>"
  have h: "credential_hash se' c = credential_hash se c" "credential_hash se'' c = credential_hash se c" for c
    using assms(2,4) by (simp_all add: credential_hash_def)
  have found: "find (\<lambda>n. cn_hash n = ?h \<and> cn_revoked n = None \<and> secs t < cn_expires n) (cd_sessions (cw_db w1))
      = (if secs t < cg_expires g then Some ?n else None)" for t
    unfolding m(3) using find_not_here[OF m(4), of "\<lambda>n. cn_revoked n = None \<and> secs t < cn_expires n" ?n] by simp
  have w2: "b = list_ex (\<lambda>n. cn_hash n = ?h \<and> cn_revoked n = None) (cd_sessions (cw_db w1))"
    "cd_sessions (cw_db w2) = map (\<lambda>n. if cn_hash n = ?h \<and> cn_revoked n = None
            then n\<lparr>cn_revoked := Some (secs (se_now se''))\<rparr> else n) (cd_sessions (cw_db w1))"
    using assms(3) by (auto simp: service_revoke_session_def transact_def revoke_session_def h)
  have gone: "find (\<lambda>n. cn_hash n = ?h \<and> cn_revoked n = None \<and> secs t < cn_expires n) (cd_sessions (cw_db w2)) = None" for t
    unfolding w2(2) by (auto simp: find_None_iff)
  have "b" by (simp add: w2(1) m(3))
  then show ?thesis
    by (simp add: authenticate_eq session_def h found gone ok_or_def)
qed

definition example_env :: service_env where
  "example_env = \<lparr>se_control = \<lparr>cx_json_ok = (\<lambda>s. s \<noteq> []), cx_reason_json = (\<lambda>s. s), cx_reason_of = Some,
       cx_datetime = show_nat\<rparr>, se_now = 5000, se_sha256 = map of_char, se_random = Some [1, 255],
     se_exists = (\<lambda>_. True), se_warrant = (\<lambda>_. None)\<rparr>"

definition example_mint :: "(familiar_error + capability_grant) \<times> control_world" where
  "example_mint = mint_session example_env internal_scope internal_scope 10
     \<lparr>cw_db = empty_control_db, cw_signals = []\<rparr>"

lemma example_mint_is: "\<exists>g w1. example_mint = (Inr g, w1) \<and> cg_expires g = 15"
  by (simp add: example_mint_def mint_session_def example_env_def internal_scope_def io_bind_def io_return_def
      transact_unit_def transact_def store_session_def empty_control_db_def io_lift_def Let_def secs_def)

lemma minted_session_authenticates_witness:
  "\<exists>g w1. example_mint = (Inr g, w1) \<and> authenticate example_env (cg_credential g) w1 = (Inr internal_scope, w1)"
proof -
  obtain g w1 where e: "example_mint = (Inr g, w1)" "cg_expires g = 15" using example_mint_is by metis
  have "mint_session example_env internal_scope internal_scope 10 \<lparr>cw_db = empty_control_db, cw_signals = []\<rparr> = (Inr g, w1)"
    using e(1) by (simp add: example_mint_def)
  moreover obtain b w2 where "service_revoke_session example_env (cg_credential g) w1 = (Inr b, w2)"
    by (simp add: service_revoke_session_def transact_def revoke_session_def)
  ultimately have "authenticate example_env (cg_credential g) w1 =
      (if secs (se_now example_env) < cg_expires g then Inr internal_scope
       else Inl (denied ''a valid minted session is required''), w1)"
    using minted_session_authenticates[OF _ refl _ refl] by blast
  moreover have "secs (se_now example_env) = 5" by (simp add: example_env_def secs_def)
  ultimately show ?thesis using e by auto
qed

section \<open>What an agent can change\<close>

lemma transact_cases:
  "transact f w = (r, w') \<Longrightarrow> (\<exists>e. r = Inl e \<and> w' = w \<and> f (cw_db w) = Inl e)
     \<or> (\<exists>a db. r = Inr a \<and> w' = w\<lparr>cw_db := db\<rparr> \<and> f (cw_db w) = Inr (a, db))"
  by (auto simp: transact_def split: sum.splits prod.splits)



lemma has_authority_iff: "has_authority scope a = Inr () \<longleftrightarrow> a \<in> set (cs_authorities scope)"
  by (auto simp: has_authority_def ensure_def)










end
