(* ===== verification/Context_Compiler.thy ===== *)
theory Context_Compiler
  imports Prd_Document Utf8
begin

text \<open>
  The documents an agent gets with a PRD: \<open>crates/familiar-ai-context/src/lib.rs\<close>, over the token
  estimate of \<open>crates/familiar-ai-tokens/src/lib.rs\<close>. The compiler finds the repository and the PRD,
  scans the PRD for references below the configured roots, reads what they name, and adds up the tokens.

  The file system and git at one instant are the fields of \<open>compile_env\<close>. A path is its text; the
  operations of \<open>std::path\<close> are written over its components, as they are for the canonical paths to
  which the code applies them.
\<close>

section \<open>Tokens\<close>

text \<open>\<open>chars().count()\<close> is the number of bytes that begin a character.\<close>

definition char_count :: "string \<Rightarrow> nat" where
  "char_count s = length (filter (\<lambda>c. \<not> continuation c) s)"

definition estimate_tokens :: "string \<Rightarrow> nat" where
  "estimate_tokens s = (char_count s + 3) div 4"

section \<open>Types\<close>

datatype reference_kind = Ref_Prd | Ref_Adr | Ref_Contract | Ref_Supporting

record reference_root =
  rr_prefix :: string
  rr_kind :: reference_kind

record context_profile =
  cp_active_dir :: string
  cp_roots :: "reference_root list"

definition default_profile :: context_profile where
  "default_profile = \<lparr>cp_active_dir = ''docs/prds'',
     cp_roots = map (\<lambda>(p, k). \<lparr>rr_prefix = p, rr_kind = k\<rparr>)
       [(''docs/adr/'', Ref_Adr), (''docs/contracts/'', Ref_Contract), (''docs/supporting/'', Ref_Supporting)]\<rparr>"

datatype document_kind = Doc_Prd | Doc_Adr | Doc_Contract | Doc_Supporting

datatype inclusion_reason = RequestedPrd | DirectReference string

record context_document =
  dc_path :: string
  dc_kind :: document_kind
  dc_content :: string
  dc_inclusion :: inclusion_reason
  dc_tokens :: u64

record repository_context =
  rx_repository :: string
  rx_worktree :: string
  rx_commit :: "string option"

record execution_context =
  ec_repository :: repository_context
  ec_prd :: context_document
  ec_documents :: "context_document list"
  ec_tokens :: u64

datatype context_error =
  RepositoryInput string io_error
| Git_Error string string string
| InvalidPrd string string
| ReadPrd string io_error
| InvalidReference string string
| MissingReference string
| ReadReference string io_error
| TokenEstimateOverflow string
| AggregateTokenOverflow

definition retention_class :: "context_error \<Rightarrow> string" where
  "retention_class e =
     (case e of MissingReference _ \<Rightarrow> ''missing_authoritative_input_reference''
      | ReadReference _ _ \<Rightarrow> ''unreadable_reference''
      | _ \<Rightarrow> ''context_compilation_failed'')"

section \<open>Paths\<close>

definition path_absolute :: "string \<Rightarrow> bool" where
  "path_absolute p = starts_with p [slash]"

definition path_push :: "string \<Rightarrow> string \<Rightarrow> string" where
  "path_push base p =
     (if path_absolute p then p
      else if base = [] \<or> ends_with base [slash] then base @ p else base @ [slash] @ p)"

definition path_relative_to :: "string \<Rightarrow> string \<Rightarrow> string list option" where
  "path_relative_to base p =
     (if path_absolute p = path_absolute base \<and> take (length (path_comps base)) (path_comps p) = path_comps base
      then Some (drop (length (path_comps base)) (path_comps p)) else None)"

definition path_within :: "string \<Rightarrow> string \<Rightarrow> bool" where
  "path_within base p \<longleftrightarrow> path_relative_to base p \<noteq> None"

text \<open>\<open>Path::extension\<close>: after the last dot of the last component, if something precedes that dot.\<close>

definition path_extension :: "string \<Rightarrow> string option" where
  "path_extension p =
     (case rev (path_comps p) of
        [] \<Rightarrow> None
      | name # _ \<Rightarrow>
        if name = ''..'' then None
        else (case rev (split_char (CHR ''.'') name) of
                e # _ # _ \<Rightarrow> if length name = Suc (length e) then None else Some e
              | _ \<Rightarrow> None))"

section \<open>Finding references\<close>

definition reference_char :: "char \<Rightarrow> bool" where
  "reference_char c \<longleftrightarrow> is_digit c \<or> is_lower (ascii_lower c) \<or> c = slash \<or> c = CHR ''-'' \<or> c = CHR ''_'' \<or> c = CHR ''.''"

definition document_kind_of :: "reference_kind \<Rightarrow> document_kind" where
  "document_kind_of k = (case k of Ref_Prd \<Rightarrow> Doc_Prd | Ref_Adr \<Rightarrow> Doc_Adr
     | Ref_Contract \<Rightarrow> Doc_Contract | Ref_Supporting \<Rightarrow> Doc_Supporting)"

definition trim_end_char :: "char \<Rightarrow> string \<Rightarrow> string" where
  "trim_end_char c s = rev (dropWhile (\<lambda>x. x = c) (rev s))"

text \<open>
  The loop of \<open>discover_roots\<close> over the occurrences of one prefix. It advances past the run of name
  characters that begins at the occurrence; nothing in the code makes that run non-empty.
\<close>

partial_function (option) scan_references :: "string \<Rightarrow> string \<Rightarrow> string list option" where
  "scan_references prefix rest =
     (case find_sub prefix rest of
        None \<Rightarrow> Some []
      | Some i \<Rightarrow>
        Option.bind (scan_references prefix (dropWhile reference_char (drop i rest)))
          (\<lambda>refs. Some
            (let word = trim_end_char (CHR ''.'') (takeWhile reference_char (drop i rest)) in
             if (i = 0 \<or> \<not> reference_char (rest ! (i - 1))) \<and> ends_with word ''.md'' then word # refs else refs)))"

declare scan_references.simps [code]

text \<open>The insertions into the map of references, in order; a later one replaces an earlier one.\<close>

fun discover_roots ::
    "string \<Rightarrow> (string \<times> string \<times> document_kind) list \<Rightarrow> (string \<times> string \<times> document_kind) list option" where
  "discover_roots content [] = Some []"
| "discover_roots content ((prefix, root, kind) # roots) =
     Option.bind (scan_references prefix content) (\<lambda>refs.
     Option.bind (discover_roots content roots) (\<lambda>rest.
     Some (map (\<lambda>r. (r, root, kind)) refs @ rest)))"

definition discover_profiled ::
    "string \<Rightarrow> reference_root list \<Rightarrow> (string \<times> string \<times> document_kind) list option" where
  "discover_profiled content roots =
     discover_roots content
       (map (\<lambda>r. (rr_prefix r, trim_end_char slash (rr_prefix r), document_kind_of (rr_kind r))) roots)"

section \<open>Reading the repository\<close>

datatype git_run = Git_Not_Run string | Git_Ran bool string string

record compile_env =
  ce_canonicalize :: "string \<Rightarrow> io_error + string"
  ce_is_file :: "string \<Rightarrow> bool"
  ce_absent :: "string \<Rightarrow> bool"
  ce_read :: "string \<Rightarrow> io_error + string"
  ce_git :: "string \<Rightarrow> string list \<Rightarrow> git_run"
  ce_utf8_error :: "string \<Rightarrow> string"

definition required_git :: "compile_env \<Rightarrow> string \<Rightarrow> string list \<Rightarrow> string \<Rightarrow> context_error + string" where
  "required_git ce cwd args operation =
     (case ce_git ce cwd args of
        Git_Not_Run e \<Rightarrow> Inl (Git_Error operation cwd e)
      | Git_Ran ok out err \<Rightarrow>
        if \<not> ok then Inl (Git_Error operation cwd (trim (utf8_lossy err)))
        else if \<not> utf8_valid out then Inl (Git_Error operation cwd (ce_utf8_error ce out))
        else if trim out = [] then Inl (Git_Error operation cwd ''empty output'')
        else Inr (trim out))"

definition optional_git :: "compile_env \<Rightarrow> string \<Rightarrow> string list \<Rightarrow> string option" where
  "optional_git ce cwd args =
     (case ce_git ce cwd args of
        Git_Ran True out _ \<Rightarrow> if utf8_valid out \<and> trim out \<noteq> [] then Some (trim out) else None
      | _ \<Rightarrow> None)"

definition document :: "string \<Rightarrow> document_kind \<Rightarrow> string \<Rightarrow> inclusion_reason \<Rightarrow> context_error + context_document" where
  "document path kind content inclusion =
     (if 2 ^ 64 \<le> estimate_tokens content then Inl (TokenEstimateOverflow path)
      else Inr \<lparr>dc_path = path, dc_kind = kind, dc_content = content, dc_inclusion = inclusion,
                dc_tokens = word_of_nat (estimate_tokens content)\<rparr>)"

definition validate_prd ::
    "compile_env \<Rightarrow> string \<Rightarrow> string \<Rightarrow> string \<Rightarrow> string \<Rightarrow> context_error + string" where
  "validate_prd ce worktree input supplied active_dir =
     rbind (ensure (supplied \<noteq> []) (InvalidPrd supplied ''PRD path cannot be empty'')) (\<lambda>_.
     let candidate = path_push input supplied; dir = path_push worktree active_dir in
     rbind (map_err (\<lambda>e. InvalidPrd candidate (''cannot resolve path: '' @ io_message e)) (ce_canonicalize ce candidate))
       (\<lambda>path.
     rbind (map_err (\<lambda>e. InvalidPrd dir (''cannot resolve repository PRD directory: '' @ io_message e))
         (ce_canonicalize ce dir)) (\<lambda>root.
     rbind (ensure (path_within worktree root)
         (InvalidPrd root ''repository PRD directory escapes the worktree'')) (\<lambda>_.
     rbind (ensure (path_within root path)
         (InvalidPrd path (''path must be contained in '' @ root))) (\<lambda>_.
     rbind (ensure (ce_is_file ce path) (InvalidPrd path ''path is not a regular file'')) (\<lambda>_.
     rbind (ensure (path_extension path = Some ''md'') (InvalidPrd path ''path must have a .md extension'')) (\<lambda>_.
     Inr path)))))))"

definition validate_reference ::
    "compile_env \<Rightarrow> string \<Rightarrow> string \<Rightarrow> string \<Rightarrow> context_error + string" where
  "validate_reference ce worktree relative root =
     rbind (map_err (\<lambda>e. case e of
           Io_Not_Found _ \<Rightarrow> MissingReference relative
         | Io_Other m \<Rightarrow> InvalidReference relative (''cannot be resolved: '' @ m))
         (ce_canonicalize ce (path_push worktree relative))) (\<lambda>path.
     rbind (map_err (\<lambda>e. InvalidReference relative
             (''cannot resolve allowed documentation directory: '' @ io_message e))
         (ce_canonicalize ce (path_push worktree root))) (\<lambda>allowed.
     rbind (ensure (path_within worktree allowed)
         (InvalidReference relative ''allowed documentation directory escapes the worktree'')) (\<lambda>_.
     rbind (ensure (path_within allowed path \<and> ce_is_file ce path)
         (InvalidReference relative ''path escapes its documentation directory or is not a regular file'')) (\<lambda>_.
     rbind (ensure (path_extension path = Some ''md'')
         (InvalidReference relative ''path must have a .md extension'')) (\<lambda>_. Inr path)))))"

definition document_identity :: "string \<Rightarrow> string \<Rightarrow> string + string" where
  "document_identity worktree path =
     (case path_relative_to worktree path of
        None \<Rightarrow> Inl ''prefix not found''
      | Some comps \<Rightarrow> Inr (map (\<lambda>c. if c = backslash then slash else c) (utf8_lossy (join [slash] comps))))"

section \<open>Compilation\<close>

record located =
  lo_worktree :: string
  lo_repository :: string
  lo_input :: string

definition locate_repository :: "compile_env \<Rightarrow> string \<Rightarrow> context_error + located" where
  "locate_repository ce repository =
     rbind (map_err (RepositoryInput repository) (ce_canonicalize ce repository)) (\<lambda>input.
     rbind (required_git ce input [''rev-parse'', ''--show-toplevel''] ''rev-parse --show-toplevel'') (\<lambda>top.
     rbind (map_err (RepositoryInput input) (ce_canonicalize ce top)) (\<lambda>worktree.
     rbind (required_git ce worktree [''rev-parse'', ''--git-common-dir''] ''rev-parse --git-common-dir'') (\<lambda>common.
     rbind (map_err (RepositoryInput worktree) (ce_canonicalize ce (path_push worktree common))) (\<lambda>repo.
     Inr \<lparr>lo_worktree = worktree, lo_repository = repo, lo_input = input\<rparr>)))))"

text \<open>
  The first loop: each reference, in the order of its text, is skipped when it is a planned output that
  does not exist, and otherwise resolved. The first reference to a document decides its kind.
\<close>

fun validate_candidates ::
    "compile_env \<Rightarrow> string \<Rightarrow> string list \<Rightarrow> (string \<times> string \<times> document_kind) list
     \<Rightarrow> (string \<times> string \<times> document_kind) list \<Rightarrow> context_error + (string \<times> string \<times> document_kind) list" where
  "validate_candidates ce worktree planned [] found = Inr found"
| "validate_candidates ce worktree planned ((relative, root, kind) # rest) found =
     (if relative \<in> set planned \<and> ce_absent ce (path_push worktree relative)
      then validate_candidates ce worktree planned rest found
      else
        rbind (validate_reference ce worktree relative root) (\<lambda>path.
        rbind (map_err (InvalidReference relative) (document_identity worktree path)) (\<lambda>ident.
        validate_candidates ce worktree planned rest
          (if map_of found ident = None then found @ [(ident, path, kind)] else found))))"

fun read_documents ::
    "compile_env \<Rightarrow> string \<Rightarrow> (string \<times> string \<times> document_kind) list \<Rightarrow> context_error + context_document list" where
  "read_documents ce prd [] = Inr []"
| "read_documents ce prd ((ident, path, kind) # rest) =
     rbind (map_err (ReadReference path) (ce_read ce path)) (\<lambda>content.
     rbind (document ident kind content (DirectReference prd)) (\<lambda>d.
     rbind (read_documents ce prd rest) (\<lambda>ds. Inr (d # ds))))"

fun sum_tokens :: "u64 \<Rightarrow> context_document list \<Rightarrow> context_error + u64" where
  "sum_tokens acc [] = Inr acc"
| "sum_tokens acc (d # ds) =
     (case checked_add64 acc (dc_tokens d) of
        None \<Rightarrow> Inl AggregateTokenOverflow
      | Some t \<Rightarrow> sum_tokens t ds)"

definition planned_outputs :: "string \<Rightarrow> string \<Rightarrow> context_error fault + string list" where
  "planned_outputs path content =
     (case structured_prd_metadata content of
        Inl (Err e) \<Rightarrow> Inl (Err (InvalidPrd path (show_backlog_error e)))
      | Inl Panic \<Rightarrow> Inl Panic
      | Inr m \<Rightarrow> Inr (case m of Some m \<Rightarrow> md_expected_files m | None \<Rightarrow> []))"

text \<open>\<open>None\<close> is a run that does not return: the scan for references has no bound.\<close>

definition gather_documents ::
    "compile_env \<Rightarrow> context_profile \<Rightarrow> string \<Rightarrow> context_document \<Rightarrow> string list
     \<Rightarrow> (context_error + context_document list) option" where
  "gather_documents ce profile worktree prd planned =
     Option.bind (discover_profiled (dc_content prd) (cp_roots profile)) (\<lambda>inserted. Some
       (rbind (validate_candidates ce worktree planned
            (map (\<lambda>r. (r, the (collect_map inserted r))) (sorted_keys inserted)) [])
          (\<lambda>found. read_documents ce (dc_path prd) (sort_key fst found))))"

definition compile_profiled ::
    "compile_env \<Rightarrow> string \<Rightarrow> string \<Rightarrow> context_profile \<Rightarrow> (context_error fault + execution_context) option" where
  "compile_profiled ce repository supplied profile =
     (case rbind (locate_repository ce repository) (\<lambda>at.
           rbind (validate_prd ce (lo_worktree at) (lo_input at) supplied (cp_active_dir profile)) (\<lambda>path.
           rbind (map_err (InvalidPrd path) (document_identity (lo_worktree at) path)) (\<lambda>ident.
           rbind (map_err (ReadPrd path) (ce_read ce path)) (\<lambda>content. Inr (at, path, ident, content))))) of
        Inl e \<Rightarrow> Some (Inl (Err e))
      | Inr (at, path, ident, content) \<Rightarrow>
        (case rbind (planned_outputs path content) (\<lambda>planned.
              rbind (map_err Err (document ident Doc_Prd content RequestedPrd)) (\<lambda>prd. Inr (planned, prd))) of
           Inl e \<Rightarrow> Some (Inl e)
         | Inr (planned, prd) \<Rightarrow>
           map_option (\<lambda>r. map_err Err (rbind r (\<lambda>docs. rbind (sum_tokens (dc_tokens prd) docs) (\<lambda>total.
               Inr \<lparr>ec_repository = \<lparr>rx_repository = lo_repository at, rx_worktree = lo_worktree at,
                      rx_commit = optional_git ce (lo_worktree at) [''rev-parse'', ''--verify'', ''HEAD'']\<rparr>,
                    ec_prd = prd, ec_documents = docs, ec_tokens = total\<rparr>))))
             (gather_documents ce profile (lo_worktree at) prd planned)))"

section \<open>Rendering\<close>

definition reference_kind_text :: "reference_kind \<Rightarrow> string" where
  "reference_kind_text k = (case k of Ref_Prd \<Rightarrow> ''prd'' | Ref_Adr \<Rightarrow> ''adr''
     | Ref_Contract \<Rightarrow> ''contract'' | Ref_Supporting \<Rightarrow> ''supporting'')"

definition render_stable_prefix :: "execution_context \<Rightarrow> context_profile \<Rightarrow> string \<Rightarrow> string" where
  "render_stable_prefix ec profile policy =
     ''# Familiar execution request'' @ [nl, nl] @ ''Implement the PRD below in this repository.'' @ [nl, nl]
     @ ''## Stable repository context'' @ [nl, nl]
     @ ''Git revision: '' @ (case rx_commit (ec_repository ec) of Some c \<Rightarrow> c | None \<Rightarrow> ''unborn'')
     @ [nl] @ ''Active PRD directory: '' @ cp_active_dir profile @ [nl] @ ''Reference roots:'' @ [nl]
     @ concat (map (\<lambda>r. ''- '' @ rr_prefix r @ '' ('' @ reference_kind_text (rr_kind r) @ '')'' @ [nl]) (cp_roots profile))
     @ [nl] @ ''## Fixed execution constraints'' @ [nl, nl] @ policy
     @ concat (map (\<lambda>d. [nl, nl] @ ''## Authoritative reference: '' @ dc_path d @ [nl, nl] @ dc_content d @ [nl])
         (ec_documents ec))
     @ [nl] @ ''## Volatile execution data'' @ [nl, nl]"

definition render_stable_prefix_with_map ::
    "execution_context \<Rightarrow> context_profile \<Rightarrow> string \<Rightarrow> string option \<Rightarrow> string" where
  "render_stable_prefix_with_map ec profile policy repository_map =
     render_stable_prefix ec profile policy
     @ (case repository_map of
          None \<Rightarrow> []
        | Some m \<Rightarrow> [nl] @ ''## Maintained repository symbol map'' @ [nl, nl] @ utf8_lossy m @ [nl])"

end
