(* ===== verification/Context_Budget.thy ===== *)
theory Context_Budget
  imports Context_Compiler
begin

text \<open>
  The hard ceiling on the tokens of a compiled context: \<open>crates/familiar-ai-context/src/budget.rs\<close>. The
  PRD is mandatory; the referenced documents are taken greedily in the order of their kind and path. The index of a
  decision is the length of a vector, which fits 64 bits.
\<close>

section \<open>Types\<close>

datatype context_priority = Prio_Prd | Prio_Contract | Prio_Adr | Prio_Supporting

datatype inclusion = RequestedPrdMandatory | FitsWithinRemainingBudget u64 u64

datatype exclusion = ExceedsRemainingBudget u64 u64

datatype budget_outcome = Included inclusion | Excluded exclusion

record budget_decision =
  bd_path :: string
  bd_kind :: document_kind
  bd_tokens :: u64
  bd_priority :: context_priority
  bd_index :: nat
  bd_outcome :: budget_outcome

record budget_report =
  br_ceiling :: u64
  br_input :: u64
  br_included :: u64
  br_excluded :: u64
  br_decisions :: "budget_decision list"

record budgeted_context =
  bc_context :: execution_context
  bc_report :: budget_report

datatype budget_error =
  PrdExceedsHardCeiling string u64 u64
| InvalidPrdDocument string
| InvalidDirectDocument string
| DuplicatePath string
| MalformedPath string
| InconsistentDocumentEstimate string u64 u64
| InconsistentAggregateEstimate u64 u64
| TokenArithmeticOverflow

section \<open>Validation\<close>

definition validate_path :: "string \<Rightarrow> budget_error + unit" where
  "validate_path p =
     ensure (\<not> (p = [] \<or> starts_with p [slash] \<or> backslash \<in> set p
               \<or> list_ex (\<lambda>c. c = [] \<or> c = ''.'' \<or> c = ''..'') (split_char slash p))) (MalformedPath p)"

definition validate_estimate :: "context_document \<Rightarrow> budget_error + u64" where
  "validate_estimate d =
     (if 2 ^ 64 \<le> estimate_tokens (dc_content d) then Inl TokenArithmeticOverflow
      else let expected = word_of_nat (estimate_tokens (dc_content d)) in
        if expected \<noteq> dc_tokens d
        then Inl (InconsistentDocumentEstimate (dc_path d) expected (dc_tokens d)) else Inr expected)"

definition add_tokens :: "u64 \<Rightarrow> u64 \<Rightarrow> budget_error + u64" where
  "add_tokens a b = ok_or TokenArithmeticOverflow (checked_add64 a b)"

fun validate_documents ::
    "string \<Rightarrow> string list \<Rightarrow> u64 \<Rightarrow> context_document list \<Rightarrow> budget_error + u64" where
  "validate_documents prd seen acc [] = Inr acc"
| "validate_documents prd seen acc (d # ds) =
     rbind (validate_path (dc_path d)) (\<lambda>_.
     if dc_path d \<in> set seen then Inl (DuplicatePath (dc_path d))
     else if dc_kind d = Doc_Prd \<or> dc_inclusion d \<noteq> DirectReference prd
     then Inl (InvalidDirectDocument (dc_path d))
     else rbind (validate_estimate d) (\<lambda>n. rbind (add_tokens acc n) (\<lambda>acc'.
          validate_documents prd (dc_path d # seen) acc' ds)))"

definition validate_context :: "execution_context \<Rightarrow> budget_error + unit" where
  "validate_context ec =
     (let prd = ec_prd ec in
      rbind (validate_path (dc_path prd)) (\<lambda>_.
      if dc_kind prd \<noteq> Doc_Prd \<or> dc_inclusion prd \<noteq> RequestedPrd then Inl (InvalidPrdDocument (dc_path prd))
      else rbind (validate_estimate prd) (\<lambda>n.
        rbind (validate_documents (dc_path prd) [dc_path prd] n (ec_documents ec)) (\<lambda>acc.
        ensure (acc = ec_tokens ec) (InconsistentAggregateEstimate acc (ec_tokens ec))))))"

section \<open>The budget\<close>

definition priority :: "document_kind \<Rightarrow> context_priority" where
  "priority k = (case k of Doc_Contract \<Rightarrow> Prio_Contract | Doc_Adr \<Rightarrow> Prio_Adr
     | Doc_Supporting \<Rightarrow> Prio_Supporting | Doc_Prd \<Rightarrow> Prio_Prd)"

text \<open>The derived order of \<open>ContextPriority\<close> is that of its constructors.\<close>

definition priority_rank :: "context_priority \<Rightarrow> nat" where
  "priority_rank p = (case p of Prio_Prd \<Rightarrow> 0 | Prio_Contract \<Rightarrow> 1 | Prio_Adr \<Rightarrow> 2 | Prio_Supporting \<Rightarrow> 3)"

definition ranked :: "context_document list \<Rightarrow> context_document list" where
  "ranked ds = sort_key (\<lambda>d. (priority_rank (priority (dc_kind d)), dc_path d)) ds"

definition decision :: "context_document \<Rightarrow> context_priority \<Rightarrow> nat \<Rightarrow> budget_outcome \<Rightarrow> budget_decision" where
  "decision d p i out = \<lparr>bd_path = dc_path d, bd_kind = dc_kind d, bd_tokens = dc_tokens d, bd_priority = p,
     bd_index = i, bd_outcome = out\<rparr>"

definition checked_sub64 :: "u64 \<Rightarrow> u64 \<Rightarrow> u64 option" where
  "checked_sub64 a b = (if b \<le> a then Some (a - b) else None)"

record budget_state =
  bs_used :: u64
  bs_excluded :: u64
  bs_selected :: "string list"
  bs_decisions :: "budget_decision list"

definition budget_one :: "u64 \<Rightarrow> context_document \<Rightarrow> budget_state \<Rightarrow> budget_error + budget_state" where
  "budget_one ceiling d st =
     rbind (ok_or TokenArithmeticOverflow (checked_sub64 ceiling (bs_used st))) (\<lambda>remaining.
     rbind
       (if dc_tokens d \<le> remaining
        then rbind (ok_or TokenArithmeticOverflow (checked_sub64 remaining (dc_tokens d))) (\<lambda>after.
             rbind (add_tokens (bs_used st) (dc_tokens d)) (\<lambda>used.
             Inr (Included (FitsWithinRemainingBudget remaining after),
                  st\<lparr>bs_used := used, bs_selected := dc_path d # bs_selected st\<rparr>)))
        else rbind (add_tokens (bs_excluded st) (dc_tokens d)) (\<lambda>ex.
             Inr (Excluded (ExceedsRemainingBudget (dc_tokens d) remaining), st\<lparr>bs_excluded := ex\<rparr>)))
       (\<lambda>(out, st'). Inr (st'\<lparr>bs_decisions := bs_decisions st'
          @ [decision d (priority (dc_kind d)) (length (bs_decisions st')) out]\<rparr>)))"

fun budget_all :: "u64 \<Rightarrow> context_document list \<Rightarrow> budget_state \<Rightarrow> budget_error + budget_state" where
  "budget_all ceiling [] st = Inr st"
| "budget_all ceiling (d # ds) st = rbind (budget_one ceiling d st) (budget_all ceiling ds)"

definition budget :: "execution_context \<Rightarrow> u64 \<Rightarrow> budget_error + budgeted_context" where
  "budget ec ceiling =
     rbind (validate_context ec) (\<lambda>_.
     if ceiling < dc_tokens (ec_prd ec)
     then Inl (PrdExceedsHardCeiling (dc_path (ec_prd ec)) (dc_tokens (ec_prd ec)) ceiling)
     else
       rbind (budget_all ceiling (ranked (ec_documents ec))
           \<lparr>bs_used = dc_tokens (ec_prd ec), bs_excluded = 0, bs_selected = [],
            bs_decisions = [decision (ec_prd ec) Prio_Prd 0 (Included RequestedPrdMandatory)]\<rparr>) (\<lambda>st.
       rbind (add_tokens (bs_used st) (bs_excluded st)) (\<lambda>reconciled.
       if reconciled \<noteq> ec_tokens ec then Inl (InconsistentAggregateEstimate reconciled (ec_tokens ec))
       else Inr \<lparr>bc_context = ec\<lparr>ec_documents := filter (\<lambda>d. dc_path d \<in> set (bs_selected st)) (ec_documents ec),
                                ec_tokens := bs_used st\<rparr>,
                 bc_report = \<lparr>br_ceiling = ceiling, br_input = ec_tokens ec, br_included = bs_used st,
                              br_excluded = bs_excluded st, br_decisions = bs_decisions st\<rparr>\<rparr>)))"

section \<open>Sums\<close>

definition token_sum :: "context_document list \<Rightarrow> nat" where
  "token_sum ds = (\<Sum>d\<leftarrow>ds. unat (dc_tokens d))"

lemma token_sum_simps [simp]: "token_sum [] = 0" "token_sum (d # ds) = unat (dc_tokens d) + token_sum ds"
  by (simp_all add: token_sum_def)

lemma token_sum_mset: "mset xs = mset ys \<Longrightarrow> token_sum xs = token_sum ys"
  unfolding token_sum_def by (metis mset_map sum_mset_sum_list)

lemma add_tokens_Inr: "add_tokens a b = Inr c \<longleftrightarrow> unat a + unat b < 2 ^ 64 \<and> c = a + b"
  by (auto simp: add_tokens_def ok_or_def checked_add64_def)

lemma unat_below: "unat (a :: u64) < 2 ^ 64"
  using unsigned_less[of a] by simp

lemma unat_add64: "unat a + unat b < 2 ^ 64 \<Longrightarrow> unat (a + b) = unat a + unat (b :: u64)"
  by (simp add: unat_word_ariths)

lemma checked_sub64_simps: "checked_sub64 a b = Some c \<longleftrightarrow> b \<le> a \<and> c = a - b"
  by (auto simp: checked_sub64_def)

lemma validate_documents_sum:
  assumes "validate_documents prd seen acc ds = Inr r"
  shows "unat r = unat acc + token_sum ds" "distinct (map dc_path ds)" "dc_path ` set ds \<inter> set seen = {}"
proof -
  have "unat r = unat acc + token_sum ds \<and> distinct (map dc_path ds) \<and> dc_path ` set ds \<inter> set seen = {}"
    using assms
  proof (induction ds arbitrary: seen acc)
    case (Cons d ds)
    obtain n acc' where "validate_estimate d = Inr n" "add_tokens acc n = Inr acc'" "dc_path d \<notin> set seen"
      and rest: "validate_documents prd (dc_path d # seen) acc' ds = Inr r"
      using Cons.prems by (auto simp: rbind_Inr_iff split: if_splits)
    moreover from this have "n = dc_tokens d" by (auto simp: validate_estimate_def Let_def split: if_splits)
    ultimately have "unat acc' = unat acc + unat (dc_tokens d)" "dc_path d \<notin> set seen"
      by (auto simp: add_tokens_Inr unat_add64)
    then show ?case using Cons.IH[OF rest] by auto
  qed simp
  then show "unat r = unat acc + token_sum ds" "distinct (map dc_path ds)" "dc_path ` set ds \<inter> set seen = {}"
    by simp_all
qed

lemma validate_contextD:
  assumes "validate_context ec = Inr ()"
  shows "unat (ec_tokens ec) = unat (dc_tokens (ec_prd ec)) + token_sum (ec_documents ec)"
    and "distinct (map dc_path (ec_documents ec))"
proof -
  obtain n acc where "validate_estimate (ec_prd ec) = Inr n"
    and docs: "validate_documents (dc_path (ec_prd ec)) [dc_path (ec_prd ec)] n (ec_documents ec) = Inr acc"
    and "acc = ec_tokens ec"
    using assms by (auto simp: validate_context_def Let_def rbind_Inr_iff ensure_def split: if_splits)
  moreover from this have "n = dc_tokens (ec_prd ec)" by (auto simp: validate_estimate_def Let_def split: if_splits)
  ultimately show "unat (ec_tokens ec) = unat (dc_tokens (ec_prd ec)) + token_sum (ec_documents ec)"
    "distinct (map dc_path (ec_documents ec))"
    using validate_documents_sum[OF docs] by simp_all
qed

section \<open>Greedy selection\<close>

text \<open>The same selection over natural numbers: what is left of the ceiling, and what does not fit.\<close>

fun greedy :: "nat \<Rightarrow> context_document list \<Rightarrow> context_document list \<times> context_document list" where
  "greedy room [] = ([], [])"
| "greedy room (d # ds) =
     (if unat (dc_tokens d) \<le> room
      then (let (took, left) = greedy (room - unat (dc_tokens d)) ds in (d # took, left))
      else (let (took, left) = greedy room ds in (took, d # left)))"

lemma greedy_partition: "greedy room ds = (took, left) \<Longrightarrow> mset ds = mset took + mset left"
  by (induction ds arbitrary: room took left) (auto simp: Let_def split: if_splits prod.splits)

lemma greedy_fits: "greedy room ds = (took, left) \<Longrightarrow> token_sum took \<le> room"
proof (induction ds arbitrary: room took left)
  case (Cons d ds)
  then show ?case by (cases "unat (dc_tokens d) \<le> room") (fastforce simp: Let_def split: prod.splits)+
qed simp

lemma greedy_maximal: "greedy room ds = (took, left) \<Longrightarrow> d \<in> set left \<Longrightarrow> room < token_sum took + unat (dc_tokens d)"
proof (induction ds arbitrary: room took left)
  case (Cons a ds)
  show ?case
  proof (cases "unat (dc_tokens a) \<le> room")
    case True
    then obtain took' where "greedy (room - unat (dc_tokens a)) ds = (took', left)" "took = a # took'"
      using Cons.prems(1) by (auto simp: Let_def split: prod.splits)
    then show ?thesis using Cons.IH[OF _ Cons.prems(2)] True by fastforce
  next
    case False
    then obtain left' where "greedy room ds = (took, left')" "left = a # left'"
      using Cons.prems(1) by (auto simp: Let_def split: prod.splits)
    then show ?thesis using Cons.IH[of room took left'] Cons.prems(2) False by auto
  qed
qed simp

lemma budget_one_fits:
  assumes "unat (bs_used st) \<le> unat ceiling" "unat (dc_tokens d) \<le> unat ceiling - unat (bs_used st)"
  obtains st' out where "budget_one ceiling d st = Inr st'" "unat (bs_used st') = unat (bs_used st) + unat (dc_tokens d)"
    "bs_excluded st' = bs_excluded st" "bs_selected st' = dc_path d # bs_selected st"
    "bs_decisions st' = bs_decisions st
       @ [decision d (priority (dc_kind d)) (length (bs_decisions st)) (Included out)]"
proof -
  have le: "bs_used st \<le> ceiling" using assms(1) by (simp add: word_le_nat_alt)
  then have room: "unat (ceiling - bs_used st) = unat ceiling - unat (bs_used st)" by (simp add: unat_sub)
  then have fits: "dc_tokens d \<le> ceiling - bs_used st" using assms(2) by (simp add: word_le_nat_alt)
  have bound: "unat (bs_used st) + unat (dc_tokens d) < 2 ^ 64"
    using assms unat_below[of ceiling] by simp
  then have "add_tokens (bs_used st) (dc_tokens d) = Inr (bs_used st + dc_tokens d)" by (simp add: add_tokens_Inr)
  then show thesis
    using le fits unat_add64[OF bound]
    by (intro that[of "st\<lparr>bs_used := bs_used st + dc_tokens d, bs_selected := dc_path d # bs_selected st,
          bs_decisions := bs_decisions st @ [decision d (priority (dc_kind d)) (length (bs_decisions st))
            (Included (FitsWithinRemainingBudget (ceiling - bs_used st) (ceiling - bs_used st - dc_tokens d)))]\<rparr>"])
      (simp_all add: budget_one_def ok_or_def checked_sub64_def)
qed

lemma budget_one_excludes:
  assumes "unat (bs_used st) \<le> unat ceiling" "unat ceiling - unat (bs_used st) < unat (dc_tokens d)"
    and "unat (bs_excluded st) + unat (dc_tokens d) < 2 ^ 64"
  obtains st' out where "budget_one ceiling d st = Inr st'" "bs_used st' = bs_used st"
    "unat (bs_excluded st') = unat (bs_excluded st) + unat (dc_tokens d)" "bs_selected st' = bs_selected st"
    "bs_decisions st' = bs_decisions st
       @ [decision d (priority (dc_kind d)) (length (bs_decisions st)) (Excluded out)]"
proof -
  have le: "bs_used st \<le> ceiling" using assms(1) by (simp add: word_le_nat_alt)
  then have room: "unat (ceiling - bs_used st) = unat ceiling - unat (bs_used st)" by (simp add: unat_sub)
  then have large: "\<not> dc_tokens d \<le> ceiling - bs_used st" using assms(2) by (simp add: word_le_nat_alt)
  have "add_tokens (bs_excluded st) (dc_tokens d) = Inr (bs_excluded st + dc_tokens d)"
    using assms(3) by (simp add: add_tokens_Inr)
  then show thesis
    using le large unat_add64[OF assms(3)]
    by (intro that[of "st\<lparr>bs_excluded := bs_excluded st + dc_tokens d,
          bs_decisions := bs_decisions st @ [decision d (priority (dc_kind d)) (length (bs_decisions st))
            (Excluded (ExceedsRemainingBudget (dc_tokens d) (ceiling - bs_used st)))]\<rparr>"])
      (simp_all add: budget_one_def ok_or_def checked_sub64_def)
qed

definition decided_on :: "context_document list \<Rightarrow> nat \<Rightarrow> budget_decision list \<Rightarrow> bool" where
  "decided_on ds i bs \<longleftrightarrow> map bd_path bs = map dc_path ds \<and> map bd_index bs = [i..<i + length ds]"

lemma decided_on_Cons:
  "decided_on (d # ds) i (b # bs) \<longleftrightarrow> bd_path b = dc_path d \<and> bd_index b = i \<and> decided_on ds (Suc i) bs"
  by (auto simp: decided_on_def upt_conv_Cons simp del: upt_Suc)

text \<open>The loop over machine integers is the greedy selection, and reports on every document in turn.\<close>

lemma budget_all_greedy:
  assumes "unat (bs_used st) \<le> unat ceiling"
    and "unat (bs_used st) + unat (bs_excluded st) + token_sum ds < 2 ^ 64"
    and "greedy (unat ceiling - unat (bs_used st)) ds = (took, left)"
  shows "\<exists>st' bs. budget_all ceiling ds st = Inr st'
    \<and> unat (bs_used st') = unat (bs_used st) + token_sum took
    \<and> unat (bs_excluded st') = unat (bs_excluded st) + token_sum left
    \<and> set (bs_selected st') = dc_path ` set took \<union> set (bs_selected st)
    \<and> bs_decisions st' = bs_decisions st @ bs \<and> decided_on ds (length (bs_decisions st)) bs"
  using assms
proof (induction ds arbitrary: st took left)
  case Nil
  then show ?case by (simp add: decided_on_def)
next
  case (Cons d ds)
  show ?case
  proof (cases "unat (dc_tokens d) \<le> unat ceiling - unat (bs_used st)")
    case True
    then obtain took' where g: "greedy (unat ceiling - unat (bs_used st) - unat (dc_tokens d)) ds = (took', left)"
        "took = d # took'" using Cons.prems(3) by (auto simp: Let_def split: prod.splits)
    obtain st1 out where st1: "budget_one ceiling d st = Inr st1"
        "unat (bs_used st1) = unat (bs_used st) + unat (dc_tokens d)"
        "bs_excluded st1 = bs_excluded st" "bs_selected st1 = dc_path d # bs_selected st"
        "bs_decisions st1 = bs_decisions st
          @ [decision d (priority (dc_kind d)) (length (bs_decisions st)) (Included out)]"
      using budget_one_fits[OF Cons.prems(1) True] by metis
    have "unat (bs_used st1) \<le> unat ceiling" using st1(2) True Cons.prems(1) by simp
    moreover have "unat (bs_used st1) + unat (bs_excluded st1) + token_sum ds < 2 ^ 64"
      using Cons.prems(2) st1(2,3) by simp
    moreover have "greedy (unat ceiling - unat (bs_used st1)) ds = (took', left)" using g(1) st1(2) by simp
    ultimately obtain st' bs where "budget_all ceiling ds st1 = Inr st'"
        "unat (bs_used st') = unat (bs_used st1) + token_sum took'"
        "unat (bs_excluded st') = unat (bs_excluded st1) + token_sum left"
        "set (bs_selected st') = dc_path ` set took' \<union> set (bs_selected st1)"
        "bs_decisions st' = bs_decisions st1 @ bs" "decided_on ds (length (bs_decisions st1)) bs"
      using Cons.IH by metis
    then show ?thesis using st1 g(2)
      by (intro exI[of _ st'] exI[of _ "decision d (priority (dc_kind d)) (length (bs_decisions st)) (Included out) # bs"])
        (auto simp: decided_on_Cons decision_def)
  next
    case False
    then obtain left' where g: "greedy (unat ceiling - unat (bs_used st)) ds = (took, left')" "left = d # left'"
      using Cons.prems(3) by (auto simp: Let_def split: prod.splits)
    have "unat (bs_excluded st) + unat (dc_tokens d) < 2 ^ 64" using Cons.prems(2) by simp
    then obtain st1 out where st1: "budget_one ceiling d st = Inr st1" "bs_used st1 = bs_used st"
        "unat (bs_excluded st1) = unat (bs_excluded st) + unat (dc_tokens d)" "bs_selected st1 = bs_selected st"
        "bs_decisions st1 = bs_decisions st
          @ [decision d (priority (dc_kind d)) (length (bs_decisions st)) (Excluded out)]"
      using budget_one_excludes[OF Cons.prems(1)] False by (metis not_le)
    have "unat (bs_used st1) + unat (bs_excluded st1) + token_sum ds < 2 ^ 64"
      using Cons.prems(2) st1(2,3) by simp
    then obtain st' bs where "budget_all ceiling ds st1 = Inr st'"
        "unat (bs_used st') = unat (bs_used st1) + token_sum took"
        "unat (bs_excluded st') = unat (bs_excluded st1) + token_sum left'"
        "set (bs_selected st') = dc_path ` set took \<union> set (bs_selected st1)"
        "bs_decisions st' = bs_decisions st1 @ bs" "decided_on ds (length (bs_decisions st1)) bs"
      using Cons.IH[of st1 took left'] Cons.prems(1) g(1) st1(2) by metis
    then show ?thesis using st1 g(2)
      by (intro exI[of _ st'] exI[of _ "decision d (priority (dc_kind d)) (length (bs_decisions st)) (Excluded out) # bs"])
        (auto simp: decided_on_Cons decision_def)
  qed
qed

lemma token_sum_ranked [simp]: "token_sum (ranked ds) = token_sum ds"
  by (rule token_sum_mset) (simp add: ranked_def)

lemma budget_runs:
  assumes valid: "validate_context ec = Inr ()" and fits: "dc_tokens (ec_prd ec) \<le> ceiling"
    and g: "greedy (unat ceiling - unat (dc_tokens (ec_prd ec))) (ranked (ec_documents ec)) = (took, left)"
  obtains r where "budget ec ceiling = Inr r"
    "bc_context r = ec\<lparr>ec_documents := filter (\<lambda>d. dc_path d \<in> dc_path ` set took) (ec_documents ec),
        ec_tokens := br_included (bc_report r)\<rparr>"
    "unat (br_included (bc_report r)) = unat (dc_tokens (ec_prd ec)) + token_sum took"
    "unat (br_excluded (bc_report r)) = token_sum left" "br_ceiling (bc_report r) = ceiling"
    "br_input (bc_report r) = ec_tokens ec"
    "map bd_path (br_decisions (bc_report r)) = dc_path (ec_prd ec) # map dc_path (ranked (ec_documents ec))"
    "map bd_index (br_decisions (bc_report r)) = [0..<Suc (length (ec_documents ec))]"
proof -
  let ?st = "\<lparr>bs_used = dc_tokens (ec_prd ec), bs_excluded = 0, bs_selected = [],
            bs_decisions = [decision (ec_prd ec) Prio_Prd 0 (Included RequestedPrdMandatory)]\<rparr>"
  note v = validate_contextD[OF valid]
  have ts: "token_sum took + token_sum left = token_sum (ec_documents ec)"
  proof -
    have "token_sum (took @ left) = token_sum (ranked (ec_documents ec))"
      by (rule token_sum_mset) (simp add: greedy_partition[OF g])
    then show ?thesis unfolding token_sum_ranked by (simp add: token_sum_def)
  qed
  obtain st' bs where st': "budget_all ceiling (ranked (ec_documents ec)) ?st = Inr st'"
      "unat (bs_used st') = unat (dc_tokens (ec_prd ec)) + token_sum took" "unat (bs_excluded st') = token_sum left"
      "set (bs_selected st') = dc_path ` set took"
      "bs_decisions st' = [decision (ec_prd ec) Prio_Prd 0 (Included RequestedPrdMandatory)] @ bs"
      "decided_on (ranked (ec_documents ec)) 1 bs"
    using budget_all_greedy[of ?st ceiling "ranked (ec_documents ec)" took left] fits g v(1) unat_below[of "ec_tokens ec"]
    by (auto simp: word_le_nat_alt)
  have bound: "unat (bs_used st') + unat (bs_excluded st') < 2 ^ 64"
    using st'(2,3) ts v(1) unat_below[of "ec_tokens ec"] by simp
  then have "unat (bs_used st' + bs_excluded st') = unat (ec_tokens ec)"
    using unat_add64[OF bound] st'(2,3) ts v(1) by simp
  then have "add_tokens (bs_used st') (bs_excluded st') = Inr (ec_tokens ec)"
    using bound word_unat_eq_iff[of "ec_tokens ec" "bs_used st' + bs_excluded st'"] by (simp add: add_tokens_Inr)
  moreover have "length (ranked (ec_documents ec)) = length (ec_documents ec)" by (simp add: ranked_def)
  ultimately show thesis
    using valid fits st'
    by (intro that[of "\<lparr>bc_context = ec\<lparr>ec_documents := filter (\<lambda>d. dc_path d \<in> set (bs_selected st')) (ec_documents ec),
                                ec_tokens := bs_used st'\<rparr>,
                 bc_report = \<lparr>br_ceiling = ceiling, br_input = ec_tokens ec, br_included = bs_used st',
                              br_excluded = bs_excluded st', br_decisions = bs_decisions st'\<rparr>\<rparr>"])
      (simp_all add: budget_def decided_on_def decision_def upt_conv_Cons not_less del: upt_Suc)
qed

section \<open>What a budgeted context promises\<close>

lemma budget_InrD:
  assumes "budget ec ceiling = Inr r"
  shows "validate_context ec = Inr ()" "dc_tokens (ec_prd ec) \<le> ceiling"
  using assms by (auto simp: budget_def rbind_Inr_iff not_less split: if_splits)

text \<open>
  The arithmetic of the budget never fails: a context is budgeted exactly when it is valid and its
  PRD alone fits the ceiling, and any error is that of the validation or says that the PRD does not fit.
\<close>

lemma budget_succeeds_iff:
  "((\<exists>r. budget ec ceiling = Inr r) \<longleftrightarrow> validate_context ec = Inr () \<and> dc_tokens (ec_prd ec) \<le> ceiling)
   \<and> (case budget ec ceiling of Inr _ \<Rightarrow> True | Inl e \<Rightarrow> validate_context ec = Inl e
        \<or> e = PrdExceedsHardCeiling (dc_path (ec_prd ec)) (dc_tokens (ec_prd ec)) ceiling)"
proof (cases "validate_context ec = Inr () \<and> dc_tokens (ec_prd ec) \<le> ceiling")
  case True
  obtain took left where "greedy (unat ceiling - unat (dc_tokens (ec_prd ec))) (ranked (ec_documents ec)) = (took, left)"
    by fastforce
  then obtain r where "budget ec ceiling = Inr r" using budget_runs True by metis
  then show ?thesis using True by auto
next
  case False
  then show ?thesis
  proof (cases "validate_context ec")
    case (Inl e)
    then show ?thesis using False by (simp add: budget_def)
  next
    case (Inr u)
    then have "ceiling < dc_tokens (ec_prd ec)" using False by (simp add: not_less)
    then show ?thesis using Inr by (simp add: budget_def not_less)
  qed
qed

text \<open>
  C16: a budgeted context keeps the PRD and some of the documents in their order, its token count is the
  sum of what it keeps and is within the ceiling, and nothing that was left out would still fit; the
  report accounts for all tokens and decides on the PRD and then each document, in the order of priority.
\<close>

theorem budget_within_ceiling:
  assumes "budget ec ceiling = Inr r"
  shows "ec_prd (bc_context r) = ec_prd ec
    \<and> (\<exists>keep. ec_documents (bc_context r) = filter keep (ec_documents ec))
    \<and> unat (ec_tokens (bc_context r)) = unat (dc_tokens (ec_prd ec)) + token_sum (ec_documents (bc_context r))
    \<and> ec_tokens (bc_context r) \<le> ceiling
    \<and> (\<forall>d\<in>set (ec_documents ec) - set (ec_documents (bc_context r)).
         unat ceiling < unat (ec_tokens (bc_context r)) + unat (dc_tokens d))
    \<and> unat (br_included (bc_report r)) + unat (br_excluded (bc_report r)) = unat (ec_tokens ec)
    \<and> map bd_path (br_decisions (bc_report r)) = dc_path (ec_prd ec) # map dc_path (ranked (ec_documents ec))"
proof -
  note v = budget_InrD[OF assms]
  obtain took left where
    g: "greedy (unat ceiling - unat (dc_tokens (ec_prd ec))) (ranked (ec_documents ec)) = (took, left)" by fastforce
  obtain r' where r': "budget ec ceiling = Inr r'"
    "bc_context r' = ec\<lparr>ec_documents := filter (\<lambda>d. dc_path d \<in> dc_path ` set took) (ec_documents ec),
        ec_tokens := br_included (bc_report r')\<rparr>"
    "unat (br_included (bc_report r')) = unat (dc_tokens (ec_prd ec)) + token_sum took"
    "unat (br_excluded (bc_report r')) = token_sum left"
    "map bd_path (br_decisions (bc_report r')) = dc_path (ec_prd ec) # map dc_path (ranked (ec_documents ec))"
    using budget_runs[OF v g] by metis
  have r: "r' = r" using assms r'(1) by simp
  note d = validate_contextD[OF v(1)]
  have parts: "mset (ec_documents ec) = mset took + mset left" using greedy_partition[OF g] by (simp add: ranked_def)
  then have sets: "set (ec_documents ec) = set took \<union> set left" by (metis set_mset_mset set_mset_union)
  have inj: "inj_on dc_path (set (ec_documents ec))" using d(2) by (simp add: distinct_map)
  have "distinct (took @ left)" using d(2) parts by (metis distinct_map mset_append mset_eq_imp_distinct_iff)
  then have disjoint: "set took \<inter> set left = {}" by simp
  let ?kept = "filter (\<lambda>d. dc_path d \<in> dc_path ` set took) (ec_documents ec)"
  have in_took: "dc_path d \<in> dc_path ` set took \<longleftrightarrow> d \<in> set took" if "d \<in> set (ec_documents ec)" for d
    using that inj sets by (auto simp: inj_on_def)
  then have kept: "?kept = filter (\<lambda>d. d \<in> set took) (ec_documents ec)" by (intro filter_cong) simp_all
  have "mset ?kept = mset took"
  proof -
    have "mset ?kept = mset (filter (\<lambda>d. d \<in> set took) took) + mset (filter (\<lambda>d. d \<in> set took) left)"
      by (simp only: kept mset_filter parts filter_union_mset)
    moreover have "filter (\<lambda>d. d \<in> set took) left = []" using disjoint by (auto simp: filter_empty_conv)
    ultimately show ?thesis by (simp add: filter_True)
  qed
  then have tokens: "token_sum ?kept = token_sum took" by (rule token_sum_mset)
  have total: "token_sum took + token_sum left = token_sum (ec_documents ec)"
    using token_sum_mset[of "ec_documents ec" "took @ left"] parts by (simp add: token_sum_def)
  have fits: "token_sum took \<le> unat ceiling - unat (dc_tokens (ec_prd ec))" by (rule greedy_fits[OF g])
  have le: "unat (dc_tokens (ec_prd ec)) \<le> unat ceiling" using v(2) by (simp add: word_le_nat_alt)
  have "unat ceiling < unat (ec_tokens (bc_context r)) + unat (dc_tokens x)"
    if "x \<in> set (ec_documents ec) - set (ec_documents (bc_context r))" for x
  proof -
    have "x \<in> set left" using that sets kept r'(2) r by auto
    from greedy_maximal[OF g this] show ?thesis using le r'(2,3) r by simp
  qed
  moreover have "ec_tokens (bc_context r) \<le> ceiling" using fits le r'(2,3) r by (simp add: word_le_nat_alt)
  ultimately show ?thesis using r r'(2-5) tokens total d(1) by auto
qed

end
