(* ===== verification/Context_Guarantees.thy ===== *)
theory Context_Guarantees
  imports Context_Budget
begin

text \<open>
  When the compiler of contexts returns, and that what it returns can be budgeted.
\<close>

section \<open>The scan for references\<close>

lemma find_sub_starts: "find_sub p s = Some i \<Longrightarrow> starts_with (drop i s) p"
  by (induction s arbitrary: i) (auto simp: starts_with_def split: if_splits)

lemma find_sub_at_start: "starts_with s p \<Longrightarrow> find_sub p s = Some 0"
  by (cases s) (auto simp: starts_with_def)

lemma scan_returns:
  assumes "p \<noteq> []" and "reference_char (hd p)"
  shows "\<exists>refs. scan_references p s = Some refs"
proof (induction "length s" arbitrary: s rule: less_induct)
  case less
  show ?case
  proof (cases "find_sub p s")
    case None
    then show ?thesis by (subst scan_references.simps) simp
  next
    case (Some i)
    obtain q where q: "drop i s = p @ q" using find_sub_starts[OF Some] by (metis append_take_drop_id starts_with_def)
    then have "length (dropWhile reference_char (drop i s)) < length (drop i s)"
      using assms length_dropWhile_le[of reference_char "tl p @ q"] by (cases p) auto
    then have "length (dropWhile reference_char (drop i s)) < length s" by simp
    from less[OF this] obtain refs where "scan_references p (dropWhile reference_char (drop i s)) = Some refs" by blast
    then show ?thesis using Some by (subst scan_references.simps) simp
  qed
qed

lemma scan_diverges_at:
  assumes "scan_references p s = Some refs"
  shows "\<not> (starts_with s p \<and> (p = [] \<or> \<not> reference_char (hd p)))"
proof (rule scan_references.raw_induct[OF _ assms])
  fix scan p s refs
  assume ih: "\<And>p s y. scan p s = Some y \<Longrightarrow> \<not> (starts_with s p \<and> (p = [] \<or> \<not> reference_char (hd p)))"
    and body: "(case find_sub p s of None \<Rightarrow> Some []
      | Some i \<Rightarrow> Option.bind (scan p (dropWhile reference_char (drop i s))) (\<lambda>refs. Some
          (let word = trim_end_char (CHR ''.'') (takeWhile reference_char (drop i s)) in
           if (i = 0 \<or> \<not> reference_char (s ! (i - 1))) \<and> ends_with word ''.md'' then word # refs else refs)))
      = Some refs"
  show "\<not> (starts_with s p \<and> (p = [] \<or> \<not> reference_char (hd p)))"
  proof
    assume bad: "starts_with s p \<and> (p = [] \<or> \<not> reference_char (hd p))"
    then have f: "find_sub p s = Some 0" using find_sub_at_start by blast
    obtain inner where inner: "scan p (dropWhile reference_char s) = Some inner"
      using body f by (auto split: option.splits Option.bind_splits)
    have "starts_with (dropWhile reference_char s) p"
    proof (cases p)
      case Nil
      then show ?thesis by (simp add: starts_with_def)
    next
      case (Cons c cs)
      then obtain q where "s = c # cs @ q" using bad by (metis append_Cons append_take_drop_id starts_with_def)
      then show ?thesis using bad Cons by (simp add: starts_with_def)
    qed
    then show False using ih[OF inner] bad by blast
  qed
qed

lemma scan_diverges_iff:
  "scan_references p s = None \<longleftrightarrow> contains_sub s p \<and> (p = [] \<or> \<not> reference_char (hd p))"
proof
  assume none: "scan_references p s = None"
  then have "find_sub p s \<noteq> None" by (subst (asm) scan_references.simps) (auto split: option.splits)
  moreover have "p = [] \<or> \<not> reference_char (hd p)" using scan_returns[of p s] none by auto
  ultimately show "contains_sub s p \<and> (p = [] \<or> \<not> reference_char (hd p))" by (simp add: contains_sub_def)
next
  assume bad: "contains_sub s p \<and> (p = [] \<or> \<not> reference_char (hd p))"
  then obtain i where i: "find_sub p s = Some i" by (auto simp: contains_sub_def)
  have here: "starts_with (drop i s) p" by (rule find_sub_starts[OF i])
  have "starts_with (dropWhile reference_char (drop i s)) p"
  proof (cases p)
    case Nil
    then show ?thesis by (simp add: starts_with_def)
  next
    case (Cons c cs)
    then obtain q where "drop i s = c # cs @ q" using here by (metis append_Cons append_take_drop_id starts_with_def)
    then show ?thesis using bad Cons by (simp add: starts_with_def)
  qed
  then have "scan_references p (dropWhile reference_char (drop i s)) = None"
    using scan_diverges_at[of p "dropWhile reference_char (drop i s)"] bad by (cases "scan_references p (dropWhile reference_char (drop i s))") auto
  then show "scan_references p s = None" using i by (subst scan_references.simps) simp
qed

text \<open>
  C15: the scan of a PRD for references returns exactly when no configured prefix that occurs in it begins
  with a character outside letters, digits and slash, dash, underscore and dot. With such a prefix, which
  the validation of the configuration accepts, the loop stays at the first occurrence for ever.
\<close>

theorem discovery_returns_iff:
  "(\<exists>refs. discover_profiled content roots = Some refs) \<longleftrightarrow>
     (\<forall>r\<in>set roots. contains_sub content (rr_prefix r) \<longrightarrow> rr_prefix r \<noteq> [] \<and> reference_char (hd (rr_prefix r)))"
proof -
  have "(\<exists>refs. discover_roots content rs = Some refs) \<longleftrightarrow> (\<forall>(p, _)\<in>set rs. scan_references p content \<noteq> None)" for rs
    by (induction rs) (auto split: Option.bind_splits)
  then show ?thesis by (auto simp: discover_profiled_def scan_diverges_iff)
qed

section \<open>What is compiled can be budgeted\<close>

text \<open>
  What \<open>fs::canonicalize\<close> documents: an absolute path without dot, dot-dot or empty components. It is
  UTF-8 without backslashes here.
\<close>

definition canonical_path :: "string \<Rightarrow> bool" where
  "canonical_path q \<longleftrightarrow> path_absolute q \<and> q = slash # join [slash] (path_comps q)
     \<and> ''..'' \<notin> set (path_comps q) \<and> backslash \<notin> set q
     \<and> list_all (\<lambda>n. utf8_lossy (join [slash] (drop n (path_comps q))) = join [slash] (drop n (path_comps q)))
          [0..<Suc (length (path_comps q))]"

definition canonical_env :: "compile_env \<Rightarrow> bool" where
  "canonical_env ce \<longleftrightarrow> (\<forall>p q. ce_canonicalize ce p = Inr q \<longrightarrow> canonical_path q)"

lemma split_join:
  "ps \<noteq> [] \<Longrightarrow> (\<And>p. p \<in> set ps \<Longrightarrow> c \<notin> set p) \<Longrightarrow> split_char c (join [c] ps) = ps"
proof (induction ps)
  case (Cons p ps)
  show ?case
  proof (cases ps)
    case Nil
    have "c \<notin> set p" by (rule Cons.prems(2)) simp
    then show ?thesis using Nil by (simp add: split_char_id)
  next
    case ps: (Cons q qs)
    have p: "c \<notin> set p" by (rule Cons.prems(2)) simp
    have "split_char c (join [c] ps) = ps"
      by (rule Cons.IH) (use ps Cons.prems(2) in auto)
    moreover have "join [c] (p # ps) = p @ c # join [c] ps" using ps by simp
    ultimately show ?thesis using split_char_id[OF p] by (simp add: split_char_append_sep)
  qed
qed simp

lemma set_join: "set (join sep ps) \<subseteq> set sep \<union> (\<Union>p\<in>set ps. set p)"
  by (induction sep ps rule: join.induct) auto

lemma set_join_member: "p \<in> set ps \<Longrightarrow> set p \<subseteq> set (join sep ps)"
  by (induction sep ps rule: join.induct) auto

lemma set_split_char: "p \<in> set (split_char c s) \<Longrightarrow> set p \<subseteq> set s"
  using set_join_member[of p "split_char c s" "[c]"] by (simp add: join_split_char)

lemma path_comps_ok:
  "c \<in> set (path_comps p) \<Longrightarrow> c \<noteq> [] \<and> c \<noteq> ''.'' \<and> slash \<notin> set c \<and> set c \<subseteq> set p"
  using split_char_no_sep[of c slash p] set_split_char[of c slash p] by (auto simp: path_comps_def)

lemma identity_valid:
  assumes "canonical_path worktree" and "canonical_path path" and "path \<noteq> worktree"
    and "document_identity worktree path = Inr ident"
  shows "validate_path ident = Inr ()"
proof -
  let ?n = "length (path_comps worktree)"
  define cs where "cs = drop ?n (path_comps path)"
  have comps: "take ?n (path_comps path) = path_comps worktree"
    and ident: "ident = map (\<lambda>c. if c = backslash then slash else c) (utf8_lossy (join [slash] cs))"
    using assms(4) by (auto simp: document_identity_def path_relative_to_def cs_def split: option.splits if_splits)
  have ne: "cs \<noteq> []"
  proof
    assume "cs = []"
    then have "path_comps path = path_comps worktree" using comps by (simp add: cs_def)
    then show False using assms(1-3) by (metis canonical_path_def)
  qed
  have ok: "c \<noteq> [] \<and> c \<noteq> ''.'' \<and> c \<noteq> ''..'' \<and> slash \<notin> set c \<and> backslash \<notin> set c" if "c \<in> set cs" for c
    using path_comps_ok[of c path] in_set_dropD[of c ?n "path_comps path"] that assms(2)
    by (auto simp: cs_def canonical_path_def)
  have "backslash \<notin> set (join [slash] cs)" using set_join[of "[slash]" cs] ok by auto
  moreover have "utf8_lossy (join [slash] cs) = join [slash] cs"
  proof -
    have "?n \<in> set [0..<Suc (length (path_comps path))]" using ne by (simp add: cs_def)
    then show ?thesis using assms(2) unfolding canonical_path_def list_all_iff cs_def by blast
  qed
  moreover have "map (\<lambda>c. if c = backslash then slash else c) t = t" if "backslash \<notin> set t" for t
    by (rule map_idI) (use that in auto)
  ultimately have ident': "ident = join [slash] cs" by (simp add: ident)
  have split: "split_char slash ident = cs" unfolding ident' using ne ok by (intro split_join) auto
  have "ident \<noteq> []" using split ne ok by (cases cs) (auto simp: ident')
  moreover have "\<not> starts_with ident [slash]"
  proof
    assume "starts_with ident [slash]"
    then obtain r where "ident = slash # r" by (cases ident) (auto simp: starts_with_def)
    then have "split_char slash ident = [] # split_char slash r" by (simp only: split_char_Cons_sep)
    then have "[] \<in> set cs" using split by simp
    then show False using ok by blast
  qed
  moreover have "backslash \<notin> set ident" using \<open>backslash \<notin> set (join [slash] cs)\<close> ident' by simp
  ultimately show ?thesis using ok by (auto simp: validate_path_def ensure_def split list_ex_iff)
qed

definition good_entry :: "compile_env \<Rightarrow> string \<Rightarrow> string \<times> string \<times> document_kind \<Rightarrow> bool" where
  "good_entry ce worktree e \<longleftrightarrow> (\<exists>p. ce_canonicalize ce p = Inr (fst (snd e))) \<and> ce_is_file ce (fst (snd e))
     \<and> document_identity worktree (fst (snd e)) = Inr (fst e)"

lemma map_err_Inr [simp]: "map_err f r = Inr a \<longleftrightarrow> r = Inr a"
  by (cases r) auto

lemma validate_referenceD:
  "validate_reference ce worktree relative root = Inr path \<Longrightarrow>
     ce_canonicalize ce (path_push worktree relative) = Inr path \<and> ce_is_file ce path"
  by (auto simp: validate_reference_def rbind_Inr_iff ensure_def split: if_splits)

lemma validate_candidates_good:
  assumes "validate_candidates ce worktree planned cands found = Inr out"
    and "list_all (good_entry ce worktree) found" and "distinct (map fst found)"
  shows "list_all (good_entry ce worktree) out \<and> distinct (map fst out)"
  using assms
proof (induction ce worktree planned cands found rule: validate_candidates.induct)
  case (2 ce worktree planned relative root kind rest found)
  show ?case
  proof (cases "relative \<in> set planned \<and> ce_absent ce (path_push worktree relative)")
    case True
    then show ?thesis using 2 by simp
  next
    case False
    then obtain path ident where p: "validate_reference ce worktree relative root = Inr path"
        "document_identity worktree path = Inr ident"
        "validate_candidates ce worktree planned rest
          (if map_of found ident = None then found @ [(ident, path, kind)] else found) = Inr out"
      using "2.prems"(1) by (auto simp: rbind_Inr_iff)
    have "good_entry ce worktree (ident, path, kind)"
      using validate_referenceD[OF p(1)] p(2) by (auto simp: good_entry_def)
    then show ?thesis
      using "2.IH"(2)[of ident path] False p "2.prems"(2,3) by (auto simp: map_of_eq_None_iff)
  qed
qed simp

lemma documentD:
  "document path kind content inclusion = Inr d \<Longrightarrow> dc_path d = path \<and> dc_kind d = kind \<and> dc_inclusion d = inclusion
     \<and> validate_estimate d = Inr (dc_tokens d)"
  by (auto simp: document_def validate_estimate_def Let_def split: if_splits)

lemma read_documentsD:
  "read_documents ce prd found = Inr ds \<Longrightarrow> map dc_path ds = map fst found
     \<and> (\<forall>d\<in>set ds. dc_inclusion d = DirectReference prd \<and> validate_estimate d = Inr (dc_tokens d))"
  by (induction ce prd found arbitrary: ds rule: read_documents.induct) (auto simp: rbind_Inr_iff dest!: documentD)

lemma sum_tokens_validates:
  assumes "sum_tokens acc ds = Inr t"
    and "\<And>d. d \<in> set ds \<Longrightarrow> validate_path (dc_path d) = Inr () \<and> dc_kind d \<noteq> Doc_Prd
           \<and> dc_inclusion d = DirectReference prd \<and> validate_estimate d = Inr (dc_tokens d)"
    and "distinct (map dc_path ds)" and "dc_path ` set ds \<inter> set seen = {}"
  shows "validate_documents prd seen acc ds = Inr t"
  using assms
  by (induction ds arbitrary: acc seen) (auto simp: add_tokens_def ok_or_def split: option.splits)

lemma validate_documents_kinds:
  "validate_documents prd seen acc ds = Inr t \<Longrightarrow> d \<in> set ds \<Longrightarrow> dc_kind d \<noteq> Doc_Prd"
  by (induction prd seen acc ds rule: validate_documents.induct) (auto simp: rbind_Inr_iff split: if_splits)

lemma compile_profiledD:
  assumes "compile_profiled ce repository supplied profile = Some (Inr ec)"
  obtains top path found where "ce_canonicalize ce top = Inr (rx_worktree (ec_repository ec))"
    "ce_is_file ce path" "\<exists>p. ce_canonicalize ce p = Inr path"
    "document_identity (rx_worktree (ec_repository ec)) path = Inr (dc_path (ec_prd ec))"
    "dc_kind (ec_prd ec) = Doc_Prd" "dc_inclusion (ec_prd ec) = RequestedPrd"
    "validate_estimate (ec_prd ec) = Inr (dc_tokens (ec_prd ec))"
    "list_all (good_entry ce (rx_worktree (ec_repository ec))) found" "distinct (map fst found)"
    "read_documents ce (dc_path (ec_prd ec)) (sort_key fst found) = Inr (ec_documents ec)"
    "sum_tokens (dc_tokens (ec_prd ec)) (ec_documents ec) = Inr (ec_tokens ec)"
proof -
  obtain at path ident content where
    first: "locate_repository ce repository = Inr at"
      "validate_prd ce (lo_worktree at) (lo_input at) supplied (cp_active_dir profile) = Inr path"
      "document_identity (lo_worktree at) path = Inr ident" "ce_read ce path = Inr content"
    and rest: "(case rbind (planned_outputs path content) (\<lambda>planned.
              rbind (map_err Err (document ident Doc_Prd content RequestedPrd)) (\<lambda>prd. Inr (planned, prd))) of
           Inl e \<Rightarrow> Some (Inl e)
         | Inr (planned, prd) \<Rightarrow>
           map_option (\<lambda>r. map_err Err (rbind r (\<lambda>docs. rbind (sum_tokens (dc_tokens prd) docs) (\<lambda>total.
               Inr \<lparr>ec_repository = \<lparr>rx_repository = lo_repository at, rx_worktree = lo_worktree at,
                      rx_commit = optional_git ce (lo_worktree at) [''rev-parse'', ''--verify'', ''HEAD'']\<rparr>,
                    ec_prd = prd, ec_documents = docs, ec_tokens = total\<rparr>))))
             (gather_documents ce profile (lo_worktree at) prd planned)) = Some (Inr ec)"
    using assms unfolding compile_profiled_def by (auto simp: rbind_Inr_iff split: sum.splits)
  obtain planned prd where prd: "document ident Doc_Prd content RequestedPrd = Inr prd"
    and gather: "map_option (\<lambda>r. map_err Err (rbind r (\<lambda>docs. rbind (sum_tokens (dc_tokens prd) docs) (\<lambda>total.
               Inr \<lparr>ec_repository = \<lparr>rx_repository = lo_repository at, rx_worktree = lo_worktree at,
                      rx_commit = optional_git ce (lo_worktree at) [''rev-parse'', ''--verify'', ''HEAD'']\<rparr>,
                    ec_prd = prd, ec_documents = docs, ec_tokens = total\<rparr>))))
             (gather_documents ce profile (lo_worktree at) prd planned) = Some (Inr ec)"
    using rest by (auto simp: rbind_Inr_iff split: sum.splits)
  obtain docs t where docs: "gather_documents ce profile (lo_worktree at) prd planned = Some (Inr docs)"
      "sum_tokens (dc_tokens prd) docs = Inr t" and ec: "rx_worktree (ec_repository ec) = lo_worktree at"
      "ec_prd ec = prd" "ec_documents ec = docs" "ec_tokens ec = t"
    using gather by (auto simp: rbind_Inr_iff)
  obtain inserted found where found: "validate_candidates ce (lo_worktree at) planned
        (map (\<lambda>r. (r, the (collect_map inserted r))) (sorted_keys inserted)) [] = Inr found"
      "read_documents ce (dc_path prd) (sort_key fst found) = Inr docs"
    using docs(1) by (auto simp: gather_documents_def rbind_Inr_iff split: Option.bind_splits)
  have top: "\<exists>top. ce_canonicalize ce top = Inr (lo_worktree at)"
    using first(1) by (auto simp: locate_repository_def rbind_Inr_iff)
  have regular: "ce_is_file ce path" "\<exists>p. ce_canonicalize ce p = Inr path"
    using first(2) by (auto simp: validate_prd_def rbind_Inr_iff Let_def ensure_def split: if_splits)
  note d = documentD[OF prd] and g = validate_candidates_good[OF found(1)]
  from top obtain t0 where "ce_canonicalize ce t0 = Inr (lo_worktree at)" by blast
  then show thesis
    using that[of t0 path found] regular first(3) d g found(2) docs(2) by (simp add: ec)
qed

text \<open>
  a compiled context passes the validation of the budget exactly when none of its references is of the
  kind of a PRD and the PRD does not refer to itself. Both exceptions are possible with a configured
  reference root that is of that kind or that contains the directory of the PRDs.
\<close>

lemma compiled_context_valid_iff:
  assumes "compile_profiled ce repository supplied profile = Some (Inr ec)" and "canonical_env ce"
    and "\<not> ce_is_file ce (rx_worktree (ec_repository ec))"
  shows "validate_context ec = Inr () \<longleftrightarrow>
     (\<forall>d\<in>set (ec_documents ec). dc_kind d \<noteq> Doc_Prd \<and> dc_path d \<noteq> dc_path (ec_prd ec))"
proof (rule compile_profiledD[OF assms(1)])
  let ?w = "rx_worktree (ec_repository ec)"
  fix top path found
  assume c: "ce_canonicalize ce top = Inr ?w" "ce_is_file ce path" "\<exists>p. ce_canonicalize ce p = Inr path"
    "document_identity ?w path = Inr (dc_path (ec_prd ec))"
    "dc_kind (ec_prd ec) = Doc_Prd" "dc_inclusion (ec_prd ec) = RequestedPrd"
    "validate_estimate (ec_prd ec) = Inr (dc_tokens (ec_prd ec))"
    "list_all (good_entry ce ?w) found" "distinct (map fst found)"
    "read_documents ce (dc_path (ec_prd ec)) (sort_key fst found) = Inr (ec_documents ec)"
    "sum_tokens (dc_tokens (ec_prd ec)) (ec_documents ec) = Inr (ec_tokens ec)"
  have canon: "canonical_path q" if "ce_canonicalize ce p = Inr q" for p q
    using assms(2) that by (auto simp: canonical_env_def)
  have ident: "validate_path i = Inr ()" if "\<exists>p. ce_canonicalize ce p = Inr q" "ce_is_file ce q"
      "document_identity ?w q = Inr i" for q i
    using identity_valid[OF canon[OF c(1)] _ _ that(3)] that(1,2) canon assms(3) by metis
  note r = read_documentsD[OF c(10)]
  have prd: "validate_path (dc_path (ec_prd ec)) = Inr ()" by (rule ident[OF c(3,2,4)])
  have paths: "validate_path (dc_path d) = Inr ()" if "d \<in> set (ec_documents ec)" for d
  proof -
    have "dc_path d \<in> set (map fst (sort_key fst found))" using that r by (metis image_eqI set_map)
    then obtain e where "e \<in> set found" "fst e = dc_path d" by auto
    moreover from this(1) have "good_entry ce ?w e" using c(8) by (simp add: list_all_iff)
    ultimately show ?thesis using ident[of "fst (snd e)" "fst e"] by (simp add: good_entry_def)
  qed
  have "distinct (map fst (sort_key fst found))"
    using c(9) by (simp add: distinct_map)
  then have d: "distinct (map dc_path (ec_documents ec))" using r by simp
  show ?thesis
  proof
    assume "validate_context ec = Inr ()"
    then obtain acc n where "validate_documents (dc_path (ec_prd ec)) [dc_path (ec_prd ec)] n (ec_documents ec) = Inr acc"
      by (auto simp: validate_context_def Let_def rbind_Inr_iff split: if_splits)
    then show "\<forall>d\<in>set (ec_documents ec). dc_kind d \<noteq> Doc_Prd \<and> dc_path d \<noteq> dc_path (ec_prd ec)"
      using validate_documents_kinds validate_documents_sum(3) by fastforce
  next
    assume a: "\<forall>d\<in>set (ec_documents ec). dc_kind d \<noteq> Doc_Prd \<and> dc_path d \<noteq> dc_path (ec_prd ec)"
    have "validate_documents (dc_path (ec_prd ec)) [dc_path (ec_prd ec)] (dc_tokens (ec_prd ec)) (ec_documents ec)
        = Inr (ec_tokens ec)"
      by (rule sum_tokens_validates[OF c(11) _ d]) (use a paths r in auto)
    then show "validate_context ec = Inr ()"
      using prd c(5-7) by (simp add: validate_context_def Let_def ensure_def)
  qed
qed

section \<open>Examples\<close>

text \<open>A repository with a PRD that names one decision record.\<close>

definition demo_paths :: "string list" where
  "demo_paths = [''/r'', ''/r/.git'', ''/r/docs/prds'', ''/r/docs/adr'', ''/r/docs/prds/p.md'', ''/r/docs/adr/a.md'']"

definition demo_repository :: compile_env where
  "demo_repository = \<lparr>
     ce_canonicalize = (\<lambda>p. if p \<in> set demo_paths then Inr p else Inl (Io_Not_Found p)),
     ce_is_file = (\<lambda>p. p \<in> set (drop 4 demo_paths)),
     ce_absent = (\<lambda>p. p \<notin> set demo_paths),
     ce_read = (\<lambda>p. if p = ''/r/docs/prds/p.md'' then Inr ''As docs/adr/a.md decides.'' else Inr ''Use one store.''),
     ce_git = (\<lambda>_ args. if ''--show-toplevel'' \<in> set args then Git_Ran True ''/r'' []
                else if ''--git-common-dir'' \<in> set args then Git_Ran True ''.git'' [] else Git_Ran False [] []),
     ce_utf8_error = (\<lambda>_. [])\<rparr>"

definition demo_document :: "string \<Rightarrow> document_kind \<Rightarrow> string \<Rightarrow> inclusion_reason \<Rightarrow> u64 \<Rightarrow> context_document" where
  "demo_document p k c i n = \<lparr>dc_path = p, dc_kind = k, dc_content = c, dc_inclusion = i, dc_tokens = n\<rparr>"

definition demo_context :: execution_context where
  "demo_context = \<lparr>ec_repository = \<lparr>rx_repository = ''/r/.git'', rx_worktree = ''/r'', rx_commit = None\<rparr>,
     ec_prd = demo_document ''docs/prds/p.md'' Doc_Prd ''As docs/adr/a.md decides.'' RequestedPrd 7,
     ec_documents = [demo_document ''docs/adr/a.md'' Doc_Adr ''Use one store.'' (DirectReference ''docs/prds/p.md'') 4],
     ec_tokens = 11\<rparr>"

lemma demo_compiles:
  "compile_profiled demo_repository ''/r'' ''docs/prds/p.md'' default_profile = Some (Inr demo_context)"
  by code_simp

lemma demo_canonical: "canonical_env demo_repository"
proof -
  have "list_all canonical_path demo_paths" by code_simp
  then show ?thesis by (auto simp: canonical_env_def demo_repository_def list_all_iff split: if_splits)
qed

theorem discovery_returns_iff_witness:
  "(\<exists>refs. discover_profiled ''As docs/adr/a.md decides.'' (cp_roots default_profile) = Some refs)
   \<and> \<not> (\<exists>refs. discover_profiled ''Read ~docs/a.md.'' [\<lparr>rr_prefix = ''~docs/'', rr_kind = Ref_Adr\<rparr>] = Some refs)"
proof
  have "\<forall>r\<in>set (cp_roots default_profile). contains_sub ''As docs/adr/a.md decides.'' (rr_prefix r)
      \<longrightarrow> rr_prefix r \<noteq> [] \<and> reference_char (hd (rr_prefix r))" by code_simp
  then show "\<exists>refs. discover_profiled ''As docs/adr/a.md decides.'' (cp_roots default_profile) = Some refs"
    by (simp only: discovery_returns_iff)
  have "contains_sub ''Read ~docs/a.md.'' ''~docs/'' \<and> \<not> reference_char (hd ''~docs/'')" by code_simp
  then show "\<not> (\<exists>refs. discover_profiled ''Read ~docs/a.md.'' [\<lparr>rr_prefix = ''~docs/'', rr_kind = Ref_Adr\<rparr>] = Some refs)"
    by (simp add: discovery_returns_iff)
qed

lemma compiled_context_valid_iff_witness:
  "validate_context demo_context = Inr ()
   \<and> compile_profiled demo_repository ''/r'' ''docs/prds/p.md'' default_profile = Some (Inr demo_context)"
proof
  have "\<not> ce_is_file demo_repository (rx_worktree (ec_repository demo_context))" by code_simp
  moreover have "\<forall>d\<in>set (ec_documents demo_context). dc_kind d \<noteq> Doc_Prd \<and> dc_path d \<noteq> dc_path (ec_prd demo_context)"
    by code_simp
  ultimately show "validate_context demo_context = Inr ()"
    using compiled_context_valid_iff[OF demo_compiles demo_canonical] by blast
qed (rule demo_compiles)

theorem budget_within_ceiling_witness:
  "\<exists>r. budget demo_context 10 = Inr r \<and> ec_tokens (bc_context r) \<le> 10
     \<and> unat (br_included (bc_report r)) + unat (br_excluded (bc_report r)) = 11"
proof -
  have "case budget demo_context 10 of Inr _ \<Rightarrow> True | Inl _ \<Rightarrow> False" by code_simp
  then obtain r where r: "budget demo_context 10 = Inr r" by (cases "budget demo_context 10") auto
  moreover have "unat (ec_tokens demo_context) = 11" by code_simp
  ultimately show ?thesis using budget_within_ceiling[OF r] by auto
qed

end
