(* ===== verification/Drive_Selection.thy ===== *)
theory Drive_Selection
  imports Backlog_Store Expected_Files Context_Compiler
begin

text \<open>
  What an unattended session may run, and what it runs next: the warrant, the choice of a batch of PRDs,
  the width of a set of PRDs, the partition of the dependency graph and the claims of other hosts, from
  \<open>crates/familiar-ai-daemon/src/drive.rs\<close>, with the branch names of \<open>worktree.rs\<close>.

  A \<open>BTreeSet<PrdId>\<close> is the list of its members, compared by \<open>prd_key\<close>. Files are read by a parameter.
\<close>

section \<open>Why a session stops\<close>

datatype drive_termination =
  Backlog_Is_Empty | Nothing_Is_Eligible | Budget_Prds_Exhausted | Budget_Cost_Exhausted | Budget_Tokens_Exhausted
| Budget_Duration_Exhausted | Cost_Is_Unknown | Storage_Failure | Drive_Interrupted | Unclassified_Result
| Worker_Heartbeat_Lost | Preflight_Failed | Delivery_Is_Blocked | Budget_Deliveries_Exhausted
| Deterministic_Failure_Cascade

definition show_termination :: "drive_termination \<Rightarrow> string" where
  "show_termination t = (case t of
     Backlog_Is_Empty \<Rightarrow> ''backlog_empty'' | Nothing_Is_Eligible \<Rightarrow> ''nothing_eligible''
   | Budget_Prds_Exhausted \<Rightarrow> ''budget_prds_exhausted'' | Budget_Cost_Exhausted \<Rightarrow> ''budget_cost_exhausted''
   | Budget_Tokens_Exhausted \<Rightarrow> ''budget_tokens_exhausted''
   | Budget_Duration_Exhausted \<Rightarrow> ''budget_duration_exhausted'' | Cost_Is_Unknown \<Rightarrow> ''cost_unknown''
   | Storage_Failure \<Rightarrow> ''storage_failure'' | Drive_Interrupted \<Rightarrow> ''interrupted''
   | Unclassified_Result \<Rightarrow> ''unclassified_result'' | Worker_Heartbeat_Lost \<Rightarrow> ''worker_heartbeat_lost''
   | Preflight_Failed \<Rightarrow> ''preflight_failed'' | Delivery_Is_Blocked \<Rightarrow> ''delivery_blocked''
   | Budget_Deliveries_Exhausted \<Rightarrow> ''budget_deliveries_exhausted''
   | Deterministic_Failure_Cascade \<Rightarrow> ''deterministic_failure_cascade'')"

definition worker_should_restart :: "drive_termination \<Rightarrow> bool" where
  "worker_should_restart t \<longleftrightarrow> t \<in> {Storage_Failure, Drive_Interrupted, Unclassified_Result,
     Worker_Heartbeat_Lost, Preflight_Failed}"

section \<open>The warrant\<close>

text \<open>Zero means no ceiling of that kind.\<close>

record drive_warrant =
  dw_prds :: u64
  dw_cost :: u64
  dw_tokens :: u64
  dw_duration :: u64
  dw_allowlist :: "prd_id list option"

definition prd_in :: "prd_id \<Rightarrow> prd_id list \<Rightarrow> bool" where
  "prd_in p ps \<longleftrightarrow> prd_key p \<in> prd_key ` set ps"

definition with_prd_allowlist :: "prd_id list \<Rightarrow> drive_warrant \<Rightarrow> string + drive_warrant" where
  "with_prd_allowlist prds w =
     (if prds = [] then Inl ''an explicit PRD allowlist must not be empty''
      else case dw_allowlist w of
        Some existing \<Rightarrow>
          if \<not> list_all (\<lambda>p. prd_in p existing) prds
          then Inl ''a PRD allowlist may only tighten the inherited set''
          else Inr (w\<lparr>dw_allowlist := Some prds\<rparr>)
      | None \<Rightarrow> Inr (w\<lparr>dw_allowlist := Some prds\<rparr>))"

definition tighten :: "u64 \<Rightarrow> u64 option \<Rightarrow> u64" where
  "tighten configured supplied =
     (case supplied of None \<Rightarrow> configured | Some v \<Rightarrow> if configured = 0 then v else min configured v)"

definition tightened_by :: "u64 option \<Rightarrow> u64 option \<Rightarrow> u64 option \<Rightarrow> drive_warrant \<Rightarrow> drive_warrant" where
  "tightened_by prds cost duration w =
     w\<lparr>dw_prds := tighten (dw_prds w) prds, dw_cost := tighten (dw_cost w) cost,
       dw_duration := tighten (dw_duration w) duration\<rparr>"

definition validate_warrant :: "drive_warrant \<Rightarrow> string + unit" where
  "validate_warrant w =
     ensure (\<not> (dw_prds w = 0 \<and> dw_cost w = 0 \<and> dw_tokens w = 0 \<and> dw_duration w = 0))
       ''unattended drive requires at least one finite ceiling''"

definition warrant_json :: "drive_warrant \<Rightarrow> string" where
  "warrant_json w =
     (let q = [dquote];
          allowlist = (case dw_allowlist w of None \<Rightarrow> []
            | Some ps \<Rightarrow> '','' @ q @ ''prd_allowlist'' @ q @ '':['' @ join '','' (map (\<lambda>p. q @ show_prd_id p @ q) ps) @ '']'') in
      ''{'' @ q @ ''max_prds'' @ q @ '':'' @ show_u64 (dw_prds w)
      @ '','' @ q @ ''max_cost_nanousd'' @ q @ '':'' @ show_u64 (saturating_mul64 (dw_cost w) 1000)
      @ '','' @ q @ ''max_uncached_tokens'' @ q @ '':'' @ show_u64 (dw_tokens w)
      @ '','' @ q @ ''max_duration_ms'' @ q @ '':'' @ show_u64 (dw_duration w) @ allowlist @ ''}'')"

definition warrant_exhausted :: "drive_warrant \<Rightarrow> u64 \<Rightarrow> u64 \<Rightarrow> u64 \<Rightarrow> u64 \<Rightarrow> drive_termination option" where
  "warrant_exhausted w attempted cost tokens elapsed =
     (if 0 < dw_prds w \<and> dw_prds w \<le> attempted then Some Budget_Prds_Exhausted
      else if 0 < dw_cost w \<and> dw_cost w \<le> cost then Some Budget_Cost_Exhausted
      else if 0 < dw_tokens w \<and> dw_tokens w \<le> tokens then Some Budget_Tokens_Exhausted
      else if 0 < dw_duration w \<and> dw_duration w \<le> elapsed then Some Budget_Duration_Exhausted
      else None)"

definition parse_prd_flag :: "string \<Rightarrow> string + prd_id" where
  "parse_prd_flag input =
     (let trimmed = trim input;
          body = (case strip_prefix trimmed ''PRD-'' of Some b \<Rightarrow> b
            | None \<Rightarrow> (case strip_prefix trimmed ''prd-'' of Some b \<Rightarrow> b | None \<Rightarrow> trimmed));
          (digits, suffix) = (if body \<noteq> [] \<and> is_lower (last body) then (butlast body, Some (last body)) else (body, None)) in
      if digits = [] \<or> \<not> list_all is_digit digits
      then Inl (''invalid --prd value '' @ quoted input @ '': expected PRD-<number> with an optional lowercase suffix'')
      else case parse_u64 digits of
        None \<Rightarrow> Inl (''invalid --prd value '' @ quoted input @ '': number out of range'')
      | Some n \<Rightarrow> Inr (prd_with_suffix n suffix))"

section \<open>Scopes\<close>

type_synonym scope_pattern = "string \<times> match_kind"

definition show_scope_rule :: "scope_path_rule \<Rightarrow> string" where
  "show_scope_rule r = (case r of
     Empty \<Rightarrow> ''empty expression'' | AbsolutePath \<Rightarrow> ''absolute paths are not supported''
   | Backslash \<Rightarrow> ''backslashes are not supported'' | Whitespace \<Rightarrow> ''whitespace-joined expressions are not supported''
   | HomeExpansion \<Rightarrow> ''home expansion is not supported'' | VariableExpansion \<Rightarrow> ''variable expansion is not supported''
   | UriForm \<Rightarrow> ''URI forms are not supported''
   | UnsupportedGlob \<Rightarrow> ''glob syntax other than a terminal '' @ quoted ''/**'' @ '' is not supported''
   | InvalidComponent \<Rightarrow> ''empty, '' @ quoted ''.'' @ '' or '' @ quoted ''..'' @ '' path components are not supported'')"

definition show_expected_files_error :: "expected_files_error \<Rightarrow> string" where
  "show_expected_files_error e =
     (let heading = [backtick] @ ''## Expected Files'' @ [backtick] @ '' heading'' in case e of
     MissingHeading \<Rightarrow> ''no authoritative '' @ heading @ '' found''
   | DuplicateHeading n \<Rightarrow> ''duplicate '' @ heading @ '' at line '' @ show_nat n
   | MissingBulletList \<Rightarrow> ''Expected Files section contains no top-level bullet list''
   | NoPathExpression n \<Rightarrow> ''bullet at line '' @ show_nat n @ '' has no inline-code path expression''
   | UnclosedCodeSpan n \<Rightarrow> ''bullet at line '' @ show_nat n @ '' contains an unclosed inline-code span''
   | EmptyExpression n \<Rightarrow> ''bullet at line '' @ show_nat n @ '' has an empty path expression''
   | UnsupportedExpression n x r \<Rightarrow> ''bullet at line '' @ show_nat n @ '' has unsupported path expression '' @ quoted x
       @ '': '' @ show_scope_rule r
   | DuplicateExpression n x \<Rightarrow> ''bullet at line '' @ show_nat n @ '' duplicates normalized expression '' @ quoted x)"

definition prd_scope :: "(string \<Rightarrow> string + string) \<Rightarrow> discovered_prd \<Rightarrow> string + scope_pattern list" where
  "prd_scope read p =
     (if md_contract_version (prd_meta p) = Some 1
      then traverse (\<lambda>x. map_err (\<lambda>r. x @ '': '' @ show_scope_rule r) (normalize_scope_path x))
             (md_expected_files (prd_meta p))
      else rbind (read (prd_path p)) (\<lambda>content.
           rbind (map_err show_expected_files_error (parse_expected_files content)) (\<lambda>entries.
           Inr (map (\<lambda>e. (ef_normalized e, ef_match_kind e)) entries))))"

fun scope_entries_overlap :: "scope_pattern \<Rightarrow> scope_pattern \<Rightarrow> bool" where
  "scope_entries_overlap (l, ExactFile) (r, ExactFile) \<longleftrightarrow> l = r"
| "scope_entries_overlap (l, ExactFile) (r, Directory) \<longleftrightarrow> starts_with l r"
| "scope_entries_overlap (l, Directory) (r, ExactFile) \<longleftrightarrow> starts_with r l"
| "scope_entries_overlap (l, Directory) (r, Directory) \<longleftrightarrow> starts_with l r \<or> starts_with r l"

text \<open>The directory of the migrations is shared: the version number is reserved, not the path.\<close>

definition migrations_dir :: string where
  "migrations_dir = ''crates/familiar-ai-storage/migrations/''"

definition scope_overlap :: "scope_pattern list \<Rightarrow> scope_pattern list \<Rightarrow> (string \<times> string) option" where
  "scope_overlap left right =
     find_map (\<lambda>a. if fst a = migrations_dir then None
       else map_option (\<lambda>b. (fst a, fst b))
              (find (\<lambda>b. fst b \<noteq> migrations_dir \<and> scope_entries_overlap a b) right)) left"

section \<open>Other hosts\<close>

record foreign_state =
  fs_claimed :: "string \<Rightarrow> string option"
  fs_archived :: "string list"

text \<open>\<open>str::split_whitespace\<close>.\<close>

function split_words_from :: "string \<Rightarrow> string \<Rightarrow> string list" where
  "split_words_from w [] = (if w = [] then [] else [w])"
| "split_words_from w (c # cs) =
     (case find (starts_with (c # cs)) white_space of
        Some p \<Rightarrow> (if w = [] then [] else [w]) @ split_words_from [] (drop (length p - 1) cs)
      | None \<Rightarrow> split_words_from (w @ [c]) cs)"
  by pat_completeness auto
termination by (relation "measure (\<lambda>(w, s). length s)") auto

definition split_words :: "string \<Rightarrow> string list" where
  "split_words s = split_words_from [] s"

definition remote_claim :: "string \<Rightarrow> string \<Rightarrow> (string \<times> string) option" where
  "remote_claim own line =
     (case split_words line of
        _ # reference # _ \<Rightarrow>
          Option.bind (strip_prefix reference ''refs/heads/familiar/'') (\<lambda>rest.
          Option.bind (split_once rest [slash]) (\<lambda>(session, prd).
          if session = own \<or> prd = [] then None else Some (prd, rest)))
      | _ \<Rightarrow> None)"

text \<open>\<open>or_insert_with\<close>: the first claim of a PRD stays.\<close>

definition parse_remote_claims :: "string \<Rightarrow> string \<Rightarrow> string \<Rightarrow> string option" where
  "parse_remote_claims ls_remote own = map_of (List.map_filter (remote_claim own) (str_lines ls_remote))"

definition foreign_state_of :: "(string list \<Rightarrow> string + string) \<Rightarrow> string \<Rightarrow> string \<Rightarrow> foreign_state" where
  "foreign_state_of git own archived_dir =
     \<lparr>fs_claimed = (case git [''ls-remote'', ''--heads'', ''origin'', ''refs/heads/familiar/drive-*''] of
          Inr out \<Rightarrow> parse_remote_claims out own | Inl _ \<Rightarrow> (\<lambda>_. None)),
      fs_archived = (case find_map (\<lambda>r. case git [''ls-tree'', ''--name-only'', r, ''--'', archived_dir @ [slash]] of
              Inr out \<Rightarrow> Some out | Inl _ \<Rightarrow> None) [''origin/HEAD'', ''origin/main''] of
          None \<Rightarrow> []
        | Some out \<Rightarrow> filter (\<lambda>n. n \<noteq> []) (map path_file_name (str_lines out)))\<rparr>"

text \<open>The branch on which a session works on a PRD, as \<open>WorktreeLease::create_component_at\<close> names it.\<close>

definition safe_char :: "char \<Rightarrow> char" where
  "safe_char c = (if is_digit c \<or> is_lower (ascii_lower c) then c else CHR ''-'')"

definition worktree_branch :: "string \<Rightarrow> string \<Rightarrow> string" where
  "worktree_branch session component =
     ''familiar/'' @ map safe_char session @ [slash] @ map safe_char component"

end
