(* ===== verification/Drive_Batch.thy ===== *)
theory Drive_Batch
  imports Drive_Selection Reservation
begin

text \<open>
  The scheduler of \<open>crates/familiar-ai-daemon/src/drive.rs\<close>: the choice of a batch of PRDs next to what is
  in flight (\<open>select_batch_with_foreign\<close>), the width of a set of PRDs (\<open>achievable_width\<close>), the partition of
  the graph (\<open>dependency_components\<close>), and the share of the warrant that one attempt reserves.
\<close>

section \<open>Selection\<close>

record selection_decision =
  sd_prd :: prd_id
  sd_decision :: string
  sd_detail :: string

definition selection_decisions :: "string list" where
  "selection_decisions =
     [''ready_selected'', ''deferred_scope_overlap'', ''deferred_scope_held'', ''deferred_resource'',
      ''deferred_width'', ''deferred_dependency_undelivered'', ''dependency_not_integrated'',
      ''deferred_scope_unavailable'', ''excluded_allowlist'', ''front_matter_hold'', ''claimed_elsewhere'',
      ''archived_upstream'']"

record active_hold =
  ah_prd :: prd_id
  ah_scope :: "scope_pattern list"
  ah_resources :: "string list"

datatype drive_error = Drive_Config string | Drive_Storage string

definition show_drive_error :: "drive_error \<Rightarrow> string" where
  "show_drive_error e = (case e of Drive_Config m \<Rightarrow> ''drive configuration failed: '' @ m
     | Drive_Storage m \<Rightarrow> ''drive storage failed: '' @ m)"

datatype selection = Select_Eligible "discovered_prd list" | Select_Backlog_Empty | Select_Nothing_Eligible

record selection_input =
  si_attempted :: "prd_id list"
  si_allowlist :: "prd_id list option"
  si_in_flight :: "prd_id list"
  si_foreign :: foreign_state
  si_limit :: nat
  si_statuses :: status_map
  si_read :: "string \<Rightarrow> string + string"

record selection_state =
  ss_selected :: "discovered_prd list"
  ss_scopes :: "(prd_id \<times> scope_pattern list) list"
  ss_resources :: "(prd_id \<times> string list) list"
  ss_decisions :: "selection_decision list"

definition decide :: "discovered_prd \<Rightarrow> string \<Rightarrow> string \<Rightarrow> selection_state \<Rightarrow> selection_state" where
  "decide p d detail st =
     st\<lparr>ss_decisions := ss_decisions st @ [\<lparr>sd_prd = prd_ident p, sd_decision = d, sd_detail = detail\<rparr>]\<rparr>"

definition resource_conflict :: "discovered_prd \<Rightarrow> selection_state \<Rightarrow> (prd_id \<times> string) option" where
  "resource_conflict p st =
     find_map (\<lambda>(i, held). map_option (Pair i) (find (\<lambda>r. r \<in> set held) (md_resources (prd_meta p)))) (ss_resources st)"

definition scope_conflict ::
    "scope_pattern list \<Rightarrow> selection_state \<Rightarrow> (prd_id \<times> string \<times> string) option" where
  "scope_conflict scope st =
     find_map (\<lambda>(i, held). map_option (Pair i) (scope_overlap scope held)) (ss_scopes st)"

text \<open>The part of the loop after the allowlist: width, resources, scope.\<close>

definition admit_entry :: "selection_input \<Rightarrow> discovered_prd \<Rightarrow> selection_state \<Rightarrow> selection_state" where
  "admit_entry si p st =
     (if max (si_limit si) 1 \<le> length (ss_selected st)
      then decide p ''deferred_width''
             (''ready, but the warrant width of '' @ show_nat (max (si_limit si) 1) @ '' is exhausted'') st
      else case resource_conflict p st of
        Some (holder, resource) \<Rightarrow>
          decide p ''deferred_resource''
            (''declared resource '' @ quoted resource @ '' is held by '' @ show_prd_id holder) st
      | None \<Rightarrow>
        (case prd_scope (si_read si) p of
           Inl e \<Rightarrow> decide p ''deferred_scope_unavailable'' (''expected-file scope cannot be resolved: '' @ e) st
         | Inr scope \<Rightarrow>
           (case scope_conflict scope st of
              Some (holder, l, r) \<Rightarrow>
                decide p (if prd_in holder (si_in_flight si) then ''deferred_scope_held'' else ''deferred_scope_overlap'')
                  (''scope '' @ quoted l @ '' overlaps '' @ quoted r @ '' held by '' @ show_prd_id holder) st
            | None \<Rightarrow>
                (decide p ''ready_selected'' [] st)
                  \<lparr>ss_scopes := ss_scopes st @ [(prd_ident p, scope)],
                   ss_resources := ss_resources st @ [(prd_ident p, md_resources (prd_meta p))],
                   ss_selected := ss_selected st @ [p]\<rparr>)))"

definition consider_entry :: "selection_input \<Rightarrow> backlog_entry \<Rightarrow> selection_state \<Rightarrow> selection_state" where
  "consider_entry si e st =
     (let p = entry_prd e in
      if prd_in (prd_ident p) (si_attempted si) then st
      else case front_matter_hold p of
        Some s \<Rightarrow> decide p ''front_matter_hold'' (''front matter status '' @ s @ ''; not selectable from this host'') st
      | None \<Rightarrow>
        (case fs_claimed (si_foreign si) (show_prd_id (prd_ident p)) of
           Some branch \<Rightarrow>
             decide p ''claimed_elsewhere''
               (''drive branch '' @ branch @ '' exists on origin; another host holds this PRD'') st
         | None \<Rightarrow>
           let name = path_file_name (prd_path p) in
           if name \<in> set (fs_archived (si_foreign si))
           then decide p ''archived_upstream''
                  (name @ '' is under the archive on origin; this PRD already landed on another host'') st
           else
             let unmet = incomplete_dependencies (si_statuses si) p in
             if entry_status e \<noteq> Pending \<or> unmet \<noteq> []
             then (let blocked = filter (\<lambda>d. prd_in d (si_attempted si) \<or> prd_in d (si_in_flight si)) unmet in
                   if entry_status e = Pending \<and> blocked \<noteq> []
                   then decide p ''dependency_not_integrated''
                          (''dependency '' @ join '', '' (map show_prd_id blocked)
                           @ '' was attempted this session and is not integrated into the session revision'') st
                   else st)
             else if (case si_allowlist si of None \<Rightarrow> False | Some a \<Rightarrow> \<not> prd_in (prd_ident p) a)
             then decide p ''excluded_allowlist'' (''ready but outside the session'' @ [CHR 0x27] @ ''s approved PRD set'') st
             else admit_entry si p st))"

definition initial_selection :: "active_hold list \<Rightarrow> selection_state" where
  "initial_selection holds =
     \<lparr>ss_selected = [], ss_scopes = map (\<lambda>h. (ah_prd h, ah_scope h)) holds,
      ss_resources = map (\<lambda>h. (ah_prd h, ah_resources h)) holds, ss_decisions = []\<rparr>"

definition select_entries :: "selection_input \<Rightarrow> active_hold list \<Rightarrow> backlog_entry list \<Rightarrow> selection_state" where
  "select_entries si holds entries = fold (consider_entry si) entries (initial_selection holds)"

definition select_batch_with_foreign ::
    "string \<Rightarrow> (string \<Rightarrow> string + string) \<Rightarrow> string \<Rightarrow> discovered_prd list \<Rightarrow> backlog_db \<Rightarrow> prd_id list
     \<Rightarrow> prd_id list option \<Rightarrow> active_hold list \<Rightarrow> foreign_state \<Rightarrow> nat
     \<Rightarrow> drive_error + selection \<times> selection_decision list \<times> backlog_db" where
  "select_batch_with_foreign now read repo discovered db attempted allowlist holds foreign limit =
     (if discovered = [] then Inr (Select_Backlog_Empty, [], db)
      else rbind (map_err (\<lambda>e. Drive_Storage (show_store_error e)) (reconcile_and_snapshot now db repo discovered))
        (\<lambda>(snapshot, db').
           let entries = sort_key entry_key snapshot;
               si = \<lparr>si_attempted = attempted, si_allowlist = allowlist, si_in_flight = map ah_prd holds,
                     si_foreign = foreign, si_limit = limit, si_statuses = status_map entries, si_read = read\<rparr>;
               st = select_entries si holds entries in
           Inr (if ss_selected st = [] then Select_Nothing_Eligible else Select_Eligible (ss_selected st),
                ss_decisions st, db')))"

section \<open>Width\<close>

definition prd_conflict ::
    "discovered_prd \<Rightarrow> scope_pattern list \<Rightarrow> discovered_prd \<Rightarrow> scope_pattern list \<Rightarrow> string option" where
  "prd_conflict p ps q qs =
     (case scope_overlap ps qs of
        Some (a, b) \<Rightarrow> Some (''scope '' @ quoted a @ '' overlaps '' @ quoted b)
      | None \<Rightarrow> map_option (\<lambda>r. ''resource '' @ quoted r)
          (find (\<lambda>r. r \<in> set (md_resources (prd_meta q))) (md_resources (prd_meta p))))"

definition conflict_at :: "discovered_prd list \<Rightarrow> scope_pattern list list \<Rightarrow> nat \<Rightarrow> nat \<Rightarrow> string option" where
  "conflict_at prds scopes i j = prd_conflict (prds ! i) (scopes ! i) (prds ! j) (scopes ! j)"

definition width_edge :: "discovered_prd list \<Rightarrow> scope_pattern list list \<Rightarrow> nat \<Rightarrow> nat \<Rightarrow> bool" where
  "width_edge prds scopes i j \<longleftrightarrow>
     (i < j \<and> conflict_at prds scopes i j \<noteq> None) \<or> (j < i \<and> conflict_at prds scopes j i \<noteq> None)"

text \<open>The branch and bound \<open>search\<close>, with what is left of the indices; it returns the new best.\<close>

fun width_search :: "(nat \<Rightarrow> nat \<Rightarrow> bool) \<Rightarrow> nat \<Rightarrow> nat \<Rightarrow> nat list \<Rightarrow> nat \<Rightarrow> nat" where
  "width_search edge n 0 picked best = max best (length picked)"
| "width_search edge n (Suc k) picked best =
     (let index = n - Suc k in
      if length picked + n - index \<le> best then best
      else let best' = (if list_all (\<lambda>p. \<not> edge p index) picked
                        then width_search edge n k (picked @ [index]) best else best) in
           width_search edge n k picked best')"

record width_report =
  wr_graph :: nat
  wr_achievable :: nat
  wr_conflicts :: "(prd_id \<times> prd_id \<times> string) list"

definition achievable_width :: "(string \<Rightarrow> string + string) \<Rightarrow> discovered_prd list \<Rightarrow> string + width_report" where
  "achievable_width read prds =
     rbind (traverse (\<lambda>p. map_err (\<lambda>e. show_prd_id (prd_ident p) @ '' ('' @ prd_path p @ ''): '' @ e) (prd_scope read p)) prds)
       (\<lambda>scopes.
          let n = length prds in
          Inr \<lparr>wr_graph = n, wr_achievable = width_search (width_edge prds scopes) n n [] 0,
               wr_conflicts = concat (map (\<lambda>i. List.map_filter (\<lambda>j.
                 map_option (\<lambda>r. (prd_ident (prds ! i), prd_ident (prds ! j), r)) (conflict_at prds scopes i j))
                 [Suc i..<n]) [0..<n])\<rparr>)"

definition validate_claimed_width ::
    "(string \<Rightarrow> string + string) \<Rightarrow> discovered_prd list \<Rightarrow> nat \<Rightarrow> string + width_report" where
  "validate_claimed_width read prds claimed =
     rbind (achievable_width read prds) (\<lambda>report.
     if wr_achievable report < claimed
     then Inl (''claimed width '' @ show_nat claimed @ '' exceeds achievable width '' @ show_nat (wr_achievable report)
               @ '': '' @ join '', '' (map (\<lambda>(a, b, r). show_prd_id a @ ''<->'' @ show_prd_id b @ '': '' @ r)
                                         (wr_conflicts report)))
     else Inr report)"

section \<open>Components of the dependency graph\<close>

type_synonym prd_node = "u64 \<times> nat"

text \<open>The insertions into the map of neighbours, in order, and what the map then holds.\<close>

definition neighbor_pairs :: "discovered_prd list \<Rightarrow> (prd_node \<times> prd_node) list" where
  "neighbor_pairs prds =
     concat (map (\<lambda>p. concat (map (\<lambda>d. [(prd_key (prd_ident p), prd_key d), (prd_key d, prd_key (prd_ident p))])
                                (prd_dependencies p))) prds)"

definition component_nodes :: "discovered_prd list \<Rightarrow> prd_node list" where
  "component_nodes prds =
     sort (remdups (map (prd_key \<circ> prd_ident) prds @ map fst (neighbor_pairs prds)))"

definition neighbors :: "discovered_prd list \<Rightarrow> prd_node \<Rightarrow> prd_node list" where
  "neighbors prds k = sort (remdups (map snd (filter (\<lambda>e. fst e = k) (neighbor_pairs prds))))"

text \<open>The loop over the stack of pending nodes, the top first; \<open>None\<close> is an index that is not in the map.\<close>

function flood ::
    "prd_node list \<Rightarrow> (prd_node \<Rightarrow> prd_node list) \<Rightarrow> prd_node list \<Rightarrow> prd_node list \<Rightarrow> prd_node list option" where
  "flood nodes nbrs [] members = Some members"
| "flood nodes nbrs (k # pending) members =
     (if k \<in> set members then flood nodes nbrs pending members
      else if k \<notin> set nodes then None
      else flood nodes nbrs (rev (nbrs k) @ pending) (k # members))"
  by pat_completeness auto
termination
proof (relation "inv_image (measure (\<lambda>n. n) <*lex*> measure (\<lambda>n. n))
      (\<lambda>(nodes, nbrs, pending, members). (card (set nodes - set members), length pending))")
  fix nodes :: "prd_node list" and nbrs :: "prd_node \<Rightarrow> prd_node list" and k :: prd_node and pending members
  assume "k \<notin> set members" "\<not> k \<notin> set nodes"
  then have "set nodes - set (k # members) \<subset> set nodes - set members" by auto
  then have "card (set nodes - set (k # members)) < card (set nodes - set members)"
    by (rule psubset_card_mono[rotated]) simp
  then show "((nodes, nbrs, rev (nbrs k) @ pending, k # members), nodes, nbrs, k # pending, members)
      \<in> inv_image (measure (\<lambda>n. n) <*lex*> measure (\<lambda>n. n))
        (\<lambda>(nodes, nbrs, pending, members). (card (set nodes - set members), length pending))"
    by simp
qed auto

definition component_name :: "prd_node \<Rightarrow> string" where
  "component_name k =
     ''component-PRD-'' @ zero_pad 3 (show_u64 (fst k)) @ (if snd k = 256 then [] else [char_of (snd k)])"

text \<open>The loop over the roots; a root that is already labelled is skipped.\<close>

fun label_components ::
    "prd_node list \<Rightarrow> (prd_node \<Rightarrow> prd_node list) \<Rightarrow> prd_node list \<Rightarrow> (prd_node \<Rightarrow> string option)
     \<Rightarrow> (prd_node \<Rightarrow> string option) option" where
  "label_components nodes nbrs [] result = Some result"
| "label_components nodes nbrs (root # roots) result =
     (if result root \<noteq> None then label_components nodes nbrs roots result
      else Option.bind (flood nodes nbrs [root] []) (\<lambda>members.
           label_components nodes nbrs roots
             (\<lambda>k. if k \<in> set members then Some (component_name (Min (set members))) else result k)))"

definition dependency_components :: "discovered_prd list \<Rightarrow> (prd_node \<Rightarrow> string option) option" where
  "dependency_components prds =
     label_components (component_nodes prds) (neighbors prds) (component_nodes prds) (\<lambda>_. None)"

section \<open>The share of one attempt\<close>

definition component_warrant_requests ::
    "string \<Rightarrow> drive_warrant \<Rightarrow> u64 \<Rightarrow> u64 \<Rightarrow> resource_request list" where
  "component_warrant_requests pool w implementation_tokens parallelism =
     (let divisor = max parallelism 1; share = max (dw_tokens w div divisor) 1 in
      (if 0 < dw_cost w
       then [\<lparr>rs_pool_id = pool, rs_type = NanousdBudget,
              rs_amount = unat (max (saturating_mul64 (dw_cost w) 1000 div divisor) 1)\<rparr>] else [])
      @ (if 0 < dw_tokens w
         then [\<lparr>rs_pool_id = pool, rs_type = UncachedTokens,
                rs_amount = unat (if 0 < implementation_tokens then min implementation_tokens share else share)\<rparr>]
         else []))"

definition saturating_add64 :: "u64 \<Rightarrow> u64 \<Rightarrow> u64" where
  "saturating_add64 a b = (case checked_add64 a b of Some c \<Rightarrow> c | None \<Rightarrow> - 1)"

definition saturating_sub64 :: "u64 \<Rightarrow> u64 \<Rightarrow> u64" where
  "saturating_sub64 a b = (if b \<le> a then a - b else 0)"

definition ladder_escalation_payload :: "string option \<Rightarrow> string option \<Rightarrow> (string \<times> string) option" where
  "ladder_escalation_payload reason detail =
     Option.bind reason (\<lambda>r.
     Option.bind (if r = ''verification_failed'' then Some ''required_verification_failed''
                  else if r = ''human_review_required'' then Some ''independent_review_blocked'' else None) (\<lambda>code.
     Some (code, ''escalated_from_reason='' @ r @ [nl]
       @ (case detail of Some d \<Rightarrow> d | None \<Rightarrow> ''no additional durable detail was recorded''))))"

definition escalation_admitted ::
    "drive_warrant \<Rightarrow> u64 \<Rightarrow> u64 \<Rightarrow> u64 \<Rightarrow> u64 \<Rightarrow> u64 \<Rightarrow> u64 \<Rightarrow> bool" where
  "escalation_admitted w cost tokens elapsed estimated token_reservation duration_reservation \<longleftrightarrow>
     (dw_cost w = 0 \<or> saturating_add64 cost estimated \<le> dw_cost w)
   \<and> (dw_tokens w = 0 \<or> 0 < token_reservation \<and> saturating_add64 tokens token_reservation \<le> dw_tokens w)
   \<and> (dw_duration w = 0 \<or> 0 < duration_reservation \<and> saturating_add64 elapsed duration_reservation \<le> dw_duration w)"

definition remaining_duration_ms :: "drive_warrant \<Rightarrow> u64 \<Rightarrow> u64 option" where
  "remaining_duration_ms w elapsed =
     (if 0 < dw_duration w then Some (saturating_sub64 (dw_duration w) elapsed) else None)"

end
