(* ===== verification/Drive_Loop.thy ===== *)
theory Drive_Loop
  imports Drive_Batch
begin

text \<open>
  The loop of \<open>drive\<close>, \<open>crates/familiar-ai-daemon/src/drive.rs\<close>: each pass selects a batch, starts workers
  on it and drains the result of one worker. What the pass sees of the outside, that is whether each
  write succeeded, what git and the worktrees answered, what the workers left in the backlog database,
  and what a worker returned, are the fields of \<open>pass_input\<close>; the reconciliation, the choice, the checks
  of quality and every counter, hold and stop of the session are computed. The counters are 64 bits wide.
\<close>

section \<open>The session\<close>

record drive_config =
  dc_warrant :: drive_warrant
  dc_parallelism :: nat
  dc_isolated :: bool
  dc_repository :: string
  dc_session :: string
  dc_implementation_tokens :: u64
  dc_max_deliveries :: "u64 option"
  dc_poc_prds :: "u64 option"

text \<open>\<open>dc_max_deliveries\<close> is \<open>None\<close> when delivery is disabled; \<open>dc_poc_prds\<close> is set in the mode of PoC self approval.\<close>

definition admit_session :: "drive_config \<Rightarrow> drive_error + unit" where
  "admit_session dc =
     rbind (map_err Drive_Config (validate_warrant (dc_warrant dc))) (\<lambda>_.
     rbind (ensure (dc_parallelism dc \<noteq> 0) (Drive_Config ''driver.max_concurrency must be positive'')) (\<lambda>_.
     ensure (\<not> (dc_max_deliveries dc \<noteq> None \<and> dc_parallelism dc = 1 \<and> \<not> dc_isolated dc))
       (Drive_Config ''delivery requires driver.isolated_worktrees=true'')))"

record drive_state =
  dr_attempted_ids :: "prd_id list"
  dr_attempted :: u64
  dr_completed :: u64
  dr_cost :: u64
  dr_tokens :: u64
  dr_delivered :: u64
  dr_risks :: u64
  dr_recorded :: "(prd_node \<times> string) list"
  dr_width_reported :: bool
  dr_active :: "discovered_prd list"
  dr_holds :: "active_hold list"
  dr_stop :: "drive_termination option"
  dr_streaks :: "string \<Rightarrow> string list"

definition drive_start :: drive_state where
  "drive_start =
     \<lparr>dr_attempted_ids = [], dr_attempted = 0, dr_completed = 0, dr_cost = 0, dr_tokens = 0,
      dr_delivered = 0, dr_risks = 0, dr_recorded = [], dr_width_reported = False, dr_active = [], dr_holds = [],
      dr_stop = None, dr_streaks = (\<lambda>_. [])\<rparr>"

text \<open>\<open>Option::get_or_insert\<close>.\<close>

definition get_or_insert :: "'a \<Rightarrow> 'a option \<Rightarrow> 'a option" where
  "get_or_insert x opt = (case opt of None \<Rightarrow> Some x | Some y \<Rightarrow> Some y)"

section \<open>Preparing a target\<close>

datatype reservation_answer = Reserve_Granted | Reserve_Refused "string + unit" | Reserve_Failed string

datatype lease_answer = Lease_Created | Lease_Unrecorded | Lease_Failed

text \<open>A refusal is recorded with the attempt, which may fail.\<close>

record preparation_input =
  pr_probe :: layout_probe
  pr_quality_recorded :: bool
  pr_sequence_recorded :: bool
  pr_reservation :: reservation_answer
  pr_migration_reserved :: bool
  pr_phase_recorded :: bool
  pr_plan :: "string + unit"
  pr_revision :: "string + unit"
  pr_lease :: lease_answer

datatype preparation = Prep_Job drive_state | Prep_Skip drive_state | Prep_Broken drive_state | Prep_Return drive_error

definition touches_migrations :: "(string \<Rightarrow> string + string) \<Rightarrow> discovered_prd \<Rightarrow> bool" where
  "touches_migrations read p =
     (case prd_scope read p of Inr scope \<Rightarrow> list_ex (\<lambda>e. e = (migrations_dir, Directory)) scope | Inl _ \<Rightarrow> False)"

text \<open>The risk classes and the number of expected files of a PRD, by which its worker is chosen.\<close>

definition route_context :: "(string \<Rightarrow> string + string) \<Rightarrow> string \<Rightarrow> discovered_prd \<Rightarrow> drive_error + string list \<times> nat" where
  "route_context read root p =
     map_err Drive_Config
       (if md_contract_version (prd_meta p) = Some 1 then Inr (md_risk_classes (prd_meta p), length (md_expected_files (prd_meta p)))
        else
          let path = path_push root (prd_path p) in
          rbind (map_err (\<lambda>e. ''cannot read routing scope from '' @ path @ '': '' @ e) (read (prd_path p))) (\<lambda>content.
          rbind (map_err (\<lambda>e. ''cannot parse routing scope from '' @ path @ '': '' @ show_expected_files_error e)
                  (parse_expected_files content)) (\<lambda>entries.
          Inr (md_risk_classes (prd_meta p), length entries))))"

definition session_requests :: "drive_config \<Rightarrow> resource_request list" where
  "session_requests dc = component_warrant_requests (dc_session dc) (dc_warrant dc) (dc_implementation_tokens dc)
     (word_of_nat (dc_parallelism dc))"

text \<open>After the reservation: migration, phase, worker, revision and worktree.\<close>

definition prepare_workspace ::
    "(string \<Rightarrow> string + string) \<Rightarrow> string \<Rightarrow> preparation_input \<Rightarrow> discovered_prd \<Rightarrow> drive_state \<Rightarrow> preparation" where
  "prepare_workspace read root pr target st =
     (if touches_migrations read target \<and> \<not> pr_migration_reserved pr then Prep_Broken st
      else if \<not> pr_phase_recorded pr then Prep_Broken st
      else case rbind (route_context read root target) (\<lambda>_.
                rbind (map_err Drive_Config (pr_plan pr)) (\<lambda>_. map_err Drive_Storage (pr_revision pr))) of
        Inl e \<Rightarrow> Prep_Return e
      | Inr _ \<Rightarrow> (case pr_lease pr of Lease_Created \<Rightarrow> Prep_Job st | _ \<Rightarrow> Prep_Skip st))"

definition prepare_target ::
    "drive_config \<Rightarrow> (string \<Rightarrow> string + string) \<Rightarrow> string \<Rightarrow> discovered_prd list \<Rightarrow> preparation_input
     \<Rightarrow> discovered_prd \<Rightarrow> drive_state \<Rightarrow> preparation" where
  "prepare_target dc read root discovered pr target st =
     (if \<not> pr_quality_recorded pr then Prep_Broken st
      else
        let marked = st\<lparr>dr_attempted_ids := prd_ident target # dr_attempted_ids st\<rparr> in
        if report_refusal (admission_quality (pr_probe pr) discovered target) \<noteq> None then Prep_Skip marked
        else
          let counted = marked\<lparr>dr_attempted := dr_attempted st + 1\<rparr> in
          if \<not> pr_sequence_recorded pr then Prep_Broken counted
          else if session_requests dc = [] then prepare_workspace read root pr target counted
          else case pr_reservation pr of
            Reserve_Granted \<Rightarrow> prepare_workspace read root pr target counted
          | Reserve_Refused recorded \<Rightarrow>
              (case recorded of Inr _ \<Rightarrow> Prep_Skip counted | Inl e \<Rightarrow> Prep_Return (Drive_Storage e))
          | Reserve_Failed e \<Rightarrow> Prep_Return (Drive_Storage e))"

text \<open>The loop over the targets: the jobs in order, and whether the preparation failed.\<close>

fun prepare_targets ::
    "drive_config \<Rightarrow> (string \<Rightarrow> string + string) \<Rightarrow> string \<Rightarrow> discovered_prd list \<Rightarrow> (discovered_prd \<Rightarrow> preparation_input)
     \<Rightarrow> discovered_prd list \<Rightarrow> drive_state \<Rightarrow> drive_error + discovered_prd list \<times> bool \<times> drive_state" where
  "prepare_targets dc read root discovered prepare [] st = Inr ([], False, st)"
| "prepare_targets dc read root discovered prepare (t # ts) st =
     (case prepare_target dc read root discovered (prepare t) t st of
        Prep_Return e \<Rightarrow> Inl e
      | Prep_Broken st' \<Rightarrow> Inr ([], True, st')
      | Prep_Skip st' \<Rightarrow> prepare_targets dc read root discovered prepare ts st'
      | Prep_Job st' \<Rightarrow>
          rbind (prepare_targets dc read root discovered prepare ts st') (\<lambda>(jobs, broken, st'').
          Inr (t # jobs, broken, st'')))"

definition spawn :: "(string \<Rightarrow> string + string) \<Rightarrow> discovered_prd list \<Rightarrow> drive_state \<Rightarrow> drive_state" where
  "spawn read jobs st =
     st\<lparr>dr_active := dr_active st @ jobs,
        dr_holds := dr_holds st @ map (\<lambda>t. \<lparr>ah_prd = prd_ident t,
          ah_scope = (case prd_scope read t of Inr s \<Rightarrow> s | Inl _ \<Rightarrow> []),
          ah_resources = md_resources (prd_meta t)\<rparr>) jobs\<rparr>"

section \<open>Draining a result\<close>

record escalation_input =
  es_estimated_cost :: "u64 option"
  es_max_duration :: u64
  es_elapsed :: u64
  es_base :: "string + unit"
  es_tree_created :: bool
  es_sequence_recorded :: bool
  es_cost :: "u64 option"
  es_tokens :: "u64 option"
  es_ok :: bool
  es_integrated :: bool
  es_recorded :: bool
  es_deliver_ok :: bool

datatype delivery_answer = Delivered bool bool | Undelivered bool

text \<open>
  What a finished worker brings: whether it panicked, how its run ended and why it was retained, and
  whether the writes and the git operations of the driver on its behalf succeeded. The flags of a
  delivery are those of the recorded state of the worktree and of the recorded phase.
\<close>

record drain_input =
  di_panicked :: bool
  di_panic_marked :: bool
  di_terminalized :: bool
  di_heartbeat_failed :: bool
  di_ok :: bool
  di_reason :: "string option"
  di_detail :: string
  di_context_error :: "context_error option"
  di_review_required :: bool
  di_unexpired :: bool
  di_risk_accepted :: bool
  di_recorded :: bool
  di_cost :: "u64 option"
  di_tokens :: "u64 option"
  di_settled :: bool
  di_integrated :: bool
  di_lease_marked :: bool
  di_delivery_heartbeat_failed :: bool
  di_delivery :: delivery_answer
  di_finished :: bool
  di_escalation :: "escalation_input option"

definition deterministic_reasons :: "string list" where
  "deterministic_reasons =
     [''preflight_failed'', ''malformed_output'', ''review_disabled'', ''worktree_failed'',
      ''warrant_reservation_refused'', ''implementation_token_usage_unknown'',
      ''missing_authoritative_input_reference'', ''unreadable_reference'', ''context_compilation_failed'',
      ''implementation_incomplete'']"

definition add_known :: "u64 option \<Rightarrow> u64 \<Rightarrow> u64" where
  "add_known v n = (case v of Some a \<Rightarrow> saturating_add64 n a | None \<Rightarrow> n)"

definition drain_panic :: "drain_input \<Rightarrow> drive_termination option" where
  "drain_panic di =
     (let stop = (if di_panic_marked di then None else Some Storage_Failure) in
      if di_terminalized di then get_or_insert Unclassified_Result stop else Some Storage_Failure)"

text \<open>The reason of the run; an error of the context compiler is classified here.\<close>

definition drain_reason :: "drain_input \<Rightarrow> string option" where
  "drain_reason di =
     (case di_reason di of
        Some r \<Rightarrow> Some r
      | None \<Rightarrow> if di_ok di then None else map_option retention_class (di_context_error di))"

definition accept_risk :: "drive_config \<Rightarrow> drain_input \<Rightarrow> drive_state \<Rightarrow> bool" where
  "accept_risk dc di st \<longleftrightarrow>
     \<not> di_ok di \<and> di_review_required di
     \<and> (case dc_poc_prds dc of Some m \<Rightarrow> di_unexpired di \<and> dr_risks st < m | None \<Rightarrow> False)
     \<and> di_risk_accepted di"

definition record_streak ::
    "string option \<Rightarrow> prd_id \<Rightarrow> drive_termination option \<Rightarrow> drive_state \<Rightarrow> drive_termination option \<times> drive_state" where
  "record_streak reason p stop st =
     (case reason of
        Some r \<Rightarrow>
          if r \<in> set deterministic_reasons
          then let victims = dr_streaks st r @ [show_prd_id p]; st' = st\<lparr>dr_streaks := (dr_streaks st)(r := victims)\<rparr> in
               (if 3 \<le> length victims \<and> stop = None then Some Deterministic_Failure_Cascade else stop, st')
          else (stop, st)
      | None \<Rightarrow> (stop, st))"

definition drain_delivery ::
    "drive_config \<Rightarrow> drain_input \<Rightarrow> drive_termination option \<Rightarrow> drive_state \<Rightarrow> drive_termination option \<times> drive_state" where
  "drain_delivery dc di stop st =
     (case dc_max_deliveries dc of
        None \<Rightarrow> (stop, st)
      | Some m \<Rightarrow>
        if m \<le> dr_delivered st then (get_or_insert Budget_Deliveries_Exhausted stop, st)
        else
          let stop = (if di_delivery_heartbeat_failed di then Some Worker_Heartbeat_Lost else stop) in
          case di_delivery di of
            Delivered marked recorded \<Rightarrow>
              (if marked \<and> recorded then stop else Some Storage_Failure,
               st\<lparr>dr_delivered := saturating_add64 (dr_delivered st) 1\<rparr>)
          | Undelivered recorded \<Rightarrow> (if recorded then Some Delivery_Is_Blocked else Some Storage_Failure, st))"

definition escalation_reservation :: "drive_config \<Rightarrow> escalation_input \<Rightarrow> u64" where
  "escalation_reservation dc es =
     max (case remaining_duration_ms (dc_warrant dc) (es_elapsed es) of Some r \<Rightarrow> r | None \<Rightarrow> es_max_duration es)
       (es_max_duration es)"

definition may_escalate ::
    "drive_config \<Rightarrow> drain_input \<Rightarrow> string option \<Rightarrow> string option \<Rightarrow> escalation_input \<Rightarrow> drive_state \<Rightarrow> bool" where
  "may_escalate dc di reason detail es st \<longleftrightarrow>
     ladder_escalation_payload reason detail \<noteq> None
   \<and> escalation_admitted (dc_warrant dc) (dr_cost st) (dr_tokens st) (es_elapsed es)
       (case es_estimated_cost es of Some c \<Rightarrow> c | None \<Rightarrow> 0) (dc_implementation_tokens dc) (escalation_reservation dc es)
   \<and> (dw_cost (dc_warrant dc) = 0 \<or> di_cost di \<noteq> None) \<and> (dw_tokens (dc_warrant dc) = 0 \<or> di_tokens di \<noteq> None)"

definition run_escalation ::
    "drive_config \<Rightarrow> escalation_input \<Rightarrow> drive_termination option \<Rightarrow> drive_state
     \<Rightarrow> drive_termination option \<times> drive_state" where
  "run_escalation dc es stop st =
     (let st1 = st\<lparr>dr_cost := add_known (es_cost es) (dr_cost st), dr_tokens := add_known (es_tokens es) (dr_tokens st)\<rparr> in
      if \<not> es_recorded es then (Some Storage_Failure, st1)
      else if es_ok es \<and> es_integrated es
      then let st2 = st1\<lparr>dr_completed := saturating_add64 (dr_completed st1) 1\<rparr> in
        (case dc_max_deliveries dc of
           None \<Rightarrow> (stop, st2)
         | Some m \<Rightarrow>
           if m \<le> dr_delivered st2 then (Some Budget_Deliveries_Exhausted, st2)
           else if es_deliver_ok es then (stop, st2\<lparr>dr_delivered := saturating_add64 (dr_delivered st2) 1\<rparr>)
           else (Some Delivery_Is_Blocked, st2))
      else (stop, st1))"

definition drain_escalation ::
    "drive_config \<Rightarrow> drain_input \<Rightarrow> string option \<Rightarrow> string option \<Rightarrow> drive_termination option \<Rightarrow> drive_state
     \<Rightarrow> drive_error + drive_termination option \<times> drive_state" where
  "drain_escalation dc di reason detail stop st =
     (case di_escalation di of
        None \<Rightarrow> Inr (stop, st)
      | Some es \<Rightarrow>
        if \<not> may_escalate dc di reason detail es st then Inr (stop, st)
        else rbind (map_err Drive_Storage (es_base es)) (\<lambda>_. Inr
          (if \<not> es_tree_created es then (stop, st)
           else if \<not> es_sequence_recorded es then (Some Storage_Failure, st)
           else run_escalation dc es stop st)))"

text \<open>The stops that depend on what is known of the attempt, at the end of the drain.\<close>

definition final_stops :: "drive_config \<Rightarrow> drain_input \<Rightarrow> bool \<Rightarrow> drive_termination option \<Rightarrow> drive_termination option" where
  "final_stops dc di unclassified stop =
     (let stop = (if unclassified then get_or_insert Unclassified_Result stop else stop);
          stop = (if 0 < dw_cost (dc_warrant dc) \<and> di_cost di = None then get_or_insert Cost_Is_Unknown stop else stop) in
      if 0 < dw_tokens (dc_warrant dc) \<and> di_tokens di = None then get_or_insert Unclassified_Result stop else stop)"

text \<open>From the state of the worktree on: delivery, the outcome of the attempt, escalation and the last stops.\<close>

definition drain_outcome ::
    "drive_config \<Rightarrow> drain_input \<Rightarrow> bool \<Rightarrow> bool \<Rightarrow> string option \<Rightarrow> string option \<Rightarrow> drive_termination option \<Rightarrow> drive_state
     \<Rightarrow> drive_error + drive_termination option \<times> drive_state" where
  "drain_outcome dc di ok integrated traced reason stop st =
     (if \<not> di_lease_marked di then Inr (Some Storage_Failure, st)
      else
        let (stop, st) = (if integrated then drain_delivery dc di stop st else (stop, st)) in
        if \<not> di_finished di then Inr (Some Storage_Failure, st)
        else rbind (drain_escalation dc di reason (if ok then None else Some (di_detail di)) stop st) (\<lambda>(stop, st).
             Inr (final_stops dc di (\<not> ok \<and> traced = None) stop, st)))"

text \<open>From the recorded diagnostics on: cost, tokens, settlement, integration and the failure streaks.\<close>

definition drain_recorded ::
    "drive_config \<Rightarrow> prd_id \<Rightarrow> drain_input \<Rightarrow> bool \<Rightarrow> string option \<Rightarrow> drive_termination option \<Rightarrow> drive_state
     \<Rightarrow> drive_error + drive_termination option \<times> drive_state" where
  "drain_recorded dc p di ok traced stop st =
     (let st = st\<lparr>dr_cost := add_known (di_cost di) (dr_cost st), dr_tokens := add_known (di_tokens di) (dr_tokens st)\<rparr>;
          stop = (if session_requests dc \<noteq> [] \<and> \<not> di_settled di then Some Storage_Failure else stop);
          integrated = (ok \<and> di_integrated di);
          st = (if integrated then st\<lparr>dr_completed := dr_completed st + 1\<rparr> else st);
          reason = (if integrated then None
             else Some (case traced of Some r \<Rightarrow> r | None \<Rightarrow> if ok then ''integration_failed'' else ''unclassified_result''));
          (stop, st) = record_streak reason p stop st in
      drain_outcome dc di ok integrated traced reason stop st)"

definition drain_result ::
    "drive_config \<Rightarrow> prd_id \<Rightarrow> drain_input \<Rightarrow> drive_state \<Rightarrow> drive_error + drive_termination option \<times> drive_state" where
  "drain_result dc p di st =
     (if di_panicked di then Inr (drain_panic di, st)
      else
        let accepted = accept_risk dc di st;
            st = (if accepted then st\<lparr>dr_risks := saturating_add64 (dr_risks st) 1\<rparr> else st);
            stop = (if di_heartbeat_failed di then Some Worker_Heartbeat_Lost else None) in
        if \<not> di_recorded di then Inr (Some Storage_Failure, st)
        else drain_recorded dc p di (di_ok di \<or> accepted) (drain_reason di) stop st)"

section \<open>One pass\<close>

record pass_input =
  pi_heartbeat_failed :: bool
  pi_elapsed :: u64
  pi_now :: string
  pi_root :: string
  pi_db :: backlog_db
  pi_discovered :: "string + discovered_prd list"
  pi_foreign :: foreign_state
  pi_read :: "string \<Rightarrow> string + string"
  pi_decision_recorded :: "selection_decision \<Rightarrow> bool"
  pi_width_recorded :: bool
  pi_prepare :: "discovered_prd \<Rightarrow> preparation_input"
  pi_joined :: "(nat \<times> drain_input) option"
  pi_heartbeat_recorded :: bool

datatype pass_end = Pass_Next drive_state | Pass_Break drive_termination drive_state | Pass_Return drive_error

definition remaining_width :: "drive_config \<Rightarrow> drive_state \<Rightarrow> nat" where
  "remaining_width dc st =
     min (if dr_stop st \<noteq> None then 0
          else if dw_prds (dc_warrant dc) = 0 then dc_parallelism dc
          else min (unat (saturating_sub64 (dw_prds (dc_warrant dc)) (dr_attempted st))) (dc_parallelism dc))
       (dc_parallelism dc - length (dr_active st))"

text \<open>Each decision is recorded once in a session; a decision that cannot be recorded ends it.\<close>

fun record_decisions ::
    "(selection_decision \<Rightarrow> bool) \<Rightarrow> selection_decision list \<Rightarrow> (prd_node \<times> string) list
     \<Rightarrow> bool \<times> (prd_node \<times> string) list" where
  "record_decisions ok [] seen = (True, seen)"
| "record_decisions ok (d # ds) seen =
     (let k = (prd_key (sd_prd d), sd_decision d) in
      if k \<in> set seen then record_decisions ok ds seen
      else if \<not> ok d then (False, k # seen)
      else record_decisions ok ds (k # seen))"

definition pass_targets :: "selection \<Rightarrow> drive_state \<Rightarrow> drive_termination + discovered_prd list" where
  "pass_targets s st =
     (case s of
        Select_Eligible ps \<Rightarrow> Inr ps
      | Select_Backlog_Empty \<Rightarrow> if dr_active st = [] then Inl Backlog_Is_Empty else Inr []
      | Select_Nothing_Eligible \<Rightarrow> if dr_active st = [] then Inl Nothing_Is_Eligible else Inr [])"

definition start_batch ::
    "drive_config \<Rightarrow> pass_input \<Rightarrow> discovered_prd list \<Rightarrow> discovered_prd list \<Rightarrow> drive_state \<Rightarrow> pass_end" where
  "start_batch dc pin discovered targets st =
     (let fewer = (\<not> dr_width_reported st \<and> length targets < remaining_width dc st) in
      let st = st\<lparr>dr_width_reported := True\<rparr> in
      if fewer \<and> \<not> pi_width_recorded pin then Pass_Break Storage_Failure st
      else case prepare_targets dc (pi_read pin) (pi_root pin) discovered (pi_prepare pin) targets st of
        Inl e \<Rightarrow> Pass_Return e
      | Inr (jobs, broken, st) \<Rightarrow>
        if broken then Pass_Break Storage_Failure st
        else Pass_Next (spawn (pi_read pin) jobs st))"

definition schedule :: "drive_config \<Rightarrow> pass_input \<Rightarrow> drive_state \<Rightarrow> pass_end" where
  "schedule dc pin st =
     (case pi_discovered pin of
        Inl _ \<Rightarrow> Pass_Break Storage_Failure st
      | Inr discovered \<Rightarrow>
        if validate_graph discovered \<noteq> Inr () then Pass_Break Storage_Failure st
        else case select_batch_with_foreign (pi_now pin) (pi_read pin) (dc_repository dc) discovered (pi_db pin)
               (dr_attempted_ids st) (dw_allowlist (dc_warrant dc)) (dr_holds st) (pi_foreign pin)
               (remaining_width dc st) of
          Inl e \<Rightarrow> Pass_Return e
        | Inr (selection, decisions, _) \<Rightarrow>
          let (recorded, seen) = record_decisions (pi_decision_recorded pin) decisions (dr_recorded st);
              st = st\<lparr>dr_recorded := seen\<rparr> in
          if \<not> recorded then Pass_Break Storage_Failure st
          else case pass_targets selection st of
            Inl reason \<Rightarrow> Pass_Break reason st
          | Inr targets \<Rightarrow> start_batch dc pin discovered targets st)"

text \<open>The pass up to the point where its workers run.\<close>

definition launch :: "drive_config \<Rightarrow> pass_input \<Rightarrow> drive_state \<Rightarrow> pass_end" where
  "launch dc pin st =
     (case (dr_active st, dr_stop st) of
        ([], Some reason) \<Rightarrow> Pass_Break reason st
      | _ \<Rightarrow>
        let st = (if pi_heartbeat_failed pin then st\<lparr>dr_stop := Some Worker_Heartbeat_Lost\<rparr> else st) in
        case warrant_exhausted (dc_warrant dc) (dr_attempted st) (dr_cost st) (dr_tokens st) (pi_elapsed pin) of
          Some reason \<Rightarrow>
            let st = st\<lparr>dr_stop := get_or_insert reason (dr_stop st)\<rparr> in
            if dr_active st = [] then Pass_Break reason st else schedule dc pin st
        | None \<Rightarrow> schedule dc pin st)"

definition join_worker :: "drive_config \<Rightarrow> pass_input \<Rightarrow> drive_state \<Rightarrow> pass_end" where
  "join_worker dc pin st =
     (if dr_active st = [] then Pass_Break Nothing_Is_Eligible st
      else case pi_joined pin of
        None \<Rightarrow> Pass_Break Storage_Failure st
      | Some (i, di) \<Rightarrow>
        if length (dr_active st) \<le> i then Pass_Break Storage_Failure st
        else
          let p = prd_ident (dr_active st ! i);
              st = st\<lparr>dr_active := take i (dr_active st) @ drop (Suc i) (dr_active st),
                      dr_holds := filter (\<lambda>h. \<not> prd_eq (ah_prd h) p) (dr_holds st)\<rparr> in
          case drain_result dc p di st of
            Inl e \<Rightarrow> Pass_Return e
          | Inr (stop, st) \<Rightarrow>
            let st = (case stop of None \<Rightarrow> st | Some s \<Rightarrow> st\<lparr>dr_stop := get_or_insert s (dr_stop st)\<rparr>) in
            if pi_heartbeat_recorded pin then Pass_Next st else Pass_Break Storage_Failure st)"

definition drive_pass :: "drive_config \<Rightarrow> pass_input \<Rightarrow> drive_state \<Rightarrow> pass_end" where
  "drive_pass dc pin st = (case launch dc pin st of Pass_Next st' \<Rightarrow> join_worker dc pin st' | end_ \<Rightarrow> end_)"

text \<open>The loop over the passes whose inputs are given; \<open>Pass_Next\<close> is a session that is still running.\<close>

fun drive_passes :: "drive_config \<Rightarrow> pass_input list \<Rightarrow> drive_state \<Rightarrow> pass_end" where
  "drive_passes dc [] st = Pass_Next st"
| "drive_passes dc (pin # pins) st =
     (case drive_pass dc pin st of Pass_Next st' \<Rightarrow> drive_passes dc pins st' | end_ \<Rightarrow> end_)"

definition drive :: "drive_config \<Rightarrow> bool \<Rightarrow> pass_input list \<Rightarrow> pass_end" where
  "drive dc preflight pins =
     (case admit_session dc of
        Inl e \<Rightarrow> Pass_Return e
      | Inr _ \<Rightarrow>
        if \<not> preflight then Pass_Break Preflight_Failed drive_start else drive_passes dc pins drive_start)"

end
