(* ===== verification/Drive_Guarantees.thy ===== *)
theory Drive_Guarantees
  imports Drive_Loop
begin

text \<open>
  What runs at the same time in a session does not collide: the overlap of scopes is the existence of a
  path that both may change, and the holds of the workers in flight never overlap.
\<close>

section \<open>Overlap of scopes\<close>

definition pattern_matches :: "scope_pattern \<Rightarrow> string \<Rightarrow> bool" where
  "pattern_matches e path =
     (case e of (n, ExactFile) \<Rightarrow> path = n
      | (n, Directory) \<Rightarrow> starts_with path n \<and> length n < length path)"

lemma pattern_matches_entry: "pattern_matches (ef_normalized e, ef_match_kind e) = entry_matches e"
  by (auto simp: pattern_matches_def entry_matches_def split: match_kind.splits)

definition pattern_ok :: "scope_pattern \<Rightarrow> bool" where
  "pattern_ok e \<longleftrightarrow> normal_path (fst e) (snd e)"

lemma starts_with_trans: "starts_with s p \<Longrightarrow> starts_with p q \<Longrightarrow> starts_with s q"
  unfolding starts_with_iff by auto

lemma starts_with_comparable: "starts_with s p \<Longrightarrow> starts_with s q \<Longrightarrow> starts_with p q \<or> starts_with q p"
  unfolding starts_with_def by (metis le_cases min.absorb1 take_take)

lemma starts_with_refl [simp]: "starts_with s s" "starts_with (s @ t) s"
  by (simp_all add: starts_with_def)

lemma scope_entries_overlap_sym: "scope_entries_overlap a b \<longleftrightarrow> scope_entries_overlap b a"
  by (cases a; cases b; cases "snd a"; cases "snd b") auto

text \<open>
  two normalized entries of Expected Files overlap, as the scheduler decides it, exactly when there is
  a path to which both authorize a change.
\<close>

lemma scope_entries_overlap_iff:
  assumes "pattern_ok a" "pattern_ok b"
  shows "scope_entries_overlap a b \<longleftrightarrow> (\<exists>path. pattern_matches a path \<and> pattern_matches b path)"
proof -
  have mixed: "starts_with l r \<longleftrightarrow> (starts_with l r \<and> length r < length l)"
    if "normal_path l ExactFile" "normal_path r Directory" for l r
  proof -
    have "l \<noteq> r" using normal_path_kind[OF that(1)] normal_path_kind[OF that(2)] by auto
    then show ?thesis by (auto simp: starts_with_iff)
  qed
  obtain l lk r rk where ab: "a = (l, lk)" "b = (r, rk)" by fastforce
  show ?thesis
  proof (cases lk; cases rk)
    assume k: "lk = ExactFile" "rk = Directory"
    show ?thesis using mixed[of l r] assms by (auto simp: ab k pattern_matches_def pattern_ok_def)
  next
    assume k: "lk = Directory" "rk = ExactFile"
    show ?thesis using mixed[of r l] assms by (auto simp: ab k pattern_matches_def pattern_ok_def)
  next
    assume k: "lk = Directory" "rk = Directory"
    have "\<exists>path. (starts_with path l \<and> length l < length path) \<and> (starts_with path r \<and> length r < length path)"
      if "starts_with l r \<or> starts_with r l"
    proof (cases "starts_with l r")
      case True
      then have "starts_with (l @ ''x'') r" "length r \<le> length l" by (auto simp: starts_with_iff)
      then show ?thesis by (intro exI[of _ "l @ ''x''"]) simp
    next
      case False
      then have "starts_with (r @ ''x'') l" "length l \<le> length r" using that by (auto simp: starts_with_iff)
      then show ?thesis by (intro exI[of _ "r @ ''x''"]) simp
    qed
    then show ?thesis using starts_with_comparable by (auto simp: ab k pattern_matches_def)
  qed (auto simp: ab pattern_matches_def)
qed

lemma find_map_None_iff: "find_map f xs = None \<longleftrightarrow> (\<forall>x\<in>set xs. f x = None)"
  by (induction xs) (auto split: option.splits)

lemma find_map_Some: "find_map f xs = Some y \<Longrightarrow> \<exists>x\<in>set xs. f x = Some y"
  by (induction xs) (auto split: option.splits)

lemma scope_overlap_None_iff:
  "scope_overlap l r = None \<longleftrightarrow> (\<forall>a\<in>set l. \<forall>b\<in>set r. fst a \<noteq> migrations_dir \<longrightarrow> fst b \<noteq> migrations_dir
     \<longrightarrow> \<not> scope_entries_overlap a b)"
  by (auto simp: scope_overlap_def find_map_None_iff find_None_iff_ex)

lemma scope_overlap_sym: "scope_overlap l r = None \<longleftrightarrow> scope_overlap r l = None"
  by (auto simp: scope_overlap_None_iff scope_entries_overlap_sym)

section \<open>Holds\<close>

text \<open>Two holds that may exist at the same time.\<close>

definition compatible :: "active_hold \<Rightarrow> active_hold \<Rightarrow> bool" where
  "compatible h h' \<longleftrightarrow>
     scope_overlap (ah_scope h) (ah_scope h') = None \<and> set (ah_resources h) \<inter> set (ah_resources h') = {}"

lemma compatible_sym: "compatible h h' \<longleftrightarrow> compatible h' h"
  unfolding compatible_def using scope_overlap_sym by blast

definition hold_of :: "(string \<Rightarrow> string + string) \<Rightarrow> discovered_prd \<Rightarrow> active_hold" where
  "hold_of read t = \<lparr>ah_prd = prd_ident t, ah_scope = (case prd_scope read t of Inr s \<Rightarrow> s | Inl _ \<Rightarrow> []),
     ah_resources = md_resources (prd_meta t)\<rparr>"

lemma spawn_holds: "dr_holds (spawn read jobs st) = dr_holds st @ map (hold_of read) jobs"
  by (simp add: spawn_def hold_of_def)

section \<open>The choice of a batch\<close>

text \<open>What the scheduler asks of an entry before it looks at the batch.\<close>

definition ready :: "selection_input \<Rightarrow> backlog_entry \<Rightarrow> bool" where
  "ready si e \<longleftrightarrow>
     (let p = entry_prd e in \<not> prd_in (prd_ident p) (si_attempted si) \<and> front_matter_hold p = None
      \<and> fs_claimed (si_foreign si) (show_prd_id (prd_ident p)) = None
      \<and> path_file_name (prd_path p) \<notin> set (fs_archived (si_foreign si))
      \<and> entry_status e = Pending \<and> incomplete_dependencies (si_statuses si) p = []
      \<and> (case si_allowlist si of None \<Rightarrow> True | Some a \<Rightarrow> prd_in (prd_ident p) a))"

definition admitted :: "selection_input \<Rightarrow> backlog_entry \<Rightarrow> selection_state \<Rightarrow> selection_state \<Rightarrow> bool" where
  "admitted si e st st' \<longleftrightarrow>
     (let p = entry_prd e; h = hold_of (si_read si) p in
      ready si e \<and> length (ss_selected st) < max (si_limit si) 1
      \<and> (\<forall>(i, rs)\<in>set (ss_resources st). set (ah_resources h) \<inter> set rs = {})
      \<and> (\<forall>(i, sc)\<in>set (ss_scopes st). scope_overlap (ah_scope h) sc = None)
      \<and> ss_selected st' = ss_selected st @ [p] \<and> ss_scopes st' = ss_scopes st @ [(prd_ident p, ah_scope h)]
      \<and> ss_resources st' = ss_resources st @ [(prd_ident p, ah_resources h)])"

definition passed_over :: "selection_state \<Rightarrow> selection_state \<Rightarrow> bool" where
  "passed_over st st' \<longleftrightarrow>
     ss_selected st' = ss_selected st \<and> ss_scopes st' = ss_scopes st \<and> ss_resources st' = ss_resources st"

lemma passed_over_decide [simp]: "passed_over st (decide p d t st)" "passed_over st st"
  by (simp_all add: passed_over_def decide_def)

lemma admit_entry_cases:
  assumes "ready si e"
  shows "passed_over st (admit_entry si (entry_prd e) st) \<or> admitted si e st (admit_entry si (entry_prd e) st)"
proof (cases "length (ss_selected st) < max (si_limit si) 1
    \<and> resource_conflict (entry_prd e) st = None
    \<and> (\<exists>scope. prd_scope (si_read si) (entry_prd e) = Inr scope \<and> scope_conflict scope st = None)")
  case True
  then obtain scope where s: "prd_scope (si_read si) (entry_prd e) = Inr scope" "scope_conflict scope st = None"
    and r: "resource_conflict (entry_prd e) st = None" and l: "length (ss_selected st) < max (si_limit si) 1" by blast
  have "\<forall>(i, rs)\<in>set (ss_resources st). set (md_resources (prd_meta (entry_prd e))) \<inter> set rs = {}"
    using r by (force simp: resource_conflict_def find_map_None_iff find_None_iff_ex)
  moreover have "\<forall>(i, sc)\<in>set (ss_scopes st). scope_overlap scope sc = None"
    using s(2) by (auto simp: scope_conflict_def find_map_None_iff)
  moreover have "length (ss_selected st) < si_limit si \<or> ss_selected st = []" using l by (auto simp: less_max_iff_disj)
  ultimately have "admitted si e st (admit_entry si (entry_prd e) st)"
    using assms l r s by (simp add: admitted_def admit_entry_def hold_of_def decide_def Let_def not_le)
  then show ?thesis by blast
next
  case False
  then have "passed_over st (admit_entry si (entry_prd e) st)"
    by (auto simp: admit_entry_def not_less split: option.splits sum.splits)
  then show ?thesis by blast
qed

lemma consider_entry_cases:
  "passed_over st (consider_entry si e st) \<or> admitted si e st (consider_entry si e st)"
proof (cases "ready si e")
  case True
  then have "consider_entry si e st = admit_entry si (entry_prd e) st"
    by (auto simp: consider_entry_def ready_def Let_def split: option.splits)
  then show ?thesis using admit_entry_cases[OF True] by simp
next
  case False
  then have "passed_over st (consider_entry si e st)"
    by (auto simp: consider_entry_def ready_def Let_def split: option.splits)
  then show ?thesis by blast
qed

text \<open>The state after the entries \<open>es\<close>.\<close>

definition chosen_from :: "selection_input \<Rightarrow> active_hold list \<Rightarrow> backlog_entry list \<Rightarrow> selection_state \<Rightarrow> bool" where
  "chosen_from si holds es st \<longleftrightarrow>
     (let hs = holds @ map (hold_of (si_read si)) (ss_selected st) in
      ss_scopes st = map (\<lambda>h. (ah_prd h, ah_scope h)) hs \<and> ss_resources st = map (\<lambda>h. (ah_prd h, ah_resources h)) hs
      \<and> length (ss_selected st) \<le> max (si_limit si) 1
      \<and> (\<forall>p\<in>set (ss_selected st). \<exists>e\<in>set es. entry_prd e = p \<and> ready si e)
      \<and> (sorted_wrt compatible holds \<longrightarrow> sorted_wrt compatible hs)
      \<and> (distinct (map (prd_key \<circ> prd_ident \<circ> entry_prd) es) \<longrightarrow> distinct (map (prd_key \<circ> prd_ident) (ss_selected st))))"

lemma chosen_from_step:
  assumes "chosen_from si holds es st" and "admitted si e st st'"
  shows "chosen_from si holds (es @ [e]) st'"
proof -
  let ?p = "entry_prd e"
  let ?h = "hold_of (si_read si) ?p"
  let ?hs = "holds @ map (hold_of (si_read si)) (ss_selected st)"
  have inv: "ss_scopes st = map (\<lambda>h. (ah_prd h, ah_scope h)) ?hs" "ss_resources st = map (\<lambda>h. (ah_prd h, ah_resources h)) ?hs"
      "\<forall>p\<in>set (ss_selected st). \<exists>e\<in>set es. entry_prd e = p \<and> ready si e"
      "sorted_wrt compatible holds \<longrightarrow> sorted_wrt compatible ?hs"
      "distinct (map (prd_key \<circ> prd_ident \<circ> entry_prd) es) \<longrightarrow> distinct (map (prd_key \<circ> prd_ident) (ss_selected st))"
    using assms(1) by (simp_all add: chosen_from_def Let_def)
  have adm: "ready si e" "length (ss_selected st) < max (si_limit si) 1"
      "\<forall>(i, rs)\<in>set (ss_resources st). set (ah_resources ?h) \<inter> set rs = {}"
      "\<forall>(i, sc)\<in>set (ss_scopes st). scope_overlap (ah_scope ?h) sc = None"
      "ss_selected st' = ss_selected st @ [?p]" "ss_scopes st' = ss_scopes st @ [(prd_ident ?p, ah_scope ?h)]"
      "ss_resources st' = ss_resources st @ [(prd_ident ?p, ah_resources ?h)]"
    using assms(2) unfolding admitted_def Let_def by blast+
  have "compatible ?h h" if "h \<in> set ?hs" for h
    using that adm(3,4) unfolding inv(1,2) compatible_def by auto
  then have "\<forall>h\<in>set ?hs. compatible h ?h" using compatible_sym by blast
  then have compat: "sorted_wrt compatible holds \<longrightarrow> sorted_wrt compatible (?hs @ [?h])"
    using inv(4) by (auto simp: sorted_wrt_append)
  have fresh: "prd_key (prd_ident ?p) \<notin> prd_key ` prd_ident ` set (ss_selected st)"
    if "distinct (map (prd_key \<circ> prd_ident \<circ> entry_prd) (es @ [e]))"
    using that inv(3) by fastforce
  have ident: "ah_prd ?h = prd_ident ?p" by (simp add: hold_of_def)
  have "distinct (map (prd_key \<circ> prd_ident \<circ> entry_prd) (es @ [e])) \<longrightarrow>
      distinct (map (prd_key \<circ> prd_ident) (ss_selected st'))"
    using fresh inv(5) unfolding adm(5) by (auto simp: image_comp)
  moreover have "\<forall>p\<in>set (ss_selected st'). \<exists>x\<in>set (es @ [e]). entry_prd x = p \<and> ready si x"
    using inv(3) adm(1) unfolding adm(5) by auto
  moreover have "length (ss_selected st') \<le> max (si_limit si) 1" using adm(2) unfolding adm(5) by simp
  ultimately show ?thesis
    using compat inv(1,2) ident unfolding chosen_from_def Let_def adm(5,6,7) by simp
qed

lemma chosen_from_passed:
  "chosen_from si holds es st \<Longrightarrow> passed_over st st' \<Longrightarrow> chosen_from si holds (es @ [e]) st'"
  unfolding chosen_from_def passed_over_def Let_def by auto

lemma select_entries_chosen: "chosen_from si holds es (select_entries si holds es)"
proof (induction es rule: rev_induct)
  case Nil
  then show ?case by (simp add: chosen_from_def select_entries_def initial_selection_def)
next
  case (snoc e es)
  have "select_entries si holds (es @ [e]) = consider_entry si e (select_entries si holds es)"
    by (simp add: select_entries_def)
  then show ?case using consider_entry_cases[of "select_entries si holds es" si e] snoc chosen_from_step chosen_from_passed
    by metis
qed

lemma traverse_mem: "traverse f xs = Inr ys \<Longrightarrow> y \<in> set ys \<Longrightarrow> \<exists>x\<in>set xs. f x = Inr y"
  by (induction xs arbitrary: ys) (auto simp: rbind_Inr_iff)

lemma snapshot_entries:
  assumes "reconcile_and_snapshot now db repo discovered = Inr (entries, db')"
  shows "map entry_prd entries = discovered" "e \<in> set entries \<Longrightarrow> present_status db' repo (prd_path (entry_prd e)) = Some (entry_status e)"
proof -
  have db': "db' = reconcile repo discovered now db" and t: "traverse (read_entry db' repo) discovered = Inr entries"
    using assms by (auto simp: reconcile_and_snapshot_def Let_def rbind_Inr_iff)
  have r: "read_entry db' repo p = Inr e \<Longrightarrow> entry_prd e = p \<and> present_status db' repo (prd_path p) = Some (entry_status e)" for p e
    by (auto simp: read_entry_def present_status_def split: option.splits if_splits)
  show "map entry_prd entries = discovered" using t
    by (induction discovered arbitrary: entries) (auto simp: rbind_Inr_iff dest: r)
  show "e \<in> set entries \<Longrightarrow> present_status db' repo (prd_path (entry_prd e)) = Some (entry_status e)"
    using traverse_mem[OF t] r by metis
qed

lemma selected_batch:
  assumes "select_batch_with_foreign now read repo discovered db attempted allowlist holds foreign limit
      = Inr (Select_Eligible ps, decisions, db')"
  obtains entries es si where "reconcile_and_snapshot now db repo discovered = Inr (entries, db')"
    "es = sort_key entry_key entries"
    "si = \<lparr>si_attempted = attempted, si_allowlist = allowlist, si_in_flight = map ah_prd holds,
       si_foreign = foreign, si_limit = limit, si_statuses = status_map es, si_read = read\<rparr>"
    "ps = ss_selected (select_entries si holds es)" "ps \<noteq> []" "chosen_from si holds es (select_entries si holds es)"
proof -
  obtain entries where snap: "reconcile_and_snapshot now db repo discovered = Inr (entries, db')"
    using assms by (auto simp: select_batch_with_foreign_def result_simps Let_def split: if_splits)
  then show thesis
    using assms select_entries_chosen
    by (intro that[of entries]) (auto simp: select_batch_with_foreign_def Let_def split: if_splits)
qed

lemma selected_batch_facts:
  assumes "select_batch_with_foreign now read repo discovered db attempted allowlist holds foreign limit
      = Inr (Select_Eligible ps, decisions, db')"
  shows "length ps \<le> max limit 1" "set ps \<subseteq> set discovered" "\<forall>p\<in>set ps. \<not> prd_in (prd_ident p) attempted"
    "sorted_wrt compatible holds \<Longrightarrow> sorted_wrt compatible (holds @ map (hold_of read) ps)"
    "distinct (map (prd_key \<circ> prd_ident) discovered) \<Longrightarrow> distinct (map (prd_key \<circ> prd_ident) ps)"
proof -
  obtain entries es si where s: "reconcile_and_snapshot now db repo discovered = Inr (entries, db')"
    "es = sort_key entry_key entries"
    "si = \<lparr>si_attempted = attempted, si_allowlist = allowlist, si_in_flight = map ah_prd holds,
       si_foreign = foreign, si_limit = limit, si_statuses = status_map es, si_read = read\<rparr>"
    "ps = ss_selected (select_entries si holds es)" "ps \<noteq> []" "chosen_from si holds es (select_entries si holds es)"
    by (rule selected_batch[OF assms])
  have sel: "\<forall>p\<in>set ps. \<exists>e\<in>set es. entry_prd e = p \<and> ready si e"
    using s(6) by (simp add: chosen_from_def Let_def s(4))
  note e = snapshot_entries(1)[OF s(1)]
  have mem: "entry_prd x \<in> set discovered" if "x \<in> set es" for x
  proof -
    have "entry_prd x \<in> set (map entry_prd entries)" using that by (simp add: s(2))
    then show ?thesis unfolding e .
  qed
  show "length ps \<le> max limit 1" using s(6) by (simp add: chosen_from_def Let_def s(3,4))
  show "set ps \<subseteq> set discovered"
  proof
    fix p
    assume "p \<in> set ps"
    then obtain e where "e \<in> set es" "entry_prd e = p" using sel by meson
    then show "p \<in> set discovered" using mem by metis
  qed
  show "\<forall>p\<in>set ps. \<not> prd_in (prd_ident p) attempted" using sel by (auto simp: ready_def Let_def s(3))
  show "sorted_wrt compatible holds \<Longrightarrow> sorted_wrt compatible (holds @ map (hold_of read) ps)"
    using s(6) by (simp add: chosen_from_def Let_def s(3,4))
  assume "distinct (map (prd_key \<circ> prd_ident) discovered)"
  then have "distinct (map (prd_key \<circ> prd_ident \<circ> entry_prd) entries)"
    unfolding e[symmetric] by (simp add: comp_assoc)
  then have "distinct (map (prd_key \<circ> prd_ident \<circ> entry_prd) es)"
    unfolding s(2) by (simp add: distinct_map)
  then show "distinct (map (prd_key \<circ> prd_ident) ps)" using s(6) by (simp add: chosen_from_def Let_def s(4))
qed

text \<open>
  C18: the batch that the scheduler chooses is within the width; each PRD in it is pending in the reconciled
  store with every dependency completed, was not attempted, is not held by its front matter or another
  host and is in the allowlist; and no two of the batch and of the workers in flight share a resource or
  a path outside the directory of migrations, if those in flight did not.
\<close>

theorem selected_batch_is_safe:
  assumes "select_batch_with_foreign now read repo discovered db attempted allowlist holds foreign limit
      = Inr (Select_Eligible ps, decisions, db')"
  shows "ps \<noteq> [] \<and> length ps \<le> max limit 1
    \<and> (\<forall>p\<in>set ps. p \<in> set discovered \<and> present_status db' repo (prd_path p) = Some Pending
         \<and> front_matter_hold p = None \<and> \<not> prd_in (prd_ident p) attempted
         \<and> fs_claimed foreign (show_prd_id (prd_ident p)) = None
         \<and> path_file_name (prd_path p) \<notin> set (fs_archived foreign)
         \<and> (\<forall>a. allowlist = Some a \<longrightarrow> prd_in (prd_ident p) a)
         \<and> (\<forall>d\<in>set (prd_dependencies p). \<exists>q\<in>set discovered. prd_key (prd_ident q) = prd_key d
              \<and> present_status db' repo (prd_path q) = Some Completed))
    \<and> (sorted_wrt compatible holds \<longrightarrow> sorted_wrt compatible (holds @ map (hold_of read) ps))"
proof -
  obtain entries es si where snap: "reconcile_and_snapshot now db repo discovered = Inr (entries, db')"
    and es: "es = sort_key entry_key entries"
    and si: "si = \<lparr>si_attempted = attempted, si_allowlist = allowlist, si_in_flight = map ah_prd holds,
       si_foreign = foreign, si_limit = limit, si_statuses = status_map es, si_read = read\<rparr>"
    and ps: "ps = ss_selected (select_entries si holds es)" "ps \<noteq> []"
    and sel: "chosen_from si holds es (select_entries si holds es)"
    by (rule selected_batch[OF assms])
  note e = snapshot_entries[OF snap]
  have inset: "set es = set entries" by (simp add: es)
  have status: "\<exists>q\<in>set discovered. prd_key (prd_ident q) = k \<and> present_status db' repo (prd_path q) = Some s"
    if "status_map es k = Some s" for k s
  proof -
    have "(k, s) \<in> set (map (\<lambda>e. (prd_key (prd_ident (entry_prd e)), entry_status e)) es)"
      using that collect_map_Some_in by (simp only: status_map_def)
    then obtain x where "x \<in> set entries" "k = prd_key (prd_ident (entry_prd x))" "s = entry_status x" using inset by auto
    then have "entry_prd x \<in> set (map entry_prd entries)" by simp
    then have "entry_prd x \<in> set discovered" unfolding e(1) .
    then show ?thesis using e(2)[OF \<open>x \<in> set entries\<close>] \<open>k = _\<close> \<open>s = _\<close> by blast
  qed
  have one: "p \<in> set discovered \<and> present_status db' repo (prd_path p) = Some Pending
         \<and> front_matter_hold p = None \<and> \<not> prd_in (prd_ident p) attempted
         \<and> fs_claimed foreign (show_prd_id (prd_ident p)) = None
         \<and> path_file_name (prd_path p) \<notin> set (fs_archived foreign)
         \<and> (\<forall>a. allowlist = Some a \<longrightarrow> prd_in (prd_ident p) a)
         \<and> (\<forall>d\<in>set (prd_dependencies p). \<exists>q\<in>set discovered. prd_key (prd_ident q) = prd_key d
              \<and> present_status db' repo (prd_path q) = Some Completed)"
    if "p \<in> set ps" for p
  proof -
    have "\<exists>x\<in>set es. entry_prd x = p \<and> ready si x"
      using sel that by (simp add: chosen_from_def ps(1) Let_def)
    then obtain x where x: "x \<in> set entries" "entry_prd x = p" "ready si x" unfolding inset by blast
    have "p \<in> set (map entry_prd entries)" using x(1,2) by auto
    then have "p \<in> set discovered" unfolding e(1) .
    moreover have "present_status db' repo (prd_path p) = Some Pending" using e(2)[OF x(1)] x by (simp add: ready_def Let_def)
    moreover have "\<forall>d\<in>set (prd_dependencies p). status_map es (prd_key d) = Some Completed"
      using x(2,3) by (simp add: ready_def Let_def si incomplete_empty_iff)
    then have "\<forall>d\<in>set (prd_dependencies p). \<exists>q\<in>set discovered. prd_key (prd_ident q) = prd_key d
              \<and> present_status db' repo (prd_path q) = Some Completed" using status by blast
    moreover have "front_matter_hold p = None" "\<not> prd_in (prd_ident p) attempted"
        "fs_claimed foreign (show_prd_id (prd_ident p)) = None" "path_file_name (prd_path p) \<notin> set (fs_archived foreign)"
        "\<forall>a. allowlist = Some a \<longrightarrow> prd_in (prd_ident p) a"
      using x(2,3) by (auto simp: ready_def Let_def si)
    ultimately show ?thesis by blast
  qed
  show ?thesis using ps(2) one selected_batch_facts(1,4)[OF assms] by blast
qed

end
