(* ===== verification/Drive_Safety.thy ===== *)
theory Drive_Safety
  imports Drive_Guarantees "HOL-Library.Sublist"
begin

text \<open>
  The session as a whole: the workers in flight stay within the parallelism and apart from each other, a
  serial session keeps to its warrant and a parallel one does not, and every session ends.
\<close>

section \<open>Lists\<close>

lemma subseq_set: "subseq xs ys \<Longrightarrow> set xs \<subseteq> set ys"
  by (induction xs ys rule: list_emb.induct) auto

lemma subseq_distinct: "subseq xs ys \<Longrightarrow> distinct ys \<Longrightarrow> distinct xs"
  by (induction xs ys rule: list_emb.induct) (auto dest: subseq_set)

lemma sorted_wrt_subseq: "subseq xs ys \<Longrightarrow> sorted_wrt P ys \<Longrightarrow> sorted_wrt P xs"
proof (induction xs ys rule: list_emb.induct)
  case (list_emb_Cons2 x y xs ys)
  then show ?case using subseq_set[of xs ys] by auto
qed auto

lemma filter_all_but_nth:
  assumes "distinct (map f xs)" "i < length xs"
  shows "filter (\<lambda>x. f x \<noteq> f (xs ! i)) xs = take i xs @ drop (Suc i) xs"
proof -
  have xs: "xs = take i xs @ xs ! i # drop (Suc i) xs" by (rule id_take_nth_drop[OF assms(2)])
  have d: "distinct (map f (take i xs @ xs ! i # drop (Suc i) xs))" using assms(1) xs by simp
  have "filter (\<lambda>x. f x \<noteq> f (xs ! i)) (take i xs) = take i xs"
    using d by (intro filter_True) (auto simp: image_iff)
  moreover have "filter (\<lambda>x. f x \<noteq> f (xs ! i)) (drop (Suc i) xs) = drop (Suc i) xs"
    using d by (intro filter_True) (auto simp: image_iff)
  ultimately show ?thesis by (subst (2) xs) simp
qed

section \<open>Preparation\<close>

definition id_key :: "discovered_prd \<Rightarrow> prd_node" where
  "id_key p = prd_key (prd_ident p)"

definition attempted_keys :: "drive_state \<Rightarrow> prd_node set" where
  "attempted_keys st = prd_key ` set (dr_attempted_ids st)"

lemma prd_in_iff: "prd_in p (dr_attempted_ids st) \<longleftrightarrow> prd_key p \<in> attempted_keys st"
  by (simp add: prd_in_def attempted_keys_def)

text \<open>Preparation touches only what was attempted.\<close>

definition prepared_to :: "drive_state \<Rightarrow> prd_id list \<Rightarrow> nat \<Rightarrow> drive_state \<Rightarrow> bool" where
  "prepared_to st ids n st' \<longleftrightarrow>
     st' = st\<lparr>dr_attempted_ids := ids @ dr_attempted_ids st, dr_attempted := dr_attempted st + word_of_nat n\<rparr>"

lemma prepared_to_trans:
  "prepared_to st ids n st' \<Longrightarrow> prepared_to st' ids' n' st'' \<Longrightarrow> prepared_to st (ids' @ ids) (n + n') st''"
  by (simp add: prepared_to_def)

lemma prepare_workspace_state:
  "(case prepare_workspace read root pr t st of Prep_Job st' \<Rightarrow> st' = st | Prep_Skip st' \<Rightarrow> st' = st
    | Prep_Broken st' \<Rightarrow> st' = st | Prep_Return _ \<Rightarrow> True)"
  by (auto simp: prepare_workspace_def split: sum.splits lease_answer.splits)

lemma prepare_target_result:
  fixes st t
  defines "m \<equiv> st\<lparr>dr_attempted_ids := prd_ident t # dr_attempted_ids st\<rparr>"
    and "c \<equiv> st\<lparr>dr_attempted_ids := prd_ident t # dr_attempted_ids st, dr_attempted := dr_attempted st + 1\<rparr>"
  shows "case prepare_target dc read root ds pr t st of Prep_Job s \<Rightarrow> s = c | Prep_Skip s \<Rightarrow> s \<in> {m, c}
    | Prep_Broken s \<Rightarrow> s \<in> {st, c} | Prep_Return _ \<Rightarrow> True"
proof -
  have w: "case prepare_workspace read root pr t c of Prep_Job s \<Rightarrow> s = c | Prep_Skip s \<Rightarrow> s \<in> {m, c}
      | Prep_Broken s \<Rightarrow> s \<in> {st, c} | Prep_Return _ \<Rightarrow> True"
    using prepare_workspace_state[where read = read and root = root and pr = pr and t = t and st = c]
    by (cases "prepare_workspace read root pr t c") simp_all
  have cm: "m\<lparr>dr_attempted := dr_attempted st + 1\<rparr> = c" by (simp add: m_def c_def)
  show ?thesis
    unfolding prepare_target_def Let_def m_def[symmetric] cm
    using w by (cases "pr_reservation pr") (simp_all split: sum.splits)
qed

lemma prepare_target_state:
  shows "prepare_target dc read root ds pr t st = Prep_Job st' \<Longrightarrow> prepared_to st [prd_ident t] 1 st'"
    and "prepare_target dc read root ds pr t st = Prep_Skip st' \<Longrightarrow> \<exists>n\<le>1. prepared_to st [prd_ident t] n st'"
    and "prepare_target dc read root ds pr t st = Prep_Broken st' \<Longrightarrow>
      \<exists>ids n. n \<le> 1 \<and> set ids \<subseteq> {prd_ident t} \<and> prepared_to st ids n st'"
proof -
  note r = prepare_target_result[where dc = dc and read = read and root = root and ds = ds and pr = pr and t = t and st = st]
  have c: "prepared_to st [prd_ident t] 1 (st\<lparr>dr_attempted_ids := prd_ident t # dr_attempted_ids st,
      dr_attempted := dr_attempted st + 1\<rparr>)"
    and m: "prepared_to st [prd_ident t] 0 (st\<lparr>dr_attempted_ids := prd_ident t # dr_attempted_ids st\<rparr>)"
    and z: "prepared_to st [] 0 st" by (simp_all add: prepared_to_def)
  show "prepare_target dc read root ds pr t st = Prep_Job st' \<Longrightarrow> prepared_to st [prd_ident t] 1 st'"
    using r c by simp
  show "prepare_target dc read root ds pr t st = Prep_Skip st' \<Longrightarrow> \<exists>n\<le>1. prepared_to st [prd_ident t] n st'"
    using r c m by (auto intro: exI[of _ 0] exI[of _ 1])
  assume "prepare_target dc read root ds pr t st = Prep_Broken st'"
  then consider "st' = st" | "st' = st\<lparr>dr_attempted_ids := prd_ident t # dr_attempted_ids st, dr_attempted := dr_attempted st + 1\<rparr>"
    using r by auto
  then show "\<exists>ids n. n \<le> 1 \<and> set ids \<subseteq> {prd_ident t} \<and> prepared_to st ids n st'"
  proof cases
    case 1
    then show ?thesis using z by (intro exI[of _ "[]"] exI[of _ 0]) simp
  next
    case 2
    then show ?thesis using c by (intro exI[of _ "[prd_ident t]"] exI[of _ 1]) simp
  qed
qed

lemma prepare_targets_state:
  assumes "prepare_targets dc read root ds prepare ts st = Inr (jobs, broken, st')"
  shows "\<exists>ids n. subseq jobs ts \<and> n \<le> length ts \<and> prepared_to st ids n st'
    \<and> set ids \<subseteq> prd_ident ` set ts \<and> prd_ident ` set jobs \<subseteq> set ids"
  using assms
proof (induction ts arbitrary: st jobs)
  case Nil
  then show ?case by (intro exI[of _ "[]"] exI[of _ 0]) (simp add: prepared_to_def)
next
  case (Cons t ts)
  show ?case
  proof (cases "prepare_target dc read root ds (prepare t) t st")
    case (Prep_Job st1)
    then obtain jobs' where rest: "prepare_targets dc read root ds prepare ts st1 = Inr (jobs', broken, st')" "jobs = t # jobs'"
      using Cons.prems by (auto simp: rbind_Inr_iff)
    obtain ids n where i: "subseq jobs' ts" "n \<le> length ts" "prepared_to st1 ids n st'" "set ids \<subseteq> prd_ident ` set ts"
        "prd_ident ` set jobs' \<subseteq> set ids" using Cons.IH[OF rest(1)] by blast
    have "prepared_to st (ids @ [prd_ident t]) (1 + n) st'"
      by (rule prepared_to_trans[OF prepare_target_state(1)[OF Prep_Job] i(3)])
    then show ?thesis using i rest(2) by (intro exI[of _ "ids @ [prd_ident t]"] exI[of _ "1 + n"]) auto
  next
    case (Prep_Skip st1)
    then have rest: "prepare_targets dc read root ds prepare ts st1 = Inr (jobs, broken, st')" using Cons.prems by simp
    obtain k where k: "k \<le> 1" "prepared_to st [prd_ident t] k st1" using prepare_target_state(2)[OF Prep_Skip] by blast
    obtain ids n where i: "subseq jobs ts" "n \<le> length ts" "prepared_to st1 ids n st'" "set ids \<subseteq> prd_ident ` set ts"
        "prd_ident ` set jobs \<subseteq> set ids" using Cons.IH[OF rest] by blast
    have "prepared_to st (ids @ [prd_ident t]) (k + n) st'" by (rule prepared_to_trans[OF k(2) i(3)])
    then show ?thesis using i k(1) by (intro exI[of _ "ids @ [prd_ident t]"] exI[of _ "k + n"]) auto
  next
    case (Prep_Broken st1)
    then have "jobs = []" "st' = st1" using Cons.prems by auto
    moreover obtain ids n where "n \<le> 1" "set ids \<subseteq> {prd_ident t}" "prepared_to st ids n st1"
      using prepare_target_state(3)[OF Prep_Broken] by blast
    ultimately show ?thesis by (intro exI[of _ ids] exI[of _ n]) auto
  next
    case (Prep_Return e)
    then show ?thesis using Cons.prems by simp
  qed
qed

section \<open>Launching the workers of a pass\<close>

definition distinct_prds :: "pass_input \<Rightarrow> bool" where
  "distinct_prds pin \<longleftrightarrow> (case pi_discovered pin of Inl _ \<Rightarrow> True | Inr ds \<Rightarrow> distinct (map id_key ds))"

definition discovered_in :: "pass_input \<Rightarrow> discovered_prd list" where
  "discovered_in pin = (case pi_discovered pin of Inl _ \<Rightarrow> [] | Inr ds \<Rightarrow> ds)"

definition end_state :: "pass_end \<Rightarrow> drive_state option" where
  "end_state e = (case e of Pass_Next st \<Rightarrow> Some st | Pass_Break _ st \<Rightarrow> Some st | Pass_Return _ \<Rightarrow> None)"

lemma end_state_simps [simp]:
  "end_state (Pass_Next st) = Some st" "end_state (Pass_Break r st) = Some st" "end_state (Pass_Return e) = None"
  by (simp_all add: end_state_def)

text \<open>What a pass changes up to the point where its workers run: the new workers and what was attempted.\<close>

record launched =
  la_jobs :: "discovered_prd list"
  la_ids :: "prd_id list"
  la_count :: nat

definition launched_to :: "pass_input \<Rightarrow> nat \<Rightarrow> drive_state \<Rightarrow> launched \<Rightarrow> drive_state \<Rightarrow> bool" where
  "launched_to pin width st la st' \<longleftrightarrow>
     dr_active st' = dr_active st @ la_jobs la
   \<and> dr_holds st' = dr_holds st @ map (hold_of (pi_read pin)) (la_jobs la)
   \<and> dr_attempted_ids st' = la_ids la @ dr_attempted_ids st
   \<and> dr_attempted st' = dr_attempted st + word_of_nat (la_count la)
   \<and> la_count la \<le> max width 1 \<and> length (la_jobs la) \<le> max width 1
   \<and> prd_ident ` set (la_jobs la) \<subseteq> set (la_ids la) \<and> set (la_ids la) \<subseteq> prd_ident ` set (discovered_in pin)
   \<and> id_key ` set (la_jobs la) \<inter> attempted_keys st = {}
   \<and> (distinct_prds pin \<longrightarrow> distinct (map id_key (la_jobs la)))
   \<and> (sorted_wrt compatible (dr_holds st) \<longrightarrow> sorted_wrt compatible (dr_holds st'))"

definition nothing_launched :: launched where
  "nothing_launched = \<lparr>la_jobs = [], la_ids = [], la_count = 0\<rparr>"

lemma nothing_launched_to [simp]:
  "launched_to pin w st nothing_launched st' \<longleftrightarrow> dr_active st' = dr_active st \<and> dr_holds st' = dr_holds st
     \<and> dr_attempted_ids st' = dr_attempted_ids st \<and> dr_attempted st' = dr_attempted st"
  by (auto simp: launched_to_def nothing_launched_def)

lemma start_batch_launched:
  assumes "end_state (start_batch dc pin ds targets st) = Some st'" and "ds = discovered_in pin"
    and "length targets \<le> max w 1" "set targets \<subseteq> set ds" "\<forall>p\<in>set targets. \<not> prd_in (prd_ident p) (dr_attempted_ids st)"
    and "sorted_wrt compatible (dr_holds st) \<Longrightarrow> sorted_wrt compatible (dr_holds st @ map (hold_of (pi_read pin)) targets)"
    and "distinct_prds pin \<Longrightarrow> distinct (map id_key targets)"
  shows "\<exists>la. launched_to pin w st la st'"
proof -
  let ?st = "st\<lparr>dr_width_reported := True\<rparr>"
  let ?prep = "prepare_targets dc (pi_read pin) (pi_root pin) ds (pi_prepare pin) targets ?st"
  show ?thesis
  proof (cases "st' = ?st")
    case True
    then have "launched_to pin w st nothing_launched st'" by simp
    then show ?thesis by blast
  next
    case False
    then obtain jobs broken st1 where p: "?prep = Inr (jobs, broken, st1)"
      using assms(1) by (auto simp: start_batch_def Let_def end_state_def split: if_splits sum.splits)
    have st': "st' = (if broken then st1 else spawn (pi_read pin) jobs st1)"
      using assms(1) p False by (auto simp: start_batch_def Let_def end_state_def split: if_splits)
    obtain ids n where i: "subseq jobs targets" "n \<le> length targets" "prepared_to ?st ids n st1"
        "set ids \<subseteq> prd_ident ` set targets" "prd_ident ` set jobs \<subseteq> set ids"
      using prepare_targets_state[OF p] by blast
    have subset: "set ids \<subseteq> prd_ident ` set (discovered_in pin)" using i(4) assms(2,4) by blast
    define jobs' where "jobs' = (if broken then [] else jobs)"
    have sub: "subseq jobs' targets" using i(1) by (simp add: jobs'_def)
    have len: "length jobs' \<le> length targets" using list_emb_length[OF sub] .
    have fresh: "id_key ` set jobs' \<inter> attempted_keys st = {}"
      using subseq_set[OF sub] assms(5) by (auto simp: id_key_def prd_in_iff)
    have dist: "distinct_prds pin \<longrightarrow> distinct (map id_key jobs')"
      using assms(7) subseq_distinct[OF subseq_map[OF sub]] by blast
    have compat: "sorted_wrt compatible (dr_holds st @ map (hold_of (pi_read pin)) jobs')"
      if "sorted_wrt compatible (dr_holds st)"
    proof (rule sorted_wrt_subseq[OF _ assms(6)[OF that]])
      show "subseq (dr_holds st @ map (hold_of (pi_read pin)) jobs') (dr_holds st @ map (hold_of (pi_read pin)) targets)"
        using subseq_map[OF sub] by (simp add: subseq_append')
    qed
    have "n \<le> max w 1" "length jobs' \<le> max w 1" using i(2) len assms(3) by linarith+
    moreover have "prd_ident ` set jobs' \<subseteq> set ids" using i(5) by (simp add: jobs'_def)
    moreover have "dr_active st' = dr_active st @ jobs'" "dr_holds st' = dr_holds st @ map (hold_of (pi_read pin)) jobs'"
      "dr_attempted_ids st' = ids @ dr_attempted_ids st" "dr_attempted st' = dr_attempted st + word_of_nat n"
      using i(3) st' by (simp_all add: prepared_to_def spawn_def hold_of_def jobs'_def)
    ultimately have "launched_to pin w st \<lparr>la_jobs = jobs', la_ids = ids, la_count = n\<rparr> st'"
      using subset fresh dist compat unfolding launched_to_def by simp
    then show ?thesis by blast
  qed
qed

lemma schedule_launched:
  assumes "end_state (schedule dc pin st) = Some st'"
  shows "\<exists>la. launched_to pin (remaining_width dc st) st la st'"
proof (cases "\<exists>seen. st' = st\<lparr>dr_recorded := seen\<rparr> \<or> st' = st")
  case True
  then have "launched_to pin (remaining_width dc st) st nothing_launched st'" by auto
  then show ?thesis by blast
next
  case False
  then obtain ds where ds: "pi_discovered pin = Inr ds" "validate_graph ds = Inr ()"
    using assms by (auto simp: schedule_def end_state_def split: sum.splits if_splits)
  let ?sel = "select_batch_with_foreign (pi_now pin) (pi_read pin) (dc_repository dc) ds (pi_db pin)
      (dr_attempted_ids st) (dw_allowlist (dc_warrant dc)) (dr_holds st) (pi_foreign pin) (remaining_width dc st)"
  obtain selection decisions db where sel: "?sel = Inr (selection, decisions, db)"
    using assms ds by (auto simp: schedule_def end_state_def split: sum.splits)
  obtain recorded seen where rec: "record_decisions (pi_decision_recorded pin) decisions (dr_recorded st) = (recorded, seen)"
    by fastforce
  let ?st = "st\<lparr>dr_recorded := seen\<rparr>"
  obtain targets where t: "pass_targets selection ?st = Inr targets"
    "end_state (start_batch dc pin ds targets ?st) = Some st'"
    using assms ds sel rec False by (auto simp: schedule_def Let_def end_state_def split: sum.splits if_splits)
  have d: "ds = discovered_in pin" by (simp add: discovered_in_def ds(1))
  have same: "launched_to pin w ?st la s \<longleftrightarrow> launched_to pin w st la s" for w la s
    by (simp add: launched_to_def attempted_keys_def)
  have "\<exists>la. launched_to pin (remaining_width dc st) ?st la st'"
  proof (cases "selection")
    case (Select_Eligible ps)
    note f = selected_batch_facts[OF sel[unfolded Select_Eligible]]
    have key: "prd_key \<circ> prd_ident = id_key" by (auto simp: id_key_def)
    have "targets = ps" using t(1) Select_Eligible by (simp add: pass_targets_def)
    then show ?thesis
      using f(1-4) f(5)[unfolded key] by (intro start_batch_launched[OF t(2) d]) (simp_all add: distinct_prds_def ds(1))
  next
    case Select_Backlog_Empty
    then have "targets = []" using t(1) by (auto simp: pass_targets_def split: if_splits)
    then show ?thesis by (intro start_batch_launched[OF t(2) d]) simp_all
  next
    case Select_Nothing_Eligible
    then have "targets = []" using t(1) by (auto simp: pass_targets_def split: if_splits)
    then show ?thesis by (intro start_batch_launched[OF t(2) d]) simp_all
  qed
  then show ?thesis unfolding same .
qed

text \<open>The width of a pass: never beyond the parallelism next to the active workers, and one at least.\<close>

lemma remaining_width_le: "remaining_width dc st \<le> dc_parallelism dc - length (dr_active st)"
  by (simp add: remaining_width_def)

lemma launch_launched:
  assumes "end_state (launch dc pin st) = Some st'"
  shows "\<exists>la. launched_to pin (dc_parallelism dc - length (dr_active st)) st la st'
    \<and> (dr_active st = [] \<and> la_count la \<noteq> 0 \<longrightarrow> 
        warrant_exhausted (dc_warrant dc) (dr_attempted st) (dr_cost st) (dr_tokens st) (pi_elapsed pin) = None)"
proof -
  let ?ex = "warrant_exhausted (dc_warrant dc) (dr_attempted st) (dr_cost st) (dr_tokens st) (pi_elapsed pin)"
  let ?w = "dc_parallelism dc - length (dr_active st)"
  have stop: "dr_active st' = dr_active st \<Longrightarrow> dr_holds st' = dr_holds st \<Longrightarrow> dr_attempted_ids st' = dr_attempted_ids st
      \<Longrightarrow> dr_attempted st' = dr_attempted st \<Longrightarrow> ?thesis"
    by (intro exI[of _ nothing_launched]) (simp, simp add: nothing_launched_def)
  have run: "\<exists>la. launched_to pin ?w st la st'" if sched: "end_state (schedule dc pin (st\<lparr>dr_stop := s\<rparr>)) = Some st'" for s
  proof -
    obtain la where la: "launched_to pin (remaining_width dc (st\<lparr>dr_stop := s\<rparr>)) (st\<lparr>dr_stop := s\<rparr>) la st'"
      using schedule_launched[OF sched] by blast
    have "max (remaining_width dc (st\<lparr>dr_stop := s\<rparr>)) 1 \<le> max ?w 1"
      using remaining_width_le[of dc "st\<lparr>dr_stop := s\<rparr>"] by simp
    then have "launched_to pin ?w st la st'" using la unfolding launched_to_def by (auto simp: attempted_keys_def)
    then show ?thesis by blast
  qed
  let ?s = "if pi_heartbeat_failed pin then Some Worker_Heartbeat_Lost else dr_stop st"
  have body: "(if pi_heartbeat_failed pin then st\<lparr>dr_stop := Some Worker_Heartbeat_Lost\<rparr> else st) = st\<lparr>dr_stop := ?s\<rparr>" by simp
  show ?thesis
  proof (cases "dr_active st = [] \<and> dr_stop st \<noteq> None")
    case True
    then show ?thesis using assms by (intro stop) (auto simp: launch_def end_state_def)
  next
    case False
    then have l: "launch dc pin st = (let st = st\<lparr>dr_stop := ?s\<rparr> in
        case ?ex of Some reason \<Rightarrow> let st = st\<lparr>dr_stop := get_or_insert reason (dr_stop st)\<rparr> in
            if dr_active st = [] then Pass_Break reason st else schedule dc pin st
        | None \<Rightarrow> schedule dc pin st)"
      unfolding launch_def body by (cases "dr_active st"; cases "dr_stop st") (simp_all add: Let_def)
    show ?thesis
    proof (cases ?ex)
      case None
      then show ?thesis using run[of ?s] assms l by (auto simp: Let_def)
    next
      case (Some reason)
      show ?thesis
      proof (cases "dr_active st = []")
        case True
        then show ?thesis using assms l Some by (intro stop) (auto simp: end_state_def Let_def)
      next
        case False
        then have "end_state (schedule dc pin (st\<lparr>dr_stop := get_or_insert reason ?s\<rparr>)) = Some st'"
          using assms l Some by (simp add: Let_def)
        then show ?thesis using run False by blast
      qed
    qed
  qed
qed

section \<open>Draining\<close>

text \<open>The drain of a result does not touch the workers, their holds or what was attempted.\<close>

definition drain_keeps :: "drive_state \<Rightarrow> drive_state \<Rightarrow> bool" where
  "drain_keeps st st' \<longleftrightarrow> dr_active st' = dr_active st \<and> dr_holds st' = dr_holds st
     \<and> dr_attempted_ids st' = dr_attempted_ids st \<and> dr_attempted st' = dr_attempted st \<and> dr_stop st' = dr_stop st"

lemma drain_keeps_refl [simp]: "drain_keeps st st"
  by (simp add: drain_keeps_def)

lemma drain_keeps_trans: "drain_keeps st st' \<Longrightarrow> drain_keeps st' st'' \<Longrightarrow> drain_keeps st st''"
  by (simp add: drain_keeps_def)

lemma record_streak_keeps: "record_streak r p stop st = (stop', st') \<Longrightarrow> drain_keeps st st'"
  by (auto simp: record_streak_def drain_keeps_def Let_def split: option.splits if_splits)

lemma drain_delivery_keeps: "drain_delivery dc di stop st = (stop', st') \<Longrightarrow> drain_keeps st st'"
  by (auto simp: drain_delivery_def drain_keeps_def Let_def split: option.splits if_splits delivery_answer.splits)

lemma run_escalation_keeps: "run_escalation dc es stop st = (stop', st') \<Longrightarrow> drain_keeps st st'"
  by (auto simp: run_escalation_def drain_keeps_def Let_def split: option.splits if_splits)

lemma drain_escalation_keeps:
  "drain_escalation dc di reason detail stop st = Inr (stop', st') \<Longrightarrow> drain_keeps st st'"
  by (auto simp: drain_escalation_def result_simps dest: run_escalation_keeps split: option.splits if_splits)

lemma drain_outcome_keeps:
  assumes "drain_outcome dc di ok integrated traced reason stop st = Inr (stop', st')"
  shows "drain_keeps st st'"
proof -
  obtain stop1 st1 where d: "(if integrated then drain_delivery dc di stop st else (stop, st)) = (stop1, st1)" by fastforce
  then have "drain_keeps st st1" using drain_delivery_keeps by (auto split: if_splits)
  moreover have "st' = st \<or> st' = st1
      \<or> (\<exists>s. drain_escalation dc di reason (if ok then None else Some (di_detail di)) stop1 st1 = Inr (s, st'))"
    using assms d by (auto simp: drain_outcome_def result_simps split: if_splits)
  ultimately show ?thesis using drain_escalation_keeps drain_keeps_trans drain_keeps_refl by metis
qed

lemma drain_recorded_keeps:
  assumes "drain_recorded dc p di ok traced stop st = Inr (stop', st')"
  shows "drain_keeps st st'"
proof -
  have "\<exists>reason stop1 st1. drain_keeps st st1 \<and> (case record_streak reason p stop1 st1 of (stop2, st2) \<Rightarrow>
      drain_outcome dc di ok (ok \<and> di_integrated di) traced reason stop2 st2) = Inr (stop', st')"
    by ((rule exI)+, rule conjI[rotated], rule assms[unfolded drain_recorded_def Let_def]) (simp add: drain_keeps_def)
  then obtain reason stop1 st1 where k: "drain_keeps st st1"
    and r: "(case record_streak reason p stop1 st1 of (stop2, st2) \<Rightarrow>
      drain_outcome dc di ok (ok \<and> di_integrated di) traced reason stop2 st2) = Inr (stop', st')" by blast
  obtain stop2 st2 where s: "record_streak reason p stop1 st1 = (stop2, st2)" by fastforce
  then have "drain_outcome dc di ok (ok \<and> di_integrated di) traced reason stop2 st2 = Inr (stop', st')" using r by simp
  then show ?thesis using k record_streak_keeps[OF s] drain_outcome_keeps drain_keeps_trans by metis
qed

lemma drain_result_keeps:
  assumes "drain_result dc p di st = Inr (stop, st')"
  shows "drain_keeps st st'"
proof -
  let ?st = "if accept_risk dc di st then st\<lparr>dr_risks := saturating_add64 (dr_risks st) 1\<rparr> else st"
  have k: "drain_keeps st ?st" by (simp add: drain_keeps_def)
  consider "st' = st" | "st' = ?st" | stop1 where
    "drain_recorded dc p di (di_ok di \<or> accept_risk dc di st) (drain_reason di) stop1 ?st = Inr (stop, st')"
    using assms by (auto simp: drain_result_def Let_def split: if_splits)
  then show ?thesis using k drain_recorded_keeps drain_keeps_trans by cases (simp, simp, metis)
qed

section \<open>The invariant of a session\<close>

text \<open>Between two passes: a worker is free, and every worker has its hold.\<close>

definition session_ok :: "drive_config \<Rightarrow> drive_state \<Rightarrow> bool" where
  "session_ok dc st \<longleftrightarrow> length (dr_active st) < dc_parallelism dc
     \<and> map ah_prd (dr_holds st) = map prd_ident (dr_active st) \<and> distinct (map id_key (dr_active st))
     \<and> id_key ` set (dr_active st) \<subseteq> attempted_keys st \<and> sorted_wrt compatible (dr_holds st)"

definition workers_ok :: "drive_config \<Rightarrow> drive_state \<Rightarrow> bool" where
  "workers_ok dc st \<longleftrightarrow> length (dr_active st) \<le> dc_parallelism dc
     \<and> map ah_prd (dr_holds st) = map prd_ident (dr_active st) \<and> distinct (map id_key (dr_active st))
     \<and> id_key ` set (dr_active st) \<subseteq> attempted_keys st \<and> sorted_wrt compatible (dr_holds st)"

lemma launched_ok:
  assumes "session_ok dc st" "launched_to pin (dc_parallelism dc - length (dr_active st)) st la st'" "distinct_prds pin"
  shows "workers_ok dc st'"
proof -
  have la: "dr_active st' = dr_active st @ la_jobs la" "dr_holds st' = dr_holds st @ map (hold_of (pi_read pin)) (la_jobs la)"
    "dr_attempted_ids st' = la_ids la @ dr_attempted_ids st"
    "length (la_jobs la) \<le> max (dc_parallelism dc - length (dr_active st)) 1"
    "prd_ident ` set (la_jobs la) \<subseteq> set (la_ids la)" "id_key ` set (la_jobs la) \<inter> attempted_keys st = {}"
    "distinct (map id_key (la_jobs la))" "sorted_wrt compatible (dr_holds st) \<longrightarrow> sorted_wrt compatible (dr_holds st')"
    using assms(2)[unfolded launched_to_def] assms(3) by blast+
  have ok: "length (dr_active st) < dc_parallelism dc" "map ah_prd (dr_holds st) = map prd_ident (dr_active st)"
    "distinct (map id_key (dr_active st))" "id_key ` set (dr_active st) \<subseteq> attempted_keys st" "sorted_wrt compatible (dr_holds st)"
    using assms(1) by (simp_all add: session_ok_def)
  have "length (dr_active st') \<le> dc_parallelism dc" using la(1,4) ok(1) by simp
  moreover have "map ah_prd (dr_holds st') = map prd_ident (dr_active st')" using la(1,2) ok(2) by (simp add: hold_of_def)
  moreover have "distinct (map id_key (dr_active st'))" using la(1,6,7) ok(3,4) by auto
  moreover have "id_key ` set (dr_active st') \<subseteq> attempted_keys st'"
    using la(1,3,5) ok(4) by (auto simp: attempted_keys_def id_key_def)
  ultimately show ?thesis using la(8) ok(5) by (simp add: workers_ok_def)
qed

lemma join_worker_next:
  assumes "join_worker dc pin st = Pass_Next st'"
  obtains i where "i < length (dr_active st)" "dr_active st' = take i (dr_active st) @ drop (Suc i) (dr_active st)"
    "dr_holds st' = filter (\<lambda>h. \<not> prd_eq (ah_prd h) (prd_ident (dr_active st ! i))) (dr_holds st)"
    "dr_attempted_ids st' = dr_attempted_ids st" "dr_attempted st' = dr_attempted st"
proof -
  obtain i di where i: "dr_active st \<noteq> []" "pi_joined pin = Some (i, di)" "i < length (dr_active st)"
    using assms by (auto simp: join_worker_def split: if_splits option.splits)
  let ?p = "prd_ident (dr_active st ! i)"
  let ?st = "st\<lparr>dr_active := take i (dr_active st) @ drop (Suc i) (dr_active st),
      dr_holds := filter (\<lambda>h. \<not> prd_eq (ah_prd h) ?p) (dr_holds st)\<rparr>"
  obtain stop st1 where d: "drain_result dc ?p di ?st = Inr (stop, st1)"
    and st': "st' = (case stop of None \<Rightarrow> st1 | Some s \<Rightarrow> st1\<lparr>dr_stop := get_or_insert s (dr_stop st1)\<rparr>)"
    using assms i by (auto simp: join_worker_def Let_def split: sum.splits if_splits)
  have "drain_keeps ?st st1" by (rule drain_result_keeps[OF d])
  then show thesis using i(3) st' by (intro that[of i]) (auto simp: drain_keeps_def split: option.splits)
qed

lemma join_worker_ok:
  assumes "workers_ok dc st" "join_worker dc pin st = Pass_Next st'"
  shows "session_ok dc st'" "Suc (length (dr_active st')) = length (dr_active st)" "attempted_keys st' = attempted_keys st"
    "dr_attempted st' = dr_attempted st"
proof -
  obtain i where i: "i < length (dr_active st)" "dr_active st' = take i (dr_active st) @ drop (Suc i) (dr_active st)"
    "dr_holds st' = filter (\<lambda>h. \<not> prd_eq (ah_prd h) (prd_ident (dr_active st ! i))) (dr_holds st)"
    "dr_attempted_ids st' = dr_attempted_ids st" "dr_attempted st' = dr_attempted st"
    by (rule join_worker_next[OF assms(2)])
  have ok: "length (dr_active st) \<le> dc_parallelism dc" "map ah_prd (dr_holds st) = map prd_ident (dr_active st)"
    "distinct (map id_key (dr_active st))" "id_key ` set (dr_active st) \<subseteq> attempted_keys st" "sorted_wrt compatible (dr_holds st)"
    using assms(1) by (simp_all add: workers_ok_def)
  show len: "Suc (length (dr_active st')) = length (dr_active st)" using i(1,2) by simp
  show keys: "attempted_keys st' = attempted_keys st" by (simp add: attempted_keys_def i(4))
  show "dr_attempted st' = dr_attempted st" by (rule i(5))
  have sub: "subseq (dr_active st') (dr_active st)"
    unfolding i(2) filter_all_but_nth[OF ok(3) i(1), symmetric] by simp
  have "map ah_prd (dr_holds st') = filter (\<lambda>q. \<not> prd_eq q (prd_ident (dr_active st ! i))) (map ah_prd (dr_holds st))"
    by (simp add: i(3) filter_map comp_def)
  also have "\<dots> = map prd_ident (filter (\<lambda>x. id_key x \<noteq> id_key (dr_active st ! i)) (dr_active st))"
    by (simp add: ok(2) filter_map comp_def prd_eq_key id_key_def)
  also have "\<dots> = map prd_ident (dr_active st')" unfolding filter_all_but_nth[OF ok(3) i(1)] i(2) ..
  finally have holds: "map ah_prd (dr_holds st') = map prd_ident (dr_active st')" .
  have "distinct (map id_key (dr_active st'))" using subseq_distinct[OF subseq_map[OF sub] ok(3)] .
  moreover have "id_key ` set (dr_active st') \<subseteq> attempted_keys st'" using subseq_set[OF sub] ok(4) keys by blast
  moreover have "sorted_wrt compatible (dr_holds st')" unfolding i(3) by (rule sorted_wrt_filter[OF ok(5)])
  ultimately show "session_ok dc st'" using len ok(1) holds by (simp add: session_ok_def)
qed

lemma session_ok_start: "dc_parallelism dc \<noteq> 0 \<Longrightarrow> session_ok dc drive_start"
  by (simp add: session_ok_def drive_start_def)

lemma launch_ok:
  assumes "session_ok dc st" "launch dc pin st = Pass_Next st'" "distinct_prds pin"
  shows "workers_ok dc st'"
proof -
  have "end_state (launch dc pin st) = Some st'" by (simp add: end_state_def assms(2))
  from launch_launched[OF this] show ?thesis using launched_ok[OF assms(1) _ assms(3)] by blast
qed

lemma drive_pass_next:
  assumes "drive_pass dc pin st = Pass_Next st'"
  obtains st1 where "launch dc pin st = Pass_Next st1" "join_worker dc pin st1 = Pass_Next st'"
  using assms by (auto simp: drive_pass_def split: pass_end.splits)

lemma drive_passes_ok:
  "drive_passes dc pins st = Pass_Next st' \<Longrightarrow> session_ok dc st \<Longrightarrow> \<forall>pin\<in>set pins. distinct_prds pin \<Longrightarrow> session_ok dc st'"
proof (induction pins arbitrary: st)
  case (Cons pin pins)
  obtain st1 where p: "drive_pass dc pin st = Pass_Next st1" "drive_passes dc pins st1 = Pass_Next st'"
    using Cons.prems(1) by (auto split: pass_end.splits)
  have "session_ok dc st1"
  proof (rule drive_pass_next[OF p(1)])
    fix s
    assume "launch dc pin st = Pass_Next s" "join_worker dc pin s = Pass_Next st1"
    then show ?thesis using join_worker_ok(1) launch_ok Cons.prems(2,3) by (metis list.set_intros(1))
  qed
  then show ?case using Cons.IH[OF p(2)] Cons.prems(3) by simp
qed simp

text \<open>
  C17: in every session, whenever the workers of a pass run, there are at most as many as the configured
  parallelism, each holds its scope and its resources, they work on different PRDs that were all counted
  as attempted, and no two of them share a resource or a path outside the directory of migrations.
\<close>

theorem workers_in_flight_are_apart:
  assumes "drive_passes dc pins drive_start = Pass_Next st" and "launch dc pin st = Pass_Next st'"
    and "dc_parallelism dc \<noteq> 0" and "\<forall>x\<in>set (pin # pins). distinct_prds x"
  shows "length (dr_active st') \<le> dc_parallelism dc \<and> map ah_prd (dr_holds st') = map prd_ident (dr_active st')
    \<and> distinct (map id_key (dr_active st')) \<and> id_key ` set (dr_active st') \<subseteq> attempted_keys st'
    \<and> sorted_wrt compatible (dr_holds st')"
proof -
  have "session_ok dc st" using drive_passes_ok[OF assms(1) session_ok_start[OF assms(3)]] assms(4) by simp
  then have "workers_ok dc st'" using launch_ok assms(2,4) by simp
  then show ?thesis by (simp add: workers_ok_def)
qed

section \<open>A session ends\<close>

lemma launched_card:
  assumes "launched_to pin w st la st'" "distinct_prds pin"
  shows "length (dr_active st') - length (dr_active st) + card (attempted_keys st) \<le> card (attempted_keys st')"
proof -
  have la: "dr_active st' = dr_active st @ la_jobs la" "dr_attempted_ids st' = la_ids la @ dr_attempted_ids st"
    "prd_ident ` set (la_jobs la) \<subseteq> set (la_ids la)" "id_key ` set (la_jobs la) \<inter> attempted_keys st = {}"
    "distinct (map id_key (la_jobs la))"
    using assms(1)[unfolded launched_to_def] assms(2) by blast+
  have sub: "id_key ` set (la_jobs la) \<union> attempted_keys st \<subseteq> attempted_keys st'"
    using la(2,3) by (auto simp: attempted_keys_def id_key_def)
  have "card (id_key ` set (la_jobs la)) = length (la_jobs la)" using la(5) distinct_card by fastforce
  then have "card (id_key ` set (la_jobs la) \<union> attempted_keys st) = length (la_jobs la) + card (attempted_keys st)"
    using la(4) by (subst card_Un_disjoint) (simp_all add: attempted_keys_def)
  then show ?thesis using card_mono[OF _ sub] la(1) by (simp add: attempted_keys_def)
qed

lemma drive_passes_count:
  "drive_passes dc pins st = Pass_Next st' \<Longrightarrow> session_ok dc st \<Longrightarrow> \<forall>pin\<in>set pins. distinct_prds pin
     \<Longrightarrow> \<forall>pin\<in>set pins. id_key ` set (discovered_in pin) \<subseteq> universe \<Longrightarrow> attempted_keys st \<subseteq> universe
     \<Longrightarrow> length (dr_active st) \<le> card (attempted_keys st)
     \<Longrightarrow> attempted_keys st' \<subseteq> universe
       \<and> length pins + length (dr_active st') + card (attempted_keys st) \<le> card (attempted_keys st') + length (dr_active st)"
proof (induction pins arbitrary: st)
  case (Cons pin pins)
  obtain st1 where p: "drive_pass dc pin st = Pass_Next st1" "drive_passes dc pins st1 = Pass_Next st'"
    using Cons.prems(1) by (auto split: pass_end.splits)
  obtain st2 where l: "launch dc pin st = Pass_Next st2" "join_worker dc pin st2 = Pass_Next st1"
    by (rule drive_pass_next[OF p(1)])
  have d: "distinct_prds pin" and in_u: "id_key ` set (discovered_in pin) \<subseteq> universe" using Cons.prems(3,4) by simp_all
  have w: "workers_ok dc st2" by (rule launch_ok[OF Cons.prems(2) l(1) d])
  note j = join_worker_ok[OF w l(2)]
  have "end_state (launch dc pin st) = Some st2" by (simp add: end_state_def l(1))
  then obtain la where la: "launched_to pin (dc_parallelism dc - length (dr_active st)) st la st2"
    using launch_launched by blast
  have card: "length (dr_active st2) - length (dr_active st) + card (attempted_keys st) \<le> card (attempted_keys st2)"
    by (rule launched_card[OF la d])
  have more: "length (dr_active st) \<le> length (dr_active st2)" using la by (simp add: launched_to_def)
  have "attempted_keys st2 \<subseteq> universe"
  proof -
    have "dr_attempted_ids st2 = la_ids la @ dr_attempted_ids st" "set (la_ids la) \<subseteq> prd_ident ` set (discovered_in pin)"
      using la by (simp_all add: launched_to_def)
    moreover from this(2) have "prd_key ` set (la_ids la) \<subseteq> id_key ` set (discovered_in pin)"
      by (force simp: id_key_def)
    ultimately have "attempted_keys st2 = prd_key ` set (la_ids la) \<union> attempted_keys st"
      "prd_key ` set (la_ids la) \<subseteq> id_key ` set (discovered_in pin)"
      by (simp_all add: attempted_keys_def image_Un)
    then show ?thesis using Cons.prems(5) in_u by blast
  qed
  then have u: "attempted_keys st1 \<subseteq> universe" by (simp add: j(3))
  have "length (dr_active st1) \<le> card (attempted_keys st1)" using j(2) card more Cons.prems(6) unfolding j(3) by linarith
  then have "attempted_keys st' \<subseteq> universe \<and> length pins + length (dr_active st') + card (attempted_keys st1)
      \<le> card (attempted_keys st') + length (dr_active st1)"
    using Cons.IH[OF p(2) j(1)] Cons.prems(3,4) u by simp
  then have "attempted_keys st' \<subseteq> universe" and bound: "length pins + length (dr_active st') + card (attempted_keys st2)
      \<le> card (attempted_keys st') + length (dr_active st1)" unfolding j(3) by simp_all
  moreover have "Suc (length pins) + length (dr_active st') + card (attempted_keys st)
      \<le> card (attempted_keys st') + length (dr_active st)"
    using bound card more j(2) by linarith
  ultimately show ?case by simp
qed simp

text \<open>
  C19: a session ends: when all its passes see PRDs with identities from a finite set, it makes at most one
  pass for each of them and then one that stops it, whatever the workers and the environment answer.
\<close>

theorem session_ends:
  assumes "dc_parallelism dc \<noteq> 0" and "\<forall>pin\<in>set pins. distinct_prds pin"
    and "\<forall>pin\<in>set pins. id_key ` set (discovered_in pin) \<subseteq> universe" and "finite universe"
    and "card universe < length pins"
  shows "\<not> (\<exists>st. drive_passes dc pins drive_start = Pass_Next st)"
proof
  assume "\<exists>st. drive_passes dc pins drive_start = Pass_Next st"
  then obtain st where st: "drive_passes dc pins drive_start = Pass_Next st" by blast
  have z: "attempted_keys drive_start = {}" "dr_active drive_start = []"
    by (simp_all add: attempted_keys_def drive_start_def)
  have "attempted_keys st \<subseteq> universe \<and> length pins + length (dr_active st) \<le> card (attempted_keys st)"
    using drive_passes_count[OF st session_ok_start[OF assms(1)] assms(2,3)] z by simp
  then show False using card_mono[OF assms(4)] assms(5) by (metis add_leD1 le_trans not_le)
qed

section \<open>The warrant of a serial session\<close>

lemma join_worker_attempted: "end_state (join_worker dc pin st) = Some st' \<Longrightarrow> dr_attempted st' = dr_attempted st
    \<and> length (dr_active st') \<le> length (dr_active st)"
  by (auto simp: join_worker_def Let_def end_state_def drain_keeps_def
      dest!: drain_result_keeps split: if_splits option.splits sum.splits)

lemma serial_pass:
  assumes "dc_parallelism dc = 1" "0 < dw_prds (dc_warrant dc)" "dr_active st = []"
    and "dr_attempted st \<le> dw_prds (dc_warrant dc)" and "end_state (drive_pass dc pin st) = Some st'"
  shows "dr_attempted st' \<le> dw_prds (dc_warrant dc)"
proof -
  obtain st1 where l: "end_state (launch dc pin st) = Some st1" "dr_attempted st' = dr_attempted st1"
  proof (cases "launch dc pin st")
    case (Pass_Next s)
    then show ?thesis
      using assms(5) join_worker_attempted[of dc pin s st'] by (intro that[of s]) (simp_all add: drive_pass_def)
  next
    case (Pass_Break r s)
    then show ?thesis using assms(5) by (intro that[of s]) (simp_all add: drive_pass_def)
  next
    case (Pass_Return e)
    then show ?thesis using assms(5) by (simp add: drive_pass_def)
  qed
  obtain la where la: "launched_to pin (dc_parallelism dc - length (dr_active st)) st la st1"
    "la_count la \<noteq> 0 \<longrightarrow>
        warrant_exhausted (dc_warrant dc) (dr_attempted st) (dr_cost st) (dr_tokens st) (pi_elapsed pin) = None"
    using launch_launched[OF l(1)] assms(3) by blast
  have a: "dr_attempted st1 = dr_attempted st + word_of_nat (la_count la)" and c: "la_count la \<le> 1"
    using la(1) assms(1,3) by (simp_all add: launched_to_def)
  show ?thesis
  proof (cases "la_count la = 0")
    case True
    then show ?thesis using a l(2) assms(4) by simp
  next
    case False
    then have "la_count la = 1" using c by simp
    moreover have "dr_attempted st < dw_prds (dc_warrant dc)"
      using la(2) False assms(2) by (auto simp: warrant_exhausted_def not_le split: if_splits)
    ultimately show ?thesis using a l(2) by (simp add: inc_le)
  qed
qed

lemma serial_passes:
  assumes "dc_parallelism dc = 1" "0 < dw_prds (dc_warrant dc)"
  shows "dr_active st = [] \<Longrightarrow> dr_attempted st \<le> dw_prds (dc_warrant dc)
    \<Longrightarrow> end_state (drive_passes dc pins st) = Some st' \<Longrightarrow> dr_attempted st' \<le> dw_prds (dc_warrant dc)"
proof (induction pins arbitrary: st)
  case Nil
  then show ?case by (simp add: end_state_def)
next
  case (Cons pin pins)
  show ?case
  proof (cases "drive_pass dc pin st")
    case (Pass_Next st1)
    have "dr_attempted st1 \<le> dw_prds (dc_warrant dc)"
      by (rule serial_pass[OF assms Cons.prems(1,2), of pin]) (simp add: Pass_Next)
    moreover have "dr_active st1 = []"
    proof -
      obtain st2 where l: "launch dc pin st = Pass_Next st2" "join_worker dc pin st2 = Pass_Next st1"
        by (rule drive_pass_next[OF Pass_Next])
      then have "end_state (launch dc pin st) = Some st2" by (simp add: end_state_def)
      then obtain la where "launched_to pin (dc_parallelism dc - length (dr_active st)) st la st2"
        using launch_launched by blast
      then have "length (dr_active st2) \<le> 1" using assms(1) Cons.prems(1) by (simp add: launched_to_def)
      moreover obtain i where "i < length (dr_active st2)" "dr_active st1 = take i (dr_active st2) @ drop (Suc i) (dr_active st2)"
        by (rule join_worker_next[OF l(2)])
      ultimately show ?thesis by simp
    qed
    ultimately show ?thesis using Cons.IH Cons.prems(3) Pass_Next by simp
  next
    case (Pass_Break r s)
    then show ?thesis using Cons.prems(3) serial_pass[OF assms Cons.prems(1,2), of pin s] by simp
  next
    case (Pass_Return e)
    then show ?thesis using Cons.prems(3) by (simp add: end_state_def)
  qed
qed

text \<open>
  C21: a serial session never attempts more PRDs than its warrant allows, whatever the workers and the
  environment answer and however it ends.
\<close>

theorem serial_session_within_warrant:
  assumes "dc_parallelism dc = 1" and "0 < dw_prds (dc_warrant dc)"
    and "end_state (drive dc preflight pins) = Some st"
  shows "dr_attempted st \<le> dw_prds (dc_warrant dc)"
proof -
  have z: "dr_active drive_start = []" "dr_attempted drive_start \<le> dw_prds (dc_warrant dc)"
    by (simp_all add: drive_start_def)
  show ?thesis
    using assms(3) serial_passes[OF assms(1,2) z] z(2)
    by (auto simp: drive_def end_state_def split: sum.splits if_splits)
qed

end
