(* ===== verification/Drive_Width.thy ===== *)
theory Drive_Width
  imports Drive_Batch
begin

text \<open>
  The width that \<open>achievable_width\<close> reports is the largest number of PRDs that may run at once, the claims
  of other hosts are seen under one way of naming PRDs only, and a warrant is never loosened.
\<close>

section \<open>Width\<close>

definition independent :: "(nat \<Rightarrow> nat \<Rightarrow> bool) \<Rightarrow> nat set \<Rightarrow> bool" where
  "independent edge s \<longleftrightarrow> (\<forall>i\<in>s. \<forall>j\<in>s. \<not> edge i j)"

text \<open>The sets that extend what is picked by some of the indices from \<open>n - k\<close> on.\<close>

definition extends_pick :: "(nat \<Rightarrow> nat \<Rightarrow> bool) \<Rightarrow> nat \<Rightarrow> nat \<Rightarrow> nat list \<Rightarrow> nat set \<Rightarrow> bool" where
  "extends_pick edge n k picked t \<longleftrightarrow> t \<subseteq> {n - k..<n} \<and> independent edge (set picked \<union> t)"

lemma width_search_lower:
  "k \<le> n \<Longrightarrow> symp edge \<Longrightarrow> irreflp edge \<Longrightarrow> extends_pick edge n k picked t
     \<Longrightarrow> length picked + card t \<le> width_search edge n k picked best \<and> best \<le> width_search edge n k picked best"
proof (induction k arbitrary: picked best t)
  case 0
  then have "t = {}" by (auto simp: extends_pick_def)
  then show ?case by simp
next
  case (Suc k)
  obtain i where i: "n - Suc k = i" and idx: "n - k = Suc i" "i < n" using Suc.prems(1) by (cases "n - k") auto
  have sub: "t \<subseteq> {i..<n}" and ind: "independent edge (set picked \<union> t)"
    using Suc.prems(4) i by (simp_all add: extends_pick_def)
  have "card t \<le> n - i" using card_mono[OF _ sub] by simp
  show ?case
  proof (cases "length picked + n - i \<le> best")
    case True
    then show ?thesis using \<open>card t \<le> n - i\<close> idx(2) by (simp add: Let_def i)
  next
    case False
    define best' where "best' = (if list_all (\<lambda>p. \<not> edge p i) picked then width_search edge n k (picked @ [i]) best else best)"
    have r: "width_search edge n (Suc k) picked best = width_search edge n k picked best'"
      using False by (simp add: best'_def Let_def i)
    have none: "extends_pick edge n k picked {}"
      using ind by (auto simp: extends_pick_def independent_def)
    have keep: "best' \<le> width_search edge n k picked best'"
      using Suc.IH[OF _ Suc.prems(2,3) none, of best'] Suc.prems(1) by simp
    show ?thesis
    proof (cases "i \<in> t")
      case True
      have free: "list_all (\<lambda>p. \<not> edge p i) picked" using ind True by (auto simp: independent_def list_all_iff)
      have ext: "extends_pick edge n k (picked @ [i]) (t - {i})"
      proof -
        have "set (picked @ [i]) \<union> (t - {i}) = set picked \<union> t" using True by auto
        moreover have "t - {i} \<subseteq> {n - k..<n}"
        proof
          fix x
          assume "x \<in> t - {i}"
          then have "i \<le> x" "x < n" "x \<noteq> i" using sub by auto
          then show "x \<in> {n - k..<n}" unfolding idx(1) by simp
        qed
        ultimately show ?thesis using ind by (simp only: extends_pick_def)
      qed
      have "length (picked @ [i]) + card (t - {i}) \<le> best' \<and> best \<le> best'"
        using Suc.IH[OF _ Suc.prems(2,3) ext, of best] Suc.prems(1) free by (simp add: best'_def)
      moreover have "card t = Suc (card (t - {i}))" by (rule card.remove[OF finite_subset[OF sub] True]) simp
      ultimately show ?thesis using keep r by simp
    next
      case False
      have "t \<subseteq> {n - k..<n}"
      proof
        fix x
        assume "x \<in> t"
        then have "i \<le> x" "x < n" "x \<noteq> i" using sub False by auto
        then show "x \<in> {n - k..<n}" unfolding idx(1) by simp
      qed
      then have ext: "extends_pick edge n k picked t" using ind by (simp only: extends_pick_def)
      have "best \<le> best'"
      proof (cases "list_all (\<lambda>p. \<not> edge p i) picked")
        case True
        have "independent edge (set (picked @ [i]))"
          using True ind Suc.prems(2,3) by (auto simp: independent_def list_all_iff dest: sympD irreflpD)
        then have "extends_pick edge n k (picked @ [i]) {}" by (simp add: extends_pick_def)
        then show ?thesis using Suc.IH[OF _ Suc.prems(2,3), of "picked @ [i]" "{}" best] Suc.prems(1) True
          by (simp add: best'_def)
      qed (simp add: best'_def)
      then show ?thesis using Suc.IH[OF _ Suc.prems(2,3) ext, of best'] Suc.prems(1) r by simp
    qed
  qed
qed

lemma width_search_upper:
  "k \<le> n \<Longrightarrow> symp edge \<Longrightarrow> irreflp edge \<Longrightarrow> independent edge (set picked)
     \<Longrightarrow> width_search edge n k picked best = best
       \<or> (\<exists>t. extends_pick edge n k picked t \<and> width_search edge n k picked best = length picked + card t)"
proof (induction k arbitrary: picked best)
  case 0
  have "extends_pick edge n 0 picked {}" using 0 by (simp add: extends_pick_def)
  then show ?case by (cases "length picked \<le> best") (auto simp: max_def)
next
  case (Suc k)
  obtain i where i: "n - Suc k = i" and idx: "n - k = Suc i" "i < n" using Suc.prems(1) by (cases "n - k") auto
  show ?case
  proof (cases "length picked + n - i \<le> best")
    case True
    then show ?thesis by (simp add: Let_def i)
  next
    case False
    define best' where "best' = (if list_all (\<lambda>p. \<not> edge p i) picked then width_search edge n k (picked @ [i]) best else best)"
    have r: "width_search edge n (Suc k) picked best = width_search edge n k picked best'"
      using False by (simp add: best'_def Let_def i)
    have wider: "extends_pick edge n (Suc k) picked t" if "extends_pick edge n k picked t" for t
      using that idx i by (fastforce simp: extends_pick_def)
    have first: "best' = best \<or> (\<exists>t. extends_pick edge n (Suc k) picked t \<and> best' = length picked + card t)"
    proof (cases "list_all (\<lambda>p. \<not> edge p i) picked")
      case True
      have ind: "independent edge (set (picked @ [i]))"
        using True Suc.prems(2-4) by (auto simp: independent_def list_all_iff dest: sympD irreflpD)
      have "best' = best \<or> (\<exists>t. extends_pick edge n k (picked @ [i]) t \<and> best' = length (picked @ [i]) + card t)"
        using Suc.IH[OF _ Suc.prems(2,3) ind, of best] Suc.prems(1) True by (simp add: best'_def)
      then show ?thesis
      proof
        assume "\<exists>t. extends_pick edge n k (picked @ [i]) t \<and> best' = length (picked @ [i]) + card t"
        then obtain t where t: "extends_pick edge n k (picked @ [i]) t" "best' = length (picked @ [i]) + card t" by blast
        have "i \<notin> t" using t(1) idx by (auto simp: extends_pick_def)
        moreover have "finite t" using t(1) finite_subset by (auto simp: extends_pick_def)
        moreover have "extends_pick edge n (Suc k) picked (insert i t)"
        proof -
          have "insert i t \<subseteq> {i..<n}" using t(1) idx by (fastforce simp: extends_pick_def)
          moreover have "set (picked @ [i]) \<union> t = set picked \<union> insert i t" by auto
          ultimately show ?thesis using t(1) i by (simp only: extends_pick_def)
        qed
        ultimately show ?thesis using t(2) by (intro disjI2 exI[of _ "insert i t"]) simp
      qed simp
    qed (simp add: best'_def)
    have "width_search edge n k picked best' = best'
        \<or> (\<exists>t. extends_pick edge n k picked t \<and> width_search edge n k picked best' = length picked + card t)"
      using Suc.IH[OF _ Suc.prems(2-4)] Suc.prems(1) by simp
    then show ?thesis using first wider r by auto
  qed
qed

lemma width_search_optimal:
  assumes "symp edge" "irreflp edge"
  shows "width_search edge n n [] 0 = Max (card ` {s. s \<subseteq> {..<n} \<and> independent edge s})"
proof -
  let ?sets = "{s. s \<subseteq> {..<n} \<and> independent edge s}"
  have ext: "extends_pick edge n n [] s \<longleftrightarrow> s \<in> ?sets" for s by (auto simp: extends_pick_def)
  have fin: "finite (card ` ?sets)" by (intro finite_imageI finite_subset[of ?sets "Pow {..<n}"]) auto
  have empty: "independent edge {}" by (simp add: independent_def)
  have upper: "card s \<le> width_search edge n n [] 0" if "s \<in> ?sets" for s
    using width_search_lower[OF _ assms, of n n "[]" s 0] that ext by simp
  have "width_search edge n n [] 0 \<in> card ` ?sets"
    using width_search_upper[OF _ assms, of n n "[]" 0] ext empty by (auto simp: image_iff)
  then show ?thesis using fin upper by (intro Max_eqI[symmetric]) auto
qed

lemma width_edge_sym: "symp (width_edge prds scopes)" "irreflp (width_edge prds scopes)"
  by (auto simp: symp_def irreflp_def width_edge_def)

text \<open>
  C22: the width that is reported for a set of PRDs is the size of a largest choice of them in which no two
  overlap in scope or share a resource: the pruning of the search loses nothing.
\<close>

theorem achievable_width_is_maximal:
  assumes "achievable_width read prds = Inr report"
  shows "\<exists>scopes. traverse (prd_scope read) prds = Inr scopes
    \<and> wr_achievable report = Max (card ` {s. s \<subseteq> {..<length prds} \<and> independent (width_edge prds scopes) s})"
proof -
  obtain scopes where s: "traverse (\<lambda>p. map_err (\<lambda>e. show_prd_id (prd_ident p) @ '' ('' @ prd_path p @ ''): '' @ e)
      (prd_scope read p)) prds = Inr scopes"
    and w: "wr_achievable report = width_search (width_edge prds scopes) (length prds) (length prds) [] 0"
    using assms by (auto simp: achievable_width_def result_simps Let_def)
  have "traverse (prd_scope read) prds = Inr scopes" using s by (simp add: traverse_Inr_iff map_err_Inr_iff)
  then show ?thesis using w width_search_optimal[OF width_edge_sym] by auto
qed

end
