(* ===== verification/Drive_Examples.thy ===== *)
theory Drive_Examples
  imports Drive_Safety Drive_Width
begin

text \<open>
  Sessions on concrete PRDs: the instances of the theorems on the scheduler, and two runs that show how
  the loop of the driver leaves its warrant and how it stops early.
\<close>

section \<open>A small backlog\<close>

text \<open>PRDs with disjoint contracts of one file each.\<close>

definition demo_target :: "u64 \<Rightarrow> discovered_prd" where
  "demo_target n = (sample_prd n [])\<lparr>prd_meta := default_metadata\<lparr>md_contract_version := Some 1,
     md_expected_files := [''src/'' @ show_u64 n @ ''.rs'']\<rparr>\<rparr>"

definition demo_targets :: "discovered_prd list" where
  "demo_targets = map demo_target [1, 2, 3]"

text \<open>Its only criterion is an activity, so the checks of quality refuse it.\<close>

definition refused_target :: discovered_prd where
  "refused_target = (demo_target 1)\<lparr>prd_meta := (prd_meta (demo_target 1))\<lparr>md_acceptance_criteria := [''Add tests'']\<rparr>\<rparr>"

definition no_foreign :: foreign_state where
  "no_foreign = \<lparr>fs_claimed = (\<lambda>_. None), fs_archived = []\<rparr>"

definition demo_preparation :: preparation_input where
  "demo_preparation = \<lparr>pr_probe = sample_probe, pr_quality_recorded = True, pr_sequence_recorded = True,
     pr_reservation = Reserve_Granted, pr_migration_reserved = True, pr_phase_recorded = True, pr_plan = Inr (),
     pr_revision = Inr (), pr_lease = Lease_Created\<rparr>"

text \<open>A run whose required check failed.\<close>

definition demo_drain :: drain_input where
  "demo_drain = \<lparr>di_panicked = False, di_panic_marked = True, di_terminalized = True, di_heartbeat_failed = False,
     di_ok = False, di_reason = Some ''verification_failed'', di_detail = [], di_context_error = None,
     di_review_required = False, di_unexpired = False, di_risk_accepted = False, di_recorded = True,
     di_cost = None, di_tokens = None, di_settled = True, di_integrated = False, di_lease_marked = True,
     di_delivery_heartbeat_failed = False, di_delivery = Delivered True True, di_finished = True, di_escalation = None\<rparr>"

definition demo_pass :: "discovered_prd list \<Rightarrow> pass_input" where
  "demo_pass ds = \<lparr>pi_heartbeat_failed = False, pi_elapsed = 0, pi_now = ''t'', pi_root = ''/r'', pi_db = empty_db,
     pi_discovered = Inr ds, pi_foreign = no_foreign, pi_read = (\<lambda>_. Inl []), pi_decision_recorded = (\<lambda>_. True),
     pi_width_recorded = True, pi_prepare = (\<lambda>_. demo_preparation), pi_joined = Some (0, demo_drain),
     pi_heartbeat_recorded = True\<rparr>"

definition demo_drive :: "nat \<Rightarrow> u64 \<Rightarrow> drive_config" where
  "demo_drive parallelism prds = \<lparr>dc_warrant = \<lparr>dw_prds = prds, dw_cost = 0, dw_tokens = 0, dw_duration = 0, dw_allowlist = None\<rparr>,
     dc_parallelism = parallelism, dc_isolated = True, dc_repository = ''repo'', dc_session = ''drive-1'',
     dc_implementation_tokens = 0, dc_max_deliveries = None, dc_poc_prds = None\<rparr>"

abbreviation nothing_read :: "string \<Rightarrow> string + string" where
  "nothing_read \<equiv> \<lambda>_. Inl []"

definition pending_entries :: "discovered_prd list \<Rightarrow> backlog_entry list" where
  "pending_entries ds = map (\<lambda>p. \<lparr>entry_prd = p, entry_status = Pending\<rparr>) ds"

text \<open>Fresh active PRDs on distinct paths are all pending in an empty store.\<close>

lemma snapshot_of_fresh:
  assumes "list_all (\<lambda>p. prd_location p = Active) ds" "distinct (map prd_path ds)"
  shows "reconcile_and_snapshot now empty_db repo ds = Inr (pending_entries ds, reconcile repo ds now empty_db)"
proof -
  have rows: "\<exists>r. db_rows (fold (reconcile_prd repo now) ds db) (repo, prd_path p) = Some r
      \<and> row_missing_since r = None \<and> row_status r = Pending"
    if "p \<in> set ds" "list_all (\<lambda>p. prd_location p = Active) ds" "distinct (map prd_path ds)"
      "\<forall>q\<in>set ds. db_rows db (repo, prd_path q) = None" for p ds and db :: backlog_db
    using that
  proof (induction ds arbitrary: db)
    case (Cons d ds)
    let ?db = "reconcile_prd repo now d db"
    have d: "db_rows ?db = (db_rows db)((repo, prd_path d) \<mapsto> upsert_row now d None)"
      using Cons.prems by (simp add: reconcile_prd_def Let_def upsert_row_def)
    show ?case
    proof (cases "p \<in> set ds")
      case True
      have "\<forall>q\<in>set ds. db_rows ?db (repo, prd_path q) = None"
        unfolding d using Cons.prems(3,4) by (auto simp: image_iff)
      then show ?thesis using Cons.IH[of ?db] True Cons.prems by simp
    next
      case False
      then have "p = d" using Cons.prems(1) by simp
      moreover have "(repo, prd_path d) \<notin> (\<lambda>p. (repo, prd_path p)) ` set ds" using Cons.prems(3) by auto
      ultimately show ?thesis using fold_reconcile_other[of "(repo, prd_path d)" repo ds now ?db] d Cons.prems(2)
        by (simp add: upsert_row_def)
    qed
  qed simp
  let ?db = "reconcile repo ds now empty_db"
  have "read_entry ?db repo p = Inr \<lparr>entry_prd = p, entry_status = Pending\<rparr>" if "p \<in> set ds" for p
    using rows[OF that assms, of "mark_all_missing repo now empty_db"]
    by (auto simp: read_entry_def reconcile_def mark_all_missing_def empty_db_def)
  then have "traverse (read_entry ?db repo) ds = Inr (pending_entries ds)"
    by (simp add: traverse_Inr_iff pending_entries_def list_all2_conv_all_nth)
  then show ?thesis by (simp add: reconcile_and_snapshot_def)
qed

lemma select_from_fresh:
  assumes "list_all (\<lambda>p. prd_location p = Active) ds" "distinct (map prd_path ds)" "ds \<noteq> []"
    and "sort_key entry_key (pending_entries ds) = pending_entries ds"
  shows "select_batch_with_foreign now read repo ds empty_db attempted allowlist holds foreign limit =
    (let st = select_entries \<lparr>si_attempted = attempted, si_allowlist = allowlist, si_in_flight = map ah_prd holds,
           si_foreign = foreign, si_limit = limit, si_statuses = status_map (pending_entries ds), si_read = read\<rparr>
         holds (pending_entries ds) in
     Inr (if ss_selected st = [] then Select_Nothing_Eligible else Select_Eligible (ss_selected st), ss_decisions st,
          reconcile repo ds now empty_db))"
  using assms by (simp add: select_batch_with_foreign_def snapshot_of_fresh Let_def)

section \<open>Two workers outrun the warrant\<close>

lemma demo_fresh:
  "list_all (\<lambda>p. prd_location p = Active) demo_targets" "distinct (map prd_path demo_targets)" "demo_targets \<noteq> []"
  "sort_key entry_key (pending_entries demo_targets) = pending_entries demo_targets"
  by code_simp+

lemma demo_graph: "validate_graph demo_targets = Inr ()"
  by code_simp

lemma demo_requests: "session_requests (demo_drive n m) = []"
  by (simp add: session_requests_def component_warrant_requests_def demo_drive_def)

lemma demo_prepares:
  assumes "n \<in> {1, 2, 3}"
  shows "prepare_target (demo_drive p m) nothing_read root demo_targets demo_preparation (demo_target n) st
    = Prep_Job (st\<lparr>dr_attempted_ids := prd_ident (demo_target n) # dr_attempted_ids st, dr_attempted := dr_attempted st + 1\<rparr>)"
proof -
  have "list_all (\<lambda>n. report_refusal (admission_quality sample_probe demo_targets (demo_target n)) = None
      \<and> \<not> touches_migrations nothing_read (demo_target n)) [1, 2, 3]" by code_simp
  then have q: "report_refusal (admission_quality sample_probe demo_targets (demo_target n)) = None"
    "\<not> touches_migrations nothing_read (demo_target n)" using assms by auto
  have "route_context nothing_read root (demo_target n) = Inr ([], 1)"
    by (simp add: route_context_def demo_target_def sample_prd_def default_metadata_def)
  then show ?thesis
    using q by (simp add: prepare_target_def prepare_workspace_def demo_requests demo_preparation_def)
qed

lemma demo_drains: "drain_result (demo_drive p m) i demo_drain st = Inr (None, st)"
  by (simp add: drain_result_def drain_recorded_def drain_outcome_def drain_reason_def accept_risk_def demo_drain_def
      demo_requests record_streak_def deterministic_reasons_def drain_escalation_def final_stops_def add_known_def
      demo_drive_def)

text \<open>The decisions of a pass and what it records; every write of these runs succeeds.\<close>

lemma record_decisions_ok: "fst (record_decisions (\<lambda>_. True) ds seen)"
  by (induction ds arbitrary: seen) (simp_all add: Let_def)

definition picked :: "prd_id list \<Rightarrow> active_hold list \<Rightarrow> nat \<Rightarrow> discovered_prd list" where
  "picked attempted holds limit = ss_selected (select_entries \<lparr>si_attempted = attempted, si_allowlist = None,
     si_in_flight = map ah_prd holds, si_foreign = no_foreign, si_limit = limit,
     si_statuses = status_map (pending_entries demo_targets), si_read = nothing_read\<rparr> holds (pending_entries demo_targets))"

lemma picked_first: "picked [] [] 2 = [demo_target 1, demo_target 2]"
  by code_simp

lemma picked_then:
  "picked [prd_ident (demo_target 2), prd_ident (demo_target 1)] [hold_of nothing_read (demo_target 2)] 0 = [demo_target 3]"
  by code_simp

lemma demo_schedule:
  assumes "picked (dr_attempted_ids st) (dr_holds st) (remaining_width (demo_drive p m) st) = map demo_target ns" "ns \<noteq> []"
    and "set ns \<subseteq> {1, 2, 3}"
  shows "\<exists>seen. schedule (demo_drive p m) (demo_pass demo_targets) st = Pass_Next (spawn nothing_read (map demo_target ns)
    (st\<lparr>dr_recorded := seen, dr_width_reported := True,
        dr_attempted_ids := rev (map (prd_ident \<circ> demo_target) ns) @ dr_attempted_ids st,
        dr_attempted := dr_attempted st + word_of_nat (length ns)\<rparr>))"
proof -
  have prep: "prepare_targets (demo_drive p m) nothing_read ''/r'' demo_targets (\<lambda>_. demo_preparation) (map demo_target ns) s
      = Inr (map demo_target ns, False, s\<lparr>dr_attempted_ids := rev (map (prd_ident \<circ> demo_target) ns) @ dr_attempted_ids s,
          dr_attempted := dr_attempted s + word_of_nat (length ns)\<rparr>)" if "set ns \<subseteq> {1, 2, 3}" for ns s
    using that by (induction ns arbitrary: s) (simp_all add: demo_prepares add.assoc)
  obtain decisions db where sel: "select_batch_with_foreign ''t'' nothing_read ''repo'' demo_targets empty_db (dr_attempted_ids st)
      None (dr_holds st) no_foreign (remaining_width (demo_drive p m) st)
      = Inr (Select_Eligible (map demo_target ns), decisions, db)"
    using select_from_fresh[OF demo_fresh] assms(1,2) by (simp add: picked_def Let_def)
  obtain seen where seen: "record_decisions (\<lambda>_. True) decisions (dr_recorded st) = (True, seen)"
    using record_decisions_ok[of decisions "dr_recorded st"] by (cases "record_decisions (\<lambda>_. True) decisions (dr_recorded st)") auto
  have "schedule (demo_drive p m) (demo_pass demo_targets) st =
      start_batch (demo_drive p m) (demo_pass demo_targets) demo_targets (map demo_target ns) (st\<lparr>dr_recorded := seen\<rparr>)"
    using sel seen demo_graph by (simp add: schedule_def demo_pass_def demo_drive_def pass_targets_def)
  also have "\<dots> = Pass_Next (spawn nothing_read (map demo_target ns)
    (st\<lparr>dr_recorded := seen, dr_width_reported := True,
        dr_attempted_ids := rev (map (prd_ident \<circ> demo_target) ns) @ dr_attempted_ids st,
        dr_attempted := dr_attempted st + word_of_nat (length ns)\<rparr>))"
    using prep[OF assms(3)] by (simp add: start_batch_def demo_pass_def)
  finally show ?thesis by blast
qed

lemma demo_keys: "\<not> prd_eq (prd_ident (demo_target 2)) (prd_ident (demo_target 1))"
  by (simp add: demo_target_def sample_prd_def prd_eq_def prd_new_def)

lemma prd_eq_refl: "prd_eq a a"
  by (simp add: prd_eq_def)

definition after_first_pass :: "(prd_node \<times> string) list \<Rightarrow> drive_state" where
  "after_first_pass seen = drive_start\<lparr>dr_recorded := seen, dr_width_reported := True, dr_attempted := 2,
     dr_attempted_ids := [prd_ident (demo_target 2), prd_ident (demo_target 1)],
     dr_active := [demo_target 2], dr_holds := [hold_of nothing_read (demo_target 2)]\<rparr>"

lemma demo_join:
  assumes "dr_active st = t # ts"
  shows "join_worker (demo_drive p m) (demo_pass ds) st = Pass_Next (st\<lparr>dr_active := ts,
    dr_holds := filter (\<lambda>h. \<not> prd_eq (ah_prd h) (prd_ident t)) (dr_holds st)\<rparr>)"
  using assms by (simp add: join_worker_def demo_pass_def demo_drains)

lemma first_pass: "\<exists>seen. drive_pass (demo_drive 2 2) (demo_pass demo_targets) drive_start = Pass_Next (after_first_pass seen)"
proof -
  have w: "remaining_width (demo_drive 2 2) drive_start = 2"
    by (simp add: remaining_width_def demo_drive_def drive_start_def saturating_sub64_def)
  have l: "launch (demo_drive 2 2) (demo_pass demo_targets) drive_start = schedule (demo_drive 2 2) (demo_pass demo_targets) drive_start"
    by (simp add: launch_def drive_start_def warrant_exhausted_def demo_drive_def demo_pass_def)
  obtain seen where "schedule (demo_drive 2 2) (demo_pass demo_targets) drive_start = Pass_Next (spawn nothing_read (map demo_target [1, 2])
    (drive_start\<lparr>dr_recorded := seen, dr_width_reported := True,
        dr_attempted_ids := rev (map (prd_ident \<circ> demo_target) [1, 2]) @ dr_attempted_ids drive_start,
        dr_attempted := dr_attempted drive_start + word_of_nat (length [1, 2 :: u64])\<rparr>))"
    using demo_schedule[of drive_start 2 2 "[1, 2]"] w picked_first by (auto simp: drive_start_def)
  then show ?thesis
    unfolding drive_pass_def l
    by (intro exI[of _ seen])
      (simp add: demo_join[where t = "demo_target 1" and ts = "[demo_target 2]"] spawn_def hold_of_def after_first_pass_def
        drive_start_def demo_keys prd_eq_refl)
qed

lemma second_launch:
  "\<exists>st. launch (demo_drive 2 2) (demo_pass demo_targets) (after_first_pass seen) = Pass_Next st
     \<and> dr_active st = [demo_target 2, demo_target 3] \<and> dr_attempted st = 3 \<and> dr_stop st = Some Budget_Prds_Exhausted"
proof -
  let ?st = "(after_first_pass seen)\<lparr>dr_stop := Some Budget_Prds_Exhausted\<rparr>"
  have l: "launch (demo_drive 2 2) (demo_pass demo_targets) (after_first_pass seen) = schedule (demo_drive 2 2) (demo_pass demo_targets) ?st"
    by (simp add: launch_def after_first_pass_def drive_start_def warrant_exhausted_def demo_drive_def demo_pass_def get_or_insert_def)
  have w: "remaining_width (demo_drive 2 2) ?st = 0" by (simp add: remaining_width_def)
  obtain seen' where s: "schedule (demo_drive 2 2) (demo_pass demo_targets) ?st = Pass_Next (spawn nothing_read (map demo_target [3])
    (?st\<lparr>dr_recorded := seen', dr_width_reported := True,
        dr_attempted_ids := rev (map (prd_ident \<circ> demo_target) [3]) @ dr_attempted_ids ?st,
        dr_attempted := dr_attempted ?st + word_of_nat (length [3 :: u64])\<rparr>))"
    using demo_schedule[of ?st 2 2 "[3]"] w picked_then by (auto simp: after_first_pass_def)
  then show ?thesis unfolding l by (auto simp: spawn_def after_first_pass_def)
qed

text \<open>
  with two workers the session exceeds its warrant: allowed two PRDs, it has attempted three. Draining
  after the ceiling is reached, the pass asks for a batch of no PRDs and gets one, since the width of a
  batch is one at least; the session goes on so as long as a PRD is eligible and a worker in flight.
\<close>

lemma two_workers_outrun_their_warrant:
  "\<exists>st. drive (demo_drive 2 2) True [demo_pass demo_targets, demo_pass demo_targets] = Pass_Next st
     \<and> dw_prds (dc_warrant (demo_drive 2 2)) = 2 \<and> dr_attempted st = 3
     \<and> dr_stop st = Some Budget_Prds_Exhausted \<and> dr_active st = [demo_target 3]"
proof -
  obtain seen where p1: "drive_pass (demo_drive 2 2) (demo_pass demo_targets) drive_start = Pass_Next (after_first_pass seen)"
    using first_pass by blast
  obtain st where l: "launch (demo_drive 2 2) (demo_pass demo_targets) (after_first_pass seen) = Pass_Next st"
      "dr_active st = [demo_target 2, demo_target 3]" "dr_attempted st = 3" "dr_stop st = Some Budget_Prds_Exhausted"
    using second_launch by blast
  have "\<exists>st. drive_pass (demo_drive 2 2) (demo_pass demo_targets) (after_first_pass seen) = Pass_Next st
     \<and> dr_attempted st = 3 \<and> dr_stop st = Some Budget_Prds_Exhausted \<and> dr_active st = [demo_target 3]"
    using l(3,4) by (simp add: drive_pass_def l(1) demo_join[OF l(2)])
  moreover have "admit_session (demo_drive 2 2) = Inr ()"
    by (simp add: admit_session_def validate_warrant_def demo_drive_def ensure_def)
  ultimately show ?thesis using p1 by (auto simp: drive_def demo_drive_def)
qed

section \<open>A refused PRD ends the session\<close>

definition refused_then_fine :: "discovered_prd list" where
  "refused_then_fine = [refused_target, demo_target 2]"

lemma refused_fresh:
  "list_all (\<lambda>p. prd_location p = Active) refused_then_fine" "distinct (map prd_path refused_then_fine)"
  "refused_then_fine \<noteq> []" "sort_key entry_key (pending_entries refused_then_fine) = pending_entries refused_then_fine"
  by code_simp+

lemma refused_selected:
  assumes "attempted = (if again then [prd_ident refused_target] else [])"
  shows "\<exists>ds db. select_batch_with_foreign ''t'' nothing_read ''repo'' refused_then_fine empty_db attempted None []
     no_foreign 1 = Inr (Select_Eligible [if again then demo_target 2 else refused_target], ds, db)"
proof -
  let ?st = "\<lambda>attempted. select_entries \<lparr>si_attempted = attempted, si_allowlist = None, si_in_flight = [],
      si_foreign = no_foreign, si_limit = 1, si_statuses = status_map (pending_entries refused_then_fine),
      si_read = nothing_read\<rparr> [] (pending_entries refused_then_fine)"
  have "ss_selected (?st [prd_ident refused_target]) = [demo_target 2]" by code_simp
  moreover have "ss_selected (?st []) = [refused_target]" by code_simp
  ultimately show ?thesis using assms select_from_fresh[OF refused_fresh] by (cases again) (simp_all add: Let_def)
qed

text \<open>
  when the checks of quality refuse the PRD that a serial session selects, the session stops as if
  nothing were eligible, although another PRD is eligible and passes the checks.
\<close>

lemma refused_prd_ends_the_session:
  "\<exists>st. drive (demo_drive 1 5) True [demo_pass refused_then_fine] = Pass_Break Nothing_Is_Eligible st
     \<and> dr_attempted st = 0
     \<and> (\<exists>ds db. select_batch_with_foreign ''t'' nothing_read ''repo'' refused_then_fine empty_db (dr_attempted_ids st) None
          (dr_holds st) no_foreign 1 = Inr (Select_Eligible [demo_target 2], ds, db))
     \<and> report_refusal (admission_quality sample_probe refused_then_fine (demo_target 2)) = None"
proof -
  have w: "remaining_width (demo_drive 1 5) drive_start = 1"
    by (simp add: remaining_width_def demo_drive_def drive_start_def saturating_sub64_def)
  have l: "launch (demo_drive 1 5) (demo_pass refused_then_fine) drive_start
      = schedule (demo_drive 1 5) (demo_pass refused_then_fine) drive_start"
    by (simp add: launch_def drive_start_def warrant_exhausted_def demo_drive_def demo_pass_def)
  obtain ds db where sel: "select_batch_with_foreign ''t'' nothing_read ''repo'' refused_then_fine empty_db [] None []
     no_foreign 1 = Inr (Select_Eligible [refused_target], ds, db)"
    using refused_selected[of "[]" False] by auto
  obtain seen where seen: "record_decisions (\<lambda>_. True) ds [] = (True, seen)"
    using record_decisions_ok[of ds "[]"] by (cases "record_decisions (\<lambda>_. True) ds []") auto
  have graph: "validate_graph refused_then_fine = Inr ()" by code_simp
  have "list_all (\<lambda>p. report_refusal (admission_quality sample_probe refused_then_fine p) \<noteq> None) [refused_target]"
    by code_simp
  then have q: "\<exists>r. report_refusal (admission_quality sample_probe refused_then_fine refused_target) = Some r" by auto
  have fine: "report_refusal (admission_quality sample_probe refused_then_fine (demo_target 2)) = None" by code_simp
  let ?st = "drive_start\<lparr>dr_recorded := seen, dr_width_reported := True, dr_attempted_ids := [prd_ident refused_target]\<rparr>"
  have "schedule (demo_drive 1 5) (demo_pass refused_then_fine) drive_start
      = start_batch (demo_drive 1 5) (demo_pass refused_then_fine) refused_then_fine [refused_target]
          (drive_start\<lparr>dr_recorded := seen\<rparr>)"
    using sel seen graph w by (simp add: schedule_def demo_pass_def demo_drive_def pass_targets_def drive_start_def)
  also have "\<dots> = Pass_Next ?st"
    using q by (auto simp: start_batch_def demo_pass_def prepare_target_def demo_preparation_def spawn_def drive_start_def Let_def)
  finally have sched: "schedule (demo_drive 1 5) (demo_pass refused_then_fine) drive_start = Pass_Next ?st" .
  have "drive_pass (demo_drive 1 5) (demo_pass refused_then_fine) drive_start = Pass_Break Nothing_Is_Eligible ?st"
    unfolding drive_pass_def l sched by (simp add: join_worker_def drive_start_def)
  moreover have "admit_session (demo_drive 1 5) = Inr ()"
    by (simp add: admit_session_def validate_warrant_def demo_drive_def ensure_def)
  ultimately have "drive (demo_drive 1 5) True [demo_pass refused_then_fine] = Pass_Break Nothing_Is_Eligible ?st"
    by (simp add: drive_def)
  moreover have "dr_attempted ?st = 0" "dr_attempted_ids ?st = [prd_ident refused_target]" "dr_holds ?st = []"
    by (simp_all add: drive_start_def)
  ultimately show ?thesis using refused_selected[of "[prd_ident refused_target]" True] fine by (intro exI[of _ ?st]) simp
qed

section \<open>Instances\<close>

theorem scope_entries_overlap_iff_witness:
  "\<exists>path. pattern_matches (''src/'', Directory) path \<and> pattern_matches (''src/1.rs'', ExactFile) path"
proof -
  have "normalize_scope_path ''src/'' = Inr (''src/'', Directory)" "normalize_scope_path ''src/1.rs'' = Inr (''src/1.rs'', ExactFile)"
    by code_simp+
  then have "pattern_ok (''src/'', Directory)" "pattern_ok (''src/1.rs'', ExactFile)"
    by (simp_all add: pattern_ok_def normal_path_iff)
  moreover have "scope_entries_overlap (''src/'', Directory) (''src/1.rs'', ExactFile)" by code_simp
  ultimately show ?thesis using scope_entries_overlap_iff by blast
qed

theorem selected_batch_is_safe_witness:
  "present_status (reconcile ''repo'' demo_targets ''t'' empty_db) ''repo'' (prd_path (demo_target 1)) = Some Pending
   \<and> sorted_wrt compatible (map (hold_of nothing_read) [demo_target 1, demo_target 2])"
proof -
  obtain ds where "select_batch_with_foreign ''t'' nothing_read ''repo'' demo_targets empty_db [] None [] no_foreign 2
      = Inr (Select_Eligible [demo_target 1, demo_target 2], ds, reconcile ''repo'' demo_targets ''t'' empty_db)"
    using select_from_fresh[OF demo_fresh] picked_first by (simp add: picked_def Let_def)
  from selected_batch_is_safe[OF this] show ?thesis by simp
qed

lemma demo_distinct: "distinct_prds (demo_pass demo_targets)"
proof -
  have "distinct (map id_key demo_targets)" by code_simp
  then show ?thesis by (simp add: distinct_prds_def demo_pass_def)
qed

theorem workers_in_flight_are_apart_witness:
  "\<exists>st st'. drive_passes (demo_drive 2 2) [demo_pass demo_targets] drive_start = Pass_Next st
     \<and> launch (demo_drive 2 2) (demo_pass demo_targets) st = Pass_Next st' \<and> length (dr_active st') \<le> 2"
proof -
  obtain seen where p1: "drive_passes (demo_drive 2 2) [demo_pass demo_targets] drive_start = Pass_Next (after_first_pass seen)"
    using first_pass by auto
  obtain st' where l: "launch (demo_drive 2 2) (demo_pass demo_targets) (after_first_pass seen) = Pass_Next st'"
    using second_launch by blast
  have "length (dr_active st') \<le> dc_parallelism (demo_drive 2 2)"
    using workers_in_flight_are_apart[OF p1 l] demo_distinct by (simp add: demo_drive_def)
  then show ?thesis using p1 l by (auto simp: demo_drive_def)
qed

theorem session_ends_witness:
  "\<not> (\<exists>st. drive_passes (demo_drive 2 2) (replicate 4 (demo_pass demo_targets)) drive_start = Pass_Next st)"
proof (rule session_ends[where universe = "id_key ` set demo_targets"])
  have "card (id_key ` set demo_targets) \<le> length demo_targets" using card_image_le[of "set demo_targets" id_key] card_length le_trans
    by blast
  then show "card (id_key ` set demo_targets) < length (replicate 4 (demo_pass demo_targets))" by (simp add: demo_targets_def)
qed (use demo_distinct in \<open>auto simp: demo_drive_def discovered_in_def demo_pass_def\<close>)

theorem serial_session_within_warrant_witness:
  "case end_state (drive (demo_drive 1 2) True (replicate 3 (demo_pass demo_targets))) of
     Some st \<Rightarrow> dr_attempted st \<le> 2 | None \<Rightarrow> True"
  using serial_session_within_warrant[of "demo_drive 1 2" True "replicate 3 (demo_pass demo_targets)"]
  by (cases "end_state (drive (demo_drive 1 2) True (replicate 3 (demo_pass demo_targets)))") (simp_all add: demo_drive_def)

theorem achievable_width_is_maximal_witness:
  "\<exists>report scopes. achievable_width nothing_read (refused_target # demo_targets) = Inr report
     \<and> traverse (prd_scope nothing_read) (refused_target # demo_targets) = Inr scopes \<and> wr_achievable report = 3
     \<and> wr_achievable report = Max (card ` {s. s \<subseteq> {..<4} \<and> independent (width_edge (refused_target # demo_targets) scopes) s})"
proof -
  have "(case achievable_width nothing_read (refused_target # demo_targets) of Inr r \<Rightarrow> wr_achievable r = 3 | Inl _ \<Rightarrow> False)"
    by code_simp
  then obtain r where r: "achievable_width nothing_read (refused_target # demo_targets) = Inr r" "wr_achievable r = 3"
    by (auto split: sum.splits)
  have "length (refused_target # demo_targets) = 4" by (simp add: demo_targets_def)
  then show ?thesis using achievable_width_is_maximal[OF r(1)] r by metis
qed

end
