(* ===== verification/Drive_Warrant.thy ===== *)
theory Drive_Warrant
  imports Drive_Examples Reservation_Ledger
begin

text \<open>
  The driver and the ledger of reservations together: a session defines a pool with its cost ceiling, and
  each attempt reserves its share of the pool before it starts and settles it at what it spent.
\<close>

text \<open>What the driver makes of an acquisition; a refusal is recorded with the attempt, which may fail.\<close>

definition reservation_answer_of ::
    "string + unit \<Rightarrow> familiar_error + acquire_outcome \<times> reservation_db \<Rightarrow> reservation_answer" where
  "reservation_answer_of recorded result =
     (case result of
        Inr (Granted g, _) \<Rightarrow> Reserve_Granted
      | Inr (Refused _, _) \<Rightarrow> Reserve_Refused recorded
      | Inl e \<Rightarrow> Reserve_Failed (show_familiar_error e))"

abbreviation cost_pool :: "string \<Rightarrow> pool_key" where
  "cost_pool session \<equiv> (session, type_text NanousdBudget)"

section \<open>The share of a serial session is everything\<close>

lemma warrant_requests_valid:
  assumes "0 < dw_cost w"
  shows "validate_requests (component_warrant_requests session w tokens p) = Inr ()"
proof -
  have pos: "0 < unat (max x 1)" for x :: u64
  proof -
    have "1 \<le> max x 1" by simp
    then show ?thesis by (simp only: word_le_nat_alt) simp
  qed
  have tok: "0 < unat (if 0 < tokens then min tokens (max x 1) else max x 1)" for x :: u64
    using pos by (auto simp: min_def unat_gt_0)
  show ?thesis
    using assms pos tok by (auto simp: component_warrant_requests_def validate_requests_def ensure_def Let_def)
qed

lemma serial_cost_request:
  assumes "0 < dw_cost w"
  shows "\<exists>r\<in>set (component_warrant_requests session w tokens 1).
    (rs_pool_id r, type_text (rs_type r)) = cost_pool session \<and> unat (saturating_mul64 (dw_cost w) 1000) \<le> rs_amount r"
  using assms by (auto simp: component_warrant_requests_def Let_def max_def word_le_nat_alt)

lemma charged_pool_is_short:
  assumes "ledger_ok db" "rd_pools db k = Some p" "i \<in> set (rd_items db)" "it_key i = k" "0 < charge db i"
  shows "po_available p < po_capacity p"
proof -
  have "charge db i \<le> outstanding db k"
    unfolding outstanding_def amount_on_def using assms(3,4) by (intro member_le_sum_list) auto
  then show ?thesis using ledger_okD(6)[OF assms(1,2)] assms(5) by simp
qed

lemma short_pool_refuses:
  assumes "validate_owner owner = Inr ()" "validate_requests rs = Inr ()"
    and "r \<in> set rs" "available_of db r < rs_amount r"
  shows "\<exists>u. acquire hex now db owner rs AllOrNothing ex = Inr (Refused u, db)"
proof -
  have "filter (\<lambda>r. available_of db r < rs_amount r) rs \<noteq> []" using assms(3,4) by (auto simp: filter_empty_conv)
  then show ?thesis using assms(1,2) by (simp add: acquire_def Let_def)
qed

lemma serial_acquire_refused:
  assumes "reservation_reachable db" and "0 < dw_cost w"
    and "rd_pools db (cost_pool session) = Some pool" "po_capacity pool = unat (saturating_mul64 (dw_cost w) 1000)"
    and "i \<in> set (rd_items db)" "it_key i = cost_pool session" "0 < charge db i" and "validate_owner owner = Inr ()"
  shows "\<exists>u. acquire hex now db owner (component_warrant_requests session w tokens 1) AllOrNothing ex = Inr (Refused u, db)"
proof -
  obtain r where r: "r \<in> set (component_warrant_requests session w tokens 1)"
      "(rs_pool_id r, type_text (rs_type r)) = cost_pool session" "unat (saturating_mul64 (dw_cost w) 1000) \<le> rs_amount r"
    using serial_cost_request[OF assms(2)] by blast
  have "available_of db r < rs_amount r"
    using charged_pool_is_short[OF reachable_ledger[OF assms(1)] assms(3,5,6,7)] r(2,3) assms(3,4)
    by (simp add: available_of_def)
  then show ?thesis by (rule short_pool_refuses[OF assms(8) warrant_requests_valid[OF assms(2)] r(1)])
qed

section \<open>A pass in which every reservation is refused\<close>

lemma refused_target_is_no_job:
  assumes "session_requests dc \<noteq> []" "pr_reservation pr = Reserve_Refused recorded"
  shows "prepare_target dc read root discovered pr t st \<noteq> Prep_Job st'"
  using assms by (auto simp: prepare_target_def Let_def split: sum.splits)

lemma prepare_target_active:
  "prepare_target dc read root discovered pr t st = Prep_Skip st' \<Longrightarrow> dr_active st' = dr_active st"
  "prepare_target dc read root discovered pr t st = Prep_Broken st' \<Longrightarrow> dr_active st' = dr_active st"
  by (auto simp: prepare_target_def prepare_workspace_def Let_def split: if_splits sum.splits reservation_answer.splits lease_answer.splits)

lemma refused_targets_start_nothing:
  assumes "session_requests dc \<noteq> []" "\<forall>t\<in>set ts. \<exists>rec. pr_reservation (prepare t) = Reserve_Refused rec"
    and "prepare_targets dc read root discovered prepare ts st = Inr (jobs, broken, st')"
  shows "jobs = [] \<and> dr_active st' = dr_active st"
  using assms(2,3)
proof (induction ts arbitrary: st)
  case (Cons t ts)
  show ?case
  proof (cases "prepare_target dc read root discovered (prepare t) t st")
    case (Prep_Job s)
    then show ?thesis using refused_target_is_no_job[OF assms(1)] Cons.prems(1) by auto
  next
    case (Prep_Skip s)
    then have "dr_active s = dr_active st" by (rule prepare_target_active)
    then show ?thesis using Cons.IH[of s] Cons.prems Prep_Skip by simp
  next
    case (Prep_Broken s)
    then have "dr_active s = dr_active st" by (rule prepare_target_active)
    then show ?thesis using Cons.prems(2) Prep_Broken by auto
  next
    case (Prep_Return e)
    then show ?thesis using Cons.prems(2) by simp
  qed
qed simp

lemma refused_pass_starts_nothing:
  assumes "session_requests dc \<noteq> []" "\<forall>t. \<exists>rec. pr_reservation (pi_prepare pin t) = Reserve_Refused rec"
    and "dr_active st = []" "launch dc pin st = Pass_Next st'"
  shows "dr_active st' = []"
proof -
  have s: "dr_active s' = []" if "start_batch dc pin discovered targets s = Pass_Next s'" "dr_active s = []"
    for discovered targets s s'
    using that refused_targets_start_nothing[OF assms(1), of targets "pi_prepare pin"] assms(2)
    by (fastforce simp: start_batch_def spawn_def Let_def split: if_splits sum.splits)
  have "dr_active s' = []" if "schedule dc pin s = Pass_Next s'" "dr_active s = []" for s s'
    using that s by (auto simp: schedule_def Let_def split: sum.splits if_splits prod.splits)
  then show ?thesis
    using assms(3,4) by (auto simp: launch_def Let_def split: list.splits option.splits if_splits)
qed

lemma refused_pass_ends:
  assumes "session_requests dc \<noteq> []" "\<forall>t. \<exists>rec. pr_reservation (pi_prepare pin t) = Reserve_Refused rec" "dr_active st = []"
  shows "drive_pass dc pin st \<noteq> Pass_Next st'"
  using refused_pass_starts_nothing[OF assms] by (auto simp: drive_pass_def join_worker_def split: pass_end.splits)

text \<open>
  C20: a cost ceiling pays for one attempt of a serial session: as soon as an attempt has spent anything of
  the pool of the session, or still holds any of it, the next attempt, which asks for the whole ceiling
  again, is refused, and the pass that tried it ends the session.
\<close>

theorem cost_ceiling_pays_for_one_attempt:
  assumes "reservation_reachable db" "dc_parallelism dc = 1" "0 < dw_cost (dc_warrant dc)"
    and "rd_pools db (cost_pool (dc_session dc)) = Some pool"
      "po_capacity pool = unat (saturating_mul64 (dw_cost (dc_warrant dc)) 1000)"
    and "i \<in> set (rd_items db)" "it_key i = cost_pool (dc_session dc)" "0 < charge db i"
    and "\<forall>t. \<exists>hex now owner recorded. validate_owner owner = Inr () \<and> pr_reservation (pi_prepare pin t)
           = reservation_answer_of recorded (acquire hex now db owner (session_requests dc) AllOrNothing None)"
    and "dr_active st = []"
  shows "\<not> (\<exists>st'. drive_pass dc pin st = Pass_Next st')"
proof -
  have req: "session_requests dc = component_warrant_requests (dc_session dc) (dc_warrant dc) (dc_implementation_tokens dc) 1"
    by (simp add: session_requests_def assms(2))
  have "session_requests dc \<noteq> []" using assms(3) by (simp add: req component_warrant_requests_def Let_def)
  moreover have "\<exists>rec. pr_reservation (pi_prepare pin t) = Reserve_Refused rec" for t
  proof -
    obtain hex now owner rec where o': "validate_owner owner = Inr ()"
      and a: "pr_reservation (pi_prepare pin t)
        = reservation_answer_of rec (acquire hex now db owner (session_requests dc) AllOrNothing None)"
      using assms(9) by blast
    obtain u where "acquire hex now db owner (session_requests dc) AllOrNothing None = Inr (Refused u, db)"
      unfolding req using serial_acquire_refused[OF assms(1,3-8) o'] by blast
    then show ?thesis using a by (auto simp: reservation_answer_of_def)
  qed
  ultimately show ?thesis using refused_pass_ends[OF _ _ assms(10)] by blast
qed

text \<open>A session with a ceiling of 10 microdollars whose first attempt cost 4.\<close>

definition paid_drive :: drive_config where
  "paid_drive = (demo_drive 1 5)\<lparr>dc_warrant := \<lparr>dw_prds = 5, dw_cost = 10, dw_tokens = 0, dw_duration = 0, dw_allowlist = None\<rparr>\<rparr>"

definition or_empty :: "familiar_error + reservation_db \<Rightarrow> reservation_db" where
  "or_empty r = (case r of Inr db \<Rightarrow> db | Inl _ \<Rightarrow> no_reservations)"

definition paid_pool :: reservation_db where
  "paid_pool = or_empty (define_pool no_reservations ''drive-1'' NanousdBudget 10000 False)"

definition paid_held :: reservation_db where
  "paid_held = or_empty (map_sum id snd (acquire ''0'' ''t'' paid_pool sample_owner (session_requests paid_drive) AllOrNothing None))"

definition paid_spent :: reservation_db where
  "paid_spent = or_empty (map_sum id snd (settle_reservation ''u'' paid_held ''res_0''
     (Known [\<lparr>rs_pool_id = ''drive-1'', rs_type = NanousdBudget, rs_amount = 4000\<rparr>]) ''a''))"

lemma or_empty_pair: "\<not> isl r \<Longrightarrow> \<exists>out. r = Inr (out, or_empty (map_sum id snd r))"
  by (cases r) (auto simp: or_empty_def)

lemma paid_spent_reachable: "reservation_reachable paid_spent"
proof -
  have "\<not> isl (define_pool no_reservations ''drive-1'' NanousdBudget 10000 False)" by code_simp
  then have "define_pool no_reservations ''drive-1'' NanousdBudget 10000 False = Inr paid_pool"
    by (auto simp: paid_pool_def or_empty_def isl_def split: sum.splits)
  then have pool: "reservation_reachable paid_pool" by (intro reservation_reachable.step[OF reservation_reachable.start step_define])
  have "\<not> isl (acquire ''0'' ''t'' paid_pool sample_owner (session_requests paid_drive) AllOrNothing None)" by code_simp
  then obtain out where "acquire ''0'' ''t'' paid_pool sample_owner (session_requests paid_drive) AllOrNothing None = Inr (out, paid_held)"
    unfolding paid_held_def using or_empty_pair by blast
  then have held: "reservation_reachable paid_held" by (intro reservation_reachable.step[OF pool step_acquire])
  have "\<not> isl (settle_reservation ''u'' paid_held ''res_0''
     (Known [\<lparr>rs_pool_id = ''drive-1'', rs_type = NanousdBudget, rs_amount = 4000\<rparr>]) ''a'')" by code_simp
  then obtain out where "settle_reservation ''u'' paid_held ''res_0''
     (Known [\<lparr>rs_pool_id = ''drive-1'', rs_type = NanousdBudget, rs_amount = 4000\<rparr>]) ''a'' = Inr (out, paid_spent)"
    unfolding paid_spent_def using or_empty_pair by blast
  then show ?thesis by (intro reservation_reachable.step[OF held step_settle])
qed

definition paid_pass :: pass_input where
  "paid_pass = (demo_pass demo_targets)\<lparr>pi_prepare := (\<lambda>_. demo_preparation\<lparr>pr_reservation := reservation_answer_of (Inr ())
     (acquire ''1'' ''v'' paid_spent sample_owner (session_requests paid_drive) AllOrNothing None)\<rparr>)\<rparr>"

theorem cost_ceiling_pays_for_one_attempt_witness:
  "\<not> (\<exists>st'. drive_pass paid_drive paid_pass drive_start = Pass_Next st')"
proof -
  let ?i = "hd (rd_items paid_spent)"
  have pool: "rd_pools paid_spent (cost_pool (dc_session paid_drive))
      = Some \<lparr>po_capacity = 10000, po_available = 6000, po_renewable = False\<rparr>" by code_simp
  have item: "rd_items paid_spent \<noteq> []" "it_key ?i = cost_pool (dc_session paid_drive)" "0 < charge paid_spent ?i"
    by code_simp+
  have "unat (saturating_mul64 (dw_cost (dc_warrant paid_drive)) 1000) = 10000" by code_simp
  moreover have "validate_owner sample_owner = Inr ()" by code_simp
  ultimately show ?thesis
    using cost_ceiling_pays_for_one_attempt[OF paid_spent_reachable _ _ pool _ _ item(2,3), of paid_pass drive_start] item(1)
    by (auto simp: paid_drive_def demo_drive_def paid_pass_def drive_start_def)
qed

end
