(* ===== verification/Endpoint_Trust.thy ===== *)
theory Endpoint_Trust
  imports Prelude
begin

unbundle bit_operations_syntax

text \<open>
  How far the endpoint of a local worker is trusted, from \<open>crates/familiar-ai-core/src/config/registry_workers.rs\<close>:
  the host is cut out of the URL and classified. The parser of addresses is that of the standard library,
  \<open>core::net::parser\<close>: a reader returns what it read and the rest of the text.
\<close>

section \<open>Addresses\<close>

type_synonym u16 = "16 word"

datatype ip_addr = Ip_V4 "nat list" | Ip_V6 "u16 list"

definition radix_digit :: "nat \<Rightarrow> char \<Rightarrow> nat option" where
  "radix_digit radix c =
     (let b = byte c in
      if is_digit c then Some (b - 48)
      else if radix = 16 \<and> 97 \<le> b \<and> b \<le> 102 then Some (b - 87)
      else if radix = 16 \<and> 65 \<le> b \<and> b \<le> 70 then Some (b - 55)
      else None)"

text \<open>\<open>read_number\<close>: a run of digits that is too long or exceeds the type fails as a whole.\<close>

definition read_number :: "nat \<Rightarrow> nat \<Rightarrow> bool \<Rightarrow> nat \<Rightarrow> string \<Rightarrow> (nat \<times> string) option" where
  "read_number radix max_digits allow_zero bound s =
     (let ds = takeWhile (\<lambda>c. radix_digit radix c \<noteq> None) s;
          value = foldl (\<lambda>a c. a * radix + the (radix_digit radix c)) 0 ds in
      if ds = [] \<or> max_digits < length ds \<or> bound < value \<or> \<not> allow_zero \<and> hd ds = CHR ''0'' \<and> 1 < length ds
      then None else Some (value, drop (length ds) s))"

definition read_separator :: "char \<Rightarrow> nat \<Rightarrow> (string \<Rightarrow> ('a \<times> string) option) \<Rightarrow> string \<Rightarrow> ('a \<times> string) option" where
  "read_separator sep index inner s =
     (if 0 < index then (case s of c # cs \<Rightarrow> if c = sep then inner cs else None | [] \<Rightarrow> None) else inner s)"

text \<open>The four octets, of which \<open>k\<close> are left.\<close>

fun read_octets :: "nat \<Rightarrow> string \<Rightarrow> (nat list \<times> string) option" where
  "read_octets 0 s = Some ([], s)"
| "read_octets (Suc k) s =
     Option.bind (read_separator (CHR ''.'') (4 - Suc k) (read_number 10 3 False 255) s) (\<lambda>(n, r).
     map_option (\<lambda>(ns, r'). (n # ns, r')) (read_octets k r))"

definition read_ipv4 :: "string \<Rightarrow> (nat list \<times> string) option" where
  "read_ipv4 s = read_octets 4 s"

text \<open>Up to \<open>limit\<close> groups, of which \<open>k\<close> are left; an embedded IPv4 address is the last two.\<close>

fun read_groups :: "nat \<Rightarrow> nat \<Rightarrow> string \<Rightarrow> u16 list \<times> bool \<times> string" where
  "read_groups limit 0 s = ([], False, s)"
| "read_groups limit (Suc k) s =
     (let i = limit - Suc k in
      case (if i < limit - 1 then read_separator (CHR '':'') i read_ipv4 s else None) of
        Some (v4, r) \<Rightarrow>
          ([word_of_nat (v4 ! 0 * 256 + v4 ! 1), word_of_nat (v4 ! 2 * 256 + v4 ! 3)], True, r)
      | None \<Rightarrow>
          (case read_separator (CHR '':'') i (read_number 16 4 True 65535) s of
             None \<Rightarrow> ([], False, s)
           | Some (g, r) \<Rightarrow> let (gs, v4, r') = read_groups limit k r in (word_of_nat g # gs, v4, r')))"

definition read_ipv6 :: "string \<Rightarrow> (u16 list \<times> string) option" where
  "read_ipv6 s =
     (let (front, v4, r) = read_groups 8 8 s in
      if length front = 8 then Some (front, r)
      else if v4 then None
      else case r of
        c # d # r2 \<Rightarrow>
          if c = CHR '':'' \<and> d = CHR '':''
          then let limit = 8 - (length front + 1); (back, _, r3) = read_groups limit limit r2 in
               Some (front @ replicate (8 - length front - length back) 0 @ back, r3)
          else None
      | _ \<Rightarrow> None)"

text \<open>\<open>str::parse::<IpAddr>\<close>: the whole text must be read.\<close>

definition parse_ip :: "string \<Rightarrow> ip_addr option" where
  "parse_ip s =
     (case (case read_ipv4 s of Some (v4, r) \<Rightarrow> Some (Ip_V4 v4, r) | None \<Rightarrow> map_option (apfst Ip_V6) (read_ipv6 s)) of
        Some (ip, []) \<Rightarrow> Some ip
      | _ \<Rightarrow> None)"

section \<open>Trust\<close>

datatype endpoint_trust = Trust_Loopback | Trust_Lan | Trust_Remote

definition eq_ignore_case :: "string \<Rightarrow> string \<Rightarrow> bool" where
  "eq_ignore_case a b \<longleftrightarrow> map ascii_lower a = map ascii_lower b"

text \<open>The second piece of \<open>split("://")\<close>, or the whole URL.\<close>

definition without_scheme :: "string \<Rightarrow> string" where
  "without_scheme url =
     (case split_once url ''://'' of
        None \<Rightarrow> url
      | Some (_, rest) \<Rightarrow> (case split_once rest ''://'' of None \<Rightarrow> rest | Some (piece, _) \<Rightarrow> piece))"

text \<open>\<open>rsplit_once(':')\<close>, keeping what is before the last colon.\<close>

definition before_last_colon :: "string \<Rightarrow> string" where
  "before_last_colon s =
     (if CHR '':'' \<in> set s then rev (drop 1 (dropWhile (\<lambda>c. c \<noteq> CHR '':'') (rev s))) else s)"

definition extract_host :: "string \<Rightarrow> string" where
  "extract_host url =
     (let authority = takeWhile (\<lambda>c. c \<notin> {slash, CHR ''?'', CHR ''#''}) (without_scheme url) in
      case strip_prefix authority ''['' of
        Some rest \<Rightarrow> takeWhile (\<lambda>c. c \<noteq> CHR '']'') rest
      | None \<Rightarrow> before_last_colon authority)"

definition classify_v4 :: "nat list \<Rightarrow> endpoint_trust" where
  "classify_v4 v =
     (if v ! 0 = 127 then Trust_Loopback
      else if v ! 0 = 10 \<or> v ! 0 = 172 \<and> 16 \<le> v ! 1 \<and> v ! 1 \<le> 31 \<or> v ! 0 = 192 \<and> v ! 1 = 168
              \<or> v ! 0 = 169 \<and> v ! 1 = 254 then Trust_Lan
      else Trust_Remote)"

definition classify_v6 :: "u16 list \<Rightarrow> endpoint_trust" where
  "classify_v6 v =
     (let first = v ! 0 in
      if v = [0, 0, 0, 0, 0, 0, 0, 1] then Trust_Loopback
      else if first AND 0xfe00 = 0xfc00 \<or> first AND 0xffc0 = 0xfe80 then Trust_Lan
      else Trust_Remote)"

definition classify_local_endpoint_trust :: "string \<Rightarrow> endpoint_trust" where
  "classify_local_endpoint_trust url =
     (let host = extract_host url in
      if eq_ignore_case host ''localhost'' \<or> host = ''::1'' then Trust_Loopback
      else case parse_ip host of
        Some (Ip_V4 v) \<Rightarrow> classify_v4 v
      | Some (Ip_V6 v) \<Rightarrow> classify_v6 v
      | None \<Rightarrow> Trust_Remote)"

definition base_url_uses_https :: "string \<Rightarrow> bool" where
  "base_url_uses_https url =
     eq_ignore_case (case split_once url ''://'' of None \<Rightarrow> url | Some (scheme, _) \<Rightarrow> scheme) ''https''"

end
