(* ===== verification/Worker_Config.thy ===== *)
theory Worker_Config
  imports Endpoint_Trust
begin

text \<open>
  The configuration of workers, \<open>crates/familiar-ai-core/src/config/registry_workers.rs\<close>: agent entries,
  registered workers, the ladder, cost bases, the worker that a host without configuration gets, and the
  validation of a registry (with the identifiers of \<open>config/providers.rs\<close>).

  A \<open>BTreeMap\<close> is the list of its entries in the order of the keys. A message is a constructor with the
  values that it prints. SHA-256 and the JSON of a tuple are parameters.
\<close>

section \<open>Agent entries\<close>

datatype agent_adapter_kind = Adapter_Codex | Adapter_Claude_Code | Adapter_Ollama | Adapter_Raw_Loop

definition adapter_text :: "agent_adapter_kind \<Rightarrow> string" where
  "adapter_text a = (case a of Adapter_Codex \<Rightarrow> ''codex'' | Adapter_Claude_Code \<Rightarrow> ''claude-code''
     | Adapter_Ollama \<Rightarrow> ''ollama'' | Adapter_Raw_Loop \<Rightarrow> ''raw-agent-loop'')"

definition default_executable :: "agent_adapter_kind \<Rightarrow> string" where
  "default_executable a = (case a of Adapter_Codex \<Rightarrow> ''codex'' | Adapter_Claude_Code \<Rightarrow> ''claude''
     | Adapter_Ollama \<Rightarrow> ''codex'' | Adapter_Raw_Loop \<Rightarrow> ''raw-agent-loop'')"

datatype agent_effort = Effort_Low | Effort_Medium | Effort_High

definition effort_text :: "agent_effort \<Rightarrow> string" where
  "effort_text e = (case e of Effort_Low \<Rightarrow> ''low'' | Effort_Medium \<Rightarrow> ''medium'' | Effort_High \<Rightarrow> ''high'')"

datatype agent_permission_mode = Perm_Default | Perm_Plan | Perm_Accept_Edits | Perm_Bypass

definition permission_text :: "agent_permission_mode \<Rightarrow> string" where
  "permission_text p = (case p of Perm_Default \<Rightarrow> ''default'' | Perm_Plan \<Rightarrow> ''plan''
     | Perm_Accept_Edits \<Rightarrow> ''acceptEdits'' | Perm_Bypass \<Rightarrow> ''bypassPermissions'')"

definition forbidden_agent_extra_args :: "string list" where
  "forbidden_agent_extra_args =
     [''--print'', ''--output-format'', ''--input-format'', ''--verbose'', ''--model'', ''--permission-mode'',
      ''--resume'', ''--continue'', ''--session-id'', ''--fork-session'', ''--dangerously-skip-permissions'']"

record agent_entry =
  en_adapter :: agent_adapter_kind
  en_executable :: "string option"
  en_model :: "string option"
  en_effort :: "agent_effort option"
  en_permission :: "agent_permission_mode option"
  en_max_cost :: u64
  en_max_tokens :: u64
  en_max_duration :: u64
  en_extra_args :: "string list"

definition default_agent_entry :: agent_entry where
  "default_agent_entry = \<lparr>en_adapter = Adapter_Codex, en_executable = None, en_model = None, en_effort = None,
     en_permission = None, en_max_cost = 0, en_max_tokens = 0, en_max_duration = 0, en_extra_args = []\<rparr>"

definition resolved_executable :: "agent_entry \<Rightarrow> string" where
  "resolved_executable e = (case en_executable e of Some x \<Rightarrow> x | None \<Rightarrow> default_executable (en_adapter e))"

datatype entry_error = Blank_Executable | Effort_Not_Allowed | Bypass_Reviewer | Forbidden_Argument string

definition forbidden_flag :: "string \<Rightarrow> string option" where
  "forbidden_flag arg =
     find (\<lambda>flag. arg = flag \<or> starts_with arg (flag @ ''='')) forbidden_agent_extra_args"

definition validate_agent_entry :: "string \<Rightarrow> bool \<Rightarrow> agent_entry \<Rightarrow> (string \<times> entry_error) + unit" where
  "validate_agent_entry role is_reviewer e =
     (if (case en_executable e of Some x \<Rightarrow> trim x = [] | None \<Rightarrow> False) then Inl (role, Blank_Executable)
      else if en_adapter e \<in> {Adapter_Codex, Adapter_Ollama, Adapter_Raw_Loop} \<and> (en_effort e \<noteq> None \<or> en_permission e \<noteq> None)
      then Inl (role, Effort_Not_Allowed)
      else if is_reviewer \<and> en_permission e = Some Perm_Bypass then Inl (role, Bypass_Reviewer)
      else case find_map forbidden_flag (en_extra_args e) of
        Some flag \<Rightarrow> Inl (role, Forbidden_Argument flag)
      | None \<Rightarrow> Inr ())"

record planner_config =
  pl_agent :: agent_entry
  pl_max_prds :: nat
  pl_max_bytes :: nat

datatype planner_error = Planner_Agent "string \<times> entry_error" | Planner_Limits

definition validate_planner :: "planner_config \<Rightarrow> planner_error + unit" where
  "validate_planner p =
     rbind (map_err Planner_Agent (validate_agent_entry ''planner'' False (pl_agent p))) (\<lambda>_.
     ensure (pl_max_prds p \<noteq> 0 \<and> pl_max_bytes p \<noteq> 0) Planner_Limits)"

section \<open>Workers\<close>

datatype worker_capability = Can_Plan | Can_Implement | Can_Review | Can_Remediate | Can_Narrow_Task

datatype serving_runtime = Serves_Unsloth | Serves_Ollama

definition serving_runtime_text :: "serving_runtime \<Rightarrow> string" where
  "serving_runtime_text r = (case r of Serves_Unsloth \<Rightarrow> ''unsloth'' | Serves_Ollama \<Rightarrow> ''ollama'')"

record local_resources =
  lr_accelerator_mb :: "u64 option"
  lr_system_mb :: "u64 option"
  lr_inference_slots :: "u64 option"
  lr_loading_slots :: "u64 option"
  lr_exclusive :: bool
  lr_thermal_celsius :: "u64 option"
  lr_power_watts :: "u64 option"

definition default_resources :: local_resources where
  "default_resources = \<lparr>lr_accelerator_mb = None, lr_system_mb = None, lr_inference_slots = None,
     lr_loading_slots = None, lr_exclusive = False, lr_thermal_celsius = None, lr_power_watts = None\<rparr>"

record local_worker =
  lw_runtime :: serving_runtime
  lw_base_url :: string
  lw_tls :: bool
  lw_resources :: local_resources

record registry_worker =
  wk_adapter :: "agent_adapter_kind option"
  wk_provider :: string
  wk_model :: string
  wk_runtime :: "string option"
  wk_artifact :: "string option"
  wk_auth_profile :: "string option"
  wk_profile :: "string option"
  wk_runtime_host :: "string option option"
  wk_local_profile :: "local_worker option"
  wk_executable :: "string option"
  wk_capabilities :: "worker_capability list"
  wk_isolated :: bool
  wk_context :: u64
  wk_cost :: "u64 option"
  wk_available :: bool
  wk_effort :: "agent_effort option"
  wk_permission :: "agent_permission_mode option"
  wk_extra_args :: "string list"

text \<open>\<open>wk_runtime_host\<close> is \<open>runtime_config\<close>, which is optional and has one optional field.\<close>

datatype runtime_error = Contradicts_Adapter string agent_adapter_kind | No_Runtime

definition worker_runtime_id :: "registry_worker \<Rightarrow> runtime_error + string" where
  "worker_runtime_id w =
     (case (wk_runtime w, wk_adapter w) of
        (Some r, Some a) \<Rightarrow> if r \<noteq> adapter_text a then Inl (Contradicts_Adapter r a) else Inr r
      | (Some r, None) \<Rightarrow> Inr r
      | (None, Some a) \<Rightarrow> Inr (adapter_text a)
      | (None, None) \<Rightarrow> Inl No_Runtime)"

record worker_hashes =
  wh_sha256 :: "string \<Rightarrow> string"
  wh_json :: "string \<Rightarrow> string option \<Rightarrow> agent_effort option \<Rightarrow> agent_permission_mode option \<Rightarrow> u64 \<Rightarrow> string list \<Rightarrow> string"

definition spec_material :: "registry_worker \<Rightarrow> string \<Rightarrow> string" where
  "spec_material w runtime =
     ''provider='' @ wk_provider w @ [nl] @ ''runtime='' @ runtime @ [nl]
     @ ''model='' @ (if wk_model w = [] then ''unknown'' else wk_model w) @ [nl]
     @ ''artifact='' @ (case wk_artifact w of Some a \<Rightarrow> a | None \<Rightarrow> ''-'') @ [nl]
     @ ''capability-profile='' @ (case wk_profile w of Some p \<Rightarrow> p | None \<Rightarrow> ''legacy'')"

definition canonical_spec_identity :: "worker_hashes \<Rightarrow> registry_worker \<Rightarrow> runtime_error + string" where
  "canonical_spec_identity h w =
     rbind (worker_runtime_id w) (\<lambda>r. Inr (''wspec-sha256:'' @ wh_sha256 h (spec_material w r)))"

definition empirical_version :: "worker_hashes \<Rightarrow> registry_worker \<Rightarrow> runtime_error + string" where
  "empirical_version h w =
     rbind (canonical_spec_identity h w) (\<lambda>spec. Inr (''wver-sha256:'' @ wh_sha256 h
       (wh_json h spec (wk_artifact w) (wk_effort w) (wk_permission w) (wk_context w) (wk_extra_args w))))"

definition legacy_cli_default_model :: string where
  "legacy_cli_default_model = ''__legacy_cli_default__''"

definition as_agent_entry :: "registry_worker \<Rightarrow> agent_entry" where
  "as_agent_entry w =
     (let adapter = (case wk_adapter w of
            Some a \<Rightarrow> a
          | None \<Rightarrow> if wk_runtime w = Some ''claude-code'' then Adapter_Claude_Code
                   else if wk_runtime w = Some ''ollama'' then Adapter_Ollama
                   else if wk_runtime w = Some ''codex'' then Adapter_Codex else Adapter_Raw_Loop);
          model = (if wk_model w = legacy_cli_default_model then None
            else if adapter = Adapter_Ollama \<and> wk_local_profile w = None \<and> \<not> starts_with (wk_model w) ''ollama/''
            then Some (''ollama/'' @ wk_model w) else Some (wk_model w)) in
      default_agent_entry\<lparr>en_adapter := adapter, en_executable := wk_executable w, en_model := model,
        en_effort := wk_effort w, en_permission := wk_permission w, en_extra_args := wk_extra_args w\<rparr>)"

section \<open>Routing\<close>

datatype local_cost_unit = Wall_Clock_Ms | Local_Token

datatype worker_cost_basis =
  Published_Rates u64 string string
| Operator_Declared u64 string string
| Measured_Executions u64
| Local_Basis local_cost_unit u64 "string option" string string

definition declared_estimate :: "worker_cost_basis \<Rightarrow> u64 option" where
  "declared_estimate b = (case b of Published_Rates n _ _ \<Rightarrow> Some n | Operator_Declared n _ _ \<Rightarrow> Some n
     | Measured_Executions _ \<Rightarrow> None | Local_Basis _ _ _ _ _ \<Rightarrow> None)"

record ladder_probation =
  lp_workers :: "string list"
  lp_min_prds :: u64
  lp_min_pass :: u32
  lp_max_remediation :: u32
  lp_max_failure :: u32
  lp_max_cost :: u64
  lp_max_files :: u64

record worker_ladder =
  ld_implementation :: "string list"
  ld_remediation :: "string list"
  ld_review :: "string list"
  ld_narrow_task :: "string list"
  ld_risk_floors :: "(string \<times> string) list"
  ld_cheap_fraction :: u32
  ld_probation :: "ladder_probation option"

datatype ladder_job = Job_Implementation | Job_Remediation | Job_Review | Job_Narrow_Task

definition workers_for :: "worker_ladder \<Rightarrow> ladder_job \<Rightarrow> string list" where
  "workers_for l j = (case j of Job_Implementation \<Rightarrow> ld_implementation l | Job_Remediation \<Rightarrow> ld_remediation l
     | Job_Review \<Rightarrow> ld_review l | Job_Narrow_Task \<Rightarrow> ld_narrow_task l)"

text \<open>\<open>Iterator::position\<close> of a value.\<close>

fun position :: "'a list \<Rightarrow> 'a \<Rightarrow> nat option" where
  "position [] x = None"
| "position (y # ys) x = (if y = x then Some 0 else map_option Suc (position ys x))"

datatype rung_reason = Cheapest_Capable | Unprofitable_Skipped

definition rung_estimate :: "(string \<times> registry_worker) list \<Rightarrow> (string \<times> worker_cost_basis) list \<Rightarrow> string \<Rightarrow> u64 option" where
  "rung_estimate workers bases i =
     (case Option.bind (map_of bases i) declared_estimate of
        Some n \<Rightarrow> Some n | None \<Rightarrow> Option.bind (map_of workers i) wk_cost)"

definition floor_index :: "worker_ladder \<Rightarrow> string list \<Rightarrow> string list \<Rightarrow> nat" where
  "floor_index l rungs risks =
     fold max (List.map_filter (\<lambda>r. Option.bind (map_of (ld_risk_floors l) r) (position rungs)) risks) 0"

definition select_rung ::
    "worker_ladder \<Rightarrow> ladder_job \<Rightarrow> string list \<Rightarrow> (string \<times> registry_worker) list
     \<Rightarrow> (string \<times> worker_cost_basis) list \<Rightarrow> (string \<times> rung_reason) option" where
  "select_rung l job risks workers bases =
     (let rungs = workers_for l job in
      if rungs = [] then None
      else
        let index = floor_index l rungs risks; fraction = (ucast (ld_cheap_fraction l) :: u64) in
        if 0 < fraction \<and> index + 1 < length rungs
        then (case (rung_estimate workers bases (rungs ! index), rung_estimate workers bases (rungs ! (index + 1))) of
            (Some cheap, Some next) \<Rightarrow>
              if saturating_mul64 next fraction \<le> saturating_mul64 cheap 10000
              then Some (rungs ! (index + 1), Unprofitable_Skipped) else Some (rungs ! index, Cheapest_Capable)
          | _ \<Rightarrow> Some (rungs ! index, Cheapest_Capable))
        else Some (rungs ! index, Cheapest_Capable))"

record worker_rule =
  ru_id :: string
  ru_worker :: string
  ru_risk_classes :: "string list"
  ru_max_files :: "u64 option"

record worker_routing =
  ro_ladder :: "worker_ladder option"
  ro_implementation_pin :: "string option"
  ro_planning_pin :: "string option"
  ro_review_pin :: "string option"
  ro_remediation_pin :: "string option"
  ro_narrow_task_pin :: "string option"
  ro_max_stage_cost :: u64
  ro_required_context :: u64
  ro_rules :: "worker_rule list"

definition default_routing :: worker_routing where
  "default_routing = \<lparr>ro_ladder = None, ro_implementation_pin = None, ro_planning_pin = None, ro_review_pin = None,
     ro_remediation_pin = None, ro_narrow_task_pin = None, ro_max_stage_cost = 0, ro_required_context = 0, ro_rules = []\<rparr>"

text \<open>Of the capability profiles only the names matter here.\<close>

record registry_config =
  gc_workers :: "(string \<times> registry_worker) list"
  gc_profiles :: "string list"
  gc_routing :: worker_routing
  gc_cost_bases :: "(string \<times> worker_cost_basis) list"
  gc_coverage_floor :: nat

section \<open>The worker of a host without configuration\<close>

record host_facts =
  hf_openai_key :: bool
  hf_anthropic_key :: bool
  hf_ollama :: "string option"
  hf_codex :: bool
  hf_claude :: bool

definition host_worker :: "string \<Rightarrow> string \<Rightarrow> string \<Rightarrow> registry_worker" where
  "host_worker provider model runtime =
     \<lparr>wk_adapter = None, wk_provider = provider, wk_model = model, wk_runtime = Some runtime, wk_artifact = None,
      wk_auth_profile = None, wk_profile = None, wk_runtime_host = None, wk_local_profile = None, wk_executable = None,
      wk_capabilities = [Can_Implement, Can_Review, Can_Remediate], wk_isolated = True, wk_context = 0, wk_cost = None,
      wk_available = True, wk_effort = None, wk_permission = None, wk_extra_args = []\<rparr>"

definition selected_host_worker :: "host_facts \<Rightarrow> (string \<times> registry_worker) option" where
  "selected_host_worker f =
     (if hf_openai_key f
      then Some (''host-openai-api'', (host_worker ''openai'' ''gpt-5-codex'' ''openai-api'')\<lparr>wk_auth_profile := Some ''host-openai-api-key''\<rparr>)
      else if hf_anthropic_key f
      then Some (''host-anthropic-api'',
        (host_worker ''anthropic'' ''claude-sonnet-4-5'' ''anthropic-api'')\<lparr>wk_auth_profile := Some ''host-anthropic-api-key''\<rparr>)
      else case hf_ollama f of
        Some endpoint \<Rightarrow>
          Some (''host-ollama'', (host_worker ''local'' ''llama3'' ''ollama'')\<lparr>wk_runtime_host := Some (Some endpoint),
            wk_local_profile := Some \<lparr>lw_runtime = Serves_Ollama, lw_base_url = endpoint, lw_tls = False, lw_resources = default_resources\<rparr>\<rparr>)
      | None \<Rightarrow>
        if hf_codex f
        then Some (''host-codex-cli'', (host_worker ''openai'' legacy_cli_default_model ''codex'')
          \<lparr>wk_adapter := Some Adapter_Codex, wk_executable := Some ''codex''\<rparr>)
        else if hf_claude f
        then Some (''host-claude-cli'', (host_worker ''anthropic'' legacy_cli_default_model ''claude-code'')
          \<lparr>wk_adapter := Some Adapter_Claude_Code, wk_executable := Some ''claude''\<rparr>)
        else None)"

definition legacy_worker :: "agent_entry \<Rightarrow> string \<Rightarrow> worker_capability list \<Rightarrow> registry_worker" where
  "legacy_worker e role caps =
     \<lparr>wk_adapter = Some (en_adapter e), wk_provider = ''legacy-'' @ adapter_text (en_adapter e) @ ''-'' @ role,
      wk_model = (case en_model e of Some m \<Rightarrow> m | None \<Rightarrow> legacy_cli_default_model),
      wk_runtime = Some (adapter_text (en_adapter e)), wk_artifact = None, wk_auth_profile = None, wk_profile = None,
      wk_runtime_host = None, wk_local_profile = None, wk_executable = en_executable e, wk_capabilities = caps,
      wk_isolated = True, wk_context = 0, wk_cost = None, wk_available = True, wk_effort = en_effort e,
      wk_permission = en_permission e, wk_extra_args = en_extra_args e\<rparr>"

definition from_legacy_agents :: "agent_entry \<Rightarrow> agent_entry \<Rightarrow> registry_config" where
  "from_legacy_agents implementation reviewer =
     \<lparr>gc_workers = [(''legacy-implementation'', legacy_worker implementation ''implementation'' [Can_Implement, Can_Remediate]),
                    (''legacy-reviewer'', legacy_worker reviewer ''reviewer'' [Can_Review])],
      gc_profiles = [],
      gc_routing = default_routing\<lparr>ro_implementation_pin := Some ''legacy-implementation'',
        ro_review_pin := Some ''legacy-reviewer'', ro_remediation_pin := Some ''legacy-implementation''\<rparr>,
      gc_cost_bases = [], gc_coverage_floor = 80\<rparr>"

end
