(* ===== verification/Worker_Validation.thy ===== *)
theory Worker_Validation
  imports Worker_Config
begin

text \<open>
  The validation of a worker registry: \<open>WorkerRegistryConfig::validate\<close> and \<open>AgentsConfig::validate\<close> of
  \<open>crates/familiar-ai-core/src/config/registry_workers.rs\<close>, with the identifiers of \<open>config/providers.rs\<close>.
\<close>

datatype registry_error =
  No_Workers | Coverage_Floor
| Basis_Unknown_Worker string | Basis_Mismatch string u64 | Basis_Not_Local string
| Worker_Incomplete string | Bad_Identifier string string | Worker_Runtime string runtime_error | Bad_Model string
| Bad_Artifact string | Runtime_Config_Not_Ollama string | Local_And_Runtime_Config string
| Local_Provider string | Local_Runtime_Kind string | Local_No_Url string | Local_No_Auth string
| Local_No_Tls string | Local_Tls_Scheme string | Missing_Profile string string
| Worker_Entry "string \<times> entry_error"
| Ladder_Fraction | Ladder_Unknown string string | Ladder_Repeat string string
| Floor_Risk string | Floor_Worker string string
| Probation_Empty | Probation_Bounds | Probation_Unknown string | Probation_Not_Local string
| Rule_Id string | Rule_Unknown string string | Rule_No_Predicate string
| Rule_Blank_Class string | Rule_Class string string | Rule_Contradiction string string

section \<open>Identifiers\<close>

definition ascii_alphanumeric :: "char \<Rightarrow> bool" where
  "ascii_alphanumeric c \<longleftrightarrow> is_digit c \<or> is_lower (ascii_lower c)"

definition validate_identifier :: "string \<Rightarrow> string \<Rightarrow> registry_error + unit" where
  "validate_identifier v field =
     ensure (v \<noteq> [] \<and> list_all (\<lambda>c. ascii_alphanumeric c \<or> c \<in> {CHR ''-'', CHR ''_'', CHR ''.''}) v)
       (Bad_Identifier field v)"

definition validate_model_identifier :: "string \<Rightarrow> registry_error + unit" where
  "validate_model_identifier v =
     ensure (v \<noteq> [] \<and> list_all (\<lambda>c. ascii_alphanumeric c \<or> c \<in> {CHR ''-'', CHR ''_'', CHR ''.'', CHR '':'', slash}) v)
       (Bad_Model v)"

definition immutable_artifact :: "string \<Rightarrow> bool" where
  "immutable_artifact a \<longleftrightarrow>
     (case strip_prefix a ''sha256:'' of
        Some hex \<Rightarrow> length hex = 64 \<and> list_all (\<lambda>c. radix_digit 16 c \<noteq> None) hex | None \<Rightarrow> False)"

section \<open>Workers\<close>

definition validate_cost_basis ::
    "(string \<times> registry_worker) list \<Rightarrow> string \<times> worker_cost_basis \<Rightarrow> registry_error + unit" where
  "validate_cost_basis workers = (\<lambda>(i, basis).
     (case map_of workers i of
        None \<Rightarrow> Inl (Basis_Unknown_Worker i)
      | Some w \<Rightarrow>
        rbind (case declared_estimate basis of
            Some n \<Rightarrow> ensure (wk_cost w = Some n) (Basis_Mismatch i n) | None \<Rightarrow> Inr ()) (\<lambda>_.
        ensure (\<not> ((case basis of Local_Basis _ _ _ _ _ \<Rightarrow> True | _ \<Rightarrow> False) \<and> wk_local_profile w = None))
          (Basis_Not_Local i))))"

text \<open>A credential goes over TLS to any host that is not the machine itself.\<close>

definition validate_local_worker :: "string \<Rightarrow> registry_worker \<Rightarrow> string \<Rightarrow> local_worker \<Rightarrow> registry_error + unit" where
  "validate_local_worker i w runtime l =
     (if wk_provider w \<noteq> ''local'' then Inl (Local_Provider i)
      else if runtime \<noteq> serving_runtime_text (lw_runtime l) then Inl (Local_Runtime_Kind i)
      else if trim (lw_base_url l) = [] then Inl (Local_No_Url i)
      else if classify_local_endpoint_trust (lw_base_url l) \<noteq> Trust_Loopback
      then (if wk_auth_profile w = None then Inl (Local_No_Auth i)
            else ensure (lw_tls l \<and> base_url_uses_https (lw_base_url l)) (Local_No_Tls i))
      else ensure (\<not> (lw_tls l \<and> \<not> base_url_uses_https (lw_base_url l))) (Local_Tls_Scheme i))"

definition validate_worker :: "string list \<Rightarrow> string \<times> registry_worker \<Rightarrow> registry_error + unit" where
  "validate_worker profiles = (\<lambda>(i, w).
     rbind (ensure (\<not> (trim i = [] \<or> trim (wk_provider w) = [] \<or> trim (wk_model w) = [] \<or> wk_capabilities w = []))
              (Worker_Incomplete i)) (\<lambda>_.
     rbind (validate_identifier (wk_provider w) ''provider id'') (\<lambda>_.
     rbind (map_err (Worker_Runtime i) (worker_runtime_id w)) (\<lambda>runtime.
     rbind (validate_identifier runtime ''runtime id'') (\<lambda>_.
     rbind (if wk_model w \<in> {''unknown'', ''runtime-selected''} then Inr () else validate_model_identifier (wk_model w)) (\<lambda>_.
     rbind (case wk_artifact w of Some a \<Rightarrow> ensure (immutable_artifact a) (Bad_Artifact i) | None \<Rightarrow> Inr ()) (\<lambda>_.
     rbind (ensure (\<not> (wk_runtime_host w \<noteq> None \<and> runtime \<noteq> ''ollama'')) (Runtime_Config_Not_Ollama i)) (\<lambda>_.
     rbind (ensure (\<not> (wk_local_profile w \<noteq> None \<and> wk_runtime_host w \<noteq> None)) (Local_And_Runtime_Config i)) (\<lambda>_.
     rbind (case wk_local_profile w of Some l \<Rightarrow> validate_local_worker i w runtime l | None \<Rightarrow> Inr ()) (\<lambda>_.
     rbind (case wk_profile w of Some p \<Rightarrow> ensure (p \<in> set profiles) (Missing_Profile i p) | None \<Rightarrow> Inr ()) (\<lambda>_.
     map_err Worker_Entry
       (validate_agent_entry (''worker_registry.workers.'' @ i) (Can_Review \<in> set (wk_capabilities w)) (as_agent_entry w)))))))))))))"

section \<open>Routing\<close>

fun validate_rungs :: "string list \<Rightarrow> string \<Rightarrow> string list \<Rightarrow> string list \<Rightarrow> registry_error + unit" where
  "validate_rungs ids class seen [] = Inr ()"
| "validate_rungs ids class seen (i # is) =
     (if i \<notin> set ids then Inl (Ladder_Unknown class i)
      else if i \<in> set seen then Inl (Ladder_Repeat class i)
      else validate_rungs ids class (i # seen) is)"

definition validate_probation :: "(string \<times> registry_worker) list \<Rightarrow> ladder_probation \<Rightarrow> registry_error + unit" where
  "validate_probation workers p =
     (if lp_workers p = [] then Inl Probation_Empty
      else if lp_min_prds p = 0 \<or> lp_max_files p = 0 \<or> lp_max_cost p = 0 \<or> 10000 < lp_min_pass p
              \<or> 10000 < lp_max_remediation p \<or> 10000 < lp_max_failure p then Inl Probation_Bounds
      else check_all (\<lambda>i. case map_of workers i of
          None \<Rightarrow> Inl (Probation_Unknown i)
        | Some w \<Rightarrow> ensure (\<not> (wk_provider w \<noteq> ''local'' \<or> wk_local_profile w = None)) (Probation_Not_Local i)) (lp_workers p))"

definition validate_ladder :: "string set \<Rightarrow> (string \<times> registry_worker) list \<Rightarrow> worker_ladder \<Rightarrow> registry_error + unit" where
  "validate_ladder vocabulary workers l =
     (let ids = map fst workers in
      if 10000 < ld_cheap_fraction l then Inl Ladder_Fraction
      else
        rbind (check_all (\<lambda>(class, rungs). validate_rungs ids class [] rungs)
          [(''implementation'', ld_implementation l), (''remediation'', ld_remediation l), (''review'', ld_review l),
           (''narrow_task'', ld_narrow_task l)]) (\<lambda>_.
        rbind (check_all (\<lambda>(risk, floor).
            if risk \<notin> vocabulary then Inl (Floor_Risk risk)
            else ensure (floor \<in> set ids) (Floor_Worker risk floor)) (ld_risk_floors l)) (\<lambda>_.
        case ld_probation l of None \<Rightarrow> Inr () | Some p \<Rightarrow> validate_probation workers p)))"

text \<open>
  The rules, with the identifiers and the signatures seen so far. The signature is the JSON of the sorted
  classes and of the limit, here the pair itself; an insertion replaces the entry.
\<close>

fun validate_rules ::
    "string set \<Rightarrow> string list \<Rightarrow> string list \<Rightarrow> (string list \<times> u64 option \<Rightarrow> (string \<times> string) option)
     \<Rightarrow> worker_rule list \<Rightarrow> registry_error + unit" where
  "validate_rules vocabulary ids seen signatures [] = Inr ()"
| "validate_rules vocabulary ids seen signatures (r # rs) =
     (if trim (ru_id r) = [] \<or> ru_id r \<in> set seen then Inl (Rule_Id (ru_id r))
      else if ru_worker r \<notin> set ids then Inl (Rule_Unknown (ru_id r) (ru_worker r))
      else if ru_risk_classes r = [] \<and> ru_max_files r = None then Inl (Rule_No_Predicate (ru_id r))
      else
        let classes = remdups (sort (ru_risk_classes r)) in
        rbind (check_all (\<lambda>c.
            if trim c = [] then Inl (Rule_Blank_Class (ru_id r))
            else ensure (c \<in> vocabulary) (Rule_Class (ru_id r) c)) classes) (\<lambda>_.
        let signature = (classes, ru_max_files r) in
        case signatures signature of
          Some (other, worker) \<Rightarrow>
            if worker \<noteq> ru_worker r then Inl (Rule_Contradiction other (ru_id r))
            else validate_rules vocabulary ids (ru_id r # seen) (signatures(signature \<mapsto> (ru_id r, ru_worker r))) rs
        | None \<Rightarrow> validate_rules vocabulary ids (ru_id r # seen) (signatures(signature \<mapsto> (ru_id r, ru_worker r))) rs))"

definition validate_registry :: "string set \<Rightarrow> registry_config \<Rightarrow> registry_error + unit" where
  "validate_registry vocabulary g =
     (if gc_workers g = [] then Inl No_Workers
      else if 100 < gc_coverage_floor g then Inl Coverage_Floor
      else
        rbind (check_all (validate_cost_basis (gc_workers g)) (gc_cost_bases g)) (\<lambda>_.
        rbind (check_all (validate_worker (gc_profiles g)) (gc_workers g)) (\<lambda>_.
        rbind (case ro_ladder (gc_routing g) of None \<Rightarrow> Inr () | Some l \<Rightarrow> validate_ladder vocabulary (gc_workers g) l) (\<lambda>_.
        validate_rules vocabulary (map fst (gc_workers g)) [] (\<lambda>_. None) (ro_rules (gc_routing g))))))"

datatype resolve_error = Unknown_Worker string | Ambiguous_Worker string "(string \<times> string \<times> string \<times> string) list"

definition resolve_worker :: "registry_config \<Rightarrow> string \<Rightarrow> resolve_error + registry_worker" where
  "resolve_worker g address =
     (case map_of (gc_workers g) address of
        Some w \<Rightarrow> Inr w
      | None \<Rightarrow>
        (case filter (\<lambda>(i, w). wk_provider w @ [slash] @ wk_model w = address) (gc_workers g) of
           [] \<Rightarrow> Inl (Unknown_Worker address)
         | [(i, w)] \<Rightarrow> Inr w
         | ws \<Rightarrow> Inl (Ambiguous_Worker address (map (\<lambda>(i, w). (i, wk_provider w,
             case worker_runtime_id w of Inr r \<Rightarrow> r | Inl _ \<Rightarrow> ''invalid'', wk_model w)) ws))))"

section \<open>The legacy agents\<close>

record review_identity =
  vi_adapter_id :: string
  vi_model :: "string option"

datatype agents_error = Agents_Entry "string \<times> entry_error" | Agents_Adapter string string | Agents_Model string string string

definition validate_identity :: "string \<times> agent_entry \<times> review_identity \<Rightarrow> agents_error + unit" where
  "validate_identity = (\<lambda>(role, e, v).
     if vi_adapter_id v \<noteq> adapter_text (en_adapter e) then Inl (Agents_Adapter role (vi_adapter_id v))
     else case (vi_model v, en_model e) of
       (Some a, Some b) \<Rightarrow> ensure (a = b) (Agents_Model role a b) | _ \<Rightarrow> Inr ())"

definition validate_agents ::
    "bool \<Rightarrow> review_identity \<Rightarrow> review_identity \<Rightarrow> agent_entry \<Rightarrow> agent_entry \<Rightarrow> agents_error + unit" where
  "validate_agents review_enabled implementation_id reviewer_id implementation reviewer =
     rbind (map_err Agents_Entry (validate_agent_entry ''implementation'' False implementation)) (\<lambda>_.
     rbind (map_err Agents_Entry (validate_agent_entry ''reviewer'' True reviewer)) (\<lambda>_.
     if review_enabled
     then check_all validate_identity [(''implementation'', implementation, implementation_id), (''reviewer'', reviewer, reviewer_id)]
     else Inr ()))"

end
