(* ===== verification/Worker_Registry.thy ===== *)
theory Worker_Registry
  imports Worker_Validation
begin

text \<open>
  The choice of a worker for a stage: \<open>crates/familiar-ai-agent/src/registry.rs\<close> (\<open>WorkerRegistry\<close>), and the
  plan of all stages with the next stronger worker, \<open>resolved_worker_plan\<close> and \<open>next_implementation_worker\<close>
  of \<open>crates/familiar-ai-daemon/src/run.rs\<close>.

  The capabilities of the two crates are enumerations of the same five values and one type here.
\<close>

section \<open>Registering\<close>

datatype worker_stage = Stage_Plan | Stage_Implement | Stage_Review | Stage_Remediate | Stage_Narrow_Task

definition stage_capability :: "worker_stage \<Rightarrow> worker_capability" where
  "stage_capability s = (case s of Stage_Plan \<Rightarrow> Can_Plan | Stage_Implement \<Rightarrow> Can_Implement | Stage_Review \<Rightarrow> Can_Review
     | Stage_Remediate \<Rightarrow> Can_Remediate | Stage_Narrow_Task \<Rightarrow> Can_Narrow_Task)"

record worker_descriptor =
  wd_id :: string
  wd_spec :: string
  wd_version :: string
  wd_runtime :: string
  wd_provider :: string
  wd_model :: string
  wd_executable :: string
  wd_capabilities :: "worker_capability list"
  wd_isolated :: bool
  wd_context :: u64
  wd_cost :: "u64 option"
  wd_available :: bool
  wd_effort :: "string option"
  wd_permission :: "string option"
  wd_extra_args :: "string list"

record route_rule =
  rr_id :: string
  rr_worker :: string
  rr_risk_classes :: "string list"
  rr_max_files :: "u64 option"

record registered =
  rx_workers :: "(string \<times> worker_descriptor) list"
  rx_rules :: "route_rule list"

definition no_workers :: registered where
  "no_workers = \<lparr>rx_workers = [], rx_rules = []\<rparr>"

datatype register_error =
  Identity_Blank | Label_Model string string bool | Duplicate_Worker
| Rule_Identity_Blank | Rule_Worker_Unknown string string | Rule_Unconstrained string

text \<open>\<open>BTreeMap::insert\<close> on the ordered list of entries.\<close>

fun btree_insert :: "string \<Rightarrow> 'a \<Rightarrow> (string \<times> 'a) list \<Rightarrow> (string \<times> 'a) list" where
  "btree_insert k v [] = [(k, v)]"
| "btree_insert k v ((j, w) # m) =
     (if k < j then (k, v) # (j, w) # m else if k = j then (k, v) # m else (j, w) # btree_insert k v m)"

definition executable_label :: "worker_descriptor \<Rightarrow> string" where
  "executable_label w = map ascii_lower (trim (last (split_char slash (wd_executable w))))"

definition register_worker :: "worker_descriptor \<Rightarrow> registered \<Rightarrow> register_error + registered" where
  "register_worker w reg =
     (if list_ex (\<lambda>s. trim s = []) [wd_id w, wd_runtime w, wd_spec w, wd_version w, wd_provider w, wd_model w, wd_executable w]
      then Inl Identity_Blank
      else
        let model = map ascii_lower (trim (wd_model w)) in
        if model = executable_label w \<or> model = map ascii_lower (trim (wd_provider w))
        then Inl (Label_Model (wd_id w) (wd_model w) (model = executable_label w))
        else if map_of (rx_workers reg) (wd_id w) \<noteq> None then Inl Duplicate_Worker
        else Inr (reg\<lparr>rx_workers := btree_insert (wd_id w) w (rx_workers reg)\<rparr>))"

definition add_rule :: "route_rule \<Rightarrow> registered \<Rightarrow> register_error + registered" where
  "add_rule r reg =
     (if trim (rr_id r) = [] \<or> trim (rr_worker r) = [] then Inl Rule_Identity_Blank
      else if map_of (rx_workers reg) (rr_worker r) = None then Inl (Rule_Worker_Unknown (rr_id r) (rr_worker r))
      else if rr_risk_classes r = [] \<and> rr_max_files r = None then Inl (Rule_Unconstrained (rr_id r))
      else Inr (reg\<lparr>rx_rules := rx_rules reg @ [r]\<rparr>))"

definition resolve_descriptor :: "registered \<Rightarrow> string \<Rightarrow> resolve_error + worker_descriptor" where
  "resolve_descriptor reg address =
     (case map_of (rx_workers reg) address of
        Some w \<Rightarrow> Inr w
      | None \<Rightarrow>
        (case filter (\<lambda>w. wd_provider w @ [slash] @ wd_model w = address) (map snd (rx_workers reg)) of
           [] \<Rightarrow> Inl (Unknown_Worker address)
         | [w] \<Rightarrow> Inr w
         | ws \<Rightarrow> Inl (Ambiguous_Worker address (map (\<lambda>w. (wd_id w, wd_provider w, wd_runtime w, wd_model w)) ws))))"

section \<open>Selecting\<close>

record route_request =
  rq_stage :: worker_stage
  rq_pin :: "string option"
  rq_max_cost :: u64
  rq_context :: u64
  rq_isolation :: bool
  rq_independent :: "(string \<times> string) option"
  rq_risks :: "string list"
  rq_files :: u64

definition rule_matches :: "route_rule \<Rightarrow> route_request \<Rightarrow> bool" where
  "rule_matches r q \<longleftrightarrow>
     (rr_risk_classes r = [] \<or> list_ex (\<lambda>c. c \<in> set (rr_risk_classes r)) (rq_risks q))
   \<and> (case rr_max_files r of None \<Rightarrow> True | Some m \<Rightarrow> rq_files q \<le> m)"

datatype rejection_reason =
  Rej_Unavailable | Rej_Over_Budget | Rej_Incapable | Rej_Context | Rej_Isolation | Rej_Not_Independent
| Rej_Not_Pinned | Rej_Not_Routed

datatype route_error =
  Invalid_Pin resolve_error | Pin_Refused string "rejection_reason list" | No_Eligible_Worker worker_stage
| No_Independent_Reviewer

text \<open>\<open>UnknownPinnedWorker\<close> of the source is never constructed.\<close>

definition rejections :: "route_request \<Rightarrow> string option \<Rightarrow> worker_descriptor \<Rightarrow> rejection_reason list" where
  "rejections q pin w =
     (if pin \<noteq> None \<and> pin \<noteq> Some (wd_id w) then [Rej_Not_Pinned] else [])
     @ (if \<not> wd_available w then [Rej_Unavailable] else [])
     @ (if stage_capability (rq_stage q) \<notin> set (wd_capabilities w) then [Rej_Incapable] else [])
     @ (if 0 < rq_max_cost q \<and> (case wd_cost w of Some c \<Rightarrow> rq_max_cost q < c | None \<Rightarrow> False) then [Rej_Over_Budget] else [])
     @ (if wd_context w < rq_context q then [Rej_Context] else [])
     @ (if rq_isolation q \<and> \<not> wd_isolated w then [Rej_Isolation] else [])
     @ (if rq_independent q = Some (wd_provider w, wd_model w) then [Rej_Not_Independent] else [])"

text \<open>\<open>Iterator::min_by_key\<close>: the first of the least elements.\<close>

fun min_by_key :: "('a \<Rightarrow> 'k::linorder) \<Rightarrow> 'a list \<Rightarrow> 'a option" where
  "min_by_key f [] = None"
| "min_by_key f (x # xs) =
     (case min_by_key f xs of None \<Rightarrow> Some x | Some y \<Rightarrow> if f y < f x then Some y else Some x)"

definition cost_key :: "worker_descriptor \<Rightarrow> bool \<times> u64 \<times> string" where
  "cost_key w = (wd_cost w = None, case wd_cost w of Some c \<Rightarrow> c | None \<Rightarrow> 0, wd_id w)"

datatype deciding_rule = By_Pin | By_Rule string | By_Known_Cost | By_Id | By_Ladder rung_reason

record selection_record =
  sx_stage :: worker_stage
  sx_rule :: deciding_rule
  sx_worker :: string
  sx_spec :: string
  sx_version :: string
  sx_candidates :: "(string \<times> rejection_reason list) list"

definition matched_rule :: "registered \<Rightarrow> route_request \<Rightarrow> (string \<times> rejection_reason list) list \<Rightarrow> route_rule option" where
  "matched_rule reg q candidates =
     (if rq_pin q \<noteq> None then None
      else find (\<lambda>r. rule_matches r q \<and> list_ex (\<lambda>c. fst c = rr_worker r \<and> snd c = []) candidates) (rx_rules reg))"

definition eligible_workers :: "registered \<Rightarrow> (string \<times> rejection_reason list) list \<Rightarrow> worker_descriptor list" where
  "eligible_workers reg candidates =
     List.map_filter (\<lambda>c. if snd c = [] then map_of (rx_workers reg) (fst c) else None) candidates"

text \<open>The candidate of a refused pin is looked up by the pin as written, and unwrapped.\<close>

definition refusal :: "route_request \<Rightarrow> (string \<times> rejection_reason list) list \<Rightarrow> route_error fault" where
  "refusal q candidates =
     (case rq_pin q of
        Some pin \<Rightarrow>
          (case map_of candidates pin of None \<Rightarrow> Panic | Some reasons \<Rightarrow> Err (Pin_Refused pin reasons))
      | None \<Rightarrow>
          if rq_stage q = Stage_Review \<and> rq_independent q \<noteq> None then Err No_Independent_Reviewer
          else Err (No_Eligible_Worker (rq_stage q)))"

definition select_worker :: "registered \<Rightarrow> route_request \<Rightarrow> route_error fault + selection_record" where
  "select_worker reg q =
     rbind (case rq_pin q of
         None \<Rightarrow> Inr None
       | Some pin \<Rightarrow> map_err (\<lambda>e. Err (Invalid_Pin e)) (rbind (resolve_descriptor reg pin) (\<lambda>w. Inr (Some (wd_id w))))) (\<lambda>pin.
     let candidates = map (\<lambda>w. (wd_id w, rejections q pin w)) (map snd (rx_workers reg));
         rule = matched_rule reg q candidates;
         selected = (case rule of
             Some r \<Rightarrow> map_of (rx_workers reg) (rr_worker r)
           | None \<Rightarrow> min_by_key cost_key (eligible_workers reg candidates)) in
     case selected of
       None \<Rightarrow> Inl (refusal q candidates)
     | Some w \<Rightarrow>
       let routed = (case rule of
               Some r \<Rightarrow> map (\<lambda>(i, rej). (i, if i \<noteq> rr_worker r \<and> rej = [] then [Rej_Not_Routed] else rej)) candidates
             | None \<Rightarrow> candidates) in
       Inr \<lparr>sx_stage = rq_stage q,
            sx_rule = (if rq_pin q \<noteq> None then By_Pin
              else case rule of
                Some r \<Rightarrow> By_Rule (rr_id r)
              | None \<Rightarrow> if filter (\<lambda>w. wd_cost w \<noteq> None) (eligible_workers reg routed) = [] then By_Id else By_Known_Cost),
            sx_worker = wd_id w, sx_spec = wd_spec w, sx_version = wd_version w, sx_candidates = routed\<rparr>)"

section \<open>The plan of a run\<close>

record plan_config =
  pc_registry :: "registry_config option"
  pc_vocabulary :: "string list list"
  pc_runtime_enabled :: bool
  pc_review_enabled :: bool

record plan_context =
  px_risks :: "string list"
  px_files :: u64

datatype plan_error =
  Plan_Unconfigured | Plan_No_Implementation | Plan_Invalid registry_error | Plan_Register register_error
| Plan_Select route_error worker_stage "(string \<times> string) list"

definition descriptor_of :: "worker_hashes \<Rightarrow> string \<Rightarrow> registry_worker \<Rightarrow> worker_descriptor" where
  "descriptor_of h i w =
     (let e = as_agent_entry w; invalid = ''invalid/'' @ i in
      \<lparr>wd_id = i,
       wd_spec = (case canonical_spec_identity h w of Inr s \<Rightarrow> s | Inl _ \<Rightarrow> invalid),
       wd_version = (case empirical_version h w of Inr v \<Rightarrow> v | Inl _ \<Rightarrow> invalid),
       wd_runtime = (case worker_runtime_id w of Inr r \<Rightarrow> r | Inl _ \<Rightarrow> adapter_text (en_adapter e)),
       wd_provider = wk_provider w,
       wd_model = (case en_model e of Some m \<Rightarrow> m | None \<Rightarrow> wk_model w),
       wd_executable = (case wk_executable w of Some x \<Rightarrow> x | None \<Rightarrow> default_executable (en_adapter e)),
       wd_capabilities = wk_capabilities w, wd_isolated = wk_isolated w, wd_context = wk_context w, wd_cost = wk_cost w,
       wd_available = wk_available w, wd_effort = map_option effort_text (wk_effort w),
       wd_permission = map_option permission_text (wk_permission w), wd_extra_args = wk_extra_args w\<rparr>)"

text \<open>A worker of the raw-model loop is left out while that runtime is disabled.\<close>

definition runtime_disabled :: "bool \<Rightarrow> registry_worker \<Rightarrow> string option" where
  "runtime_disabled enabled w =
     (if enabled then None
      else case worker_runtime_id w of
        Inr r \<Rightarrow> if r \<in> {''codex'', ''claude-code''} then None else Some r
      | Inl _ \<Rightarrow> None)"

fun register_workers ::
    "worker_hashes \<Rightarrow> bool \<Rightarrow> (string \<times> registry_worker) list \<Rightarrow> registered \<Rightarrow> register_error + registered" where
  "register_workers h enabled [] reg = Inr reg"
| "register_workers h enabled ((i, w) # ws) reg =
     (if runtime_disabled enabled w \<noteq> None then register_workers h enabled ws reg
      else rbind (register_worker (descriptor_of h i w) reg) (register_workers h enabled ws))"

fun add_rules :: "worker_rule list \<Rightarrow> registered \<Rightarrow> register_error + registered" where
  "add_rules [] reg = Inr reg"
| "add_rules (r # rs) reg =
     rbind (add_rule \<lparr>rr_id = ru_id r, rr_worker = ru_worker r, rr_risk_classes = ru_risk_classes r, rr_max_files = ru_max_files r\<rparr> reg)
       (add_rules rs)"

definition skipped_workers :: "bool \<Rightarrow> (string \<times> registry_worker) list \<Rightarrow> (string \<times> string) list" where
  "skipped_workers enabled ws = List.map_filter (\<lambda>(i, w). map_option (Pair i) (runtime_disabled enabled w)) ws"

definition stage_request ::
    "worker_routing \<Rightarrow> plan_context \<Rightarrow> worker_stage \<Rightarrow> string option \<Rightarrow> (string \<times> string) option \<Rightarrow> route_request" where
  "stage_request ro cx stage pin independent =
     \<lparr>rq_stage = stage, rq_pin = pin, rq_max_cost = ro_max_stage_cost ro, rq_context = ro_required_context ro,
      rq_isolation = (stage = Stage_Review), rq_independent = independent, rq_risks = px_risks cx, rq_files = px_files cx\<rparr>"

text \<open>A stage: the ladder gives the pin where none is configured, and then names the rule.\<close>

definition plan_stage ::
    "plan_config \<Rightarrow> registry_config \<Rightarrow> plan_context \<Rightarrow> registered \<Rightarrow> worker_stage \<Rightarrow> ladder_job \<Rightarrow> string option
     \<Rightarrow> (string \<times> string) option \<Rightarrow> plan_error fault + selection_record" where
  "plan_stage c g cx reg stage job pin independent =
     (let rung = (if pin \<noteq> None then None
            else Option.bind (ro_ladder (gc_routing g)) (\<lambda>l. select_rung l job (px_risks cx) (gc_workers g) (gc_cost_bases g)));
          used = (case pin of Some p \<Rightarrow> Some p | None \<Rightarrow> map_option fst rung) in
      rbind (map_err (\<lambda>e. case e of
            Err e' \<Rightarrow> Err (Plan_Select e' stage (skipped_workers (pc_runtime_enabled c) (gc_workers g))) | Panic \<Rightarrow> Panic)
          (select_worker reg (stage_request (gc_routing g) cx stage used independent))) (\<lambda>s.
      Inr (case rung of None \<Rightarrow> s | Some (_, reason) \<Rightarrow> s\<lparr>sx_rule := By_Ladder reason\<rparr>)))"

definition prepare_registry :: "worker_hashes \<Rightarrow> plan_config \<Rightarrow> plan_error + registry_config \<times> registered" where
  "prepare_registry h c =
     (case pc_registry c of
        None \<Rightarrow> Inl Plan_Unconfigured
      | Some g \<Rightarrow>
        rbind (map_err Plan_Invalid (validate_registry (set (concat (pc_vocabulary c))) g)) (\<lambda>_.
        rbind (map_err Plan_Register (rbind (register_workers h (pc_runtime_enabled c) (gc_workers g) no_workers)
                 (add_rules (ro_rules (gc_routing g))))) (\<lambda>reg. Inr (g, reg))))"

text \<open>An index that is not in the map, and \<open>unwrap\<close> on it, panic.\<close>

definition at_key :: "(string \<times> 'a) list \<Rightarrow> string \<Rightarrow> 'e fault + 'a" where
  "at_key m k = ok_or Panic (map_of m k)"

definition resolved_worker_plan ::
    "worker_hashes \<Rightarrow> plan_config \<Rightarrow> plan_context \<Rightarrow> plan_error fault + agent_entry \<times> agent_entry \<times> selection_record list" where
  "resolved_worker_plan h c cx =
     rbind (map_err Err (prepare_registry h c)) (\<lambda>(g, reg).
     let ro = gc_routing g in
     rbind (plan_stage c g cx reg Stage_Implement Job_Implementation (ro_implementation_pin ro) None) (\<lambda>implementation.
     rbind (at_key (rx_workers reg) (sx_worker implementation)) (\<lambda>worker.
     rbind (plan_stage c g cx reg Stage_Remediate Job_Remediation (ro_remediation_pin ro) None) (\<lambda>remediation.
     rbind (if pc_review_enabled c
            then rbind (plan_stage c g cx reg Stage_Review Job_Review (ro_review_pin ro)
                    (Some (wd_provider worker, wd_model worker))) (\<lambda>r. Inr (Some r))
            else Inr None) (\<lambda>review.
     rbind (at_key (gc_workers g) (sx_worker implementation)) (\<lambda>iw.
     rbind (at_key (gc_workers g) (case review of Some r \<Rightarrow> sx_worker r | None \<Rightarrow> sx_worker implementation)) (\<lambda>rw.
     Inr (as_agent_entry iw, as_agent_entry rw,
          [implementation, remediation] @ (case review of Some r \<Rightarrow> [r] | None \<Rightarrow> [])))))))))"

definition stronger_worker :: "worker_routing \<Rightarrow> u64 \<Rightarrow> registry_worker \<Rightarrow> bool" where
  "stronger_worker ro current w \<longleftrightarrow>
     wk_available w \<and> Can_Implement \<in> set (wk_capabilities w) \<and> ro_required_context ro \<le> wk_context w
   \<and> (case wk_cost w of Some c \<Rightarrow> (ro_max_stage_cost ro = 0 \<or> c \<le> ro_max_stage_cost ro) \<and> current < c | None \<Rightarrow> False)"

definition next_implementation_worker ::
    "worker_hashes \<Rightarrow> plan_config \<Rightarrow> plan_context \<Rightarrow> plan_error fault + (string \<times> agent_entry) option" where
  "next_implementation_worker h c cx =
     (case pc_registry c of
        None \<Rightarrow> Inr None
      | Some g \<Rightarrow>
        if ro_implementation_pin (gc_routing g) \<noteq> None then Inr None
        else rbind (resolved_worker_plan h c cx) (\<lambda>(_, _, records).
          case find (\<lambda>s. sx_stage s = Stage_Implement) records of
            None \<Rightarrow> Inl (Err Plan_No_Implementation)
          | Some selected \<Rightarrow>
            rbind (at_key (gc_workers g) (sx_worker selected)) (\<lambda>w.
            case wk_cost w of
              None \<Rightarrow> Inr None
            | Some current \<Rightarrow>
              Inr (map_option (\<lambda>(i, s). (i, as_agent_entry s))
                (min_by_key (\<lambda>(i, s). (wk_cost s, i)) (filter (\<lambda>(i, s). stronger_worker (gc_routing g) current s) (gc_workers g)))))))"

text \<open>The registry of a host that configures neither workers nor agents; it enables the raw-model loop if it needs it.\<close>

definition host_registry :: "string \<Rightarrow> registry_worker \<Rightarrow> registry_config" where
  "host_registry i w =
     \<lparr>gc_workers = [(i, w)], gc_profiles = [],
      gc_routing = default_routing\<lparr>ro_implementation_pin := Some i, ro_review_pin := Some i, ro_remediation_pin := Some i\<rparr>,
      gc_cost_bases = [], gc_coverage_floor = 80\<rparr>"

definition materialize_host_worker :: "host_facts \<Rightarrow> bool \<Rightarrow> plan_config \<Rightarrow> plan_config option" where
  "materialize_host_worker f agents_configured c =
     (if pc_registry c \<noteq> None \<or> agents_configured then Some c
      else case selected_host_worker f of
        None \<Rightarrow> None
      | Some (i, w) \<Rightarrow> Some (c\<lparr>
          pc_runtime_enabled := (pc_runtime_enabled c \<or> worker_runtime_id w \<notin> {Inr ''codex'', Inr ''claude-code''}),
          pc_registry := Some (host_registry i w)\<rparr>))"

end
