(* ===== verification/Worker_Guarantees.thy ===== *)
theory Worker_Guarantees
  imports Worker_Registry
begin

text \<open>
  What the selection of workers guarantees: a selected worker meets every constraint of the request and is
  the first by cost, or the target of the first route rule that applies; a plan has a reviewer that is
  independent of the implementer; and the cases in which the selection fails or panics.
\<close>

section \<open>The registry\<close>

definition registered_ok :: "registered \<Rightarrow> bool" where
  "registered_ok reg \<longleftrightarrow> distinct (map fst (rx_workers reg)) \<and> (\<forall>(k, w)\<in>set (rx_workers reg). wd_id w = k)"

lemma set_btree_insert: "map_of m k = None \<Longrightarrow> set (btree_insert k v m) = insert (k, v) (set m)"
  by (induction k v m rule: btree_insert.induct) (auto split: if_splits)

lemma distinct_btree_insert: "map_of m k = None \<Longrightarrow> distinct (map fst m) \<Longrightarrow> distinct (map fst (btree_insert k v m))"
proof (induction k v m rule: btree_insert.induct)
  case (2 k v j w m)
  then show ?case by (auto simp: map_of_eq_None_iff set_btree_insert split: if_splits)
qed simp

lemma register_worker_Inr:
  assumes "register_worker w reg = Inr reg'"
  shows "map_of (rx_workers reg) (wd_id w) = None \<and> reg' = reg\<lparr>rx_workers := btree_insert (wd_id w) w (rx_workers reg)\<rparr>"
  using assms by (auto simp: register_worker_def Let_def split: if_splits)

lemma descriptor_of_sel [simp]:
  "wd_id (descriptor_of h i w) = i" "wd_provider (descriptor_of h i w) = wk_provider w"
  "wd_capabilities (descriptor_of h i w) = wk_capabilities w" "wd_cost (descriptor_of h i w) = wk_cost w"
  "wd_available (descriptor_of h i w) = wk_available w" "wd_context (descriptor_of h i w) = wk_context w"
  "wd_isolated (descriptor_of h i w) = wk_isolated w"
  by (simp_all add: descriptor_of_def Let_def)

lemma register_workers_ok:
  assumes "register_workers h enabled ws reg = Inr reg'" "registered_ok reg"
  shows "registered_ok reg' \<and> rx_rules reg' = rx_rules reg
    \<and> set (rx_workers reg') = set (rx_workers reg) \<union> {(i, descriptor_of h i w) |i w. (i, w) \<in> set ws \<and> runtime_disabled enabled w = None}"
  using assms
proof (induction h enabled ws reg rule: register_workers.induct)
  case (2 h enabled i w ws reg)
  show ?case
  proof (cases "runtime_disabled enabled w = None")
    case False
    then have "register_workers h enabled ws reg = Inr reg'" using "2.prems"(1) by simp
    from "2.IH"(1)[OF False this "2.prems"(2)] False show ?thesis by auto
  next
    case True
    then obtain mid where mid: "register_worker (descriptor_of h i w) reg = Inr mid" "register_workers h enabled ws mid = Inr reg'"
      using "2.prems"(1) by (auto simp: rbind_Inr_iff)
    then have fresh: "map_of (rx_workers reg) i = None"
      and m: "mid = reg\<lparr>rx_workers := btree_insert i (descriptor_of h i w) (rx_workers reg)\<rparr>"
      using register_worker_Inr by force+
    have "registered_ok mid"
      using "2.prems"(2) fresh by (auto simp: registered_ok_def m set_btree_insert distinct_btree_insert)
    from "2.IH"(2)[of mid, OF _ mid(2) this] True show ?thesis by (auto simp: m set_btree_insert[OF fresh])
  qed
qed simp

lemma add_rules_ok:
  assumes "add_rules rs reg = Inr reg'"
  shows "rx_workers reg' = rx_workers reg \<and> (\<forall>r\<in>set rs. map_of (rx_workers reg) (ru_worker r) \<noteq> None)"
  using assms
proof (induction rs reg rule: add_rules.induct)
  case (2 r rs reg)
  then obtain mid where mid: "add_rule \<lparr>rr_id = ru_id r, rr_worker = ru_worker r, rr_risk_classes = ru_risk_classes r,
      rr_max_files = ru_max_files r\<rparr> reg = Inr mid" "add_rules rs mid = Inr reg'"
    by (auto simp: rbind_Inr_iff)
  then have "rx_workers mid = rx_workers reg" "map_of (rx_workers reg) (ru_worker r) \<noteq> None"
    by (auto simp: add_rule_def split: if_splits)
  then show ?case using "2.IH"[OF mid(2)] by simp
qed simp

lemma prepare_registry_ok:
  assumes "prepare_registry h c = Inr (g, reg)"
  shows "pc_registry c = Some g \<and> registered_ok reg
    \<and> set (rx_workers reg) = {(i, descriptor_of h i w) |i w. (i, w) \<in> set (gc_workers g) \<and> runtime_disabled (pc_runtime_enabled c) w = None}
    \<and> (\<forall>r\<in>set (ro_rules (gc_routing g)). map_of (rx_workers reg) (ru_worker r) \<noteq> None)"
proof -
  obtain mid where g: "pc_registry c = Some g"
    and reg: "register_workers h (pc_runtime_enabled c) (gc_workers g) no_workers = Inr mid"
    and rules: "add_rules (ro_rules (gc_routing g)) mid = Inr reg"
    using assms by (auto simp: prepare_registry_def result_simps split: option.splits)
  have "registered_ok no_workers" by (simp add: registered_ok_def no_workers_def)
  from register_workers_ok[OF reg this] add_rules_ok[OF rules] g show ?thesis
    by (auto simp: registered_ok_def no_workers_def)
qed

section \<open>Selection\<close>

definition suitable :: "route_request \<Rightarrow> worker_descriptor \<Rightarrow> bool" where
  "suitable q w \<longleftrightarrow>
     wd_available w \<and> stage_capability (rq_stage q) \<in> set (wd_capabilities w)
   \<and> (\<forall>c. 0 < rq_max_cost q \<and> wd_cost w = Some c \<longrightarrow> c \<le> rq_max_cost q)
   \<and> rq_context q \<le> wd_context w \<and> (rq_isolation q \<longrightarrow> wd_isolated w)
   \<and> rq_independent q \<noteq> Some (wd_provider w, wd_model w)"

lemma rejections_Nil_iff: "rejections q pin w = [] \<longleftrightarrow> (pin = None \<or> pin = Some (wd_id w)) \<and> suitable q w"
  by (auto simp: rejections_def suitable_def not_less split: option.splits if_splits)

lemma min_by_key_None_iff: "min_by_key f xs = None \<longleftrightarrow> xs = []"
  by (cases xs) (auto split: option.splits)

lemma min_by_key_Some: "min_by_key f xs = Some y \<Longrightarrow> y \<in> set xs \<and> (\<forall>x\<in>set xs. f y \<le> f x)"
proof (induction xs arbitrary: y)
  case (Cons x xs)
  show ?case
  proof (cases "min_by_key f xs")
    case None
    then show ?thesis using Cons.prems by (simp add: min_by_key_None_iff)
  next
    case (Some z)
    then show ?thesis using Cons by (auto split: if_splits)
  qed
qed simp

lemma map_of_registered:
  assumes "registered_ok reg"
  shows "map_of (rx_workers reg) i = Some w \<longleftrightarrow> w \<in> snd ` set (rx_workers reg) \<and> wd_id w = i"
proof
  assume "map_of (rx_workers reg) i = Some w"
  then have "(i, w) \<in> set (rx_workers reg)" by (rule map_of_SomeD)
  then show "w \<in> snd ` set (rx_workers reg) \<and> wd_id w = i" using assms by (force simp: registered_ok_def)
next
  assume a: "w \<in> snd ` set (rx_workers reg) \<and> wd_id w = i"
  then obtain k where "(k, w) \<in> set (rx_workers reg)" by auto
  moreover from this a have "k = i" using assms by (force simp: registered_ok_def)
  ultimately show "map_of (rx_workers reg) i = Some w" using assms by (simp add: registered_ok_def)
qed

text \<open>The candidates of a request, and the workers among them that are eligible.\<close>

definition candidates_of :: "registered \<Rightarrow> route_request \<Rightarrow> string option \<Rightarrow> (string \<times> rejection_reason list) list" where
  "candidates_of reg q pin = map (\<lambda>w. (wd_id w, rejections q pin w)) (map snd (rx_workers reg))"

lemma eligible_candidates:
  assumes "registered_ok reg"
  shows "set (eligible_workers reg (candidates_of reg q pin))
    = {w \<in> snd ` set (rx_workers reg). (pin = None \<or> pin = Some (wd_id w)) \<and> suitable q w}"
proof -
  have m: "map_of (rx_workers reg) (wd_id w) = Some w" if "w \<in> snd ` set (rx_workers reg)" for w
    using map_of_registered[OF assms] that by blast
  have "set (eligible_workers reg (map (\<lambda>w. (wd_id w, rejections q pin w)) ws)) = {w \<in> set ws. rejections q pin w = []}"
    if "set ws \<subseteq> snd ` set (rx_workers reg)" for ws
    using that
  proof (induction ws)
    case (Cons w ws)
    then show ?case using m[of w] by (auto simp: eligible_workers_def map_filter_simps)
  qed (simp add: eligible_workers_def map_filter_simps)
  from this[of "map snd (rx_workers reg)"] show ?thesis
    by (simp add: candidates_of_def rejections_Nil_iff)
qed

lemma matched_rule_Some:
  assumes "registered_ok reg" "matched_rule reg q (candidates_of reg q pin) = Some r"
  shows "rq_pin q = None \<and> r \<in> set (rx_rules reg) \<and> rule_matches r q
    \<and> (\<exists>w. map_of (rx_workers reg) (rr_worker r) = Some w \<and> (pin = None \<or> pin = Some (wd_id w)) \<and> suitable q w)"
proof -
  have f: "rq_pin q = None" "find (\<lambda>r. rule_matches r q \<and> list_ex (\<lambda>c. fst c = rr_worker r \<and> snd c = [])
      (candidates_of reg q pin)) (rx_rules reg) = Some r"
    using assms(2) by (auto simp: matched_rule_def split: if_splits)
  have r: "r \<in> set (rx_rules reg)" "rule_matches r q" "list_ex (\<lambda>c. fst c = rr_worker r \<and> snd c = []) (candidates_of reg q pin)"
    using find_SomeD[OF f(2)] by auto
  then obtain w where w: "w \<in> snd ` set (rx_workers reg)" "wd_id w = rr_worker r" "rejections q pin w = []"
    by (auto simp: list_ex_iff candidates_of_def)
  then have "map_of (rx_workers reg) (rr_worker r) = Some w" using map_of_registered[OF assms(1)] by blast
  then show ?thesis using f(1) r w(3) by (auto simp: rejections_Nil_iff)
qed

text \<open>The pin as \<open>select\<close> resolves it.\<close>

definition resolved_pin :: "registered \<Rightarrow> route_request \<Rightarrow> resolve_error + string option" where
  "resolved_pin reg q =
     (case rq_pin q of None \<Rightarrow> Inr None | Some p \<Rightarrow> rbind (resolve_descriptor reg p) (\<lambda>w. Inr (Some (wd_id w))))"

definition chosen :: "registered \<Rightarrow> route_request \<Rightarrow> string option \<Rightarrow> worker_descriptor option" where
  "chosen reg q pin =
     (case matched_rule reg q (candidates_of reg q pin) of
        Some r \<Rightarrow> map_of (rx_workers reg) (rr_worker r)
      | None \<Rightarrow> min_by_key cost_key (eligible_workers reg (candidates_of reg q pin)))"

lemma select_worker_cases:
  "select_worker reg q = Inl e \<longleftrightarrow>
     (\<exists>e'. resolved_pin reg q = Inl e' \<and> e = Err (Invalid_Pin e'))
   \<or> (\<exists>pin. resolved_pin reg q = Inr pin \<and> chosen reg q pin = None \<and> e = refusal q (candidates_of reg q pin))"
  "select_worker reg q = Inr s \<Longrightarrow> \<exists>pin w. resolved_pin reg q = Inr pin \<and> chosen reg q pin = Some w
     \<and> sx_stage s = rq_stage q \<and> sx_worker s = wd_id w \<and> sx_spec s = wd_spec w \<and> sx_version s = wd_version w"
proof -
  have pin: "(case rq_pin q of None \<Rightarrow> Inr None
       | Some pin \<Rightarrow> map_err (\<lambda>e. Err (Invalid_Pin e)) (rbind (resolve_descriptor reg pin) (\<lambda>w. Inr (Some (wd_id w)))))
    = map_err (\<lambda>e. Err (Invalid_Pin e)) (resolved_pin reg q)"
    by (simp add: resolved_pin_def split: option.splits)
  show "select_worker reg q = Inl e \<longleftrightarrow>
     (\<exists>e'. resolved_pin reg q = Inl e' \<and> e = Err (Invalid_Pin e'))
   \<or> (\<exists>pin. resolved_pin reg q = Inr pin \<and> chosen reg q pin = None \<and> e = refusal q (candidates_of reg q pin))"
    unfolding select_worker_def pin Let_def candidates_of_def[symmetric]
    by (cases "resolved_pin reg q") (auto simp: chosen_def split: option.splits)
  show "select_worker reg q = Inr s \<Longrightarrow> \<exists>pin w. resolved_pin reg q = Inr pin \<and> chosen reg q pin = Some w
     \<and> sx_stage s = rq_stage q \<and> sx_worker s = wd_id w \<and> sx_spec s = wd_spec w \<and> sx_version s = wd_version w"
    unfolding select_worker_def pin Let_def candidates_of_def[symmetric]
    by (cases "resolved_pin reg q") (auto simp: chosen_def split: option.splits)
qed

lemma chosen_Some:
  assumes "registered_ok reg" "chosen reg q pin = Some w"
  shows "map_of (rx_workers reg) (wd_id w) = Some w \<and> (pin = None \<or> pin = Some (wd_id w)) \<and> suitable q w
    \<and> ((\<exists>r\<in>set (rx_rules reg). rq_pin q = None \<and> rule_matches r q \<and> rr_worker r = wd_id w)
       \<or> (\<forall>v\<in>snd ` set (rx_workers reg). suitable q v \<and> (pin = None \<or> pin = Some (wd_id v)) \<longrightarrow> cost_key w \<le> cost_key v))"
proof (cases "matched_rule reg q (candidates_of reg q pin)")
  case (Some r)
  then have "map_of (rx_workers reg) (rr_worker r) = Some w" using assms(2) by (simp add: chosen_def)
  moreover from this have "wd_id w = rr_worker r" using map_of_registered[OF assms(1)] by blast
  ultimately show ?thesis using matched_rule_Some[OF assms(1) Some] by auto
next
  case None
  then have m: "min_by_key cost_key (eligible_workers reg (candidates_of reg q pin)) = Some w" using assms(2) by (simp add: chosen_def)
  have w: "w \<in> snd ` set (rx_workers reg)" "pin = None \<or> pin = Some (wd_id w)" "suitable q w"
    using min_by_key_Some[OF m] eligible_candidates[OF assms(1), of q pin] by auto
  then have "map_of (rx_workers reg) (wd_id w) = Some w" using map_of_registered[OF assms(1)] by blast
  then show ?thesis using w min_by_key_Some[OF m] eligible_candidates[OF assms(1), of q pin] by blast
qed

lemma chosen_None_iff:
  assumes "registered_ok reg"
  shows "chosen reg q pin = None \<longleftrightarrow>
    (\<forall>w\<in>snd ` set (rx_workers reg). \<not> ((pin = None \<or> pin = Some (wd_id w)) \<and> suitable q w))"
proof (cases "matched_rule reg q (candidates_of reg q pin)")
  case (Some r)
  then obtain w where w: "map_of (rx_workers reg) (rr_worker r) = Some w" "pin = None \<or> pin = Some (wd_id w)" "suitable q w"
    using matched_rule_Some[OF assms] by blast
  then have "w \<in> snd ` set (rx_workers reg)" using map_of_registered[OF assms] by blast
  then show ?thesis using w Some by (auto simp: chosen_def)
next
  case None
  then have "chosen reg q pin = None \<longleftrightarrow> eligible_workers reg (candidates_of reg q pin) = []"
    by (simp add: chosen_def min_by_key_None_iff)
  also have "\<dots> \<longleftrightarrow> set (eligible_workers reg (candidates_of reg q pin)) = {}" by simp
  finally show ?thesis unfolding eligible_candidates[OF assms] by blast
qed

lemma resolve_registered:
  assumes "resolve_descriptor reg p = Inr w"
  shows "w \<in> snd ` set (rx_workers reg)"
proof (cases "map_of (rx_workers reg) p")
  case (Some v)
  then have "v = w" using assms by (simp add: resolve_descriptor_def)
  then show ?thesis using map_of_SomeD[OF Some] by force
next
  case None
  then have "filter (\<lambda>w. wd_provider w @ [slash] @ wd_model w = p) (map snd (rx_workers reg)) = [w]"
    using assms by (simp add: resolve_descriptor_def split: list.splits)
  then have "w \<in> set (filter (\<lambda>w. wd_provider w @ [slash] @ wd_model w = p) (map snd (rx_workers reg)))" by simp
  then show ?thesis by simp
qed

lemma registered_unique:
  assumes "registered_ok reg" "v \<in> snd ` set (rx_workers reg)" "w \<in> snd ` set (rx_workers reg)" "wd_id v = wd_id w"
  shows "v = w"
proof -
  have "map_of (rx_workers reg) (wd_id w) = Some v" "map_of (rx_workers reg) (wd_id w) = Some w"
    using map_of_registered[OF assms(1)] assms(2-4) by auto
  then show ?thesis by simp
qed

lemma chosen_pinned_None:
  assumes "registered_ok reg" "w \<in> snd ` set (rx_workers reg)"
  shows "chosen reg q (Some (wd_id w)) = None \<longleftrightarrow> \<not> suitable q w"
proof -
  have "v = w" if "v \<in> snd ` set (rx_workers reg)" "wd_id w = wd_id v" for v
    using registered_unique[OF assms(1) that(1) assms(2)] that(2) by simp
  then show ?thesis unfolding chosen_None_iff[OF assms(1)] using assms(2) by (metis option.distinct(1) option.inject)
qed

lemma selected_worker:
  assumes "registered_ok reg" "select_worker reg q = Inr s"
  shows "\<exists>w. map_of (rx_workers reg) (sx_worker s) = Some w \<and> suitable q w
    \<and> (\<forall>p. rq_pin q = Some p \<longrightarrow> resolve_descriptor reg p = Inr w)
    \<and> (rq_pin q = None \<longrightarrow> (\<exists>r\<in>set (rx_rules reg). rule_matches r q \<and> rr_worker r = sx_worker s)
         \<or> (\<forall>v\<in>snd ` set (rx_workers reg). suitable q v \<longrightarrow> cost_key w \<le> cost_key v))"
proof -
  obtain pin w where p: "resolved_pin reg q = Inr pin" and w: "chosen reg q pin = Some w" and s: "sx_worker s = wd_id w"
    using select_worker_cases(2)[OF assms(2)] by blast
  note c = chosen_Some[OF assms(1) w]
  have pinned: "resolve_descriptor reg x = Inr w" if x: "rq_pin q = Some x" for x
  proof -
    obtain v where v: "resolve_descriptor reg x = Inr v" "pin = Some (wd_id v)"
      using p x by (auto simp: resolved_pin_def result_simps)
    have "v \<in> snd ` set (rx_workers reg)" using v(1) by (rule resolve_registered)
    then have "map_of (rx_workers reg) (wd_id v) = Some v" using map_of_registered[OF assms(1)] by blast
    then show ?thesis using c v by auto
  qed
  show ?thesis
  proof (intro exI[of _ w] conjI allI impI)
    show "map_of (rx_workers reg) (sx_worker s) = Some w" "suitable q w" using c s by auto
    show "resolve_descriptor reg x = Inr w" if "rq_pin q = Some x" for x using pinned[OF that] .
    assume none: "rq_pin q = None"
    then have "pin = None" using p by (simp add: resolved_pin_def)
    then show "(\<exists>r\<in>set (rx_rules reg). rule_matches r q \<and> rr_worker r = sx_worker s)
         \<or> (\<forall>v\<in>snd ` set (rx_workers reg). suitable q v \<longrightarrow> cost_key w \<le> cost_key v)"
      using c s by auto
  qed
qed

text \<open>
  C23: a selected worker is registered and meets the request: it is available, capable of the stage, within
  the cost ceiling as far as its cost is known, has the context, is isolated if that is required and differs
  from the identity it must be independent of. A pin is obeyed; without one the worker is the target of a
  route rule that matches, or none that meets the request is cheaper, unknown costs counting as dearest.
\<close>

theorem selected_worker_meets_request:
  assumes "registered_ok reg" "select_worker reg q = Inr s"
  shows "\<exists>w. map_of (rx_workers reg) (sx_worker s) = Some w \<and> suitable q w
    \<and> (\<forall>p. rq_pin q = Some p \<longrightarrow> resolve_descriptor reg p = Inr w)
    \<and> (rq_pin q = None \<longrightarrow> (\<exists>r\<in>set (rx_rules reg). rule_matches r q \<and> rr_worker r = sx_worker s)
         \<or> (\<forall>v\<in>snd ` set (rx_workers reg). suitable q v \<longrightarrow> cost_key w \<le> cost_key v))"
  by (rule selected_worker[OF assms])

text \<open>
  C24: the selection panics exactly when a worker is pinned by its alias \<open>provider/model\<close> and does not meet
  the request: the refusal is looked up under the pin as written, and there is no candidate of that name.
\<close>

theorem selection_panics_iff:
  assumes "registered_ok reg"
  shows "select_worker reg q = Inl Panic \<longleftrightarrow>
    (\<exists>p w. rq_pin q = Some p \<and> map_of (rx_workers reg) p = None \<and> resolve_descriptor reg p = Inr w \<and> \<not> suitable q w)"
proof -
  have look: "map_of (candidates_of reg q pin) p = None \<longleftrightarrow> map_of (rx_workers reg) p = None" for pin p
  proof -
    have "fst ` set (candidates_of reg q pin) = fst ` set (rx_workers reg)"
      using assms by (force simp: candidates_of_def registered_ok_def image_iff)
    then show ?thesis by (simp add: map_of_eq_None_iff)
  qed
  have "Panic = refusal q (candidates_of reg q pin) \<longleftrightarrow> (\<exists>p. rq_pin q = Some p \<and> map_of (rx_workers reg) p = None)" for pin
  proof (cases "rq_pin q")
    case (Some p)
    then show ?thesis using look[of pin p] by (cases "map_of (candidates_of reg q pin) p") (auto simp: refusal_def)
  qed (simp add: refusal_def)
  then have "select_worker reg q = Inl Panic \<longleftrightarrow> (\<exists>pin. resolved_pin reg q = Inr pin \<and> chosen reg q pin = None
      \<and> (\<exists>p. rq_pin q = Some p \<and> map_of (rx_workers reg) p = None))"
    unfolding select_worker_cases(1) by auto
  also have "\<dots> \<longleftrightarrow> (\<exists>p w. rq_pin q = Some p \<and> map_of (rx_workers reg) p = None \<and> resolve_descriptor reg p = Inr w
      \<and> chosen reg q (Some (wd_id w)) = None)"
    by (auto simp: resolved_pin_def result_simps)
  also have "\<dots> \<longleftrightarrow> (\<exists>p w. rq_pin q = Some p \<and> map_of (rx_workers reg) p = None \<and> resolve_descriptor reg p = Inr w \<and> \<not> suitable q w)"
    using chosen_pinned_None[OF assms resolve_registered] by (intro ex_cong1 conj_cong) auto
  finally show ?thesis .
qed

section \<open>Plans\<close>

text \<open>What a stage of a plan selected.\<close>

definition stage_selected ::
    "worker_hashes \<Rightarrow> plan_config \<Rightarrow> plan_context \<Rightarrow> worker_stage \<Rightarrow> (string \<times> string) option \<Rightarrow> selection_record
     \<Rightarrow> registry_worker \<Rightarrow> bool" where
  "stage_selected h c cx stage independent s w \<longleftrightarrow>
     sx_stage s = stage
   \<and> (\<exists>g. pc_registry c = Some g \<and> (sx_worker s, w) \<in> set (gc_workers g) \<and> runtime_disabled (pc_runtime_enabled c) w = None
        \<and> (\<exists>pin. suitable (stage_request (gc_routing g) cx stage pin independent) (descriptor_of h (sx_worker s) w)))"

lemma plan_stage_selected:
  assumes "prepare_registry h c = Inr (g, reg)" "plan_stage c g cx reg stage job pin independent = Inr s"
  shows "\<exists>w. map_of (rx_workers reg) (sx_worker s) = Some (descriptor_of h (sx_worker s) w) \<and> stage_selected h c cx stage independent s w"
proof -
  note p = prepare_registry_ok[OF assms(1)]
  obtain used s' where s': "select_worker reg (stage_request (gc_routing g) cx stage used independent) = Inr s'"
    and s: "sx_worker s = sx_worker s'" "sx_stage s = sx_stage s'"
    using assms(2) by (auto simp: plan_stage_def Let_def result_simps split: option.splits)
  obtain v where v: "map_of (rx_workers reg) (sx_worker s') = Some v"
      "suitable (stage_request (gc_routing g) cx stage used independent) v"
    using selected_worker[OF _ s'] p by blast
  have "(sx_worker s', v) \<in> set (rx_workers reg)" using v(1) by (rule map_of_SomeD)
  then obtain w where w: "v = descriptor_of h (sx_worker s') w" "(sx_worker s', w) \<in> set (gc_workers g)"
      "runtime_disabled (pc_runtime_enabled c) w = None"
    using p by auto
  have "sx_stage s = stage" using select_worker_cases(2)[OF s'] s by (auto simp: stage_request_def)
  then show ?thesis using v w s p unfolding stage_selected_def by auto
qed

lemma map_of_at:
  assumes "distinct (map fst m)" "(i, w) \<in> set m" "map_of m i = Some v"
  shows "v = w"
  using assms by simp

text \<open>
  C25: a plan that comes out has a worker for the implementation and for the remediation, each available and
  capable, within ceiling and context and not excluded by a disabled runtime; and with review enabled it has
  an isolated reviewer whose provider and model are not both those of the implementer. The agents of the plan
  are those of the selected workers, and without review the implementer takes the place of the reviewer.
\<close>

theorem plan_reviewer_is_independent:
  assumes "resolved_worker_plan h c cx = Inr (implementer, reviewer, records)"
    and "\<And>g. pc_registry c = Some g \<Longrightarrow> distinct (map fst (gc_workers g))"
  shows "\<exists>s w t v. stage_selected h c cx Stage_Implement None s w \<and> implementer = as_agent_entry w
    \<and> stage_selected h c cx Stage_Remediate None t v
    \<and> (if pc_review_enabled c
       then \<exists>u r. records = [s, t, u] \<and> reviewer = as_agent_entry r \<and> wk_isolated r
          \<and> stage_selected h c cx Stage_Review (Some (wk_provider w, wd_model (descriptor_of h (sx_worker s) w))) u r
          \<and> (wk_provider r, wd_model (descriptor_of h (sx_worker u) r)) \<noteq> (wk_provider w, wd_model (descriptor_of h (sx_worker s) w))
       else records = [s, t] \<and> reviewer = implementer)"
proof -
  obtain g reg s d t rv iw rw where prep: "prepare_registry h c = Inr (g, reg)"
    and s: "plan_stage c g cx reg Stage_Implement Job_Implementation (ro_implementation_pin (gc_routing g)) None = Inr s"
    and d: "map_of (rx_workers reg) (sx_worker s) = Some d"
    and t: "plan_stage c g cx reg Stage_Remediate Job_Remediation (ro_remediation_pin (gc_routing g)) None = Inr t"
    and rv: "(if pc_review_enabled c then rbind (plan_stage c g cx reg Stage_Review Job_Review (ro_review_pin (gc_routing g))
        (Some (wd_provider d, wd_model d))) (\<lambda>r. Inr (Some r)) else Inr None) = Inr rv"
    and iw: "map_of (gc_workers g) (sx_worker s) = Some iw"
    and rw: "map_of (gc_workers g) (case rv of Some r \<Rightarrow> sx_worker r | None \<Rightarrow> sx_worker s) = Some rw"
    and out: "implementer = as_agent_entry iw" "reviewer = as_agent_entry rw"
      "records = [s, t] @ (case rv of Some r \<Rightarrow> [r] | None \<Rightarrow> [])"
    using assms(1) by (auto simp: resolved_worker_plan_def result_simps at_key_def Let_def)
  have g: "pc_registry c = Some g" using prepare_registry_ok[OF prep] by blast
  note dist = assms(2)[OF g]
  obtain w where w: "map_of (rx_workers reg) (sx_worker s) = Some (descriptor_of h (sx_worker s) w)" "stage_selected h c cx Stage_Implement None s w"
    using plan_stage_selected[OF prep s] by blast
  obtain v where v: "stage_selected h c cx Stage_Remediate None t v" using plan_stage_selected[OF prep t] by blast
  have member: "(sx_worker x, y) \<in> set (gc_workers g)" if "stage_selected h c cx stage ind x y" for stage ind x y
    using that g by (auto simp: stage_selected_def)
  have d': "d = descriptor_of h (sx_worker s) w" using d w(1) by simp
  have iw': "iw = w" using map_of_at[OF dist member[OF w(2)] iw] .
  show ?thesis
  proof (cases "pc_review_enabled c")
    case False
    then have "rv = None" using rv by simp
    then have "rw = w" using map_of_at[OF dist member[OF w(2)]] rw by simp
    then show ?thesis using False w(2) v out iw' \<open>rv = None\<close> by (intro exI[of _ s] exI[of _ w] exI[of _ t] exI[of _ v]) simp
  next
    case True
    then obtain u where u: "rv = Some u"
      "plan_stage c g cx reg Stage_Review Job_Review (ro_review_pin (gc_routing g)) (Some (wd_provider d, wd_model d)) = Inr u"
      using rv by (auto simp: result_simps)
    obtain r where r: "stage_selected h c cx Stage_Review (Some (wd_provider d, wd_model d)) u r"
      using plan_stage_selected[OF prep u(2)] by blast
    have "rw = r" using map_of_at[OF dist member[OF r]] rw u(1) by simp
    moreover obtain pin where "suitable (stage_request (gc_routing g) cx Stage_Review pin (Some (wd_provider d, wd_model d)))
        (descriptor_of h (sx_worker u) r)"
      using r g by (auto simp: stage_selected_def)
    then have "wk_isolated r" "(wd_provider d, wd_model d) \<noteq> (wk_provider r, wd_model (descriptor_of h (sx_worker u) r))"
      by (auto simp: suitable_def stage_request_def)
    ultimately show ?thesis using True w(2) v r out iw' u(1) d'
      by (intro exI[of _ s] exI[of _ w] exI[of _ t] exI[of _ v]) auto
  qed
qed

section \<open>Hosts without configuration\<close>

lemma no_rules_no_ladder:
  "validate_registry V (host_registry i w) = validate_worker [] (i, w)"
  by (cases "validate_worker [] (i, w)") (auto simp: validate_registry_def host_registry_def default_routing_def)

text \<open>
  the worker that a host without configuration gets passes the validation of the registry exactly when it
  is not the one for an Ollama endpoint: that one declares a local profile and a runtime configuration, which
  exclude each other. A host whose only worker is Ollama can plan nothing.
\<close>

lemma host_worker_valid_iff:
  assumes "selected_host_worker f = Some (i, w)"
  shows "validate_registry vocabulary (host_registry i w) = Inr ()
    \<longleftrightarrow> hf_openai_key f \<or> hf_anthropic_key f \<or> hf_ollama f = None"
proof -
  have ok: "validate_worker [] (''host-openai-api'', (host_worker ''openai'' ''gpt-5-codex'' ''openai-api'')
        \<lparr>wk_auth_profile := Some ''host-openai-api-key''\<rparr>) = Inr ()"
    "validate_worker [] (''host-anthropic-api'', (host_worker ''anthropic'' ''claude-sonnet-4-5'' ''anthropic-api'')
        \<lparr>wk_auth_profile := Some ''host-anthropic-api-key''\<rparr>) = Inr ()"
    "validate_worker [] (''host-codex-cli'', (host_worker ''openai'' legacy_cli_default_model ''codex'')
        \<lparr>wk_adapter := Some Adapter_Codex, wk_executable := Some ''codex''\<rparr>) = Inr ()"
    "validate_worker [] (''host-claude-cli'', (host_worker ''anthropic'' legacy_cli_default_model ''claude-code'')
        \<lparr>wk_adapter := Some Adapter_Claude_Code, wk_executable := Some ''claude''\<rparr>) = Inr ()"
    by code_simp+
  have "validate_worker [] (''host-ollama'', (host_worker ''local'' ''llama3'' ''ollama'')\<lparr>wk_runtime_host := Some (Some e),
      wk_local_profile := Some l\<rparr>) \<noteq> Inr ()" for e l
    by (auto simp: validate_worker_def result_simps host_worker_def)
  then show ?thesis
    using assms ok unfolding no_rules_no_ladder by (auto simp: selected_host_worker_def split: if_splits option.splits)
qed

section \<open>The ladder\<close>

lemma position_Some: "position xs x = Some k \<Longrightarrow> k < length xs \<and> xs ! k = x"
  by (induction xs arbitrary: k) (auto split: if_splits)

lemma fold_max_bound: "(\<forall>x\<in>set xs. x < n) \<Longrightarrow> k < n \<Longrightarrow> fold max xs k < (n::nat)"
  by (induction xs arbitrary: k) auto

lemma fold_max_upper: "k \<le> fold max xs (k::nat) \<and> (\<forall>x\<in>set xs. x \<le> fold max xs k)"
proof (induction xs arbitrary: k)
  case (Cons x xs)
  from Cons[of "max x k"] show ?case by auto
qed simp

lemma floor_index_bounds:
  assumes "rungs \<noteq> []"
  shows "floor_index l rungs risks < length rungs"
    and "r \<in> set risks \<Longrightarrow> map_of (ld_risk_floors l) r = Some floor \<Longrightarrow> position rungs floor = Some k \<Longrightarrow> k \<le> floor_index l rungs risks"
proof -
  let ?ps = "List.map_filter (\<lambda>r. Option.bind (map_of (ld_risk_floors l) r) (position rungs)) risks"
  have "\<forall>k\<in>set ?ps. k < length rungs"
    by (auto simp: map_filter_def bind_eq_Some_conv dest: position_Some)
  then show "floor_index l rungs risks < length rungs" using assms by (simp add: floor_index_def fold_max_bound)
  assume "r \<in> set risks" "map_of (ld_risk_floors l) r = Some floor" "position rungs floor = Some k"
  then have "k \<in> set ?ps" by (force simp: map_filter_def)
  then show "k \<le> floor_index l rungs risks" using fold_max_upper[of 0 ?ps] by (simp add: floor_index_def)
qed

text \<open>
  the rung that the ladder selects is one of its rungs, at or above the floor of every risk class whose
  floor is on the ladder; it is the lowest such rung, or the next one when the lowest costs at least the
  configured fraction of it.
\<close>

lemma rung_respects_floors:
  assumes "select_rung l job risks workers bases = Some (i, reason)"
  shows "\<exists>k. k < length (workers_for l job) \<and> workers_for l job ! k = i
    \<and> (\<forall>r\<in>set risks. \<forall>floor j. map_of (ld_risk_floors l) r = Some floor \<and> position (workers_for l job) floor = Some j \<longrightarrow> j \<le> k)
    \<and> (case reason of
        Cheapest_Capable \<Rightarrow> k = floor_index l (workers_for l job) risks
      | Unprofitable_Skipped \<Rightarrow> k = Suc (floor_index l (workers_for l job) risks)
          \<and> (\<exists>cheap next. rung_estimate workers bases (workers_for l job ! (k - 1)) = Some cheap
               \<and> rung_estimate workers bases i = Some next
               \<and> saturating_mul64 next (ucast (ld_cheap_fraction l)) \<le> saturating_mul64 cheap 10000))"
proof -
  let ?rungs = "workers_for l job" and ?k = "floor_index l (workers_for l job) risks"
  have ne: "?rungs \<noteq> []" using assms by (auto simp: select_rung_def Let_def)
  have floors: "\<forall>r\<in>set risks. \<forall>floor j. map_of (ld_risk_floors l) r = Some floor \<and> position ?rungs floor = Some j \<longrightarrow> j \<le> ?k"
    using floor_index_bounds(2)[OF ne] by blast
  consider "reason = Cheapest_Capable" "i = ?rungs ! ?k"
    | cheap dear where "reason = Unprofitable_Skipped" "i = ?rungs ! Suc ?k" "Suc ?k < length ?rungs"
        "rung_estimate workers bases (?rungs ! ?k) = Some cheap" "rung_estimate workers bases i = Some dear"
        "saturating_mul64 dear (ucast (ld_cheap_fraction l)) \<le> saturating_mul64 cheap 10000"
    using assms ne by (auto simp: select_rung_def Let_def split: if_splits option.splits)
  then show ?thesis
  proof cases
    case 1
    then show ?thesis using floor_index_bounds(1)[OF ne] floors by (intro exI[of _ ?k]) simp
  next
    case (2 cheap dear)
    have "\<forall>r\<in>set risks. \<forall>floor j. map_of (ld_risk_floors l) r = Some floor \<and> position ?rungs floor = Some j \<longrightarrow> j \<le> Suc ?k"
      using floors le_SucI by blast
    then show ?thesis using 2 by (intro exI[of _ "Suc ?k"]) auto
  qed
qed

section \<open>Trust in an endpoint\<close>

lemma local_userinfo_host:
  assumes "set rest \<inter> {slash, CHR ''?'', CHR ''#'', CHR '':''} = {}"
  shows "extract_host (''http://localhost:'' @ rest) = ''localhost''"
proof -
  have "split_once (''http://localhost:'' @ rest) ''://'' = Some (''http'', ''localhost:'' @ rest)"
    by (simp add: split_once_def starts_with_def)
  moreover have "find_sub ''://'' (''localhost:'' @ rest) = None" using assms by (intro find_sub_absent[of slash]) auto
  ultimately have w: "without_scheme (''http://localhost:'' @ rest) = ''localhost:'' @ rest"
    by (simp add: without_scheme_def split_once_def)
  have "takeWhile (\<lambda>c. c \<notin> {slash, CHR ''?'', CHR ''#''}) (''localhost:'' @ rest) = ''localhost:'' @ rest"
    using assms by (subst takeWhile_eq_all_conv) auto
  moreover have "dropWhile (\<lambda>c. c \<noteq> CHR '':'') (rev (''localhost:'' @ rest)) = rev ''localhost:''"
  proof -
    have "\<forall>c\<in>set (rev rest). c \<noteq> CHR '':''" using assms by auto
    then show ?thesis using dropWhile_append2[of "rev rest" "\<lambda>c. c \<noteq> CHR '':''" "rev ''localhost:''"] by simp
  qed
  ultimately have "before_last_colon (''localhost:'' @ rest) = ''localhost''" 
    and authority: "takeWhile (\<lambda>c. c \<notin> {slash, CHR ''?'', CHR ''#''}) (without_scheme (''http://localhost:'' @ rest)) = ''localhost:'' @ rest"
    unfolding w by (simp_all add: before_last_colon_def)
  moreover have "strip_prefix (''localhost:'' @ rest) ''['' = None" by (simp add: strip_prefix_def starts_with_def)
  ultimately show ?thesis unfolding extract_host_def authority by (simp only: Let_def option.case)
qed

text \<open>
  a URL whose user information looks like the name of this machine is trusted like this machine, whatever
  its host is: the text up to the last colon is taken for the host. Validation then asks neither for
  credentials nor for TLS.
\<close>

lemma user_information_is_trusted:
  assumes "set password \<inter> {slash, CHR ''?'', CHR ''#'', CHR '':''} = {}" "set host \<inter> {slash, CHR ''?'', CHR ''#'', CHR '':''} = {}"
    and "wk_provider w = ''local''" "lw_base_url l = ''http://localhost:'' @ password @ ''@'' @ host" "\<not> lw_tls l"
  shows "validate_local_worker i w (serving_runtime_text (lw_runtime l)) l = Inr ()"
proof -
  have "set (password @ ''@'' @ host) \<inter> {slash, CHR ''?'', CHR ''#'', CHR '':''} = {}" using assms(1,2) by auto
  from local_userinfo_host[OF this] have "classify_local_endpoint_trust (lw_base_url l) = Trust_Loopback"
    by (simp add: assms(4) classify_local_endpoint_trust_def eq_ignore_case_def)
  moreover have "trim (lw_base_url l) \<noteq> []"
    unfolding assms(4) by (rule trim_not_Nil[of "CHR ''h''"]) (simp, code_simp)
  ultimately show ?thesis using assms(3,5) by (simp add: validate_local_worker_def ensure_def)
qed

section \<open>Workers that the runtime excludes\<close>

text \<open>A route rule for a worker that is left out makes every plan fail, whatever the stages need.\<close>

lemma rule_for_excluded_worker_blocks_plans:
  assumes "pc_registry c = Some g" "distinct (map fst (gc_workers g))"
    and "r \<in> set (ro_rules (gc_routing g))" "(ru_worker r, w) \<in> set (gc_workers g)"
    and "runtime_disabled (pc_runtime_enabled c) w \<noteq> None"
  shows "resolved_worker_plan h c cx \<noteq> Inr plan"
proof
  assume "resolved_worker_plan h c cx = Inr plan"
  then obtain g' reg where prep: "prepare_registry h c = Inr (g', reg)"
    by (cases "prepare_registry h c") (auto simp: resolved_worker_plan_def)
  note p = prepare_registry_ok[OF prep]
  then have "map_of (rx_workers reg) (ru_worker r) \<noteq> None" using assms(1,3) by auto
  then obtain d where "(ru_worker r, d) \<in> set (rx_workers reg)" using map_of_SomeD by fastforce
  then obtain v where v: "(ru_worker r, v) \<in> set (gc_workers g)" "runtime_disabled (pc_runtime_enabled c) v = None"
    using p assms(1) by auto
  then show False using eq_key_imp_eq_value[OF assms(2,4) v(1)] assms(5) by simp
qed

text \<open>A registry with a cheap command line worker, an independent reviewer and a dear worker of the raw-model loop.\<close>

definition sample_hashes :: worker_hashes where
  "sample_hashes = \<lparr>wh_sha256 = (\<lambda>_. ''0''), wh_json = (\<lambda>_ _ _ _ _ _. ''[]'')\<rparr>"

definition sample_workers :: "(string \<times> registry_worker) list" where
  "sample_workers =
     [(''cheap'', (host_worker ''openai'' ''gpt-5'' ''codex'')\<lparr>wk_cost := Some 1, wk_capabilities := [Can_Implement, Can_Remediate]\<rparr>),
      (''raw'', (host_worker ''openai'' ''gpt-5-pro'' ''openai-api'')\<lparr>wk_cost := Some 9\<rparr>),
      (''reviewer'', (host_worker ''anthropic'' ''sonnet'' ''claude-code'')\<lparr>wk_cost := Some 5, wk_capabilities := [Can_Review]\<rparr>)]"

definition sample_ladder :: worker_ladder where
  "sample_ladder = \<lparr>ld_implementation = [''cheap'', ''raw''], ld_remediation = [], ld_review = [], ld_narrow_task = [],
     ld_risk_floors = [(''security'', ''raw'')], ld_cheap_fraction = 0, ld_probation = None\<rparr>"

definition sample_plan :: "worker_routing \<Rightarrow> plan_config" where
  "sample_plan ro = \<lparr>pc_registry = Some \<lparr>gc_workers = sample_workers, gc_profiles = [], gc_routing = ro, gc_cost_bases = [],
     gc_coverage_floor = 80\<rparr>, pc_vocabulary = [], pc_runtime_enabled = False, pc_review_enabled = True\<rparr>"

definition no_context :: plan_context where
  "no_context = \<lparr>px_risks = [], px_files = 0\<rparr>"

definition sample_registered :: registered where
  "sample_registered = (case prepare_registry sample_hashes (sample_plan default_routing) of Inr (_, reg) \<Rightarrow> reg | Inl _ \<Rightarrow> no_workers)"

text \<open>
  the worker to which an attempt is escalated may be one that no plan admits: the next stronger worker is
  chosen among all configured ones, also those left out while their runtime is disabled, and the attempt that
  is then pinned to it cannot be planned.
\<close>

lemma escalation_may_be_impossible:
  "next_implementation_worker sample_hashes (sample_plan default_routing) no_context
     = Inr (Some (''raw'', as_agent_entry (the (map_of sample_workers ''raw''))))
   \<and> resolved_worker_plan sample_hashes (sample_plan (default_routing\<lparr>ro_implementation_pin := Some ''raw''\<rparr>)) no_context
     = Inl (Err (Plan_Select (Invalid_Pin (Unknown_Worker ''raw'')) Stage_Implement [(''raw'', ''openai-api'')]))"
proof
  have "(case next_implementation_worker sample_hashes (sample_plan default_routing) no_context of
      Inr (Some (i, e)) \<Rightarrow> i = ''raw'' \<and> e = as_agent_entry (the (map_of sample_workers ''raw'')) | _ \<Rightarrow> False)" by code_simp
  then show "next_implementation_worker sample_hashes (sample_plan default_routing) no_context
     = Inr (Some (''raw'', as_agent_entry (the (map_of sample_workers ''raw''))))"
    by (auto split: sum.splits option.splits prod.splits)
  have "(case resolved_worker_plan sample_hashes (sample_plan (default_routing\<lparr>ro_implementation_pin := Some ''raw''\<rparr>)) no_context of
      Inl (Err (Plan_Select (Invalid_Pin (Unknown_Worker i)) st sk)) \<Rightarrow> i = ''raw'' \<and> st = Stage_Implement \<and> sk = [(''raw'', ''openai-api'')]
    | _ \<Rightarrow> False)" by code_simp
  then show "resolved_worker_plan sample_hashes (sample_plan (default_routing\<lparr>ro_implementation_pin := Some ''raw''\<rparr>)) no_context
     = Inl (Err (Plan_Select (Invalid_Pin (Unknown_Worker ''raw'')) Stage_Implement [(''raw'', ''openai-api'')]))"
    by (auto split: sum.splits fault.splits plan_error.splits route_error.splits resolve_error.splits)
qed

section \<open>Instances\<close>

definition sample_request :: "worker_stage \<Rightarrow> string option \<Rightarrow> route_request" where
  "sample_request stage pin = stage_request default_routing no_context stage pin None"

lemma sample_registered_ok: "registered_ok sample_registered"
proof -
  have "distinct (map fst (rx_workers sample_registered)) \<and> list_all (\<lambda>(k, w). wd_id w = k) (rx_workers sample_registered)"
    by code_simp
  then show ?thesis by (simp add: registered_ok_def list_all_iff)
qed

theorem selected_worker_meets_request_witness:
  "\<exists>w. map_of (rx_workers sample_registered) ''cheap'' = Some w \<and> suitable (sample_request Stage_Implement None) w"
proof -
  have "(case select_worker sample_registered (sample_request Stage_Implement None) of Inr s \<Rightarrow> sx_worker s = ''cheap'' | Inl _ \<Rightarrow> False)"
    by code_simp
  then obtain s where s: "select_worker sample_registered (sample_request Stage_Implement None) = Inr s" "sx_worker s = ''cheap''"
    by (auto split: sum.splits)
  show ?thesis using selected_worker_meets_request[OF sample_registered_ok s(1)] s(2) by auto
qed

theorem selection_panics_iff_witness:
  "select_worker sample_registered (sample_request Stage_Review (Some ''openai/gpt-5'')) = Inl Panic"
proof -
  have m: "map_of (rx_workers sample_registered) ''openai/gpt-5'' = None" by code_simp
  have "(case resolve_descriptor sample_registered ''openai/gpt-5'' of Inr w \<Rightarrow> Can_Review \<notin> set (wd_capabilities w) | Inl _ \<Rightarrow> False)"
    by code_simp
  then obtain w where w: "resolve_descriptor sample_registered ''openai/gpt-5'' = Inr w" "Can_Review \<notin> set (wd_capabilities w)"
    by (auto split: sum.splits)
  then have "\<not> suitable (sample_request Stage_Review (Some ''openai/gpt-5'')) w"
    by (simp add: suitable_def sample_request_def stage_request_def stage_capability_def)
  then show ?thesis unfolding selection_panics_iff[OF sample_registered_ok]
    using m w(1) by (auto simp: sample_request_def stage_request_def)
qed

theorem plan_reviewer_is_independent_witness:
  "\<exists>records s u. resolved_worker_plan sample_hashes (sample_plan default_routing) no_context
      = Inr (as_agent_entry (the (map_of sample_workers ''cheap'')), as_agent_entry (the (map_of sample_workers ''reviewer'')), records)
    \<and> (\<exists>t. records = [s, t, u]) \<and> sx_stage u = Stage_Review"
proof -
  have "(case resolved_worker_plan sample_hashes (sample_plan default_routing) no_context of
      Inr (a, b, rs) \<Rightarrow> a = as_agent_entry (the (map_of sample_workers ''cheap'')) \<and> b = as_agent_entry (the (map_of sample_workers ''reviewer''))
    | _ \<Rightarrow> False)" by code_simp
  then obtain rs where p: "resolved_worker_plan sample_hashes (sample_plan default_routing) no_context
      = Inr (as_agent_entry (the (map_of sample_workers ''cheap'')), as_agent_entry (the (map_of sample_workers ''reviewer'')), rs)"
    by (auto split: sum.splits prod.splits)
  have "distinct (map fst sample_workers)" by code_simp
  then have d: "pc_registry (sample_plan default_routing) = Some g \<Longrightarrow> distinct (map fst (gc_workers g))" for g
    by (auto simp: sample_plan_def)
  have "pc_review_enabled (sample_plan default_routing)" by (simp add: sample_plan_def)
  then show ?thesis using plan_reviewer_is_independent[OF p d] p by (auto simp: stage_selected_def)
qed

lemma host_worker_valid_iff_witness:
  "\<exists>w. selected_host_worker \<lparr>hf_openai_key = False, hf_anthropic_key = False, hf_ollama = Some ''http://localhost:11434'',
       hf_codex = True, hf_claude = True\<rparr> = Some (''host-ollama'', w)
     \<and> validate_registry {} (host_registry ''host-ollama'' w) \<noteq> Inr ()"
proof -
  obtain w where w: "selected_host_worker \<lparr>hf_openai_key = False, hf_anthropic_key = False,
      hf_ollama = Some ''http://localhost:11434'', hf_codex = True, hf_claude = True\<rparr> = Some (''host-ollama'', w)"
    by (simp add: selected_host_worker_def)
  show ?thesis using host_worker_valid_iff[OF w, of "{}"] w by simp
qed

lemma rung_respects_floors_witness:
  "\<exists>k. k < 2 \<and> workers_for sample_ladder Job_Implementation ! k = ''raw'' \<and> 1 \<le> k"
proof -
  have "(case select_rung sample_ladder Job_Implementation [''security''] sample_workers [] of
      Some (i, r) \<Rightarrow> i = ''raw'' | None \<Rightarrow> False)" by code_simp
  then obtain r where s: "select_rung sample_ladder Job_Implementation [''security''] sample_workers [] = Some (''raw'', r)"
    by (auto split: option.splits)
  have "map_of (ld_risk_floors sample_ladder) ''security'' = Some ''raw''"
    "position (workers_for sample_ladder Job_Implementation) ''raw'' = Some 1" "length (workers_for sample_ladder Job_Implementation) = 2"
    by code_simp+
  then show ?thesis using rung_respects_floors[OF s] by force
qed

lemma user_information_is_trusted_witness:
  "validate_local_worker ''w'' ((host_worker ''local'' ''llama3'' ''ollama'')) ''ollama''
     \<lparr>lw_runtime = Serves_Ollama, lw_base_url = ''http://localhost:x@models.example'', lw_tls = False, lw_resources = default_resources\<rparr> = Inr ()"
  using user_information_is_trusted[of "''x''" "''models.example''" "host_worker ''local'' ''llama3'' ''ollama''"
      "\<lparr>lw_runtime = Serves_Ollama, lw_base_url = ''http://localhost:x@models.example'', lw_tls = False, lw_resources = default_resources\<rparr>" "''w''"]
  by (simp add: host_worker_def serving_runtime_text_def)

end
