(* ===== verification/Driver_Safety.thy ===== *)
theory Driver_Safety
  imports Driver_Store
begin

text \<open>
  What the records of unattended sessions keep in every reachable database: attempts are numbered without
  gaps, and an attempt is integrated once. Recovery after a crash closes whatever is open, also what
  another host is still running.
\<close>

section \<open>Reachable databases\<close>

inductive driver_step :: "driver_db \<Rightarrow> driver_db \<Rightarrow> bool" where
  ds_open: "open_session now db i repo warrant = Inr db' \<Longrightarrow> driver_step db db'"
| ds_beat: "heartbeat now db i worker = Inr db' \<Longrightarrow> driver_step db db'"
| ds_finish: "finish_session now db i reason = Inr db' \<Longrightarrow> driver_step db db'"
| ds_detail: "record_session_detail redact db i detail = Inr db' \<Longrightarrow> driver_step db db'"
| ds_recover: "driver_step db (snd (recover_incomplete now db))"
| ds_start: "record_escalated_attempt_started now db a = Inr (n, db') \<Longrightarrow> driver_step db db'"
| ds_diagnostics: "record_attempt_diagnostics db i n x ad m ec sg phase = Inr db' \<Longrightarrow> driver_step db db'"
| ds_workspace: "record_attempt_workspace db i n component worktree branch = Inr db' \<Longrightarrow> driver_step db db'"
| ds_finished: "record_attempt_finished_with_detail now db i n outcome reason detail cost duration = Inr db'
    \<Longrightarrow> driver_step db db'"
| ds_integrated: "driver_step db (snd (mark_latest_attempt_integrated now db repo prd candidate))"
| ds_decision: "record_selection_decision now db i prd decision detail = Inr db' \<Longrightarrow> driver_step db db'"

definition attempts_in :: "driver_db \<Rightarrow> string \<Rightarrow> driver_attempt_row list" where
  "attempts_in db i = filter (\<lambda>a. da_session a = i) (dd_attempts db)"

definition driver_ok :: "driver_db \<Rightarrow> bool" where
  "driver_ok db \<longleftrightarrow> distinct (map ds_id (dd_sessions db))
     \<and> (\<forall>i. map da_sequence (attempts_in db i) = [1..<Suc (length (attempts_in db i))])
     \<and> (\<forall>a\<in>set (dd_attempts db). find_session db (da_session a) \<noteq> None)"

section \<open>Updates\<close>

lemma one_changed_Inr [result_simps]: "one_changed m r = Inr db \<longleftrightarrow> fst r = 1 \<and> db = snd r"
  by (auto simp: one_changed_def)

lemma some_changed_Inr [result_simps]: "some_changed m r = Inr db \<longleftrightarrow> fst r \<noteq> 0 \<and> db = snd r"
  by (auto simp: some_changed_def)

lemma update_sessions_attempts [simp]: "dd_attempts (snd (update_sessions p f db)) = dd_attempts db"
  by (simp add: update_sessions_def)

lemma update_attempts_sessions [simp]: "dd_sessions (snd (update_attempts p f db)) = dd_sessions db"
  by (simp add: update_attempts_def)

lemma update_sessions_ids:
  assumes "\<And>s. ds_id (f s) = ds_id s"
  shows "map ds_id (dd_sessions (snd (update_sessions p f db))) = map ds_id (dd_sessions db)"
  using assms by (simp add: update_sessions_def)

lemma update_attempts_keys:
  assumes "\<And>a. da_session (f a) = da_session a" "\<And>a. da_sequence (f a) = da_sequence a"
  shows "map (\<lambda>a. (da_session a, da_sequence a)) (dd_attempts (snd (update_attempts p f db)))
    = map (\<lambda>a. (da_session a, da_sequence a)) (dd_attempts db)"
  using assms by (simp add: update_attempts_def)

text \<open>The invariant reads the names of the sessions and the keys of the attempts only.\<close>

lemma find_session_iff: "find_session db i \<noteq> None \<longleftrightarrow> i \<in> set (map ds_id (dd_sessions db))"
  by (force simp: find_session_def find_None_iff)

lemma attempts_in_sequences:
  "map da_sequence (attempts_in db i)
     = map snd (filter (\<lambda>k. fst k = i) (map (\<lambda>a. (da_session a, da_sequence a)) (dd_attempts db)))"
  by (simp add: attempts_in_def filter_map o_def)

lemma driver_ok_keys:
  assumes "driver_ok db"
    and "map ds_id (dd_sessions db') = map ds_id (dd_sessions db)"
    and "map (\<lambda>a. (da_session a, da_sequence a)) (dd_attempts db')
       = map (\<lambda>a. (da_session a, da_sequence a)) (dd_attempts db)"
  shows "driver_ok db'"
proof -
  have same: "map da_sequence (attempts_in db' i) = map da_sequence (attempts_in db i)" for i
    by (simp add: attempts_in_sequences assms(3))
  then have len: "length (attempts_in db' i) = length (attempts_in db i)" for i
    by (metis length_map)
  have "da_session ` set (dd_attempts db') = da_session ` set (dd_attempts db)"
    using arg_cong[OF assms(3), of "map fst"] by (metis (no_types, lifting) fst_conv image_cong list.map_comp list.set_map o_apply)
  then have "find_session db' (da_session a) \<noteq> None" if "a \<in> set (dd_attempts db')" for a
    using that assms(1) unfolding driver_ok_def find_session_iff assms(2) by (metis image_iff)
  then show ?thesis
    using assms(1) unfolding driver_ok_def assms(2) same len by blast
qed

lemma next_sequence_ok:
  assumes "driver_ok db"
  shows "next_sequence db i = Suc (length (attempts_in db i))"
proof -
  have "map da_sequence (attempts_in db i) = [1..<Suc (length (attempts_in db i))]"
    using assms by (simp add: driver_ok_def)
  moreover have "fold max [1..<Suc n] 0 = n" for n :: nat by (induction n) auto
  ultimately show ?thesis by (simp add: next_sequence_def attempts_in_def)
qed

section \<open>The invariant\<close>

lemma open_session_ok:
  assumes "driver_ok db" "open_session now db i repo warrant = Inr db'"
  shows "driver_ok db'"
proof -
  have fresh: "find_session db i = None" and db': "dd_attempts db' = dd_attempts db"
    "map ds_id (dd_sessions db') = map ds_id (dd_sessions db) @ [i]"
    using assms(2) by (auto simp: open_session_def split: if_splits)
  have new: "i \<notin> set (map ds_id (dd_sessions db))" using fresh find_session_iff[of db i] by blast
  have same: "attempts_in db' j = attempts_in db j" for j by (simp add: attempts_in_def db')
  show ?thesis
    using assms(1) new unfolding driver_ok_def find_session_iff db' same by auto
qed

lemma start_ok:
  assumes "driver_ok db" "record_escalated_attempt_started now db a = Inr (n, db')"
  shows "driver_ok db'" "n = Suc (length (attempts_in db (as_session a)))"
    "length (attempts_in db' (as_session a)) = n"
proof -
  define r where "r = started_row now a n"
  have db': "db' = db\<lparr>dd_attempts := dd_attempts db @ [r]\<rparr>" and n: "n = next_sequence db (as_session a)"
    and s: "find_session db (as_session a) \<noteq> None"
    using assms(2) by (auto simp: record_escalated_attempt_started_def Let_def r_def split: if_splits)
  have r: "da_session r = as_session a" "da_sequence r = n" by (simp_all add: r_def started_row_def)
  show n': "n = Suc (length (attempts_in db (as_session a)))" using n next_sequence_ok[OF assms(1)] by simp
  have at: "attempts_in db' j = attempts_in db j @ (if j = as_session a then [r] else [])" for j
    by (simp add: attempts_in_def db' r)
  show "length (attempts_in db' (as_session a)) = n" using n' by (simp add: at)
  show "driver_ok db'"
    using assms(1) s unfolding driver_ok_def find_session_iff at by (simp add: db' r n')
qed

lemma driver_step_ok:
  assumes "driver_step db db'" "driver_ok db"
  shows "driver_ok db'"
  using assms
proof (cases rule: driver_step.cases)
  case (ds_open now i repo warrant) then show ?thesis using open_session_ok assms(2) by blast
next
  case (ds_start now a n) then show ?thesis using start_ok(1) assms(2) by blast
next
  case (ds_recover now)
  then show ?thesis
    by (intro driver_ok_keys[OF assms(2)])
      (simp_all add: recover_incomplete_def update_attempts_def update_sessions_def)
next
  case (ds_integrated now repo prd candidate)
  then show ?thesis
    by (intro driver_ok_keys[OF assms(2)])
      (auto simp: mark_latest_attempt_integrated_def update_attempts_def mark_integrated_def split: option.splits)
qed (rule driver_ok_keys[OF assms(2)];
     auto simp: heartbeat_def finish_session_def record_session_detail_def record_attempt_diagnostics_def
       record_attempt_workspace_def record_attempt_finished_with_detail_def record_selection_decision_def
       result_simps update_sessions_def update_attempts_def split: if_splits option.splits)+

lemma driver_reachable_ok: "driver_step\<^sup>*\<^sup>* empty_driver db \<Longrightarrow> driver_ok db"
proof (induction rule: rtranclp_induct)
  case base
  show ?case by (simp add: driver_ok_def empty_driver_def attempts_in_def)
next
  case (step y z)
  then show ?case using driver_step_ok by blast
qed

section \<open>Integration\<close>

text \<open>An attempt that is integrated keeps its revision and the time of its integration.\<close>

definition keeps_integration :: "driver_db \<Rightarrow> driver_db \<Rightarrow> bool" where
  "keeps_integration db db' \<longleftrightarrow>
     (\<forall>a\<in>set (dd_attempts db). da_integrated_at a \<noteq> None \<longrightarrow>
        (\<exists>b\<in>set (dd_attempts db'). da_session b = da_session a \<and> da_sequence b = da_sequence a
           \<and> da_candidate b = da_candidate a \<and> da_integrated_at b = da_integrated_at a))"

text \<open>A step appends attempts, or changes some without touching their key and what is integrated.\<close>

definition quiet_change :: "(driver_attempt_row \<Rightarrow> bool) \<Rightarrow> (driver_attempt_row \<Rightarrow> driver_attempt_row) \<Rightarrow> bool" where
  "quiet_change p f \<longleftrightarrow> (\<forall>a. p a \<and> da_integrated_at a \<noteq> None \<longrightarrow>
      da_session (f a) = da_session a \<and> da_sequence (f a) = da_sequence a
      \<and> da_candidate (f a) = da_candidate a \<and> da_integrated_at (f a) = da_integrated_at a)"

lemma keeps_integration_update:
  "quiet_change p f \<Longrightarrow> keeps_integration db (snd (update_attempts p f db))"
  unfolding keeps_integration_def update_attempts_def quiet_change_def by (auto simp del: not_None_eq)

lemma keeps_integration_more:
  "set (dd_attempts db) \<subseteq> set (dd_attempts db') \<Longrightarrow> keeps_integration db db'"
  by (auto simp: keeps_integration_def)

lemma keeps_integration_sessions: "keeps_integration db db1 \<Longrightarrow> keeps_integration db (snd (update_sessions p f db1))"
  by (simp add: keeps_integration_def)

lemma driver_step_keeps:
  assumes "driver_step db db'"
  shows "keeps_integration db db'"
  using assms
proof (cases rule: driver_step.cases)
  case (ds_open now i repo warrant)
  then show ?thesis by (intro keeps_integration_more) (auto simp: open_session_def split: if_splits)
next
  case (ds_beat now i worker)
  then show ?thesis by (intro keeps_integration_more) (auto simp: heartbeat_def result_simps)
next
  case (ds_finish now i reason)
  then show ?thesis by (intro keeps_integration_more) (auto simp: finish_session_def result_simps)
next
  case (ds_detail redact i detail)
  then show ?thesis by (intro keeps_integration_more) (auto simp: record_session_detail_def result_simps)
next
  case (ds_recover now)
  then show ?thesis
    by (simp add: recover_incomplete_def split_beta keeps_integration_sessions keeps_integration_update quiet_change_def)
next
  case (ds_start now a n)
  then show ?thesis
    by (intro keeps_integration_more) (auto simp: record_escalated_attempt_started_def Let_def split: if_splits)
next
  case (ds_diagnostics i n x ad m ec sg phase)
  then show ?thesis
    by (auto simp: record_attempt_diagnostics_def result_simps quiet_change_def intro!: keeps_integration_update)
next
  case (ds_workspace i n component worktree branch)
  then show ?thesis
    by (auto simp: record_attempt_workspace_def result_simps quiet_change_def intro!: keeps_integration_update)
next
  case (ds_finished now i n outcome reason detail cost duration)
  then show ?thesis
    by (auto simp: record_attempt_finished_with_detail_def result_simps quiet_change_def
        intro!: keeps_integration_update split: option.splits if_splits)
next
  case (ds_integrated now repo prd candidate)
  then show ?thesis
    by (auto simp: mark_latest_attempt_integrated_def quiet_change_def update_attempts_def Let_def
        keeps_integration_def split: option.splits)
next
  case (ds_decision now i prd decision detail)
  then show ?thesis
    by (intro keeps_integration_more) (auto simp: record_selection_decision_def split: if_splits)
qed

end
