(* ===== verification/Checkpoint_Safety.thy ===== *)
theory Checkpoint_Safety
  imports Landing_Store Driver_Safety
begin

text \<open>
  What the tables of recovery and landing keep in every reachable database: the log of a checkpoint is
  numbered without gaps, so that its allocator never collides; a migration version is given once; a
  decision on scope is final. The steps are the operations of the repositories and what the landings of
  the drive loop and the approval of a checkpoint write into the same tables themselves.
\<close>

section \<open>Reachable databases\<close>

inductive recovery_step :: "recovery_db \<Rightarrow> recovery_db \<Rightarrow> bool" where
  rs_put: "put_checkpoint now db v = Inr db' \<Longrightarrow> recovery_step db db'"
| rs_transition: "transition_checkpoint now db i phase detail = Inr db' \<Longrightarrow> recovery_step db db'"
| rs_rebind: "rebind_candidate now db i old new commit = Inr db' \<Longrightarrow> recovery_step db db'"
| rs_record: "record_rebind json now db i old new actor reason = Inr db' \<Longrightarrow> recovery_step db db'"
| rs_initialize: "initialize_integration db i revision = Inr db' \<Longrightarrow> recovery_step db db'"
| rs_advance: "advance_integration now db i expected candidate n = Inr db' \<Longrightarrow> recovery_step db db'"
| rs_reserve: "reserve_migration now db repo session prd first = Inr (r, db') \<Longrightarrow> recovery_step db db'"
| rs_resolve: "resolve_migration now db session prd consume = Inr db' \<Longrightarrow> recovery_step db db'"
| rs_finding: "record_scope_finding now db repo checkpoint prd candidate hash json = Inr db' \<Longrightarrow> recovery_step db db'"
| rs_decide: "decide_scope now db repo hash candidate approve actor reason = Inr (c, db') \<Longrightarrow> recovery_step db db'"
| rs_land: "land_attempt now session n prior candidate merged checkpoint prd reserved db = Inr db' \<Longrightarrow> recovery_step db db'"
| rs_scope_land: "land_approved_scope now session n prior merged i old new db = Inr db' \<Longrightarrow> recovery_step db db'"
| rs_approve: "approve_checkpoint now i phase actor hash commit db = Inr db' \<Longrightarrow> recovery_step db db'"
| rs_driver: "driver_step (rd_driver db) d \<Longrightarrow> recovery_step db (db\<lparr>rd_driver := d\<rparr>)"

section \<open>The log of a checkpoint\<close>

definition keys_of :: "recovery_db \<Rightarrow> (string \<times> string \<times> string) list" where
  "keys_of db = map (\<lambda>c. (xc_id c, xc_repository c, xc_prd c)) (rd_checkpoints db)"

text \<open>An event is named by its number, or by the completion that a landing logs.\<close>

definition event_names :: "checkpoint_event \<Rightarrow> string set" where
  "event_names e = {ce_checkpoint e @ '':'' @ show_nat (ce_sequence e), ce_checkpoint e @ '':completed''}"

definition log_ok :: "recovery_db \<Rightarrow> bool" where
  "log_ok db \<longleftrightarrow> distinct (map fst (keys_of db)) \<and> distinct (map snd (keys_of db)) \<and> distinct (map ce_id (rd_events db))
     \<and> (\<forall>i. map ce_sequence (events_for db i) = [0..<length (events_for db i)])
     \<and> (\<forall>e\<in>set (rd_events db). ce_id e \<in> event_names e \<and> ce_checkpoint e \<in> set (map fst (keys_of db)))"

lemma find_checkpoint_iff: "find_checkpoint db i \<noteq> None \<longleftrightarrow> i \<in> set (map fst (keys_of db))"
  by (force simp: find_checkpoint_def find_None_iff keys_of_def)

lemma find_checkpoint_Some: "find_checkpoint db i = Some c \<Longrightarrow> c \<in> set (rd_checkpoints db) \<and> xc_id c = i"
  by (auto simp: find_checkpoint_def dest: find_SomeD)

lemma update_checkpoint_keys:
  assumes "\<And>c. xc_id (f c) = xc_id c" "\<And>c. xc_repository (f c) = xc_repository c" "\<And>c. xc_prd (f c) = xc_prd c"
  shows "keys_of (update_checkpoint i f db) = keys_of db"
  using assms by (simp add: keys_of_def update_checkpoint_def)

lemma find_map_commutes:
  assumes "\<And>y. p (g y) = p y"
  shows "find p (map g xs) = map_option g (find p xs)"
  by (induction xs) (simp_all add: assms)

lemma find_checkpoint_update:
  assumes "\<And>c. xc_id (f c) = xc_id c"
  shows "find_checkpoint (update_checkpoint i f db) i = map_option f (find_checkpoint db i)"
  unfolding find_checkpoint_def update_checkpoint_def
  by (simp add: find_map_commutes assms) (auto simp: option.map_comp find_Some_iff intro!: option.map_cong0 dest: find_SomeD)

lemma checkpoint_of_update:
  assumes "\<And>c. xc_repository (f c) = xc_repository c" "\<And>c. xc_prd (f c) = xc_prd c"
  shows "checkpoint_of (update_checkpoint i f db) repo prd
    = map_option (\<lambda>c. if xc_id c = i then f c else c) (checkpoint_of db repo prd)"
  by (simp add: checkpoint_of_def update_checkpoint_def find_map_commutes assms)

lemma checkpoint_of_Some:
  "checkpoint_of db repo prd = Some c \<Longrightarrow> c \<in> set (rd_checkpoints db) \<and> xc_repository c = repo \<and> xc_prd c = prd"
  by (auto simp: checkpoint_of_def dest: find_SomeD)

lemma update_checkpoint_fields [simp]:
  "rd_events (update_checkpoint i f db) = rd_events db" "rd_scopes (update_checkpoint i f db) = rd_scopes db"
  "rd_migrations (update_checkpoint i f db) = rd_migrations db" "rd_driver (update_checkpoint i f db) = rd_driver db"
  by (simp_all add: update_checkpoint_def)

lemma keys_of_fields [simp]:
  "keys_of (db\<lparr>rd_events := e\<rparr>) = keys_of db" "keys_of (db\<lparr>rd_scopes := s\<rparr>) = keys_of db"
  "keys_of (db\<lparr>rd_migrations := m\<rparr>) = keys_of db" "keys_of (db\<lparr>rd_driver := d\<rparr>) = keys_of db"
  by (simp_all add: keys_of_def)

lemma events_for_cong: "rd_events db' = rd_events db \<Longrightarrow> events_for db' i = events_for db i"
  by (simp add: events_for_def)

lemma log_ok_cong: "rd_events db' = rd_events db \<Longrightarrow> keys_of db' = keys_of db \<Longrightarrow> log_ok db' \<longleftrightarrow> log_ok db"
  by (simp add: log_ok_def events_for_def)

lemma split_last_colon:
  assumes "a @ '':'' @ x = b @ '':'' @ y" "CHR '':'' \<notin> set x" "CHR '':'' \<notin> set y"
  shows "a = b \<and> x = y"
proof -
  let ?P = "\<lambda>c. c \<noteq> CHR '':''"
  have w: "takeWhile ?P (rev z @ CHR '':'' # r) = rev z" "dropWhile ?P (rev z @ CHR '':'' # r) = CHR '':'' # r"
    if "CHR '':'' \<notin> set z" for z r :: string
    using that by (induction z rule: rev_induct) auto
  have "rev x @ CHR '':'' # rev a = rev y @ CHR '':'' # rev b" using arg_cong[OF assms(1), of rev] by simp
  from arg_cong[OF this, of "takeWhile ?P"] arg_cong[OF this, of "dropWhile ?P"]
  show ?thesis by (simp add: w assms(2,3))
qed

lemma no_colon_show_nat [simp]: "CHR '':'' \<notin> set (show_nat n)"
  using show_nat_digits[of n] by (auto simp: list_all_iff is_digit_def byte_def)

lemma event_name_inj: "a @ '':'' @ show_nat m = b @ '':'' @ show_nat n \<longleftrightarrow> a = b \<and> m = n"
  using split_last_colon[of a "show_nat m" b "show_nat n"] digits_val_show_nat by (metis no_colon_show_nat)

lemma completed_name: "a @ '':completed'' \<noteq> b @ '':'' @ show_nat n"
proof
  assume a: "a @ '':completed'' = b @ '':'' @ show_nat n"
  have "show_nat n = ''completed''"
    using split_last_colon[of a "''completed''" b "show_nat n"] a by simp
  then show False using show_nat_digits[of n] by (simp add: is_digit_def byte_def)
qed

lemma allocate_next:
  assumes "log_ok db"
  shows "allocate_event db i = (i @ '':'' @ show_nat (length (events_for db i)), length (events_for db i))"
proof -
  have s: "map ce_sequence (events_for db i) = [0..<length (events_for db i)]" using assms by (simp add: log_ok_def)
  have m: "fold max [0..<Suc n] 0 = n" for n :: nat by (induction n) auto
  show ?thesis
  proof (cases "length (events_for db i)")
    case 0 then show ?thesis by (simp add: allocate_event_def)
  next
    case (Suc n)
    then have "fold max (map ce_sequence (events_for db i)) 0 = n" using s Suc m[of n] by simp
    then show ?thesis using Suc by (auto simp: allocate_event_def)
  qed
qed

lemma number_fresh:
  assumes "log_ok db" "e \<in> set (rd_events db)"
  shows "\<not> (ce_checkpoint e = i \<and> ce_sequence e = length (events_for db i))"
proof -
  have "ce_sequence e \<in> set (map ce_sequence (events_for db (ce_checkpoint e)))"
    using assms(2) by (simp add: events_for_def)
  also have "map ce_sequence (events_for db (ce_checkpoint e)) = [0..<length (events_for db (ce_checkpoint e))]"
    using assms(1) by (simp add: log_ok_def)
  finally show ?thesis by auto
qed

lemma log_ok_add_event:
  assumes "log_ok db" "find_checkpoint db (ce_checkpoint e) \<noteq> None" "ce_id e \<notin> set (map ce_id (rd_events db))"
    "ce_id e \<in> event_names e" "ce_sequence e = length (events_for db (ce_checkpoint e))"
  shows "log_ok (db\<lparr>rd_events := rd_events db @ [e]\<rparr>)"
proof -
  let ?db' = "db\<lparr>rd_events := rd_events db @ [e]\<rparr>"
  have k: "keys_of ?db' = keys_of db" by (simp add: keys_of_def)
  have ev: "events_for ?db' j = events_for db j @ (if j = ce_checkpoint e then [e] else [])" for j
    by (simp add: events_for_def)
  show ?thesis using assms unfolding log_ok_def k ev find_checkpoint_iff by simp
qed

text \<open>An event that the allocator numbers is always accepted.\<close>

definition new_event ::
    "string \<Rightarrow> recovery_db \<Rightarrow> string \<Rightarrow> string \<Rightarrow> string option \<Rightarrow> string \<Rightarrow> string \<Rightarrow> checkpoint_event" where
  "new_event now db i kind prior resulting detail =
     (let n = length (events_for db i) in \<lparr>ce_id = i @ '':'' @ show_nat n, ce_checkpoint = i, ce_sequence = n,
        ce_type = kind, ce_prior = prior, ce_resulting = resulting, ce_detail = detail, ce_recorded_at = now\<rparr>)"

lemma insert_event_accepted:
  assumes "log_ok db"
  shows "insert_checkpoint_event now i kind prior resulting detail db =
    (if find_checkpoint db i = None then Inl foreign_key_failed
     else Inr (db\<lparr>rd_events := rd_events db @ [new_event now db i kind prior resulting detail]\<rparr>))"
proof -
  note fresh = number_fresh[OF assms, of _ i]
  have "ce_id e \<noteq> i @ '':'' @ show_nat (length (events_for db i))" if "e \<in> set (rd_events db)" for e
    using that fresh[OF that] assms completed_name event_name_inj unfolding log_ok_def event_names_def by auto
  then show ?thesis
    using fresh by (auto simp: insert_checkpoint_event_def allocate_next[OF assms] list_ex_iff new_event_def Let_def)
qed

lemma insert_event_ok:
  assumes "log_ok db" "insert_checkpoint_event now i kind prior resulting detail db = Inr db'"
  shows "log_ok db'" "rd_scopes db' = rd_scopes db" "rd_migrations db' = rd_migrations db"
    "rd_checkpoints db' = rd_checkpoints db"
proof -
  define e where "e = new_event now db i kind prior resulting detail"
  have i: "find_checkpoint db i \<noteq> None" and db': "db' = db\<lparr>rd_events := rd_events db @ [e]\<rparr>"
    using assms(2) by (auto simp: insert_event_accepted[OF assms(1)] e_def split: if_splits)
  have "ce_id e \<notin> set (map ce_id (rd_events db))"
    using assms(2) by (auto simp: insert_checkpoint_event_def allocate_next[OF assms(1)] list_ex_iff e_def new_event_def
      Let_def split: if_splits)
  then show "log_ok db'"
    unfolding db' using i by (intro log_ok_add_event[OF assms(1)]) (simp_all add: e_def new_event_def Let_def event_names_def)
  show "rd_scopes db' = rd_scopes db" "rd_migrations db' = rd_migrations db" "rd_checkpoints db' = rd_checkpoints db"
    by (simp_all add: db')
qed

lemma log_ok_append:
  assumes "log_ok db" "checkpoint_of db (xc_repository v) (xc_prd v) = None" "find_checkpoint db (xc_id v) = None"
  shows "log_ok (db\<lparr>rd_checkpoints := rd_checkpoints db @ [stored now v]\<rparr>)"
proof -
  let ?db1 = "db\<lparr>rd_checkpoints := rd_checkpoints db @ [stored now v]\<rparr>"
  have k: "keys_of ?db1 = keys_of db @ [(xc_id v, xc_repository v, xc_prd v)]"
    by (simp add: keys_of_def stored_def execution_checkpoint.defs)
  have "(xc_repository v, xc_prd v) \<notin> set (map snd (keys_of db))"
    using assms(2) by (auto simp: checkpoint_of_def find_None_iff keys_of_def)
  moreover have "xc_id v \<notin> set (map fst (keys_of db))" using assms(3) find_checkpoint_iff by blast
  moreover have "events_for ?db1 = events_for db" by (rule ext) (simp add: events_for_def)
  ultimately show ?thesis using assms(1) unfolding log_ok_def k by auto
qed

lemma insert_event_keeps:
  assumes "insert_checkpoint_event now i kind prior resulting detail db = Inr db'"
  shows "rd_scopes db' = rd_scopes db \<and> keys_of db' = keys_of db \<and> rd_migrations db' = rd_migrations db
    \<and> rd_checkpoints db' = rd_checkpoints db"
  using assms by (auto simp: insert_checkpoint_event_def Let_def split_beta keys_of_def split: if_splits)

lemma log_completion_ok:
  assumes "log_ok db" "log_completion now i prior detail db = Inr db'"
  shows "log_ok db'"
proof -
  define e where "e = \<lparr>ce_id = i @ '':completed'', ce_checkpoint = i, ce_sequence = length (events_for db i),
    ce_type = ''phase_transition'', ce_prior = Some prior, ce_resulting = ''completed'', ce_detail = detail,
    ce_recorded_at = now\<rparr>"
  consider "db' = db" | "db' = db\<lparr>rd_events := rd_events db @ [e]\<rparr>" "ce_id e \<notin> set (map ce_id (rd_events db))"
      "find_checkpoint db i \<noteq> None"
    using assms(2)
    by (fastforce simp: log_completion_def Let_def allocate_next[OF assms(1)] list_ex_iff e_def simp del: not_None_eq
        split: if_splits)
  then show ?thesis
  proof cases
    case 2
    then show ?thesis
      using log_ok_add_event[OF assms(1), of e] by (simp add: e_def event_names_def)
  qed (use assms(1) in simp)
qed

lemma log_completion_keeps:
  assumes "log_completion now i prior detail db = Inr db'"
  shows "rd_scopes db' = rd_scopes db \<and> keys_of db' = keys_of db \<and> rd_migrations db' = rd_migrations db
    \<and> rd_checkpoints db' = rd_checkpoints db"
  using assms by (auto simp: log_completion_def Let_def keys_of_def split: if_splits)

lemma complete_checkpoint_row_ok:
  assumes "complete_checkpoint_row now checkpoint candidate merged db = Inr db'"
  shows "log_ok db \<Longrightarrow> log_ok db'"
    "rd_scopes db' = rd_scopes db \<and> keys_of db' = keys_of db \<and> rd_migrations db' = rd_migrations db"
proof -
  let ?f = "\<lambda>r. r\<lparr>xc_phase := ''completed'', xc_invalid_reason := None, xc_updated_at := now\<rparr>"
  have k: "keys_of (update_checkpoint i ?f db) = keys_of db" for i by (simp add: update_checkpoint_keys)
  show "rd_scopes db' = rd_scopes db \<and> keys_of db' = keys_of db \<and> rd_migrations db' = rd_migrations db"
    using assms by (auto simp: complete_checkpoint_row_def k split: option.splits dest!: log_completion_keeps)
  assume "log_ok db"
  then have "log_ok (update_checkpoint i ?f db)" for i by (subst log_ok_cong[of _ db]) (simp_all add: k)
  then show "log_ok db'"
    using assms \<open>log_ok db\<close> unfolding complete_checkpoint_row_def by (cases checkpoint) (simp_all, metis log_completion_ok)
qed

lemma land_attempt_ok:
  assumes "land_attempt now session n prior candidate merged checkpoint prd reserved db = Inr db'"
  shows "log_ok db \<Longrightarrow> log_ok db'" "rd_scopes db' = rd_scopes db \<and> keys_of db' = keys_of db"
    "map (\<lambda>r. (mr_repository r, mr_version r, mr_session r, mr_prd r)) (rd_migrations db')
      = map (\<lambda>r. (mr_repository r, mr_version r, mr_session r, mr_prd r)) (rd_migrations db)"
proof -
  obtain d db1 where c: "complete_checkpoint_row now checkpoint candidate merged (db\<lparr>rd_driver := d\<rparr>) = Inr db1"
    and m: "consume_migration now session prd reserved db1 = Inr db'"
    using assms by (auto simp: land_attempt_def result_simps)
  obtain f where db': "db' = db1\<lparr>rd_migrations := map f (rd_migrations db1)\<rparr>"
    and f: "\<And>r. (mr_repository (f r), mr_version (f r), mr_session (f r), mr_prd (f r))
      = (mr_repository r, mr_version r, mr_session r, mr_prd r)"
    using m by (fastforce simp: consume_migration_def Let_def split: if_splits)
  note ok = complete_checkpoint_row_ok[OF c]
  show "rd_scopes db' = rd_scopes db \<and> keys_of db' = keys_of db"
    and "map (\<lambda>r. (mr_repository r, mr_version r, mr_session r, mr_prd r)) (rd_migrations db')
      = map (\<lambda>r. (mr_repository r, mr_version r, mr_session r, mr_prd r)) (rd_migrations db)"
    using ok(2) f by (simp_all add: db' o_def)
  assume "log_ok db"
  then have "log_ok (db\<lparr>rd_driver := d\<rparr>)" by (subst log_ok_cong[of _ db]) simp_all
  then have "log_ok db1" by (rule ok(1))
  then show "log_ok db'" unfolding db' by (subst log_ok_cong[of _ db1]) simp_all
qed

text \<open>What the landing of an approved scope leaves: the same rows, with another candidate in some questions.\<close>

lemma land_approved_scope_ok:
  assumes "land_approved_scope now session n prior merged i old new db = Inr db'"
  shows "keys_of db' = keys_of db" "rd_events db' = rd_events db" "rd_migrations db' = rd_migrations db"
    "rd_scopes db' = map (\<lambda>s. if sw_checkpoint s = i then s\<lparr>sw_candidate := new\<rparr> else s) (rd_scopes db)"
  using assms
  by (auto simp: land_approved_scope_def complete_bound_checkpoint_def rebind_scopes_def result_simps
      update_checkpoint_keys split: option.splits if_splits)

lemma approve_checkpoint_ok:
  assumes "approve_checkpoint now i phase actor hash commit db = Inr db'"
  shows "log_ok db \<Longrightarrow> log_ok db'"
    "rd_scopes db' = rd_scopes db \<and> keys_of db' = keys_of db \<and> rd_migrations db' = rd_migrations db"
proof -
  let ?f = "\<lambda>c. c\<lparr>xc_phase := ''completed'', xc_invalid_reason := None, xc_approved_hash := Some hash,
    xc_approved_commit := Some commit, xc_updated_at := now\<rparr>"
  have k: "keys_of (update_checkpoint i ?f db) = keys_of db" by (simp add: update_checkpoint_keys)
  obtain kind p r t where e: "insert_checkpoint_event now i kind p r t (update_checkpoint i ?f db) = Inr db'"
    using assms by (auto simp: approve_checkpoint_def result_simps split: option.splits if_splits)
  show "rd_scopes db' = rd_scopes db \<and> keys_of db' = keys_of db \<and> rd_migrations db' = rd_migrations db"
    using insert_event_keeps[OF e] by (simp add: k)
  assume "log_ok db"
  then have "log_ok (update_checkpoint i ?f db)" by (subst log_ok_cong[of _ db]) (simp_all add: k)
  then show "log_ok db'" using e insert_event_ok(1) by blast
qed

lemma put_log_ok:
  assumes "log_ok db" "put_checkpoint now db v = Inr db'"
  shows "log_ok db'"
proof (cases "checkpoint_of db (xc_repository v) (xc_prd v)")
  case (Some c)
  have "keys_of (update_checkpoint (xc_id c) (refreeze now v) db) = keys_of db"
    by (intro update_checkpoint_keys) (simp_all add: refreeze_def)
  then have "keys_of db' = keys_of db" "rd_events db' = rd_events db"
    using assms(2) Some by (auto simp: put_checkpoint_def result_simps)
  then show ?thesis using assms(1) log_ok_cong by blast
next
  case None
  then have "find_checkpoint db (xc_id v) = None"
    and "insert_checkpoint_event now (xc_id v) ''checkpoint_created'' None (xc_phase v)
      ''implementation_checkpoint'' (db\<lparr>rd_checkpoints := rd_checkpoints db @ [stored now v]\<rparr>) = Inr db'"
    using assms(2) by (auto simp: put_checkpoint_def result_simps split: if_splits)
  then show ?thesis using log_ok_append[OF assms(1) None] insert_event_ok(1) by blast
qed

text \<open>Freezing a PRD again changes its row only, and keeps the identity and the path of it.\<close>

lemma refreezing_changes_one_row:
  assumes "log_ok db" "get_checkpoint db (xc_repository v) (xc_prd v) = Some c" "put_checkpoint now db v = Inr db'"
  shows "get_checkpoint db' (xc_repository v) prd =
    (if prd = xc_prd v then Some (v\<lparr>xc_id := xc_id c, xc_prd_path := xc_prd_path c\<rparr>)
     else get_checkpoint db (xc_repository v) prd)"
proof -
  obtain r where r: "checkpoint_of db (xc_repository v) (xc_prd v) = Some r" "c = execution_checkpoint.truncate r"
    using assms(2) by (auto simp: get_checkpoint_def)
  have new: "checkpoint_of db' (xc_repository v) prd
      = map_option (\<lambda>c. if xc_id c = xc_id r then refreeze now v c else c) (checkpoint_of db (xc_repository v) prd)"
  proof -
    have "checkpoint_of db' = checkpoint_of (update_checkpoint (xc_id r) (refreeze now v) db)"
      using assms(3) r(1) by (intro ext) (auto simp: put_checkpoint_def result_simps checkpoint_of_def)
    then show ?thesis by (simp add: checkpoint_of_update refreeze_def)
  qed
  show ?thesis
  proof (cases "prd = xc_prd v")
    case True
    have "execution_checkpoint.truncate (refreeze now v r) = v\<lparr>xc_id := xc_id r, xc_prd_path := xc_prd_path r\<rparr>"
      using checkpoint_of_Some[OF r(1)] by (cases v) (simp add: refreeze_def execution_checkpoint.truncate_def)
    moreover have "xc_id c = xc_id r" "xc_prd_path c = xc_prd_path r" by (simp_all add: r(2) execution_checkpoint.truncate_def)
    ultimately show ?thesis using True r(1) new by (simp add: get_checkpoint_def)
  next
    case False
    have "xc_id q \<noteq> xc_id r" if q: "checkpoint_of db (xc_repository v) prd = Some q" for q
    proof
      assume "xc_id q = xc_id r"
      moreover have "distinct (map xc_id (rd_checkpoints db))" using assms(1) by (simp add: log_ok_def keys_of_def o_def)
      ultimately have "q = r" using checkpoint_of_Some[OF q] checkpoint_of_Some[OF r(1)] by (auto simp: distinct_map inj_on_def)
      then show False using False checkpoint_of_Some[OF q] checkpoint_of_Some[OF r(1)] by simp
    qed
    then show ?thesis using False by (cases "checkpoint_of db (xc_repository v) prd") (auto simp: get_checkpoint_def new)
  qed
qed

lemma record_decision_fields [simp]:
  "rd_checkpoints (record_decision now hash v actor reason db) = rd_checkpoints db"
  "rd_events (record_decision now hash v actor reason db) = rd_events db"
  "rd_migrations (record_decision now hash v actor reason db) = rd_migrations db"
  "keys_of (record_decision now hash v actor reason db) = keys_of db"
  by (simp_all add: record_decision_def keys_of_def)

lemma set_scope_phase_fields [simp]:
  "rd_events (set_scope_phase now i phase db) = rd_events db"
  "rd_scopes (set_scope_phase now i phase db) = rd_scopes db"
  "rd_migrations (set_scope_phase now i phase db) = rd_migrations db"
  "keys_of (set_scope_phase now i phase db) = keys_of db"
  by (simp_all add: set_scope_phase_def update_checkpoint_keys split: option.splits)

lemma recovery_step_log_ok:
  assumes "recovery_step db db'" "log_ok db"
  shows "log_ok db'"
  using assms
proof (cases rule: recovery_step.cases)
  case (rs_put now v) then show ?thesis using put_log_ok assms(2) by blast
next
  case (rs_transition now i phase detail)
  let ?db1 = "update_checkpoint i (\<lambda>c. c\<lparr>xc_phase := phase, xc_invalid_reason := None, xc_updated_at := now\<rparr>) db"
  have "log_ok ?db1" using assms(2) by (subst log_ok_cong[of _ db]) (simp_all add: update_checkpoint_keys)
  then show ?thesis
    using rs_transition assms(2) insert_event_ok(1)
    by (auto simp: transition_checkpoint_def result_simps split: option.splits if_splits)
next
  case (rs_rebind now i old new commit)
  then show ?thesis using assms(2)
    by (subst log_ok_cong[of _ db])
      (auto simp: rebind_candidate_def update_checkpoint_keys split: option.splits if_splits)
next
  case (rs_record json now i old new actor reason)
  then show ?thesis using assms(2) insert_event_ok(1) by (auto simp: record_rebind_def split: option.splits)
next
  case (rs_initialize i revision)
  then show ?thesis using assms(2)
    by (subst log_ok_cong[of _ db]) (auto simp: initialize_integration_def result_simps keys_of_def)
next
  case (rs_advance now i expected candidate n)
  then show ?thesis using assms(2)
    by (subst log_ok_cong[of _ db]) (auto simp: advance_integration_def result_simps keys_of_def)
next
  case (rs_reserve now repo session prd first r)
  then show ?thesis using assms(2)
    by (subst log_ok_cong[of _ db])
      (auto simp: reserve_migration_def set_migration_def keys_of_def Let_def
        split: option.splits migration_state.splits if_splits)
next
  case (rs_resolve now session prd consume)
  then show ?thesis using assms(2)
    by (subst log_ok_cong[of _ db]) (auto simp: resolve_migration_def set_migration_def result_simps keys_of_def)
next
  case (rs_finding now repo checkpoint prd candidate hash json)
  then show ?thesis using assms(2)
    by (subst log_ok_cong[of _ db]) (auto simp: record_scope_finding_def keys_of_def split: if_splits)
next
  case (rs_decide now repo hash candidate approve actor reason c)
  then show ?thesis using assms(2)
    by (subst log_ok_cong[of _ db])
      (auto simp: decide_scope_def Let_def split: option.splits)
next
  case (rs_land now session n prior candidate merged checkpoint prd reserved)
  then show ?thesis using land_attempt_ok(1) assms(2) by blast
next
  case (rs_scope_land now session n prior merged i old new)
  then show ?thesis using land_approved_scope_ok assms(2) by (subst log_ok_cong[of _ db]) blast+
next
  case (rs_approve now i phase actor hash commit)
  then show ?thesis using approve_checkpoint_ok(1) assms(2) by blast
next
  case (rs_driver d)
  then show ?thesis using assms(2) by (subst log_ok_cong[of _ db]) (auto simp: keys_of_def)
qed

definition recovery_reachable :: "recovery_db \<Rightarrow> bool" where
  "recovery_reachable db \<longleftrightarrow> recovery_step\<^sup>*\<^sup>* empty_recovery db"

lemma reachable_log_ok: "recovery_reachable db \<Longrightarrow> log_ok db"
  unfolding recovery_reachable_def
proof (induction rule: rtranclp_induct)
  case base show ?case by (simp add: log_ok_def empty_recovery_def keys_of_def events_for_def)
next
  case (step y z) then show ?case using recovery_step_log_ok by blast
qed


section \<open>Decisions on scope\<close>

definition scope_ok :: "recovery_db \<Rightarrow> bool" where
  "scope_ok db \<longleftrightarrow> distinct (map sw_finding_hash (rd_scopes db))
     \<and> (\<forall>s\<in>set (rd_scopes db). sw_checkpoint s \<in> set (map fst (keys_of db)))"

text \<open>
  A step adds an open question, or drops or decides open ones; it never forgets a checkpoint. Of an answered
  question only the candidate that it is about changes, when the candidate lands.
\<close>

definition still_recorded :: "scope_row \<Rightarrow> recovery_db \<Rightarrow> bool" where
  "still_recorded s db \<longleftrightarrow> (\<exists>candidate. s\<lparr>sw_candidate := candidate\<rparr> \<in> set (rd_scopes db))"

lemma still_recordedI: "s \<in> set (rd_scopes db) \<Longrightarrow> still_recorded s db"
  unfolding still_recorded_def by (rule exI[of _ "sw_candidate s"]) simp

definition scope_kept :: "recovery_db \<Rightarrow> recovery_db \<Rightarrow> bool" where
  "scope_kept db db' \<longleftrightarrow> set (keys_of db) \<subseteq> set (keys_of db')
     \<and> (\<forall>s\<in>set (rd_scopes db). sw_decision s \<noteq> None \<longrightarrow> still_recorded s db')"

lemma scope_keptI:
  assumes "set (keys_of db) \<subseteq> set (keys_of db')"
    "\<And>s. s \<in> set (rd_scopes db) \<Longrightarrow> sw_decision s \<noteq> None \<Longrightarrow> s \<in> set (rd_scopes db')"
  shows "scope_kept db db'"
  using assms still_recordedI unfolding scope_kept_def by blast

lemma scope_kept_same: "rd_scopes db' = rd_scopes db \<Longrightarrow> keys_of db' = keys_of db \<Longrightarrow> scope_kept db db'"
  by (rule scope_keptI) simp_all

lemma scope_kept_trans:
  assumes "scope_kept x y" "scope_kept y z"
  shows "scope_kept x z"
proof -
  have "still_recorded s z" if s: "s \<in> set (rd_scopes x)" "sw_decision s \<noteq> None" for s
  proof -
    obtain c where c: "s\<lparr>sw_candidate := c\<rparr> \<in> set (rd_scopes y)"
      using assms(1) s unfolding scope_kept_def still_recorded_def by blast
    then have "still_recorded (s\<lparr>sw_candidate := c\<rparr>) z"
      using assms(2) s(2) unfolding scope_kept_def by auto
    then show ?thesis by (simp add: still_recorded_def)
  qed
  then show ?thesis using assms unfolding scope_kept_def by blast
qed

lemma put_scope:
  assumes "put_checkpoint now db v = Inr db'" "log_ok db"
  shows "scope_kept db db'" "\<exists>p. rd_scopes db' = filter p (rd_scopes db)"
proof -
  show "\<exists>p. rd_scopes db' = filter p (rd_scopes db)"
  proof (cases "checkpoint_of db (xc_repository v) (xc_prd v)")
    case None
    then have "rd_scopes db' = rd_scopes db"
      using assms(1) by (auto simp: put_checkpoint_def result_simps insert_checkpoint_event_def Let_def split_beta split: if_splits)
    then show ?thesis by (intro exI[of _ "\<lambda>_. True"]) simp
  qed (use assms(1) in \<open>auto simp: put_checkpoint_def result_simps\<close>)
  show "scope_kept db db'"
  proof (cases "checkpoint_of db (xc_repository v) (xc_prd v)")
    case (Some c)
    have "keys_of (update_checkpoint (xc_id c) (refreeze now v) db) = keys_of db"
      by (intro update_checkpoint_keys) (simp_all add: refreeze_def)
    then show ?thesis
      using assms(1) Some by (intro scope_keptI) (auto simp: put_checkpoint_def result_simps outdated_scope_def)
  next
    case None
    then have "rd_scopes db' = rd_scopes db" "rd_checkpoints db' = rd_checkpoints db @ [stored now v]"
      using assms(1) by (auto simp: put_checkpoint_def result_simps insert_checkpoint_event_def Let_def split_beta split: if_splits)
    then show ?thesis by (intro scope_keptI) (auto simp: keys_of_def)
  qed
qed

lemma recovery_step_scope:
  assumes "recovery_step db db'" "log_ok db"
  shows "scope_kept db db' \<and> (scope_ok db \<longrightarrow> scope_ok db')"
  using assms
proof (cases rule: recovery_step.cases)
  case (rs_put now v)
  then have k: "scope_kept db db'" and "\<exists>p. rd_scopes db' = filter p (rd_scopes db)" using put_scope assms(2) by blast+
  then obtain p where p: "rd_scopes db' = filter p (rd_scopes db)" by blast
  have "scope_ok db'" if "scope_ok db"
    using that k image_mono[of "set (keys_of db)" "set (keys_of db')" fst]
    unfolding scope_ok_def scope_kept_def p by (auto simp: distinct_map_filter)
  with k show ?thesis by blast
next
  case (rs_transition now i phase detail)
  then have "rd_scopes db' = rd_scopes db \<and> keys_of db' = keys_of db"
    by (auto simp: transition_checkpoint_def result_simps update_checkpoint_keys
        split: option.splits if_splits dest!: insert_event_keeps)
  then show ?thesis by (simp add: scope_kept_same scope_ok_def)
next
  case (rs_rebind now i old new commit)
  then have "rd_scopes db' = rd_scopes db \<and> keys_of db' = keys_of db"
    by (auto simp: rebind_candidate_def update_checkpoint_keys split: option.splits if_splits)
  then show ?thesis by (simp add: scope_kept_same scope_ok_def)
next
  case (rs_record json now i old new actor reason)
  then have "rd_scopes db' = rd_scopes db \<and> keys_of db' = keys_of db"
    by (auto simp: record_rebind_def split: option.splits dest!: insert_event_keeps)
  then show ?thesis by (simp add: scope_kept_same scope_ok_def)
next
  case (rs_reserve now repo session prd first r)
  then have "rd_scopes db' = rd_scopes db \<and> keys_of db' = keys_of db"
    by (auto simp: reserve_migration_def set_migration_def Let_def
        split: option.splits migration_state.splits if_splits)
  then show ?thesis by (simp add: scope_kept_same scope_ok_def)
next
  case (rs_finding now repo checkpoint prd candidate hash json)
  show ?thesis
  proof (cases "find_scope db hash")
    case (Some s) then show ?thesis using rs_finding by (simp add: record_scope_finding_def scope_kept_same)
  next
    case None
    then have new: "hash \<notin> set (map sw_finding_hash (rd_scopes db))" by (auto simp: find_scope_def find_None_iff)
    have c: "checkpoint \<in> set (map fst (keys_of db))"
      using rs_finding None find_checkpoint_iff[of db checkpoint]
      by (auto simp: record_scope_finding_def simp del: not_None_eq split: if_splits)
    obtain r where db': "db' = db\<lparr>rd_scopes := rd_scopes db @ [r]\<rparr>"
      and r: "sw_finding_hash r = hash" "sw_checkpoint r = checkpoint"
      using rs_finding None by (auto simp: record_scope_finding_def split: if_splits)
    have "scope_kept db db'" by (rule scope_keptI) (simp_all add: db')
    then show ?thesis using new c unfolding scope_ok_def db' by (simp add: r)
  qed
next
  case (rs_decide now repo hash candidate approve actor reason c)
  have h: "map sw_finding_hash (rd_scopes (record_decision now hash v actor reason db)) = map sw_finding_hash (rd_scopes db)"
    "map sw_checkpoint (rd_scopes (record_decision now hash v actor reason db)) = map sw_checkpoint (rd_scopes db)"
    "s \<in> set (rd_scopes db) \<Longrightarrow> sw_decision s \<noteq> None \<Longrightarrow> s \<in> set (rd_scopes (record_decision now hash v actor reason db))"
    for v s by (force simp: record_decision_def)+
  obtain v where s: "rd_scopes db' = rd_scopes (record_decision now hash v actor reason db)" "keys_of db' = keys_of db"
    using rs_decide by (auto simp: decide_scope_def Let_def split: option.splits)
  have "sw_checkpoint ` set (rd_scopes db') = sw_checkpoint ` set (rd_scopes db)"
    using arg_cong[OF h(2), of set] s by simp
  then have "scope_ok db \<longrightarrow> scope_ok db'" using s h unfolding scope_ok_def by (auto simp: image_iff set_eq_iff) metis
  moreover have "scope_kept db db'" using s h by (intro scope_keptI) simp_all
  ultimately show ?thesis by blast
next
  case (rs_land now session n prior candidate merged checkpoint prd reserved)
  from land_attempt_ok(2)[OF this] show ?thesis by (simp add: scope_kept_same scope_ok_def)
next
  case (rs_scope_land now session n prior merged i old new)
  note ok = land_approved_scope_ok[OF this]
  have "map sw_finding_hash (rd_scopes db') = map sw_finding_hash (rd_scopes db)"
    "map sw_checkpoint (rd_scopes db') = map sw_checkpoint (rd_scopes db)" by (simp_all add: ok(4))
  moreover from this(2) have "sw_checkpoint ` set (rd_scopes db') = sw_checkpoint ` set (rd_scopes db)" by (metis set_map)
  ultimately have "scope_ok db \<longrightarrow> scope_ok db'" unfolding scope_ok_def ok(1) image_subset_iff[symmetric] by simp
  moreover have "still_recorded s db'" if "s \<in> set (rd_scopes db)" for s
    unfolding still_recorded_def ok(4)
    by (rule exI[of _ "if sw_checkpoint s = i then new else sw_candidate s"]) (use that in auto)
  ultimately show ?thesis by (simp add: scope_kept_def ok(1))
next
  case (rs_approve now i phase actor hash commit)
  from approve_checkpoint_ok(2)[OF this] show ?thesis by (simp add: scope_kept_same scope_ok_def)
qed (auto intro!: scope_kept_same simp: keys_of_def scope_ok_def initialize_integration_def advance_integration_def
    resolve_migration_def set_migration_def result_simps)

lemma recovery_steps_keep_scope:
  assumes "recovery_step\<^sup>*\<^sup>* db db'" "log_ok db" "scope_ok db"
  shows "log_ok db' \<and> scope_ok db' \<and> scope_kept db db'"
  using assms
proof (induction rule: rtranclp_induct)
  case base then show ?case by (simp add: scope_kept_same)
next
  case (step y z)
  then have "log_ok z" "scope_kept y z \<and> scope_ok z"
    using recovery_step_log_ok recovery_step_scope by blast+
  with step show ?case using scope_kept_trans by blast
qed

lemma reachable_scope_ok: "recovery_reachable db \<Longrightarrow> scope_ok db"
  using recovery_steps_keep_scope[of empty_recovery db]
  by (simp add: recovery_reachable_def log_ok_def scope_ok_def empty_recovery_def keys_of_def events_for_def)


section \<open>Migration versions\<close>

definition migrations_ok :: "recovery_db \<Rightarrow> bool" where
  "migrations_ok db \<longleftrightarrow> distinct (map (\<lambda>r. (mr_repository r, mr_version r)) (rd_migrations db))
     \<and> distinct (map (\<lambda>r. (mr_session r, mr_prd r)) (rd_migrations db))
     \<and> (\<forall>r\<in>set (rd_migrations db). 0 < mr_version r \<and> mr_version r < 2 ^ 63)"

lemma highest_version_Max:
  "highest_version db repo =
     (let vs = mr_version ` {r \<in> set (rd_migrations db). mr_repository r = repo} in if vs = {} then 0 else Max vs)"
proof -
  have s: "mr_version ` {r \<in> set (rd_migrations db). mr_repository r = repo}
      = set (map mr_version (filter (\<lambda>r. mr_repository r = repo) (rd_migrations db)))" by simp
  show ?thesis
    unfolding highest_version_def s
    by (cases "map mr_version (filter (\<lambda>r. mr_repository r = repo) (rd_migrations db))")
      (simp_all only: Max.set_eq_fold[symmetric] Let_def list.case list.set if_True insert_not_empty if_False simp_thms)
qed

lemma highest_version_upper:
  "r \<in> set (rd_migrations db) \<Longrightarrow> mr_repository r = repo \<Longrightarrow> mr_version r \<le> highest_version db repo"
  by (auto simp: highest_version_Max Let_def intro!: Max_ge)

lemma highest_version_range:
  assumes "migrations_ok db"
  shows "0 \<le> highest_version db repo \<and> highest_version db repo < 2 ^ 63"
proof (cases "mr_version ` {r \<in> set (rd_migrations db). mr_repository r = repo} = {}")
  case False
  then have "highest_version db repo \<in> mr_version ` {r \<in> set (rd_migrations db). mr_repository r = repo}"
    by (simp add: highest_version_Max Let_def del: image_is_empty)
  then show ?thesis using assms by (auto simp: migrations_ok_def)
qed (simp add: highest_version_Max)


text \<open>A version that is not reserved yet: above the floor and above every version of the repository.\<close>

lemma next_version_new:
  assumes "migrations_ok db" "\<not> sint (next_version db repo first) \<le> 0"
  shows "sint (next_version db repo first) = uint (next_version db repo first)"
    "first \<le> next_version db repo first" "highest_version db repo < uint (next_version db repo first)"
    "uint (next_version db repo first) < 2 ^ 63"
proof -
  let ?v = "next_version db repo first" and ?h = "highest_version db repo"
  have h: "0 \<le> ?h" "?h < 2 ^ 63" using highest_version_range[OF assms(1)] by auto
  have "0 < sint ?v" "sint ?v < 2 ^ 63" using assms(2) sint_lt[of ?v] by simp_all
  then have "take_bit 64 (sint ?v) = sint ?v" by (simp add: take_bit_int_eq_self_iff)
  then show s: "sint ?v = uint ?v" by (simp add: uint_sint)
  with \<open>sint ?v < 2 ^ 63\<close> show "uint ?v < 2 ^ 63" by simp
  show "first \<le> ?v" by (simp add: next_version_def)
  have u: "uint (word_of_int ?h :: u64) = ?h" using h by (simp add: uint_word_of_int)
  have "uint (- 1 :: u64) = 2 ^ 64 - 1" by (simp add: unsigned_minus_1_eq_mask mask_eq_exp_minus_1)
  with u h have "(word_of_int ?h :: u64) \<noteq> - 1" by force
  then have "uint (saturating_succ64 (word_of_int ?h)) = ?h + 1"
    using h u by (simp add: saturating_succ64_def uint_plus_if_size word_size)
  moreover have "uint (saturating_succ64 (word_of_int ?h)) \<le> uint ?v"
    by (simp add: next_version_def word_le_def[symmetric])
  ultimately show "?h < uint ?v" by simp
qed


lemma set_migration_keys:
  assumes "\<And>r. mr_repository (f r) = mr_repository r" "\<And>r. mr_version (f r) = mr_version r"
    "\<And>r. mr_session (f r) = mr_session r" "\<And>r. mr_prd (f r) = mr_prd r"
  shows "map (\<lambda>r. (mr_repository r, mr_version r, mr_session r, mr_prd r)) (rd_migrations (set_migration s p st t f db))
    = map (\<lambda>r. (mr_repository r, mr_version r, mr_session r, mr_prd r)) (rd_migrations db)"
  using assms by (simp add: set_migration_def)

lemma migrations_ok_keys:
  assumes "map (\<lambda>r. (mr_repository r, mr_version r, mr_session r, mr_prd r)) (rd_migrations db')
    = map (\<lambda>r. (mr_repository r, mr_version r, mr_session r, mr_prd r)) (rd_migrations db)"
  shows "migrations_ok db' \<longleftrightarrow> migrations_ok db"
proof -
  let ?k = "\<lambda>r. (mr_repository r, mr_version r, mr_session r, mr_prd r)"
  have m: "map (g \<circ> ?k) (rd_migrations db') = map (g \<circ> ?k) (rd_migrations db)" for g :: "_ \<Rightarrow> 'z"
    using arg_cong[OF assms, of "map g"] by simp
  have e: "map (\<lambda>r. (mr_repository r, mr_version r)) (rd_migrations db') = map (\<lambda>r. (mr_repository r, mr_version r)) (rd_migrations db)"
    "map (\<lambda>r. (mr_session r, mr_prd r)) (rd_migrations db') = map (\<lambda>r. (mr_session r, mr_prd r)) (rd_migrations db)"
    "map mr_version (rd_migrations db') = map mr_version (rd_migrations db)"
    using m[of "\<lambda>(a, b, c, d). (a, b)"] m[of "\<lambda>(a, b, c, d). (c, d)"] m[of "\<lambda>(a, b, c, d). b"] by (simp_all add: o_def)
  have v: "(\<forall>r\<in>set (rd_migrations d). 0 < mr_version r \<and> mr_version r < 2 ^ 63)
      \<longleftrightarrow> (\<forall>x\<in>set (map mr_version (rd_migrations d)). 0 < x \<and> x < 2 ^ 63)" for d by simp
  show ?thesis unfolding migrations_ok_def v e ..
qed

lemma reserve_migrations_ok:
  assumes "migrations_ok db" "reserve_migration now db repo s p first = Inr (r, db')"
  shows "migrations_ok db'"
proof (cases "reservation_row db s p")
  case (Some x)
  then show ?thesis
    using assms by (subst migrations_ok_keys[of _ db])
      (auto simp: reserve_migration_def set_migration_keys split: migration_state.splits)
next
  case None
  let ?v = "next_version db repo first"
  have pos: "\<not> sint ?v \<le> 0" and new: "(repo, sint ?v) \<notin> set (map (\<lambda>r. (mr_repository r, mr_version r)) (rd_migrations db))"
    and db': "rd_migrations db' = rd_migrations db @ [\<lparr>mr_repository = repo, mr_version = sint ?v, mr_session = s,
      mr_prd = p, mr_state = Migration_Reserved, mr_reserved_at = now, mr_resolved_at = None\<rparr>]"
    using assms(2) None by (auto simp: reserve_migration_def Let_def list_ex_iff split: if_splits)
  have "(s, p) \<notin> set (map (\<lambda>r. (mr_session r, mr_prd r)) (rd_migrations db))"
    using None by (auto simp: reservation_row_def find_None_iff)
  moreover have "0 < uint ?v" using pos next_version_new(1)[OF assms(1) pos] by linarith
  ultimately show ?thesis
    using new next_version_new[OF assms(1) pos] assms(1) unfolding migrations_ok_def db' by auto
qed

lemma recovery_step_migrations_ok:
  assumes "recovery_step db db'" "migrations_ok db"
  shows "migrations_ok db'"
  using assms
proof (cases rule: recovery_step.cases)
  case (rs_reserve now repo session prd first r) then show ?thesis using reserve_migrations_ok assms(2) by blast
next
  case (rs_resolve now session prd consume)
  then show ?thesis
    using assms(2) by (subst migrations_ok_keys[of _ db]) (auto simp: resolve_migration_def result_simps set_migration_keys)
next
  case (rs_put now v)
  then have "rd_migrations db' = rd_migrations db"
    by (auto simp: put_checkpoint_def result_simps split: option.splits if_splits dest!: insert_event_keeps)
  then show ?thesis using assms(2) by (simp add: migrations_ok_def)
next
  case (rs_transition now i phase detail)
  then have "rd_migrations db' = rd_migrations db"
    by (auto simp: transition_checkpoint_def result_simps split: option.splits if_splits dest!: insert_event_keeps)
  then show ?thesis using assms(2) by (simp add: migrations_ok_def)
next
  case (rs_record json now i old new actor reason)
  then have "rd_migrations db' = rd_migrations db"
    by (auto simp: record_rebind_def split: option.splits dest!: insert_event_keeps)
  then show ?thesis using assms(2) by (simp add: migrations_ok_def)
next
  case (rs_land now session n prior candidate merged checkpoint prd reserved)
  from migrations_ok_keys[OF land_attempt_ok(3)[OF this]] show ?thesis using assms(2) by simp
next
  case (rs_scope_land now session n prior merged i old new)
  from land_approved_scope_ok(3)[OF this] show ?thesis using assms(2) by (simp add: migrations_ok_def)
next
  case (rs_approve now i phase actor hash commit)
  from approve_checkpoint_ok(2)[OF this] show ?thesis using assms(2) by (simp add: migrations_ok_def)
qed (auto simp: migrations_ok_def rebind_candidate_def initialize_integration_def advance_integration_def
    record_scope_finding_def decide_scope_def Let_def result_simps split: option.splits if_splits)

lemma reachable_migrations_ok: "recovery_reachable db \<Longrightarrow> migrations_ok db"
  unfolding recovery_reachable_def
proof (induction rule: rtranclp_induct)
  case base show ?case by (simp add: migrations_ok_def empty_recovery_def)
next
  case (step y z) then show ?case using recovery_step_migrations_ok by blast
qed

end
