(* ===== verification/Checkpoint_Guarantees.thy ===== *)
theory Checkpoint_Guarantees
  imports Checkpoint_Safety
begin

text \<open>
  What recovery and landing may rely on: writes to the log of a checkpoint are never refused for a
  collision, decisions on scope are final and settle the phase of the checkpoint, a migration version
  belongs to one PRD of one session, and pages of checkpoints join up. Also where the records fall short.
\<close>

section \<open>The log\<close>

text \<open>
  in every reachable database the events of a checkpoint are numbered from 0 without gaps, under names
  that are all different, and a write to the log is refused only for an unknown phase, an unknown checkpoint
  or an identity that belongs to another checkpoint, never for a collision of events.
\<close>

lemma checkpoint_log_never_collides:
  assumes "recovery_reachable db"
  shows "distinct (map ce_id (rd_events db)) \<and> (\<forall>i. map ce_sequence (events_for db i) = [0..<length (events_for db i)])
    \<and> (\<forall>now v e. put_checkpoint now db v = Inl e \<longleftrightarrow>
         xc_phase v \<notin> set checkpoint_phases \<and> e = check_failed ''phase''
         \<or> xc_phase v \<in> set checkpoint_phases \<and> checkpoint_of db (xc_repository v) (xc_prd v) = None
           \<and> find_checkpoint db (xc_id v) \<noteq> None \<and> e = unique_failed ''execution_checkpoints.checkpoint_id'')
    \<and> (\<forall>now i phase detail e. transition_checkpoint now db i phase detail = Inl e \<longleftrightarrow>
         find_checkpoint db i = None \<and> e = Database_Error (''checkpoint '' @ i @ '' not found'')
         \<or> phase \<notin> set checkpoint_phases \<and> e = check_failed ''phase''
           \<and> (\<exists>c. find_checkpoint db i = Some c \<and> xc_phase c \<noteq> phase))"
proof (intro conjI allI)
  have ok: "log_ok db" by (rule reachable_log_ok[OF assms])
  show "distinct (map ce_id (rd_events db))" and "map ce_sequence (events_for db i) = [0..<length (events_for db i)]" for i
    using ok by (simp_all add: log_ok_def)
  fix now v e
  let ?db1 = "db\<lparr>rd_checkpoints := rd_checkpoints db @ [stored now v]\<rparr>"
  have "insert_checkpoint_event now (xc_id v) k p r d ?db1 \<noteq> Inl e'"
    if "checkpoint_of db (xc_repository v) (xc_prd v) = None" "find_checkpoint db (xc_id v) = None" for k p r d e'
  proof -
    have "log_ok ?db1" using log_ok_append[OF ok that] .
    moreover have "find_checkpoint ?db1 (xc_id v) \<noteq> None"
      unfolding find_checkpoint_iff by (simp add: keys_of_def stored_def execution_checkpoint.defs)
    ultimately show ?thesis by (simp add: insert_event_accepted del: not_None_eq)
  qed
  then show "put_checkpoint now db v = Inl e \<longleftrightarrow>
         xc_phase v \<notin> set checkpoint_phases \<and> e = check_failed ''phase''
         \<or> xc_phase v \<in> set checkpoint_phases \<and> checkpoint_of db (xc_repository v) (xc_prd v) = None
           \<and> find_checkpoint db (xc_id v) \<noteq> None \<and> e = unique_failed ''execution_checkpoints.checkpoint_id''"
    by (auto simp: put_checkpoint_def check_phase_def ensure_def split: option.splits)
next
  have ok: "log_ok db" by (rule reachable_log_ok[OF assms])
  fix now i phase detail e
  let ?db1 = "update_checkpoint i (\<lambda>c. c\<lparr>xc_phase := phase, xc_invalid_reason := None, xc_updated_at := now\<rparr>) db"
  have k: "keys_of ?db1 = keys_of db" by (rule update_checkpoint_keys) simp_all
  then have "log_ok ?db1" using ok by (subst log_ok_cong[of _ db]) simp_all
  moreover have "find_checkpoint ?db1 i \<noteq> None \<longleftrightarrow> find_checkpoint db i \<noteq> None"
    unfolding find_checkpoint_iff k ..
  ultimately show "transition_checkpoint now db i phase detail = Inl e \<longleftrightarrow>
         find_checkpoint db i = None \<and> e = Database_Error (''checkpoint '' @ i @ '' not found'')
         \<or> phase \<notin> set checkpoint_phases \<and> e = check_failed ''phase''
           \<and> (\<exists>c. find_checkpoint db i = Some c \<and> xc_phase c \<noteq> phase)"
    by (auto simp: transition_checkpoint_def check_phase_def ensure_def insert_event_accepted split: option.splits)
qed


section \<open>Examples\<close>

definition sample_checkpoint :: execution_checkpoint where
  "sample_checkpoint = \<lparr>xc_id = ''checkpoint-e1'', xc_repository = ''repo'', xc_prd = ''PRD-7'', xc_prd_path = ''docs/PRD-7.md'',
     xc_execution = Some ''e1'', xc_phase = ''implemented'', xc_base_revision = ''b0'', xc_worktree = ''/w'',
     xc_branch = None, xc_diff_hash = ''h1'', xc_changed_files = ''[]'', xc_agent = ''a'', xc_usage = ''{}'',
     xc_test_evidence = ''{}'', xc_invalid_reason = None\<rparr>"

definition sample_session :: driver_db where
  "sample_session = (case open_session ''t0'' empty_driver ''s1'' ''repo'' ''{}'' of Inr d \<Rightarrow> d | Inl _ \<Rightarrow> empty_driver)"

lemma sample_session_step: "driver_step empty_driver sample_session"
proof -
  have "open_session ''t0'' empty_driver ''s1'' ''repo'' ''{}'' = Inr sample_session"
    by (simp add: sample_session_def open_session_def empty_driver_def find_session_def)
  then show ?thesis by (rule ds_open)
qed

definition with_session :: recovery_db where
  "with_session = empty_recovery\<lparr>rd_driver := sample_session\<rparr>"

definition frozen_db :: recovery_db where
  "frozen_db = (case put_checkpoint ''t1'' with_session sample_checkpoint of Inr db \<Rightarrow> db | Inl _ \<Rightarrow> empty_recovery)"

text \<open>Its checkpoint has one question on scope, asked and rejected.\<close>

definition asked_db :: recovery_db where
  "asked_db = (case record_scope_finding ''t2'' frozen_db ''repo'' ''checkpoint-e1'' ''PRD-7'' ''h1'' ''f1'' ''{}'' of
     Inr db \<Rightarrow> db | Inl _ \<Rightarrow> empty_recovery)"

definition rejected_db :: recovery_db where
  "rejected_db = (case decide_scope ''t3'' asked_db ''repo'' ''f1'' ''h1'' False ''human:a'' ''no'' of
     Inr (_, db) \<Rightarrow> db | Inl _ \<Rightarrow> empty_recovery)"

lemma with_session_reachable: "recovery_reachable with_session"
proof -
  have "driver_step (rd_driver empty_recovery) sample_session"
    using sample_session_step by (simp add: empty_recovery_def)
  then show ?thesis
    unfolding recovery_reachable_def with_session_def by (intro r_into_rtranclp rs_driver)
qed

lemma frozen_db_eq: "put_checkpoint ''t1'' with_session sample_checkpoint = Inr frozen_db"
  unfolding frozen_db_def by (rule is_ok_value) code_simp

lemma asked_db_eq: "record_scope_finding ''t2'' frozen_db ''repo'' ''checkpoint-e1'' ''PRD-7'' ''h1'' ''f1'' ''{}'' = Inr asked_db"
  unfolding asked_db_def by (rule is_ok_value) code_simp

lemma rejected_db_eq: "decide_scope ''t3'' asked_db ''repo'' ''f1'' ''h1'' False ''human:a'' ''no'' = Inr (''checkpoint-e1'', rejected_db)"
proof -
  have "(case decide_scope ''t3'' asked_db ''repo'' ''f1'' ''h1'' False ''human:a'' ''no'' of
      Inr (i, _) \<Rightarrow> i = ''checkpoint-e1'' | Inl _ \<Rightarrow> False)" by code_simp
  then show ?thesis by (auto simp: rejected_db_def split: sum.splits)
qed

lemma asked_db_reachable: "recovery_reachable asked_db"
  using with_session_reachable rs_put[OF frozen_db_eq] rs_finding[OF asked_db_eq]
  unfolding recovery_reachable_def by (meson rtranclp.rtrancl_into_rtrancl)

lemma rejected_db_reachable: "recovery_reachable rejected_db"
  using asked_db_reachable rs_decide[OF rejected_db_eq]
  unfolding recovery_reachable_def by (meson rtranclp.rtrancl_into_rtrancl)

lemma checkpoint_log_never_collides_witness:
  "distinct (map ce_id (rd_events rejected_db)) \<and> is_ok (transition_checkpoint ''t4'' rejected_db ''checkpoint-e1'' ''verified'' ''x'')"
proof -
  note log = checkpoint_log_never_collides[OF rejected_db_reachable]
  have c: "find_checkpoint rejected_db ''checkpoint-e1'' \<noteq> None" and p: "''verified'' \<in> set checkpoint_phases" by code_simp+
  have "transition_checkpoint ''t4'' rejected_db ''checkpoint-e1'' ''verified'' ''x'' \<noteq> Inl e" for e
    using c p by (subst log[THEN conjunct2, THEN conjunct2, THEN conjunct2, rule_format]) simp
  then have "is_ok (transition_checkpoint ''t4'' rejected_db ''checkpoint-e1'' ''verified'' ''x'')"
    unfolding is_ok_iff by (metis sum.exhaust)
  then show ?thesis using log by blast
qed

section \<open>Decisions on scope\<close>






text \<open>
  A decision on scope names the checkpoint of the question; a rejection blocks it, and the last approval
  of a candidate sends it back to \<open>implemented\<close>, or leaves it blocked if another finding was rejected. An
  earlier approval changes no checkpoint. What phase the checkpoint was in does not matter, so deciding a
  question that was left open reopens a checkpoint that has been completed since.
\<close>

lemma scope_decision_sets_phase:
  assumes "recovery_reachable db" "decide_scope now db repo hash candidate approve actor reason = Inr (i, db')"
  shows "\<exists>c. find_checkpoint db i = Some c \<and> find_checkpoint db' i = Some (case settled_phase approve db' i candidate of
      None \<Rightarrow> c | Some p \<Rightarrow> c\<lparr>xc_phase := p, xc_updated_at := now\<rparr>)
    \<and> (\<not> approve \<longrightarrow> settled_phase approve db' i candidate = Some ''blocked'')
    \<and> (\<forall>p. approve \<and> settled_phase approve db' i candidate = Some p \<longrightarrow>
         (\<forall>s\<in>set (rd_scopes db'). same_candidate i candidate s \<longrightarrow> sw_decision s \<noteq> None)
         \<and> (p = ''implemented'' \<longleftrightarrow> (\<forall>s\<in>set (rd_scopes db'). same_candidate i candidate s \<longrightarrow> sw_decision s = Some Scope_Approved)))"
proof -
  obtain s where s: "s \<in> set (rd_scopes db)" "sw_checkpoint s = i"
    and db': "db' = (let db1 = record_decision now hash (if approve then Scope_Approved else Scope_Rejected) actor reason db in
      set_scope_phase now i (settled_phase approve db1 i candidate) db1)"
    using assms(2) by (auto simp: decide_scope_def Let_def dest: find_SomeD split: option.splits)
  let ?db1 = "record_decision now hash (if approve then Scope_Approved else Scope_Rejected) actor reason db"
  have same: "settled_phase approve db' i candidate = settled_phase approve ?db1 i candidate"
    by (simp add: db' Let_def settled_phase_def)
  have "i \<in> set (map fst (keys_of db))"
    using reachable_scope_ok[OF assms(1)] s by (auto simp: scope_ok_def)
  then obtain c where c: "find_checkpoint db i = Some c" using find_checkpoint_iff by (metis option.exhaust)
  have "find_checkpoint db' i = Some (case settled_phase approve db' i candidate of
      None \<Rightarrow> c | Some p \<Rightarrow> c\<lparr>xc_phase := p, xc_updated_at := now\<rparr>)"
    using c find_checkpoint_update[of "\<lambda>c. c\<lparr>xc_phase := _, xc_updated_at := now\<rparr>" i ?db1]
    unfolding same by (auto simp: db' Let_def set_scope_phase_def find_checkpoint_def split: option.splits)
  moreover have "\<not> approve \<longrightarrow> settled_phase approve db' i candidate = Some ''blocked''"
    by (simp add: settled_phase_def)
  moreover have "(\<forall>s\<in>set (rd_scopes db'). same_candidate i candidate s \<longrightarrow> sw_decision s \<noteq> None)
      \<and> (p = ''implemented'' \<longleftrightarrow> (\<forall>s\<in>set (rd_scopes db'). same_candidate i candidate s \<longrightarrow> sw_decision s = Some Scope_Approved))"
    if "approve" "settled_phase approve db' i candidate = Some p" for p
  proof -
    have v: "x \<noteq> None \<Longrightarrow> x \<noteq> Some Scope_Rejected \<longleftrightarrow> x = Some Scope_Approved" for x
      by (cases x) (auto intro: scope_verdict.exhaust)
    have none: "\<forall>s\<in>set (rd_scopes db'). same_candidate i candidate s \<longrightarrow> sw_decision s \<noteq> None"
      and p: "p = (if \<exists>s\<in>set (rd_scopes db'). same_candidate i candidate s \<and> sw_decision s = Some Scope_Rejected
        then ''blocked'' else ''implemented'')"
      using that by (auto simp: settled_phase_def list_ex_iff Let_def split: if_splits)
    have "p = ''implemented'' \<longleftrightarrow> (\<forall>s\<in>set (rd_scopes db'). same_candidate i candidate s \<longrightarrow> sw_decision s \<noteq> Some Scope_Rejected)"
      unfolding p by auto
    moreover have "sw_decision s \<noteq> Some Scope_Rejected \<longleftrightarrow> sw_decision s = Some Scope_Approved"
      if "s \<in> set (rd_scopes db')" "same_candidate i candidate s" for s using none that v by blast
    ultimately show ?thesis using none by simp
  qed
  ultimately show ?thesis using c by blast
qed

text \<open>The question is left open while the checkpoint is completed, and then rejected.\<close>

definition completed_db :: recovery_db where
  "completed_db = (case transition_checkpoint ''t3'' asked_db ''checkpoint-e1'' ''completed'' ''done'' of
     Inr db \<Rightarrow> db | Inl _ \<Rightarrow> empty_recovery)"

lemma completed_db_reachable: "recovery_reachable completed_db"
proof -
  have "transition_checkpoint ''t3'' asked_db ''checkpoint-e1'' ''completed'' ''done'' = Inr completed_db"
    unfolding completed_db_def by (rule is_ok_value) code_simp
  from asked_db_reachable rs_transition[OF this] show ?thesis
    unfolding recovery_reachable_def by (meson rtranclp.rtrancl_into_rtrancl)
qed

lemma scope_decision_sets_phase_witness:
  "map_option xc_phase (find_checkpoint completed_db ''checkpoint-e1'') = Some ''completed''
   \<and> (\<exists>db'. decide_scope ''t4'' completed_db ''repo'' ''f1'' ''h1'' False ''human:a'' ''no'' = Inr (''checkpoint-e1'', db')
       \<and> map_option xc_phase (find_checkpoint db' ''checkpoint-e1'') = Some ''blocked'')"
proof -
  have "map_option xc_phase (find_checkpoint completed_db ''checkpoint-e1'') = Some ''completed''"
    and "(case decide_scope ''t4'' completed_db ''repo'' ''f1'' ''h1'' False ''human:a'' ''no'' of
      Inr (i, _) \<Rightarrow> i = ''checkpoint-e1'' | Inl _ \<Rightarrow> False)" by code_simp+
  moreover from this obtain db' where
    d: "decide_scope ''t4'' completed_db ''repo'' ''f1'' ''h1'' False ''human:a'' ''no'' = Inr (''checkpoint-e1'', db')"
    by (auto split: sum.splits)
  moreover have "map_option xc_phase (find_checkpoint db' ''checkpoint-e1'') = Some ''blocked''"
    using scope_decision_sets_phase[OF completed_db_reachable d] by auto
  ultimately show ?thesis by blast
qed

section \<open>Migration versions\<close>

text \<open>
  C31: a migration version that is reserved belongs to that PRD of that session: no other row of the repository
  has it. A first reservation is above the version from which on versions are free and above every version
  ever reserved in the repository, also released ones; a repeated one returns the version reserved before.
\<close>

theorem migration_version_is_given_once:
  assumes "recovery_reachable db" "reserve_migration now db repo session prd first = Inr (r, db')"
  shows "mv_session r = session \<and> mv_prd r = prd
    \<and> (\<forall>row\<in>set (rd_migrations db'). mr_repository row = mv_repository r \<and> mr_version row = uint (mv_version r)
         \<longrightarrow> mr_session row = session \<and> mr_prd row = prd \<and> mr_state row = Migration_Reserved)
    \<and> (case reservation_row db session prd of
         Some row \<Rightarrow> uint (mv_version r) = mr_version row \<and> mv_repository r = mr_repository row
       | None \<Rightarrow> mv_repository r = repo \<and> first \<le> mv_version r
           \<and> (\<forall>row\<in>set (rd_migrations db). mr_repository row = repo \<longrightarrow> mr_version row < uint (mv_version r)))"
proof -
  have ok: "migrations_ok db" by (rule reachable_migrations_ok[OF assms(1)])
  have ok': "migrations_ok db'" by (rule reserve_migrations_ok[OF ok assms(2)])
  have same: "row = row'" if "row \<in> set (rd_migrations db')" "row' \<in> set (rd_migrations db')"
    "mr_repository row = mr_repository row'" "mr_version row = mr_version row'" for row row'
    using ok' that by (auto simp: migrations_ok_def distinct_map inj_on_def)
  obtain row' where row': "row' \<in> set (rd_migrations db')" "mr_repository row' = mv_repository r"
      "mr_version row' = uint (mv_version r)" "mr_session row' = session" "mr_prd row' = prd" "mr_state row' = Migration_Reserved"
    and r: "mv_session r = session" "mv_prd r = prd"
    and last: "case reservation_row db session prd of
         Some row \<Rightarrow> uint (mv_version r) = mr_version row \<and> mv_repository r = mr_repository row
       | None \<Rightarrow> mv_repository r = repo \<and> first \<le> mv_version r
           \<and> (\<forall>row\<in>set (rd_migrations db). mr_repository row = repo \<longrightarrow> mr_version row < uint (mv_version r))"
  proof (cases "reservation_row db session prd")
    case None
    have pos: "\<not> sint (next_version db repo first) \<le> 0"
      using assms(2) None by (auto simp: reserve_migration_def Let_def split: if_splits)
    note new = next_version_new[OF ok pos]
    have r: "r = \<lparr>mv_repository = repo, mv_version = next_version db repo first, mv_session = session, mv_prd = prd, mv_state = ''reserved''\<rparr>"
      and db': "rd_migrations db' = rd_migrations db @ [\<lparr>mr_repository = repo, mr_version = sint (next_version db repo first),
        mr_session = session, mr_prd = prd, mr_state = Migration_Reserved, mr_reserved_at = now, mr_resolved_at = None\<rparr>]"
      using assms(2) None by (auto simp: reserve_migration_def Let_def split: if_splits)
    have "mr_version row < uint (next_version db repo first)" if "row \<in> set (rd_migrations db)" "mr_repository row = repo" for row
      using highest_version_upper[OF that] new(3) by linarith
    then show ?thesis using that[of "last (rd_migrations db')"] None new by (simp add: db' r)
  next
    case (Some row)
    then have row: "row \<in> set (rd_migrations db)" "mr_session row = session" "mr_prd row = prd"
      by (auto simp: reservation_row_def dest: find_SomeD)
    then have v: "0 < mr_version row" "mr_version row < 2 ^ 63" using ok by (auto simp: migrations_ok_def)
    then have "uint (word_of_int (mr_version row) :: u64) = mr_version row" by (simp add: uint_word_of_int)
    then have r: "uint (mv_version r) = mr_version row" "mv_repository r = mr_repository row" "mv_session r = session" "mv_prd r = prd"
      using assms(2) Some row by (auto simp: reserve_migration_def map_reservation_def split: migration_state.splits)
    have "mr_state row = Migration_Reserved \<and> db' = db
        \<or> db' = set_migration session prd Migration_Reserved None (\<lambda>r. r\<lparr>mr_reserved_at := now\<rparr>) db"
      using assms(2) Some by (auto simp: reserve_migration_def split: migration_state.splits)
    then have "\<exists>x\<in>set (rd_migrations db'). mr_repository x = mr_repository row \<and> mr_version x = mr_version row
        \<and> mr_session x = session \<and> mr_prd x = prd \<and> mr_state x = Migration_Reserved"
    proof (elim disjE conjE)
      assume d: "db' = set_migration session prd Migration_Reserved None (\<lambda>r. r\<lparr>mr_reserved_at := now\<rparr>) db"
      have "row\<lparr>mr_state := Migration_Reserved, mr_resolved_at := None, mr_reserved_at := now\<rparr> \<in> set (rd_migrations db')"
        using row by (auto simp: d set_migration_def)
      then show ?thesis using row by (intro bexI) simp_all
    qed (use row in auto)
    then show ?thesis using that r Some by fastforce
  qed
  show ?thesis using r last same[OF _ row'(1)] row'(2-6) by (metis (no_types, lifting))
qed

theorem migration_version_is_given_once_witness:
  "\<exists>r db'. reserve_migration ''t5'' rejected_db ''repo'' ''s1'' ''PRD-7'' 42 = Inr (r, db') \<and> 42 \<le> mv_version r
     \<and> mv_prd r = ''PRD-7''"
proof -
  have "is_ok (reserve_migration ''t5'' rejected_db ''repo'' ''s1'' ''PRD-7'' 42)" by code_simp
  then obtain r db' where r: "reserve_migration ''t5'' rejected_db ''repo'' ''s1'' ''PRD-7'' 42 = Inr (r, db')"
    by (auto simp: is_ok_iff)
  moreover have "reservation_row rejected_db ''s1'' ''PRD-7'' = None" by code_simp
  ultimately show ?thesis
    using migration_version_is_given_once[OF rejected_db_reachable r] by auto
qed

section \<open>Recovery after a crash\<close>

text \<open>
  The recovery that runs before a session is opened ends every session and attempt of the database,
  whichever repository or host it belongs to: after it, no session can record a heartbeat or land a
  candidate. It returns the number of attempts that were open.
\<close>

lemma recovery_ends_every_session:
  "fst (recover_incomplete now d) = length (filter (\<lambda>a. da_ended_at a = None) (dd_attempts d))
   \<and> list_all (\<lambda>s. ds_ended_at s \<noteq> None) (dd_sessions (snd (recover_incomplete now d)))
   \<and> list_all (\<lambda>a. da_ended_at a \<noteq> None) (dd_attempts (snd (recover_incomplete now d)))
   \<and> heartbeat t (snd (recover_incomplete now d)) i worker = Inl (Database_Error (''open driver session '' @ i @ '' not found''))
   \<and> advance_integration t (db\<lparr>rd_driver := snd (recover_incomplete now d)\<rparr>) i expected candidate n
       = Inl (Database_Error ''integration revision changed during landing'')"
proof (intro conjI)
  show "fst (recover_incomplete now d) = length (filter (\<lambda>a. da_ended_at a = None) (dd_attempts d))"
    by (simp add: recover_incomplete_def update_attempts_def)
  show "list_all (\<lambda>a. da_ended_at a \<noteq> None) (dd_attempts (snd (recover_incomplete now d)))"
    by (auto simp: recover_incomplete_def update_attempts_def list_all_iff)
  show closed: "list_all (\<lambda>s. ds_ended_at s \<noteq> None) (dd_sessions (snd (recover_incomplete now d)))"
    by (auto simp: recover_incomplete_def update_sessions_def split_beta list_all_iff)
  have "filter (\<lambda>s. ds_id s = i \<and> P s \<and> ds_ended_at s = None) (dd_sessions (snd (recover_incomplete now d))) = []"
    for P using closed by (auto simp: filter_empty_conv list_all_iff)
  from this[of "\<lambda>_. True"] this[of "\<lambda>s. ds_integration s = Some expected"]
  show "heartbeat t (snd (recover_incomplete now d)) i worker = Inl (Database_Error (''open driver session '' @ i @ '' not found''))"
    and "advance_integration t (db\<lparr>rd_driver := snd (recover_incomplete now d)\<rparr>) i expected candidate n
       = Inl (Database_Error ''integration revision changed during landing'')"
    by (simp_all add: heartbeat_def advance_integration_def one_changed_def update_sessions_def)
qed

section \<open>Pages\<close>

lemma filter_after_take:
  fixes key :: "'a \<Rightarrow> 'k::linorder"
  assumes "sorted_wrt (<) (map key xs)" "take n xs \<noteq> []"
  shows "filter (\<lambda>x. key (last (take n xs)) < key x) xs = drop n xs"
  using assms
proof (induction xs arbitrary: n)
  case (Cons x xs)
  then obtain m where n: "n = Suc m" by (cases n) auto
  show ?case
  proof (cases "take m xs = []")
    case True
    then have "m = 0 \<or> xs = []" by simp
    then show ?thesis using Cons.prems(1) n by (auto simp: filter_id_conv)
  next
    case False
    then have "key x < key (last (take m xs))"
      using Cons.prems(1) last_in_set[OF False] in_set_takeD by fastforce
    then show ?thesis using Cons False n by auto
  qed
qed simp

text \<open>Two successive pages are one bigger page.\<close>

lemma two_pages_are_one:
  assumes "recovery_reachable db" "page_checkpoints db repo after n \<noteq> []"
  shows "page_checkpoints db repo after (n + m)
    = page_checkpoints db repo after n @ page_checkpoints db repo (Some (xc_prd (last (page_checkpoints db repo after n)))) m"
proof -
  let ?k = "\<lambda>c. (xc_prd c, xc_id c)"
  define rows where "rows p = sort_key ?k (filter (\<lambda>c. xc_repository c = repo \<and> p (xc_prd c)) (rd_checkpoints db))" for p
  define xs where "xs = rows (\<lambda>d. case_option [] id after < d)"
  have pages: "page_checkpoints db repo a k = map execution_checkpoint.truncate (take k (rows (\<lambda>d. case_option [] id a < d)))" for a k
    by (simp add: page_checkpoints_def checkpoints_where_def rows_def take_map)
  have prd: "xc_prd (execution_checkpoint.truncate c) = xc_prd c" for c :: stored_checkpoint
    by (simp add: execution_checkpoint.defs)
  have "distinct (map (\<lambda>c. (xc_repository c, xc_prd c)) (rd_checkpoints db))"
    using reachable_log_ok[OF assms(1)] by (simp add: log_ok_def keys_of_def o_def)
  then have "distinct (map xc_prd xs)"
    unfolding xs_def rows_def distinct_map by (auto simp: inj_on_def distinct_map)
  moreover have "sorted (map xc_prd xs)"
  proof -
    have "sorted (map ?k xs)" unfolding xs_def rows_def by simp
    then have "sorted_wrt (\<lambda>p q. fst p \<le> fst q) (map ?k xs)" by (rule sorted_wrt_mono_rel[rotated]) (rule pair_le_fst)
    then show ?thesis by (simp add: sorted_wrt_map)
  qed
  ultimately have strict: "sorted_wrt (<) (map xc_prd xs)" by (simp add: strict_sorted_iff)
  have ne: "take n xs \<noteq> []" using assms(2) by (simp add: pages xs_def)
  have l: "xc_prd (last (page_checkpoints db repo after n)) = xc_prd (last (take n xs))"
    using ne by (simp add: pages xs_def[symmetric] last_map prd del: take_eq_Nil)
  have "case_option [] id after < xc_prd (last (take n xs))"
  proof -
    have "last (take n xs) \<in> set xs" using last_in_set[OF ne] in_set_takeD by fast
    then show ?thesis unfolding xs_def rows_def by simp
  qed
  then have "filter (\<lambda>c. xc_repository c = repo \<and> xc_prd (last (take n xs)) < xc_prd c) (rd_checkpoints db)
      = filter (\<lambda>c. xc_prd (last (take n xs)) < xc_prd c)
          (filter (\<lambda>c. xc_repository c = repo \<and> case_option [] id after < xc_prd c) (rd_checkpoints db))"
    unfolding filter_filter by (intro filter_cong) auto
  then have "rows (\<lambda>d. xc_prd (last (take n xs)) < d) = filter (\<lambda>c. xc_prd (last (take n xs)) < xc_prd c) xs"
    by (simp add: rows_def xs_def filter_sort)
  also have "\<dots> = drop n xs" by (rule filter_after_take[OF strict ne])
  finally show ?thesis unfolding l by (simp add: pages xs_def[symmetric] take_add)
qed

section \<open>Finished PRDs\<close>

text \<open>
  A completed PRD that is named by number and slug is not among the finished ones under its identity:
  the stem of the file is, and so is the canonical spelling of a stem that begins with \<open>PRD-\<close> only.
\<close>

lemma terminal_ids_prefix:
  "x \<in> set (terminal_ids path) \<Longrightarrow> file_stem path = Some x \<or> (\<exists>r. x = ''PRD-'' @ r)"
  by (auto simp: terminal_ids_def split: option.splits)

lemma numbered_slug_is_never_terminal:
  assumes "id_rendering p = NumberedSlug_Rendering w" "file_stem path \<noteq> Some (show_prd_id p)"
  shows "show_prd_id p \<notin> set (terminal_ids path)"
  using terminal_ids_prefix[of "show_prd_id p" path] assms by (auto simp: show_prd_id_def)

end
