(* ===== verification/Resume.thy ===== *)
theory Resume
  imports Checkpoint_Store Utf8
begin

text \<open>
  Resuming retained work, \<open>crates/familiar-ai-daemon/src/resume.rs\<close>: a candidate exists only where a durable
  checkpoint does; it is validated against its worktree, planned into waves by dependency and conflict, and
  landed. The processes of git, the files and serde are the fields of \<open>resume_env\<close>; the tables are those
  of \<open>Checkpoint_Store\<close>.
\<close>

section \<open>Git and snapshots\<close>

text \<open>
  \<open>re_git\<close> runs git in a directory: its output, or the error text \<open>git_failed: ..\<close> or \<open>git_unavailable: ..\<close>.
  \<open>re_read\<close> reads a file of a worktree: \<open>Inr None\<close> where there is none. The manifest of a checkpoint is the
  JSON of a list of paths.
\<close>

record resume_env =
  re_git :: "string \<Rightarrow> string list \<Rightarrow> string + string"
  re_is_dir :: "string \<Rightarrow> bool"
  re_read :: "string \<Rightarrow> string \<Rightarrow> string + string option"
  re_hash :: "string \<Rightarrow> string"
  re_manifest_json :: "string list \<Rightarrow> string"
  re_manifest_of :: "string \<Rightarrow> string + string list"
  re_utf8_error :: "string \<Rightarrow> string"
  re_missing_file :: string

definition git_text :: "resume_env \<Rightarrow> string \<Rightarrow> string list \<Rightarrow> string + string" where
  "git_text env path args =
     rbind (re_git env path args) (\<lambda>bytes.
     if utf8_valid bytes then Inr (trim bytes) else Inl (''git_output_not_utf8: '' @ re_utf8_error env bytes))"

text \<open>An untracked file is appended to the evidence and to the files.\<close>

fun add_untracked :: "resume_env \<Rightarrow> string \<Rightarrow> string list \<Rightarrow> string \<times> string list \<Rightarrow> string + string \<times> string list" where
  "add_untracked env path [] acc = Inr acc"
| "add_untracked env path (raw # raws) (evidence, files) =
     (if \<not> utf8_valid raw then Inl (''git_path_not_utf8: '' @ re_utf8_error env raw)
      else case re_read env path raw of
        Inl e \<Rightarrow> Inl (''cannot read untracked '' @ raw @ '': '' @ e)
      | Inr None \<Rightarrow> Inl (''cannot read untracked '' @ raw @ '': '' @ re_missing_file env)
      | Inr (Some content) \<Rightarrow>
          add_untracked env path raws
            (evidence @ CHR 0x00 # ''untracked'' @ CHR 0x00 # raw @ CHR 0x00 # content, files @ [raw]))"

definition snapshot :: "resume_env \<Rightarrow> string \<Rightarrow> string \<Rightarrow> string + string \<times> string list" where
  "snapshot env path base =
     rbind (re_git env path [''diff'', ''--binary'', ''--no-ext-diff'', base, ''--'']) (\<lambda>evidence.
     rbind (git_text env path [''diff'', ''--name-only'', ''--no-ext-diff'', base, ''--'']) (\<lambda>tracked.
     rbind (re_git env path [''ls-files'', ''--others'', ''--exclude-standard'', ''-z'']) (\<lambda>untracked.
     rbind (add_untracked env path (filter (\<lambda>v. v \<noteq> []) (split_char (CHR 0x00) untracked))
              (evidence, filter (\<lambda>v. v \<noteq> []) (str_lines tracked))) (\<lambda>(evidence', files).
     Inr (evidence', sorted_list_of_set (set files))))))"

section \<open>Candidates\<close>

record resume_candidate =
  rc_checkpoint :: string
  rc_prd :: string
  rc_prd_path :: string
  rc_phase :: string
  rc_worktree :: string
  rc_files :: "string list"
  rc_valid :: bool
  rc_reason :: "string option"

definition invalid_candidate :: "execution_checkpoint \<Rightarrow> string \<Rightarrow> resume_candidate" where
  "invalid_candidate c reason =
     \<lparr>rc_checkpoint = xc_id c, rc_prd = xc_prd c, rc_prd_path = xc_prd_path c, rc_phase = xc_phase c,
      rc_worktree = xc_worktree c, rc_files = [], rc_valid = False, rc_reason = Some reason\<rparr>"

definition valid_candidate :: "execution_checkpoint \<Rightarrow> string list \<Rightarrow> string option \<Rightarrow> resume_candidate" where
  "valid_candidate c files reason =
     \<lparr>rc_checkpoint = xc_id c, rc_prd = xc_prd c, rc_prd_path = xc_prd_path c, rc_phase = xc_phase c,
      rc_worktree = xc_worktree c, rc_files = files, rc_valid = True, rc_reason = reason\<rparr>"

definition validate_candidate :: "resume_env \<Rightarrow> execution_checkpoint \<Rightarrow> string + resume_candidate" where
  "validate_candidate env c =
     (let path = xc_worktree c in
      if \<not> re_is_dir env path then Inr (invalid_candidate c (''missing_worktree: '' @ path))
      else rbind (git_text env path [''rev-parse'', ''HEAD'']) (\<lambda>head.
        if head \<noteq> xc_base_revision c
        then Inr (invalid_candidate c (''stale_base: expected='' @ xc_base_revision c @ '' actual='' @ head))
        else rbind (snapshot env path (xc_base_revision c)) (\<lambda>(diff, actual_files).
          let actual = re_hash env diff in
          if actual \<noteq> xc_diff_hash c
          then Inr (invalid_candidate c (''hash_mismatch: expected='' @ xc_diff_hash c @ '' actual='' @ actual))
          else rbind (map_err (\<lambda>e. ''invalid_manifest: '' @ e) (re_manifest_of env (xc_changed_files c))) (\<lambda>expected.
            if actual_files \<noteq> expected
            then Inr (invalid_candidate c (''changed_file_manifest_mismatch: expected='' @ xc_changed_files c
              @ '' actual='' @ re_manifest_json env actual_files))
            else Inr (valid_candidate c expected None)))))"

definition database_text :: "familiar_error + 'a \<Rightarrow> string + 'a" where
  "database_text r = map_err show_familiar_error r"

definition freeze_implementation ::
    "resume_env \<Rightarrow> string \<Rightarrow> recovery_db \<Rightarrow> string \<Rightarrow> string \<Rightarrow> string \<Rightarrow> string \<Rightarrow> string \<Rightarrow> string \<Rightarrow> string \<Rightarrow> bool
     \<Rightarrow> string + string list \<times> recovery_db" where
  "freeze_implementation env now db repo prd path execution worktree agent usage pending_review =
     rbind (git_text env worktree [''rev-parse'', ''HEAD'']) (\<lambda>base.
     rbind (git_text env worktree [''branch'', ''--show-current'']) (\<lambda>branch.
     rbind (snapshot env worktree base) (\<lambda>(diff, manifest).
     rbind (database_text (put_checkpoint now db
         \<lparr>xc_id = ''checkpoint-'' @ execution, xc_repository = repo, xc_prd = prd, xc_prd_path = path,
          xc_execution = Some execution,
          xc_phase = (if pending_review then ''implemented_pending_review'' else ''implemented''),
          xc_base_revision = base, xc_worktree = worktree, xc_branch = (if branch = [] then None else Some branch),
          xc_diff_hash = re_hash env diff, xc_changed_files = re_manifest_json env manifest, xc_agent = agent,
          xc_usage = usage, xc_test_evidence = ''{\"status\":\"unknown\"}'', xc_invalid_reason = None\<rparr>)) (\<lambda>db'.
     Inr (manifest, db')))))"

text \<open>The commit shape for which a stale checkpoint is bound again: one commit on its base, nothing else changed.\<close>

definition rebind_operator_commit ::
    "resume_env \<Rightarrow> string \<Rightarrow> recovery_db \<Rightarrow> execution_checkpoint \<Rightarrow> string + resume_candidate option \<times> recovery_db" where
  "rebind_operator_commit env now db c =
     (let path = xc_worktree c in
      if \<not> re_is_dir env path then Inr (None, db)
      else rbind (git_text env path [''rev-parse'', ''HEAD'']) (\<lambda>head.
        if head = xc_base_revision c then Inr (None, db)
        else case git_text env path [''rev-parse'', ''HEAD^''] of
          Inl _ \<Rightarrow> Inr (None, db)
        | Inr parent \<Rightarrow>
          if parent \<noteq> xc_base_revision c \<or> is_ok (git_text env path [''rev-parse'', ''--verify'', ''--quiet'', ''HEAD^2''])
          then Inr (None, db)
          else rbind (git_text env path [''status'', ''--porcelain'']) (\<lambda>dirty.
            if dirty \<noteq> [] then Inr (None, db)
            else rbind (snapshot env path (xc_base_revision c)) (\<lambda>(diff, manifest).
              let rebound = c\<lparr>xc_diff_hash := re_hash env diff, xc_changed_files := re_manifest_json env manifest\<rparr> in
              rbind (database_text (put_checkpoint now db rebound)) (\<lambda>db'.
              Inr (Some (valid_candidate rebound manifest (Some ''rebound_operator_commit'')), db'))))))"

definition stale_base :: "resume_candidate \<Rightarrow> bool" where
  "stale_base k \<longleftrightarrow> \<not> rc_valid k \<and> (case rc_reason k of Some r \<Rightarrow> starts_with r ''stale_base'' | None \<Rightarrow> False)"

definition candidate_of ::
    "resume_env \<Rightarrow> string \<Rightarrow> recovery_db \<Rightarrow> execution_checkpoint \<Rightarrow> string + resume_candidate \<times> recovery_db" where
  "candidate_of env now db c =
     rbind (validate_candidate env c) (\<lambda>k.
     if stale_base k
     then rbind (rebind_operator_commit env now db c) (\<lambda>(r, db').
       Inr (case r of Some k' \<Rightarrow> k' | None \<Rightarrow> k, db'))
     else Inr (k, db))"

text \<open>\<open>discover\<close>: the iterator stops at the first error; what was written before stays.\<close>

fun candidates_of ::
    "resume_env \<Rightarrow> string \<Rightarrow> execution_checkpoint list \<Rightarrow> recovery_db \<Rightarrow> (string + resume_candidate list) \<times> recovery_db" where
  "candidates_of env now [] db = (Inr [], db)"
| "candidates_of env now (c # cs) db =
     (case candidate_of env now db c of
        Inl e \<Rightarrow> (Inl e, db)
      | Inr (k, db') \<Rightarrow>
        (case candidates_of env now cs db' of (Inl e, d) \<Rightarrow> (Inl e, d) | (Inr ks, d) \<Rightarrow> (Inr (k # ks), d)))"

definition discover_checkpoints ::
    "resume_env \<Rightarrow> string \<Rightarrow> string set \<Rightarrow> recovery_db \<Rightarrow> string \<Rightarrow> (string + resume_candidate list) \<times> recovery_db" where
  "discover_checkpoints env now terminal db repo =
     candidates_of env now (filter (\<lambda>c. xc_prd c \<notin> terminal) (resumable_checkpoints db repo)) db"

definition resume_one ::
    "resume_env \<Rightarrow> string \<Rightarrow> string set \<Rightarrow> recovery_db \<Rightarrow> string \<Rightarrow> string \<Rightarrow> string + resume_candidate \<times> recovery_db" where
  "resume_one env now terminal db repo prd =
     (if prd \<in> terminal
      then Inl (prd @ '' is already completed and integrated; its preserved worktree is historical evidence, not resumable work'')
      else rbind (ok_or (''no durable checkpoint for '' @ prd) (get_checkpoint db repo prd)) (candidate_of env now db))"


section \<open>Waves\<close>

definition conflicting :: "string list \<Rightarrow> string list \<Rightarrow> bool" where
  "conflicting left right \<longleftrightarrow>
     list_ex (\<lambda>a. list_ex (\<lambda>b. a = b \<or> starts_with a (b @ [slash]) \<or> starts_with b (a @ [slash])) right) left"

text \<open>A \<open>BTreeSet\<close> of indices is an increasing list, \<open>done\<close> the set of finished PRDs.\<close>

definition dependencies_done :: "(string \<Rightarrow> string list option) \<Rightarrow> string set \<Rightarrow> resume_candidate \<Rightarrow> bool" where
  "dependencies_done deps finished k \<longleftrightarrow> list_all (\<lambda>d. d \<in> finished) (case deps (rc_prd k) of None \<Rightarrow> [] | Some ds \<Rightarrow> ds)"

fun pick_wave :: "resume_candidate list \<Rightarrow> nat \<Rightarrow> nat list \<Rightarrow> nat list \<Rightarrow> nat list" where
  "pick_wave ks ceiling [] wave = wave"
| "pick_wave ks ceiling (i # is) wave =
     (if length wave = ceiling then wave
      else if list_all (\<lambda>j. \<not> conflicting (rc_files (ks ! i)) (rc_files (ks ! j))) wave
      then pick_wave ks ceiling is (wave @ [i])
      else pick_wave ks ceiling is wave)"

lemma pick_wave_subset: "set (pick_wave ks ceiling ready wave) \<subseteq> set wave \<union> set ready"
  by (induction ks ceiling ready wave rule: pick_wave.induct) auto

definition next_wave ::
    "resume_candidate list \<Rightarrow> (string \<Rightarrow> string list option) \<Rightarrow> nat \<Rightarrow> nat list \<Rightarrow> string set \<Rightarrow> nat list" where
  "next_wave ks deps ceiling remaining finished =
     pick_wave ks ceiling (filter (\<lambda>i. dependencies_done deps finished (ks ! i)) remaining) []"

function wave_loop ::
    "resume_candidate list \<Rightarrow> (string \<Rightarrow> string list option) \<Rightarrow> nat \<Rightarrow> nat list \<Rightarrow> string set
     \<Rightarrow> nat list list \<times> nat list \<times> string set" where
  "wave_loop ks deps ceiling remaining finished =
     (let wave = next_wave ks deps ceiling remaining finished in
      if wave = [] then ([], remaining, finished)
      else let (waves, rest, finished') = wave_loop ks deps ceiling (filter (\<lambda>i. i \<notin> set wave) remaining)
                 (finished \<union> (\<lambda>i. rc_prd (ks ! i)) ` set wave)
           in (wave # waves, rest, finished'))"
  by pat_completeness auto

termination
proof (relation "measure (\<lambda>(ks, deps, ceiling, remaining, finished). length remaining)", goal_cases)
  case 1 show ?case by simp
next
  case (2 ks deps ceiling remaining finished wave)
  then have "hd wave \<in> set remaining" "hd wave \<in> set wave"
    using pick_wave_subset[of ks ceiling "filter (\<lambda>i. dependencies_done deps finished (ks ! i)) remaining" "[]"]
    by (auto simp: next_wave_def dest: hd_in_set)
  then show ?case by (auto intro: length_filter_less)
qed

declare wave_loop.simps [simp del]

definition unmet_dependencies :: "(string \<Rightarrow> string list option) \<Rightarrow> string set \<Rightarrow> resume_candidate \<Rightarrow> string list" where
  "unmet_dependencies deps finished k =
     filter (\<lambda>d. d \<notin> finished) (case deps (rc_prd k) of None \<Rightarrow> [] | Some ds \<Rightarrow> ds)"

definition blocked_reason :: "(string \<Rightarrow> string list option) \<Rightarrow> string set \<Rightarrow> resume_candidate \<Rightarrow> string" where
  "blocked_reason deps finished k =
     (let unmet = unmet_dependencies deps finished k in
      if unmet = [] then ''conflict_planning_stalled'' else ''dependency_blocked: '' @ join '','' unmet)"

definition plan_waves ::
    "resume_candidate list \<Rightarrow> (string \<Rightarrow> string list option) \<Rightarrow> string set \<Rightarrow> nat
     \<Rightarrow> nat list list \<times> (nat \<times> string) list" where
  "plan_waves ks deps completed max_concurrency =
     (let (waves, rest, finished) = wave_loop ks deps (max max_concurrency 1)
            (filter (\<lambda>i. rc_valid (ks ! i)) [0..<length ks]) completed;
          invalid = map (\<lambda>i. (i, case rc_reason (ks ! i) of Some r \<Rightarrow> r | None \<Rightarrow> ''invalid_checkpoint''))
                      (filter (\<lambda>i. \<not> rc_valid (ks ! i)) [0..<length ks])
      in (waves, sort_key fst (invalid @ map (\<lambda>i. (i, blocked_reason deps finished (ks ! i))) rest)))"

section \<open>Running the waves\<close>

text \<open>
  What a worker of a wave came to: it finished the review of its candidate, it returned an error, or it
  panicked. The world \<open>'w\<close> is what landing and the interactive review act on.
\<close>

datatype resume_result = Resume_Finished | Resume_Error string | Resume_Panicked

record 'w resume_steps =
  rw_work :: "string list \<Rightarrow> 'w \<Rightarrow> resume_result list \<times> 'w"
  rw_land :: "string \<Rightarrow> 'w \<Rightarrow> (string + string) \<times> 'w"
  rw_complete :: "string \<Rightarrow> string \<Rightarrow> 'w \<Rightarrow> (string + unit) \<times> 'w"
  rw_review :: "string \<Rightarrow> string \<Rightarrow> 'w \<Rightarrow> (string + unit) \<times> 'w"

record resume_progress =
  rp_failures :: "string list"
  rp_failed :: "string list"
  rp_output :: "string list"

definition failed_prd :: "string \<Rightarrow> string \<Rightarrow> resume_progress \<Rightarrow> resume_progress" where
  "failed_prd prd message p =
     p\<lparr>rp_failures := rp_failures p @ [prd @ '': '' @ message], rp_failed := prd # rp_failed p\<rparr>"

text \<open>A candidate with a failed prerequisite fails without being run; candidates are tried in the order of the wave.\<close>

fun runnable_of ::
    "(string \<Rightarrow> string list option) \<Rightarrow> string list \<Rightarrow> resume_progress \<Rightarrow> string list \<times> resume_progress" where
  "runnable_of deps [] p = ([], p)"
| "runnable_of deps (prd # prds) p =
     (let failed = filter (\<lambda>d. d \<in> set (rp_failed p)) (case deps prd of None \<Rightarrow> [] | Some ds \<Rightarrow> ds) in
      if failed = [] then (let (rs, p') = runnable_of deps prds p in (prd # rs, p'))
      else runnable_of deps prds (failed_prd prd (''dependency_failed: '' @ join '','' failed) p))"

definition settle_result ::
    "('w, 'b) resume_steps_scheme \<Rightarrow> string \<Rightarrow> resume_result \<Rightarrow> resume_progress \<times> 'w \<Rightarrow> resume_progress \<times> 'w" where
  "settle_result env prd result = (\<lambda>(p, w).
     case result of
       Resume_Finished \<Rightarrow>
         (case rw_land env prd w of
            (Inl e, w1) \<Rightarrow> (failed_prd prd (''landing_failed: '' @ e) p, w1)
          | (Inr merged, w1) \<Rightarrow>
            let p1 = p\<lparr>rp_output := rp_output p @ [''landed'' @ [tab] @ prd @ [tab] @ merged]\<rparr> in
            (case rw_complete env prd merged w1 of
               (Inl e, w2) \<Rightarrow> (failed_prd prd (''completion_failed: '' @ e) p1, w2)
             | (Inr (), w2) \<Rightarrow> (p1, w2)))
     | Resume_Error e \<Rightarrow>
         (case rw_review env prd e w of
            (Inl e', w1) \<Rightarrow> (failed_prd prd e' p, w1)
          | (Inr (), w1) \<Rightarrow> (p, w1))
     | Resume_Panicked \<Rightarrow> (p\<lparr>rp_failures := rp_failures p @ [''resume_worker_panicked'']\<rparr>, w))"

fun settle_results ::
    "('w, 'b) resume_steps_scheme \<Rightarrow> string list \<Rightarrow> resume_result list \<Rightarrow> resume_progress \<times> 'w \<Rightarrow> resume_progress \<times> 'w" where
  "settle_results env (prd # prds) (r # rs) s = settle_results env prds rs (settle_result env prd r s)"
| "settle_results env prds rs s = s"

definition run_wave ::
    "('w, 'b) resume_steps_scheme \<Rightarrow> (string \<Rightarrow> string list option) \<Rightarrow> string list \<Rightarrow> resume_progress \<times> 'w \<Rightarrow> resume_progress \<times> 'w" where
  "run_wave env deps wave = (\<lambda>(p, w).
     let (runnable, p1) = runnable_of deps wave p; (results, w1) = rw_work env runnable w
     in settle_results env runnable results (p1, w1))"

definition run_waves ::
    "('w, 'b) resume_steps_scheme \<Rightarrow> (string \<Rightarrow> string list option) \<Rightarrow> string list list \<Rightarrow> resume_progress \<times> 'w \<Rightarrow> resume_progress \<times> 'w" where
  "run_waves env deps waves s = foldl (\<lambda>s wave. run_wave env deps wave s) s waves"

end
