(* ===== verification/Resume_Guarantees.thy ===== *)
theory Resume_Guarantees
  imports Resume Checkpoint_Safety
begin

text \<open>
  What the planner and the checks of \<open>resume.rs\<close> guarantee: a candidate is valid exactly when its worktree
  still is what the checkpoint recorded, or that and one commit of an operator, which the checkpoint then records; the waves are a schedule of exactly the candidates whose
  prerequisites can be met, in which no two candidates of a wave touch the same files.
\<close>

section \<open>Waves\<close>

fun in_dependency_order ::
    "resume_candidate list \<Rightarrow> (string \<Rightarrow> string list option) \<Rightarrow> string set \<Rightarrow> nat list list \<Rightarrow> bool" where
  "in_dependency_order ks deps finished [] \<longleftrightarrow> True"
| "in_dependency_order ks deps finished (wave # waves) \<longleftrightarrow>
     list_all (\<lambda>i. dependencies_done deps finished (ks ! i)) wave
     \<and> in_dependency_order ks deps (finished \<union> (\<lambda>i. rc_prd (ks ! i)) ` set wave) waves"

definition conflict_free :: "resume_candidate list \<Rightarrow> nat list \<Rightarrow> bool" where
  "conflict_free ks wave \<longleftrightarrow> sorted_wrt (\<lambda>i j. \<not> conflicting (rc_files (ks ! i)) (rc_files (ks ! j))) wave"

definition sound_wave :: "resume_candidate list \<Rightarrow> nat \<Rightarrow> nat list \<Rightarrow> bool" where
  "sound_wave ks ceiling wave \<longleftrightarrow> wave \<noteq> [] \<and> length wave \<le> ceiling \<and> conflict_free ks wave"

lemma conflicting_sym: "conflicting xs ys = conflicting ys xs"
  unfolding conflicting_def list_ex_iff by blast

lemma pick_wave_sound:
  assumes "length wave \<le> ceiling" "conflict_free ks wave" "distinct (wave @ ready)"
  shows "length (pick_wave ks ceiling ready wave) \<le> ceiling"
    and "conflict_free ks (pick_wave ks ceiling ready wave)"
    and "distinct (pick_wave ks ceiling ready wave)"
  using assms
  by (induction ks ceiling ready wave rule: pick_wave.induct)
     (auto simp: conflict_free_def sorted_wrt_append list_all_iff conflicting_sym Let_def)

lemma pick_wave_extends: "take (length wave) (pick_wave ks ceiling ready wave) = wave"
proof (induction ks ceiling ready wave rule: pick_wave.induct)
  case (2 ks ceiling i ready wave)
  have "take (length wave) v = wave" if "take (length (wave @ [i])) v = wave @ [i]" for v
    using arg_cong[OF that, of "take (length wave)"] by (simp add: min_def)
  then show ?case using 2 by (auto simp del: length_append)
qed simp

lemma pick_wave_nonempty:
  assumes "0 < ceiling" "ready \<noteq> []" shows "pick_wave ks ceiling ready [] \<noteq> []"
  using assms pick_wave_extends[of "[hd ready]" ks ceiling "tl ready"] by (cases ready) auto

lemma next_wave_sound:
  assumes "distinct remaining"
  shows "length (next_wave ks deps ceiling remaining finished) \<le> ceiling"
    and "conflict_free ks (next_wave ks deps ceiling remaining finished)"
    and "distinct (next_wave ks deps ceiling remaining finished)"
    and "set (next_wave ks deps ceiling remaining finished) \<subseteq> set remaining"
    and "list_all (\<lambda>i. dependencies_done deps finished (ks ! i)) (next_wave ks deps ceiling remaining finished)"
  using assms pick_wave_sound[of "[]" ceiling ks "filter (\<lambda>i. dependencies_done deps finished (ks ! i)) remaining"]
    pick_wave_subset[of ks ceiling "filter (\<lambda>i. dependencies_done deps finished (ks ! i)) remaining" "[]"]
  by (auto simp: next_wave_def conflict_free_def list_all_iff)

lemma next_wave_empty:
  assumes "0 < ceiling" "next_wave ks deps ceiling remaining finished = []"
  shows "list_all (\<lambda>i. \<not> dependencies_done deps finished (ks ! i)) remaining"
  using assms pick_wave_nonempty unfolding next_wave_def list_all_iff filter_empty_conv[symmetric] by blast

lemma wave_loop_sound:
  assumes "distinct remaining" "wave_loop ks deps ceiling remaining finished = (waves, rest, finished')"
  shows "list_all (sound_wave ks ceiling) waves \<and> in_dependency_order ks deps finished waves
    \<and> distinct (concat waves @ rest) \<and> set (concat waves @ rest) = set remaining
    \<and> finished' = finished \<union> (\<lambda>i. rc_prd (ks ! i)) ` set (concat waves)
    \<and> (0 < ceiling \<longrightarrow> list_all (\<lambda>i. \<not> dependencies_done deps finished' (ks ! i)) rest)"
  using assms
proof (induction ks deps ceiling remaining finished arbitrary: waves rest finished' rule: wave_loop.induct)
  case (1 ks deps ceiling remaining finished)
  let ?wave = "next_wave ks deps ceiling remaining finished"
  note sound = next_wave_sound[OF 1(2), where ks = ks and deps = deps and ceiling = ceiling and finished = finished]
  show ?case
  proof (cases "?wave = []")
    case True
    then show ?thesis using 1(2,3) next_wave_empty by (auto simp: wave_loop.simps[of ks deps ceiling remaining])
  next
    case False
    obtain ws r f where rec: "wave_loop ks deps ceiling (filter (\<lambda>i. i \<notin> set ?wave) remaining)
        (finished \<union> (\<lambda>i. rc_prd (ks ! i)) ` set ?wave) = (ws, r, f)" by (metis prod_cases3)
    have eq: "waves = ?wave # ws" "rest = r" "finished' = f"
      using 1(3) False rec by (simp_all add: wave_loop.simps[of ks deps ceiling remaining] Let_def)
    have "distinct (filter (\<lambda>i. i \<notin> set ?wave) remaining)" using 1(2) by simp
    note ih = 1(1)[OF refl False this rec]
    have s: "set (concat ws @ r) = set remaining - set ?wave" using ih by auto
    have "sound_wave ks ceiling ?wave" using sound False by (simp add: sound_wave_def)
    moreover have "distinct (concat (?wave # ws) @ r)"
      using ih sound(3) s by (auto simp del: set_append set_concat simp: set_append[symmetric])
    moreover have "set (concat (?wave # ws) @ r) = set remaining" using s sound(4) by auto
    moreover have "f = finished \<union> (\<lambda>i. rc_prd (ks ! i)) ` set (concat (?wave # ws))"
      using ih by (simp add: Un_assoc image_Un)
    moreover have "0 < ceiling \<longrightarrow> list_all (\<lambda>i. \<not> dependencies_done deps f (ks ! i)) r" using ih by blast
    ultimately show ?thesis using ih sound(5) unfolding eq list.pred_inject in_dependency_order.simps by blast
  qed
qed

text \<open>
  The candidates that can run at all, as an inductive definition: a valid candidate whose every prerequisite
  is completed or is the PRD of a candidate that can run.
\<close>

inductive can_run :: "resume_candidate list \<Rightarrow> (string \<Rightarrow> string list option) \<Rightarrow> string set \<Rightarrow> nat \<Rightarrow> bool"
  for ks deps completed where
  can_run: "\<lbrakk>i < length ks; rc_valid (ks ! i);
     \<forall>ds. deps (rc_prd (ks ! i)) = Some ds \<longrightarrow>
       (\<forall>d\<in>set ds. d \<in> completed \<or> (\<exists>j. can_run ks deps completed j \<and> rc_prd (ks ! j) = d))\<rbrakk>
   \<Longrightarrow> can_run ks deps completed i"

lemma dependencies_done_iff:
  "dependencies_done deps finished k \<longleftrightarrow> (\<forall>ds. deps (rc_prd k) = Some ds \<longrightarrow> set ds \<subseteq> finished)"
  by (cases "deps (rc_prd k)") (auto simp: dependencies_done_def list_all_iff)

lemma ordered_can_run:
  assumes "in_dependency_order ks deps finished waves" "i \<in> set (concat waves)"
    and "list_all (\<lambda>i. i < length ks \<and> rc_valid (ks ! i)) (concat waves)"
    and "\<And>d. d \<in> finished \<Longrightarrow> d \<in> completed \<or> (\<exists>j. can_run ks deps completed j \<and> rc_prd (ks ! j) = d)"
  shows "can_run ks deps completed i"
  using assms
proof (induction waves arbitrary: finished)
  case (Cons wave waves)
  have w: "can_run ks deps completed j" if "j \<in> set wave" for j
  proof (rule can_run)
    show "j < length ks" "rc_valid (ks ! j)" using Cons.prems(3) that by (auto simp: list_all_iff)
    have "dependencies_done deps finished (ks ! j)" using Cons.prems(1) that by (simp add: list_all_iff)
    then show "\<forall>ds. deps (rc_prd (ks ! j)) = Some ds \<longrightarrow>
        (\<forall>d\<in>set ds. d \<in> completed \<or> (\<exists>i. can_run ks deps completed i \<and> rc_prd (ks ! i) = d))"
      using Cons.prems(4) unfolding dependencies_done_iff by blast
  qed
  show ?case
  proof (cases "i \<in> set wave")
    case False
    show ?thesis
    proof (rule Cons.IH[of "finished \<union> (\<lambda>i. rc_prd (ks ! i)) ` set wave"])
      show "d \<in> completed \<or> (\<exists>j. can_run ks deps completed j \<and> rc_prd (ks ! j) = d)"
        if "d \<in> finished \<union> (\<lambda>i. rc_prd (ks ! i)) ` set wave" for d using Cons.prems(4) w that by blast
    qed (use False Cons.prems in \<open>auto simp: list_all_iff\<close>)
  qed (rule w)
qed simp

abbreviation valid_indexes :: "resume_candidate list \<Rightarrow> nat list" where
  "valid_indexes ks \<equiv> filter (\<lambda>i. rc_valid (ks ! i)) [0..<length ks]"

lemma wave_loop_can_run:
  assumes "wave_loop ks deps (max n 1) (valid_indexes ks) completed = (waves, rest, finished)"
  shows "set (concat waves) = {i. can_run ks deps completed i}"
proof
  note l = wave_loop_sound[OF _ assms]
  have v: "list_all (\<lambda>i. i < length ks \<and> rc_valid (ks ! i)) (concat waves)" using l by (auto simp: list_all_iff)
  then show "set (concat waves) \<subseteq> {i. can_run ks deps completed i}"
    using ordered_can_run[of ks deps completed waves] l by auto
  have "i \<in> set (concat waves)" if "can_run ks deps completed i" for i
    using that
  proof (induction rule: can_run.induct)
    case (can_run i)
    then have "dependencies_done deps finished (ks ! i)" using l by (fastforce simp: dependencies_done_iff)
    moreover have "i \<in> set (concat waves @ rest)" using can_run l by simp
    ultimately show ?case using l by (auto simp: list_all_iff)
  qed
  then show "{i. can_run ks deps completed i} \<subseteq> set (concat waves)" by blast
qed

lemma plan_waves_split:
  obtains rest finished where "wave_loop ks deps (max n 1) (valid_indexes ks) completed = (fst (plan_waves ks deps completed n), rest, finished)"
    "snd (plan_waves ks deps completed n) = sort_key fst
       (map (\<lambda>i. (i, case rc_reason (ks ! i) of Some r \<Rightarrow> r | None \<Rightarrow> ''invalid_checkpoint''))
          (filter (\<lambda>i. \<not> rc_valid (ks ! i)) [0..<length ks])
        @ map (\<lambda>i. (i, blocked_reason deps finished (ks ! i))) rest)"
  by (cases "wave_loop ks deps (max n 1) (valid_indexes ks) completed") (auto simp: plan_waves_def Let_def)

text \<open>
  C28: the waves contain, each once, exactly the candidates that can run, and every other candidate is reported as
  blocked, once and in the order of the list; a wave is not empty, has at most the configured width (at least one),
  no two of its candidates touch the same file or a file below it, and the prerequisites of a candidate
  are completed or the PRDs of earlier waves.
\<close>

theorem waves_schedule_what_can_run:
  "set (concat (fst (plan_waves ks deps completed n))) = {i. can_run ks deps completed i}
   \<and> distinct (concat (fst (plan_waves ks deps completed n)))
   \<and> map fst (snd (plan_waves ks deps completed n)) = filter (\<lambda>i. \<not> can_run ks deps completed i) [0..<length ks]
   \<and> list_all (sound_wave ks (max n 1)) (fst (plan_waves ks deps completed n))
   \<and> in_dependency_order ks deps completed (fst (plan_waves ks deps completed n))"
proof -
  obtain rest finished where w: "wave_loop ks deps (max n 1) (valid_indexes ks) completed
      = (fst (plan_waves ks deps completed n), rest, finished)"
    and b: "snd (plan_waves ks deps completed n) = sort_key fst
       (map (\<lambda>i. (i, case rc_reason (ks ! i) of Some r \<Rightarrow> r | None \<Rightarrow> ''invalid_checkpoint''))
          (filter (\<lambda>i. \<not> rc_valid (ks ! i)) [0..<length ks])
        @ map (\<lambda>i. (i, blocked_reason deps finished (ks ! i))) rest)"
    by (rule plan_waves_split)
  note l = wave_loop_sound[OF _ w]
  note can = wave_loop_can_run[OF w]
  have "map fst (snd (plan_waves ks deps completed n)) = sort (filter (\<lambda>i. \<not> rc_valid (ks ! i)) [0..<length ks] @ rest)"
    unfolding b by (rule properties_for_sort[symmetric]) (simp_all add: multiset.map_comp o_def)
  also have "\<dots> = filter (\<lambda>i. \<not> can_run ks deps completed i) [0..<length ks]"
  proof (rule sorted_distinct_set_unique)
    have "set (concat (fst (plan_waves ks deps completed n)) @ rest) = set (valid_indexes ks)"
      and d: "distinct (concat (fst (plan_waves ks deps completed n)) @ rest)" using l by auto
    then have rest: "set rest = {i. i < length ks \<and> rc_valid (ks ! i) \<and> \<not> can_run ks deps completed i}"
      using can by auto
    then show "distinct (sort (filter (\<lambda>i. \<not> rc_valid (ks ! i)) [0..<length ks] @ rest))" using d by auto
    show "set (sort (filter (\<lambda>i. \<not> rc_valid (ks ! i)) [0..<length ks] @ rest))
        = set (filter (\<lambda>i. \<not> can_run ks deps completed i) [0..<length ks])"
      using rest by (auto elim: can_run.cases)
  qed (auto simp: sorted_wrt_filter)
  finally show ?thesis using l can by simp
qed

text \<open>The reason of a blocked valid candidate always names a prerequisite: planning never stalls on conflicts.\<close>

lemma planning_never_stalls:
  assumes "(i, reason) \<in> set (snd (plan_waves ks deps completed n))" "rc_valid (ks ! i)"
  shows "\<exists>d ds. deps (rc_prd (ks ! i)) = Some ds \<and> d \<in> set ds \<and> d \<notin> completed
    \<and> reason = ''dependency_blocked: '' @ join '','' (unmet_dependencies deps (completed \<union> (\<lambda>i. rc_prd (ks ! i)) ` set (concat (fst (plan_waves ks deps completed n)))) (ks ! i))"
proof -
  obtain rest finished where w: "wave_loop ks deps (max n 1) (valid_indexes ks) completed
      = (fst (plan_waves ks deps completed n), rest, finished)"
    and b: "snd (plan_waves ks deps completed n) = sort_key fst
       (map (\<lambda>i. (i, case rc_reason (ks ! i) of Some r \<Rightarrow> r | None \<Rightarrow> ''invalid_checkpoint''))
          (filter (\<lambda>i. \<not> rc_valid (ks ! i)) [0..<length ks])
        @ map (\<lambda>i. (i, blocked_reason deps finished (ks ! i))) rest)"
    by (rule plan_waves_split)
  have "distinct (valid_indexes ks)" by simp
  note s = wave_loop_sound[OF this w]
  have l: "finished = completed \<union> (\<lambda>i. rc_prd (ks ! i)) ` set (concat (fst (plan_waves ks deps completed n)))"
    using s by blast
  have "0 < max n 1" by simp
  then have blocked: "list_all (\<lambda>i. \<not> dependencies_done deps finished (ks ! i)) rest" using s by blast
  have r: "i \<in> set rest" "reason = blocked_reason deps finished (ks ! i)" using assms unfolding b by auto
  then have "\<not> dependencies_done deps finished (ks ! i)" using blocked by (auto simp: list_all_iff)
  then obtain ds d where d: "deps (rc_prd (ks ! i)) = Some ds" "d \<in> set ds" "d \<notin> finished"
    by (auto simp: dependencies_done_iff)
  then have "unmet_dependencies deps finished (ks ! i) \<noteq> []"
    by (auto simp: unmet_dependencies_def filter_empty_conv)
  then show ?thesis using d r l by (auto simp: blocked_reason_def)
qed

section \<open>Candidates\<close>

text \<open>
  A worktree still is what a checkpoint recorded: its HEAD is the base, the change against the base has the
  recorded hash, and the changed files are those of the manifest.
\<close>

definition unchanged_since :: "resume_env \<Rightarrow> execution_checkpoint \<Rightarrow> string list \<Rightarrow> bool" where
  "unchanged_since env c files \<longleftrightarrow>
     re_is_dir env (xc_worktree c) \<and> git_text env (xc_worktree c) [''rev-parse'', ''HEAD''] = Inr (xc_base_revision c)
     \<and> (case snapshot env (xc_worktree c) (xc_base_revision c) of
          Inr (diff, actual) \<Rightarrow> re_hash env diff = xc_diff_hash c \<and> actual = files
        | Inl _ \<Rightarrow> False)
     \<and> re_manifest_of env (xc_changed_files c) = Inr files"

text \<open>
  The check by itself: a checkpoint passes exactly when its worktree is unchanged; an invalid one keeps its
  phase, has no files and names one of the four reasons.
\<close>

lemma candidate_valid_iff_unchanged:
  "(case validate_candidate env c of
      Inr k \<Rightarrow> rc_checkpoint k = xc_id c \<and> rc_prd k = xc_prd c \<and> rc_phase k = xc_phase c
        \<and> (if rc_valid k then unchanged_since env c (rc_files k) \<and> rc_reason k = None
           else \<not> unchanged_since env c files \<and> rc_files k = []
             \<and> (case rc_reason k of None \<Rightarrow> False | Some r \<Rightarrow> list_ex (starts_with r)
                 [''missing_worktree: '', ''stale_base: '', ''hash_mismatch: '', ''changed_file_manifest_mismatch: '']))
    | Inl e \<Rightarrow> re_is_dir env (xc_worktree c) \<and> \<not> unchanged_since env c files)"
proof (cases "re_is_dir env (xc_worktree c)")
  case False
  then show ?thesis
    by (simp add: validate_candidate_def unchanged_since_def invalid_candidate_def starts_with_def Let_def)
next
  case dir: True
  show ?thesis
  proof (cases "git_text env (xc_worktree c) [''rev-parse'', ''HEAD'']")
    case (Inl e)
    then show ?thesis using dir by (simp add: validate_candidate_def unchanged_since_def)
  next
    case head: (Inr head)
    show ?thesis
    proof (cases "head = xc_base_revision c")
      case False
      then show ?thesis using dir head
        by (simp add: validate_candidate_def unchanged_since_def invalid_candidate_def starts_with_def Let_def)
    next
      case True
      then show ?thesis using dir head
        by (cases "snapshot env (xc_worktree c) (xc_base_revision c)"; cases "re_manifest_of env (xc_changed_files c)")
           (auto simp: validate_candidate_def unchanged_since_def invalid_candidate_def valid_candidate_def
             starts_with_def Let_def split_beta)
    qed
  qed
qed

text \<open>
  Binding an operator's commit again: the phase is kept, the hash and the files are those of the new content,
  whatever was recorded before. A checkpoint that was reviewed stays reviewed.
\<close>

lemma rebinding_keeps_the_phase:
  assumes "rebind_operator_commit env now db c = Inr (Some k, db')"
  shows "rc_phase k = xc_phase c \<and> rc_valid k \<and> rc_reason k = Some ''rebound_operator_commit''
    \<and> (\<exists>diff. snapshot env (xc_worktree c) (xc_base_revision c) = Inr (diff, rc_files k)
        \<and> put_checkpoint now db (c\<lparr>xc_diff_hash := re_hash env diff, xc_changed_files := re_manifest_json env (rc_files k)\<rparr>) = Inr db')"
  using assms
  by (auto simp: rebind_operator_commit_def Let_def rbind_Inr_iff map_err_Inr_iff valid_candidate_def database_text_def
        split: if_splits sum.splits prod.splits)

text \<open>An operator has committed: the one commit has the base as its only parent, and nothing else is changed.\<close>

definition committed_on_base :: "resume_env \<Rightarrow> execution_checkpoint \<Rightarrow> bool" where
  "committed_on_base env c \<longleftrightarrow>
     re_is_dir env (xc_worktree c)
     \<and> (case git_text env (xc_worktree c) [''rev-parse'', ''HEAD''] of Inr head \<Rightarrow> head \<noteq> xc_base_revision c | Inl _ \<Rightarrow> False)
     \<and> git_text env (xc_worktree c) [''rev-parse'', ''HEAD^''] = Inr (xc_base_revision c)
     \<and> \<not> is_ok (git_text env (xc_worktree c) [''rev-parse'', ''--verify'', ''--quiet'', ''HEAD^2''])
     \<and> git_text env (xc_worktree c) [''status'', ''--porcelain''] = Inr []"

text \<open>The tables hold a checkpoint of the PRD that describes what is in the worktree of the candidate now.\<close>

definition recorded_as_found :: "resume_env \<Rightarrow> recovery_db \<Rightarrow> string \<Rightarrow> execution_checkpoint \<Rightarrow> resume_candidate \<Rightarrow> bool" where
  "recorded_as_found env db repo c k \<longleftrightarrow>
     (\<exists>r diff. get_checkpoint db repo (rc_prd k) = Some r \<and> xc_id r = rc_checkpoint k \<and> xc_phase r = rc_phase k
        \<and> xc_worktree r = rc_worktree k \<and> xc_base_revision r = xc_base_revision c
        \<and> snapshot env (xc_worktree r) (xc_base_revision r) = Inr (diff, rc_files k) \<and> xc_diff_hash r = re_hash env diff)"

definition found_candidate :: "resume_env \<Rightarrow> recovery_db \<Rightarrow> string \<Rightarrow> execution_checkpoint \<Rightarrow> resume_candidate \<Rightarrow> bool" where
  "found_candidate env db repo c k \<longleftrightarrow>
     rc_checkpoint k = xc_id c \<and> rc_prd k = xc_prd c \<and> rc_phase k = xc_phase c \<and> rc_worktree k = xc_worktree c
     \<and> (rc_valid k \<longleftrightarrow> (\<exists>files. unchanged_since env c files) \<or> committed_on_base env c)
     \<and> (if rc_valid k then recorded_as_found env db repo c k
        else rc_files k = [] \<and> get_checkpoint db repo (xc_prd c) = Some c)"

lemma committed_not_unchanged: "committed_on_base env c \<Longrightarrow> \<not> unchanged_since env c files"
  by (auto simp: committed_on_base_def unchanged_since_def)

lemma validate_committed:
  assumes "committed_on_base env c"
  shows "\<exists>k. validate_candidate env c = Inr k \<and> stale_base k"
  using assms
  by (auto simp: committed_on_base_def validate_candidate_def stale_base_def invalid_candidate_def starts_with_def Let_def
      split: sum.splits)

lemma rebind_iff_committed:
  assumes "rebind_operator_commit env now db c = Inr (r, db')"
  shows "(if committed_on_base env c
     then \<exists>diff files. snapshot env (xc_worktree c) (xc_base_revision c) = Inr (diff, files)
       \<and> (let c' = c\<lparr>xc_diff_hash := re_hash env diff, xc_changed_files := re_manifest_json env files\<rparr>
          in r = Some (valid_candidate c' files (Some ''rebound_operator_commit'')) \<and> put_checkpoint now db c' = Inr db')
     else r = None \<and> db' = db)"
  using assms
  by (auto simp: rebind_operator_commit_def committed_on_base_def Let_def rbind_Inr_iff map_err_Inr_iff database_text_def
      split: if_splits sum.splits prod.splits)

lemma validate_frame:
  "validate_candidate env c = Inr k \<Longrightarrow> rc_checkpoint k = xc_id c \<and> rc_prd k = xc_prd c \<and> rc_worktree k = xc_worktree c"
  by (auto simp: validate_candidate_def invalid_candidate_def valid_candidate_def Let_def rbind_Inr_iff
      split: if_splits prod.splits)

lemma candidate_of_found:
  assumes "log_ok db" "get_checkpoint db repo (xc_prd c) = Some c" "xc_repository c = repo"
    "candidate_of env now db c = Inr (k, db')"
  shows "log_ok db' \<and> found_candidate env db' repo c k
    \<and> (\<forall>p. p \<noteq> xc_prd c \<longrightarrow> get_checkpoint db' repo p = get_checkpoint db repo p)"
proof -
  obtain v where v: "validate_candidate env c = Inr v" using assms(4) by (auto simp: candidate_of_def rbind_Inr_iff)
  note checked = candidate_valid_iff_unchanged[of env c, unfolded v sum.case]
  show ?thesis
  proof (cases "committed_on_base env c")
    case True
    then have "stale_base v" using validate_committed v by fastforce
    then obtain diff files where snap: "snapshot env (xc_worktree c) (xc_base_revision c) = Inr (diff, files)"
      and put: "put_checkpoint now db (c\<lparr>xc_diff_hash := re_hash env diff, xc_changed_files := re_manifest_json env files\<rparr>) = Inr db'"
      and k: "k = valid_candidate (c\<lparr>xc_diff_hash := re_hash env diff, xc_changed_files := re_manifest_json env files\<rparr>)
        files (Some ''rebound_operator_commit'')"
      using assms(4) v True rebind_iff_committed[of env now db c] unfolding candidate_of_def
      by (auto simp: rbind_Inr_iff Let_def split: if_splits)
    have get: "get_checkpoint db' repo p = (if p = xc_prd c
        then Some (c\<lparr>xc_diff_hash := re_hash env diff, xc_changed_files := re_manifest_json env files\<rparr>)
        else get_checkpoint db repo p)" for p
      using refreezing_changes_one_row[OF assms(1) _ put, of c p] assms(2,3) by simp
    show ?thesis
      using put_log_ok[OF assms(1) put] True get snap
      by (simp add: found_candidate_def recorded_as_found_def k valid_candidate_def)
  next
    case False
    then have k: "k = v" "db' = db"
      using assms(4) v by (auto simp: candidate_of_def rbind_Inr_iff split: if_splits dest!: rebind_iff_committed)
    have "recorded_as_found env db repo c v" if "rc_valid v"
      using checked that assms(2) validate_frame[OF v]
      by (auto simp: recorded_as_found_def unchanged_since_def split: sum.splits prod.splits)
    then show ?thesis
      using checked False assms(1,2) validate_frame[OF v] by (auto simp: found_candidate_def k split: if_splits)
  qed
qed

lemma candidates_of_found:
  assumes "log_ok db" "distinct (map xc_prd cs)" "candidates_of env now cs db = (Inr ks, db')"
    "\<And>c. c \<in> set cs \<Longrightarrow> get_checkpoint db repo (xc_prd c) = Some c \<and> xc_repository c = repo"
  shows "list_all2 (found_candidate env db' repo) cs ks
    \<and> (\<forall>p. p \<notin> set (map xc_prd cs) \<longrightarrow> get_checkpoint db' repo p = get_checkpoint db repo p)"
  using assms
proof (induction cs arbitrary: db ks)
  case (Cons c cs)
  obtain k db1 ks' where k: "candidate_of env now db c = Inr (k, db1)" "candidates_of env now cs db1 = (Inr ks', db')" "ks = k # ks'"
    using Cons.prems(3) by (auto split: sum.splits prod.splits)
  from candidate_of_found[OF Cons.prems(1) _ _ k(1), of repo] Cons.prems(4)[of c]
  have one: "log_ok db1" "found_candidate env db1 repo c k"
    "\<And>p. p \<noteq> xc_prd c \<Longrightarrow> get_checkpoint db1 repo p = get_checkpoint db repo p" by auto
  have "get_checkpoint db1 repo (xc_prd d) = Some d \<and> xc_repository d = repo" if "d \<in> set cs" for d
    using that Cons.prems(2,4) one(3) by (metis distinct.simps(2) image_eqI list.set_intros(2) list.simps(9) set_map)
  from Cons.IH[OF one(1) _ k(2) this] Cons.prems(2)
  have rest: "list_all2 (found_candidate env db' repo) cs ks'"
    "\<And>p. p \<notin> set (map xc_prd cs) \<Longrightarrow> get_checkpoint db' repo p = get_checkpoint db1 repo p" by auto
  have "get_checkpoint db' repo (xc_prd c) = get_checkpoint db1 repo (xc_prd c)" using rest(2) Cons.prems(2) by simp
  moreover have "rc_prd k = xc_prd c" using one(2) by (simp add: found_candidate_def)
  ultimately have "recorded_as_found env db' repo c k \<longleftrightarrow> recorded_as_found env db1 repo c k"
    "get_checkpoint db' repo (xc_prd c) = get_checkpoint db1 repo (xc_prd c)" by (simp_all add: recorded_as_found_def)
  then have "found_candidate env db' repo c k" using one(2) unfolding found_candidate_def by simp
  then show ?case using rest one(3) by (simp add: k(3))
qed simp

lemma resumable_rows:
  assumes "log_ok db"
  shows "distinct (map xc_prd (resumable_checkpoints db repo))"
    "c \<in> set (resumable_checkpoints db repo) \<Longrightarrow> get_checkpoint db repo (xc_prd c) = Some c \<and> xc_repository c = repo"
proof -
  have d: "distinct (map (\<lambda>c. (xc_repository c, xc_prd c)) (rd_checkpoints db))"
    using assms by (simp add: log_ok_def keys_of_def o_def)
  have t: "xc_prd (execution_checkpoint.truncate r) = xc_prd r" "xc_repository (execution_checkpoint.truncate r) = xc_repository r"
    for r :: stored_checkpoint by (simp_all add: execution_checkpoint.truncate_def)
  show "distinct (map xc_prd (resumable_checkpoints db repo))"
    using d by (auto simp: resumable_checkpoints_def checkpoints_where_def t distinct_map inj_on_def o_def)
  assume "c \<in> set (resumable_checkpoints db repo)"
  then obtain r where r: "c = execution_checkpoint.truncate r" "r \<in> set (rd_checkpoints db)" "xc_repository r = repo"
    by (auto simp: resumable_checkpoints_def checkpoints_where_def)
  obtain q where q: "checkpoint_of db repo (xc_prd r) = Some q"
    using r by (cases "checkpoint_of db repo (xc_prd r)") (auto simp: checkpoint_of_def find_None_iff)
  then have "q = r" using checkpoint_of_Some[OF q] r d by (auto simp: distinct_map inj_on_def)
  then show "get_checkpoint db repo (xc_prd c) = Some c \<and> xc_repository c = repo"
    using q r by (simp add: get_checkpoint_def t)
qed

text \<open>
  C29: what is offered for resuming. For each resumable checkpoint of the repository whose PRD is not finished,
  in their order, discovery gives the candidate of that checkpoint, PRD, phase and worktree. It is valid exactly
  when the worktree still is what was recorded, or holds on top of the base exactly one commit of an operator and
  nothing else. The checkpoint in the tables afterwards describes what is in the worktree of a valid candidate:
  for a commit of an operator that is a rewritten record, still of the phase reached before the commit. Of an
  invalid candidate the record stays and no files are offered.
\<close>

theorem discovered_valid_iff:
  assumes "recovery_reachable db" "discover_checkpoints env now terminal db repo = (Inr ks, db')"
  shows "list_all2 (\<lambda>c k. rc_checkpoint k = xc_id c \<and> rc_prd k = xc_prd c \<and> rc_phase k = xc_phase c \<and> rc_worktree k = xc_worktree c
       \<and> (rc_valid k \<longleftrightarrow> (\<exists>files. unchanged_since env c files) \<or> committed_on_base env c)
       \<and> (if rc_valid k then recorded_as_found env db' repo c k
          else rc_files k = [] \<and> get_checkpoint db' repo (xc_prd c) = Some c))
     (filter (\<lambda>c. xc_prd c \<notin> terminal) (resumable_checkpoints db repo)) ks"
proof -
  note ok = reachable_log_ok[OF assms(1)]
  have "distinct (map xc_prd (filter (\<lambda>c. xc_prd c \<notin> terminal) (resumable_checkpoints db repo)))"
    by (rule distinct_map_filter[OF resumable_rows(1)[OF ok]])
  from candidates_of_found[OF ok this, of env now ks db' repo] assms(2) resumable_rows(2)[OF ok]
  show ?thesis unfolding discover_checkpoints_def found_candidate_def by auto
qed

text \<open>
  Three frozen worktrees of a base \<open>b0\<close>: \<open>/a\<close> is as it was, in \<open>/b\<close> an operator has committed more than was
  frozen, and in \<open>/c\<close> something else was changed.
\<close>

definition operator_env :: resume_env where
  "operator_env = \<lparr>re_git = (\<lambda>path args.
       if args = [''rev-parse'', ''HEAD''] then Inr (if path = ''/b'' then ''c1'' else ''b0'')
       else if args = [''rev-parse'', ''HEAD^''] then Inr ''b0''
       else if args = [''rev-parse'', ''--verify'', ''--quiet'', ''HEAD^2''] then Inl ''git_failed: ''
       else if ''--binary'' \<in> set args then Inr (''diff of '' @ path)
       else if ''--name-only'' \<in> set args then Inr ''x.rs'' else Inr []),
     re_is_dir = (\<lambda>_. True), re_read = (\<lambda>_ _. Inr None), re_hash = (\<lambda>d. ''sha256:'' @ d),
     re_manifest_json = join '','', re_manifest_of = (\<lambda>t. Inr (split_char (CHR '','') t)),
     re_utf8_error = (\<lambda>_. []), re_missing_file = []\<rparr>"

definition operator_checkpoint :: "string \<Rightarrow> string \<Rightarrow> string \<Rightarrow> execution_checkpoint" where
  "operator_checkpoint prd path hash =
     \<lparr>xc_id = ''checkpoint-'' @ prd, xc_repository = ''repo'', xc_prd = prd, xc_prd_path = prd, xc_execution = None,
      xc_phase = ''reviewed'', xc_base_revision = ''b0'', xc_worktree = path, xc_branch = None, xc_diff_hash = hash,
      xc_changed_files = ''x.rs'', xc_agent = ''a'', xc_usage = ''{}'', xc_test_evidence = ''{}'', xc_invalid_reason = None\<rparr>"

definition operator_puts :: "familiar_error + recovery_db" where
  "operator_puts =
     rbind (put_checkpoint ''t1'' empty_recovery (operator_checkpoint ''PRD-1'' ''/a'' ''sha256:diff of /a'')) (\<lambda>db1.
     rbind (put_checkpoint ''t1'' db1 (operator_checkpoint ''PRD-2'' ''/b'' ''sha256:less'')) (\<lambda>db2.
     put_checkpoint ''t1'' db2 (operator_checkpoint ''PRD-3'' ''/c'' ''sha256:other'')))"

definition operator_db :: recovery_db where
  "operator_db = (case operator_puts of Inr db \<Rightarrow> db | Inl _ \<Rightarrow> empty_recovery)"

lemma operator_db_reachable: "recovery_reachable operator_db"
proof -
  have "is_ok operator_puts" by code_simp
  then have p: "operator_puts = Inr operator_db" unfolding operator_db_def by (rule is_ok_value)
  obtain db1 db2 where
    "put_checkpoint ''t1'' empty_recovery (operator_checkpoint ''PRD-1'' ''/a'' ''sha256:diff of /a'') = Inr db1"
    "put_checkpoint ''t1'' db1 (operator_checkpoint ''PRD-2'' ''/b'' ''sha256:less'') = Inr db2"
    "put_checkpoint ''t1'' db2 (operator_checkpoint ''PRD-3'' ''/c'' ''sha256:other'') = Inr operator_db"
    using p unfolding operator_puts_def rbind_Inr_iff by blast
  then show ?thesis unfolding recovery_reachable_def
    by (meson rs_put rtranclp.rtrancl_into_rtrancl rtranclp.rtrancl_refl)
qed

theorem discovered_valid_iff_witness:
  "\<exists>a b c db'. discover_checkpoints operator_env ''t9'' {} operator_db ''repo'' = (Inr [a, b, c], db')
     \<and> rc_valid a \<and> rc_valid b \<and> \<not> rc_valid c
     \<and> map_option xc_diff_hash (get_checkpoint operator_db ''repo'' ''PRD-2'') = Some ''sha256:less''
     \<and> map_option xc_diff_hash (get_checkpoint db' ''repo'' ''PRD-2'') = Some ''sha256:diff of /b''"
proof -
  let ?cs = "filter (\<lambda>c. xc_prd c \<notin> {}) (resumable_checkpoints operator_db ''repo'')"
  have cs: "?cs = [operator_checkpoint ''PRD-1'' ''/a'' ''sha256:diff of /a'', operator_checkpoint ''PRD-2'' ''/b'' ''sha256:less'',
      operator_checkpoint ''PRD-3'' ''/c'' ''sha256:other'']" by code_simp
  have "is_ok (fst (discover_checkpoints operator_env ''t9'' {} operator_db ''repo''))" by code_simp
  then obtain ks db' where d: "discover_checkpoints operator_env ''t9'' {} operator_db ''repo'' = (Inr ks, db')"
    by (auto simp: result_simps prod_eq_iff)
  let ?found = "found_candidate operator_env db' ''repo''"
  have "list_all2 (\<lambda>c k. ?found c k) ?cs ks"
    using discovered_valid_iff[OF operator_db_reachable d] unfolding found_candidate_def .
  then obtain a b c where k: "ks = [a, b, c]"
    and f: "?found (operator_checkpoint ''PRD-1'' ''/a'' ''sha256:diff of /a'') a"
      "?found (operator_checkpoint ''PRD-2'' ''/b'' ''sha256:less'') b"
      "?found (operator_checkpoint ''PRD-3'' ''/c'' ''sha256:other'') c"
    unfolding cs list_all2_Cons1 by auto
  have "unchanged_since operator_env (operator_checkpoint ''PRD-1'' ''/a'' ''sha256:diff of /a'') [''x.rs'']"
    and "committed_on_base operator_env (operator_checkpoint ''PRD-2'' ''/b'' ''sha256:less'')" by code_simp+
  moreover have "\<not> unchanged_since operator_env (operator_checkpoint ''PRD-3'' ''/c'' ''sha256:other'') files" for files
  proof -
    have "(case snapshot operator_env ''/c'' ''b0'' of Inr (diff, _) \<Rightarrow> re_hash operator_env diff \<noteq> ''sha256:other'' | Inl _ \<Rightarrow> True)"
      by code_simp
    then show ?thesis by (auto simp: unchanged_since_def operator_checkpoint_def split: sum.splits prod.splits)
  qed
  moreover have "\<not> committed_on_base operator_env (operator_checkpoint ''PRD-3'' ''/c'' ''sha256:other'')" by code_simp
  ultimately have v: "rc_valid a" "rc_valid b" "\<not> rc_valid c" using f unfolding found_candidate_def by blast+
  then have "recorded_as_found operator_env db' ''repo'' (operator_checkpoint ''PRD-2'' ''/b'' ''sha256:less'') b"
    and b: "rc_prd b = ''PRD-2''" "rc_worktree b = ''/b''"
    using f(2) by (simp_all add: found_candidate_def, simp_all add: operator_checkpoint_def)
  then obtain r diff where r: "get_checkpoint db' ''repo'' ''PRD-2'' = Some r"
      "snapshot operator_env ''/b'' ''b0'' = Inr (diff, rc_files b)" "xc_diff_hash r = re_hash operator_env diff"
    by (auto simp: recorded_as_found_def b operator_checkpoint_def)
  have s: "map_sum id fst (snapshot operator_env ''/b'' ''b0'') = Inr ''diff of /b''" by code_simp
  have "map_option xc_diff_hash (get_checkpoint db' ''repo'' ''PRD-2'') = Some ''sha256:diff of /b''"
    using r s by (simp add: operator_env_def)
  moreover have "map_option xc_diff_hash (get_checkpoint operator_db ''repo'' ''PRD-2'') = Some ''sha256:less''" by code_simp
  ultimately show ?thesis using d v unfolding k(1) by blast
qed

text \<open>One worktree in which git fails hides every candidate of the repository.\<close>

lemma one_error_hides_every_candidate:
  assumes "c \<in> set cs" "\<And>db. \<exists>e. candidate_of env now db c = Inl e"
  shows "\<exists>e. fst (candidates_of env now cs db) = Inl e"
  using assms(1)
proof (induction cs arbitrary: db)
  case (Cons x cs)
  show ?case
  proof (cases "candidate_of env now db x")
    case (Inr p)
    obtain k db' where p: "p = (k, db')" by (cases p)
    have "x \<noteq> c" using assms(2)[of db] Inr by auto
    then obtain e where "fst (candidates_of env now cs db') = Inl e" using Cons by auto
    then show ?thesis using Inr p by (cases "candidates_of env now cs db'") auto
  qed simp
qed simp

section \<open>Running the waves\<close>

text \<open>Nothing is run, landed or completed for a PRD of which a prerequisite has failed before the wave.\<close>

definition without_failed_prerequisite :: "(string \<Rightarrow> string list option) \<Rightarrow> resume_progress \<Rightarrow> string \<Rightarrow> bool" where
  "without_failed_prerequisite deps p prd \<longleftrightarrow>
     filter (\<lambda>d. d \<in> set (rp_failed p)) (case deps prd of None \<Rightarrow> [] | Some ds \<Rightarrow> ds) = []"

lemma without_failed_mono:
  "without_failed_prerequisite deps (failed_prd prd' m p) prd \<Longrightarrow> without_failed_prerequisite deps p prd"
  by (auto simp: without_failed_prerequisite_def failed_prd_def filter_empty_conv)

lemma runnable_have_no_failed_prerequisite:
  "list_all (without_failed_prerequisite deps p) (fst (runnable_of deps prds p))"
proof (induction deps prds p rule: runnable_of.induct)
  case (2 deps prd prds p)
  let ?failed = "filter (\<lambda>d. d \<in> set (rp_failed p)) (case deps prd of None \<Rightarrow> [] | Some ds \<Rightarrow> ds)"
  show ?case
  proof (cases "?failed = []")
    case True
    then show ?thesis using 2(1)[OF refl] by (simp add: split_beta without_failed_prerequisite_def)
  next
    case False
    have "list_all (without_failed_prerequisite deps p)
        (fst (runnable_of deps prds (failed_prd prd (''dependency_failed: '' @ join '','' ?failed) p)))"
      using 2(2)[OF refl False] unfolding list_all_iff by (blast intro: without_failed_mono)
    then show ?thesis using False by (simp add: Let_def)
  qed
qed simp

text \<open>
  A worker that panicked leaves its PRD out of the failed ones: the candidate that depends on it is handed to the
  workers in the next wave.
\<close>

definition panicking :: "string list resume_steps" where
  "panicking = \<lparr>rw_work = (\<lambda>prds w. (map (\<lambda>prd. if prd = ''PRD-1'' then Resume_Panicked else Resume_Finished) prds, w @ prds)),
     rw_land = (\<lambda>prd w. (Inr ''abc'', w)), rw_complete = (\<lambda>prd merged w. (Inr (), w)), rw_review = (\<lambda>prd e w. (Inl e, w))\<rparr>"

lemma dependent_of_a_panicked_worker_runs:
  "run_waves panicking [''PRD-2'' \<mapsto> [''PRD-1'']] [[''PRD-1''], [''PRD-2'']]
     (\<lparr>rp_failures = [], rp_failed = [], rp_output = []\<rparr>, [])
   = (\<lparr>rp_failures = [''resume_worker_panicked''], rp_failed = [], rp_output = [''landed'' @ [tab] @ ''PRD-2'' @ [tab] @ ''abc'']\<rparr>,
      [''PRD-1'', ''PRD-2''])"
  by (simp add: run_waves_def run_wave_def panicking_def settle_result_def Let_def split: unit.split)

end
