(* ===== verification/Resume_Import.thy ===== *)
theory Resume_Import
  imports Resume Prd_Graph
begin

text \<open>
  The rest of \<open>crates/familiar-ai-daemon/src/resume.rs\<close>: worktrees from before the checkpoints, the proof that a
  commit contains a candidate, what is printed, and \<open>execute_configured\<close> from the inventory to the last wave.
  The execution history and the ownership files of the worktrees are the fields of \<open>legacy_env\<close>.
\<close>

section \<open>Worktrees without a checkpoint\<close>

record worktree_ownership =
  ow_session :: string
  ow_prd :: string
  ow_worktree :: string
  ow_created_at :: string
  ow_heartbeat_at :: string
  ow_state :: string

text \<open>The columns of the execution history that the import reads.\<close>

record history_record =
  hr_agent :: string
  hr_input_tokens :: "u64 option"
  hr_output_tokens :: "u64 option"
  hr_cached_tokens :: "u64 option"
  hr_total_tokens :: "u64 option"
  hr_cost :: "u64 option"
  hr_outcome :: string
  hr_exit_code :: "int option"
  hr_signal :: "int option"

text \<open>\<open>le_owned\<close> is the scan for ownership files in the order of their paths, and what reading each one gave.\<close>

record legacy_env = resume_env +
  le_owned :: "string + (string + worktree_ownership) list"
  le_history :: "string \<Rightarrow> string + history_record option"
  le_usage_json :: "history_record \<Rightarrow> string"

definition legacy_invalid :: "worktree_ownership \<Rightarrow> string \<Rightarrow> string \<Rightarrow> resume_candidate" where
  "legacy_invalid o' path reason =
     \<lparr>rc_checkpoint = ''legacy-'' @ ow_session o' @ ''-'' @ ow_prd o', rc_prd = ow_prd o', rc_prd_path = path,
      rc_phase = ''invalid_checkpoint'', rc_worktree = ow_worktree o', rc_files = [], rc_valid = False,
      rc_reason = Some reason\<rparr>"

definition successful_history :: "history_record \<Rightarrow> bool" where
  "successful_history r \<longleftrightarrow> hr_outcome r = ''succeeded'' \<and> hr_exit_code r = Some 0 \<and> hr_signal r = None"

definition legacy_evidence ::
    "legacy_env \<Rightarrow> recovery_db \<Rightarrow> string \<Rightarrow> string \<Rightarrow> string + (string \<times> history_record) option" where
  "legacy_evidence env db repo prd =
     (case Option.bind (latest_attempt_for_prd (rd_driver db) repo prd) da_execution of
        None \<Rightarrow> Inr None
      | Some execution \<Rightarrow>
        rbind (le_history env execution) (\<lambda>r.
        Inr (case r of Some r \<Rightarrow> if successful_history r then Some (execution, r) else None | None \<Rightarrow> None)))"

definition legacy_checkpoint ::
    "legacy_env \<Rightarrow> string \<Rightarrow> string \<Rightarrow> worktree_ownership \<Rightarrow> string \<Rightarrow> history_record \<Rightarrow> string + execution_checkpoint" where
  "legacy_checkpoint env repo path o' execution record =
     rbind (git_text (resume_env.truncate env) (ow_worktree o') [''rev-parse'', ''HEAD'']) (\<lambda>base.
      rbind (git_text (resume_env.truncate env) (ow_worktree o') [''branch'', ''--show-current'']) (\<lambda>branch.
      rbind (snapshot (resume_env.truncate env) (ow_worktree o') base) (\<lambda>(diff, files).
      Inr \<lparr>xc_id = ''legacy-checkpoint-'' @ execution, xc_repository = repo, xc_prd = ow_prd o',
        xc_prd_path = path, xc_execution = Some execution, xc_phase = ''implemented_pending_review'',
        xc_base_revision = base, xc_worktree = ow_worktree o',
        xc_branch = (if branch = [] then None else Some branch), xc_diff_hash = re_hash env diff,
        xc_changed_files = re_manifest_json env files, xc_agent = hr_agent record,
        xc_usage = le_usage_json env record,
        xc_test_evidence = ''{\"status\":\"unknown\",\"provenance\":\"legacy\"}'', xc_invalid_reason = None\<rparr>)))"

text \<open>The candidate of one ownership file, and the database after the import of its checkpoint.\<close>

definition legacy_candidate ::
    "legacy_env \<Rightarrow> string \<Rightarrow> bool \<Rightarrow> string \<Rightarrow> string \<Rightarrow> worktree_ownership \<Rightarrow> recovery_db
     \<Rightarrow> string + resume_candidate \<times> recovery_db" where
  "legacy_candidate env now import repo path o' db =
     rbind (legacy_evidence env db repo (ow_prd o')) (\<lambda>evidence.
     case evidence of
       None \<Rightarrow> Inr (legacy_invalid o' path
         ''legacy_checkpoint_absent: implementation success is not durably proven'', db)
     | Some (execution, record) \<Rightarrow>
       if \<not> re_is_dir env (ow_worktree o')
       then Inr (legacy_invalid o' path (''missing_worktree: '' @ ow_worktree o'), db)
       else rbind (legacy_checkpoint env repo path o' execution record) (\<lambda>c.
         rbind (if import then database_text (put_checkpoint now db c) else Inr db) (\<lambda>db'.
         rbind (validate_candidate (resume_env.truncate env) c) (\<lambda>k.
         Inr (k\<lparr>rc_reason := Some ''compatibility=legacy_execution_history''\<rparr>, db')))))"

text \<open>A worktree of a PRD that is not active, has a candidate already, or is finished is passed over.\<close>

fun legacy_candidates ::
    "legacy_env \<Rightarrow> string \<Rightarrow> bool \<Rightarrow> string \<Rightarrow> (string \<Rightarrow> string option) \<Rightarrow> (string \<Rightarrow> bool)
     \<Rightarrow> (string + worktree_ownership) list \<Rightarrow> recovery_db \<Rightarrow> (string + resume_candidate list) \<times> recovery_db" where
  "legacy_candidates env now import repo active skip [] db = (Inr [], db)"
| "legacy_candidates env now import repo active skip (Inl e # os) db = (Inl e, db)"
| "legacy_candidates env now import repo active skip (Inr o' # os) db =
     (case active (ow_prd o') of
        None \<Rightarrow> legacy_candidates env now import repo active skip os db
      | Some path \<Rightarrow>
        if skip (ow_prd o') then legacy_candidates env now import repo active skip os db
        else case legacy_candidate env now import repo path o' db of
          Inl e \<Rightarrow> (Inl e, db)
        | Inr (k, db') \<Rightarrow>
          (case legacy_candidates env now import repo active skip os db' of
             (Inl e, d) \<Rightarrow> (Inl e, d) | (Inr ks, d) \<Rightarrow> (Inr (k # ks), d)))"

definition discover_with_legacy ::
    "legacy_env \<Rightarrow> string \<Rightarrow> bool \<Rightarrow> string set \<Rightarrow> string \<Rightarrow> (string \<Rightarrow> string option) \<Rightarrow> recovery_db
     \<Rightarrow> (string + resume_candidate list) \<times> recovery_db" where
  "discover_with_legacy env now import terminal repo active db =
     (case discover_checkpoints (resume_env.truncate env) now terminal db repo of
        (Inl e, db1) \<Rightarrow> (Inl e, db1)
      | (Inr found, db1) \<Rightarrow>
        let ks = filter (\<lambda>k. active (rc_prd k) \<noteq> None) found;
            skip = (\<lambda>prd. prd \<in> rc_prd ` set ks \<or> prd \<in> terminal) in
        (case le_owned env of
           Inl e \<Rightarrow> (Inl e, db1)
         | Inr owned \<Rightarrow>
           (case legacy_candidates env now import repo active skip owned db1 of
              (Inl e, db2) \<Rightarrow> (Inl e, db2)
            | (Inr older, db2) \<Rightarrow> (Inr (sort_key (\<lambda>k. (rc_prd k, rc_checkpoint k)) (ks @ older)), db2))))"

section \<open>A commit that contains a candidate\<close>

definition verify_file :: "resume_env \<Rightarrow> string \<Rightarrow> string \<Rightarrow> string \<Rightarrow> string + unit" where
  "verify_file env worktree resolved path =
     rbind (map_err (\<lambda>e. ''cannot read candidate file '' @ path @ '': '' @ e) (re_read env worktree path)) (\<lambda>ours.
     case (ours, re_git env worktree [''cat-file'', ''blob'', resolved @ '':'' @ path]) of
       (None, Inl _) \<Rightarrow> Inr ()
     | (Some _, Inl _) \<Rightarrow> Inl (''commit '' @ resolved @ '' does not contain approved candidate file '' @ quoted path)
     | (None, Inr _) \<Rightarrow> Inl (''approved candidate deletes '' @ quoted path @ '' but commit '' @ resolved
         @ '' still contains it'')
     | (Some mine, Inr theirs) \<Rightarrow>
         if mine = theirs then Inr ()
         else Inl (''approved candidate file '' @ quoted path @ '' differs from its content in commit '' @ resolved))"

definition verify_commit_contains_candidate ::
    "resume_env \<Rightarrow> string \<Rightarrow> string \<Rightarrow> string list \<Rightarrow> string + string" where
  "verify_commit_contains_candidate env worktree commit files =
     rbind (map_err (\<lambda>e. quoted commit @ '' does not name a commit object: '' @ e)
       (git_text env worktree [''rev-parse'', ''--verify'', ''--end-of-options'', commit @ ''^{commit}''])) (\<lambda>resolved.
     rbind (check_all (verify_file env worktree resolved) files) (\<lambda>_. Inr resolved))"

section \<open>What is printed\<close>

definition render_candidate :: "resume_candidate \<Rightarrow> string" where
  "render_candidate k =
     rc_prd k @ [tab] @ ''phase='' @ rc_phase k @ [tab] @ ''status=''
     @ (if rc_valid k then ''resumable'' else ''invalid_checkpoint'') @ [tab] @ ''worktree='' @ rc_worktree k
     @ (case rc_reason k of None \<Rightarrow> [] | Some r \<Rightarrow> tab # ''reason='' @ r) @ [nl]"

definition render :: "resume_candidate list \<Rightarrow> string" where
  "render ks = concat (map render_candidate ks)"

definition scope_decision_commands :: "string \<Rightarrow> string \<Rightarrow> string list" where
  "scope_decision_commands finding candidate =
     map (\<lambda>flag. ''familiar-ai scope-decisions --finding-hash '' @ finding @ '' --candidate-hash '' @ candidate
       @ '' '' @ flag @ '' --actor human:<identity> --reason \"<why>\"'') [''--approve'', ''--reject'']"

definition scope_decision_lines :: "resume_candidate list \<Rightarrow> scope_question list \<Rightarrow> string list" where
  "scope_decision_lines ks pending =
     concat (map (\<lambda>k. concat (map (\<lambda>q.
       map (\<lambda>command. rc_prd k @ [tab] @ ''scope-decision-pending'' @ [tab] @ command)
         (scope_decision_commands (sq_finding_hash q) (sq_candidate q)))
       (filter (\<lambda>q. sq_prd q = rc_prd k) pending))) ks)"

section \<open>The command\<close>

text \<open>A map collected from pairs keeps the last value of a key.\<close>

definition resume_dependencies :: "discovered_prd list \<Rightarrow> string \<Rightarrow> string list option" where
  "resume_dependencies prds =
     map_of (rev (map (\<lambda>d. (show_prd_id (prd_ident d), map show_prd_id (prd_dependencies d))) prds))"

definition archived_ids :: "discovered_prd list \<Rightarrow> string set" where
  "archived_ids prds = set (map (\<lambda>d. show_prd_id (prd_ident d)) (filter (\<lambda>d. prd_location d = Archived) prds))"

definition active_paths :: "discovered_prd list \<Rightarrow> string \<Rightarrow> string option" where
  "active_paths prds =
     map_of (rev (map (\<lambda>d. (show_prd_id (prd_ident d), prd_path d)) (filter (\<lambda>d. prd_location d = Active) prds)))"

definition resume_inventory ::
    "legacy_env \<Rightarrow> string \<Rightarrow> bool \<Rightarrow> string \<Rightarrow> string set \<Rightarrow> string \<Rightarrow> discovered_prd list \<Rightarrow> recovery_db
     \<Rightarrow> (string + resume_candidate list) \<times> recovery_db" where
  "resume_inventory env now dry_run prd terminal repo prds db =
     (if prd = ''all'' then discover_with_legacy env now (\<not> dry_run) terminal repo (active_paths prds) db
      else case resume_one (resume_env.truncate env) now terminal db repo prd of
        Inl e \<Rightarrow> (Inl e, db)
      | Inr (k, db') \<Rightarrow> (Inr [k], db'))"

definition resume_waves ::
    "string \<Rightarrow> resume_candidate list \<Rightarrow> (string \<Rightarrow> string list option) \<Rightarrow> string set \<Rightarrow> nat
     \<Rightarrow> nat list list \<times> (nat \<times> string) list" where
  "resume_waves prd ks deps completed n =
     (if prd = ''all'' then plan_waves ks deps completed n
      else if rc_valid (ks ! 0) then ([[0]], [])
      else ([], [(0, case rc_reason (ks ! 0) of Some r \<Rightarrow> r | None \<Rightarrow> [])]))"

definition wave_lines :: "resume_candidate list \<Rightarrow> nat list list \<Rightarrow> string list" where
  "wave_lines ks waves =
     map (\<lambda>(n, wave). ''wave='' @ show_nat (n + 1) @ [tab] @ join '','' (map (\<lambda>i. rc_prd (ks ! i)) wave))
       (enumerate 0 waves)"

definition blocked_lines :: "resume_candidate list \<Rightarrow> (nat \<times> string) list \<Rightarrow> string list" where
  "blocked_lines ks blocked =
     map (\<lambda>(i, reason). ''blocked'' @ [tab] @ rc_prd (ks ! i) @ [tab] @ ''reason='' @ reason) blocked"

text \<open>
  \<open>rw_world\<close> is the world with the database that the inventory left, \<open>rw_agents\<close> the agents of the configuration. The
  command returns its lines, or the failures.
\<close>

record 'w resume_command = "'w resume_steps" +
  rw_world :: "recovery_db \<Rightarrow> 'w"
  rw_agents :: "string + unit"

definition run_plan ::
    "'w resume_command \<Rightarrow> string \<Rightarrow> resume_candidate list \<Rightarrow> (string \<Rightarrow> string list option) \<Rightarrow> nat list list
     \<Rightarrow> (nat \<times> string) list \<Rightarrow> string list \<Rightarrow> 'w \<Rightarrow> (string + string list) \<times> 'w" where
  "run_plan env prd ks deps waves blocked output w =
     (case (if prd = ''all'' then None else find (\<lambda>k. \<not> rc_valid k) ks) of
        Some k \<Rightarrow> (Inl (rc_prd k @ '': '' @ (case rc_reason k of Some r \<Rightarrow> r | None \<Rightarrow> ''invalid_checkpoint'')), w)
      | None \<Rightarrow>
        (case rw_agents env of
           Inl e \<Rightarrow> (Inl e, w)
         | Inr () \<Rightarrow>
           let p = \<lparr>rp_failures = map (\<lambda>(i, reason). rc_prd (ks ! i) @ '': '' @ reason) blocked, rp_failed = [], rp_output = output\<rparr>;
               (p', w') = run_waves env deps (map (map (\<lambda>i. rc_prd (ks ! i))) waves) (p, w) in
           (if rp_failures p' = [] then Inr (rp_output p') else Inl (join ''; '' (rp_failures p')), w')))"

definition execute_resume ::
    "'w resume_command \<Rightarrow> legacy_env \<Rightarrow> string \<Rightarrow> bool \<Rightarrow> string \<Rightarrow> string set \<Rightarrow> string \<Rightarrow> discovered_prd list \<Rightarrow> nat
     \<Rightarrow> recovery_db \<Rightarrow> (string + string list) \<times> 'w" where
  "execute_resume cmd env now dry_run prd terminal repo prds n db =
     (case validate_graph prds of
        Inl Panic \<Rightarrow> (Inl ''panic'', rw_world cmd db)
      | Inl (Err e) \<Rightarrow> (Inl (show_backlog_error e), rw_world cmd db)
      | Inr () \<Rightarrow>
        (case resume_inventory env now dry_run prd terminal repo prds db of
           (Inl e, db') \<Rightarrow> (Inl e, rw_world cmd db')
         | (Inr ks, db') \<Rightarrow>
           let deps = resume_dependencies prds;
               (waves, blocked) = resume_waves prd ks deps (archived_ids prds \<union> terminal) n;
               output = str_lines (render ks) @ scope_decision_lines ks (pending_scope_decisions db' repo)
                 @ wave_lines ks waves @ blocked_lines ks blocked in
           if dry_run then (Inr output, rw_world cmd db')
           else run_plan cmd prd ks deps waves blocked output (rw_world cmd db')))"

section \<open>Properties\<close>

text \<open>
  A verified commit has every file of the candidate with the bytes of the worktree, and none that the
  candidate deletes.
\<close>

lemma verified_commit_is_the_candidate:
  "verify_commit_contains_candidate env worktree commit files = Inr resolved \<longleftrightarrow>
     git_text env worktree [''rev-parse'', ''--verify'', ''--end-of-options'', commit @ ''^{commit}''] = Inr resolved
     \<and> (\<forall>path\<in>set files.
          (case re_git env worktree [''cat-file'', ''blob'', resolved @ '':'' @ path] of
             Inr blob \<Rightarrow> re_read env worktree path = Inr (Some blob)
           | Inl _ \<Rightarrow> re_read env worktree path = Inr None))"
proof -
  have one: "verify_file env worktree resolved path = Inr () \<longleftrightarrow>
      (case re_git env worktree [''cat-file'', ''blob'', resolved @ '':'' @ path] of
         Inr blob \<Rightarrow> re_read env worktree path = Inr (Some blob)
       | Inl _ \<Rightarrow> re_read env worktree path = Inr None)" for path
    by (cases "re_read env worktree path"; cases "re_git env worktree [''cat-file'', ''blob'', resolved @ '':'' @ path]")
       (auto simp: verify_file_def split: option.splits)
  have all: "check_all f xs = Inr () \<longleftrightarrow> (\<forall>x\<in>set xs. f x = Inr ())" for f :: "string \<Rightarrow> string + unit" and xs
    by (induction xs) (auto simp: rbind_Inr_iff)
  show ?thesis
    unfolding verify_commit_contains_candidate_def rbind_Inr_iff map_err_Inr_iff using all one by auto
qed

end
