(* ===== verification/Completion_Guarantees.thy ===== *)
theory Completion_Guarantees
  imports Backlog_Completion
begin

text \<open>
  What \<open>complete_run_with\<close> guarantees of a completed PRD, and three ways in which a review that ended well cannot
  complete: a waived blocking finding, the finding id of another cycle, and a review by checks only.
\<close>

section \<open>What completion has seen\<close>

text \<open>
  The terminal cycle of the execution ended with a clean review; the review request that the reviewer got is in
  the store with its hash, and the evidence that counts is that of the request, on its diff; every required check
  passed; no blocking finding is open, and an open one on a criterion is waived by a human.
\<close>

definition earned :: "completion_env \<Rightarrow> review_db \<Rightarrow> string \<Rightarrow> string list \<Rightarrow> review_cycle \<Rightarrow> review_request \<Rightarrow> review_result \<Rightarrow> bool" where
  "earned env vdb execution required c q result \<longleftrightarrow>
     terminal_cycle vdb execution = Inr c \<and> clean_terminal c execution \<and> cy_review_result c = Some result
     \<and> (\<exists>a\<in>set (vd_artifacts vdb). cm_hash env (ar_content a) = ar_hash a \<and> cm_request_of env (ar_content a) = Inr q)
     \<and> request_matches c q result
     \<and> (\<forall>check\<in>set required. \<exists>e\<in>set (current_evidence c). passed_check check e \<and> ve_tested_identity e = er_content_hash (rq_diff q))
     \<and> (\<forall>f\<in>set (rr_findings result). \<not> (rf_blocking f \<and> rf_status f = Open))
     \<and> (\<forall>f\<in>set (rr_findings result). needs_waiver f \<longrightarrow> durably_waived env vdb c f)"

lemma check_required_passed:
  "check_required current accepted checks = Inr u \<Longrightarrow> check \<in> set checks \<Longrightarrow> \<exists>e\<in>set current. passed_check check e"
  by (induction current accepted checks rule: check_required.induct)
     (auto split: option.splits if_splits dest: find_SomeD)

lemma persisted_findings_closed:
  assumes "validate_persisted_findings vdb c = Inr u" "cy_review_result c = Some result" "f \<in> set (rr_findings result)"
  shows "\<not> (rf_blocking f \<and> rf_status f = Open)"
    and "\<exists>r\<in>set (vd_findings vdb). fw_cycle r = cy_cycle_id c \<and> fw_id r = rf_finding_id f"
  using assms
  by (fastforce simp: validate_persisted_findings_def Let_def result_simps ok_or_def list_ex_iff
        split: option.splits dest: find_SomeD)+

lemma validated_is_earned:
  assumes "validate_completion env vdb execution required = Inr c"
  obtains q result where "earned env vdb execution required c q result"
proof -
  have v: "terminal_cycle vdb execution = Inr c" "validate_completion_cycle env vdb c execution required = Inr ()"
    "validate_persisted_review_request env vdb c = Inr ()" "validate_persisted_findings vdb c = Inr ()"
    using assms by (auto simp: validate_completion_def result_simps)
  obtain result where result: "cy_review_result c = Some result" and clean: "clean_terminal c execution"
    and waived: "\<forall>f\<in>set (rr_findings result). needs_waiver f \<longrightarrow> durably_waived env vdb c f"
    and checks: "check_required (current_evidence c) None required = Inr ()"
    using v(2) by (auto simp: validate_completion_cycle_def result_simps ok_or_def split: option.splits)
  obtain q a where a: "a \<in> set (vd_artifacts vdb)" "cm_hash env (ar_content a) = ar_hash a" "cm_request_of env (ar_content a) = Inr q"
    and q: "request_matches c q result"
    using v(3) result
    by (auto simp: validate_persisted_review_request_def result_simps ok_or_def intact_artifact_def
          split: option.splits dest!: find_SomeD)
  have "passed_check check e \<Longrightarrow> e \<in> set (current_evidence c) \<Longrightarrow> ve_tested_identity e = er_content_hash (rq_diff q)" for check e
    using q by (auto simp: request_matches_def list_all_iff)
  then have "earned env vdb execution required c q result"
    unfolding earned_def using v(1) clean result a q waived check_required_passed[OF checks]
      persisted_findings_closed(1)[OF v(4) result] by blast
  then show thesis by (rule that)
qed

text \<open>
  C4: a completed run has earned it: its row was in progress with the content that is completed, the newest
  event of the row is the claim by this actor, and the review of its execution is clean, intact and about the
  diff on which every required check passed. Exactly the status of that row changes, with its event, together
  with what the caller adds.
\<close>

theorem completion_is_earned:
  assumes "complete_run_with env t finalize bdb vdb other repo target execution actor required = Inr (entry, bdb', other')"
  shows "(\<exists>row e. db_rows bdb (repo, prd_path target) = Some row \<and> row_status row = InProgress
        \<and> row_hash row = prd_content_hash target \<and> latest_event bdb (repo, prd_path target) = Some e
        \<and> ev_old e = Pending \<and> ev_new e = InProgress \<and> ev_actor e = actor \<and> run_actor_ok actor
        \<and> bdb' = insert_event (repo, prd_path target) InProgress backlog_status.Completed actor t None
            (bdb\<lparr>db_rows := (db_rows bdb)((repo, prd_path target) \<mapsto> row\<lparr>row_status := backlog_status.Completed, row_updated_at := t\<rparr>)\<rparr>))
    \<and> finalize other = Inr other'
    \<and> (\<exists>c q result. earned env vdb execution required c q result)"
  using assms validated_is_earned[of env vdb execution required]
  by (fastforce simp: complete_run_with_def Let_def result_simps completion_conflict_def owns_claim_def ok_or_def
        validate_run_actor_def update_status_def split: option.splits if_splits)

section \<open>An example\<close>

definition done_cycle :: "review_finding list \<Rightarrow> review_waiver list \<Rightarrow> string \<Rightarrow> review_cycle" where
  "done_cycle findings waivers execution =
     \<lparr>cy_cycle_id = execution @ ''-cycle'', cy_task_id = execution, cy_repository_key = ''repo'', cy_attempt = 1,
      cy_state = review_cycle_state.Completed, cy_implementation = sample_observation ''m1'' Role_Implementation,
      cy_implementation_execution = None, cy_reviewer = None, cy_independence = None,
      cy_review_request = Some \<lparr>er_content_hash = ''h:{}'', er_media_type = ''application/json'', er_byte_size = 2,
        er_repository = [], er_revision = [], er_storage_ref = ''sqlite:review_artifacts/h:{}'', er_truncated = False, er_omitted_bytes = 0\<rparr>,
      cy_review_result = Some (sample_result\<lparr>rr_findings := findings\<rparr>),
      cy_remediation_request = None, cy_remediation_result = None, cy_before = [sample_check_evidence ''h1'' Passed],
      cy_after = [], cy_history = [sample_check_evidence ''h1'' Passed], cy_waivers = waivers, cy_scope_snapshot = None,
      cy_scope_evaluations = [], cy_tier = None, cy_batch_pending = False, cy_usage = sample_usage 3, cy_duration_ms = 5,
      cy_started_at = ''t1'', cy_ended_at = Some ''t2'', cy_disposition = ReadyForHumanApproval,
      cy_stop_reasons = [CleanReview], cy_stop_detail = None, cy_review_attempts = [], cy_remediation_attempts = []\<rparr>"

definition done_env :: completion_env where
  "done_env = \<lparr>cm_paths = [], cm_request_of = (\<lambda>_. Inr (sample_request\<lparr>rq_task := sample_task\<lparr>tk_task_id := ''e1''\<rparr>\<rparr>)),
     cm_read_waiver = (\<lambda>_. None), cm_hash = (\<lambda>content. ''h:'' @ content)\<rparr>"

definition done_task :: "string \<Rightarrow> review_task" where
  "done_task execution = sample_task\<lparr>tk_task_id := execution, tk_verification_plan_id := execution @ ''-verification''\<rparr>"

definition review_of :: "review_finding list \<Rightarrow> string \<Rightarrow> review_db \<Rightarrow> review_db" where
  "review_of findings execution vdb =
     (case save_cycle_row (\<lambda>_. ''reviewer'') (done_cycle findings [] execution)
        (insert_task ''t0'' (done_task execution) default_blocking_policy
          (snd (save_artifact (cm_hash done_env) ''t1'' ''review_request'' ''{}'' vdb))) of Inr db \<Rightarrow> db | Inl _ \<Rightarrow> vdb)"

definition run_actor :: string where
  "run_actor = ''system:familiar-ai-run:00000000000000000001-0000000001-000001''"

definition claimed_row :: backlog_row where
  "claimed_row = \<lparr>row_number = 1, row_suffix = None, row_hash = [], row_status = InProgress, row_discovered_at = ''t0'',
     row_last_seen_at = ''t0'', row_missing_since = None, row_created_at = ''t0'', row_updated_at = ''t1''\<rparr>"

definition one_claim :: backlog_db where
  "one_claim = insert_event (''repo'', ''docs/prds/PRD-1.md'') Pending InProgress run_actor ''t1'' None
     (empty_db\<lparr>db_rows := [(''repo'', ''docs/prds/PRD-1.md'') \<mapsto> claimed_row]\<rparr>)"

abbreviation completing :: "review_db \<Rightarrow> backlog_store_error + backlog_entry \<times> backlog_db \<times> nat" where
  "completing vdb \<equiv> complete_run_with done_env ''t3'' (\<lambda>n. Inr (Suc n)) one_claim vdb 0 ''repo'' (sample_prd 1 []) ''e1'' run_actor [''test'']"

theorem completion_is_earned_witness:
  "\<exists>entry bdb'. completing (review_of [] ''e1'' empty_reviews) = Inr (entry, bdb', 1)
     \<and> (\<exists>c q result. earned done_env (review_of [] ''e1'' empty_reviews) ''e1'' [''test''] c q result)"
proof -
  have "is_ok (completing (review_of [] ''e1'' empty_reviews))" by code_simp
  then obtain entry bdb' n where *: "completing (review_of [] ''e1'' empty_reviews) = Inr (entry, bdb', n)"
    by (auto simp: is_ok_iff)
  then show ?thesis using completion_is_earned[OF *] by simp
qed

section \<open>Reviews that cannot complete\<close>

lemma complete_run_with_refused:
  assumes "terminal_cycle vdb execution = Inr c" "validate_persisted_findings vdb c = Inl e"
  shows "\<not> is_ok (complete_run_with env t finalize bdb vdb other repo target execution actor required)"
  using assms
  by (auto simp: is_ok_iff complete_run_with_def Let_def result_simps validate_completion_def split: option.splits)

text \<open>
  C26: a terminal cycle with an open blocking finding never completes, although \<open>waive_finding\<close> accepts a waiver of
  exactly such a finding and the check of the cycle itself accepts a durable one: the check of the persisted
  findings counts every open blocking row.
\<close>

theorem waived_blocking_finding_never_completes:
  assumes "terminal_cycle vdb execution = Inr c" "cy_review_result c = Some result" "f \<in> set (rr_findings result)"
    "rf_blocking f" "rf_status f = Open"
  shows "\<not> is_ok (complete_run_with env t finalize bdb vdb other repo target execution actor required)"
proof -
  have "validate_persisted_findings vdb c \<noteq> Inr ()"
    using persisted_findings_closed(1)[OF _ assms(2,3)] assms(4,5) by blast
  then obtain e where "validate_persisted_findings vdb c = Inl e" by (cases "validate_persisted_findings vdb c") auto
  then show ?thesis by (rule complete_run_with_refused[OF assms(1)])
qed

text \<open>The review keeps one open blocking finding; a human waives it; then the cycle is accepted and the run is not.\<close>

definition open_finding :: review_finding where
  "open_finding = sample_finding\<lparr>rf_blocking := True\<rparr>"

definition waived_db :: review_db where
  "waived_db = (case waive_finding (\<lambda>_. []) ''t2'' (review_of [open_finding] ''e1'' empty_reviews) ''e1-cycle'' ''F1'' ''human:a'' ''known'' of
     Inr (_, db) \<Rightarrow> db | Inl _ \<Rightarrow> empty_reviews)"

theorem waived_blocking_finding_never_completes_witness:
  "(case terminal_cycle waived_db ''e1'' of
      Inr c \<Rightarrow> validate_completion_cycle done_env waived_db c ''e1'' [''test''] = Inr ()
    | Inl _ \<Rightarrow> False)
   \<and> \<not> is_ok (completing waived_db)"
proof -
  have v: "(case terminal_cycle waived_db ''e1'' of
      Inr c \<Rightarrow> validate_completion_cycle done_env waived_db c ''e1'' [''test''] = Inr ()
    | Inl _ \<Rightarrow> False)" by code_simp
  then obtain c where c: "terminal_cycle waived_db ''e1'' = Inr c" by (auto split: sum.splits)
  have "(case terminal_cycle waived_db ''e1'' of Inl _ \<Rightarrow> False | Inr c \<Rightarrow>
      (case cy_review_result c of None \<Rightarrow> False | Some r \<Rightarrow> rr_findings r = [open_finding]))" by code_simp
  with c obtain result where "cy_review_result c = Some result" "rr_findings result = [open_finding]"
    by (auto split: option.splits)
  with waived_blocking_finding_never_completes[OF c this(1), of open_finding] v
  show ?thesis by (simp add: open_finding_def sample_finding_def)
qed

text \<open>The row of a finding belongs to the cycle that was saved last with a finding of that id.\<close>

lemma save_findings_owner:
  assumes "r \<in> set (vd_findings (fold (save_finding aj c result) fs db))"
  shows "fw_cycle r = cy_cycle_id c \<or> (r \<in> set (vd_findings db) \<and> fw_id r \<notin> rf_finding_id ` set fs)"
  using assms
proof (induction fs arbitrary: db)
  case (Cons f fs)
  from Cons.IH[of "save_finding aj c result f db"] Cons.prems show ?case
    by (auto simp: save_finding_def replace_row_def finding_columns_def)
qed simp

lemma save_evidence_findings: "vd_findings (fold (save_evidence c) es db) = vd_findings db"
  by (induction es arbitrary: db) (auto simp: save_evidence_def)

lemma saved_finding_owner:
  assumes "save_cycle_row aj c db = Inr db'" "cy_review_result c = Some result" "f \<in> set (rr_findings result)"
    "r \<in> set (vd_findings db')" "fw_id r = rf_finding_id f"
  shows "fw_cycle r = cy_cycle_id c"
  using assms save_findings_owner[of r aj c result "rr_findings result"]
  by (fastforce simp: save_cycle_row_def save_history_def save_stages_def save_result_def save_evidence_findings
        result_simps Let_def split: if_splits)

text \<open>
  C27: the primary key of the findings is the id that the reviewer chose. When another cycle is saved with a
  finding of the same id, the row of the first cycle is gone, and that cycle can no longer complete.
\<close>

theorem shared_finding_id_blocks_completion:
  assumes "save_cycle_row aj c' vdb = Inr vdb'" "cy_cycle_id c' \<noteq> cy_cycle_id c"
    "cy_review_result c' = Some result'" "f' \<in> set (rr_findings result')"
    "cy_review_result c = Some result" "f \<in> set (rr_findings result)" "rf_finding_id f = rf_finding_id f'"
    "terminal_cycle vdb' execution = Inr c"
  shows "\<not> is_ok (complete_run_with env t finalize bdb vdb' other repo target execution actor required)"
proof -
  have "validate_persisted_findings vdb' c \<noteq> Inr ()"
  proof
    assume "validate_persisted_findings vdb' c = Inr ()"
    from persisted_findings_closed(2)[OF this assms(5,6)] obtain r where
      "r \<in> set (vd_findings vdb')" "fw_cycle r = cy_cycle_id c" "fw_id r = rf_finding_id f" by blast
    with saved_finding_owner[OF assms(1,3,4), of r] assms(2,7) show False by simp
  qed
  then obtain e where "validate_persisted_findings vdb' c = Inl e" by (cases "validate_persisted_findings vdb' c") auto
  then show ?thesis by (rule complete_run_with_refused[OF assms(8)])
qed

text \<open>Two reviews, each with one informational finding \<open>F1\<close>: the first completes before the second is saved only.\<close>

definition first_review :: review_db where
  "first_review = insert_task ''t0'' (done_task ''e2'') default_blocking_policy (review_of [sample_finding] ''e1'' empty_reviews)"

definition second_cycle :: review_cycle where
  "second_cycle = done_cycle [sample_finding] [] ''e2''"

definition second_review :: review_db where
  "second_review = (case save_cycle_row (\<lambda>_. ''reviewer'') second_cycle first_review of Inr db \<Rightarrow> db | Inl _ \<Rightarrow> empty_reviews)"

theorem shared_finding_id_blocks_completion_witness:
  "is_ok (completing first_review) \<and> \<not> is_ok (completing second_review)"
proof
  show "is_ok (completing first_review)" by code_simp
  have saved: "save_cycle_row (\<lambda>_. ''reviewer'') second_cycle first_review = Inr second_review"
    unfolding second_review_def by (rule is_ok_value) code_simp
  have c: "terminal_cycle second_review ''e1'' = Inr (done_cycle [sample_finding] [] ''e1'')" by code_simp
  show "\<not> is_ok (completing second_review)"
    by (rule shared_finding_id_blocks_completion[OF saved _ _ _ _ _ _ c,
          where result' = "sample_result\<lparr>rr_findings := [sample_finding]\<rparr>" and f' = sample_finding
          and result = "sample_result\<lparr>rr_findings := [sample_finding]\<rparr>" and f = sample_finding])
       (simp_all add: second_cycle_def done_cycle_def)
qed

text \<open>A review by checks alone has no result, so it never completes.\<close>

lemma checks_only_review_never_completes:
  assumes "terminal_cycle vdb execution = Inr c" "cy_review_result c = None"
  shows "\<not> is_ok (complete_run_with env t finalize bdb vdb other repo target execution actor required)"
  using assms
  by (auto simp: is_ok_iff complete_run_with_def Let_def result_simps validate_completion_def
        validate_completion_cycle_def ok_or_def split: option.splits)

text \<open>
  Recovery marks every cycle that is being reviewed as interrupted, whichever process reviews it: afterwards
  none is in progress, and no cycle that was in progress can be the terminal one.
\<close>

lemma recovery_interrupts_every_review:
  "list_all (\<lambda>r. \<not> cycle_in_progress (cw_state r)) (vd_cycles (snd (recover_reviews t vdb)))
   \<and> fst (recover_reviews t vdb) = length (filter (\<lambda>r. cycle_in_progress (cw_state r)) (vd_cycles vdb))"
  by (auto simp: recover_reviews_def interrupt_cycle_def cycle_in_progress_def Let_def list_all_iff)

lemma find_map_same:
  assumes "find p xs = Some x" "\<And>y. p (g y) = p y" shows "find p (map g xs) = Some (g x)"
  using assms(1) by (induction xs) (auto simp: assms(2) split: if_splits)

text \<open>A waiver is recorded for a human with a reason only, on an open finding, and shows in the cycle.\<close>

lemma waiver_is_attributed:
  assumes "waive_finding substance_json t vdb cycle finding actor reason = Inr (w, vdb')"
  shows "waiving_human actor \<and> trim reason \<noteq> [] \<and> rw_actor w = actor \<and> rw_reason w = reason
    \<and> list_ex (waivable cycle finding) (vd_findings vdb)
    \<and> (\<exists>c. get_cycle vdb' cycle = Some c \<and> w \<in> set (cy_waivers c))"
  using assms
  by (auto simp: waive_finding_def Let_def get_cycle_def find_cycle_def find_map_same split: if_splits option.splits dest: find_SomeD)

end
