(* ===== verification/Resume_Landing.thy ===== *)
theory Resume_Landing
  imports Resume_Import Completion_Guarantees
begin

text \<open>
  Landing a resumed candidate: \<open>land_candidate\<close> and \<open>complete_landed\<close> of
  \<open>crates/familiar-ai-daemon/src/resume.rs\<close>, the second over the tables of \<open>Backlog_Store\<close>, \<open>Review_Store\<close>,
  \<open>Checkpoint_Store\<close> and \<open>Driver_Store\<close>. Its writes are transactions of their own: what was written before an
  error stays.
\<close>

section \<open>Merging\<close>

text \<open>\<open>lw_git\<close> runs git in a directory of the world; \<open>lw_merge\<close> merges and archives, as the driver does.\<close>

record 'w landing_git =
  lw_git :: "string \<Rightarrow> string list \<Rightarrow> ('w, string, string) io"
  lw_merge :: "string \<Rightarrow> string \<Rightarrow> string \<Rightarrow> (string \<times> string) option \<Rightarrow> ('w, string, string) io"

definition commit_candidate :: "'w landing_git \<Rightarrow> string \<Rightarrow> string \<Rightarrow> ('w, string, unit) io" where
  "commit_candidate env candidate_dir prd =
     io_bind (lw_git env candidate_dir [''status'', ''--porcelain'']) (\<lambda>dirty.
     if dirty = [] then io_return ()
     else io_bind (lw_git env candidate_dir [''add'', ''-A'']) (\<lambda>_.
       io_bind (lw_git env candidate_dir [''commit'', ''-qm'', prd @ '': resumed candidate'']) (\<lambda>_. io_return ())))"

text \<open>The first commit after the candidate on the way to the head carried it in; an error of git falls back to the head.\<close>

definition carrying_commit :: "'w landing_git \<Rightarrow> string \<Rightarrow> string \<Rightarrow> string \<Rightarrow> ('w, string, string) io" where
  "carrying_commit env repository candidate prior w =
     (case lw_git env repository [''rev-list'', ''--reverse'', ''--ancestry-path'', candidate @ ''..'' @ prior] w of
        (Inl _, w') \<Rightarrow> (Inr prior, w')
      | (Inr commits, w') \<Rightarrow>
          (Inr (case str_lines commits of [] \<Rightarrow> prior | first # _ \<Rightarrow> if first = [] then prior else first), w'))"

definition land_candidate ::
    "'w landing_git \<Rightarrow> string \<Rightarrow> string \<Rightarrow> string \<Rightarrow> (string \<times> string) option \<Rightarrow> ('w, string, string) io" where
  "land_candidate env repository candidate_dir prd archive =
     io_bind (commit_candidate env candidate_dir prd) (\<lambda>_.
     io_bind (lw_git env candidate_dir [''rev-parse'', ''HEAD'']) (\<lambda>candidate.
     io_bind (lw_git env repository [''rev-parse'', ''HEAD'']) (\<lambda>prior.
     (\<lambda>w. case lw_git env repository [''merge-base'', ''--is-ancestor'', candidate, prior] w of
        (Inr _, w') \<Rightarrow> carrying_commit env repository candidate prior w'
      | (Inl _, w') \<Rightarrow>
          (case lw_merge env repository prior candidate archive w' of
             (Inl e, w'') \<Rightarrow> (Inl (''integration failed: '' @ e), w'')
           | (Inr merged, w'') \<Rightarrow>
             (case lw_git env repository [''merge'', ''--ff-only'', merged] w'' of
                (Inl e, w3) \<Rightarrow> (Inl (''cannot fast-forward the checked-out branch: '' @ e), w3)
              | (Inr _, w3) \<Rightarrow> (Inr merged, w3)))))))"

section \<open>Completing\<close>

record landing_db =
  lg_backlog :: backlog_db
  lg_reviews :: review_db
  lg_recovery :: recovery_db

text \<open>
  Where the file of the PRD is archived already, the row that was claimed still names the active path: the newest
  row of the number that is in progress. \<open>prd_path\<close> of a row is a path of the repository.
\<close>

definition claimed_path :: "completion_env \<Rightarrow> backlog_db \<Rightarrow> string \<Rightarrow> u64 \<Rightarrow> string option" where
  "claimed_path env bdb repo number =
     (let rows = List.map_filter (\<lambda>path. case db_rows bdb (repo, path) of
            None \<Rightarrow> None
          | Some r \<Rightarrow> if row_number r = number \<and> row_status r = InProgress then Some (row_updated_at r, path) else None) (cm_paths env)
      in case rev (sort_key fst rows) of [] \<Rightarrow> None | r # _ \<Rightarrow> Some (snd r))"

definition ledger_target :: "completion_env \<Rightarrow> backlog_db \<Rightarrow> string \<Rightarrow> discovered_prd \<Rightarrow> discovered_prd" where
  "ledger_target env bdb repo target =
     (if prd_location target = Archived
      then (case claimed_path env bdb repo (prd_number target) of None \<Rightarrow> target | Some path \<Rightarrow> target\<lparr>prd_path := path\<rparr>)
      else target)"

definition landed_execution :: "execution_checkpoint \<Rightarrow> string" where
  "landed_execution c = (case strip_prefix (xc_id c) ''checkpoint-'' of Some rest \<Rightarrow> rest | None \<Rightarrow> xc_id c)"

definition run_actor_of :: "string \<Rightarrow> string" where
  "run_actor_of execution = ''system:familiar-ai-run:'' @ execution"

fun finish_checkpoint ::
    "string \<Rightarrow> string \<Rightarrow> string \<Rightarrow> (string \<times> string) list \<Rightarrow> recovery_db \<Rightarrow> (string + unit) \<times> recovery_db" where
  "finish_checkpoint stamp prd i [] rdb = (Inr (), rdb)"
| "finish_checkpoint stamp prd i ((phase, detail) # rest) rdb =
     (case transition_checkpoint stamp rdb i phase detail of
        Inl e \<Rightarrow> (Inl (''completed '' @ prd @ '' but checkpoint '' @ phase @ '' failed: '' @ show_familiar_error e), rdb)
      | Inr rdb' \<Rightarrow> finish_checkpoint stamp prd i rest rdb')"

definition complete_landed ::
    "completion_env \<Rightarrow> string \<Rightarrow> string \<Rightarrow> discovered_prd list \<Rightarrow> string list \<Rightarrow> string \<Rightarrow> string \<Rightarrow> landing_db
     \<Rightarrow> (string + unit) \<times> landing_db" where
  "complete_landed env stamp repo discovered required prd commit db =
     (case find (\<lambda>d. show_prd_id (prd_ident d) = prd) discovered of
        None \<Rightarrow> (Inl (prd @ '' is no longer in the backlog''), db)
      | Some found \<Rightarrow>
        (case get_checkpoint (lg_recovery db) repo prd of
           None \<Rightarrow> (Inl (''no durable checkpoint for '' @ prd), db)
         | Some c \<Rightarrow>
           (case complete_run env stamp (lg_backlog db) (lg_reviews db) repo (ledger_target env (lg_backlog db) repo found)
                   (landed_execution c) (run_actor_of (landed_execution c)) required of
              Inl e \<Rightarrow> (Inl (''landed '' @ commit @ '', but the ledger refused completion: '' @ show_store_error e), db)
            | Inr (_, bdb) \<Rightarrow>
              let db1 = db\<lparr>lg_backlog := bdb\<rparr> in
              (case finish_checkpoint stamp prd (xc_id c)
                      [(''integrated'', ''backlog_completion_committed''), (''completed'', ''execution_completed'')] (lg_recovery db) of
                 (Inl e, rdb) \<Rightarrow> (Inl e, db1\<lparr>lg_recovery := rdb\<rparr>)
               | (Inr (), rdb) \<Rightarrow>
                 (Inr (), db1\<lparr>lg_recovery := rdb\<lparr>rd_driver :=
                    snd (mark_latest_attempt_integrated stamp (rd_driver rdb) repo prd commit)\<rparr>\<rparr>)))))"

section \<open>What landing guarantees\<close>

lemma transition_sets_phase:
  assumes "transition_checkpoint t db i phase detail = Inr db'"
  shows "\<exists>c. find_checkpoint db' i = Some c \<and> xc_phase c = phase"
proof -
  have id: "xc_id (c\<lparr>xc_phase := phase, xc_invalid_reason := None, xc_updated_at := t\<rparr>) = xc_id c" for c :: stored_checkpoint
    by simp
  obtain c where c: "find_checkpoint db i = Some c" using assms by (auto simp: transition_checkpoint_def split: option.splits)
  show ?thesis
  proof (cases "xc_phase c = phase")
    case True
    then show ?thesis using assms c by (simp add: transition_checkpoint_def)
  next
    case False
    let ?db = "update_checkpoint i (\<lambda>c. c\<lparr>xc_phase := phase, xc_invalid_reason := None, xc_updated_at := t\<rparr>) db"
    have "rd_checkpoints db' = rd_checkpoints ?db"
      using assms c False by (auto simp: transition_checkpoint_def insert_checkpoint_event_def Let_def result_simps split: if_splits prod.splits)
    moreover have "find_checkpoint ?db i = Some (c\<lparr>xc_phase := phase, xc_invalid_reason := None, xc_updated_at := t\<rparr>)"
      using c find_map_same[of "\<lambda>c. xc_id c = i" "rd_checkpoints db" c
          "\<lambda>c. if xc_id c = i then c\<lparr>xc_phase := phase, xc_invalid_reason := None, xc_updated_at := t\<rparr> else c"]
      by (auto simp: find_checkpoint_def update_checkpoint_def dest: find_SomeD)
    ultimately show ?thesis by (simp add: find_checkpoint_def)
  qed
qed

lemma finish_sets_phase:
  assumes "finish_checkpoint t prd i [(p, d), (q, e)] db = (Inr (), db')"
  obtains s where "find_checkpoint db' i = Some s" "xc_phase s = q"
proof -
  obtain db1 where "transition_checkpoint t db i p d = Inr db1" "transition_checkpoint t db1 i q e = Inr db'"
    using assms by (auto split: sum.splits)
  then show thesis using transition_sets_phase that by blast
qed

text \<open>
  A landing that succeeds has completed the PRD under the run that claimed it, with the evidence of
  \<open>completion_is_earned\<close>, and its checkpoint is completed.
\<close>

lemma landed_is_completed:
  assumes "complete_landed env t repo discovered required prd commit db = (Inr (), db')"
  shows "\<exists>c target row. get_checkpoint (lg_recovery db) repo prd = Some c \<and> target \<in> set discovered
    \<and> show_prd_id (prd_ident target) = prd
    \<and> complete_run env t (lg_backlog db) (lg_reviews db) repo (ledger_target env (lg_backlog db) repo target)
        (landed_execution c) (run_actor_of (landed_execution c)) required = Inr (row, lg_backlog db')
    \<and> (\<exists>s. find_checkpoint (lg_recovery db') (xc_id c) = Some s \<and> xc_phase s = ''completed'')"
proof -
  obtain target where target: "find (\<lambda>d. show_prd_id (prd_ident d) = prd) discovered = Some target"
    using assms by (auto simp: complete_landed_def split: option.splits)
  obtain c where c: "get_checkpoint (lg_recovery db) repo prd = Some c"
    using assms target by (auto simp: complete_landed_def split: option.splits)
  obtain row bdb where run: "complete_run env t (lg_backlog db) (lg_reviews db) repo (ledger_target env (lg_backlog db) repo target)
      (landed_execution c) (run_actor_of (landed_execution c)) required = Inr (row, bdb)"
    using assms target c by (auto simp: complete_landed_def split: sum.splits)
  obtain r rdb where finish: "finish_checkpoint t prd (xc_id c)
      [(''integrated'', ''backlog_completion_committed''), (''completed'', ''execution_completed'')] (lg_recovery db) = (r, rdb)"
    by fastforce
  have landed: "complete_landed env t repo discovered required prd commit db =
      (case r of Inl e \<Rightarrow> (Inl e, db\<lparr>lg_backlog := bdb, lg_recovery := rdb\<rparr>)
       | Inr _ \<Rightarrow> (Inr (), db\<lparr>lg_backlog := bdb, lg_recovery := rdb\<lparr>rd_driver :=
           snd (mark_latest_attempt_integrated t (rd_driver rdb) repo prd commit)\<rparr>\<rparr>))"
    unfolding complete_landed_def target c option.case run sum.case prod.case Let_def landing_db.simps finish
    by (cases r) (auto split: unit.split)
  then have r: "r = Inr ()" using assms by (cases r) simp_all
  then have db': "lg_backlog db' = bdb" "rd_checkpoints (lg_recovery db') = rd_checkpoints rdb"
    using assms landed by auto
  obtain s where "find_checkpoint rdb (xc_id c) = Some s" "xc_phase s = ''completed''"
    by (rule finish_sets_phase[OF finish[unfolded r]])
  then have "find_checkpoint (lg_recovery db') (xc_id c) = Some s" "xc_phase s = ''completed''"
    using db' by (simp_all add: find_checkpoint_def)
  with c target run db' show ?thesis by (auto dest: find_SomeD)
qed

text \<open>Freezing a PRD again keeps the id of its checkpoint, which names the first attempt.\<close>

lemma refreezing_keeps_the_id:
  assumes "get_checkpoint db repo prd = Some c" "put_checkpoint t db v = Inr db'" "xc_repository v = repo" "xc_prd v = prd"
  shows "\<exists>c'. get_checkpoint db' repo prd = Some c' \<and> xc_id c' = xc_id c"
proof -
  obtain s where s: "checkpoint_of db repo prd = Some s" "c = execution_checkpoint.truncate s"
    using assms(1) by (auto simp: get_checkpoint_def)
  let ?up = "\<lambda>k. if xc_id k = xc_id s then refreeze t v k else k"
  have "rd_checkpoints db' = map ?up (rd_checkpoints db)"
    using assms(2-4) s by (auto simp: put_checkpoint_def update_checkpoint_def result_simps split: sum.splits)
  moreover have "find (\<lambda>k. xc_repository k = repo \<and> xc_prd k = prd) (map ?up (rd_checkpoints db)) = Some (?up s)"
    using s by (intro find_map_same) (auto simp: checkpoint_of_def refreeze_def)
  moreover have "xc_id (?up s) = xc_id c" by (simp add: s refreeze_def execution_checkpoint.truncate_def)
  ultimately show ?thesis by (auto simp: get_checkpoint_def checkpoint_of_def execution_checkpoint.truncate_def)
qed

text \<open>
  C35: landing looks the claim up under the execution in the id of the checkpoint. When a PRD is claimed by a later
  attempt, frozen again and then landed, the candidate that has been merged is not completed, and the tables stay
  as they were.
\<close>

theorem landing_a_later_attempt_is_refused:
  assumes "get_checkpoint frozen repo prd = Some c" "put_checkpoint t' frozen v = Inr (lg_recovery db)"
    "xc_repository v = repo" "xc_prd v = prd"
    "find (\<lambda>d. show_prd_id (prd_ident d) = prd) discovered = Some target" "prd_location target = Active"
    "latest_event (lg_backlog db) (repo, prd_path target) = Some e" "ev_actor e \<noteq> run_actor_of (landed_execution c)"
  shows "snd (complete_landed env t repo discovered required prd commit db) = db
    \<and> \<not> is_ok (fst (complete_landed env t repo discovered required prd commit db))"
proof -
  obtain c' where c': "get_checkpoint (lg_recovery db) repo prd = Some c'" "xc_id c' = xc_id c"
    using refreezing_keeps_the_id[OF assms(1-4)] by blast
  have actor: "landed_execution c' = landed_execution c" by (simp only: landed_execution_def c')
  have target: "ledger_target env (lg_backlog db) repo target = target" using assms(6) by (simp add: ledger_target_def)
  have "\<not> is_ok (complete_run env t (lg_backlog db) (lg_reviews db) repo target (landed_execution c) (run_actor_of (landed_execution c)) required)"
    using assms(7,8)
    by (auto simp: is_ok_iff complete_run_def complete_run_with_def owns_claim_def ok_or_def Let_def result_simps
        split: option.splits prod.splits)
  then obtain err where "complete_run env t (lg_backlog db) (lg_reviews db) repo target (landed_execution c)
      (run_actor_of (landed_execution c)) required = Inl err"
    by (cases "complete_run env t (lg_backlog db) (lg_reviews db) repo target (landed_execution c)
      (run_actor_of (landed_execution c)) required") (auto simp: is_ok_def)
  then show ?thesis using assms(5) c' actor target by (simp add: complete_landed_def is_ok_def)
qed

text \<open>Execution \<open>e0\<close> froze the checkpoint; a later one claimed the row, froze its candidate and was reviewed.\<close>

definition candidate_of_run :: "string \<Rightarrow> execution_checkpoint" where
  "candidate_of_run execution = \<lparr>xc_id = ''checkpoint-'' @ execution, xc_repository = ''repo'', xc_prd = ''PRD-1'',
     xc_prd_path = ''docs/prds/PRD-1.md'', xc_execution = Some execution, xc_phase = ''approved'', xc_base_revision = ''b'',
     xc_worktree = ''w'', xc_branch = None, xc_diff_hash = ''h1'', xc_changed_files = ''[]'', xc_agent = ''agent'',
     xc_usage = ''{}'', xc_test_evidence = ''{}'', xc_invalid_reason = None\<rparr>"

definition freezing :: "string \<Rightarrow> recovery_db \<Rightarrow> recovery_db" where
  "freezing execution rdb = (case put_checkpoint ''t2'' rdb (candidate_of_run execution) of Inr rdb' \<Rightarrow> rdb' | Inl _ \<Rightarrow> rdb)"

theorem landing_a_later_attempt_is_refused_witness:
  "\<not> is_ok (fst (complete_landed done_env ''t3'' ''repo'' [sample_prd 1 []] [''test''] ''PRD-1'' ''abc''
      \<lparr>lg_backlog = one_claim, lg_reviews = review_of [] ''e1'' empty_reviews,
       lg_recovery = freezing ''00000000000000000001-0000000001-000001'' (freezing ''e0'' empty_recovery)\<rparr>))"
proof -
  let ?later = "''00000000000000000001-0000000001-000001''"
  have frozen: "get_checkpoint (freezing ''e0'' empty_recovery) ''repo'' ''PRD-1'' = Some (candidate_of_run ''e0'')" by code_simp
  have again: "put_checkpoint ''t2'' (freezing ''e0'' empty_recovery) (candidate_of_run ?later)
      = Inr (freezing ?later (freezing ''e0'' empty_recovery))" by code_simp
  have target: "find (\<lambda>d. show_prd_id (prd_ident d) = ''PRD-1'') [sample_prd 1 []] = Some (sample_prd 1 [])" by code_simp
  have key: "(''repo'', prd_path (sample_prd 1 [])) = (''repo'', ''docs/prds/PRD-1.md'')" by code_simp
  obtain e where e: "latest_event one_claim (''repo'', ''docs/prds/PRD-1.md'') = Some e" "ev_actor e = run_actor"
    by (simp add: one_claim_def insert_event_def latest_event_def empty_db_def Let_def)
  have actor: "ev_actor e \<noteq> run_actor_of (landed_execution (candidate_of_run ''e0''))"
    unfolding e(2) by code_simp
  have fields: "xc_repository (candidate_of_run ?later) = ''repo''" "xc_prd (candidate_of_run ?later) = ''PRD-1''"
    "prd_location (sample_prd 1 []) = Active" by code_simp+
  let ?db = "\<lparr>lg_backlog = one_claim, lg_reviews = review_of [] ''e1'' empty_reviews,
      lg_recovery = freezing ?later (freezing ''e0'' empty_recovery)\<rparr>"
  have put: "put_checkpoint ''t2'' (freezing ''e0'' empty_recovery) (candidate_of_run ?later) = Inr (lg_recovery ?db)"
    by (simp only: again landing_db.simps)
  have event: "latest_event (lg_backlog ?db) (''repo'', prd_path (sample_prd 1 [])) = Some e"
    by (simp only: landing_db.simps key e(1))
  show ?thesis
    by (rule landing_a_later_attempt_is_refused[OF frozen put fields(1,2) target fields(3) event actor, THEN conjunct2])
qed

end
