(* ===== verification/Worker_Lock.thy ===== *)
theory Worker_Lock
  imports Prelude
begin

text \<open>
  The lock of an installation, \<open>crates/familiar-ai-daemon/src/worker_lock.rs\<close>, with every access to the file
  system as a step of its own, so that the steps of processes can interleave and a process can die between
  any two of them. A number stands for one process: a pid with its start identity, which no later process has.
  The probe of a process is exact: it says of every process whether it is alive. On a host whose probe cannot read
  the start identity of a living owner, the code takes that owner for dead, and nothing here applies.
  Errors of the file system other than a missing or an existing file are not modelled.
\<close>

section \<open>Files and processes\<close>

record ownership_claim =
  oc_owner :: nat
  oc_generation :: u64

text \<open>What \<open>control-plane.claim\<close> holds: a claim, the pid of an older version, or something else.\<close>

datatype claim_text = Claimed ownership_claim | Legacy_Pid nat | Unreadable

text \<open>
  \<open>control-plane.delegate\<close> is created empty and written afterwards. The process that created it is kept, since
  what it writes goes to its own file also when another process has removed and created the path again.
\<close>

datatype delegate_text = Being_Written nat | Written nat

record lock_files =
  lf_claim :: "claim_text option"
  lf_generation :: u64
  lf_guard :: "nat option"
  lf_delegate :: "delegate_text option"

text \<open>Where a process stands in \<open>acquire_inner\<close>, \<open>recover_exact\<close>, \<open>create\<close>, \<open>acquire_delegation\<close> and \<open>drop\<close>.\<close>

datatype lock_point =
  Unborn
| Reading_Generation
| Reading_Claim u64
| Judging u64 "claim_text option"
| Guarding claim_text u64
| Comparing claim_text u64
| Removing claim_text u64
| Unguarding "u64 option"
| Creating u64
| Recording u64
| Holding u64
| Dropping u64
| Reading_Delegate
| Judging_Delegate "delegate_text option"
| Removing_Delegate
| Creating_Delegate
| Writing_Delegate
| Holding_Delegate
| Dropping_Delegate
| Gone

record lock_system =
  ls_files :: lock_files
  ls_points :: "nat \<Rightarrow> lock_point"
  ls_alive :: "nat set"

section \<open>The steps of a process\<close>

definition saturating_next :: "u64 \<Rightarrow> u64" where
  "saturating_next n = (if n = - 1 then n else n + 1)"

text \<open>The claim that is there decides; \<open>delegator\<close> is the pid in the environment of the process.\<close>

definition judge_claim :: "nat set \<Rightarrow> nat option \<Rightarrow> u64 \<Rightarrow> claim_text option \<Rightarrow> lock_point" where
  "judge_claim alive delegator persisted claim =
     (case claim of
        None \<Rightarrow> Creating (saturating_next persisted)
      | Some (Claimed c) \<Rightarrow>
          if delegator = Some (oc_owner c) then (if oc_owner c \<in> alive then Reading_Delegate else Gone)
          else if oc_owner c \<in> alive then Gone
          else Guarding (Claimed c) (saturating_next (max (oc_generation c) persisted))
      | Some (Legacy_Pid pid) \<Rightarrow>
          if pid \<in> alive then Gone else Guarding (Legacy_Pid pid) (saturating_next persisted)
      | Some Unreadable \<Rightarrow> Guarding Unreadable (saturating_next persisted))"

definition judge_delegate :: "nat set \<Rightarrow> delegate_text option \<Rightarrow> lock_point" where
  "judge_delegate alive delegate =
     (case delegate of
        None \<Rightarrow> Creating_Delegate
      | Some (Written d) \<Rightarrow> if d \<in> alive then Gone else Removing_Delegate
      | Some (Being_Written d) \<Rightarrow> Removing_Delegate)"

text \<open>The next access of process \<open>p\<close>. A process that holds a lock drops it at some time.\<close>

definition lock_step :: "nat set \<Rightarrow> nat option \<Rightarrow> nat \<Rightarrow> lock_point \<Rightarrow> lock_files \<Rightarrow> lock_point \<times> lock_files" where
  "lock_step alive delegator p point f =
     (case point of
        Unborn \<Rightarrow> (Unborn, f)
      | Reading_Generation \<Rightarrow> (Reading_Claim (lf_generation f), f)
      | Reading_Claim persisted \<Rightarrow> (Judging persisted (lf_claim f), f)
      | Judging persisted claim \<Rightarrow> (judge_claim alive delegator persisted claim, f)
      | Guarding text n \<Rightarrow>
          if lf_guard f \<noteq> None then (Gone, f) else (Comparing text n, f\<lparr>lf_guard := Some p\<rparr>)
      | Comparing text n \<Rightarrow>
          if lf_claim f = Some text then (Removing text n, f) else (Unguarding None, f)
      | Removing text n \<Rightarrow>
          if lf_claim f = None then (Unguarding None, f) else (Unguarding (Some n), f\<lparr>lf_claim := None\<rparr>)
      | Unguarding r \<Rightarrow> (case r of None \<Rightarrow> Gone | Some n \<Rightarrow> Creating n, f\<lparr>lf_guard := None\<rparr>)
      | Creating n \<Rightarrow>
          if lf_claim f \<noteq> None then (Gone, f)
          else (Recording n, f\<lparr>lf_claim := Some (Claimed \<lparr>oc_owner = p, oc_generation = n\<rparr>)\<rparr>)
      | Recording n \<Rightarrow> (Holding n, f\<lparr>lf_generation := n\<rparr>)
      | Holding n \<Rightarrow>
          if lf_claim f = Some (Claimed \<lparr>oc_owner = p, oc_generation = n\<rparr>) then (Dropping n, f) else (Gone, f)
      | Dropping n \<Rightarrow> (Gone, f\<lparr>lf_claim := None\<rparr>)
      | Reading_Delegate \<Rightarrow> (Judging_Delegate (lf_delegate f), f)
      | Judging_Delegate delegate \<Rightarrow> (judge_delegate alive delegate, f)
      | Removing_Delegate \<Rightarrow> (Creating_Delegate, f\<lparr>lf_delegate := None\<rparr>)
      | Creating_Delegate \<Rightarrow>
          if lf_delegate f \<noteq> None then (Gone, f) else (Writing_Delegate, f\<lparr>lf_delegate := Some (Being_Written p)\<rparr>)
      | Writing_Delegate \<Rightarrow>
          (Holding_Delegate, if lf_delegate f = Some (Being_Written p) then f\<lparr>lf_delegate := Some (Written p)\<rparr> else f)
      | Holding_Delegate \<Rightarrow> if lf_delegate f = Some (Written p) then (Dropping_Delegate, f) else (Gone, f)
      | Dropping_Delegate \<Rightarrow> (Gone, f\<lparr>lf_delegate := None\<rparr>)
      | Gone \<Rightarrow> (Gone, f))"

section \<open>Interleavings\<close>

text \<open>A process starts, makes its next access, or dies.\<close>

datatype lock_move = Starts nat | Steps nat | Dies nat

definition move_process :: "nat \<Rightarrow> lock_point \<times> lock_files \<Rightarrow> lock_system \<Rightarrow> lock_system" where
  "move_process p r s = s\<lparr>ls_files := snd r, ls_points := (ls_points s)(p := fst r)\<rparr>"

definition make_move :: "(nat \<Rightarrow> nat option) \<Rightarrow> lock_move \<Rightarrow> lock_system \<Rightarrow> lock_system option" where
  "make_move delegators m s =
     (case m of
        Starts p \<Rightarrow>
          if ls_points s p = Unborn
          then Some (s\<lparr>ls_points := (ls_points s)(p := Reading_Generation), ls_alive := insert p (ls_alive s)\<rparr>) else None
      | Steps p \<Rightarrow>
          if p \<in> ls_alive s
          then Some (move_process p (lock_step (ls_alive s) (delegators p) p (ls_points s p) (ls_files s)) s) else None
      | Dies p \<Rightarrow> if p \<in> ls_alive s then Some (s\<lparr>ls_alive := ls_alive s - {p}\<rparr>) else None)"

definition quiet_system :: "claim_text option \<Rightarrow> lock_system" where
  "quiet_system claim = \<lparr>ls_files = \<lparr>lf_claim = claim, lf_generation = 0, lf_guard = None, lf_delegate = None\<rparr>,
     ls_points = (\<lambda>_. Unborn), ls_alive = {}\<rparr>"

text \<open>At first there is no claim, or one of an older version.\<close>

definition old_claim :: "claim_text option \<Rightarrow> bool" where
  "old_claim claim \<longleftrightarrow> (case claim of Some (Claimed _) \<Rightarrow> False | _ \<Rightarrow> True)"

inductive lock_reachable :: "(nat \<Rightarrow> nat option) \<Rightarrow> lock_system \<Rightarrow> bool" for delegators where
  start: "old_claim claim \<Longrightarrow> lock_reachable delegators (quiet_system claim)"
| move: "lock_reachable delegators s \<Longrightarrow> make_move delegators m s = Some s' \<Longrightarrow> lock_reachable delegators s'"

fun make_moves :: "(nat \<Rightarrow> nat option) \<Rightarrow> lock_move list \<Rightarrow> lock_system \<Rightarrow> lock_system option" where
  "make_moves delegators [] s = Some s"
| "make_moves delegators (m # ms) s = Option.bind (make_move delegators m s) (make_moves delegators ms)"

lemma make_moves_reachable:
  "lock_reachable delegators s \<Longrightarrow> make_moves delegators ms s = Some s' \<Longrightarrow> lock_reachable delegators s'"
  by (induction ms arbitrary: s) (auto simp: bind_eq_Some_conv intro: lock_reachable.move)

section \<open>One owner\<close>

text \<open>A process owns the installation from the moment its claim is linked until it removes it.\<close>

fun owned_generation :: "lock_point \<Rightarrow> u64 option" where
  "owned_generation (Recording n) = Some n"
| "owned_generation (Holding n) = Some n"
| "owned_generation (Dropping n) = Some n"
| "owned_generation _ = None"

definition owns :: "lock_system \<Rightarrow> nat \<Rightarrow> bool" where
  "owns s p \<longleftrightarrow> p \<in> ls_alive s \<and> owned_generation (ls_points s p) \<noteq> None"

fun guards :: "lock_point \<Rightarrow> bool" where
  "guards (Comparing _ _) = True"
| "guards (Removing _ _) = True"
| "guards (Unguarding _) = True"
| "guards _ = False"

text \<open>The text that a process is about to remove.\<close>

fun condemned :: "lock_point \<Rightarrow> claim_text option" where
  "condemned (Guarding text _) = Some text"
| "condemned (Comparing text _) = Some text"
| "condemned (Removing text _) = Some text"
| "condemned _ = None"

definition abandoned :: "lock_system \<Rightarrow> claim_text \<Rightarrow> bool" where
  "abandoned s text \<longleftrightarrow>
     (case text of Claimed c \<Rightarrow> oc_owner c \<notin> ls_alive s \<and> ls_points s (oc_owner c) \<noteq> Unborn | _ \<Rightarrow> True)"

definition born :: "lock_system \<Rightarrow> claim_text option \<Rightarrow> bool" where
  "born s text \<longleftrightarrow> (case text of Some (Claimed c) \<Rightarrow> ls_points s (oc_owner c) \<noteq> Unborn | _ \<Rightarrow> True)"

fun claim_read :: "lock_point \<Rightarrow> claim_text option" where
  "claim_read (Judging _ claim) = claim"
| "claim_read point = condemned point"

definition lock_ok :: "lock_system \<Rightarrow> bool" where
  "lock_ok s \<longleftrightarrow>
     (\<forall>p\<in>ls_alive s. \<forall>n. owned_generation (ls_points s p) = Some n \<longrightarrow>
        lf_claim (ls_files s) = Some (Claimed \<lparr>oc_owner = p, oc_generation = n\<rparr>))
     \<and> (\<forall>p. guards (ls_points s p) \<longleftrightarrow> lf_guard (ls_files s) = Some p)
     \<and> (\<forall>p text. condemned (ls_points s p) = Some text \<longrightarrow> abandoned s text)
     \<and> (\<forall>p text n. ls_points s p = Removing text n \<longrightarrow> lf_claim (ls_files s) = Some text)
     \<and> born s (lf_claim (ls_files s)) \<and> (\<forall>p. born s (claim_read (ls_points s p)))
     \<and> (\<forall>p. ls_points s p = Unborn \<longrightarrow> p \<notin> ls_alive s)"

lemma born_None [simp]: "born s None"
  by (simp add: born_def)

lemma lock_ok_start: "old_claim claim \<Longrightarrow> lock_ok (quiet_system claim)"
  by (auto simp: lock_ok_def quiet_system_def old_claim_def born_def split: option.splits claim_text.splits)

lemma born_mono:
  assumes "born s text" "\<And>q. ls_points s q \<noteq> Unborn \<Longrightarrow> ls_points s' q \<noteq> Unborn" shows "born s' text"
  using assms by (auto simp: born_def split: option.splits claim_text.splits)

lemma abandoned_mono:
  assumes "abandoned s text" "\<And>q. ls_points s q \<noteq> Unborn \<Longrightarrow> ls_points s' q \<noteq> Unborn"
    "\<And>q. q \<in> ls_alive s' \<Longrightarrow> q \<in> ls_alive s \<or> ls_points s q = Unborn"
  shows "abandoned s' text"
  using assms by (auto simp: abandoned_def split: claim_text.splits)

lemma lock_ok_starts:
  assumes "lock_ok s" "make_move delegators (Starts p) s = Some s'" shows "lock_ok s'"
proof -
  have unborn: "ls_points s p = Unborn"
    and s': "s' = s\<lparr>ls_points := (ls_points s)(p := Reading_Generation), ls_alive := insert p (ls_alive s)\<rparr>"
    using assms(2) by (auto simp: make_move_def split: if_splits)
  have b: "born s' t" if "born s t" for t by (rule born_mono[OF that]) (simp add: s')
  have a: "abandoned s' t" if "abandoned s t" for t by (rule abandoned_mono[OF that]) (use unborn in \<open>auto simp: s'\<close>)
  have "guards (ls_points s p) \<longleftrightarrow> lf_guard (ls_files s) = Some p" using assms(1) unfolding lock_ok_def by blast
  then have "lf_guard (ls_files s) \<noteq> Some p" by (simp add: unborn)
  then show ?thesis
    using assms(1) a b unfolding lock_ok_def s' by (simp add: all_conj_distrib)
qed

lemma lock_ok_dies:
  assumes "lock_ok s" "make_move delegators (Dies p) s = Some s'" shows "lock_ok s'"
proof -
  have s': "s' = s\<lparr>ls_alive := ls_alive s - {p}\<rparr>"
    using assms(2) by (auto simp: make_move_def split: if_splits)
  have b: "born s' t" if "born s t" for t by (rule born_mono[OF that]) (simp add: s')
  have a: "abandoned s' t" if "abandoned s t" for t by (rule abandoned_mono[OF that]) (auto simp: s')
  show ?thesis using assms(1) a b unfolding lock_ok_def by (auto simp: s')
qed

lemma step_born: "point \<noteq> Unborn \<Longrightarrow> fst (lock_step alive delegator p point f) \<noteq> Unborn"
  by (auto simp: lock_step_def judge_claim_def judge_delegate_def
      split: lock_point.splits option.splits claim_text.splits delegate_text.splits)

lemmas step_splits = lock_step_def judge_claim_def judge_delegate_def

lemma step_owned:
  "owned_generation (fst (lock_step alive delegator p point f)) = Some n \<Longrightarrow>
     owned_generation point = Some n \<and> lf_claim (snd (lock_step alive delegator p point f)) = lf_claim f
     \<or> lf_claim (snd (lock_step alive delegator p point f)) = Some (Claimed \<lparr>oc_owner = p, oc_generation = n\<rparr>)"
  by (cases point) (auto simp: step_splits split: if_splits option.splits claim_text.splits delegate_text.splits)

lemma step_claim:
  "lf_claim (snd (lock_step alive delegator p point f)) = lf_claim f
   \<or> lf_claim (snd (lock_step alive delegator p point f)) = None
      \<and> ((\<exists>text n. point = Removing text n) \<or> owned_generation point \<noteq> None)
   \<or> lf_claim f = None \<and> (\<exists>n. lf_claim (snd (lock_step alive delegator p point f)) = Some (Claimed \<lparr>oc_owner = p, oc_generation = n\<rparr>))"
  by (cases point) (auto simp: step_splits split: if_splits option.splits claim_text.splits delegate_text.splits)

lemma step_guards:
  assumes "guards point \<longleftrightarrow> lf_guard f = Some p"
  shows "guards (fst (lock_step alive delegator p point f)) \<longleftrightarrow> lf_guard (snd (lock_step alive delegator p point f)) = Some p"
    and "q \<noteq> p \<Longrightarrow> lf_guard (snd (lock_step alive delegator p point f)) = Some q \<longleftrightarrow> lf_guard f = Some q"
  using assms
  by (cases point; auto simp: step_splits split: if_splits option.splits claim_text.splits delegate_text.splits)+

lemma step_condemned:
  "condemned (fst (lock_step alive delegator p point f)) = Some text \<Longrightarrow>
     condemned point = Some text
     \<or> claim_read point = Some text \<and> (\<forall>c. text = Claimed c \<longrightarrow> oc_owner c \<notin> alive)"
  by (cases point) (auto simp: step_splits split: if_splits option.splits claim_text.splits delegate_text.splits)

lemma step_removing:
  "fst (lock_step alive delegator p point f) = Removing text n \<Longrightarrow>
     lf_claim (snd (lock_step alive delegator p point f)) = Some text"
  by (cases point) (auto simp: step_splits split: if_splits option.splits claim_text.splits delegate_text.splits)

lemma step_read:
  "claim_read (fst (lock_step alive delegator p point f)) = None
   \<or> claim_read (fst (lock_step alive delegator p point f)) \<in> {claim_read point, lf_claim f}"
  by (cases point) (auto simp: step_splits split: if_splits option.splits claim_text.splits delegate_text.splits)

lemma lock_ok_steps:
  assumes "lock_ok s" "make_move delegators (Steps p) s = Some s'" shows "lock_ok s'"
proof -
  define point where "point = fst (lock_step (ls_alive s) (delegators p) p (ls_points s p) (ls_files s))"
  define f where "f = snd (lock_step (ls_alive s) (delegators p) p (ls_points s p) (ls_files s))"
  have alive: "p \<in> ls_alive s" and s': "s' = s\<lparr>ls_files := f, ls_points := (ls_points s)(p := point)\<rparr>"
    using assms(2) by (auto simp: make_move_def move_process_def point_def f_def split: if_splits)
  have ok: "\<forall>p\<in>ls_alive s. \<forall>n. owned_generation (ls_points s p) = Some n \<longrightarrow>
        lf_claim (ls_files s) = Some (Claimed \<lparr>oc_owner = p, oc_generation = n\<rparr>)"
    "\<forall>p. guards (ls_points s p) \<longleftrightarrow> lf_guard (ls_files s) = Some p"
    "\<forall>p old. condemned (ls_points s p) = Some old \<longrightarrow> abandoned s old"
    "\<forall>p old n. ls_points s p = Removing old n \<longrightarrow> lf_claim (ls_files s) = Some old"
    "born s (lf_claim (ls_files s))" "\<forall>p. born s (claim_read (ls_points s p))"
    "\<forall>p. ls_points s p = Unborn \<longrightarrow> p \<notin> ls_alive s"
    using assms(1) unfolding lock_ok_def by blast+
  have "ls_points s p \<noteq> Unborn" using ok(7) alive by blast
  then have point: "point \<noteq> Unborn" unfolding point_def by (rule step_born)
  have b: "born s' t" if "born s t" for t by (rule born_mono[OF that]) (simp add: s' point)
  have a: "abandoned s' t" if "abandoned s t" for t
    by (rule abandoned_mono[OF that]) (auto simp: s' point)
  note claim = step_claim[of "ls_alive s" "delegators p" p "ls_points s p" "ls_files s", folded f_def]
  have kept: "lf_claim f = Some old"
    if "lf_claim (ls_files s) = Some old" "\<forall>n. old \<noteq> Claimed \<lparr>oc_owner = p, oc_generation = n\<rparr>"
      "\<forall>t n. ls_points s p = Removing t n \<longrightarrow> t \<noteq> old" for old
    using claim that ok(1,4) alive by fastforce
  show ?thesis
    unfolding lock_ok_def
  proof (intro conjI allI ballI impI)
    fix q n assume q: "q \<in> ls_alive s'" "owned_generation (ls_points s' q) = Some n"
    show "lf_claim (ls_files s') = Some (Claimed \<lparr>oc_owner = q, oc_generation = n\<rparr>)"
    proof (cases "q = p")
      case True
      then show ?thesis using step_owned[of "ls_alive s" "delegators p" p "ls_points s p" "ls_files s" n] ok(1) alive q
        by (auto simp: s' point_def f_def)
    next
      case False
      then have "q \<in> ls_alive s" "owned_generation (ls_points s q) = Some n" using q by (auto simp: s')
      then have "lf_claim (ls_files s) = Some (Claimed \<lparr>oc_owner = q, oc_generation = n\<rparr>)" using ok(1) by blast
      moreover have "t \<noteq> Claimed \<lparr>oc_owner = q, oc_generation = n\<rparr>" if "ls_points s p = Removing t m" for t m
      proof -
        have "abandoned s t" using ok(3) that by (metis condemned.simps(3))
        then show ?thesis using \<open>q \<in> ls_alive s\<close> by (auto simp: abandoned_def)
      qed
      ultimately have "lf_claim f = Some (Claimed \<lparr>oc_owner = q, oc_generation = n\<rparr>)" using False by (intro kept) auto
      then show ?thesis by (simp add: s')
    qed
  next
    fix q show "guards (ls_points s' q) \<longleftrightarrow> lf_guard (ls_files s') = Some q"
      using step_guards(1)[of "ls_points s p" "ls_files s" p "ls_alive s" "delegators p"]
        step_guards(2)[of "ls_points s p" "ls_files s" p q "ls_alive s" "delegators p"] ok(2)
      by (auto simp: s' point_def f_def)
  next
    fix q old assume "condemned (ls_points s' q) = Some old"
    then have "condemned (ls_points s q) = Some old
        \<or> claim_read (ls_points s q) = Some old \<and> (\<forall>c. old = Claimed c \<longrightarrow> oc_owner c \<notin> ls_alive s)"
      using step_condemned[of "ls_alive s" "delegators p" p "ls_points s p" "ls_files s" old]
      by (cases "q = p") (simp_all add: s' point_def)
    moreover have "abandoned s old"
      if "claim_read (ls_points s q) = Some old" "\<forall>c. old = Claimed c \<longrightarrow> oc_owner c \<notin> ls_alive s"
      using ok(6)[rule_format, of q] that by (cases old) (simp_all add: born_def abandoned_def)
    ultimately show "abandoned s' old" using ok(3) a by blast
  next
    fix q old n assume q: "ls_points s' q = Removing old n"
    show "lf_claim (ls_files s') = Some old"
    proof (cases "q = p")
      case True
      then show ?thesis using q step_removing[of "ls_alive s" "delegators p" p "ls_points s p" "ls_files s" old n]
        by (simp add: s' point_def f_def)
    next
      case False
      then have r: "ls_points s q = Removing old n" using q by (simp add: s')
      then have "\<not> guards (ls_points s p)" using ok(2) False by (metis guards.simps(2) option.inject)
      moreover have "abandoned s old" using ok(3) r by (metis condemned.simps(3))
      ultimately have "\<forall>n. old \<noteq> Claimed \<lparr>oc_owner = p, oc_generation = n\<rparr>"
        and "\<forall>t n. ls_points s p = Removing t n \<longrightarrow> t \<noteq> old"
        using alive by (auto simp: abandoned_def)
      moreover have "lf_claim (ls_files s) = Some old" using ok(4) r by blast
      ultimately show ?thesis using kept by (simp add: s')
    qed
  next
    show "born s' (lf_claim (ls_files s'))"
      using claim ok(5) b point by (auto simp: s') (auto simp: born_def)
  next
    fix q show "born s' (claim_read (ls_points s' q))"
      using step_read[of "ls_alive s" "delegators p" p "ls_points s p" "ls_files s"] ok(5,6) b
      by (auto simp: s' point_def)
  next
    fix q assume "ls_points s' q = Unborn"
    then show "q \<notin> ls_alive s'" using ok(7) point by (auto simp: s' split: if_splits)
  qed
qed

lemma reachable_lock_ok: "lock_reachable delegators s \<Longrightarrow> lock_ok s"
proof (induction rule: lock_reachable.induct)
  case (move s m s')
  then show ?case by (cases m) (auto intro: lock_ok_starts lock_ok_steps lock_ok_dies)
qed (rule lock_ok_start)

text \<open>
  C32: whatever the interleaving and whoever dies, at most one living process owns the installation, and the claim
  on disk is its own.
\<close>

theorem one_living_owner:
  assumes "lock_reachable delegators s" "owns s p" "owns s q"
  shows "p = q \<and> (\<exists>n. lf_claim (ls_files s) = Some (Claimed \<lparr>oc_owner = p, oc_generation = n\<rparr>))"
proof -
  have claim: "\<exists>n. lf_claim (ls_files s) = Some (Claimed \<lparr>oc_owner = r, oc_generation = n\<rparr>)" if "owns s r" for r
    using reachable_lock_ok[OF assms(1)] that unfolding lock_ok_def owns_def by blast
  show ?thesis using claim[OF assms(2)] claim[OF assms(3)] by auto
qed

text \<open>A stale claim is recovered while a third process arrives.\<close>

definition takeover :: "lock_move list" where
  "takeover = [Starts 1] @ replicate 5 (Steps 1) @ [Dies 1, Starts 2, Starts 3] @ replicate 4 (Steps 2)
     @ replicate 4 (Steps 3) @ replicate 5 (Steps 2)"

theorem one_living_owner_witness:
  "\<exists>s. make_moves (\<lambda>_. None) takeover (quiet_system None) = Some s \<and> owns s 2 \<and> \<not> owns s 3"
proof -
  have m: "(case make_moves (\<lambda>_. None) takeover (quiet_system None) of Some s \<Rightarrow> owns s 2 | None \<Rightarrow> False)"
    by code_simp
  then obtain s where s: "make_moves (\<lambda>_. None) takeover (quiet_system None) = Some s" "owns s 2"
    by (auto split: option.splits)
  have "lock_reachable (\<lambda>_. None) s"
    by (rule make_moves_reachable[OF lock_reachable.start s(1)]) (simp add: old_claim_def)
  then show ?thesis using s one_living_owner[of "\<lambda>_. None" s 2 3] by auto
qed

section \<open>Two delegates\<close>

definition delegate_holds :: "lock_system \<Rightarrow> nat \<Rightarrow> bool" where
  "delegate_holds s p \<longleftrightarrow> p \<in> ls_alive s \<and> ls_points s p \<in> {Writing_Delegate, Holding_Delegate, Dropping_Delegate}"

text \<open>
  Process 1 owns the installation and delegates to 2 and 3. Both read the lock of no delegate or of a dead one;
  here 3 reads the file that 2 has created and not yet written, takes it for no authority, and removes it.
\<close>

definition delegate_race :: "lock_move list" where
  "delegate_race = [Starts 1] @ replicate 5 (Steps 1) @ [Starts 2, Starts 3] @ replicate 6 (Steps 2)
     @ replicate 4 (Steps 3) @ [Steps 2] @ replicate 4 (Steps 3)"

text \<open>
  C33: the lock of delegates does not exclude them: two living delegates of the same living owner hold it at the
  same time.
\<close>

theorem two_delegates_at_once:
  "\<exists>s. lock_reachable (\<lambda>p. if p = 1 then None else Some 1) s \<and> owns s 1 \<and> delegate_holds s 2 \<and> delegate_holds s 3"
proof -
  have "(case make_moves (\<lambda>p. if p = 1 then None else Some 1) delegate_race (quiet_system None) of
      Some s \<Rightarrow> owns s 1 \<and> delegate_holds s 2 \<and> delegate_holds s 3 | None \<Rightarrow> False)" by code_simp
  then obtain s where s: "make_moves (\<lambda>p. if p = 1 then None else Some 1) delegate_race (quiet_system None) = Some s"
    "owns s 1" "delegate_holds s 2" "delegate_holds s 3"
    by (auto split: option.splits)
  have "lock_reachable (\<lambda>p. if p = 1 then None else Some 1) s"
    by (rule make_moves_reachable[OF lock_reachable.start s(1)]) (simp add: old_claim_def)
  with s show ?thesis by blast
qed

section \<open>An interrupted recovery\<close>

text \<open>
  A process that dies between the creation and the removal of the guard file leaves it there, and nothing removes
  it. Whether a stale claim is still beside it depends on where the process died.
\<close>

definition dead_guard :: "lock_system \<Rightarrow> bool" where
  "dead_guard s \<longleftrightarrow> (\<exists>q. lf_guard (ls_files s) = Some q \<and> q \<notin> ls_alive s \<and> ls_points s q \<noteq> Unborn)"

definition stale_claim :: "lock_system \<Rightarrow> claim_text \<Rightarrow> bool" where
  "stale_claim s old \<longleftrightarrow> lf_claim (ls_files s) = Some old \<and> abandoned s old"

lemma guard_stays:
  assumes "lock_ok s" "dead_guard s" "make_move delegators m s = Some s'"
  shows "dead_guard s' \<and> (stale_claim s old \<longrightarrow> stale_claim s' old)"
proof -
  obtain q where q: "lf_guard (ls_files s) = Some q" "q \<notin> ls_alive s" "ls_points s q \<noteq> Unborn"
    using assms(2) by (auto simp: dead_guard_def)
  show ?thesis
  proof (cases m)
    case (Starts p)
    then have "s' = s\<lparr>ls_points := (ls_points s)(p := Reading_Generation), ls_alive := insert p (ls_alive s)\<rparr>" "ls_points s p = Unborn"
      using assms(3) by (auto simp: make_move_def split: if_splits)
    then show ?thesis using q by (auto simp: dead_guard_def stale_claim_def abandoned_def split: claim_text.splits)
  next
    case (Dies p)
    then have "s' = s\<lparr>ls_alive := ls_alive s - {p}\<rparr>" using assms(3) by (auto simp: make_move_def split: if_splits)
    then show ?thesis using q by (auto simp: dead_guard_def stale_claim_def abandoned_def split: claim_text.splits)
  next
    case (Steps p)
    let ?r = "lock_step (ls_alive s) (delegators p) p (ls_points s p) (ls_files s)"
    have alive: "p \<in> ls_alive s" and s': "s' = s\<lparr>ls_files := snd ?r, ls_points := (ls_points s)(p := fst ?r)\<rparr>"
      using assms(3) Steps by (auto simp: make_move_def move_process_def split: if_splits)
    have guards: "\<forall>r. guards (ls_points s r) \<longleftrightarrow> lf_guard (ls_files s) = Some r" using assms(1) unfolding lock_ok_def by blast
    have "p \<noteq> q" using alive q by blast
    then have unguarded: "\<not> guards (ls_points s p)" using guards q by auto
    have "lf_guard (snd ?r) = Some q"
      using step_guards(2)[OF _ \<open>p \<noteq> q\<close>[symmetric], of "ls_points s p" "ls_files s" "ls_alive s" "delegators p"] guards q by blast
    moreover have born: "fst ?r \<noteq> Unborn" using step_born alive assms(1) unfolding lock_ok_def by blast
    ultimately have "dead_guard s'" using q by (auto simp: dead_guard_def s')
    moreover have "stale_claim s' old" if old: "stale_claim s old"
    proof -
      have "owned_generation (ls_points s p) = None"
      proof (rule ccontr)
        assume "owned_generation (ls_points s p) \<noteq> None"
        then obtain n where "lf_claim (ls_files s) = Some (Claimed \<lparr>oc_owner = p, oc_generation = n\<rparr>)"
          using assms(1) alive unfolding lock_ok_def by blast
        then show False using old alive by (auto simp: stale_claim_def abandoned_def)
      qed
      then have "lf_claim (snd ?r) = Some old"
        using step_claim[of "ls_alive s" "delegators p" p "ls_points s p" "ls_files s"] old unguarded
        by (auto simp: stale_claim_def)
      then show ?thesis using born old by (auto simp: stale_claim_def s' abandoned_def split: claim_text.splits)
    qed
    ultimately show ?thesis by blast
  qed
qed

text \<open>
  C34: a guard whose process has died stays for ever, whatever starts, steps and dies. When the stale claim is still
  beside it, that stays too, and no process ever owns the installation again, until somebody deletes the guard by
  hand. When the claim was removed already, the next process can own the installation, but no later claim is
  recovered: once it is stale, the first case applies.
\<close>

theorem interrupted_recovery_is_final:
  assumes "lock_reachable delegators s" "dead_guard s" "make_moves delegators ms s = Some s'"
  shows "dead_guard s' \<and> (\<forall>old. stale_claim s old \<longrightarrow> stale_claim s' old \<and> \<not> owns s' p)"
proof -
  have keep: "lock_ok s \<Longrightarrow> dead_guard s \<Longrightarrow> make_moves delegators ms s = Some s' \<Longrightarrow>
      lock_ok s' \<and> dead_guard s' \<and> (stale_claim s old \<longrightarrow> stale_claim s' old)" for s old
  proof (induction ms arbitrary: s)
    case (Cons m ms)
    then obtain t where t: "make_move delegators m s = Some t" "make_moves delegators ms t = Some s'"
      by (auto simp: bind_eq_Some_conv)
    have "lock_ok t" using t(1) Cons.prems(1) by (cases m) (auto intro: lock_ok_starts lock_ok_steps lock_ok_dies)
    then show ?case using Cons.IH guard_stays[OF Cons.prems(1,2) t(1)] t(2) by blast
  qed simp
  note keep = keep[OF reachable_lock_ok[OF assms(1)] assms(2,3)]
  have "\<not> owns s' p" if "stale_claim s' old" for old
  proof
    assume p: "owns s' p"
    then obtain n where "lf_claim (ls_files s') = Some (Claimed \<lparr>oc_owner = p, oc_generation = n\<rparr>)"
      using keep unfolding lock_ok_def owns_def by blast
    then show False using that p by (auto simp: stale_claim_def abandoned_def owns_def)
  qed
  with keep show ?thesis by blast
qed

definition dead_recovery :: "lock_move list" where
  "dead_recovery = [Starts 1] @ replicate 5 (Steps 1) @ [Dies 1, Starts 2] @ replicate 4 (Steps 2) @ [Dies 2]"

theorem interrupted_recovery_is_final_witness:
  "\<exists>s s'. make_moves (\<lambda>_. None) dead_recovery (quiet_system None) = Some s
     \<and> make_moves (\<lambda>_. None) (Starts 3 # replicate 10 (Steps 3)) s = Some s' \<and> 3 \<in> ls_alive s' \<and> \<not> owns s' 3"
proof -
  have "(case make_moves (\<lambda>_. None) dead_recovery (quiet_system None) of Some s \<Rightarrow>
      lf_claim (ls_files s) = Some (Claimed \<lparr>oc_owner = 1, oc_generation = 1\<rparr>) \<and> lf_guard (ls_files s) = Some 2
      \<and> 1 \<notin> ls_alive s \<and> 2 \<notin> ls_alive s \<and> ls_points s 1 \<noteq> Unborn \<and> ls_points s 2 \<noteq> Unborn
      \<and> (case make_moves (\<lambda>_. None) (Starts 3 # replicate 10 (Steps 3)) s of Some s' \<Rightarrow> 3 \<in> ls_alive s' | None \<Rightarrow> False)
    | None \<Rightarrow> False)" by code_simp
  then obtain s s' where s: "make_moves (\<lambda>_. None) dead_recovery (quiet_system None) = Some s"
    and left: "dead_guard s" "stale_claim s (Claimed \<lparr>oc_owner = 1, oc_generation = 1\<rparr>)"
    and s': "make_moves (\<lambda>_. None) (Starts 3 # replicate 10 (Steps 3)) s = Some s'" "3 \<in> ls_alive s'"
    by (auto simp: dead_guard_def stale_claim_def abandoned_def split: option.splits)
  have "lock_reachable (\<lambda>_. None) s"
    by (rule make_moves_reachable[OF lock_reachable.start s]) (simp add: old_claim_def)
  from interrupted_recovery_is_final[OF this left(1) s'(1)] left(2) s s' show ?thesis by blast
qed

text \<open>
  A recovery that dies after it removed the claim lets the next process own the installation; when that one dies
  too, its claim is stale beside the dead guard.
\<close>

lemma recovery_dead_after_removal:
  "(case make_moves (\<lambda>_. None) ([Starts 1] @ replicate 5 (Steps 1) @ [Dies 1, Starts 2] @ replicate 6 (Steps 2)
        @ [Dies 2, Starts 3] @ replicate 4 (Steps 3)) (quiet_system None) of
      Some s \<Rightarrow> lf_guard (ls_files s) = Some 2 \<and> 2 \<notin> ls_alive s \<and> owns s 3
        \<and> (case make_move (\<lambda>_. None) (Dies 3) s of
             Some s' \<Rightarrow> lf_guard (ls_files s') = Some 2 \<and> lf_claim (ls_files s') = Some (Claimed \<lparr>oc_owner = 3, oc_generation = 2\<rparr>)
               \<and> 3 \<notin> ls_alive s'
           | None \<Rightarrow> False)
    | None \<Rightarrow> False)"
  by code_simp

end
