(* ===== verification/Prd_Lifecycle.thy ===== *)
theory Prd_Lifecycle
  imports Prelude
begin

text \<open>
  The state of a PRD that every surface shows, \<open>crates/familiar-ai-core/src/lifecycle.rs\<close>: derived from the file,
  the ledger row, the newest attempt, the checkpoint and the open questions; nothing of it is stored.
\<close>

section \<open>The ten states\<close>

datatype prd_lifecycle =
  Draft_Prd | Ready_Prd | Implementing_Prd | Testing_Prd | Reviewed_Prd | Approved_Prd | Completed_Prd
| Blocked_Prd | Failed_Prd | AwaitingFeedback_Prd

definition all_lifecycles :: "prd_lifecycle list" where
  "all_lifecycles = [Draft_Prd, Ready_Prd, Implementing_Prd, Testing_Prd, Reviewed_Prd, Approved_Prd, Completed_Prd,
     Blocked_Prd, Failed_Prd, AwaitingFeedback_Prd]"

definition show_lifecycle :: "prd_lifecycle \<Rightarrow> string" where
  "show_lifecycle l =
     (case l of
        Draft_Prd \<Rightarrow> ''draft'' | Ready_Prd \<Rightarrow> ''ready'' | Implementing_Prd \<Rightarrow> ''implementing'' | Testing_Prd \<Rightarrow> ''testing''
      | Reviewed_Prd \<Rightarrow> ''reviewed'' | Approved_Prd \<Rightarrow> ''approved'' | Completed_Prd \<Rightarrow> ''completed''
      | Blocked_Prd \<Rightarrow> ''blocked'' | Failed_Prd \<Rightarrow> ''failed'' | AwaitingFeedback_Prd \<Rightarrow> ''awaiting_feedback'')"

definition lifecycle_label :: "prd_lifecycle \<Rightarrow> string" where
  "lifecycle_label l =
     (case l of
        Draft_Prd \<Rightarrow> ''Draft'' | Ready_Prd \<Rightarrow> ''Ready'' | Implementing_Prd \<Rightarrow> ''Implementing'' | Testing_Prd \<Rightarrow> ''Testing''
      | Reviewed_Prd \<Rightarrow> ''Reviewed'' | Approved_Prd \<Rightarrow> ''Approved'' | Completed_Prd \<Rightarrow> ''Completed''
      | Blocked_Prd \<Rightarrow> ''Blocked'' | Failed_Prd \<Rightarrow> ''Failed'' | AwaitingFeedback_Prd \<Rightarrow> ''Awaiting feedback'')"

definition is_human_owned :: "prd_lifecycle \<Rightarrow> bool" where
  "is_human_owned l \<longleftrightarrow> l \<in> {Draft_Prd, Ready_Prd, Blocked_Prd}"

definition needs_human :: "prd_lifecycle \<Rightarrow> bool" where
  "needs_human l \<longleftrightarrow> l \<in> {AwaitingFeedback_Prd, Blocked_Prd}"

section \<open>Derivation\<close>

definition human_gate_reasons :: "string list" where
  "human_gate_reasons = [''scope_ambiguous'', ''scope_broadened'', ''human_review_required'']"

definition is_human_gate_reason :: "string \<Rightarrow> bool" where
  "is_human_gate_reason reason \<longleftrightarrow> trim (takeWhile (\<lambda>c. c \<noteq> CHR '':'') reason) \<in> set human_gate_reasons"

record attempt_facts =
  af_outcome :: "string option"
  af_retained_reason :: "string option"
  af_last_phase :: "string option"

definition attempt_running :: "attempt_facts \<Rightarrow> bool" where
  "attempt_running a \<longleftrightarrow> af_outcome a = None"

definition attempt_retained :: "attempt_facts \<Rightarrow> bool" where
  "attempt_retained a \<longleftrightarrow> af_outcome a = Some ''retained''"

definition reached_verification :: "attempt_facts \<Rightarrow> bool" where
  "reached_verification a \<longleftrightarrow>
     af_last_phase a \<in> Some ` {''verification'', ''verified'', ''review'', ''review_complete''}"

record lifecycle_inputs =
  li_file_status :: "string option"
  li_archived :: bool
  li_ledger_status :: "string option"
  li_latest_attempt :: "attempt_facts option"
  li_checkpoint_phase :: "string option"
  li_pending_human_gate :: bool

record derived_lifecycle =
  dl_lifecycle :: prd_lifecycle
  dl_divergence :: "string option"

definition plain_lifecycle :: "prd_lifecycle \<Rightarrow> derived_lifecycle" where
  "plain_lifecycle l = \<lparr>dl_lifecycle = l, dl_divergence = None\<rparr>"

text \<open>What the newest attempt says, if it is retained or still running.\<close>

definition attempt_lifecycle :: "attempt_facts \<Rightarrow> prd_lifecycle option" where
  "attempt_lifecycle a =
     (if attempt_retained a
      then Some (if is_human_gate_reason (case af_retained_reason a of None \<Rightarrow> [] | Some r \<Rightarrow> r)
        then AwaitingFeedback_Prd else Failed_Prd)
      else if attempt_running a
      then Some (if reached_verification a then Testing_Prd else Implementing_Prd)
      else None)"

definition derive_lifecycle :: "lifecycle_inputs \<Rightarrow> derived_lifecycle" where
  "derive_lifecycle i =
     (let recorded = li_ledger_status i = Some ''completed'' \<or> li_checkpoint_phase i = Some ''completed'' in
      if li_archived i \<or> recorded
      then \<lparr>dl_lifecycle = Completed_Prd,
            dl_divergence = (if \<not> li_archived i \<and> recorded
              then Some ''ledger says completed but the file is still in the active directory'' else None)\<rparr>
      else plain_lifecycle (
        if li_file_status i = Some ''blocked'' \<or> li_ledger_status i = Some ''blocked'' then Blocked_Prd
        else if li_file_status i = Some ''draft'' then Draft_Prd
        else if li_checkpoint_phase i = Some ''approved'' then Approved_Prd
        else if li_pending_human_gate i then AwaitingFeedback_Prd
        else if li_checkpoint_phase i = Some ''reviewed'' then Reviewed_Prd
        else case Option.bind (li_latest_attempt i) attempt_lifecycle of
          Some l \<Rightarrow> l
        | None \<Rightarrow> if li_ledger_status i = Some ''in_progress'' \<or> li_file_status i = Some ''in_progress''
            then Implementing_Prd else Ready_Prd))"

section \<open>Facts\<close>

lemma show_lifecycle_inj: "show_lifecycle l = show_lifecycle l' \<longleftrightarrow> l = l'"
  by (cases l; cases l') (simp_all add: show_lifecycle_def)

lemma all_lifecycles_complete: "l \<in> set all_lifecycles"
  by (cases l) (simp_all add: all_lifecycles_def)

text \<open>A PRD that its file blocks or drafts waits for its human, whatever Familiar has recorded short of completion.\<close>

lemma file_keeps_the_prd_with_its_human:
  assumes "li_file_status i \<in> {Some ''blocked'', Some ''draft''}" "\<not> li_archived i"
    "li_ledger_status i \<noteq> Some ''completed''" "li_checkpoint_phase i \<noteq> Some ''completed''"
  shows "is_human_owned (dl_lifecycle (derive_lifecycle i))"
  using assms by (auto simp: derive_lifecycle_def plain_lifecycle_def is_human_owned_def)

text \<open>
  A PRD is shown as failed exactly when nothing else is known of it than a newest attempt that was retained for
  another reason than an open decision.
\<close>

lemma failed_iff:
  "dl_lifecycle (derive_lifecycle i) = Failed_Prd \<longleftrightarrow>
     \<not> li_archived i \<and> li_ledger_status i \<notin> {Some ''completed'', Some ''blocked''}
     \<and> li_checkpoint_phase i \<notin> {Some ''completed'', Some ''approved'', Some ''reviewed''}
     \<and> li_file_status i \<notin> {Some ''blocked'', Some ''draft''} \<and> \<not> li_pending_human_gate i
     \<and> (\<exists>a. li_latest_attempt i = Some a \<and> attempt_retained a
         \<and> \<not> is_human_gate_reason (case af_retained_reason a of None \<Rightarrow> [] | Some r \<Rightarrow> r))"
  by (cases "li_latest_attempt i")
     (auto simp: derive_lifecycle_def plain_lifecycle_def attempt_lifecycle_def Let_def)

text \<open>A row that says \<open>in_progress\<close> wins over a file that says \<open>ready\<close>, also where no attempt is known.\<close>

lemma row_in_progress_beats_the_file:
  "dl_lifecycle (derive_lifecycle \<lparr>li_file_status = Some ''ready'', li_archived = False,
     li_ledger_status = Some ''in_progress'', li_latest_attempt = None, li_checkpoint_phase = None,
     li_pending_human_gate = False\<rparr>) = Implementing_Prd"
  by (simp add: derive_lifecycle_def plain_lifecycle_def)

end
