(* ===== verification/Spec2Isabelle.thy ===== *)
theory Spec2Isabelle
  imports Backlog_Audit Review_Guarantees Shared_Ledger Residency_Safety Control_Guarantees Control_Access
    Context_Guarantees Drive_Warrant Worker_Guarantees
    Checkpoint_Guarantees Resume_Guarantees Resume_Landing Worker_Lock Prd_Lifecycle
begin

text \<open>
  A verification development for familiar-ai, a Rust workspace that plans, runs, reviews and lands
  changes described by PRD documents. The theories model the decision cores of the program, the parts
  in which a wrong branch runs the wrong PRD or accepts the wrong change, and the tables on which they rest.

  How the parts interact: PRD documents are discovered and checked (\<open>Prd_Document\<close>, \<open>Prd_Graph\<close>), a PRD is
  selected and admitted (\<open>Backlog\<close>) and claimed in the database (\<open>Backlog_Store\<close>). An agent changes the
  repository; the review coordinator (\<open>Review_Coordinator\<close>) captures the change (\<open>Review_Evidence\<close>), holds it
  against the scope policy compiled from the PRD (\<open>Expected_Files\<close>, \<open>Scope_Policy\<close>), runs the checks
  (\<open>Review_Verification\<close>), selects a tier (\<open>Review_Tier\<close>), shows the change to an independent reviewer
  within a budget (\<open>Review_Package\<close>), validates what the reviewer says (\<open>Review_Policy\<close>) and repeats after
  remediation until a clean review or a limit. The cycle is stored (\<open>Review_Store\<close>), and the claimed PRD is
  completed only on what is stored (\<open>Backlog_Completion\<close>).

  An unattended session (\<open>Drive_Selection\<close>, \<open>Drive_Batch\<close>, \<open>Drive_Loop\<close>) repeats this: it chooses PRDs that may
  run side by side, starts a worker on each (\<open>Worker_Registry\<close>) with a context (\<open>Context_Compiler\<close>,
  \<open>Context_Budget\<close>) and a share of its warrant (\<open>Reservation\<close>), and records what happened (\<open>Driver_Store\<close>). What it
  leaves behind is kept in checkpoints (\<open>Checkpoint_Store\<close>), resumed in waves (\<open>Resume\<close>, \<open>Resume_Import\<close>) and
  landed (\<open>Resume_Landing\<close>). The control plane (\<open>Control_Plane\<close>, \<open>Control_Service\<close>) queues and claims executions
  for clients within slots that are reservations too; the claim of the installation (\<open>Worker_Lock\<close>) and the
  leases of the control plane keep drivers apart on one host and across hosts.

  The theories, in import order:

  \<^item> \<open>Prelude\<close>: results, machine integers and the operations of Rust's \<open>str\<close> that the models use;
    \<open>Utf8\<close>: \<open>str::from_utf8\<close> and \<open>from_utf8_lossy\<close>.
  \<^item> \<open>Prd_Identity\<close>, \<open>Backlog_Types\<close>, \<open>Prd_Graph\<close>, \<open>Prd_Document\<close>, \<open>Backlog\<close>:
    \<open>crates/familiar-ai-core/src/backlog.rs\<close>.
  \<^item> \<open>Backlog_Store\<close>: \<open>crates/familiar-ai-storage/src/repos/backlog.rs\<close>. \<open>Bootstrap_Store\<close>: \<open>bootstrap.rs\<close> of
    \<open>crates/familiar-ai-core/src\<close> and of \<open>crates/familiar-ai-storage/src/repos\<close>, the PRDs that were completed before
    the backlog was kept. \<open>Backlog_Audit\<close>: all writers of the backlog together keep its audit log complete.
  \<^item> \<open>Review_Types\<close>, \<open>Expected_Files\<close>, \<open>Scope_Policy\<close>, \<open>Review_Policy\<close>, \<open>Review_Tier\<close>,
    \<open>Review_Evidence\<close>, \<open>Review_Package\<close>, \<open>Review_Verification\<close>: the files \<open>types.rs\<close>,
    \<open>expected_files.rs\<close>, \<open>policy.rs\<close>, \<open>tier.rs\<close>, \<open>evidence.rs\<close>, \<open>package.rs\<close> and \<open>verification.rs\<close> of
    \<open>crates/familiar-ai-review/src\<close>.
  \<^item> \<open>Review_Cycle\<close>, \<open>Review_Coordinator\<close>: \<open>coordinator.rs\<close> of the same crate. A piece of the coordinator
    is a function of the cycle and of an arbitrary world; \<open>Review_Safety\<close> has weakest preconditions for
    such pieces, the invariant \<open>steady\<close> of a running cycle and \<open>settled\<close>, which every returned cycle
    meets; \<open>Review_Guarantees\<close> states what that means for a run.
  \<^item> \<open>Reservation\<close>: \<open>crates/familiar-ai-storage/src/repos/reservation.rs\<close>, the typed pools from which
    components reserve budget, memory and slots; \<open>Reservation_Ledger\<close>: conservation of the pools over all
    operations, and the refinement of an abstract ledger of free and held amounts. \<open>Shared_Ledger\<close>: what is
    conserved when the control plane, which sizes and takes slots in the same tables, runs in between.
  \<^item> \<open>Effects\<close>: the error type of \<open>crates/familiar-ai-core/src/error.rs\<close> and the state and error monad, with
    its weakest preconditions, in which effectful code is written.
  \<^item> \<open>Model_Residency\<close>: the manager of \<open>crates/familiar-ai-daemon/src/model_residency.rs\<close>, which keeps model
    servers loaded; the launcher and the database it calls are arguments. \<open>Residency_Safety\<close>: the table of
    residents stays within the configured ceilings over every call.

  \<^item> \<open>Control_Plane\<close>: the tables of \<open>crates/familiar-ai-storage/src/repos/control_plane.rs\<close> with every
    operation on them; \<open>Control_Service\<close>: \<open>crates/familiar-ai-daemon/src/control_plane.rs\<close>, who may do what.
    \<open>Control_Safety\<close>: the invariants of every reachable database; \<open>Control_Guarantees\<close>, \<open>Control_Access\<close>: what
    a client may rely on, leases and the sessions of agents.
  \<^item> \<open>Context_Compiler\<close>, \<open>Context_Budget\<close>: \<open>crates/familiar-ai-context/src/lib.rs\<close> and \<open>budget.rs\<close>, the documents
    that an agent gets; \<open>Context_Guarantees\<close>: when the compiler returns, and the ceiling on the tokens.
  \<^item> \<open>Drive_Selection\<close>, \<open>Drive_Batch\<close>, \<open>Drive_Loop\<close>: \<open>crates/familiar-ai-daemon/src/drive.rs\<close>, from the warrant
    to the loop. A session is a run over the inputs of its passes. \<open>Drive_Guarantees\<close>, \<open>Drive_Width\<close>,
    \<open>Drive_Safety\<close>: batches and workers in flight are apart, the width is a maximum, every session ends;
    \<open>Drive_Warrant\<close>: the loop with the ledger of reservations; \<open>Drive_Examples\<close>: concrete sessions.
  \<^item> \<open>Endpoint_Trust\<close>, \<open>Worker_Config\<close>, \<open>Worker_Validation\<close>:
    \<open>crates/familiar-ai-core/src/config/registry_workers.rs\<close>; \<open>Worker_Registry\<close>:
    \<open>crates/familiar-ai-agent/src/registry.rs\<close>, the choice of a worker; \<open>Worker_Guarantees\<close>: what a chosen worker
    and a plan satisfy.
  \<^item> \<open>Driver_Store\<close>, \<open>Checkpoint_Store\<close>, \<open>Review_Store\<close>: \<open>driver.rs\<close>, \<open>checkpoint.rs\<close> with
    \<open>orchestration.rs\<close>, and \<open>review.rs\<close> of \<open>crates/familiar-ai-storage/src/repos\<close>. \<open>Driver_Safety\<close>,
    \<open>Landing_Store\<close>: the statements with which the landings of \<open>drive.rs\<close> and the approval of a checkpoint write
    these tables. \<open>Checkpoint_Safety\<close>: what every reachable database keeps, under all of these writers;
    \<open>Checkpoint_Guarantees\<close>: what recovery relies on.
  \<^item> \<open>Backlog_Completion\<close>: \<open>complete_run_with\<close> of \<open>repos/backlog.rs\<close> over the tables of the backlog and of the
    reviews; \<open>Completion_Guarantees\<close>: a completed PRD has earned it, and clean reviews that cannot complete.
  \<^item> \<open>Resume\<close>, \<open>Resume_Import\<close>, \<open>Resume_Landing\<close>: \<open>crates/familiar-ai-daemon/src/resume.rs\<close>;
    \<open>Resume_Guarantees\<close>: which candidates are offered as valid, a commit of the operator included, and the
    schedule of waves.
  \<^item> \<open>Worker_Lock\<close>: \<open>crates/familiar-ai-daemon/src/worker_lock.rs\<close>, as the interleavings of processes that may
    die between two accesses to the file system.
  \<^item> \<open>Prd_Lifecycle\<close>: \<open>crates/familiar-ai-core/src/lifecycle.rs\<close>, the state of a PRD that is shown.

  A repository over SQLite is modelled by its tables: a row map for the backlog, elsewhere the rows in
  insertion order. An operation returns an error, which leaves the tables as they were, or the new tables;
  a statement checks the keys, \<open>CHECK\<close> clauses and foreign keys of the migrations that it could violate.

  The interfaces are locales: \<open>backlog_source\<close> and \<open>backlog_status_store\<close> are the traits
  \<open>BacklogDiscovery\<close> and \<open>BacklogStatusStore\<close>, interpreted by file-system discovery and by the database
  model; \<open>path_entry\<close> is matching a path against a declared entry, interpreted by expected and by
  configured entries; \<open>verification_runner\<close> is the trait \<open>VerificationRunner\<close>, interpreted by the command
  runner and relied on by \<open>clean_review_sound\<close>.

  Strings are UTF-8 byte lists. A printed, parsed, added or multiplied \<open>u64\<close> is a \<open>64 word\<close>; lengths,
  indices and attempt counters below their limit are \<open>nat\<close>. An error is \<open>Inl\<close> of the source's error;
  where the code can unwind the error type is \<open>fault\<close>, with \<open>Panic\<close>.

  Loops: the graph search has as much fuel as there are PRDs, which is always enough
  (\<open>visit_post_holds\<close>); the coordinator's loops recurse on the attempts that are left; the loop that
  settles the size of a package has no bound in the code and is a \<open>partial_function\<close>, with
  \<open>build_review_request_total\<close> for codecs whose output grows with the numbers it prints. The scan of a PRD
  for references is a \<open>partial_function\<close> as well, since it loops on some configured roots:
  \<open>discovery_returns_iff\<close> says on which. The walk over dependency components and the waves of a resume are
  functions with a measure. The loop of the driver has no bound of its own; \<open>session_ends\<close> bounds its passes.

  Not modelled: process spawning, git, agents, the clock, serde, SHA-256 and the SQLite engine are
  parameters or assumed to work, and failures of SQLite roll a transaction back. The composition of one run
  in \<open>run.rs\<close>, delivery, agent runtimes, provider clients, the files of the configuration, accounting, the
  renewal of leases by a thread and the user interfaces are listed as not modelled in the manifest.
\<close>

end
